(* ===== verification/Prelude.thy ===== *)
theory Prelude
  imports "HOL-Library.Word" "HOL-Library.Signed_Division" "HOL-Library.Monad_Syntax"
begin

text \<open>
  What every component of the development shares: the names of the machine integer types,
  the collections of simplification rules, and the generic lemmas on lists, options and
  words that carry the component proofs.

  Conventions. An \<open>option\<close> result stands for a run of the C code: \<open>None\<close> is an access
  outside an array or outside mapped memory (or another operation C leaves undefined), so a
  theorem that a result is \<open>Some\<close> is a memory safety statement. Status codes the C code
  returns are ordinary values inside \<open>Some\<close>.
\<close>

unbundle bit_operations_syntax

section \<open>Machine integers\<close>

type_synonym u8 = "8 word"
type_synonym u16 = "16 word"
type_synonym u32 = "32 word"

named_theorems arr_simps \<open>reads and writes of C arrays\<close>
named_theorems inv_intros \<open>preservation of the component invariants\<close>

section \<open>Error codes\<close>

text \<open>
  What the kernel side of the drivers returns: the negated errno values, \<open>EFAIL\<close> for a plain -1,
  and \<open>ECORE\<close> for a code that comes from a function pointer.
\<close>

datatype errno = EFAULT | ENXIO | ENOMEM | EEXIST | ENOBUFS | EFAIL | ECORE int

section \<open>C arrays as lists\<close>

text \<open>Reading and writing an array by an index; outside the array the access faults.\<close>

definition arr_get :: "'a list \<Rightarrow> nat \<Rightarrow> 'a option" where
  "arr_get xs i = (if i < length xs then Some (xs ! i) else None)"

definition arr_set :: "'a list \<Rightarrow> nat \<Rightarrow> 'a \<Rightarrow> 'a list option" where
  "arr_set xs i v = (if i < length xs then Some (xs[i := v]) else None)"

lemma arr_get_in [arr_simps]: "i < length xs \<Longrightarrow> arr_get xs i = Some (xs ! i)"
  by (simp add: arr_get_def)

lemma arr_get_out [arr_simps]: "\<not> i < length xs \<Longrightarrow> arr_get xs i = None"
  by (simp add: arr_get_def)

lemma arr_set_in [arr_simps]: "i < length xs \<Longrightarrow> arr_set xs i v = Some (xs[i := v])"
  by (simp add: arr_set_def)

lemma arr_set_out [arr_simps]: "\<not> i < length xs \<Longrightarrow> arr_set xs i v = None"
  by (simp add: arr_set_def)

lemma arr_set_Some_iff: "arr_set xs i v = Some ys \<longleftrightarrow> i < length xs \<and> ys = xs[i := v]"
  by (auto simp: arr_set_def)

lemma arr_get_Some_iff: "arr_get xs i = Some v \<longleftrightarrow> i < length xs \<and> v = xs ! i"
  by (auto simp: arr_get_def)

lemma take_Suc_update:
  "i < length xs \<Longrightarrow> take (Suc i) (xs[i := v]) = take i xs @ [v]"
  by (simp add: take_Suc_conv_app_nth)

section \<open>Bounded words\<close>

lemma unat_lt_8: "unat (w :: u8) < 256"
proof -
  have "unat w < 2 ^ LENGTH(8)" by (rule unsigned_less)
  then show ?thesis by simp
qed

lemma unat_lt_32: "unat (w :: u32) < 4294967296"
proof -
  have "unat w < 2 ^ LENGTH(32)" by (rule unsigned_less)
  then show ?thesis by simp
qed

lemma unat_add1_32: "unat w < 4294967295 \<Longrightarrow> unat (w + 1 :: u32) = Suc (unat w)"
  by (simp add: unat_word_ariths)

text \<open>Two bytes are equal when their eight bits are; masks then compute bit by bit.\<close>

lemma byte_eqI:
  fixes v w :: u8
  assumes "bit v 0 = bit w 0" "bit v 1 = bit w 1" "bit v 2 = bit w 2" "bit v 3 = bit w 3"
    "bit v 4 = bit w 4" "bit v 5 = bit w 5" "bit v 6 = bit w 6" "bit v 7 = bit w 7"
  shows "v = w"
proof (rule bit_word_eqI)
  fix n :: nat
  assume "n < LENGTH(8)"
  then have "n \<in> {0, 1, 2, 3, 4, 5, 6, 7}" by auto
  then show "bit v n = bit w n" using assms by auto
qed

lemma bit_if: "bit (if c then x else y) n \<longleftrightarrow> (if c then bit x n else bit y n)"
  by simp

lemma ucast_back_8: "(ucast (ucast v :: u32) :: u8) = v" for v :: u8
  by (rule byte_eqI; simp add: bit_simps)

end
