(* ===== verification/KcsHal.thy ===== *)
theory KcsHal imports Prelude begin

text \<open>
  The hardware interface of the KCS driver: the table of operations \<open>kcs_hal_operations_t\<close>
  (kcs.h) through which the core reaches the KCS registers, the contract those operations
  keep, and the ASPEED implementation of the table (ast_kcs.c) over memory-mapped registers.

  The registers themselves are hardware: the driver's functions take the two accessors
  \<open>ioread32\<close> and \<open>iowrite32\<close> as an argument, and what the AST LPC controller documents of
  its KCS registers is the locale \<open>lpc_kcs_device\<close>.
\<close>

unbundle bit_operations_syntax

section \<open>The operations table\<close>

record 'h kcs_hal_ops =
  num_kcs_ch :: u8
  enable_kcs_interrupt :: "u8 \<Rightarrow> 'h \<Rightarrow> 'h"
  disable_kcs_interrupt :: "u8 \<Rightarrow> 'h \<Rightarrow> 'h"
  read_kcs_status :: "u8 \<Rightarrow> 'h \<Rightarrow> u8 \<times> 'h"
  write_kcs_status :: "u8 \<Rightarrow> u8 \<Rightarrow> 'h \<Rightarrow> 'h"
  read_kcs_command :: "u8 \<Rightarrow> 'h \<Rightarrow> u8 \<times> 'h"
  read_kcs_data_in :: "u8 \<Rightarrow> 'h \<Rightarrow> u8 \<times> 'h"
  write_kcs_data_out :: "u8 \<Rightarrow> u8 \<Rightarrow> 'h \<Rightarrow> 'h"
  kcs_interrupt_enable_user :: "u8 \<Rightarrow> 'h \<Rightarrow> 'h"
  kcs_interrupt_disable_user :: "u8 \<Rightarrow> 'h \<Rightarrow> 'h"
  kcs_set_obf_status :: "u8 \<Rightarrow> 'h \<Rightarrow> 'h"

text \<open>
  What the core relies on. \<open>status\<close>, \<open>din\<close> and \<open>dout\<close> are the three registers of a channel.
  Of the status register the driver writes the state bits (7:6), two user bits and SMS_ATN
  (bit 2); command/data (bit 3) and input-buffer-full (bit 1) are the hardware's, and writing
  0 to output-buffer-full (bit 0) clears it. Reading the input register clears
  input-buffer-full; writing the output register sets output-buffer-full. \<open>chan\<close> holds for
  the channel numbers the hardware has.
\<close>

locale kcs_hal_contract =
  fixes ops :: "'h kcs_hal_ops"
    and chan :: "u8 \<Rightarrow> bool"
    and status :: "u8 \<Rightarrow> 'h \<Rightarrow> u8"
    and din :: "u8 \<Rightarrow> 'h \<Rightarrow> u8"
    and dout :: "u8 \<Rightarrow> 'h \<Rightarrow> u8"
  assumes rd_status: "chan c \<Longrightarrow> read_kcs_status ops c h = (status c h, h)"
    and wr_status_hi:
      "chan c \<Longrightarrow> status c (write_kcs_status ops c v h) AND 0xF4 = v AND 0xF4"
    and wr_status_lo:
      "chan c \<Longrightarrow> status c (write_kcs_status ops c v h) AND 0x0A = status c h AND 0x0A"
    and wr_status_obf:
      "chan c \<Longrightarrow> status c (write_kcs_status ops c v h) AND 0x01 = status c h AND v AND 0x01"
    and wr_status_din: "chan c \<Longrightarrow> din c (write_kcs_status ops c v h) = din c h"
    and wr_status_dout: "chan c \<Longrightarrow> dout c (write_kcs_status ops c v h) = dout c h"
    and rd_data_val: "chan c \<Longrightarrow> fst (read_kcs_data_in ops c h) = din c h"
    and rd_data_st:
      "chan c \<Longrightarrow> status c (snd (read_kcs_data_in ops c h)) = status c h AND NOT 0x02"
    and rd_data_din: "chan c \<Longrightarrow> din c (snd (read_kcs_data_in ops c h)) = din c h"
    and rd_data_dout: "chan c \<Longrightarrow> dout c (snd (read_kcs_data_in ops c h)) = dout c h"
    and rd_cmd: "chan c \<Longrightarrow> read_kcs_command ops c h = read_kcs_data_in ops c h"
    and wr_data_st: "chan c \<Longrightarrow> status c (write_kcs_data_out ops c v h) = status c h OR 0x01"
    and wr_data_din: "chan c \<Longrightarrow> din c (write_kcs_data_out ops c v h) = din c h"
    and wr_data_dout: "chan c \<Longrightarrow> dout c (write_kcs_data_out ops c v h) = v"
    and set_obf: "chan c \<Longrightarrow> kcs_set_obf_status ops c h = h"
begin

lemmas hal_laws = rd_status wr_status_din wr_status_dout
  rd_data_val rd_data_st rd_data_din rd_data_dout rd_cmd wr_data_st wr_data_din wr_data_dout
  set_obf

end

section \<open>The ASPEED implementation\<close>

text \<open>Register accessors of the memory-mapped controller, relative to its base address.\<close>

record 'd mmio =
  ioread32 :: "u32 \<Rightarrow> 'd \<Rightarrow> u32 \<times> 'd"
  iowrite32 :: "u32 \<Rightarrow> u32 \<Rightarrow> 'd \<Rightarrow> 'd"

text \<open>
  Register offsets (ast_kcs.h). \<open>grp\<close> says whether the build defines GROUP_AST2300 or
  GROUP_AST2300_PLUS, that is, whether the controller has the fourth channel.
\<close>

definition AST_LPC_HICR0 :: u32 where "AST_LPC_HICR0 = 0x00"
definition AST_LPC_HICR2 :: u32 where "AST_LPC_HICR2 = 0x08"
definition AST_LPC_HICR4 :: u32 where "AST_LPC_HICR4 = 0x10"
definition AST_LPC_LADR3H :: u32 where "AST_LPC_LADR3H = 0x14"
definition AST_LPC_LADR3L :: u32 where "AST_LPC_LADR3L = 0x18"
definition AST_LPC_LADR12H :: u32 where "AST_LPC_LADR12H = 0x1C"
definition AST_LPC_LADR12L :: u32 where "AST_LPC_LADR12L = 0x20"
definition AST_LPC_IDR1 :: u32 where "AST_LPC_IDR1 = 0x24"
definition AST_LPC_ODR1 :: u32 where "AST_LPC_ODR1 = 0x30"
definition AST_LPC_STR1 :: u32 where "AST_LPC_STR1 = 0x3C"
definition AST_LPC_HICR5 :: u32 where "AST_LPC_HICR5 = 0x80"
definition AST_LPC_HICR6 :: u32 where "AST_LPC_HICR6 = 0x84"
definition AST_LPC_HICRB :: u32 where "AST_LPC_HICRB = 0x100"
definition AST_LPC_LADR4 :: u32 where "AST_LPC_LADR4 = 0x110"
definition AST_LPC_IDR4 :: u32 where "AST_LPC_IDR4 = 0x114"
definition AST_LPC_ODR4 :: u32 where "AST_LPC_ODR4 = 0x118"
definition AST_LPC_STR4 :: u32 where "AST_LPC_STR4 = 0x11C"
definition LPC_iBTCR2 :: u32 where "LPC_iBTCR2 = 0x148"

lemmas lpc_offsets = AST_LPC_HICR0_def AST_LPC_HICR2_def AST_LPC_HICR4_def AST_LPC_LADR3H_def
  AST_LPC_LADR3L_def AST_LPC_LADR12H_def AST_LPC_LADR12L_def AST_LPC_IDR1_def AST_LPC_ODR1_def
  AST_LPC_STR1_def AST_LPC_HICR5_def AST_LPC_HICR6_def AST_LPC_HICRB_def AST_LPC_LADR4_def
  AST_LPC_IDR4_def AST_LPC_ODR4_def AST_LPC_STR4_def LPC_iBTCR2_def

definition AST_LPC_IDR_CH :: "u8 \<Rightarrow> u32" where
  "AST_LPC_IDR_CH ch = AST_LPC_IDR1 + ucast ch * 0x04"

definition AST_LPC_ODR_CH :: "u8 \<Rightarrow> u32" where
  "AST_LPC_ODR_CH ch = AST_LPC_ODR1 + ucast ch * 0x04"

definition AST_LPC_STR_CH :: "u8 \<Rightarrow> u32" where
  "AST_LPC_STR_CH ch = AST_LPC_STR1 + ucast ch * 0x04"

definition AST_KCS_CHANNEL_NUM :: "bool \<Rightarrow> u8" where
  "AST_KCS_CHANNEL_NUM grp = (if grp then 4 else 3)"

text \<open>
  The driver's state: the device and the table \<open>kcs_enabled_by_user\<close>. All channels of a
  controller share one register base, so \<open>ch_num\<close> does not enter the address.
\<close>

record 'd ast_kcs =
  dev :: 'd
  kcs_enabled_by_user :: "bool list"

definition ast_kcs_read_reg :: "'d mmio \<Rightarrow> u32 \<Rightarrow> 'd ast_kcs \<Rightarrow> u32 \<times> 'd ast_kcs" where
  "ast_kcs_read_reg io reg s = (let (v, d) = ioread32 io reg (dev s) in (v, s\<lparr>dev := d\<rparr>))"

definition ast_kcs_write_reg :: "'d mmio \<Rightarrow> u32 \<Rightarrow> u32 \<Rightarrow> 'd ast_kcs \<Rightarrow> 'd ast_kcs" where
  "ast_kcs_write_reg io data reg s = s\<lparr>dev := iowrite32 io reg data (dev s)\<rparr>"

text \<open>The read-modify-write of a register that most of the functions below are made of.\<close>

definition rmw :: "'d mmio \<Rightarrow> u32 \<Rightarrow> (u32 \<Rightarrow> u32) \<Rightarrow> 'd ast_kcs \<Rightarrow> 'd ast_kcs" where
  "rmw io r f s = (let (v, s1) = ast_kcs_read_reg io r s in ast_kcs_write_reg io (f v) r s1)"

definition ast_kcs_enable_channel :: "bool \<Rightarrow> 'd mmio \<Rightarrow> 'd ast_kcs \<Rightarrow> 'd ast_kcs" where
  "ast_kcs_enable_channel grp io s =
     (let s1 = rmw io AST_LPC_HICR0 (\<lambda>v. v OR (0x80 OR 0x40 OR 0x20)) s
      in if grp then rmw io AST_LPC_HICRB (\<lambda>v. v OR 0x01) s1 else s1)"

definition ast_kcs_disable_channel :: "bool \<Rightarrow> 'd mmio \<Rightarrow> 'd ast_kcs \<Rightarrow> 'd ast_kcs" where
  "ast_kcs_disable_channel grp io s =
     (let s1 = rmw io AST_LPC_HICR0 (\<lambda>v. v AND NOT (0x80 OR 0x40 OR 0x20)) s
      in if grp then rmw io AST_LPC_HICRB (\<lambda>v. v AND NOT 0x01) s1 else s1)"

definition ast_kcs_configure_io_port_addr :: "bool \<Rightarrow> 'd mmio \<Rightarrow> 'd ast_kcs \<Rightarrow> 'd ast_kcs" where
  "ast_kcs_configure_io_port_addr grp io s =
     (let s1 = rmw io AST_LPC_HICR4 (\<lambda>v. v AND NOT 0x80) s;
          s2 = ast_kcs_write_reg io 0x0C AST_LPC_LADR12H s1;
          s3 = ast_kcs_write_reg io 0xA0 AST_LPC_LADR12L s2;
          s4 = rmw io AST_LPC_HICR4 (\<lambda>v. v OR 0x80) s3;
          s5 = ast_kcs_write_reg io 0x0C AST_LPC_LADR12H s4;
          s6 = ast_kcs_write_reg io 0xA8 AST_LPC_LADR12L s5;
          s7 = rmw io AST_LPC_HICR4 (\<lambda>v. v OR 0x04) s6;
          s8 = ast_kcs_write_reg io 0x0C AST_LPC_LADR3H s7;
          s9 = ast_kcs_write_reg io 0xA2 AST_LPC_LADR3L s8
      in if grp
         then ast_kcs_write_reg io 0x0CA70CA6 AST_LPC_LADR4 (rmw io AST_LPC_HICRB (\<lambda>v. v OR 0x01) s9)
         else s9)"

definition ast_kcs_enable_interrupt :: "bool \<Rightarrow> 'd mmio \<Rightarrow> u8 \<Rightarrow> 'd ast_kcs \<Rightarrow> 'd ast_kcs" where
  "ast_kcs_enable_interrupt grp io ch s =
     (if ch = 0 then rmw io AST_LPC_HICR2 (\<lambda>v. v OR 0x02) s
      else if ch = 1 then rmw io AST_LPC_HICR2 (\<lambda>v. v OR 0x04) s
      else if ch = 2 then rmw io AST_LPC_HICR2 (\<lambda>v. v OR 0x08) s
      else if grp \<and> ch = 3 then rmw io AST_LPC_HICRB (\<lambda>v. v OR 0x02) s
      else s)"

definition ast_kcs_disable_interrupt :: "bool \<Rightarrow> 'd mmio \<Rightarrow> u8 \<Rightarrow> 'd ast_kcs \<Rightarrow> 'd ast_kcs" where
  "ast_kcs_disable_interrupt grp io ch s =
     (if ch = 0 then rmw io AST_LPC_HICR2 (\<lambda>v. v AND NOT 0x02) s
      else if ch = 1 then rmw io AST_LPC_HICR2 (\<lambda>v. v AND NOT 0x04) s
      else if ch = 2 then rmw io AST_LPC_HICR2 (\<lambda>v. v AND NOT 0x08) s
      else if grp \<and> ch = 3 then rmw io AST_LPC_HICRB (\<lambda>v. v AND NOT 0x02) s
      else s)"

text \<open>The \<open>(uint8_t)\<close> cast of a register value.\<close>

definition read_reg8 :: "'d mmio \<Rightarrow> u32 \<Rightarrow> 'd ast_kcs \<Rightarrow> u8 \<times> 'd ast_kcs" where
  "read_reg8 io r s = (let (v, s1) = ast_kcs_read_reg io r s in (ucast v, s1))"

definition ast_kcs_read_status :: "bool \<Rightarrow> 'd mmio \<Rightarrow> u8 \<Rightarrow> 'd ast_kcs \<Rightarrow> u8 \<times> 'd ast_kcs" where
  "ast_kcs_read_status grp io ch s =
     (if grp \<and> ch = 3 then read_reg8 io AST_LPC_STR4 s else read_reg8 io (AST_LPC_STR_CH ch) s)"

definition ast_kcs_write_status :: "bool \<Rightarrow> 'd mmio \<Rightarrow> u8 \<Rightarrow> u8 \<Rightarrow> 'd ast_kcs \<Rightarrow> 'd ast_kcs" where
  "ast_kcs_write_status grp io ch st s =
     (if grp \<and> ch = 3 then ast_kcs_write_reg io (ucast st) AST_LPC_STR4 s
      else ast_kcs_write_reg io (ucast st) (AST_LPC_STR_CH ch) s)"

definition ast_kcs_read_command :: "bool \<Rightarrow> 'd mmio \<Rightarrow> u8 \<Rightarrow> 'd ast_kcs \<Rightarrow> u8 \<times> 'd ast_kcs" where
  "ast_kcs_read_command grp io ch s =
     (if grp \<and> ch = 3 then read_reg8 io AST_LPC_IDR4 s else read_reg8 io (AST_LPC_IDR_CH ch) s)"

definition ast_kcs_read_data :: "bool \<Rightarrow> 'd mmio \<Rightarrow> u8 \<Rightarrow> 'd ast_kcs \<Rightarrow> u8 \<times> 'd ast_kcs" where
  "ast_kcs_read_data grp io ch s =
     (if grp \<and> ch = 3 then read_reg8 io AST_LPC_IDR4 s else read_reg8 io (AST_LPC_IDR_CH ch) s)"

definition ast_kcs_write_data :: "bool \<Rightarrow> 'd mmio \<Rightarrow> u8 \<Rightarrow> u8 \<Rightarrow> 'd ast_kcs \<Rightarrow> 'd ast_kcs" where
  "ast_kcs_write_data grp io ch v s =
     (if grp \<and> ch = 3 then ast_kcs_write_reg io (ucast v) AST_LPC_ODR4 s
      else ast_kcs_write_reg io (ucast v) (AST_LPC_ODR_CH ch) s)"

definition ast_kcs_interrupt_enable_user :: "bool \<Rightarrow> 'd mmio \<Rightarrow> u8 \<Rightarrow> 'd ast_kcs \<Rightarrow> 'd ast_kcs" where
  "ast_kcs_interrupt_enable_user grp io ch s =
     (if ch < AST_KCS_CHANNEL_NUM grp
      then ast_kcs_enable_interrupt grp io ch
             (s\<lparr>kcs_enabled_by_user := (kcs_enabled_by_user s)[unat ch := True]\<rparr>)
      else s)"

definition ast_kcs_interrupt_disable_user :: "bool \<Rightarrow> 'd mmio \<Rightarrow> u8 \<Rightarrow> 'd ast_kcs \<Rightarrow> 'd ast_kcs" where
  "ast_kcs_interrupt_disable_user grp io ch s =
     (if ch < AST_KCS_CHANNEL_NUM grp
      then ast_kcs_disable_interrupt grp io ch
             (s\<lparr>kcs_enabled_by_user := (kcs_enabled_by_user s)[unat ch := False]\<rparr>)
      else s)"

text \<open>The body is compiled out (\<open>#if 0\<close>): on this platform the hardware sets OBF.\<close>

definition ast_kcs_set_obf_status :: "u8 \<Rightarrow> 'd ast_kcs \<Rightarrow> 'd ast_kcs" where
  "ast_kcs_set_obf_status ch s = s"

definition ast_kcs_hw_ops :: "bool \<Rightarrow> 'd mmio \<Rightarrow> ('d ast_kcs) kcs_hal_ops" where
  "ast_kcs_hw_ops grp io =
     \<lparr>num_kcs_ch = AST_KCS_CHANNEL_NUM grp,
      enable_kcs_interrupt = ast_kcs_enable_interrupt grp io,
      disable_kcs_interrupt = ast_kcs_disable_interrupt grp io,
      read_kcs_status = ast_kcs_read_status grp io,
      write_kcs_status = ast_kcs_write_status grp io,
      read_kcs_command = ast_kcs_read_command grp io,
      read_kcs_data_in = ast_kcs_read_data grp io,
      write_kcs_data_out = ast_kcs_write_data grp io,
      kcs_interrupt_enable_user = ast_kcs_interrupt_enable_user grp io,
      kcs_interrupt_disable_user = ast_kcs_interrupt_disable_user grp io,
      kcs_set_obf_status = ast_kcs_set_obf_status\<rparr>"

section \<open>Initialisation and the interrupt handler\<close>

text \<open>\<open>lpc2ahb\<close>: whether the build enables the LPC to AHB bridge.\<close>

definition clear_obf :: "bool \<Rightarrow> 'd mmio \<Rightarrow> u8 \<Rightarrow> 'd ast_kcs \<Rightarrow> 'd ast_kcs" where
  "clear_obf grp io ch s =
     (if grp \<and> ch = 3 then rmw io AST_LPC_STR4 (\<lambda>v. v AND NOT 0x01) s
      else rmw io (AST_LPC_STR_CH ch) (\<lambda>v. v AND NOT 0x01) s)"

definition set_error_state :: "bool \<Rightarrow> 'd mmio \<Rightarrow> u8 \<Rightarrow> 'd ast_kcs \<Rightarrow> 'd ast_kcs" where
  "set_error_state grp io ch s =
     (let (st, s1) = ast_kcs_read_status grp io ch s
      in ast_kcs_write_status grp io ch (st OR 0xC0) s1)"

definition kcs_channels :: "bool \<Rightarrow> u8 list" where
  "kcs_channels grp = map of_nat [0..<unat (AST_KCS_CHANNEL_NUM grp)]"

definition ast_kcs_init_hw :: "bool \<Rightarrow> bool \<Rightarrow> 'd mmio \<Rightarrow> 'd ast_kcs \<Rightarrow> 'd ast_kcs" where
  "ast_kcs_init_hw grp lpc2ahb io s =
     (let s1 = (if lpc2ahb then s else rmw io AST_LPC_HICR5 (\<lambda>v. v AND NOT 0x500) s);
          s2 = fold (ast_kcs_disable_interrupt grp io) (kcs_channels grp) s1;
          s3 = ast_kcs_disable_channel grp io s2;
          s4 = ast_kcs_configure_io_port_addr grp io s3;
          s5 = fold (clear_obf grp io) (kcs_channels grp) s4;
          s6 = fold (set_error_state grp io) (kcs_channels grp) s5
      in ast_kcs_enable_channel grp io s6)"

text \<open>
  The scan of the channels in the interrupt handler: every channel whose input buffer is full
  is handed to the core's \<open>process_kcs_intr\<close> (absent while no core is registered), which runs
  on the driver's state \<open>s\<close> and its own state \<open>c\<close>; the flag is the handler's \<open>handled\<close>.
\<close>

fun ast_kcs_irq_scan ::
  "bool \<Rightarrow> 'd mmio \<Rightarrow> (u8 \<Rightarrow> 'd ast_kcs \<times> 'c \<Rightarrow> ('d ast_kcs \<times> 'c) option) option
    \<Rightarrow> u8 list \<Rightarrow> bool \<Rightarrow> 'd ast_kcs \<times> 'c \<Rightarrow> (bool \<times> 'd ast_kcs \<times> 'c) option" where
  "ast_kcs_irq_scan grp io core [] handled (s, c) = Some (handled, s, c)"
| "ast_kcs_irq_scan grp io core (ch # chs) handled (s, c) =
     (let (st, s1) = ast_kcs_read_status grp io ch s
      in if st AND 0x02 \<noteq> 0
         then (case core of
                 None \<Rightarrow> ast_kcs_irq_scan grp io core chs handled (s1, c)
               | Some process \<Rightarrow>
                   do { sc \<leftarrow> process ch (s1, c);
                        ast_kcs_irq_scan grp io core chs True sc })
         else ast_kcs_irq_scan grp io core chs handled (s1, c))"

text \<open>The result's flag is \<open>True\<close> for IRQ_HANDLED and \<open>False\<close> for IRQ_NONE.\<close>

definition ast_kcs_irq_handler ::
  "bool \<Rightarrow> 'd mmio \<Rightarrow> (u8 \<Rightarrow> 'd ast_kcs \<times> 'c \<Rightarrow> ('d ast_kcs \<times> 'c) option) option
    \<Rightarrow> 'd ast_kcs \<times> 'c \<Rightarrow> (bool \<times> 'd ast_kcs \<times> 'c) option" where
  "ast_kcs_irq_handler grp io core sc =
     (let (s, c) = sc;
          (r6, s1) = ast_kcs_read_reg io AST_LPC_HICR6 s
      in if r6 AND (0x01 OR 0x02) \<noteq> 0 then Some (False, s1, c)
         else let (bt, s2) = (if grp then ast_kcs_read_reg io LPC_iBTCR2 s1 else (0, s1))
              in if grp \<and> bt AND 1 \<noteq> 0 then Some (False, s2, c)
                 else let (r2, s3) = ast_kcs_read_reg io AST_LPC_HICR2 s2
                      in if r2 AND (0x40 OR 0x20 OR 0x10) \<noteq> 0 then Some (False, s3, c)
                         else let (rb, s4) = (if grp then ast_kcs_read_reg io AST_LPC_HICRB s3
                                              else (0, s3))
                              in if r2 AND (0x04 OR 0x02 OR 0x08) \<noteq> 0 \<or> grp \<and> rb AND 0x02 \<noteq> 0
                                 then ast_kcs_irq_scan grp io core (kcs_channels grp) False (s4, c)
                                 else Some (False, s4, c))"

section \<open>The controller's registers\<close>

text \<open>The registers of channel \<open>c\<close>.\<close>

definition kcs_str :: "bool \<Rightarrow> u8 \<Rightarrow> u32" where
  "kcs_str grp c = (if grp \<and> c = 3 then AST_LPC_STR4 else AST_LPC_STR_CH c)"

definition kcs_idr :: "bool \<Rightarrow> u8 \<Rightarrow> u32" where
  "kcs_idr grp c = (if grp \<and> c = 3 then AST_LPC_IDR4 else AST_LPC_IDR_CH c)"

definition kcs_odr :: "bool \<Rightarrow> u8 \<Rightarrow> u32" where
  "kcs_odr grp c = (if grp \<and> c = 3 then AST_LPC_ODR4 else AST_LPC_ODR_CH c)"

text \<open>
  What the controller's documentation says of these registers, for accessors \<open>io\<close> of a device
  whose register contents are \<open>reg\<close>: the hypotheses under which the driver implements the
  contract of its core.
\<close>

locale lpc_kcs_device =
  fixes grp :: bool
    and io :: "'d mmio"
    and reg :: "u32 \<Rightarrow> 'd \<Rightarrow> u32"
  assumes rd_str: "c < AST_KCS_CHANNEL_NUM grp \<Longrightarrow>
      ioread32 io (kcs_str grp c) d = (reg (kcs_str grp c) d, d)"
    and rd_idr: "c < AST_KCS_CHANNEL_NUM grp \<Longrightarrow>
      fst (ioread32 io (kcs_idr grp c) d) = reg (kcs_idr grp c) d"
    and rd_idr_ibf: "c < AST_KCS_CHANNEL_NUM grp \<Longrightarrow>
      reg (kcs_str grp c) (snd (ioread32 io (kcs_idr grp c) d)) = reg (kcs_str grp c) d AND NOT 0x02"
    and rd_idr_frame: "c < AST_KCS_CHANNEL_NUM grp \<Longrightarrow> r \<in> {kcs_idr grp c, kcs_odr grp c} \<Longrightarrow>
      reg r (snd (ioread32 io (kcs_idr grp c) d)) = reg r d"
    and wr_str: "c < AST_KCS_CHANNEL_NUM grp \<Longrightarrow>
      reg (kcs_str grp c) (iowrite32 io (kcs_str grp c) v d) =
        (v AND 0xF4) OR (reg (kcs_str grp c) d AND 0x0A) OR (reg (kcs_str grp c) d AND v AND 0x01)"
    and wr_str_frame: "c < AST_KCS_CHANNEL_NUM grp \<Longrightarrow> r \<in> {kcs_idr grp c, kcs_odr grp c} \<Longrightarrow>
      reg r (iowrite32 io (kcs_str grp c) v d) = reg r d"
    and wr_odr: "c < AST_KCS_CHANNEL_NUM grp \<Longrightarrow>
      reg (kcs_odr grp c) (iowrite32 io (kcs_odr grp c) v d) = v"
    and wr_odr_obf: "c < AST_KCS_CHANNEL_NUM grp \<Longrightarrow>
      reg (kcs_str grp c) (iowrite32 io (kcs_odr grp c) v d) = reg (kcs_str grp c) d OR 0x01"
    and wr_odr_frame: "c < AST_KCS_CHANNEL_NUM grp \<Longrightarrow>
      reg (kcs_idr grp c) (iowrite32 io (kcs_odr grp c) v d) = reg (kcs_idr grp c) d"

lemma ast_ops_registers:
  "read_kcs_status (ast_kcs_hw_ops grp io) c s = read_reg8 io (kcs_str grp c) s"
  "write_kcs_status (ast_kcs_hw_ops grp io) c v s = ast_kcs_write_reg io (ucast v) (kcs_str grp c) s"
  "read_kcs_command (ast_kcs_hw_ops grp io) c s = read_reg8 io (kcs_idr grp c) s"
  "read_kcs_data_in (ast_kcs_hw_ops grp io) c s = read_reg8 io (kcs_idr grp c) s"
  "write_kcs_data_out (ast_kcs_hw_ops grp io) c v s = ast_kcs_write_reg io (ucast v) (kcs_odr grp c) s"
  "kcs_set_obf_status (ast_kcs_hw_ops grp io) c s = s"
  by (auto simp: ast_kcs_hw_ops_def ast_kcs_read_status_def ast_kcs_write_status_def
      ast_kcs_read_command_def ast_kcs_read_data_def ast_kcs_write_data_def
      ast_kcs_set_obf_status_def kcs_str_def kcs_idr_def kcs_odr_def)

lemma ucast_and_or_8:
  "(ucast (a AND b) :: u8) = ucast a AND ucast b" "(ucast (a OR b) :: u8) = ucast a OR ucast b"
  for a b :: u32
  by (simp_all add: bit_eq_iff bit_simps) 

lemma not_2_mod_8: "(4294967293 :: u8) = - 3"
  by (rule byte_eqI; simp)

lemma str_masks_8:
  fixes s v :: u8
  shows "((v AND 0xF4) OR (s AND 0x0A) OR (s AND v AND 0x01)) AND 0xF4 = v AND 0xF4"
    "((v AND 0xF4) OR (s AND 0x0A) OR (s AND v AND 0x01)) AND 0x0A = s AND 0x0A"
    "((v AND 0xF4) OR (s AND 0x0A) OR (s AND v AND 0x01)) AND 0x01 = s AND v AND 0x01"
  by (rule byte_eqI; simp add: bit_simps)+

text \<open>The driver's operations keep the contract of the core on any such device.\<close>

sublocale lpc_kcs_device \<subseteq> drv: kcs_hal_contract
  "ast_kcs_hw_ops grp io" "\<lambda>c. c < AST_KCS_CHANNEL_NUM grp"
  "\<lambda>c s. ucast (reg (kcs_str grp c) (dev s))" "\<lambda>c s. ucast (reg (kcs_idr grp c) (dev s))"
  "\<lambda>c s. ucast (reg (kcs_odr grp c) (dev s))"
  by unfold_locales
    (simp_all add: ast_ops_registers read_reg8_def ast_kcs_read_reg_def ast_kcs_write_reg_def
      rd_str rd_idr rd_idr_ibf rd_idr_frame wr_str wr_str_frame wr_odr wr_odr_obf wr_odr_frame
      split_beta ucast_and_or_8 str_masks_8 ucast_back_8 not_2_mod_8)

context lpc_kcs_device begin

lemmas ast_ops_contract = drv.kcs_hal_contract_axioms

end

text \<open>
  A register file with the documented behaviour: it stands in for the controller where a
  closed example needs one.
\<close>

type_synonym lpc_regs = "u32 \<Rightarrow> u32"

definition lpc_ioread32 :: "bool \<Rightarrow> u32 \<Rightarrow> lpc_regs \<Rightarrow> u32 \<times> lpc_regs" where
  "lpc_ioread32 grp r d =
     (d r, fold (\<lambda>c d. if r = kcs_idr grp c
                        then d(kcs_str grp c := d (kcs_str grp c) AND NOT 0x02) else d)
             (kcs_channels grp) d)"

definition lpc_iowrite32 :: "bool \<Rightarrow> u32 \<Rightarrow> u32 \<Rightarrow> lpc_regs \<Rightarrow> lpc_regs" where
  "lpc_iowrite32 grp r v d =
     (if r \<in> kcs_str grp ` set (kcs_channels grp)
      then d(r := (v AND 0xF4) OR (d r AND 0x0A) OR (d r AND v AND 0x01))
      else fold (\<lambda>c d. if r = kcs_odr grp c
                        then d(kcs_str grp c := d (kcs_str grp c) OR 0x01) else d)
             (kcs_channels grp) (d(r := v)))"

definition lpc_mmio :: "bool \<Rightarrow> lpc_regs mmio" where
  "lpc_mmio grp = \<lparr>ioread32 = lpc_ioread32 grp, iowrite32 = lpc_iowrite32 grp\<rparr>"

lemma kcs_channels_list: "kcs_channels grp = (if grp then [0, 1, 2, 3] else [0, 1, 2])"
  by (simp add: kcs_channels_def AST_KCS_CHANNEL_NUM_def upt_rec)

lemma kcs_channel_cases:
  assumes "c < AST_KCS_CHANNEL_NUM grp"
  shows "c = 0 \<or> c = 1 \<or> c = 2 \<or> grp \<and> c = 3"
proof -
  have "unat c < (if grp then 4 else 3)"
    using assms by (simp add: AST_KCS_CHANNEL_NUM_def word_less_nat_alt split: if_splits)
  then have "unat c \<in> {0, 1, 2} \<or> grp \<and> unat c = 3" by (auto split: if_splits)
  then show ?thesis by (auto simp: word_unat_eq_iff)
qed

lemmas kcs_register_offsets = kcs_str_def kcs_idr_def kcs_odr_def AST_LPC_STR_CH_def
  AST_LPC_IDR_CH_def AST_LPC_ODR_CH_def lpc_offsets

interpretation lpc: lpc_kcs_device grp "lpc_mmio grp" "\<lambda>r d. d r" for grp
  by (unfold_locales; elim kcs_channel_cases [THEN disjE] disjE conjE)
    (auto simp: lpc_mmio_def lpc_ioread32_def lpc_iowrite32_def kcs_channels_list
      kcs_register_offsets)

end
