(* ===== verification/KcsCore.thy ===== *)
theory KcsCore imports KcsHal begin

text \<open>
  The KCS core driver (kcsmain.c, kcs_timeout.c): the per-channel buffers, the byte-level
  state machine \<open>kcs_recv_byte\<close> the interrupt handler runs, the request and response calls
  of the character device, and the ioctls. Each definition is one C function (or one branch of
  the two large switches); the result \<open>None\<close> is an access outside one of the two packet arrays.
\<close>

unbundle bit_operations_syntax

section \<open>Constants (kcs.h)\<close>

definition MSG_PAYLOAD_SIZE :: nat where "MSG_PAYLOAD_SIZE = 33 * 1024"
definition MAX_KCS_PKT_LEN :: u32 where "MAX_KCS_PKT_LEN = 33 * 1024"
definition MAX_SEQ_NO :: nat where "MAX_SEQ_NO = 250"

definition KCS_PHASE_IDLE :: u8 where "KCS_PHASE_IDLE = 0x00"
definition KCS_PHASE_WRITE :: u8 where "KCS_PHASE_WRITE = 0x01"
definition KCS_PHASE_WRITE_END :: u8 where "KCS_PHASE_WRITE_END = 0x02"
definition KCS_PHASE_READ :: u8 where "KCS_PHASE_READ = 0x03"
definition KCS_PHASE_ABORT :: u8 where "KCS_PHASE_ABORT = 0x04"
definition KCS_PHASE_ERROR :: u8 where "KCS_PHASE_ERROR = 0x05"
definition ABORT_PHASE_ERROR1 :: u8 where "ABORT_PHASE_ERROR1 = 0x02"
definition ABORT_PHASE_ERROR2 :: u8 where "ABORT_PHASE_ERROR2 = 0x03"

definition KCS_NO_ERROR :: u8 where "KCS_NO_ERROR = 0x00"
definition KCS_ABORTED_BY_COMMAND :: u8 where "KCS_ABORTED_BY_COMMAND = 0x01"
definition KCS_ILLEGAL_CONTROL_CODE :: u8 where "KCS_ILLEGAL_CONTROL_CODE = 0x02"

definition KCS_IDLE_STATE :: u8 where "KCS_IDLE_STATE = 0x00"
definition KCS_READ_STATE :: u8 where "KCS_READ_STATE = 0x40"
definition KCS_WRITE_STATE :: u8 where "KCS_WRITE_STATE = 0x80"
definition KCS_ERROR_STATE :: u8 where "KCS_ERROR_STATE = 0xC0"

definition KCS_ABORT :: u8 where "KCS_ABORT = 0x60"
definition KCS_WRITE_START :: u8 where "KCS_WRITE_START = 0x61"
definition KCS_WRITE_END :: u8 where "KCS_WRITE_END = 0x62"
definition KCS_READ :: u8 where "KCS_READ = 0x68"

definition IS_IBF_SET :: "u8 \<Rightarrow> bool" where "IS_IBF_SET st \<longleftrightarrow> 0 \<noteq> st AND 0x02"
definition IS_WRITE_TO_CMD_REG :: "u8 \<Rightarrow> bool" where "IS_WRITE_TO_CMD_REG st \<longleftrightarrow> 0 \<noteq> st AND 0x08"
definition CHK_STATE_IDLE :: "u8 \<Rightarrow> bool" where "CHK_STATE_IDLE st \<longleftrightarrow> 0 = st AND 0xC0"

lemmas kcs_phases = KCS_PHASE_IDLE_def KCS_PHASE_WRITE_def KCS_PHASE_WRITE_END_def
  KCS_PHASE_READ_def KCS_PHASE_ABORT_def KCS_PHASE_ERROR_def ABORT_PHASE_ERROR1_def
  ABORT_PHASE_ERROR2_def

lemmas kcs_codes = KCS_ABORT_def KCS_WRITE_START_def KCS_WRITE_END_def KCS_READ_def
  KCS_NO_ERROR_def KCS_ABORTED_BY_COMMAND_def KCS_ILLEGAL_CONTROL_CODE_def

lemmas kcs_states = KCS_IDLE_STATE_def KCS_READ_STATE_def KCS_WRITE_STATE_def KCS_ERROR_STATE_def

section \<open>Sleeping with a timeout (kcs\_timeout.c)\<close>

text \<open>
  A sleep structure: the wait queue (\<open>woken\<close>: a wake-up was delivered to it), whether the
  timer is armed, and the flag the timer sets.
\<close>

record sleep_struct =
  woken :: bool
  tim_armed :: bool
  Timeout :: bool

definition Kcs_OsInitSleepStruct :: "sleep_struct \<Rightarrow> sleep_struct" where
  "Kcs_OsInitSleepStruct sl = sl\<lparr>woken := False, tim_armed := False, Timeout := False\<rparr>"

definition Kcs_OsWakeupOnTimeout :: "sleep_struct \<Rightarrow> sleep_struct" where
  "Kcs_OsWakeupOnTimeout sl = sl\<lparr>tim_armed := False, woken := True\<rparr>"

definition SleepTimeOut :: "sleep_struct \<Rightarrow> sleep_struct" where
  "SleepTimeOut sl = sl\<lparr>Timeout := True, woken := True\<rparr>"

text \<open>
  \<open>Kcs_OsSleepOnTimeout\<close> in the two halves around the point where the process blocks: arming
  the sleep, the condition the process waits for, and what is left to do once it runs again
  (the condition holds, or a signal interrupted the wait; the code ignores which).
\<close>

definition sleep_arm :: "nat \<Rightarrow> sleep_struct \<Rightarrow> sleep_struct" where
  "sleep_arm msecs sl = sl\<lparr>Timeout := False, tim_armed := (msecs \<noteq> 0), woken := False\<rparr>"

definition sleep_cond :: "u8 \<Rightarrow> sleep_struct \<Rightarrow> bool" where
  "sleep_cond var sl \<longleftrightarrow> var \<noteq> 0 \<or> Timeout sl"

definition sleep_disarm :: "nat \<Rightarrow> sleep_struct \<Rightarrow> sleep_struct" where
  "sleep_disarm msecs sl = (if msecs \<noteq> 0 then sl\<lparr>tim_armed := False\<rparr> else sl)"

section \<open>The channel state\<close>

text \<open>
  \<open>KCSBuf_T\<close>. \<open>pKCSRcvPkt\<close> points to the \<open>Request\<close> array of the same channel's message (set once,
  in \<open>register_kcs_hal_module\<close>), so the receive packet is that array; \<open>pKCSSendPkt\<close> is unset
  (\<open>False\<close>) until the first response makes it point to the \<open>Response\<close> array.
\<close>

record kcs_buf =
  KCSRcvPktIx :: u32
  KCSSendPktIx :: u32
  KCSSendPktLen :: u32
  pKCSSendPkt :: bool
  KCSPhase :: u8
  AbortPhase :: u8
  KCSError :: u8
  FirstTime :: u8
  KcsReqWait :: sleep_struct
  KcsIFActive :: u8
  KcsWakeup :: u8
  KcsResFirstTime :: u8
  KcsINuse :: u8
  KcsResWait :: sleep_struct
  KcsWtIFActive :: u8
  TxReady :: u8
  PrevCmdAborted :: u8
  KCSSeqNo :: u8

text \<open>The fields of \<open>IPMICmdMsg_T\<close> the driver uses.\<close>

record ipmi_cmd_msg =
  SessionID :: u32
  Request :: "u8 list"
  ResponseSize :: u32
  Response :: "u8 list"

record kcs_chan = kcs_buf +
  msg :: ipmi_cmd_msg

text \<open>Storing at \<open>pKCSRcvPkt[i]\<close> and reading \<open>pKCSSendPkt[i]\<close>.\<close>

definition rcv_store :: "u32 \<Rightarrow> u8 \<Rightarrow> kcs_chan \<Rightarrow> kcs_chan option" where
  "rcv_store i v c =
     do { r \<leftarrow> arr_set (Request (msg c)) (unat i) v; Some (c\<lparr>msg := (msg c)\<lparr>Request := r\<rparr>\<rparr>) }"

definition send_fetch :: "u32 \<Rightarrow> kcs_chan \<Rightarrow> u8 option" where
  "send_fetch i c = (if pKCSSendPkt c then arr_get (Response (msg c)) (unat i) else None)"

section \<open>The byte-level state machine\<close>

definition set_kcs_state :: "'h kcs_hal_ops \<Rightarrow> u8 \<Rightarrow> u8 \<Rightarrow> 'h \<Rightarrow> 'h" where
  "set_kcs_state ops ch state_value h =
     (let (st, h1) = read_kcs_status ops ch h
      in write_kcs_status ops ch ((st AND NOT 0xC0) OR state_value) h1)"

text \<open>Writing the output register and marking it full.\<close>

definition put_data_out :: "'h kcs_hal_ops \<Rightarrow> u8 \<Rightarrow> u8 \<Rightarrow> 'h \<Rightarrow> 'h" where
  "put_data_out ops ch v h = kcs_set_obf_status ops ch (write_kcs_data_out ops ch v h)"

text \<open>The host wrote the command register.\<close>

definition kcs_write_start :: "kcs_chan \<Rightarrow> kcs_chan option" where
  "kcs_write_start c =
     (let seq = (of_nat ((unat (KCSSeqNo c) + 1) mod MAX_SEQ_NO) :: u8);
          c1 = c\<lparr>KCSRcvPktIx := 0, PrevCmdAborted := 0, KCSSeqNo := seq\<rparr>
      in do { c2 \<leftarrow> rcv_store (KCSRcvPktIx c1) seq c1;
              Some (c2\<lparr>KCSRcvPktIx := KCSRcvPktIx c2 + 1, KCSPhase := KCS_PHASE_WRITE\<rparr>) })"

definition kcs_abort :: "kcs_chan \<Rightarrow> kcs_chan" where
  "kcs_abort c =
     (let c1 = (if KcsIFActive c = 0 \<and> FirstTime c = 0 then c\<lparr>PrevCmdAborted := 1\<rparr> else c);
          c2 = (if KCSError c1 = KCS_NO_ERROR then c1\<lparr>KCSError := KCS_ABORTED_BY_COMMAND\<rparr> else c1)
      in c2\<lparr>KCSPhase := KCS_PHASE_ABORT, AbortPhase := ABORT_PHASE_ERROR1\<rparr>)"

definition kcs_recv_command ::
  "'h kcs_hal_ops \<Rightarrow> u8 \<Rightarrow> 'h \<times> kcs_chan \<Rightarrow> ('h \<times> kcs_chan) option" where
  "kcs_recv_command ops ch hc =
     (let (h, c) = hc;
          h1 = set_kcs_state ops ch KCS_WRITE_STATE h;
          (cmd, h2) = read_kcs_command ops ch h1
      in if cmd = KCS_WRITE_START then map_option (Pair h2) (kcs_write_start c)
         else if cmd = KCS_WRITE_END then Some (h2, c\<lparr>KCSPhase := KCS_PHASE_WRITE_END\<rparr>)
         else if cmd = KCS_ABORT then Some (put_data_out ops ch 0 h2, kcs_abort c)
         else Some (set_kcs_state ops ch KCS_ERROR_STATE h2,
                    c\<lparr>KCSError := KCS_ILLEGAL_CONTROL_CODE, KCSPhase := KCS_PHASE_ERROR\<rparr>))"

text \<open>The host wrote the data register, by the phase of the transfer.\<close>

definition kcs_recv_write ::
  "'h kcs_hal_ops \<Rightarrow> u8 \<Rightarrow> 'h \<times> kcs_chan \<Rightarrow> ('h \<times> kcs_chan) option" where
  "kcs_recv_write ops ch hc =
     (let (h, c) = hc;
          h1 = set_kcs_state ops ch KCS_WRITE_STATE h;
          (b, h2) = read_kcs_data_in ops ch h1
      in do { c1 \<leftarrow> rcv_store (KCSRcvPktIx c) b c;
              Some (h2, if KCSRcvPktIx c1 < MAX_KCS_PKT_LEN
                        then c1\<lparr>KCSRcvPktIx := KCSRcvPktIx c1 + 1\<rparr> else c1) })"

definition kcs_recv_write_end ::
  "'h kcs_hal_ops \<Rightarrow> u8 \<Rightarrow> 'h \<times> kcs_chan \<Rightarrow> ('h \<times> kcs_chan) option" where
  "kcs_recv_write_end ops ch hc =
     (let (h, c) = hc;
          h1 = set_kcs_state ops ch KCS_READ_STATE h;
          (b, h2) = read_kcs_data_in ops ch h1
      in do { c1 \<leftarrow> rcv_store (KCSRcvPktIx c) b c;
              let c2 = c1\<lparr>KCSRcvPktIx := KCSRcvPktIx c1 + 1, KCSPhase := KCS_PHASE_READ\<rparr>;
                  c3 = (if KcsINuse c2 \<noteq> 0 then c2\<lparr>KcsWakeup := 1\<rparr> else c2);
                  c4 = (if KcsIFActive c3 \<noteq> 0
                        then c3\<lparr>KcsReqWait := Kcs_OsWakeupOnTimeout (KcsReqWait c3)\<rparr> else c3)
              in Some (h2, c4) })"

definition kcs_recv_read ::
  "'h kcs_hal_ops \<Rightarrow> u8 \<Rightarrow> 'h \<times> kcs_chan \<Rightarrow> ('h \<times> kcs_chan) option" where
  "kcs_recv_read ops ch hc =
     (let (h, c) = hc;
          h1 = (if KCSSendPktIx c = KCSSendPktLen c
                then set_kcs_state ops ch KCS_IDLE_STATE h else h);
          (b, h2) = read_kcs_data_in ops ch h1
      in if b \<noteq> KCS_READ
         then Some (put_data_out ops ch 0 (set_kcs_state ops ch KCS_ERROR_STATE h2), c)
         else if KCSSendPktIx c = KCSSendPktLen c
         then Some (put_data_out ops ch 0 h2, c\<lparr>KCSPhase := KCS_PHASE_IDLE, TxReady := 1\<rparr>)
         else do { v \<leftarrow> send_fetch (KCSSendPktIx c) c;
                   Some (put_data_out ops ch v h2, c\<lparr>KCSSendPktIx := KCSSendPktIx c + 1\<rparr>) })"

definition kcs_recv_abort ::
  "'h kcs_hal_ops \<Rightarrow> u8 \<Rightarrow> 'h \<times> kcs_chan \<Rightarrow> ('h \<times> kcs_chan) option" where
  "kcs_recv_abort ops ch hc =
     (let (h, c) = hc
      in if AbortPhase c = ABORT_PHASE_ERROR1
         then let h1 = set_kcs_state ops ch KCS_READ_STATE h;
                  (b, h2) = read_kcs_data_in ops ch h1
              in Some (put_data_out ops ch (KCSError c) h2, c\<lparr>AbortPhase := ABORT_PHASE_ERROR2\<rparr>)
         else if AbortPhase c = ABORT_PHASE_ERROR2
         then let h1 = set_kcs_state ops ch KCS_IDLE_STATE h;
                  (b, h2) = read_kcs_data_in ops ch h1
              in Some (put_data_out ops ch 0 h2, c\<lparr>KCSPhase := KCS_PHASE_IDLE, AbortPhase := 0\<rparr>)
         else Some (h, c))"

definition kcs_recv_other ::
  "'h kcs_hal_ops \<Rightarrow> u8 \<Rightarrow> 'h \<times> kcs_chan \<Rightarrow> ('h \<times> kcs_chan) option" where
  "kcs_recv_other ops ch hc =
     (let (h, c) = hc; (b, h1) = read_kcs_data_in ops ch h
      in Some (put_data_out ops ch 0 (set_kcs_state ops ch KCS_ERROR_STATE h1), c))"

definition kcs_recv_byte ::
  "'h kcs_hal_ops \<Rightarrow> u8 \<Rightarrow> 'h \<times> kcs_chan \<Rightarrow> ('h \<times> kcs_chan) option" where
  "kcs_recv_byte ops ch hc =
     (let (h, c) = hc; (st, h1) = read_kcs_status ops ch h
      in if IS_WRITE_TO_CMD_REG st then kcs_recv_command ops ch (h1, c)
         else if KCSPhase c = KCS_PHASE_WRITE then kcs_recv_write ops ch (h1, c)
         else if KCSPhase c = KCS_PHASE_WRITE_END then kcs_recv_write_end ops ch (h1, c)
         else if KCSPhase c = KCS_PHASE_READ then kcs_recv_read ops ch (h1, c)
         else if KCSPhase c = KCS_PHASE_ABORT then kcs_recv_abort ops ch (h1, c)
         else kcs_recv_other ops ch (h1, c))"

section \<open>The character device\<close>

text \<open>
  \<open>kcs_read\<close>: the calling process announces itself (\<open>KcsIFActive\<close>) and sleeps on \<open>KcsWakeup\<close>
  with no timeout; once it runs again it takes the flags back and copies the packet out.
  \<open>copy_fails\<close> is \<open>__copy_to_user\<close> reporting a fault. The result is the errno or the bytes.
\<close>

definition kcs_request_enter :: "kcs_chan \<Rightarrow> kcs_chan" where
  "kcs_request_enter c =
     (let c1 = (if FirstTime c \<noteq> 0
                then c\<lparr>KcsReqWait := Kcs_OsInitSleepStruct (KcsReqWait c), FirstTime := 0\<rparr> else c)
      in c1\<lparr>KcsIFActive := 1\<rparr>)"

definition kcs_request_leave :: "bool \<Rightarrow> kcs_chan \<Rightarrow> ((errno + u8 list) \<times> kcs_chan) option" where
  "kcs_request_leave copy_fails c =
     (let c1 = c\<lparr>KcsReqWait := sleep_disarm 0 (KcsReqWait c), KcsWakeup := 0, KcsIFActive := 0\<rparr>
      in if copy_fails then Some (Inl EFAULT, c1)
         else if unat (KCSRcvPktIx c1) \<le> length (Request (msg c1))
         then Some (Inr (take (unat (KCSRcvPktIx c1)) (Request (msg c1))), c1)
         else None)"

text \<open>\<open>kcs_write\<close>: the process hands over a response whose first byte is the sequence number.\<close>

definition send_kcs_response ::
  "'h kcs_hal_ops \<Rightarrow> u8 \<Rightarrow> 'h \<times> kcs_chan \<Rightarrow> ('h \<times> kcs_chan) option" where
  "send_kcs_response ops ch hc =
     (let (h, c) = hc
      in if PrevCmdAborted c \<noteq> 0 then Some (h, c\<lparr>PrevCmdAborted := 0\<rparr>)
         else if ucast (KCSSeqNo c) \<noteq> SessionID (msg c) then Some (h, c)
         else let c1 = c\<lparr>pKCSSendPkt := True, KCSSendPktLen := ResponseSize (msg c),
                         KCSSendPktIx := 0\<rparr>;
                  c2 = c1\<lparr>KCSSendPktIx := KCSSendPktIx c1 + 1\<rparr>
              in do { v \<leftarrow> send_fetch 0 c2; Some (put_data_out ops ch v h, c2) })"

definition copy_response :: "u8 list \<Rightarrow> kcs_chan \<Rightarrow> kcs_chan option" where
  "copy_response buf c =
     (let m = msg c
      in if length buf = 0 \<or> length (Response m) < length buf then None
         else let r = buf @ drop (length buf) (Response m)
              in Some (c\<lparr>msg := m\<lparr>SessionID := ucast (hd r),
                                 Response := tl buf @ drop (length buf - 1) r,
                                 ResponseSize := of_nat (length buf) - 1\<rparr>\<rparr>))"

definition kcs_write_request ::
  "'h kcs_hal_ops \<Rightarrow> u8 \<Rightarrow> bool \<Rightarrow> u8 list \<Rightarrow> 'h \<times> kcs_chan
    \<Rightarrow> ((errno + nat) \<times> 'h \<times> kcs_chan) option" where
  "kcs_write_request ops ch copy_fails buf hc =
     (let (h, c) = hc
      in if copy_fails then Some (Inl EFAULT, h, c)
         else do { c1 \<leftarrow> copy_response buf c;
                   (h2, c2) \<leftarrow> send_kcs_response ops ch (h, c1);
                   let c3 = (if KcsResFirstTime c2 \<noteq> 0
                             then c2\<lparr>KcsResWait := Kcs_OsInitSleepStruct (KcsResWait c2),
                                     KcsResFirstTime := 0\<rparr>
                             else c2)
                   in Some (Inr (length buf), h2,
                            c3\<lparr>KcsWtIFActive := 1\<rparr>\<lparr>TxReady := 0\<rparr>\<lparr>KcsWtIFActive := 0\<rparr>) })"

section \<open>Registration, open and release\<close>

text \<open>
  \<open>register_kcs_hal_module\<close> fills in some fields of a buffer \<open>kmalloc\<close> returned; the others
  (the indices, the phase and the error code among them) keep what was there.
\<close>

definition kcs_register_chan :: "kcs_chan \<Rightarrow> kcs_chan" where
  "kcs_register_chan c =
     c\<lparr>KcsWakeup := 0, TxReady := 0, KcsIFActive := 0, KcsWtIFActive := 0, FirstTime := 1,
       KcsResFirstTime := 1, KcsINuse := 0, PrevCmdAborted := 0, KCSSeqNo := 0\<rparr>"

definition kcs_open_chan :: "u8 \<Rightarrow> kcs_chan \<Rightarrow> kcs_chan" where
  "kcs_open_chan open_count c =
     (if open_count = 1
      then c\<lparr>KCSRcvPktIx := 0, KCSSendPktIx := 0, KCSSendPktLen := 0, KCSPhase := KCS_PHASE_IDLE,
             KcsINuse := 1\<rparr>
      else c)"

definition kcs_release_chan :: "u8 \<Rightarrow> kcs_chan \<Rightarrow> kcs_chan" where
  "kcs_release_chan open_count c = (if open_count = 0 then c\<lparr>KcsINuse := 0\<rparr> else c)"

section \<open>The channels of one controller\<close>

text \<open>\<open>pkcs_buf [ch_num]\<close>: running a handler on one channel of the array.\<close>

type_synonym 'h kcs_sys = "'h \<times> kcs_chan list"

definition on_chan ::
  "u8 \<Rightarrow> ('h \<times> kcs_chan \<Rightarrow> ('h \<times> kcs_chan) option) \<Rightarrow> 'h kcs_sys \<Rightarrow> ('h kcs_sys) option" where
  "on_chan ch f s =
     (let (h, cs) = s
      in do { c \<leftarrow> arr_get cs (unat ch);
              (h1, c1) \<leftarrow> f (h, c);
              Some (h1, cs[unat ch := c1]) })"

text \<open>
  \<open>process_kcs_intr\<close>: \<open>hal\<close> is \<open>hw_intr\<close>'s answer, absent if the device is not registered.
\<close>

definition process_kcs_intr ::
  "'h kcs_hal_ops \<Rightarrow> bool \<Rightarrow> u8 \<Rightarrow> 'h kcs_sys \<Rightarrow> ((errno + unit) \<times> 'h kcs_sys) option" where
  "process_kcs_intr ops hal ch s =
     (if \<not> hal then Some (Inl ENXIO, s)
      else map_option (Pair (Inr ())) (on_chan ch (kcs_recv_byte ops ch) s))"

section \<open>The ioctls\<close>

text \<open>
  The argument of an ioctl is absent when \<open>copy_from_user\<close> fails. Both SMS-bit calls drain a
  pending byte of channel 1, whatever channel they were asked for, and then write back the
  status value they read before.
\<close>

definition sms_bit_update ::
  "'h kcs_hal_ops \<Rightarrow> (u8 \<Rightarrow> u8) \<Rightarrow> u8 option \<Rightarrow> 'h kcs_sys \<Rightarrow> ((errno + unit) \<times> 'h kcs_sys) option" where
  "sms_bit_update ops upd arg s =
     (case arg of
        None \<Rightarrow> Some (Inl EFAULT, s)
      | Some ifc \<Rightarrow>
          (let (h, cs) = s; (st, h1) = read_kcs_status ops ifc h
           in do { (h2, cs2) \<leftarrow> (if IS_IBF_SET st then on_chan 1 (kcs_recv_byte ops 1) (h1, cs)
                                else Some (h1, cs));
                   Some (Inr (), write_kcs_status ops ifc (upd st) h2, cs2) }))"

definition kcs_set_sms_bit ::
  "'h kcs_hal_ops \<Rightarrow> u8 option \<Rightarrow> 'h kcs_sys \<Rightarrow> ((errno + unit) \<times> 'h kcs_sys) option" where
  "kcs_set_sms_bit ops = sms_bit_update ops (\<lambda>st. st OR 0x04)"

definition kcs_clear_sms_bit ::
  "'h kcs_hal_ops \<Rightarrow> u8 option \<Rightarrow> 'h kcs_sys \<Rightarrow> ((errno + unit) \<times> 'h kcs_sys) option" where
  "kcs_clear_sms_bit ops = sms_bit_update ops (\<lambda>st. st AND NOT 0x04)"

definition kcs_set_obf_bit ::
  "'h kcs_hal_ops \<Rightarrow> u8 option \<Rightarrow> 'h kcs_sys \<Rightarrow> ((errno + unit) \<times> 'h kcs_sys) option" where
  "kcs_set_obf_bit ops arg s =
     (case arg of
        None \<Rightarrow> Some (Inl EFAULT, s)
      | Some ifc \<Rightarrow>
          (let (h, cs) = s; (st, h1) = read_kcs_status ops ifc h
           in Some (Inr (), if CHK_STATE_IDLE st then write_kcs_data_out ops ifc st h1 else h1, cs)))"

definition Write_kcs_status_data ::
  "'h kcs_hal_ops \<Rightarrow> (u8 \<times> u8) option \<Rightarrow> 'h kcs_sys \<Rightarrow> ((errno + unit) \<times> 'h kcs_sys) option" where
  "Write_kcs_status_data ops arg s =
     (case arg of
        None \<Rightarrow> Some (Inl EFAULT, s)
      | Some (ifc, v) \<Rightarrow>
          (let (h, cs) = s; (st, h1) = read_kcs_status ops ifc h
           in Some (Inr (), write_kcs_status ops ifc ((st AND 0x3F) OR push_bit 6 v) h1, cs)))"

definition hal_ioctl ::
  "(u8 \<Rightarrow> 'h \<Rightarrow> 'h) \<Rightarrow> u8 option \<Rightarrow> 'h kcs_sys \<Rightarrow> ((errno + unit) \<times> 'h kcs_sys) option" where
  "hal_ioctl f arg s =
     (case arg of None \<Rightarrow> Some (Inl EFAULT, s) | Some ifc \<Rightarrow> Some (Inr (), f ifc (fst s), snd s))"

definition kcs_interrupt_enable ::
  "'h kcs_hal_ops \<Rightarrow> u8 option \<Rightarrow> 'h kcs_sys \<Rightarrow> ((errno + unit) \<times> 'h kcs_sys) option" where
  "kcs_interrupt_enable ops = hal_ioctl (enable_kcs_interrupt ops)"

definition kcs_interrupt_disable ::
  "'h kcs_hal_ops \<Rightarrow> u8 option \<Rightarrow> 'h kcs_sys \<Rightarrow> ((errno + unit) \<times> 'h kcs_sys) option" where
  "kcs_interrupt_disable ops = hal_ioctl (disable_kcs_interrupt ops)"

definition kcs_set_user_interrupt_enable ::
  "'h kcs_hal_ops \<Rightarrow> u8 option \<Rightarrow> 'h kcs_sys \<Rightarrow> ((errno + unit) \<times> 'h kcs_sys) option" where
  "kcs_set_user_interrupt_enable ops = hal_ioctl (kcs_interrupt_enable_user ops)"

definition kcs_set_user_interrupt_disable ::
  "'h kcs_hal_ops \<Rightarrow> u8 option \<Rightarrow> 'h kcs_sys \<Rightarrow> ((errno + unit) \<times> 'h kcs_sys) option" where
  "kcs_set_user_interrupt_disable ops = hal_ioctl (kcs_interrupt_disable_user ops)"

text \<open>
  The dispatch. \<open>testing\<close>: \<open>m_kcs_hw_test_enable\<close> is ENABLE_DRIVER_TESTING. The three
  hardware test calls poll the registers without bound and are not modelled: \<open>hw_test\<close> is
  what they do in the test mode; outside it they do nothing.
\<close>

datatype kcs_ioctl_cmd =
    SET_SMS_BIT "u8 option"
  | CLEAR_SMS_BIT "u8 option"
  | ENABLE_KCS_INTERRUPT "u8 option"
  | DISABLE_KCS_INTERRUPT "u8 option"
  | SET_OBF_BIT "u8 option"
  | KCS_ENABLE "u8 option"
  | KCS_DISABLE "u8 option"
  | SET_STATUS_DATA "(u8 \<times> u8) option"
  | HW_TEST
  | OTHER_IOCTL

fun kcs_ioctlUnlocked ::
  "'h kcs_hal_ops \<Rightarrow> ('h kcs_sys \<Rightarrow> ((errno + unit) \<times> 'h kcs_sys) option) \<Rightarrow> bool
    \<Rightarrow> kcs_ioctl_cmd \<Rightarrow> 'h kcs_sys \<Rightarrow> ((errno + unit) \<times> 'h kcs_sys) option" where
  "kcs_ioctlUnlocked ops hw_test testing (SET_SMS_BIT a) s = kcs_set_sms_bit ops a s"
| "kcs_ioctlUnlocked ops hw_test testing (CLEAR_SMS_BIT a) s = kcs_clear_sms_bit ops a s"
| "kcs_ioctlUnlocked ops hw_test testing (ENABLE_KCS_INTERRUPT a) s =
     (if testing then kcs_interrupt_enable ops a s else Some (Inr (), s))"
| "kcs_ioctlUnlocked ops hw_test testing (DISABLE_KCS_INTERRUPT a) s =
     (if testing then kcs_interrupt_disable ops a s else Some (Inr (), s))"
| "kcs_ioctlUnlocked ops hw_test testing (SET_OBF_BIT a) s = kcs_set_obf_bit ops a s"
| "kcs_ioctlUnlocked ops hw_test testing (KCS_ENABLE a) s = kcs_set_user_interrupt_enable ops a s"
| "kcs_ioctlUnlocked ops hw_test testing (KCS_DISABLE a) s = kcs_set_user_interrupt_disable ops a s"
| "kcs_ioctlUnlocked ops hw_test testing (SET_STATUS_DATA a) s = Write_kcs_status_data ops a s"
| "kcs_ioctlUnlocked ops hw_test testing HW_TEST s = (if testing then hw_test s else Some (Inr (), s))"
| "kcs_ioctlUnlocked ops hw_test testing OTHER_IOCTL s = Some (Inr (), s)"

end
