(* ===== verification/KcsProtocol.thy ===== *)
theory KcsProtocol imports KcsCore begin

text \<open>
  The KCS transfer as the host sees it: the host writes the command or the data register, the
  interrupt handler runs \<open>kcs_recv_byte\<close>, and after a response has been handed over the host
  takes it out byte by byte. The lemmas are proved once for any hardware that keeps
  \<open>kcs_hal_contract\<close> (and lets the host write the registers as the interface documents).
\<close>

unbundle bit_operations_syntax

section \<open>The host's side of the interface\<close>

text \<open>
  Writing the command or the data register stores the byte, sets input-buffer-full (bit 1) and
  sets or clears the command/data flag (bit 3).
\<close>

locale kcs_host_contract = kcs_hal_contract ops chan status din dout
  for ops :: "'h kcs_hal_ops" and chan status din dout +
  fixes host_cmd :: "u8 \<Rightarrow> u8 \<Rightarrow> 'h \<Rightarrow> 'h"
    and host_data :: "u8 \<Rightarrow> u8 \<Rightarrow> 'h \<Rightarrow> 'h"
  assumes cmd_st: "chan c \<Longrightarrow> status c (host_cmd c v h) = status c h OR 0x0A"
    and cmd_din: "chan c \<Longrightarrow> din c (host_cmd c v h) = v"
    and data_st: "chan c \<Longrightarrow> status c (host_data c v h) = (status c h AND NOT 0x08) OR 0x02"
    and data_din: "chan c \<Longrightarrow> din c (host_data c v h) = v"
    and data_dout: "chan c \<Longrightarrow> dout c (host_data c v h) = dout c h"

section \<open>Host transfers\<close>

text \<open>One register write of the host, and the interrupt it raises.\<close>

definition kcs_cmd_intr ::
  "'h kcs_hal_ops \<Rightarrow> (u8 \<Rightarrow> u8 \<Rightarrow> 'h \<Rightarrow> 'h) \<Rightarrow> u8 \<Rightarrow> u8 \<Rightarrow> 'h \<times> kcs_chan \<Rightarrow> ('h \<times> kcs_chan) option" where
  "kcs_cmd_intr ops host_cmd ch v s = kcs_recv_byte ops ch (host_cmd ch v (fst s), snd s)"

fun kcs_data_intrs ::
  "'h kcs_hal_ops \<Rightarrow> (u8 \<Rightarrow> u8 \<Rightarrow> 'h \<Rightarrow> 'h) \<Rightarrow> u8 \<Rightarrow> u8 list \<Rightarrow> 'h \<times> kcs_chan \<Rightarrow> ('h \<times> kcs_chan) option" where
  "kcs_data_intrs ops host_data ch [] s = Some s"
| "kcs_data_intrs ops host_data ch (v # vs) s =
     do { s1 \<leftarrow> kcs_recv_byte ops ch (host_data ch v (fst s), snd s);
          kcs_data_intrs ops host_data ch vs s1 }"

text \<open>A write transfer: WRITE\_START, all bytes but the last, WRITE\_END, the last byte.\<close>

definition kcs_host_write ::
  "'h kcs_hal_ops \<Rightarrow> (u8 \<Rightarrow> u8 \<Rightarrow> 'h \<Rightarrow> 'h) \<Rightarrow> (u8 \<Rightarrow> u8 \<Rightarrow> 'h \<Rightarrow> 'h) \<Rightarrow> u8 \<Rightarrow> u8 list \<Rightarrow> u8
    \<Rightarrow> 'h \<times> kcs_chan \<Rightarrow> ('h \<times> kcs_chan) option" where
  "kcs_host_write ops host_cmd host_data ch bs b s =
     do { s1 \<leftarrow> kcs_cmd_intr ops host_cmd ch KCS_WRITE_START s;
          s2 \<leftarrow> kcs_data_intrs ops host_data ch bs s1;
          s3 \<leftarrow> kcs_cmd_intr ops host_cmd ch KCS_WRITE_END s2;
          kcs_data_intrs ops host_data ch [b] s3 }"

text \<open>A read transfer of \<open>n\<close> bytes: take the output register, answer with READ.\<close>

fun kcs_host_read ::
  "'h kcs_hal_ops \<Rightarrow> (u8 \<Rightarrow> 'h \<Rightarrow> u8) \<Rightarrow> (u8 \<Rightarrow> u8 \<Rightarrow> 'h \<Rightarrow> 'h) \<Rightarrow> u8 \<Rightarrow> nat
    \<Rightarrow> 'h \<times> kcs_chan \<Rightarrow> (u8 list \<times> 'h \<times> kcs_chan) option" where
  "kcs_host_read ops dout host_data ch 0 s = Some ([], s)"
| "kcs_host_read ops dout host_data ch (Suc n) s =
     do { s1 \<leftarrow> kcs_data_intrs ops host_data ch [KCS_READ] s;
          (vs, s2) \<leftarrow> kcs_host_read ops dout host_data ch n s1;
          Some (dout ch (fst s) # vs, s2) }"

section \<open>The status register under the driver's writes\<close>

lemma byte_split: "w = (w AND 0xF4) OR (w AND 0x0A) OR (w AND 0x01)" for w :: u8
  by (rule byte_eqI; simp add: bit_simps)

lemma state_masks:
  fixes st v :: u8
  assumes "v AND 0x3F = 0"
  shows "(((st AND NOT 0xC0) OR v) AND 0xF4) OR (st AND 0x0A)
      OR (st AND ((st AND NOT 0xC0) OR v) AND 0x01) = (st AND 0x3F) OR v"
proof -
  have v: "v = v AND 0xC0"
  proof -
    have "v = (v AND 0x3F) OR (v AND 0xC0)" by (rule byte_eqI; simp add: bit_simps)
    then show ?thesis using assms by simp
  qed
  show ?thesis by (subst (1 2 3) v, rule byte_eqI; simp add: bit_simps)
qed

lemma state_codes [simp]:
  "KCS_IDLE_STATE AND 0x3F = 0" "KCS_READ_STATE AND 0x3F = 0" "KCS_WRITE_STATE AND 0x3F = 0"
  "KCS_ERROR_STATE AND 0x3F = 0"
  by (simp_all add: kcs_states)

context kcs_hal_contract begin

lemma write_status_eq:
  assumes "chan c"
  shows "status c (write_kcs_status ops c v h) =
    (v AND 0xF4) OR (status c h AND 0x0A) OR (status c h AND v AND 0x01)"
  by (subst byte_split) (simp add: wr_status_hi wr_status_lo wr_status_obf assms)

lemma set_state_st:
  assumes "chan c" "v AND 0x3F = 0"
  shows "status c (set_kcs_state ops c v h) = (status c h AND 0x3F) OR v"
  using assms state_masks [OF assms(2), of "status c h"]
  by (simp add: set_kcs_state_def rd_status write_status_eq)

lemma set_state_data:
  assumes "chan c"
  shows "din c (set_kcs_state ops c v h) = din c h" "dout c (set_kcs_state ops c v h) = dout c h"
  using assms by (simp_all add: set_kcs_state_def rd_status wr_status_din wr_status_dout)

lemma put_out:
  assumes "chan c"
  shows "status c (put_data_out ops c v h) = status c h OR 0x01"
    "din c (put_data_out ops c v h) = din c h" "dout c (put_data_out ops c v h) = v"
  using assms by (simp_all add: put_data_out_def set_obf wr_data_st wr_data_din wr_data_dout)

lemma read_data_pair:
  assumes "chan c"
  obtains h' where "read_kcs_data_in ops c h = (din c h, h')"
    "status c h' = status c h AND NOT 0x02" "din c h' = din c h" "dout c h' = dout c h"
  using assms rd_data_val [of c h] rd_data_st [of c h] rd_data_din [of c h] rd_data_dout [of c h]
  by (cases "read_kcs_data_in ops c h") auto

end

section \<open>Single steps of the handler\<close>

text \<open>
  \<open>received c\<close> is the packet the channel has taken in so far; \<open>kcs_chan_wf\<close> holds the sizes of
  the two arrays (the type IPMICmdMsg\_T fixes them).
\<close>

definition received :: "kcs_chan \<Rightarrow> u8 list" where
  "received c = take (unat (KCSRcvPktIx c)) (Request (msg c))"

definition kcs_chan_wf :: "kcs_chan \<Rightarrow> bool" where
  "kcs_chan_wf c \<longleftrightarrow> length (Request (msg c)) = MSG_PAYLOAD_SIZE
     \<and> length (Response (msg c)) = MSG_PAYLOAD_SIZE"

text \<open>The receive packet with one more byte.\<close>

definition rcv_push :: "u8 \<Rightarrow> kcs_chan \<Rightarrow> kcs_chan" where
  "rcv_push v c = c\<lparr>msg := (msg c)\<lparr>Request := (Request (msg c))[unat (KCSRcvPktIx c) := v]\<rparr>,
                    KCSRcvPktIx := KCSRcvPktIx c + 1\<rparr>"

lemma kcs_sizes: "MSG_PAYLOAD_SIZE = 33792" "unat MAX_KCS_PKT_LEN = 33792" "MAX_KCS_PKT_LEN = 33792"
  by (simp_all add: MSG_PAYLOAD_SIZE_def MAX_KCS_PKT_LEN_def)

lemma payload_pos [simp]: "0 < MSG_PAYLOAD_SIZE" "Suc 0 < MSG_PAYLOAD_SIZE"
  by (simp_all add: kcs_sizes)

lemma rcv_push_fields [simp]:
  "KCSPhase (rcv_push v c) = KCSPhase c" "KCSSeqNo (rcv_push v c) = KCSSeqNo c"
  "KcsINuse (rcv_push v c) = KcsINuse c" "KcsIFActive (rcv_push v c) = KcsIFActive c"
  "KcsWakeup (rcv_push v c) = KcsWakeup c" "KcsReqWait (rcv_push v c) = KcsReqWait c"
  "KCSSendPktIx (rcv_push v c) = KCSSendPktIx c" "KCSSendPktLen (rcv_push v c) = KCSSendPktLen c"
  "pKCSSendPkt (rcv_push v c) = pKCSSendPkt c" "Response (msg (rcv_push v c)) = Response (msg c)"
  "SessionID (msg (rcv_push v c)) = SessionID (msg c)" "PrevCmdAborted (rcv_push v c) = PrevCmdAborted c"
  "ResponseSize (msg (rcv_push v c)) = ResponseSize (msg c)"
  "FirstTime (rcv_push v c) = FirstTime c" "KCSError (rcv_push v c) = KCSError c"
  "AbortPhase (rcv_push v c) = AbortPhase c" "TxReady (rcv_push v c) = TxReady c"
  by (simp_all add: rcv_push_def)

lemma rcv_push_ix:
  "unat (KCSRcvPktIx c) < MSG_PAYLOAD_SIZE \<Longrightarrow> unat (KCSRcvPktIx (rcv_push v c)) = Suc (unat (KCSRcvPktIx c))"
  by (simp add: rcv_push_def unat_add1_32 kcs_sizes)

lemma rcv_push_wf: "kcs_chan_wf (rcv_push v c) = kcs_chan_wf c"
  by (simp add: kcs_chan_wf_def rcv_push_def)

lemma received_push:
  assumes "kcs_chan_wf c" "unat (KCSRcvPktIx c) < MSG_PAYLOAD_SIZE"
  shows "received (rcv_push v c) = received c @ [v]"
proof -
  have "received (rcv_push v c) =
      take (Suc (unat (KCSRcvPktIx c))) ((Request (msg c))[unat (KCSRcvPktIx c) := v])"
    using assms by (simp add: received_def rcv_push_ix) (simp add: rcv_push_def)
  then show ?thesis using assms by (simp add: take_Suc_update kcs_chan_wf_def received_def)
qed

lemmas cmd_or_data = IS_WRITE_TO_CMD_REG_def

lemma cmd_flag: "(st OR 0x0A) AND 0x08 = 0x08" "((st AND - 9) OR 0x02) AND 0x08 = 0" for st :: u8
  by (rule byte_eqI; simp add: bit_simps)+

text \<open>What the handler leaves in the status register after it set a state and took the byte.\<close>

lemma state_bits_after:
  fixes st v :: u8
  assumes "v AND 0x3F = 0"
  shows "(((st AND 0x3F) OR v) AND NOT 0x02) AND 0xC0 = v"
    "((((st AND 0x3F) OR v) AND NOT 0x02) OR 1) AND 0xC0 = v"
proof -
  have v: "v = v AND 0xC0"
  proof -
    have "v = (v AND 0x3F) OR (v AND 0xC0)" by (rule byte_eqI; simp add: bit_simps)
    then show ?thesis using assms by simp
  qed
  show "(((st AND 0x3F) OR v) AND NOT 0x02) AND 0xC0 = v"
    by (subst (1 2) v, rule byte_eqI; simp add: bit_simps)
  show "((((st AND 0x3F) OR v) AND NOT 0x02) OR 1) AND 0xC0 = v"
    by (subst (1 2) v, rule byte_eqI; simp add: bit_simps)
qed

lemmas handler_defs = kcs_recv_byte_def kcs_recv_command_def kcs_recv_write_def
  kcs_recv_write_end_def kcs_recv_read_def kcs_recv_abort_def kcs_recv_other_def

definition reader_woken :: "kcs_chan \<Rightarrow> kcs_chan" where
  "reader_woken c =
     (let c3 = (if KcsINuse c \<noteq> 0 then c\<lparr>KcsWakeup := 1\<rparr> else c)
      in if KcsIFActive c3 \<noteq> 0 then c3\<lparr>KcsReqWait := Kcs_OsWakeupOnTimeout (KcsReqWait c3)\<rparr> else c3)"

context kcs_host_contract begin

text \<open>The state of the hardware after a handler that sets state \<open>v\<close> and takes the byte.\<close>

lemma state_then_take:
  assumes "chan ch" "v AND 0x3F = 0"
  obtains h' where "read_kcs_data_in ops ch (set_kcs_state ops ch v h) = (din ch h, h')"
    "status ch h' = ((status ch h AND 0x3F) OR v) AND NOT 0x02" "dout ch h' = dout ch h"
  using read_data_pair [OF assms(1), of "set_kcs_state ops ch v h"]
    set_state_st [OF assms, of h] set_state_data [OF assms(1), of v h]
  by metis

lemma cmd_dispatch:
  assumes "chan ch"
  shows "kcs_cmd_intr ops host_cmd ch v (h, c) = kcs_recv_command ops ch (host_cmd ch v h, c)"
  using assms by (simp add: kcs_cmd_intr_def kcs_recv_byte_def rd_status cmd_st cmd_or_data cmd_flag)

lemma data_dispatch:
  assumes "chan ch"
  shows "kcs_recv_byte ops ch (host_data ch v h, c) =
    (if KCSPhase c = KCS_PHASE_WRITE then kcs_recv_write ops ch (host_data ch v h, c)
     else if KCSPhase c = KCS_PHASE_WRITE_END then kcs_recv_write_end ops ch (host_data ch v h, c)
     else if KCSPhase c = KCS_PHASE_READ then kcs_recv_read ops ch (host_data ch v h, c)
     else if KCSPhase c = KCS_PHASE_ABORT then kcs_recv_abort ops ch (host_data ch v h, c)
     else kcs_recv_other ops ch (host_data ch v h, c))"
  using assms by (simp add: kcs_recv_byte_def rd_status data_st cmd_or_data cmd_flag)

lemma start_step:
  assumes "chan ch" "kcs_chan_wf c"
  obtains h' c0 where
    "kcs_cmd_intr ops host_cmd ch KCS_WRITE_START (h, c) =
       Some (h', (rcv_push (KCSSeqNo c0) c0)\<lparr>KCSPhase := KCS_PHASE_WRITE\<rparr>)"
    "c0 = c\<lparr>KCSRcvPktIx := 0, PrevCmdAborted := 0,
            KCSSeqNo := of_nat ((unat (KCSSeqNo c) + 1) mod MAX_SEQ_NO)\<rparr>"
    "status ch h' AND 0xC0 = KCS_WRITE_STATE"
proof -
  obtain h' where h': "read_kcs_data_in ops ch (set_kcs_state ops ch KCS_WRITE_STATE (host_cmd ch KCS_WRITE_START h))
      = (KCS_WRITE_START, h')"
    "status ch h' = ((status ch (host_cmd ch KCS_WRITE_START h) AND 0x3F) OR KCS_WRITE_STATE) AND NOT 0x02"
    using state_then_take [OF assms(1), of KCS_WRITE_STATE "host_cmd ch KCS_WRITE_START h"]
    by (auto simp: cmd_din assms(1))
  have "status ch h' AND 0xC0 = KCS_WRITE_STATE"
    using h'(2) by (simp only: state_bits_after state_codes)
  with h'(1) assms(2) show thesis
    by (intro that [of h']; simp add: cmd_dispatch assms(1) kcs_recv_command_def rd_cmd
        kcs_write_start_def rcv_store_def rcv_push_def kcs_chan_wf_def MSG_PAYLOAD_SIZE_def
        arr_simps Let_def)
qed

lemma write_step:
  assumes "chan ch" "kcs_chan_wf c" "KCSPhase c = KCS_PHASE_WRITE" "unat (KCSRcvPktIx c) < MSG_PAYLOAD_SIZE"
  obtains h' where
    "kcs_recv_byte ops ch (host_data ch v h, c) = Some (h', rcv_push v c)"
    "status ch h' AND 0xC0 = KCS_WRITE_STATE"
proof -
  obtain h' where h': "read_kcs_data_in ops ch (set_kcs_state ops ch KCS_WRITE_STATE (host_data ch v h)) = (v, h')"
    "status ch h' = ((status ch (host_data ch v h) AND 0x3F) OR KCS_WRITE_STATE) AND NOT 0x02"
    using state_then_take [OF assms(1), of KCS_WRITE_STATE "host_data ch v h"]
    by (auto simp: data_din assms(1))
  have "status ch h' AND 0xC0 = KCS_WRITE_STATE"
    using h'(2) by (simp only: state_bits_after state_codes)
  with h'(1) assms(2-4) show thesis
    by (intro that [of h']; simp add: data_dispatch assms(1) kcs_recv_write_def
        rcv_store_def rcv_push_def kcs_chan_wf_def arr_simps kcs_sizes word_less_nat_alt)
qed

lemma end_cmd_step:
  assumes "chan ch"
  obtains h' where
    "kcs_cmd_intr ops host_cmd ch KCS_WRITE_END (h, c) = Some (h', c\<lparr>KCSPhase := KCS_PHASE_WRITE_END\<rparr>)"
    "status ch h' AND 0xC0 = KCS_WRITE_STATE"
proof -
  obtain h' where h': "read_kcs_data_in ops ch (set_kcs_state ops ch KCS_WRITE_STATE (host_cmd ch KCS_WRITE_END h))
      = (KCS_WRITE_END, h')"
    "status ch h' = ((status ch (host_cmd ch KCS_WRITE_END h) AND 0x3F) OR KCS_WRITE_STATE) AND NOT 0x02"
    using state_then_take [OF assms(1), of KCS_WRITE_STATE "host_cmd ch KCS_WRITE_END h"]
    by (auto simp: cmd_din assms(1))
  have "status ch h' AND 0xC0 = KCS_WRITE_STATE"
    using h'(2) by (simp only: state_bits_after state_codes)
  with h'(1) show thesis
    by (intro that [of h']; simp add: cmd_dispatch assms(1) kcs_recv_command_def rd_cmd kcs_codes Let_def)
qed

lemma end_data_step:
  assumes "chan ch" "kcs_chan_wf c" "KCSPhase c = KCS_PHASE_WRITE_END"
    "unat (KCSRcvPktIx c) < MSG_PAYLOAD_SIZE"
  obtains h' where
    "kcs_recv_byte ops ch (host_data ch v h, c) =
       Some (h', reader_woken ((rcv_push v c)\<lparr>KCSPhase := KCS_PHASE_READ\<rparr>))"
    "status ch h' AND 0xC0 = KCS_READ_STATE"
proof -
  obtain h' where h': "read_kcs_data_in ops ch (set_kcs_state ops ch KCS_READ_STATE (host_data ch v h)) = (v, h')"
    "status ch h' = ((status ch (host_data ch v h) AND 0x3F) OR KCS_READ_STATE) AND NOT 0x02"
    using state_then_take [OF assms(1), of KCS_READ_STATE "host_data ch v h"]
    by (auto simp: data_din assms(1))
  have "status ch h' AND 0xC0 = KCS_READ_STATE"
    using h'(2) by (simp only: state_bits_after state_codes)
  with h'(1) assms(2-4) show thesis
    by (intro that [of h']; simp add: data_dispatch assms(1) kcs_recv_write_end_def kcs_phases
        rcv_store_def rcv_push_def kcs_chan_wf_def arr_simps reader_woken_def Let_def)
qed

end

section \<open>The write transfer\<close>

lemma fold_push_fields [simp]:
  "KCSPhase (fold rcv_push vs c) = KCSPhase c" "KCSSeqNo (fold rcv_push vs c) = KCSSeqNo c"
  "KcsINuse (fold rcv_push vs c) = KcsINuse c" "KcsIFActive (fold rcv_push vs c) = KcsIFActive c"
  "KcsWakeup (fold rcv_push vs c) = KcsWakeup c" "KcsReqWait (fold rcv_push vs c) = KcsReqWait c"
  "Response (msg (fold rcv_push vs c)) = Response (msg c)"
  "PrevCmdAborted (fold rcv_push vs c) = PrevCmdAborted c"
  by (induction vs arbitrary: c) simp_all

lemma fold_push_wf: "kcs_chan_wf (fold rcv_push vs c) = kcs_chan_wf c"
  by (induction vs arbitrary: c) (simp_all add: rcv_push_wf)

lemma fold_push_ix:
  "unat (KCSRcvPktIx c) + length vs \<le> MSG_PAYLOAD_SIZE \<Longrightarrow>
    unat (KCSRcvPktIx (fold rcv_push vs c)) = unat (KCSRcvPktIx c) + length vs"
  by (induction vs arbitrary: c) (simp_all add: rcv_push_ix)

lemma received_fold_push:
  "kcs_chan_wf c \<Longrightarrow> unat (KCSRcvPktIx c) + length vs \<le> MSG_PAYLOAD_SIZE \<Longrightarrow>
    received (fold rcv_push vs c) = received c @ vs"
  by (induction vs arbitrary: c) (simp_all add: rcv_push_ix rcv_push_wf received_push)

lemma reader_woken_fields [simp]:
  "KCSPhase (reader_woken c) = KCSPhase c" "KCSSeqNo (reader_woken c) = KCSSeqNo c"
  "msg (reader_woken c) = msg c" "KCSRcvPktIx (reader_woken c) = KCSRcvPktIx c"
  "PrevCmdAborted (reader_woken c) = PrevCmdAborted c" "KcsINuse (reader_woken c) = KcsINuse c"
  "KcsIFActive (reader_woken c) = KcsIFActive c" "received (reader_woken c) = received c"
  "kcs_chan_wf (reader_woken c) = kcs_chan_wf c"
  "KcsWakeup (reader_woken c) = (if KcsINuse c \<noteq> 0 then 1 else KcsWakeup c)"
  "KCSSendPktIx (reader_woken c) = KCSSendPktIx c" "KCSSendPktLen (reader_woken c) = KCSSendPktLen c"
  "pKCSSendPkt (reader_woken c) = pKCSSendPkt c" "AbortPhase (reader_woken c) = AbortPhase c"
  "FirstTime (reader_woken c) = FirstTime c"
  by (simp_all add: reader_woken_def Let_def received_def kcs_chan_wf_def)

lemma phase_upd_received [simp]:
  "received (c\<lparr>KCSPhase := p\<rparr>) = received c" "kcs_chan_wf (c\<lparr>KCSPhase := p\<rparr>) = kcs_chan_wf c"
  by (simp_all add: received_def kcs_chan_wf_def)

context kcs_host_contract begin

lemma write_bytes:
  assumes "chan ch" "kcs_chan_wf c" "KCSPhase c = KCS_PHASE_WRITE"
    "unat (KCSRcvPktIx c) + length vs \<le> MSG_PAYLOAD_SIZE"
  shows "\<exists>h'. kcs_data_intrs ops host_data ch vs (h, c) = Some (h', fold rcv_push vs c)"
  using assms(2-)
proof (induction vs arbitrary: h c)
  case (Cons v vs)
  then have "unat (KCSRcvPktIx c) < MSG_PAYLOAD_SIZE" by simp
  with Cons.prems obtain h' where
    "kcs_recv_byte ops ch (host_data ch v h, c) = Some (h', rcv_push v c)"
    by (meson write_step assms(1))
  with Cons show ?case by (simp add: rcv_push_wf rcv_push_ix)
qed simp

lemma write_transfer:
  assumes ch: "chan ch" and wf: "kcs_chan_wf c" and len: "length bs + 2 \<le> MSG_PAYLOAD_SIZE"
  shows "\<exists>h' c'. kcs_host_write ops host_cmd host_data ch bs b (h, c) = Some (h', c') \<and>
    kcs_chan_wf c' \<and> KCSSeqNo c' = of_nat ((unat (KCSSeqNo c) + 1) mod MAX_SEQ_NO) \<and>
    received c' = KCSSeqNo c' # bs @ [b] \<and> KCSPhase c' = KCS_PHASE_READ \<and>
    PrevCmdAborted c' = 0 \<and> KcsINuse c' = KcsINuse c \<and> KcsIFActive c' = KcsIFActive c \<and>
    KcsWakeup c' = (if KcsINuse c \<noteq> 0 then 1 else KcsWakeup c) \<and>
    unat (KCSRcvPktIx c') = length bs + 2 \<and> status ch h' AND 0xC0 = KCS_READ_STATE"
proof -
  obtain h1 c0 where s1: "kcs_cmd_intr ops host_cmd ch KCS_WRITE_START (h, c) =
      Some (h1, (rcv_push (KCSSeqNo c0) c0)\<lparr>KCSPhase := KCS_PHASE_WRITE\<rparr>)"
    and c0: "c0 = c\<lparr>KCSRcvPktIx := 0, PrevCmdAborted := 0,
            KCSSeqNo := of_nat ((unat (KCSSeqNo c) + 1) mod MAX_SEQ_NO)\<rparr>"
    using start_step [OF ch wf, of h] by metis
  define c1 where "c1 = (rcv_push (KCSSeqNo c0) c0)\<lparr>KCSPhase := KCS_PHASE_WRITE\<rparr>"
  have wf0: "kcs_chan_wf c0" and ix0: "unat (KCSRcvPktIx c0) = 0"
    using wf by (simp_all add: c0 kcs_chan_wf_def)
  have wf1: "kcs_chan_wf c1" and ix1: "unat (KCSRcvPktIx c1) = 1"
    using wf0 ix0 by (simp_all add: c1_def rcv_push_wf rcv_push_ix kcs_sizes)
  have rc1: "received c1 = [KCSSeqNo c0]"
    using received_push [OF wf0, of "KCSSeqNo c0"] ix0
    by (simp add: c1_def kcs_sizes) (simp add: received_def c0)
  obtain h2 where s2: "kcs_data_intrs ops host_data ch bs (h1, c1) = Some (h2, fold rcv_push bs c1)"
    using write_bytes [OF ch wf1, of bs h1] len ix1 by (auto simp: c1_def)
  obtain h3 where s3: "kcs_cmd_intr ops host_cmd ch KCS_WRITE_END (h2, fold rcv_push bs c1) =
      Some (h3, (fold rcv_push bs c1)\<lparr>KCSPhase := KCS_PHASE_WRITE_END\<rparr>)"
    using end_cmd_step [OF ch] by metis
  define c3 where "c3 = (fold rcv_push bs c1)\<lparr>KCSPhase := KCS_PHASE_WRITE_END\<rparr>"
  have wf3: "kcs_chan_wf c3" and ix3: "unat (KCSRcvPktIx c3) = Suc (length bs)"
    and rc3: "received c3 = KCSSeqNo c0 # bs"
    using wf1 ix1 rc1 len by (simp_all add: c3_def fold_push_wf fold_push_ix received_fold_push)
  have lt3: "unat (KCSRcvPktIx c3) < MSG_PAYLOAD_SIZE" using ix3 len by simp
  obtain h4 where s4: "kcs_recv_byte ops ch (host_data ch b h3, c3) =
      Some (h4, reader_woken ((rcv_push b c3)\<lparr>KCSPhase := KCS_PHASE_READ\<rparr>))"
    and st: "status ch h4 AND 0xC0 = KCS_READ_STATE"
    by (rule end_data_step [OF ch wf3 _ lt3, where v = b and h = h3]) (simp_all add: c3_def)
  have "kcs_host_write ops host_cmd host_data ch bs b (h, c) =
      Some (h4, reader_woken ((rcv_push b c3)\<lparr>KCSPhase := KCS_PHASE_READ\<rparr>))"
    using s1 s2 s3 s4 by (simp add: kcs_host_write_def c1_def c3_def)
  moreover have "received (rcv_push b c3) = KCSSeqNo c0 # bs @ [b]"
    using received_push [OF wf3] ix3 rc3 len by simp
  moreover have "unat (KCSRcvPktIx (rcv_push b c3)) = length bs + 2"
    using rcv_push_ix [OF lt3] ix3 by simp
  ultimately show ?thesis using wf3 st
    by (auto simp: rcv_push_wf) (simp_all add: c3_def c1_def c0)
qed

lemma overflow_step:
  assumes "chan ch" "kcs_chan_wf c" "KCSPhase c \<in> {KCS_PHASE_WRITE, KCS_PHASE_WRITE_END}"
    "unat (KCSRcvPktIx c) = MSG_PAYLOAD_SIZE"
  shows "kcs_recv_byte ops ch (host_data ch v h, c) = None"
  using assms
  by (auto simp: data_dispatch kcs_recv_write_def kcs_recv_write_end_def rcv_store_def arr_set_def
      kcs_chan_wf_def Let_def split_beta kcs_phases)

lemma overflow_transfer:
  assumes ch: "chan ch" and wf: "kcs_chan_wf c" and len: "MSG_PAYLOAD_SIZE \<le> length bs"
  shows "kcs_host_write ops host_cmd host_data ch bs b (h, c) = None"
proof -
  obtain h1 c0 where s1: "kcs_cmd_intr ops host_cmd ch KCS_WRITE_START (h, c) =
      Some (h1, (rcv_push (KCSSeqNo c0) c0)\<lparr>KCSPhase := KCS_PHASE_WRITE\<rparr>)"
    and c0: "c0 = c\<lparr>KCSRcvPktIx := 0, PrevCmdAborted := 0,
            KCSSeqNo := of_nat ((unat (KCSSeqNo c) + 1) mod MAX_SEQ_NO)\<rparr>"
    using start_step [OF ch wf, of h] by metis
  define c1 where "c1 = (rcv_push (KCSSeqNo c0) c0)\<lparr>KCSPhase := KCS_PHASE_WRITE\<rparr>"
  have wf0: "kcs_chan_wf c0" and ix0: "unat (KCSRcvPktIx c0) = 0"
    using wf by (simp_all add: c0 kcs_chan_wf_def)
  have wf1: "kcs_chan_wf c1" and ix1: "unat (KCSRcvPktIx c1) = 1"
    using wf0 ix0 by (simp_all add: c1_def rcv_push_wf rcv_push_ix kcs_sizes)
  have full: "kcs_data_intrs ops host_data ch vs (h, c) = None"
    if "kcs_chan_wf c" "KCSPhase c = KCS_PHASE_WRITE" "unat (KCSRcvPktIx c) \<le> MSG_PAYLOAD_SIZE"
      "MSG_PAYLOAD_SIZE < unat (KCSRcvPktIx c) + length vs" for vs h c
    using that
  proof (induction vs arbitrary: h c)
    case (Cons v vs)
    show ?case
    proof (cases "unat (KCSRcvPktIx c) = MSG_PAYLOAD_SIZE")
      case True
      then show ?thesis using Cons.prems overflow_step [OF ch, of c v h] by simp
    next
      case False
      then have lt: "unat (KCSRcvPktIx c) < MSG_PAYLOAD_SIZE" using Cons.prems by simp
      with Cons.prems obtain h' where
        "kcs_recv_byte ops ch (host_data ch v h, c) = Some (h', rcv_push v c)"
        by (meson write_step ch)
      with Cons lt show ?thesis by (simp add: rcv_push_wf rcv_push_ix)
    qed
  qed simp
  have "kcs_data_intrs ops host_data ch bs (h1, c1) = None"
    using full [of c1 bs h1] wf1 ix1 len by (simp add: c1_def kcs_sizes)
  then show ?thesis using s1 by (simp add: kcs_host_write_def c1_def)
qed

end

section \<open>The read transfer\<close>

text \<open>A response is on its way out: the next byte to fetch, and how many there are.\<close>

definition sending :: "kcs_chan \<Rightarrow> nat \<Rightarrow> u8 list \<Rightarrow> bool" where
  "sending c i resp \<longleftrightarrow> KCSPhase c = KCS_PHASE_READ \<and> pKCSSendPkt c \<and> unat (KCSSendPktIx c) = i
     \<and> unat (KCSSendPktLen c) = length resp \<and> length resp \<le> length (Response (msg c))
     \<and> take (length resp) (Response (msg c)) = resp"

lemma sending_fetch:
  assumes "sending c i resp" "i < length resp"
  shows "send_fetch (KCSSendPktIx c) c = Some (resp ! i)"
proof -
  have "Response (msg c) ! i = resp ! i"
    using assms by (metis nth_take sending_def)
  then show ?thesis using assms by (simp add: sending_def send_fetch_def arr_get_in)
qed

context kcs_host_contract begin

lemma read_step:
  assumes ch: "chan ch" and s: "sending c i resp" and lt: "i < length resp"
  obtains h' where
    "kcs_recv_byte ops ch (host_data ch KCS_READ h, c) = Some (h', c\<lparr>KCSSendPktIx := KCSSendPktIx c + 1\<rparr>)"
    "dout ch h' = resp ! i" "status ch h' AND 0xC0 = status ch h AND 0xC0"
proof -
  obtain h1 where h1: "read_kcs_data_in ops ch (host_data ch KCS_READ h) = (KCS_READ, h1)"
    "status ch h1 = status ch (host_data ch KCS_READ h) AND NOT 0x02"
    using read_data_pair [OF ch, of "host_data ch KCS_READ h"] by (auto simp: data_din ch)
  define h' where "h' = put_data_out ops ch (resp ! i) h1"
  have ne: "KCSSendPktIx c \<noteq> KCSSendPktLen c"
    using s lt by (auto simp: sending_def)
  have "status ch h' AND 0xC0 = status ch h AND 0xC0"
    unfolding h'_def put_out(1) [OF ch] h1(2) data_st [OF ch]
    by (rule byte_eqI; simp add: bit_simps)
  moreover have "kcs_recv_byte ops ch (host_data ch KCS_READ h, c)
      = Some (h', c\<lparr>KCSSendPktIx := KCSSendPktIx c + 1\<rparr>)"
    using s sending_fetch [OF s lt] ne h1(1)
    by (simp add: data_dispatch ch sending_def kcs_phases kcs_recv_read_def h'_def)
  ultimately show thesis using that put_out(3) [OF ch, of "resp ! i" h1] by (simp add: h'_def)
qed

lemma read_last_step:
  assumes ch: "chan ch" and s: "sending c (length resp) resp"
  obtains h' where
    "kcs_recv_byte ops ch (host_data ch KCS_READ h, c) =
       Some (h', c\<lparr>KCSPhase := KCS_PHASE_IDLE, TxReady := 1\<rparr>)"
    "status ch h' AND 0xC0 = KCS_IDLE_STATE"
proof -
  obtain h1 where h1: "read_kcs_data_in ops ch (set_kcs_state ops ch KCS_IDLE_STATE (host_data ch KCS_READ h)) = (KCS_READ, h1)"
    "status ch h1 = ((status ch (host_data ch KCS_READ h) AND 0x3F) OR KCS_IDLE_STATE) AND NOT 0x02"
    using state_then_take [OF ch, of KCS_IDLE_STATE "host_data ch KCS_READ h"]
    by (auto simp: data_din ch)
  define h' where "h' = put_data_out ops ch 0 h1"
  have eq: "KCSSendPktIx c = KCSSendPktLen c"
    using s by (simp add: sending_def word_unat_eq_iff)
  have "status ch h' AND 0xC0 = KCS_IDLE_STATE"
    unfolding h'_def put_out(1) [OF ch] h1(2) by (rule state_bits_after) simp
  moreover have "kcs_recv_byte ops ch (host_data ch KCS_READ h, c)
      = Some (h', c\<lparr>KCSPhase := KCS_PHASE_IDLE, TxReady := 1\<rparr>)"
    using s eq h1(1) by (simp add: data_dispatch ch sending_def kcs_phases kcs_recv_read_def h'_def)
  ultimately show thesis using that by simp
qed

lemma read_transfer:
  assumes ch: "chan ch"
  shows "sending c i resp \<Longrightarrow> 0 < i \<Longrightarrow> Suc (length resp) = i + n \<Longrightarrow> 0 < n \<Longrightarrow>
    dout ch h = resp ! (i - 1) \<Longrightarrow>
    \<exists>h' c'. kcs_host_read ops dout host_data ch n (h, c) = Some (drop (i - 1) resp, h', c') \<and>
      KCSPhase c' = KCS_PHASE_IDLE \<and> TxReady c' = 1 \<and> status ch h' AND 0xC0 = KCS_IDLE_STATE \<and>
      msg c' = msg c \<and> KCSSeqNo c' = KCSSeqNo c"
proof (induction n arbitrary: i h c)
  case (Suc n)
  show ?case
  proof (cases n)
    case 0
    then have i: "i = length resp" using Suc.prems by simp
    obtain h' where "kcs_recv_byte ops ch (host_data ch KCS_READ h, c) =
       Some (h', c\<lparr>KCSPhase := KCS_PHASE_IDLE, TxReady := 1\<rparr>)"
      "status ch h' AND 0xC0 = KCS_IDLE_STATE"
      using read_last_step [OF ch] Suc.prems(1) i by metis
    moreover have "drop (length resp - Suc 0) resp = [resp ! (length resp - Suc 0)]"
      using i Suc.prems(2) by (metis Cons_nth_drop_Suc Suc_pred diff_Suc_less drop_all order_refl)
    ultimately show ?thesis using 0 Suc.prems i by simp
  next
    case (Suc m)
    then have lt: "i < length resp" using Suc.prems by simp
    obtain h1 where h1: "kcs_recv_byte ops ch (host_data ch KCS_READ h, c) =
        Some (h1, c\<lparr>KCSSendPktIx := KCSSendPktIx c + 1\<rparr>)" "dout ch h1 = resp ! i"
      using read_step [OF ch Suc.prems(1) lt] by metis
    have le: "length resp < 4294967296"
      using Suc.prems(1) unat_lt_32 [of "KCSSendPktLen c"] by (simp add: sending_def)
    have s1: "sending (c\<lparr>KCSSendPktIx := KCSSendPktIx c + 1\<rparr>) (Suc i) resp"
      using Suc.prems(1) lt le by (simp add: sending_def unat_add1_32)
    obtain h' c' where r: "kcs_host_read ops dout host_data ch n (h1, c\<lparr>KCSSendPktIx := KCSSendPktIx c + 1\<rparr>)
        = Some (drop i resp, h', c')"
      "KCSPhase c' = KCS_PHASE_IDLE" "TxReady c' = 1" "status ch h' AND 0xC0 = KCS_IDLE_STATE"
      "msg c' = msg c" "KCSSeqNo c' = KCSSeqNo c"
      using Suc.IH [OF s1, of h1] Suc.prems h1 Suc by auto
    have "drop (i - 1) resp = resp ! (i - 1) # drop i resp"
      using lt Suc.prems(2) by (metis Cons_nth_drop_Suc Suc_diff_1 less_imp_diff_less)
    with r h1 Suc.prems(5) show ?thesis by simp
  qed
qed simp

end

section \<open>Whole transactions, stale responses and aborts\<close>

text \<open>
  A transaction: the host writes the request, the process blocked in \<open>kcs_read\<close> takes it (its
  first byte is the sequence number), computes a reply with \<open>f\<close> and hands it to \<open>kcs_write\<close>
  under the same number, and the host reads as many bytes as the reply has.
\<close>

definition kcs_transaction ::
  "'h kcs_hal_ops \<Rightarrow> (u8 \<Rightarrow> 'h \<Rightarrow> u8) \<Rightarrow> (u8 \<Rightarrow> u8 \<Rightarrow> 'h \<Rightarrow> 'h) \<Rightarrow> (u8 \<Rightarrow> u8 \<Rightarrow> 'h \<Rightarrow> 'h) \<Rightarrow> u8
    \<Rightarrow> (u8 list \<Rightarrow> u8 list) \<Rightarrow> u8 list \<Rightarrow> u8 \<Rightarrow> 'h \<times> kcs_chan \<Rightarrow> (u8 list \<times> 'h \<times> kcs_chan) option" where
  "kcs_transaction ops dout host_cmd host_data ch f bs b s =
     do { (h1, c1) \<leftarrow> kcs_host_write ops host_cmd host_data ch bs b s;
          (r, c2) \<leftarrow> kcs_request_leave False c1;
          case r of
            Inl e \<Rightarrow> None
          | Inr req \<Rightarrow>
              do { (w, s3) \<leftarrow> kcs_write_request ops ch False (hd req # f (tl req)) (h1, c2);
                   kcs_host_read ops dout host_data ch (length (f (tl req))) s3 } }"

definition kcs_host_abort ::
  "'h kcs_hal_ops \<Rightarrow> (u8 \<Rightarrow> 'h \<Rightarrow> u8) \<Rightarrow> (u8 \<Rightarrow> u8 \<Rightarrow> 'h \<Rightarrow> 'h) \<Rightarrow> (u8 \<Rightarrow> u8 \<Rightarrow> 'h \<Rightarrow> 'h) \<Rightarrow> u8
    \<Rightarrow> 'h \<times> kcs_chan \<Rightarrow> (u8 \<times> 'h \<times> kcs_chan) option" where
  "kcs_host_abort ops dout host_cmd host_data ch s =
     do { s1 \<leftarrow> kcs_cmd_intr ops host_cmd ch KCS_ABORT s;
          s2 \<leftarrow> kcs_data_intrs ops host_data ch [0] s1;
          s3 \<leftarrow> kcs_data_intrs ops host_data ch [KCS_READ] s2;
          Some (dout ch (fst s2), s3) }"

lemma copy_response_wf:
  assumes "kcs_chan_wf c" "buf \<noteq> []" "length buf \<le> MSG_PAYLOAD_SIZE"
  shows "\<exists>m'. copy_response buf c = Some (c\<lparr>msg := m'\<rparr>) \<and> SessionID m' = ucast (hd buf) \<and>
    unat (ResponseSize m') = length buf - 1 \<and> take (length buf - 1) (Response m') = tl buf \<and>
    length (Response m') = MSG_PAYLOAD_SIZE \<and> Request m' = Request (msg c)"
proof -
  obtain a as where buf: "buf = a # as" using assms(2) by (cases buf) auto
  define R where "R = as @ drop (length as) (buf @ drop (length buf) (Response (msg c)))"
  define m' where "m' = (msg c)\<lparr>SessionID := ucast a, Response := R,
    ResponseSize := of_nat (Suc (length as)) - 1\<rparr>"
  have len: "length (Response (msg c)) = MSG_PAYLOAD_SIZE" and le: "Suc (length as) \<le> MSG_PAYLOAD_SIZE"
    using assms buf by (simp_all add: kcs_chan_wf_def)
  have lR: "length R = MSG_PAYLOAD_SIZE" using len le by (simp add: R_def buf)
  have tR: "take (length as) R = as" by (simp add: R_def)
  have "length as < 4294967296" using le by (simp add: kcs_sizes)
  then have sz: "unat (of_nat (Suc (length as)) - 1 :: u32) = length as"
    by (simp add: unat_of_nat)
  have "copy_response buf c = Some (c\<lparr>msg := m'\<rparr>)"
    using len le by (simp add: copy_response_def m'_def R_def buf Let_def)
  then show ?thesis using lR tR sz buf by (intro exI [of _ m']) (simp add: m'_def)
qed

lemma request_leave_received:
  assumes "kcs_chan_wf c" "unat (KCSRcvPktIx c) \<le> MSG_PAYLOAD_SIZE"
  shows "kcs_request_leave False c =
    Some (Inr (received c), c\<lparr>KcsReqWait := sleep_disarm 0 (KcsReqWait c), KcsWakeup := 0, KcsIFActive := 0\<rparr>)"
  using assms by (simp add: kcs_request_leave_def kcs_chan_wf_def received_def Let_def)

context kcs_host_contract begin

lemma send_response:
  assumes ch: "chan ch" and wf: "kcs_chan_wf c" and ph: "KCSPhase c = KCS_PHASE_READ"
    and na: "PrevCmdAborted c = 0" and ne: "resp \<noteq> []" and le: "length resp < MSG_PAYLOAD_SIZE"
  shows "\<exists>h' c'. kcs_write_request ops ch False (KCSSeqNo c # resp) (h, c) =
      Some (Inr (Suc (length resp)), h', c') \<and>
    sending c' 1 resp \<and> dout ch h' = resp ! 0 \<and> KCSSeqNo c' = KCSSeqNo c \<and> kcs_chan_wf c'"
proof -
  obtain m' where m': "copy_response (KCSSeqNo c # resp) c = Some (c\<lparr>msg := m'\<rparr>)"
    "SessionID m' = ucast (KCSSeqNo c)" "unat (ResponseSize m') = length resp"
    "take (length resp) (Response m') = resp" "length (Response m') = MSG_PAYLOAD_SIZE"
    "Request m' = Request (msg c)"
    using copy_response_wf [OF wf, of "KCSSeqNo c # resp"] le by auto
  have "Response m' ! 0 = resp ! 0"
    using m'(4) ne by (metis length_greater_0_conv nth_take)
  then show ?thesis using m' ne le ph na wf put_out(3) [OF ch, of "resp ! 0" h]
    by (auto simp: kcs_write_request_def send_kcs_response_def send_fetch_def arr_simps kcs_sizes
        sending_def kcs_chan_wf_def Let_def)
qed

text \<open>
  A response with another sequence number than the current command's, or to a command that was
  aborted, leaves the hardware and the transfer untouched.
\<close>

lemma stale_response:
  assumes wf: "kcs_chan_wf c" and ne: "resp \<noteq> []" and le: "length resp < MSG_PAYLOAD_SIZE"
    and stale: "PrevCmdAborted c \<noteq> 0 \<or> n \<noteq> KCSSeqNo c"
  shows "\<exists>c'. kcs_write_request ops ch False (n # resp) (h, c) = Some (Inr (Suc (length resp)), h, c') \<and>
    KCSPhase c' = KCSPhase c \<and> pKCSSendPkt c' = pKCSSendPkt c \<and> KCSSendPktIx c' = KCSSendPktIx c \<and>
    KCSSendPktLen c' = KCSSendPktLen c \<and> KCSSeqNo c' = KCSSeqNo c \<and> PrevCmdAborted c' = 0"
proof -
  obtain m' where m': "copy_response (n # resp) c = Some (c\<lparr>msg := m'\<rparr>)"
    "SessionID m' = ucast n"
    using copy_response_wf [OF wf, of "n # resp"] le by auto
  have "(ucast (KCSSeqNo c) :: u32) = ucast n \<longleftrightarrow> n = KCSSeqNo c"
    by (metis ucast_back_8)
  then show ?thesis using m' stale
    by (auto simp: kcs_write_request_def send_kcs_response_def Let_def)
qed

lemma transaction:
  assumes ch: "chan ch" and wf: "kcs_chan_wf c" and len: "length bs + 2 \<le> MSG_PAYLOAD_SIZE"
    and ne: "f (bs @ [b]) \<noteq> []" and le: "length (f (bs @ [b])) < MSG_PAYLOAD_SIZE"
  shows "\<exists>h' c'. kcs_transaction ops dout host_cmd host_data ch f bs b (h, c) =
      Some (f (bs @ [b]), h', c') \<and>
    KCSPhase c' = KCS_PHASE_IDLE \<and> TxReady c' = 1 \<and> status ch h' AND 0xC0 = KCS_IDLE_STATE \<and>
    KCSSeqNo c' = of_nat ((unat (KCSSeqNo c) + 1) mod MAX_SEQ_NO)"
proof -
  obtain h1 c1 where w: "kcs_host_write ops host_cmd host_data ch bs b (h, c) = Some (h1, c1)"
    "kcs_chan_wf c1" "KCSSeqNo c1 = of_nat ((unat (KCSSeqNo c) + 1) mod MAX_SEQ_NO)"
    "received c1 = KCSSeqNo c1 # bs @ [b]" "KCSPhase c1 = KCS_PHASE_READ" "PrevCmdAborted c1 = 0"
    "unat (KCSRcvPktIx c1) = length bs + 2"
    using write_transfer [OF ch wf len, of b h] by metis
  define c2 where "c2 = c1\<lparr>KcsReqWait := sleep_disarm 0 (KcsReqWait c1), KcsWakeup := 0, KcsIFActive := 0\<rparr>"
  have leave: "kcs_request_leave False c1 = Some (Inr (KCSSeqNo c2 # bs @ [b]), c2)"
    using request_leave_received [OF w(2)] w(4,7) len by (simp add: c2_def)
  have c2: "kcs_chan_wf c2" "KCSPhase c2 = KCS_PHASE_READ" "PrevCmdAborted c2 = 0"
    "KCSSeqNo c2 = KCSSeqNo c1"
    using w by (simp_all add: c2_def kcs_chan_wf_def)
  define resp where "resp = f (bs @ [b])"
  have resp: "resp \<noteq> []" "length resp < MSG_PAYLOAD_SIZE" using ne le by (simp_all add: resp_def)
  obtain h3 c3 where s: "kcs_write_request ops ch False (KCSSeqNo c2 # resp) (h1, c2) =
      Some (Inr (Suc (length resp)), h3, c3)"
    "sending c3 1 resp" "dout ch h3 = resp ! 0" "KCSSeqNo c3 = KCSSeqNo c2"
    using send_response [OF ch c2(1-3) resp, of h1] by auto
  obtain h4 c4 where r: "kcs_host_read ops dout host_data ch (length resp) (h3, c3) = Some (resp, h4, c4)"
    "KCSPhase c4 = KCS_PHASE_IDLE" "TxReady c4 = 1" "status ch h4 AND 0xC0 = KCS_IDLE_STATE"
    "KCSSeqNo c4 = KCSSeqNo c3"
    using read_transfer [OF ch s(2), of "length resp" h3] s(3) resp(1) by auto
  have "kcs_transaction ops dout host_cmd host_data ch f bs b (h, c) = Some (resp, h4, c4)"
    using w(1) leave s(1) r(1) by (simp add: kcs_transaction_def resp_def)
  then show ?thesis using r s(4) c2(4) w(3) by (simp add: resp_def)
qed

text \<open>
  From any state of the channel, even one in the middle of a transfer, an abort followed by two
  data writes brings the interface back to idle. The process then working on a command has its
  response dropped. The error code the host reads is the one stored, or that of an abort if there is none.
\<close>

lemma abort_sequence:
  assumes ch: "chan ch"
  shows "\<exists>h'. kcs_host_abort ops dout host_cmd host_data ch (h, c) =
      Some (if KCSError c = KCS_NO_ERROR then KCS_ABORTED_BY_COMMAND else KCSError c, h',
        c\<lparr>PrevCmdAborted := (if KcsIFActive c = 0 \<and> FirstTime c = 0 then 1 else PrevCmdAborted c),
          KCSError := (if KCSError c = KCS_NO_ERROR then KCS_ABORTED_BY_COMMAND else KCSError c),
          KCSPhase := KCS_PHASE_IDLE, AbortPhase := 0\<rparr>) \<and>
      status ch h' AND 0xC0 = KCS_IDLE_STATE"
proof -
  obtain h1 where h1: "read_kcs_data_in ops ch (set_kcs_state ops ch KCS_WRITE_STATE (host_cmd ch KCS_ABORT h))
      = (KCS_ABORT, h1)"
    using state_then_take [OF ch, of KCS_WRITE_STATE "host_cmd ch KCS_ABORT h"]
    by (auto simp: cmd_din ch)
  have s1: "kcs_cmd_intr ops host_cmd ch KCS_ABORT (h, c) = Some (put_data_out ops ch 0 h1, kcs_abort c)"
    using h1 by (simp add: cmd_dispatch ch kcs_recv_command_def rd_cmd kcs_codes)
  define g1 where "g1 = put_data_out ops ch 0 h1"
  define c1 where "c1 = kcs_abort c"
  have c1: "KCSPhase c1 = KCS_PHASE_ABORT" "AbortPhase c1 = ABORT_PHASE_ERROR1"
    by (simp_all add: c1_def kcs_abort_def Let_def)
  obtain h2 where h2: "read_kcs_data_in ops ch (set_kcs_state ops ch KCS_READ_STATE (host_data ch 0 g1)) = (0, h2)"
    using state_then_take [OF ch, of KCS_READ_STATE "host_data ch 0 g1"] by (auto simp: data_din ch)
  define g2 where "g2 = put_data_out ops ch (KCSError c1) h2"
  have s2: "kcs_recv_byte ops ch (host_data ch 0 g1, c1) = Some (g2, c1\<lparr>AbortPhase := ABORT_PHASE_ERROR2\<rparr>)"
    using c1 h2 by (simp add: data_dispatch ch kcs_phases kcs_recv_abort_def g2_def)
  have d2: "dout ch g2 = KCSError c1" by (simp add: g2_def put_out ch)
  obtain h3 where h3: "read_kcs_data_in ops ch (set_kcs_state ops ch KCS_IDLE_STATE (host_data ch KCS_READ g2)) = (KCS_READ, h3)"
    "status ch h3 = ((status ch (host_data ch KCS_READ g2) AND 0x3F) OR KCS_IDLE_STATE) AND NOT 0x02"
    using state_then_take [OF ch, of KCS_IDLE_STATE "host_data ch KCS_READ g2"] by (auto simp: data_din ch)
  define g3 where "g3 = put_data_out ops ch 0 h3"
  have s3: "kcs_recv_byte ops ch (host_data ch KCS_READ g2, c1\<lparr>AbortPhase := ABORT_PHASE_ERROR2\<rparr>)
      = Some (g3, c1\<lparr>KCSPhase := KCS_PHASE_IDLE, AbortPhase := 0\<rparr>)"
    using c1 h3 by (simp add: data_dispatch ch kcs_phases kcs_recv_abort_def g3_def)
  have "status ch g3 AND 0xC0 = KCS_IDLE_STATE"
    unfolding g3_def put_out(1) [OF ch] h3(2) by (rule state_bits_after) simp
  moreover have "kcs_host_abort ops dout host_cmd host_data ch (h, c) =
      Some (KCSError c1, g3, c1\<lparr>KCSPhase := KCS_PHASE_IDLE, AbortPhase := 0\<rparr>)"
    using s1 s2 s3 d2 by (simp add: kcs_host_abort_def g1_def c1_def)
  ultimately show ?thesis by (simp add: c1_def kcs_abort_def Let_def)
qed

end

end
