(* ===== verification/KcsSystem.thy ===== *)
theory KcsSystem imports KcsProtocol begin

text \<open>
  The KCS driver as a system: the host's register writes on the AST controller, the step
  relation in which interrupts, the blocked reader and the responding process interleave, its
  invariant, and the properties of the driver stated over the AST operations table.
\<close>

unbundle bit_operations_syntax

section \<open>The host's writes on the AST controller\<close>

text \<open>
  The documented effect of the host writing a channel's command or data register, beside what
  \<open>lpc_kcs_device\<close> says of the processor's side.
\<close>

locale lpc_kcs_host = lpc_kcs_device grp io reg
  for grp :: bool and io :: "'d mmio" and reg :: "u32 \<Rightarrow> 'd \<Rightarrow> u32" +
  fixes hcmd :: "u8 \<Rightarrow> u8 \<Rightarrow> 'd \<Rightarrow> 'd"
    and hdata :: "u8 \<Rightarrow> u8 \<Rightarrow> 'd \<Rightarrow> 'd"
  assumes hcmd_str: "c < AST_KCS_CHANNEL_NUM grp \<Longrightarrow>
      reg (kcs_str grp c) (hcmd c v d) = reg (kcs_str grp c) d OR 0x0A"
    and hcmd_idr: "c < AST_KCS_CHANNEL_NUM grp \<Longrightarrow> reg (kcs_idr grp c) (hcmd c v d) = ucast v"
    and hdata_str: "c < AST_KCS_CHANNEL_NUM grp \<Longrightarrow>
      reg (kcs_str grp c) (hdata c v d) = (reg (kcs_str grp c) d AND NOT 0x08) OR 0x02"
    and hdata_idr: "c < AST_KCS_CHANNEL_NUM grp \<Longrightarrow> reg (kcs_idr grp c) (hdata c v d) = ucast v"
    and hdata_odr: "c < AST_KCS_CHANNEL_NUM grp \<Longrightarrow>
      reg (kcs_odr grp c) (hdata c v d) = reg (kcs_odr grp c) d"

text \<open>The registers and the host's writes seen through the driver's state.\<close>

definition ast_status :: "bool \<Rightarrow> (u32 \<Rightarrow> 'd \<Rightarrow> u32) \<Rightarrow> u8 \<Rightarrow> 'd ast_kcs \<Rightarrow> u8" where
  "ast_status grp reg c s = ucast (reg (kcs_str grp c) (dev s))"

definition ast_din :: "bool \<Rightarrow> (u32 \<Rightarrow> 'd \<Rightarrow> u32) \<Rightarrow> u8 \<Rightarrow> 'd ast_kcs \<Rightarrow> u8" where
  "ast_din grp reg c s = ucast (reg (kcs_idr grp c) (dev s))"

definition ast_dout :: "bool \<Rightarrow> (u32 \<Rightarrow> 'd \<Rightarrow> u32) \<Rightarrow> u8 \<Rightarrow> 'd ast_kcs \<Rightarrow> u8" where
  "ast_dout grp reg c s = ucast (reg (kcs_odr grp c) (dev s))"

definition ast_host :: "(u8 \<Rightarrow> u8 \<Rightarrow> 'd \<Rightarrow> 'd) \<Rightarrow> u8 \<Rightarrow> u8 \<Rightarrow> 'd ast_kcs \<Rightarrow> 'd ast_kcs" where
  "ast_host hw c v s = s\<lparr>dev := hw c v (dev s)\<rparr>"

lemma not_8_mod_8: "(4294967287 :: u8) = - 9"
  by (rule byte_eqI; simp)

lemmas ast_views = ast_status_def ast_din_def ast_dout_def ast_host_def

sublocale lpc_kcs_host \<subseteq> ast: kcs_host_contract
  "ast_kcs_hw_ops grp io" "\<lambda>c. c < AST_KCS_CHANNEL_NUM grp"
  "ast_status grp reg" "ast_din grp reg" "ast_dout grp reg" "ast_host hcmd" "ast_host hdata"
  by (unfold_locales; simp only: ast_views drv.hal_laws drv.wr_status_hi drv.wr_status_lo drv.wr_status_obf)
    (simp_all add: hcmd_str hcmd_idr hdata_str hdata_idr hdata_odr ucast_and_or_8 ucast_back_8
      not_8_mod_8)

context lpc_kcs_host begin

lemmas ast_contract = ast.kcs_host_contract_axioms

end

definition lpc_host_cmd :: "bool \<Rightarrow> u8 \<Rightarrow> u8 \<Rightarrow> lpc_regs \<Rightarrow> lpc_regs" where
  "lpc_host_cmd grp c v d = d(kcs_idr grp c := ucast v, kcs_str grp c := d (kcs_str grp c) OR 0x0A)"

definition lpc_host_data :: "bool \<Rightarrow> u8 \<Rightarrow> u8 \<Rightarrow> lpc_regs \<Rightarrow> lpc_regs" where
  "lpc_host_data grp c v d =
     d(kcs_idr grp c := ucast v, kcs_str grp c := (d (kcs_str grp c) AND NOT 0x08) OR 0x02)"

interpretation lpch: lpc_kcs_host grp "lpc_mmio grp" "\<lambda>r d. d r" "lpc_host_cmd grp" "lpc_host_data grp" for grp
  by (unfold_locales; elim kcs_channel_cases [THEN disjE] disjE conjE)
    (auto simp: lpc_host_cmd_def lpc_host_data_def kcs_register_offsets)

section \<open>Interleaving\<close>

text \<open>
  A channel with the process that reads requests: whether it is blocked in \<open>kcs_read\<close>. The
  steps are the interrupts after a write of the host to the command or the data register, an interrupt
  for whatever the registers hold, the two halves of \<open>kcs_read\<close> (a signal may end the wait, whose
  result the code ignores, so the second half is not guarded), \<open>kcs_write\<close> with any buffer, the
  ioctls, called with this channel among those of the controller, and open and release.
  The registers may change in any way in between: the other channels, the host, the hardware tests.
\<close>

inductive kcs_step ::
  "'h kcs_hal_ops \<Rightarrow> (u8 \<Rightarrow> u8 \<Rightarrow> 'h \<Rightarrow> 'h) \<Rightarrow> (u8 \<Rightarrow> u8 \<Rightarrow> 'h \<Rightarrow> 'h) \<Rightarrow> u8
    \<Rightarrow> 'h \<times> kcs_chan \<times> bool \<Rightarrow> 'h \<times> kcs_chan \<times> bool \<Rightarrow> bool"
  for ops host_cmd host_data ch where
  irq_cmd: "kcs_cmd_intr ops host_cmd ch v (h, c) = Some (h', c') \<Longrightarrow>
    kcs_step ops host_cmd host_data ch (h, c, w) (h', c', w)"
| irq_data: "kcs_recv_byte ops ch (host_data ch v h, c) = Some (h', c') \<Longrightarrow>
    kcs_step ops host_cmd host_data ch (h, c, w) (h', c', w)"
| read_enter: "kcs_request_enter c = c' \<Longrightarrow>
    kcs_step ops host_cmd host_data ch (h, c, False)
      (h, c'\<lparr>KcsReqWait := sleep_arm 0 (KcsReqWait c')\<rparr>, True)"
| read_leave: "kcs_request_leave copy_fails c = Some (r, c') \<Longrightarrow>
    kcs_step ops host_cmd host_data ch (h, c, True) (h, c', False)"
| irq: "kcs_recv_byte ops ch (h, c) = Some (h', c') \<Longrightarrow> kcs_step ops host_cmd host_data ch (h, c, w) (h', c', w)"
| respond: "kcs_write_request ops ch copy_fails buf (h, c) = Some (r, h', c') \<Longrightarrow>
    kcs_step ops host_cmd host_data ch (h, c, w) (h', c', w)"
| ioctl_call: "kcs_ioctlUnlocked ops hw_test testing cmd (h, cs) = Some (r, h', cs') \<Longrightarrow> \<not> (testing \<and> cmd = HW_TEST) \<Longrightarrow>
    unat ch < length cs \<Longrightarrow> c = cs ! unat ch \<Longrightarrow> c' = cs' ! unat ch \<Longrightarrow>
    kcs_step ops host_cmd host_data ch (h, c, w) (h', c', w)"
| registers: "kcs_step ops host_cmd host_data ch (h, c, w) (h', c, w)"
| open_dev: "kcs_step ops host_cmd host_data ch (h, c, w) (h, kcs_open_chan n c, w)"
| release_dev: "kcs_step ops host_cmd host_data ch (h, c, w) (h, kcs_release_chan n c, w)"

text \<open>Registered, then opened for the first time, on whatever memory \<open>kmalloc\<close> returned.\<close>

definition kcs_start :: "kcs_chan \<Rightarrow> kcs_chan" where
  "kcs_start c = kcs_open_chan 1 (kcs_register_chan c)"

inductive kcs_reach ::
  "'h kcs_hal_ops \<Rightarrow> (u8 \<Rightarrow> u8 \<Rightarrow> 'h \<Rightarrow> 'h) \<Rightarrow> (u8 \<Rightarrow> u8 \<Rightarrow> 'h \<Rightarrow> 'h) \<Rightarrow> u8
    \<Rightarrow> 'h \<times> kcs_chan \<times> bool \<Rightarrow> bool"
  for ops host_cmd host_data ch where
  reach_start: "kcs_chan_wf c \<Longrightarrow>
    kcs_reach ops host_cmd host_data ch (h, kcs_start c, False)"
| reach_step: "kcs_reach ops host_cmd host_data ch s \<Longrightarrow> kcs_step ops host_cmd host_data ch s s' \<Longrightarrow>
    kcs_reach ops host_cmd host_data ch s'"

inductive_cases kcs_stepE: "kcs_step ops host_cmd host_data ch (h, c, w) (h', c', w')"

text \<open>
  The invariant of a channel and its reader. The send index stays at or below the length of the response,
  unless the response was the sequence number alone: then the length is 0, and the index may be anywhere in the array.
\<close>

definition kcs_inv :: "kcs_chan \<Rightarrow> bool \<Rightarrow> bool" where
  "kcs_inv c w \<longleftrightarrow> kcs_chan_wf c \<and> unat (KCSRcvPktIx c) \<le> MSG_PAYLOAD_SIZE
     \<and> unat (KCSSeqNo c) < MAX_SEQ_NO
     \<and> (KCSSendPktIx c \<le> KCSSendPktLen c \<or> KCSSendPktLen c = 0 \<and> unat (KCSSendPktIx c) \<le> MSG_PAYLOAD_SIZE)
     \<and> unat (KCSSendPktLen c) < MSG_PAYLOAD_SIZE
     \<and> (KCSSendPktIx c \<noteq> KCSSendPktLen c \<longrightarrow> pKCSSendPkt c)
     \<and> KCSPhase c \<in> {KCS_PHASE_IDLE, KCS_PHASE_WRITE, KCS_PHASE_WRITE_END, KCS_PHASE_READ,
                    KCS_PHASE_ABORT, KCS_PHASE_ERROR}
     \<and> (w \<longrightarrow> KcsIFActive c \<noteq> 0) \<and> (w \<longrightarrow> FirstTime c = 0)"

definition same_io :: "kcs_chan \<Rightarrow> kcs_chan \<Rightarrow> bool" where
  "same_io c c' \<longleftrightarrow> msg c' = msg c \<and> KCSRcvPktIx c' = KCSRcvPktIx c \<and> KCSSeqNo c' = KCSSeqNo c
     \<and> KCSSendPktIx c' = KCSSendPktIx c \<and> KCSSendPktLen c' = KCSSendPktLen c
     \<and> pKCSSendPkt c' = pKCSSendPkt c \<and> KcsIFActive c' = KcsIFActive c \<and> FirstTime c' = FirstTime c"

lemma kcs_inv_frame:
  assumes "kcs_inv c w" "same_io c c'"
    "KCSPhase c' \<in> {KCS_PHASE_IDLE, KCS_PHASE_WRITE, KCS_PHASE_WRITE_END, KCS_PHASE_READ,
                   KCS_PHASE_ABORT, KCS_PHASE_ERROR}"
  shows "kcs_inv c' w"
  using assms by (simp add: kcs_inv_def same_io_def kcs_chan_wf_def)

lemma kcs_inv_push:
  assumes "kcs_inv c w" "unat (KCSRcvPktIx c) < MSG_PAYLOAD_SIZE"
  shows "kcs_inv (rcv_push v c) w"
  using assms by (simp add: kcs_inv_def rcv_push_wf rcv_push_ix)

lemma seq_no_bound: "unat (of_nat (n mod MAX_SEQ_NO) :: u8) < MAX_SEQ_NO"
proof -
  have "n mod MAX_SEQ_NO < MAX_SEQ_NO" by (simp add: MAX_SEQ_NO_def)
  then show ?thesis by (simp add: unat_of_nat MAX_SEQ_NO_def)
qed

lemma kcs_inv_start: "kcs_chan_wf c \<Longrightarrow> kcs_inv (kcs_start c) False"
  by (simp add: kcs_inv_def kcs_start_def kcs_open_chan_def kcs_register_chan_def kcs_chan_wf_def
      MAX_SEQ_NO_def)

lemma kcs_inv_open: "kcs_inv c w \<Longrightarrow> kcs_inv (kcs_open_chan n c) w"
  by (auto simp: kcs_inv_def kcs_open_chan_def kcs_chan_wf_def)

lemma kcs_inv_release: "kcs_inv c w \<Longrightarrow> kcs_inv (kcs_release_chan n c) w"
  by (auto simp: kcs_inv_def kcs_release_chan_def kcs_chan_wf_def)

lemma kcs_inv_enter:
  "kcs_inv c w \<Longrightarrow> kcs_inv ((kcs_request_enter c)\<lparr>KcsReqWait := sl\<rparr>) True"
  by (auto simp: kcs_inv_def kcs_request_enter_def kcs_chan_wf_def Let_def)

lemma request_leave_chan:
  assumes "kcs_request_leave cf c = Some (r, c')"
  shows "c' = c\<lparr>KcsReqWait := sleep_disarm 0 (KcsReqWait c), KcsWakeup := 0, KcsIFActive := 0\<rparr>"
  using assms unfolding kcs_request_leave_def Let_def by (cases cf; simp split: if_splits)

lemma kcs_inv_leave:
  assumes "kcs_inv c w" "kcs_request_leave cf c = Some (r, c')"
  shows "kcs_inv c' False"
  using assms(1) unfolding request_leave_chan [OF assms(2)]
  by (simp add: kcs_inv_def kcs_chan_wf_def)

lemma kcs_inv_write_start:
  assumes "kcs_inv c w"
  shows "\<exists>c'. kcs_write_start c = Some c' \<and> kcs_inv c' w \<and> KCSPhase c' = KCS_PHASE_WRITE"
proof -
  define c0 where "c0 = c\<lparr>KCSRcvPktIx := 0, PrevCmdAborted := 0,
    KCSSeqNo := of_nat ((unat (KCSSeqNo c) + 1) mod MAX_SEQ_NO)\<rparr>"
  have inv0: "kcs_inv c0 w" and ix0: "unat (KCSRcvPktIx c0) = 0"
    using assms seq_no_bound by (simp_all add: kcs_inv_def kcs_chan_wf_def c0_def)
  have "kcs_inv ((rcv_push (KCSSeqNo c0) c0)\<lparr>KCSPhase := KCS_PHASE_WRITE\<rparr>) w"
    by (rule kcs_inv_frame [OF kcs_inv_push [OF inv0]]) (simp_all add: ix0 same_io_def)
  moreover have "kcs_write_start c = Some ((rcv_push (KCSSeqNo c0) c0)\<lparr>KCSPhase := KCS_PHASE_WRITE\<rparr>)"
    using inv0 by (simp add: kcs_write_start_def rcv_store_def arr_set_def rcv_push_def Let_def
        kcs_inv_def kcs_chan_wf_def c0_def)
  ultimately show ?thesis by simp
qed

lemma kcs_inv_abort: "kcs_inv c w \<Longrightarrow> kcs_inv (kcs_abort c) w"
  by (rule kcs_inv_frame [where c = c]) (simp_all add: kcs_abort_def same_io_def Let_def)

lemma kcs_inv_command:
  assumes "kcs_inv c w"
  shows "\<exists>h' c'. kcs_recv_command ops ch (h, c) = Some (h', c') \<and> kcs_inv c' w"
proof -
  have "kcs_inv (c\<lparr>KCSPhase := KCS_PHASE_WRITE_END\<rparr>) w"
    "kcs_inv (c\<lparr>KCSError := KCS_ILLEGAL_CONTROL_CODE, KCSPhase := KCS_PHASE_ERROR\<rparr>) w"
    by (rule kcs_inv_frame [OF assms]; simp add: same_io_def)+
  then show ?thesis using kcs_inv_write_start [OF assms] kcs_inv_abort [OF assms]
    by (auto simp: kcs_recv_command_def split_beta Let_def)
qed

lemma rcv_store_inv:
  assumes "kcs_inv c w"
  shows "rcv_store (KCSRcvPktIx c) v c =
    (if unat (KCSRcvPktIx c) < MSG_PAYLOAD_SIZE
     then Some ((rcv_push v c)\<lparr>KCSRcvPktIx := KCSRcvPktIx c\<rparr>) else None)"
  using assms by (simp add: rcv_store_def arr_set_def kcs_inv_def kcs_chan_wf_def rcv_push_def)

lemma kcs_inv_write:
  assumes "kcs_inv c w"
  shows "unat (KCSRcvPktIx c) = MSG_PAYLOAD_SIZE \<and> kcs_recv_write ops ch (h, c) = None \<or>
    unat (KCSRcvPktIx c) < MSG_PAYLOAD_SIZE \<and>
    (\<exists>h' v. kcs_recv_write ops ch (h, c) = Some (h', rcv_push v c) \<and> kcs_inv (rcv_push v c) w)"
proof -
  have "unat (KCSRcvPktIx c) \<le> MSG_PAYLOAD_SIZE" using assms by (simp add: kcs_inv_def)
  moreover have "KCSRcvPktIx c < MAX_KCS_PKT_LEN" if "unat (KCSRcvPktIx c) < MSG_PAYLOAD_SIZE"
    using that by (simp add: word_less_nat_alt kcs_sizes)
  ultimately show ?thesis using assms kcs_inv_push [OF assms]
    by (auto simp: kcs_recv_write_def split_beta Let_def rcv_store_inv rcv_push_def)
qed

lemma kcs_inv_woken: "kcs_inv (reader_woken c) w = kcs_inv c w"
  by (simp add: kcs_inv_def)

lemma kcs_inv_write_end:
  assumes "kcs_inv c w"
  shows "unat (KCSRcvPktIx c) = MSG_PAYLOAD_SIZE \<and> kcs_recv_write_end ops ch (h, c) = None \<or>
    unat (KCSRcvPktIx c) < MSG_PAYLOAD_SIZE \<and>
    (\<exists>v h'. kcs_recv_write_end ops ch (h, c) =
        Some (h', reader_woken ((rcv_push v c)\<lparr>KCSPhase := KCS_PHASE_READ\<rparr>)) \<and>
      kcs_inv (reader_woken ((rcv_push v c)\<lparr>KCSPhase := KCS_PHASE_READ\<rparr>)) w)"
proof -
  have le: "unat (KCSRcvPktIx c) \<le> MSG_PAYLOAD_SIZE" using assms by (simp add: kcs_inv_def)
  have inv: "kcs_inv (reader_woken ((rcv_push v c)\<lparr>KCSPhase := KCS_PHASE_READ\<rparr>)) w"
    if "unat (KCSRcvPktIx c) < MSG_PAYLOAD_SIZE" for v
    unfolding kcs_inv_woken
    by (rule kcs_inv_frame [OF kcs_inv_push [OF assms that]]) (simp_all add: same_io_def)
  have val: "\<exists>v h'. kcs_recv_write_end ops ch (h, c) =
        Some (h', reader_woken ((rcv_push v c)\<lparr>KCSPhase := KCS_PHASE_READ\<rparr>))"
    if "unat (KCSRcvPktIx c) < MSG_PAYLOAD_SIZE"
    by (intro exI [of _ "fst (read_kcs_data_in ops ch (set_kcs_state ops ch KCS_READ_STATE h))"] exI)
      (simp add: that kcs_recv_write_end_def split_beta Let_def rcv_store_inv [OF assms]
        reader_woken_def rcv_push_def)
  show ?thesis
  proof (cases "unat (KCSRcvPktIx c) < MSG_PAYLOAD_SIZE")
    case True
    then show ?thesis using inv [OF True] val [OF True] by blast
  next
    case False
    then show ?thesis using le
      by (simp add: kcs_recv_write_end_def split_beta Let_def rcv_store_inv [OF assms])
  qed
qed

lemma kcs_inv_read:
  assumes "kcs_inv c w"
  shows "unat (KCSSendPktIx c) = MSG_PAYLOAD_SIZE \<and> fst (read_kcs_data_in ops ch h) = KCS_READ \<and> kcs_recv_read ops ch (h, c) = None \<or>
    \<not> (unat (KCSSendPktIx c) = MSG_PAYLOAD_SIZE \<and> fst (read_kcs_data_in ops ch h) = KCS_READ) \<and>
      (\<exists>h' c'. kcs_recv_read ops ch (h, c) = Some (h', c') \<and> kcs_inv c' w)"
proof -
  have idle: "kcs_inv (c\<lparr>KCSPhase := KCS_PHASE_IDLE, TxReady := 1\<rparr>) w"
    by (rule kcs_inv_frame [OF assms]) (simp_all add: same_io_def)
  show ?thesis
  proof (cases "KCSSendPktIx c = KCSSendPktLen c")
    case True
    then have "unat (KCSSendPktIx c) < MSG_PAYLOAD_SIZE" using assms by (simp add: kcs_inv_def)
    then show ?thesis using True idle assms by (auto simp: kcs_recv_read_def split_beta Let_def)
  next
    case False
    have p: "pKCSSendPkt c" using False assms by (simp add: kcs_inv_def)
    have le: "unat (KCSSendPktIx c) \<le> MSG_PAYLOAD_SIZE"
      using assms by (auto simp: kcs_inv_def word_le_nat_alt)
    have f: "send_fetch (KCSSendPktIx c) c = (if unat (KCSSendPktIx c) < MSG_PAYLOAD_SIZE
        then Some (Response (msg c) ! unat (KCSSendPktIx c)) else None)"
      using assms p by (simp add: send_fetch_def arr_get_def kcs_inv_def kcs_chan_wf_def)
    have next_inv: "kcs_inv (c\<lparr>KCSSendPktIx := KCSSendPktIx c + 1\<rparr>) w" if "unat (KCSSendPktIx c) < MSG_PAYLOAD_SIZE"
    proof (cases "KCSSendPktIx c \<le> KCSSendPktLen c")
      case True
      then have "KCSSendPktIx c < KCSSendPktLen c" using False by simp
      then have "KCSSendPktIx c + 1 \<le> KCSSendPktLen c" by (rule inc_le)
      then show ?thesis using assms p by (simp add: kcs_inv_def kcs_chan_wf_def)
    next
      case False
      have "unat (KCSSendPktIx c + 1) = Suc (unat (KCSSendPktIx c))"
        using that by (simp add: unat_add1_32 kcs_sizes)
      then show ?thesis using False assms p that by (simp add: kcs_inv_def kcs_chan_wf_def)
    qed
    show ?thesis
    proof (cases "fst (read_kcs_data_in ops ch h) = KCS_READ")
      case True
      then show ?thesis using False f le next_inv
        by (auto simp: kcs_recv_read_def split_beta Let_def)
    next
      case other: False
      then show ?thesis using False assms by (auto simp: kcs_recv_read_def split_beta Let_def)
    qed
  qed
qed

lemma kcs_inv_recv_abort:
  assumes "kcs_inv c w"
  shows "\<exists>h' c'. kcs_recv_abort ops ch (h, c) = Some (h', c') \<and> kcs_inv c' w"
proof -
  have "kcs_inv (c\<lparr>AbortPhase := ABORT_PHASE_ERROR2\<rparr>) w"
    using assms by (simp add: kcs_inv_def kcs_chan_wf_def)
  moreover have "kcs_inv (c\<lparr>KCSPhase := KCS_PHASE_IDLE, AbortPhase := 0\<rparr>) w"
    by (rule kcs_inv_frame [OF assms]) (simp_all add: same_io_def)
  ultimately show ?thesis using assms by (auto simp: kcs_recv_abort_def split_beta Let_def)
qed

lemma kcs_inv_respond:
  assumes inv: "kcs_inv c w" and r: "kcs_write_request ops ch cf buf (h, c) = Some (r, h', c')"
  shows "kcs_inv c' w \<and> KcsWakeup c' = KcsWakeup c \<and> KCSError c' = KCSError c"
proof (cases cf)
  case True
  then show ?thesis using inv r by (simp add: kcs_write_request_def)
next
  case False
  have wf: "kcs_chan_wf c" using inv by (simp add: kcs_inv_def)
  have le: "length buf \<le> MSG_PAYLOAD_SIZE"
    using r False wf by (auto simp: kcs_write_request_def copy_response_def kcs_chan_wf_def Let_def
        split: if_splits)
  have ne: "buf \<noteq> []" using r False by (auto simp: kcs_write_request_def copy_response_def Let_def)
  obtain m' where m': "copy_response buf c = Some (c\<lparr>msg := m'\<rparr>)"
    "unat (ResponseSize m') = length buf - 1" "length (Response m') = MSG_PAYLOAD_SIZE"
    "Request m' = Request (msg c)"
    using copy_response_wf [OF wf ne le] by auto
  have small: "length buf - 1 < MSG_PAYLOAD_SIZE" using le ne payload_pos by (cases buf) auto
  have one: "(1 :: u32) \<le> ResponseSize m' \<or> ResponseSize m' = 0 \<and> unat (1 :: u32) \<le> MSG_PAYLOAD_SIZE"
  proof (cases "ResponseSize m' = 0")
    case False
    then show ?thesis by (simp add: word_le_nat_alt) (metis Suc_leI unat_gt_0)
  qed (simp add: kcs_sizes)
  define c1 where "c1 = c\<lparr>msg := m'\<rparr>"
  have inv1: "kcs_inv c1 w" and wk1: "KcsWakeup c1 = KcsWakeup c" "KCSError c1 = KCSError c" using inv m'
    by (simp_all add: c1_def kcs_inv_def kcs_chan_wf_def)
  obtain h2 c2 where s2: "send_kcs_response ops ch (h, c1) = Some (h2, c2)"
    and c': "c' = (if KcsResFirstTime c2 \<noteq> 0
        then c2\<lparr>KcsResWait := Kcs_OsInitSleepStruct (KcsResWait c2), KcsResFirstTime := 0\<rparr>
        else c2)\<lparr>KcsWtIFActive := 1\<rparr>\<lparr>TxReady := 0\<rparr>\<lparr>KcsWtIFActive := 0\<rparr>"
    using r False m'(1) by (auto simp: kcs_write_request_def c1_def Let_def split: bind_splits)
  have "kcs_inv c2 w \<and> KcsWakeup c2 = KcsWakeup c1 \<and> KCSError c2 = KCSError c1"
  proof (cases "PrevCmdAborted c1 \<noteq> 0 \<or> ucast (KCSSeqNo c1) \<noteq> SessionID (msg c1)")
    case True
    have "kcs_inv (c1\<lparr>PrevCmdAborted := 0\<rparr>) w"
      by (rule kcs_inv_frame [OF inv1]) (use inv1 in \<open>simp_all add: same_io_def kcs_inv_def\<close>)
    with True s2 inv1 show ?thesis by (auto simp: send_kcs_response_def Let_def split: if_splits)
  next
    case False
    then have "c2 = c1\<lparr>pKCSSendPkt := True, KCSSendPktLen := ResponseSize m', KCSSendPktIx := 1\<rparr>"
      using s2 by (auto simp: send_kcs_response_def c1_def Let_def split: bind_splits if_splits)
    then show ?thesis using inv1 one small m'(2) by (simp add: kcs_inv_def kcs_chan_wf_def)
  qed
  moreover have "kcs_inv c' w = kcs_inv c2 w" "KcsWakeup c' = KcsWakeup c2" "KCSError c' = KCSError c2"
    unfolding c' by (simp_all add: kcs_inv_def kcs_chan_wf_def)
  ultimately show ?thesis using wk1 by simp
qed

text \<open>An interrupt for whatever the registers hold, and the ioctls, of which two run the handler on channel 1.\<close>

lemma kcs_inv_recv:
  assumes "kcs_inv c w" "kcs_recv_byte ops ch (h, c) = Some (h', c')"
  shows "kcs_inv c' w"
proof -
  obtain st h1 where h1: "read_kcs_status ops ch h = (st, h1)" by fastforce
  then show ?thesis
    using assms kcs_inv_command [OF assms(1), of ops ch h1] kcs_inv_write [OF assms(1), of ops ch h1]
      kcs_inv_write_end [OF assms(1), of ops ch h1] kcs_inv_read [OF assms(1), of ops ch h1]
      kcs_inv_recv_abort [OF assms(1), of ops ch h1]
    by (auto simp: kcs_recv_byte_def kcs_recv_other_def split_beta Let_def split: if_splits)
qed

lemma recv_store_flags:
  "rcv_store i b c = Some d \<Longrightarrow> KcsWakeup d = KcsWakeup c \<and> KCSError d = KCSError c"
  by (auto simp: rcv_store_def split: bind_splits)

text \<open>
  The handler gives a wake-up and never takes one; it stores the error code of an abort only where there is none,
  and that of an illegal command always.
\<close>

lemma recv_flags:
  assumes "kcs_recv_byte ops ch (h, c) = Some (h', c')"
  shows "(KcsWakeup c' = KcsWakeup c \<or> KcsWakeup c' = 1) \<and>
    (KCSError c \<noteq> KCS_NO_ERROR \<longrightarrow> KCSError c' \<in> {KCSError c, KCS_ILLEGAL_CONTROL_CODE})"
  using assms
  by (auto simp: kcs_recv_byte_def kcs_recv_command_def kcs_write_start_def kcs_abort_def kcs_recv_write_def
      kcs_recv_write_end_def kcs_recv_read_def kcs_recv_abort_def kcs_recv_other_def Let_def split_beta
      split: if_splits bind_splits dest!: recv_store_flags)

lemma sms_channel:
  assumes "sms_bit_update ops upd a (h, cs) = Some (r, h', cs')"
  shows "cs' = cs \<or> (\<exists>h1 h2 c2. kcs_recv_byte ops 1 (h1, cs ! 1) = Some (h2, c2) \<and> cs' = cs[1 := c2])"
proof (cases a)
  case (Some ifc)
  obtain st h0 where st: "read_kcs_status ops ifc h = (st, h0)" by fastforce
  show ?thesis
  proof (cases "IS_IBF_SET st")
    case True
    then obtain h1 where "on_chan 1 (kcs_recv_byte ops 1) (h0, cs) = Some (h1, cs')"
      using assms Some st by (auto simp: sms_bit_update_def split: bind_splits)
    then show ?thesis by (force simp: on_chan_def arr_get_def split: if_splits bind_splits)
  qed (use assms Some st in \<open>auto simp: sms_bit_update_def\<close>)
qed (use assms in \<open>simp add: sms_bit_update_def\<close>)

lemma ioctl_channel:
  assumes "kcs_ioctlUnlocked ops hw_test testing cmd (h, cs) = Some (r, h', cs')" "testing \<longrightarrow> cmd \<noteq> HW_TEST"
    "unat ch < length cs"
  shows "cs' ! unat ch = cs ! unat ch \<or> (\<exists>h1 h2. kcs_recv_byte ops ch (h1, cs ! unat ch) = Some (h2, cs' ! unat ch))"
proof -
  have "cs' = cs \<or> (\<exists>h1 h2 c2. kcs_recv_byte ops 1 (h1, cs ! 1) = Some (h2, c2) \<and> cs' = cs[1 := c2])"
  proof (cases cmd)
    case (SET_SMS_BIT a)
    then show ?thesis using assms(1) sms_channel [of ops _ a h cs r h' cs'] by (simp add: kcs_set_sms_bit_def)
  next
    case (CLEAR_SMS_BIT a)
    then show ?thesis using assms(1) sms_channel [of ops _ a h cs r h' cs'] by (simp add: kcs_clear_sms_bit_def)
  qed (use assms(1,2) in \<open>auto simp: kcs_interrupt_enable_def kcs_interrupt_disable_def kcs_set_user_interrupt_enable_def
        kcs_set_user_interrupt_disable_def hal_ioctl_def kcs_set_obf_bit_def Write_kcs_status_data_def Let_def split_beta
        split: option.splits if_splits\<close>)
  moreover have "ch = 1" if "unat ch = 1" using that by (metis of_nat_1 of_nat_unat ucast_id)
  ultimately show ?thesis using assms(3) by (cases "unat ch = 1") auto
qed

text \<open>
  The bytes on which the handler faults: one more of a request that fills the buffer, and one more read of
  a response that is past the end of the array.
\<close>

definition faults_on :: "u8 \<Rightarrow> kcs_chan \<Rightarrow> bool" where
  "faults_on v c \<longleftrightarrow>
     KCSPhase c \<in> {KCS_PHASE_WRITE, KCS_PHASE_WRITE_END} \<and> unat (KCSRcvPktIx c) = MSG_PAYLOAD_SIZE \<or>
     KCSPhase c = KCS_PHASE_READ \<and> v = KCS_READ \<and> unat (KCSSendPktIx c) = MSG_PAYLOAD_SIZE"

context kcs_host_contract begin

lemma cmd_total:
  assumes "chan ch" "kcs_inv c w"
  shows "\<exists>h' c'. kcs_cmd_intr ops host_cmd ch v (h, c) = Some (h', c') \<and> kcs_inv c' w"
  using kcs_inv_command [OF assms(2)] by (simp add: cmd_dispatch assms(1))

lemma data_total:
  assumes "chan ch" "kcs_inv c w"
  shows "faults_on v c \<and> kcs_recv_byte ops ch (host_data ch v h, c) = None \<or>
    \<not> faults_on v c \<and> (\<exists>h' c'. kcs_recv_byte ops ch (host_data ch v h, c) = Some (h', c') \<and> kcs_inv c' w)"
proof -
  obtain h1 where "read_kcs_data_in ops ch (host_data ch v h) = (v, h1)"
    using read_data_pair [OF assms(1), of "host_data ch v h"] unfolding data_din [OF assms(1)] by blast
  then have f: "fst (read_kcs_data_in ops ch (host_data ch v h)) = v" by simp
  have rd: "unat (KCSSendPktIx c) = MSG_PAYLOAD_SIZE \<and> v = KCS_READ \<and> kcs_recv_read ops ch (host_data ch v h, c) = None \<or>
    \<not> (unat (KCSSendPktIx c) = MSG_PAYLOAD_SIZE \<and> v = KCS_READ) \<and>
      (\<exists>h' c'. kcs_recv_read ops ch (host_data ch v h, c) = Some (h', c') \<and> kcs_inv c' w)"
    using kcs_inv_read [OF assms(2), of ops ch "host_data ch v h"] unfolding f .
  have d: "kcs_recv_byte ops ch (host_data ch v h, c) =
      (if KCSPhase c = KCS_PHASE_WRITE then kcs_recv_write ops ch (host_data ch v h, c)
       else if KCSPhase c = KCS_PHASE_WRITE_END then kcs_recv_write_end ops ch (host_data ch v h, c)
       else if KCSPhase c = KCS_PHASE_READ then kcs_recv_read ops ch (host_data ch v h, c)
       else if KCSPhase c = KCS_PHASE_ABORT then kcs_recv_abort ops ch (host_data ch v h, c)
       else kcs_recv_other ops ch (host_data ch v h, c))"
    by (rule data_dispatch [OF assms(1)])
  consider "KCSPhase c = KCS_PHASE_WRITE" | "KCSPhase c = KCS_PHASE_WRITE_END" | "KCSPhase c = KCS_PHASE_READ"
    | "KCSPhase c = KCS_PHASE_ABORT"
    | "KCSPhase c \<notin> {KCS_PHASE_WRITE, KCS_PHASE_WRITE_END, KCS_PHASE_READ, KCS_PHASE_ABORT}" by blast
  then show ?thesis
  proof cases
    case 1
    then have "faults_on v c \<longleftrightarrow> unat (KCSRcvPktIx c) = MSG_PAYLOAD_SIZE"
      by (simp add: faults_on_def kcs_phases)
    moreover have "kcs_recv_byte ops ch (host_data ch v h, c) = kcs_recv_write ops ch (host_data ch v h, c)"
      unfolding d using 1 by (simp add: kcs_phases)
    ultimately show ?thesis using kcs_inv_write [OF assms(2), of ops ch "host_data ch v h"] by auto
  next
    case 2
    then have "faults_on v c \<longleftrightarrow> unat (KCSRcvPktIx c) = MSG_PAYLOAD_SIZE"
      by (simp add: faults_on_def kcs_phases)
    moreover have "kcs_recv_byte ops ch (host_data ch v h, c) = kcs_recv_write_end ops ch (host_data ch v h, c)"
      unfolding d using 2 by (simp add: kcs_phases)
    ultimately show ?thesis using kcs_inv_write_end [OF assms(2), of ops ch "host_data ch v h"] by auto
  next
    case 3
    then have "faults_on v c \<longleftrightarrow> unat (KCSSendPktIx c) = MSG_PAYLOAD_SIZE \<and> v = KCS_READ"
      by (auto simp: faults_on_def kcs_phases)
    moreover have "kcs_recv_byte ops ch (host_data ch v h, c) = kcs_recv_read ops ch (host_data ch v h, c)"
      unfolding d using 3 by (simp add: kcs_phases)
    ultimately show ?thesis using rd by simp
  next
    case 4
    then have "faults_on v c \<longleftrightarrow> False"
      by (simp add: faults_on_def kcs_phases)
    moreover have "kcs_recv_byte ops ch (host_data ch v h, c) = kcs_recv_abort ops ch (host_data ch v h, c)"
      unfolding d using 4 by (simp add: kcs_phases)
    ultimately show ?thesis using kcs_inv_recv_abort [OF assms(2), of ops ch "host_data ch v h"] by auto
  next
    case 5
    then have "\<not> faults_on v c" by (simp add: faults_on_def)
    moreover have "kcs_recv_byte ops ch (host_data ch v h, c) = kcs_recv_other ops ch (host_data ch v h, c)"
      unfolding d using 5 by simp
    ultimately show ?thesis using assms(2) by (simp add: kcs_recv_other_def split_beta Let_def)
  qed
qed

lemma step_inv:
  assumes "chan ch" "kcs_step ops host_cmd host_data ch (h, c, w) (h', c', w')" "kcs_inv c w"
  shows "kcs_inv c' w'"
  using assms(2)
proof (elim kcs_stepE)
  show "kcs_inv c' w'" if "kcs_cmd_intr ops host_cmd ch v (h, c) = Some (h', c')" "w' = w" for v
    using cmd_total [OF assms(1,3), of v h] that by auto
  show "kcs_inv c' w'" if "kcs_recv_byte ops ch (host_data ch v h, c) = Some (h', c')" "w' = w" for v
    using kcs_inv_recv [OF assms(3) that(1)] that(2) by simp
  show "kcs_inv c' w'" if "kcs_recv_byte ops ch (h, c) = Some (h', c')" "w' = w"
    using kcs_inv_recv [OF assms(3) that(1)] that(2) by simp
  show "kcs_inv c' w'" if "kcs_write_request ops ch cf buf (h, c) = Some (r, h', c')" "w' = w" for cf buf r
    using kcs_inv_respond [OF assms(3) that(1)] that(2) by simp
  show "kcs_inv c' w'" if "kcs_ioctlUnlocked ops hw_test testing cmd (h, cs) = Some (r, h', cs')" "w' = w"
    "testing \<longrightarrow> cmd \<noteq> HW_TEST" "unat ch < length cs" "c = cs ! unat ch" "c' = cs' ! unat ch"
    for hw_test testing cmd cs r cs'
    using ioctl_channel [OF that(1,3,4)] kcs_inv_recv [OF assms(3)] assms(3) that(2,5,6) by auto
qed (use kcs_inv_enter [OF assms(3)] kcs_inv_leave [OF assms(3)] kcs_inv_open [OF assms(3)]
    kcs_inv_release [OF assms(3)] assms(3) in auto)

lemma reach_inv:
  assumes "chan ch"
  shows "kcs_reach ops host_cmd host_data ch s \<Longrightarrow> kcs_inv (fst (snd s)) (snd (snd s))"
proof (induction rule: kcs_reach.induct)
  case (reach_step s s')
  then show ?case using step_inv [OF assms] by (metis prod.collapse)
qed (simp add: kcs_inv_start)

text \<open>
  A wake-up once given stays until the reader consumes it, whatever runs in between; and an error code once
  there is replaced by that of an illegal command at most.
\<close>

lemma step_flags:
  assumes "chan ch" "kcs_step ops host_cmd host_data ch (h, c, w) (h', c', w')" "kcs_inv c w"
  shows "(KcsWakeup c \<noteq> 0 \<longrightarrow> (w \<longrightarrow> w') \<longrightarrow> KcsWakeup c' \<noteq> 0) \<and>
    (KCSError c \<noteq> KCS_NO_ERROR \<longrightarrow> KCSError c' \<in> {KCSError c, KCS_ILLEGAL_CONTROL_CODE})" (is ?P)
  using assms(2)
proof (elim kcs_stepE)
  show ?P if "kcs_cmd_intr ops host_cmd ch v (h, c) = Some (h', c')" for v
    using recv_flags [of ops ch "host_cmd ch v h" c h' c'] that by (auto simp: kcs_cmd_intr_def)
  show ?P if "kcs_recv_byte ops ch (host_data ch v h, c) = Some (h', c')" for v
    using recv_flags [OF that] by auto
  show ?P if "kcs_recv_byte ops ch (h, c) = Some (h', c')"
    using recv_flags [OF that] by auto
  show ?P if "kcs_write_request ops ch cf buf (h, c) = Some (r, h', c')" for cf buf r
    using kcs_inv_respond [OF assms(3) that] by simp
  show ?P if "kcs_ioctlUnlocked ops hw_test testing cmd (h, cs) = Some (r, h', cs')"
    "testing \<longrightarrow> cmd \<noteq> HW_TEST" "unat ch < length cs" "c = cs ! unat ch" "c' = cs' ! unat ch"
    for hw_test testing cmd cs r cs'
    using ioctl_channel [OF that(1-3)] recv_flags [of ops ch _ c _ c'] that(4,5) by fastforce
qed (auto simp: kcs_request_enter_def kcs_open_chan_def kcs_release_chan_def Let_def dest!: request_leave_chan)

lemma steps_error:
  assumes "chan ch" "kcs_inv c w" "(kcs_step ops host_cmd host_data ch)\<^sup>*\<^sup>* (h, c, w) s" "KCSError c \<noteq> KCS_NO_ERROR"
  shows "KCSError (fst (snd s)) \<in> {KCSError c, KCS_ILLEGAL_CONTROL_CODE}"
proof -
  from assms(3) have "kcs_inv (fst (snd s)) (snd (snd s)) \<and> KCSError (fst (snd s)) \<in> {KCSError c, KCS_ILLEGAL_CONTROL_CODE}"
  proof (induction rule: rtranclp_induct)
    case (step s1 s2)
    have st: "kcs_step ops host_cmd host_data ch (fst s1, fst (snd s1), snd (snd s1)) (fst s2, fst (snd s2), snd (snd s2))"
      using step.hyps(2) by simp
    have "KCSError (fst (snd s1)) \<noteq> KCS_NO_ERROR" using step.IH assms(4) by (auto simp: kcs_codes)
    then show ?case using step_inv [OF assms(1) st] step_flags [OF assms(1) st] step.IH by auto
  qed (simp add: assms(2))
  then show ?thesis by simp
qed

end

section \<open>A response of no bytes, and the SMS bit calls\<close>

context kcs_host_contract begin

lemma overread:
  assumes ch: "chan ch"
  shows "kcs_chan_wf c \<Longrightarrow> KCSPhase c = KCS_PHASE_READ \<Longrightarrow> pKCSSendPkt c \<Longrightarrow> KCSSendPktLen c = 0 \<Longrightarrow>
    0 < unat (KCSSendPktIx c) \<Longrightarrow> unat (KCSSendPktIx c) + n = Suc MSG_PAYLOAD_SIZE \<Longrightarrow> 0 < n \<Longrightarrow>
    kcs_host_read ops dout host_data ch n (h, c) = None"
proof (induction n arbitrary: h c)
  case (Suc n)
  obtain h1 where h1: "read_kcs_data_in ops ch (host_data ch KCS_READ h) = (KCS_READ, h1)"
    using read_data_pair [OF ch, of "host_data ch KCS_READ h"] by (auto simp: data_din ch)
  have ne: "KCSSendPktIx c \<noteq> KCSSendPktLen c" using Suc.prems by auto
  have step: "kcs_recv_byte ops ch (host_data ch KCS_READ h, c) =
      do { v \<leftarrow> send_fetch (KCSSendPktIx c) c;
           Some (put_data_out ops ch v h1, c\<lparr>KCSSendPktIx := KCSSendPktIx c + 1\<rparr>) }"
    using Suc.prems(2) ne h1 by (simp add: data_dispatch ch kcs_phases kcs_recv_read_def)
  show ?case
  proof (cases n)
    case 0
    then have "unat (KCSSendPktIx c) = MSG_PAYLOAD_SIZE" using Suc.prems(6) by simp
    then have "send_fetch (KCSSendPktIx c) c = None"
      using Suc.prems by (simp add: send_fetch_def arr_get_def kcs_chan_wf_def)
    then show ?thesis using step by simp
  next
    case (Suc m)
    then have lt: "unat (KCSSendPktIx c) < MSG_PAYLOAD_SIZE" using Suc.prems(6) by simp
    have "send_fetch (KCSSendPktIx c) c = Some (Response (msg c) ! unat (KCSSendPktIx c))"
      using Suc.prems lt by (simp add: send_fetch_def arr_get_def kcs_chan_wf_def)
    moreover have u: "unat (KCSSendPktIx c + 1) = Suc (unat (KCSSendPktIx c))"
      using lt by (simp add: unat_add1_32 kcs_sizes)
    have "kcs_host_read ops dout host_data ch n
        (put_data_out ops ch (Response (msg c) ! unat (KCSSendPktIx c)) h1,
         c\<lparr>KCSSendPktIx := KCSSendPktIx c + 1\<rparr>) = None"
      using Suc.prems u Suc
      by (intro Suc.IH) (simp_all add: kcs_chan_wf_def)
    ultimately show ?thesis using step by simp
  qed
qed simp

lemma empty_response:
  assumes ch: "chan ch" and wf: "kcs_chan_wf c" and ph: "KCSPhase c = KCS_PHASE_READ"
    and na: "PrevCmdAborted c = 0"
  shows "\<exists>h' c'. kcs_write_request ops ch False [KCSSeqNo c] (h, c) = Some (Inr 1, h', c') \<and>
    kcs_host_read ops dout host_data ch MSG_PAYLOAD_SIZE (h', c') = None"
proof -
  obtain m' where m': "copy_response [KCSSeqNo c] c = Some (c\<lparr>msg := m'\<rparr>)"
    "SessionID m' = ucast (KCSSeqNo c)" "unat (ResponseSize m') = 0"
    "length (Response m') = MSG_PAYLOAD_SIZE" "Request m' = Request (msg c)"
    using copy_response_wf [OF wf, of "[KCSSeqNo c]"] less_imp_le [OF payload_pos(1)]
    by (auto simp: Suc_le_eq)
  have len0: "ResponseSize m' = 0" using m'(3) by (simp add: unat_eq_0)
  obtain h' c' where r: "kcs_write_request ops ch False [KCSSeqNo c] (h, c) = Some (Inr 1, h', c')"
    "KCSPhase c' = KCS_PHASE_READ" "pKCSSendPkt c'" "KCSSendPktLen c' = 0" "KCSSendPktIx c' = 1"
    "kcs_chan_wf c'"
    using m' len0 ph na wf
    by (auto simp: kcs_write_request_def send_kcs_response_def send_fetch_def arr_get_def
        kcs_chan_wf_def Let_def)
  then show ?thesis using overread [OF ch r(6,2-4), of MSG_PAYLOAD_SIZE h'] by simp
qed

lemma sms_state_restored:
  assumes ch: "chan 1" and cs: "1 < length cs" and wf: "kcs_chan_wf (cs ! 1)"
    and st: "status 1 h AND 0x08 = 0" "status 1 h AND 0x02 \<noteq> 0"
    and ph: "KCSPhase (cs ! 1) = KCS_PHASE_WRITE_END"
    and lt: "unat (KCSRcvPktIx (cs ! 1)) < MSG_PAYLOAD_SIZE"
  shows "\<exists>h' cs'. kcs_set_sms_bit ops (Some 1) (h, cs) = Some (Inr (), h', cs') \<and>
    KCSPhase (cs' ! 1) = KCS_PHASE_READ \<and> status 1 h' AND 0xC0 = status 1 h AND 0xC0"
proof -
  define c where "c = cs ! 1"
  have "\<exists>h2 v. kcs_recv_write_end ops 1 (h, c) =
      Some (h2, reader_woken ((rcv_push v c)\<lparr>KCSPhase := KCS_PHASE_READ\<rparr>))"
    using wf lt unfolding c_def [symmetric]
    by (intro exI [of _ "fst (read_kcs_data_in ops 1 (set_kcs_state ops 1 KCS_READ_STATE h))"] exI)
      (simp add: kcs_recv_write_end_def split_beta Let_def rcv_store_def arr_set_def kcs_chan_wf_def
        reader_woken_def rcv_push_def)
  then obtain h2 c2 where s2: "kcs_recv_byte ops 1 (h, c) = Some (h2, c2)" "KCSPhase c2 = KCS_PHASE_READ"
    using st ph by (auto simp: kcs_recv_byte_def rd_status ch cmd_or_data kcs_phases c_def)
  define h3 where "h3 = write_kcs_status ops 1 (status 1 h OR 0x04) h2"
  have "status 1 h3 AND 0xC0 = (status 1 h3 AND 0xF4) AND 0xC0"
    by (rule byte_eqI; simp add: bit_simps)
  also have "\<dots> = ((status 1 h OR 0x04) AND 0xF4) AND 0xC0"
    unfolding h3_def wr_status_hi [OF ch] by simp
  also have "\<dots> = status 1 h AND 0xC0" by (rule byte_eqI; simp add: bit_simps)
  finally have "status 1 h3 AND 0xC0 = status 1 h AND 0xC0" .
  moreover have "kcs_set_sms_bit ops (Some 1) (h, cs) = Some (Inr (), h3, cs[1 := c2])"
    using s2 st cs by (simp add: kcs_set_sms_bit_def sms_bit_update_def rd_status ch IS_IBF_SET_def
        on_chan_def arr_get_def c_def h3_def)
  ultimately show ?thesis using s2(2) cs by auto
qed

end

section \<open>Properties of the driver on the AST controller\<close>

text \<open>A freshly allocated channel, for closed examples.\<close>

definition kcs_chan0 :: kcs_chan where
  "kcs_chan0 = \<lparr>KCSRcvPktIx = 0, KCSSendPktIx = 0, KCSSendPktLen = 0, pKCSSendPkt = False,
     KCSPhase = KCS_PHASE_IDLE, AbortPhase = 0, KCSError = 0, FirstTime = 1,
     KcsReqWait = \<lparr>woken = False, tim_armed = False, Timeout = False\<rparr>, KcsIFActive = 0,
     KcsWakeup = 0, KcsResFirstTime = 1, KcsINuse = 1,
     KcsResWait = \<lparr>woken = False, tim_armed = False, Timeout = False\<rparr>, KcsWtIFActive = 0,
     TxReady = 0, PrevCmdAborted = 0, KCSSeqNo = 249,
     msg = \<lparr>SessionID = 0, Request = replicate MSG_PAYLOAD_SIZE 0, ResponseSize = 0,
            Response = replicate MSG_PAYLOAD_SIZE 0\<rparr>\<rparr>"

definition ast_kcs0 :: "lpc_regs ast_kcs" where
  "ast_kcs0 = \<lparr>dev = (\<lambda>r. 0), kcs_enabled_by_user = [False, False, False, False]\<rparr>"

lemma kcs_chan0_wf: "kcs_chan_wf kcs_chan0"
  by (simp add: kcs_chan_wf_def kcs_chan0_def)

lemma chan1: "1 < AST_KCS_CHANNEL_NUM grp"
  by (simp add: AST_KCS_CHANNEL_NUM_def)

text \<open>
  C1. A transaction delivers: whatever state the channel was in, the host that writes the bytes
  of a request that fits the buffer and then reads gets exactly the reply the process computed
  from exactly those bytes, and the interface is idle afterwards, with the next sequence number.
\<close>

theorem kcs_transaction_correct:
  assumes dev: "lpc_kcs_host grp io reg hcmd hdata" and ch: "ch < AST_KCS_CHANNEL_NUM grp"
    and wf: "kcs_chan_wf c" and len: "length bs + 2 \<le> MSG_PAYLOAD_SIZE"
    and ne: "f (bs @ [b]) \<noteq> []" and le: "length (f (bs @ [b])) < MSG_PAYLOAD_SIZE"
  shows "\<exists>h' c'. kcs_transaction (ast_kcs_hw_ops grp io) (ast_dout grp reg) (ast_host hcmd)
      (ast_host hdata) ch f bs b (h, c) = Some (f (bs @ [b]), h', c') \<and>
    KCSPhase c' = KCS_PHASE_IDLE \<and> TxReady c' = 1 \<and>
    ast_status grp reg ch h' AND 0xC0 = KCS_IDLE_STATE \<and>
    KCSSeqNo c' = of_nat ((unat (KCSSeqNo c) + 1) mod MAX_SEQ_NO)"
  by (rule kcs_host_contract.transaction [OF lpc_kcs_host.ast_contract [OF dev]]) (use assms in simp_all)

lemma lpc_true: "lpc_kcs_host True (lpc_mmio True) (\<lambda>r d. d r) (lpc_host_cmd True) (lpc_host_data True)"
  by (rule lpch.lpc_kcs_host_axioms)

lemma kcs_transaction_witness:
  "\<exists>h' c'. kcs_transaction (ast_kcs_hw_ops True (lpc_mmio True)) (ast_dout True (\<lambda>r d. d r))
      (ast_host (lpc_host_cmd True)) (ast_host (lpc_host_data True)) 1 (\<lambda>req. 0x1C # req) [0x18] 0x01
      (ast_kcs0, kcs_chan0) = Some ([0x1C, 0x18, 0x01], h', c') \<and>
    KCSPhase c' = KCS_PHASE_IDLE \<and> TxReady c' = 1 \<and>
    ast_status True (\<lambda>r d. d r) 1 h' AND 0xC0 = KCS_IDLE_STATE \<and> KCSSeqNo c' = 0"
  using kcs_transaction_correct [OF lpc_true chan1 kcs_chan0_wf, of "[0x18]" "\<lambda>req. 0x1C # req" "0x01"]
  by (simp add: kcs_sizes MAX_SEQ_NO_def kcs_chan0_def [THEN arg_cong [of _ _ KCSSeqNo]])

text \<open>
  C31. A completed request reaches the process: after a write transfer the sleep condition of
  \<open>kcs_read\<close> holds (the device being open), and the process that leaves the sleep gets the
  sequence number followed by exactly the bytes the host wrote.
\<close>

theorem kcs_request_delivered:
  assumes dev: "lpc_kcs_host grp io reg hcmd hdata" and ch: "ch < AST_KCS_CHANNEL_NUM grp"
    and wf: "kcs_chan_wf c" and len: "length bs + 2 \<le> MSG_PAYLOAD_SIZE" and open': "KcsINuse c \<noteq> 0"
  shows "\<exists>h' c' c''. kcs_host_write (ast_kcs_hw_ops grp io) (ast_host hcmd) (ast_host hdata) ch bs b (h, c)
      = Some (h', c') \<and> sleep_cond (KcsWakeup c') (KcsReqWait c') \<and>
    kcs_request_leave False c' = Some (Inr (KCSSeqNo c' # bs @ [b]), c'') \<and>
    KcsIFActive c'' = 0 \<and> KcsWakeup c'' = 0"
proof -
  obtain h' c' where w: "kcs_host_write (ast_kcs_hw_ops grp io) (ast_host hcmd) (ast_host hdata) ch bs b (h, c)
      = Some (h', c')" "kcs_chan_wf c'" "received c' = KCSSeqNo c' # bs @ [b]" "KcsWakeup c' = 1"
    "unat (KCSRcvPktIx c') = length bs + 2"
    using kcs_host_contract.write_transfer [OF lpc_kcs_host.ast_contract [OF dev] ch wf len, of b h] open'
    by auto
  define c'' where "c'' = c'\<lparr>KcsReqWait := sleep_disarm 0 (KcsReqWait c'), KcsWakeup := 0, KcsIFActive := 0\<rparr>"
  have "kcs_request_leave False c' = Some (Inr (KCSSeqNo c' # bs @ [b]), c'')"
    using request_leave_received [of c'] w len by (simp add: c''_def)
  moreover have "KcsIFActive c'' = 0 \<and> KcsWakeup c'' = 0" by (simp add: c''_def)
  ultimately show ?thesis using w(1,4) by (auto simp: sleep_cond_def)
qed

lemma kcs_request_delivered_witness:
  "\<exists>h' c' c''. kcs_host_write (ast_kcs_hw_ops True (lpc_mmio True)) (ast_host (lpc_host_cmd True))
      (ast_host (lpc_host_data True)) 3 [0x18] 0x01 (ast_kcs0, kcs_chan0) = Some (h', c') \<and>
    sleep_cond (KcsWakeup c') (KcsReqWait c') \<and>
    kcs_request_leave False c' = Some (Inr [KCSSeqNo c', 0x18, 0x01], c'') \<and>
    KcsIFActive c'' = 0 \<and> KcsWakeup c'' = 0"
  using kcs_request_delivered [OF lpc_true _ kcs_chan0_wf, of 3 "[0x18]" "0x01" ast_kcs0]
  by (simp add: kcs_sizes AST_KCS_CHANNEL_NUM_def kcs_chan0_def [THEN arg_cong [of _ _ KcsINuse]])

text \<open>
  C13. Memory safety of the driver, in every state reachable under any interleaving of interrupts, reads,
  responses of any length, ioctls, opens and releases, with registers that change in between: a command of the host
  never faults, and \<open>kcs_read\<close> never copies from outside the buffer. A data byte of the host faults in
  exactly two cases: a byte of a request that already fills the packet buffer, and a read of the byte
  behind the end of the response array, which only a host reaches that goes on reading a response
  of no bytes.
\<close>

theorem kcs_handler_faults_exactly:
  assumes dev: "lpc_kcs_host grp io reg hcmd hdata" and ch: "ch < AST_KCS_CHANNEL_NUM grp"
    and r: "kcs_reach (ast_kcs_hw_ops grp io) (ast_host hcmd) (ast_host hdata) ch (h, c, w)"
  shows "kcs_cmd_intr (ast_kcs_hw_ops grp io) (ast_host hcmd) ch v (h, c) \<noteq> None \<and>
    kcs_request_leave copy_fails c \<noteq> None \<and>
    (kcs_recv_byte (ast_kcs_hw_ops grp io) ch (ast_host hdata ch v h, c) = None \<longleftrightarrow>
      KCSPhase c \<in> {KCS_PHASE_WRITE, KCS_PHASE_WRITE_END} \<and> unat (KCSRcvPktIx c) = MSG_PAYLOAD_SIZE \<or>
      KCSPhase c = KCS_PHASE_READ \<and> v = KCS_READ \<and> unat (KCSSendPktIx c) = MSG_PAYLOAD_SIZE) \<and>
    (unat (KCSSendPktIx c) = MSG_PAYLOAD_SIZE \<longrightarrow> KCSSendPktLen c = 0)"
proof -
  note con = lpc_kcs_host.ast_contract [OF dev]
  have inv: "kcs_inv c w" using kcs_host_contract.reach_inv [OF con ch r] by simp
  have "kcs_request_leave copy_fails c \<noteq> None"
    using inv by (simp add: kcs_request_leave_def kcs_inv_def kcs_chan_wf_def Let_def)
  moreover have "unat (KCSSendPktIx c) = MSG_PAYLOAD_SIZE \<longrightarrow> KCSSendPktLen c = 0"
    using inv by (auto simp: kcs_inv_def word_le_nat_alt)
  moreover have "kcs_cmd_intr (ast_kcs_hw_ops grp io) (ast_host hcmd) ch v (h, c) \<noteq> None"
    using kcs_host_contract.cmd_total [OF con ch inv, of v h] by auto
  moreover have "kcs_recv_byte (ast_kcs_hw_ops grp io) ch (ast_host hdata ch v h, c) = None \<longleftrightarrow> faults_on v c"
    using kcs_host_contract.data_total [OF con ch inv, of v h] by auto
  ultimately show ?thesis unfolding faults_on_def by blast
qed

lemma kcs_reach0:
  "kcs_reach (ast_kcs_hw_ops True (lpc_mmio True)) (ast_host (lpc_host_cmd True))
    (ast_host (lpc_host_data True)) 1 (ast_kcs0, kcs_start kcs_chan0, False)"
  by (rule reach_start) (rule kcs_chan0_wf)

lemma kcs_handler_faults_witness:
  "kcs_cmd_intr (ast_kcs_hw_ops True (lpc_mmio True)) (ast_host (lpc_host_cmd True)) 1 KCS_WRITE_START
      (ast_kcs0, kcs_start kcs_chan0) \<noteq> None \<and>
    kcs_recv_byte (ast_kcs_hw_ops True (lpc_mmio True)) 1
      (ast_host (lpc_host_data True) 1 KCS_WRITE_START ast_kcs0, kcs_start kcs_chan0) \<noteq> None"
  using kcs_handler_faults_exactly [OF lpc_true chan1 kcs_reach0, of KCS_WRITE_START]
  by (simp add: kcs_start_def kcs_open_chan_def kcs_phases)

text \<open>
  C10. The invariant of the channel holds in every reachable state, under any interleaving of interrupts, the
  halves of \<open>kcs_read\<close>, responses of any length, ioctls, opens and releases, with registers that change
  in between: both packet arrays keep their size, the receive index never passes the end of the buffer, the
  sequence number stays below 250, the send index never passes the length of the response, unless that is 0, and never
  the end of the array, a response is attached while one is being sent, the phase is one of the six
  defined, and a process blocked in \<open>kcs_read\<close> has announced itself and initialised its wait queue.
\<close>

theorem kcs_invariant:
  assumes dev: "lpc_kcs_host grp io reg hcmd hdata" and ch: "ch < AST_KCS_CHANNEL_NUM grp"
    and r: "kcs_reach (ast_kcs_hw_ops grp io) (ast_host hcmd) (ast_host hdata) ch (h, c, w)"
  shows "kcs_inv c w"
  using kcs_host_contract.reach_inv [OF lpc_kcs_host.ast_contract [OF dev] ch r] by simp

lemma kcs_invariant_witness: "kcs_inv (kcs_start kcs_chan0) False"
  by (rule kcs_invariant [OF lpc_true chan1 kcs_reach0])

text \<open>
  C18. No lost wake-up: once the interrupt handler has given the wake-up, it is still there for
  the process after any interleaving of interrupts, responses, opens, releases and the process's
  own entry into \<open>kcs_read\<close>; only the process that leaves the sleep consumes it. So a process
  that goes to sleep late does not block.
\<close>

theorem kcs_no_lost_wakeup:
  assumes dev: "lpc_kcs_host grp io reg hcmd hdata" and ch: "ch < AST_KCS_CHANNEL_NUM grp"
    and r: "kcs_reach (ast_kcs_hw_ops grp io) (ast_host hcmd) (ast_host hdata) ch (h, c, w)"
    and given: "KcsWakeup c \<noteq> 0"
    and run: "(\<lambda>s s'. kcs_step (ast_kcs_hw_ops grp io) (ast_host hcmd) (ast_host hdata) ch s s' \<and>
        (snd (snd s) \<longrightarrow> snd (snd s')))\<^sup>*\<^sup>* (h, c, w) (h', c', w')"
  shows "sleep_cond (KcsWakeup c') (KcsReqWait c')"
proof -
  note con = lpc_kcs_host.ast_contract [OF dev]
  have "kcs_inv c w" using kcs_host_contract.reach_inv [OF con ch r] by simp
  have "kcs_inv (fst (snd s')) (snd (snd s')) \<and> KcsWakeup (fst (snd s')) \<noteq> 0"
    if "(\<lambda>s s'. kcs_step (ast_kcs_hw_ops grp io) (ast_host hcmd) (ast_host hdata) ch s s' \<and>
        (snd (snd s) \<longrightarrow> snd (snd s')))\<^sup>*\<^sup>* (h, c, w) s'" for s'
    using that
  proof (induction rule: rtranclp_induct)
    case (step s1 s2)
    then show ?case
      using kcs_host_contract.step_inv [OF con ch, of "fst s1" "fst (snd s1)" "snd (snd s1)"]
        kcs_host_contract.step_flags [OF con ch, of "fst s1" "fst (snd s1)" "snd (snd s1)"]
      by (metis prod.collapse)
  qed (simp add: \<open>kcs_inv c w\<close> given)
  from this [OF run] show ?thesis by (simp add: sleep_cond_def)
qed

lemma reach_data_intrs:
  "kcs_reach ops host_cmd host_data ch (h, c, w) \<Longrightarrow>
    kcs_data_intrs ops host_data ch vs (h, c) = Some (h', c') \<Longrightarrow>
    kcs_reach ops host_cmd host_data ch (h', c', w)"
proof (induction vs arbitrary: h c)
  case (Cons v vs)
  then obtain h1 c1 where s: "kcs_recv_byte ops ch (host_data ch v h, c) = Some (h1, c1)"
    "kcs_data_intrs ops host_data ch vs (h1, c1) = Some (h', c')"
    by (auto split: bind_splits)
  with Cons show ?case by (meson kcs_step.irq_data reach_step)
qed simp

lemma reach_host_write:
  assumes "kcs_reach ops host_cmd host_data ch (h, c, w)"
    "kcs_host_write ops host_cmd host_data ch bs b (h, c) = Some (h', c')"
  shows "kcs_reach ops host_cmd host_data ch (h', c', w)"
proof -
  obtain h1 c1 h2 c2 h3 c3 where s: "kcs_cmd_intr ops host_cmd ch KCS_WRITE_START (h, c) = Some (h1, c1)"
    "kcs_data_intrs ops host_data ch bs (h1, c1) = Some (h2, c2)"
    "kcs_cmd_intr ops host_cmd ch KCS_WRITE_END (h2, c2) = Some (h3, c3)"
    "kcs_data_intrs ops host_data ch [b] (h3, c3) = Some (h', c')"
    using assms(2) by (auto simp: kcs_host_write_def simp del: kcs_data_intrs.simps split: bind_splits)
  have "kcs_reach ops host_cmd host_data ch (h1, c1, w)"
    using assms(1) s(1) by (meson kcs_step.irq_cmd reach_step)
  then have "kcs_reach ops host_cmd host_data ch (h2, c2, w)" using s(2) by (rule reach_data_intrs)
  then have "kcs_reach ops host_cmd host_data ch (h3, c3, w)"
    using s(3) by (meson kcs_step.irq_cmd reach_step)
  then show ?thesis using s(4) by (rule reach_data_intrs)
qed

lemma kcs_no_lost_wakeup_witness:
  "\<exists>h c. kcs_reach (ast_kcs_hw_ops True (lpc_mmio True)) (ast_host (lpc_host_cmd True))
      (ast_host (lpc_host_data True)) 1 (h, c, False) \<and> KcsWakeup c = 1 \<and>
    sleep_cond (KcsWakeup (kcs_request_enter c)) (sleep_arm 0 (KcsReqWait (kcs_request_enter c)))"
proof -
  have "kcs_chan_wf (kcs_start kcs_chan0)" "KcsINuse (kcs_start kcs_chan0) = 1"
    using kcs_chan0_wf by (simp_all add: kcs_chan_wf_def kcs_start_def kcs_open_chan_def kcs_register_chan_def)
  then obtain h c where w: "kcs_host_write (ast_kcs_hw_ops True (lpc_mmio True)) (ast_host (lpc_host_cmd True))
      (ast_host (lpc_host_data True)) 1 [0x18] 0x01 (ast_kcs0, kcs_start kcs_chan0) = Some (h, c)"
    "KcsWakeup c = 1"
    using kcs_host_contract.write_transfer [OF lpc_kcs_host.ast_contract [OF lpc_true] chan1,
        of "kcs_start kcs_chan0" "[0x18]" "0x01" ast_kcs0] by (auto simp: kcs_sizes)
  have r: "kcs_reach (ast_kcs_hw_ops True (lpc_mmio True)) (ast_host (lpc_host_cmd True))
      (ast_host (lpc_host_data True)) 1 (h, c, False)"
    by (rule reach_host_write [OF kcs_reach0 w(1)])
  have "kcs_step (ast_kcs_hw_ops True (lpc_mmio True)) (ast_host (lpc_host_cmd True))
      (ast_host (lpc_host_data True)) 1 (h, c, False)
      (h, (kcs_request_enter c)\<lparr>KcsReqWait := sleep_arm 0 (KcsReqWait (kcs_request_enter c))\<rparr>, True)"
    by (rule read_enter) simp
  then have "sleep_cond (KcsWakeup ((kcs_request_enter c)\<lparr>KcsReqWait := sleep_arm 0 (KcsReqWait (kcs_request_enter c))\<rparr>))
      (KcsReqWait ((kcs_request_enter c)\<lparr>KcsReqWait := sleep_arm 0 (KcsReqWait (kcs_request_enter c))\<rparr>))"
    by (intro kcs_no_lost_wakeup [OF lpc_true chan1 r, of h _ True] r_into_rtranclp) (simp_all add: w(2))
  then show ?thesis using r w(2) by auto
qed

text \<open>
  C40. A request as long as the packet buffer overflows it: a host that writes 33 * 1024 bytes or
  more before the last one makes the interrupt handler store outside the array (the bound test
  comes after the store, and only keeps the index from growing further).
\<close>

theorem kcs_overflow:
  assumes dev: "lpc_kcs_host grp io reg hcmd hdata" and ch: "ch < AST_KCS_CHANNEL_NUM grp"
    and wf: "kcs_chan_wf c" and len: "MSG_PAYLOAD_SIZE \<le> length bs"
  shows "kcs_host_write (ast_kcs_hw_ops grp io) (ast_host hcmd) (ast_host hdata) ch bs b (h, c) = None"
  by (rule kcs_host_contract.overflow_transfer [OF lpc_kcs_host.ast_contract [OF dev]])
    (use assms in simp_all)

lemma kcs_overflow_witness:
  "kcs_host_write (ast_kcs_hw_ops True (lpc_mmio True)) (ast_host (lpc_host_cmd True))
    (ast_host (lpc_host_data True)) 1 (replicate MSG_PAYLOAD_SIZE 0) 0 (ast_kcs0, kcs_chan0) = None"
  by (rule kcs_overflow [OF lpc_true chan1 kcs_chan0_wf]) simp

text \<open>
  C33. An abort always recovers the interface: from any state of the channel the abort command
  and two data writes bring it back to idle, and the host reads an error code: that of an abort
  if the channel has none stored, else the stored one. No call takes the stored code away: in every run from then on,
  if the channel was in a state of the invariant, the code is that one or that of an illegal command, and never
  none; so no later abort reports success.
\<close>

theorem kcs_abort_recovers:
  assumes dev: "lpc_kcs_host grp io reg hcmd hdata" and ch: "ch < AST_KCS_CHANNEL_NUM grp"
  shows "\<exists>h' c'. kcs_host_abort (ast_kcs_hw_ops grp io) (ast_dout grp reg) (ast_host hcmd) (ast_host hdata) ch (h, c) =
      Some (KCSError c', h', c') \<and>
      c' = c\<lparr>PrevCmdAborted := (if KcsIFActive c = 0 \<and> FirstTime c = 0 then 1 else PrevCmdAborted c),
          KCSError := (if KCSError c = KCS_NO_ERROR then KCS_ABORTED_BY_COMMAND else KCSError c),
          KCSPhase := KCS_PHASE_IDLE, AbortPhase := 0\<rparr> \<and>
      ast_status grp reg ch h' AND 0xC0 = KCS_IDLE_STATE \<and>
      (\<forall>w s. kcs_inv c w \<and> (kcs_step (ast_kcs_hw_ops grp io) (ast_host hcmd) (ast_host hdata) ch)\<^sup>*\<^sup>* (h', c', w) s \<longrightarrow>
        KCSError (fst (snd s)) \<in> {KCSError c', KCS_ILLEGAL_CONTROL_CODE})"
proof -
  note con = lpc_kcs_host.ast_contract [OF dev]
  define c' where "c' = c\<lparr>PrevCmdAborted := (if KcsIFActive c = 0 \<and> FirstTime c = 0 then 1 else PrevCmdAborted c),
          KCSError := (if KCSError c = KCS_NO_ERROR then KCS_ABORTED_BY_COMMAND else KCSError c),
          KCSPhase := KCS_PHASE_IDLE, AbortPhase := 0\<rparr>"
  have e: "KCSError c' \<noteq> KCS_NO_ERROR" "KCSError c' = (if KCSError c = KCS_NO_ERROR then KCS_ABORTED_BY_COMMAND else KCSError c)"
    by (simp_all add: c'_def kcs_codes)
  have "kcs_inv c' w" if "kcs_inv c w" for w
    by (rule kcs_inv_frame [OF that]) (simp_all add: c'_def same_io_def)
  then have "KCSError (fst (snd s)) \<in> {KCSError c', KCS_ILLEGAL_CONTROL_CODE}"
    if "kcs_inv c w" "(kcs_step (ast_kcs_hw_ops grp io) (ast_host hcmd) (ast_host hdata) ch)\<^sup>*\<^sup>* (h', c', w) s" for h' w s
    using kcs_host_contract.steps_error [OF con ch _ that(2) e(1)] that(1) by blast
  moreover obtain h' where "kcs_host_abort (ast_kcs_hw_ops grp io) (ast_dout grp reg) (ast_host hcmd) (ast_host hdata) ch (h, c) =
      Some (KCSError c', h', c')" "ast_status grp reg ch h' AND 0xC0 = KCS_IDLE_STATE"
    using kcs_host_contract.abort_sequence [OF con ch, of h c] unfolding c'_def [symmetric] e(2) by blast
  ultimately show ?thesis unfolding c'_def [symmetric] by blast
qed

lemma kcs_abort_recovers_witness:
  "\<exists>h' c'. kcs_host_abort (ast_kcs_hw_ops True (lpc_mmio True)) (ast_dout True (\<lambda>r d. d r))
      (ast_host (lpc_host_cmd True)) (ast_host (lpc_host_data True)) 1
      (ast_kcs0, kcs_start kcs_chan0) = Some (KCSError c', h', c') \<and> KCSPhase c' = KCS_PHASE_IDLE \<and>
    ast_status True (\<lambda>r d. d r) 1 h' AND 0xC0 = KCS_IDLE_STATE \<and> KCSError c' = KCS_ABORTED_BY_COMMAND \<and>
    kcs_step (ast_kcs_hw_ops True (lpc_mmio True)) (ast_host (lpc_host_cmd True)) (ast_host (lpc_host_data True)) 1
      (h', c', False) (h', kcs_open_chan 1 c', False) \<and>
    KCSError (kcs_open_chan 1 c') \<in> {KCSError c', KCS_ILLEGAL_CONTROL_CODE}"
proof -
  let ?step = "kcs_step (ast_kcs_hw_ops True (lpc_mmio True)) (ast_host (lpc_host_cmd True)) (ast_host (lpc_host_data True)) 1"
  obtain h' c' where r: "kcs_host_abort (ast_kcs_hw_ops True (lpc_mmio True)) (ast_dout True (\<lambda>r d. d r))
      (ast_host (lpc_host_cmd True)) (ast_host (lpc_host_data True)) 1 (ast_kcs0, kcs_start kcs_chan0) = Some (KCSError c', h', c')"
    "KCSPhase c' = KCS_PHASE_IDLE" "KCSError c' = KCS_ABORTED_BY_COMMAND" "ast_status True (\<lambda>r d. d r) 1 h' AND 0xC0 = KCS_IDLE_STATE"
    and run: "\<forall>w s. kcs_inv (kcs_start kcs_chan0) w \<and> ?step\<^sup>*\<^sup>* (h', c', w) s \<longrightarrow>
        KCSError (fst (snd s)) \<in> {KCSError c', KCS_ILLEGAL_CONTROL_CODE}"
    using kcs_abort_recovers [OF lpc_true chan1, of ast_kcs0 "kcs_start kcs_chan0"]
    by (auto simp: kcs_start_def kcs_open_chan_def kcs_register_chan_def kcs_chan0_def [THEN arg_cong [of _ _ KCSError]] kcs_codes)
  have st: "?step (h', c', False) (h', kcs_open_chan 1 c', False)" by (rule open_dev)
  have "KCSError (fst (snd (h', kcs_open_chan 1 c', False))) \<in> {KCSError c', KCS_ILLEGAL_CONTROL_CODE}"
    using run kcs_inv_start [OF kcs_chan0_wf] r_into_rtranclp [of ?step, OF st] by blast
  then show ?thesis using r st by auto
qed

text \<open>
  A stale response is never sent: a response carrying another sequence number than the
  command in progress, or following an abort, is accepted from the process (the call returns its
  length) but the registers, the phase and any transfer in progress are left alone, and the
  abort mark is spent.
\<close>

theorem kcs_stale_response_dropped:
  assumes dev: "lpc_kcs_host grp io reg hcmd hdata" and ch: "ch < AST_KCS_CHANNEL_NUM grp"
    and wf: "kcs_chan_wf c" and ne: "resp \<noteq> []" and le: "length resp < MSG_PAYLOAD_SIZE"
    and stale: "PrevCmdAborted c \<noteq> 0 \<or> n \<noteq> KCSSeqNo c"
  shows "\<exists>c'. kcs_write_request (ast_kcs_hw_ops grp io) ch False (n # resp) (h, c) =
      Some (Inr (Suc (length resp)), h, c') \<and>
    KCSPhase c' = KCSPhase c \<and> pKCSSendPkt c' = pKCSSendPkt c \<and> KCSSendPktIx c' = KCSSendPktIx c \<and>
    KCSSendPktLen c' = KCSSendPktLen c \<and> KCSSeqNo c' = KCSSeqNo c \<and> PrevCmdAborted c' = 0"
  by (rule kcs_host_contract.stale_response [OF lpc_kcs_host.ast_contract [OF dev] wf ne le stale])

lemma kcs_stale_response_witness:
  "\<exists>c'. kcs_write_request (ast_kcs_hw_ops True (lpc_mmio True)) 1 False [248, 0x1C, 0x01] (ast_kcs0, kcs_chan0) =
      Some (Inr 3, ast_kcs0, c') \<and> KCSPhase c' = KCS_PHASE_IDLE \<and> KCSSeqNo c' = 249"
  using kcs_stale_response_dropped [OF lpc_true chan1 kcs_chan0_wf, of "[0x1C, 0x01]" 248 ast_kcs0]
  by (auto simp: kcs_sizes kcs_chan0_def [THEN arg_cong [of _ _ KCSSeqNo]]
      kcs_chan0_def [THEN arg_cong [of _ _ KCSPhase]])

text \<open>
  Setting the SMS bit undoes a state change of the transfer: when the last byte of a request
  is pending, the call drains it (the phase becomes READ), then writes back the status value it
  had read before, so that the state bits the host sees are the old ones.
\<close>

theorem kcs_set_sms_bit_restores_old_state:
  assumes dev: "lpc_kcs_host grp io reg hcmd hdata" and cs: "1 < length cs" and wf: "kcs_chan_wf (cs ! 1)"
    and st: "ast_status grp reg 1 h AND 0x08 = 0" "ast_status grp reg 1 h AND 0x02 \<noteq> 0"
    and ph: "KCSPhase (cs ! 1) = KCS_PHASE_WRITE_END"
    and lt: "unat (KCSRcvPktIx (cs ! 1)) < MSG_PAYLOAD_SIZE"
  shows "\<exists>h' cs'. kcs_set_sms_bit (ast_kcs_hw_ops grp io) (Some 1) (h, cs) = Some (Inr (), h', cs') \<and>
    KCSPhase (cs' ! 1) = KCS_PHASE_READ \<and>
    ast_status grp reg 1 h' AND 0xC0 = ast_status grp reg 1 h AND 0xC0"
  by (rule kcs_host_contract.sms_state_restored [OF lpc_kcs_host.ast_contract [OF dev] chan1 cs wf st ph lt])

lemma kcs_set_sms_bit_witness:
  "\<exists>h' cs'. kcs_set_sms_bit (ast_kcs_hw_ops True (lpc_mmio True)) (Some 1)
      (ast_kcs0\<lparr>dev := \<lambda>r. 0x82\<rparr>, [kcs_chan0, kcs_chan0\<lparr>KCSPhase := KCS_PHASE_WRITE_END\<rparr>]) =
      Some (Inr (), h', cs') \<and>
    KCSPhase (cs' ! 1) = KCS_PHASE_READ \<and> ast_status True (\<lambda>r d. d r) 1 h' AND 0xC0 = KCS_WRITE_STATE"
proof -
  have "unat (KCSRcvPktIx kcs_chan0) < MSG_PAYLOAD_SIZE" by (simp add: kcs_chan0_def)
  moreover have "kcs_chan_wf (kcs_chan0\<lparr>KCSPhase := KCS_PHASE_WRITE_END\<rparr>)" using kcs_chan0_wf by simp
  ultimately show ?thesis
    using kcs_set_sms_bit_restores_old_state [OF lpc_true,
        of "[kcs_chan0, kcs_chan0\<lparr>KCSPhase := KCS_PHASE_WRITE_END\<rparr>]" "ast_kcs0\<lparr>dev := \<lambda>r. 0x82\<rparr>"]
    by (simp add: ast_status_def kcs_states)
qed

text \<open>
  A response of the sequence number alone never ends: the length taken from it is 0 while
  the index starts at 1, so the host's reads run past the response and, 33 * 1024 reads later,
  past the end of the response array.
\<close>

theorem kcs_empty_response_overreads:
  assumes dev: "lpc_kcs_host grp io reg hcmd hdata" and ch: "ch < AST_KCS_CHANNEL_NUM grp"
    and wf: "kcs_chan_wf c" and ph: "KCSPhase c = KCS_PHASE_READ" and na: "PrevCmdAborted c = 0"
  shows "\<exists>h' c'. kcs_write_request (ast_kcs_hw_ops grp io) ch False [KCSSeqNo c] (h, c) = Some (Inr 1, h', c') \<and>
    kcs_host_read (ast_kcs_hw_ops grp io) (ast_dout grp reg) (ast_host hdata) ch MSG_PAYLOAD_SIZE (h', c') = None"
  by (rule kcs_host_contract.empty_response [OF lpc_kcs_host.ast_contract [OF dev] ch wf ph na])

lemma kcs_empty_response_witness:
  "\<exists>h' c'. kcs_write_request (ast_kcs_hw_ops True (lpc_mmio True)) 1 False [249]
      (ast_kcs0, kcs_chan0\<lparr>KCSPhase := KCS_PHASE_READ\<rparr>) = Some (Inr 1, h', c') \<and>
    kcs_host_read (ast_kcs_hw_ops True (lpc_mmio True)) (ast_dout True (\<lambda>r d. d r))
      (ast_host (lpc_host_data True)) 1 MSG_PAYLOAD_SIZE (h', c') = None"
proof -
  have "kcs_chan_wf (kcs_chan0\<lparr>KCSPhase := KCS_PHASE_READ\<rparr>)" using kcs_chan0_wf by simp
  then show ?thesis
    using kcs_empty_response_overreads [OF lpc_true chan1, of "kcs_chan0\<lparr>KCSPhase := KCS_PHASE_READ\<rparr>" ast_kcs0]
    by (simp add: kcs_chan0_def [THEN arg_cong [of _ _ KCSSeqNo]]
        kcs_chan0_def [THEN arg_cong [of _ _ PrevCmdAborted]])
qed

text \<open>
  C32. The AST driver refines the contract of the core: on a controller with the documented
  registers, the operations table of ast\_kcs.c keeps every law the core's proofs use, for every
  channel the build has.
\<close>

theorem ast_ops_keep_contract:
  assumes "lpc_kcs_device grp io reg"
  shows "kcs_hal_contract (ast_kcs_hw_ops grp io) (\<lambda>c. c < AST_KCS_CHANNEL_NUM grp)
    (\<lambda>c s. ucast (reg (kcs_str grp c) (dev s))) (\<lambda>c s. ucast (reg (kcs_idr grp c) (dev s)))
    (\<lambda>c s. ucast (reg (kcs_odr grp c) (dev s)))"
  by (rule lpc_kcs_device.ast_ops_contract [OF assms])

lemma ast_ops_keep_contract_witness:
  "kcs_hal_contract (ast_kcs_hw_ops False (lpc_mmio False)) (\<lambda>c. c < AST_KCS_CHANNEL_NUM False)
    (\<lambda>c s. ucast (dev s (kcs_str False c))) (\<lambda>c s. ucast (dev s (kcs_idr False c)))
    (\<lambda>c s. ucast (dev s (kcs_odr False c)))"
  by (rule ast_ops_keep_contract [OF lpc.lpc_kcs_device_axioms])

end
