(* ===== verification/JbiMem.thy ===== *)
theory JbiMem imports Prelude begin

text \<open>
  The memory the Jam STAPL byte-code player works on: a flat 32-bit address space in which
  only some bytes are mapped, the kernel allocator (\<open>jbi_malloc\<close>, \<open>jbi_free\<close> of jbistub.c),
  and the globals of jbijtag.c, jbicomp.c and jbistub.c. An access to an unmapped byte is
  \<open>None\<close>. The model is of the 32-bit build: int and long are 32 bits, char is unsigned.
\<close>

unbundle bit_operations_syntax

section \<open>The JTAG states\<close>

text \<open>JBIE\_JTAG\_STATE (jbijtag.h), with the codes the byte code uses for them.\<close>

datatype jtag_state = JBI_ILLEGAL_JTAG_STATE
  | RESET | IDLE | DRSELECT | DRCAPTURE | DRSHIFT | DREXIT1 | DRPAUSE | DREXIT2 | DRUPDATE
  | IRSELECT | IRCAPTURE | IRSHIFT | IREXIT1 | IRPAUSE | IREXIT2 | IRUPDATE

definition tap_states :: "jtag_state list" where
  "tap_states = [RESET, IDLE, DRSELECT, DRCAPTURE, DRSHIFT, DREXIT1, DRPAUSE, DREXIT2, DRUPDATE,
     IRSELECT, IRCAPTURE, IRSHIFT, IREXIT1, IRPAUSE, IREXIT2, IRUPDATE]"

primrec state_code :: "jtag_state \<Rightarrow> u32" where
  "state_code JBI_ILLEGAL_JTAG_STATE = - 1"
| "state_code RESET = 0" | "state_code IDLE = 1" | "state_code DRSELECT = 2"
| "state_code DRCAPTURE = 3" | "state_code DRSHIFT = 4" | "state_code DREXIT1 = 5"
| "state_code DRPAUSE = 6" | "state_code DREXIT2 = 7" | "state_code DRUPDATE = 8"
| "state_code IRSELECT = 9" | "state_code IRCAPTURE = 10" | "state_code IRSHIFT = 11"
| "state_code IREXIT1 = 12" | "state_code IRPAUSE = 13" | "state_code IREXIT2 = 14"
| "state_code IRUPDATE = 15"

text \<open>The state type is finite, so a statement about all states is a computation.\<close>

instantiation jtag_state :: enum
begin

definition enum_jtag_state :: "jtag_state list" where
  "enum_jtag_state = JBI_ILLEGAL_JTAG_STATE # tap_states"

definition enum_all_jtag_state :: "(jtag_state \<Rightarrow> bool) \<Rightarrow> bool" where
  "enum_all_jtag_state P = list_all P (JBI_ILLEGAL_JTAG_STATE # tap_states)"

definition enum_ex_jtag_state :: "(jtag_state \<Rightarrow> bool) \<Rightarrow> bool" where
  "enum_ex_jtag_state P = list_ex P (JBI_ILLEGAL_JTAG_STATE # tap_states)"

instance
proof
  have all: "x \<in> set (JBI_ILLEGAL_JTAG_STATE # tap_states)" for x
    by (cases x) (simp_all add: tap_states_def)
  show "UNIV = set (enum_class.enum :: jtag_state list)"
    using all by (auto simp: enum_jtag_state_def)
  show "distinct (enum_class.enum :: jtag_state list)"
    by (simp add: enum_jtag_state_def tap_states_def)
  show "enum_class.enum_all P = Ball UNIV P" for P :: "jtag_state \<Rightarrow> bool"
    using all by (auto simp: enum_all_jtag_state_def list_all_iff simp del: set_simps)
  show "enum_class.enum_ex P = Bex UNIV P" for P :: "jtag_state \<Rightarrow> bool"
    using all by (auto simp: enum_ex_jtag_state_def list_ex_iff simp del: set_simps)
qed

end

text \<open>The order of the codes of the enum.\<close>

instantiation jtag_state :: linorder
begin

definition less_eq_jtag_state :: "jtag_state \<Rightarrow> jtag_state \<Rightarrow> bool" where
  "less_eq_jtag_state a b \<longleftrightarrow> sint (state_code a) \<le> sint (state_code b)"

definition less_jtag_state :: "jtag_state \<Rightarrow> jtag_state \<Rightarrow> bool" where
  "less_jtag_state a b \<longleftrightarrow> sint (state_code a) < sint (state_code b)"

instance
proof
  fix a b c :: jtag_state
  show "a < b \<longleftrightarrow> a \<le> b \<and> \<not> b \<le> a" "a \<le> a" "a \<le> b \<or> b \<le> a"
    by (auto simp: less_eq_jtag_state_def less_jtag_state_def)
  show "a \<le> b \<Longrightarrow> b \<le> c \<Longrightarrow> a \<le> c" by (simp add: less_eq_jtag_state_def)
  show "a \<le> b \<Longrightarrow> b \<le> a \<Longrightarrow> a = b"
    unfolding less_eq_jtag_state_def by (cases a; cases b; simp)
qed

end

lemma state_code_inj: "state_code a = state_code b \<longleftrightarrow> a = b"
  by (cases a; cases b; simp)

section \<open>Return codes (jbiexprt.h)\<close>

datatype jbi_ret = JBIC_SUCCESS | JBIC_OUT_OF_MEMORY | JBIC_IO_ERROR | JBIC_UNEXPECTED_END
  | JBIC_UNDEFINED_SYMBOL | JBIC_INTEGER_OVERFLOW | JBIC_DIVIDE_BY_ZERO | JBIC_CRC_ERROR
  | JBIC_INTERNAL_ERROR | JBIC_BOUNDS_ERROR | JBIC_VECTOR_MAP_FAILED | JBIC_USER_ABORT
  | JBIC_STACK_OVERFLOW | JBIC_ILLEGAL_OPCODE | JBIC_ACTION_NOT_FOUND

section \<open>The state\<close>

datatype pin = TDI_PIN | TDO_PIN | TCK_PIN | TMS_PIN

text \<open>
  \<open>mem\<close> are the mapped bytes, \<open>blocks\<close> the live allocations with their sizes, \<open>pool\<close> what
  the coming calls of kmalloc return (the address, 0 for a failure, and what the block
  contains), \<open>pins\<close> the pin writes so far, oldest first, \<open>delays\<close> and \<open>msgs\<close> the delays asked
  for and the texts printed. \<open>fg_Data_Readback\<close> says that messages are searched for a code to
  read back, and \<open>pReadData\<close> is the word the code is stored to.
\<close>

record jbi =
  mem :: "u32 \<Rightarrow> u8 option"
  blocks :: "u32 \<Rightarrow> nat option"
  pool :: "(u32 \<times> (nat \<Rightarrow> u8)) list"
  pins :: "(pin \<times> bool) list"
  jtag_hardware_initialized :: bool
  delays :: "u32 list"
  msgs :: "u8 list list"
  fg_Data_Readback :: bool
  pReadData :: u32
  jbi_workspace :: u32
  jbi_jtag_state :: jtag_state
  jbi_drstop_state :: u32
  jbi_irstop_state :: u32
  jbi_dr_preamble :: u32
  jbi_dr_postamble :: u32
  jbi_ir_preamble :: u32
  jbi_ir_postamble :: u32
  jbi_dr_length :: u32
  jbi_ir_length :: u32
  jbi_dr_preamble_data :: u32
  jbi_dr_postamble_data :: u32
  jbi_ir_preamble_data :: u32
  jbi_ir_postamble_data :: u32
  jbi_dr_buffer :: u32
  jbi_ir_buffer :: u32
  jbi_in_length :: u32
  jbi_in_index :: u32
  jbi_bits_avail :: u32

section \<open>Loads and stores\<close>

definition ld8 :: "u32 \<Rightarrow> jbi \<Rightarrow> u8 option" where
  "ld8 a s = mem s a"

definition st8 :: "u32 \<Rightarrow> u8 \<Rightarrow> jbi \<Rightarrow> jbi option" where
  "st8 a v s = (if mem s a = None then None else Some (s\<lparr>mem := (mem s)(a \<mapsto> v)\<rparr>))"

text \<open>A word of the (little-endian) machine.\<close>

definition le32 :: "u8 \<Rightarrow> u8 \<Rightarrow> u8 \<Rightarrow> u8 \<Rightarrow> u32" where
  "le32 b0 b1 b2 b3 =
     ucast b0 OR push_bit 8 (ucast b1) OR push_bit 16 (ucast b2) OR push_bit 24 (ucast b3)"

definition byte_of :: "nat \<Rightarrow> u32 \<Rightarrow> u8" where
  "byte_of k v = ucast (drop_bit (8 * k) v)"

definition ld32 :: "u32 \<Rightarrow> jbi \<Rightarrow> u32 option" where
  "ld32 a s = do { b0 \<leftarrow> ld8 a s; b1 \<leftarrow> ld8 (a + 1) s; b2 \<leftarrow> ld8 (a + 2) s; b3 \<leftarrow> ld8 (a + 3) s;
                   Some (le32 b0 b1 b2 b3) }"

definition st32 :: "u32 \<Rightarrow> u32 \<Rightarrow> jbi \<Rightarrow> jbi option" where
  "st32 a v s = do { s0 \<leftarrow> st8 a (byte_of 0 v) s; s1 \<leftarrow> st8 (a + 1) (byte_of 1 v) s0;
                     s2 \<leftarrow> st8 (a + 2) (byte_of 2 v) s1; st8 (a + 3) (byte_of 3 v) s2 }"

text \<open>
  Bit \<open>i\<close> of a byte array: \<open>p[i >> 3] & (1 << (i & 7))\<close>, and the two assignments that set and
  clear it.
\<close>

definition get_bit :: "u32 \<Rightarrow> u32 \<Rightarrow> jbi \<Rightarrow> bool option" where
  "get_bit p i s = map_option (\<lambda>b. bit b (unat (i AND 7))) (ld8 (p + drop_bit 3 i) s)"

definition put_bit :: "u32 \<Rightarrow> u32 \<Rightarrow> bool \<Rightarrow> jbi \<Rightarrow> jbi option" where
  "put_bit p i v s =
     do { b \<leftarrow> ld8 (p + drop_bit 3 i) s;
          st8 (p + drop_bit 3 i) (if v then set_bit (unat (i AND 7)) b else unset_bit (unat (i AND 7)) b) s }"

text \<open>Storing a byte list, and a run of zeros.\<close>

fun st_bytes :: "u32 \<Rightarrow> u8 list \<Rightarrow> jbi \<Rightarrow> jbi option" where
  "st_bytes a [] s = Some s"
| "st_bytes a (b # bs) s = do { s1 \<leftarrow> st8 a b s; st_bytes (a + 1) bs s1 }"

section \<open>The allocator (jbistub.c)\<close>

text \<open>
  kmalloc(0) is ZERO\_SIZE\_PTR, which kfree accepts; otherwise the next answer of the pool (a
  failure when it is empty) becomes a live block holding the given bytes.
\<close>

definition map_block :: "u32 \<Rightarrow> nat \<Rightarrow> (nat \<Rightarrow> u8) \<Rightarrow> (u32 \<Rightarrow> u8 option) \<Rightarrow> u32 \<Rightarrow> u8 option" where
  "map_block p n f m = (\<lambda>a. if unat (a - p) < n then Some (f (unat (a - p))) else m a)"

definition unmap_block :: "u32 \<Rightarrow> nat \<Rightarrow> (u32 \<Rightarrow> u8 option) \<Rightarrow> u32 \<Rightarrow> u8 option" where
  "unmap_block p n m = (\<lambda>a. if unat (a - p) < n then None else m a)"

definition jbi_malloc :: "u32 \<Rightarrow> jbi \<Rightarrow> u32 \<times> jbi" where
  "jbi_malloc nbytes s =
     (if nbytes = 0 then (16, s)
      else case pool s of
             [] \<Rightarrow> (0, s)
           | (p, f) # rest \<Rightarrow>
               if p = 0 then (0, s\<lparr>pool := rest\<rparr>)
               else (p, s\<lparr>pool := rest, blocks := (blocks s)(p \<mapsto> unat nbytes),
                          mem := map_block p (unat nbytes) f (mem s)\<rparr>))"

definition jbi_free :: "u32 \<Rightarrow> jbi \<Rightarrow> jbi option" where
  "jbi_free p s =
     (if p \<le> 16 then Some s
      else case blocks s p of
             None \<Rightarrow> None
           | Some n \<Rightarrow> Some (s\<lparr>blocks := (blocks s)(p := None), mem := unmap_block p n (mem s)\<rparr>))"

section \<open>Lemmas on memory\<close>

lemma ld8_st8 [simp]: "st8 a v s = Some s' \<Longrightarrow> ld8 a s' = Some v"
  by (auto simp: ld8_def st8_def split: if_splits)

lemma ld8_st8_other: "st8 a v s = Some s' \<Longrightarrow> b \<noteq> a \<Longrightarrow> ld8 b s' = ld8 b s"
  by (auto simp: ld8_def st8_def split: if_splits)

lemma st8_dom: "st8 a v s = Some s' \<Longrightarrow> ld8 b s' = None \<longleftrightarrow> ld8 b s = None"
  by (auto simp: ld8_def st8_def split: if_splits)

lemma st8_mapped: "ld8 a s \<noteq> None \<Longrightarrow> \<exists>s'. st8 a v s = Some s'"
  by (simp add: ld8_def st8_def)

lemma le32_bytes: "le32 (byte_of 0 v) (byte_of 1 v) (byte_of 2 v) (byte_of 3 v) = v"
proof (rule bit_word_eqI)
  fix n :: nat
  assume "n < LENGTH(32)"
  then consider "n < 8" | "8 \<le> n" "n < 16" | "16 \<le> n" "n < 24" | "24 \<le> n" "n < 32" by fastforce
  then show "bit (le32 (byte_of 0 v) (byte_of 1 v) (byte_of 2 v) (byte_of 3 v)) n = bit v n"
    by cases (auto simp: le32_def byte_of_def bit_simps)
qed

lemma ld32_st32:
  assumes "st32 a v s = Some s'"
  shows "ld32 a s' = Some v"
proof -
  have ne: "a \<noteq> a + 1" "a \<noteq> a + 2" "a \<noteq> a + 3" "a + 1 \<noteq> a + 2" "a + 1 \<noteq> a + 3" "a + 2 \<noteq> a + 3"
    by simp_all
  show ?thesis using assms ne le32_bytes [of v]
    by (auto simp: st32_def ld32_def ld8_def st8_def split: bind_splits if_splits)
qed

end
