(* ===== verification/JbiTap.thy ===== *)
theory JbiTap imports JbiMem begin

text \<open>
  The JTAG test access port: the pin writes of one TCK cycle (jbistub.c), the two tables and
  the state moves of jbijtag.c, and the proof that the state the software records is the state
  a TAP controller reached over the pins. What the target drives on TDO is a parameter \<open>rd\<close>:
  the value the pin read returns, given the pin writes so far.
\<close>

unbundle bit_operations_syntax

section \<open>One TCK cycle (jbistub.c)\<close>

text \<open>
  \<open>Pin_ctrl\<close> ignores a failing write, and passes on the value of a read (or -1).
\<close>

definition set_pin :: "pin \<Rightarrow> bool \<Rightarrow> jbi \<Rightarrow> jbi" where
  "set_pin p v s = s\<lparr>pins := pins s @ [(p, v)]\<rparr>"

definition initialize_jtag_hardware :: "jbi \<Rightarrow> jbi" where
  "initialize_jtag_hardware s = s"

definition jbi_jtag_io ::
  "((pin \<times> bool) list \<Rightarrow> u32) \<Rightarrow> bool \<Rightarrow> bool \<Rightarrow> bool \<Rightarrow> jbi \<Rightarrow> u32 \<times> jbi" where
  "jbi_jtag_io rd tms tdi read_tdo s =
     (let s0 = (if \<not> jtag_hardware_initialized s
                then (initialize_jtag_hardware s)\<lparr>jtag_hardware_initialized := True\<rparr> else s);
          s1 = set_pin TCK_PIN False s0;
          s2 = set_pin TDI_PIN tdi s1;
          s3 = set_pin TMS_PIN tms s2;
          tdo = (if read_tdo then rd (pins s3) else 0);
          s4 = set_pin TCK_PIN True s3;
          s5 = set_pin TCK_PIN False s4
      in (tdo, s5))"

text \<open>Cycles whose TDO is not read: a list of (TMS, TDI).\<close>

definition clock :: "((pin \<times> bool) list \<Rightarrow> u32) \<Rightarrow> (bool \<times> bool) list \<Rightarrow> jbi \<Rightarrow> jbi" where
  "clock rd cs s = fold (\<lambda>(tms, tdi) s. snd (jbi_jtag_io rd tms tdi False s)) cs s"

section \<open>The tables (jbijtag.c)\<close>

definition jbi_jtag_state_transitions :: "(jtag_state \<times> jtag_state) list" where
  "jbi_jtag_state_transitions =
     [(RESET, IDLE), (DRSELECT, IDLE), (IRSELECT, DRCAPTURE), (DREXIT1, DRSHIFT),
      (DREXIT1, DRSHIFT), (DRUPDATE, DRPAUSE), (DREXIT2, DRPAUSE), (DRUPDATE, DRSHIFT),
      (DRSELECT, IDLE), (RESET, IRCAPTURE), (IREXIT1, IRSHIFT), (IREXIT1, IRSHIFT),
      (IRUPDATE, IRPAUSE), (IREXIT2, IRPAUSE), (IRUPDATE, IRSHIFT), (DRSELECT, IDLE)]"

definition jbi_jtag_path_map :: "u16 list" where
  "jbi_jtag_path_map =
     [0x0001, 0xFFFD, 0xFE01, 0xFFE7, 0xFFEF, 0xFF0F, 0xFFBF, 0xFFFF,
      0xFEFD, 0x0001, 0xF3FF, 0xF7FF, 0x87FF, 0xDFFF, 0xFFFF, 0x7FFD]"

section \<open>State moves\<close>

definition jbi_jtag_reset_idle :: "((pin \<times> bool) list \<Rightarrow> u32) \<Rightarrow> jbi \<Rightarrow> jbi" where
  "jbi_jtag_reset_idle rd s =
     (clock rd (replicate 5 (True, False) @ [(False, False)]) s)\<lparr>jbi_jtag_state := IDLE\<rparr>"

text \<open>
  One turn of the loop of \<open>jbi_goto_jtag_state\<close>. The shift \<open>1 << state\<close> is undefined for a
  state outside 0 to 31, and the tables are indexed by the current state.
\<close>

definition path_bit :: "u16 \<Rightarrow> u32 \<Rightarrow> bool" where
  "path_bit m state \<longleftrightarrow> ucast m AND push_bit (unat state) (1 :: u32) \<noteq> 0"

definition goto_step ::
  "((pin \<times> bool) list \<Rightarrow> u32) \<Rightarrow> u32 \<Rightarrow> jbi \<Rightarrow> jbi option" where
  "goto_step rd state s =
     (if 32 \<le> state then None
      else do { m \<leftarrow> arr_get jbi_jtag_path_map (unat (state_code (jbi_jtag_state s)));
                let tms = path_bit m state;
                    s1 = snd (jbi_jtag_io rd tms False False s)
                in do { tr \<leftarrow> arr_get jbi_jtag_state_transitions (unat (state_code (jbi_jtag_state s1)));
                        Some (s1\<lparr>jbi_jtag_state := (if tms then fst tr else snd tr)\<rparr>) } })"

fun goto_loop ::
  "((pin \<times> bool) list \<Rightarrow> u32) \<Rightarrow> nat \<Rightarrow> u32 \<Rightarrow> jbi \<Rightarrow> jbi option" where
  "goto_loop rd 0 state s = Some s"
| "goto_loop rd (Suc n) state s =
     (if state_code (jbi_jtag_state s) = state then Some s
      else do { s1 \<leftarrow> goto_step rd state s; goto_loop rd n state s1 })"

definition jbi_goto_jtag_state ::
  "((pin \<times> bool) list \<Rightarrow> u32) \<Rightarrow> u32 \<Rightarrow> jbi \<Rightarrow> (jbi_ret \<times> jbi) option" where
  "jbi_goto_jtag_state rd state s =
     (let s0 = (if jbi_jtag_state s = JBI_ILLEGAL_JTAG_STATE then jbi_jtag_reset_idle rd s else s)
      in do { s1 \<leftarrow> (if state_code (jbi_jtag_state s0) = state
                    then if state \<in> state_code ` {IDLE, DRSHIFT, DRPAUSE, IRSHIFT, IRPAUSE}
                         then Some (clock rd [(False, False)] s0)
                         else if state = state_code RESET
                         then Some (clock rd [(True, False)] s0)
                         else Some s0
                    else goto_loop rd 9 state s0);
              Some (if state_code (jbi_jtag_state s1) \<noteq> state then JBIC_INTERNAL_ERROR
                    else JBIC_SUCCESS, s1) })"

definition jbi_do_wait_cycles ::
  "((pin \<times> bool) list \<Rightarrow> u32) \<Rightarrow> u32 \<Rightarrow> u32 \<Rightarrow> jbi \<Rightarrow> (jbi_ret \<times> jbi) option" where
  "jbi_do_wait_cycles rd cycles wait_state s =
     do { (status, s1) \<leftarrow> (if state_code (jbi_jtag_state s) \<noteq> wait_state
                           then jbi_goto_jtag_state rd wait_state s else Some (JBIC_SUCCESS, s));
          if status = JBIC_SUCCESS
          then Some (status, clock rd (replicate (nat (sint cycles))
                                         (wait_state = state_code RESET, False)) s1)
          else Some (status, s1) }"

text \<open>
  \<open>jbi_delay\<close>: \<open>one_ms_delay\<close> is 1000 after \<open>calibrate_delay\<close>, so the loop count is the
  number of microseconds times one.
\<close>

definition calibrate_delay :: u32 where "calibrate_delay = 1000"

definition jbi_delay :: "u32 \<Rightarrow> jbi \<Rightarrow> jbi" where
  "jbi_delay microseconds s =
     (let one_ms_delay = calibrate_delay
      in s\<lparr>delays := delays s @ [microseconds *
             (of_int (sint one_ms_delay sdiv 1000) + (if sint one_ms_delay smod 1000 \<noteq> 0 then 1 else 0))]\<rparr>)"

definition jbi_do_wait_microseconds ::
  "((pin \<times> bool) list \<Rightarrow> u32) \<Rightarrow> u32 \<Rightarrow> u32 \<Rightarrow> jbi \<Rightarrow> (jbi_ret \<times> jbi) option" where
  "jbi_do_wait_microseconds rd microseconds wait_state s =
     do { (status, s1) \<leftarrow> (if jbi_jtag_state s \<noteq> JBI_ILLEGAL_JTAG_STATE
                             \<and> state_code (jbi_jtag_state s) \<noteq> wait_state
                           then jbi_goto_jtag_state rd wait_state s else Some (JBIC_SUCCESS, s));
          Some (status, if status = JBIC_SUCCESS then jbi_delay microseconds s1 else s1) }"

definition jbi_set_drstop_state :: "u32 \<Rightarrow> jbi \<Rightarrow> jbi_ret \<times> jbi" where
  "jbi_set_drstop_state state s = (JBIC_SUCCESS, s\<lparr>jbi_drstop_state := state\<rparr>)"

definition jbi_set_irstop_state :: "u32 \<Rightarrow> jbi \<Rightarrow> jbi_ret \<times> jbi" where
  "jbi_set_irstop_state state s = (JBIC_SUCCESS, s\<lparr>jbi_irstop_state := state\<rparr>)"

section \<open>Initialisation\<close>

definition JBIC_MAX_JTAG_IR_PREAMBLE :: u32 where "JBIC_MAX_JTAG_IR_PREAMBLE = 256"
definition JBIC_MAX_JTAG_IR_POSTAMBLE :: u32 where "JBIC_MAX_JTAG_IR_POSTAMBLE = 256"
definition JBIC_MAX_JTAG_IR_LENGTH :: u32 where "JBIC_MAX_JTAG_IR_LENGTH = 512"
definition JBIC_MAX_JTAG_DR_PREAMBLE :: u32 where "JBIC_MAX_JTAG_DR_PREAMBLE = 1024"
definition JBIC_MAX_JTAG_DR_POSTAMBLE :: u32 where "JBIC_MAX_JTAG_DR_POSTAMBLE = 1024"
definition JBIC_MAX_JTAG_DR_LENGTH :: u32 where "JBIC_MAX_JTAG_DR_LENGTH = 2048"

definition jbi_init_jtag :: "jbi \<Rightarrow> jbi_ret \<times> jbi" where
  "jbi_init_jtag s =
     (let s1 = s\<lparr>jbi_jtag_state := JBI_ILLEGAL_JTAG_STATE,
                 jbi_drstop_state := state_code IDLE, jbi_irstop_state := state_code IDLE,
                 jbi_dr_preamble := 0, jbi_dr_postamble := 0, jbi_ir_preamble := 0,
                 jbi_ir_postamble := 0, jbi_dr_length := 0, jbi_ir_length := 0\<rparr>;
          drp = jbi_workspace s1;
          drq = drp + JBIC_MAX_JTAG_DR_PREAMBLE div 8;
          irp = drq + JBIC_MAX_JTAG_DR_POSTAMBLE div 8;
          irq = irp + JBIC_MAX_JTAG_IR_PREAMBLE div 8;
          drb = irq + JBIC_MAX_JTAG_IR_POSTAMBLE div 8;
          irb = drb + JBIC_MAX_JTAG_DR_LENGTH div 8
      in (JBIC_SUCCESS,
          if jbi_workspace s1 \<noteq> 0
          then s1\<lparr>jbi_dr_preamble_data := drp, jbi_dr_postamble_data := drq,
                  jbi_ir_preamble_data := irp, jbi_ir_postamble_data := irq,
                  jbi_dr_buffer := drb, jbi_ir_buffer := irb\<rparr>
          else s1\<lparr>jbi_dr_preamble_data := 0, jbi_dr_postamble_data := 0,
                  jbi_ir_preamble_data := 0, jbi_ir_postamble_data := 0,
                  jbi_dr_buffer := 0, jbi_ir_buffer := 0\<rparr>))"

section \<open>The TAP controller over the pins\<close>

text \<open>
  What a device on the chain sees: TMS and TDI at every rising edge of TCK, and the state
  diagram of IEEE 1149.1 it follows.
\<close>

fun pin_step ::
  "(bool \<times> bool \<times> bool) \<times> (bool \<times> bool) list \<Rightarrow> pin \<times> bool \<Rightarrow> (bool \<times> bool \<times> bool) \<times> (bool \<times> bool) list" where
  "pin_step ((tck, tms, tdi), cs) (TCK_PIN, v) =
     ((v, tms, tdi), if v \<and> \<not> tck then cs @ [(tms, tdi)] else cs)"
| "pin_step ((tck, tms, tdi), cs) (TMS_PIN, v) = ((tck, v, tdi), cs)"
| "pin_step ((tck, tms, tdi), cs) (TDI_PIN, v) = ((tck, tms, v), cs)"
| "pin_step ((tck, tms, tdi), cs) (TDO_PIN, v) = ((tck, tms, tdi), cs)"

definition tck_cycles :: "(pin \<times> bool) list \<Rightarrow> (bool \<times> bool) list" where
  "tck_cycles es = snd (foldl pin_step ((False, False, False), []) es)"

fun tap_next :: "jtag_state \<Rightarrow> bool \<Rightarrow> jtag_state" where
  "tap_next RESET tms = (if tms then RESET else IDLE)"
| "tap_next IDLE tms = (if tms then DRSELECT else IDLE)"
| "tap_next DRSELECT tms = (if tms then IRSELECT else DRCAPTURE)"
| "tap_next DRCAPTURE tms = (if tms then DREXIT1 else DRSHIFT)"
| "tap_next DRSHIFT tms = (if tms then DREXIT1 else DRSHIFT)"
| "tap_next DREXIT1 tms = (if tms then DRUPDATE else DRPAUSE)"
| "tap_next DRPAUSE tms = (if tms then DREXIT2 else DRPAUSE)"
| "tap_next DREXIT2 tms = (if tms then DRUPDATE else DRSHIFT)"
| "tap_next DRUPDATE tms = (if tms then DRSELECT else IDLE)"
| "tap_next IRSELECT tms = (if tms then RESET else IRCAPTURE)"
| "tap_next IRCAPTURE tms = (if tms then IREXIT1 else IRSHIFT)"
| "tap_next IRSHIFT tms = (if tms then IREXIT1 else IRSHIFT)"
| "tap_next IREXIT1 tms = (if tms then IRUPDATE else IRPAUSE)"
| "tap_next IRPAUSE tms = (if tms then IREXIT2 else IRPAUSE)"
| "tap_next IREXIT2 tms = (if tms then IRUPDATE else IRSHIFT)"
| "tap_next IRUPDATE tms = (if tms then DRSELECT else IDLE)"
| "tap_next JBI_ILLEGAL_JTAG_STATE tms = JBI_ILLEGAL_JTAG_STATE"

definition tap_run :: "jtag_state \<Rightarrow> (bool \<times> bool) list \<Rightarrow> jtag_state" where
  "tap_run p cs = fold (\<lambda>c p. tap_next p (fst c)) cs p"

text \<open>The state of the TAP after the pin writes so far, from the state it had at power-on.\<close>

definition tap_of :: "jtag_state \<Rightarrow> jbi \<Rightarrow> jtag_state" where
  "tap_of p0 s = tap_run p0 (tck_cycles (pins s))"

text \<open>
  The recorded state is right: it is unknown (\<open>JBI_ILLEGAL_JTAG_STATE\<close>), or it is the state of
  the TAP whatever state that was in at power-on.
\<close>

definition tracks :: "jbi \<Rightarrow> bool" where
  "tracks s \<longleftrightarrow> jbi_jtag_state s = JBI_ILLEGAL_JTAG_STATE \<or>
     (\<forall>p0. p0 \<noteq> JBI_ILLEGAL_JTAG_STATE \<longrightarrow> tap_of p0 s = jbi_jtag_state s)"

lemma tap_run_append: "tap_run p (as @ bs) = tap_run (tap_run p as) bs"
  by (simp add: tap_run_def)

lemma tap_run_Nil [simp]: "tap_run p [] = p"
  by (simp add: tap_run_def)

lemma tap_run_Cons [simp]: "tap_run p (c # cs) = tap_run (tap_next p (fst c)) cs"
  by (simp add: tap_run_def)

lemma tap_next_legal: "p \<noteq> JBI_ILLEGAL_JTAG_STATE \<Longrightarrow> tap_next p tms \<noteq> JBI_ILLEGAL_JTAG_STATE"
  by (cases p) simp_all

lemma tap_run_legal: "p \<noteq> JBI_ILLEGAL_JTAG_STATE \<Longrightarrow> tap_run p cs \<noteq> JBI_ILLEGAL_JTAG_STATE"
  by (induction cs arbitrary: p) (simp_all add: tap_next_legal)

lemma tck_cycles_io:
  "tck_cycles (es @ [(TCK_PIN, False), (TDI_PIN, d), (TMS_PIN, m), (TCK_PIN, True), (TCK_PIN, False)])
    = tck_cycles es @ [(m, d)]"
proof (cases "foldl pin_step ((False, False, False), []) es")
  case (Pair lv cs)
  obtain a b c where "lv = (a, b, c)" by (cases lv)
  with Pair show ?thesis by (simp add: tck_cycles_def)
qed

text \<open>One call of \<open>jbi_jtag_io\<close> is one TCK cycle with the given TMS and TDI.\<close>

definition cycles :: "jbi \<Rightarrow> (bool \<times> bool) list" where
  "cycles s = tck_cycles (pins s)"

lemma jtag_io_cycle: "cycles (snd (jbi_jtag_io rd m d r s)) = cycles s @ [(m, d)]"
  by (simp add: cycles_def jbi_jtag_io_def set_pin_def initialize_jtag_hardware_def Let_def
      tck_cycles_io)

text \<open>Everything but the pins.\<close>

definition same_but_pins :: "jbi \<Rightarrow> jbi \<Rightarrow> bool" where
  "same_but_pins s s' \<longleftrightarrow>
     s'\<lparr>pins := [], jtag_hardware_initialized := False\<rparr> = s\<lparr>pins := [], jtag_hardware_initialized := False\<rparr>"

lemma jtag_io_frame: "same_but_pins s (snd (jbi_jtag_io rd m d r s))"
  by (simp add: same_but_pins_def jbi_jtag_io_def set_pin_def initialize_jtag_hardware_def Let_def)

lemma same_but_pins_refl: "same_but_pins s s"
  by (simp add: same_but_pins_def)

lemma same_but_pins_trans: "same_but_pins r s \<Longrightarrow> same_but_pins s t \<Longrightarrow> same_but_pins r t"
  by (simp add: same_but_pins_def)

lemma clock_Nil [simp]: "clock rd [] s = s"
  by (simp add: clock_def)

lemma clock_Cons [simp]:
  "clock rd ((m, d) # cs) s = clock rd cs (snd (jbi_jtag_io rd m d False s))"
  by (simp add: clock_def)

lemma clock_cycles: "cycles (clock rd cs s) = cycles s @ cs"
  by (induction cs arbitrary: s) (auto simp: jtag_io_cycle)

lemma clock_frame: "same_but_pins s (clock rd cs s)"
proof (induction cs arbitrary: s)
  case (Cons c cs)
  obtain m d where "c = (m, d)" by (cases c)
  then show ?case using Cons jtag_io_frame same_but_pins_trans by fastforce
qed (simp add: same_but_pins_refl)

lemma same_but_pins_state:
  assumes "same_but_pins s s'"
  shows "jbi_jtag_state s' = jbi_jtag_state s" "mem s' = mem s"
  using arg_cong [OF assms [unfolded same_but_pins_def], of jbi_jtag_state]
    arg_cong [OF assms [unfolded same_but_pins_def], of mem] by simp_all

lemma tap_of_cycles: "tap_of p0 s = tap_run p0 (cycles s)"
  by (simp add: tap_of_def cycles_def)

section \<open>The path map\<close>

text \<open>The TMS value the map gives in state \<open>a\<close> on the way to \<open>t\<close>, and the whole path.\<close>

definition path_tms :: "jtag_state \<Rightarrow> jtag_state \<Rightarrow> bool" where
  "path_tms a t \<longleftrightarrow> path_bit (jbi_jtag_path_map ! unat (state_code a)) (state_code t)"

fun tap_path :: "nat \<Rightarrow> jtag_state \<Rightarrow> jtag_state \<Rightarrow> bool list" where
  "tap_path 0 a t = []"
| "tap_path (Suc n) a t =
     (if a = t then [] else path_tms a t # tap_path n (tap_next a (path_tms a t)) t)"

text \<open>The states a path visits after the first.\<close>

fun tap_visits :: "jtag_state \<Rightarrow> bool list \<Rightarrow> jtag_state list" where
  "tap_visits a [] = []"
| "tap_visits a (m # ms) = tap_next a m # tap_visits (tap_next a m) ms"

lemma transitions_are_tap:
  "list_all (\<lambda>a. jbi_jtag_state_transitions ! unat (state_code a) = (tap_next a True, tap_next a False))
    tap_states"
  by (simp add: tap_states_def jbi_jtag_state_transitions_def)

text \<open>The map as sets of states, and the paths over it.\<close>

fun path_high :: "jtag_state \<Rightarrow> jtag_state \<Rightarrow> bool" where
  "path_high RESET t = (t \<in> {RESET})"
| "path_high IDLE t = (t \<notin> {IDLE})"
| "path_high DRSELECT t = (t \<notin> {IDLE, DRSELECT, DRCAPTURE, DRSHIFT, DREXIT1, DRPAUSE, DREXIT2, DRUPDATE})"
| "path_high DRCAPTURE t = (t \<notin> {DRCAPTURE, DRSHIFT})"
| "path_high DRSHIFT t = (t \<notin> {DRSHIFT})"
| "path_high DREXIT1 t = (t \<notin> {DRSHIFT, DREXIT1, DRPAUSE, DREXIT2})"
| "path_high DRPAUSE t = (t \<notin> {DRPAUSE})"
| "path_high DREXIT2 t = (True)"
| "path_high DRUPDATE t = (t \<notin> {IDLE, DRUPDATE})"
| "path_high IRSELECT t = (t \<in> {RESET})"
| "path_high IRCAPTURE t = (t \<notin> {IRCAPTURE, IRSHIFT})"
| "path_high IRSHIFT t = (t \<notin> {IRSHIFT})"
| "path_high IREXIT1 t = (t \<notin> {IRSHIFT, IREXIT1, IRPAUSE, IREXIT2})"
| "path_high IRPAUSE t = (t \<notin> {IRPAUSE})"
| "path_high IREXIT2 t = (True)"
| "path_high IRUPDATE t = (t \<notin> {IDLE, IRUPDATE})"
| "path_high JBI_ILLEGAL_JTAG_STATE t = False"

fun high_path :: "nat \<Rightarrow> jtag_state \<Rightarrow> jtag_state \<Rightarrow> bool list" where
  "high_path 0 a t = []"
| "high_path (Suc n) a t =
     (if a = t then [] else path_high a t # high_path n (tap_next a (path_high a t)) t)"

lemma path_tms_bit:
  assumes "t \<noteq> JBI_ILLEGAL_JTAG_STATE"
  shows "path_tms a t \<longleftrightarrow> bit (jbi_jtag_path_map ! unat (state_code a)) (unat (state_code t))"
proof -
  have "path_bit w n \<longleftrightarrow> bit w (unat n)" if "unat n < 16" for w and n
    using that unfolding path_bit_def bit_iff_and_push_bit_not_eq_0 [symmetric]
    by (simp add: bit_simps)
  then show ?thesis using assms unfolding path_tms_def by (cases t) simp_all
qed

lemma path_tms_high:
  assumes "a \<noteq> JBI_ILLEGAL_JTAG_STATE" "t \<noteq> JBI_ILLEGAL_JTAG_STATE"
  shows "path_tms a t = path_high a t"
  unfolding path_tms_bit [OF assms(2)]
  using assms by (cases a; cases t; simp add: jbi_jtag_path_map_def)

lemma paths_table:
  "list_all (\<lambda>a. list_all (\<lambda>t. tap_run a (map (\<lambda>m. (m, False)) (high_path 9 a t)) = t
      \<and> length (high_path 9 a t) \<le> 8
      \<and> (t \<noteq> RESET \<longrightarrow> RESET \<notin> set (tap_visits a (high_path 9 a t)))) tap_states) tap_states"
  by code_simp

lemma legal_tap_states: "a \<in> set tap_states \<longleftrightarrow> a \<noteq> JBI_ILLEGAL_JTAG_STATE"
  by (cases a) (simp_all add: tap_states_def)

lemma tap_path_high:
  "a \<noteq> JBI_ILLEGAL_JTAG_STATE \<Longrightarrow> t \<noteq> JBI_ILLEGAL_JTAG_STATE \<Longrightarrow> tap_path n a t = high_path n a t"
  by (induction n arbitrary: a) (simp_all add: path_tms_high tap_next_legal)

lemma tap_path_ok:
  assumes "a \<noteq> JBI_ILLEGAL_JTAG_STATE" "t \<noteq> JBI_ILLEGAL_JTAG_STATE"
  shows "tap_run a (map (\<lambda>m. (m, False)) (tap_path 9 a t)) = t"
    "length (tap_path 9 a t) \<le> 8"
    "t \<noteq> RESET \<Longrightarrow> RESET \<notin> set (tap_visits a (tap_path 9 a t))"
  using paths_table assms by (auto simp: list_all_iff legal_tap_states tap_path_high)

section \<open>Moving the TAP\<close>

lemma goto_step_legal:
  assumes "jbi_jtag_state s = a" "a \<noteq> JBI_ILLEGAL_JTAG_STATE" "t \<noteq> JBI_ILLEGAL_JTAG_STATE"
  shows "\<exists>s'. goto_step rd (state_code t) s = Some s' \<and> cycles s' = cycles s @ [(path_tms a t, False)] \<and>
    jbi_jtag_state s' = tap_next a (path_tms a t) \<and> mem s' = mem s"
proof -
  define s1 where "s1 = snd (jbi_jtag_io rd (path_tms a t) False False s)"
  have st1: "jbi_jtag_state s1 = a" and cy: "cycles s1 = cycles s @ [(path_tms a t, False)]"
    and me: "mem s1 = mem s"
    using assms(1) same_but_pins_state [OF jtag_io_frame] by (simp_all add: s1_def jtag_io_cycle)
  have lt: "state_code t < 32" "unat (state_code a) < 16"
    using assms by (cases t; cases a; simp)+
  have map: "arr_get jbi_jtag_path_map (unat (state_code a)) =
      Some (jbi_jtag_path_map ! unat (state_code a))"
    using lt(2) by (intro arr_get_in) (simp add: jbi_jtag_path_map_def)
  have tr: "arr_get jbi_jtag_state_transitions (unat (state_code a)) =
      Some (tap_next a True, tap_next a False)"
    using transitions_are_tap assms(2) lt(2)
    by (auto simp: arr_get_def list_all_iff legal_tap_states) (simp add: jbi_jtag_state_transitions_def)
  have nlt: "\<not> 32 \<le> state_code t" using lt(1) by simp
  have "goto_step rd (state_code t) s =
      Some (s1\<lparr>jbi_jtag_state := tap_next a (path_tms a t)\<rparr>)"
    using nlt map tr st1 unfolding goto_step_def assms(1)
    by (simp add: Let_def s1_def [symmetric] path_tms_def [symmetric])
  then show ?thesis using cy me by (simp add: cycles_def)
qed

lemma goto_loop_legal:
  assumes "jbi_jtag_state s = a" "a \<noteq> JBI_ILLEGAL_JTAG_STATE" "t \<noteq> JBI_ILLEGAL_JTAG_STATE"
  shows "\<exists>s'. goto_loop rd n (state_code t) s = Some s' \<and>
    cycles s' = cycles s @ map (\<lambda>m. (m, False)) (tap_path n a t) \<and>
    jbi_jtag_state s' = tap_run a (map (\<lambda>m. (m, False)) (tap_path n a t)) \<and> mem s' = mem s"
  using assms(1,2)
proof (induction n arbitrary: s a)
  case (Suc n)
  show ?case
  proof (cases "a = t")
    case False
    obtain s1 where s1: "goto_step rd (state_code t) s = Some s1"
      "cycles s1 = cycles s @ [(path_tms a t, False)]"
      "jbi_jtag_state s1 = tap_next a (path_tms a t)" "mem s1 = mem s"
      using goto_step_legal [OF Suc.prems assms(3)] by auto
    then show ?thesis
      using Suc.IH [OF s1(3) tap_next_legal [OF Suc.prems(2)]] False Suc.prems(1) state_code_inj
      by auto
  qed (use Suc.prems in \<open>simp add: state_code_inj\<close>)
qed simp

lemma jtag_state_upd_cycles [simp]: "cycles (s\<lparr>jbi_jtag_state := x\<rparr>) = cycles s"
  by (simp add: cycles_def)

lemma tap_reset: "p \<noteq> JBI_ILLEGAL_JTAG_STATE \<Longrightarrow>
    tap_run p (replicate 5 (True, False) @ [(False, False)]) = IDLE"
  by (cases p) (simp_all add: eval_nat_numeral)

lemma reset_idle_facts:
  "cycles (jbi_jtag_reset_idle rd s) = cycles s @ replicate 5 (True, False) @ [(False, False)]"
  "jbi_jtag_state (jbi_jtag_reset_idle rd s) = IDLE"
  "mem (jbi_jtag_reset_idle rd s) = mem s"
  using same_but_pins_state(2) [OF clock_frame]
  by (simp_all add: jbi_jtag_reset_idle_def clock_cycles)

lemma tracks_cycles:
  "tracks s \<longleftrightarrow> jbi_jtag_state s = JBI_ILLEGAL_JTAG_STATE \<or>
     (\<forall>p0. p0 \<noteq> JBI_ILLEGAL_JTAG_STATE \<longrightarrow> tap_run p0 (cycles s) = jbi_jtag_state s)"
  by (simp add: tracks_def tap_of_cycles)

lemma tracks_extend:
  assumes "tracks s" "jbi_jtag_state s \<noteq> JBI_ILLEGAL_JTAG_STATE"
    "cycles s' = cycles s @ cs" "jbi_jtag_state s' = tap_run (jbi_jtag_state s) cs"
  shows "tracks s'"
  using assms by (auto simp: tracks_cycles tap_run_append)

lemma tracks_reset_idle: "tracks (jbi_jtag_reset_idle rd s)"
  unfolding tracks_cycles reset_idle_facts tap_run_append [of _ "cycles s"]
  by (intro disjI2 allI impI tap_reset tap_run_legal)

lemma state_code_mem: "state_code t \<in> state_code ` A \<longleftrightarrow> t \<in> A"
  by (auto simp: state_code_inj)

text \<open>The state the loop of \<open>jbi_goto_jtag_state\<close> starts from.\<close>

definition known_state :: "((pin \<times> bool) list \<Rightarrow> u32) \<Rightarrow> jbi \<Rightarrow> jbi" where
  "known_state rd s = (if jbi_jtag_state s = JBI_ILLEGAL_JTAG_STATE then jbi_jtag_reset_idle rd s else s)"

lemma known_state_facts:
  assumes "tracks s"
  shows "tracks (known_state rd s)" "jbi_jtag_state (known_state rd s) \<noteq> JBI_ILLEGAL_JTAG_STATE"
    "mem (known_state rd s) = mem s" "\<exists>cs. cycles (known_state rd s) = cycles s @ cs \<and> length cs \<le> 6"
  using assms by (auto simp: known_state_def tracks_reset_idle reset_idle_facts)

lemma goto_reaches:
  assumes tr: "tracks s" and t: "t \<noteq> JBI_ILLEGAL_JTAG_STATE"
  shows "\<exists>s'. jbi_goto_jtag_state rd (state_code t) s = Some (JBIC_SUCCESS, s') \<and>
    jbi_jtag_state s' = t \<and> tracks s' \<and> mem s' = mem s \<and>
    (\<exists>cs. cycles s' = cycles s @ cs \<and> length cs \<le> 14)"
proof -
  define s0 where "s0 = known_state rd s"
  define a where "a = jbi_jtag_state s0"
  have tr0: "tracks s0" and a: "a \<noteq> JBI_ILLEGAL_JTAG_STATE" and me: "mem s0 = mem s"
    using known_state_facts [OF tr] by (simp_all add: s0_def a_def)
  obtain cs0 where cs0: "cycles s0 = cycles s @ cs0" "length cs0 \<le> 6"
    using known_state_facts(4) [OF tr] unfolding s0_def by blast
  show ?thesis
  proof (cases "a = t")
    case False
    obtain s1 where s1: "goto_loop rd 9 (state_code t) s0 = Some s1"
      "cycles s1 = cycles s0 @ map (\<lambda>m. (m, False)) (tap_path 9 a t)"
      "jbi_jtag_state s1 = tap_run a (map (\<lambda>m. (m, False)) (tap_path 9 a t))" "mem s1 = mem s0"
      using goto_loop_legal [OF a_def [symmetric] a t] by metis
    have st: "jbi_jtag_state s1 = t" using s1(3) tap_path_ok(1) [OF a t] by simp
    moreover have "tracks s1"
      by (rule tracks_extend [OF tr0 _ s1(2)]) (use a s1(3) in \<open>simp_all add: a_def\<close>)
    moreover have "jbi_goto_jtag_state rd (state_code t) s = Some (JBIC_SUCCESS, s1)"
      using s1(1) st False unfolding jbi_goto_jtag_state_def known_state_def [symmetric] s0_def [symmetric]
      by (simp add: Let_def a_def [symmetric] state_code_inj)
    ultimately show ?thesis using s1(2,4) me cs0 tap_path_ok(2) [OF a t] by auto
  next
    case True
    define ms :: "bool list" where
      "ms = (if t \<in> {IDLE, DRSHIFT, DRPAUSE, IRSHIFT, IRPAUSE} then [False]
             else if t = RESET then [True] else [])"
    define s1 where "s1 = clock rd (map (\<lambda>m. (m, False)) ms) s0"
    have st0: "jbi_jtag_state s0 = t" "jbi_jtag_state s1 = t"
      using True same_but_pins_state(1) [OF clock_frame] by (simp_all add: s1_def a_def)
    have "jbi_goto_jtag_state rd (state_code t) s =
        (if state_code (jbi_jtag_state s1) \<noteq> state_code t then Some (JBIC_INTERNAL_ERROR, s1)
         else Some (JBIC_SUCCESS, s1))"
      unfolding jbi_goto_jtag_state_def known_state_def [symmetric] s0_def [symmetric] Let_def
        state_code_mem state_code_inj s1_def ms_def st0(1)
      by (simp del: clock_Cons add: clock_def)
    then have go: "jbi_goto_jtag_state rd (state_code t) s = Some (JBIC_SUCCESS, s1)"
      using st0(2) by simp
    have cy: "cycles s1 = cycles s0 @ map (\<lambda>m. (m, False)) ms" by (simp add: s1_def clock_cycles)
    have st: "jbi_jtag_state s1 = t" "mem s1 = mem s0"
      using same_but_pins_state [OF clock_frame] True by (simp_all add: s1_def a_def)
    have "tap_run t (map (\<lambda>m. (m, False)) ms) = t" using t by (cases t) (simp_all add: ms_def)
    then have "tracks s1"
      by (intro tracks_extend [OF tr0 _ cy]) (use a True st in \<open>simp_all add: a_def [symmetric]\<close>)
    moreover have "length ms \<le> 1" by (simp add: ms_def)
    ultimately show ?thesis using go st cy me cs0 by (intro exI [of _ s1]) auto
  qed
qed

text \<open>From a known state, the cycles of a move are a function of the two states.\<close>

definition goto_tms :: "jtag_state \<Rightarrow> jtag_state \<Rightarrow> bool list" where
  "goto_tms a t =
     (if a \<noteq> t then tap_path 9 a t
      else if t \<in> {IDLE, DRSHIFT, DRPAUSE, IRSHIFT, IRPAUSE} then [False]
      else if t = RESET then [True] else [])"

definition tms_seq :: "bool list \<Rightarrow> (bool \<times> bool) list" where
  "tms_seq ms = map (\<lambda>m. (m, False)) ms"

lemma goto_exact:
  assumes a: "jbi_jtag_state s = a" "a \<noteq> JBI_ILLEGAL_JTAG_STATE" and t: "t \<noteq> JBI_ILLEGAL_JTAG_STATE"
  shows "\<exists>s'. jbi_goto_jtag_state rd (state_code t) s = Some (JBIC_SUCCESS, s') \<and>
    jbi_jtag_state s' = t \<and> cycles s' = cycles s @ tms_seq (goto_tms a t) \<and> mem s' = mem s"
proof (cases "a = t")
  case False
  obtain s1 where "goto_loop rd 9 (state_code t) s = Some s1"
    "cycles s1 = cycles s @ map (\<lambda>m. (m, False)) (tap_path 9 a t)"
    "jbi_jtag_state s1 = tap_run a (map (\<lambda>m. (m, False)) (tap_path 9 a t))" "mem s1 = mem s"
    using goto_loop_legal [OF a t] by blast
  then show ?thesis using False a tap_path_ok(1) [OF a(2) t]
    by (simp add: jbi_goto_jtag_state_def Let_def state_code_inj goto_tms_def tms_seq_def)
next
  case True
  define s1 where "s1 = clock rd (tms_seq (goto_tms a t)) s"
  have st: "jbi_jtag_state s = t" "jbi_jtag_state s1 = t" "mem s1 = mem s"
    using True a same_but_pins_state [OF clock_frame] by (simp_all add: s1_def)
  have "jbi_goto_jtag_state rd (state_code t) s =
      Some (if state_code (jbi_jtag_state s1) \<noteq> state_code t then JBIC_INTERNAL_ERROR else JBIC_SUCCESS, s1)"
    unfolding s1_def goto_tms_def tms_seq_def using t True st(1)
    by (cases t) (simp_all add: jbi_goto_jtag_state_def)
  then show ?thesis using st by (simp add: s1_def clock_cycles)
qed

lemma goto_tms_ok:
  "a \<noteq> JBI_ILLEGAL_JTAG_STATE \<Longrightarrow> t \<noteq> JBI_ILLEGAL_JTAG_STATE \<Longrightarrow> tap_run a (tms_seq (goto_tms a t)) = t"
  using tap_path_ok(1) [of a t] by (cases t) (simp_all add: goto_tms_def tms_seq_def)

text \<open>The TDI values at the clock edges the TAP spends in the shift state \<open>sh\<close>.\<close>

fun shifted :: "jtag_state \<Rightarrow> jtag_state \<Rightarrow> (bool \<times> bool) list \<Rightarrow> bool list" where
  "shifted sh a [] = []"
| "shifted sh a (c # cs) = (if a = sh then [snd c] else []) @ shifted sh (tap_next a (fst c)) cs"

lemma shifted_append: "shifted sh a (as @ bs) = shifted sh a as @ shifted sh (tap_run a as) bs"
  by (induction as arbitrary: a) simp_all

text \<open>A move from a state in which nothing is shifted shifts nothing on its way.\<close>

lemma quiet_table:
  "list_all (\<lambda>a. list_all (\<lambda>t.
      shifted DRSHIFT a (map (\<lambda>m. (m, False)) (high_path 9 a t)) = [] \<and>
      shifted IRSHIFT a (map (\<lambda>m. (m, False)) (high_path 9 a t)) = []) tap_states)
    [RESET, IDLE, DRPAUSE, IRPAUSE]"
  by code_simp

lemma goto_quiet:
  assumes "a \<in> {RESET, IDLE, DRPAUSE, IRPAUSE}" "t \<noteq> JBI_ILLEGAL_JTAG_STATE" "sh \<in> {DRSHIFT, IRSHIFT}"
  shows "shifted sh a (tms_seq (goto_tms a t)) = []"
proof (cases "a = t")
  case False
  have "a \<noteq> JBI_ILLEGAL_JTAG_STATE" using assms(1) by auto
  then show ?thesis using quiet_table assms False
    by (auto simp: list_all_iff legal_tap_states goto_tms_def tms_seq_def tap_path_high)
qed (use assms in \<open>auto simp: goto_tms_def tms_seq_def\<close>)

text \<open>Any state code, legal or not: the recorded state stays right.\<close>

lemma goto_step_any:
  assumes "goto_step rd code s = Some s'" "jbi_jtag_state s \<noteq> JBI_ILLEGAL_JTAG_STATE"
  shows "\<exists>m. cycles s' = cycles s @ [(m, False)] \<and> jbi_jtag_state s' = tap_next (jbi_jtag_state s) m \<and>
    mem s' = mem s"
proof -
  obtain w where w: "arr_get jbi_jtag_path_map (unat (state_code (jbi_jtag_state s))) = Some w"
    using assms(1) by (auto simp: goto_step_def split: if_splits bind_splits)
  define m where "m = path_bit w code"
  define s1 where "s1 = snd (jbi_jtag_io rd m False False s)"
  have st1: "jbi_jtag_state s1 = jbi_jtag_state s" "mem s1 = mem s"
    using same_but_pins_state [OF jtag_io_frame] by (simp_all add: s1_def)
  have "unat (state_code (jbi_jtag_state s)) < 16" using assms(2) by (cases "jbi_jtag_state s") simp_all
  then have tr: "arr_get jbi_jtag_state_transitions (unat (state_code (jbi_jtag_state s))) =
      Some (tap_next (jbi_jtag_state s) True, tap_next (jbi_jtag_state s) False)"
    using transitions_are_tap assms(2)
    by (auto simp: arr_get_def list_all_iff legal_tap_states) (simp add: jbi_jtag_state_transitions_def)
  have "s' = s1\<lparr>jbi_jtag_state := tap_next (jbi_jtag_state s) m\<rparr>"
    using assms(1) w tr st1 unfolding goto_step_def
    by (simp add: Let_def m_def [symmetric] s1_def [symmetric] split: if_splits)
  then show ?thesis using st1 by (intro exI [of _ m]) (simp add: s1_def jtag_io_cycle)
qed

lemma goto_loop_any:
  assumes "goto_loop rd n code s = Some s'" "jbi_jtag_state s \<noteq> JBI_ILLEGAL_JTAG_STATE"
  shows "\<exists>cs. cycles s' = cycles s @ cs \<and> jbi_jtag_state s' = tap_run (jbi_jtag_state s) cs \<and>
    mem s' = mem s \<and> length cs \<le> n"
  using assms
proof (induction n arbitrary: s)
  case (Suc n)
  show ?case
  proof (cases "state_code (jbi_jtag_state s) = code")
    case True
    then show ?thesis using Suc.prems by (intro exI [of _ "[]"]) simp
  next
    case False
    then obtain s1 where s1: "goto_step rd code s = Some s1" "goto_loop rd n code s1 = Some s'"
      using Suc.prems(1) by (auto split: bind_splits)
    obtain m where m: "cycles s1 = cycles s @ [(m, False)]"
      "jbi_jtag_state s1 = tap_next (jbi_jtag_state s) m" "mem s1 = mem s"
      using goto_step_any [OF s1(1) Suc.prems(2)] by auto
    obtain cs where "cycles s' = cycles s1 @ cs" "jbi_jtag_state s' = tap_run (jbi_jtag_state s1) cs"
      "mem s' = mem s1" "length cs \<le> n"
      using Suc.IH [OF s1(2)] m(2) tap_next_legal [OF Suc.prems(2)] by auto
    then show ?thesis using m by (intro exI [of _ "(m, False) # cs"]) simp
  qed
qed simp

lemma goto_keeps_tracking:
  assumes tr: "tracks s" and go: "jbi_goto_jtag_state rd code s = Some (r, s')"
  shows "tracks s' \<and> jbi_jtag_state s' \<noteq> JBI_ILLEGAL_JTAG_STATE \<and> mem s' = mem s \<and>
    (r = JBIC_SUCCESS \<longleftrightarrow> state_code (jbi_jtag_state s') = code)"
proof (cases "\<exists>t. t \<noteq> JBI_ILLEGAL_JTAG_STATE \<and> code = state_code t")
  case True
  then obtain t where t: "t \<noteq> JBI_ILLEGAL_JTAG_STATE" "code = state_code t" by blast
  obtain s1 where "jbi_goto_jtag_state rd (state_code t) s = Some (JBIC_SUCCESS, s1)"
    "jbi_jtag_state s1 = t" "tracks s1" "mem s1 = mem s"
    using goto_reaches [OF tr t(1)] by blast
  then show ?thesis using go t by simp
next
  case False
  define s0 where "s0 = known_state rd s"
  have s0: "tracks s0" "jbi_jtag_state s0 \<noteq> JBI_ILLEGAL_JTAG_STATE" "mem s0 = mem s"
    using known_state_facts [OF tr] by (simp_all add: s0_def)
  have "state_code (jbi_jtag_state s0) \<noteq> code" using False s0(2) by auto
  then have g: "goto_loop rd 9 code s0 = Some s'"
    "r = (if state_code (jbi_jtag_state s') \<noteq> code then JBIC_INTERNAL_ERROR else JBIC_SUCCESS)"
    using go unfolding jbi_goto_jtag_state_def known_state_def [symmetric] s0_def [symmetric]
    by (auto simp: Let_def split: bind_splits)
  obtain cs where cs: "cycles s' = cycles s0 @ cs" "jbi_jtag_state s' = tap_run (jbi_jtag_state s0) cs"
    "mem s' = mem s0"
    using goto_loop_any [OF g(1) s0(2)] by auto
  have "tracks s'" by (rule tracks_extend [OF s0(1,2) cs(1,2)])
  moreover have "jbi_jtag_state s' \<noteq> JBI_ILLEGAL_JTAG_STATE"
    unfolding cs(2) by (rule tap_run_legal [OF s0(2)])
  ultimately show ?thesis using cs(3) g(2) s0(3) by simp
qed

section \<open>Waiting\<close>

definition stable_state :: "jtag_state \<Rightarrow> bool" where
  "stable_state t \<longleftrightarrow> t \<in> {RESET, IDLE, DRSHIFT, DRPAUSE, IRSHIFT, IRPAUSE}"

lemma stable_loop:
  assumes "stable_state t"
  shows "tap_run t (replicate n (t = RESET, False)) = t"
proof -
  have "tap_next t (t = RESET) = t" using assms by (auto simp: stable_state_def)
  then show ?thesis by (induction n) simp_all
qed

lemma wait_cycles_stable:
  assumes tr: "tracks s" and t: "stable_state t"
  shows "\<exists>s'. jbi_do_wait_cycles rd n (state_code t) s = Some (JBIC_SUCCESS, s') \<and>
    tracks s' \<and> jbi_jtag_state s' = t \<and> mem s' = mem s \<and>
    (\<exists>cs. cycles s' = cycles s @ cs @ replicate (nat (sint n)) (t = RESET, False) \<and> length cs \<le> 14)"
proof -
  have legal: "t \<noteq> JBI_ILLEGAL_JTAG_STATE" using t by (auto simp: stable_state_def)
  have "\<exists>s1. (if state_code (jbi_jtag_state s) \<noteq> state_code t
               then jbi_goto_jtag_state rd (state_code t) s else Some (JBIC_SUCCESS, s))
      = Some (JBIC_SUCCESS, s1) \<and> tracks s1 \<and> jbi_jtag_state s1 = t \<and> mem s1 = mem s \<and>
    (\<exists>cs. cycles s1 = cycles s @ cs \<and> length cs \<le> 14)"
  proof (cases "jbi_jtag_state s = t")
    case False
    then show ?thesis using goto_reaches [OF tr legal, of rd] unfolding state_code_inj by auto
  qed (use tr in \<open>simp add: state_code_inj\<close>)
  then obtain s1 cs where s1: "(if state_code (jbi_jtag_state s) \<noteq> state_code t
               then jbi_goto_jtag_state rd (state_code t) s else Some (JBIC_SUCCESS, s))
      = Some (JBIC_SUCCESS, s1)" "tracks s1" "jbi_jtag_state s1 = t" "mem s1 = mem s"
    "cycles s1 = cycles s @ cs" "length cs \<le> 14" by auto
  define s2 where "s2 = clock rd (replicate (nat (sint n)) (t = RESET, False)) s1"
  have cy: "cycles s2 = cycles s1 @ replicate (nat (sint n)) (t = RESET, False)"
    by (simp add: s2_def clock_cycles)
  have st: "jbi_jtag_state s2 = t" "mem s2 = mem s1"
    using same_but_pins_state [OF clock_frame] s1(3) by (simp_all add: s2_def)
  have "tracks s2"
    by (rule tracks_extend [OF s1(2) _ cy]) (use legal s1(3) st stable_loop [OF t] in simp_all)
  moreover have "jbi_do_wait_cycles rd n (state_code t) s = Some (JBIC_SUCCESS, s2)"
    unfolding jbi_do_wait_cycles_def s1(1) by (simp add: state_code_inj s2_def del: state_code.simps)
  moreover have "cycles s2 = cycles s @ cs @ replicate (nat (sint n)) (t = RESET, False)"
    using cy s1(5) by simp
  ultimately show ?thesis using st s1(4,6) by (intro exI [of _ s2] exI [of _ cs] conjI) simp_all
qed

section \<open>What a move leaves alone\<close>

text \<open>Moving the TAP changes the pins and the recorded state, and nothing else.\<close>

definition base :: "jbi \<Rightarrow> jbi" where
  "base s = s\<lparr>pins := [], jtag_hardware_initialized := False, jbi_jtag_state := RESET\<rparr>"

lemma base_io: "base (snd (jbi_jtag_io rd m d r s)) = base s"
  by (simp add: base_def jbi_jtag_io_def set_pin_def initialize_jtag_hardware_def Let_def)

lemma base_clock: "base (clock rd cs s) = base s"
proof (induction cs arbitrary: s)
  case (Cons c cs)
  then show ?case by (cases c) (simp add: base_io)
qed simp

lemma base_state [simp]: "base (s\<lparr>jbi_jtag_state := x\<rparr>) = base s"
  by (simp add: base_def)

lemma base_reset_idle: "base (jbi_jtag_reset_idle rd s) = base s"
  by (simp add: jbi_jtag_reset_idle_def base_clock del: replicate.simps)

lemma base_goto_step: "goto_step rd code s = Some s' \<Longrightarrow> base s' = base s"
  by (auto simp: goto_step_def Let_def base_io split: if_splits bind_splits)

lemma base_goto_loop: "goto_loop rd n code s = Some s' \<Longrightarrow> base s' = base s"
proof (induction n arbitrary: s)
  case (Suc n)
  then show ?case using base_goto_step by (fastforce split: if_splits bind_splits)
qed simp

lemma base_goto:
  assumes "jbi_goto_jtag_state rd code s = Some (r, s')"
  shows "base s' = base s"
proof -
  define s0 where "s0 = known_state rd s"
  have b0: "base s0 = base s" by (simp add: s0_def known_state_def base_reset_idle)
  obtain s1 where s1: "(if state_code (jbi_jtag_state s0) = code
        then if code \<in> state_code ` {IDLE, DRSHIFT, DRPAUSE, IRSHIFT, IRPAUSE}
             then Some (clock rd [(False, False)] s0)
             else if code = state_code RESET then Some (clock rd [(True, False)] s0) else Some s0
        else goto_loop rd 9 code s0) = Some s1" "s' = s1"
    using assms unfolding jbi_goto_jtag_state_def known_state_def [symmetric] s0_def [symmetric] Let_def
      Option.bind_eq_Some_conv by (elim exE conjE) simp
  have "base s1 = base s0"
    using s1(1) base_goto_loop [of rd 9 code s0 s1] base_clock [of rd _ s0]
    by (auto simp del: clock_Cons split: if_splits)
  then show ?thesis using b0 s1(2) by simp
qed

lemma base_fields:
  assumes "base s' = base s"
  shows "mem s' = mem s" "jbi_workspace s' = jbi_workspace s" "jbi_drstop_state s' = jbi_drstop_state s"
    "jbi_irstop_state s' = jbi_irstop_state s" "jbi_dr_preamble s' = jbi_dr_preamble s"
    "jbi_dr_postamble s' = jbi_dr_postamble s" "jbi_ir_preamble s' = jbi_ir_preamble s"
    "jbi_ir_postamble s' = jbi_ir_postamble s" "jbi_dr_length s' = jbi_dr_length s"
    "jbi_ir_length s' = jbi_ir_length s" "jbi_dr_preamble_data s' = jbi_dr_preamble_data s"
    "jbi_dr_postamble_data s' = jbi_dr_postamble_data s"
    "jbi_ir_preamble_data s' = jbi_ir_preamble_data s"
    "jbi_ir_postamble_data s' = jbi_ir_postamble_data s"
    "jbi_dr_buffer s' = jbi_dr_buffer s" "jbi_ir_buffer s' = jbi_ir_buffer s"
    "blocks s' = blocks s" "pool s' = pool s"
  using assms by (cases s; cases s'; simp add: base_def)+

end
