(* ===== verification/JbiScan.thy ===== *)
theory JbiScan imports JbiTap begin

text \<open>
  The padding and the scans of jbijtag.c: the four preamble and postamble setters, the
  concatenation of a scan's bits, the shift loops of \<open>jbi_jtag_drscan\<close> and \<open>jbi_jtag_irscan\<close>,
  and the four scan operations the byte code calls.
\<close>

unbundle bit_operations_syntax

section \<open>Padding\<close>

text \<open>
  The loop that stores the padding bits: all ones when no data is given, else the bits of the
  data from a start index on. \<open>n\<close> is how many turns are left, \<open>i\<close> the loop's counter.
\<close>

fun padding_loop :: "u32 \<Rightarrow> u32 \<Rightarrow> u32 \<Rightarrow> nat \<Rightarrow> u32 \<Rightarrow> jbi \<Rightarrow> jbi option" where
  "padding_loop data start_index dst 0 i s = Some s"
| "padding_loop data start_index dst (Suc n) i s =
     do { b \<leftarrow> (if data = 0 then Some True else get_bit data (i + start_index) s);
          s1 \<leftarrow> put_bit dst i b s;
          padding_loop data start_index dst n (i + 1) s1 }"

text \<open>
  The part the four setters share: with a workspace the count is checked against the size of
  the fixed area; otherwise a count above the current one replaces the buffer. \<open>cur\<close> and \<open>dst\<close>
  are the current count and buffer; the result is the status, the new count and buffer.
\<close>

definition padding_room ::
  "u32 \<Rightarrow> u32 \<Rightarrow> u32 \<Rightarrow> u32 \<Rightarrow> jbi \<Rightarrow> (jbi_ret \<times> u32 \<times> u32 \<times> jbi) option" where
  "padding_room limit count cur dst s =
     (if jbi_workspace s \<noteq> 0
      then Some (if count > limit then (JBIC_OUT_OF_MEMORY, cur, dst, s)
                 else (JBIC_SUCCESS, count, dst, s))
      else if count > cur
      then do { s1 \<leftarrow> jbi_free dst s;
                let (p, s2) = jbi_malloc (drop_bit 3 (count + 7)) s1
                in Some (if p = 0 then (JBIC_OUT_OF_MEMORY, cur, p, s2)
                         else (JBIC_SUCCESS, count, p, s2)) }
      else Some (JBIC_SUCCESS, count, dst, s))"

definition jbi_set_dr_preamble ::
  "u32 \<Rightarrow> u32 \<Rightarrow> u32 \<Rightarrow> jbi \<Rightarrow> (jbi_ret \<times> jbi) option" where
  "jbi_set_dr_preamble count start_index data s =
     do { (status, n, p, s1) \<leftarrow> padding_room JBIC_MAX_JTAG_DR_PREAMBLE count (jbi_dr_preamble s)
                                  (jbi_dr_preamble_data s) s;
          let s2 = s1\<lparr>jbi_dr_preamble := n, jbi_dr_preamble_data := p\<rparr>
          in if status = JBIC_SUCCESS
             then do { s3 \<leftarrow> padding_loop data start_index (jbi_dr_preamble_data s2) (unat count) 0 s2;
                       Some (status, s3) }
             else Some (status, s2) }"

definition jbi_set_ir_preamble ::
  "u32 \<Rightarrow> u32 \<Rightarrow> u32 \<Rightarrow> jbi \<Rightarrow> (jbi_ret \<times> jbi) option" where
  "jbi_set_ir_preamble count start_index data s =
     do { (status, n, p, s1) \<leftarrow> padding_room JBIC_MAX_JTAG_IR_PREAMBLE count (jbi_ir_preamble s)
                                  (jbi_ir_preamble_data s) s;
          let s2 = s1\<lparr>jbi_ir_preamble := n, jbi_ir_preamble_data := p\<rparr>
          in if status = JBIC_SUCCESS
             then do { s3 \<leftarrow> padding_loop data start_index (jbi_ir_preamble_data s2) (unat count) 0 s2;
                       Some (status, s3) }
             else Some (status, s2) }"

definition jbi_set_dr_postamble ::
  "u32 \<Rightarrow> u32 \<Rightarrow> u32 \<Rightarrow> jbi \<Rightarrow> (jbi_ret \<times> jbi) option" where
  "jbi_set_dr_postamble count start_index data s =
     do { (status, n, p, s1) \<leftarrow> padding_room JBIC_MAX_JTAG_DR_POSTAMBLE count (jbi_dr_postamble s)
                                  (jbi_dr_postamble_data s) s;
          let s2 = s1\<lparr>jbi_dr_postamble := n, jbi_dr_postamble_data := p\<rparr>
          in if status = JBIC_SUCCESS
             then do { s3 \<leftarrow> padding_loop data start_index (jbi_dr_postamble_data s2) (unat count) 0 s2;
                       Some (status, s3) }
             else Some (status, s2) }"

definition jbi_set_ir_postamble ::
  "u32 \<Rightarrow> u32 \<Rightarrow> u32 \<Rightarrow> jbi \<Rightarrow> (jbi_ret \<times> jbi) option" where
  "jbi_set_ir_postamble count start_index data s =
     do { (status, n, p, s1) \<leftarrow> padding_room JBIC_MAX_JTAG_IR_POSTAMBLE count (jbi_ir_postamble s)
                                  (jbi_ir_postamble_data s) s;
          let s2 = s1\<lparr>jbi_ir_postamble := n, jbi_ir_postamble_data := p\<rparr>
          in if status = JBIC_SUCCESS
             then do { s3 \<leftarrow> padding_loop data start_index (jbi_ir_postamble_data s2) (unat count) 0 s2;
                       Some (status, s3) }
             else Some (status, s2) }"

section \<open>The bits of a scan\<close>

text \<open>Copying \<open>n\<close> bits, from bit \<open>j\<close> of one array to bit \<open>i\<close> of another.\<close>

fun copy_bits :: "nat \<Rightarrow> u32 \<Rightarrow> u32 \<Rightarrow> u32 \<Rightarrow> u32 \<Rightarrow> jbi \<Rightarrow> jbi option" where
  "copy_bits 0 src j dst i s = Some s"
| "copy_bits (Suc n) src j dst i s =
     do { b \<leftarrow> get_bit src j s; s1 \<leftarrow> put_bit dst i b s; copy_bits n src (j + 1) dst (i + 1) s1 }"

text \<open>How often a loop \<open>for (; i < k; ++i)\<close> turns.\<close>

definition turns :: "u32 \<Rightarrow> u32 \<Rightarrow> nat" where
  "turns i k = (if i < k then unat (k - i) else 0)"

definition jbi_jtag_concatenate_data ::
  "u32 \<Rightarrow> u32 \<Rightarrow> u32 \<Rightarrow> u32 \<Rightarrow> u32 \<Rightarrow> u32 \<Rightarrow> u32 \<Rightarrow> u32 \<Rightarrow> jbi \<Rightarrow> jbi option" where
  "jbi_jtag_concatenate_data buffer preamble_data preamble_count target_data start_index
       target_count postamble_data postamble_count s =
     do { s1 \<leftarrow> copy_bits (unat preamble_count) preamble_data 0 buffer 0 s;
          let i = preamble_count; k = preamble_count + target_count; n = turns i k
          in do { s2 \<leftarrow> copy_bits n target_data start_index buffer i s1;
                  let i = i + of_nat n; k = preamble_count + target_count + postamble_count
                  in copy_bits (turns i k) postamble_data 0 buffer i s2 } }"

definition jbi_jtag_extract_target_data ::
  "u32 \<Rightarrow> u32 \<Rightarrow> u32 \<Rightarrow> u32 \<Rightarrow> u32 \<Rightarrow> jbi \<Rightarrow> jbi option" where
  "jbi_jtag_extract_target_data buffer target_data start_index preamble_count target_count s =
     copy_bits (turns start_index (start_index + target_count)) buffer preamble_count
       target_data start_index s"

section \<open>The shift loops\<close>

text \<open>
  \<open>n\<close> turns are left and bit \<open>i\<close> is next; the last one is clocked with TMS high. With no
  capture buffer (\<open>tdo = 0\<close>) TDO is not read.
\<close>

fun shift_loop ::
  "((pin \<times> bool) list \<Rightarrow> u32) \<Rightarrow> u32 \<Rightarrow> u32 \<Rightarrow> nat \<Rightarrow> u32 \<Rightarrow> jbi \<Rightarrow> jbi option" where
  "shift_loop rd tdi tdo 0 i s = Some s"
| "shift_loop rd tdi tdo (Suc n) i s =
     do { b \<leftarrow> get_bit tdi i s;
          let (tdo_bit, s1) = jbi_jtag_io rd (n = 0) b (tdo \<noteq> 0) s
          in do { s2 \<leftarrow> (if tdo \<noteq> 0 then put_bit tdo i (tdo_bit \<noteq> 0) s1 else Some s1);
                  shift_loop rd tdi tdo n (i + 1) s2 } }"

text \<open>\<open>count\<close> is an int: the loop does not turn for a negative one.\<close>

definition jbi_jtag_drscan ::
  "((pin \<times> bool) list \<Rightarrow> u32) \<Rightarrow> nat \<Rightarrow> u32 \<Rightarrow> u32 \<Rightarrow> u32 \<Rightarrow> jbi \<Rightarrow> (bool \<times> jbi) option" where
  "jbi_jtag_drscan rd start_state count tdi tdo s =
     (let pre = (if start_state = 0 then Some [True, False, False]
                 else if start_state = 1 then Some [True, True, True, False, False]
                 else if start_state = 2 then Some [True, True, True, False, False]
                 else None)
      in case pre of
           None \<Rightarrow> Some (False, s)
         | Some ms \<Rightarrow>
             do { s1 \<leftarrow> shift_loop rd tdi tdo (nat (sint count)) 0 (clock rd (tms_seq ms) s);
                  Some (True, clock rd [(False, False)] s1) })"

definition jbi_jtag_irscan ::
  "((pin \<times> bool) list \<Rightarrow> u32) \<Rightarrow> nat \<Rightarrow> u32 \<Rightarrow> u32 \<Rightarrow> u32 \<Rightarrow> jbi \<Rightarrow> (bool \<times> jbi) option" where
  "jbi_jtag_irscan rd start_state count tdi tdo s =
     (let pre = (if start_state = 0 then Some [True, True, False, False]
                 else if start_state = 1 then Some [True, True, True, True, False, False]
                 else if start_state = 2 then Some [True, True, True, True, False, False]
                 else None)
      in case pre of
           None \<Rightarrow> Some (False, s)
         | Some ms \<Rightarrow>
             do { s1 \<leftarrow> shift_loop rd tdi tdo (nat (sint count)) 0 (clock rd (tms_seq ms) s);
                  Some (True, clock rd [(False, False)] s1) })"

section \<open>The scan operations\<close>

text \<open>The switch at the head of the four operations: the start code and the state to start from.\<close>

definition scan_start :: "jtag_state \<Rightarrow> nat \<times> jtag_state" where
  "scan_start st =
     (if st \<in> {JBI_ILLEGAL_JTAG_STATE, RESET, IDLE} then (0, IDLE)
      else if st \<in> {DRSELECT, DRCAPTURE, DRSHIFT, DREXIT1, DRPAUSE, DREXIT2, DRUPDATE} then (1, DRPAUSE)
      else (2, IRPAUSE))"

definition goto_start :: "((pin \<times> bool) list \<Rightarrow> u32) \<Rightarrow> jtag_state \<Rightarrow> jbi \<Rightarrow> (jbi_ret \<times> jbi) option" where
  "goto_start rd st s =
     (if jbi_jtag_state s \<noteq> st then jbi_goto_jtag_state rd (state_code st) s else Some (JBIC_SUCCESS, s))"

text \<open>Room for \<open>shift_count\<close> bits: the status, the buffer, its length, and the state.\<close>

definition scan_room ::
  "u32 \<Rightarrow> u32 \<Rightarrow> u32 \<Rightarrow> u32 \<Rightarrow> jbi \<Rightarrow> (jbi_ret \<times> u32 \<times> u32 \<times> jbi) option" where
  "scan_room limit shift_count buf len s =
     (if jbi_workspace s \<noteq> 0
      then Some (if shift_count > limit then JBIC_OUT_OF_MEMORY else JBIC_SUCCESS, buf, len, s)
      else if shift_count > len
      then let alloc_chars = drop_bit 3 (shift_count + 7)
           in do { s1 \<leftarrow> jbi_free buf s;
                   let (p, s2) = jbi_malloc alloc_chars s1
                   in Some (if p = 0 then (JBIC_OUT_OF_MEMORY, p, len, s2)
                            else (JBIC_SUCCESS, p, alloc_chars * 8, s2)) }
      else Some (JBIC_SUCCESS, buf, len, s))"

definition dr_room :: "u32 \<Rightarrow> jbi \<Rightarrow> (jbi_ret \<times> jbi) option" where
  "dr_room shift_count s =
     do { (status, p, n, s1) \<leftarrow> scan_room JBIC_MAX_JTAG_DR_LENGTH shift_count (jbi_dr_buffer s) (jbi_dr_length s) s;
          Some (status, s1\<lparr>jbi_dr_buffer := p, jbi_dr_length := n\<rparr>) }"

definition ir_room :: "u32 \<Rightarrow> jbi \<Rightarrow> (jbi_ret \<times> jbi) option" where
  "ir_room shift_count s =
     do { (status, p, n, s1) \<leftarrow> scan_room JBIC_MAX_JTAG_IR_LENGTH shift_count (jbi_ir_buffer s) (jbi_ir_length s) s;
          Some (status, s1\<lparr>jbi_ir_buffer := p, jbi_ir_length := n\<rparr>) }"

text \<open>A step that is skipped once the status is an error.\<close>

definition on_success :: "(jbi \<Rightarrow> (jbi_ret \<times> jbi) option) \<Rightarrow> jbi_ret \<times> jbi \<Rightarrow> (jbi_ret \<times> jbi) option" where
  "on_success f r = (if fst r = JBIC_SUCCESS then f (snd r) else Some r)"

definition jbi_do_irscan ::
  "((pin \<times> bool) list \<Rightarrow> u32) \<Rightarrow> u32 \<Rightarrow> u32 \<Rightarrow> u32 \<Rightarrow> jbi \<Rightarrow> (jbi_ret \<times> jbi) option" where
  "jbi_do_irscan rd count tdi_data start_index s =
     (let shift_count = jbi_ir_preamble s + count + jbi_ir_postamble s;
          (start_code, start_state) = scan_start (jbi_jtag_state s)
      in do { r1 \<leftarrow> goto_start rd start_state s;
              r2 \<leftarrow> on_success (ir_room shift_count) r1;
              r3 \<leftarrow> on_success (\<lambda>s.
                do { s1 \<leftarrow> jbi_jtag_concatenate_data (jbi_ir_buffer s) (jbi_ir_preamble_data s)
                             (jbi_ir_preamble s) tdi_data start_index count
                             (jbi_ir_postamble_data s) (jbi_ir_postamble s) s;
                     (ok, s2) \<leftarrow> jbi_jtag_irscan rd start_code shift_count (jbi_ir_buffer s1) 0 s1;
                     Some (JBIC_SUCCESS, s2\<lparr>jbi_jtag_state := IRPAUSE\<rparr>) }) r2;
              on_success (\<lambda>s. if jbi_irstop_state s \<noteq> state_code IRPAUSE
                              then jbi_goto_jtag_state rd (jbi_irstop_state s) s
                              else Some (JBIC_SUCCESS, s)) r3 })"

definition jbi_swap_ir ::
  "((pin \<times> bool) list \<Rightarrow> u32) \<Rightarrow> u32 \<Rightarrow> u32 \<Rightarrow> u32 \<Rightarrow> u32 \<Rightarrow> u32 \<Rightarrow> jbi \<Rightarrow> (jbi_ret \<times> jbi) option" where
  "jbi_swap_ir rd count in_data in_index out_data out_index s =
     (let shift_count = jbi_ir_preamble s + count + jbi_ir_postamble s;
          (start_code, start_state) = scan_start (jbi_jtag_state s)
      in do { r1 \<leftarrow> goto_start rd start_state s;
              r2 \<leftarrow> on_success (ir_room shift_count) r1;
              r3 \<leftarrow> on_success (\<lambda>s.
                do { s1 \<leftarrow> jbi_jtag_concatenate_data (jbi_ir_buffer s) (jbi_ir_preamble_data s)
                             (jbi_ir_preamble s) in_data in_index count
                             (jbi_ir_postamble_data s) (jbi_ir_postamble s) s;
                     (ok, s2) \<leftarrow> jbi_jtag_irscan rd start_code shift_count (jbi_ir_buffer s1)
                                   (jbi_ir_buffer s1) s1;
                     Some (JBIC_SUCCESS, s2\<lparr>jbi_jtag_state := IRPAUSE\<rparr>) }) r2;
              r4 \<leftarrow> on_success (\<lambda>s. if jbi_irstop_state s \<noteq> state_code IRPAUSE
                                    then jbi_goto_jtag_state rd (jbi_irstop_state s) s
                                    else Some (JBIC_SUCCESS, s)) r3;
              on_success (\<lambda>s.
                do { s1 \<leftarrow> jbi_jtag_extract_target_data (jbi_ir_buffer s) out_data out_index
                             (jbi_ir_preamble s) count s;
                     Some (JBIC_SUCCESS, s1) }) r4 })"

definition jbi_do_drscan ::
  "((pin \<times> bool) list \<Rightarrow> u32) \<Rightarrow> u32 \<Rightarrow> u32 \<Rightarrow> u32 \<Rightarrow> jbi \<Rightarrow> (jbi_ret \<times> jbi) option" where
  "jbi_do_drscan rd count tdi_data start_index s =
     (let shift_count = jbi_dr_preamble s + count + jbi_dr_postamble s;
          (start_code, start_state) = scan_start (jbi_jtag_state s)
      in do { r1 \<leftarrow> goto_start rd start_state s;
              r2 \<leftarrow> on_success (dr_room shift_count) r1;
              r3 \<leftarrow> on_success (\<lambda>s.
                do { s1 \<leftarrow> jbi_jtag_concatenate_data (jbi_dr_buffer s) (jbi_dr_preamble_data s)
                             (jbi_dr_preamble s) tdi_data start_index count
                             (jbi_dr_postamble_data s) (jbi_dr_postamble s) s;
                     (ok, s2) \<leftarrow> jbi_jtag_drscan rd start_code shift_count (jbi_dr_buffer s1) 0 s1;
                     Some (JBIC_SUCCESS, s2\<lparr>jbi_jtag_state := DRPAUSE\<rparr>) }) r2;
              on_success (\<lambda>s. if jbi_drstop_state s \<noteq> state_code DRPAUSE
                              then jbi_goto_jtag_state rd (jbi_drstop_state s) s
                              else Some (JBIC_SUCCESS, s)) r3 })"

definition jbi_swap_dr ::
  "((pin \<times> bool) list \<Rightarrow> u32) \<Rightarrow> u32 \<Rightarrow> u32 \<Rightarrow> u32 \<Rightarrow> u32 \<Rightarrow> u32 \<Rightarrow> jbi \<Rightarrow> (jbi_ret \<times> jbi) option" where
  "jbi_swap_dr rd count in_data in_index out_data out_index s =
     (let shift_count = jbi_dr_preamble s + count + jbi_dr_postamble s;
          (start_code, start_state) = scan_start (jbi_jtag_state s)
      in do { r1 \<leftarrow> goto_start rd start_state s;
              r2 \<leftarrow> on_success (dr_room shift_count) r1;
              r3 \<leftarrow> on_success (\<lambda>s.
                do { s1 \<leftarrow> jbi_jtag_concatenate_data (jbi_dr_buffer s) (jbi_dr_preamble_data s)
                             (jbi_dr_preamble s) in_data in_index count
                             (jbi_dr_postamble_data s) (jbi_dr_postamble s) s;
                     (ok, s2) \<leftarrow> jbi_jtag_drscan rd start_code shift_count (jbi_dr_buffer s1)
                                   (jbi_dr_buffer s1) s1;
                     Some (JBIC_SUCCESS, s2\<lparr>jbi_jtag_state := DRPAUSE\<rparr>) }) r2;
              r4 \<leftarrow> on_success (\<lambda>s. if jbi_drstop_state s \<noteq> state_code DRPAUSE
                                    then jbi_goto_jtag_state rd (jbi_drstop_state s) s
                                    else Some (JBIC_SUCCESS, s)) r3;
              on_success (\<lambda>s.
                do { s1 \<leftarrow> jbi_jtag_extract_target_data (jbi_dr_buffer s) out_data out_index
                             (jbi_dr_preamble s) count s;
                     Some (JBIC_SUCCESS, s1) }) r4 })"

section \<open>Cleaning up\<close>

definition free_pointer :: "u32 \<Rightarrow> (jbi \<Rightarrow> jbi) \<Rightarrow> jbi \<Rightarrow> jbi option" where
  "free_pointer p clear s = (if p \<noteq> 0 then do { s1 \<leftarrow> jbi_free p s; Some (clear s1) } else Some s)"

definition jbi_free_jtag_padding_buffers ::
  "((pin \<times> bool) list \<Rightarrow> u32) \<Rightarrow> bool \<Rightarrow> jbi \<Rightarrow> jbi option" where
  "jbi_free_jtag_padding_buffers rd reset_jtag s =
     (let s0 = (if reset_jtag \<and> jbi_jtag_state s \<noteq> JBI_ILLEGAL_JTAG_STATE
                then jbi_jtag_reset_idle rd s else s)
      in if jbi_workspace s0 = 0
         then do { s1 \<leftarrow> free_pointer (jbi_dr_preamble_data s0) (\<lambda>s. s\<lparr>jbi_dr_preamble_data := 0\<rparr>) s0;
                   s2 \<leftarrow> free_pointer (jbi_dr_postamble_data s1) (\<lambda>s. s\<lparr>jbi_dr_postamble_data := 0\<rparr>) s1;
                   s3 \<leftarrow> free_pointer (jbi_dr_buffer s2) (\<lambda>s. s\<lparr>jbi_dr_buffer := 0\<rparr>) s2;
                   s4 \<leftarrow> free_pointer (jbi_ir_preamble_data s3) (\<lambda>s. s\<lparr>jbi_ir_preamble_data := 0\<rparr>) s3;
                   s5 \<leftarrow> free_pointer (jbi_ir_postamble_data s4) (\<lambda>s. s\<lparr>jbi_ir_postamble_data := 0\<rparr>) s4;
                   free_pointer (jbi_ir_buffer s5) (\<lambda>s. s\<lparr>jbi_ir_buffer := 0\<rparr>) s5 }
         else Some s0)"

end
