(* ===== verification/JbiScanProofs.thy ===== *)
theory JbiScanProofs imports JbiScan begin

text \<open>
  What a scan shifts: bit arrays in memory, the copy and shift loops over them, and the proof
  that a scan clocks exactly the preamble, the target bits and the postamble through the shift
  state, ends in the pause state, and hands back the bits the target drove on TDO.
\<close>

unbundle bit_operations_syntax

section \<open>Bit arrays\<close>

definition bit_addr :: "u32 \<Rightarrow> u32 \<Rightarrow> u32" where
  "bit_addr p i = p + drop_bit 3 i"

text \<open>The bits \<open>bs\<close> stand in the array \<open>p\<close> from bit \<open>j\<close> on.\<close>

definition holds :: "u32 \<Rightarrow> u32 \<Rightarrow> bool list \<Rightarrow> jbi \<Rightarrow> bool" where
  "holds p j bs s \<longleftrightarrow> (\<forall>k < length bs. get_bit p (j + of_nat k) s = Some (bs ! k))"

lemma unat_and_7: "unat (i AND 7 :: u32) < 8"
proof -
  have "i AND 7 = take_bit 3 i" by (simp add: take_bit_eq_mask mask_eq_exp_minus_1)
  also have "unat \<dots> < 2 ^ 3" unfolding unsigned_take_bit_eq by (rule take_bit_nat_less_exp)
  finally show ?thesis by simp
qed

text \<open>Two bit indices are equal when their byte and their bit in it are.\<close>

lemma bit_index_eq:
  assumes "drop_bit 3 i = drop_bit 3 (j :: u32)" "i AND 7 = j AND 7"
  shows "i = j"
proof -
  have "i = push_bit 3 (drop_bit 3 i) OR take_bit 3 i" for i :: u32
    by (rule bit_word_eqI) (auto simp: bit_simps)
  moreover have "take_bit 3 i = i AND 7" for i :: u32
    by (simp add: take_bit_eq_mask mask_eq_exp_minus_1)
  ultimately show ?thesis using assms by metis
qed

lemma get_put_same:
  assumes "put_bit p i v s = Some s'"
  shows "get_bit p i s' = Some v"
  using assms unat_and_7 [of i]
  by (auto simp: put_bit_def get_bit_def bit_simps split: bind_splits)

lemma put_bit_mem:
  assumes "put_bit p i v s = Some s'"
  shows "a \<noteq> bit_addr p i \<Longrightarrow> mem s' a = mem s a" "mem s' a = None \<longleftrightarrow> mem s a = None"
    "s' = s\<lparr>mem := mem s'\<rparr>"
  using assms by (auto simp: put_bit_def st8_def ld8_def bit_addr_def split: bind_splits if_splits)

lemma get_put_other:
  assumes "put_bit p i v s = Some s'" "j \<noteq> i"
  shows "get_bit p j s' = get_bit p j s"
proof (cases "bit_addr p j = bit_addr p i")
  case True
  then have "drop_bit 3 j = drop_bit 3 i" by (simp add: bit_addr_def)
  then have "j AND 7 \<noteq> i AND 7" using bit_index_eq assms(2) by blast
  then have "unat (j AND 7) \<noteq> unat (i AND 7)" by (simp add: word_unat_eq_iff)
  then show ?thesis using assms(1) True unat_and_7 [of j] unat_and_7 [of i]
    by (auto simp: put_bit_def get_bit_def st8_def ld8_def bit_addr_def bit_simps
        split: bind_splits if_splits)
next
  case False
  then show ?thesis using put_bit_mem(1) [OF assms(1) False]
    by (simp add: get_bit_def ld8_def bit_addr_def)
qed

lemma get_put_away:
  assumes "put_bit p i v s = Some s'" "bit_addr q j \<noteq> bit_addr p i"
  shows "get_bit q j s' = get_bit q j s"
  using put_bit_mem(1) [OF assms] by (simp add: get_bit_def ld8_def bit_addr_def)

lemma put_bit_defined:
  assumes "get_bit p i s \<noteq> None"
  shows "\<exists>s'. put_bit p i v s = Some s'"
  using assms by (auto simp: get_bit_def put_bit_def st8_def ld8_def)

lemma put_bit_dom:
  assumes "put_bit p i v s = Some s'"
  shows "get_bit q j s' = None \<longleftrightarrow> get_bit q j s = None"
  using put_bit_mem(2) [OF assms, of "q + drop_bit 3 j"] by (simp add: get_bit_def ld8_def)

section \<open>Copying bits\<close>

text \<open>
  \<open>apart\<close>: no byte of the \<open>n\<close> source bits is a byte of the \<open>m\<close> destination bits.
\<close>

definition apart :: "u32 \<Rightarrow> u32 \<Rightarrow> nat \<Rightarrow> u32 \<Rightarrow> u32 \<Rightarrow> nat \<Rightarrow> bool" where
  "apart src j n dst i m \<longleftrightarrow>
     (\<forall>k < n. \<forall>l < m. bit_addr src (j + of_nat k) \<noteq> bit_addr dst (i + of_nat l))"

definition mapped_bits :: "u32 \<Rightarrow> u32 \<Rightarrow> nat \<Rightarrow> jbi \<Rightarrow> bool" where
  "mapped_bits p i n s \<longleftrightarrow> (\<forall>k < n. get_bit p (i + of_nat k) s \<noteq> None)"

text \<open>What a write to the bits \<open>i\<close> to \<open>i + n\<close> of \<open>dst\<close> leaves alone.\<close>

definition bits_frame :: "u32 \<Rightarrow> u32 \<Rightarrow> nat \<Rightarrow> jbi \<Rightarrow> jbi \<Rightarrow> bool" where
  "bits_frame dst i n s s' \<longleftrightarrow>
     (\<forall>q j. (\<forall>l < n. bit_addr q j \<noteq> bit_addr dst (i + of_nat l)) \<longrightarrow> get_bit q j s' = get_bit q j s) \<and>
     (\<forall>j. (\<forall>l < n. j \<noteq> i + of_nat l) \<longrightarrow> get_bit dst j s' = get_bit dst j s) \<and>
     (\<forall>q j. get_bit q j s' = None \<longleftrightarrow> get_bit q j s = None) \<and>
     s' = s\<lparr>mem := mem s'\<rparr>"

lemma bits_frame_refl: "bits_frame dst i 0 s s"
  by (simp add: bits_frame_def)

lemma of_nat_Suc_shift: "i + of_nat (Suc k) = (i + 1) + of_nat k" for i :: u32
  by simp

lemma less_Suc_shift:
  "(\<forall>l < Suc n. P (i + of_nat l)) \<longleftrightarrow> P i \<and> (\<forall>l < n. P ((i :: u32) + 1 + of_nat l))"
  by (simp add: All_less_Suc2 ac_simps)

lemma bits_frame_step:
  assumes put: "put_bit dst i v s = Some s1" and fr: "bits_frame dst (i + 1) n s1 s'"
  shows "bits_frame dst i (Suc n) s s'"
  unfolding bits_frame_def less_Suc_shift [of n "\<lambda>x. bit_addr q j \<noteq> bit_addr dst x" for q j]
    less_Suc_shift [of n "\<lambda>x. j \<noteq> x" for j]
proof (intro conjI allI impI; (elim conjE)?)
  show "get_bit q j s' = get_bit q j s"
    if "bit_addr q j \<noteq> bit_addr dst i" "\<forall>l<n. bit_addr q j \<noteq> bit_addr dst (i + 1 + of_nat l)" for q j
    using fr that get_put_away [OF put that(1)] unfolding bits_frame_def by simp
  show "get_bit dst j s' = get_bit dst j s"
    if "j \<noteq> i" "\<forall>l<n. j \<noteq> i + 1 + of_nat l" for j
    using fr that get_put_other [OF put that(1)] unfolding bits_frame_def by simp
  show "(get_bit q j s' = None) = (get_bit q j s = None)" for q j
    using fr put_bit_dom [OF put] unfolding bits_frame_def by simp
  show "s' = s\<lparr>mem := mem s'\<rparr>"
  proof -
    have "s' = s1\<lparr>mem := mem s'\<rparr>" using fr unfolding bits_frame_def by blast
    also have "\<dots> = s\<lparr>mem := mem s'\<rparr>" by (subst put_bit_mem(3) [OF put]) simp
    finally show ?thesis .
  qed
qed

text \<open>Distinct bits of an array that does not wrap around.\<close>

lemma of_nat_inj_small:
  assumes "k < 4294967296" "l < 4294967296"
  shows "(i :: u32) + of_nat k = i + of_nat l \<longleftrightarrow> k = l"
proof -
  have "i + of_nat k = i + of_nat l \<longleftrightarrow> (of_nat k :: u32) = of_nat l" by simp
  also have "\<dots> \<longleftrightarrow> k = l"
    unfolding word_unat_eq_iff unat_of_nat using assms by simp
  finally show ?thesis .
qed

lemma copy_bits_ok:
  assumes "holds src j bs s" "mapped_bits dst i (length bs) s"
    "apart src j (length bs) dst i (length bs)" "length bs < 4294967296"
  shows "\<exists>s'. copy_bits (length bs) src j dst i s = Some s' \<and> holds dst i bs s' \<and>
    bits_frame dst i (length bs) s s'"
  using assms
proof (induction bs arbitrary: j i s)
  case Nil
  then show ?case by (simp add: holds_def bits_frame_refl)
next
  case (Cons b bs)
  have get: "get_bit src j s = Some b" using Cons.prems(1) by (auto simp: holds_def)
  have "get_bit dst i s \<noteq> None" using Cons.prems(2) by (auto simp: mapped_bits_def)
  then obtain s1 where put: "put_bit dst i b s = Some s1" using put_bit_defined by blast
  have ap: "bit_addr src (j + of_nat k) \<noteq> bit_addr dst (i + of_nat l)"
    if "k < Suc (length bs)" "l < Suc (length bs)" for k l
    using Cons.prems(3) that by (simp add: apart_def)
  have h1: "holds src (j + 1) bs s1"
    unfolding holds_def
  proof (intro allI impI)
    fix k assume k: "k < length bs"
    have "get_bit src (j + of_nat (Suc k)) s = Some ((b # bs) ! Suc k)"
      using Cons.prems(1) k unfolding holds_def by (metis Suc_less_eq length_Cons)
    moreover have "bit_addr src (j + of_nat (Suc k)) \<noteq> bit_addr dst i" using ap [of "Suc k" 0] k by simp
    ultimately show "get_bit src (j + 1 + of_nat k) s1 = Some (bs ! k)"
      using get_put_away [OF put] by (simp add: ac_simps)
  qed
  have m1: "mapped_bits dst (i + 1) (length bs) s1"
    unfolding mapped_bits_def
  proof (intro allI impI)
    fix k assume "k < length bs"
    then have "get_bit dst (i + of_nat (Suc k)) s \<noteq> None"
      using Cons.prems(2) unfolding mapped_bits_def by (metis Suc_less_eq length_Cons)
    then show "get_bit dst (i + 1 + of_nat k) s1 \<noteq> None"
      using put_bit_dom [OF put] by (simp add: ac_simps)
  qed
  have a1: "apart src (j + 1) (length bs) dst (i + 1) (length bs)"
    unfolding apart_def
  proof (intro allI impI)
    fix k l assume "k < length bs" "l < length bs"
    then show "bit_addr src (j + 1 + of_nat k) \<noteq> bit_addr dst (i + 1 + of_nat l)"
      using ap [of "Suc k" "Suc l"] by (simp add: ac_simps)
  qed
  have "length bs < 4294967296" using Cons.prems(4) by simp
  then obtain s2 where s2: "copy_bits (length bs) src (j + 1) dst (i + 1) s1 = Some s2"
    "holds dst (i + 1) bs s2" "bits_frame dst (i + 1) (length bs) s1 s2"
    using Cons.IH [OF h1 m1 a1] by blast
  have "i \<noteq> i + 1 + of_nat l" if "l < length bs" for l
    using that Cons.prems(4) of_nat_inj_small [of 0 "Suc l" i] by (simp add: ac_simps)
  then have "get_bit dst i s2 = get_bit dst i s1"
    using s2(3) unfolding bits_frame_def by blast
  then have "get_bit dst i s2 = Some b" using get_put_same [OF put] by simp
  then have "holds dst i (b # bs) s2"
    using s2(2) unfolding holds_def list.size add_0_right One_nat_def add_Suc_right
    by (simp add: All_less_Suc2 ac_simps)
  moreover have "copy_bits (length (b # bs)) src j dst i s = Some s2"
    using get put s2(1) by simp
  ultimately show ?case using bits_frame_step [OF put s2(3)] by auto
qed

section \<open>Concatenation\<close>

lemma holds_append:
  assumes "holds p i as s" "holds p (i + of_nat (length as)) bs s"
  shows "holds p i (as @ bs) s"
  unfolding holds_def
proof (intro allI impI)
  fix k assume k: "k < length (as @ bs)"
  show "get_bit p (i + of_nat k) s = Some ((as @ bs) ! k)"
  proof (cases "k < length as")
    case False
    define m where "m = k - length as"
    have "k = length as + m" "m < length bs" using False k by (simp_all add: m_def)
    then show ?thesis using assms(2) by (simp add: holds_def nth_append add.assoc)
  qed (use assms(1) in \<open>simp add: holds_def nth_append\<close>)
qed

lemma holds_frame:
  assumes "holds p j bs s" "bits_frame dst i n s s'" "apart p j (length bs) dst i n"
  shows "holds p j bs s'"
  using assms unfolding holds_def bits_frame_def apart_def by simp

lemma holds_frame_same:
  assumes "holds dst j bs s" "bits_frame dst i n s s'"
    "\<And>k l. k < length bs \<Longrightarrow> l < n \<Longrightarrow> j + of_nat k \<noteq> i + of_nat l"
  shows "holds dst j bs s'"
  using assms unfolding holds_def bits_frame_def by simp

lemma mapped_frame:
  "mapped_bits p j n s \<Longrightarrow> bits_frame dst i m s s' \<Longrightarrow> mapped_bits p j n s'"
  unfolding mapped_bits_def bits_frame_def by simp

lemma bits_frame_mem: "bits_frame dst i n s s' \<Longrightarrow> s' = s\<lparr>mem := mem s'\<rparr>"
  unfolding bits_frame_def by blast

lemma mem_chain:
  assumes "s1 = s\<lparr>mem := m1\<rparr>" "s2 = s1\<lparr>mem := m2\<rparr>"
  shows "s2 = s\<lparr>mem := mem s2\<rparr>"
  using assms by simp

text \<open>
  What concatenation needs: the three pieces stand where they should, the buffer is mapped and
  none of their bytes is one of the buffer's.
\<close>

definition scan_ready ::
  "u32 \<Rightarrow> u32 \<Rightarrow> bool list \<Rightarrow> u32 \<Rightarrow> u32 \<Rightarrow> bool list \<Rightarrow> u32 \<Rightarrow> bool list \<Rightarrow> jbi \<Rightarrow> bool" where
  "scan_ready buf p pre q start tgt r post s \<longleftrightarrow>
     (let n = length pre + length tgt + length post
      in holds p 0 pre s \<and> holds q start tgt s \<and> holds r 0 post s \<and> mapped_bits buf 0 n s \<and>
         apart p 0 (length pre) buf 0 n \<and> apart q start (length tgt) buf 0 n \<and>
         apart r 0 (length post) buf 0 n)"

lemma apart_sub:
  assumes "apart src j k dst 0 n" "a + m \<le> n"
  shows "apart src j k dst (of_nat a) m"
  unfolding apart_def
proof (intro allI impI)
  fix x y assume "x < k" "y < m"
  then have "bit_addr src (j + of_nat x) \<noteq> bit_addr dst (0 + of_nat (a + y))"
    using assms unfolding apart_def by (meson add_strict_left_mono less_le_trans)
  then show "bit_addr src (j + of_nat x) \<noteq> bit_addr dst (of_nat a + of_nat y)" by simp
qed

lemma mapped_sub:
  assumes "mapped_bits dst 0 n s" "a + m \<le> n"
  shows "mapped_bits dst (of_nat a) m s"
  unfolding mapped_bits_def
proof (intro allI impI)
  fix y assume "y < m"
  then have "get_bit dst (0 + of_nat (a + y)) s \<noteq> None"
    using assms unfolding mapped_bits_def by (meson add_strict_left_mono less_le_trans)
  then show "get_bit dst (of_nat a + of_nat y) s \<noteq> None" by simp
qed

lemma turns_of_nat:
  assumes "a + n < 4294967296"
  shows "turns (of_nat a) (of_nat a + of_nat n) = n"
proof -
  have "unat (of_nat a :: u32) = a" "unat (of_nat n :: u32) = n"
    "unat (of_nat a + of_nat n :: u32) = a + n"
    using assms by (simp_all add: unat_of_nat flip: of_nat_add)
  then show ?thesis by (auto simp: turns_def word_less_nat_alt)
qed

lemma concatenate_ok:
  assumes ready: "scan_ready buf p pre q start tgt r post s"
    and small: "length pre + length tgt + length post < 4294967296"
  shows "\<exists>s'. jbi_jtag_concatenate_data buf p (of_nat (length pre)) q start (of_nat (length tgt)) r
      (of_nat (length post)) s = Some s' \<and> holds buf 0 (pre @ tgt @ post) s' \<and>
    mapped_bits buf 0 (length (pre @ tgt @ post)) s' \<and> s' = s\<lparr>mem := mem s'\<rparr> \<and>
    (\<forall>q j. get_bit q j s' = None \<longleftrightarrow> get_bit q j s = None)"
proof -
  define n where "n = length pre + length tgt + length post"
  have rd: "holds p 0 pre s" "holds q start tgt s" "holds r 0 post s" "mapped_bits buf 0 n s"
    "apart p 0 (length pre) buf 0 n" "apart q start (length tgt) buf 0 n" "apart r 0 (length post) buf 0 n"
    using ready unfolding scan_ready_def Let_def n_def by blast+
  have le: "0 + length pre \<le> n" "length pre + length tgt \<le> n" by (simp_all add: n_def)
  have lt: "length pre < 4294967296" "length tgt < 4294967296" "length post < 4294967296"
    using small by linarith+
  have z: "of_nat 0 = (0 :: u32)" by simp
  obtain s1 where s1: "copy_bits (length pre) p 0 buf 0 s = Some s1" "holds buf 0 pre s1"
    "bits_frame buf 0 (length pre) s s1"
    using copy_bits_ok [OF rd(1) mapped_sub [OF rd(4) le(1), unfolded z]
        apart_sub [OF rd(5) le(1), unfolded z] lt(1)] by blast
  have q1: "holds q start tgt s1"
    by (rule holds_frame [OF rd(2) s1(3) apart_sub [OF rd(6) le(1), unfolded z]])
  have r1: "holds r 0 post s1"
    by (rule holds_frame [OF rd(3) s1(3) apart_sub [OF rd(7) le(1), unfolded z]])
  have m1: "mapped_bits buf 0 n s1" by (rule mapped_frame [OF rd(4) s1(3)])
  obtain s2 where s2: "copy_bits (length tgt) q start buf (of_nat (length pre)) s1 = Some s2"
    "holds buf (of_nat (length pre)) tgt s2" "bits_frame buf (of_nat (length pre)) (length tgt) s1 s2"
    using copy_bits_ok [OF q1 mapped_sub [OF m1 le(2)] apart_sub [OF rd(6) le(2)] lt(2)] by blast
  have b2: "holds buf 0 (pre @ tgt) s2"
  proof (rule holds_append)
    show "holds buf 0 pre s2"
    proof (rule holds_frame_same [OF s1(2) s2(3)])
      show "0 + of_nat k \<noteq> of_nat (length pre) + (of_nat l :: u32)" if "k < length pre" "l < length tgt" for k l
        using that small of_nat_inj_small [of k "length pre + l" 0] by simp
    qed
  qed (use s2(2) in simp)
  have r2: "holds r 0 post s2"
    by (rule holds_frame [OF r1 s2(3) apart_sub [OF rd(7) le(2)]])
  have m2: "mapped_bits buf 0 n s2" by (rule mapped_frame [OF m1 s2(3)])
  define i where "i = length pre + length tgt"
  have ip: "i + length post \<le> n" by (simp add: i_def n_def)
  obtain s3 where s3: "copy_bits (length post) r 0 buf (of_nat i) s2 = Some s3"
    "holds buf (of_nat i) post s3" "bits_frame buf (of_nat i) (length post) s2 s3"
    using copy_bits_ok [OF r2 mapped_sub [OF m2 ip] apart_sub [OF rd(7) ip] lt(3)] by blast
  have "holds buf 0 ((pre @ tgt) @ post) s3"
  proof (rule holds_append)
    show "holds buf 0 (pre @ tgt) s3"
    proof (rule holds_frame_same [OF b2 s3(3)])
      show "0 + of_nat k \<noteq> of_nat i + (of_nat l :: u32)"
        if "k < length (pre @ tgt)" "l < length post" for k l
        using that small of_nat_inj_small [of k "i + l" 0] by (simp add: i_def)
    qed
  qed (use s3(2) in \<open>simp add: i_def\<close>)
  moreover have "jbi_jtag_concatenate_data buf p (of_nat (length pre)) q start (of_nat (length tgt)) r
      (of_nat (length post)) s = Some s3"
  proof -
    have u: "unat (of_nat (length pre) :: u32) = length pre" using lt(1) by (simp add: unat_of_nat)
    have t1: "turns (of_nat (length pre)) (of_nat (length pre) + of_nat (length tgt)) = length tgt"
      by (rule turns_of_nat) (use small in simp)
    have t2: "turns (of_nat (length pre) + of_nat (length tgt))
        (of_nat (length pre) + of_nat (length tgt) + of_nat (length post)) = length post"
      using turns_of_nat [of i "length post"] small by (simp add: i_def)
    have i: "of_nat (length pre) + of_nat (length tgt) = (of_nat i :: u32)" by (simp add: i_def)
    show ?thesis
      unfolding jbi_jtag_concatenate_data_def Let_def u t1 t2 using s1(1) s2(1) s3(1)
      by (simp only: i bind.bind_lunit)
  qed
  moreover have "s3 = s\<lparr>mem := mem s3\<rparr>"
    by (rule mem_chain [OF mem_chain [OF bits_frame_mem [OF s1(3)] bits_frame_mem [OF s2(3)]]
          bits_frame_mem [OF s3(3)]])
  moreover have "mapped_bits buf 0 (length (pre @ tgt @ post)) s3"
    using mapped_frame [OF m2 s3(3)] by (simp add: n_def add.assoc)
  moreover have "\<forall>q j. get_bit q j s3 = None \<longleftrightarrow> get_bit q j s = None"
    using s1(3) s2(3) s3(3) unfolding bits_frame_def by simp
  ultimately show ?thesis by (intro exI [of _ s3]) simp
qed

section \<open>The shift loops\<close>

text \<open>The cycles that shift \<open>bs\<close>: TMS is high with the last bit.\<close>

fun scan_cycles :: "bool list \<Rightarrow> (bool \<times> bool) list" where
  "scan_cycles [] = []"
| "scan_cycles (b # bs) = (bs = [], b) # scan_cycles bs"

text \<open>The pin writes of one cycle, and the TDO bits read before the rising edge of each.\<close>

definition io_pins :: "bool \<Rightarrow> bool \<Rightarrow> (pin \<times> bool) list" where
  "io_pins m d = [(TCK_PIN, False), (TDI_PIN, d), (TMS_PIN, m), (TCK_PIN, True), (TCK_PIN, False)]"

fun tdo_bits :: "((pin \<times> bool) list \<Rightarrow> u32) \<Rightarrow> (pin \<times> bool) list \<Rightarrow> (bool \<times> bool) list \<Rightarrow> bool list" where
  "tdo_bits rd ps [] = []"
| "tdo_bits rd ps ((m, d) # cs) =
     (rd (ps @ [(TCK_PIN, False), (TDI_PIN, d), (TMS_PIN, m)]) \<noteq> 0) # tdo_bits rd (ps @ io_pins m d) cs"

lemma io_pins_step:
  "pins (snd (jbi_jtag_io rd m d r s)) = pins s @ io_pins m d"
  "fst (jbi_jtag_io rd m d True s) = rd (pins s @ [(TCK_PIN, False), (TDI_PIN, d), (TMS_PIN, m)])"
  by (simp_all add: jbi_jtag_io_def set_pin_def initialize_jtag_hardware_def io_pins_def Let_def)

lemma get_bit_mem: "mem s' = mem s \<Longrightarrow> get_bit p i s' = get_bit p i s"
  by (simp add: get_bit_def ld8_def)

lemma get_bit_io [simp]: "get_bit p i (snd (jbi_jtag_io rd m d r s)) = get_bit p i s"
  by (rule get_bit_mem) (rule same_but_pins_state(2) [OF jtag_io_frame])

lemma holds_Cons:
  "holds p i (b # bs) s \<longleftrightarrow> get_bit p i s = Some b \<and> holds p (i + 1) bs s"
  by (auto simp: holds_def All_less_Suc2 ac_simps)

lemma tdo_bits_length [simp]: "length (tdo_bits rd ps cs) = length cs"
  by (induction cs arbitrary: ps) auto

lemma scan_cycles_length [simp]: "length (scan_cycles bs) = length bs"
  by (induction bs) auto

lemma shift_plain:
  "holds tdi i bs s \<Longrightarrow> \<exists>s'. shift_loop rd tdi 0 (length bs) i s = Some s' \<and>
    cycles s' = cycles s @ scan_cycles bs \<and> same_but_pins s s'"
proof (induction bs arbitrary: i s)
  case (Cons b bs)
  define s1 where "s1 = snd (jbi_jtag_io rd (length bs = 0) b False s)"
  have "holds tdi (i + 1) bs s1"
    using Cons.prems unfolding holds_Cons by (simp add: holds_def s1_def)
  then obtain s' where s': "shift_loop rd tdi 0 (length bs) (i + 1) s1 = Some s'"
    "cycles s' = cycles s1 @ scan_cycles bs" "same_but_pins s1 s'"
    using Cons.IH by blast
  have c1: "cycles s1 = cycles s @ [(bs = [], b)]" and f1: "same_but_pins s s1"
    using jtag_io_cycle jtag_io_frame by (simp_all add: s1_def)
  have "shift_loop rd tdi 0 (length (b # bs)) i s = Some s'"
    using Cons.prems s'(1) unfolding holds_Cons s1_def by (simp add: split_beta)
  then show ?case using s' c1 same_but_pins_trans [OF f1] by auto
qed (simp add: same_but_pins_refl)

text \<open>What a capturing scan leaves alone: everything but the pins and the buffer's bytes.\<close>

definition rest :: "jbi \<Rightarrow> jbi" where
  "rest s = s\<lparr>mem := (\<lambda>a. None), pins := [], jtag_hardware_initialized := False\<rparr>"

lemma rest_io: "rest (snd (jbi_jtag_io rd m d r s)) = rest s"
  by (simp add: rest_def jbi_jtag_io_def set_pin_def initialize_jtag_hardware_def Let_def)

lemma rest_mem:
  assumes "s' = s\<lparr>mem := mem s'\<rparr>"
  shows "rest s' = rest s"
  using arg_cong [OF assms, of rest] by (simp add: rest_def)

lemma put_bit_pins:
  assumes "put_bit p i v s = Some s'"
  shows "pins s' = pins s"
  using assms by (auto simp: put_bit_def st8_def split: bind_splits if_splits)

definition cap_frame :: "u32 \<Rightarrow> u32 \<Rightarrow> nat \<Rightarrow> jbi \<Rightarrow> jbi \<Rightarrow> bool" where
  "cap_frame dst i n s s' \<longleftrightarrow>
     (\<forall>q j. (\<forall>l < n. bit_addr q j \<noteq> bit_addr dst (i + of_nat l)) \<longrightarrow> get_bit q j s' = get_bit q j s) \<and>
     (\<forall>j. (\<forall>l < n. j \<noteq> i + of_nat l) \<longrightarrow> get_bit dst j s' = get_bit dst j s) \<and>
     (\<forall>q j. get_bit q j s' = None \<longleftrightarrow> get_bit q j s = None) \<and>
     rest s' = rest s"

lemma cap_frame_step:
  assumes put: "put_bit dst i v s1 = Some s2" and io: "mem s1 = mem s" "rest s1 = rest s"
    and fr: "cap_frame dst (i + 1) n s2 s'"
  shows "cap_frame dst i (Suc n) s s'"
  unfolding cap_frame_def less_Suc_shift [of n "\<lambda>x. bit_addr q j \<noteq> bit_addr dst x" for q j]
    less_Suc_shift [of n "\<lambda>x. j \<noteq> x" for j]
proof (intro conjI allI impI; (elim conjE)?)
  have g: "get_bit q j s1 = get_bit q j s" for q j
    by (rule get_bit_mem) (rule io(1))
  show "get_bit q j s' = get_bit q j s"
    if "bit_addr q j \<noteq> bit_addr dst i" "\<forall>l<n. bit_addr q j \<noteq> bit_addr dst (i + 1 + of_nat l)" for q j
    using fr that get_put_away [OF put that(1)] g unfolding cap_frame_def by simp
  show "get_bit dst j s' = get_bit dst j s"
    if "j \<noteq> i" "\<forall>l<n. j \<noteq> i + 1 + of_nat l" for j
    using fr that get_put_other [OF put that(1)] g unfolding cap_frame_def by simp
  show "(get_bit q j s' = None) = (get_bit q j s = None)" for q j
    using fr put_bit_dom [OF put] g unfolding cap_frame_def by simp
  show "rest s' = rest s"
    using fr rest_mem [OF put_bit_mem(3) [OF put]] io(2) unfolding cap_frame_def by simp
qed

lemma shift_capture:
  "holds buf i bs s \<Longrightarrow> buf \<noteq> 0 \<Longrightarrow> length bs < 4294967296 \<Longrightarrow>
    \<exists>s'. shift_loop rd buf buf (length bs) i s = Some s' \<and>
    cycles s' = cycles s @ scan_cycles bs \<and>
    holds buf i (tdo_bits rd (pins s) (scan_cycles bs)) s' \<and> cap_frame buf i (length bs) s s'"
proof (induction bs arbitrary: i s)
  case Nil
  then show ?case by (simp add: holds_def cap_frame_def)
next
  case (Cons b bs)
  define s1 where "s1 = snd (jbi_jtag_io rd (length bs = 0) b True s)"
  define v where "v = (fst (jbi_jtag_io rd (length bs = 0) b True s) \<noteq> 0)"
  have m1: "mem s1 = mem s" unfolding s1_def by (rule same_but_pins_state(2) [OF jtag_io_frame])
  have get: "get_bit buf i s = Some b" using Cons.prems(1) unfolding holds_Cons by simp
  then have "get_bit buf i s1 \<noteq> None" using get_bit_mem [OF m1] by simp
  then obtain s2 where put: "put_bit buf i v s1 = Some s2" using put_bit_defined by blast
  have away: "i \<noteq> i + 1 + of_nat l" if "l < length bs" for l
    using that Cons.prems(3) of_nat_inj_small [of 0 "Suc l" i] by (simp add: ac_simps)
  have "holds buf (i + 1) bs s2"
    unfolding holds_def
  proof (intro allI impI)
    fix k assume k: "k < length bs"
    have "get_bit buf (i + 1 + of_nat k) s = Some (bs ! k)"
      using Cons.prems(1) k unfolding holds_Cons by (simp add: holds_def)
    then show "get_bit buf (i + 1 + of_nat k) s2 = Some (bs ! k)"
      using get_put_other [OF put] away [OF k] get_bit_mem [OF m1] by metis
  qed
  then obtain s' where s': "shift_loop rd buf buf (length bs) (i + 1) s2 = Some s'"
    "cycles s' = cycles s2 @ scan_cycles bs"
    "holds buf (i + 1) (tdo_bits rd (pins s2) (scan_cycles bs)) s'"
    "cap_frame buf (i + 1) (length bs) s2 s'"
    using Cons.IH [of "i + 1" s2] Cons.prems(2,3) by auto
  have p2: "pins s2 = pins s @ io_pins (bs = []) b"
    unfolding put_bit_pins [OF put] s1_def io_pins_step(1) by simp
  have "cycles s2 = cycles s1" by (simp add: cycles_def put_bit_pins [OF put])
  then have c2: "cycles s2 = cycles s @ [(bs = [], b)]"
    unfolding s1_def jtag_io_cycle by simp
  have v: "v = (rd (pins s @ [(TCK_PIN, False), (TDI_PIN, b), (TMS_PIN, bs = [])]) \<noteq> 0)"
    unfolding v_def io_pins_step(2) by simp
  have "get_bit buf i s' = get_bit buf i s2"
    using s'(4) away unfolding cap_frame_def by blast
  then have "get_bit buf i s' = Some v" using get_put_same [OF put] by simp
  then have "holds buf i (tdo_bits rd (pins s) (scan_cycles (b # bs))) s'"
    using s'(3) unfolding scan_cycles.simps tdo_bits.simps holds_Cons p2 v by simp
  moreover have "shift_loop rd buf buf (length (b # bs)) i s = Some s'"
    using get put s'(1) Cons.prems(2) by (simp add: split_beta s1_def v_def)
  moreover have "cap_frame buf i (length (b # bs)) s s'"
    using cap_frame_step [OF put m1 _ s'(4)] rest_io unfolding s1_def by simp
  moreover have "cycles s' = cycles s @ scan_cycles (b # bs)" using s'(2) c2 by simp
  ultimately show ?case by blast
qed

section \<open>Scanning a register\<close>

text \<open>
  The data and the instruction register are scanned the same way: an entry sequence of TMS
  values from the start state to the shift state, the bits, and the pause state.
\<close>

definition start_of :: "nat \<Rightarrow> jtag_state" where
  "start_of c = (if c = 0 then IDLE else if c = 1 then DRPAUSE else IRPAUSE)"

locale scan_register =
  fixes sh ex pause :: jtag_state and entry :: "nat \<Rightarrow> bool list"
  assumes stay: "tap_next sh False = sh" and leave: "tap_next sh True = ex"
    and halt: "tap_next ex False = pause" and ex_sh: "ex \<noteq> sh"
    and enter: "c < 3 \<Longrightarrow> tap_run (start_of c) (tms_seq (entry c)) = sh"
    and enter_quiet: "c < 3 \<Longrightarrow> shifted sh (start_of c) (tms_seq (entry c)) = []"
begin

lemma run_bits: "bs \<noteq> [] \<Longrightarrow> tap_run sh (scan_cycles bs) = ex"
proof (induction bs)
  case (Cons b bs)
  then show ?case by (cases "bs = []") (simp_all add: stay leave)
qed simp

lemma shifted_bits: "shifted sh sh (scan_cycles bs) = bs"
proof (induction bs)
  case (Cons b bs)
  then show ?case by (cases "bs = []") (simp_all add: stay)
qed simp

lemma scan_trace:
  assumes "c < 3" "bs \<noteq> []"
  shows "tap_run (start_of c) (tms_seq (entry c) @ scan_cycles bs @ [(False, False)]) = pause"
    "shifted sh (start_of c) (tms_seq (entry c) @ scan_cycles bs @ [(False, False)]) = bs"
  using assms
  by (simp_all add: tap_run_append shifted_append enter enter_quiet run_bits shifted_bits halt ex_sh)

end

definition dr_entry :: "nat \<Rightarrow> bool list" where
  "dr_entry c = (if c = 0 then [True, False, False] else [True, True, True, False, False])"

definition ir_entry :: "nat \<Rightarrow> bool list" where
  "ir_entry c = (if c = 0 then [True, True, False, False] else [True, True, True, True, False, False])"

interpretation dr: scan_register DRSHIFT DREXIT1 DRPAUSE dr_entry
  by unfold_locales (auto simp: dr_entry_def start_of_def tms_seq_def less_Suc_eq numeral_3_eq_3)

interpretation ir: scan_register IRSHIFT IREXIT1 IRPAUSE ir_entry
  by unfold_locales (auto simp: ir_entry_def start_of_def tms_seq_def less_Suc_eq numeral_3_eq_3)

lemma drscan_form:
  assumes "c < 3"
  shows "jbi_jtag_drscan rd c count tdi tdo s =
    do { s1 \<leftarrow> shift_loop rd tdi tdo (nat (sint count)) 0 (clock rd (tms_seq (dr_entry c)) s);
         Some (True, clock rd [(False, False)] s1) }"
  using assms by (auto simp: jbi_jtag_drscan_def dr_entry_def less_Suc_eq numeral_3_eq_3)

lemma irscan_form:
  assumes "c < 3"
  shows "jbi_jtag_irscan rd c count tdi tdo s =
    do { s1 \<leftarrow> shift_loop rd tdi tdo (nat (sint count)) 0 (clock rd (tms_seq (ir_entry c)) s);
         Some (True, clock rd [(False, False)] s1) }"
  using assms by (auto simp: jbi_jtag_irscan_def ir_entry_def less_Suc_eq numeral_3_eq_3)

lemma sint_of_nat_small:
  assumes "n < 2147483648"
  shows "nat (sint (of_nat n :: u32)) = n"
proof -
  have "sint (of_nat n :: u32) = signed_take_bit 31 (int n)"
    by (simp add: signed_of_nat)
  also have "\<dots> = int n" using assms by (simp add: signed_take_bit_int_eq_self)
  finally show ?thesis by simp
qed

lemma scan_ready_mem:
  assumes "mem s' = mem s"
  shows "scan_ready buf p pre q start tgt r post s' = scan_ready buf p pre q start tgt r post s"
  using get_bit_mem [OF assms] by (simp add: scan_ready_def holds_def mapped_bits_def Let_def)

lemma rest_clock: "rest (clock rd cs s) = rest s"
proof (induction cs arbitrary: s)
  case (Cons c cs)
  then show ?case by (cases c) (simp add: rest_io)
qed simp

lemma rest_fields:
  assumes "rest s' = rest s"
  shows "jbi_workspace s' = jbi_workspace s" "jbi_drstop_state s' = jbi_drstop_state s"
    "jbi_irstop_state s' = jbi_irstop_state s" "jbi_dr_preamble s' = jbi_dr_preamble s"
    "jbi_ir_preamble s' = jbi_ir_preamble s" "jbi_dr_buffer s' = jbi_dr_buffer s"
    "jbi_ir_buffer s' = jbi_ir_buffer s" "jbi_jtag_state s' = jbi_jtag_state s"
  using assms by (cases s; cases s'; simp add: rest_def)+

text \<open>The middle of a scan without capture, from the start state to the pause state.\<close>

context scan_register begin

lemma plain_middle:
  assumes tr: "tracks s0" and st: "jbi_jtag_state s0 = start_of c" and c: "c < 3"
    and ready: "scan_ready buf p pre q start tgt r post s0"
    and N: "pre @ tgt @ post \<noteq> []" "length (pre @ tgt @ post) < 2147483648"
  shows "\<exists>s1 s2 cs. jbi_jtag_concatenate_data buf p (of_nat (length pre)) q start (of_nat (length tgt)) r
        (of_nat (length post)) s0 = Some s1 \<and> rest s1 = rest s0 \<and>
      shift_loop rd buf 0 (length (pre @ tgt @ post)) 0 (clock rd (tms_seq (entry c)) s1) = Some s2 \<and>
      rest s2 = rest s0 \<and> cycles (clock rd [(False, False)] s2) = cycles s0 @ cs \<and>
      shifted sh (start_of c) cs = pre @ tgt @ post \<and> tap_run (start_of c) cs = pause \<and>
      tracks ((clock rd [(False, False)] s2)\<lparr>jbi_jtag_state := pause\<rparr>)"
proof -
  define bs where "bs = pre @ tgt @ post"
  obtain s1 where s1: "jbi_jtag_concatenate_data buf p (of_nat (length pre)) q start (of_nat (length tgt)) r
      (of_nat (length post)) s0 = Some s1" "holds buf 0 bs s1" "s1 = s0\<lparr>mem := mem s1\<rparr>"
    using concatenate_ok [OF ready] N(2) unfolding bs_def by auto
  define s1' where "s1' = clock rd (tms_seq (entry c)) s1"
  have pins1: "pins s1 = pins s0" using arg_cong [OF s1(3), of pins] by simp
  have "holds buf 0 bs s1'"
    using s1(2) get_bit_mem [OF same_but_pins_state(2) [OF clock_frame]] by (simp add: holds_def s1'_def)
  then obtain s2 where s2: "shift_loop rd buf 0 (length bs) 0 s1' = Some s2"
    "cycles s2 = cycles s1' @ scan_cycles bs" "same_but_pins s1' s2"
    using shift_plain by blast
  define cs where "cs = tms_seq (entry c) @ scan_cycles bs @ [(False, False)]"
  have cy: "cycles (clock rd [(False, False)] s2) = cycles s0 @ cs"
    unfolding clock_cycles s2(2) s1'_def cs_def by (simp add: cycles_def pins1)
  have r1: "rest s1 = rest s0" by (rule rest_mem [OF s1(3)])
  have r2: "rest s2 = rest s0"
    using s2(3) rest_clock [of rd "tms_seq (entry c)" s1] r1
    by (cases s2; cases s1') (simp add: same_but_pins_def rest_def s1'_def [symmetric])
  have bs: "bs \<noteq> []" using N(1) by (simp add: bs_def)
  have legal: "start_of c \<noteq> JBI_ILLEGAL_JTAG_STATE" by (simp add: start_of_def)
  have "tracks ((clock rd [(False, False)] s2)\<lparr>jbi_jtag_state := pause\<rparr>)"
  proof (rule tracks_extend [OF tr, of _ cs])
    show "jbi_jtag_state s0 \<noteq> JBI_ILLEGAL_JTAG_STATE" using st legal by simp
    show "cycles ((clock rd [(False, False)] s2)\<lparr>jbi_jtag_state := pause\<rparr>) = cycles s0 @ cs"
      using cy by simp
    show "jbi_jtag_state ((clock rd [(False, False)] s2)\<lparr>jbi_jtag_state := pause\<rparr>) =
        tap_run (jbi_jtag_state s0) cs"
      using scan_trace(1) [OF c bs] st by (simp add: cs_def)
  qed
  moreover have "shifted sh (start_of c) cs = bs" "tap_run (start_of c) cs = pause"
    unfolding cs_def by (rule scan_trace [OF c bs])+
  ultimately show ?thesis using s1(1) r1 s2(1) r2 cy unfolding bs_def s1'_def by blast
qed

end

text \<open>The middle of a capturing scan.\<close>

context scan_register begin

lemma capture_middle:
  assumes tr: "tracks s0" and st: "jbi_jtag_state s0 = start_of c" and c: "c < 3"
    and ready: "scan_ready buf p pre q start tgt r post s0" and buf: "buf \<noteq> 0"
    and N: "pre @ tgt @ post \<noteq> []" "length (pre @ tgt @ post) < 2147483648"
  shows "\<exists>s1 s2 cs ps. jbi_jtag_concatenate_data buf p (of_nat (length pre)) q start (of_nat (length tgt)) r
        (of_nat (length post)) s0 = Some s1 \<and> rest s1 = rest s0 \<and>
      shift_loop rd buf buf (length (pre @ tgt @ post)) 0 (clock rd (tms_seq (entry c)) s1) = Some s2 \<and>
      rest s2 = rest s0 \<and> cycles (clock rd [(False, False)] s2) = cycles s0 @ cs \<and>
      shifted sh (start_of c) cs = pre @ tgt @ post \<and> tap_run (start_of c) cs = pause \<and>
      tracks ((clock rd [(False, False)] s2)\<lparr>jbi_jtag_state := pause\<rparr>) \<and>
      tck_cycles ps = cycles s0 @ tms_seq (entry c) \<and>
      holds buf 0 (tdo_bits rd ps (scan_cycles (pre @ tgt @ post))) s2 \<and>
      (\<forall>q j. get_bit q j s2 = None \<longleftrightarrow> get_bit q j s0 = None)"
proof -
  define bs where "bs = pre @ tgt @ post"
  obtain s1 where s1: "jbi_jtag_concatenate_data buf p (of_nat (length pre)) q start (of_nat (length tgt)) r
      (of_nat (length post)) s0 = Some s1" "holds buf 0 bs s1" "s1 = s0\<lparr>mem := mem s1\<rparr>"
    "\<forall>q j. get_bit q j s1 = None \<longleftrightarrow> get_bit q j s0 = None"
    using concatenate_ok [OF ready] N(2) unfolding bs_def by auto
  define s1' where "s1' = clock rd (tms_seq (entry c)) s1"
  have pins1: "pins s1 = pins s0" using arg_cong [OF s1(3), of pins] by simp
  have g1: "get_bit q j s1' = get_bit q j s1" for q j
    unfolding s1'_def by (rule get_bit_mem) (rule same_but_pins_state(2) [OF clock_frame])
  have "holds buf 0 bs s1'" using s1(2) g1 by (simp add: holds_def)
  moreover have "length bs < 4294967296" using N(2) by (simp add: bs_def)
  ultimately obtain s2 where s2: "shift_loop rd buf buf (length bs) 0 s1' = Some s2"
    "cycles s2 = cycles s1' @ scan_cycles bs" "holds buf 0 (tdo_bits rd (pins s1') (scan_cycles bs)) s2"
    "cap_frame buf 0 (length bs) s1' s2"
    using shift_capture buf by blast
  define cs where "cs = tms_seq (entry c) @ scan_cycles bs @ [(False, False)]"
  have cy1: "cycles s1' = cycles s0 @ tms_seq (entry c)"
    unfolding s1'_def clock_cycles by (simp add: cycles_def pins1)
  have cy: "cycles (clock rd [(False, False)] s2) = cycles s0 @ cs"
    unfolding clock_cycles s2(2) cy1 cs_def by simp
  have r1: "rest s1 = rest s0" by (rule rest_mem [OF s1(3)])
  have r2: "rest s2 = rest s0"
    using s2(4) rest_clock [of rd "tms_seq (entry c)" s1] r1 by (simp add: cap_frame_def s1'_def)
  have bs: "bs \<noteq> []" using N(1) by (simp add: bs_def)
  have legal: "start_of c \<noteq> JBI_ILLEGAL_JTAG_STATE" by (simp add: start_of_def)
  have "tracks ((clock rd [(False, False)] s2)\<lparr>jbi_jtag_state := pause\<rparr>)"
  proof (rule tracks_extend [OF tr, of _ cs])
    show "jbi_jtag_state s0 \<noteq> JBI_ILLEGAL_JTAG_STATE" using st legal by simp
    show "cycles ((clock rd [(False, False)] s2)\<lparr>jbi_jtag_state := pause\<rparr>) = cycles s0 @ cs"
      using cy by simp
    show "jbi_jtag_state ((clock rd [(False, False)] s2)\<lparr>jbi_jtag_state := pause\<rparr>) =
        tap_run (jbi_jtag_state s0) cs"
      using scan_trace(1) [OF c bs] st by (simp add: cs_def)
  qed
  moreover have "shifted sh (start_of c) cs = bs" "tap_run (start_of c) cs = pause"
    unfolding cs_def by (rule scan_trace [OF c bs])+
  moreover have "tck_cycles (pins s1') = cycles s0 @ tms_seq (entry c)"
    using cy1 by (simp add: cycles_def)
  moreover have "\<forall>q j. get_bit q j s2 = None \<longleftrightarrow> get_bit q j s0 = None"
    using s2(4) s1(4) g1 unfolding cap_frame_def by simp
  ultimately show ?thesis using s1(1) r1 s2(1,3) r2 cy unfolding bs_def s1'_def by blast
qed

end

section \<open>The scan operations\<close>

lemma scan_start_start_of:
  assumes "a \<in> {RESET, IDLE, DRPAUSE, IRPAUSE}"
  shows "snd (scan_start a) = start_of (fst (scan_start a))" "fst (scan_start a) < 3"
  using assms by (auto simp: scan_start_def start_of_def)

lemma goto_start_ok:
  assumes tr: "tracks s" and a: "jbi_jtag_state s \<in> {RESET, IDLE, DRPAUSE, IRPAUSE}"
    and t: "t \<noteq> JBI_ILLEGAL_JTAG_STATE" and sh: "sh \<in> {DRSHIFT, IRSHIFT}"
  shows "\<exists>s' cs. goto_start rd t s = Some (JBIC_SUCCESS, s') \<and> tracks s' \<and> jbi_jtag_state s' = t \<and>
    base s' = base s \<and> cycles s' = cycles s @ cs \<and> shifted sh (jbi_jtag_state s) cs = [] \<and>
    tap_run (jbi_jtag_state s) cs = t"
proof (cases "jbi_jtag_state s = t")
  case True
  then show ?thesis using tr by (auto simp: goto_start_def)
next
  case False
  define a where "a = jbi_jtag_state s"
  have a: "a \<noteq> JBI_ILLEGAL_JTAG_STATE" using assms(2) by (auto simp: a_def)
  obtain s' where s': "jbi_goto_jtag_state rd (state_code t) s = Some (JBIC_SUCCESS, s')"
    "jbi_jtag_state s' = t" "cycles s' = cycles s @ tms_seq (goto_tms a t)"
    using goto_exact [OF a_def [symmetric] a t] by blast
  have "tracks s'"
    using goto_keeps_tracking [OF tr s'(1)] by blast
  moreover have "shifted sh a (tms_seq (goto_tms a t)) = []"
    using goto_quiet assms(2) t sh by (simp add: a_def)
  moreover have "goto_start rd t s = Some (JBIC_SUCCESS, s')"
    using False s'(1) by (simp add: goto_start_def)
  ultimately show ?thesis using s' base_goto [OF s'(1)] goto_tms_ok [OF a t]
    unfolding a_def [symmetric] by blast
qed

text \<open>The buffer already has room for the scan.\<close>

definition dr_has_room :: "nat \<Rightarrow> jbi \<Rightarrow> bool" where
  "dr_has_room n s \<longleftrightarrow> n \<le> unat (if jbi_workspace s \<noteq> 0 then JBIC_MAX_JTAG_DR_LENGTH else jbi_dr_length s)"

definition ir_has_room :: "nat \<Rightarrow> jbi \<Rightarrow> bool" where
  "ir_has_room n s \<longleftrightarrow> n \<le> unat (if jbi_workspace s \<noteq> 0 then JBIC_MAX_JTAG_IR_LENGTH else jbi_ir_length s)"

lemma has_room:
  assumes "n < 4294967296"
  shows "dr_has_room n s \<Longrightarrow> dr_room (of_nat n) s = Some (JBIC_SUCCESS, s)"
    "ir_has_room n s \<Longrightarrow> ir_room (of_nat n) s = Some (JBIC_SUCCESS, s)"
  using assms
  by (auto simp: dr_has_room_def ir_has_room_def dr_room_def ir_room_def scan_room_def
      word_less_nat_alt unat_of_nat Let_def split: if_splits)

text \<open>What a scan needs to stand in memory, for the data register.\<close>

definition dr_scan_ready :: "bool list \<Rightarrow> u32 \<Rightarrow> u32 \<Rightarrow> bool list \<Rightarrow> bool list \<Rightarrow> jbi \<Rightarrow> bool" where
  "dr_scan_ready pre tdi start tgt post s \<longleftrightarrow>
     jbi_dr_preamble s = of_nat (length pre) \<and> jbi_dr_postamble s = of_nat (length post) \<and>
     scan_ready (jbi_dr_buffer s) (jbi_dr_preamble_data s) pre tdi start tgt
       (jbi_dr_postamble_data s) post s \<and>
     pre @ tgt @ post \<noteq> [] \<and> length (pre @ tgt @ post) < 2147483648 \<and>
     dr_has_room (length (pre @ tgt @ post)) s"

definition ir_scan_ready :: "bool list \<Rightarrow> u32 \<Rightarrow> u32 \<Rightarrow> bool list \<Rightarrow> bool list \<Rightarrow> jbi \<Rightarrow> bool" where
  "ir_scan_ready pre tdi start tgt post s \<longleftrightarrow>
     jbi_ir_preamble s = of_nat (length pre) \<and> jbi_ir_postamble s = of_nat (length post) \<and>
     scan_ready (jbi_ir_buffer s) (jbi_ir_preamble_data s) pre tdi start tgt
       (jbi_ir_postamble_data s) post s \<and>
     pre @ tgt @ post \<noteq> [] \<and> length (pre @ tgt @ post) < 2147483648 \<and>
     ir_has_room (length (pre @ tgt @ post)) s"

lemma shift_count_nat:
  "of_nat (length pre) + of_nat (length tgt) + of_nat (length post) = (of_nat (length (pre @ tgt @ post)) :: u32)"
  by simp

lemma stop_state_ok:
  assumes tr: "tracks s" and p: "jbi_jtag_state s = p" "p \<in> {DRPAUSE, IRPAUSE}"
    and t: "t \<noteq> JBI_ILLEGAL_JTAG_STATE" and sh: "sh \<in> {DRSHIFT, IRSHIFT}"
  shows "\<exists>s' cs. (if state_code t \<noteq> state_code p then jbi_goto_jtag_state rd (state_code t) s
      else Some (JBIC_SUCCESS, s)) = Some (JBIC_SUCCESS, s') \<and>
    tracks s' \<and> jbi_jtag_state s' = t \<and> base s' = base s \<and> cycles s' = cycles s @ cs \<and>
    shifted sh p cs = []"
proof -
  have a: "jbi_jtag_state s \<in> {RESET, IDLE, DRPAUSE, IRPAUSE}" using p by auto
  have "(if state_code t \<noteq> state_code p then jbi_goto_jtag_state rd (state_code t) s
      else Some (JBIC_SUCCESS, s)) = goto_start rd t s"
    using p(1) by (auto simp: goto_start_def state_code_inj)
  then show ?thesis using goto_start_ok [OF tr a t sh, of rd] unfolding p(1) by metis
qed

lemma do_drscan_ok:
  assumes tr: "tracks s" and a: "jbi_jtag_state s \<in> {RESET, IDLE, DRPAUSE, IRPAUSE}"
    and stop: "jbi_drstop_state s = state_code t" and t: "t \<noteq> JBI_ILLEGAL_JTAG_STATE"
    and ready: "dr_scan_ready pre tdi start tgt post s"
  shows "\<exists>s' cs. jbi_do_drscan rd (of_nat (length tgt)) tdi start s = Some (JBIC_SUCCESS, s') \<and>
    cycles s' = cycles s @ cs \<and> shifted DRSHIFT (jbi_jtag_state s) cs = pre @ tgt @ post \<and>
    jbi_jtag_state s' = t \<and> tracks s'"
proof -
  define c where "c = fst (scan_start (jbi_jtag_state s))"
  define n where "n = length (pre @ tgt @ post)"
  have c: "snd (scan_start (jbi_jtag_state s)) = start_of c" "c < 3"
    using scan_start_start_of [OF a] by (simp_all add: c_def)
  have legal: "start_of c \<noteq> JBI_ILLEGAL_JTAG_STATE" by (simp add: start_of_def)
  obtain s0 cs0 where s0: "goto_start rd (start_of c) s = Some (JBIC_SUCCESS, s0)" "tracks s0"
    "jbi_jtag_state s0 = start_of c" "base s0 = base s" "cycles s0 = cycles s @ cs0"
    "shifted DRSHIFT (jbi_jtag_state s) cs0 = []" "tap_run (jbi_jtag_state s) cs0 = start_of c"
    using goto_start_ok [OF tr a legal, of DRSHIFT rd] by blast
  note f0 = base_fields [OF s0(4)]
  have rd0: "scan_ready (jbi_dr_buffer s0) (jbi_dr_preamble_data s0) pre tdi start tgt
      (jbi_dr_postamble_data s0) post s0" and nz: "pre @ tgt @ post \<noteq> []" and nb: "n < 2147483648"
    and room: "dr_has_room n s0" and pre: "jbi_dr_preamble s = of_nat (length pre)"
    and post: "jbi_dr_postamble s = of_nat (length post)"
    using ready unfolding dr_scan_ready_def dr_has_room_def n_def f0 scan_ready_mem [OF f0(1)]
    by blast+
  obtain s1 s2 cs where m: "jbi_jtag_concatenate_data (jbi_dr_buffer s0) (jbi_dr_preamble_data s0)
        (of_nat (length pre)) tdi start (of_nat (length tgt)) (jbi_dr_postamble_data s0)
        (of_nat (length post)) s0 = Some s1" "rest s1 = rest s0"
      "shift_loop rd (jbi_dr_buffer s0) 0 n 0 (clock rd (tms_seq (dr_entry c)) s1) = Some s2"
      "rest s2 = rest s0" "cycles (clock rd [(False, False)] s2) = cycles s0 @ cs"
      "shifted DRSHIFT (start_of c) cs = pre @ tgt @ post" "tap_run (start_of c) cs = DRPAUSE"
      "tracks ((clock rd [(False, False)] s2)\<lparr>jbi_jtag_state := DRPAUSE\<rparr>)"
    using dr.plain_middle [OF s0(2,3) c(2) rd0 nz nb [unfolded n_def], of rd] unfolding n_def by blast
  define s3 where "s3 = (clock rd [(False, False)] s2)\<lparr>jbi_jtag_state := DRPAUSE\<rparr>"
  have f3: "jbi_drstop_state s3 = state_code t"
    using rest_fields(2) [OF rest_clock, of rd "[(False, False)]" s2] rest_fields(2) [OF m(4)] f0(3) stop
    by (simp add: s3_def del: clock_Cons)
  have "tracks s3" using m(8) by (simp add: s3_def)
  then obtain s4 cs4 where s4: "(if state_code t \<noteq> state_code DRPAUSE then jbi_goto_jtag_state rd (state_code t) s3
      else Some (JBIC_SUCCESS, s3)) = Some (JBIC_SUCCESS, s4)" "tracks s4" "jbi_jtag_state s4 = t"
    "cycles s4 = cycles s3 @ cs4" "shifted DRSHIFT DRPAUSE cs4 = []"
    using stop_state_ok [of s3 DRPAUSE t DRSHIFT rd] t by (auto simp: s3_def)
  have buf1: "jbi_dr_buffer s1 = jbi_dr_buffer s0" by (rule rest_fields(6) [OF m(2)])
  have irscan: "jbi_jtag_drscan rd c (of_nat n) (jbi_dr_buffer s1) 0 s1 =
      Some (True, clock rd [(False, False)] s2)"
    unfolding drscan_form [OF c(2)] buf1 sint_of_nat_small [OF nb] m(3) by simp
  have sc: "scan_start (jbi_jtag_state s) = (c, start_of c)" using c(1) by (simp add: c_def prod_eq_iff)
  have big: "n < 4294967296" using nb by simp
  have "jbi_do_drscan rd (of_nat (length tgt)) tdi start s = Some (JBIC_SUCCESS, s4)"
    unfolding jbi_do_drscan_def sc Let_def prod.case s0(1) bind.bind_lunit pre post shift_count_nat
      n_def [symmetric] on_success_def fst_conv snd_conv simp_thms if_True has_room(1) [OF big room]
      f0(5,6) m(1) irscan s3_def [symmetric] f3 s4(1) ..
  moreover have "cycles s4 = cycles s @ (cs0 @ cs @ cs4)"
    using s4(4) m(5) s0(5) by (simp add: s3_def del: clock_Cons)
  moreover have "shifted DRSHIFT (jbi_jtag_state s) (cs0 @ cs @ cs4) = pre @ tgt @ post"
    unfolding shifted_append s0(6,7) m(6,7) s4(5) by simp
  ultimately show ?thesis using s4(2,3) by blast
qed

lemma do_irscan_ok:
  assumes tr: "tracks s" and a: "jbi_jtag_state s \<in> {RESET, IDLE, DRPAUSE, IRPAUSE}"
    and stop: "jbi_irstop_state s = state_code t" and t: "t \<noteq> JBI_ILLEGAL_JTAG_STATE"
    and ready: "ir_scan_ready pre tdi start tgt post s"
  shows "\<exists>s' cs. jbi_do_irscan rd (of_nat (length tgt)) tdi start s = Some (JBIC_SUCCESS, s') \<and>
    cycles s' = cycles s @ cs \<and> shifted IRSHIFT (jbi_jtag_state s) cs = pre @ tgt @ post \<and>
    jbi_jtag_state s' = t \<and> tracks s'"
proof -
  define c where "c = fst (scan_start (jbi_jtag_state s))"
  define n where "n = length (pre @ tgt @ post)"
  have c: "snd (scan_start (jbi_jtag_state s)) = start_of c" "c < 3"
    using scan_start_start_of [OF a] by (simp_all add: c_def)
  have legal: "start_of c \<noteq> JBI_ILLEGAL_JTAG_STATE" by (simp add: start_of_def)
  obtain s0 cs0 where s0: "goto_start rd (start_of c) s = Some (JBIC_SUCCESS, s0)" "tracks s0"
    "jbi_jtag_state s0 = start_of c" "base s0 = base s" "cycles s0 = cycles s @ cs0"
    "shifted IRSHIFT (jbi_jtag_state s) cs0 = []" "tap_run (jbi_jtag_state s) cs0 = start_of c"
    using goto_start_ok [OF tr a legal, of IRSHIFT rd] by blast
  note f0 = base_fields [OF s0(4)]
  have rd0: "scan_ready (jbi_ir_buffer s0) (jbi_ir_preamble_data s0) pre tdi start tgt
      (jbi_ir_postamble_data s0) post s0" and nz: "pre @ tgt @ post \<noteq> []" and nb: "n < 2147483648"
    and room: "ir_has_room n s0" and pre: "jbi_ir_preamble s = of_nat (length pre)"
    and post: "jbi_ir_postamble s = of_nat (length post)"
    using ready unfolding ir_scan_ready_def ir_has_room_def n_def f0 scan_ready_mem [OF f0(1)]
    by blast+
  obtain s1 s2 cs where m: "jbi_jtag_concatenate_data (jbi_ir_buffer s0) (jbi_ir_preamble_data s0)
        (of_nat (length pre)) tdi start (of_nat (length tgt)) (jbi_ir_postamble_data s0)
        (of_nat (length post)) s0 = Some s1" "rest s1 = rest s0"
      "shift_loop rd (jbi_ir_buffer s0) 0 n 0 (clock rd (tms_seq (ir_entry c)) s1) = Some s2"
      "rest s2 = rest s0" "cycles (clock rd [(False, False)] s2) = cycles s0 @ cs"
      "shifted IRSHIFT (start_of c) cs = pre @ tgt @ post" "tap_run (start_of c) cs = IRPAUSE"
      "tracks ((clock rd [(False, False)] s2)\<lparr>jbi_jtag_state := IRPAUSE\<rparr>)"
    using ir.plain_middle [OF s0(2,3) c(2) rd0 nz nb [unfolded n_def], of rd] unfolding n_def by blast
  define s3 where "s3 = (clock rd [(False, False)] s2)\<lparr>jbi_jtag_state := IRPAUSE\<rparr>"
  have f3: "jbi_irstop_state s3 = state_code t"
    using rest_fields(3) [OF rest_clock, of rd "[(False, False)]" s2] rest_fields(3) [OF m(4)] f0(4) stop
    by (simp add: s3_def del: clock_Cons)
  have "tracks s3" using m(8) by (simp add: s3_def)
  then obtain s4 cs4 where s4: "(if state_code t \<noteq> state_code IRPAUSE then jbi_goto_jtag_state rd (state_code t) s3
      else Some (JBIC_SUCCESS, s3)) = Some (JBIC_SUCCESS, s4)" "tracks s4" "jbi_jtag_state s4 = t"
    "cycles s4 = cycles s3 @ cs4" "shifted IRSHIFT IRPAUSE cs4 = []"
    using stop_state_ok [of s3 IRPAUSE t IRSHIFT rd] t by (auto simp: s3_def)
  have buf1: "jbi_ir_buffer s1 = jbi_ir_buffer s0" by (rule rest_fields(7) [OF m(2)])
  have irscan: "jbi_jtag_irscan rd c (of_nat n) (jbi_ir_buffer s1) 0 s1 =
      Some (True, clock rd [(False, False)] s2)"
    unfolding irscan_form [OF c(2)] buf1 sint_of_nat_small [OF nb] m(3) by simp
  have sc: "scan_start (jbi_jtag_state s) = (c, start_of c)" using c(1) by (simp add: c_def prod_eq_iff)
  have big: "n < 4294967296" using nb by simp
  have "jbi_do_irscan rd (of_nat (length tgt)) tdi start s = Some (JBIC_SUCCESS, s4)"
    unfolding jbi_do_irscan_def sc Let_def prod.case s0(1) bind.bind_lunit pre post shift_count_nat
      n_def [symmetric] on_success_def fst_conv snd_conv simp_thms if_True has_room(2) [OF big room]
      f0(7,8) m(1) irscan s3_def [symmetric] f3 s4(1) ..
  moreover have "cycles s4 = cycles s @ (cs0 @ cs @ cs4)"
    using s4(4) m(5) s0(5) by (simp add: s3_def del: clock_Cons)
  moreover have "shifted IRSHIFT (jbi_jtag_state s) (cs0 @ cs @ cs4) = pre @ tgt @ post"
    unfolding shifted_append s0(6,7) m(6,7) s4(5) by simp
  ultimately show ?thesis using s4(2,3) by blast
qed

lemma holds_slice:
  assumes "holds p 0 bs s" "a + n \<le> length bs"
  shows "holds p (of_nat a) (take n (drop a bs)) s"
  unfolding holds_def
proof (intro allI impI)
  fix k assume "k < length (take n (drop a bs))"
  then have k: "k < n" "a + k < length bs" using assms(2) by simp_all
  have "get_bit p (0 + of_nat (a + k)) s = Some (bs ! (a + k))"
    using assms(1) k(2) unfolding holds_def by blast
  then show "get_bit p (of_nat a + of_nat k) s = Some (take n (drop a bs) ! k)" using k by simp
qed

lemma swap_dr_ok:
  assumes tr: "tracks s" and a: "jbi_jtag_state s \<in> {RESET, IDLE, DRPAUSE, IRPAUSE}"
    and stop: "jbi_drstop_state s = state_code t" and t: "t \<noteq> JBI_ILLEGAL_JTAG_STATE"
    and ready: "dr_scan_ready pre tdi start tgt post s" and buf: "jbi_dr_buffer s \<noteq> 0"
    and out: "mapped_bits out oi (length tgt) s"
      "apart (jbi_dr_buffer s) (of_nat (length pre)) (length tgt) out oi (length tgt)"
      "unat oi + length tgt < 4294967296"
  shows "\<exists>s' cs cs1 ps. jbi_swap_dr rd (of_nat (length tgt)) tdi start out oi s = Some (JBIC_SUCCESS, s') \<and>
    cycles s' = cycles s @ cs \<and> shifted DRSHIFT (jbi_jtag_state s) cs = pre @ tgt @ post \<and>
    jbi_jtag_state s' = t \<and> tracks s' \<and>
    tck_cycles ps = cycles s @ cs1 \<and> tap_run (jbi_jtag_state s) cs1 = DRSHIFT \<and>
    holds out oi (take (length tgt) (drop (length pre) (tdo_bits rd ps (scan_cycles (pre @ tgt @ post))))) s'"
proof -
  define c where "c = fst (scan_start (jbi_jtag_state s))"
  define n where "n = length (pre @ tgt @ post)"
  have c: "snd (scan_start (jbi_jtag_state s)) = start_of c" "c < 3"
    using scan_start_start_of [OF a] by (simp_all add: c_def)
  have legal: "start_of c \<noteq> JBI_ILLEGAL_JTAG_STATE" by (simp add: start_of_def)
  obtain s0 cs0 where s0: "goto_start rd (start_of c) s = Some (JBIC_SUCCESS, s0)" "tracks s0"
    "jbi_jtag_state s0 = start_of c" "base s0 = base s" "cycles s0 = cycles s @ cs0"
    "shifted DRSHIFT (jbi_jtag_state s) cs0 = []" "tap_run (jbi_jtag_state s) cs0 = start_of c"
    using goto_start_ok [OF tr a legal, of DRSHIFT rd] by blast
  note f0 = base_fields [OF s0(4)]
  have rd0: "scan_ready (jbi_dr_buffer s0) (jbi_dr_preamble_data s0) pre tdi start tgt
      (jbi_dr_postamble_data s0) post s0" and nz: "pre @ tgt @ post \<noteq> []" and nb: "n < 2147483648"
    and room: "dr_has_room n s0" and pre: "jbi_dr_preamble s = of_nat (length pre)"
    and post: "jbi_dr_postamble s = of_nat (length post)"
    using ready unfolding dr_scan_ready_def dr_has_room_def n_def f0 scan_ready_mem [OF f0(1)]
    by blast+
  have buf0: "jbi_dr_buffer s0 \<noteq> 0" using buf by (simp add: f0)
  obtain s1 s2 cs ps where m: "jbi_jtag_concatenate_data (jbi_dr_buffer s0) (jbi_dr_preamble_data s0)
        (of_nat (length pre)) tdi start (of_nat (length tgt)) (jbi_dr_postamble_data s0)
        (of_nat (length post)) s0 = Some s1" "rest s1 = rest s0"
      "shift_loop rd (jbi_dr_buffer s0) (jbi_dr_buffer s0) n 0 (clock rd (tms_seq (dr_entry c)) s1) = Some s2"
      "rest s2 = rest s0" "cycles (clock rd [(False, False)] s2) = cycles s0 @ cs"
      "shifted DRSHIFT (start_of c) cs = pre @ tgt @ post" "tap_run (start_of c) cs = DRPAUSE"
      "tracks ((clock rd [(False, False)] s2)\<lparr>jbi_jtag_state := DRPAUSE\<rparr>)"
      "tck_cycles ps = cycles s0 @ tms_seq (dr_entry c)"
      "holds (jbi_dr_buffer s0) 0 (tdo_bits rd ps (scan_cycles (pre @ tgt @ post))) s2"
      "\<forall>q j. get_bit q j s2 = None \<longleftrightarrow> get_bit q j s0 = None"
    using dr.capture_middle [OF s0(2,3) c(2) rd0 buf0 nz nb [unfolded n_def], of rd] unfolding n_def by blast
  define cap where "cap = tdo_bits rd ps (scan_cycles (pre @ tgt @ post))"
  define s3 where "s3 = (clock rd [(False, False)] s2)\<lparr>jbi_jtag_state := DRPAUSE\<rparr>"
  have f3: "jbi_drstop_state s3 = state_code t"
    using rest_fields(2) [OF rest_clock, of rd "[(False, False)]" s2] rest_fields(2) [OF m(4)] f0(3) stop
    by (simp add: s3_def del: clock_Cons)
  have m3: "mem s3 = mem s2"
    using same_but_pins_state(2) [OF clock_frame, of rd "[(False, False)]" s2]
    by (simp add: s3_def del: clock_Cons)
  have b3: "jbi_dr_buffer s3 = jbi_dr_buffer s0" "jbi_dr_preamble s3 = jbi_dr_preamble s0"
    using rest_fields [OF rest_clock, of rd "[(False, False)]" s2] rest_fields [OF m(4)]
    by (simp_all add: s3_def del: clock_Cons)
  have "tracks s3" using m(8) by (simp add: s3_def)
  then obtain s4 cs4 where s4: "(if state_code t \<noteq> state_code DRPAUSE then jbi_goto_jtag_state rd (state_code t) s3
      else Some (JBIC_SUCCESS, s3)) = Some (JBIC_SUCCESS, s4)" "tracks s4" "jbi_jtag_state s4 = t"
    "base s4 = base s3" "cycles s4 = cycles s3 @ cs4" "shifted DRSHIFT DRPAUSE cs4 = []"
    using stop_state_ok [of s3 DRPAUSE t DRSHIFT rd] t by (auto simp: s3_def)
  have f4: "jbi_dr_buffer s4 = jbi_dr_buffer s" "jbi_dr_preamble s4 = of_nat (length pre)"
    using base_fields [OF s4(4)] b3 f0 pre by simp_all
  have g4: "get_bit q j s4 = get_bit q j s2" for q j
    by (rule get_bit_mem) (simp add: base_fields(1) [OF s4(4)] m3)
  have lc: "length pre + length tgt \<le> length cap" by (simp add: cap_def)
  have "holds (jbi_dr_buffer s0) (of_nat (length pre)) (take (length tgt) (drop (length pre) cap)) s2"
    by (rule holds_slice [OF m(10) [folded cap_def] lc])
  then have capb: "holds (jbi_dr_buffer s) (of_nat (length pre)) (take (length tgt) (drop (length pre) cap)) s4"
    unfolding holds_def g4 f0 .
  have lcap: "length (take (length tgt) (drop (length pre) cap)) = length tgt" by (simp add: cap_def)
  have "mapped_bits out oi (length tgt) s4"
    using out(1) m(11) g4 get_bit_mem [OF f0(1)] by (simp add: mapped_bits_def)
  then obtain s5 where s5: "copy_bits (length tgt) (jbi_dr_buffer s) (of_nat (length pre)) out oi s4 = Some s5"
    "holds out oi (take (length tgt) (drop (length pre) cap)) s5" "bits_frame out oi (length tgt) s4 s5"
    using copy_bits_ok [OF capb, of out oi] out(2,3) unfolding lcap by auto
  have s5': "s5 = s4\<lparr>mem := mem s5\<rparr>" by (rule bits_frame_mem [OF s5(3)])
  have p5: "pins s5 = pins s4" "jbi_jtag_state s5 = jbi_jtag_state s4"
    using arg_cong [OF s5', of pins] arg_cong [OF s5', of jbi_jtag_state] by simp_all
  have buf1: "jbi_dr_buffer s1 = jbi_dr_buffer s0" by (rule rest_fields(6) [OF m(2)])
  have drscan: "jbi_jtag_drscan rd c (of_nat n) (jbi_dr_buffer s1) (jbi_dr_buffer s1) s1 =
      Some (True, clock rd [(False, False)] s2)"
    unfolding drscan_form [OF c(2)] buf1 sint_of_nat_small [OF nb] m(3) by simp
  have sc: "scan_start (jbi_jtag_state s) = (c, start_of c)" using c(1) by (simp add: c_def prod_eq_iff)
  have big: "n < 4294967296" using nb by simp
  have turn: "turns oi (oi + of_nat (length tgt)) = length tgt"
    using turns_of_nat [of "unat oi" "length tgt"] out(3) by simp
  have ext: "jbi_jtag_extract_target_data (jbi_dr_buffer s4) out oi (jbi_dr_preamble s4) (of_nat (length tgt)) s4
      = Some s5"
    unfolding jbi_jtag_extract_target_data_def turn f4 s5(1) ..
  have "jbi_swap_dr rd (of_nat (length tgt)) tdi start out oi s = Some (JBIC_SUCCESS, s5)"
    unfolding jbi_swap_dr_def sc Let_def prod.case s0(1) bind.bind_lunit pre post shift_count_nat
      n_def [symmetric] on_success_def fst_conv snd_conv simp_thms if_True has_room(1) [OF big room]
      f0(5,6) m(1) drscan s3_def [symmetric] f3 s4(1) ext ..
  moreover have "cycles s5 = cycles s @ (cs0 @ cs @ cs4)"
    using s4(5) m(5) s0(5) p5(1) by (simp add: s3_def cycles_def del: clock_Cons)
  moreover have "shifted DRSHIFT (jbi_jtag_state s) (cs0 @ cs @ cs4) = pre @ tgt @ post"
    unfolding shifted_append s0(6,7) m(6,7) s4(6) by simp
  moreover have "jbi_jtag_state s5 = t" "tracks s5"
    using s4(2,3) p5 by (simp_all add: tracks_cycles cycles_def)
  moreover have "tck_cycles ps = cycles s @ (cs0 @ tms_seq (dr_entry c))"
    using m(9) s0(5) by simp
  moreover have "tap_run (jbi_jtag_state s) (cs0 @ tms_seq (dr_entry c)) = DRSHIFT"
    unfolding tap_run_append s0(7) by (rule dr.enter [OF c(2)])
  ultimately show ?thesis using s5(2) unfolding cap_def by blast
qed

lemma swap_ir_ok:
  assumes tr: "tracks s" and a: "jbi_jtag_state s \<in> {RESET, IDLE, DRPAUSE, IRPAUSE}"
    and stop: "jbi_irstop_state s = state_code t" and t: "t \<noteq> JBI_ILLEGAL_JTAG_STATE"
    and ready: "ir_scan_ready pre tdi start tgt post s" and buf: "jbi_ir_buffer s \<noteq> 0"
    and out: "mapped_bits out oi (length tgt) s"
      "apart (jbi_ir_buffer s) (of_nat (length pre)) (length tgt) out oi (length tgt)"
      "unat oi + length tgt < 4294967296"
  shows "\<exists>s' cs cs1 ps. jbi_swap_ir rd (of_nat (length tgt)) tdi start out oi s = Some (JBIC_SUCCESS, s') \<and>
    cycles s' = cycles s @ cs \<and> shifted IRSHIFT (jbi_jtag_state s) cs = pre @ tgt @ post \<and>
    jbi_jtag_state s' = t \<and> tracks s' \<and>
    tck_cycles ps = cycles s @ cs1 \<and> tap_run (jbi_jtag_state s) cs1 = IRSHIFT \<and>
    holds out oi (take (length tgt) (drop (length pre) (tdo_bits rd ps (scan_cycles (pre @ tgt @ post))))) s'"
proof -
  define c where "c = fst (scan_start (jbi_jtag_state s))"
  define n where "n = length (pre @ tgt @ post)"
  have c: "snd (scan_start (jbi_jtag_state s)) = start_of c" "c < 3"
    using scan_start_start_of [OF a] by (simp_all add: c_def)
  have legal: "start_of c \<noteq> JBI_ILLEGAL_JTAG_STATE" by (simp add: start_of_def)
  obtain s0 cs0 where s0: "goto_start rd (start_of c) s = Some (JBIC_SUCCESS, s0)" "tracks s0"
    "jbi_jtag_state s0 = start_of c" "base s0 = base s" "cycles s0 = cycles s @ cs0"
    "shifted IRSHIFT (jbi_jtag_state s) cs0 = []" "tap_run (jbi_jtag_state s) cs0 = start_of c"
    using goto_start_ok [OF tr a legal, of IRSHIFT rd] by blast
  note f0 = base_fields [OF s0(4)]
  have rd0: "scan_ready (jbi_ir_buffer s0) (jbi_ir_preamble_data s0) pre tdi start tgt
      (jbi_ir_postamble_data s0) post s0" and nz: "pre @ tgt @ post \<noteq> []" and nb: "n < 2147483648"
    and room: "ir_has_room n s0" and pre: "jbi_ir_preamble s = of_nat (length pre)"
    and post: "jbi_ir_postamble s = of_nat (length post)"
    using ready unfolding ir_scan_ready_def ir_has_room_def n_def f0 scan_ready_mem [OF f0(1)]
    by blast+
  have buf0: "jbi_ir_buffer s0 \<noteq> 0" using buf by (simp add: f0)
  obtain s1 s2 cs ps where m: "jbi_jtag_concatenate_data (jbi_ir_buffer s0) (jbi_ir_preamble_data s0)
        (of_nat (length pre)) tdi start (of_nat (length tgt)) (jbi_ir_postamble_data s0)
        (of_nat (length post)) s0 = Some s1" "rest s1 = rest s0"
      "shift_loop rd (jbi_ir_buffer s0) (jbi_ir_buffer s0) n 0 (clock rd (tms_seq (ir_entry c)) s1) = Some s2"
      "rest s2 = rest s0" "cycles (clock rd [(False, False)] s2) = cycles s0 @ cs"
      "shifted IRSHIFT (start_of c) cs = pre @ tgt @ post" "tap_run (start_of c) cs = IRPAUSE"
      "tracks ((clock rd [(False, False)] s2)\<lparr>jbi_jtag_state := IRPAUSE\<rparr>)"
      "tck_cycles ps = cycles s0 @ tms_seq (ir_entry c)"
      "holds (jbi_ir_buffer s0) 0 (tdo_bits rd ps (scan_cycles (pre @ tgt @ post))) s2"
      "\<forall>q j. get_bit q j s2 = None \<longleftrightarrow> get_bit q j s0 = None"
    using ir.capture_middle [OF s0(2,3) c(2) rd0 buf0 nz nb [unfolded n_def], of rd] unfolding n_def by blast
  define cap where "cap = tdo_bits rd ps (scan_cycles (pre @ tgt @ post))"
  define s3 where "s3 = (clock rd [(False, False)] s2)\<lparr>jbi_jtag_state := IRPAUSE\<rparr>"
  have f3: "jbi_irstop_state s3 = state_code t"
    using rest_fields(3) [OF rest_clock, of rd "[(False, False)]" s2] rest_fields(3) [OF m(4)] f0(4) stop
    by (simp add: s3_def del: clock_Cons)
  have m3: "mem s3 = mem s2"
    using same_but_pins_state(2) [OF clock_frame, of rd "[(False, False)]" s2]
    by (simp add: s3_def del: clock_Cons)
  have b3: "jbi_ir_buffer s3 = jbi_ir_buffer s0" "jbi_ir_preamble s3 = jbi_ir_preamble s0"
    using rest_fields [OF rest_clock, of rd "[(False, False)]" s2] rest_fields [OF m(4)]
    by (simp_all add: s3_def del: clock_Cons)
  have "tracks s3" using m(8) by (simp add: s3_def)
  then obtain s4 cs4 where s4: "(if state_code t \<noteq> state_code IRPAUSE then jbi_goto_jtag_state rd (state_code t) s3
      else Some (JBIC_SUCCESS, s3)) = Some (JBIC_SUCCESS, s4)" "tracks s4" "jbi_jtag_state s4 = t"
    "base s4 = base s3" "cycles s4 = cycles s3 @ cs4" "shifted IRSHIFT IRPAUSE cs4 = []"
    using stop_state_ok [of s3 IRPAUSE t IRSHIFT rd] t by (auto simp: s3_def)
  have f4: "jbi_ir_buffer s4 = jbi_ir_buffer s" "jbi_ir_preamble s4 = of_nat (length pre)"
    using base_fields [OF s4(4)] b3 f0 pre by simp_all
  have g4: "get_bit q j s4 = get_bit q j s2" for q j
    by (rule get_bit_mem) (simp add: base_fields(1) [OF s4(4)] m3)
  have lc: "length pre + length tgt \<le> length cap" by (simp add: cap_def)
  have "holds (jbi_ir_buffer s0) (of_nat (length pre)) (take (length tgt) (drop (length pre) cap)) s2"
    by (rule holds_slice [OF m(10) [folded cap_def] lc])
  then have capb: "holds (jbi_ir_buffer s) (of_nat (length pre)) (take (length tgt) (drop (length pre) cap)) s4"
    unfolding holds_def g4 f0 .
  have lcap: "length (take (length tgt) (drop (length pre) cap)) = length tgt" by (simp add: cap_def)
  have "mapped_bits out oi (length tgt) s4"
    using out(1) m(11) g4 get_bit_mem [OF f0(1)] by (simp add: mapped_bits_def)
  then obtain s5 where s5: "copy_bits (length tgt) (jbi_ir_buffer s) (of_nat (length pre)) out oi s4 = Some s5"
    "holds out oi (take (length tgt) (drop (length pre) cap)) s5" "bits_frame out oi (length tgt) s4 s5"
    using copy_bits_ok [OF capb, of out oi] out(2,3) unfolding lcap by auto
  have s5': "s5 = s4\<lparr>mem := mem s5\<rparr>" by (rule bits_frame_mem [OF s5(3)])
  have p5: "pins s5 = pins s4" "jbi_jtag_state s5 = jbi_jtag_state s4"
    using arg_cong [OF s5', of pins] arg_cong [OF s5', of jbi_jtag_state] by simp_all
  have buf1: "jbi_ir_buffer s1 = jbi_ir_buffer s0" by (rule rest_fields(7) [OF m(2)])
  have irscan: "jbi_jtag_irscan rd c (of_nat n) (jbi_ir_buffer s1) (jbi_ir_buffer s1) s1 =
      Some (True, clock rd [(False, False)] s2)"
    unfolding irscan_form [OF c(2)] buf1 sint_of_nat_small [OF nb] m(3) by simp
  have sc: "scan_start (jbi_jtag_state s) = (c, start_of c)" using c(1) by (simp add: c_def prod_eq_iff)
  have big: "n < 4294967296" using nb by simp
  have turn: "turns oi (oi + of_nat (length tgt)) = length tgt"
    using turns_of_nat [of "unat oi" "length tgt"] out(3) by simp
  have ext: "jbi_jtag_extract_target_data (jbi_ir_buffer s4) out oi (jbi_ir_preamble s4) (of_nat (length tgt)) s4
      = Some s5"
    unfolding jbi_jtag_extract_target_data_def turn f4 s5(1) ..
  have "jbi_swap_ir rd (of_nat (length tgt)) tdi start out oi s = Some (JBIC_SUCCESS, s5)"
    unfolding jbi_swap_ir_def sc Let_def prod.case s0(1) bind.bind_lunit pre post shift_count_nat
      n_def [symmetric] on_success_def fst_conv snd_conv simp_thms if_True has_room(2) [OF big room]
      f0(7,8) m(1) irscan s3_def [symmetric] f3 s4(1) ext ..
  moreover have "cycles s5 = cycles s @ (cs0 @ cs @ cs4)"
    using s4(5) m(5) s0(5) p5(1) by (simp add: s3_def cycles_def del: clock_Cons)
  moreover have "shifted IRSHIFT (jbi_jtag_state s) (cs0 @ cs @ cs4) = pre @ tgt @ post"
    unfolding shifted_append s0(6,7) m(6,7) s4(6) by simp
  moreover have "jbi_jtag_state s5 = t" "tracks s5"
    using s4(2,3) p5 by (simp_all add: tracks_cycles cycles_def)
  moreover have "tck_cycles ps = cycles s @ (cs0 @ tms_seq (ir_entry c))"
    using m(9) s0(5) by simp
  moreover have "tap_run (jbi_jtag_state s) (cs0 @ tms_seq (ir_entry c)) = IRSHIFT"
    unfolding tap_run_append s0(7) by (rule ir.enter [OF c(2)])
  ultimately show ?thesis using s5(2) unfolding cap_def by blast
qed

end
