(* ===== verification/JbiComp.thy ===== *)
theory JbiComp imports JbiScanProofs begin

text \<open>
  Decompression of Boolean array data (jbicomp.c): a stream of literal blocks of three bytes and
  of matches (offset, length) into the bytes already written. The input is read bit by bit, low
  bit first, through the globals \<open>jbi_in_index\<close> and \<open>jbi_bits_avail\<close>.
\<close>

unbundle bit_operations_syntax

definition SHORT_BITS :: u32 where "SHORT_BITS = 16"
definition CHAR_BITS :: u32 where "CHAR_BITS = 8"
definition DATA_BLOB_LENGTH :: nat where "DATA_BLOB_LENGTH = 3"
definition MATCH_DATA_LENGTH :: u32 where "MATCH_DATA_LENGTH = 8192"

section \<open>The functions\<close>

text \<open>The search for the highest set bit; it does not end when the low 16 bits are all zero.\<close>

partial_function (option) bits_required_loop :: "u32 \<Rightarrow> u32 \<Rightarrow> u32 option" where
  "bits_required_loop n result =
     (if n AND push_bit 15 1 = 0 then bits_required_loop (push_bit 1 n) (result - 1) else Some result)"

definition jbi_bits_required :: "u32 \<Rightarrow> u32 option" where
  "jbi_bits_required n = (if n = 0 then Some 1 else bits_required_loop n SHORT_BITS)"

text \<open>A right or left shift by an unsigned amount, undefined from 32 on.\<close>

definition shr32 :: "u32 \<Rightarrow> u32 \<Rightarrow> u32 option" where
  "shr32 v n = (if n < 32 then Some (drop_bit (unat n) v) else None)"

definition shl32 :: "u32 \<Rightarrow> u32 \<Rightarrow> u32 option" where
  "shl32 v n = (if n < 32 then Some (push_bit (unat n) v) else None)"

partial_function (option) read_packed_loop ::
  "u32 \<Rightarrow> u32 \<Rightarrow> u32 \<Rightarrow> u32 \<Rightarrow> jbi \<Rightarrow> (u32 \<times> jbi) option" where
  "read_packed_loop buffer bits result shift s =
     (if bits = 0 then Some (result, s)
      else do { b \<leftarrow> ld8 (buffer + jbi_in_index s) s;
                hi \<leftarrow> shr32 (ucast b) (CHAR_BITS - jbi_bits_avail s);
                m \<leftarrow> shr32 0xFF (CHAR_BITS - jbi_bits_avail s);
                part \<leftarrow> shl32 (hi AND m) shift;
                if bits \<le> jbi_bits_avail s
                then do { msk \<leftarrow> shr32 0xFFFF (SHORT_BITS - (bits + shift));
                          read_packed_loop buffer 0 ((result OR part) AND msk) shift
                            (s\<lparr>jbi_bits_avail := jbi_bits_avail s - bits\<rparr>) }
                else read_packed_loop buffer (bits - jbi_bits_avail s) (result OR part)
                       (shift + jbi_bits_avail s)
                       (s\<lparr>jbi_in_index := jbi_in_index s + 1, jbi_bits_avail := CHAR_BITS\<rparr>) })"

definition jbi_read_packed :: "u32 \<Rightarrow> u32 \<Rightarrow> jbi \<Rightarrow> (u32 \<times> jbi) option" where
  "jbi_read_packed buffer bits s = read_packed_loop buffer bits 0 0 s"

text \<open>Clearing the output, the 32-bit data length, literal blocks and matches.\<close>

fun clear_loop :: "u32 \<Rightarrow> nat \<Rightarrow> u32 \<Rightarrow> jbi \<Rightarrow> jbi option" where
  "clear_loop out 0 i s = Some s"
| "clear_loop out (Suc n) i s = do { s1 \<leftarrow> st8 (out + i) 0 s; clear_loop out n (i + 1) s1 }"

fun length_loop :: "u32 \<Rightarrow> nat \<Rightarrow> u32 \<Rightarrow> u32 \<Rightarrow> jbi \<Rightarrow> (u32 \<times> jbi) option" where
  "length_loop inp 0 i data_length s = Some (data_length, s)"
| "length_loop inp (Suc n) i data_length s =
     do { (v, s1) \<leftarrow> jbi_read_packed inp CHAR_BITS s;
          p \<leftarrow> shl32 v (i * CHAR_BITS);
          length_loop inp n (i + 1) (data_length OR p) s1 }"

fun literal_loop :: "u32 \<Rightarrow> u32 \<Rightarrow> u32 \<Rightarrow> nat \<Rightarrow> u32 \<Rightarrow> jbi \<Rightarrow> (u32 \<times> jbi) option" where
  "literal_loop inp out data_length 0 i s = Some (i, s)"
| "literal_loop inp out data_length (Suc n) i s =
     (if i < data_length
      then do { (v, s1) \<leftarrow> jbi_read_packed inp CHAR_BITS s;
                s2 \<leftarrow> st8 (out + i) (ucast v) s1;
                literal_loop inp out data_length n (i + 1) s2 }
      else literal_loop inp out data_length n i s)"

fun match_loop :: "u32 \<Rightarrow> u32 \<Rightarrow> u32 \<Rightarrow> nat \<Rightarrow> u32 \<Rightarrow> jbi \<Rightarrow> (u32 \<times> jbi) option" where
  "match_loop out data_length offset 0 i s = Some (i, s)"
| "match_loop out data_length offset (Suc n) i s =
     (if i < data_length
      then do { b \<leftarrow> ld8 (out + (i - offset)) s;
                s1 \<leftarrow> st8 (out + i) b s;
                match_loop out data_length offset n (i + 1) s1 }
      else match_loop out data_length offset n i s)"

text \<open>The argument of \<open>jbi_bits_required\<close> goes through a \<open>(short)\<close> cast.\<close>

definition offset_bits :: "u32 \<Rightarrow> u32 \<Rightarrow> u32 option" where
  "offset_bits match_data_length i =
     jbi_bits_required (scast (ucast (if match_data_length < i then match_data_length else i) :: u16))"

partial_function (option) uncompress_loop ::
  "u32 \<Rightarrow> u32 \<Rightarrow> u32 \<Rightarrow> u32 \<Rightarrow> u32 \<Rightarrow> jbi \<Rightarrow> jbi option" where
  "uncompress_loop inp out match_data_length data_length i s =
     (if i < data_length
      then do { (flag, s1) \<leftarrow> jbi_read_packed inp 1 s;
                (i2, s2) \<leftarrow> (if flag = 0
                  then literal_loop inp out data_length DATA_BLOB_LENGTH i s1
                  else do { n \<leftarrow> offset_bits match_data_length i;
                            (offset, s3) \<leftarrow> jbi_read_packed inp n s1;
                            (len, s4) \<leftarrow> jbi_read_packed inp CHAR_BITS s3;
                            match_loop out data_length offset (unat len) i s4 });
                uncompress_loop inp out match_data_length data_length i2 s2 }
      else Some s)"

definition jbi_uncompress ::
  "u32 \<Rightarrow> u32 \<Rightarrow> u32 \<Rightarrow> u32 \<Rightarrow> bool \<Rightarrow> jbi \<Rightarrow> (u32 \<times> jbi) option" where
  "jbi_uncompress inp in_length out out_length version s =
     (let match_data_length = (if version then MATCH_DATA_LENGTH - 1 else MATCH_DATA_LENGTH);
          s1 = s\<lparr>jbi_in_length := in_length, jbi_bits_avail := CHAR_BITS, jbi_in_index := 0\<rparr>
      in do { s2 \<leftarrow> clear_loop out (unat out_length) 0 s1;
              (data_length, s3) \<leftarrow> length_loop inp 4 0 0 s2;
              if data_length > out_length then Some (0, s3)
              else do { s4 \<leftarrow> uncompress_loop inp out match_data_length data_length 0 s3;
                        Some (data_length, s4) } })"

section \<open>The number of bits of an offset\<close>

lemma bit_unat32: "k < 32 \<Longrightarrow> bit n k \<longleftrightarrow> odd (unat n div 2 ^ k)" for n :: u32
  by (simp add: bit_unsigned_iff flip: bit_iff_odd)

text \<open>\<open>L\<close> is the length of \<open>n\<close> in binary.\<close>

lemma bits_required_loop_ok:
  assumes "2 ^ (L - 1) \<le> unat n" "unat n < 2 ^ L" "0 < L" "L \<le> 16"
  shows "bits_required_loop n r = Some (r - of_nat (16 - L))"
  using assms
proof (induction "16 - L" arbitrary: n r L)
  case 0
  then have L: "L = 16" by simp
  then have "32768 \<le> unat n" "unat n < 65536" using 0 by simp_all
  then have "unat n div 2 ^ 15 = 1" by simp
  then have "bit n 15" by (simp add: bit_unat32)
  then have "n AND push_bit 15 1 \<noteq> 0" unfolding bit_iff_and_push_bit_not_eq_0 .
  then show ?case unfolding L by (subst bits_required_loop.simps) simp
next
  case (Suc d)
  then have L: "L < 16" by simp
  have "unat n < 2 ^ 15"
    using Suc.prems(2) L power_increasing [of L 15 "2 :: nat"] by simp
  then have lt: "unat n < 32768" by simp
  then have "\<not> bit n 15" by (simp add: bit_unat32)
  then have nb: "n AND push_bit 15 1 = 0" unfolding bit_iff_and_push_bit_not_eq_0 by simp
  have u: "unat (push_bit 1 n) = 2 * unat n"
    using lt by (simp add: push_bit_eq_mult unat_word_ariths)
  have "bits_required_loop (push_bit 1 n) (r - 1) = Some (r - 1 - of_nat (16 - Suc L))"
  proof (rule Suc.hyps(1))
    show "d = 16 - Suc L" using Suc.hyps(2) by simp
    show "2 ^ (Suc L - 1) \<le> unat (push_bit 1 n)" unfolding u
      using Suc.prems(1,3) by (cases L) simp_all
    show "unat (push_bit 1 n) < 2 ^ Suc L" unfolding u using Suc.prems(2) by simp
  qed (use L in simp_all)
  moreover have "16 - L = Suc (16 - Suc L)" using L by simp
  ultimately show ?case using nb by (subst bits_required_loop.simps) (simp add: algebra_simps)
qed

text \<open>The number of binary digits of a number (1 for 0), the specification of the function.\<close>

fun blen :: "nat \<Rightarrow> nat" where
  "blen n = (if n < 2 then 1 else Suc (blen (n div 2)))"

declare blen.simps [simp del]

lemma blen_pos: "0 < blen n"
  by (subst blen.simps) simp

lemma blen_bounds: "0 < n \<Longrightarrow> 2 ^ (blen n - 1) \<le> n \<and> n < 2 ^ blen n"
proof (induction n rule: blen.induct)
  case (1 n)
  show ?case
  proof (cases "n < 2")
    case True
    then show ?thesis using 1 by (subst (1 2) blen.simps) simp
  next
    case False
    then have "2 ^ (blen (n div 2) - 1) \<le> n div 2" "n div 2 < 2 ^ blen (n div 2)"
      using 1 by simp_all
    moreover have "blen n = Suc (blen (n div 2))" using False by (subst blen.simps) simp
    moreover obtain m where "blen (n div 2) = Suc m" using blen_pos [of "n div 2"] gr0_implies_Suc by blast
    moreover have "2 * p \<le> n \<and> n < 4 * p" if "p \<le> n div 2" "n div 2 < 2 * p" for p
      using that by presburger
    ultimately show ?thesis by simp
  qed
qed

lemma blen_le:
  assumes "n < 2 ^ k" "0 < k"
  shows "blen n \<le> k"
proof (cases "n = 0")
  case True
  then show ?thesis using assms(2) by (simp add: blen.simps)
next
  case False
  show ?thesis
  proof (rule ccontr)
    assume "\<not> blen n \<le> k"
    then have "(2 :: nat) ^ k \<le> 2 ^ (blen n - 1)" by (intro power_increasing) simp_all
    moreover have "2 ^ (blen n - 1) \<le> n" using blen_bounds [of n] False by simp
    ultimately show False using assms(1) by linarith
  qed
qed

lemma jbi_bits_required_blen:
  assumes "unat n < 2 ^ 16"
  shows "jbi_bits_required n = Some (of_nat (blen (unat n)))"
proof (cases "n = 0")
  case True
  then show ?thesis by (simp add: jbi_bits_required_def blen.simps)
next
  case False
  then have pos: "0 < unat n" by (simp add: unat_gt_0)
  have le: "blen (unat n) \<le> 16" by (rule blen_le [OF assms]) simp
  have "bits_required_loop n 16 = Some (16 - of_nat (16 - blen (unat n)))"
    by (rule bits_required_loop_ok) (use blen_bounds [OF pos] blen_pos le in auto)
  then show ?thesis using False le by (simp add: jbi_bits_required_def SHORT_BITS_def of_nat_diff)
qed

lemma offset_bits_ok:
  assumes "m = 8192 \<or> m = 8191"
  shows "offset_bits m i = Some (of_nat (blen (min (unat m) (unat i))))"
proof -
  define w where "w = (if m < i then m else i)"
  have u: "unat w = min (unat m) (unat i)" by (auto simp: w_def word_less_nat_alt)
  have lt: "unat w < 2 ^ 15" unfolding u using assms by auto
  have "(scast (ucast w :: u16) :: u32) = w"
  proof (rule bit_word_eqI)
    fix k :: nat assume k: "k < LENGTH(32)"
    have "\<not> bit w j" if "15 \<le> j" "j < 32" for j
    proof -
      have "(2 :: nat) ^ 15 \<le> 2 ^ j" by (rule power_increasing) (use that in simp_all)
      then show ?thesis using lt that by (simp add: bit_unat32)
    qed
    then show "bit (scast (ucast w :: u16) :: u32) k = bit w k"
      using k by (auto simp: bit_simps not_less min_def)
  qed
  then show ?thesis using jbi_bits_required_blen [of w] lt u by (simp add: offset_bits_def w_def)
qed

section \<open>Reading bits\<close>

definition of_bits :: "bool list \<Rightarrow> u32" where
  "of_bits bs = horner_sum of_bool 2 bs"

lemma bit_of_bits: "bit (of_bits bs) k \<longleftrightarrow> k < 32 \<and> k < length bs \<and> bs ! k"
  by (auto simp: of_bits_def bit_horner_sum_bit_word_iff)

text \<open>
  The position in the input: \<open>idx\<close> whole bytes consumed and \<open>a\<close> bits left of the current one.
\<close>

definition at_pos :: "nat \<Rightarrow> nat \<Rightarrow> jbi \<Rightarrow> bool" where
  "at_pos idx a s \<longleftrightarrow> jbi_in_index s = of_nat idx \<and> jbi_bits_avail s = of_nat a \<and> a \<le> 8"

lemma unat_of_nat_lt: "n < 4294967296 \<Longrightarrow> unat (of_nat n :: u32) = n"
  by (simp add: unat_of_nat)

lemma drop_bit_3_pos:
  assumes "unat x = 8 * idx + j" "j < 8"
  shows "drop_bit 3 (x :: u32) = of_nat idx"
proof -
  have "unat (drop_bit 3 x) = drop_bit 3 (8 * idx + j)" unfolding unat_drop_bit_eq assms(1) ..
  also have "\<dots> = idx" using assms(2) by (simp add: drop_bit_eq_div)
  finally have "(of_nat (unat (drop_bit 3 x)) :: u32) = of_nat idx" by (rule arg_cong)
  moreover have "(of_nat (unat w) :: u32) = w" for w :: u32 by simp
  ultimately show ?thesis by metis
qed

lemma holds_byte:
  assumes "holds inp (of_nat (8 * idx + j)) (b # bs) s" "j < 8" "8 * idx + 8 < 4294967296"
  shows "\<exists>w. ld8 (inp + of_nat idx) s = Some w"
proof -
  have "unat (of_nat (8 * idx + j) :: u32) = 8 * idx + j"
    by (rule unat_of_nat_lt) (use assms(2,3) in simp)
  then have d: "drop_bit 3 (of_nat (8 * idx + j) :: u32) = of_nat idx"
    by (rule drop_bit_3_pos [OF _ assms(2)])
  show ?thesis using assms(1) unfolding holds_Cons get_bit_def d by auto
qed

lemma get_bit_byte:
  assumes "ld8 (inp + of_nat idx) s = Some w" "j < 8" "8 * idx + 8 < 4294967296"
  shows "get_bit inp (of_nat (8 * idx + j)) s = Some (bit w j)"
proof -
  have u: "unat (of_nat (8 * idx + j) :: u32) = 8 * idx + j"
    by (rule unat_of_nat_lt) (use assms(2,3) in simp)
  then have d: "drop_bit 3 (of_nat (8 * idx + j) :: u32) = of_nat idx"
    by (rule drop_bit_3_pos [OF _ assms(2)])
  have "unat (of_nat (8 * idx + j) AND 7 :: u32) = j"
  proof -
    have "(of_nat (8 * idx + j) AND 7 :: u32) = take_bit 3 (of_nat (8 * idx + j))"
      by (simp add: take_bit_eq_mask mask_eq_exp_minus_1)
    moreover have "unat (take_bit 3 (of_nat (8 * idx + j) :: u32)) = take_bit 3 (8 * idx + j)"
      unfolding unsigned_take_bit_eq u ..
    ultimately show ?thesis using assms(2) by (simp add: take_bit_eq_mod)
  qed
  then show ?thesis using assms(1) unfolding get_bit_def d by simp
qed

text \<open>The part of the current byte that is still to be read, shifted into place.\<close>

lemma byte_part:
  assumes "a \<le> 8" "sh \<le> 16"
  shows "shr32 (ucast (w :: u8)) (CHAR_BITS - of_nat a) = Some (drop_bit (8 - a) (ucast w))"
    "shr32 0xFF (CHAR_BITS - of_nat a) = Some (drop_bit (8 - a) 0xFF)"
    "shl32 v (of_nat sh) = Some (push_bit sh v)"
proof -
  have c: "CHAR_BITS - of_nat a = of_nat (8 - a)" using assms(1) by (simp add: CHAR_BITS_def of_nat_diff)
  define m where "m = 8 - a"
  have m: "unat (of_nat m :: u32) = m" "m \<le> 8"
    by (rule unat_of_nat_lt) (simp_all add: m_def)
  then have "(of_nat m :: u32) < 32" unfolding word_less_nat_alt by simp
  with m show "shr32 (ucast (w :: u8)) (CHAR_BITS - of_nat a) = Some (drop_bit (8 - a) (ucast w))"
    "shr32 0xFF (CHAR_BITS - of_nat a) = Some (drop_bit (8 - a) 0xFF)"
    unfolding c m_def [symmetric] by (simp_all add: shr32_def)
  have "unat (of_nat sh :: u32) = sh" "(of_nat sh :: u32) < 32"
    using assms(2) by (simp_all add: unat_of_nat word_less_nat_alt)
  then show "shl32 v (of_nat sh) = Some (push_bit sh v)" by (simp add: shl32_def)
qed

lemma bit_part:
  fixes w :: u8
  assumes "a \<le> 8" "sh \<le> 16" "k < 32"
  shows "bit (push_bit sh (drop_bit (8 - a) (ucast w :: u32) AND drop_bit (8 - a) 0xFF)) k \<longleftrightarrow>
    sh \<le> k \<and> k - sh < a \<and> bit w (8 - a + (k - sh))"
proof -
  have ff: "bit (0xFF :: u32) j \<longleftrightarrow> j < 8" for j
  proof -
    have "(0xFF :: u32) = mask 8" by (simp add: mask_eq_exp_minus_1)
    then show ?thesis by (simp only: bit_mask_iff) auto
  qed
  have "bit (push_bit sh (drop_bit (8 - a) (ucast w :: u32) AND drop_bit (8 - a) 0xFF)) k \<longleftrightarrow>
      sh \<le> k \<and> bit (ucast w :: u32) (8 - a + (k - sh)) \<and> 8 - a + (k - sh) < 8"
    using assms(3) by (simp only: bit_push_bit_iff bit_and_iff bit_drop_bit_eq comp_apply ff) auto
  then show ?thesis using assms by (auto simp: bit_simps)
qed

lemma bit_ffff: "bit (0xFFFF :: u32) j \<longleftrightarrow> j < 16"
proof -
  have "(0xFFFF :: u32) = mask 16" by (simp add: mask_eq_exp_minus_1)
  then show ?thesis by (simp only: bit_mask_iff) auto
qed

lemma keep_mask:
  assumes "n + sh \<le> 16"
  shows "shr32 0xFFFF (SHORT_BITS - (of_nat n + of_nat sh)) = Some (drop_bit (16 - (n + sh)) 0xFFFF)"
proof -
  define m where "m = 16 - (n + sh)"
  have c: "SHORT_BITS - (of_nat n + of_nat sh) = of_nat m"
    using assms by (simp add: SHORT_BITS_def m_def of_nat_diff)
  have m: "unat (of_nat m :: u32) = m" by (rule unat_of_nat_lt) (simp add: m_def)
  then have "(of_nat m :: u32) < 32" unfolding word_less_nat_alt by (simp add: m_def)
  with m show ?thesis unfolding c m_def [symmetric] by (simp add: shr32_def)
qed

definition cur_mapped :: "u32 \<Rightarrow> nat \<Rightarrow> nat \<Rightarrow> jbi \<Rightarrow> bool" where
  "cur_mapped inp idx a s \<longleftrightarrow> (a = 0 \<longrightarrow> ld8 (inp + of_nat idx) s \<noteq> None)"

lemma part_bits:
  fixes w :: u8
  assumes "a \<le> 8" "sh + n \<le> 16" "length bs = n" "\<And>k. k < n \<Longrightarrow> k < a \<Longrightarrow> bit w (8 - a + k) = bs ! k"
    "\<And>k. sh \<le> k \<Longrightarrow> \<not> bit res k"
  shows "n \<le> a \<Longrightarrow> (res OR push_bit sh (drop_bit (8 - a) (ucast w) AND drop_bit (8 - a) 0xFF))
      AND drop_bit (16 - (n + sh)) 0xFFFF = res OR push_bit sh (of_bits bs)"
    "a < n \<Longrightarrow> res OR push_bit sh (drop_bit (8 - a) (ucast w) AND drop_bit (8 - a) 0xFF)
      = res OR push_bit sh (of_bits (take a bs))"
proof -
  have sh: "sh \<le> 16" using assms(2) by simp
  define part :: u32 where
    "part = push_bit sh (drop_bit (8 - a) (ucast w) AND drop_bit (8 - a) 0xFF)"
  have part: "bit part k \<longleftrightarrow> sh \<le> k \<and> k - sh < a \<and> bit w (8 - a + (k - sh))" if "k < 32" for k
    unfolding part_def by (rule bit_part [OF assms(1) sh that])
  have keep: "bit (drop_bit (16 - (n + sh)) 0xFFFF :: u32) k \<longleftrightarrow> k < n + sh" for k
    using assms(2) by (simp only: bit_drop_bit_eq comp_apply bit_ffff) auto
  have ob: "bit (push_bit sh (of_bits xs)) k \<longleftrightarrow> sh \<le> k \<and> k - sh < length xs \<and> xs ! (k - sh)" if "k < 32" for xs k
    using that by (auto simp: bit_push_bit_iff bit_of_bits)
  show "(res OR part) AND drop_bit (16 - (n + sh)) 0xFFFF = res OR push_bit sh (of_bits bs)" if "n \<le> a"
  proof (rule bit_word_eqI)
    fix k assume k: "k < LENGTH(32)"
    show "bit ((res OR part) AND drop_bit (16 - (n + sh)) 0xFFFF) k = bit (res OR push_bit sh (of_bits bs)) k"
    proof (cases "k < sh")
      case True
      then show ?thesis using k part ob keep by (simp add: bit_or_iff bit_and_iff)
    next
      case False
      then obtain j where j: "k = sh + j" by (metis le_add_diff_inverse not_less)
      then show ?thesis
        using k part [of k] ob [of k bs] keep [of k] assms(3) assms(5) [of k] assms(4) [of j] that
        unfolding j bit_or_iff bit_and_iff by auto
    qed
  qed
  show "res OR part = res OR push_bit sh (of_bits (take a bs))" if "a < n"
  proof (rule bit_word_eqI)
    fix k assume k: "k < LENGTH(32)"
    show "bit (res OR part) k = bit (res OR push_bit sh (of_bits (take a bs))) k"
      using k part [of k] ob [of k "take a bs"] assms(3) assms(4) [of "k - sh"] that
      by (auto simp: bit_or_iff)
  qed
qed

lemma of_bits_append:
  assumes "length as + sh \<le> 32"
  shows "push_bit sh (of_bits (as @ bs)) =
    push_bit sh (of_bits as) OR push_bit (sh + length as) (of_bits bs)"
  by (rule bit_word_eqI) (auto simp: bit_push_bit_iff bit_or_iff bit_of_bits nth_append)

text \<open>One turn of the loop, with \<open>n\<close> bits to read and \<open>a\<close> left in the current byte.\<close>

definition rp_ready :: "u32 \<Rightarrow> nat \<Rightarrow> nat \<Rightarrow> bool list \<Rightarrow> nat \<Rightarrow> u32 \<Rightarrow> jbi \<Rightarrow> bool" where
  "rp_ready inp idx a bs sh res s \<longleftrightarrow>
     at_pos idx a s \<and> holds inp (of_nat (8 * idx + (8 - a))) bs s \<and> cur_mapped inp idx a s \<and>
     8 * idx + (8 - a) + length bs + 16 < 4294967296 \<and> sh + length bs \<le> 16 \<and>
     (\<forall>k \<ge> sh. \<not> bit res k)"

lemma rp_byte:
  assumes r: "rp_ready inp idx a bs sh res s" and ne: "bs \<noteq> []"
  shows "\<exists>w. ld8 (inp + of_nat idx) s = Some w \<and> (\<forall>k. k < length bs \<longrightarrow> k < a \<longrightarrow> bit w (8 - a + k) = bs ! k)"
proof -
  note r' = r [unfolded rp_ready_def at_pos_def]
  have b: "8 * idx + 8 < 4294967296" using r' by simp
  have "\<exists>w. ld8 (inp + of_nat idx) s = Some w"
  proof (cases "a = 0")
    case True
    then show ?thesis using r' by (auto simp: cur_mapped_def)
  next
    case False
    obtain b0 bs0 where bs: "bs = b0 # bs0" using ne by (cases bs) auto
    have h: "holds inp (of_nat (8 * idx + (8 - a))) (b0 # bs0) s" using r' unfolding bs by blast
    show ?thesis by (rule holds_byte [OF h _ b]) (use False in simp)
  qed
  then obtain w where w: "ld8 (inp + of_nat idx) s = Some w" by blast
  have "bit w (8 - a + k) = bs ! k" if "k < length bs" "k < a" for k
  proof -
    have "get_bit inp (of_nat (8 * idx + (8 - a)) + of_nat k) s = Some (bs ! k)"
      using r' that(1) unfolding holds_def by blast
    moreover have "of_nat (8 * idx + (8 - a)) + of_nat k = (of_nat (8 * idx + (8 - a + k)) :: u32)"
      by simp
    moreover have "get_bit inp (of_nat (8 * idx + (8 - a + k))) s = Some (bit w (8 - a + k))"
      by (rule get_bit_byte [OF w _ b]) (use that r' in linarith)
    ultimately show ?thesis by (metis option.inject)
  qed
  then show ?thesis using w by blast
qed

lemma rp_numbers:
  assumes r: "rp_ready inp idx a bs sh res s" and ne: "bs \<noteq> []"
  shows "a \<le> 8" "sh \<le> 16" "(of_nat (length bs) :: u32) \<noteq> 0"
    "((of_nat (length bs) :: u32) \<le> of_nat a) = (length bs \<le> a)"
    "jbi_bits_avail s = of_nat a" "jbi_in_index s = of_nat idx"
proof -
  note r' = r [unfolded rp_ready_def at_pos_def]
  show "a \<le> 8" "sh \<le> 16" "jbi_bits_avail s = of_nat a" "jbi_in_index s = of_nat idx"
    using r' by simp_all
  have u: "unat (of_nat (length bs) :: u32) = length bs" "unat (of_nat a :: u32) = a"
    using r' by (auto intro!: unat_of_nat_lt)
  then show "(of_nat (length bs) :: u32) \<noteq> 0" using ne by (metis length_0_conv unat_0)
  show "((of_nat (length bs) :: u32) \<le> of_nat a) = (length bs \<le> a)"
    unfolding word_le_nat_alt u ..
qed

lemma rp_last:
  assumes r: "rp_ready inp idx a bs sh res s" and ne: "bs \<noteq> []" and le: "length bs \<le> a"
  shows "read_packed_loop inp (of_nat (length bs)) res (of_nat sh) s =
    Some (res OR push_bit sh (of_bits bs), s\<lparr>jbi_bits_avail := of_nat a - of_nat (length bs)\<rparr>)"
proof -
  obtain w where w: "ld8 (inp + of_nat idx) s = Some w"
    "\<And>k. k < length bs \<Longrightarrow> k < a \<Longrightarrow> bit w (8 - a + k) = bs ! k"
    using rp_byte [OF r ne] by blast
  note nm = rp_numbers [OF r ne]
  have small: "sh + length bs \<le> 16" and clear: "\<And>k. sh \<le> k \<Longrightarrow> \<not> bit res k"
    using r by (simp_all add: rp_ready_def)
  define part :: u32 where
    "part = push_bit sh (drop_bit (8 - a) (ucast w) AND drop_bit (8 - a) 0xFF)"
  define msk :: u32 where "msk = drop_bit (16 - (length bs + sh)) 0xFFFF"
  have fin: "(res OR part) AND msk = res OR push_bit sh (of_bits bs)"
    unfolding part_def msk_def by (rule part_bits(1) [OF nm(1) small refl w(2) clear le])
  have km: "shr32 0xFFFF (SHORT_BITS - (of_nat (length bs) + of_nat sh)) = Some msk"
    unfolding msk_def by (rule keep_mask) (use small in simp)
  have "read_packed_loop inp (of_nat (length bs)) res (of_nat sh) s =
      read_packed_loop inp 0 ((res OR part) AND msk) (of_nat sh)
        (s\<lparr>jbi_bits_avail := of_nat a - of_nat (length bs)\<rparr>)"
    using nm(3) by (subst read_packed_loop.simps)
      (simp only: nm(4,5,6) le w(1) byte_part [OF nm(1,2)] bind.bind_lunit part_def [symmetric] km if_True if_False)
  then show ?thesis unfolding fin by (simp add: read_packed_loop.simps)
qed

lemma rp_next:
  assumes r: "rp_ready inp idx a bs sh res s" and gt: "a < length bs"
  shows "read_packed_loop inp (of_nat (length bs)) res (of_nat sh) s =
    read_packed_loop inp (of_nat (length (drop a bs))) (res OR push_bit sh (of_bits (take a bs)))
      (of_nat (sh + a)) (s\<lparr>jbi_in_index := of_nat (Suc idx), jbi_bits_avail := of_nat 8\<rparr>)"
proof -
  have ne: "bs \<noteq> []" using gt by auto
  obtain w where w: "ld8 (inp + of_nat idx) s = Some w"
    "\<And>k. k < length bs \<Longrightarrow> k < a \<Longrightarrow> bit w (8 - a + k) = bs ! k"
    using rp_byte [OF r ne] by blast
  note nm = rp_numbers [OF r ne]
  have small: "sh + length bs \<le> 16" and clear: "\<And>k. sh \<le> k \<Longrightarrow> \<not> bit res k"
    using r by (simp_all add: rp_ready_def)
  define part :: u32 where
    "part = push_bit sh (drop_bit (8 - a) (ucast w) AND drop_bit (8 - a) 0xFF)"
  have fin: "res OR part = res OR push_bit sh (of_bits (take a bs))"
    unfolding part_def by (rule part_bits(2) [OF nm(1) small refl w(2) clear gt])
  have nle: "\<not> length bs \<le> a" using gt by simp
  have "read_packed_loop inp (of_nat (length bs)) res (of_nat sh) s =
      read_packed_loop inp (of_nat (length bs) - of_nat a) (res OR part) (of_nat sh + of_nat a)
        (s\<lparr>jbi_in_index := of_nat idx + 1, jbi_bits_avail := CHAR_BITS\<rparr>)"
    using nm(3) by (subst read_packed_loop.simps)
      (simp only: nm(4,5,6) nle w(1) byte_part [OF nm(1,2)] bind.bind_lunit part_def [symmetric] if_False)
  then show ?thesis unfolding fin using gt by (simp add: CHAR_BITS_def of_nat_diff ac_simps)
qed

lemma rp_ready_next:
  assumes r: "rp_ready inp idx a bs sh res s" and gt: "a < length bs"
  shows "rp_ready inp (Suc idx) 8 (drop a bs) (sh + a) (res OR push_bit sh (of_bits (take a bs)))
    (s\<lparr>jbi_in_index := of_nat (Suc idx), jbi_bits_avail := of_nat 8\<rparr>)"
proof -
  define s1 where "s1 = s\<lparr>jbi_in_index := of_nat (Suc idx), jbi_bits_avail := of_nat 8\<rparr>"
  have m1: "mem s1 = mem s" by (simp add: s1_def)
  note r' = r [unfolded rp_ready_def at_pos_def]
  have "holds inp (of_nat (8 * Suc idx + (8 - 8))) (drop a bs) s1"
    unfolding holds_def
  proof (intro allI impI)
    fix k assume k: "k < length (drop a bs)"
    have "8 * idx + (8 - a) + (a + k) = 8 * Suc idx + (8 - 8) + k" using r' by simp
    then have e: "of_nat (8 * idx + (8 - a)) + of_nat (a + k) = (of_nat (8 * Suc idx + (8 - 8)) + of_nat k :: u32)"
      by (metis of_nat_add)
    have "a + k < length bs" using k by simp
    then have "get_bit inp (of_nat (8 * idx + (8 - a)) + of_nat (a + k)) s = Some (bs ! (a + k))"
      using r' unfolding holds_def by blast
    then show "get_bit inp (of_nat (8 * Suc idx + (8 - 8)) + of_nat k) s1 = Some (drop a bs ! k)"
      using k unfolding e get_bit_mem [OF m1] by simp
  qed
  moreover have "\<not> bit (res OR push_bit sh (of_bits (take a bs))) k" if "sh + a \<le> k" for k
    using that r' by (auto simp: bit_or_iff bit_push_bit_iff bit_of_bits)
  moreover have "8 * Suc idx + (8 - 8) + length (drop a bs) + 16 < 4294967296"
  proof -
    have "8 * idx + (8 - a) + length bs + 16 < 4294967296" "a \<le> 8" using r' by blast+
    then show ?thesis using gt by simp
  qed
  moreover have "sh + a + length (drop a bs) \<le> 16" using r' gt by simp
  ultimately show ?thesis unfolding s1_def [symmetric]
    by (simp add: rp_ready_def at_pos_def cur_mapped_def s1_def)
qed

lemma read_packed_loop_ok:
  assumes "rp_ready inp idx a bs sh res s"
  shows "\<exists>idx' a'. read_packed_loop inp (of_nat (length bs)) res (of_nat sh) s =
      Some (res OR push_bit sh (of_bits bs), s\<lparr>jbi_in_index := of_nat idx', jbi_bits_avail := of_nat a'\<rparr>) \<and>
    a' \<le> 8 \<and> 8 * idx' + (8 - a') = 8 * idx + (8 - a) + length bs \<and> cur_mapped inp idx' a' s"
  using assms
proof (induction "length bs + (if a = 0 then 1 else 0)" arbitrary: idx a s bs sh res rule: less_induct)
  case less
  note r' = less.prems [unfolded rp_ready_def at_pos_def]
  show ?case
  proof (cases "bs = []")
    case True
    have "s\<lparr>jbi_in_index := of_nat idx, jbi_bits_avail := of_nat a\<rparr> = s" using r' by (cases s) simp
    moreover have "read_packed_loop inp 0 res (of_nat sh) s = Some (res, s)"
      by (simp add: read_packed_loop.simps)
    ultimately show ?thesis using r' True
      by - (rule exI [of _ idx], rule exI [of _ a], simp add: of_bits_def)
  next
    case ne: False
    show ?thesis
    proof (cases "length bs \<le> a")
      case True
      obtain w where w: "ld8 (inp + of_nat idx) s = Some w" using rp_byte [OF less.prems ne] by blast
      have "s\<lparr>jbi_bits_avail := of_nat a - of_nat (length bs)\<rparr> =
          s\<lparr>jbi_in_index := of_nat idx, jbi_bits_avail := of_nat (a - length bs)\<rparr>"
        using r' True by (cases s) (simp add: of_nat_diff)
      then have "read_packed_loop inp (of_nat (length bs)) res (of_nat sh) s =
          Some (res OR push_bit sh (of_bits bs),
            s\<lparr>jbi_in_index := of_nat idx, jbi_bits_avail := of_nat (a - length bs)\<rparr>)"
        unfolding rp_last [OF less.prems ne True] by (rule arg_cong)
      moreover have "a - length bs \<le> 8" "8 * idx + (8 - (a - length bs)) = 8 * idx + (8 - a) + length bs"
        using r' True by linarith+
      moreover have "cur_mapped inp idx (a - length bs) s" using w by (simp add: cur_mapped_def)
      ultimately show ?thesis by blast
    next
      case False
      then have gt: "a < length bs" by simp
      define s1 where "s1 = s\<lparr>jbi_in_index := of_nat (Suc idx), jbi_bits_avail := of_nat 8\<rparr>"
      have small: "length (drop a bs) + (if (8 :: nat) = 0 then 1 else 0) < length bs + (if a = 0 then 1 else 0)"
        using gt by (cases "a = 0") simp_all
      from less.hyps [OF small rp_ready_next [OF less.prems gt]]
      obtain idx' a' where ih: "read_packed_loop inp (of_nat (length (drop a bs)))
            (res OR push_bit sh (of_bits (take a bs))) (of_nat (sh + a)) s1 =
          Some ((res OR push_bit sh (of_bits (take a bs))) OR push_bit (sh + a) (of_bits (drop a bs)),
            s1\<lparr>jbi_in_index := of_nat idx', jbi_bits_avail := of_nat a'\<rparr>)" "a' \<le> 8"
        "8 * idx' + (8 - a') = 8 * Suc idx + (8 - 8) + length (drop a bs)" "cur_mapped inp idx' a' s1"
        unfolding s1_def by blast
      have ta: "length (take a bs) = a" using gt by simp
      have "length (take a bs) + sh \<le> 32" using r' gt ta by linarith
      from of_bits_append [OF this, of "drop a bs"]
      have ob: "push_bit sh (of_bits bs) =
          push_bit sh (of_bits (take a bs)) OR push_bit (sh + a) (of_bits (drop a bs))"
        unfolding ta append_take_drop_id .
      have s1s: "s1\<lparr>jbi_in_index := of_nat idx', jbi_bits_avail := of_nat a'\<rparr> =
          s\<lparr>jbi_in_index := of_nat idx', jbi_bits_avail := of_nat a'\<rparr>" by (simp add: s1_def)
      have "8 * idx' + (8 - a') = 8 * idx + (8 - a) + length bs"
      proof -
        have "a \<le> 8" using r' by blast
        then show ?thesis using ih(3) gt by simp
      qed
      moreover have "cur_mapped inp idx' a' s" using ih(4) by (simp add: cur_mapped_def s1_def ld8_def)
      moreover have "read_packed_loop inp (of_nat (length bs)) res (of_nat sh) s =
          Some (res OR push_bit sh (of_bits bs), s\<lparr>jbi_in_index := of_nat idx', jbi_bits_avail := of_nat a'\<rparr>)"
        unfolding rp_next [OF less.prems gt] s1_def [symmetric] ih(1) s1s ob or.assoc ..
      ultimately show ?thesis using ih(2) by blast
    qed
  qed
qed

text \<open>
  \<open>input_at inp p bs s\<close>: the input still to be read starts with \<open>bs\<close>, at bit \<open>p\<close>.
\<close>

definition input_at :: "u32 \<Rightarrow> nat \<Rightarrow> bool list \<Rightarrow> jbi \<Rightarrow> bool" where
  "input_at inp p bs s \<longleftrightarrow> (\<exists>idx a. at_pos idx a s \<and> 8 * idx + (8 - a) = p \<and> cur_mapped inp idx a s) \<and>
     holds inp (of_nat p) bs s \<and> p + length bs + 16 < 4294967296"

lemma read_packed_ok:
  assumes i: "input_at inp p (bs @ rst) s" and n: "length bs \<le> 16"
  shows "\<exists>s'. jbi_read_packed inp (of_nat (length bs)) s = Some (of_bits bs, s') \<and>
    input_at inp (p + length bs) rst s' \<and> mem s' = mem s"
proof -
  obtain idx a where pos: "at_pos idx a s" "8 * idx + (8 - a) = p" "cur_mapped inp idx a s"
    using i by (auto simp: input_at_def)
  have h: "holds inp (of_nat p) (bs @ rst) s" and b: "p + length (bs @ rst) + 16 < 4294967296"
    using i by (simp_all add: input_at_def)
  have "holds inp (of_nat p) bs s"
    using h unfolding holds_def by (auto simp: nth_append split: if_splits)
  then have "rp_ready inp idx a bs 0 0 s"
    using pos b n by (simp add: rp_ready_def)
  then obtain idx' a' where r: "read_packed_loop inp (of_nat (length bs)) 0 (of_nat 0) s =
      Some (0 OR push_bit 0 (of_bits bs), s\<lparr>jbi_in_index := of_nat idx', jbi_bits_avail := of_nat a'\<rparr>)"
    "a' \<le> 8" "8 * idx' + (8 - a') = p + length bs" "cur_mapped inp idx' a' s"
    using read_packed_loop_ok pos(2) by metis
  define s' where "s' = s\<lparr>jbi_in_index := of_nat idx', jbi_bits_avail := of_nat a'\<rparr>"
  have m: "mem s' = mem s" by (simp add: s'_def)
  have "holds inp (of_nat (p + length bs)) rst s'"
    unfolding holds_def
  proof (intro allI impI)
    fix k assume k: "k < length rst"
    have "length bs + k < length (bs @ rst)" using k by simp
    then have "get_bit inp (of_nat p + of_nat (length bs + k)) s = Some (rst ! k)"
      using h unfolding holds_def by (metis nth_append_length_plus)
    then show "get_bit inp (of_nat (p + length bs) + of_nat k) s' = Some (rst ! k)"
      unfolding get_bit_mem [OF m] by (simp add: ac_simps)
  qed
  moreover have "at_pos idx' a' s'" "cur_mapped inp idx' a' s'"
    using r by (simp_all add: at_pos_def s'_def cur_mapped_def ld8_def)
  ultimately have "input_at inp (p + length bs) rst s'"
    using r(3) b unfolding input_at_def by auto
  then show ?thesis using r(1) m by (simp add: jbi_read_packed_def s'_def)
qed

end
