(* ===== verification/JbiCompProofs.thy ===== *)
theory JbiCompProofs imports JbiComp begin

text \<open>
  Decompression inverts compression: the format of a compressed Boolean array as an encoder from
  tokens to bits, the bytes a token list stands for, and the proof that \<open>jbi_uncompress\<close> restores
  those bytes from any encoded list. Every byte string has such an encoding.
\<close>

unbundle bit_operations_syntax

section \<open>Byte arrays in memory\<close>

definition bytes_at :: "u32 \<Rightarrow> u8 list \<Rightarrow> jbi \<Rightarrow> bool" where
  "bytes_at p bs s \<longleftrightarrow> (\<forall>k < length bs. ld8 (p + of_nat k) s = Some (bs ! k))"

definition sep_bytes :: "u32 \<Rightarrow> nat \<Rightarrow> u32 \<Rightarrow> nat \<Rightarrow> bool" where
  "sep_bytes p n q m \<longleftrightarrow> (\<forall>k < n. \<forall>l < m. p + of_nat k \<noteq> q + of_nat l)"

lemma bytes_at_store:
  assumes "bytes_at p bs s" "k < length bs" "length bs < 4294967296"
  shows "\<exists>s'. st8 (p + of_nat k) b s = Some s' \<and> bytes_at p (bs[k := b]) s' \<and>
    s' = s\<lparr>mem := mem s'\<rparr> \<and> (\<forall>a. a \<noteq> p + of_nat k \<longrightarrow> ld8 a s' = ld8 a s) \<and>
    (\<forall>a. ld8 a s' = None \<longleftrightarrow> ld8 a s = None)"
proof -
  have m: "ld8 (p + of_nat k) s = Some (bs ! k)" using assms(1,2) by (simp add: bytes_at_def)
  then obtain s' where s': "st8 (p + of_nat k) b s = Some s'" using st8_mapped by blast
  have other: "ld8 a s' = ld8 a s" if "a \<noteq> p + of_nat k" for a using ld8_st8_other [OF s' that] .
  have "bytes_at p (bs[k := b]) s'"
    unfolding bytes_at_def
  proof (intro allI impI)
    fix j assume j: "j < length (bs[k := b])"
    show "ld8 (p + of_nat j) s' = Some (bs[k := b] ! j)"
    proof (cases "j = k")
      case True
      then show ?thesis using s' assms(2) by simp
    next
      case False
      then have "p + of_nat j \<noteq> p + of_nat k"
        using of_nat_inj_small [of j k p] j assms(2,3) by simp
      then show ?thesis using False j assms(1) other by (simp add: bytes_at_def)
    qed
  qed
  moreover have "s' = s\<lparr>mem := mem s'\<rparr>" using s' by (auto simp: st8_def split: if_splits)
  ultimately show ?thesis using s' other st8_dom [OF s'] by blast
qed

section \<open>The format\<close>

text \<open>The low \<open>n\<close> bits of a number, lowest first.\<close>

definition bits_of :: "nat \<Rightarrow> 'a :: semiring_bits \<Rightarrow> bool list" where
  "bits_of n v = map (bit v) [0..<n]"

lemma length_bits_of [simp]: "length (bits_of n v) = n"
  by (simp add: bits_of_def)

lemma nth_bits_of [simp]: "k < n \<Longrightarrow> bits_of n v ! k = bit v k"
  by (simp add: bits_of_def)

datatype lz_token = Lit "u8 list" | Match nat nat

text \<open>
  A token for position \<open>i\<close> of the output: a literal block is a 0 and its bytes, a match is a 1,
  the offset in as many bits as \<open>i\<close> (at most \<open>m\<close>) needs, and the length in eight.
\<close>

fun encode_token :: "nat \<Rightarrow> nat \<Rightarrow> lz_token \<Rightarrow> bool list" where
  "encode_token m i (Lit bs) = False # concat (map (bits_of 8) bs)"
| "encode_token m i (Match offset len) = True # bits_of (blen (min m i)) offset @ bits_of 8 len"

fun copy_match :: "nat \<Rightarrow> nat \<Rightarrow> u8 list \<Rightarrow> u8 list" where
  "copy_match offset 0 o' = o'"
| "copy_match offset (Suc n) o' = copy_match offset n (o' @ [o' ! (length o' - offset)])"

fun expand :: "u8 list \<Rightarrow> lz_token \<Rightarrow> u8 list" where
  "expand o' (Lit bs) = o' @ bs"
| "expand o' (Match offset len) = copy_match offset len o'"

fun encode_tokens :: "nat \<Rightarrow> u8 list \<Rightarrow> lz_token list \<Rightarrow> bool list" where
  "encode_tokens m o' [] = []"
| "encode_tokens m o' (t # ts) = encode_token m (length o') t @ encode_tokens m (expand o' t) ts"

text \<open>
  Well-formed for \<open>n\<close> bytes in all: literal blocks have three bytes but for the last, an offset
  points into the output and fits its field, a match ends inside the output.
\<close>

fun token_ok :: "nat \<Rightarrow> nat \<Rightarrow> u8 list \<Rightarrow> lz_token \<Rightarrow> bool" where
  "token_ok m n o' (Lit bs) \<longleftrightarrow> length bs = min DATA_BLOB_LENGTH (n - length o')"
| "token_ok m n o' (Match offset len) \<longleftrightarrow> 0 < offset \<and> offset \<le> length o' \<and>
     offset < 2 ^ blen (min m (length o')) \<and> len < 256 \<and> length o' + len \<le> n"

fun tokens_ok :: "nat \<Rightarrow> nat \<Rightarrow> u8 list \<Rightarrow> lz_token list \<Rightarrow> bool" where
  "tokens_ok m n o' [] \<longleftrightarrow> length o' = n"
| "tokens_ok m n o' (t # ts) \<longleftrightarrow> length o' < n \<and> token_ok m n o' t \<and> tokens_ok m n (expand o' t) ts"

text \<open>The longest match offset of the format version.\<close>

definition window :: "bool \<Rightarrow> nat" where
  "window v2 = (if v2 then 8191 else 8192)"

definition compress :: "bool \<Rightarrow> lz_token list \<Rightarrow> bool list" where
  "compress v2 ts = (let n = length (foldl expand [] ts)
     in bits_of 32 (of_nat n :: u32) @ encode_tokens (window v2) [] ts)"

lemma length_copy_match [simp]: "length (copy_match offset n o') = length o' + n"
  by (induction n arbitrary: o') simp_all

lemma tokens_ok_length: "tokens_ok m n o' ts \<Longrightarrow> length (foldl expand o' ts) = n"
  by (induction ts arbitrary: o') simp_all

text \<open>Every byte string is the expansion of a well-formed list, of literals alone.\<close>

fun literals :: "u8 list \<Rightarrow> lz_token list" where
  "literals (a # b # c # bs) = Lit [a, b, c] # literals bs"
| "literals [] = []"
| "literals bs = [Lit bs]"

lemma literals_ok:
  "n = length o' + length bs \<Longrightarrow>
    tokens_ok m n o' (literals bs) \<and> foldl expand o' (literals bs) = o' @ bs"
  by (induction bs arbitrary: o' rule: literals.induct) (simp_all add: DATA_BLOB_LENGTH_def)

section \<open>Reading tokens\<close>

lemma of_bits_nat:
  assumes "v < 2 ^ n" "n \<le> 32"
  shows "of_bits (bits_of n v) = (of_nat v :: u32)"
proof (rule bit_word_eqI)
  fix k :: nat assume k: "k < LENGTH(32)"
  have "\<not> bit v k" if "n \<le> k"
  proof -
    have "v < 2 ^ k" using assms(1) power_increasing [OF that, of "2 :: nat"] by linarith
    then show ?thesis by (simp add: bit_iff_odd)
  qed
  then show "bit (of_bits (bits_of n v)) k = bit (of_nat v :: u32) k"
    using k by (cases "k < n") (simp_all add: bit_of_bits bit_of_nat_iff)
qed

lemma of_bits_byte: "of_bits (bits_of 8 (b :: u8)) = ucast b"
proof (rule bit_word_eqI)
  fix k :: nat assume "k < LENGTH(32)"
  then show "bit (of_bits (bits_of 8 b)) k = bit (ucast b :: u32) k"
    by (cases "k < 8") (auto simp: bit_of_bits bit_simps dest: bit_imp_le_length)
qed

text \<open>What the input looks like once a byte outside it is written.\<close>

lemma input_at_frame:
  assumes i: "input_at inp p bs s" and sep: "sep_bytes inp n out m" and n: "p + length bs \<le> 8 * n"
    and other: "\<And>a. (\<forall>l < m. a \<noteq> out + of_nat l) \<Longrightarrow> ld8 a s' = ld8 a s"
    and dom: "\<And>a. ld8 a s' = None \<longleftrightarrow> ld8 a s = None"
    and rest: "jbi_in_index s' = jbi_in_index s" "jbi_bits_avail s' = jbi_bits_avail s"
  shows "input_at inp p bs s'"
proof -
  have small: "p + length bs + 16 < 4294967296" using i by (simp add: input_at_def)
  have "get_bit inp (of_nat p + of_nat k) s' = get_bit inp (of_nat p + of_nat k) s"
    if k: "k < length bs" for k
  proof -
    have u: "unat (of_nat p + of_nat k :: u32) = 8 * ((p + k) div 8) + (p + k) mod 8"
      using small k unat_of_nat_lt [of "p + k"] by simp
    have d: "drop_bit 3 (of_nat p + of_nat k :: u32) = of_nat ((p + k) div 8)"
      by (rule drop_bit_3_pos [OF u]) simp
    have "(p + k) div 8 < n" using n k by linarith
    then have "\<forall>l < m. inp + of_nat ((p + k) div 8) \<noteq> out + of_nat l"
      using sep by (simp add: sep_bytes_def)
    then show ?thesis using other d by (simp add: get_bit_def)
  qed
  then show ?thesis using i dom rest
    by (simp add: input_at_def holds_def at_pos_def cur_mapped_def)
qed

text \<open>
  The decoder in the middle of its work: bit \<open>p\<close> of the input is next, \<open>o'\<close> has been written,
  the rest of the output is still clear.
\<close>

definition lz_state ::
  "u32 \<Rightarrow> nat \<Rightarrow> u32 \<Rightarrow> nat \<Rightarrow> nat \<Rightarrow> bool list \<Rightarrow> u8 list \<Rightarrow> jbi \<Rightarrow> bool" where
  "lz_state inp n out m p bits o' s \<longleftrightarrow> input_at inp p bits s \<and> p + length bits \<le> 8 * n \<and>
     sep_bytes inp n out m \<and> length o' \<le> m \<and> m < 4294967296 \<and>
     bytes_at out (o' @ replicate (m - length o') 0) s"

lemma lz_read:
  assumes st: "lz_state inp n out m p (bs @ rst) o' s" and len: "length bs \<le> 16"
  shows "\<exists>s'. jbi_read_packed inp (of_nat (length bs)) s = Some (of_bits bs, s') \<and>
    lz_state inp n out m (p + length bs) rst o' s'"
proof -
  have i: "input_at inp p (bs @ rst) s" using st by (simp add: lz_state_def)
  obtain s' where s': "jbi_read_packed inp (of_nat (length bs)) s = Some (of_bits bs, s')"
    "input_at inp (p + length bs) rst s'" "mem s' = mem s"
    using read_packed_ok [OF i len] by blast
  then show ?thesis using st by (auto simp: lz_state_def bytes_at_def ld8_def)
qed

lemma lz_write:
  assumes st: "lz_state inp n out m p bits o' s" and lt: "length o' < m"
  shows "\<exists>s'. st8 (out + of_nat (length o')) b s = Some s' \<and>
    lz_state inp n out m p bits (o' @ [b]) s'"
proof -
  let ?bs = "o' @ replicate (m - length o') 0"
  have b: "bytes_at out ?bs s" and m: "m < 4294967296" using st by (simp_all add: lz_state_def)
  have "length o' < length ?bs" "length ?bs < 4294967296" using lt m by simp_all
  then obtain s' where s': "st8 (out + of_nat (length o')) b s = Some s'"
    "bytes_at out (?bs[length o' := b]) s'" "s' = s\<lparr>mem := mem s'\<rparr>"
    "\<And>a. a \<noteq> out + of_nat (length o') \<Longrightarrow> ld8 a s' = ld8 a s" "\<And>a. ld8 a s' = None \<longleftrightarrow> ld8 a s = None"
    using bytes_at_store [OF b, of "length o'" b] by blast
  have upd: "?bs[length o' := b] = (o' @ [b]) @ replicate (m - length (o' @ [b])) 0"
    using lt by (cases "m - length o'") (simp_all add: list_update_append)
  have "jbi_in_index s' = jbi_in_index s" "jbi_bits_avail s' = jbi_bits_avail s"
    by (subst s'(3), simp)+
  moreover have "ld8 a s' = ld8 a s" if "\<forall>l < m. a \<noteq> out + of_nat l" for a
    using s'(4) that lt by simp
  ultimately have "input_at inp p bits s'"
    using input_at_frame [of inp p bits s n out m s'] s'(5) st unfolding lz_state_def by blast
  then have "lz_state inp n out m p bits (o' @ [b]) s'"
    using st lt s'(2) unfolding upd lz_state_def by simp
  then show ?thesis using s'(1) by blast
qed

lemma lz_below:
  assumes "lz_state inp n out m p bits o' s" "k \<le> m"
  shows "of_nat (length o') < (of_nat k :: u32) \<longleftrightarrow> length o' < k"
  using assms by (simp add: lz_state_def word_less_nat_alt unat_of_nat_lt)

lemma literal_loop_ok:
  assumes "lz_state inp n out m p (concat (map (bits_of 8) bs) @ rst) o' s" "d \<le> m"
    "length bs = min k (d - length o')" "length o' \<le> d"
  shows "\<exists>s'. literal_loop inp out (of_nat d) k (of_nat (length o')) s =
      Some (of_nat (length (o' @ bs)), s') \<and>
    lz_state inp n out m (p + 8 * length bs) rst (o' @ bs) s'"
  using assms
proof (induction k arbitrary: p bs o' s)
  case 0
  then show ?case by simp
next
  case (Suc k)
  show ?case
  proof (cases "length o' < d")
    case True
    then obtain b bs' where bs: "bs = b # bs'" using Suc.prems(3) by (cases bs) auto
    have st: "lz_state inp n out m p (bits_of 8 b @ (concat (map (bits_of 8) bs') @ rst)) o' s"
      using Suc.prems(1) unfolding bs by simp
    obtain s1 where s1: "jbi_read_packed inp CHAR_BITS s = Some (ucast b, s1)"
      "lz_state inp n out m (p + 8) (concat (map (bits_of 8) bs') @ rst) o' s1"
      using lz_read [OF st] by (auto simp: of_bits_byte CHAR_BITS_def)
    obtain s2 where s2: "st8 (out + of_nat (length o')) b s1 = Some s2"
      "lz_state inp n out m (p + 8) (concat (map (bits_of 8) bs') @ rst) (o' @ [b]) s2"
      using lz_write [OF s1(2)] True Suc.prems(2) by auto
    have lt: "of_nat (length o') < (of_nat d :: u32)"
      using lz_below [OF Suc.prems(1,2)] True by simp
    have "length bs' = min k (d - length (o' @ [b]))" using Suc.prems(3) True bs by simp
    then obtain s3 where s3: "literal_loop inp out (of_nat d) k (of_nat (length (o' @ [b]))) s2 =
        Some (of_nat (length ((o' @ [b]) @ bs')), s3)"
      "lz_state inp n out m (p + 8 + 8 * length bs') rst ((o' @ [b]) @ bs') s3"
      using Suc.IH [OF s2(2) Suc.prems(2)] True by auto
    have uc: "(ucast (ucast b :: u32) :: u8) = b" by (rule bit_word_eqI) (simp add: bit_simps)
    show ?thesis using lt s1(1) s2(1) s3 uc by (simp add: bs ac_simps)
  next
    case False
    then have d: "length o' = d" and bs: "bs = []" using Suc.prems(3,4) by simp_all
    have "\<not> of_nat (length o') < (of_nat d :: u32)" using d by simp
    then show ?thesis using Suc.IH [OF Suc.prems(1,2)] Suc.prems(3,4) d bs by simp
  qed
qed

lemma match_loop_ok:
  assumes "lz_state inp n out m p bits o' s" "d \<le> m" "length o' + k \<le> d" "0 < f" "f \<le> length o'"
  shows "\<exists>s'. match_loop out (of_nat d) (of_nat f) k (of_nat (length o')) s =
      Some (of_nat (length (copy_match f k o')), s') \<and>
    lz_state inp n out m p bits (copy_match f k o') s'"
  using assms
proof (induction k arbitrary: o' s)
  case 0
  then show ?case by simp
next
  case (Suc k)
  let ?b = "o' ! (length o' - f)"
  have st: "lz_state inp n out m p bits o' s" by (rule Suc.prems(1))
  have out: "bytes_at out (o' @ replicate (m - length o') 0) s" using st by (simp add: lz_state_def)
  have lt: "of_nat (length o') < (of_nat d :: u32)"
    using lz_below [OF st Suc.prems(2)] Suc.prems(3) by simp
  have le: "length o' - f < length o'" using Suc.prems(4,5) by simp
  have "ld8 (out + of_nat (length o' - f)) s = Some ?b"
    using out le unfolding bytes_at_def by (auto simp: nth_append)
  then have ld: "ld8 (out + (of_nat (length o') - of_nat f)) s = Some ?b"
    using Suc.prems(5) by (simp add: of_nat_diff)
  obtain s1 where s1: "st8 (out + of_nat (length o')) ?b s = Some s1"
    "lz_state inp n out m p bits (o' @ [?b]) s1"
    using lz_write [OF st, of ?b] Suc.prems(2,3) by auto
  have "length (o' @ [?b]) + k \<le> d" "f \<le> length (o' @ [?b])" using Suc.prems by simp_all
  from Suc.IH [OF s1(2) Suc.prems(2) this(1) Suc.prems(4) this(2)]
  obtain s2 where "match_loop out (of_nat d) (of_nat f) k (of_nat (length (o' @ [?b]))) s1 =
      Some (of_nat (length (copy_match f k (o' @ [?b]))), s2)"
    "lz_state inp n out m p bits (copy_match f k (o' @ [?b])) s2" by blast
  then show ?case using lt ld s1(1) by (simp add: ac_simps)
qed

lemma uncompress_loop_ok:
  assumes "lz_state inp n out m p (encode_tokens (window v2) o' ts) o' s"
    "tokens_ok (window v2) d o' ts" "d \<le> m"
  shows "\<exists>s'. uncompress_loop inp out (of_nat (window v2)) (of_nat d) (of_nat (length o')) s = Some s' \<and>
    bytes_at out (foldl expand o' ts @ replicate (m - d) 0) s'"
  using assms
proof (induction ts arbitrary: p o' s)
  case Nil
  then show ?case by (subst uncompress_loop.simps) (simp add: lz_state_def)
next
  case (Cons t ts)
  let ?rst = "encode_tokens (window v2) (expand o' t) ts"
  have st: "lz_state inp n out m p (encode_token (window v2) (length o') t @ ?rst) o' s"
    using Cons.prems(1) by simp
  have lt: "length o' < d" and tok: "token_ok (window v2) d o' t" and
    ts: "tokens_ok (window v2) d (expand o' t) ts" using Cons.prems(2) by simp_all
  have ltw: "of_nat (length o') < (of_nat d :: u32)"
    using lz_below [OF st Cons.prems(3)] lt by simp
  have "encode_token (window v2) (length o') t \<noteq> []" by (cases t) simp_all
  then obtain b bs where tb: "encode_token (window v2) (length o') t = b # bs"
    by (meson neq_Nil_conv)
  obtain s1 where s1: "jbi_read_packed inp 1 s = Some (of_bits [b], s1)"
    "lz_state inp n out m (p + 1) (bs @ ?rst) o' s1"
    using lz_read [of inp n out m p "[b]" "bs @ ?rst" o' s] st tb by auto
  have "\<exists>p' s2. (if of_bits [b] = 0
        then literal_loop inp out (of_nat d) DATA_BLOB_LENGTH (of_nat (length o')) s1
        else do { nb \<leftarrow> offset_bits (of_nat (window v2)) (of_nat (length o'));
                  (offset, s3) \<leftarrow> jbi_read_packed inp nb s1;
                  (len, s4) \<leftarrow> jbi_read_packed inp CHAR_BITS s3;
                  match_loop out (of_nat d) offset (unat len) (of_nat (length o')) s4 }) =
      Some (of_nat (length (expand o' t)), s2) \<and> lz_state inp n out m p' ?rst (expand o' t) s2"
  proof (cases t)
    case (Lit xs)
    then have b: "b = False" "bs = concat (map (bits_of 8) xs)" using tb by simp_all
    have z: "of_bits [b] = 0" unfolding b by (simp add: of_bits_def)
    have len: "length xs = min DATA_BLOB_LENGTH (d - length o')" using tok Lit by simp
    have "lz_state inp n out m (p + 1) (concat (map (bits_of 8) xs) @ ?rst) o' s1"
      using s1(2) unfolding b .
    from literal_loop_ok [OF this Cons.prems(3) len] lt
    show ?thesis using z Lit by auto
  next
    case (Match f len)
    let ?nb = "blen (min (window v2) (length o'))"
    have b: "b = True" "bs = bits_of ?nb f @ bits_of 8 len" using tb Match by simp_all
    have nz: "of_bits [b] \<noteq> 0" unfolding b by (simp add: of_bits_def)
    have tk: "0 < f" "f \<le> length o'" "f < 2 ^ ?nb" "len < 256" "length o' + len \<le> d"
      using tok Match by simp_all
    have w: "window v2 < 2 ^ 14" by (simp add: window_def)
    then have nb: "?nb \<le> 14" using min.cobounded1 [of "window v2" "length o'"]
      by (intro blen_le) (simp_all del: min.cobounded1)
    have u: "unat (of_nat (window v2) :: u32) = window v2" "unat (of_nat (length o') :: u32) = length o'"
      using st w by (auto simp: lz_state_def intro!: unat_of_nat_lt)
    have "of_nat (window v2) = (8192 :: u32) \<or> of_nat (window v2) = (8191 :: u32)"
      by (simp add: window_def)
    then have ob: "offset_bits (of_nat (window v2)) (of_nat (length o')) = Some (of_nat ?nb)"
      using offset_bits_ok [of "of_nat (window v2)" "of_nat (length o')"] u by simp
    have "lz_state inp n out m (p + 1) (bits_of ?nb f @ (bits_of 8 len @ ?rst)) o' s1"
      using s1(2) unfolding b by simp
    from lz_read [OF this] nb
    obtain s3 where s3: "jbi_read_packed inp (of_nat ?nb) s1 = Some (of_bits (bits_of ?nb f), s3)"
      "lz_state inp n out m (p + 1 + ?nb) (bits_of 8 len @ ?rst) o' s3" by auto
    from lz_read [OF s3(2)]
    obtain s4 where s4: "jbi_read_packed inp CHAR_BITS s3 = Some (of_bits (bits_of 8 len), s4)"
      "lz_state inp n out m (p + 1 + ?nb + 8) ?rst o' s4" by (auto simp: CHAR_BITS_def)
    have vf: "of_bits (bits_of ?nb f) = of_nat f" by (rule of_bits_nat) (use tk nb in simp_all)
    have vl: "of_bits (bits_of 8 len) = of_nat len" by (rule of_bits_nat) (use tk in simp_all)
    have ul: "unat (of_nat len :: u32) = len" using tk by (intro unat_of_nat_lt) simp
    from match_loop_ok [OF s4(2) Cons.prems(3) tk(5,1,2)]
    obtain s2 where "match_loop out (of_nat d) (of_nat f) len (of_nat (length o')) s4 =
        Some (of_nat (length (expand o' t)), s2)"
      "lz_state inp n out m (p + 1 + ?nb + 8) ?rst (expand o' t) s2" unfolding Match by auto
    then show ?thesis using nz ob s3(1) s4(1) vf vl ul by auto
  qed
  then obtain p' s2 where s2: "(if of_bits [b] = 0
        then literal_loop inp out (of_nat d) DATA_BLOB_LENGTH (of_nat (length o')) s1
        else do { nb \<leftarrow> offset_bits (of_nat (window v2)) (of_nat (length o'));
                  (offset, s3) \<leftarrow> jbi_read_packed inp nb s1;
                  (len, s4) \<leftarrow> jbi_read_packed inp CHAR_BITS s3;
                  match_loop out (of_nat d) offset (unat len) (of_nat (length o')) s4 }) =
      Some (of_nat (length (expand o' t)), s2)" "lz_state inp n out m p' ?rst (expand o' t) s2" by blast
  obtain s' where "uncompress_loop inp out (of_nat (window v2)) (of_nat d) (of_nat (length (expand o' t))) s2 = Some s'"
    "bytes_at out (foldl expand (expand o' t) ts @ replicate (m - d) 0) s'"
    using Cons.IH [OF s2(2) ts Cons.prems(3)] by blast
  then show ?case using ltw s1(1) s2(1) by (subst uncompress_loop.simps) simp
qed

section \<open>The whole function\<close>

lemma st8_frame:
  assumes "st8 a v s = Some s'"
  shows "s' = s\<lparr>mem := mem s'\<rparr>"
  using assms by (auto simp: st8_def split: if_splits)

lemma mem_frame_trans:
  assumes "s1 = s\<lparr>mem := mem s1\<rparr>" "s2 = s1\<lparr>mem := mem s2\<rparr>"
  shows "s2 = s\<lparr>mem := mem s2\<rparr>"
proof -
  have "s1\<lparr>mem := mem s2\<rparr> = s\<lparr>mem := mem s2\<rparr>" by (subst assms(1)) simp
  with assms(2) show ?thesis by (rule trans)
qed

lemma st_bytes_ok:
  assumes "\<And>l. l < length bs \<Longrightarrow> ld8 (a + of_nat l) s \<noteq> None" "length bs \<le> 4294967296"
  shows "\<exists>s'. st_bytes a bs s = Some s' \<and> bytes_at a bs s' \<and> s' = s\<lparr>mem := mem s'\<rparr> \<and>
    (\<forall>b. (\<forall>l < length bs. b \<noteq> a + of_nat l) \<longrightarrow> ld8 b s' = ld8 b s) \<and>
    (\<forall>b. ld8 b s' = None \<longleftrightarrow> ld8 b s = None)"
  using assms
proof (induction bs arbitrary: a s)
  case Nil
  then show ?case by (simp add: bytes_at_def)
next
  case (Cons x bs)
  have "ld8 a s \<noteq> None" using Cons.prems(1) [of 0] by simp
  then obtain s1 where s1: "st8 a x s = Some s1" using st8_mapped by blast
  have sh: "a + 1 + of_nat l = a + of_nat (Suc l)" for l by simp
  have m1: "ld8 (a + 1 + of_nat l) s1 \<noteq> None" if "l < length bs" for l
    using Cons.prems(1) [of "Suc l"] that st8_dom [OF s1] unfolding sh by simp
  obtain s' where s': "st_bytes (a + 1) bs s1 = Some s'" "bytes_at (a + 1) bs s'" "s' = s1\<lparr>mem := mem s'\<rparr>"
    "\<And>b. (\<forall>l < length bs. b \<noteq> a + 1 + of_nat l) \<Longrightarrow> ld8 b s' = ld8 b s1"
    "\<And>b. ld8 b s' = None \<longleftrightarrow> ld8 b s1 = None"
  proof -
    have "length bs \<le> 4294967296" using Cons.prems(2) by simp
    from Cons.IH [OF m1 this] show thesis using that by blast
  qed
  have "st_bytes a (x # bs) s = Some s'" using s1 s'(1) by simp
  moreover have "s' = s\<lparr>mem := mem s'\<rparr>" by (rule mem_frame_trans [OF st8_frame [OF s1] s'(3)])
  moreover have "ld8 b s' = ld8 b s" if that: "\<forall>l < length (x # bs). b \<noteq> a + of_nat l" for b
  proof -
    have "b \<noteq> a" using that [rule_format, of 0] by simp
    moreover have "b \<noteq> a + 1 + of_nat l" if "l < length bs" for l
      using \<open>\<forall>l < length (x # bs). b \<noteq> a + of_nat l\<close> [rule_format, of "Suc l"] that unfolding sh by simp
    ultimately show ?thesis using s'(4) ld8_st8_other [OF s1] by simp
  qed
  moreover have "bytes_at a (x # bs) s'"
    unfolding bytes_at_def
  proof (intro allI impI)
    fix l assume l: "l < length (x # bs)"
    show "ld8 (a + of_nat l) s' = Some ((x # bs) ! l)"
    proof (cases l)
      case 0
      have "a \<noteq> a + 1 + of_nat l'" if "l' < length bs" for l'
        using of_nat_inj_small [of 0 "Suc l'" a] that Cons.prems(2) unfolding sh by simp
      then show ?thesis using 0 s'(4) ld8_st8 [OF s1] by simp
    next
      case (Suc l')
      then have "ld8 (a + 1 + of_nat l') s' = Some (bs ! l')"
        using s'(2) l by (simp add: bytes_at_def)
      then show ?thesis using Suc l unfolding sh by simp
    qed
  qed
  moreover have "ld8 b s' = None \<longleftrightarrow> ld8 b s = None" for b using s'(5) st8_dom [OF s1] by simp
  ultimately show ?case by blast
qed

lemma clear_loop_st_bytes: "clear_loop out k i = st_bytes (out + i) (replicate k 0)"
proof (induction k arbitrary: i)
  case (Suc k)
  show ?case by (rule ext) (simp add: Suc add.assoc)
qed (simp add: fun_eq_iff)

lemma clear_loop_ok:
  assumes "\<And>l. l < k \<Longrightarrow> ld8 (out + i + of_nat l) s \<noteq> None" "k < 4294967296"
  shows "\<exists>s'. clear_loop out k i s = Some s' \<and> bytes_at (out + i) (replicate k 0) s' \<and>
    s' = s\<lparr>mem := mem s'\<rparr> \<and> (\<forall>a. (\<forall>l < k. a \<noteq> out + i + of_nat l) \<longrightarrow> ld8 a s' = ld8 a s) \<and>
    (\<forall>a. ld8 a s' = None \<longleftrightarrow> ld8 a s = None)"
  using st_bytes_ok [of "replicate k 0" "out + i" s] assms by (simp add: clear_loop_st_bytes)

lemma bits_of_split:
  "bits_of 32 v = bits_of 8 v @ bits_of 8 (drop_bit 8 v) @ bits_of 8 (drop_bit 16 v) @ bits_of 8 (drop_bit 24 v)"
  for v :: u32
proof (rule nth_equalityI)
  fix k assume "k < length (bits_of 32 v)"
  then show "bits_of 32 v ! k = (bits_of 8 v @ bits_of 8 (drop_bit 8 v) @ bits_of 8 (drop_bit 16 v) @
      bits_of 8 (drop_bit 24 v)) ! k"
    by (auto simp: nth_append bit_drop_bit_eq)
qed simp

lemma length_loop_ok:
  assumes "lz_state inp n out m p (bits_of 32 v @ rst) o' s"
  shows "\<exists>s'. length_loop inp 4 0 0 s = Some (v, s') \<and> lz_state inp n out m (p + 32) rst o' s'"
proof -
  note st = assms [unfolded bits_of_split append_assoc]
  have four: "(4 :: nat) = Suc (Suc (Suc (Suc 0)))" by simp
  from lz_read [OF st] obtain s1 where s1: "jbi_read_packed inp CHAR_BITS s = Some (of_bits (bits_of 8 v), s1)"
    "lz_state inp n out m (p + 8) (bits_of 8 (drop_bit 8 v) @ bits_of 8 (drop_bit 16 v) @ bits_of 8 (drop_bit 24 v) @ rst) o' s1"
    by (auto simp: CHAR_BITS_def)
  from lz_read [OF s1(2)] obtain s2 where s2: "jbi_read_packed inp CHAR_BITS s1 = Some (of_bits (bits_of 8 (drop_bit 8 v)), s2)"
    "lz_state inp n out m (p + 16) (bits_of 8 (drop_bit 16 v) @ bits_of 8 (drop_bit 24 v) @ rst) o' s2"
    by (auto simp: CHAR_BITS_def add.assoc)
  from lz_read [OF s2(2)] obtain s3 where s3: "jbi_read_packed inp CHAR_BITS s2 = Some (of_bits (bits_of 8 (drop_bit 16 v)), s3)"
    "lz_state inp n out m (p + 24) (bits_of 8 (drop_bit 24 v) @ rst) o' s3"
    by (auto simp: CHAR_BITS_def add.assoc)
  from lz_read [OF s3(2)] obtain s4 where s4: "jbi_read_packed inp CHAR_BITS s3 = Some (of_bits (bits_of 8 (drop_bit 24 v)), s4)"
    "lz_state inp n out m (p + 32) rst o' s4"
    by (auto simp: CHAR_BITS_def add.assoc)
  have val: "((of_bits (bits_of 8 v) OR push_bit 8 (of_bits (bits_of 8 (drop_bit 8 v)))) OR
      push_bit 16 (of_bits (bits_of 8 (drop_bit 16 v)))) OR push_bit 24 (of_bits (bits_of 8 (drop_bit 24 v))) = v"
  proof (rule bit_word_eqI)
    fix k :: nat assume "k < LENGTH(32)"
    then consider "k < 8" | "8 \<le> k" "k < 16" | "16 \<le> k" "k < 24" | "24 \<le> k" "k < 32" by fastforce
    then show "bit (((of_bits (bits_of 8 v) OR push_bit 8 (of_bits (bits_of 8 (drop_bit 8 v)))) OR
      push_bit 16 (of_bits (bits_of 8 (drop_bit 16 v)))) OR push_bit 24 (of_bits (bits_of 8 (drop_bit 24 v)))) k = bit v k"
      by cases (auto simp: bit_or_iff bit_push_bit_iff bit_of_bits bit_drop_bit_eq)
  qed
  have sh: "shl32 w 0 = Some w" "shl32 w CHAR_BITS = Some (push_bit 8 w)"
    "shl32 w (2 * CHAR_BITS) = Some (push_bit 16 w)" "shl32 w (3 * CHAR_BITS) = Some (push_bit 24 w)" for w
    by (simp_all add: shl32_def CHAR_BITS_def)
  have "length_loop inp 4 0 0 s = Some (v, s4)"
    unfolding four using s1(1) s2(1) s3(1) s4(1) sh val by (simp add: or.assoc)
  then show ?thesis using s4(2) by blast
qed

text \<open>
  The input and the output of a decompression: the compressed bits at \<open>inp\<close>, inside \<open>n\<close> bytes,
  and \<open>m\<close> mapped bytes at \<open>out\<close>, apart from them.
\<close>

definition uncompress_ready :: "u32 \<Rightarrow> nat \<Rightarrow> u32 \<Rightarrow> nat \<Rightarrow> bool list \<Rightarrow> jbi \<Rightarrow> bool" where
  "uncompress_ready inp n out m bits s \<longleftrightarrow> holds inp 0 bits s \<and> length bits \<le> 8 * n \<and>
     8 * n + 16 < 4294967296 \<and> m < 4294967296 \<and> sep_bytes inp n out m \<and>
     (\<forall>l < m. ld8 (out + of_nat l) s \<noteq> None)"

lemma uncompress_ok:
  assumes ready: "uncompress_ready inp n out m (compress v2 ts) s"
    and ok: "tokens_ok (window v2) d [] ts" and d: "d \<le> m"
  shows "\<exists>s'. jbi_uncompress inp in_length out (of_nat m) v2 s = Some (of_nat d, s') \<and>
    bytes_at out (foldl expand [] ts @ replicate (m - d) 0) s'"
proof -
  let ?bits = "bits_of 32 (of_nat d :: u32) @ encode_tokens (window v2) [] ts"
  have bits: "compress v2 ts = ?bits" using tokens_ok_length [OF ok] by (simp add: compress_def)
  note r = ready [unfolded uncompress_ready_def bits]
  define s1 where "s1 = s\<lparr>jbi_in_length := in_length, jbi_bits_avail := CHAR_BITS, jbi_in_index := 0\<rparr>"
  have m1: "mem s1 = mem s" by (simp add: s1_def)
  have ld1: "ld8 a s1 = ld8 a s" for a by (simp add: ld8_def m1)
  have um: "unat (of_nat m :: u32) = m" by (rule unat_of_nat_lt) (use r in simp)
  have mapped: "ld8 (out + 0 + of_nat l) s1 \<noteq> None" if "l < m" for l using r that ld1 by simp
  obtain s2 where s2: "clear_loop out m 0 s1 = Some s2" "bytes_at out (replicate m 0) s2"
    "s2 = s1\<lparr>mem := mem s2\<rparr>" "\<And>a. (\<forall>l < m. a \<noteq> out + of_nat l) \<Longrightarrow> ld8 a s2 = ld8 a s1"
    "\<And>a. ld8 a s2 = None \<longleftrightarrow> ld8 a s1 = None"
    using clear_loop_ok [OF mapped, of m] r by auto
  have "at_pos 0 8 s1" "cur_mapped inp 0 8 s1"
    by (simp_all add: at_pos_def s1_def CHAR_BITS_def cur_mapped_def)
  moreover have "holds inp 0 ?bits s1" using r get_bit_mem [OF m1] by (simp add: holds_def)
  ultimately have i1: "input_at inp 0 ?bits s1"
    unfolding input_at_def using r by (auto intro!: exI [of _ 0] exI [of _ 8])
  have "jbi_in_index s2 = jbi_in_index s1" "jbi_bits_avail s2 = jbi_bits_avail s1"
    by (subst s2(3), simp)+
  then have "input_at inp 0 ?bits s2"
    using input_at_frame [OF i1, of n out m s2] s2(4,5) r by simp
  then have st: "lz_state inp n out m 0 ?bits [] s2" using r s2(2) by (simp add: lz_state_def)
  from length_loop_ok [OF st] obtain s3 where s3: "length_loop inp 4 0 0 s2 = Some (of_nat d, s3)"
    "lz_state inp n out m 32 (encode_tokens (window v2) [] ts) [] s3" by auto
  from uncompress_loop_ok [OF s3(2) ok d] obtain s4 where
    s4: "uncompress_loop inp out (of_nat (window v2)) (of_nat d) 0 s3 = Some s4"
    "bytes_at out (foldl expand [] ts @ replicate (m - d) 0) s4" by auto
  have w: "(if v2 then MATCH_DATA_LENGTH - 1 else MATCH_DATA_LENGTH) = of_nat (window v2)"
    by (simp add: window_def MATCH_DATA_LENGTH_def)
  have "\<not> of_nat m < (of_nat d :: u32)"
    using d r by (simp add: word_less_nat_alt um unat_of_nat_lt)
  then show ?thesis
    using s2(1) s3(1) s4 w by (auto simp: jbi_uncompress_def um s1_def [symmetric])
qed

end
