(* ===== verification/JbiSample.thy ===== *)
theory JbiSample imports JbiCompProofs begin

text \<open>
  Concrete states for the examples: an empty memory, and byte lists loaded into it.
\<close>

definition jbi0 :: jbi where
  "jbi0 = \<lparr>mem = (\<lambda>_. None), blocks = (\<lambda>_. None), pool = [], pins = [],
     jtag_hardware_initialized = False, delays = [], msgs = [], fg_Data_Readback = False, pReadData = 0,
     jbi_workspace = 0, jbi_jtag_state = JBI_ILLEGAL_JTAG_STATE, jbi_drstop_state = 1,
     jbi_irstop_state = 1, jbi_dr_preamble = 0, jbi_dr_postamble = 0, jbi_ir_preamble = 0,
     jbi_ir_postamble = 0, jbi_dr_length = 0, jbi_ir_length = 0, jbi_dr_preamble_data = 0,
     jbi_dr_postamble_data = 0, jbi_ir_preamble_data = 0, jbi_ir_postamble_data = 0,
     jbi_dr_buffer = 0, jbi_ir_buffer = 0, jbi_in_length = 0, jbi_in_index = 0, jbi_bits_avail = 0\<rparr>"

definition load :: "u32 \<Rightarrow> u8 list \<Rightarrow> jbi \<Rightarrow> jbi" where
  "load p bs s = s\<lparr>mem := map_block p (length bs) (\<lambda>k. bs ! k) (mem s)\<rparr>"

lemma ld8_load:
  "ld8 a (load p bs s) = (if unat (a - p) < length bs then Some (bs ! unat (a - p)) else ld8 a s)"
  by (simp add: ld8_def load_def map_block_def)

lemma bytes_at_load:
  assumes "length bs \<le> 4294967296"
  shows "bytes_at p bs (load p bs s)"
  unfolding bytes_at_def
proof (intro allI impI)
  fix k assume k: "k < length bs"
  have "unat (p + of_nat k - p) = k" using k assms unat_of_nat_lt [of k] by simp
  then show "ld8 (p + of_nat k) (load p bs s) = Some (bs ! k)" using k by (simp add: ld8_load)
qed

lemma bytes_at_append:
  "bytes_at p (as @ bs) s \<longleftrightarrow> bytes_at p as s \<and> bytes_at (p + of_nat (length as)) bs s"
proof
  assume b: "bytes_at p (as @ bs) s"
  have "bytes_at p as s" using b by (auto simp: bytes_at_def nth_append)
  moreover have "ld8 (p + of_nat (length as) + of_nat k) s = Some (bs ! k)" if "k < length bs" for k
    using b [unfolded bytes_at_def, rule_format, of "length as + k"] that by (simp add: nth_append ac_simps)
  ultimately show "bytes_at p as s \<and> bytes_at (p + of_nat (length as)) bs s" by (simp add: bytes_at_def)
next
  assume b: "bytes_at p as s \<and> bytes_at (p + of_nat (length as)) bs s"
  show "bytes_at p (as @ bs) s"
    unfolding bytes_at_def
  proof (intro allI impI)
    fix k assume k: "k < length (as @ bs)"
    show "ld8 (p + of_nat k) s = Some ((as @ bs) ! k)"
    proof (cases "k < length as")
      case True
      then show ?thesis using b by (simp add: bytes_at_def nth_append)
    next
      case False
      then have "ld8 (p + of_nat (length as) + of_nat (k - length as)) s = Some (bs ! (k - length as))"
        using b k unfolding bytes_at_def by (metis add_diff_inverse_nat length_append nat_add_left_cancel_less)
      then show ?thesis using False by (simp add: nth_append of_nat_diff)
    qed
  qed
qed

lemma bytes_at_Cons: "bytes_at p (x # xs) s \<longleftrightarrow> ld8 p s = Some x \<and> bytes_at (p + 1) xs s"
  using bytes_at_append [of p "[x]" xs s] by (simp add: bytes_at_def)

lemma bytes_at_Nil: "bytes_at p [] s"
  by (simp add: bytes_at_def)

text \<open>Bounded quantifiers over numerals, for concrete states.\<close>

lemma all_less_simps:
  "(\<forall>k < (0::nat). P k) \<longleftrightarrow> True" "(\<forall>k < Suc n. P k) \<longleftrightarrow> P n \<and> (\<forall>k < n. P k)"
  "(\<forall>k < numeral v. P k) \<longleftrightarrow> P (pred_numeral v) \<and> (\<forall>k < pred_numeral v. P k)" for P :: "nat \<Rightarrow> bool"
  by (auto simp: less_Suc_eq numeral_eq_Suc)

end
