(* ===== verification/JbiCompProps.thy ===== *)
theory JbiCompProps imports JbiSample begin

text \<open>
  Decompression as a round trip, over the compressed format of JbiCompProofs, with a sample that
  has a match overlapping its own output.
\<close>

lemma nth_concat_bits_of:
  fixes bs :: "u8 list"
  shows "k < 8 * length bs \<Longrightarrow> concat (map (bits_of 8) bs) ! k = bit (bs ! (k div 8)) (k mod 8)"
proof (induction bs arbitrary: k)
  case (Cons b bs)
  show ?case
  proof (cases "k < 8")
    case False
    then have "k div 8 = Suc ((k - 8) div 8)" "k mod 8 = (k - 8) mod 8" by (simp_all add: div_if mod_if)
    then show ?thesis using False Cons by (simp add: nth_append)
  qed (simp add: nth_append)
qed simp

lemma length_concat_bits_of [simp]: "length (concat (map (bits_of n) bs)) = n * length bs"
  by (induction bs) simp_all

lemma holds_bytes:
  assumes "bytes_at p bs s" "8 * length bs < 4294967296"
  shows "holds p 0 (concat (map (bits_of 8) bs)) s"
  unfolding holds_def
proof (intro allI impI)
  fix k assume "k < length (concat (map (bits_of 8) bs))"
  then have k: "k < 8 * length bs" by simp
  have u: "unat (of_nat k :: u32) = 8 * (k div 8) + k mod 8"
    using k assms(2) unat_of_nat_lt [of k] by simp
  have d: "drop_bit 3 (of_nat k :: u32) = of_nat (k div 8)" by (rule drop_bit_3_pos [OF u]) simp
  have "unat (of_nat k AND 7 :: u32) = unat (take_bit 3 (of_nat k :: u32))"
    by (simp only: take_bit_eq_mask mask_eq_exp_minus_1) simp
  also have "\<dots> = take_bit 3 (unat (of_nat k :: u32))" by (rule unsigned_take_bit_eq)
  also have "\<dots> = k mod 8" unfolding u by (simp add: take_bit_eq_mod)
  finally have m: "unat (of_nat k AND 7 :: u32) = k mod 8" .
  have "ld8 (p + of_nat (k div 8)) s = Some (bs ! (k div 8))"
    using assms(1) k by (simp add: bytes_at_def)
  then show "get_bit p (0 + of_nat k) s = Some (concat (map (bits_of 8) bs) ! k)"
    using nth_concat_bits_of [OF k] d m by (simp add: get_bit_def)
qed

lemma holds_take: "holds p j bs s \<Longrightarrow> holds p j (take n bs) s"
  by (simp add: holds_def)

text \<open>
  C4. Decompression inverts compression: for every list of tokens well-formed for \<open>d\<close> bytes, in
  both versions of the format, the decoder reads the encoded bits to the end, writes exactly the
  bytes the tokens stand for, clears the rest of the output and returns \<open>d\<close>. Literal tokens alone
  encode every byte string (\<open>literals_ok\<close>).
\<close>

theorem uncompress_inverts_compress:
  assumes "uncompress_ready inp n out m (compress v2 ts) s" "tokens_ok (window v2) d [] ts" "d \<le> m"
  shows "\<exists>s'. jbi_uncompress inp in_length out (of_nat m) v2 s = Some (of_nat d, s') \<and>
    bytes_at out (foldl expand [] ts @ replicate (m - d) 0) s'"
  by (rule uncompress_ok [OF assms])

definition packed_sample :: "u8 list" where
  "packed_sample = [7, 0, 0, 0, 2, 4, 6, 78, 0]"

lemma packed_sample_bits:
  "compress True [Lit [1, 2, 3], Match 3 4] = take 68 (concat (map (bits_of 8) packed_sample))"
  by code_simp

theorem uncompress_inverts_compress_witness:
  "\<exists>s'. jbi_uncompress 0x100 9 0x200 8 True (load 0x200 (replicate 8 0xFF) (load 0x100 packed_sample jbi0)) =
      Some (7, s') \<and> bytes_at 0x200 [1, 2, 3, 1, 2, 3, 1, 0] s'"
proof -
  let ?s = "load 0x200 (replicate 8 0xFF) (load 0x100 packed_sample jbi0)"
  have "bytes_at 0x100 packed_sample ?s"
    by (simp add: packed_sample_def bytes_at_Cons bytes_at_Nil ld8_load)
  then have "holds 0x100 0 (compress True [Lit [1, 2, 3], Match 3 4]) ?s"
    unfolding packed_sample_bits by (intro holds_take holds_bytes) (simp_all add: packed_sample_def)
  moreover have "ld8 (0x200 + of_nat l) ?s \<noteq> None" if "l < 8" for l
    using that unat_of_nat_lt [of l] by (simp add: ld8_load)
  moreover have "sep_bytes 0x100 9 0x200 8"
    unfolding sep_bytes_def
  proof (intro allI impI)
    fix k l :: nat assume kl: "k < 9" "l < 8"
    show "0x100 + of_nat k \<noteq> (0x200 :: u32) + of_nat l"
      using of_nat_inj_small [of k "256 + l" "0x100"] kl by simp
  qed
  ultimately have ready: "uncompress_ready 0x100 9 0x200 8 (compress True [Lit [1, 2, 3], Match 3 4]) ?s"
    by (simp add: uncompress_ready_def packed_sample_bits packed_sample_def)
  have toks: "tokens_ok (window True) 7 [] [Lit [1, 2, 3], Match 3 4]" by code_simp
  have bytes: "foldl expand [] [Lit [1, 2, 3], Match 3 4] = [1, 2, 3, 1, 2, 3, 1]" by code_simp
  show ?thesis
    using uncompress_inverts_compress [OF ready toks, of 9] unfolding bytes by simp
qed

end
