(* ===== verification/JbiTrack.thy ===== *)
theory JbiTrack imports JbiScanProofs JbiSample begin

text \<open>
  The state of the TAP over whole runs: every operation of jbijtag.c the byte code calls, as one
  step of a run, and the proof that the recorded TAP state stays the state of the controller on
  the pins. The exception the code has, a scan of no bits, is a theorem of JbiScanProps.
\<close>

section \<open>The operations as one step\<close>

text \<open>The calls of the interpreter into jbijtag.c.\<close>

datatype jtag_op =
    Goto u32
  | Wait_cycles u32 u32
  | Wait_microseconds u32 u32
  | Drstop u32 | Irstop u32
  | Dr_preamble u32 u32 u32 | Dr_postamble u32 u32 u32
  | Ir_preamble u32 u32 u32 | Ir_postamble u32 u32 u32
  | Drscan u32 u32 u32 | Irscan u32 u32 u32
  | Swap_dr u32 u32 u32 u32 u32 | Swap_ir u32 u32 u32 u32 u32

fun jtag_call :: "((pin \<times> bool) list \<Rightarrow> u32) \<Rightarrow> jtag_op \<Rightarrow> jbi \<Rightarrow> (jbi_ret \<times> jbi) option" where
  "jtag_call rd (Goto code) s = jbi_goto_jtag_state rd code s"
| "jtag_call rd (Wait_cycles n code) s = jbi_do_wait_cycles rd n code s"
| "jtag_call rd (Wait_microseconds n code) s = jbi_do_wait_microseconds rd n code s"
| "jtag_call rd (Drstop code) s = Some (jbi_set_drstop_state code s)"
| "jtag_call rd (Irstop code) s = Some (jbi_set_irstop_state code s)"
| "jtag_call rd (Dr_preamble n i p) s = jbi_set_dr_preamble n i p s"
| "jtag_call rd (Dr_postamble n i p) s = jbi_set_dr_postamble n i p s"
| "jtag_call rd (Ir_preamble n i p) s = jbi_set_ir_preamble n i p s"
| "jtag_call rd (Ir_postamble n i p) s = jbi_set_ir_postamble n i p s"
| "jtag_call rd (Drscan n p i) s = jbi_do_drscan rd n p i s"
| "jtag_call rd (Irscan n p i) s = jbi_do_irscan rd n p i s"
| "jtag_call rd (Swap_dr n p i q j) s = jbi_swap_dr rd n p i q j s"
| "jtag_call rd (Swap_ir n p i q j) s = jbi_swap_ir rd n p i q j s"

text \<open>
  The calls that keep the record right: a cycle wait names a state the TAP can stay in, a scan
  has at least one bit, padding included (and the sum fits the loop's int).
\<close>

definition dr_bits :: "u32 \<Rightarrow> jbi \<Rightarrow> int" where
  "dr_bits n s = sint (jbi_dr_preamble s + n + jbi_dr_postamble s)"

definition ir_bits :: "u32 \<Rightarrow> jbi \<Rightarrow> int" where
  "ir_bits n s = sint (jbi_ir_preamble s + n + jbi_ir_postamble s)"

fun call_safe :: "jtag_op \<Rightarrow> jbi \<Rightarrow> bool" where
  "call_safe (Wait_cycles n code) s \<longleftrightarrow>
     sint n \<le> 0 \<or> code \<in> state_code ` {RESET, IDLE, DRSHIFT, DRPAUSE, IRSHIFT, IRPAUSE}"
| "call_safe (Drscan n p i) s \<longleftrightarrow> 0 < dr_bits n s"
| "call_safe (Irscan n p i) s \<longleftrightarrow> 0 < ir_bits n s"
| "call_safe (Swap_dr n p i q j) s \<longleftrightarrow> 0 < dr_bits n s"
| "call_safe (Swap_ir n p i q j) s \<longleftrightarrow> 0 < ir_bits n s"
| "call_safe _ s \<longleftrightarrow> True"

inductive jtag_run :: "((pin \<times> bool) list \<Rightarrow> u32) \<Rightarrow> jbi \<Rightarrow> bool" for rd where
  start: "jtag_run rd (snd (jbi_init_jtag s))"
| call: "jtag_run rd s \<Longrightarrow> call_safe op s \<Longrightarrow> jtag_call rd op s = Some (r, s') \<Longrightarrow> jtag_run rd s'"

section \<open>What leaves the TAP alone\<close>

text \<open>The recorded state and the cycles on the pins are all that tracking depends on.\<close>

definition same_tap :: "jbi \<Rightarrow> jbi \<Rightarrow> bool" where
  "same_tap s s' \<longleftrightarrow> pins s' = pins s \<and> jbi_jtag_state s' = jbi_jtag_state s"

lemma same_tap_refl [simp]: "same_tap s s"
  by (simp add: same_tap_def)

lemma same_tap_trans: "same_tap r s \<Longrightarrow> same_tap s t \<Longrightarrow> same_tap r t"
  by (simp add: same_tap_def)

lemma same_tap_tracks: "same_tap s s' \<Longrightarrow> tracks s \<Longrightarrow> tracks s'"
  by (simp add: same_tap_def tracks_def tap_of_def)

lemma same_tap_st8: "st8 a v s = Some s' \<Longrightarrow> same_tap s s'"
  by (auto simp: st8_def same_tap_def split: if_splits)

lemma same_tap_put_bit: "put_bit p i v s = Some s' \<Longrightarrow> same_tap s s'"
  by (auto simp: put_bit_def dest: same_tap_st8 split: bind_splits)

lemma same_tap_free: "jbi_free p s = Some s' \<Longrightarrow> same_tap s s'"
  by (auto simp: jbi_free_def same_tap_def split: if_splits option.splits)

lemma same_tap_malloc: "jbi_malloc n s = (p, s') \<Longrightarrow> same_tap s s'"
  by (auto simp: jbi_malloc_def same_tap_def split: if_splits list.splits prod.splits)

lemma same_tap_copy: "copy_bits n src j dst i s = Some s' \<Longrightarrow> same_tap s s'"
proof (induction n arbitrary: i j s)
  case (Suc n)
  then show ?case by (auto dest: same_tap_put_bit intro: same_tap_trans split: bind_splits)
qed simp

lemma same_tap_padding_loop: "padding_loop data st dst n i s = Some s' \<Longrightarrow> same_tap s s'"
proof (induction n arbitrary: i s)
  case (Suc n)
  then show ?case
    by (auto dest: same_tap_put_bit intro: same_tap_trans split: bind_splits if_splits)
qed simp

lemma same_tap_padding_room:
  "padding_room limit count cur dst s = Some (r, n, p, s') \<Longrightarrow> same_tap s s'"
  by (auto simp: padding_room_def Let_def split: if_splits bind_splits prod.splits
      dest: same_tap_free same_tap_malloc intro: same_tap_trans)

lemma same_tap_scan_room:
  "scan_room limit count buf len s = Some (r, p, n, s') \<Longrightarrow> same_tap s s'"
  by (auto simp: scan_room_def Let_def split: if_splits bind_splits prod.splits
      dest: same_tap_free same_tap_malloc intro: same_tap_trans)

lemma same_tap_concatenate:
  "jbi_jtag_concatenate_data b p n q i m r k s = Some s' \<Longrightarrow> same_tap s s'"
  by (auto simp: jbi_jtag_concatenate_data_def Let_def split: bind_splits
      dest!: same_tap_copy intro: same_tap_trans)

lemma same_tap_extract:
  "jbi_jtag_extract_target_data b p i n m s = Some s' \<Longrightarrow> same_tap s s'"
  by (auto simp: jbi_jtag_extract_target_data_def dest: same_tap_copy)

lemma same_tap_upd:
  "same_tap s s' \<Longrightarrow> same_tap s (s'\<lparr>jbi_dr_preamble := n, jbi_dr_preamble_data := p\<rparr>)"
  "same_tap s s' \<Longrightarrow> same_tap s (s'\<lparr>jbi_dr_postamble := n, jbi_dr_postamble_data := p\<rparr>)"
  "same_tap s s' \<Longrightarrow> same_tap s (s'\<lparr>jbi_ir_preamble := n, jbi_ir_preamble_data := p\<rparr>)"
  "same_tap s s' \<Longrightarrow> same_tap s (s'\<lparr>jbi_ir_postamble := n, jbi_ir_postamble_data := p\<rparr>)"
  "same_tap s s' \<Longrightarrow> same_tap s (s'\<lparr>jbi_dr_buffer := p, jbi_dr_length := n\<rparr>)"
  "same_tap s s' \<Longrightarrow> same_tap s (s'\<lparr>jbi_ir_buffer := p, jbi_ir_length := n\<rparr>)"
  by (simp_all add: same_tap_def)

lemma same_tap_room:
  "dr_room n s = Some (r, s') \<Longrightarrow> same_tap s s'"
  "ir_room n s = Some (r, s') \<Longrightarrow> same_tap s s'"
  by (auto simp: dr_room_def ir_room_def split: bind_splits
      dest!: same_tap_scan_room intro: same_tap_upd)

text \<open>The four padding setters move nothing.\<close>

lemma same_tap_padding:
  "jbi_set_dr_preamble n i p s = Some (r, s') \<Longrightarrow> same_tap s s'"
  "jbi_set_dr_postamble n i p s = Some (r, s') \<Longrightarrow> same_tap s s'"
  "jbi_set_ir_preamble n i p s = Some (r, s') \<Longrightarrow> same_tap s s'"
  "jbi_set_ir_postamble n i p s = Some (r, s') \<Longrightarrow> same_tap s s'"
  unfolding jbi_set_dr_preamble_def jbi_set_dr_postamble_def jbi_set_ir_preamble_def
    jbi_set_ir_postamble_def Let_def
  by (auto split: bind_splits if_splits dest!: same_tap_padding_room same_tap_padding_loop
      intro: same_tap_upd same_tap_trans) (simp_all add: same_tap_def)

section \<open>What a scan does to the TAP\<close>

text \<open>Whatever the buffers hold, \<open>n\<close> turns of the loop are \<open>n\<close> cycles, TMS high in the last.\<close>

lemma shift_loop_cycles:
  assumes "shift_loop rd tdi tdo n i s = Some s'"
  shows "\<exists>bs. length bs = n \<and> cycles s' = cycles s @ scan_cycles bs \<and>
    jbi_jtag_state s' = jbi_jtag_state s"
  using assms
proof (induction n arbitrary: i s)
  case (Suc n)
  obtain b where b: "get_bit tdi i s = Some b" using Suc.prems by (auto split: bind_splits)
  obtain v s1 where io: "jbi_jtag_io rd (n = 0) b (tdo \<noteq> 0) s = (v, s1)" by fastforce
  obtain s2 where s2: "(if tdo \<noteq> 0 then put_bit tdo i (v \<noteq> 0) s1 else Some s1) = Some s2"
    "shift_loop rd tdi tdo n (i + 1) s2 = Some s'"
    using Suc.prems b io by (auto split: bind_splits if_splits)
  have s1: "cycles s1 = cycles s @ [(n = 0, b)]" "jbi_jtag_state s1 = jbi_jtag_state s"
    using jtag_io_cycle [of rd "n = 0" b "tdo \<noteq> 0" s] io
      same_but_pins_state(1) [OF jtag_io_frame, of rd "n = 0" b "tdo \<noteq> 0" s] by simp_all
  have t: "same_tap s1 s2" using s2(1) same_tap_put_bit by (auto split: if_splits)
  obtain bs where bs: "length bs = n" "cycles s' = cycles s2 @ scan_cycles bs"
    "jbi_jtag_state s' = jbi_jtag_state s2"
    using Suc.IH [OF s2(2)] by blast
  have "cycles s' = cycles s @ scan_cycles (b # bs)"
    using bs s1(1) t by (auto simp: same_tap_def cycles_def)
  then show ?case using bs(1,3) s1(2) t by (intro exI [of _ "b # bs"]) (simp add: same_tap_def)
qed simp

context scan_register begin

text \<open>A loop of at least one turn, entered in the start state, ends in the pause state.\<close>

lemma shift_ends:
  assumes c: "c < 3" and loop: "shift_loop rd tdi tdo n 0 (clock rd (tms_seq (entry c)) s) = Some s1"
    and n: "0 < n"
  shows "\<exists>cs. cycles (clock rd [(False, False)] s1) = cycles s @ cs \<and> tap_run (start_of c) cs = pause"
proof -
  obtain bs where bs: "length bs = n" "cycles s1 = cycles (clock rd (tms_seq (entry c)) s) @ scan_cycles bs"
    using shift_loop_cycles [OF loop] by blast
  have "bs \<noteq> []" using bs(1) n by auto
  let ?cs = "tms_seq (entry c) @ scan_cycles bs @ [(False, False)]"
  have "cycles (clock rd [(False, False)] s1) = cycles s @ ?cs"
    using bs(2) by (simp add: clock_cycles del: clock_Cons)
  moreover have "tap_run (start_of c) ?cs = pause"
    using scan_trace(1) [OF c \<open>bs \<noteq> []\<close>] by simp
  ultimately show ?thesis by blast
qed

end

lemma scan_start_code:
  "snd (scan_start st) = start_of (fst (scan_start st)) \<and> fst (scan_start st) < 3"
  by (auto simp: scan_start_def start_of_def)

lemma goto_start_tracks:
  assumes "tracks s" "goto_start rd st s = Some r" "st \<noteq> JBI_ILLEGAL_JTAG_STATE"
  shows "tracks (snd r) \<and> (fst r = JBIC_SUCCESS \<longrightarrow> jbi_jtag_state (snd r) = st)"
proof (cases "jbi_jtag_state s = st")
  case False
  then have "jbi_goto_jtag_state rd (state_code st) s = Some (fst r, snd r)"
    using assms(2) by (simp add: goto_start_def)
  from goto_keeps_tracking [OF assms(1) this] show ?thesis by (simp add: state_code_inj)
qed (use assms in \<open>auto simp: goto_start_def\<close>)

text \<open>The scan itself, from the start state to the pause state.\<close>

lemma drscan_tracks:
  assumes tr: "tracks s" and st: "jbi_jtag_state s = start_of c" and c: "c < 3"
    and tap: "same_tap s s1" and scan: "jbi_jtag_drscan rd c count tdi tdo s1 = Some (ok, s2)"
    and n: "0 < sint count"
  shows "tracks (s2\<lparr>jbi_jtag_state := DRPAUSE\<rparr>)"
proof -
  obtain s3 where s3: "shift_loop rd tdi tdo (nat (sint count)) 0 (clock rd (tms_seq (dr_entry c)) s1) = Some s3"
    "s2 = clock rd [(False, False)] s3"
    using scan unfolding drscan_form [OF c] by (auto split: bind_splits simp del: clock_Cons)
  obtain cs where cs: "cycles s2 = cycles s1 @ cs" "tap_run (start_of c) cs = DRPAUSE"
    using dr.shift_ends [OF c s3(1)] n unfolding s3(2) by auto
  have "jbi_jtag_state s \<noteq> JBI_ILLEGAL_JTAG_STATE" unfolding st by (simp add: start_of_def)
  then show ?thesis
    using tracks_extend [OF tr, of "s2\<lparr>jbi_jtag_state := DRPAUSE\<rparr>" cs] cs tap st
    by (simp add: same_tap_def cycles_def)
qed

lemma irscan_tracks:
  assumes tr: "tracks s" and st: "jbi_jtag_state s = start_of c" and c: "c < 3"
    and tap: "same_tap s s1" and scan: "jbi_jtag_irscan rd c count tdi tdo s1 = Some (ok, s2)"
    and n: "0 < sint count"
  shows "tracks (s2\<lparr>jbi_jtag_state := IRPAUSE\<rparr>)"
proof -
  obtain s3 where s3: "shift_loop rd tdi tdo (nat (sint count)) 0 (clock rd (tms_seq (ir_entry c)) s1) = Some s3"
    "s2 = clock rd [(False, False)] s3"
    using scan unfolding irscan_form [OF c] by (auto split: bind_splits simp del: clock_Cons)
  obtain cs where cs: "cycles s2 = cycles s1 @ cs" "tap_run (start_of c) cs = IRPAUSE"
    using ir.shift_ends [OF c s3(1)] n unfolding s3(2) by auto
  have "jbi_jtag_state s \<noteq> JBI_ILLEGAL_JTAG_STATE" unfolding st by (simp add: start_of_def)
  then show ?thesis
    using tracks_extend [OF tr, of "s2\<lparr>jbi_jtag_state := IRPAUSE\<rparr>" cs] cs tap st
    by (simp add: same_tap_def cycles_def)
qed

text \<open>
  The shape the four scans share: move to the start state, make room, scan, move to the stop
  state and, for a swap, hand the bits back.
\<close>

lemma on_success_tracks:
  assumes "on_success f r = Some r'" "tracks (snd r)"
    "\<And>q. fst r = JBIC_SUCCESS \<Longrightarrow> f (snd r) = Some q \<Longrightarrow> tracks (snd q)"
  shows "tracks (snd r')"
  using assms by (auto simp: on_success_def split: if_splits)

lemma scan_shape_tracks:
  assumes tr: "tracks s" and st: "st \<noteq> JBI_ILLEGAL_JTAG_STATE"
    and room: "\<And>s q t. room s = Some (q, t) \<Longrightarrow> same_tap s t"
    and body: "\<And>s q. tracks s \<Longrightarrow> jbi_jtag_state s = st \<Longrightarrow> body s = Some q \<Longrightarrow> tracks (snd q)"
    and run: "do { r1 \<leftarrow> goto_start rd st s; r2 \<leftarrow> on_success room r1; r3 \<leftarrow> on_success body r2;
                   on_success (\<lambda>s. if code s \<noteq> pause then jbi_goto_jtag_state rd (code s) s
                                   else Some (JBIC_SUCCESS, s)) r3 } = Some r4"
  shows "tracks (snd r4)"
proof -
  obtain r1 r2 r3 where r: "goto_start rd st s = Some r1" "on_success room r1 = Some r2"
    "on_success body r2 = Some r3" "on_success (\<lambda>s. if code s \<noteq> pause then jbi_goto_jtag_state rd (code s) s
       else Some (JBIC_SUCCESS, s)) r3 = Some r4"
    using run by (auto simp: Option.bind_eq_Some_conv)
  have t1: "tracks (snd r1)" "fst r1 = JBIC_SUCCESS \<longrightarrow> jbi_jtag_state (snd r1) = st"
    using goto_start_tracks [OF tr r(1) st] by simp_all
  have t2: "same_tap (snd r1) (snd r2)" "fst r2 = JBIC_SUCCESS \<longrightarrow> fst r1 = JBIC_SUCCESS"
    using r(2) room [of "snd r1" "fst r2" "snd r2"] by (auto simp: on_success_def split: if_splits)
  have "tracks (snd r2)" using t2(1) t1(1) by (rule same_tap_tracks)
  then have "tracks (snd r3)"
    by (rule on_success_tracks [OF r(3)])
      (use t1 t2 \<open>tracks (snd r2)\<close> body [of "snd r2"] in \<open>auto simp: same_tap_def\<close>)
  then show ?thesis
  proof (rule on_success_tracks [OF r(4)])
    fix q
    assume "(if code (snd r3) \<noteq> pause then jbi_goto_jtag_state rd (code (snd r3)) (snd r3)
      else Some (JBIC_SUCCESS, snd r3)) = Some q"
    then show "tracks (snd q)"
      using \<open>tracks (snd r3)\<close> goto_keeps_tracking [of "snd r3" rd "code (snd r3)" "fst q" "snd q"]
      by (auto split: if_splits)
  qed
qed

lemma swap_shape_tracks:
  assumes four: "\<And>r4. do { r1 \<leftarrow> a; r2 \<leftarrow> b r1; r3 \<leftarrow> c r2; d r3 } = Some r4 \<Longrightarrow> tracks (snd r4)"
    and run: "do { r1 \<leftarrow> a; r2 \<leftarrow> b r1; r3 \<leftarrow> c r2; r4 \<leftarrow> d r3;
                   on_success (\<lambda>s. do { s1 \<leftarrow> jbi_jtag_extract_target_data (buf s) q j (pre s) n s;
                                        Some (JBIC_SUCCESS, s1) }) r4 } = Some (r, s')"
  shows "tracks s'"
proof -
  obtain r4 where r4: "do { r1 \<leftarrow> a; r2 \<leftarrow> b r1; r3 \<leftarrow> c r2; d r3 } = Some r4"
    "on_success (\<lambda>s. do { s1 \<leftarrow> jbi_jtag_extract_target_data (buf s) q j (pre s) n s;
       Some (JBIC_SUCCESS, s1) }) r4 = Some (r, s')"
    using run by (auto simp: Option.bind_eq_Some_conv)
  have "tracks (snd (r, s'))"
    by (rule on_success_tracks [OF r4(2) four [OF r4(1)]])
      (auto split: bind_splits dest!: same_tap_extract intro: same_tap_tracks [OF _ four [OF r4(1)]])
  then show ?thesis by simp
qed

lemma scan_start_legal: "snd (scan_start st) \<noteq> JBI_ILLEGAL_JTAG_STATE"
  by (simp add: scan_start_def)

text \<open>What the third stage does in the start state, for both registers.\<close>

lemma dr_body_tracks:
  assumes "tracks s" "jbi_jtag_state s = start_of c" "c < 3" "0 < sint count"
    "do { s1 \<leftarrow> jbi_jtag_concatenate_data buf p n tdi i m q k s;
          (ok, s2) \<leftarrow> jbi_jtag_drscan rd c count (tin s1) (tout s1) s1;
          Some (JBIC_SUCCESS, s2\<lparr>jbi_jtag_state := DRPAUSE\<rparr>) } = Some r"
  shows "tracks (snd r)"
  using assms drscan_tracks [OF assms(1,2,3) same_tap_concatenate _ assms(4)]
  by (auto simp: Option.bind_eq_Some_conv)

lemma ir_body_tracks:
  assumes "tracks s" "jbi_jtag_state s = start_of c" "c < 3" "0 < sint count"
    "do { s1 \<leftarrow> jbi_jtag_concatenate_data buf p n tdi i m q k s;
          (ok, s2) \<leftarrow> jbi_jtag_irscan rd c count (tin s1) (tout s1) s1;
          Some (JBIC_SUCCESS, s2\<lparr>jbi_jtag_state := IRPAUSE\<rparr>) } = Some r"
  shows "tracks (snd r)"
  using assms irscan_tracks [OF assms(1,2,3) same_tap_concatenate _ assms(4)]
  by (auto simp: Option.bind_eq_Some_conv)

lemma do_drscan_tracks:
  assumes tr: "tracks s" and n: "0 < dr_bits count s" and run: "jbi_do_drscan rd count p i s = Some (r, s')"
  shows "tracks s'"
proof -
  obtain c st where c: "scan_start (jbi_jtag_state s) = (c, st)" by fastforce
  have st: "st = start_of c" "c < 3" "st \<noteq> JBI_ILLEGAL_JTAG_STATE"
    using scan_start_code [of "jbi_jtag_state s"] scan_start_legal [of "jbi_jtag_state s"] c by simp_all
  show ?thesis
    using scan_shape_tracks [OF tr st(3) same_tap_room(1) dr_body_tracks [OF _ _ st(2) n [unfolded dr_bits_def]]
      run [unfolded jbi_do_drscan_def Let_def c prod.case]] st(1) by simp
qed

lemma do_irscan_tracks:
  assumes tr: "tracks s" and n: "0 < ir_bits count s" and run: "jbi_do_irscan rd count p i s = Some (r, s')"
  shows "tracks s'"
proof -
  obtain c st where c: "scan_start (jbi_jtag_state s) = (c, st)" by fastforce
  have st: "st = start_of c" "c < 3" "st \<noteq> JBI_ILLEGAL_JTAG_STATE"
    using scan_start_code [of "jbi_jtag_state s"] scan_start_legal [of "jbi_jtag_state s"] c by simp_all
  show ?thesis
    using scan_shape_tracks [OF tr st(3) same_tap_room(2) ir_body_tracks [OF _ _ st(2) n [unfolded ir_bits_def]]
      run [unfolded jbi_do_irscan_def Let_def c prod.case]] st(1) by simp
qed

lemma swap_dr_tracks:
  assumes tr: "tracks s" and n: "0 < dr_bits count s"
    and run: "jbi_swap_dr rd count p i q j s = Some (r, s')"
  shows "tracks s'"
proof -
  obtain c st where c: "scan_start (jbi_jtag_state s) = (c, st)" by fastforce
  have st: "st = start_of c" "c < 3" "st \<noteq> JBI_ILLEGAL_JTAG_STATE"
    using scan_start_code [of "jbi_jtag_state s"] scan_start_legal [of "jbi_jtag_state s"] c by simp_all
  show ?thesis
    using swap_shape_tracks [OF scan_shape_tracks [OF tr st(3) same_tap_room(1)
        dr_body_tracks [OF _ _ st(2) n [unfolded dr_bits_def]]]
      run [unfolded jbi_swap_dr_def Let_def c prod.case]] st(1) by simp
qed

lemma swap_ir_tracks:
  assumes tr: "tracks s" and n: "0 < ir_bits count s"
    and run: "jbi_swap_ir rd count p i q j s = Some (r, s')"
  shows "tracks s'"
proof -
  obtain c st where c: "scan_start (jbi_jtag_state s) = (c, st)" by fastforce
  have st: "st = start_of c" "c < 3" "st \<noteq> JBI_ILLEGAL_JTAG_STATE"
    using scan_start_code [of "jbi_jtag_state s"] scan_start_legal [of "jbi_jtag_state s"] c by simp_all
  show ?thesis
    using swap_shape_tracks [OF scan_shape_tracks [OF tr st(3) same_tap_room(2)
        ir_body_tracks [OF _ _ st(2) n [unfolded ir_bits_def]]]
      run [unfolded jbi_swap_ir_def Let_def c prod.case]] st(1) by simp
qed

section \<open>Waits\<close>

lemma wait_cycles_tracks:
  assumes tr: "tracks s" and safe: "call_safe (Wait_cycles n code) s"
    and run: "jbi_do_wait_cycles rd n code s = Some (r, s')"
  shows "tracks s'"
proof (cases "sint n \<le> 0")
  case True
  then have "(if state_code (jbi_jtag_state s) \<noteq> code then jbi_goto_jtag_state rd code s
      else Some (JBIC_SUCCESS, s)) = Some (r, s')"
    using run unfolding jbi_do_wait_cycles_def Option.bind_eq_Some_conv by (auto split: if_splits)
  then show ?thesis using tr goto_keeps_tracking [of s rd code r s'] by (auto split: if_splits)
next
  case False
  then obtain t where t: "code = state_code t" "stable_state t"
    using safe by (auto simp: stable_state_def simp del: state_code.simps)
  then show ?thesis using wait_cycles_stable [OF tr t(2), of rd n] run by auto
qed

lemma wait_microseconds_tracks:
  assumes tr: "tracks s" and run: "jbi_do_wait_microseconds rd n code s = Some (r, s')"
  shows "tracks s'"
proof -
  obtain status s1 where s1: "(if jbi_jtag_state s \<noteq> JBI_ILLEGAL_JTAG_STATE
        \<and> state_code (jbi_jtag_state s) \<noteq> code
      then jbi_goto_jtag_state rd code s else Some (JBIC_SUCCESS, s)) = Some (status, s1)"
    "s' = (if status = JBIC_SUCCESS then jbi_delay n s1 else s1)"
    using run unfolding jbi_do_wait_microseconds_def Option.bind_eq_Some_conv by auto
  have "tracks s1" using s1(1) tr goto_keeps_tracking [of s rd code status s1] by (auto split: if_splits)
  moreover have "same_tap s1 s'" using s1(2) by (simp add: same_tap_def jbi_delay_def Let_def)
  ultimately show ?thesis using same_tap_tracks by blast
qed

section \<open>Runs\<close>

lemma jtag_call_tracks:
  assumes "tracks s" "call_safe op s" "jtag_call rd op s = Some (r, s')"
  shows "tracks s'"
proof (cases op)
  case (Goto code)
  then show ?thesis using assms goto_keeps_tracking [of s rd code r s'] by simp
next
  case (Wait_cycles n code)
  then show ?thesis using assms wait_cycles_tracks [of s n code rd r s'] by simp
qed (use assms in \<open>auto simp: jbi_set_drstop_state_def jbi_set_irstop_state_def
      same_tap_def intro: wait_microseconds_tracks do_drscan_tracks do_irscan_tracks swap_dr_tracks swap_ir_tracks
      same_tap_tracks dest: same_tap_padding\<close>)

text \<open>
  C3. Take any run of calls from \<open>jbi_init_jtag\<close> whose scans shift at least one bit, preamble and
  postamble included, and whose waits of one cycle or more are in a stable state (reset, idle, or a shift or pause state).
  In every state it reaches, the recorded TAP state is unknown or is the state of the TAP controller on
  the pins, whatever that was at power-on and whatever the target drives on TDO; calls that fail are
  included. A scan of no bits does lose track: \<open>empty_scan_loses_track\<close> in \<open>JbiScanProps\<close>.
\<close>

theorem tap_state_tracked:
  assumes "jtag_run rd s" "p \<noteq> JBI_ILLEGAL_JTAG_STATE"
  shows "jbi_jtag_state s = JBI_ILLEGAL_JTAG_STATE \<or> tap_of p s = jbi_jtag_state s"
proof -
  from assms(1) have "tracks s"
  proof (induction rule: jtag_run.induct)
    case (start s)
    show ?case by (simp add: jbi_init_jtag_def Let_def tracks_def)
  next
    case (call s op r s')
    then show ?case by (blast intro: jtag_call_tracks)
  qed
  then show ?thesis using assms(2) by (auto simp: tracks_def)
qed

theorem tap_state_tracked_witness:
  "\<exists>s. jbi_jtag_state s = DRPAUSE \<and> tap_of RESET s = DRPAUSE \<and> jtag_run (\<lambda>_. 0) s"
proof -
  let ?s = "snd (jbi_init_jtag jbi0)"
  have "tracks ?s" by (simp add: jbi_init_jtag_def Let_def tracks_def)
  then obtain s' where s': "jbi_goto_jtag_state (\<lambda>_. 0) (state_code DRPAUSE) ?s = Some (JBIC_SUCCESS, s')"
    "jbi_jtag_state s' = DRPAUSE"
    using goto_reaches [of ?s DRPAUSE "\<lambda>_. 0"] by blast
  have "jtag_run (\<lambda>_. 0) s'"
    by (rule jtag_run.call [OF jtag_run.start, of "Goto (state_code DRPAUSE)" _ _ JBIC_SUCCESS])
      (use s' in \<open>simp_all del: state_code.simps\<close>)
  then show ?thesis using tap_state_tracked [of "\<lambda>_. 0" s' RESET] s'(2) by auto
qed

end
