(* ===== verification/JbiScanProps.thy ===== *)
theory JbiScanProps imports JbiTrack begin

text \<open>
  What one operation of jbijtag.c does, for a concrete chain and in general: moves, waits, scans
  with and without capture, and the scan of no bits.
\<close>

section \<open>A sample chain\<close>

text \<open>
  A target that drives TDO with the TDI it sees, one preamble bit in front of a scan, buffers of
  16 bits, the bits to scan at 0x200 and room for captured bits at 0x400.
\<close>

definition echo_target :: "(pin \<times> bool) list \<Rightarrow> u32" where
  "echo_target ps = of_bool (list_ex (\<lambda>e. e = (TDI_PIN, True)) (drop (length ps - 3) ps))"

lemma echo_bits [simp]: "tdo_bits echo_target ps cs = map snd cs"
  by (induction cs arbitrary: ps) (auto simp: echo_target_def)

lemma snd_scan_cycles [simp]: "map snd (scan_cycles bs) = bs"
  by (induction bs) simp_all

definition scan_mem :: jbi where
  "scan_mem = (load 0x400 [0, 0] (load 0x300 [0, 0] (load 0x200 [5, 0] (load 0x100 [1] jbi0))))
     \<lparr>jbi_dr_preamble := 1, jbi_dr_preamble_data := 0x100, jbi_dr_length := 16, jbi_dr_buffer := 0x300,
      jbi_drstop_state := state_code IDLE, jbi_ir_preamble := 1, jbi_ir_preamble_data := 0x100,
      jbi_ir_length := 16, jbi_ir_buffer := 0x300, jbi_irstop_state := state_code IRPAUSE\<rparr>"

definition scan_sample :: jbi where
  "scan_sample = jbi_jtag_reset_idle echo_target scan_mem"

lemma scan_sample_facts:
  "tracks scan_sample" "jbi_jtag_state scan_sample = IDLE" "base scan_sample = base scan_mem"
  unfolding scan_sample_def by (rule tracks_reset_idle reset_idle_facts(2) base_reset_idle)+

lemma scan_sample_fields:
  "jbi_dr_preamble scan_sample = 1" "jbi_dr_preamble_data scan_sample = 0x100"
  "jbi_dr_postamble scan_sample = 0" "jbi_dr_postamble_data scan_sample = 0"
  "jbi_ir_preamble scan_sample = 1" "jbi_ir_preamble_data scan_sample = 0x100"
  "jbi_ir_postamble scan_sample = 0" "jbi_ir_postamble_data scan_sample = 0"
  "jbi_dr_buffer scan_sample = 0x300" "jbi_ir_buffer scan_sample = 0x300"
  "jbi_dr_length scan_sample = 16" "jbi_ir_length scan_sample = 16" "jbi_workspace scan_sample = 0"
  "jbi_drstop_state scan_sample = state_code IDLE" "jbi_irstop_state scan_sample = state_code IRPAUSE"
  by (simp_all add: base_fields [OF scan_sample_facts(3)] scan_mem_def load_def jbi0_def del: state_code.simps)

lemma get_bit_scan_sample:
  "get_bit p i scan_sample = map_option (\<lambda>b. bit b (unat (i AND 7))) (ld8 (p + drop_bit 3 i)
     (load 0x400 [0, 0] (load 0x300 [0, 0] (load 0x200 [5, 0] (load 0x100 [1] jbi0)))))"
  by (simp add: get_bit_def ld8_def base_fields(1) [OF scan_sample_facts(3)] scan_mem_def)

lemma scan_sample_ready:
  "scan_ready 0x300 0x100 [True] 0x200 0 [True, False, True] 0 [] scan_sample"
  "dr_scan_ready [True] 0x200 0 [True, False, True] [] scan_sample"
  "ir_scan_ready [True] 0x200 0 [True, False, True] [] scan_sample"
proof -
  show r: "scan_ready 0x300 0x100 [True] 0x200 0 [True, False, True] 0 [] scan_sample"
    by (simp add: scan_ready_def holds_def mapped_bits_def apart_def bit_addr_def get_bit_scan_sample
        ld8_load all_less_simps)
  show "dr_scan_ready [True] 0x200 0 [True, False, True] [] scan_sample"
    "ir_scan_ready [True] 0x200 0 [True, False, True] [] scan_sample"
    using r by (simp_all add: dr_scan_ready_def ir_scan_ready_def scan_sample_fields dr_has_room_def
        ir_has_room_def)
qed

lemma scan_sample_out:
  "mapped_bits 0x400 0 (length [True, False, True]) scan_sample"
  "apart 0x300 (of_nat (length [True])) (length [True, False, True]) 0x400 0 (length [True, False, True])"
  by (simp_all add: mapped_bits_def apart_def bit_addr_def get_bit_scan_sample ld8_load all_less_simps)

section \<open>Moves and waits\<close>

text \<open>
  A move to any TAP state succeeds within 14 cycles, from a state that is known or not: the
  state is then recorded, and the TAP is in it whatever its state was at power-on. Nothing but
  the pins and the recorded state changes.
\<close>

theorem goto_reaches_target:
  assumes "tracks s" "t \<noteq> JBI_ILLEGAL_JTAG_STATE"
  shows "\<exists>s' cs. jbi_goto_jtag_state rd (state_code t) s = Some (JBIC_SUCCESS, s') \<and>
    jbi_jtag_state s' = t \<and> base s' = base s \<and> cycles s' = cycles s @ cs \<and> length cs \<le> 14 \<and>
    (\<forall>p. p = JBI_ILLEGAL_JTAG_STATE \<or> tap_of p s' = t)"
proof -
  obtain s' cs where s': "jbi_goto_jtag_state rd (state_code t) s = Some (JBIC_SUCCESS, s')"
    "jbi_jtag_state s' = t" "tracks s'" "cycles s' = cycles s @ cs" "length cs \<le> 14"
    using goto_reaches [OF assms] by blast
  have "(\<forall>p. p = JBI_ILLEGAL_JTAG_STATE \<or> tap_of p s' = t)"
    using s'(2,3) assms(2) by (auto simp: tracks_def)
  then show ?thesis using s' base_goto [OF s'(1)] by blast
qed

theorem goto_reaches_target_witness:
  "\<exists>s' cs. jbi_goto_jtag_state echo_target (state_code DRPAUSE) jbi0 = Some (JBIC_SUCCESS, s') \<and>
    jbi_jtag_state s' = DRPAUSE \<and> base s' = base jbi0 \<and> cycles s' = cycles jbi0 @ cs \<and> length cs \<le> 14 \<and>
    (\<forall>p. p = JBI_ILLEGAL_JTAG_STATE \<or> tap_of p s' = DRPAUSE)"
  by (rule goto_reaches_target) (simp_all add: tracks_def jbi0_def)

text \<open>
  Waiting \<open>n\<close> cycles in one of the six states the TAP can stay in moves there when needed
  (at most 14 cycles) and then gives exactly \<open>n\<close> cycles, none when \<open>n\<close> is not positive, after
  which the TAP is still in that state.
\<close>

theorem wait_cycles_exact:
  assumes "tracks s" "stable_state t"
  shows "\<exists>s' cs. jbi_do_wait_cycles rd n (state_code t) s = Some (JBIC_SUCCESS, s') \<and>
    cycles s' = cycles s @ cs @ replicate (nat (sint n)) (t = RESET, False) \<and> length cs \<le> 14 \<and>
    jbi_jtag_state s' = t \<and> tap_of IDLE s' = t \<and> mem s' = mem s"
proof -
  obtain s' where s': "jbi_do_wait_cycles rd n (state_code t) s = Some (JBIC_SUCCESS, s')"
    "tracks s'" "jbi_jtag_state s' = t" "mem s' = mem s"
    "\<exists>cs. cycles s' = cycles s @ cs @ replicate (nat (sint n)) (t = RESET, False) \<and> length cs \<le> 14"
    using wait_cycles_stable [OF assms] by blast
  have "tap_of IDLE s' = t" using s'(2,3) assms(2) by (auto simp: tracks_def stable_state_def)
  then show ?thesis using s' by blast
qed

theorem wait_cycles_exact_witness:
  "\<exists>s' cs. jbi_do_wait_cycles echo_target 100 (state_code DRPAUSE) scan_sample = Some (JBIC_SUCCESS, s') \<and>
    cycles s' = cycles scan_sample @ cs @ replicate 100 (False, False) \<and> length cs \<le> 14 \<and>
    jbi_jtag_state s' = DRPAUSE \<and> tap_of IDLE s' = DRPAUSE \<and> mem s' = mem scan_sample"
  using wait_cycles_exact [OF scan_sample_facts(1), of DRPAUSE echo_target 100]
  by (simp add: stable_state_def)

section \<open>Scans\<close>

text \<open>
  C11. A scan of the data register from a state a scan may start in clocks exactly the preamble,
  the target bits and the postamble through the DR shift state, in this order and no others, and
  leaves the TAP in the stop state.
\<close>

theorem drscan_shifts_bits:
  assumes "tracks s" "jbi_jtag_state s \<in> {RESET, IDLE, DRPAUSE, IRPAUSE}"
    "jbi_drstop_state s = state_code t" "t \<noteq> JBI_ILLEGAL_JTAG_STATE"
    "dr_scan_ready pre tdi start tgt post s"
  shows "\<exists>s' cs. jbi_do_drscan rd (of_nat (length tgt)) tdi start s = Some (JBIC_SUCCESS, s') \<and>
    cycles s' = cycles s @ cs \<and> shifted DRSHIFT (jbi_jtag_state s) cs = pre @ tgt @ post \<and>
    jbi_jtag_state s' = t \<and> tap_of RESET s' = t"
proof -
  obtain s' cs where "jbi_do_drscan rd (of_nat (length tgt)) tdi start s = Some (JBIC_SUCCESS, s')"
    "cycles s' = cycles s @ cs" "shifted DRSHIFT (jbi_jtag_state s) cs = pre @ tgt @ post"
    "jbi_jtag_state s' = t" "tracks s'"
    using do_drscan_ok [OF assms] by blast
  then show ?thesis using assms(4) by (auto simp: tracks_def)
qed

theorem drscan_shifts_bits_witness:
  "\<exists>s' cs. jbi_do_drscan echo_target 3 0x200 0 scan_sample = Some (JBIC_SUCCESS, s') \<and>
    cycles s' = cycles scan_sample @ cs \<and> shifted DRSHIFT IDLE cs = [True, True, False, True] \<and>
    jbi_jtag_state s' = IDLE \<and> tap_of RESET s' = IDLE"
  using drscan_shifts_bits [OF scan_sample_facts(1) _ _ _ scan_sample_ready(2), of IDLE echo_target]
  by (simp add: scan_sample_facts(2) scan_sample_fields)

text \<open>
  A scan of the instruction register from a state a scan may start in clocks exactly the preamble,
  the target bits and the postamble through the IR shift state, in this order and no others, and
  leaves the TAP in the stop state.
\<close>

theorem irscan_shifts_bits:
  assumes "tracks s" "jbi_jtag_state s \<in> {RESET, IDLE, DRPAUSE, IRPAUSE}"
    "jbi_irstop_state s = state_code t" "t \<noteq> JBI_ILLEGAL_JTAG_STATE"
    "ir_scan_ready pre tdi start tgt post s"
  shows "\<exists>s' cs. jbi_do_irscan rd (of_nat (length tgt)) tdi start s = Some (JBIC_SUCCESS, s') \<and>
    cycles s' = cycles s @ cs \<and> shifted IRSHIFT (jbi_jtag_state s) cs = pre @ tgt @ post \<and>
    jbi_jtag_state s' = t \<and> tap_of RESET s' = t"
proof -
  obtain s' cs where "jbi_do_irscan rd (of_nat (length tgt)) tdi start s = Some (JBIC_SUCCESS, s')"
    "cycles s' = cycles s @ cs" "shifted IRSHIFT (jbi_jtag_state s) cs = pre @ tgt @ post"
    "jbi_jtag_state s' = t" "tracks s'"
    using do_irscan_ok [OF assms] by blast
  then show ?thesis using assms(4) by (auto simp: tracks_def)
qed

theorem irscan_shifts_bits_witness:
  "\<exists>s' cs. jbi_do_irscan echo_target 3 0x200 0 scan_sample = Some (JBIC_SUCCESS, s') \<and>
    cycles s' = cycles scan_sample @ cs \<and> shifted IRSHIFT IDLE cs = [True, True, False, True] \<and>
    jbi_jtag_state s' = IRPAUSE \<and> tap_of RESET s' = IRPAUSE"
  using irscan_shifts_bits [OF scan_sample_facts(1) _ _ _ scan_sample_ready(3), of IRPAUSE echo_target]
  by (simp add: scan_sample_facts(2) scan_sample_fields)

text \<open>
  C12. A swap of the data register shifts the same bits, and the output array then holds, from its
  index on, the bits the target drove on TDO while the target bits were shifted: those of the
  preamble and postamble are left out. What comes back is read in the shift state, before the
  rising edge of each cycle, from the first cycle of the scan on.
\<close>

theorem swap_dr_captures_bits:
  assumes "tracks s" "jbi_jtag_state s \<in> {RESET, IDLE, DRPAUSE, IRPAUSE}"
    "jbi_drstop_state s = state_code t" "t \<noteq> JBI_ILLEGAL_JTAG_STATE"
    "dr_scan_ready pre tdi start tgt post s" "jbi_dr_buffer s \<noteq> 0"
    "mapped_bits out oi (length tgt) s"
    "apart (jbi_dr_buffer s) (of_nat (length pre)) (length tgt) out oi (length tgt)"
    "unat oi + length tgt < 4294967296"
  shows "\<exists>s' cs cs1 ps. jbi_swap_dr rd (of_nat (length tgt)) tdi start out oi s = Some (JBIC_SUCCESS, s') \<and>
    cycles s' = cycles s @ cs \<and> shifted DRSHIFT (jbi_jtag_state s) cs = pre @ tgt @ post \<and>
    jbi_jtag_state s' = t \<and> tracks s' \<and>
    tck_cycles ps = cycles s @ cs1 \<and> tap_run (jbi_jtag_state s) cs1 = DRSHIFT \<and>
    holds out oi (take (length tgt) (drop (length pre) (tdo_bits rd ps (scan_cycles (pre @ tgt @ post))))) s'"
  by (rule swap_dr_ok [OF assms])

theorem swap_dr_captures_bits_witness:
  "\<exists>s' cs. jbi_swap_dr echo_target 3 0x200 0 0x400 0 scan_sample = Some (JBIC_SUCCESS, s') \<and>
    shifted DRSHIFT IDLE cs = [True, True, False, True] \<and> jbi_jtag_state s' = IDLE \<and>
    holds 0x400 0 [True, False, True] s'"
proof -
  have "jbi_dr_buffer scan_sample = 0x300" by (rule scan_sample_fields)
  then show ?thesis
    using swap_dr_captures_bits [OF scan_sample_facts(1) _ _ _ scan_sample_ready(2) _ scan_sample_out(1),
        of IDLE echo_target] scan_sample_out(2)
    by (auto simp: scan_sample_facts(2) scan_sample_fields simp del: tdo_bits.simps scan_cycles.simps)
qed

text \<open>
  A swap of the instruction register shifts the same bits, and the output array then holds, from its
  index on, the bits the target drove on TDO while the target bits were shifted: those of the
  preamble and postamble are left out. What comes back is read in the shift state, before the
  rising edge of each cycle, from the first cycle of the scan on.
\<close>

theorem swap_ir_captures_bits:
  assumes "tracks s" "jbi_jtag_state s \<in> {RESET, IDLE, DRPAUSE, IRPAUSE}"
    "jbi_irstop_state s = state_code t" "t \<noteq> JBI_ILLEGAL_JTAG_STATE"
    "ir_scan_ready pre tdi start tgt post s" "jbi_ir_buffer s \<noteq> 0"
    "mapped_bits out oi (length tgt) s"
    "apart (jbi_ir_buffer s) (of_nat (length pre)) (length tgt) out oi (length tgt)"
    "unat oi + length tgt < 4294967296"
  shows "\<exists>s' cs cs1 ps. jbi_swap_ir rd (of_nat (length tgt)) tdi start out oi s = Some (JBIC_SUCCESS, s') \<and>
    cycles s' = cycles s @ cs \<and> shifted IRSHIFT (jbi_jtag_state s) cs = pre @ tgt @ post \<and>
    jbi_jtag_state s' = t \<and> tracks s' \<and>
    tck_cycles ps = cycles s @ cs1 \<and> tap_run (jbi_jtag_state s) cs1 = IRSHIFT \<and>
    holds out oi (take (length tgt) (drop (length pre) (tdo_bits rd ps (scan_cycles (pre @ tgt @ post))))) s'"
  by (rule swap_ir_ok [OF assms])

theorem swap_ir_captures_bits_witness:
  "\<exists>s' cs. jbi_swap_ir echo_target 3 0x200 0 0x400 0 scan_sample = Some (JBIC_SUCCESS, s') \<and>
    shifted IRSHIFT IDLE cs = [True, True, False, True] \<and> jbi_jtag_state s' = IRPAUSE \<and>
    holds 0x400 0 [True, False, True] s'"
proof -
  have "jbi_ir_buffer scan_sample = 0x300" by (rule scan_sample_fields)
  then show ?thesis
    using swap_ir_captures_bits [OF scan_sample_facts(1) _ _ _ scan_sample_ready(3) _ scan_sample_out(1),
        of IRPAUSE echo_target] scan_sample_out(2)
    by (auto simp: scan_sample_facts(2) scan_sample_fields simp del: tdo_bits.simps scan_cycles.simps)
qed

section \<open>A scan of no bits\<close>

text \<open>
  A data scan of no bits, with no padding, records the pause state, but the loop never raises
  TMS: the TAP stays in the shift state, with one bit shifted, and the record is wrong from then
  on.
\<close>

theorem empty_scan_loses_track:
  assumes "tracks s" "jbi_jtag_state s \<in> {RESET, IDLE, DRPAUSE, IRPAUSE}"
    "jbi_dr_preamble s = 0" "jbi_dr_postamble s = 0" "jbi_drstop_state s = state_code DRPAUSE"
    "p \<noteq> JBI_ILLEGAL_JTAG_STATE"
  shows "\<exists>s'. jbi_do_drscan rd 0 tdi start s = Some (JBIC_SUCCESS, s') \<and>
    jbi_jtag_state s' = DRPAUSE \<and> tap_of p s' = DRSHIFT"
proof -
  define c where "c = fst (scan_start (jbi_jtag_state s))"
  have c: "scan_start (jbi_jtag_state s) = (c, start_of c)" "c < 3"
    using scan_start_code [of "jbi_jtag_state s"] by (simp_all add: c_def prod_eq_iff)
  have legal: "start_of c \<noteq> JBI_ILLEGAL_JTAG_STATE" by (simp add: start_of_def)
  obtain s0 where s0: "goto_start rd (start_of c) s = Some (JBIC_SUCCESS, s0)" "tracks s0"
    "jbi_jtag_state s0 = start_of c" "base s0 = base s"
    using goto_start_ok [OF assms(1,2) legal, of DRSHIFT rd] by blast
  note f0 = base_fields [OF s0(4)]
  define s1 where "s1 = clock rd [(False, False)] (clock rd (tms_seq (dr_entry c)) s0)"
  have room: "dr_room 0 s0 = Some (JBIC_SUCCESS, s0)"
    using has_room(1) [of 0 s0] by (simp add: dr_has_room_def)
  have concat: "jbi_jtag_concatenate_data b q 0 tdi start 0 r 0 s0 = Some s0" for b q r
    by (simp add: jbi_jtag_concatenate_data_def turns_def)
  have scan: "jbi_jtag_drscan rd c 0 b t s0 = Some (True, s1)" for b t
    unfolding drscan_form [OF c(2)] by (simp add: s1_def del: clock_Cons)
  have stop: "jbi_drstop_state (s1\<lparr>jbi_jtag_state := DRPAUSE\<rparr>) = state_code DRPAUSE"
    using base_fields(3) [of s1 s0] base_clock assms(5) f0(3) by (simp add: s1_def del: clock_Cons state_code.simps)
  have "jbi_do_drscan rd 0 tdi start s = Some (JBIC_SUCCESS, s1\<lparr>jbi_jtag_state := DRPAUSE\<rparr>)"
    unfolding jbi_do_drscan_def c(1) Let_def prod.case s0(1) bind.bind_lunit assms(3,4) on_success_def fst_conv snd_conv
      f0(5,6) add_0 add_0_right room concat scan simp_thms if_True if_False stop ..
  moreover have "cycles s1 = cycles s0 @ tms_seq (dr_entry c) @ [(False, False)]"
    by (simp add: s1_def clock_cycles del: clock_Cons)
  then have "tap_of p (s1\<lparr>jbi_jtag_state := DRPAUSE\<rparr>) = DRSHIFT"
    using s0(2,3) legal assms(6) dr.enter [OF c(2)]
    by (auto simp: tap_of_cycles tracks_cycles tap_run_append)
  ultimately show ?thesis by (intro exI [of _ "s1\<lparr>jbi_jtag_state := DRPAUSE\<rparr>"]) simp
qed

theorem empty_scan_loses_track_witness:
  "\<exists>s'. jbi_do_drscan echo_target 0 0x200 0 (jbi_jtag_reset_idle echo_target (jbi0\<lparr>jbi_drstop_state := 6\<rparr>)) =
      Some (JBIC_SUCCESS, s') \<and> jbi_jtag_state s' = DRPAUSE \<and> tap_of RESET s' = DRSHIFT"
proof -
  let ?s = "jbi_jtag_reset_idle echo_target (jbi0\<lparr>jbi_drstop_state := 6\<rparr>)"
  note f = base_fields [OF base_reset_idle, of echo_target "jbi0\<lparr>jbi_drstop_state := 6\<rparr>"]
  show ?thesis
    by (rule empty_scan_loses_track [OF tracks_reset_idle])
      (simp_all add: f reset_idle_facts(2), simp_all add: jbi0_def)
qed

end
