(* ===== verification/JbiText.thy ===== *)
theory JbiText imports JbiComp begin

text \<open>
  The helpers of the byte-code player on memory (jbimain.c): strings, decimal numbers, words in
  byte buffers, the big-endian words of the program, the CRC of the program, and the printing of
  messages (jbistub.c). A loop that may run off the end of its string is a partial function of
  the option monad; it faults at the first unmapped byte.
\<close>

unbundle bit_operations_syntax

section \<open>The functions\<close>

partial_function (option) strlen_loop :: "u32 \<Rightarrow> u32 \<Rightarrow> jbi \<Rightarrow> u32 option" where
  "strlen_loop string len s =
     do { c \<leftarrow> ld8 (string + len) s; if c \<noteq> 0 then strlen_loop string (len + 1) s else Some len }"

definition jbi_strlen :: "u32 \<Rightarrow> jbi \<Rightarrow> u32 option" where
  "jbi_strlen string s = strlen_loop string 0 s"

text \<open>
  The digits, lowest first, into the local array \<open>reverse[32]\<close>: the C operators \<open>/\<close> and \<open>%\<close>
  truncate. Then the array is copied back to front.
\<close>

partial_function (option) ltoa_digits :: "int \<Rightarrow> nat \<Rightarrow> u8 list \<Rightarrow> (nat \<times> u8 list) option" where
  "ltoa_digits number rev_index reverse =
     (if number \<noteq> 0
      then do { r \<leftarrow> arr_set reverse rev_index (of_int (number smod 10 + 48));
                ltoa_digits (number sdiv 10) (Suc rev_index) r }
      else Some (rev_index, reverse))"

fun ltoa_copy :: "u32 \<Rightarrow> u8 list \<Rightarrow> u32 \<Rightarrow> nat \<Rightarrow> jbi \<Rightarrow> (u32 \<times> jbi) option" where
  "ltoa_copy buffer reverse index 0 s = Some (index, s)"
| "ltoa_copy buffer reverse index (Suc rev_index) s =
     do { c \<leftarrow> arr_get reverse rev_index;
          s1 \<leftarrow> st8 (buffer + index) c s;
          ltoa_copy buffer reverse (index + 1) rev_index s1 }"

text \<open>\<open>0 - number\<close> wraps: the negation of the smallest number is itself.\<close>

definition jbi_ltoa :: "u32 \<Rightarrow> u32 \<Rightarrow> jbi \<Rightarrow> jbi option" where
  "jbi_ltoa buffer number s =
     do { (index, n, s1) \<leftarrow>
            (if sint number < 0
             then do { s1 \<leftarrow> st8 buffer 45 s; Some (1, 0 - number, s1) }
             else if number = 0
             then do { s1 \<leftarrow> st8 buffer 48 s; Some (1, number, s1) }
             else Some (0, number, s));
          (rev_index, reverse) \<leftarrow> ltoa_digits (sint n) 0 (replicate 32 0);
          (index, s2) \<leftarrow> ltoa_copy buffer reverse index rev_index s1;
          st8 (buffer + index) 0 s2 }"

definition jbi_toupper :: "u8 \<Rightarrow> u8" where
  "jbi_toupper ch = (if 97 \<le> ch \<and> ch \<le> 122 then ch + 65 - 97 else ch)"

partial_function (option) jbi_stricmp :: "u32 \<Rightarrow> u32 \<Rightarrow> jbi \<Rightarrow> int option" where
  "jbi_stricmp left right s =
     do { cl \<leftarrow> ld8 left s; cr \<leftarrow> ld8 right s;
          let l = jbi_toupper cl; r = jbi_toupper cr; result = uint l - uint r
          in if result = 0 \<and> l \<noteq> 0 \<and> r \<noteq> 0 then jbi_stricmp (left + 1) (right + 1) s
             else Some result }"

text \<open>The count is decremented before it is compared with 0.\<close>

partial_function (option) jbi_strncpy :: "u32 \<Rightarrow> u32 \<Rightarrow> u32 \<Rightarrow> jbi \<Rightarrow> jbi option" where
  "jbi_strncpy left right count s =
     do { c \<leftarrow> ld8 right s; s1 \<leftarrow> st8 left c s; ch \<leftarrow> ld8 right s1;
          if ch \<noteq> 0 \<and> count - 1 \<noteq> 0 then jbi_strncpy (left + 1) (right + 1) (count - 1) s1
          else Some s1 }"

definition jbi_make_dword :: "u32 \<Rightarrow> u32 \<Rightarrow> jbi \<Rightarrow> jbi option" where
  "jbi_make_dword buf num s =
     do { s0 \<leftarrow> st8 buf (ucast num) s; s1 \<leftarrow> st8 (buf + 1) (ucast (drop_bit 8 num)) s0;
          s2 \<leftarrow> st8 (buf + 2) (ucast (drop_bit 16 num)) s1; st8 (buf + 3) (ucast (drop_bit 24 num)) s2 }"

definition jbi_get_dword :: "u32 \<Rightarrow> jbi \<Rightarrow> u32 option" where
  "jbi_get_dword buf s =
     do { b0 \<leftarrow> ld8 buf s; b1 \<leftarrow> ld8 (buf + 1) s; b2 \<leftarrow> ld8 (buf + 2) s; b3 \<leftarrow> ld8 (buf + 3) s;
          Some (ucast b0 OR push_bit 8 (ucast b1) OR push_bit 16 (ucast b2) OR push_bit 24 (ucast b3)) }"

text \<open>The macros that read the program.\<close>

definition GET_BYTE :: "u32 \<Rightarrow> u32 \<Rightarrow> jbi \<Rightarrow> u8 option" where
  "GET_BYTE program x s = ld8 (program + x) s"

definition GET_WORD :: "u32 \<Rightarrow> u32 \<Rightarrow> jbi \<Rightarrow> u16 option" where
  "GET_WORD program x s =
     do { b0 \<leftarrow> GET_BYTE program x s; b1 \<leftarrow> GET_BYTE program (x + 1) s;
          Some ((push_bit 8 (ucast b0) AND 0xFF00) OR (ucast b1 AND 0x00FF)) }"

definition GET_DWORD :: "u32 \<Rightarrow> u32 \<Rightarrow> jbi \<Rightarrow> u32 option" where
  "GET_DWORD program x s =
     do { b0 \<leftarrow> GET_BYTE program x s; b1 \<leftarrow> GET_BYTE program (x + 1) s;
          b2 \<leftarrow> GET_BYTE program (x + 2) s; b3 \<leftarrow> GET_BYTE program (x + 3) s;
          Some ((push_bit 24 (ucast b0) AND 0xFF000000) OR (push_bit 16 (ucast b1) AND 0x00FF0000)
             OR (push_bit 8 (ucast b2) AND 0x0000FF00) OR (ucast b3 AND 0x000000FF)) }"

section \<open>The CRC of the program\<close>

text \<open>One bit, one byte, and the bytes before the CRC section.\<close>

definition crc_bit :: "u8 \<times> u16 \<Rightarrow> u8 \<times> u16" where
  "crc_bit = (\<lambda>(databyte, shift_reg).
     let feedback = (ucast databyte XOR shift_reg) AND 1;
         shift_reg = drop_bit 1 shift_reg;
         shift_reg = (if feedback \<noteq> 0 then shift_reg XOR 0x8408 else shift_reg)
     in (drop_bit 1 databyte, shift_reg))"

definition crc_byte :: "u8 \<Rightarrow> u16 \<Rightarrow> u16" where
  "crc_byte databyte shift_reg = snd ((crc_bit ^^ 8) (databyte, shift_reg))"

fun crc_loop :: "u32 \<Rightarrow> nat \<Rightarrow> u32 \<Rightarrow> u16 \<Rightarrow> jbi \<Rightarrow> u16 option" where
  "crc_loop program 0 i shift_reg s = Some shift_reg"
| "crc_loop program (Suc n) i shift_reg s =
     do { databyte \<leftarrow> GET_BYTE program i s;
          crc_loop program n (i + 1) (crc_byte databyte shift_reg) s }"

text \<open>
  The result is the status, and the expected and the actual CRC where they are stored. A file of
  52 bytes or less leaves \<open>first_word\<close> and \<open>crc_section\<close> 0.
\<close>

definition jbi_check_crc :: "u32 \<Rightarrow> u32 \<Rightarrow> jbi \<Rightarrow> (jbi_ret \<times> (u16 \<times> u16) option) option" where
  "jbi_check_crc program program_size s =
     do { (first_word, crc_section) \<leftarrow>
            (if sint program_size > 52
             then do { first_word \<leftarrow> GET_DWORD program 0 s;
                       let delta = (first_word AND 1) * 8
                       in do { crc_section \<leftarrow> GET_DWORD program (32 + delta) s;
                               Some (first_word, crc_section) } }
             else Some (0, 0));
          let status = (if first_word \<noteq> 0x4A414D00 \<and> first_word \<noteq> 0x4A414D01 then JBIC_IO_ERROR
                        else JBIC_SUCCESS);
              status = (if crc_section \<ge> program_size then JBIC_IO_ERROR else status)
          in if status = JBIC_SUCCESS
             then do { local_expected \<leftarrow> GET_WORD program crc_section s;
                       shift_reg \<leftarrow> crc_loop program (unat crc_section) 0 0xFFFF s;
                       let local_actual = NOT shift_reg
                       in Some (if local_expected \<noteq> local_actual then JBIC_CRC_ERROR else status,
                                Some (local_expected, local_actual)) }
             else Some (status, None) }"

section \<open>Messages (jbistub.c)\<close>

partial_function (option) string_at :: "u32 \<Rightarrow> jbi \<Rightarrow> u8 list option" where
  "string_at a s =
     do { c \<leftarrow> ld8 a s; if c = 0 then Some [] else do { cs \<leftarrow> string_at (a + 1) s; Some (c # cs) } }"

definition bytes_of_string :: "string \<Rightarrow> u8 list" where
  "bytes_of_string cs = map (\<lambda>c. of_nat (of_char c)) cs"

text \<open>
  The C library: \<open>strstr\<close>, and \<open>sscanf\<close> for a format of literal characters, spaces and a final
  \<open>%X\<close>. A space of the format skips any white space; the number is taken modulo $2^{32}$.
\<close>

fun strstr :: "u8 list \<Rightarrow> u8 list \<Rightarrow> u8 list option" where
  "strstr [] pat = (if pat = [] then Some [] else None)"
| "strstr (c # cs) pat = (if take (length pat) (c # cs) = pat then Some (c # cs) else strstr cs pat)"

definition is_space :: "u8 \<Rightarrow> bool" where
  "is_space c \<longleftrightarrow> c = 32 \<or> 9 \<le> c \<and> c \<le> 13"

definition hex_digit :: "u8 \<Rightarrow> u32 option" where
  "hex_digit c = (if 48 \<le> c \<and> c \<le> 57 then Some (ucast c - 48)
                  else if 65 \<le> c \<and> c \<le> 70 then Some (ucast c - 55)
                  else if 97 \<le> c \<and> c \<le> 102 then Some (ucast c - 87) else None)"

fun hex_digits :: "u32 \<Rightarrow> u8 list \<Rightarrow> u32" where
  "hex_digits acc [] = acc"
| "hex_digits acc (c # cs) = (case hex_digit c of None \<Rightarrow> acc | Some d \<Rightarrow> hex_digits (16 * acc + d) cs)"

definition scan_hex :: "u8 list \<Rightarrow> u32 option" where
  "scan_hex cs =
     (case dropWhile is_space cs of
        [] \<Rightarrow> None
      | c # cs' \<Rightarrow>
          (case hex_digit c of
             None \<Rightarrow> None
           | Some d \<Rightarrow>
               (case cs' of
                  x # h # r \<Rightarrow> if c = 48 \<and> (x = 120 \<or> x = 88) \<and> hex_digit h \<noteq> None
                               then Some (hex_digits 0 (h # r)) else Some (hex_digits d cs')
                | _ \<Rightarrow> Some (hex_digits d cs'))))"

fun sscanf_X :: "u8 list \<Rightarrow> u8 list \<Rightarrow> u32 option" where
  "sscanf_X cs [] = scan_hex cs"
| "sscanf_X cs (f # fmt) =
     (if is_space f then sscanf_X (dropWhile is_space cs) fmt
      else case cs of [] \<Rightarrow> None | c # cs' \<Rightarrow> if c = f then sscanf_X cs' fmt else None)"

definition jbi_message :: "u32 \<Rightarrow> jbi \<Rightarrow> jbi option" where
  "jbi_message message_text s =
     do { t \<leftarrow> string_at message_text s;
          Some (if fg_Data_Readback s
                then (case strstr t (bytes_of_string ''CODE'') of
                        None \<Rightarrow> s
                      | Some pStr \<Rightarrow>
                          (case sscanf_X pStr (bytes_of_string ''CODE is '') of
                             Some v \<Rightarrow> s\<lparr>pReadData := v\<rparr>
                           | None \<Rightarrow>
                               (case sscanf_X pStr (bytes_of_string ''CODE code is '') of
                                  Some v \<Rightarrow> s\<lparr>pReadData := v\<rparr>
                                | None \<Rightarrow> s)))
                else s\<lparr>msgs := msgs s @ [t @ [46, 10]]\<rparr>) }"

end
