(* ===== verification/JbiVm.thy ===== *)
theory JbiVm imports JbiText begin

text \<open>
  The instructions of the Jam STAPL byte-code player (\<open>jbi_execute\<close> of jbimain.c): the local
  variables of the function as a record, the macros, and one definition per case of the switch.

  The value stack is an array of 128 longs: an access outside it is \<open>None\<close>. A long is 32 bits and
  its arithmetic wraps. A division by zero, the division of the smallest long by -1, and a shift
  by an amount outside 0 to 31 are \<open>None\<close>. The symbol tables (\<open>variables\<close>, \<open>variable_size\<close>,
  \<open>attributes\<close>, \<open>proc_attributes\<close>), the message buffer and \<open>charbuf\<close> are in the memory of \<open>js\<close>.
\<close>

unbundle bit_operations_syntax

section \<open>The state\<close>

definition JBI_STACK_SIZE :: nat where "JBI_STACK_SIZE = 128"
definition JBIC_MESSAGE_LENGTH :: u32 where "JBIC_MESSAGE_LENGTH = 256"

text \<open>\<open>version\<close> is true for format 2 (\<open>version > 0\<close>); \<open>finished\<close> is the variable \<open>done\<close>.\<close>

record vm =
  js :: jbi
  program :: u32
  action_table :: u32
  proc_table :: u32
  string_table :: u32
  symbol_table :: u32
  data_section :: u32
  code_section :: u32
  debug_section :: u32
  action_count :: u32
  proc_count :: u32
  symbol_count :: u32
  message_buffer :: u32
  charbuf :: u32
  variables :: u32
  variable_size :: u32
  attributes :: u32
  proc_attributes :: u32
  pc :: u32
  opcode_address :: u32
  opcode :: u8
  args :: "u32 list"
  stack :: "u32 list"
  stack_ptr :: int
  version :: bool
  current_proc :: u32
  status :: jbi_ret
  finished :: bool
  bad_opcode :: bool
  exit_code :: u32
  error_address :: u32
  format_version :: u32

text \<open>Reading and writing the stack, pushing and popping.\<close>

definition stk :: "int \<Rightarrow> vm \<Rightarrow> u32 option" where
  "stk i v = (if 0 \<le> i then arr_get (stack v) (nat i) else None)"

definition stk_set :: "int \<Rightarrow> u32 \<Rightarrow> vm \<Rightarrow> vm option" where
  "stk_set i x v =
     (if 0 \<le> i then map_option (\<lambda>st. v\<lparr>stack := st\<rparr>) (arr_set (stack v) (nat i) x) else None)"

definition pop :: "vm \<Rightarrow> (u32 \<times> vm) option" where
  "pop v = do { x \<leftarrow> stk (stack_ptr v - 1) v; Some (x, v\<lparr>stack_ptr := stack_ptr v - 1\<rparr>) }"

definition push :: "u32 \<Rightarrow> vm \<Rightarrow> vm option" where
  "push x v = do { v1 \<leftarrow> stk_set (stack_ptr v) x v; Some (v1\<lparr>stack_ptr := stack_ptr v + 1\<rparr>) }"

definition set_top :: "u32 \<Rightarrow> vm \<Rightarrow> vm option" where
  "set_top x v = stk_set (stack_ptr v - 1) x v"

text \<open>The macros IF\_CHECK\_STACK and CHECK\_PC.\<close>

definition IF_CHECK_STACK :: "int \<Rightarrow> (vm \<Rightarrow> vm option) \<Rightarrow> vm \<Rightarrow> vm option" where
  "IF_CHECK_STACK x body v = (if stack_ptr v < x then Some (v\<lparr>status := JBIC_STACK_OVERFLOW\<rparr>) else body v)"

definition CHECK_PC :: "vm \<Rightarrow> vm" where
  "CHECK_PC v = (if pc v < code_section v \<or> debug_section v \<le> pc v then v\<lparr>status := JBIC_BOUNDS_ERROR\<rparr> else v)"

text \<open>Calls into the other components: one that returns a status, and one that does not.\<close>

definition call :: "(jbi \<Rightarrow> (jbi_ret \<times> jbi) option) \<Rightarrow> vm \<Rightarrow> vm option" where
  "call f v = do { (r, j) \<leftarrow> f (js v); Some (v\<lparr>js := j, status := r\<rparr>) }"

definition on_js :: "(jbi \<Rightarrow> jbi option) \<Rightarrow> vm \<Rightarrow> vm option" where
  "on_js f v = do { j \<leftarrow> f (js v); Some (v\<lparr>js := j\<rparr>) }"

text \<open>The arrays indexed by a variable or procedure number, and the program.\<close>

definition var_get :: "u32 \<Rightarrow> vm \<Rightarrow> u32 option" where
  "var_get i v = ld32 (variables v + 4 * i) (js v)"

definition var_set :: "u32 \<Rightarrow> u32 \<Rightarrow> vm \<Rightarrow> vm option" where
  "var_set i x v = on_js (st32 (variables v + 4 * i) x) v"

definition size_get :: "u32 \<Rightarrow> vm \<Rightarrow> u32 option" where
  "size_get i v = ld32 (variable_size v + 4 * i) (js v)"

definition size_set :: "u32 \<Rightarrow> u32 \<Rightarrow> vm \<Rightarrow> vm option" where
  "size_set i x v = on_js (st32 (variable_size v + 4 * i) x) v"

definition attr_get :: "u32 \<Rightarrow> vm \<Rightarrow> u8 option" where
  "attr_get i v = ld8 (attributes v + i) (js v)"

definition attr_set :: "u32 \<Rightarrow> u8 \<Rightarrow> vm \<Rightarrow> vm option" where
  "attr_set i x v = on_js (st8 (attributes v + i) x) v"

definition proc_attr :: "u32 \<Rightarrow> vm \<Rightarrow> u8 option" where
  "proc_attr i v = ld8 (proc_attributes v + i) (js v)"

definition prog_dword :: "u32 \<Rightarrow> vm \<Rightarrow> u32 option" where
  "prog_dword x v = GET_DWORD (program v) x (js v)"

definition arg :: "nat \<Rightarrow> vm \<Rightarrow> u32 option" where
  "arg k v = arr_get (args v) k"

definition bool32 :: "bool \<Rightarrow> u32" where
  "bool32 b = (if b then 1 else 0)"

section \<open>Stack and arithmetic instructions\<close>

definition op_dup :: "vm \<Rightarrow> vm option" where
  "op_dup = IF_CHECK_STACK 1 (\<lambda>v. do { x \<leftarrow> stk (stack_ptr v - 1) v; push x v })"

definition op_swp :: "vm \<Rightarrow> vm option" where
  "op_swp = IF_CHECK_STACK 2 (\<lambda>v.
     do { long_temp \<leftarrow> stk (stack_ptr v - 2) v; x \<leftarrow> stk (stack_ptr v - 1) v;
          v1 \<leftarrow> stk_set (stack_ptr v - 2) x v; stk_set (stack_ptr v - 1) long_temp v1 })"

text \<open>
  The instructions that pop one operand and combine it with the new top: \<open>--stack_ptr\<close>, then
  \<open>stack[stack_ptr - 1] = f(stack[stack_ptr - 1], stack[stack_ptr])\<close>.
\<close>

definition binop :: "(u32 \<Rightarrow> u32 \<Rightarrow> u32 option) \<Rightarrow> vm \<Rightarrow> vm option" where
  "binop f = IF_CHECK_STACK 2 (\<lambda>v.
     let v1 = v\<lparr>stack_ptr := stack_ptr v - 1\<rparr>
     in do { a \<leftarrow> stk (stack_ptr v1 - 1) v1; b \<leftarrow> stk (stack_ptr v1) v1; c \<leftarrow> f a b; set_top c v1 })"

text \<open>The instructions that change the top.\<close>

definition unop :: "(u32 \<Rightarrow> u32) \<Rightarrow> vm \<Rightarrow> vm option" where
  "unop f = IF_CHECK_STACK 1 (\<lambda>v. do { a \<leftarrow> stk (stack_ptr v - 1) v; set_top (f a) v })"

definition c_div :: "u32 \<Rightarrow> u32 \<Rightarrow> u32 option" where
  "c_div a b = (if b = 0 \<or> a = 0x80000000 \<and> b = - 1 then None else Some (of_int (sint a sdiv sint b)))"

definition c_mod :: "u32 \<Rightarrow> u32 \<Rightarrow> u32 option" where
  "c_mod a b = (if b = 0 \<or> a = 0x80000000 \<and> b = - 1 then None else Some (of_int (sint a smod sint b)))"

definition c_shl :: "u32 \<Rightarrow> u32 \<Rightarrow> u32 option" where
  "c_shl a b = (if b < 32 then Some (push_bit (unat b) a) else None)"

definition c_shr :: "u32 \<Rightarrow> u32 \<Rightarrow> u32 option" where
  "c_shr a b = (if b < 32 then Some (signed_drop_bit (unat b) a) else None)"

definition op_add :: "vm \<Rightarrow> vm option" where "op_add = binop (\<lambda>a b. Some (a + b))"
definition op_sub :: "vm \<Rightarrow> vm option" where "op_sub = binop (\<lambda>a b. Some (a - b))"
definition op_mult :: "vm \<Rightarrow> vm option" where "op_mult = binop (\<lambda>a b. Some (a * b))"
definition op_div :: "vm \<Rightarrow> vm option" where "op_div = binop c_div"
definition op_mod :: "vm \<Rightarrow> vm option" where "op_mod = binop c_mod"
definition op_shl :: "vm \<Rightarrow> vm option" where "op_shl = binop c_shl"
definition op_shr :: "vm \<Rightarrow> vm option" where "op_shr = binop c_shr"
definition op_not :: "vm \<Rightarrow> vm option" where "op_not = unop (\<lambda>a. a XOR (- 1))"
definition op_and :: "vm \<Rightarrow> vm option" where "op_and = binop (\<lambda>a b. Some (a AND b))"
definition op_or :: "vm \<Rightarrow> vm option" where "op_or = binop (\<lambda>a b. Some (a OR b))"
definition op_xor :: "vm \<Rightarrow> vm option" where "op_xor = binop (\<lambda>a b. Some (a XOR b))"
definition op_inv :: "vm \<Rightarrow> vm option" where "op_inv = unop (\<lambda>a. if a \<noteq> 0 then 0 else 1)"
definition op_gt :: "vm \<Rightarrow> vm option" where "op_gt = binop (\<lambda>a b. Some (bool32 (sint a > sint b)))"
definition op_lt :: "vm \<Rightarrow> vm option" where "op_lt = binop (\<lambda>a b. Some (bool32 (sint a < sint b)))"
definition op_equ :: "vm \<Rightarrow> vm option" where "op_equ = binop (\<lambda>a b. Some (bool32 (a = b)))"

definition op_abs :: "vm \<Rightarrow> vm option" where
  "op_abs = unop (\<lambda>a. if sint a < 0 then 0 - a else a)"

definition op_popt :: "vm \<Rightarrow> vm option" where
  "op_popt = IF_CHECK_STACK 1 (\<lambda>v. Some (v\<lparr>stack_ptr := stack_ptr v - 1\<rparr>))"

text \<open>SWPN and DUPN: \<open>index\<close> is \<open>((int) args[0]) + 1\<close>.\<close>

definition swpn :: "int \<Rightarrow> vm \<Rightarrow> vm option" where
  "swpn index = IF_CHECK_STACK index (\<lambda>v.
     do { long_temp \<leftarrow> stk (stack_ptr v - index) v; x \<leftarrow> stk (stack_ptr v - 1) v;
          v1 \<leftarrow> stk_set (stack_ptr v - index) x v; stk_set (stack_ptr v - 1) long_temp v1 })"

definition dupn :: "int \<Rightarrow> vm \<Rightarrow> vm option" where
  "dupn index = IF_CHECK_STACK index (\<lambda>v. do { x \<leftarrow> stk (stack_ptr v - index) v; push x v })"

definition op_swpn :: "vm \<Rightarrow> vm option" where
  "op_swpn v = do { a \<leftarrow> arg 0 v; swpn (sint (a + 1)) v }"

definition op_dupn :: "vm \<Rightarrow> vm option" where
  "op_dupn v = do { a \<leftarrow> arg 0 v; dupn (sint (a + 1)) v }"

text \<open>A failing check sets the status, and the batch goes on with the next operation.\<close>

definition op_bch0 :: "vm \<Rightarrow> vm option" where
  "op_bch0 v =
     do { v1 \<leftarrow> op_swp v; v2 \<leftarrow> swpn (7 + 1) v1; v3 \<leftarrow> op_swp v2; v4 \<leftarrow> swpn (6 + 1) v3;
          v5 \<leftarrow> dupn (8 + 1) v4; v6 \<leftarrow> swpn (2 + 1) v5; v7 \<leftarrow> op_swp v6; v8 \<leftarrow> dupn (6 + 1) v7;
          dupn (6 + 1) v8 }"

definition op_psh0 :: "vm \<Rightarrow> vm option" where "op_psh0 = push 0"

definition op_pshl :: "vm \<Rightarrow> vm option" where
  "op_pshl v = do { a \<leftarrow> arg 0 v; push a v }"

definition op_pshv :: "vm \<Rightarrow> vm option" where
  "op_pshv v = do { a \<leftarrow> arg 0 v; x \<leftarrow> var_get a v; push x v }"

definition op_popv :: "vm \<Rightarrow> vm option" where
  "op_popv = IF_CHECK_STACK 1 (\<lambda>v. do { a \<leftarrow> arg 0 v; (x, v1) \<leftarrow> pop v; var_set a x v1 })"

definition op_cmps :: "vm \<Rightarrow> vm option" where
  "op_cmps = IF_CHECK_STACK 4 (\<lambda>v.
     do { (a, v1) \<leftarrow> pop v; (b, v2) \<leftarrow> pop v1; (long_temp, v3) \<leftarrow> pop v2;
          count \<leftarrow> stk (stack_ptr v3 - 1) v3;
          if count < 1 \<or> count > 32 then Some (v3\<lparr>status := JBIC_BOUNDS_ERROR\<rparr>)
          else let long_temp = long_temp AND signed_drop_bit (unat (32 - count)) (- 1)
               in set_top (bool32 (a AND long_temp = b AND long_temp)) v3 })"

section \<open>Control flow\<close>

definition proc_next :: "u32 \<Rightarrow> vm \<Rightarrow> u32 option" where
  "proc_next i v = prog_dword (proc_table v + 13 * i + 4) v"

text \<open>The search for the next procedure to execute, used by RET and by the entry.\<close>

partial_function (option) skip_procs :: "u32 \<Rightarrow> vm \<Rightarrow> u32 option" where
  "skip_procs i v =
     (if i \<noteq> 0
      then do { a \<leftarrow> proc_attr i v;
                if a = 1 \<or> a AND 0xc0 = 0x40 then do { n \<leftarrow> proc_next i v; skip_procs n v }
                else Some i }
      else Some i)"

definition enter_proc :: "u32 \<Rightarrow> vm \<Rightarrow> vm option" where
  "enter_proc i v =
     do { a \<leftarrow> prog_dword (proc_table v + 13 * i + 9) v;
          Some (CHECK_PC (v\<lparr>current_proc := i, pc := code_section v + a\<rparr>)) }"

definition op_ret :: "vm \<Rightarrow> vm option" where
  "op_ret v =
     (if version v \<and> stack_ptr v = 0
      then do { i0 \<leftarrow> proc_next (current_proc v) v;
                i \<leftarrow> skip_procs i0 v;
                if i = 0 then Some (v\<lparr>finished := True, exit_code := 0\<rparr>) else enter_proc i v }
      else IF_CHECK_STACK 1 (\<lambda>v.
             do { (x, v1) \<leftarrow> pop v;
                  let v2 = CHECK_PC (v1\<lparr>pc := x + code_section v1\<rparr>)
                  in Some (if pc v2 = code_section v2 then v2\<lparr>status := JBIC_BOUNDS_ERROR\<rparr> else v2) }) v)"

definition op_jmp :: "vm \<Rightarrow> vm option" where
  "op_jmp v = do { a \<leftarrow> arg 0 v; Some (CHECK_PC (v\<lparr>pc := a + code_section v\<rparr>)) }"

text \<open>CALL pushes the pc itself, while RET adds the start of the code section to what it pops.\<close>

definition op_call :: "vm \<Rightarrow> vm option" where
  "op_call v = do { v1 \<leftarrow> push (pc v) v; a \<leftarrow> arg 0 v1;
                    Some (CHECK_PC (v1\<lparr>pc := a + code_section v1\<rparr>)) }"

definition op_jmpz :: "vm \<Rightarrow> vm option" where
  "op_jmpz = IF_CHECK_STACK 1 (\<lambda>v.
     do { (x, v1) \<leftarrow> pop v;
          if x = 0 then do { a \<leftarrow> arg 0 v1; Some (CHECK_PC (v1\<lparr>pc := a + code_section v1\<rparr>)) }
          else Some v1 })"

definition op_next :: "vm \<Rightarrow> vm option" where
  "op_next = IF_CHECK_STACK 3 (\<lambda>v.
     do { step \<leftarrow> stk (stack_ptr v - 1) v; end \<leftarrow> stk (stack_ptr v - 2) v;
          top \<leftarrow> stk (stack_ptr v - 3) v; a \<leftarrow> arg 0 v; iterator \<leftarrow> var_get a v;
          let break_out = (if sint step < 0 then sint iterator \<le> sint end else sint iterator \<ge> sint end)
          in if break_out then Some (v\<lparr>stack_ptr := stack_ptr v - 3\<rparr>)
             else do { v1 \<leftarrow> var_set a (iterator + step) v;
                       Some (CHECK_PC (v1\<lparr>pc := top + code_section v1\<rparr>)) } })"

definition op_exit :: "vm \<Rightarrow> vm option" where
  "op_exit v =
     do { v1 \<leftarrow> IF_CHECK_STACK 1 (\<lambda>v. do { (x, v1) \<leftarrow> pop v; Some (v1\<lparr>exit_code := x\<rparr>) }) v;
          Some (v1\<lparr>finished := True\<rparr>) }"

text \<open>The opcodes that are not supported.\<close>

definition op_bad :: "vm \<Rightarrow> vm option" where
  "op_bad v = Some (v\<lparr>bad_opcode := True\<rparr>)"

section \<open>Messages\<close>

definition op_pint :: "vm \<Rightarrow> vm option" where
  "op_pint = IF_CHECK_STACK 1 (\<lambda>v.
     do { n \<leftarrow> jbi_strlen (message_buffer v) (js v); (x, v1) \<leftarrow> pop v;
          on_js (jbi_ltoa (message_buffer v1 + n) x) v1 })"

definition op_prnt :: "vm \<Rightarrow> vm option" where
  "op_prnt v = do { v1 \<leftarrow> on_js (jbi_message (message_buffer v)) v;
                    on_js (st8 (message_buffer v1) 0) v1 }"

definition op_pchr :: "vm \<Rightarrow> vm option" where
  "op_pchr = IF_CHECK_STACK 1 (\<lambda>v.
     do { count \<leftarrow> jbi_strlen (message_buffer v) (js v); (x, v1) \<leftarrow> pop v;
          let ch = (ucast x :: u8); ch = (if ch < 1 \<or> ch > 127 then 127 else ch)
          in do { v2 \<leftarrow> on_js (st8 (message_buffer v1 + count) ch) v1;
                  on_js (st8 (message_buffer v2 + (count + 1)) 0) v2 } })"

definition op_pstr :: "vm \<Rightarrow> vm option" where
  "op_pstr v =
     do { count \<leftarrow> jbi_strlen (message_buffer v) (js v); a \<leftarrow> arg 0 v;
          v1 \<leftarrow> on_js (jbi_strncpy (message_buffer v + count) (program v + (string_table v + a))
                         (JBIC_MESSAGE_LENGTH - count)) v;
          on_js (st8 (message_buffer v1 + JBIC_MESSAGE_LENGTH) 0) v1 }"

text \<open>EXPT has no effect but the pop.\<close>

definition op_expt :: "vm \<Rightarrow> vm option" where
  "op_expt = IF_CHECK_STACK 1 (\<lambda>v. do { (long_temp, v1) \<leftarrow> pop v; Some v1 })"

section \<open>Short scans, padding, states\<close>

text \<open>DSS and ISS, DSSC and ISSC: the scan operation is the argument.\<close>

definition short_scan :: "(u32 \<Rightarrow> u32 \<Rightarrow> u32 \<Rightarrow> jbi \<Rightarrow> (jbi_ret \<times> jbi) option) \<Rightarrow> vm \<Rightarrow> vm option" where
  "short_scan scan = IF_CHECK_STACK 2 (\<lambda>v.
     do { (long_temp, v1) \<leftarrow> pop v; (count, v2) \<leftarrow> pop v1;
          v3 \<leftarrow> on_js (jbi_make_dword (charbuf v2) long_temp) v2;
          call (scan count (charbuf v3) 0) v3 })"

definition short_swap ::
  "(u32 \<Rightarrow> u32 \<Rightarrow> u32 \<Rightarrow> u32 \<Rightarrow> u32 \<Rightarrow> jbi \<Rightarrow> (jbi_ret \<times> jbi) option) \<Rightarrow> vm \<Rightarrow> vm option" where
  "short_swap swap = IF_CHECK_STACK 2 (\<lambda>v.
     do { (long_temp, v1) \<leftarrow> pop v; count \<leftarrow> stk (stack_ptr v1 - 1) v1;
          v2 \<leftarrow> on_js (jbi_make_dword (charbuf v1) long_temp) v1;
          v3 \<leftarrow> call (swap count (charbuf v2) 0 (charbuf v2) 0) v2;
          x \<leftarrow> jbi_get_dword (charbuf v3) (js v3);
          set_top x v3 })"

definition op_dss :: "((pin \<times> bool) list \<Rightarrow> u32) \<Rightarrow> vm \<Rightarrow> vm option" where
  "op_dss rd = short_scan (jbi_do_drscan rd)"
definition op_dssc :: "((pin \<times> bool) list \<Rightarrow> u32) \<Rightarrow> vm \<Rightarrow> vm option" where
  "op_dssc rd = short_swap (jbi_swap_dr rd)"
definition op_iss :: "((pin \<times> bool) list \<Rightarrow> u32) \<Rightarrow> vm \<Rightarrow> vm option" where
  "op_iss rd = short_scan (jbi_do_irscan rd)"
definition op_issc :: "((pin \<times> bool) list \<Rightarrow> u32) \<Rightarrow> vm \<Rightarrow> vm option" where
  "op_issc rd = short_swap (jbi_swap_ir rd)"

text \<open>The padding instructions: without data, with a literal, and with an array.\<close>

definition pad_ones :: "(u32 \<Rightarrow> u32 \<Rightarrow> u32 \<Rightarrow> jbi \<Rightarrow> (jbi_ret \<times> jbi) option) \<Rightarrow> vm \<Rightarrow> vm option" where
  "pad_ones setter = IF_CHECK_STACK 1 (\<lambda>v. do { (count, v1) \<leftarrow> pop v; call (setter count 0 0) v1 })"

definition pad_literal :: "(u32 \<Rightarrow> u32 \<Rightarrow> u32 \<Rightarrow> jbi \<Rightarrow> (jbi_ret \<times> jbi) option) \<Rightarrow> vm \<Rightarrow> vm option" where
  "pad_literal setter = IF_CHECK_STACK 2 (\<lambda>v.
     do { (count, v1) \<leftarrow> pop v; (long_temp, v2) \<leftarrow> pop v1;
          v3 \<leftarrow> on_js (jbi_make_dword (charbuf v2) long_temp) v2;
          call (setter count 0 (charbuf v3)) v3 })"

definition pad_array :: "(u32 \<Rightarrow> u32 \<Rightarrow> u32 \<Rightarrow> jbi \<Rightarrow> (jbi_ret \<times> jbi) option) \<Rightarrow> vm \<Rightarrow> vm option" where
  "pad_array setter = IF_CHECK_STACK 2 (\<lambda>v.
     do { (index, v1) \<leftarrow> pop v; (count0, v2) \<leftarrow> pop v1;
          let count = (if version v2 then 1 + count0 - index else count0)
          in do { a \<leftarrow> arg 0 v2; p \<leftarrow> var_get a v2; call (setter count index p) v2 } })"

definition op_dpr :: "vm \<Rightarrow> vm option" where "op_dpr = pad_ones jbi_set_dr_preamble"
definition op_dprl :: "vm \<Rightarrow> vm option" where "op_dprl = pad_literal jbi_set_dr_preamble"
definition op_dpo :: "vm \<Rightarrow> vm option" where "op_dpo = pad_ones jbi_set_dr_postamble"
definition op_dpol :: "vm \<Rightarrow> vm option" where "op_dpol = pad_literal jbi_set_dr_postamble"
definition op_ipr :: "vm \<Rightarrow> vm option" where "op_ipr = pad_ones jbi_set_ir_preamble"
definition op_iprl :: "vm \<Rightarrow> vm option" where "op_iprl = pad_literal jbi_set_ir_preamble"
definition op_ipo :: "vm \<Rightarrow> vm option" where "op_ipo = pad_ones jbi_set_ir_postamble"
definition op_ipol :: "vm \<Rightarrow> vm option" where "op_ipol = pad_literal jbi_set_ir_postamble"
definition op_dpra :: "vm \<Rightarrow> vm option" where "op_dpra = pad_array jbi_set_dr_preamble"
definition op_dpoa :: "vm \<Rightarrow> vm option" where "op_dpoa = pad_array jbi_set_dr_postamble"
definition op_ipra :: "vm \<Rightarrow> vm option" where "op_ipra = pad_array jbi_set_ir_preamble"
definition op_ipoa :: "vm \<Rightarrow> vm option" where "op_ipoa = pad_array jbi_set_ir_postamble"

definition op_sint :: "((pin \<times> bool) list \<Rightarrow> u32) \<Rightarrow> vm \<Rightarrow> vm option" where
  "op_sint rd v = do { a \<leftarrow> arg 0 v; call (jbi_goto_jtag_state rd a) v }"

definition op_st :: "((pin \<times> bool) list \<Rightarrow> u32) \<Rightarrow> vm \<Rightarrow> vm option" where
  "op_st rd v = do { a \<leftarrow> arg 0 v; call (jbi_goto_jtag_state rd a) v }"

definition op_istp :: "vm \<Rightarrow> vm option" where
  "op_istp v = do { a \<leftarrow> arg 0 v; call (\<lambda>j. Some (jbi_set_irstop_state a j)) v }"

definition op_dstp :: "vm \<Rightarrow> vm option" where
  "op_dstp v = do { a \<leftarrow> arg 0 v; call (\<lambda>j. Some (jbi_set_drstop_state a j)) v }"

definition op_wait :: "((pin \<times> bool) list \<Rightarrow> u32) \<Rightarrow> vm \<Rightarrow> vm option" where
  "op_wait rd = IF_CHECK_STACK 2 (\<lambda>v.
     do { a0 \<leftarrow> arg 0 v; a1 \<leftarrow> arg 1 v;
          (cycles, v1) \<leftarrow> pop v;
          v2 \<leftarrow> (if cycles \<noteq> 0 then call (jbi_do_wait_cycles rd cycles a0) v1 else Some v1);
          (microseconds, v3) \<leftarrow> pop v2;
          v4 \<leftarrow> (if status v3 = JBIC_SUCCESS \<and> microseconds \<noteq> 0
                 then call (jbi_do_wait_microseconds rd microseconds a0) v3 else Some v3);
          v5 \<leftarrow> (if status v4 = JBIC_SUCCESS \<and> a1 \<noteq> a0 then call (jbi_goto_jtag_state rd a1) v4
                 else Some v4);
          Some (if version v5 then v5\<lparr>stack_ptr := stack_ptr v5 - 2\<rparr> else v5) })"

end
