(* ===== verification/JbiVmArray.thy ===== *)
theory JbiVmArray imports JbiVm begin

text \<open>
  The array instructions of the byte-code player (\<open>jbi_execute\<close> of jbimain.c): elements, bit
  fields, array copies, compares, scans with array data, and the resizing of an array.
\<close>

unbundle bit_operations_syntax

section \<open>Bits of arrays, with a signed index\<close>

text \<open>\<open>p[i >> 3L]\<close> with a long \<open>i\<close>: the shift is arithmetic.\<close>

definition sget_bit :: "u32 \<Rightarrow> u32 \<Rightarrow> jbi \<Rightarrow> bool option" where
  "sget_bit p i s = map_option (\<lambda>b. bit b (unat (i AND 7))) (ld8 (p + signed_drop_bit 3 i) s)"

definition sput_bit :: "u32 \<Rightarrow> u32 \<Rightarrow> bool \<Rightarrow> jbi \<Rightarrow> jbi option" where
  "sput_bit p i b s =
     do { c \<leftarrow> ld8 (p + signed_drop_bit 3 i) s;
          st8 (p + signed_drop_bit 3 i)
              (if b then set_bit (unat (i AND 7)) c else unset_bit (unat (i AND 7)) c) s }"

section \<open>Making a read-only array writable\<close>

text \<open>The loop \<open>if (src bit) dst bit |= 1\<close>, over \<open>n\<close> bits from \<open>i\<close> on.\<close>

fun or_bits :: "nat \<Rightarrow> u32 \<Rightarrow> u32 \<Rightarrow> u32 \<Rightarrow> jbi \<Rightarrow> jbi option" where
  "or_bits 0 src dst i s = Some s"
| "or_bits (Suc n) src dst i s =
     do { b \<leftarrow> sget_bit src i s;
          s1 \<leftarrow> (if b then sput_bit dst i True s else Some s);
          or_bits n src dst (i + 1) s1 }"

text \<open>Set bit 7 (allocated), clear bit 2, set bit 0 (writable).\<close>

definition writable_attr :: "u8 \<Rightarrow> u8" where
  "writable_attr a = ((a OR 0x80) AND NOT 0x04) OR 0x01"

text \<open>
  The block POPA, COPY, DSC and ISC share: a Boolean array that still lies in the program is
  copied to a new buffer. The result tells whether the allocation succeeded.
\<close>

definition bool_to_writable :: "u32 \<Rightarrow> vm \<Rightarrow> (bool \<times> vm) option" where
  "bool_to_writable variable_id v =
     do { a \<leftarrow> attr_get variable_id v;
          if version v \<and> a AND 0x9c = 0x0c
          then do { size \<leftarrow> size_get variable_id v;
                    let long_temp = signed_drop_bit 3 (size + 7)
                    in do { src \<leftarrow> var_get variable_id v;
                            let (dst, j) = jbi_malloc long_temp (js v)
                            in do { v1 \<leftarrow> var_set variable_id dst (v\<lparr>js := j\<rparr>);
                                    if dst = 0 then Some (False, v1\<lparr>status := JBIC_OUT_OF_MEMORY\<rparr>)
                                    else do { v2 \<leftarrow> on_js (clear_loop dst (nat (sint long_temp)) 0) v1;
                                              v3 \<leftarrow> on_js (or_bits (nat (sint size)) src dst 0) v2;
                                              a1 \<leftarrow> attr_get variable_id v3;
                                              v4 \<leftarrow> attr_set variable_id (writable_attr a1) v3;
                                              Some (True, v4) } } } }
          else Some (True, v) }"

section \<open>Elements of integer arrays\<close>

text \<open>The previous contents are in the program, as big-endian words.\<close>

fun copy_dwords :: "u32 \<Rightarrow> nat \<Rightarrow> u32 \<Rightarrow> u32 \<Rightarrow> jbi \<Rightarrow> jbi option" where
  "copy_dwords prog 0 dst long_temp s = Some s"
| "copy_dwords prog (Suc n) dst long_temp s =
     do { x \<leftarrow> GET_DWORD prog long_temp s; s1 \<leftarrow> st32 dst x s;
          copy_dwords prog n (dst + 4) (long_temp + 4) s1 }"

definition int_to_writable :: "u32 \<Rightarrow> vm \<Rightarrow> (bool \<times> vm) option" where
  "int_to_writable variable_id v =
     do { a \<leftarrow> attr_get variable_id v;
          if version v \<and> a AND 0x9c = 0x1c
          then do { count \<leftarrow> size_get variable_id v;
                    long_temp \<leftarrow> var_get variable_id v;
                    let (dst, j) = jbi_malloc (count * 4) (js v)
                    in do { v1 \<leftarrow> var_set variable_id dst (v\<lparr>js := j\<rparr>);
                            if dst = 0 then Some (False, v1\<lparr>status := JBIC_OUT_OF_MEMORY\<rparr>)
                            else do { v2 \<leftarrow> on_js (copy_dwords (program v1) (unat count) dst long_temp) v1;
                                      a1 \<leftarrow> attr_get variable_id v2;
                                      v3 \<leftarrow> attr_set variable_id (writable_attr a1) v2;
                                      Some (True, v3) } } }
          else Some (True, v) }"

definition op_pope :: "vm \<Rightarrow> vm option" where
  "op_pope = IF_CHECK_STACK 2 (\<lambda>v.
     do { variable_id \<leftarrow> arg 0 v;
          (ok, v1) \<leftarrow> int_to_writable variable_id v;
          if \<not> ok then Some v1
          else do { a \<leftarrow> attr_get variable_id v1;
                    if a AND 0x1c \<noteq> 0x18 then Some (v1\<lparr>status := JBIC_BOUNDS_ERROR\<rparr>)
                    else do { p \<leftarrow> var_get variable_id v1;
                              (index, v2) \<leftarrow> pop v1; (x, v3) \<leftarrow> pop v2;
                              on_js (st32 (p + 4 * index) x) v3 } } })"

definition op_pshe :: "vm \<Rightarrow> vm option" where
  "op_pshe = IF_CHECK_STACK 1 (\<lambda>v.
     do { variable_id \<leftarrow> arg 0 v;
          index \<leftarrow> stk (stack_ptr v - 1) v;
          a \<leftarrow> attr_get variable_id v;
          if a AND 0x1f = 0x19
          then do { p \<leftarrow> var_get variable_id v; x \<leftarrow> ld32 (p + 4 * index) (js v); set_top x v }
          else if a AND 0x1f = 0x1c
          then do { p \<leftarrow> var_get variable_id v; x \<leftarrow> prog_dword (p + 4 * index) v; set_top x v }
          else Some (v\<lparr>status := JBIC_BOUNDS_ERROR\<rparr>) })"

section \<open>Bit fields of Boolean arrays\<close>

text \<open>Bit \<open>i\<close> of the popped long goes to the array; \<open>1L << i\<close> is undefined from 32 on.\<close>

fun popa_loop :: "nat \<Rightarrow> u32 \<Rightarrow> u32 \<Rightarrow> u32 \<Rightarrow> u32 \<Rightarrow> jbi \<Rightarrow> jbi option" where
  "popa_loop 0 i long_temp p long_index s = Some s"
| "popa_loop (Suc n) i long_temp p long_index s =
     (if 32 \<le> i then None
      else do { s1 \<leftarrow> sput_bit p long_index (long_temp AND push_bit (unat i) 1 \<noteq> 0) s;
                popa_loop n (i + 1) long_temp p (long_index + 1) s1 })"

definition op_popa :: "vm \<Rightarrow> vm option" where
  "op_popa = IF_CHECK_STACK 3 (\<lambda>v.
     do { variable_id \<leftarrow> arg 0 v;
          (ok, v1) \<leftarrow> bool_to_writable variable_id v;
          a \<leftarrow> attr_get variable_id v1;
          if a AND 0x1c \<noteq> 0x08 then Some (v1\<lparr>status := JBIC_BOUNDS_ERROR\<rparr>)
          else do { p \<leftarrow> var_get variable_id v1;
                    (long_count, v2) \<leftarrow> pop v1; (long_index, v3) \<leftarrow> pop v2;
                    if version v3 \<and> sint long_index > sint long_count
                    then Some (v3\<lparr>status := JBIC_BOUNDS_ERROR\<rparr>)
                    else let long_count = (if version v3 then 1 + long_count - long_index else long_count)
                         in do { (long_temp, v4) \<leftarrow> pop v3;
                                 if sint long_count < 1 then Some (v4\<lparr>status := JBIC_BOUNDS_ERROR\<rparr>)
                                 else on_js (popa_loop (unat long_count) 0 long_temp p long_index) v4 } } })"

fun psha_loop :: "nat \<Rightarrow> u32 \<Rightarrow> u32 \<Rightarrow> u32 \<Rightarrow> u32 \<Rightarrow> jbi \<Rightarrow> u32 option" where
  "psha_loop 0 i index p long_temp s = Some long_temp"
| "psha_loop (Suc n) i index p long_temp s =
     do { b \<leftarrow> get_bit p (i + index) s;
          psha_loop n (i + 1) index p (if b then long_temp OR push_bit (unat i) 1 else long_temp) s }"

definition op_psha :: "vm \<Rightarrow> vm option" where
  "op_psha = IF_CHECK_STACK 2 (\<lambda>v.
     do { variable_id \<leftarrow> arg 0 v;
          a \<leftarrow> attr_get variable_id v;
          if a AND 0x18 \<noteq> 0x08 then Some (v\<lparr>status := JBIC_BOUNDS_ERROR\<rparr>)
          else do { p \<leftarrow> var_get variable_id v;
                    (count0, v1) \<leftarrow> pop v;
                    index \<leftarrow> stk (stack_ptr v1 - 1) v1;
                    let count = (if version v1 then 1 + count0 - index else count0)
                    in if count < 1 \<or> count > 32 then Some (v1\<lparr>status := JBIC_BOUNDS_ERROR\<rparr>)
                       else do { long_temp \<leftarrow> psha_loop (unat count) 0 index p 0 (js v1);
                                 set_top long_temp v1 } } })"

section \<open>Scans with array data\<close>

text \<open>The reversal of a bit range: \<open>long_temp\<close> runs down while \<open>long_index2\<close> runs up.\<close>

fun reverse_loop :: "nat \<Rightarrow> u32 \<Rightarrow> u32 \<Rightarrow> u32 \<Rightarrow> u32 \<Rightarrow> jbi \<Rightarrow> jbi option" where
  "reverse_loop 0 src long_temp dst long_index2 s = Some s"
| "reverse_loop (Suc n) src long_temp dst long_index2 s =
     do { b \<leftarrow> sget_bit src long_temp s;
          s1 \<leftarrow> sput_bit dst long_index2 b s;
          reverse_loop n src (long_temp - 1) dst (long_index2 + 1) s1 }"

definition array_scan :: "(u32 \<Rightarrow> u32 \<Rightarrow> u32 \<Rightarrow> jbi \<Rightarrow> (jbi_ret \<times> jbi) option) \<Rightarrow> vm \<Rightarrow> vm option" where
  "array_scan scan = IF_CHECK_STACK 2 (\<lambda>v.
     do { (long_index0, v1) \<leftarrow> pop v; (long_count0, v2) \<leftarrow> pop v1;
          (long_count, v3) \<leftarrow> (if version v2 then pop v2 else Some (long_count0, v2));
          let reverse = (version v3 \<and> sint long_index0 > sint long_count0);
              long_index = (if reverse then long_count0 else long_index0)
          in do { a \<leftarrow> arg 0 v3; p \<leftarrow> var_get a v3;
                  if reverse
                  then let (q, j) = jbi_malloc (signed_drop_bit 3 long_count + 1) (js v3);
                           v4 = v3\<lparr>js := j\<rparr>
                       in if q = 0 then Some (v4\<lparr>status := JBIC_OUT_OF_MEMORY\<rparr>)
                          else do { v5 \<leftarrow> on_js (reverse_loop (nat (sint long_count)) p
                                                  (long_index + long_count - 1) q 0) v4;
                                    v6 \<leftarrow> call (scan long_count q long_index) v5;
                                    on_js (jbi_free q) v6 }
                  else call (scan long_count p long_index) v3 } })"

definition op_ds :: "((pin \<times> bool) list \<Rightarrow> u32) \<Rightarrow> vm \<Rightarrow> vm option" where
  "op_ds rd = array_scan (jbi_do_drscan rd)"
definition op_is :: "((pin \<times> bool) list \<Rightarrow> u32) \<Rightarrow> vm \<Rightarrow> vm option" where
  "op_is rd = array_scan (jbi_do_irscan rd)"

text \<open>
  DSC and ISC. With format 2 the instruction pops five values after a check for three. A failed
  check of the counts sets the status, and the check of the attributes still runs.
\<close>

definition array_swap ::
  "(u32 \<Rightarrow> u32 \<Rightarrow> u32 \<Rightarrow> u32 \<Rightarrow> u32 \<Rightarrow> jbi \<Rightarrow> (jbi_ret \<times> jbi) option) \<Rightarrow> vm \<Rightarrow> vm option" where
  "array_swap swap = IF_CHECK_STACK 3 (\<lambda>v.
     do { (capture_index, v1) \<leftarrow> pop v; (scan_index0, v2) \<leftarrow> pop v1;
          (capture_count, scan_count, scan_index, v3) \<leftarrow>
            (if version v2
             then do { (scan_right, v3) \<leftarrow> pop v2; (scan_left, v4) \<leftarrow> pop v3;
                       Some (1 + scan_index0 - capture_index, 1 + scan_left - scan_right, scan_right, v4) }
             else Some (0, 0, scan_index0, v2));
          (long_count, v4) \<leftarrow> pop v3;
          a0 \<leftarrow> arg 0 v4; a1 \<leftarrow> arg 1 v4;
          (ok, v5) \<leftarrow> bool_to_writable a1 v4;
          if \<not> ok then Some v5
          else do { p \<leftarrow> var_get a0 v5; q \<leftarrow> var_get a1 v5;
                    let v6 = (if version v5 \<and> (sint long_count > sint capture_count
                                               \<or> sint long_count > sint scan_count)
                              then v5\<lparr>status := JBIC_BOUNDS_ERROR\<rparr> else v5)
                    in do { a \<leftarrow> attr_get a1 v6;
                            let v7 = (if a AND 0x1c \<noteq> 0x08 then v6\<lparr>status := JBIC_BOUNDS_ERROR\<rparr> else v6)
                            in if status v7 = JBIC_SUCCESS
                               then call (swap long_count p scan_index q capture_index) v7
                               else Some v7 } } })"

definition op_dsc :: "((pin \<times> bool) list \<Rightarrow> u32) \<Rightarrow> vm \<Rightarrow> vm option" where
  "op_dsc rd = array_swap (jbi_swap_dr rd)"
definition op_isc :: "((pin \<times> bool) list \<Rightarrow> u32) \<Rightarrow> vm \<Rightarrow> vm option" where
  "op_isc rd = array_swap (jbi_swap_ir rd)"

section \<open>Copying and comparing arrays\<close>

fun copy_array_loop :: "nat \<Rightarrow> bool \<Rightarrow> u32 \<Rightarrow> u32 \<Rightarrow> u32 \<Rightarrow> u32 \<Rightarrow> jbi \<Rightarrow> jbi option" where
  "copy_array_loop 0 reverse src index dst index2 s = Some s"
| "copy_array_loop (Suc n) reverse src index dst index2 s =
     do { b \<leftarrow> get_bit src index s; s1 \<leftarrow> put_bit dst index2 b s;
          copy_array_loop n reverse src (index + 1) dst
            (if reverse then index2 - 1 else index2 + 1) s1 }"

text \<open>
  The index computation of COPY for format 2, on the four popped values: the source range, the
  destination range, whether the copy reverses, and whether the counts match where they must.
\<close>

definition copy_ranges :: "u32 \<Rightarrow> u32 \<Rightarrow> u32 \<Rightarrow> u32 \<Rightarrow> u32 \<times> u32 \<times> u32 \<times> bool \<times> bool" where
  "copy_ranges copy_count copy_index copy_index2 destleft =
     (let src_reverse = (sint copy_count > sint copy_index);
          src_count = (if src_reverse then 1 + copy_count - copy_index else 1 + copy_index - copy_count);
          src_start = (if src_reverse then copy_index else copy_count);
          dest_reverse = (sint copy_index2 > sint destleft);
          dest_count = (if dest_reverse then 1 + copy_index2 - destleft else 1 + destleft - copy_index2);
          dest_start = (if dest_reverse then destleft else copy_index2)
      in (if sint src_count < sint dest_count then src_count else dest_count,
          src_start, dest_start, src_reverse \<noteq> dest_reverse,
          \<not> ((src_reverse \<or> dest_reverse) \<and> src_count \<noteq> dest_count)))"

definition op_copy :: "vm \<Rightarrow> vm option" where
  "op_copy = IF_CHECK_STACK 3 (\<lambda>v.
     do { (copy_count, v1) \<leftarrow> pop v; (copy_index, v2) \<leftarrow> pop v1; (copy_index2, v3) \<leftarrow> pop v2;
          (count, index, index2, reverse, v4) \<leftarrow>
            (if version v3
             then do { (destleft, v4) \<leftarrow> pop v3;
                       let (count, index, index2, reverse, ok) =
                             copy_ranges copy_count copy_index copy_index2 destleft
                       in Some (count, index, index2, reverse,
                                if ok then v4 else v4\<lparr>status := JBIC_BOUNDS_ERROR\<rparr>) }
             else Some (copy_count, copy_index, copy_index2, False, v3));
          a0 \<leftarrow> arg 0 v4; a1 \<leftarrow> arg 1 v4;
          (ok, v5) \<leftarrow> bool_to_writable a1 v4;
          if \<not> ok then Some v5
          else do { dst \<leftarrow> var_get a1 v5; src \<leftarrow> var_get a0 v5; a \<leftarrow> attr_get a1 v5;
                    if a AND 0x1c \<noteq> 0x08 then Some (v5\<lparr>status := JBIC_BOUNDS_ERROR\<rparr>)
                    else if count < 1 then Some (v5\<lparr>status := JBIC_BOUNDS_ERROR\<rparr>)
                    else on_js (copy_array_loop (unat count) reverse src index dst
                                  (if reverse then index2 + (count - 1) else index2)) v5 } })"

fun compare_loop :: "nat \<Rightarrow> u32 \<Rightarrow> u32 \<Rightarrow> u32 \<Rightarrow> u32 \<Rightarrow> u32 \<Rightarrow> u32 \<Rightarrow> u32 \<Rightarrow> jbi \<Rightarrow> u32 option" where
  "compare_loop 0 source1 index1 source2 index2 msk mask_index long_temp s = Some long_temp"
| "compare_loop (Suc n) source1 index1 source2 index2 msk mask_index long_temp s =
     do { m \<leftarrow> get_bit msk mask_index s;
          t \<leftarrow> (if m then do { a \<leftarrow> get_bit source1 index1 s; b \<leftarrow> get_bit source2 index2 s;
                              Some (if a \<noteq> b then 0 else long_temp) }
               else Some long_temp);
          compare_loop n source1 (index1 + 1) source2 (index2 + 1) msk (mask_index + 1) t s }"

definition smin :: "u32 \<Rightarrow> u32 \<Rightarrow> u32" where
  "smin a b = (if sint a < sint b then a else b)"

definition op_cmpa :: "vm \<Rightarrow> vm option" where
  "op_cmpa = IF_CHECK_STACK 4 (\<lambda>v.
     do { a0 \<leftarrow> arg 0 v; a1 \<leftarrow> arg 1 v; a2 \<leftarrow> arg 2 v;
          source1 \<leftarrow> var_get a0 v; source2 \<leftarrow> var_get a1 v; mask \<leftarrow> var_get a2 v;
          (index1, v1) \<leftarrow> pop v; (index2, v2) \<leftarrow> pop v1; (mask_index, v3) \<leftarrow> pop v2;
          (long_count, v4) \<leftarrow> pop v3;
          (index2, mask_index, long_count, v5) \<leftarrow>
            (if version v4
             then do { (mask_right, v5) \<leftarrow> pop v4; (mask_left, v6) \<leftarrow> pop v5;
                       let a = 1 + index2 - index1; b = 1 + long_count - mask_index; a = smin a b;
                           b = 1 + mask_left - mask_right; a = smin a b
                       in Some (mask_index, mask_right, a, v6) }
             else Some (index2, mask_index, long_count, v4));
          (long_temp, v6) \<leftarrow>
            (if sint long_count < 1 then Some (1, v5\<lparr>status := JBIC_BOUNDS_ERROR\<rparr>)
             else do { t \<leftarrow> compare_loop (unat long_count) source1 index1 source2 index2
                               mask mask_index 1 (js v5); Some (t, v5) });
          push long_temp v6 })"

section \<open>Resizing and exporting\<close>

text \<open>The division by 8 of a long truncates.\<close>

definition bits_to_bytes :: "u32 \<Rightarrow> u32" where
  "bits_to_bytes n = of_int (sint (n + 7) sdiv 8)"

definition op_dyna :: "vm \<Rightarrow> vm option" where
  "op_dyna = IF_CHECK_STACK 1 (\<lambda>v.
     do { variable_id \<leftarrow> arg 0 v; (long_temp, v1) \<leftarrow> pop v;
          size \<leftarrow> size_get variable_id v1;
          if sint long_temp > sint size
          then do { v2 \<leftarrow> size_set variable_id long_temp v1;
                    a \<leftarrow> attr_get variable_id v2;
                    let bytes = (if a AND 0x10 \<noteq> 0 then long_temp * 4 else signed_drop_bit 3 (long_temp + 7))
                    in do { p \<leftarrow> var_get variable_id v2;
                            v3 \<leftarrow> (if a AND 0x80 \<noteq> 0 \<and> p \<noteq> 0
                                   then do { v3 \<leftarrow> on_js (jbi_free p) v2; var_set variable_id 0 v3 }
                                   else Some v2);
                            let (q, j) = jbi_malloc bytes (js v3)
                            in do { v4 \<leftarrow> var_set variable_id q (v3\<lparr>js := j\<rparr>);
                                    if q = 0 then Some (v4\<lparr>status := JBIC_OUT_OF_MEMORY\<rparr>)
                                    else do { a1 \<leftarrow> attr_get variable_id v4;
                                              v5 \<leftarrow> attr_set variable_id (a1 OR 0x80) v4;
                                              n \<leftarrow> size_get variable_id v5;
                                              on_js (clear_loop q (unat (bits_to_bytes n)) 0) v5 } } } }
          else Some v1 })"

fun export_loop :: "nat \<Rightarrow> u32 \<Rightarrow> u32 \<Rightarrow> u32 \<Rightarrow> u32 \<Rightarrow> jbi \<Rightarrow> jbi option" where
  "export_loop 0 src k dst i s = Some s"
| "export_loop (Suc n) src k dst i s =
     do { b \<leftarrow> sget_bit src k s; s1 \<leftarrow> put_bit dst i b s; export_loop n src (k + 1) dst (i + 1) s1 }"

text \<open>EXPV exports nothing: an unaligned range is copied to a buffer that is freed again.\<close>

definition op_expv :: "vm \<Rightarrow> vm option" where
  "op_expv = IF_CHECK_STACK 3 (\<lambda>v.
     if \<not> version v then Some (v\<lparr>bad_opcode := True\<rparr>)
     else do { (variable_id, v1) \<leftarrow> pop v; (long_index, v2) \<leftarrow> pop v1; (long_index2, v3) \<leftarrow> pop v2;
               if sint long_index > sint long_index2 then Some (v3\<lparr>status := JBIC_BOUNDS_ERROR\<rparr>)
               else let long_count = 1 + long_index2 - long_index
                    in do { p \<leftarrow> var_get variable_id v3;
                            if long_index AND 7 \<noteq> 0
                            then let (q, j) = jbi_malloc (bits_to_bytes long_count) (js v3);
                                     v4 = v3\<lparr>js := j\<rparr>
                                 in if q = 0 then Some (v4\<lparr>status := JBIC_OUT_OF_MEMORY\<rparr>)
                                    else do { v5 \<leftarrow> on_js (export_loop (unat long_count) p long_index q 0) v4;
                                              on_js (jbi_free q) v5 }
                            else Some v3 } })"

end
