(* ===== verification/JbiExec.thy ===== *)
theory JbiExec imports JbiVmArray begin

text \<open>
  The run of a byte-code program: the header, the symbol tables and the choice of the first
  procedure (jbimain.c), fetch, dispatch and the checks after an instruction, the clean-up, and
  the entry point \<open>jbcmain\<close> with its messages (jbistub.c).
\<close>

unbundle bit_operations_syntax

section \<open>One instruction\<close>

text \<open>The operands of an instruction are big-endian words after the opcode.\<close>

fun fetch_args :: "nat \<Rightarrow> nat \<Rightarrow> vm \<Rightarrow> vm option" where
  "fetch_args 0 i v = Some v"
| "fetch_args (Suc n) i v =
     do { x \<leftarrow> prog_dword (pc v) v;
          as \<leftarrow> arr_set (args v) i x;
          fetch_args n (Suc i) (v\<lparr>args := as, pc := pc v + 4\<rparr>) }"

definition fetch :: "vm \<Rightarrow> vm option" where
  "fetch v =
     do { op \<leftarrow> GET_BYTE (program v) (pc v) (js v);
          let arg_count = drop_bit 6 op AND 3
          in fetch_args (unat arg_count) 0
               (v\<lparr>opcode := op, opcode_address := pc v, pc := pc v + 1\<rparr>) }"

text \<open>The switch.\<close>

definition dispatch :: "((pin \<times> bool) list \<Rightarrow> u32) \<Rightarrow> vm \<Rightarrow> vm option" where
  "dispatch rd v =
     (let oc = opcode v in
      if oc = 0x00 then Some v
      else if oc = 0x01 then op_dup v
      else if oc = 0x02 then op_swp v
      else if oc = 0x03 then op_add v
      else if oc = 0x04 then op_sub v
      else if oc = 0x05 then op_mult v
      else if oc = 0x06 then op_div v
      else if oc = 0x07 then op_mod v
      else if oc = 0x08 then op_shl v
      else if oc = 0x09 then op_shr v
      else if oc = 0x0A then op_not v
      else if oc = 0x0B then op_and v
      else if oc = 0x0C then op_or v
      else if oc = 0x0D then op_xor v
      else if oc = 0x0E then op_inv v
      else if oc = 0x0F then op_gt v
      else if oc = 0x10 then op_lt v
      else if oc = 0x11 then op_ret v
      else if oc = 0x12 then op_cmps v
      else if oc = 0x13 then op_pint v
      else if oc = 0x14 then op_prnt v
      else if oc = 0x15 then op_dss rd v
      else if oc = 0x16 then op_dssc rd v
      else if oc = 0x17 then op_iss rd v
      else if oc = 0x18 then op_issc rd v
      else if oc = 0x1C then op_dpr v
      else if oc = 0x1D then op_dprl v
      else if oc = 0x1E then op_dpo v
      else if oc = 0x1F then op_dpol v
      else if oc = 0x20 then op_ipr v
      else if oc = 0x21 then op_iprl v
      else if oc = 0x22 then op_ipo v
      else if oc = 0x23 then op_ipol v
      else if oc = 0x24 then op_pchr v
      else if oc = 0x25 then op_exit v
      else if oc = 0x26 then op_equ v
      else if oc = 0x27 then op_popt v
      else if oc = 0x2C then op_abs v
      else if oc = 0x2D then op_bch0 v
      else if oc = 0x2F then op_psh0 v
      else if oc = 0x40 then op_pshl v
      else if oc = 0x41 then op_pshv v
      else if oc = 0x42 then op_jmp v
      else if oc = 0x43 then op_call v
      else if oc = 0x44 then op_next v
      else if oc = 0x45 then op_pstr v
      else if oc = 0x47 then op_sint rd v
      else if oc = 0x48 then op_st rd v
      else if oc = 0x49 then op_istp v
      else if oc = 0x4A then op_dstp v
      else if oc = 0x4B then op_swpn v
      else if oc = 0x4C then op_dupn v
      else if oc = 0x4D then op_popv v
      else if oc = 0x4E then op_pope v
      else if oc = 0x4F then op_popa v
      else if oc = 0x50 then op_jmpz v
      else if oc = 0x51 then op_ds rd v
      else if oc = 0x52 then op_is rd v
      else if oc = 0x53 then op_dpra v
      else if oc = 0x54 then op_dpoa v
      else if oc = 0x55 then op_ipra v
      else if oc = 0x56 then op_ipoa v
      else if oc = 0x57 then op_expt v
      else if oc = 0x58 then op_pshe v
      else if oc = 0x59 then op_psha v
      else if oc = 0x5A then op_dyna v
      else if oc = 0x5C then op_expv v
      else if oc = 0x80 then op_copy v
      else if oc = 0x82 then op_dsc rd v
      else if oc = 0x83 then op_isc rd v
      else if oc = 0x84 then op_wait rd v
      else if oc = 0xC0 then op_cmpa v
      else op_bad v)"

text \<open>The checks after the switch.\<close>

definition after_instruction :: "vm \<Rightarrow> vm" where
  "after_instruction v =
     (let v1 = (if bad_opcode v then v\<lparr>status := JBIC_ILLEGAL_OPCODE\<rparr> else v);
          v2 = (if stack_ptr v1 < 0 \<or> stack_ptr v1 \<ge> int JBI_STACK_SIZE
                then v1\<lparr>status := JBIC_STACK_OVERFLOW\<rparr> else v1)
      in if status v2 \<noteq> JBIC_SUCCESS
         then v2\<lparr>finished := True, error_address := opcode_address v2 - code_section v2\<rparr> else v2)"

definition step :: "((pin \<times> bool) list \<Rightarrow> u32) \<Rightarrow> vm \<Rightarrow> vm option" where
  "step rd v = do { v1 \<leftarrow> fetch v; v2 \<leftarrow> dispatch rd v1; Some (after_instruction v2) }"

partial_function (option) run :: "((pin \<times> bool) list \<Rightarrow> u32) \<Rightarrow> vm \<Rightarrow> vm option" where
  "run rd v = (if finished v then Some v else do { v1 \<leftarrow> step rd v; run rd v1 })"

section \<open>The header and the symbol tables\<close>

definition read_header :: "u32 \<Rightarrow> vm \<Rightarrow> vm option" where
  "read_header program_size v =
     do { (first_word, v1) \<leftarrow>
            (if sint program_size > 52
             then do { first_word \<leftarrow> prog_dword 0 v;
                       let ver = first_word AND 1; delta = ver * 8
                       in do { at \<leftarrow> prog_dword 4 v; pt \<leftarrow> prog_dword 8 v;
                               strt \<leftarrow> prog_dword (4 + delta) v; symt \<leftarrow> prog_dword (16 + delta) v;
                               ds \<leftarrow> prog_dword (20 + delta) v; cs \<leftarrow> prog_dword (24 + delta) v;
                               dbg \<leftarrow> prog_dword (28 + delta) v; ac \<leftarrow> prog_dword (40 + delta) v;
                               prc \<leftarrow> prog_dword (44 + delta) v; sc \<leftarrow> prog_dword (48 + 2 * delta) v;
                               Some (first_word,
                                 v\<lparr>version := (ver \<noteq> 0), format_version := ver + 1, action_table := at,
                                   proc_table := pt, string_table := strt, symbol_table := symt,
                                   data_section := ds, code_section := cs, debug_section := dbg,
                                   action_count := ac, proc_count := prc, symbol_count := sc\<rparr>) } }
             else Some (0, v));
          Some (if first_word \<noteq> 0x4A414D00 \<and> first_word \<noteq> 0x4A414D01
                then v1\<lparr>finished := True, status := JBIC_IO_ERROR\<rparr> else v1) }"

text \<open>One allocation; it is skipped after a failure of the one before.\<close>

definition alloc_table :: "u32 \<Rightarrow> (u32 \<Rightarrow> vm \<Rightarrow> vm) \<Rightarrow> vm \<Rightarrow> vm" where
  "alloc_table nbytes upd v =
     (if status v = JBIC_SUCCESS
      then let (p, j) = jbi_malloc nbytes (js v); v1 = upd p (v\<lparr>js := j\<rparr>)
           in if p = 0 then v1\<lparr>status := JBIC_OUT_OF_MEMORY\<rparr> else v1
      else v)"

definition alloc_tables :: "vm \<Rightarrow> vm" where
  "alloc_tables v =
     (let v1 = alloc_table (symbol_count v * 4) (\<lambda>p v. v\<lparr>variables := p\<rparr>) v;
          v2 = alloc_table (symbol_count v1 * 4) (\<lambda>p v. v\<lparr>variable_size := p\<rparr>) v1;
          v3 = alloc_table (symbol_count v2) (\<lambda>p v. v\<lparr>attributes := p\<rparr>) v2
      in if version v3 then alloc_table (proc_count v3) (\<lambda>p v. v\<lparr>proc_attributes := p\<rparr>) v3 else v3)"

text \<open>The branches of the symbol loop: a compressed Boolean array, and an uninitialised array.\<close>

definition init_compressed :: "u32 \<Rightarrow> u32 \<Rightarrow> vm \<Rightarrow> vm option" where
  "init_compressed i val v =
     (let inp = program v + (data_section v + val)
      in do { uncompressed_size \<leftarrow> jbi_get_dword inp (js v);
              let (p, j) = jbi_malloc uncompressed_size (js v)
              in do { v1 \<leftarrow> var_set i p (v\<lparr>js := j\<rparr>);
                      if p = 0 then Some (v1\<lparr>status := JBIC_OUT_OF_MEMORY\<rparr>)
                      else do { a \<leftarrow> attr_get i v1; v2 \<leftarrow> attr_set i (a OR 0x80) v1;
                                size \<leftarrow> size_get i v2; q \<leftarrow> var_get i v2;
                                (n, j) \<leftarrow> jbi_uncompress inp size q uncompressed_size (version v2) (js v2);
                                let v3 = v2\<lparr>js := j\<rparr>
                                in if n \<noteq> uncompressed_size then Some (v3\<lparr>status := JBIC_IO_ERROR\<rparr>)
                                   else size_set i (uncompressed_size * 8) v3 } } })"

definition init_array :: "u32 \<Rightarrow> vm \<Rightarrow> vm option" where
  "init_array i v =
     do { a \<leftarrow> attr_get i v; v1 \<leftarrow> attr_set i (a OR 0x80) v;
          n \<leftarrow> size_get i v1;
          if sint n > 0
          then let size = (if a AND 0x10 \<noteq> 0 then n * 4 else bits_to_bytes n);
                   (p, j) = jbi_malloc size (js v1)
               in do { v2 \<leftarrow> var_set i p (v1\<lparr>js := j\<rparr>);
                       if p = 0 then Some (v2\<lparr>status := JBIC_OUT_OF_MEMORY\<rparr>)
                       else on_js (clear_loop p (unat size) 0) v2 }
          else var_set i 0 v1 }"

definition init_symbol :: "u32 \<Rightarrow> vm \<Rightarrow> vm option" where
  "init_symbol i v =
     (let delta = bool32 (version v) * 2; offset = symbol_table v + (11 + delta) * i
      in do { val \<leftarrow> prog_dword (offset + 3 + delta) v;
              a0 \<leftarrow> GET_BYTE (program v) offset (js v);
              v1 \<leftarrow> attr_set i a0 v;
              v2 \<leftarrow> attr_set i (a0 AND 0x7f) v1;
              size \<leftarrow> prog_dword (offset + 7 + delta) v2;
              v3 \<leftarrow> size_set i size v2;
              a \<leftarrow> attr_get i v3;
              if a AND 0x0c = 0x04 then var_set i val v3
              else if a AND 0x1e = 0x0e then init_compressed i val v3
              else if a AND 0x1e = 0x0c then var_set i (val + data_section v3 + program v3) v3
              else if a AND 0x1c = 0x1c then var_set i (val + data_section v3) v3
              else if a AND 0x0c = 0x08 then init_array i v3
              else var_set i 0 v3 })"

fun init_symbols :: "nat \<Rightarrow> u32 \<Rightarrow> vm \<Rightarrow> vm option" where
  "init_symbols 0 i v = Some v"
| "init_symbols (Suc n) i v = do { v1 \<leftarrow> init_symbol i v; init_symbols n (i + 1) v1 }"

definition setup_symbols :: "vm \<Rightarrow> vm option" where
  "setup_symbols v =
     do { v2 \<leftarrow> (if status v = JBIC_SUCCESS \<and> symbol_count v > 0
                 then let v1 = alloc_tables v
                      in if status v1 = JBIC_SUCCESS then init_symbols (unat (symbol_count v1)) 0 v1
                         else Some v1
                 else Some v);
          Some (if status v2 \<noteq> JBIC_SUCCESS then v2\<lparr>finished := True\<rparr> else v2) }"

section \<open>The action\<close>

text \<open>The search of the action table: \<open>n\<close> entries are left, \<open>i\<close> is next.\<close>

fun find_action :: "nat \<Rightarrow> u32 \<Rightarrow> u32 \<Rightarrow> vm \<Rightarrow> (bool \<times> vm) option" where
  "find_action 0 i action v = Some (False, v)"
| "find_action (Suc n) i action v =
     do { name_id \<leftarrow> prog_dword (action_table v + 12 * i) v;
          r \<leftarrow> jbi_stricmp action (program v + (string_table v + name_id)) (js v);
          if r = 0
          then do { p \<leftarrow> prog_dword (action_table v + 12 * i + 8) v; Some (True, v\<lparr>current_proc := p\<rparr>) }
          else find_action n (i + 1) action v }"

text \<open>The loop that sets the attributes of the procedures of the action; \<open>i\<close> is next.\<close>

definition set_proc_attr :: "u32 \<Rightarrow> vm \<Rightarrow> vm option" where
  "set_proc_attr i v =
     do { b \<leftarrow> GET_BYTE (program v) (proc_table v + 13 * i + 8) (js v);
          on_js (st8 (proc_attributes v + i) (b AND 0x03)) v }"

partial_function (option) set_proc_attrs :: "u32 \<Rightarrow> vm \<Rightarrow> vm option" where
  "set_proc_attrs i v =
     do { v1 \<leftarrow> set_proc_attr i v;
          n \<leftarrow> proc_next i v1;
          if n \<noteq> 0 then set_proc_attrs n v1 else Some v1 }"

definition first_proc :: "vm \<Rightarrow> vm option" where
  "first_proc v =
     do { v1 \<leftarrow> set_proc_attrs (current_proc v) v;
          i \<leftarrow> skip_procs (current_proc v1) v1;
          enter \<leftarrow> (if i \<noteq> 0 then Some True
                    else if current_proc v1 = 0
                    then do { a \<leftarrow> proc_attr 0 v1; Some (a \<noteq> 1 \<and> a AND 0xc0 \<noteq> 0x40) }
                    else Some False);
          if enter then enter_proc i v1 else Some (v1\<lparr>finished := True\<rparr>) }"

definition select_action :: "u32 \<Rightarrow> vm \<Rightarrow> vm option" where
  "select_action action v =
     (if \<not> version v then Some v
      else do { v2 \<leftarrow> (if action = 0 then Some (v\<lparr>status := JBIC_ACTION_NOT_FOUND, finished := True\<rparr>)
                       else do { (found, v1) \<leftarrow> find_action (unat (action_count v)) 0 action v;
                                 Some (if found then v1
                                       else v1\<lparr>status := JBIC_ACTION_NOT_FOUND, finished := True\<rparr>) });
                if status v2 = JBIC_SUCCESS then first_proc v2 else Some v2 })"

section \<open>The run\<close>

text \<open>Freeing the arrays whose attribute says they were allocated, then the tables.\<close>

fun free_arrays :: "nat \<Rightarrow> u32 \<Rightarrow> vm \<Rightarrow> vm option" where
  "free_arrays 0 i v = Some v"
| "free_arrays (Suc n) i v =
     do { a \<leftarrow> attr_get i v;
          v1 \<leftarrow> (if a AND 0x80 \<noteq> 0
                 then do { p \<leftarrow> var_get i v; if p \<noteq> 0 then on_js (jbi_free p) v else Some v }
                 else Some v);
          free_arrays n (i + 1) v1 }"

definition free_table :: "u32 \<Rightarrow> vm \<Rightarrow> vm option" where
  "free_table p v = (if p \<noteq> 0 then on_js (jbi_free p) v else Some v)"

definition cleanup :: "((pin \<times> bool) list \<Rightarrow> u32) \<Rightarrow> bool \<Rightarrow> vm \<Rightarrow> vm option" where
  "cleanup rd reset_jtag v =
     do { v1 \<leftarrow> on_js (jbi_free_jtag_padding_buffers rd reset_jtag) v;
          v2 \<leftarrow> (if attributes v1 \<noteq> 0 \<and> variables v1 \<noteq> 0
                 then free_arrays (unat (symbol_count v1)) 0 v1 else Some v1);
          v3 \<leftarrow> free_table (variables v2) v2;
          v4 \<leftarrow> free_table (variable_size v3) v3;
          v5 \<leftarrow> free_table (attributes v4) v4;
          free_table (proc_attributes v5) v5 }"

text \<open>
  The frame of \<open>jbi_execute\<close>: the addresses of \<open>message_buffer\<close> (257 bytes) and \<open>charbuf\<close> (4), and
  what the uninitialised variables in it contain: the two buffers, and the operands.
\<close>

record frame =
  message_at :: u32
  charbuf_at :: u32
  old_bytes :: "nat \<Rightarrow> u8"
  old_args :: "u32 list"

definition open_frame :: "frame \<Rightarrow> jbi \<Rightarrow> jbi" where
  "open_frame fr j =
     j\<lparr>mem := map_block (charbuf_at fr) 4 (old_bytes fr)
               (map_block (message_at fr) 257 (old_bytes fr) (mem j))\<rparr>"

definition close_frame :: "frame \<Rightarrow> jbi \<Rightarrow> jbi" where
  "close_frame fr j =
     j\<lparr>mem := unmap_block (charbuf_at fr) 4 (unmap_block (message_at fr) 257 (mem j))\<rparr>"

definition initial_vm :: "frame \<Rightarrow> u32 \<Rightarrow> jbi \<Rightarrow> vm" where
  "initial_vm fr prog j =
     \<lparr>js = open_frame fr j, program = prog, action_table = 0, proc_table = 0, string_table = 0,
      symbol_table = 0, data_section = 0, code_section = 0, debug_section = 0, action_count = 0,
      proc_count = 0, symbol_count = 0, message_buffer = message_at fr, charbuf = charbuf_at fr,
      variables = 0, variable_size = 0, attributes = 0, proc_attributes = 0, pc = 0,
      opcode_address = 0, opcode = 0, args = old_args fr, stack = replicate JBI_STACK_SIZE 0,
      stack_ptr = 0, version = False, current_proc = 0, status = JBIC_SUCCESS, finished = False,
      bad_opcode = False, exit_code = 0, error_address = 0, format_version = 0\<rparr>"

text \<open>Everything before the loop.\<close>

definition jbi_setup :: "frame \<Rightarrow> u32 \<Rightarrow> u32 \<Rightarrow> u32 \<Rightarrow> u32 \<Rightarrow> jbi \<Rightarrow> vm option" where
  "jbi_setup fr prog program_size workspace action j =
     do { v1 \<leftarrow> read_header program_size (initial_vm fr prog (j\<lparr>jbi_workspace := workspace\<rparr>));
          v2 \<leftarrow> setup_symbols v1;
          v3 \<leftarrow> on_js (\<lambda>j. Some (snd (jbi_init_jtag j))) v2;
          v4 \<leftarrow> on_js (st8 (message_buffer v3) 0) (v3\<lparr>pc := code_section v3\<rparr>);
          v5 \<leftarrow> select_action action v4;
          on_js (st8 (message_buffer v5) 0) v5 }"

text \<open>
  The result: the status, the error address, the exit code and the format version (0 where the
  caller's variables are not written), and the state.
\<close>

definition jbi_execute ::
  "((pin \<times> bool) list \<Rightarrow> u32) \<Rightarrow> frame \<Rightarrow> u32 \<Rightarrow> u32 \<Rightarrow> u32 \<Rightarrow> u32 \<Rightarrow> bool \<Rightarrow> jbi
     \<Rightarrow> (jbi_ret \<times> u32 \<times> u32 \<times> u32 \<times> jbi) option" where
  "jbi_execute rd fr prog program_size workspace action reset_jtag j =
     do { v1 \<leftarrow> jbi_setup fr prog program_size workspace action j;
          v2 \<leftarrow> run rd v1;
          v3 \<leftarrow> cleanup rd reset_jtag v2;
          Some (status v3, error_address v3, exit_code v3, format_version v3, close_frame fr (js v3)) }"

section \<open>The entry point (jbistub.c)\<close>

text \<open>The printed outcome, besides the banner.\<close>

datatype report = CrcMismatch u16 u16 | ExitCode u32 string | ActionNotSupported
  | ErrorAt u32 string | UnknownError u32

primrec ret_code :: "jbi_ret \<Rightarrow> u32" where
  "ret_code JBIC_SUCCESS = 0" | "ret_code JBIC_OUT_OF_MEMORY = 1" | "ret_code JBIC_IO_ERROR = 2"
| "ret_code JBIC_UNEXPECTED_END = 4" | "ret_code JBIC_UNDEFINED_SYMBOL = 5"
| "ret_code JBIC_INTEGER_OVERFLOW = 7" | "ret_code JBIC_DIVIDE_BY_ZERO = 8"
| "ret_code JBIC_CRC_ERROR = 9" | "ret_code JBIC_INTERNAL_ERROR = 10"
| "ret_code JBIC_BOUNDS_ERROR = 11" | "ret_code JBIC_VECTOR_MAP_FAILED = 18"
| "ret_code JBIC_USER_ABORT = 19" | "ret_code JBIC_STACK_OVERFLOW = 20"
| "ret_code JBIC_ILLEGAL_OPCODE = 21" | "ret_code JBIC_ACTION_NOT_FOUND = 24"

definition error_text :: "string list" where
  "error_text =
     [''success'', ''out of memory'', ''file access error'', ''syntax error'',
      ''unexpected end of file'', ''undefined symbol'', ''redefined symbol'', ''integer overflow'',
      ''divide by zero'', ''CRC mismatch'', ''internal error'', ''bounds error'', ''type mismatch'',
      ''assignment to constant'', ''NEXT unexpected'', ''POP unexpected'', ''RETURN unexpected'',
      ''illegal symbol name'', ''vector signal name not found'', ''execution cancelled'',
      ''stack overflow'', ''illegal instruction code'', ''phase error'', ''scope error'',
      ''action not found'']"

definition MAX_ERROR_CODE :: nat where "MAX_ERROR_CODE = length error_text + 1"

definition exit_strings :: "u32 \<Rightarrow> string list" where
  "exit_strings format =
     (if format = 2
      then [''Success'', ''Checking chain failure'', ''Reading IDCODE failure'',
            ''Reading USERCODE failure'', ''Reading UESCODE failure'', ''Entering ISP failure'',
            ''Unrecognized device'', ''Device revision is not supported'', ''Erase failure'',
            ''Device is not blank'', ''Device programming failure'', ''Device verify failure'',
            ''Read failure'', ''Calculating checksum failure'', ''Setting security bit failure'',
            ''Querying security bit failure'', ''Exiting ISP failure'',
            ''Performing system test failure'']
      else [''Success'', ''Illegal initialization values'', ''Unrecognized device'',
            ''Device revision is not supported'', ''Device programming failure'',
            ''Device is not blank'', ''Device verify failure'', ''SRAM configuration failure''])"

definition exit_string :: "u32 \<Rightarrow> u32 \<Rightarrow> string" where
  "exit_string format code =
     (if 0 \<le> sint code \<and> unat code < length (exit_strings format) then exit_strings format ! unat code
      else ''Unknown exit code'')"

definition outcome :: "jbi_ret \<Rightarrow> u32 \<Rightarrow> u32 \<Rightarrow> u32 \<Rightarrow> bool \<Rightarrow> report list option" where
  "outcome exec_result err_address code format readback =
     (if exec_result = JBIC_SUCCESS
      then Some (if \<not> readback \<and> code \<noteq> 0 then [ExitCode code (exit_string format code)] else [])
      else if format = 2 \<and> exec_result = JBIC_ACTION_NOT_FOUND then Some [ActionNotSupported]
      else if unat (ret_code exec_result) < MAX_ERROR_CODE
      then do { t \<leftarrow> arr_get error_text (unat (ret_code exec_result)); Some [ErrorAt err_address t] }
      else Some [UnknownError (ret_code exec_result)])"

definition close_jtag_hardware :: "jbi \<Rightarrow> jbi" where
  "close_jtag_hardware j = j\<lparr>fg_Data_Readback := False\<rparr>"

text \<open>
  \<open>action\<close> is the address of the literal "PROGRAM". The switch of the CRC result is entered for
  JBIC\_CRC\_ERROR only, so every other result passes unnoticed.
\<close>

definition jbcmain ::
  "((pin \<times> bool) list \<Rightarrow> u32) \<Rightarrow> frame \<Rightarrow> u32 \<Rightarrow> u32 \<Rightarrow> u32 \<Rightarrow> jbi \<Rightarrow> (u32 \<times> report list \<times> jbi) option" where
  "jbcmain rd fr action buf data_size j =
     do { (crc_result, crcs) \<leftarrow> jbi_check_crc buf data_size j;
          let r1 = (if crc_result = JBIC_CRC_ERROR
                    then case crcs of None \<Rightarrow> [] | Some (e, a) \<Rightarrow> [CrcMismatch e a] else [])
          in do { (exec_result, err_address, code, format, j1) \<leftarrow>
                    jbi_execute rd fr buf data_size 0 action True j;
                  r2 \<leftarrow> outcome exec_result err_address code format (fg_Data_Readback j1);
                  let j2 = (if jtag_hardware_initialized j1 then close_jtag_hardware j1 else j1)
                  in Some (if exec_result \<noteq> JBIC_SUCCESS then - 1 else code, r1 @ r2, j2) } }"

text \<open>
  \<open>delay_loop\<close>: the sleeps it asks the kernel for, and the static counter of the short waits.
\<close>

datatype wait = MSLEEP int | UDELAY int

text \<open>A negative count goes to \<open>udelay\<close>; the loop ends in at most two turns.\<close>

definition short_wait :: "int \<Rightarrow> u32 \<Rightarrow> wait list \<times> u32" where
  "short_wait count idle_count =
     (let idle_count = idle_count + 1
      in if idle_count mod 1024 = 0 then ([MSLEEP 0, UDELAY count], 0)
         else ([UDELAY count], idle_count))"

function delay_loop :: "int \<Rightarrow> u32 \<Rightarrow> wait list \<times> u32" where
  "delay_loop count idle_count =
     (if count = 0 then ([], idle_count)
      else if count > 20000
      then let (ws, ic) = delay_loop (count mod 1000) idle_count in (MSLEEP (count div 1000) # ws, ic)
      else let (w, ic) = short_wait count idle_count; (ws, ic) = delay_loop (count - count) ic
           in (w @ ws, ic))"
  by pat_completeness auto
termination
proof (relation "measure (\<lambda>(count, idle_count). nat \<bar>count\<bar>)", goal_cases)
  case (2 count idle_count)
  then have "0 \<le> count mod 1000" "count mod 1000 < 1000" by simp_all
  then show ?case using 2 by simp
qed auto

declare delay_loop.simps [simp del]

end
