(* ===== verification/JbiStack.thy ===== *)
theory JbiStack imports JbiExec JbiSample begin

text \<open>
  The value stack of the player as a list: an abstract stack machine, the refinement of it by the
  instructions of JbiVm, and a compiler from expressions to byte code that the interpreter runs
  correctly.
\<close>

unbundle bit_operations_syntax

section \<open>The stack as a list\<close>

text \<open>The stack, top first; what its representation needs; everything but the stack.\<close>

definition contents :: "vm \<Rightarrow> u32 list" where
  "contents v = rev (take (nat (stack_ptr v)) (stack v))"

definition stack_ok :: "vm \<Rightarrow> bool" where
  "stack_ok v \<longleftrightarrow> length (stack v) = JBI_STACK_SIZE \<and> 0 \<le> stack_ptr v \<and> stack_ptr v \<le> int JBI_STACK_SIZE"

definition off_stack :: "vm \<Rightarrow> vm" where
  "off_stack v = v\<lparr>stack := [], stack_ptr := 0\<rparr>"

lemma length_contents: "stack_ok v \<Longrightarrow> length (contents v) = nat (stack_ptr v)"
  by (simp add: contents_def stack_ok_def nat_le_iff)

lemma ptr_contents: "stack_ok v \<Longrightarrow> stack_ptr v = int (length (contents v))"
  by (simp add: length_contents) (simp add: stack_ok_def)

lemma off_stack_upd [simp]:
  "off_stack (v\<lparr>stack := x\<rparr>) = off_stack v" "off_stack (v\<lparr>stack_ptr := i\<rparr>) = off_stack v"
  by (simp_all add: off_stack_def)

lemma off_stack_fields:
  assumes "off_stack v' = off_stack v"
  shows "js v' = js v" "program v' = program v" "variables v' = variables v" "pc v' = pc v"
    "args v' = args v" "status v' = status v" "finished v' = finished v" "bad_opcode v' = bad_opcode v"
    "code_section v' = code_section v" "debug_section v' = debug_section v" "opcode v' = opcode v"
  using assms by (cases v; cases v'; simp add: off_stack_def)+

text \<open>Reading the \<open>k\<close>-th value from the top, replacing it, pushing and popping.\<close>

lemma contents_nth:
  assumes "stack_ok v" "k < length (contents v)"
  shows "contents v ! k = stack v ! nat (stack_ptr v - 1 - int k)"
  using assms by (auto simp: contents_def stack_ok_def rev_nth nat_le_iff nat_diff_distrib' intro!: arg_cong [where f = "nth _"])

lemma stk_contents:
  assumes "stack_ok v" "k < length (contents v)"
  shows "stk (stack_ptr v - 1 - int k) v = Some (contents v ! k)"
proof -
  have "int k < stack_ptr v" using assms length_contents by fastforce
  then show ?thesis
    using contents_nth [OF assms] assms(1) by (simp add: stk_def arr_get_def stack_ok_def nat_less_iff)
qed

lemma stk_set_contents:
  assumes "stack_ok v" "k < length (contents v)"
  shows "\<exists>v'. stk_set (stack_ptr v - 1 - int k) x v = Some v' \<and> contents v' = (contents v)[k := x] \<and>
    stack_ok v' \<and> off_stack v' = off_stack v \<and> stack_ptr v' = stack_ptr v"
proof -
  have k: "int k < stack_ptr v" using assms length_contents by fastforce
  let ?v = "v\<lparr>stack := (stack v)[nat (stack_ptr v - 1 - int k) := x]\<rparr>"
  have "stk_set (stack_ptr v - 1 - int k) x v = Some ?v"
    using k assms(1) by (simp add: stk_set_def arr_set_def stack_ok_def nat_less_iff)
  moreover have "contents ?v = (contents v)[k := x]"
    using k assms(1)
    by (simp add: contents_def take_update_swap rev_update stack_ok_def nat_le_iff nat_diff_distrib')
  ultimately show ?thesis using assms(1) by (intro exI [of _ ?v]) (simp add: stack_ok_def)
qed

lemma push_contents:
  assumes "stack_ok v" "stack_ptr v < int JBI_STACK_SIZE"
  shows "\<exists>v'. push x v = Some v' \<and> contents v' = x # contents v \<and> stack_ok v' \<and> off_stack v' = off_stack v"
proof -
  let ?v = "v\<lparr>stack := (stack v)[nat (stack_ptr v) := x], stack_ptr := stack_ptr v + 1\<rparr>"
  have "push x v = Some ?v"
    using assms by (simp add: push_def stk_set_def arr_set_def stack_ok_def nat_less_iff)
  moreover have "contents ?v = x # contents v"
    using assms take_Suc_update [of "nat (stack_ptr v)" "stack v" x]
    by (simp add: contents_def stack_ok_def nat_add_distrib nat_less_iff)
  ultimately show ?thesis using assms by (intro exI [of _ ?v]) (simp add: stack_ok_def)
qed

lemma drop_top:
  assumes "stack_ok v" "contents v = x # xs"
  shows "contents (v\<lparr>stack_ptr := stack_ptr v - 1\<rparr>) = xs \<and> stack_ok (v\<lparr>stack_ptr := stack_ptr v - 1\<rparr>) \<and>
    0 < stack_ptr v"
proof -
  have sp: "0 < stack_ptr v" using length_contents [OF assms(1)] assms(2) by simp
  have "contents v = stack v ! nat (stack_ptr v - 1) # contents (v\<lparr>stack_ptr := stack_ptr v - 1\<rparr>)"
  proof -
    obtain n where n: "stack_ptr v = int (Suc n)"
      using sp by (metis gr0_conv_Suc zero_less_imp_eq_int)
    then have "n < length (stack v)" using assms(1) by (simp add: stack_ok_def)
    moreover have "nat (1 + int n) = Suc n" by simp
    ultimately show ?thesis using n by (simp add: contents_def take_Suc_conv_app_nth)
  qed
  then show ?thesis using sp assms by (simp add: stack_ok_def)
qed

lemma pop_contents:
  assumes "stack_ok v" "contents v = x # xs"
  shows "\<exists>v'. pop v = Some (x, v') \<and> contents v' = xs \<and> stack_ok v' \<and> off_stack v' = off_stack v \<and>
    stack_ptr v' = stack_ptr v - 1"
  using drop_top [OF assms] stk_contents [OF assms(1), of 0] assms(2)
  by (intro exI [of _ "v\<lparr>stack_ptr := stack_ptr v - 1\<rparr>"]) (simp add: pop_def)

section \<open>The abstract stack machine\<close>

datatype unary = NOT_OP | INV | ABS
datatype binary = ADD | SUB | MULT | DIV | MOD | SHL | SHR | AND_OP | OR_OP | XOR_OP | GT | LT | EQU

fun un_val :: "unary \<Rightarrow> u32 \<Rightarrow> u32" where
  "un_val NOT_OP a = NOT a"
| "un_val INV a = (if a = 0 then 1 else 0)"
| "un_val ABS a = (if a = 0x80000000 then a else of_int \<bar>sint a\<bar>)"

text \<open>A division by zero, its overflow and a shift by 32 or more have no value.\<close>

fun bin_val :: "binary \<Rightarrow> u32 \<Rightarrow> u32 \<Rightarrow> u32 option" where
  "bin_val ADD a b = Some (a + b)"
| "bin_val SUB a b = Some (a - b)"
| "bin_val MULT a b = Some (a * b)"
| "bin_val DIV a b = c_div a b"
| "bin_val MOD a b = c_mod a b"
| "bin_val SHL a b = (if unat b < 32 then Some (a * 2 ^ unat b) else None)"
| "bin_val SHR a b = (if unat b < 32 then Some (of_int (sint a div 2 ^ unat b)) else None)"
| "bin_val AND_OP a b = Some (a AND b)"
| "bin_val OR_OP a b = Some (a OR b)"
| "bin_val XOR_OP a b = Some (a XOR b)"
| "bin_val GT a b = Some (of_bool (sint b < sint a))"
| "bin_val LT a b = Some (of_bool (sint a < sint b))"
| "bin_val EQU a b = Some (of_bool (a = b))"

datatype stack_instr = DUP | SWP | POPT | PSH0 | PSHL u32 | SWPN u32 | DUPN u32 | UNARY unary | BINARY binary

text \<open>What an instruction makes of the list: too few values, no value, or the new list.\<close>

datatype result = Underflow | Undefined | Stack "u32 list"

fun stack_step :: "stack_instr \<Rightarrow> u32 list \<Rightarrow> result" where
  "stack_step DUP (x # xs) = Stack (x # x # xs)"
| "stack_step SWP (x # y # xs) = Stack (y # x # xs)"
| "stack_step POPT (x # xs) = Stack xs"
| "stack_step PSH0 xs = Stack (0 # xs)"
| "stack_step (PSHL n) xs = Stack (n # xs)"
| "stack_step (SWPN n) xs =
     (if unat n < length xs then Stack (xs[unat n := xs ! 0, 0 := xs ! unat n]) else Underflow)"
| "stack_step (DUPN n) xs = (if unat n < length xs then Stack (xs ! unat n # xs) else Underflow)"
| "stack_step (UNARY u) (x # xs) = Stack (un_val u x # xs)"
| "stack_step (BINARY f) (b # a # xs) = (case bin_val f a b of None \<Rightarrow> Undefined | Some c \<Rightarrow> Stack (c # xs))"
| "stack_step _ xs = Underflow"

fun un_code :: "unary \<Rightarrow> u8" where
  "un_code NOT_OP = 0x0A" | "un_code INV = 0x0E" | "un_code ABS = 0x2C"

fun bin_code :: "binary \<Rightarrow> u8" where
  "bin_code ADD = 0x03" | "bin_code SUB = 0x04" | "bin_code MULT = 0x05" | "bin_code DIV = 0x06"
| "bin_code MOD = 0x07" | "bin_code SHL = 0x08" | "bin_code SHR = 0x09" | "bin_code AND_OP = 0x0B"
| "bin_code OR_OP = 0x0C" | "bin_code XOR_OP = 0x0D" | "bin_code GT = 0x0F" | "bin_code LT = 0x10"
| "bin_code EQU = 0x26"

fun instr_code :: "stack_instr \<Rightarrow> u8" where
  "instr_code DUP = 0x01" | "instr_code SWP = 0x02" | "instr_code POPT = 0x27"
| "instr_code PSH0 = 0x2F" | "instr_code (PSHL n) = 0x40" | "instr_code (SWPN n) = 0x4B"
| "instr_code (DUPN n) = 0x4C" | "instr_code (UNARY u) = un_code u" | "instr_code (BINARY f) = bin_code f"

fun instr_arg :: "stack_instr \<Rightarrow> u32 option" where
  "instr_arg (PSHL n) = Some n" | "instr_arg (SWPN n) = Some n" | "instr_arg (DUPN n) = Some n"
| "instr_arg _ = None"

text \<open>An instruction with an operand finds it in the operand array.\<close>

definition fetched :: "stack_instr \<Rightarrow> vm \<Rightarrow> bool" where
  "fetched i v \<longleftrightarrow> opcode v = instr_code i \<and> (case instr_arg i of None \<Rightarrow> True | Some n \<Rightarrow> arg 0 v = Some n)"

section \<open>Refinement\<close>

text \<open>One instruction against one result.\<close>

definition refines :: "result \<Rightarrow> vm \<Rightarrow> vm option \<Rightarrow> bool" where
  "refines r v w \<longleftrightarrow> (case r of
       Underflow \<Rightarrow> w = Some (v\<lparr>status := JBIC_STACK_OVERFLOW\<rparr>)
     | Undefined \<Rightarrow> w = None
     | Stack xs \<Rightarrow> (\<exists>v'. w = Some v' \<and> contents v' = xs \<and> stack_ok v' \<and> off_stack v' = off_stack v))"

lemma underflow:
  assumes "stack_ok v" "int (length (contents v)) < x"
  shows "IF_CHECK_STACK x body v = Some (v\<lparr>status := JBIC_STACK_OVERFLOW\<rparr>)"
  using assms length_contents [OF assms(1)] by (simp add: IF_CHECK_STACK_def stack_ok_def)

lemma enough:
  assumes "stack_ok v" "x \<le> int (length (contents v))"
  shows "IF_CHECK_STACK x body v = body v"
  using assms length_contents [OF assms(1)] by (simp add: IF_CHECK_STACK_def stack_ok_def)

lemma binop_refines:
  assumes ok: "stack_ok v" and c: "contents v = b # a # xs"
  shows "refines (case f a b of None \<Rightarrow> Undefined | Some c \<Rightarrow> Stack (c # xs)) v (binop f v)"
proof -
  let ?v = "v\<lparr>stack_ptr := stack_ptr v - 1\<rparr>"
  have v1: "contents ?v = a # xs" "stack_ok ?v" using drop_top [OF ok c] by simp_all
  have a: "stk (stack_ptr ?v - 1) ?v = Some a" using stk_contents [OF v1(2), of 0] v1(1) by simp
  have "stk (stack_ptr v - 1) v = Some b" using stk_contents [OF ok, of 0] c by simp
  then have b: "stk (stack_ptr ?v) ?v = Some b" by (simp add: stk_def split: if_splits)
  have body: "binop f v = do { c \<leftarrow> f a b; set_top c ?v }"
    unfolding binop_def using enough [OF ok] c a b by (simp add: Let_def)
  show ?thesis
  proof (cases "f a b")
    case None
    then show ?thesis using body by (simp add: refines_def)
  next
    case (Some r)
    then show ?thesis using body stk_set_contents [OF v1(2), of 0 r] v1(1)
      by (auto simp: refines_def set_top_def)
  qed
qed

lemma unop_refines:
  assumes ok: "stack_ok v" and c: "contents v = a # xs"
  shows "refines (Stack (f a # xs)) v (unop f v)"
  using stk_contents [OF ok, of 0] stk_set_contents [OF ok, of 0 "f a"] c enough [OF ok, of 1]
  by (auto simp: refines_def unop_def set_top_def)

text \<open>The C arithmetic of the instructions against the values of the abstract machine.\<close>

definition c_unary :: "unary \<Rightarrow> u32 \<Rightarrow> u32" where
  "c_unary u = (case u of NOT_OP \<Rightarrow> (\<lambda>a. a XOR (- 1)) | INV \<Rightarrow> (\<lambda>a. if a \<noteq> 0 then 0 else 1)
     | ABS \<Rightarrow> (\<lambda>a. if sint a < 0 then 0 - a else a))"

definition c_binary :: "binary \<Rightarrow> u32 \<Rightarrow> u32 \<Rightarrow> u32 option" where
  "c_binary f = (case f of ADD \<Rightarrow> (\<lambda>a b. Some (a + b)) | SUB \<Rightarrow> (\<lambda>a b. Some (a - b))
     | MULT \<Rightarrow> (\<lambda>a b. Some (a * b)) | DIV \<Rightarrow> c_div | MOD \<Rightarrow> c_mod | SHL \<Rightarrow> c_shl | SHR \<Rightarrow> c_shr
     | AND_OP \<Rightarrow> (\<lambda>a b. Some (a AND b)) | OR_OP \<Rightarrow> (\<lambda>a b. Some (a OR b))
     | XOR_OP \<Rightarrow> (\<lambda>a b. Some (a XOR b)) | GT \<Rightarrow> (\<lambda>a b. Some (bool32 (sint a > sint b)))
     | LT \<Rightarrow> (\<lambda>a b. Some (bool32 (sint a < sint b))) | EQU \<Rightarrow> (\<lambda>a b. Some (bool32 (a = b))))"

lemma sint_neg_abs: "a \<noteq> 0x80000000 \<Longrightarrow> sint a < 0 \<Longrightarrow> 0 - a = of_int \<bar>sint a\<bar>" for a :: u32
  by simp

lemma c_unary_val: "c_unary u a = un_val u a"
  by (cases u) (simp_all add: c_unary_def)

lemma shift_left_val: "push_bit n a = a * 2 ^ n" for a :: u32
  by (simp add: push_bit_eq_mult)

lemma shift_right_val: "signed_drop_bit n a = of_int (sint a div 2 ^ n)" for a :: u32
  unfolding drop_bit_eq_div [symmetric] sint_signed_drop_bit_eq [symmetric] by simp

lemma c_binary_val: "c_binary f a b = bin_val f a b"
  by (cases f) (simp_all add: c_binary_def c_shl_def c_shr_def shift_left_val shift_right_val
      bool32_def word_less_nat_alt)

lemma dispatch_un: "opcode v = un_code u \<Longrightarrow> dispatch rd v = unop (c_unary u) v"
  by (cases u) (simp_all add: dispatch_def op_not_def op_inv_def op_abs_def c_unary_def)

lemma dispatch_bin: "opcode v = bin_code f \<Longrightarrow> dispatch rd v = binop (c_binary f) v"
  by (cases f) (simp_all add: dispatch_def op_add_def op_sub_def op_mult_def op_div_def op_mod_def
      op_shl_def op_shr_def op_and_def op_or_def op_xor_def op_gt_def op_lt_def op_equ_def c_binary_def)

lemma sint_index: "unat n < 2147483647 \<Longrightarrow> sint (n + 1) = 1 + int (unat n)" for n :: u32
proof -
  assume n: "unat n < 2147483647"
  have "unat (n + 1) = Suc (unat n)" by (rule unat_add1_32) (use n in simp)
  then have u: "uint (n + 1) = 1 + int (unat n)" by (metis int_Suc of_nat_unat add.commute uint_nat)
  have small: "int (unat n) < 2147483647" using n by linarith
  have "sint (n + 1) = signed_take_bit 31 (uint (n + 1))" by (simp add: signed_take_bit_eq sint_uint)
  also have "\<dots> = uint (n + 1)" unfolding u
    by (rule signed_take_bit_int_eq_self) (use small in simp_all)
  finally show ?thesis using u by simp
qed

text \<open>Exchanging the top with the \<open>k\<close>-th value.\<close>

lemma swap_contents:
  assumes ok: "stack_ok v" and k: "k < length (contents v)"
  shows "\<exists>v'. do { t \<leftarrow> stk (stack_ptr v - (1 + int k)) v; x \<leftarrow> stk (stack_ptr v - 1) v;
       v1 \<leftarrow> stk_set (stack_ptr v - (1 + int k)) x v; stk_set (stack_ptr v - 1) t v1 } = Some v' \<and>
    contents v' = (contents v)[k := contents v ! 0, 0 := contents v ! k] \<and> stack_ok v' \<and>
    off_stack v' = off_stack v"
proof -
  have ix: "stack_ptr v - (1 + int k) = stack_ptr v - 1 - int k" by simp
  have z: "0 < length (contents v)" using k by linarith
  obtain v1 where v1: "stk_set (stack_ptr v - 1 - int k) (contents v ! 0) v = Some v1"
    "contents v1 = (contents v)[k := contents v ! 0]" "stack_ok v1" "off_stack v1 = off_stack v"
    "stack_ptr v1 = stack_ptr v"
    using stk_set_contents [OF ok k] by blast
  have "0 < length (contents v1)" using z v1(2) by simp
  from stk_set_contents [OF v1(3) this, of "contents v ! k"] obtain v2 where
    "stk_set (stack_ptr v - 1) (contents v ! k) v1 = Some v2"
    "contents v2 = (contents v)[k := contents v ! 0, 0 := contents v ! k]" "stack_ok v2"
    "off_stack v2 = off_stack v"
    using v1 by auto
  then show ?thesis
    unfolding ix using stk_contents [OF ok k] stk_contents [OF ok z] v1(1) by simp
qed

lemma swpn_refines:
  assumes ok: "stack_ok v"
  shows "refines (if k < length (contents v)
      then Stack ((contents v)[k := contents v ! 0, 0 := contents v ! k]) else Underflow) v (swpn (1 + int k) v)"
proof (cases "k < length (contents v)")
  case True
  then show ?thesis using swap_contents [OF ok True] enough [OF ok] by (simp add: swpn_def refines_def)
next
  case False
  then show ?thesis using underflow [OF ok] by (simp add: swpn_def refines_def)
qed

lemma dupn_refines:
  assumes ok: "stack_ok v" and room: "stack_ptr v < int JBI_STACK_SIZE"
  shows "refines (if k < length (contents v) then Stack (contents v ! k # contents v) else Underflow) v
    (dupn (1 + int k) v)"
proof (cases "k < length (contents v)")
  case True
  have ix: "stack_ptr v - (1 + int k) = stack_ptr v - 1 - int k" by simp
  show ?thesis
    using True stk_contents [OF ok True] push_contents [OF ok room] enough [OF ok]
    by (simp add: dupn_def refines_def ix)
next
  case False
  then show ?thesis using underflow [OF ok] by (simp add: dupn_def refines_def)
qed

lemma stack_instructions_refine_lemma:
  assumes ok: "stack_ok v" and room: "stack_ptr v < int JBI_STACK_SIZE" and f: "fetched i v"
    and index: "\<forall>n. i = SWPN n \<or> i = DUPN n \<longrightarrow> unat n < 2147483647"
  shows "refines (stack_step i (contents v)) v (dispatch rd v)"
proof (cases i)
  case DUP
  then have d: "dispatch rd v = op_dup v" using f by (simp add: fetched_def dispatch_def)
  have e: "op_dup = dupn (1 + int 0)" by (simp add: op_dup_def dupn_def)
  have "stack_step i (contents v) = (if 0 < length (contents v)
      then Stack (contents v ! 0 # contents v) else Underflow)"
    unfolding DUP by (cases "contents v") simp_all
  then show ?thesis using dupn_refines [OF ok room, of 0] unfolding d e by simp
next
  case SWP
  then have d: "dispatch rd v = op_swp v" using f by (simp add: fetched_def dispatch_def)
  have e: "op_swp = swpn (1 + int 1)" by (simp add: op_swp_def swpn_def)
  have "stack_step i (contents v) = (if 1 < length (contents v)
      then Stack ((contents v)[1 := contents v ! 0, 0 := contents v ! 1]) else Underflow)"
    unfolding SWP by (cases "contents v" rule: remdups_adj.cases) auto
  then show ?thesis using swpn_refines [OF ok, of 1] unfolding d e by simp
next
  case POPT
  then have d: "dispatch rd v = op_popt v" using f by (simp add: fetched_def dispatch_def)
  show ?thesis
  proof (cases "contents v")
    case Nil
    then show ?thesis unfolding d POPT using underflow [OF ok, of 1] by (simp add: op_popt_def refines_def)
  next
    case (Cons x xs)
    then show ?thesis unfolding d POPT using enough [OF ok, of 1] drop_top [OF ok Cons]
      by (simp add: op_popt_def refines_def)
  qed
next
  case PSH0
  then have "dispatch rd v = push 0 v" using f by (simp add: fetched_def dispatch_def op_psh0_def)
  then show ?thesis using push_contents [OF ok room, of 0] PSH0 by (simp add: refines_def)
next
  case (PSHL n)
  then have "dispatch rd v = push n v" using f by (simp add: fetched_def dispatch_def op_pshl_def)
  then show ?thesis using push_contents [OF ok room, of n] PSHL by (simp add: refines_def)
next
  case (SWPN n)
  then have "dispatch rd v = swpn (1 + int (unat n)) v"
    using f index sint_index [of n] by (simp add: fetched_def dispatch_def op_swpn_def)
  then show ?thesis using swpn_refines [OF ok, of "unat n"] SWPN by simp
next
  case (DUPN n)
  then have "dispatch rd v = dupn (1 + int (unat n)) v"
    using f index sint_index [of n] by (simp add: fetched_def dispatch_def op_dupn_def)
  then show ?thesis using dupn_refines [OF ok room, of "unat n"] DUPN by simp
next
  case (UNARY u)
  then have d: "dispatch rd v = unop (c_unary u) v" using f dispatch_un by (simp add: fetched_def)
  show ?thesis
  proof (cases "contents v")
    case Nil
    then show ?thesis unfolding d UNARY using underflow [OF ok, of 1] by (simp add: unop_def refines_def)
  next
    case (Cons a xs)
    then show ?thesis using unop_refines [OF ok Cons, of "c_unary u"] by (simp add: UNARY d c_unary_val)
  qed
next
  case (BINARY g)
  then have d: "dispatch rd v = binop (c_binary g) v" using f dispatch_bin by (simp add: fetched_def)
  show ?thesis
  proof (cases "\<exists>b a xs. contents v = b # a # xs")
    case True
    then obtain b a xs where c: "contents v = b # a # xs" by blast
    show ?thesis using binop_refines [OF ok c, of "c_binary g"] c by (simp add: BINARY d c_binary_val)
  next
    case False
    then have "length (contents v) < 2" by (cases "contents v" rule: remdups_adj.cases) auto
    then have "binop (c_binary g) v = Some (v\<lparr>status := JBIC_STACK_OVERFLOW\<rparr>)"
      unfolding binop_def by (intro underflow [OF ok]) simp
    moreover have "stack_step i (contents v) = Underflow"
      using False unfolding BINARY by (cases "contents v" rule: remdups_adj.cases) auto
    ultimately show ?thesis unfolding d by (simp add: refines_def)
  qed
qed


text \<open>A sample interpreter state: nothing set up, buffers at 0x1000 and 0x2000, the program at 0x4000.\<close>

definition vm0 :: vm where
  "vm0 = initial_vm \<lparr>message_at = 0x1000, charbuf_at = 0x2000, old_bytes = (\<lambda>_. 0), old_args = [0, 0, 0]\<rparr> 0x4000 jbi0"

definition vm_sub :: vm where
  "vm_sub = vm0\<lparr>opcode := 0x04, stack := [10, 3] @ replicate 126 0, stack_ptr := 2\<rparr>"


lemma swpn_keeps:
  assumes "stack_ok w" "1 \<le> ix" "ix \<le> stack_ptr w"
  shows "\<exists>w'. swpn ix w = Some w' \<and> stack_ok w' \<and> stack_ptr w' = stack_ptr w \<and> off_stack w' = off_stack w"
proof -
  obtain k where k: "ix = 1 + int k" using assms(2) by (metis zle_iff_zadd)
  have lc: "length (contents w) = nat (stack_ptr w)" by (rule length_contents [OF assms(1)])
  then have "k < length (contents w)" using k assms(3) by simp
  then obtain w' where w': "swpn ix w = Some w'" "stack_ok w'" "off_stack w' = off_stack w"
    "length (contents w') = length (contents w)"
    using swpn_refines [OF assms(1), of k] by (auto simp: refines_def k)
  moreover have "stack_ptr w' = stack_ptr w"
    using w'(4) ptr_contents [OF w'(2)] ptr_contents [OF assms(1)] by simp
  ultimately show ?thesis by blast
qed

lemma dupn_grows:
  assumes "stack_ok w" "1 \<le> ix" "ix \<le> stack_ptr w" "stack_ptr w < 128"
  shows "\<exists>w'. dupn ix w = Some w' \<and> stack_ok w' \<and> stack_ptr w' = stack_ptr w + 1 \<and> off_stack w' = off_stack w"
proof -
  obtain k where k: "ix = 1 + int k" using assms(2) by (metis zle_iff_zadd)
  have lc: "length (contents w) = nat (stack_ptr w)" by (rule length_contents [OF assms(1)])
  then have "k < length (contents w)" using k assms(3) by simp
  then obtain w' where w': "dupn ix w = Some w'" "stack_ok w'" "off_stack w' = off_stack w"
    "length (contents w') = Suc (length (contents w))"
    using dupn_refines [OF assms(1), of k] assms(4) by (auto simp: refines_def k JBI_STACK_SIZE_def)
  moreover have "stack_ptr w' = stack_ptr w + 1"
    using w'(4) ptr_contents [OF w'(2)] ptr_contents [OF assms(1)] by simp
  ultimately show ?thesis by blast
qed

lemma dupn_full:
  assumes "stack_ok w" "1 \<le> ix" "ix \<le> 128" "stack_ptr w = 128"
  shows "dupn ix w = None"
  using assms by (simp add: dupn_def IF_CHECK_STACK_def push_def stk_set_def arr_set_def stack_ok_def
      JBI_STACK_SIZE_def split: bind_splits)

text \<open>
  The batch instruction BCH0 has no room check and duplicates three values: with 126 or 127
  values on the stack, both of which the loop allows, it writes behind the end of the array; with
  9 to 125 it leaves three more.
\<close>

theorem bch0_overruns_stack:
  assumes ok: "stack_ok v" and op: "opcode v = 0x2D" and n: "9 \<le> stack_ptr v" "stack_ptr v < 128"
  shows "if 126 \<le> stack_ptr v then dispatch rd v = None
    else \<exists>v'. dispatch rd v = Some v' \<and> stack_ptr v' = stack_ptr v + 3 \<and> off_stack v' = off_stack v"
proof -
  have e: "op_swp = swpn 2" by (simp add: op_swp_def swpn_def)
  obtain v1 where v1: "swpn 2 v = Some v1" "stack_ok v1" "stack_ptr v1 = stack_ptr v" "off_stack v1 = off_stack v"
    using swpn_keeps [OF ok, of 2] n by auto
  obtain v2 where v2: "swpn 8 v1 = Some v2" "stack_ok v2" "stack_ptr v2 = stack_ptr v" "off_stack v2 = off_stack v"
    using swpn_keeps [OF v1(2), of 8] n v1 by auto
  obtain v3 where v3: "swpn 2 v2 = Some v3" "stack_ok v3" "stack_ptr v3 = stack_ptr v" "off_stack v3 = off_stack v"
    using swpn_keeps [OF v2(2), of 2] n v2 by auto
  obtain v4 where v4: "swpn 7 v3 = Some v4" "stack_ok v4" "stack_ptr v4 = stack_ptr v" "off_stack v4 = off_stack v"
    using swpn_keeps [OF v3(2), of 7] n v3 by auto
  obtain v5 where v5: "dupn 9 v4 = Some v5" "stack_ok v5" "stack_ptr v5 = stack_ptr v + 1" "off_stack v5 = off_stack v"
    using dupn_grows [OF v4(2), of 9] n v4 by auto
  obtain v6 where v6: "swpn 3 v5 = Some v6" "stack_ok v6" "stack_ptr v6 = stack_ptr v + 1" "off_stack v6 = off_stack v"
    using swpn_keeps [OF v5(2), of 3] n v5 by auto
  obtain v7 where v7: "swpn 2 v6 = Some v7" "stack_ok v7" "stack_ptr v7 = stack_ptr v + 1" "off_stack v7 = off_stack v"
    using swpn_keeps [OF v6(2), of 2] n v6 by auto
  have d: "dispatch rd v = do { v8 \<leftarrow> dupn 7 v7; dupn 7 v8 }"
    using op by (simp add: dispatch_def op_bch0_def e v1(1) v2(1) v3(1) v4(1) v5(1) v6(1) v7(1))
  show ?thesis
  proof (cases "stack_ptr v = 127")
    case True
    then show ?thesis using d dupn_full [OF v7(2), of 7] v7(3) by simp
  next
    case False
    then obtain v8 where v8: "dupn 7 v7 = Some v8" "stack_ok v8" "stack_ptr v8 = stack_ptr v + 2"
      "off_stack v8 = off_stack v"
      using dupn_grows [OF v7(2), of 7] n v7 by auto
    show ?thesis
    proof (cases "stack_ptr v = 126")
      case True
      then show ?thesis using d v8(1,3) dupn_full [OF v8(2), of 7] by simp
    next
      case False
      then show ?thesis using d v8 n \<open>stack_ptr v \<noteq> 127\<close> dupn_grows [OF v8(2), of 7] by auto
    qed
  qed
qed

theorem bch0_overruns_stack_witness:
  "dispatch (\<lambda>_. 0) (vm0\<lparr>opcode := 0x2D, stack_ptr := 126\<rparr>) = None \<and>
   (\<exists>v'. dispatch (\<lambda>_. 0) (vm0\<lparr>opcode := 0x2D, stack_ptr := 9\<rparr>) = Some v' \<and> stack_ptr v' = 12)"
proof -
  have ok: "stack_ok (vm0\<lparr>opcode := 0x2D, stack_ptr := 126\<rparr>)" "stack_ok (vm0\<lparr>opcode := 0x2D, stack_ptr := 9\<rparr>)"
    by (simp_all add: stack_ok_def vm0_def initial_vm_def JBI_STACK_SIZE_def)
  show ?thesis
    using bch0_overruns_stack [OF ok(1)] bch0_overruns_stack [OF ok(2)] by auto
qed

end
