(* ===== verification/JbiCompile.thy ===== *)
theory JbiCompile imports JbiStack begin

text \<open>
  Running straight-line byte code: the fetch of an instruction, what a checked step does, and a
  compiler from expressions over literals and variables whose code the interpreter runs to the
  value of the expression.
\<close>

unbundle bit_operations_syntax

section \<open>Fetch\<close>

text \<open>A big-endian word of the program.\<close>

definition be32 :: "u32 \<Rightarrow> u8 list" where
  "be32 x = [ucast (drop_bit 24 x), ucast (drop_bit 16 x), ucast (drop_bit 8 x), ucast x]"

lemma be32_word:
  "(push_bit 24 (ucast (ucast (drop_bit 24 x) :: u8) :: u32) AND 0xFF000000) OR
   (push_bit 16 (ucast (ucast (drop_bit 16 x) :: u8) :: u32) AND 0x00FF0000) OR
   (push_bit 8 (ucast (ucast (drop_bit 8 x) :: u8) :: u32) AND 0x0000FF00) OR
   ((ucast (ucast x :: u8) :: u32) AND 0x000000FF) = (x :: u32)"
proof (rule bit_word_eqI)
  have m: "(0xFF000000 :: u32) = push_bit 24 (mask 8)" "(0x00FF0000 :: u32) = push_bit 16 (mask 8)"
    "(0x0000FF00 :: u32) = push_bit 8 (mask 8)" "(0x000000FF :: u32) = mask 8"
    by (simp_all add: mask_eq_exp_minus_1)
  fix n :: nat
  assume "n < LENGTH(32)"
  then consider "n < 8" | "8 \<le> n" "n < 16" | "16 \<le> n" "n < 24" | "24 \<le> n" "n < 32" by fastforce
  then show "bit ((push_bit 24 (ucast (ucast (drop_bit 24 x) :: u8) :: u32) AND 0xFF000000) OR
     (push_bit 16 (ucast (ucast (drop_bit 16 x) :: u8) :: u32) AND 0x00FF0000) OR
     (push_bit 8 (ucast (ucast (drop_bit 8 x) :: u8) :: u32) AND 0x0000FF00) OR
     ((ucast (ucast x :: u8) :: u32) AND 0x000000FF)) n = bit x n"
    unfolding m by cases (auto simp: bit_simps)
qed

lemma get_dword_be32:
  assumes "bytes_at (p + i) (be32 x) s"
  shows "GET_DWORD p i s = Some x"
  using assms by (simp add: be32_def bytes_at_Cons GET_DWORD_def GET_BYTE_def be32_word add.assoc)

text \<open>The program has the bytes \<open>bs\<close> at the pc.\<close>

definition code_at :: "u8 list \<Rightarrow> vm \<Rightarrow> bool" where
  "code_at bs v \<longleftrightarrow> bytes_at (program v + pc v) bs (js v)"

lemma fetch_plain:
  assumes "code_at (b # bs) v" "drop_bit 6 b AND 3 = 0"
  shows "fetch v = Some (v\<lparr>opcode := b, opcode_address := pc v, pc := pc v + 1\<rparr>)"
  using assms by (simp add: code_at_def bytes_at_Cons fetch_def GET_BYTE_def)

lemma fetch_operand:
  assumes "code_at (b # be32 x @ bs) v" "drop_bit 6 b AND 3 = 1" "args v \<noteq> []"
  shows "fetch v = Some (v\<lparr>opcode := b, opcode_address := pc v, pc := pc v + 5, args := (args v)[0 := x]\<rparr>)"
proof -
  have b: "ld8 (program v + pc v) (js v) = Some b"
    "bytes_at (program v + (pc v + 1)) (be32 x) (js v)"
    using assms(1) bytes_at_append by (auto simp: code_at_def bytes_at_Cons add.assoc)
  have "GET_DWORD (program v) (pc v + 1) (js v) = Some x" by (rule get_dword_be32 [OF b(2)])
  then show ?thesis
    using assms(2,3) b(1)
    by (simp add: fetch_def GET_BYTE_def prog_dword_def arr_set_def)
qed

section \<open>Checked steps\<close>

text \<open>
  What the loop guarantees between two instructions, and \<open>n\<close> turns of it; \<open>run\<close> continues from
  where they end.
\<close>

definition ready :: "vm \<Rightarrow> bool" where
  "ready v \<longleftrightarrow> stack_ok v \<and> stack_ptr v < int JBI_STACK_SIZE \<and> status v = JBIC_SUCCESS \<and>
     \<not> finished v \<and> \<not> bad_opcode v \<and> args v \<noteq> []"

fun steps :: "((pin \<times> bool) list \<Rightarrow> u32) \<Rightarrow> nat \<Rightarrow> vm \<Rightarrow> vm option" where
  "steps rd 0 v = Some v"
| "steps rd (Suc n) v = (if finished v then Some v else do { v1 \<leftarrow> step rd v; steps rd n v1 })"

lemma steps_finished: "finished v \<Longrightarrow> steps rd n v = Some v"
  by (cases n) simp_all

lemma steps_add: "steps rd (m + n) v = do { v1 \<leftarrow> steps rd m v; steps rd n v1 }"
  by (induction m arbitrary: v) (auto simp: steps_finished split: bind_splits)

lemma steps_trans: "steps rd m v = Some v1 \<Longrightarrow> steps rd n v1 = Some v2 \<Longrightarrow> steps rd (m + n) v = Some v2"
  by (simp add: steps_add)

lemma run_steps: "steps rd n v = Some v' \<Longrightarrow> run rd v = run rd v'"
proof (induction n arbitrary: v)
  case (Suc n)
  show ?case
  proof (cases "finished v")
    case False
    then obtain v1 where v1: "step rd v = Some v1" "steps rd n v1 = Some v'"
      using Suc.prems by (auto split: bind_splits)
    have "run rd v = run rd v1" using False v1(1) by (subst run.simps) simp
    then show ?thesis using Suc.IH [OF v1(2)] by simp
  qed (use Suc.prems in simp)
qed simp

text \<open>Everything but the registers an instruction changes anyway.\<close>

definition machine :: "vm \<Rightarrow> vm" where
  "machine v = v\<lparr>stack := [], stack_ptr := 0, pc := 0, opcode := 0, opcode_address := 0, args := []\<rparr>"

lemma machine_fields:
  assumes "machine v' = machine v"
  shows "js v' = js v" "program v' = program v" "variables v' = variables v"
    "status v' = status v" "finished v' = finished v" "bad_opcode v' = bad_opcode v"
    "code_section v' = code_section v" "debug_section v' = debug_section v"
  using assms by (cases v; cases v'; simp add: machine_def)+

lemma machine_off_stack: "off_stack v' = off_stack v \<Longrightarrow> machine v' = machine v"
  by (cases v; cases v') (simp add: machine_def off_stack_def)

lemma after_instruction_ready:
  assumes "stack_ok v" "stack_ptr v < int JBI_STACK_SIZE" "status v = JBIC_SUCCESS" "\<not> bad_opcode v"
  shows "after_instruction v = v"
  using assms by (simp add: after_instruction_def stack_ok_def)

text \<open>A step by a stack instruction, with or without an operand.\<close>

definition instr_bytes :: "stack_instr \<Rightarrow> u8 list" where
  "instr_bytes i = instr_code i # (case instr_arg i of None \<Rightarrow> [] | Some n \<Rightarrow> be32 n)"

lemma instr_arg_count: "drop_bit 6 (instr_code i) AND 3 = (if instr_arg i = None then 0 else 1)"
proof (cases i)
  case (UNARY u)
  then show ?thesis by (cases u) simp_all
next
  case (BINARY f)
  then show ?thesis by (cases f) simp_all
qed simp_all

lemma fetch_instr:
  assumes "code_at (instr_bytes i @ bs) v" "args v \<noteq> []"
  shows "\<exists>v'. fetch v = Some v' \<and> fetched i v' \<and> machine v' = machine v \<and> contents v' = contents v \<and>
    stack v' = stack v \<and> stack_ptr v' = stack_ptr v \<and> args v' \<noteq> [] \<and>
    pc v' = pc v + of_nat (length (instr_bytes i))"
proof (cases "instr_arg i")
  case None
  then show ?thesis
    using fetch_plain [of "instr_code i" bs v] assms instr_arg_count [of i]
    by (auto simp: instr_bytes_def fetched_def machine_def contents_def)
next
  case (Some n)
  then show ?thesis
    using fetch_operand [of "instr_code i" n bs v] assms instr_arg_count [of i]
    by (auto simp: instr_bytes_def fetched_def machine_def contents_def arg_def arr_get_def be32_def)
qed

lemma step_instr:
  assumes v: "ready v" and code: "code_at (instr_bytes i @ bs) v"
    and st: "stack_step i (contents v) = Stack xs" and room: "length xs < JBI_STACK_SIZE"
    and index: "\<forall>n. i = SWPN n \<or> i = DUPN n \<longrightarrow> unat n < 2147483647"
  shows "\<exists>v'. step rd v = Some v' \<and> ready v' \<and> contents v' = xs \<and> machine v' = machine v \<and>
    pc v' = pc v + of_nat (length (instr_bytes i))"
proof -
  obtain v1 where v1: "fetch v = Some v1" "fetched i v1" "machine v1 = machine v" "contents v1 = contents v"
    "stack v1 = stack v" "stack_ptr v1 = stack_ptr v" "args v1 \<noteq> []" "pc v1 = pc v + of_nat (length (instr_bytes i))"
    using fetch_instr [OF code] v by (auto simp: ready_def)
  have ok: "stack_ok v1" "stack_ptr v1 < int JBI_STACK_SIZE"
    using v v1(5,6) by (simp_all add: ready_def stack_ok_def)
  obtain v2 where v2: "dispatch rd v1 = Some v2" "contents v2 = xs" "stack_ok v2" "off_stack v2 = off_stack v1"
    using stack_instructions_refine_lemma [OF ok v1(2) index, of rd] st v1(4) by (auto simp: refines_def)
  note f = off_stack_fields [OF v2(4)]
  have m: "machine v2 = machine v" using machine_off_stack [OF v2(4)] v1(3) by simp
  note g = machine_fields [OF m]
  have r: "ready v2"
    using v v2(2,3) ptr_contents [OF v2(3)] room f(5) v1(7) g by (simp add: ready_def)
  then have "after_instruction v2 = v2" by (intro after_instruction_ready) (simp_all add: ready_def)
  then show ?thesis using v1(1,8) v2(1,2) m r f(4) by (simp add: step_def)
qed

section \<open>Expressions\<close>

text \<open>
  Expressions over literals and integer variables, their value (none when an operation in them has
  none), their byte code, and the stack it needs.
\<close>

datatype expr = Literal u32 | Variable u32 | Unary unary expr | Binary binary expr expr

fun eval :: "(u32 \<Rightarrow> u32 option) \<Rightarrow> expr \<Rightarrow> u32 option" where
  "eval env (Literal n) = Some n"
| "eval env (Variable i) = env i"
| "eval env (Unary u e) = map_option (un_val u) (eval env e)"
| "eval env (Binary f e1 e2) = do { a \<leftarrow> eval env e1; b \<leftarrow> eval env e2; bin_val f a b }"

fun compile :: "expr \<Rightarrow> u8 list" where
  "compile (Literal n) = instr_bytes (PSHL n)"
| "compile (Variable i) = 0x41 # be32 i"
| "compile (Unary u e) = compile e @ instr_bytes (UNARY u)"
| "compile (Binary f e1 e2) = compile e1 @ compile e2 @ instr_bytes (BINARY f)"

fun depth :: "expr \<Rightarrow> nat" where
  "depth (Literal n) = 1"
| "depth (Variable i) = 1"
| "depth (Unary u e) = depth e"
| "depth (Binary f e1 e2) = max (depth e1) (Suc (depth e2))"

fun instructions :: "expr \<Rightarrow> nat" where
  "instructions (Literal n) = 1"
| "instructions (Variable i) = 1"
| "instructions (Unary u e) = instructions e + 1"
| "instructions (Binary f e1 e2) = instructions e1 + (instructions e2 + 1)"

lemma depth_pos: "0 < depth e"
  by (induction e) (simp_all add: less_max_iff_disj)

text \<open>The variables of the interpreter.\<close>

definition var_env :: "vm \<Rightarrow> u32 \<Rightarrow> u32 option" where
  "var_env v i = var_get i v"

lemma var_env_machine: "machine v' = machine v \<Longrightarrow> var_env v' = var_env v"
  by (rule ext) (simp add: var_env_def var_get_def machine_fields(1,3) [of v' v])

lemma code_at_append:
  assumes "code_at (as @ bs) v" "machine v' = machine v" "pc v' = pc v + of_nat (length as)"
  shows "code_at as v" "code_at bs v'"
  using assms(1) machine_fields(1,2) [OF assms(2)] assms(3)
  by (simp_all add: code_at_def bytes_at_append add.assoc)

lemma step_pshv:
  assumes v: "ready v" and code: "code_at (0x41 # be32 i @ bs) v" and x: "var_env v i = Some x"
    and room: "Suc (length (contents v)) < JBI_STACK_SIZE"
  shows "\<exists>v'. step rd v = Some v' \<and> ready v' \<and> contents v' = x # contents v \<and> machine v' = machine v \<and>
    pc v' = pc v + 5"
proof -
  define v1 where "v1 = v\<lparr>opcode := 0x41, opcode_address := pc v, pc := pc v + 5, args := (args v)[0 := i]\<rparr>"
  have f: "fetch v = Some v1"
    unfolding v1_def by (rule fetch_operand [OF code]) (use v in \<open>simp_all add: ready_def\<close>)
  have d: "dispatch rd v1 = push x v1"
    using v x by (simp add: v1_def dispatch_def op_pshv_def arg_def arr_get_def ready_def var_env_def var_get_def)
  have ok: "stack_ok v1" "contents v1 = contents v" "stack_ptr v1 < int JBI_STACK_SIZE"
    using v by (simp_all add: v1_def ready_def stack_ok_def contents_def)
  obtain v2 where v2: "push x v1 = Some v2" "contents v2 = x # contents v" "stack_ok v2" "off_stack v2 = off_stack v1"
    using push_contents [OF ok(1,3), of x] ok(2) by auto
  note g = off_stack_fields [OF v2(4)]
  have m: "machine v2 = machine v"
    using machine_off_stack [OF v2(4)] by (simp add: v1_def machine_def)
  have r: "ready v2"
    using v v2(2,3) ptr_contents [OF v2(3)] room machine_fields [OF m] g(5)
    by (simp add: ready_def v1_def)
  then have "after_instruction v2 = v2" by (intro after_instruction_ready) (simp_all add: ready_def)
  then show ?thesis using f d v2 m r g(4) by (simp add: step_def v1_def)
qed

lemma steps_one: "ready v \<Longrightarrow> step rd v = Some v' \<Longrightarrow> steps rd 1 v = Some v'"
  by (simp add: ready_def)

lemma steps_single: "ready v \<Longrightarrow> steps rd (Suc 0) v = step rd v"
  by (cases "step rd v") (simp_all add: ready_def)

lemma compile_correct:
  assumes "ready v" "code_at (compile e @ bs) v" "eval (var_env v) e = Some x"
    "length (contents v) + depth e < JBI_STACK_SIZE"
  shows "\<exists>v'. steps rd (instructions e) v = Some v' \<and> ready v' \<and> contents v' = x # contents v \<and>
    machine v' = machine v \<and> pc v' = pc v + of_nat (length (compile e))"
  using assms
proof (induction e arbitrary: v x bs)
  case (Literal n)
  then show ?case
    using step_instr [OF Literal.prems(1), of "PSHL n" bs "x # contents v" rd]
    unfolding instructions.simps One_nat_def steps_single [OF Literal.prems(1)] by simp
next
  case (Variable i)
  then show ?case
    using step_pshv [OF Variable.prems(1), of i bs x rd]
    unfolding instructions.simps One_nat_def steps_single [OF Variable.prems(1)] by (simp add: be32_def)
next
  case (Unary u e)
  obtain y where y: "eval (var_env v) e = Some y" "x = un_val u y" using Unary.prems(3) by auto
  have code: "code_at (compile e @ (instr_bytes (UNARY u) @ bs)) v" using Unary.prems(2) by simp
  obtain v1 where v1: "steps rd (instructions e) v = Some v1" "ready v1" "contents v1 = y # contents v"
    "machine v1 = machine v" "pc v1 = pc v + of_nat (length (compile e))"
    using Unary.IH [OF Unary.prems(1) code y(1)] Unary.prems(4) by auto
  have "length (x # contents v) < JBI_STACK_SIZE" using Unary.prems(4) depth_pos [of e] by simp
  from step_instr [OF v1(2) code_at_append(2) [OF code v1(4,5)], of "x # contents v" rd] this
  obtain v2 where v2: "step rd v1 = Some v2" "ready v2" "contents v2 = x # contents v" "machine v2 = machine v1"
    "pc v2 = pc v1 + of_nat (length (instr_bytes (UNARY u)))"
    using v1(3) y(2) by auto
  then show ?case
    using steps_trans [OF v1(1) steps_one [OF v1(2) v2(1)]] v1(4,5) by auto
next
  case (Binary f e1 e2)
  obtain a b where ab: "eval (var_env v) e1 = Some a" "eval (var_env v) e2 = Some b" "bin_val f a b = Some x"
    using Binary.prems(3) by (auto split: bind_splits)
  have d: "length (contents v) + depth e1 < JBI_STACK_SIZE" "Suc (length (contents v)) + depth e2 < JBI_STACK_SIZE"
    using Binary.prems(4) by (auto simp: max_def split: if_splits)
  have code: "code_at (compile e1 @ (compile e2 @ instr_bytes (BINARY f) @ bs)) v" using Binary.prems(2) by simp
  obtain v1 where v1: "steps rd (instructions e1) v = Some v1" "ready v1" "contents v1 = a # contents v"
    "machine v1 = machine v" "pc v1 = pc v + of_nat (length (compile e1))"
    using Binary.IH(1) [OF Binary.prems(1) code ab(1) d(1)] by auto
  note code1 = code_at_append(2) [OF code v1(4,5)]
  obtain v2 where v2: "steps rd (instructions e2) v1 = Some v2" "ready v2" "contents v2 = b # a # contents v"
    "machine v2 = machine v1" "pc v2 = pc v1 + of_nat (length (compile e2))"
    using Binary.IH(2) [OF v1(2) code1, of b] ab(2) var_env_machine [OF v1(4)] d(2) v1(3) by auto
  have "length (x # contents v) < JBI_STACK_SIZE" using d(1) depth_pos [of e1] by simp
  from step_instr [OF v2(2) code_at_append(2) [OF code1 v2(4,5)], of "x # contents v" rd] this
  obtain v3 where v3: "step rd v2 = Some v3" "ready v3" "contents v3 = x # contents v" "machine v3 = machine v2"
    "pc v3 = pc v2 + of_nat (length (instr_bytes (BINARY f)))"
    using v2(3) ab(3) by auto
  then show ?case
    using steps_trans [OF v1(1) steps_trans [OF v2(1) steps_one [OF v2(2) v3(1)]]] v1(4,5) v2(4,5)
    by auto
qed

text \<open>
  C2. Expressions run to their value: with the byte code of an expression at the pc and room for
  its depth below the last stack slot, the interpreter takes one turn of its loop per instruction
  and ends behind the code with the value of the expression pushed, the values below it kept, and
  everything outside the stack and the fetch registers unchanged; the run goes on from there.
\<close>

theorem expressions_evaluate:
  assumes "ready v" "code_at (compile e @ bs) v" "eval (var_env v) e = Some x"
    "length (contents v) + depth e < JBI_STACK_SIZE"
  shows "\<exists>v'. steps rd (instructions e) v = Some v' \<and> run rd v = run rd v' \<and> ready v' \<and>
    contents v' = x # contents v \<and> machine v' = machine v \<and> pc v' = pc v + of_nat (length (compile e))"
  using compile_correct [OF assms, of rd] run_steps by blast

text \<open>\<open>(x + 3) * 2\<close> with 5 in the variable 0, whose table is at 0x6000.\<close>

definition sample_expr :: expr where
  "sample_expr = Binary MULT (Binary ADD (Variable 0) (Literal 3)) (Literal 2)"

definition vm_expr :: vm where
  "vm_expr = vm0\<lparr>js := load 0x4000 (compile sample_expr) (load 0x6000 [5, 0, 0, 0] jbi0), variables := 0x6000\<rparr>"

theorem expressions_evaluate_witness:
  "\<exists>v'. steps (\<lambda>_. 0) 5 vm_expr = Some v' \<and> contents v' = [16] \<and> pc v' = 17"
proof -
  have r: "ready vm_expr" "contents vm_expr = []"
    by (simp_all add: ready_def vm_expr_def vm0_def initial_vm_def stack_ok_def JBI_STACK_SIZE_def contents_def)
  have code: "code_at (compile sample_expr @ []) vm_expr"
    by (simp add: code_at_def vm_expr_def vm0_def initial_vm_def bytes_at_load sample_expr_def instr_bytes_def be32_def)
  have "var_env vm_expr 0 = Some 5"
    by (simp add: var_env_def var_get_def vm_expr_def ld32_def ld8_load le32_def sample_expr_def
        instr_bytes_def be32_def)
  then have e: "eval (var_env vm_expr) sample_expr = Some 16" by (simp add: sample_expr_def)
  have "pc vm_expr = 0" by (simp add: vm_expr_def vm0_def initial_vm_def)
  then show ?thesis
    using expressions_evaluate [OF r(1) code e, of "\<lambda>_. 0"] r(2)
    by (auto simp: sample_expr_def instr_bytes_def be32_def JBI_STACK_SIZE_def numeral_eq_Suc)
qed

end
