(* ===== verification/JbiTextProofs.thy ===== *)
theory JbiTextProofs imports JbiSample JbiText begin

text \<open>
  The string helpers of the player: words in byte buffers, the length, comparison and copying of
  strings, and the decimal text of a number.
\<close>

unbundle bit_operations_syntax

section \<open>Words in byte buffers\<close>

lemma make_dword_st32: "jbi_make_dword buf n s = st32 buf n s"
  by (simp add: jbi_make_dword_def st32_def byte_of_def)

lemma get_dword_ld32: "jbi_get_dword buf s = ld32 buf s"
  by (simp add: jbi_get_dword_def ld32_def le32_def or.assoc)

lemma st32_mapped:
  assumes "\<And>k. k < 4 \<Longrightarrow> ld8 (a + of_nat k) s \<noteq> None"
  shows "\<exists>s'. st32 a v s = Some s'"
proof -
  have m: "ld8 a s \<noteq> None" "ld8 (a + 1) s \<noteq> None" "ld8 (a + 2) s \<noteq> None" "ld8 (a + 3) s \<noteq> None"
    using assms [of 0] assms [of 1] assms [of 2] assms [of 3] by simp_all
  obtain s0 where s0: "st8 a (byte_of 0 v) s = Some s0" using st8_mapped m(1) by blast
  obtain s1 where s1: "st8 (a + 1) (byte_of 1 v) s0 = Some s1"
    using st8_mapped m(2) st8_dom [OF s0] by metis
  obtain s2 where s2: "st8 (a + 2) (byte_of 2 v) s1 = Some s2"
    using st8_mapped m(3) st8_dom [OF s0] st8_dom [OF s1] by metis
  obtain s3 where s3: "st8 (a + 3) (byte_of 3 v) s2 = Some s3"
    using st8_mapped m(4) st8_dom [OF s0] st8_dom [OF s1] st8_dom [OF s2] by metis
  show ?thesis using s0 s1 s2 s3 by (simp add: st32_def)
qed

section \<open>Strings\<close>

text \<open>The NUL-terminated string \<open>xs\<close> at \<open>a\<close>.\<close>

definition cstr :: "u32 \<Rightarrow> u8 list \<Rightarrow> jbi \<Rightarrow> bool" where
  "cstr a xs s \<longleftrightarrow> 0 \<notin> set xs \<and> bytes_at a (xs @ [0]) s"

lemma cstr_simps:
  "cstr a [] s \<longleftrightarrow> ld8 a s = Some 0"
  "cstr a (x # xs) s \<longleftrightarrow> x \<noteq> 0 \<and> ld8 a s = Some x \<and> cstr (a + 1) xs s"
  by (auto simp: cstr_def bytes_at_Cons bytes_at_Nil)

lemma strlen_loop_ok:
  "cstr (a + n) xs s \<Longrightarrow> strlen_loop a n s = Some (n + of_nat (length xs))"
proof (induction xs arbitrary: n)
  case Nil
  then show ?case by (subst strlen_loop.simps) (simp add: cstr_simps)
next
  case (Cons x xs)
  then have "strlen_loop a (n + 1) s = Some (n + 1 + of_nat (length xs))"
    by (simp add: cstr_simps add.assoc)
  then show ?case using Cons.prems by (subst strlen_loop.simps) (simp add: cstr_simps ac_simps)
qed

lemma jbi_strlen_ok: "cstr a xs s \<Longrightarrow> jbi_strlen a s = Some (of_nat (length xs))"
  using strlen_loop_ok [of a 0 xs s] by (simp add: jbi_strlen_def)

lemma string_at_ok: "cstr a xs s \<Longrightarrow> string_at a s = Some xs"
  by (induction xs arbitrary: a) (subst string_at.simps, simp add: cstr_simps)+

text \<open>Comparison ignores the case of letters.\<close>

lemma toupper_0: "jbi_toupper c = 0 \<longleftrightarrow> c = 0"
proof (cases "97 \<le> c \<and> c \<le> 122")
  case True
  then have "97 \<le> unat c" "unat c \<le> 122" by (simp_all add: word_le_nat_alt)
  have "c + 65 - 97 \<noteq> 0"
  proof
    assume "c + 65 - 97 = 0"
    then have "c = 97 - 65" by (simp add: algebra_simps)
    then show False using \<open>97 \<le> unat c\<close> by simp
  qed
  then show ?thesis using True \<open>97 \<le> unat c\<close> by (auto simp: jbi_toupper_def)
next
  case False
  then show ?thesis by (auto simp: jbi_toupper_def)
qed

lemma toupper_uint_0: "uint (jbi_toupper c) = 0 \<longleftrightarrow> c = 0" "jbi_toupper 0 = 0"
  using toupper_0 [of c] toupper_0 [of 0] by (simp_all add: uint_0_iff)

lemma stricmp_ok:
  assumes "cstr a xs s" "cstr b ys s"
  shows "\<exists>r. jbi_stricmp a b s = Some r \<and> (r = 0 \<longleftrightarrow> map jbi_toupper xs = map jbi_toupper ys)"
  using assms
proof (induction xs arbitrary: a b ys)
  case Nil
  then show ?case
    by (cases ys; subst jbi_stricmp.simps) (auto simp: cstr_simps toupper_0 Let_def toupper_uint_0)
next
  case (Cons x xs)
  show ?case
  proof (cases ys)
    case Nil
    then show ?thesis using Cons.prems
      by (subst jbi_stricmp.simps) (auto simp: cstr_simps toupper_0 Let_def toupper_uint_0)
  next
    case (Cons y ys')
    note p = Cons.prems
    obtain r where r: "jbi_stricmp (a + 1) (b + 1) s = Some r"
      "r = 0 \<longleftrightarrow> map jbi_toupper xs = map jbi_toupper ys'"
      using Cons.IH [of "a + 1" "b + 1" ys'] Cons.prems unfolding Cons by (auto simp: cstr_simps)
    have ne: "jbi_toupper x \<noteq> 0" "jbi_toupper y \<noteq> 0"
      using Cons.prems unfolding Cons by (simp_all add: cstr_simps toupper_0)
    have ld: "ld8 a s = Some x" "ld8 b s = Some y"
      using Cons.prems unfolding Cons by (simp_all add: cstr_simps)
    show ?thesis
    proof (cases "jbi_toupper x = jbi_toupper y")
      case True
      then show ?thesis using r ne ld Cons by (subst jbi_stricmp.simps) (simp add: Let_def)
    next
      case False
      then have "uint (jbi_toupper x) - uint (jbi_toupper y) \<noteq> 0" by (simp add: word_uint_eq_iff)
      then show ?thesis using False ne ld Cons by (subst jbi_stricmp.simps) (simp add: Let_def)
    qed
  qed
qed

text \<open>
  Copying: with a count, at most that many bytes of the string and its NUL; without one (0), all
  of them, whatever room there is. \<open>copied\<close> is how many.
\<close>

definition copied :: "u32 \<Rightarrow> u8 list \<Rightarrow> nat" where
  "copied c xs = (if c = 0 then Suc (length xs) else min (unat c) (Suc (length xs)))"

lemma copied_simps:
  "copied c [] = 1"
  "length xs < 4294967294 \<Longrightarrow> copied c (x # xs) = (if c = 1 then 1 else Suc (copied (c - 1) xs))"
proof -
  have pos: "0 < unat c" if "c \<noteq> 0" using that by (simp add: unat_gt_0)
  then show "copied c [] = 1" by (auto simp: copied_def Suc_le_eq)
  have "unat (c - 1) = unat c - 1" if "c \<noteq> 0" using that by (simp add: unat_minus_one)
  moreover have "unat (- 1 :: u32) = 4294967295"
    by (simp add: unsigned_minus_1_eq_mask mask_eq_exp_minus_1)
  ultimately show "length xs < 4294967294 \<Longrightarrow> copied c (x # xs) = (if c = 1 then 1 else Suc (copied (c - 1) xs))"
    using pos by (auto simp: copied_def)
qed

lemma copied_le: "copied c xs \<le> Suc (length xs)"
  by (simp add: copied_def)

lemma sep_bytes_Suc:
  assumes "sep_bytes p (Suc n) q (Suc m)"
  shows "sep_bytes (p + 1) n (q + 1) m" "p \<noteq> q"
    "\<And>k. k < n \<Longrightarrow> p + 1 + of_nat k \<noteq> q"
proof -
  have "p + 1 + of_nat k \<noteq> q + 1 + of_nat l" if "k < n" "l < m" for k l
    using assms [unfolded sep_bytes_def, rule_format, of "Suc k" "Suc l"] that by simp
  then show "sep_bytes (p + 1) n (q + 1) m" by (simp add: sep_bytes_def)
  show "p \<noteq> q" using assms [unfolded sep_bytes_def, rule_format, of 0 0] by simp
  show "p + 1 + of_nat k \<noteq> q" if "k < n" for k
    using assms [unfolded sep_bytes_def, rule_format, of "Suc k" 0] that by (simp add: add.assoc)
qed

lemma strncpy_st_bytes:
  assumes "cstr right xs s" "sep_bytes right (Suc (length xs)) left (copied c xs)" "length xs < 4294967295"
  shows "jbi_strncpy left right c s = st_bytes left (take (copied c xs) (xs @ [0])) s"
  using assms
proof (induction xs arbitrary: left right c s)
  case Nil
  have ld: "ld8 right s = Some 0" using Nil.prems(1) by (simp add: cstr_simps)
  have ne: "right \<noteq> left" using Nil.prems(2) by (simp add: sep_bytes_def copied_simps)
  show ?case
  proof (cases "st8 left 0 s")
    case None
    then show ?thesis using ld by (subst jbi_strncpy.simps) (simp add: copied_simps)
  next
    case (Some s1)
    have "ld8 right s1 = Some 0" using ld8_st8_other [OF Some ne] ld by simp
    then show ?thesis using ld Some by (subst jbi_strncpy.simps) (simp add: copied_simps)
  qed
next
  case (Cons x xs)
  have x: "x \<noteq> 0" "ld8 right s = Some x" "cstr (right + 1) xs s"
    using Cons.prems(1) by (simp_all add: cstr_simps)
  have cp: "copied c (x # xs) = (if c = 1 then 1 else Suc (copied (c - 1) xs))"
    using Cons.prems(3) by (simp add: copied_simps)
  obtain m where m: "copied c (x # xs) = Suc m" using cp by (cases "c = 1") auto
  note sep = sep_bytes_Suc [OF Cons.prems(2) [unfolded m length_Cons]]
  show ?case
  proof (cases "st8 left x s")
    case None
    then show ?thesis using x(2) m by (subst jbi_strncpy.simps) simp
  next
    case (Some s1)
    have ld1: "ld8 right s1 = Some x" using ld8_st8_other [OF Some sep(2)] x(2) by simp
    have "ld8 (right + 1 + of_nat k) s1 = ld8 (right + 1 + of_nat k) s" if "k < Suc (length xs)" for k
      using ld8_st8_other [OF Some] sep(3) [OF that] by simp
    then have "cstr (right + 1) xs s1" using x(3) by (simp add: cstr_def bytes_at_def)
    moreover have "sep_bytes (right + 1) (Suc (length xs)) (left + 1) (copied (c - 1) xs)" if "c \<noteq> 1"
      using sep(1) cp m that by simp
    ultimately have "jbi_strncpy (left + 1) (right + 1) (c - 1) s1 =
        st_bytes (left + 1) (take (copied (c - 1) xs) (xs @ [0])) s1" if "c \<noteq> 1"
      using Cons.IH that Cons.prems(3) by simp
    then show ?thesis using x Some ld1 cp by (subst jbi_strncpy.simps) simp
  qed
qed

section \<open>Decimal text\<close>

text \<open>The digits of a number, highest first, and reading a decimal text back.\<close>

fun digits :: "nat \<Rightarrow> u8 list" where
  "digits n = (if n = 0 then [] else digits (n div 10) @ [of_nat (n mod 10 + 48)])"

declare digits.simps [simp del]

definition decimal :: "int \<Rightarrow> u8 list" where
  "decimal n = (if n < 0 then 45 # digits (nat (- n)) else if n = 0 then [48] else digits (nat n))"

definition read_digits :: "u8 list \<Rightarrow> nat" where
  "read_digits cs = foldl (\<lambda>a c. 10 * a + (unat c - 48)) 0 cs"

definition read_decimal :: "u8 list \<Rightarrow> int" where
  "read_decimal cs = (if cs \<noteq> [] \<and> hd cs = 45 then - int (read_digits (tl cs)) else int (read_digits cs))"

lemma unat_digit: "n < 10 \<Longrightarrow> unat (of_nat (n + 48) :: u8) = n + 48"
  unfolding unat_of_nat by simp

lemma read_digits_append: "read_digits (cs @ [c]) = 10 * read_digits cs + (unat c - 48)"
  by (simp add: read_digits_def)

lemma read_digits_digits: "read_digits (digits n) = n"
proof (induction n rule: digits.induct)
  case (1 n)
  show ?case
  proof (cases "n = 0")
    case True
    then show ?thesis by (simp add: digits.simps read_digits_def)
  next
    case False
    then show ?thesis using 1 unat_digit [of "n mod 10"]
      by (subst digits.simps) (simp add: read_digits_append del: of_nat_add)
  qed
qed

lemma set_digits: "c \<in> set (digits n) \<Longrightarrow> 48 \<le> unat c \<and> unat c \<le> 57"
proof (induction n rule: digits.induct)
  case (1 n)
  then show ?case using unat_digit [of "n mod 10"]
    by (subst (asm) (2) digits.simps) (auto split: if_splits simp del: of_nat_add)
qed

lemma read_decimal_decimal: "read_decimal (decimal n) = n"
proof -
  have "hd (digits (nat n)) \<noteq> 45" if "digits (nat n) \<noteq> []"
    using set_digits [OF hd_in_set [OF that]] by auto
  moreover have "read_digits [48] = 0" by (simp add: read_digits_def)
  moreover have "nat n = 0" if "digits (nat n) = []"
    using read_digits_digits [of "nat n"] that by (simp add: read_digits_def)
  ultimately show ?thesis by (auto simp: decimal_def read_decimal_def read_digits_digits)
qed

lemma length_digits: "n < 10 ^ k \<Longrightarrow> length (digits n) \<le> k"
proof (induction k arbitrary: n)
  case 0
  then show ?case by (simp add: digits.simps)
next
  case (Suc k)
  then have "n div 10 < 10 ^ k" by (simp add: less_mult_imp_div_less mult.commute)
  then show ?case using Suc.IH by (subst digits.simps) simp
qed

text \<open>The digit loop of the code, on a number that is not negative.\<close>

lemma ltoa_digits_ok:
  "length (digits n) + i \<le> length r \<Longrightarrow>
    \<exists>r'. ltoa_digits (int n) i r = Some (i + length (digits n), r') \<and> length r' = length r \<and>
      take i r' = take i r \<and> rev (digits n) = take (length (digits n)) (drop i r')"
proof (induction n arbitrary: i r rule: digits.induct)
  case (1 n)
  show ?case
  proof (cases "n = 0")
    case True
    then show ?thesis by (subst ltoa_digits.simps) (simp add: digits.simps)
  next
    case False
    let ?d = "of_nat (n mod 10 + 48) :: u8"
    have dig: "digits n = digits (n div 10) @ [?d]" using False by (subst digits.simps) simp
    have lt: "i < length r" using 1(2) unfolding dig by simp
    have sm: "int n smod 10 = int (n mod 10)" "int n sdiv 10 = int (n div 10)"
      by (simp_all add: signed_modulo_int_def signed_divide_int_def zmod_int zdiv_int sgn_if)
    have oi: "(of_int (int (n mod 10) + 48) :: u8) = ?d" by simp
    obtain r' where r': "ltoa_digits (int (n div 10)) (Suc i) (r[i := ?d]) =
        Some (Suc i + length (digits (n div 10)), r')" "length r' = length r"
      "take (Suc i) r' = take (Suc i) (r[i := ?d])"
      "rev (digits (n div 10)) = take (length (digits (n div 10))) (drop (Suc i) r')"
      using 1(1) [OF False, of "Suc i" "r[i := ?d]"] 1(2) unfolding dig by auto
    have "ltoa_digits (int n) i r = Some (i + length (digits n), r')"
      using False lt r'(1) oi unfolding dig
      by (subst ltoa_digits.simps) (simp add: sm arr_set_in del: of_nat_add of_int_add)
    moreover have "take i r' = take i r"
      using arg_cong [OF r'(3), of "take i"] by (simp add: min_def)
    moreover have "r' ! i = ?d"
    proof -
      have "take (Suc i) r' ! i = take (Suc i) (r[i := ?d]) ! i" using r'(3) by simp
      then show ?thesis using lt by simp
    qed
    then have "rev (digits n) = take (length (digits n)) (drop i r')"
      using r'(2,4) lt unfolding dig by (simp add: Cons_nth_drop_Suc [symmetric] del: of_nat_add)
    ultimately show ?thesis using r'(2) by blast
  qed
qed

text \<open>Copying the array back to front is storing its reverse.\<close>

lemma ltoa_copy_st_bytes:
  "k \<le> length r \<Longrightarrow>
    ltoa_copy buf r i k s = map_option (Pair (i + of_nat k)) (st_bytes (buf + i) (rev (take k r)) s)"
proof (induction k arbitrary: i s)
  case 0
  then show ?case by simp
next
  case (Suc k)
  have t: "rev (take (Suc k) r) = r ! k # rev (take k r)" using Suc.prems by (simp add: take_Suc_conv_app_nth)
  show ?case
  proof (cases "st8 (buf + i) (r ! k) s")
    case None
    then show ?thesis using Suc.prems by (simp add: t arr_get_in)
  next
    case (Some s1)
    then show ?thesis using Suc.IH [of "i + 1" s1] Suc.prems by (simp add: t arr_get_in ac_simps)
  qed
qed

lemma st_bytes_append: "st_bytes a (xs @ ys) s = st_bytes a xs s \<bind> st_bytes (a + of_nat (length xs)) ys"
proof (induction xs arbitrary: a s)
  case (Cons x xs)
  have "st_bytes (a + 1) (xs @ ys) = (\<lambda>s. st_bytes (a + 1) xs s \<bind> st_bytes (a + 1 + of_nat (length xs)) ys)"
    by (rule ext) (rule Cons)
  then show ?case by (simp add: add.assoc)
qed simp

lemma st_bytes_Nil: "st_bytes a [] = Some"
  by (rule ext) simp

lemma st_bytes_single: "st_bytes a [b] = st8 a b"
  by (rule ext) (simp add: st_bytes_Nil)

lemma jbi_ltoa_st_bytes:
  assumes "n \<noteq> 0x80000000"
  shows "jbi_ltoa buf n s = st_bytes buf (decimal (sint n) @ [0]) s"
proof -
  define neg where "neg = (sint n < 0)"
  define m where "m = nat \<bar>sint n\<bar>"
  have bnd: "- 2147483648 \<le> sint n" "sint n < 2147483648"
    using sint_greater_eq [of n] sint_less [of n] by simp_all
  have nm: "sint n \<noteq> - 2147483648"
  proof
    assume "sint n = - 2147483648"
    then have "sint n = sint (0x80000000 :: u32)" by simp
    then show False using assms by (metis signed_word_eqI)
  qed
  have sn: "sint (0 - n) = - sint n"
  proof -
    have "sint (- n) = signed_take_bit 31 (- sint n)" by (simp add: sint_word_ariths)
    also have "\<dots> = - sint n" by (rule signed_take_bit_int_eq_self) (use bnd nm in simp_all)
    finally show ?thesis by simp
  qed
  have "m < 10 ^ 10" using bnd by (simp add: m_def)
  then have len: "length (digits m) \<le> 10" by (rule length_digits)
  then have "length (digits m) + 0 \<le> length (replicate 32 (0 :: u8))" by simp
  from ltoa_digits_ok [OF this]
  obtain r where r: "ltoa_digits (int m) 0 (replicate 32 0) = Some (length (digits m), r)" "length r = 32"
    "rev (digits m) = take (length (digits m)) r" by auto
  have rv: "rev (take (length (digits m)) r) = digits m" using r(3) by (metis rev_rev_ident)
  have cp: "ltoa_copy buf r i (length (digits m)) s1 =
      map_option (Pair (i + of_nat (length (digits m)))) (st_bytes (buf + i) (digits m) s1)" for i s1
    using ltoa_copy_st_bytes [of "length (digits m)" r buf i s1] len r(2) rv by simp
  consider "sint n < 0" | "sint n = 0" | "0 < sint n" by linarith
  then show ?thesis
  proof cases
    case 1
    then have "sint (0 - n) = int m" "decimal (sint n) = 45 # digits m"
      using sn by (simp_all add: m_def decimal_def)
    then show ?thesis using 1 r(1) cp
      by (simp add: jbi_ltoa_def st_bytes_append add.assoc split: bind_splits) 
  next
    case 2
    then have n: "n = 0" by (metis signed_0 signed_word_eqI)
    have "m = 0" using 2 by (simp add: m_def)
    then show ?thesis using r(1) cp unfolding n
      by (simp add: jbi_ltoa_def decimal_def digits.simps st_bytes_single)
  next
    case 3
    then have n: "n \<noteq> 0" "sint n = int m" "decimal (sint n) = digits m"
      by (auto simp: m_def decimal_def)
    then show ?thesis using 3 r(1) cp [of 0]
      by (cases "st_bytes buf (digits m) s") (simp_all add: jbi_ltoa_def st_bytes_append st_bytes_single)
  qed
qed

lemma decimal_cstr: "0 \<notin> set (decimal n)"
  using set_digits [of 0 "nat n"] set_digits [of 0 "nat (- n)"] by (auto simp: decimal_def)

lemma length_decimal:
  assumes "\<bar>n\<bar> < 10 ^ 10"
  shows "length (decimal n) \<le> 11"
proof -
  have "nat n < 10 ^ 10" "nat (- n) < 10 ^ 10" using assms by (simp_all add: nat_less_iff)
  then show ?thesis using length_digits [of "nat n" 10] length_digits [of "nat (- n)" 10]
    by (simp add: decimal_def)
qed

lemma sint32_bounds: "- 2147483648 \<le> sint n" "sint n < 2147483648" for n :: u32
  using sint_greater_eq [of n] sint_less [of n] by simp_all

lemma store_cstr:
  assumes "0 \<notin> set xs" "\<And>l. l < Suc (length xs) \<Longrightarrow> ld8 (a + of_nat l) s \<noteq> None" "length xs < 4294967296"
  shows "\<exists>s'. st_bytes a (xs @ [0]) s = Some s' \<and> cstr a xs s'"
  using st_bytes_ok [of "xs @ [0]" a s] assms by (auto simp: cstr_def)

section \<open>Properties\<close>

text \<open>
  C34. Decimal text round-trips: for every long but the smallest, \<open>jbi_ltoa\<close> stores a
  NUL-terminated text of at most 11 characters at the buffer that reads back as the number, and
  touches nothing beyond 12 bytes.
\<close>

theorem ltoa_roundtrip:
  assumes n: "n \<noteq> 0x80000000" and room: "\<forall>l < 12. ld8 (buf + of_nat l) s \<noteq> None"
  shows "\<exists>s' ds. jbi_ltoa buf n s = Some s' \<and> cstr buf ds s' \<and> read_decimal ds = sint n \<and>
    length ds \<le> 11 \<and> (\<forall>a. (\<forall>l < 12. a \<noteq> buf + of_nat l) \<longrightarrow> ld8 a s' = ld8 a s)"
proof -
  let ?ds = "decimal (sint n)"
  have len: "length ?ds \<le> 11" by (rule length_decimal) (use sint32_bounds [of n] in simp)
  obtain s' where s': "st_bytes buf (?ds @ [0]) s = Some s'" "bytes_at buf (?ds @ [0]) s'"
    "\<And>a. (\<forall>l < length (?ds @ [0]). a \<noteq> buf + of_nat l) \<Longrightarrow> ld8 a s' = ld8 a s"
    using st_bytes_ok [of "?ds @ [0]" buf s] room len by auto
  have "ld8 a s' = ld8 a s" if "\<forall>l < 12. a \<noteq> buf + of_nat l" for a
    using s'(3) that len by simp
  moreover have "cstr buf ?ds s'" using s'(2) decimal_cstr by (simp add: cstr_def)
  ultimately show ?thesis
    using s'(1) len jbi_ltoa_st_bytes [OF n] read_decimal_decimal [of "sint n"] by auto
qed

lemma room12: "\<forall>l < 12. ld8 (0x1000 + of_nat l) (load 0x1000 (replicate 12 0) jbi0) \<noteq> None"
proof (intro allI impI)
  fix l :: nat assume l: "l < 12"
  have "bytes_at 0x1000 (replicate 12 0) (load 0x1000 (replicate 12 0) jbi0)"
    by (rule bytes_at_load) simp
  then show "ld8 (0x1000 + of_nat l) (load 0x1000 (replicate 12 0) jbi0) \<noteq> None"
    using l by (simp add: bytes_at_def)
qed

lemma ltoa_roundtrip_witness:
  "\<exists>s' ds. jbi_ltoa 0x1000 (- 42) (load 0x1000 (replicate 12 0) jbi0) = Some s' \<and> cstr 0x1000 ds s' \<and>
    read_decimal ds = - 42"
proof -
  have "(- 42 :: u32) \<noteq> 0x80000000" by simp
  from ltoa_roundtrip [OF this room12] show ?thesis by auto
qed

text \<open>
  The smallest long is printed wrong: its negation overflows to itself, every remainder is
  negative, and the text is "-./,),(-*,(" instead of the number.
\<close>

theorem ltoa_smallest_is_garbage:
  assumes room: "\<forall>l < 12. ld8 (buf + of_nat l) s \<noteq> None"
  shows "\<exists>s'. jbi_ltoa buf 0x80000000 s = Some s' \<and>
    cstr buf (map of_char ''-./,),(-*,('') s' \<and> sint (0x80000000 :: u32) = - 2147483648"
proof -
  let ?t = "[46, 47, 44, 41, 44, 40, 45, 42, 44, 40] :: u8 list"
  define r where "r = rev ?t @ replicate 22 0"
  have dg: "ltoa_digits (- 2147483648) 0 (replicate 32 0) = Some (10, r)"
    by (simp add: ltoa_digits.simps arr_set_def signed_modulo_int_def signed_divide_int_def r_def
        numeral_eq_Suc)
  have cp: "ltoa_copy buf r i 10 s1 = map_option (Pair (i + 10)) (st_bytes (buf + i) ?t s1)" for i s1
    using ltoa_copy_st_bytes [of 10 r buf i s1] by (simp add: r_def)
  have all: "jbi_ltoa buf 0x80000000 s = st_bytes buf (45 # ?t @ [0]) s"
    using dg cp by (simp add: jbi_ltoa_def add.assoc split: bind_splits)
  obtain s' where "st_bytes buf (45 # ?t @ [0]) s = Some s'" "cstr buf (45 # ?t) s'"
    using store_cstr [of "45 # ?t" buf s] room by auto
  then show ?thesis using all by auto
qed

theorem ltoa_smallest_is_garbage_witness:
  "\<exists>s'. jbi_ltoa 0x1000 0x80000000 (load 0x1000 (replicate 12 0) jbi0) = Some s' \<and>
    cstr 0x1000 (map of_char ''-./,),(-*,('') s' \<and> sint (0x80000000 :: u32) = - 2147483648"
  by (rule ltoa_smallest_is_garbage [OF room12])

text \<open>
  The comparison of names terminates on any two strings in memory, reads nothing behind
  their terminators, and returns 0 exactly when they are equal up to the case of ASCII letters.
\<close>

theorem stricmp_compares:
  assumes "cstr a xs s" "cstr b ys s"
  shows "\<exists>r. jbi_stricmp a b s = Some r \<and> (r = 0 \<longleftrightarrow> map jbi_toupper xs = map jbi_toupper ys)"
  by (rule stricmp_ok [OF assms])

theorem stricmp_compares_witness:
  "jbi_stricmp 0x100 0x200 (load 0x200 (map of_char ''PROGRAM'' @ [0]) (load 0x100 (map of_char ''program'' @ [0]) jbi0)) =
    Some 0"
proof -
  let ?s = "load 0x200 (map of_char ''PROGRAM'' @ [0]) (load 0x100 (map of_char ''program'' @ [0]) jbi0)"
  have "cstr 0x100 (map of_char ''program'') ?s" "cstr 0x200 (map of_char ''PROGRAM'') ?s"
    by (simp_all add: cstr_simps ld8_load)
  from stricmp_compares [OF this] show ?thesis by (auto simp: jbi_toupper_def)
qed

end
