(* ===== verification/JbiFlow.thy ===== *)
theory JbiFlow imports JbiCompile JbiTextProofs begin

text \<open>
  Control flow of the player: illegal opcodes, subroutine calls, and the masked
  compare.
\<close>

unbundle bit_operations_syntax

section \<open>Illegal opcodes\<close>

definition supported :: "u8 list" where
  "supported = [0x00, 0x01, 0x02, 0x03, 0x04, 0x05, 0x06, 0x07, 0x08, 0x09, 0x0A, 0x0B, 0x0C, 0x0D,
     0x0E, 0x0F, 0x10, 0x11, 0x12, 0x13, 0x14, 0x15, 0x16, 0x17, 0x18, 0x1C, 0x1D, 0x1E, 0x1F, 0x20,
     0x21, 0x22, 0x23, 0x24, 0x25, 0x26, 0x27, 0x2C, 0x2D, 0x2F, 0x40, 0x41, 0x42, 0x43, 0x44, 0x45,
     0x47, 0x48, 0x49, 0x4A, 0x4B, 0x4C, 0x4D, 0x4E, 0x4F, 0x50, 0x51, 0x52, 0x53, 0x54, 0x55, 0x56,
     0x57, 0x58, 0x59, 0x5A, 0x5C, 0x80, 0x82, 0x83, 0x84, 0xC0]"

lemma dispatch_unsupported: "opcode v \<notin> set supported \<Longrightarrow> dispatch rd v = op_bad v"
  by (simp add: supported_def dispatch_def Let_def)

lemma fetch_args_keeps:
  "fetch_args n i v = Some v' \<Longrightarrow> js v' = js v \<and> stack v' = stack v \<and> stack_ptr v' = stack_ptr v \<and>
    status v' = status v \<and> opcode v' = opcode v \<and> opcode_address v' = opcode_address v \<and>
    code_section v' = code_section v"
proof (induction n arbitrary: i v)
  case (Suc n)
  then show ?case by (fastforce split: bind_splits)
qed simp

lemma fetch_keeps:
  assumes "fetch v = Some v'"
  shows "js v' = js v" "stack v' = stack v" "stack_ptr v' = stack_ptr v" "status v' = status v"
    "opcode_address v' = pc v" "code_section v' = code_section v"
    "ld8 (program v + pc v) (js v) = Some (opcode v')"
  using assms by (auto simp: fetch_def GET_BYTE_def Let_def dest!: fetch_args_keeps split: bind_splits)

text \<open>
  An opcode outside the instruction set stops the run: the turn changes neither the stack nor
  the memory nor the TAP, the status is \<open>ILLEGAL_OPCODE\<close>, and the error address is the address of
  the opcode relative to the code section; every later turn changes nothing.
\<close>

theorem illegal_opcode_stops:
  assumes "ready v" "ld8 (program v + pc v) (js v) = Some b" "b \<notin> set supported" "fetch v \<noteq> None"
  shows "\<exists>v'. step rd v = Some v' \<and> finished v' \<and> status v' = JBIC_ILLEGAL_OPCODE \<and>
    error_address v' = pc v - code_section v \<and> js v' = js v \<and> contents v' = contents v \<and>
    run rd v = Some v'"
proof -
  obtain v1 where v1: "fetch v = Some v1" using assms(4) by blast
  note k = fetch_keeps [OF v1]
  let ?v2 = "after_instruction (v1\<lparr>bad_opcode := True\<rparr>)"
  have "dispatch rd v1 = Some (v1\<lparr>bad_opcode := True\<rparr>)"
    using k(7) assms(2,3) dispatch_unsupported [of v1 rd] by (simp add: op_bad_def)
  then have s: "step rd v = Some ?v2" using v1 by (simp add: step_def)
  have f: "finished ?v2" "status ?v2 = JBIC_ILLEGAL_OPCODE" "error_address ?v2 = pc v - code_section v"
    "js ?v2 = js v" "contents ?v2 = contents v"
    using k assms(1) by (simp_all add: after_instruction_def ready_def stack_ok_def contents_def)
  have "run rd v = run rd ?v2" using run_steps [of rd 1 v ?v2] s assms(1) by (simp add: ready_def)
  also have "\<dots> = Some ?v2" using f(1) by (subst run.simps) simp
  finally show ?thesis using s f by blast
qed

theorem illegal_opcode_stops_witness:
  "\<exists>v'. step (\<lambda>_. 0) (vm0\<lparr>js := load 0x4000 [0x2B] jbi0\<rparr>) = Some v' \<and> finished v' \<and>
    status v' = JBIC_ILLEGAL_OPCODE"
proof -
  let ?v = "vm0\<lparr>js := load 0x4000 [0x2B] jbi0\<rparr>"
  have "ready ?v"
    by (simp add: ready_def vm0_def initial_vm_def stack_ok_def JBI_STACK_SIZE_def)
  moreover have "ld8 (program ?v + pc ?v) (js ?v) = Some 0x2B"
    by (simp add: vm0_def initial_vm_def ld8_load)
  moreover have "fetch ?v \<noteq> None"
    by (simp add: vm0_def initial_vm_def fetch_def GET_BYTE_def ld8_load)
  ultimately show ?thesis
    using illegal_opcode_stops [of ?v "0x2B" "\<lambda>_. 0"] by (auto simp: supported_def)
qed

section \<open>Calls and returns\<close>

text \<open>
  A subroutine does not return to its caller: CALL pushes the pc itself, RET adds the start of
  the code section to what it pops, so the run goes on (or stops with a bounds error) at the return
  address plus the start of the code section.
\<close>

theorem return_misses_caller:
  assumes "stack_ok v" "stack_ptr v < int JBI_STACK_SIZE" "opcode v = 0x43" "arg 0 v = Some a"
  shows "\<exists>v1. dispatch rd v = Some v1 \<and> pc v1 = a + code_section v \<and> contents v1 = pc v # contents v \<and>
    stack_ok v1 \<and> code_section v1 = code_section v \<and>
    (\<forall>v2. stack_ok v2 \<and> contents v2 = contents v1 \<and> code_section v2 = code_section v \<and> opcode v2 = 0x11 \<longrightarrow>
       (\<exists>v3. dispatch rd v2 = Some v3 \<and> contents v3 = contents v \<and> pc v3 = pc v + code_section v))"
proof -
  obtain v0 where v0: "push (pc v) v = Some v0" "contents v0 = pc v # contents v" "stack_ok v0"
    "off_stack v0 = off_stack v"
    using push_contents [OF assms(1,2)] by blast
  note g = off_stack_fields [OF v0(4)]
  define v1 where "v1 = CHECK_PC (v0\<lparr>pc := a + code_section v0\<rparr>)"
  have "arg 0 v0 = Some a" using assms(4) g(5) by (simp add: arg_def)
  then have d: "dispatch rd v = Some v1" using assms(3) v0(1) by (simp add: dispatch_def op_call_def v1_def)
  have v1: "pc v1 = a + code_section v" "contents v1 = pc v # contents v" "stack_ok v1"
    "code_section v1 = code_section v"
    using g(9) v0(2,3) by (simp_all add: v1_def CHECK_PC_def contents_def stack_ok_def)
  have "\<exists>v3. dispatch rd v2 = Some v3 \<and> contents v3 = contents v \<and> pc v3 = pc v + code_section v"
    if v2: "stack_ok v2 \<and> contents v2 = contents v1 \<and> code_section v2 = code_section v \<and> opcode v2 = 0x11" for v2
  proof -
    have c: "contents v2 = pc v # contents v" using v2 v1(2) by simp
    have "stack_ok v2" using v2 by blast
    then have p: "stack_ptr v2 = 1 + int (length (contents v))" using ptr_contents [of v2] unfolding c by simp
    obtain w where w: "pop v2 = Some (pc v, w)" "contents w = contents v" "off_stack w = off_stack v2"
      using pop_contents [OF _ c] v2 by blast
    have cs: "code_section w = code_section v" using off_stack_fields(9) [OF w(3)] v2 by simp
    have "dispatch rd v2 = Some (let v2 = CHECK_PC (w\<lparr>pc := pc v + code_section w\<rparr>)
        in if pc v2 = code_section v2 then v2\<lparr>status := JBIC_BOUNDS_ERROR\<rparr> else v2)"
      using v2 p w(1) by (simp add: dispatch_def op_ret_def IF_CHECK_STACK_def Let_def)
    then show ?thesis using w(2) cs by (simp add: Let_def CHECK_PC_def contents_def)
  qed
  then show ?thesis using d v1 by blast
qed

theorem return_misses_caller_witness:
  "\<exists>v1. dispatch (\<lambda>_. 0) (vm0\<lparr>opcode := 0x43, args := [0x40, 0, 0], pc := 0x125, code_section := 0x100\<rparr>) = Some v1 \<and>
    pc v1 = 0x140 \<and> (\<exists>v3. dispatch (\<lambda>_. 0) (v1\<lparr>opcode := 0x11\<rparr>) = Some v3 \<and> pc v3 = 0x225)"
proof -
  let ?v = "vm0\<lparr>opcode := 0x43, args := [0x40, 0, 0], pc := 0x125, code_section := 0x100\<rparr>"
  have v: "stack_ok ?v" "stack_ptr ?v < int JBI_STACK_SIZE" "opcode ?v = 0x43" "arg 0 ?v = Some 0x40"
    "code_section ?v = 0x100" "pc ?v = 0x125"
    by (simp_all add: stack_ok_def vm0_def initial_vm_def JBI_STACK_SIZE_def arg_def arr_get_def)
  from return_misses_caller [OF v(1-4), of "\<lambda>_. 0"] obtain w where
    w: "dispatch (\<lambda>_. 0) ?v = Some w" "pc w = 0x40 + 0x100" "stack_ok w" "code_section w = 0x100"
      "\<And>v2. stack_ok v2 \<and> contents v2 = contents w \<and> code_section v2 = 0x100 \<and> opcode v2 = 0x11 \<Longrightarrow>
        \<exists>v3. dispatch (\<lambda>_. 0) v2 = Some v3 \<and> pc v3 = 0x125 + 0x100"
    unfolding v(5,6) by blast
  have "\<exists>v3. dispatch (\<lambda>_. 0) (w\<lparr>opcode := 0x11\<rparr>) = Some v3 \<and> pc v3 = 0x125 + 0x100"
    by (rule w(5)) (use w(3,4) in \<open>simp add: stack_ok_def contents_def\<close>)
  then show ?thesis using w(1,2) by simp
qed

section \<open>The masked compare\<close>

text \<open>
  CMPS ignores the bit count it checks: \<open>-1L >> (32 - count)\<close> is an arithmetic shift and is -1
  for every count, so all 32 bits under the mask operand are compared, not the low \<open>count\<close> ones.
\<close>

theorem cmps_ignores_count:
  assumes "stack_ok v" "contents v = a # b # m # count # xs" "opcode v = 0x12" "1 \<le> count" "count \<le> 32"
  shows "\<exists>v'. dispatch rd v = Some v' \<and> off_stack v' = off_stack v \<and>
    contents v' = of_bool (a AND m = b AND m) # xs"
proof -
  have e: "IF_CHECK_STACK 4 body v = body v" for body
    by (rule enough [OF assms(1)]) (simp add: assms(2))
  obtain v1 where v1: "pop v = Some (a, v1)" "contents v1 = b # m # count # xs" "stack_ok v1" "off_stack v1 = off_stack v"
    using pop_contents [OF assms(1,2)] by blast
  obtain v2 where v2: "pop v1 = Some (b, v2)" "contents v2 = m # count # xs" "stack_ok v2" "off_stack v2 = off_stack v"
    using pop_contents [OF v1(3,2)] v1(4) by auto
  obtain v3 where v3: "pop v2 = Some (m, v3)" "contents v3 = count # xs" "stack_ok v3" "off_stack v3 = off_stack v"
    using pop_contents [OF v2(3,2)] v2(4) by auto
  have c: "stk (stack_ptr v3 - 1) v3 = Some count" using stk_contents [OF v3(3), of 0] v3(2) by simp
  obtain v4 where v4: "set_top (of_bool (a AND m = b AND m)) v3 = Some v4"
    "contents v4 = of_bool (a AND m = b AND m) # xs" "off_stack v4 = off_stack v"
    using stk_set_contents [OF v3(3), of 0 "of_bool (a AND m = b AND m)"] v3(2,4) by (auto simp: set_top_def)
  have "\<not> (count < 1 \<or> count > 32)" using assms(4,5) by auto
  then have "op_cmps v = set_top (of_bool (a AND m = b AND m)) v3"
    unfolding op_cmps_def e using v1(1) v2(1) v3(1) c by (simp add: bool32_def)
  then show ?thesis using v4 assms(3) by (simp add: dispatch_def)
qed

theorem cmps_ignores_count_witness:
  "\<exists>v'. dispatch (\<lambda>_. 0) (vm0\<lparr>opcode := 0x12, stack := [8, 0xFFFFFFFF, 0x12, 0x112] @ replicate 124 0, stack_ptr := 4\<rparr>)
      = Some v' \<and> contents v' = [0]"
proof -
  let ?v = "vm0\<lparr>opcode := 0x12, stack := [8, 0xFFFFFFFF, 0x12, 0x112] @ replicate 124 0, stack_ptr := 4\<rparr>"
  have "stack_ok ?v" "contents ?v = 0x112 # 0x12 # 0xFFFFFFFF # 8 # []"
    by (simp_all add: stack_ok_def JBI_STACK_SIZE_def contents_def)
  from cmps_ignores_count [OF this, of "\<lambda>_. 0"] show ?thesis by auto
qed

end
