(* ===== verification/JbiMessages.thy ===== *)
theory JbiMessages imports JbiFlow begin

text \<open>
  Building messages: PSTR appends a string of the program to the 257 byte buffer, cut off at 256
  characters, unless the buffer is full already.
\<close>

unbundle bit_operations_syntax

section \<open>Appending a string\<close>

text \<open>
  What PSTR finds: the text so far in the message buffer, the string of the operand in the program,
  apart from each other.
\<close>

definition pstr_ready :: "u8 list \<Rightarrow> u8 list \<Rightarrow> nat \<Rightarrow> vm \<Rightarrow> bool" where
  "pstr_ready xs ys n v \<longleftrightarrow> opcode v = 0x45 \<and> cstr (message_buffer v) xs (js v) \<and>
     (\<exists>a. arg 0 v = Some a \<and> cstr (program v + (string_table v + a)) ys (js v) \<and>
        sep_bytes (program v + (string_table v + a)) (Suc (length ys)) (message_buffer v) n) \<and>
     length ys < 4294967000 \<and> length xs \<le> 256 \<and> n < 4294967296 \<and>
     (\<forall>l < n. ld8 (message_buffer v + of_nat l) (js v) \<noteq> None)"

lemma sep_bytes_sub:
  assumes "sep_bytes p n q m" "d + m' \<le> m"
  shows "sep_bytes p n (q + of_nat d) m'"
  unfolding sep_bytes_def
proof (intro allI impI)
  fix k l assume "k < n" "l < m'"
  then show "p + of_nat k \<noteq> q + of_nat d + of_nat l"
    using assms(1) [unfolded sep_bytes_def, rule_format, of k "d + l"] assms(2) by (simp add: add.assoc)
qed

text \<open>PSTR as a store of bytes: how much is copied depends on the room the text leaves.\<close>

lemma pstr_bytes:
  assumes r: "pstr_ready xs ys n v" and n: "length xs + copied (256 - of_nat (length xs)) ys \<le> n"
  shows "dispatch rd v = do { j1 \<leftarrow> st_bytes (message_buffer v + of_nat (length xs))
        (take (copied (256 - of_nat (length xs)) ys) (ys @ [0])) (js v);
      j2 \<leftarrow> st8 (message_buffer v + 256) 0 j1; Some (v\<lparr>js := j2\<rparr>) }"
proof -
  obtain a where a: "arg 0 v = Some a" "cstr (program v + (string_table v + a)) ys (js v)"
    "sep_bytes (program v + (string_table v + a)) (Suc (length ys)) (message_buffer v) n"
    using r by (auto simp: pstr_ready_def)
  have len: "jbi_strlen (message_buffer v) (js v) = Some (of_nat (length xs))"
    by (rule jbi_strlen_ok) (use r in \<open>simp add: pstr_ready_def\<close>)
  have "jbi_strncpy (message_buffer v + of_nat (length xs)) (program v + (string_table v + a))
      (256 - of_nat (length xs)) (js v) =
    st_bytes (message_buffer v + of_nat (length xs)) (take (copied (256 - of_nat (length xs)) ys) (ys @ [0])) (js v)"
    by (rule strncpy_st_bytes [OF a(2) sep_bytes_sub [OF a(3) n]]) (use r in \<open>simp add: pstr_ready_def\<close>)
  moreover have "opcode v = 0x45" using r by (simp add: pstr_ready_def)
  ultimately show ?thesis
    using len a(1) by (simp add: dispatch_def op_pstr_def on_js_def JBIC_MESSAGE_LENGTH_def split: bind_splits)
qed

lemma room_left: "length xs \<le> 256 \<Longrightarrow> unat (256 - of_nat (length xs) :: u32) = 256 - length xs"
proof -
  assume l: "length xs \<le> 256"
  have u: "unat (of_nat (length xs) :: u32) = length xs" by (rule unat_of_nat_lt) (use l in simp)
  then have "of_nat (length xs) \<le> (256 :: u32)" using l by (simp add: word_le_nat_alt)
  then show ?thesis using u by (simp add: unat_sub)
qed

text \<open>
  Appending to a message that is not full: the buffer then holds the first 256 characters of
  the text and the string, with a terminator, and no byte outside the buffer changes.
\<close>

theorem pstr_truncates:
  assumes r: "pstr_ready xs ys 257 v" and len: "length xs < 256"
  shows "\<exists>j. dispatch rd v = Some (v\<lparr>js := j\<rparr>) \<and> cstr (message_buffer v) (take 256 (xs @ ys)) j \<and>
    (\<forall>b. (\<forall>l < 257. b \<noteq> message_buffer v + of_nat l) \<longrightarrow> ld8 b j = ld8 b (js v))"
proof -
  define m where "m = message_buffer v"
  define c where "c = copied (256 - of_nat (length xs)) ys"
  have c: "c = min (256 - length xs) (Suc (length ys))"
    using room_left [of xs] len by (auto simp: c_def copied_def)
  have rm: "cstr m xs (js v)" "cstr m xs (js v) \<longrightarrow> 0 \<notin> set xs" "0 \<notin> set ys"
    "\<And>l. l < 257 \<Longrightarrow> ld8 (m + of_nat l) (js v) \<noteq> None"
    using r by (auto simp: pstr_ready_def m_def cstr_def)
  let ?bs = "take c (ys @ [0])"
  have "c \<le> Suc (length ys)" using c by simp
  then have lbs: "length ?bs = c" by (cases "c = Suc (length ys)") simp_all
  have map1: "ld8 (m + of_nat (length xs) + of_nat l) (js v) \<noteq> None" if "l < length ?bs" for l
    using rm(4) [of "length xs + l"] that c len by (simp add: add.assoc del: not_None_eq)
  have "c \<le> 256" using c by simp
  then have small: "length ?bs \<le> 4294967296" unfolding lbs by simp
  obtain j1 where j1: "st_bytes (m + of_nat (length xs)) ?bs (js v) = Some j1"
    "bytes_at (m + of_nat (length xs)) ?bs j1"
    "\<And>b. (\<forall>l < length ?bs. b \<noteq> m + of_nat (length xs) + of_nat l) \<Longrightarrow> ld8 b j1 = ld8 b (js v)"
    "\<And>b. ld8 b j1 = None \<longleftrightarrow> ld8 b (js v) = None"
    using st_bytes_ok [OF map1 small] by blast
  have "ld8 (m + 256) (js v) \<noteq> None" using rm(4) [of 256] by simp
  then have "ld8 (m + 256) j1 \<noteq> None" by (simp only: j1(4)) simp
  then obtain j2 where j2: "st8 (m + 256) 0 j1 = Some j2" using st8_mapped by blast
  have d: "dispatch rd v = Some (v\<lparr>js := j2\<rparr>)"
    using pstr_bytes [OF r, of rd] j1(1) j2 c len by (simp add: c_def m_def)
  have at: "ld8 (m + of_nat k) j2 = ld8 (m + of_nat k) j1" if "k < 256" for k
    using ld8_st8_other [OF j2] of_nat_inj_small [of k 256 m] that by simp
  have low: "ld8 (m + of_nat k) j1 = Some (xs ! k)" if "k < length xs" for k
  proof -
    have "m + of_nat k \<noteq> m + of_nat (length xs) + of_nat l" if "l < length ?bs" for l
      using of_nat_inj_small [of k "length xs + l" m] \<open>k < length xs\<close> that c len by (simp add: add.assoc)
    then have "ld8 (m + of_nat k) j1 = ld8 (m + of_nat k) (js v)" using j1(3) by blast
    then show ?thesis using rm(1) that by (simp add: cstr_def bytes_at_def nth_append)
  qed
  have high: "ld8 (m + of_nat k) j1 = Some ((ys @ [0]) ! (k - length xs))" if "length xs \<le> k" "k - length xs < c" for k
    using j1(2) [unfolded bytes_at_def lbs, rule_format, of "k - length xs"] that
    by (simp add: of_nat_diff nth_take del: take_append)
  let ?t = "take 256 (xs @ ys)"
  have "ld8 (m + of_nat k) j2 = Some ((?t @ [0]) ! k)" if k: "k < length (?t @ [0])" for k
  proof -
    consider "k = 256" | "k < 256" "k < length xs" | "k < 256" "length xs \<le> k" "k - length xs < c"
      using k c by fastforce
    then show ?thesis
    proof cases
      case 1
      then have "length ?t = 256" using k by simp
      then have "(?t @ [0]) ! k = 0" using 1 by (metis nth_append_length)
      then show ?thesis using j2 1 by simp
    next
      case 2
      then show ?thesis using at low by (simp add: nth_append)
    next
      case 3
      then have "(?t @ [0]) ! k = (ys @ [0]) ! (k - length xs)"
        using k by (auto simp: nth_append)
      then show ?thesis using at [of k] high [of k] 3 by simp
    qed
  qed
  then have "cstr m ?t j2" using rm(1,3) by (auto simp: cstr_def bytes_at_def dest: in_set_takeD)
  moreover have "ld8 b j2 = ld8 b (js v)" if "\<forall>l < 257. b \<noteq> m + of_nat l" for b
  proof -
    have "b \<noteq> m + 256" using that [rule_format, of 256] by simp
    moreover have "b \<noteq> m + of_nat (length xs) + of_nat l" if "l < length ?bs" for l
      using \<open>\<forall>l < 257. b \<noteq> m + of_nat l\<close> [rule_format, of "length xs + l"] that c len by (simp add: add.assoc)
    ultimately show ?thesis using ld8_st8_other [OF j2] j1(3) by simp
  qed
  ultimately show ?thesis using d unfolding m_def by blast
qed

text \<open>A message of \<open>xs\<close> in the buffer at 0x1000, and the string "OK" at 0x5000, behind the program.\<close>

definition vm_text :: "u8 list \<Rightarrow> nat \<Rightarrow> vm" where
  "vm_text xs n = vm0\<lparr>js := load 0x5000 [79, 75, 0] (load 0x1000 (xs @ replicate n 0) jbi0),
     opcode := 0x45, string_table := 0x1000\<rparr>"

lemma vm_text_ready:
  assumes "0 \<notin> set xs" "length xs \<le> 256" "0 < n" "length xs + n = m" "m \<le> 300"
  shows "pstr_ready xs [79, 75] m (vm_text xs n)"
proof -
  let ?s = "load 0x1000 (xs @ replicate n 0) jbi0"
  have far: "ld8 (0x1000 + of_nat l) (load 0x5000 [79, 75, 0] ?s) = ld8 (0x1000 + of_nat l) ?s" if "l < 300" for l
  proof -
    have "unat (0x1000 + of_nat l - 0x5000 :: u32) = 4294950912 + l"
    proof -
      have "0x1000 + of_nat l - 0x5000 = (of_nat (4294950912 + l) :: u32)" by simp
      then show ?thesis using that by (simp only: unat_of_nat_lt)
    qed
    then show ?thesis by (simp add: ld8_load)
  qed
  have at: "bytes_at 0x1000 (xs @ replicate n 0) ?s" by (rule bytes_at_load) (use assms in simp)
  then have at': "bytes_at 0x1000 (xs @ replicate n 0) (load 0x5000 [79, 75, 0] ?s)"
    using far assms by (simp add: bytes_at_def)
  moreover obtain n' where "n = Suc n'" using assms(3) by (cases n) auto
  ultimately have "cstr 0x1000 xs (load 0x5000 [79, 75, 0] ?s)"
    using assms(1) by (simp add: cstr_def bytes_at_append bytes_at_Cons bytes_at_Nil)
  moreover have "cstr 0x5000 [79, 75] (load 0x5000 [79, 75, 0] ?s)" by (simp add: cstr_simps ld8_load)
  moreover have "sep_bytes 0x5000 (Suc (length [79, 75 :: u8])) 0x1000 m"
    unfolding sep_bytes_def
  proof (intro allI impI)
    fix k l :: nat assume "k < Suc (length [79, 75 :: u8])" "l < m"
    then show "0x5000 + of_nat k \<noteq> (0x1000 :: u32) + of_nat l"
      using of_nat_inj_small [of "0x4000 + k" l "0x1000"] assms(5) by simp
  qed
  moreover have "ld8 (0x1000 + of_nat l) (load 0x5000 [79, 75, 0] ?s) \<noteq> None" if "l < m" for l
    using at' that assms(4) by (simp add: bytes_at_def)
  ultimately show ?thesis
    using assms by (simp add: pstr_ready_def vm_text_def vm0_def initial_vm_def arg_def arr_get_def)
qed

theorem pstr_truncates_witness:
  "\<exists>v'. dispatch (\<lambda>_. 0) (vm_text (replicate 255 65) 2) = Some v' \<and>
    cstr 0x1000 (replicate 255 65 @ [79]) (js v')"
proof -
  have r: "pstr_ready (replicate 255 65) [79, 75] 257 (vm_text (replicate 255 65) 2)"
    by (rule vm_text_ready) simp_all
  have m: "message_buffer (vm_text (replicate 255 65) 2) = 0x1000"
    by (simp add: vm_text_def vm0_def initial_vm_def)
  show ?thesis using pstr_truncates [OF r, of "\<lambda>_. 0"] unfolding m by auto
qed

text \<open>
  A full message is not protected: the room passed to the copy is 0, which it takes for no
  limit, so the whole string is copied from the last byte of the buffer on, and all of it but the
  first character ends up behind the buffer.
\<close>

theorem pstr_overruns_full_message:
  assumes r: "pstr_ready xs (y # ys) n v" and len: "length xs = 256" "258 + length ys \<le> n"
  shows "\<exists>j. dispatch rd v = Some (v\<lparr>js := j\<rparr>) \<and> bytes_at (message_buffer v + 257) (ys @ [0]) j"
proof -
  define m where "m = message_buffer v"
  have c: "copied 0 (y # ys) = length (y # ys @ [0])" by (simp add: copied_def)
  have map1: "ld8 (m + 256 + of_nat l) (js v) \<noteq> None" if "l < length (y # ys @ [0])" for l
    using r len that by (auto simp: pstr_ready_def m_def add.assoc dest!: spec [of _ "256 + l"])
  have "length (y # ys @ [0]) \<le> 4294967296" using r by (simp add: pstr_ready_def)
  then obtain j1 where j1: "st_bytes (m + 256) (y # ys @ [0]) (js v) = Some j1"
    "bytes_at (m + 256) (y # ys @ [0]) j1"
    using st_bytes_ok [OF map1] by blast
  obtain j2 where j2: "st8 (m + 256) 0 j1 = Some j2"
    using j1(2) st8_mapped [of "m + 256" j1 0] by (auto simp: bytes_at_Cons)
  have "dispatch rd v = Some (v\<lparr>js := j2\<rparr>)"
    using pstr_bytes [OF r, of rd] len c j1(1) j2 by (simp add: m_def del: st_bytes.simps)
  moreover have "bytes_at (m + 257) (ys @ [0]) j2"
  proof -
    have "m + 257 + of_nat k \<noteq> m + 256" if "k < length (ys @ [0])" for k
      using of_nat_inj_small [of "257 + k" 256 m] that r by (simp add: pstr_ready_def add.assoc)
    moreover have "bytes_at (m + 257) (ys @ [0]) j1" using j1(2) by (simp add: bytes_at_Cons [of _ y] add.assoc)
    ultimately show ?thesis using ld8_st8_other [OF j2] by (simp add: bytes_at_def)
  qed
  ultimately show ?thesis unfolding m_def by blast
qed

theorem pstr_overruns_full_message_witness:
  "\<exists>v'. dispatch (\<lambda>_. 0) (vm_text (replicate 256 65) 3) = Some v' \<and> bytes_at 0x1101 [75, 0] (js v')"
proof -
  have r: "pstr_ready (replicate 256 65) [79, 75] 259 (vm_text (replicate 256 65) 3)"
    by (rule vm_text_ready) simp_all
  have m: "message_buffer (vm_text (replicate 256 65) 3) = 0x1000"
    by (simp add: vm_text_def vm0_def initial_vm_def)
  show ?thesis using pstr_overruns_full_message [OF r, of "\<lambda>_. 0"] unfolding m by auto
qed

end
