(* ===== verification/JbiArrays.thy ===== *)
theory JbiArrays imports JbiFlow begin

text \<open>
  The array instructions: bit fields written by POPA and read back by PSHA, COPY, and the resizing
  of arrays by DYNA.
\<close>

unbundle bit_operations_syntax

section \<open>Writing bits\<close>

fun put_bits :: "u32 \<Rightarrow> u32 \<Rightarrow> bool list \<Rightarrow> jbi \<Rightarrow> jbi option" where
  "put_bits p i [] s = Some s"
| "put_bits p i (b # bs) s = do { s1 \<leftarrow> put_bit p i b s; put_bits p (i + 1) bs s1 }"

lemma put_bits_ok:
  assumes "mapped_bits p i (length bs) s" "length bs < 4294967296"
  shows "\<exists>s'. put_bits p i bs s = Some s' \<and> holds p i bs s' \<and> bits_frame p i (length bs) s s'"
  using assms
proof (induction bs arbitrary: i s)
  case Nil
  then show ?case by (simp add: holds_def bits_frame_refl)
next
  case (Cons b bs)
  have "get_bit p i s \<noteq> None" using Cons.prems(1) by (auto simp: mapped_bits_def)
  then obtain s1 where put: "put_bit p i b s = Some s1" using put_bit_defined by blast
  have m: "mapped_bits p (i + 1) (length bs) s"
    unfolding mapped_bits_def
  proof (intro allI impI)
    fix k assume "k < length bs"
    then show "get_bit p (i + 1 + of_nat k) s \<noteq> None"
      using Cons.prems(1) [unfolded mapped_bits_def, rule_format, of "Suc k"]
      by (simp add: add.assoc del: not_None_eq)
  qed
  have m1: "mapped_bits p (i + 1) (length bs) s1"
    using m put_bit_dom [OF put] by (simp add: mapped_bits_def del: not_None_eq)
  have "length bs < 4294967296" using Cons.prems(2) by simp
  then obtain s2 where s2: "put_bits p (i + 1) bs s1 = Some s2" "holds p (i + 1) bs s2"
    "bits_frame p (i + 1) (length bs) s1 s2"
    using Cons.IH [OF m1] by blast
  have "i \<noteq> i + 1 + of_nat l" if "l < length bs" for l
    using that Cons.prems(2) of_nat_inj_small [of 0 "Suc l" i] by (simp add: ac_simps)
  then have "get_bit p i s2 = get_bit p i s1" using s2(3) unfolding bits_frame_def by blast
  then have "get_bit p i s2 = Some b" using get_put_same [OF put] by simp
  then have "holds p i (b # bs) s2"
    using s2(2) unfolding holds_def list.size add_0_right One_nat_def add_Suc_right
    by (simp add: All_less_Suc2 ac_simps)
  then show ?case using put s2(1) bits_frame_step [OF put s2(3)] by auto
qed

text \<open>A byte none of whose bits is written keeps its value.\<close>

lemma frame_byte:
  assumes fr: "bits_frame p i n s s'" and away: "\<forall>l < n. a \<noteq> bit_addr p (i + of_nat l)"
  shows "ld8 a s' = ld8 a s"
proof -
  have gb: "get_bit a (of_nat k) t = map_option (\<lambda>b. bit b k) (ld8 a t)" "bit_addr a (of_nat k) = a"
    if "k < 8" for k t
  proof -
    have u: "unat (of_nat k :: u32) = 8 * 0 + k" using that unat_of_nat_lt [of k] by simp
    have "unat (of_nat k AND 7 :: u32) = unat (take_bit 3 (of_nat k :: u32))"
      by (simp only: take_bit_eq_mask mask_eq_exp_minus_1) simp
    also have "\<dots> = take_bit 3 (unat (of_nat k :: u32))" by (rule unsigned_take_bit_eq)
    also have "\<dots> = k" unfolding u using that by (simp add: take_bit_eq_mod)
    finally show "get_bit a (of_nat k) t = map_option (\<lambda>b. bit b k) (ld8 a t)" "bit_addr a (of_nat k) = a"
      using drop_bit_3_pos [OF u that] by (simp_all add: get_bit_def bit_addr_def)
  qed
  have g: "map_option (\<lambda>b. bit b k) (ld8 a s') = map_option (\<lambda>b. bit b k) (ld8 a s)" if "k < 8" for k
    using fr away gb that unfolding bits_frame_def by metis
  show ?thesis
  proof (cases "ld8 a s")
    case None
    then show ?thesis using g [of 0] by simp
  next
    case (Some b)
    then obtain b' where b': "ld8 a s' = Some b'" using g [of 0] by auto
    have "b' = b"
    proof (rule bit_word_eqI)
      fix k :: nat assume "k < LENGTH(8)"
      then show "bit b' k = bit b k" using g [of k] Some b' by simp
    qed
    then show ?thesis using Some b' by simp
  qed
qed

section \<open>Signed bit indices\<close>

text \<open>For an index that is not negative the arithmetic shift is the logical one.\<close>

lemma sint_small: "unat x < 2147483648 \<Longrightarrow> sint x = int (unat x)" for x :: u32
proof -
  assume "unat x < 2147483648"
  then have u: "int (unat x) < 2147483648" by linarith
  have "sint x = signed_take_bit 31 (uint x)" by (simp add: signed_take_bit_eq sint_uint)
  also have "\<dots> = uint x"
    by (rule signed_take_bit_int_eq_self) (rule order_trans [of _ 0], use u in simp_all)
  finally show ?thesis by simp
qed

lemma signed_index:
  assumes "unat i < 2147483648"
  shows "signed_drop_bit n i = drop_bit n (i :: u32)"
proof -
  have "signed_drop_bit n i = of_int (sint (signed_drop_bit n i))" by simp
  also have "\<dots> = of_int (uint (drop_bit n i))"
    unfolding sint_signed_drop_bit_eq sint_small [OF assms] unsigned_drop_bit_eq
    by (simp add: take_bit_word_eq_self flip: unsigned_take_bit_eq)
  finally show ?thesis by simp
qed

lemma sput_put: "unat i < 2147483648 \<Longrightarrow> sput_bit p i b s = put_bit p i b s"
  by (simp add: sput_bit_def put_bit_def signed_index)

lemma unat_add_small: "unat i + k < 4294967296 \<Longrightarrow> unat (i + of_nat k :: u32) = unat i + k"
  by (simp add: unat_word_ariths unat_of_nat)

lemma popa_put_bits:
  assumes "j + n \<le> 32" "unat i + n \<le> 2147483648"
  shows "popa_loop n (of_nat j) x p i s = put_bits p i (map (bit x) [j ..< j + n]) s"
  using assms
proof (induction n arbitrary: j i s)
  case (Suc n)
  have uj: "unat (of_nat j :: u32) = j" by (rule unat_of_nat_lt) (use Suc.prems in simp)
  then have j: "\<not> (32 :: u32) \<le> of_nat j" using Suc.prems by (simp add: word_le_nat_alt)
  have b: "x AND push_bit j 1 \<noteq> 0 \<longleftrightarrow> bit x j" by (simp add: bit_iff_and_push_bit_not_eq_0)
  have ui: "unat (i + 1) = unat i + 1" using unat_add_small [of i 1] Suc.prems by simp
  have e: "popa_loop n (of_nat (Suc j)) x p (i + 1) s' = put_bits p (i + 1) (map (bit x) [Suc j ..< Suc j + n]) s'" for s'
    by (rule Suc.IH) (use Suc.prems ui in simp_all)
  have l: "[j ..< j + Suc n] = j # [Suc j ..< Suc j + n]" by (simp add: upt_conv_Cons)
  show ?case
    unfolding l using j uj b e sput_put [of i p "bit x j" s] Suc.prems
    by (simp add: ac_simps split: bind_splits)
qed simp

lemma psha_collects:
  assumes "\<forall>k < j + n. get_bit p (of_nat k + i) s = Some (bit x k)" "j + n \<le> 32"
  shows "psha_loop n (of_nat j) i p (take_bit j x) s = Some (take_bit (j + n) x)"
  using assms
proof (induction n arbitrary: j)
  case (Suc n)
  have uj: "unat (of_nat j :: u32) = j" by (rule unat_of_nat_lt) (use Suc.prems in simp)
  have g: "get_bit p (of_nat j + i) s = Some (bit x j)" using Suc.prems(1) by simp
  have acc: "(if bit x j then take_bit j x OR push_bit j 1 else take_bit j x) = take_bit (Suc j) x"
    by (rule bit_word_eqI) (auto simp: bit_simps less_Suc_eq)
  have "psha_loop n (of_nat (Suc j)) i p (take_bit (Suc j) x) s = Some (take_bit (Suc j + n) x)"
    by (rule Suc.IH) (use Suc.prems in simp_all)
  then show ?case unfolding psha_loop.simps g bind.bind_lunit uj acc by (simp add: add.commute)
qed simp

section \<open>Bit fields of a writable Boolean array\<close>

text \<open>
  The Boolean array \<open>i\<close> is writable and at \<open>p\<close>, bits \<open>ix\<close> to \<open>ix + n\<close> of it are mapped, and the
  entries of the tables for \<open>i\<close> are not in their bytes.
\<close>

definition bool_array :: "u32 \<Rightarrow> u32 \<Rightarrow> u32 \<Rightarrow> nat \<Rightarrow> vm \<Rightarrow> bool" where
  "bool_array i p ix n v \<longleftrightarrow> (\<exists>a. attr_get i v = Some a \<and> a AND 0x1c = 0x08) \<and> var_get i v = Some p \<and>
     mapped_bits p ix n (js v) \<and> unat ix + n \<le> 2147483648 \<and>
     (\<forall>k < n. bit_addr p (ix + of_nat k) \<noteq> attributes v + i \<and>
       (\<forall>l < 4. bit_addr p (ix + of_nat k) \<noteq> variables v + 4 * i + of_nat l))"

lemma writable_stays:
  assumes "attr_get i v = Some a" "a AND 0x1c = 0x08"
  shows "bool_to_writable i v = Some (True, v)"
proof -
  have "a AND 0x9c \<noteq> 0x0c"
  proof
    assume h: "a AND 0x9c = 0x0c"
    have "bit (a AND 0x9c) 2" unfolding h by simp
    then have "bit a 2" by (simp only: bit_and_iff)
    then have "bit (a AND 0x1c) 2" by (simp only: bit_and_iff) simp
    then show False unfolding assms(2) by simp
  qed
  then show ?thesis using assms(1) by (simp add: bool_to_writable_def)
qed

text \<open>The number of bits POPA and PSHA are given: a count, or with format 2 the other end of a range.\<close>

definition field_length :: "bool \<Rightarrow> u32 \<Rightarrow> u32 \<Rightarrow> nat \<Rightarrow> bool" where
  "field_length v2 c ix n \<longleftrightarrow> 1 \<le> n \<and> n \<le> 32 \<and>
     (if v2 then unat c = unat ix + n - 1 else unat c = n)"

lemma field_length_count:
  assumes "field_length v2 c ix n" "unat ix + n \<le> 2147483648"
  shows "(if v2 then 1 + c - ix else c) = of_nat n" "v2 \<Longrightarrow> sint ix \<le> sint c"
proof -
  have w: "c = of_nat (unat c)" "ix = of_nat (unat ix)" by simp_all
  show "(if v2 then 1 + c - ix else c) = of_nat n"
  proof (cases v2)
    case True
    then have "unat c + 1 = unat ix + n" using assms(1) by (simp add: field_length_def)
    then have "c + 1 = ix + of_nat n"
      using w by (metis of_nat_1 of_nat_add)
    then show ?thesis using True by (simp add: algebra_simps)
  next
    case False
    then show ?thesis using assms(1) w(1) by (simp add: field_length_def)
  qed
  assume v2
  then have "unat c = unat ix + n - 1" "1 \<le> n" using assms(1) by (simp_all add: field_length_def)
  then show "sint ix \<le> sint c" using sint_small [of c] sint_small [of ix] assms(2) by simp
qed

text \<open>A word of the tables outside the written bytes.\<close>

lemma var_get_js:
  assumes "\<forall>l < 4. ld8 (variables v + 4 * i + of_nat l) j = ld8 (variables v + 4 * i + of_nat l) (js v)"
  shows "var_get i (v\<lparr>js := j\<rparr>) = var_get i v"
  using assms by (simp add: var_get_def ld32_def all_less_simps)

lemma popa_ok:
  assumes ok: "stack_ok v" and c: "contents v = cnt # ix # x # xs" and op: "opcode v = 0x4F" and i: "arg 0 v = Some i"
    and arr: "bool_array i p ix n v" and n: "field_length (version v) cnt ix n"
  shows "\<exists>v'. dispatch rd v = Some v' \<and> contents v' = xs \<and> stack_ok v' \<and>
    holds p ix (map (bit x) [0 ..< n]) (js v') \<and> bool_array i p ix n v' \<and>
    off_stack (v'\<lparr>js := js v\<rparr>) = off_stack v \<and> bits_frame p ix n (js v) (js v')"
proof -
  obtain a where a: "attr_get i v = Some a" "a AND 0x1c = 0x08" using arr by (auto simp: bool_array_def)
  note A = arr [unfolded bool_array_def]
  obtain v1 where v1: "pop v = Some (cnt, v1)" "contents v1 = ix # x # xs" "stack_ok v1" "off_stack v1 = off_stack v"
    using pop_contents [OF ok c] by blast
  obtain v2 where v2: "pop v1 = Some (ix, v2)" "contents v2 = x # xs" "stack_ok v2" "off_stack v2 = off_stack v"
    using pop_contents [OF v1(3,2)] v1(4) by auto
  obtain v3 where v3: "pop v2 = Some (x, v3)" "contents v3 = xs" "stack_ok v3" "off_stack v3 = off_stack v"
    using pop_contents [OF v2(3,2)] v2(4) by auto
  have ver: "version v2 = version v" using v2(4) by (cases v; cases v2) (simp add: off_stack_def)
  note cnt = field_length_count [OF n]
  have n32: "1 \<le> n" "n \<le> 32" using n by (simp_all add: field_length_def)
  have un: "unat (of_nat n :: u32) = n" by (rule unat_of_nat_lt) (use n32 in simp)
  have sn: "\<not> sint (of_nat n :: u32) < 1"
    using n32 by (simp only: signed_of_nat) (simp add: signed_take_bit_int_eq_self)
  have m: "mapped_bits p ix (length (map (bit x) [0 ..< n])) (js v)" using A by simp
  obtain j where j: "put_bits p ix (map (bit x) [0 ..< n]) (js v) = Some j" "holds p ix (map (bit x) [0 ..< n]) j"
    "bits_frame p ix n (js v) j"
    using put_bits_ok [OF m] n32 by auto
  have pp: "popa_loop n 0 x p ix (js v) = Some j"
    using popa_put_bits [of 0 n ix x p "js v"] A n32 j(1) by simp
  let ?v = "v3\<lparr>js := j\<rparr>"
  have js3: "js v3 = js v" by (rule off_stack_fields(1) [OF v3(4)])
  have e: "IF_CHECK_STACK 3 body v = body v" for body by (rule enough [OF ok]) (simp add: c)
  have "op_popa v = Some ?v"
    using cnt(2) A
    by (simp only: op_popa_def e i writable_stays [OF a] a v1(1) v2(1) v3(1) ver cnt(1) sn un pp js3 on_js_def
        bind.bind_lunit prod.case simp_thms if_False if_True Let_def not_True_eq_False) (auto simp: not_less)
  then have d: "dispatch rd v = Some ?v" using op by (simp add: dispatch_def)
  have b: "ld8 b j = ld8 b (js v)" if "\<forall>k < n. b \<noteq> bit_addr p (ix + of_nat k)" for b
    using frame_byte [OF j(3)] that by blast
  have tables: "attributes v3 = attributes v" "variables v3 = variables v"
    using v3(4) by (cases v; cases v3; simp add: off_stack_def)+
  have attr: "attr_get i ?v = attr_get i v"
  proof -
    have "\<forall>k < n. attributes v + i \<noteq> bit_addr p (ix + of_nat k)" using A by metis
    then show ?thesis using b by (simp add: attr_get_def tables)
  qed
  have "\<forall>l < 4. ld8 (variables v + 4 * i + of_nat l) j = ld8 (variables v + 4 * i + of_nat l) (js v)"
  proof (intro allI impI)
    fix l :: nat assume "l < 4"
    then have "\<forall>k < n. variables v + 4 * i + of_nat l \<noteq> bit_addr p (ix + of_nat k)" using A by metis
    then show "ld8 (variables v + 4 * i + of_nat l) j = ld8 (variables v + 4 * i + of_nat l) (js v)" by (rule b)
  qed
  from var_get_js [OF this] have var: "var_get i ?v = var_get i v" by (simp add: var_get_def tables)
  have "mapped_bits p ix n j" using A j(3) by (simp add: mapped_bits_def bits_frame_def del: not_None_eq)
  then have "bool_array i p ix n ?v" using A attr var by (simp add: bool_array_def tables)
  moreover have "off_stack (?v\<lparr>js := js v\<rparr>) = off_stack v"
    using v3(4) by (cases v; cases v3) (simp add: off_stack_def)
  ultimately show ?thesis using d v3(2,3) j(2,3)
    by (intro exI [of _ ?v]) (simp add: contents_def stack_ok_def)
qed

lemma psha_ok:
  assumes ok: "stack_ok v" and c: "contents v = cnt # ix # zs" and op: "opcode v = 0x59" and i: "arg 0 v = Some i"
    and arr: "bool_array i p ix n v" and n: "field_length (version v) cnt ix n"
    and h: "holds p ix (map (bit x) [0 ..< n]) (js v)"
  shows "\<exists>v'. dispatch rd v = Some v' \<and> contents v' = take_bit n x # zs \<and> off_stack v' = off_stack v"
proof -
  obtain a where a: "attr_get i v = Some a" "a AND 0x1c = 0x08" using arr by (auto simp: bool_array_def)
  have a': "a AND 0x18 = 0x08"
  proof -
    have "a AND 0x18 = (a AND 0x1c) AND 0x18" by (simp add: and.assoc)
    then show ?thesis using a(2) by simp
  qed
  note A = arr [unfolded bool_array_def]
  obtain v1 where v1: "pop v = Some (cnt, v1)" "contents v1 = ix # zs" "stack_ok v1" "off_stack v1 = off_stack v"
    using pop_contents [OF ok c] by blast
  have s: "stk (stack_ptr v1 - 1) v1 = Some ix" using stk_contents [OF v1(3), of 0] v1(2) by simp
  have ver: "version v1 = version v" using v1(4) by (cases v; cases v1) (simp add: off_stack_def)
  have js1: "js v1 = js v" by (rule off_stack_fields(1) [OF v1(4)])
  note cnt = field_length_count [OF n]
  have n32: "1 \<le> n" "n \<le> 32" using n by (simp_all add: field_length_def)
  have un: "unat (of_nat n :: u32) = n" by (rule unat_of_nat_lt) (use n32 in simp)
  have bad: "\<not> (of_nat n < (1 :: u32) \<or> (32 :: u32) < of_nat n)"
    using n32 by (simp add: word_less_nat_alt un)
  have "\<forall>k < 0 + n. get_bit p (of_nat k + ix) (js v) = Some (bit x k)"
    using h by (simp add: holds_def add.commute)
  from psha_collects [OF this] have lp: "psha_loop n 0 ix p 0 (js v) = Some (take_bit n x)" using n32 by simp
  obtain v2 where v2: "set_top (take_bit n x) v1 = Some v2" "contents v2 = take_bit n x # zs" "off_stack v2 = off_stack v"
    using stk_set_contents [OF v1(3), of 0 "take_bit n x"] v1(2,4) by (auto simp: set_top_def)
  have e: "IF_CHECK_STACK 2 body v = body v" for body by (rule enough [OF ok]) (simp add: c)
  have "op_psha v = Some v2"
    using A v2(1)
    by (simp only: op_psha_def e i a(1) a' v1(1) ver cnt(1) un bad lp js1 s
        bind.bind_lunit prod.case simp_thms if_False if_True Let_def not_True_eq_False)
  then show ?thesis using op v2(2,3) by (simp add: dispatch_def)
qed

text \<open>
  C16. Bit fields round-trip: after POPA stores the low \<open>n\<close> bits (1 to 32) of a value into a
  writable Boolean array, PSHA with the same operands pushes exactly those bits, zero-extended, in
  both format versions; no byte outside the field's bytes changes.
\<close>

theorem popa_psha_roundtrip:
  assumes "stack_ok v" "contents v = cnt # ix # x # xs" "opcode v = 0x4F" "arg 0 v = Some i"
    "bool_array i p ix n v" "field_length (version v) cnt ix n"
  shows "\<exists>v1. dispatch rd v = Some v1 \<and> contents v1 = xs \<and>
    (\<forall>b. (\<forall>k < n. b \<noteq> bit_addr p (ix + of_nat k)) \<longrightarrow> ld8 b (js v1) = ld8 b (js v)) \<and>
    (\<forall>v2 zs. js v2 = js v1 \<and> variables v2 = variables v \<and> attributes v2 = attributes v \<and>
       version v2 = version v \<and> stack_ok v2 \<and> contents v2 = cnt # ix # zs \<and> opcode v2 = 0x59 \<and>
       arg 0 v2 = Some i \<longrightarrow>
       (\<exists>v3. dispatch rd v2 = Some v3 \<and> contents v3 = take_bit n x # zs \<and> js v3 = js v1))"
proof -
  obtain v1 where v1: "dispatch rd v = Some v1" "contents v1 = xs" "holds p ix (map (bit x) [0 ..< n]) (js v1)"
    "bool_array i p ix n v1" "off_stack (v1\<lparr>js := js v\<rparr>) = off_stack v" "bits_frame p ix n (js v) (js v1)"
    using popa_ok [OF assms, of rd] by blast
  have tables: "attributes v1 = attributes v" "variables v1 = variables v"
    using v1(5) by (cases v; cases v1; simp add: off_stack_def)+
  have "\<exists>v3. dispatch rd v2 = Some v3 \<and> contents v3 = take_bit n x # zs \<and> js v3 = js v1"
    if v2: "js v2 = js v1 \<and> variables v2 = variables v \<and> attributes v2 = attributes v \<and>
       version v2 = version v \<and> stack_ok v2 \<and> contents v2 = cnt # ix # zs \<and> opcode v2 = 0x59 \<and>
       arg 0 v2 = Some i" for v2 zs
  proof -
    have "bool_array i p ix n v2"
      using v1(4) v2 tables by (simp add: bool_array_def attr_get_def var_get_def)
    moreover have "field_length (version v2) cnt ix n" "holds p ix (map (bit x) [0 ..< n]) (js v2)"
      using v2 assms(6) v1(3) by simp_all
    ultimately obtain v3 where v3: "dispatch rd v2 = Some v3" "contents v3 = take_bit n x # zs"
      "off_stack v3 = off_stack v2"
      using psha_ok [of v2 cnt ix zs i p n x rd] v2 by blast
    then show ?thesis using off_stack_fields(1) [OF v3(3)] v2 by (intro exI [of _ v3]) simp
  qed
  moreover have "\<forall>b. (\<forall>k < n. b \<noteq> bit_addr p (ix + of_nat k)) \<longrightarrow> ld8 b (js v1) = ld8 b (js v)"
    using frame_byte [OF v1(6)] by blast
  ultimately show ?thesis using v1(1,2) by (intro exI [of _ v1]) simp
qed

text \<open>The variable 0 is a writable Boolean array at 0x5000, the variable 1 a constant one at 0x5100.\<close>

definition vm_bits :: "u8 \<Rightarrow> u32 list \<Rightarrow> vm" where
  "vm_bits oc xs = vm0\<lparr>js := load 0x7000 [0x09, 0x08] (load 0x6000 [0x00, 0x50, 0, 0, 0x00, 0x51, 0, 0]
       (load 0x5100 [0x5A, 0xA5, 0, 0] (load 0x5000 [0xFF, 0xFF, 0xFF, 0xFF] jbi0))),
     opcode := oc, variables := 0x6000, attributes := 0x7000,
     stack := rev xs @ replicate (128 - length xs) 0, stack_ptr := int (length xs)\<rparr>"

lemma vm_bits_facts:
  assumes "length xs \<le> 128"
  shows "stack_ok (vm_bits oc xs)" "contents (vm_bits oc xs) = xs" "opcode (vm_bits oc xs) = oc"
    "arg 0 (vm_bits oc xs) = Some 0" "arg 1 (vm_bits oc xs) = Some 0" "\<not> version (vm_bits oc xs)"
    "variables (vm_bits oc xs) = 0x6000" "attributes (vm_bits oc xs) = 0x7000"
  using assms
  by (simp_all add: vm_bits_def vm0_def initial_vm_def stack_ok_def JBI_STACK_SIZE_def contents_def arg_def
      arr_get_def)

lemma vm_bits_array: "bool_array 0 0x5000 4 5 (vm_bits oc xs)"
  by (simp add: bool_array_def vm_bits_def attr_get_def var_get_def ld32_def ld8_load le32_def mapped_bits_def
      get_bit_def all_less_simps bit_addr_def)

theorem popa_psha_roundtrip_witness:
  "\<exists>v1. dispatch (\<lambda>_. 0) (vm_bits 0x4F [5, 4, 0xF6]) = Some v1 \<and> contents v1 = [] \<and>
    (\<exists>v3. dispatch (\<lambda>_. 0) ((vm_bits 0x59 [5, 4])\<lparr>js := js v1\<rparr>) = Some v3 \<and> contents v3 = [0x16])"
proof -
  note f = vm_bits_facts [of "[5, 4, 0xF6]" "0x4F", simplified]
  have n: "field_length (version (vm_bits 0x4F [5, 4, 0xF6])) 5 4 5" using f(6) by (simp add: field_length_def)
  from popa_psha_roundtrip [OF f(1-4) vm_bits_array n, of "\<lambda>_. 0"] obtain v1 where
    v1: "dispatch (\<lambda>_. 0) (vm_bits 0x4F [5, 4, 0xF6]) = Some v1" "contents v1 = []"
      "\<And>v2 zs. js v2 = js v1 \<and> variables v2 = 0x6000 \<and> attributes v2 = 0x7000 \<and> version v2 = False \<and>
        stack_ok v2 \<and> contents v2 = 5 # 4 # zs \<and> opcode v2 = 0x59 \<and> arg 0 v2 = Some 0 \<Longrightarrow>
        \<exists>v3. dispatch (\<lambda>_. 0) v2 = Some v3 \<and> contents v3 = take_bit 5 0xF6 # zs \<and> js v3 = js v1"
    unfolding f(7,8) using f(6) by auto
  let ?v2 = "(vm_bits 0x59 [5, 4])\<lparr>js := js v1\<rparr>"
  note g = vm_bits_facts [of "[5, 4]" "0x59", simplified]
  have "stack_ok ?v2" "contents ?v2 = 5 # 4 # []" "arg 0 ?v2 = Some 0"
    using g(1,2,4) by (simp_all add: stack_ok_def contents_def arg_def)
  then have "\<exists>v3. dispatch (\<lambda>_. 0) ?v2 = Some v3 \<and> contents v3 = take_bit 5 0xF6 # [] \<and> js v3 = js v1"
    by (intro v1(3)) (use g in simp)
  then show ?thesis using v1(1,2) by auto
qed

end
