(* ===== verification/JbiMain.thy ===== *)
theory JbiMain imports JbiMessages JbiArrays begin

text \<open>
  The choice of the action by its name (jbimain.c) and the delay loop of the platform layer
  (jbistub.c).
\<close>

unbundle bit_operations_syntax

section \<open>Choosing the action\<close>

text \<open>
  The entries of the action table from number \<open>k\<close> on: for every action its name in the string
  table and the number of its first procedure.
\<close>

fun actions_at :: "u32 \<Rightarrow> (u8 list \<times> u32) list \<Rightarrow> vm \<Rightarrow> bool" where
  "actions_at k [] v \<longleftrightarrow> True"
| "actions_at k ((ys, p) # as) v \<longleftrightarrow>
     (\<exists>name. prog_dword (action_table v + 12 * k) v = Some name \<and>
        cstr (program v + (string_table v + name)) ys (js v)) \<and>
     prog_dword (action_table v + 12 * k + 8) v = Some p \<and> actions_at (k + 1) as v"

definition upper :: "u8 list \<Rightarrow> u8 list" where
  "upper xs = map jbi_toupper xs"

lemma find_action_ok:
  assumes "actions_at k as v" "cstr action xs (js v)"
  shows "find_action (length as) k action v =
    (case find (\<lambda>a. upper (fst a) = upper xs) as of
       None \<Rightarrow> Some (False, v) | Some a \<Rightarrow> Some (True, v\<lparr>current_proc := snd a\<rparr>))"
  using assms
proof (induction as arbitrary: k)
  case (Cons a as)
  obtain ys p where a: "a = (ys, p)" by (cases a)
  obtain name where name: "prog_dword (action_table v + 12 * k) v = Some name"
    "cstr (program v + (string_table v + name)) ys (js v)" and
    p: "prog_dword (action_table v + 12 * k + 8) v = Some p" and rest: "actions_at (k + 1) as v"
    using Cons.prems(1) unfolding a by auto
  obtain r where r: "jbi_stricmp action (program v + (string_table v + name)) (js v) = Some r"
    "r = 0 \<longleftrightarrow> upper xs = upper ys"
    using stricmp_ok [OF Cons.prems(2) name(2)] by (auto simp: upper_def)
  show ?case
    using name(1) p r Cons.IH [OF rest Cons.prems(2)] by (auto simp: a)
qed simp

text \<open>
  The action of a format 2 program is the first one of the table whose name is the requested
  one up to the case of letters: its first procedure is then selected; when there is none the run
  is over with \<open>ACTION_NOT_FOUND\<close>.
\<close>

theorem action_found_by_name:
  assumes "version v" "status v = JBIC_SUCCESS" "action \<noteq> 0" "cstr action xs (js v)"
    "actions_at 0 as v" "unat (action_count v) = length as"
  shows "select_action action v =
    (case find (\<lambda>a. upper (fst a) = upper xs) as of
       None \<Rightarrow> Some (v\<lparr>status := JBIC_ACTION_NOT_FOUND, finished := True\<rparr>)
     | Some a \<Rightarrow> first_proc (v\<lparr>current_proc := snd a\<rparr>))"
  using find_action_ok [OF assms(5,4)] assms(1-3,6)
  by (auto simp: select_action_def split: option.splits)

definition vm_actions :: vm where
  "vm_actions = vm0\<lparr>js := load 0x4000 (be32 0 @ be32 0 @ be32 7 @ be32 6 @ be32 0 @ be32 9)
       (load 0x5000 (map of_char ''ERASE'' @ [0] @ map of_char ''Program'' @ [0])
         (load 0x3000 (map of_char ''PROGRAM'' @ [0]) jbi0)),
     version := True, string_table := 0x1000, action_count := 2\<rparr>"

theorem action_found_by_name_witness:
  "select_action 0x3000 vm_actions = first_proc (vm_actions\<lparr>current_proc := 9\<rparr>)"
proof -
  have f: "version vm_actions" "status vm_actions = JBIC_SUCCESS" "unat (action_count vm_actions) = 2"
    by (simp_all add: vm_actions_def vm0_def initial_vm_def)
  have name: "cstr 0x3000 (map of_char ''PROGRAM'') (js vm_actions)"
    by (simp add: vm_actions_def cstr_simps ld8_load be32_def)
  have acts: "actions_at 0 [(map of_char ''ERASE'', 7), (map of_char ''Program'', 9)] vm_actions"
    by (simp add: vm_actions_def vm0_def initial_vm_def prog_dword_def GET_DWORD_def GET_BYTE_def be32_def
        ld8_load cstr_simps)
  show ?thesis
    using action_found_by_name [OF f(1,2) _ name acts] f(3) by (simp add: upper_def jbi_toupper_def)
qed

section \<open>Delays\<close>

primrec micros :: "wait \<Rightarrow> int" where
  "micros (MSLEEP n) = 1000 * n"
| "micros (UDELAY n) = n"

lemma short_delay:
  assumes "0 < count" "count \<le> 20000"
  shows "delay_loop count ic = short_wait count ic"
  using assms by (subst delay_loop.simps, subst delay_loop.simps) (auto simp: short_wait_def Let_def split: if_splits)

lemma short_wait_ok:
  assumes "0 \<le> count" "count \<le> 20000" "ic < 1024" "short_wait count ic = (ws, ic')"
  shows "sum_list (map micros ws) = count \<and> ic' < 1024 \<and> length ws \<le> 2 \<and> (\<forall>n. UDELAY n \<in> set ws \<longrightarrow> n \<le> 20000)"
proof -
  have u: "unat ic < 1024" using assms(3) by (simp add: word_less_nat_alt)
  have "ic + 1 < 1024" if "(ic + 1) mod 1024 \<noteq> 0"
  proof -
    have "unat (ic + 1) = unat ic + 1" using unat_add1_32 [of ic] u by simp
    moreover have "unat ic + 1 \<noteq> 1024"
    proof
      assume "unat ic + 1 = 1024"
      then have "ic + 1 = 1024" using \<open>unat (ic + 1) = unat ic + 1\<close> by (simp add: word_unat_eq_iff)
      then show False using that by simp
    qed
    ultimately show ?thesis using u by (simp add: word_less_nat_alt)
  qed
  then show ?thesis using assms by (auto simp: short_wait_def Let_def split: if_splits)
qed

text \<open>
  The delay loop ends for every count, after at most three waits, which add up to exactly the
  microseconds asked for; the processor is never held for more than 20 ms at a time, and the
  counter that gives up the processor every 1024 short waits stays below 1024.
\<close>

theorem delay_loop_exact:
  assumes "0 \<le> count" "ic < 1024"
  shows "\<exists>ws ic'. delay_loop count ic = (ws, ic') \<and> sum_list (map micros ws) = count \<and> length ws \<le> 3 \<and>
    ic' < 1024 \<and> (\<forall>n. UDELAY n \<in> set ws \<longrightarrow> n \<le> 20000)"
proof -
  have small: "\<exists>ws ic'. delay_loop c ic = (ws, ic') \<and> sum_list (map micros ws) = c \<and> length ws \<le> 2 \<and>
      ic' < 1024 \<and> (\<forall>n. UDELAY n \<in> set ws \<longrightarrow> n \<le> 20000)" if "0 \<le> c" "c \<le> 20000" for c
  proof (cases "c = 0")
    case True
    then show ?thesis using assms(2) by (simp add: delay_loop.simps)
  next
    case False
    obtain ws ic' where "short_wait c ic = (ws, ic')" by fastforce
    then show ?thesis
      using short_delay [of c ic] short_wait_ok [OF that assms(2)] False that by auto
  qed
  show ?thesis
  proof (cases "count \<le> 20000")
    case True
    then show ?thesis using small [OF assms(1) True] by fastforce
  next
    case False
    have c: "0 \<le> count mod 1000" "count mod 1000 \<le> 20000" using pos_mod_bound [of 1000 count] by simp_all
    obtain ws ic' where ws: "delay_loop (count mod 1000) ic = (ws, ic')" "sum_list (map micros ws) = count mod 1000"
      "length ws \<le> 2" "ic' < 1024" "\<forall>n. UDELAY n \<in> set ws \<longrightarrow> n \<le> 20000"
      using small [OF c] by blast
    have "delay_loop count ic = (MSLEEP (count div 1000) # ws, ic')"
      using False assms(1) ws(1) by (subst delay_loop.simps) simp
    then show ?thesis using ws by auto
  qed
qed

theorem delay_loop_exact_witness:
  "\<exists>ws ic'. delay_loop 1500250 1023 = (ws, ic') \<and> sum_list (map micros ws) = 1500250 \<and> length ws \<le> 3"
  using delay_loop_exact [of 1500250 1023] by auto

end
