(* ===== verification/JbiLoop.thy ===== *)
theory JbiLoop imports JbiFlow begin

text \<open>
  Counted loops of the player: a NEXT instruction with a body. The assertions about the body are indexed by
  the value of the loop variable, as in a Hoare logic with logical variables.
\<close>

unbundle bit_operations_syntax

section \<open>Stores of variables\<close>

text \<open>
  A store of a variable: the word is there, every other byte of the memory is as before.
\<close>

definition var_mapped :: "u32 \<Rightarrow> vm \<Rightarrow> bool" where
  "var_mapped i v \<longleftrightarrow> (\<forall>k < 4. ld8 (variables v + 4 * i + of_nat k) (js v) \<noteq> None)"

lemma st_bytes_fun: "st_bytes a (b # bs) = (\<lambda>s. st8 a b s \<bind> st_bytes (a + 1) bs)"
  by (rule ext) simp

lemma st32_ok:
  assumes "\<forall>k < 4. ld8 (a + of_nat k) s \<noteq> None"
  shows "\<exists>s'. st32 a x s = Some s' \<and> ld32 a s' = Some x \<and>
    (\<forall>b. (\<forall>k < 4. b \<noteq> a + of_nat k) \<longrightarrow> ld8 b s' = ld8 b s) \<and> (\<forall>b. ld8 b s' = None \<longleftrightarrow> ld8 b s = None)"
proof -
  let ?bs = "[byte_of 0 x, byte_of 1 x, byte_of 2 x, byte_of 3 x]"
  have e: "st32 a x s = st_bytes a ?bs s" by (simp add: st32_def add.assoc st_bytes_Nil st_bytes_fun del: st_bytes.simps)
  obtain s' where s': "st_bytes a ?bs s = Some s'"
    "\<And>b. (\<forall>l < length ?bs. b \<noteq> a + of_nat l) \<Longrightarrow> ld8 b s' = ld8 b s"
    "\<And>b. ld8 b s' = None \<longleftrightarrow> ld8 b s = None"
    using st_bytes_ok [of ?bs a s] assms by auto
  have "ld32 a s' = Some x" using ld32_st32 [of a x s s'] s'(1) e by simp
  then show ?thesis using s' e by auto
qed

lemma var_set_ok:
  assumes "var_mapped i v"
  shows "\<exists>j. var_set i x v = Some (v\<lparr>js := j\<rparr>) \<and> ld32 (variables v + 4 * i) j = Some x \<and>
    var_mapped i (v\<lparr>js := j\<rparr>) \<and>
    (\<forall>b. (\<forall>k < 4. b \<noteq> variables v + 4 * i + of_nat k) \<longrightarrow> ld8 b j = ld8 b (js v))"
proof -
  obtain j where "st32 (variables v + 4 * i) x (js v) = Some j" "ld32 (variables v + 4 * i) j = Some x"
    "\<forall>b. (\<forall>k < 4. b \<noteq> variables v + 4 * i + of_nat k) \<longrightarrow> ld8 b j = ld8 b (js v)"
    "\<forall>b. ld8 b j = None \<longleftrightarrow> ld8 b (js v) = None"
    using st32_ok [of "variables v + 4 * i" "js v" x] assms by (auto simp: var_mapped_def)
  then show ?thesis
    using assms by (intro exI [of _ j]) (simp add: var_set_def on_js_def var_mapped_def del: not_None_eq)
qed

text \<open>What a turn changes that stores the variable \<open>i\<close>: its word, the stack, and the fetch registers.\<close>

definition var_stored :: "u32 \<Rightarrow> vm \<Rightarrow> vm \<Rightarrow> bool" where
  "var_stored i v v' \<longleftrightarrow> machine v' = (machine v)\<lparr>js := js v'\<rparr> \<and>
     (\<forall>b. (\<forall>k < 4. b \<noteq> variables v + 4 * i + of_nat k) \<longrightarrow> ld8 b (js v') = ld8 b (js v))"

lemma var_stored_fields:
  assumes "var_stored i v v'"
  shows "program v' = program v" "variables v' = variables v" "code_section v' = code_section v"
    "debug_section v' = debug_section v"
  using assms by (cases v; cases v'; simp add: var_stored_def machine_def)+

lemma stored_machine:
  assumes "var_stored i v v1" "machine v' = machine v1"
  shows "var_stored i v v'"
  using assms(1) unfolding var_stored_def assms(2) machine_fields(1) [OF assms(2)] .

lemma stored_after:
  assumes "machine v1 = machine v" "var_stored i v1 v'"
  shows "var_stored i v v'"
  using assms(2) unfolding var_stored_def assms(1) machine_fields(1,3) [OF assms(1)] .

text \<open>Code and other variables that are apart from the word.\<close>

definition word_apart :: "u32 \<Rightarrow> u32 \<Rightarrow> nat \<Rightarrow> vm \<Rightarrow> bool" where
  "word_apart i p n v \<longleftrightarrow> (\<forall>k < n. \<forall>l < 4. p + of_nat k \<noteq> variables v + 4 * i + of_nat l)"

lemma stored_bytes:
  assumes "var_stored i v v'" "word_apart i p (length bs) v"
  shows "bytes_at p bs (js v') \<longleftrightarrow> bytes_at p bs (js v)"
  using assms by (simp add: bytes_at_def var_stored_def word_apart_def)

lemma ld32_bytes:
  assumes "\<And>k. k < 4 \<Longrightarrow> ld8 (a + of_nat k) s' = ld8 (a + of_nat k) s"
  shows "ld32 a s' = ld32 a s"
  using assms [of 0] assms [of 1] assms [of 2] assms [of 3] by (simp add: ld32_def)

lemma stored_other:
  assumes "var_stored i v v'" "word_apart i (variables v + 4 * j) 4 v"
  shows "var_env v' j = var_env v j" "var_mapped j v' = var_mapped j v"
proof -
  have k: "ld8 (variables v + 4 * j + of_nat k) (js v') = ld8 (variables v + 4 * j + of_nat k) (js v)" if "k < 4" for k
    using assms that by (simp add: var_stored_def word_apart_def)
  show "var_env v' j = var_env v j" using ld32_bytes [OF k] by (simp add: var_env_def var_get_def var_stored_fields(2) [OF assms(1)])
  show "var_mapped j v' = var_mapped j v" using k by (simp add: var_mapped_def var_stored_fields(2) [OF assms(1)])
qed

text \<open>POPV.\<close>

lemma step_popv:
  assumes v: "ready v" and code: "code_at (0x4D # be32 i @ bs) v" and c: "contents v = x # xs" and m: "var_mapped i v"
  shows "\<exists>v'. step rd v = Some v' \<and> ready v' \<and> contents v' = xs \<and> var_env v' i = Some x \<and> var_mapped i v' \<and>
    var_stored i v v' \<and> pc v' = pc v + 5"
proof -
  define v1 where "v1 = v\<lparr>opcode := 0x4D, opcode_address := pc v, pc := pc v + 5, args := (args v)[0 := i]\<rparr>"
  have f: "fetch v = Some v1"
    unfolding v1_def by (rule fetch_operand [OF code]) (use v in \<open>simp_all add: ready_def\<close>)
  have ok: "stack_ok v1" "contents v1 = x # xs" using v c by (simp_all add: v1_def ready_def stack_ok_def contents_def)
  obtain v2 where v2: "pop v1 = Some (x, v2)" "contents v2 = xs" "stack_ok v2" "off_stack v2 = off_stack v1" "stack_ptr v2 = stack_ptr v1 - 1"
    using pop_contents [OF ok] by blast
  note g = off_stack_fields [OF v2(4)]
  have "var_mapped i v2" using m g by (simp add: var_mapped_def v1_def)
  from var_set_ok [OF this, of x] obtain j where
    j: "var_set i x v2 = Some (v2\<lparr>js := j\<rparr>)" "ld32 (variables v2 + 4 * i) j = Some x" "var_mapped i (v2\<lparr>js := j\<rparr>)"
      "\<forall>b. (\<forall>k < 4. b \<noteq> variables v2 + 4 * i + of_nat k) \<longrightarrow> ld8 b j = ld8 b (js v2)" by blast
  let ?w = "v2\<lparr>js := j\<rparr>"
  have "arg 0 v1 = Some i" using v by (simp add: v1_def arg_def arr_get_def ready_def)
  then have d: "dispatch rd v1 = Some ?w"
    using v2(1) j(1) enough [OF ok(1), of 1] ok(2) by (simp add: v1_def dispatch_def op_popv_def)
  have r: "ready ?w" using v v2(3,5) g by (simp add: ready_def v1_def stack_ok_def)
  have a: "after_instruction ?w = ?w" by (rule after_instruction_ready) (use r in \<open>simp_all add: ready_def\<close>)
  have "machine v2 = machine v" using machine_off_stack [OF v2(4)] by (simp add: v1_def machine_def)
  moreover have "machine ?w = (machine v2)\<lparr>js := j\<rparr>" by (simp add: machine_def)
  ultimately have "var_stored i v ?w" using j(4) g by (simp add: var_stored_def v1_def)
  then show ?thesis using f d a r v2(2) j(2,3) g(4)
    by (intro exI [of _ ?w]) (simp add: step_def v1_def contents_def var_env_def var_get_def)
qed

section \<open>Counted loops\<close>

text \<open>The dispatch of NEXT on the three values step, end and start address.\<close>

lemma next_dispatch:
  assumes ok: "stack_ok v" and c: "contents v = st # en # tp # xs" and op: "opcode v = 0x44"
    and a: "arg 0 v = Some i" and it: "var_env v i = Some x" and m: "var_mapped i v" and pos: "0 < sint st"
  shows "sint en \<le> sint x \<Longrightarrow> dispatch rd v = Some (v\<lparr>stack_ptr := stack_ptr v - 3\<rparr>)"
    "sint x < sint en \<Longrightarrow> \<exists>j. dispatch rd v = Some (CHECK_PC (v\<lparr>js := j, pc := tp + code_section v\<rparr>)) \<and>
       ld32 (variables v + 4 * i) j = Some (x + st) \<and> var_mapped i (v\<lparr>js := j\<rparr>) \<and>
       (\<forall>b. (\<forall>k < 4. b \<noteq> variables v + 4 * i + of_nat k) \<longrightarrow> ld8 b j = ld8 b (js v))"
proof -
  have s: "stk (stack_ptr v - 1) v = Some st" "stk (stack_ptr v - 2) v = Some en" "stk (stack_ptr v - 3) v = Some tp"
    using stk_contents [OF ok, of 0] stk_contents [OF ok, of 1] stk_contents [OF ok, of 2] c
    by (simp_all add: algebra_simps)
  have e: "dispatch rd v = op_next v" using op by (simp add: dispatch_def)
  have g: "var_get i v = Some x" using it by (simp add: var_env_def)
  have b: "op_next v = (if sint en \<le> sint x then Some (v\<lparr>stack_ptr := stack_ptr v - 3\<rparr>)
      else do { v1 \<leftarrow> var_set i (x + st) v; Some (CHECK_PC (v1\<lparr>pc := tp + code_section v1\<rparr>)) })"
    unfolding op_next_def using enough [OF ok, of 3] c s a g pos by (simp add: Let_def)
  show "sint en \<le> sint x \<Longrightarrow> dispatch rd v = Some (v\<lparr>stack_ptr := stack_ptr v - 3\<rparr>)"
    using e b by simp
  assume "sint x < sint en"
  then show "\<exists>j. dispatch rd v = Some (CHECK_PC (v\<lparr>js := j, pc := tp + code_section v\<rparr>)) \<and>
       ld32 (variables v + 4 * i) j = Some (x + st) \<and> var_mapped i (v\<lparr>js := j\<rparr>) \<and>
       (\<forall>b. (\<forall>k < 4. b \<noteq> variables v + 4 * i + of_nat k) \<longrightarrow> ld8 b j = ld8 b (js v))"
    using e b var_set_ok [OF m, of "x + st"] by auto
qed

text \<open>
  The state of a loop: the variable \<open>i\<close> has the value \<open>x\<close>, the stack has the step, the end and the address of the
  body \<open>bd\<close> on top, and a NEXT for \<open>i\<close> stands at \<open>nx\<close>, apart from the variable's word.
\<close>

definition loop_state :: "u32 \<Rightarrow> u32 \<Rightarrow> u32 \<Rightarrow> u32 \<Rightarrow> u32 \<Rightarrow> u32 \<Rightarrow> u32 list \<Rightarrow> vm \<Rightarrow> bool" where
  "loop_state i x st en bd nx xs v \<longleftrightarrow> ready v \<and> bytes_at (program v + nx) (0x44 # be32 i) (js v) \<and>
     contents v = st # en # (bd - code_section v) # xs \<and> code_section v \<le> bd \<and> bd < debug_section v \<and>
     var_env v i = Some x \<and> var_mapped i v \<and> word_apart i (program v + nx) 5 v"

lemma next_step:
  assumes l: "loop_state i x st en bd nx xs v" "pc v = nx" and pos: "0 < sint st"
  shows "sint en \<le> sint x \<Longrightarrow> \<exists>v'. step rd v = Some v' \<and> ready v' \<and> contents v' = xs \<and> machine v' = machine v \<and> pc v' = nx + 5"
    "sint x < sint en \<Longrightarrow> \<exists>v'. step rd v = Some v' \<and> loop_state i (x + st) st en bd nx xs v' \<and> pc v' = bd \<and> var_stored i v v'"
proof -
  define v1 where "v1 = v\<lparr>opcode := 0x44, opcode_address := pc v, pc := pc v + 5, args := (args v)[0 := i]\<rparr>"
  note L = l(1) [unfolded loop_state_def]
  have v1: "stack_ok v1" "contents v1 = st # en # (bd - code_section v) # xs" "opcode v1 = 0x44"
    "arg 0 v1 = Some i" "var_env v1 i = Some x" "var_mapped i v1"
    using L by (simp_all add: v1_def ready_def stack_ok_def contents_def arg_def arr_get_def var_env_def
        var_get_def var_mapped_def)
  note d = next_dispatch [OF v1 pos, of rd]
  have "code_at (0x44 # be32 i @ []) v" using L l(2) by (simp add: code_at_def)
  then have f: "fetch v = Some v1" unfolding v1_def by (rule fetch_operand) (use L in \<open>simp_all add: ready_def\<close>)
  show "\<exists>v'. step rd v = Some v' \<and> ready v' \<and> contents v' = xs \<and> machine v' = machine v \<and> pc v' = nx + 5"
    if "sint en \<le> sint x"
  proof -
    let ?w = "v1\<lparr>stack_ptr := stack_ptr v1 - 3\<rparr>"
    have t1: "contents (v1\<lparr>stack_ptr := stack_ptr v1 - 1\<rparr>) = en # (bd - code_section v) # xs"
      "stack_ok (v1\<lparr>stack_ptr := stack_ptr v1 - 1\<rparr>)" using drop_top [OF v1(1,2)] by simp_all
    have t2: "contents (v1\<lparr>stack_ptr := stack_ptr v1 - 2\<rparr>) = (bd - code_section v) # xs"
      "stack_ok (v1\<lparr>stack_ptr := stack_ptr v1 - 2\<rparr>)" using drop_top [OF t1(2,1)] by simp_all
    have w: "contents ?w = xs" "stack_ok ?w" using drop_top [OF t2(2,1)] by simp_all
    have "ready ?w" using L w(2) by (simp add: ready_def v1_def)
    moreover have "after_instruction ?w = ?w"
      by (rule after_instruction_ready) (use \<open>ready ?w\<close> in \<open>simp_all add: ready_def\<close>)
    moreover have "machine ?w = machine v" "pc ?w = nx + 5" by (simp_all add: machine_def v1_def l(2))
    ultimately show ?thesis using f d(1) [OF that] w(1) by (simp add: step_def)
  qed
  show "\<exists>v'. step rd v = Some v' \<and> loop_state i (x + st) st en bd nx xs v' \<and> pc v' = bd \<and> var_stored i v v'"
    if lt: "sint x < sint en"
  proof -
    obtain j where j: "dispatch rd v1 = Some (CHECK_PC (v1\<lparr>js := j, pc := bd - code_section v + code_section v1\<rparr>))"
      "ld32 (variables v1 + 4 * i) j = Some (x + st)" "var_mapped i (v1\<lparr>js := j\<rparr>)"
      "\<And>b. (\<forall>k < 4. b \<noteq> variables v1 + 4 * i + of_nat k) \<Longrightarrow> ld8 b j = ld8 b (js v1)"
      using d(2) [OF lt] by blast
    let ?w = "v1\<lparr>js := j, pc := bd\<rparr>"
    have "\<not> (bd < code_section v \<or> debug_section v \<le> bd)" using L by auto
    then have d': "dispatch rd v1 = Some ?w" using j(1) by (simp add: CHECK_PC_def v1_def)
    have r: "ready ?w" using L by (simp add: ready_def v1_def stack_ok_def)
    have a: "after_instruction ?w = ?w"
      by (rule after_instruction_ready) (use r in \<open>simp_all add: ready_def\<close>)
    have s: "var_stored i v ?w" using j(4) by (simp add: var_stored_def machine_def v1_def)
    have "word_apart i (program v + nx) (length (0x44 # be32 i)) v" using L by (simp add: be32_def numeral_eq_Suc)
    then have "bytes_at (program v + nx) (0x44 # be32 i) (js ?w)" using stored_bytes [OF s] L by blast
    then have "loop_state i (x + st) st en bd nx xs ?w"
      using L r j(2,3) by (simp add: loop_state_def v1_def contents_def var_env_def var_get_def var_mapped_def word_apart_def)
    then show ?thesis using f d' a s by (intro exI [of _ ?w]) (simp add: step_def)
  qed
qed

lemma sint_add_small:
  assumes "- 2147483648 \<le> sint a + sint b" "sint a + sint b < 2147483648"
  shows "sint (a + b :: u32) = sint a + sint b"
proof -
  have "sint (a + b) = signed_take_bit 31 (sint a + sint b)" by (simp add: sint_word_ariths)
  also have "\<dots> = sint a + sint b" by (rule signed_take_bit_int_eq_self) (use assms in simp_all)
  finally show ?thesis .
qed

text \<open>
  The rule for a loop: \<open>J y\<close> holds at the body and \<open>K y\<close> at NEXT when the variable has the value \<open>y\<close>; the body runs from one to
  the other and leaves the variable, the loop values and NEXT alone.
\<close>

lemma loop_ends:
  assumes "loop_state i x st en bd nx xs v" "pc v = bd" "J x v"
    and body: "\<And>y w. loop_state i y st en bd nx xs w \<Longrightarrow> pc w = bd \<Longrightarrow> J y w \<Longrightarrow>
      \<exists>m w'. steps rd m w = Some w' \<and> loop_state i y st en bd nx xs w' \<and> pc w' = nx \<and> K y w'"
    and again: "\<And>y w w'. K y w \<Longrightarrow> sint y < sint en \<Longrightarrow> var_stored i w w' \<Longrightarrow> J (y + st) w'"
    and pos: "0 < sint st" and room: "sint en + sint st \<le> 2147483648"
  shows "\<exists>n m v' w r. steps rd m v = Some w \<and> loop_state i r st en bd nx xs w \<and> pc w = nx \<and> K r w \<and>
    step rd w = Some v' \<and> ready v' \<and> contents v' = xs \<and> machine v' = machine w \<and> pc v' = nx + 5 \<and>
    sint r = sint x + int n * sint st \<and> sint en \<le> sint r \<and> (n = 0 \<or> sint r < sint en + sint st)"
  using assms(1-3)
proof (induction "nat (sint en - sint x)" arbitrary: x v rule: less_induct)
  case less
  obtain m w where w: "steps rd m v = Some w" "loop_state i x st en bd nx xs w" "pc w = nx" "K x w"
    using body [OF less.prems] by blast
  show ?case
  proof (cases "sint en \<le> sint x")
    case True
    then obtain v' where "step rd w = Some v'" "ready v'" "contents v' = xs" "machine v' = machine w" "pc v' = nx + 5"
      using next_step(1) [OF w(2,3) pos] by blast
    then show ?thesis using w True by (intro exI [of _ 0] exI [of _ m] exI [of _ v'] exI [of _ w] exI [of _ x]) simp
  next
    case False
    then obtain v1 where v1: "step rd w = Some v1" "loop_state i (x + st) st en bd nx xs v1" "pc v1 = bd" "var_stored i w v1"
      using next_step(2) [OF w(2,3) pos, of rd] by auto
    have s: "sint (x + st) = sint x + sint st"
      by (rule sint_add_small) (use False pos room sint32_bounds [of x] in linarith)+
    then have lt: "nat (sint en - sint (x + st)) < nat (sint en - sint x)" using False pos by simp
    have "J (x + st) v1" using again [OF w(4) _ v1(4)] False by simp
    from less.hyps [OF lt v1(2,3) this] obtain n m' v' w' r where
      r: "steps rd m' v1 = Some w'" "loop_state i r st en bd nx xs w'" "pc w' = nx" "K r w'" "step rd w' = Some v'" "ready v'"
        "contents v' = xs" "machine v' = machine w'" "pc v' = nx + 5"
        "sint r = sint (x + st) + int n * sint st" "sint en \<le> sint r" "n = 0 \<or> sint r < sint en + sint st"
      by blast
    have "ready w" using w(2) by (simp add: loop_state_def)
    from steps_trans [OF w(1) steps_trans [OF steps_one [OF this v1(1)] r(1)]]
    have "steps rd (m + (1 + m')) v = Some w'" .
    moreover have "sint r = sint x + int (Suc n) * sint st" using r(10) s by (simp add: algebra_simps)
    moreover have "sint r < sint en + sint st" using r(10,12) s False by auto
    ultimately show ?thesis using r(2-9,11)
      by (intro exI [of _ "Suc n"] exI [of _ "m + (1 + m')"] exI [of _ v'] exI [of _ w'] exI [of _ r]) simp
  qed
qed

text \<open>
  C15. A counted loop ends. Take a body that, from every state of the loop in which \<open>J y\<close> holds, where \<open>y\<close> is
  the value of the loop variable, runs to the NEXT with \<open>K y\<close>, leaving the loop variable, the
  three loop values on the stack and the NEXT itself as they are, and a \<open>K\<close> that gives \<open>J\<close> for the next value once the
  variable's word is stored. If the step is positive and the end value plus the step is at most two to
  the 31 (beyond that the addition wraps and the loop can go on for ever), the loop terminates: the run
  comes to the NEXT with \<open>K r\<close>, where \<open>r\<close> is the first of the values \<open>x\<close>, \<open>x\<close> plus the step, and so on, that is at least the end value,
  and goes on behind the NEXT with the variable at \<open>r\<close> and the loop values dropped. The body may itself be a loop.
\<close>

theorem counted_loop_ends:
  assumes "loop_state i x st en bd nx xs v" "pc v = bd" "J x v"
    "\<forall>y w. loop_state i y st en bd nx xs w \<and> pc w = bd \<and> J y w \<longrightarrow>
      (\<exists>m w'. steps rd m w = Some w' \<and> loop_state i y st en bd nx xs w' \<and> pc w' = nx \<and> K y w')"
    "\<forall>y w w'. K y w \<and> sint y < sint en \<and> var_stored i w w' \<longrightarrow> J (y + st) w'"
    "0 < sint st" "sint en + sint st \<le> 2147483648"
  shows "\<exists>n m v' w r. steps rd m v = Some w \<and> pc w = nx \<and> K r w \<and>
    steps rd (m + 1) v = Some v' \<and> machine v' = machine w \<and> contents v' = xs \<and> var_env v' i = Some r \<and> pc v' = nx + 5 \<and>
    sint r = sint x + int n * sint st \<and> sint en \<le> sint r \<and> (n = 0 \<or> sint r < sint en + sint st)"
proof -
  obtain n m v' w r where r: "steps rd m v = Some w" "loop_state i r st en bd nx xs w" "pc w = nx" "K r w" "step rd w = Some v'"
    "contents v' = xs" "machine v' = machine w" "pc v' = nx + 5"
    "sint r = sint x + int n * sint st" "sint en \<le> sint r" "n = 0 \<or> sint r < sint en + sint st"
    using loop_ends [of i x st en bd nx xs v J rd K] assms by blast
  have "ready w" "var_env w i = Some r" using r(2) by (simp_all add: loop_state_def)
  then show ?thesis using r steps_trans [OF r(1) steps_one [OF _ r(5)]] var_env_machine [OF r(7)]
    by (intro exI [of _ n] exI [of _ m] exI [of _ v'] exI [of _ w] exI [of _ r]) simp
qed

text \<open>A loop that adds its variable, 1, 5, 9 and 13, to the variable 1.\<close>

definition sum_expr :: expr where "sum_expr = Binary ADD (Variable 1) (Variable 0)"

definition sum_body :: "u8 list" where "sum_body = compile sum_expr @ 0x4D # be32 1"

definition vm_sum :: vm where
  "vm_sum = vm0\<lparr>js := load 0x4000 (sum_body @ 0x44 # be32 0) (load 0x6000 [1, 0, 0, 0, 0, 0, 0, 0] jbi0),
      variables := 0x6000, debug_section := 0x100, stack := [0, 10, 4] @ replicate 125 0, stack_ptr := 3\<rparr>"

definition sum_at :: "(u32 \<times> u32) list \<Rightarrow> u32 \<Rightarrow> vm \<Rightarrow> bool" where
  "sum_at ps y w \<longleftrightarrow> program w = 0x4000 \<and> variables w = 0x6000 \<and> bytes_at 0x4000 sum_body (js w) \<and> var_mapped 1 w \<and>
     (\<exists>t. var_env w 1 = Some t \<and> (y, t) \<in> set ps)"

abbreviation "sums_before \<equiv> [(1, 0), (5, 1), (9, 6), (13, 15)]"
abbreviation "sums_after \<equiv> [(1, 1), (5, 6), (9, 15), (13, 28)]"

lemma sum_body_length: "length sum_body = 16" "length (compile sum_expr) = 11"
  by (simp_all add: sum_body_def sum_expr_def instr_bytes_def be32_def)

lemma be32_length: "length (be32 x) = 4"
  by (simp add: be32_def)

lemma sum_apart:
  "variables w = 0x6000 \<Longrightarrow> word_apart 1 0x4000 16 w" "variables w = 0x6000 \<Longrightarrow> word_apart 0 0x4000 16 w"
  "variables w = 0x6000 \<Longrightarrow> word_apart 1 0x4010 5 w" "variables w = 0x6000 \<Longrightarrow> word_apart 0 0x4010 5 w"
  "variables w = 0x6000 \<Longrightarrow> word_apart 1 0x6000 4 w" "variables w = 0x6000 \<Longrightarrow> word_apart 0 0x6004 4 w"
  by (simp_all add: word_apart_def all_less_simps)

lemma sum_body_runs:
  assumes "loop_state 0 y 4 10 0 16 [] w" "pc w = 0" "sum_at sums_before y w"
  shows "\<exists>m w'. steps rd m w = Some w' \<and> loop_state 0 y 4 10 0 16 [] w' \<and> pc w' = 16 \<and> sum_at sums_after y w'"
proof -
  note L = assms(1) [unfolded loop_state_def] and J = assms(3) [unfolded sum_at_def]
  obtain t where t: "var_env w 1 = Some t" "(y, t) \<in> set sums_before" using J by blast
  have code: "code_at (compile sum_expr @ (0x4D # be32 1 @ [])) w"
    using J assms(2) by (simp add: code_at_def sum_body_def)
  have "eval (var_env w) sum_expr = Some (t + y)" using L t(1) by (simp add: sum_expr_def)
  moreover have "length (contents w) + depth sum_expr < JBI_STACK_SIZE" using L by (simp add: sum_expr_def JBI_STACK_SIZE_def)
  ultimately obtain w1 where w1: "steps rd (instructions sum_expr) w = Some w1" "ready w1" "contents w1 = (t + y) # contents w"
    "machine w1 = machine w" "pc w1 = 11"
    using compile_correct [of w sum_expr "0x4D # be32 1 @ []" "t + y" rd] L code assms(2) by (auto simp: sum_body_length)
  have "pc w1 = pc w + of_nat (length (compile sum_expr))" by (simp add: w1(5) assms(2) sum_body_length)
  note code1 = code_at_append(2) [OF code w1(4) this]
  have "var_mapped 1 w1" using J unfolding var_mapped_def machine_fields(1,3) [OF w1(4)] by blast
  from step_popv [OF w1(2) code1 w1(3) this, of rd] obtain w2 where
    w2: "step rd w1 = Some w2" "ready w2" "contents w2 = contents w" "var_env w2 1 = Some (t + y)" "var_mapped 1 w2"
      "var_stored 1 w1 w2" "pc w2 = 16" using w1(5) by auto
  have s: "var_stored 1 w w2" by (rule stored_after [OF w1(4) w2(6)])
  note f = var_stored_fields [OF s]
  have v: "variables w = 0x6000" "program w = 0x4000" using J by simp_all
  have "bytes_at 0x4010 (0x44 # be32 0) (js w2)" "bytes_at 0x4000 sum_body (js w2)"
    using stored_bytes [where p = "0x4010" and bs = "0x44 # be32 0", OF s] stored_bytes [where p = "0x4000" and bs = sum_body, OF s] L J sum_apart(1,3) [OF v(1)] v(2)
    by (simp_all add: be32_length sum_body_length)
  moreover have "var_env w2 0 = Some y" "var_mapped 0 w2"
    using stored_other [OF s, of 0] sum_apart(5) [OF v(1)] v(1) L by simp_all
  moreover have "(y, t + y) \<in> set sums_after" using t(2) by auto
  ultimately have "loop_state 0 y 4 10 0 16 [] w2" "sum_at sums_after y w2"
    using L w2(2-5) f v sum_apart(4) [of w2] by (simp_all add: loop_state_def sum_at_def)
  then show ?thesis using steps_trans [OF w1(1) steps_one [OF w1(2) w2(1)]] w2(7) by blast
qed

lemma sum_body_again:
  assumes "sum_at sums_after y w" "sint y < 10" "var_stored 0 w w'"
  shows "sum_at sums_before (y + 4) w'"
proof -
  note K = assms(1) [unfolded sum_at_def]
  obtain t where t: "var_env w 1 = Some t" "(y, t) \<in> set sums_after" using K by blast
  have "(y + 4, t) \<in> set sums_before" using t(2) assms(2) by auto
  moreover have "bytes_at 0x4000 sum_body (js w')"
    using stored_bytes [where p = "0x4000" and bs = sum_body, OF assms(3)] sum_apart(2) [of w] K by (simp add: sum_body_length)
  moreover have "var_env w' 1 = Some t" "var_mapped 1 w'"
    using stored_other [OF assms(3), of 1] sum_apart(6) [of w] K t(1) by simp_all
  ultimately show ?thesis using K var_stored_fields [OF assms(3)] by (simp add: sum_at_def)
qed

lemma sum_starts: "loop_state 0 1 4 10 0 16 [] vm_sum" "pc vm_sum = 0" "sum_at sums_before 1 vm_sum"
proof -
  have fields: "program vm_sum = 0x4000" "pc vm_sum = 0" "code_section vm_sum = 0" "debug_section vm_sum = 0x100"
    "variables vm_sum = 0x6000" "contents vm_sum = [4, 10, 0]"
    by (simp_all add: vm_sum_def vm0_def initial_vm_def contents_def)
  show "pc vm_sum = 0" by (rule fields)
  have "bytes_at 0x4000 (sum_body @ 0x44 # be32 0) (js vm_sum)"
    by (simp add: vm_sum_def bytes_at_load sum_body_length be32_def)
  then have "bytes_at 0x4000 sum_body (js vm_sum)" "bytes_at 0x4010 (0x44 # be32 0) (js vm_sum)"
    by (simp_all add: bytes_at_append sum_body_length)
  moreover have "ready vm_sum"
    by (simp add: ready_def vm_sum_def vm0_def initial_vm_def stack_ok_def JBI_STACK_SIZE_def)
  moreover have "var_env vm_sum 0 = Some 1" "var_env vm_sum 1 = Some 0" "var_mapped 0 vm_sum" "var_mapped 1 vm_sum"
    by (simp_all add: var_env_def var_get_def var_mapped_def ld32_def vm_sum_def ld8_load sum_body_length be32_def le32_def all_less_simps)
  ultimately show "loop_state 0 1 4 10 0 16 [] vm_sum" "sum_at sums_before 1 vm_sum"
    using fields sum_apart(4) [OF fields(5)] by (simp_all add: loop_state_def sum_at_def)
qed

theorem counted_loop_ends_witness:
  "\<exists>m v'. steps (\<lambda>_. 0) (m + 1) vm_sum = Some v' \<and> contents v' = [] \<and> var_env v' 0 = Some 13 \<and> var_env v' 1 = Some 28 \<and> pc v' = 21"
proof -
  have body: "\<forall>y w. loop_state 0 y 4 10 0 16 [] w \<and> pc w = 0 \<and> sum_at sums_before y w \<longrightarrow>
      (\<exists>m w'. steps (\<lambda>_. 0) m w = Some w' \<and> loop_state 0 y 4 10 0 16 [] w' \<and> pc w' = 16 \<and> sum_at sums_after y w')"
    using sum_body_runs by blast
  have again: "\<forall>y w w'. sum_at sums_after y w \<and> sint y < sint (10 :: u32) \<and> var_stored 0 w w' \<longrightarrow> sum_at sums_before (y + 4) w'"
    using sum_body_again by simp blast
  obtain n m v' w r where r: "sum_at sums_after r w" "steps (\<lambda>_. 0) (m + 1) vm_sum = Some v'" "machine v' = machine w" "contents v' = []"
    "var_env v' 0 = Some r" "pc v' = 16 + 5" "sint r = sint (1 :: u32) + int n * sint (4 :: u32)" "sint (10 :: u32) \<le> sint r"
    "n = 0 \<or> sint r < sint (10 :: u32) + sint (4 :: u32)"
    using counted_loop_ends [OF sum_starts body again] by fastforce
  have "n = 3" using r(7-9) by simp
  then have "sint r = sint (13 :: u32)" using r(7) by simp
  then have r13: "r = 13" by (rule signed_word_eqI)
  then have "var_env w 1 = Some 28" using r(1) by (auto simp: sum_at_def)
  then have "var_env v' 1 = Some 28" using var_env_machine [OF r(3)] by simp
  then show ?thesis using r(2,4-6) unfolding r13 by (intro exI [of _ m] exI [of _ v']) (simp del: steps.simps)
qed

end
