(* ===== verification/JbiCrc.thy ===== *)
theory JbiCrc imports JbiSample JbiText begin

text \<open>
  The CRC of the program file: \<open>jbi_check_crc\<close> computes the remainder a linear feedback shift
  register leaves over the bits of the file, and a file whose CRC matches is rejected after any
  change confined to 16 consecutive bits.
\<close>

unbundle bit_operations_syntax

section \<open>The shift register\<close>

text \<open>The reference definition: one message bit, and a list of them.\<close>

definition lfsr :: "bool \<Rightarrow> u16 \<Rightarrow> u16" where
  "lfsr b r = (if b \<noteq> bit r 0 then drop_bit 1 r XOR 0x8408 else drop_bit 1 r)"

definition lfsr_run :: "bool list \<Rightarrow> u16 \<Rightarrow> u16" where
  "lfsr_run bs r = fold lfsr bs r"

definition byte_bits :: "u8 list \<Rightarrow> bool list" where
  "byte_bits xs = concat (map (bits_of 8) xs)"

definition crc16 :: "u8 list \<Rightarrow> u16" where
  "crc16 xs = NOT (lfsr_run (byte_bits xs) 0xFFFF)"

lemma lfsr_run_simps [simp]:
  "lfsr_run [] r = r" "lfsr_run (b # bs) r = lfsr_run bs (lfsr b r)"
  "lfsr_run (as @ bs) r = lfsr_run bs (lfsr_run as r)"
  by (simp_all add: lfsr_run_def)

lemma byte_bits_simps [simp]:
  "byte_bits [] = []" "byte_bits (x # xs) = bits_of 8 x @ byte_bits xs"
  by (simp_all add: byte_bits_def)

subsection \<open>The code computes it\<close>

lemma and_1_bit0: "w AND 1 \<noteq> 0 \<longleftrightarrow> bit w 0" for w :: "'a :: len word"
proof -
  have "(w AND push_bit 0 1 \<noteq> 0) = bit w 0" by (rule bit_iff_and_push_bit_not_eq_0 [symmetric])
  then show ?thesis by simp
qed

lemma crc_bit_lfsr: "crc_bit (d, r) = (drop_bit 1 d, lfsr (bit d 0) r)"
proof -
  have "((ucast d XOR r) AND 1 \<noteq> 0) = (bit d 0 \<noteq> bit r 0)"
    unfolding and_1_bit0 by (simp add: bit_simps)
  then show ?thesis by (simp add: crc_bit_def lfsr_def Let_def)
qed

lemma crc_bits_lfsr: "(crc_bit ^^ n) (d, r) = (drop_bit n d, lfsr_run (bits_of n d) r)"
proof (induction n)
  case 0
  then show ?case by (simp add: bits_of_def)
next
  case (Suc n)
  have "bits_of (Suc n) d = bits_of n d @ [bit d n]" by (simp add: bits_of_def)
  then show ?case using Suc by (simp add: crc_bit_lfsr bit_drop_bit_eq)
qed

lemma crc_byte_lfsr: "crc_byte d r = lfsr_run (bits_of 8 d) r"
  by (simp add: crc_byte_def crc_bits_lfsr)

lemma crc_loop_lfsr:
  assumes "\<And>k. k < length xs \<Longrightarrow> GET_BYTE p (i + of_nat k) s = Some (xs ! k)"
  shows "crc_loop p (length xs) i r s = Some (lfsr_run (byte_bits xs) r)"
  using assms
proof (induction xs arbitrary: i r)
  case Nil
  then show ?case by simp
next
  case (Cons x xs)
  have "GET_BYTE p i s = Some x" using Cons.prems [of 0] by simp
  moreover have "GET_BYTE p (i + 1 + of_nat k) s = Some (xs ! k)" if "k < length xs" for k
    using Cons.prems [of "Suc k"] that by (simp add: ac_simps)
  ultimately show ?case using Cons.IH [of "i + 1"] by (simp add: crc_byte_lfsr)
qed

subsection \<open>Linearity\<close>

lemma lfsr_xor: "lfsr (a = (\<not> b)) (q XOR r) = lfsr a q XOR lfsr b r"
  by (rule bit_word_eqI) (auto simp: lfsr_def bit_simps)

lemma lfsr_run_xor:
  "length as = length bs \<Longrightarrow>
    lfsr_run (map2 (\<noteq>) as bs) (q XOR r) = lfsr_run as q XOR lfsr_run bs r"
  by (induction as bs arbitrary: q r rule: list_induct2) (simp_all add: lfsr_xor)

text \<open>The top bit of the polynomial makes a shift reversible, so no difference is ever lost.\<close>

lemma lfsr_0: "lfsr False r = 0 \<longleftrightarrow> r = 0"
proof
  assume z: "lfsr False r = 0"
  have b0: "\<not> bit r 0"
  proof
    assume "bit r 0"
    then have "drop_bit 1 r XOR 0x8408 = 0" using z by (simp add: lfsr_def)
    then have "bit (drop_bit 1 r XOR 0x8408) 15 = bit (0 :: u16) 15" by simp
    moreover have "\<not> bit (drop_bit 1 r) 15"
      using bit_imp_le_length [of r 16] by (auto simp: bit_drop_bit_eq)
    moreover have "bit (0x8408 :: u16) 15" by simp
    ultimately show False by (simp add: bit_xor_iff)
  qed
  then have "drop_bit 1 r = 0" using z by (simp add: lfsr_def)
  then have hi: "\<not> bit r (Suc k)" for k
  proof -
    have "bit (drop_bit 1 r) k = bit (0 :: u16) k" using \<open>drop_bit 1 r = 0\<close> by simp
    then show ?thesis by (simp add: bit_drop_bit_eq)
  qed
  show "r = 0"
  proof (rule bit_word_eqI)
    fix k show "bit r k = bit 0 k" using b0 hi by (cases k) simp_all
  qed
next
  show "r = 0 \<Longrightarrow> lfsr False r = 0" by (simp add: lfsr_def)
qed

lemma lfsr_run_0: "lfsr_run (replicate n False) r = 0 \<longleftrightarrow> r = 0"
  by (induction n arbitrary: r) (simp_all add: lfsr_0)

text \<open>
  Feeding at most 16 bits is the same as adding them to the register first and then shifting.
\<close>

definition word_of_bits :: "bool list \<Rightarrow> u16" where
  "word_of_bits bs = horner_sum of_bool 2 bs"

lemma bit_word_of_bits: "bit (word_of_bits bs) k \<longleftrightarrow> k < 16 \<and> k < length bs \<and> bs ! k"
  by (auto simp: word_of_bits_def bit_horner_sum_bit_word_iff)

lemma lfsr_feed:
  assumes "length ds < 16"
  shows "lfsr d r XOR word_of_bits ds = lfsr False (r XOR word_of_bits (d # ds))"
proof (rule bit_word_eqI)
  fix k :: nat assume k: "k < LENGTH(16)"
  have "bit (word_of_bits (d # ds)) (Suc k) = bit (word_of_bits ds) k" "bit (word_of_bits (d # ds)) 0 = d"
    using assms k by (auto simp: bit_word_of_bits)
  then show "bit (lfsr d r XOR word_of_bits ds) k = bit (lfsr False (r XOR word_of_bits (d # ds))) k"
    using k by (auto simp: lfsr_def bit_simps)
qed

lemma lfsr_run_feed:
  "length ds \<le> 16 \<Longrightarrow>
    lfsr_run ds r = lfsr_run (replicate (length ds) False) (r XOR word_of_bits ds)"
proof (induction ds arbitrary: r)
  case Nil
  then show ?case by (simp add: word_of_bits_def)
next
  case (Cons d ds)
  then show ?case using lfsr_feed [of ds d r] by simp
qed

lemma word_of_bits_0:
  assumes "word_of_bits ds = 0" "length ds \<le> 16"
  shows "ds = replicate (length ds) False"
proof (rule nth_equalityI)
  fix k assume "k < length ds"
  moreover have "\<not> bit (word_of_bits ds) k" using assms(1) by simp
  ultimately show "ds ! k = replicate (length ds) False ! k"
    using assms(2) by (simp add: bit_word_of_bits)
qed simp

lemma map2_neq_same: "map2 (\<lambda>x y. x = (\<not> y)) xs xs = replicate (length xs) False"
  by (induction xs) simp_all

text \<open>A burst of at most 16 bits changes the register.\<close>

lemma lfsr_burst:
  assumes "length as = length bs" "length as \<le> 16" "as \<noteq> bs"
  shows "lfsr_run (pre @ as @ suf) r \<noteq> lfsr_run (pre @ bs @ suf) r"
proof
  assume eq: "lfsr_run (pre @ as @ suf) r = lfsr_run (pre @ bs @ suf) r"
  let ?x = "lfsr_run pre r" and ?ds = "map2 (\<lambda>x y. x = (\<not> y)) as bs"
  have len: "length ?ds = length as" using assms(1) by simp
  have "lfsr_run (map2 (\<lambda>x y. x = (\<not> y)) (as @ suf) (bs @ suf)) (?x XOR ?x) = 0"
    using lfsr_run_xor [of "as @ suf" "bs @ suf" ?x ?x] assms(1) eq by simp
  then have "lfsr_run (replicate (length suf) False) (lfsr_run ?ds 0) = 0"
    using assms(1) by (simp add: map2_neq_same)
  then have "lfsr_run ?ds 0 = 0" by (simp add: lfsr_run_0)
  then have "word_of_bits ?ds = 0"
    using lfsr_run_feed [of ?ds 0] assms(1,2) by (simp add: lfsr_run_0)
  then have z: "?ds = replicate (length as) False" using word_of_bits_0 [of ?ds] assms(1,2) len by simp
  have "as = bs"
  proof (rule nth_equalityI [OF assms(1)])
    fix k assume k: "k < length as"
    have "?ds ! k = replicate (length as) False ! k" using z by (rule arg_cong)
    then show "as ! k = bs ! k" using k assms(1) by simp
  qed
  with assms(3) show False ..
qed

section \<open>The check of a file\<close>

text \<open>
  A program file with a readable header: the bytes \<open>body\<close> before the CRC section, and the CRC
  \<open>stored\<close> in it.
\<close>

definition crc_file :: "u32 \<Rightarrow> u32 \<Rightarrow> u8 list \<Rightarrow> u16 \<Rightarrow> jbi \<Rightarrow> bool" where
  "crc_file p n body stored s \<longleftrightarrow> sint n > 52 \<and> of_nat (length body) < n \<and> length body < 4294967296 \<and>
     (\<exists>w. GET_DWORD p 0 s = Some w \<and> (w = 0x4A414D00 \<or> w = 0x4A414D01) \<and>
       GET_DWORD p (32 + (w AND 1) * 8) s = Some (of_nat (length body))) \<and>
     GET_WORD p (of_nat (length body)) s = Some stored \<and> bytes_at p body s"

lemma check_crc_file:
  assumes "crc_file p n body stored s"
  shows "jbi_check_crc p n s = Some (if stored = crc16 body then JBIC_SUCCESS else JBIC_CRC_ERROR,
    Some (stored, crc16 body))"
proof -
  note a = assms [unfolded crc_file_def]
  obtain w where w: "GET_DWORD p 0 s = Some w" "w = 0x4A414D00 \<or> w = 0x4A414D01"
    "GET_DWORD p (32 + (w AND 1) * 8) s = Some (of_nat (length body))" using a by blast
  have u: "unat (of_nat (length body) :: u32) = length body" using a by (simp add: unat_of_nat_lt)
  have loop: "crc_loop p (length body) 0 0xFFFF s = Some (lfsr_run (byte_bits body) 0xFFFF)"
    by (rule crc_loop_lfsr) (use a in \<open>simp add: GET_BYTE_def bytes_at_def\<close>)
  have lt: "\<not> n \<le> of_nat (length body)" using a by (simp add: not_le)
  show ?thesis using a w loop u lt by (auto simp: jbi_check_crc_def crc16_def Let_def)
qed

text \<open>
  C25. The CRC check is the reference definition: on a file with a readable header whose CRC
  section lies inside it, the check succeeds exactly when the stored CRC is the complement of the
  remainder the bitwise shift register (polynomial 0x8408, started with ones) leaves over all the
  bytes before the CRC section, lowest bit first, and it reports both values.
\<close>

theorem check_crc_is_reference:
  assumes "crc_file p n body stored s"
  shows "jbi_check_crc p n s =
    Some (if stored = crc16 body then JBIC_SUCCESS else JBIC_CRC_ERROR, Some (stored, crc16 body))"
  by (rule check_crc_file [OF assms])

definition sample_body :: "u8 \<Rightarrow> u8 list" where
  "sample_body b = ([0x4A, 0x41, 0x4D, 0x00] @ replicate 28 0 @ [0, 0, 0, 51] @ replicate 14 0) @ [b]"

definition sample_file :: "u8 \<Rightarrow> u16 \<Rightarrow> jbi" where
  "sample_file b crc = load 0x1000 (sample_body b @ [ucast (drop_bit 8 crc), ucast crc]) jbi0"

lemma be16:
  "(push_bit 8 (ucast (ucast (drop_bit 8 w) :: u8)) AND 0xFF00) OR (ucast (ucast w :: u8) AND 0x00FF) = w"
  for w :: u16
proof -
  have m: "(0xFF00 :: u16) = push_bit 8 (mask 8)" "(0x00FF :: u16) = mask 8"
    by (simp_all add: mask_eq_exp_minus_1)
  show ?thesis
    unfolding m
  proof (rule bit_word_eqI)
    fix k :: nat assume "k < LENGTH(16)"
    then show "bit ((push_bit 8 (ucast (ucast (drop_bit 8 w) :: u8)) AND push_bit 8 (mask 8)) OR
        (ucast (ucast w :: u8) AND mask 8) :: u16) k = bit w k"
      by (cases "k < 8") (auto simp: bit_simps)
  qed
qed

lemma sample_crc_file: "crc_file 0x1000 53 (sample_body b) crc (sample_file b crc)"
proof -
  have len: "length (sample_body b) = 51" by (simp add: sample_body_def)
  let ?xs = "sample_body b @ [ucast (drop_bit 8 crc), ucast crc]"
  have by0: "bytes_at 0x1000 ?xs (sample_file b crc)"
    unfolding sample_file_def by (rule bytes_at_load) (simp add: len)
  have ld: "ld8 (0x1000 + of_nat k) (sample_file b crc) = Some (?xs ! k)" if "k < 53" for k
    using by0 that by (simp add: bytes_at_def len)
  note ld' = ld [of 0] ld [of 1] ld [of 2] ld [of 3] ld [of 32] ld [of 33] ld [of 34] ld [of 35]
    ld [of 51] ld [of 52]
  have w0: "GET_DWORD 0x1000 0 (sample_file b crc) = Some 0x4A414D00"
    using ld' by (simp add: GET_DWORD_def GET_BYTE_def sample_body_def nth_append)
  have w32: "GET_DWORD 0x1000 32 (sample_file b crc) = Some 51"
    using ld' by (simp add: GET_DWORD_def GET_BYTE_def sample_body_def nth_append)
  note be16 [of crc]
  then have "GET_WORD 0x1000 51 (sample_file b crc) = Some crc"
    using ld' by (simp add: GET_WORD_def GET_BYTE_def nth_append len)
  moreover have "bytes_at 0x1000 (sample_body b) (sample_file b crc)"
    using by0 by (simp only: bytes_at_append)
  ultimately show ?thesis using w0 w32 by (simp add: crc_file_def len)
qed

lemma check_crc_is_reference_witness:
  "jbi_check_crc 0x1000 53 (sample_file 7 (crc16 (sample_body 7))) =
    Some (JBIC_SUCCESS, Some (crc16 (sample_body 7), crc16 (sample_body 7)))"
  using check_crc_is_reference [OF sample_crc_file, of 7 "crc16 (sample_body 7)"] by simp

text \<open>Two files of bytes that differ within 16 consecutive bits, lowest bit of a byte first.\<close>

definition short_burst :: "u8 list \<Rightarrow> u8 list \<Rightarrow> bool" where
  "short_burst body body' \<longleftrightarrow>
     (\<exists>pre as bs suf. byte_bits body = pre @ as @ suf \<and> byte_bits body' = pre @ bs @ suf \<and>
        length as = length bs \<and> length as \<le> 16 \<and> as \<noteq> bs)"

lemma short_burstI:
  "byte_bits body = pre @ as @ suf \<Longrightarrow> byte_bits body' = pre @ bs @ suf \<Longrightarrow> length as = length bs \<Longrightarrow> length as \<le> 16 \<Longrightarrow>
    as \<noteq> bs \<Longrightarrow> short_burst body body'"
  unfolding short_burst_def by blast

text \<open>
  C35. The CRC detects short bursts in what it covers. Take a file that passes the check, and change
  it so that its header is readable and names the same position of the CRC section. If the bytes
  before the CRC section differ within 16 consecutive bits and the stored CRC is the same, the check
  reports a CRC mismatch; if those bytes are the same and the stored CRC is another, it does too; and
  if neither changed, the check passes, whatever became of the bytes behind the CRC section, which it
  does not cover.
\<close>

theorem crc_detects_bursts:
  assumes ok: "crc_file p n body stored s" and good: "jbi_check_crc p n s = Some (JBIC_SUCCESS, c)"
    and changed: "crc_file p n body' stored' s'"
  shows "(short_burst body body' \<and> stored' = stored \<longrightarrow> (\<exists>c'. jbi_check_crc p n s' = Some (JBIC_CRC_ERROR, c'))) \<and>
    (body' = body \<and> stored' \<noteq> stored \<longrightarrow> (\<exists>c'. jbi_check_crc p n s' = Some (JBIC_CRC_ERROR, c'))) \<and>
    (body' = body \<and> stored' = stored \<longrightarrow> jbi_check_crc p n s' = Some (JBIC_SUCCESS, c))"
proof -
  have st: "stored = crc16 body" using good check_crc_file [OF ok] by (simp split: if_splits)
  have "crc16 body \<noteq> crc16 body'" if "short_burst body body'"
    using that lfsr_burst by (auto simp: short_burst_def crc16_def)
  then show ?thesis using st good check_crc_file [OF ok] check_crc_file [OF changed] by auto
qed

lemma crc_detects_bursts_witness:
  "(\<exists>c'. jbi_check_crc 0x1000 53 (sample_file 9 (crc16 (sample_body 7))) = Some (JBIC_CRC_ERROR, c')) \<and>
    (\<exists>c'. jbi_check_crc 0x1000 53 (sample_file 7 (crc16 (sample_body 7) + 1)) = Some (JBIC_CRC_ERROR, c'))"
proof -
  have good: "jbi_check_crc 0x1000 53 (sample_file 7 (crc16 (sample_body 7))) =
      Some (JBIC_SUCCESS, Some (crc16 (sample_body 7), crc16 (sample_body 7)))"
    using check_crc_file [OF sample_crc_file, of 7 "crc16 (sample_body 7)"] by simp
  note detects = crc_detects_bursts [OF sample_crc_file good sample_crc_file]
  have "short_burst (sample_body 7) (sample_body 9)"
    by (rule short_burstI [of _ "byte_bits (butlast (sample_body 7))" "bits_of 8 (7 :: u8)" "[]" _ "bits_of 8 (9 :: u8)"])
      (simp_all add: sample_body_def byte_bits_def butlast_append, simp add: bits_of_def upt_rec)
  then show ?thesis using detects [of 9 "crc16 (sample_body 7)"] detects [of 7 "crc16 (sample_body 7) + 1"] by simp
qed

end
