(* ===== verification/BtHw.thy ===== *)
theory BtHw imports Prelude begin

text \<open>
  The ASPEED BT (block transfer) hardware driver (bthw_mod.c): register accesses, the two data
  buffer operations, the busy and attention bits, initialisation and the interrupt handler; and
  the table of operations (bt.h) through which the core driver uses it.

  The registers are hardware: the functions take the accessors as an argument, and a read may
  change the device (the data register is a buffer that is read byte by byte). \<open>None\<close> is an
  access outside the buffer the caller passed.
\<close>

unbundle bit_operations_syntax

section \<open>Registers (bt_hw.h)\<close>

definition iBTCR0 :: u16 where "iBTCR0 = 0x140"
definition iBTCR1 :: u16 where "iBTCR1 = 0x144"
definition iBTCR2 :: u16 where "iBTCR2 = 0x148"
definition iBTCR4 :: u16 where "iBTCR4 = 0x150"
definition iBTCR5 :: u16 where "iBTCR5 = 0x154"

definition iBTCR0_EnableiBT :: u32 where "iBTCR0_EnableiBT = 0x01"
definition iBTCR0_EnClrSvWrP :: u32 where "iBTCR0_EnClrSvWrP = 0x04"
definition iBTCR0_EnClrSvRdP :: u32 where "iBTCR0_EnClrSvRdP = 0x08"
definition iBTCR1_H2BI :: u32 where "iBTCR1_H2BI = 0x01"
definition iBTCR2_H2BI :: u32 where "iBTCR2_H2BI = 0x01"
definition iBTCR4_B_BUSY :: u8 where "iBTCR4_B_BUSY = 0x80"
definition iBTCR4_H_BUSY :: u8 where "iBTCR4_H_BUSY = 0x40"
definition iBTCR4_SMS_ATN :: u8 where "iBTCR4_SMS_ATN = 0x10"
definition iBTCR4_B2H_ATN :: u8 where "iBTCR4_B2H_ATN = 0x08"
definition iBTCR4_H2B_ATN :: u8 where "iBTCR4_H2B_ATN = 0x04"
definition iBTCR4_CLR_WR_PTR :: u8 where "iBTCR4_CLR_WR_PTR = 0x01"

lemmas ibt_offsets = iBTCR0_def iBTCR1_def iBTCR2_def iBTCR4_def iBTCR5_def

lemmas ibt_bits = iBTCR2_H2BI_def iBTCR4_B_BUSY_def iBTCR4_H_BUSY_def iBTCR4_SMS_ATN_def
  iBTCR4_B2H_ATN_def iBTCR4_H2B_ATN_def iBTCR4_CLR_WR_PTR_def

record 'd bt_mmio =
  ioread8 :: "u16 \<Rightarrow> 'd \<Rightarrow> u8 \<times> 'd"
  iowrite8 :: "u8 \<Rightarrow> u16 \<Rightarrow> 'd \<Rightarrow> 'd"
  bt_ioread32 :: "u16 \<Rightarrow> 'd \<Rightarrow> u32 \<times> 'd"
  bt_iowrite32 :: "u32 \<Rightarrow> u16 \<Rightarrow> 'd \<Rightarrow> 'd"

text \<open>The driver's state: the device and the flag \<open>bt_enabled_by_user\<close>.\<close>

record 'd bt_hw =
  bt_regs :: 'd
  bt_enabled_by_user :: bool

definition BT_CHANNEL_NUM :: u8 where "BT_CHANNEL_NUM = 1"

definition bt_read_reg :: "'d bt_mmio \<Rightarrow> u16 \<Rightarrow> 'd bt_hw \<Rightarrow> u8 \<times> 'd bt_hw" where
  "bt_read_reg io reg s = (let (v, d) = ioread8 io reg (bt_regs s) in (v, s\<lparr>bt_regs := d\<rparr>))"

definition bt_write_reg :: "'d bt_mmio \<Rightarrow> u8 \<Rightarrow> u16 \<Rightarrow> 'd bt_hw \<Rightarrow> 'd bt_hw" where
  "bt_write_reg io data reg s = s\<lparr>bt_regs := iowrite8 io data reg (bt_regs s)\<rparr>"

definition bt_read_reg32 :: "'d bt_mmio \<Rightarrow> u16 \<Rightarrow> 'd bt_hw \<Rightarrow> u32 \<times> 'd bt_hw" where
  "bt_read_reg32 io reg s = (let (v, d) = bt_ioread32 io reg (bt_regs s) in (v, s\<lparr>bt_regs := d\<rparr>))"

definition bt_write_reg32 :: "'d bt_mmio \<Rightarrow> u32 \<Rightarrow> u16 \<Rightarrow> 'd bt_hw \<Rightarrow> 'd bt_hw" where
  "bt_write_reg32 io data reg s = s\<lparr>bt_regs := bt_iowrite32 io data reg (bt_regs s)\<rparr>"

section \<open>The channel and its interrupt\<close>

definition bt_enable_channel :: "'d bt_mmio \<Rightarrow> 'd bt_hw \<Rightarrow> 'd bt_hw" where
  "bt_enable_channel io s =
     (let (reg32, s1) = bt_read_reg32 io iBTCR0 s
      in bt_write_reg32 io (reg32 OR (iBTCR0_EnableiBT OR iBTCR0_EnClrSvWrP OR iBTCR0_EnClrSvRdP)) iBTCR0 s1)"

definition bt_disable_channel :: "'d bt_mmio \<Rightarrow> 'd bt_hw \<Rightarrow> 'd bt_hw" where
  "bt_disable_channel io s =
     (let (reg32, s1) = bt_read_reg32 io iBTCR0 s
      in bt_write_reg32 io (reg32 AND NOT iBTCR0_EnableiBT) iBTCR0 s1)"

text \<open>\<open>port\<close> is the build's CONFIG_SPX_FEATURE_BT_PORT_ADDRESS.\<close>

definition bt_configure_io_port_addr :: "u32 \<Rightarrow> 'd bt_mmio \<Rightarrow> 'd bt_hw \<Rightarrow> 'd bt_hw" where
  "bt_configure_io_port_addr port io s = bt_write_reg32 io (0 OR push_bit 16 port) iBTCR0 s"

definition bt_num_ch :: u8 where "bt_num_ch = BT_CHANNEL_NUM"

definition bt_enable_interrupt :: "'d bt_mmio \<Rightarrow> 'd bt_hw \<Rightarrow> 'd bt_hw" where
  "bt_enable_interrupt io s =
     (let (reg32, s1) = bt_read_reg32 io iBTCR1 s in bt_write_reg32 io (reg32 OR iBTCR1_H2BI) iBTCR1 s1)"

definition bt_disable_interrupt :: "'d bt_mmio \<Rightarrow> 'd bt_hw \<Rightarrow> 'd bt_hw" where
  "bt_disable_interrupt io s =
     (let (reg32, s1) = bt_read_reg32 io iBTCR1 s in bt_write_reg32 io (reg32 AND NOT iBTCR1_H2BI) iBTCR1 s1)"

text \<open>The two FIFO switches have empty bodies.\<close>

definition bt_enable_fifo :: "'d bt_hw \<Rightarrow> 'd bt_hw" where "bt_enable_fifo s = s"
definition bt_disable_fifo :: "'d bt_hw \<Rightarrow> 'd bt_hw" where "bt_disable_fifo s = s"

definition bt_disable_h2b_interrupt :: "'d bt_mmio \<Rightarrow> 'd bt_hw \<Rightarrow> 'd bt_hw" where
  "bt_disable_h2b_interrupt io s = bt_disable_interrupt io s"

section \<open>Busy and attention bits\<close>

definition set_bmc_busy :: "'d bt_mmio \<Rightarrow> 'd bt_hw \<Rightarrow> 'd bt_hw" where
  "set_bmc_busy io s =
     (let (reg, s1) = bt_read_reg io iBTCR4 s
      in if reg AND iBTCR4_B_BUSY \<noteq> 0 then s1 else bt_write_reg io (0 OR iBTCR4_B_BUSY) iBTCR4 s1)"

definition clr_bmc_busy :: "'d bt_mmio \<Rightarrow> 'd bt_hw \<Rightarrow> 'd bt_hw" where
  "clr_bmc_busy io s =
     (let (reg, s1) = bt_read_reg io iBTCR4 s
      in if reg AND iBTCR4_B_BUSY \<noteq> 0 then bt_write_reg io (0 OR iBTCR4_B_BUSY) iBTCR4 s1 else s1)"

definition clr_h2b_intr_status :: "'d bt_mmio \<Rightarrow> 'd bt_hw \<Rightarrow> 'd bt_hw" where
  "clr_h2b_intr_status io s = bt_write_reg io (ucast (0 OR iBTCR2_H2BI)) iBTCR2 s"

definition clr_h2b_attention :: "'d bt_mmio \<Rightarrow> 'd bt_hw \<Rightarrow> 'd bt_hw" where
  "clr_h2b_attention io s = bt_write_reg io (0 OR iBTCR4_H2B_ATN) iBTCR4 s"

definition clr_write_fifo_ptr :: "'d bt_mmio \<Rightarrow> 'd bt_hw \<Rightarrow> 'd bt_hw" where
  "clr_write_fifo_ptr io s =
     (let (reg, s1) = bt_read_reg io iBTCR4 s in bt_write_reg io (reg OR iBTCR4_CLR_WR_PTR) iBTCR4 s1)"

definition set_b2h_attention :: "'d bt_mmio \<Rightarrow> 'd bt_hw \<Rightarrow> 'd bt_hw" where
  "set_b2h_attention io s = bt_write_reg32 io (ucast (0 OR iBTCR4_B2H_ATN)) iBTCR4 s"

definition bt_hw_set_sms_bit :: "'d bt_mmio \<Rightarrow> u8 \<Rightarrow> 'd bt_hw \<Rightarrow> 'd bt_hw" where
  "bt_hw_set_sms_bit io Ch s =
     (if BT_CHANNEL_NUM \<le> Ch then s
      else let (reg, s1) = bt_read_reg io iBTCR4 s
           in if reg AND iBTCR4_SMS_ATN \<noteq> 0 then s1
              else bt_write_reg io (0 OR iBTCR4_SMS_ATN) iBTCR4 s1)"

text \<open>The body is empty.\<close>

definition bt_hw_clr_sms_bit :: "u8 \<Rightarrow> 'd bt_hw \<Rightarrow> 'd bt_hw" where
  "bt_hw_clr_sms_bit Ch s = s"

definition bthw_interrupt_enable_user :: "'d bt_mmio \<Rightarrow> 'd bt_hw \<Rightarrow> 'd bt_hw" where
  "bthw_interrupt_enable_user io s =
     (let s1 = clr_bmc_busy io s
      in if \<not> bt_enabled_by_user s1 then bt_enable_interrupt io (s1\<lparr>bt_enabled_by_user := True\<rparr>) else s1)"

definition bthw_interrupt_disable_user :: "'d bt_mmio \<Rightarrow> 'd bt_hw \<Rightarrow> 'd bt_hw" where
  "bthw_interrupt_disable_user io s = bt_disable_interrupt io (s\<lparr>bt_enabled_by_user := False\<rparr>)"

section \<open>The data buffers\<close>

text \<open>
  The two loops, with the position \<open>i\<close> the pointer has reached: \<open>n\<close> bytes from the caller's
  buffer to the data register, and back.
\<close>

fun bt_write_bytes :: "'d bt_mmio \<Rightarrow> u8 list \<Rightarrow> nat \<Rightarrow> nat \<Rightarrow> 'd bt_hw \<Rightarrow> 'd bt_hw option" where
  "bt_write_bytes io Buf i 0 s = Some s"
| "bt_write_bytes io Buf i (Suc n) s =
     do { v \<leftarrow> arr_get Buf i; bt_write_bytes io Buf (Suc i) n (bt_write_reg io v iBTCR5 s) }"

definition bthw_write_bt_data_buf ::
  "'d bt_mmio \<Rightarrow> u8 \<Rightarrow> u8 list \<Rightarrow> u32 \<Rightarrow> 'd bt_hw \<Rightarrow> 'd bt_hw option" where
  "bthw_write_bt_data_buf io Ch Buf Len s =
     (if BT_CHANNEL_NUM \<le> Ch then Some s
      else let (reg, s1) = bt_read_reg io iBTCR4 s;
               s2 = bt_write_reg io (ucast Len) iBTCR5 s1
           in do { s3 \<leftarrow> bt_write_bytes io Buf 0 (unat Len) s2;
                   Some (clr_write_fifo_ptr io (set_b2h_attention io s3)) })"

fun bt_read_bytes :: "'d bt_mmio \<Rightarrow> nat \<Rightarrow> nat \<Rightarrow> u8 list \<Rightarrow> 'd bt_hw \<Rightarrow> (u8 list \<times> 'd bt_hw) option" where
  "bt_read_bytes io i 0 Buf s = Some (Buf, s)"
| "bt_read_bytes io i (Suc n) Buf s =
     (let (v, s1) = bt_read_reg io iBTCR5 s
      in do { Buf' \<leftarrow> arr_set Buf i v; bt_read_bytes io (Suc i) n Buf' s1 })"

definition bthw_read_bt_data_buf ::
  "'d bt_mmio \<Rightarrow> u8 \<Rightarrow> u8 list \<Rightarrow> 'd bt_hw \<Rightarrow> (u8 list \<times> 'd bt_hw) option" where
  "bthw_read_bt_data_buf io Ch Buf s =
     do { Buf1 \<leftarrow> arr_set Buf 0 0;
          if BT_CHANNEL_NUM \<le> Ch then Some (Buf1, s)
          else let (Len, s1) = bt_read_reg io iBTCR5 (clr_h2b_attention io (set_bmc_busy io s))
               in do { Buf2 \<leftarrow> arr_set Buf1 0 Len;
                       (Buf3, s2) \<leftarrow> bt_read_bytes io 1 (unat Len) Buf2 s1;
                       Some (Buf3, clr_bmc_busy io s2) } }"

section \<open>The operations table (bt.h)\<close>

record 'h bt_hal_ops =
  num_bt_ch :: u8
  bt_interrupt_enable_user :: "'h \<Rightarrow> 'h"
  bt_interrupt_disable_user :: "'h \<Rightarrow> 'h"
  set_sms_bit :: "u8 \<Rightarrow> 'h \<Rightarrow> 'h"
  clr_sms_bit :: "u8 \<Rightarrow> 'h \<Rightarrow> 'h"
  write_bt_data_buf :: "u8 \<Rightarrow> u8 list \<Rightarrow> u32 \<Rightarrow> 'h \<Rightarrow> 'h option"
  read_bt_data_buf :: "u8 \<Rightarrow> u8 list \<Rightarrow> 'h \<Rightarrow> (u8 list \<times> 'h) option"

definition bt_hw_ops :: "'d bt_mmio \<Rightarrow> ('d bt_hw) bt_hal_ops" where
  "bt_hw_ops io = \<lparr>num_bt_ch = bt_num_ch,
     bt_interrupt_enable_user = bthw_interrupt_enable_user io,
     bt_interrupt_disable_user = bthw_interrupt_disable_user io,
     set_sms_bit = bt_hw_set_sms_bit io, clr_sms_bit = bt_hw_clr_sms_bit,
     write_bt_data_buf = bthw_write_bt_data_buf io, read_bt_data_buf = bthw_read_bt_data_buf io\<rparr>"

section \<open>Interrupts and initialisation\<close>

text \<open>
  \<open>core\<close> is the core's \<open>process_bt_intr\<close> for a channel and an error code, absent until the core
  is registered; it runs on the driver's state and the core's own \<open>c\<close>. The flag is \<open>True\<close> for
  IRQ_HANDLED and \<open>False\<close> for IRQ_NONE.
\<close>

type_synonym ('d, 'c) bt_core = "(u8 \<Rightarrow> int \<Rightarrow> 'd bt_hw \<times> 'c \<Rightarrow> ('d bt_hw \<times> 'c) option) option"

definition bt_irq_handler ::
  "'d bt_mmio \<Rightarrow> ('d, 'c) bt_core \<Rightarrow> 'd bt_hw \<times> 'c \<Rightarrow> (bool \<times> 'd bt_hw \<times> 'c) option" where
  "bt_irq_handler io core sc =
     (let (s, c) = sc; (reg32, s1) = bt_read_reg32 io iBTCR2 s
      in if reg32 AND iBTCR2_H2BI \<noteq> 0
         then let s2 = clr_h2b_intr_status io s1
              in case core of
                   Some process \<Rightarrow>
                     (if bt_enabled_by_user s2
                      then map_option (Pair True) (process (BT_CHANNEL_NUM - 1) 0 (s2, c))
                      else Some (True, s2, c))
                 | None \<Rightarrow> Some (True, s2, c)
         else Some (False, s1, c))"

text \<open>The handler the reset driver calls when the host is reset.\<close>

definition BtHwResetHandler0 ::
  "('d, 'c) bt_core \<Rightarrow> 'd bt_hw \<times> 'c \<Rightarrow> ('d bt_hw \<times> 'c) option" where
  "BtHwResetHandler0 core sc =
     (case core of Some process \<Rightarrow> process (BT_CHANNEL_NUM - 1) 0xFF sc | None \<Rightarrow> Some sc)"

text \<open>\<open>down\<close>: the notifier's code is SYS_DOWN or SYS_HALT.\<close>

definition notify_reboot0 :: "'d bt_mmio \<Rightarrow> bool \<Rightarrow> 'd bt_hw \<Rightarrow> 'd bt_hw" where
  "notify_reboot0 io down s = (if down then set_bmc_busy io s else s)"

definition bt_init_hw :: "u32 \<Rightarrow> 'd bt_mmio \<Rightarrow> 'd bt_hw \<Rightarrow> 'd bt_hw" where
  "bt_init_hw port io s =
     (let s1 = set_bmc_busy io s;
          s2 = bt_configure_io_port_addr port io s1;
          s3 = bt_disable_interrupt io s2;
          s4 = bt_disable_channel io s3;
          s5 = bt_enable_channel io s4
      in bt_enable_fifo s5)"

end
