(* ===== verification/DriverHal.thy ===== *)
theory DriverHal imports Prelude begin

text \<open>
  The registry between the core drivers and the hardware drivers (driver_hal.c): for every device
  type at most one core module, and for each the list of its hardware modules with the minor
  numbers they serve. The core's own calls (\<open>register_hal_module\<close>, \<open>unregister_hal_module\<close>) are
  function pointers; what they return or receive is part of the model, what they do to their own
  state is theirs. Whether \<open>kmalloc\<close> and \<open>try_module_get\<close> succeed is an argument of the calls.
\<close>

section \<open>The lists\<close>

datatype ehal_dev_type =
    EDEV_TYPE_KCS | EDEV_TYPE_RESET | EDEV_TYPE_SNOOP | EDEV_TYPE_PECI | EDEV_TYPE_ADC
  | EDEV_TYPE_PWMTACH | EDEV_TYPE_GPIO | EDEV_TYPE_I2C | EDEV_TYPE_USB | EDEV_TYPE_VIDEO
  | EDEV_TYPE_WATCHDOG | EDEV_TYPE_HOST_SPI_FLASH | EDEV_TYPE_CIPHER | EDEV_TYPE_BT
  | EDEV_TYPE_ACPI | EDEV_TYPE_JTAG | EDEV_TYPE_MCTP_PCIE | EDEV_TYPE_SSP | EDEV_TYPE_MAILBOX
  | EDEV_TYPE_ESPI

definition MAX_DEV_INSTANCES :: int where "MAX_DEV_INSTANCES = 255"

type_synonym module = nat

record 'o hw_hal =
  hw_dev_type :: ehal_dev_type
  hw_owner :: module
  num_instances :: u8
  phal_ops :: 'o

record ('o, 'p, 'f) core_hal =
  core_dev_type :: ehal_dev_type
  core_owner :: module
  register_hal_module :: "u8 \<Rightarrow> 'o \<Rightarrow> int + 'p"
  pcore_funcs :: 'f

record ('o, 'p) hw_entry =
  dev_id :: int
  minor_num :: u8
  opencount :: "u8 list"
  hw_hal_of :: "'o hw_hal"
  pdrv_data :: 'p

record ('o, 'p, 'f) core_entry =
  core_hal_of :: "('o, 'p, 'f) core_hal"
  hw_list :: "('o, 'p) hw_entry list"

text \<open>
  The registry: the list, the references held on each module, and the driver data handed back to
  \<open>unregister_hal_module\<close>, last one first.
\<close>

record ('o, 'p, 'f) registry =
  core_hal_list :: "('o, 'p, 'f) core_entry list"
  module_refs :: "module \<Rightarrow> int"
  released :: "'p list"

definition module_get :: "module \<Rightarrow> ('o, 'p, 'f) registry \<Rightarrow> ('o, 'p, 'f) registry" where
  "module_get m s = s\<lparr>module_refs := (module_refs s)(m := module_refs s m + 1)\<rparr>"

definition module_put :: "module \<Rightarrow> ('o, 'p, 'f) registry \<Rightarrow> ('o, 'p, 'f) registry" where
  "module_put m s = s\<lparr>module_refs := (module_refs s)(m := module_refs s m - 1)\<rparr>"

section \<open>Core modules\<close>

definition of_type :: "ehal_dev_type \<Rightarrow> ('o, 'p, 'f) core_entry \<Rightarrow> bool" where
  "of_type t c \<longleftrightarrow> core_dev_type (core_hal_of c) = t"

definition register_core_hal_module ::
  "bool \<Rightarrow> ('o, 'p, 'f) core_hal \<Rightarrow> ('o, 'p, 'f) registry \<Rightarrow> (errno + unit) \<times> ('o, 'p, 'f) registry" where
  "register_core_hal_module mem_ok pcore s =
     (if \<exists>c \<in> set (core_hal_list s). of_type (core_dev_type pcore) c then (Inl EEXIST, s)
      else if \<not> mem_ok then (Inl ENOMEM, s)
      else (Inr (), s\<lparr>core_hal_list := core_hal_list s @ [\<lparr>core_hal_of = pcore, hw_list = []\<rparr>]\<rparr>))"

text \<open>The first entry of the type that has no hardware module any more is taken out.\<close>

fun unlink_core ::
  "ehal_dev_type \<Rightarrow> ('o, 'p, 'f) core_entry list \<Rightarrow> bool \<times> ('o, 'p, 'f) core_entry list" where
  "unlink_core t [] = (False, [])"
| "unlink_core t (c # cs) =
     (if of_type t c \<and> hw_list c = [] then (True, cs)
      else let (r, cs') = unlink_core t cs in (r, c # cs'))"

definition unregister_core_hal_module ::
  "ehal_dev_type \<Rightarrow> ('o, 'p, 'f) registry \<Rightarrow> (errno + unit) \<times> ('o, 'p, 'f) registry" where
  "unregister_core_hal_module t s =
     (let (r, cs) = unlink_core t (core_hal_list s)
      in (if r then Inr () else Inl EFAIL, s\<lparr>core_hal_list := cs\<rparr>))"

section \<open>Hardware modules\<close>

text \<open>
  The search for \<open>n\<close> free minor numbers: \<open>l\<close> is one past the entry before (an unsigned char),
  \<open>i\<close> the position of the entry looked at. The result is the first minor number and where the
  entry is linked in: at the front, or behind the entry in front of which the gap was found.
\<close>

fun find_minor :: "u8 \<Rightarrow> u8 \<Rightarrow> nat \<Rightarrow> ('o, 'p) hw_entry list \<Rightarrow> u8 \<times> nat" where
  "find_minor n l i [] = (l, 0)"
| "find_minor n l i (h # hs) =
     (if uint n \<le> uint (minor_num h) - uint l then (l, Suc i)
      else find_minor n (minor_num h + num_instances (hw_hal_of h)) (Suc i) hs)"

definition link_hw :: "nat \<Rightarrow> ('o, 'p) hw_entry \<Rightarrow> ('o, 'p) hw_entry list \<Rightarrow> ('o, 'p) hw_entry list" where
  "link_hw i nh hs = take i hs @ nh # drop i hs"

text \<open>
  Registering with the core entry \<open>c\<close>. \<open>live\<close> is what \<open>try_module_get\<close> answers for the core's
  module. The entry and what the caller gets (the device id and the core's functions).
\<close>

definition register_with_core ::
  "bool \<Rightarrow> bool \<Rightarrow> 'o hw_hal \<Rightarrow> ('o, 'p, 'f) core_entry
    \<Rightarrow> errno + (int \<times> 'f) \<times> ('o, 'p, 'f) core_entry" where
  "register_with_core count_ok live phw c =
     (let n = num_instances phw in
      if \<not> count_ok then Inl ENOMEM
      else let (minor, i) = find_minor n 0 0 (hw_list c) in
           if MAX_DEV_INSTANCES < uint minor + uint n then Inl ENOBUFS
           else case register_hal_module (core_hal_of c) n (phal_ops phw) of
                  Inl e \<Rightarrow> Inl (ECORE e)
                | Inr p \<Rightarrow>
                    (if \<not> live then Inl EFAIL
                     else let nh = \<lparr>dev_id = uint minor, minor_num = minor,
                                    opencount = replicate (unat n) 0, hw_hal_of = phw, pdrv_data = p\<rparr>
                          in Inr ((uint minor, pcore_funcs (core_hal_of c)),
                                  c\<lparr>hw_list := link_hw i nh (hw_list c)\<rparr>)))"

text \<open>
  The first core entry of the type takes the module. Without one the code releases
  \<open>nh->opencount\<close>, which is uninitialised memory: undefined.
\<close>

fun register_in ::
  "bool \<Rightarrow> bool \<Rightarrow> 'o hw_hal \<Rightarrow> ('o, 'p, 'f) core_entry list
    \<Rightarrow> (errno + (int \<times> 'f) \<times> module \<times> ('o, 'p, 'f) core_entry list) option" where
  "register_in count_ok live phw [] = None"
| "register_in count_ok live phw (c # cs) =
     (if of_type (hw_dev_type phw) c
      then Some (case register_with_core count_ok live phw c of
                   Inl e \<Rightarrow> Inl e
                 | Inr (r, c') \<Rightarrow> Inr (r, core_owner (core_hal_of c), c' # cs))
      else map_option (\<lambda>x. case x of Inl e \<Rightarrow> Inl e | Inr (r, m, cs') \<Rightarrow> Inr (r, m, c # cs'))
             (register_in count_ok live phw cs))"

definition register_hw_hal_module ::
  "bool \<Rightarrow> bool \<Rightarrow> bool \<Rightarrow> 'o hw_hal \<Rightarrow> ('o, 'p, 'f) registry
    \<Rightarrow> ((errno + int \<times> 'f) \<times> ('o, 'p, 'f) registry) option" where
  "register_hw_hal_module mem_ok count_ok live phw s =
     (if \<not> mem_ok then Some (Inl ENOMEM, s)
      else map_option (\<lambda>x. case x of
             Inl e \<Rightarrow> (Inl e, s)
           | Inr (r, m, cs) \<Rightarrow> (Inr r, module_get m (s\<lparr>core_hal_list := cs\<rparr>)))
           (register_in count_ok live phw (core_hal_list s)))"

text \<open>The first hardware module of the list with the device id is taken out.\<close>

fun unlink_hw ::
  "u8 \<Rightarrow> ('o, 'p) hw_entry list \<Rightarrow> ('o, 'p) hw_entry option \<times> ('o, 'p) hw_entry list" where
  "unlink_hw d [] = (None, [])"
| "unlink_hw d (h # hs) =
     (if dev_id h = uint d then (Some h, hs)
      else let (r, hs') = unlink_hw d hs in (r, h # hs'))"

text \<open>
  The walk over the cores goes on behind the one of the type; \<open>r\<close> is the answer so far. The list
  it returns replaces the one it walked.
\<close>

fun unregister_in ::
  "ehal_dev_type \<Rightarrow> u8 \<Rightarrow> ('o, 'p, 'f) core_entry list \<Rightarrow> bool \<Rightarrow> ('o, 'p, 'f) registry
    \<Rightarrow> bool \<times> ('o, 'p, 'f) registry \<times> ('o, 'p, 'f) core_entry list" where
  "unregister_in t d [] r s = (r, s, [])"
| "unregister_in t d (c # cs) r s =
     (if of_type t c
      then case unlink_hw d (hw_list c) of
             (None, _) \<Rightarrow> (let (r', s', cs') = unregister_in t d cs r s in (r', s', c # cs'))
           | (Some h, hs) \<Rightarrow>
               (let (r', s', cs') = unregister_in t d cs True
                  (module_put (core_owner (core_hal_of c)) (s\<lparr>released := pdrv_data h # released s\<rparr>))
                in (r', s', c\<lparr>hw_list := hs\<rparr> # cs'))
      else (let (r', s', cs') = unregister_in t d cs r s in (r', s', c # cs')))"

definition unregister_hw_hal_module ::
  "ehal_dev_type \<Rightarrow> u8 \<Rightarrow> ('o, 'p, 'f) registry \<Rightarrow> (errno + unit) \<times> ('o, 'p, 'f) registry" where
  "unregister_hw_hal_module t d s =
     (let (r, s', cs) = unregister_in t d (core_hal_list s) False s
      in (if r then Inr () else Inl EFAIL, s'\<lparr>core_hal_list := cs\<rparr>))"

section \<open>Open, close and interrupts\<close>

text \<open>The test whether a hardware module serves a minor number, without wrap-around.\<close>

definition serves :: "u8 \<Rightarrow> ('o, 'p) hw_entry \<Rightarrow> bool" where
  "serves m h \<longleftrightarrow> minor_num h \<le> m \<and> uint m < uint (minor_num h) + uint (num_instances (hw_hal_of h))"

text \<open>Changing an open count and reading it back: outside the array the access faults.\<close>

definition count_update ::
  "(u8 \<Rightarrow> u8) \<Rightarrow> u8 \<Rightarrow> ('o, 'p) hw_entry \<Rightarrow> (u8 \<times> ('o, 'p) hw_entry) option" where
  "count_update f m h =
     (let i = unat m - unat (minor_num h)
      in do { n \<leftarrow> arr_get (opencount h) i;
              oc \<leftarrow> arr_set (opencount h) i (f n);
              Some (f n, h\<lparr>opencount := oc\<rparr>) })"

record 'p hw_info =
  inst_num :: int
  pdrv :: 'p

text \<open>
  The answer of the walk over the hardware modules: nobody serves the minor number, the module
  that does could not be referenced (the code leaves both loops), or its data and open count.
\<close>

datatype 'p opened = Nobody | Refused | Opened "'p hw_info" u8 module

fun open_hw ::
  "(module \<Rightarrow> bool) \<Rightarrow> u8 \<Rightarrow> ('o, 'p) hw_entry list \<Rightarrow> ('p opened \<times> ('o, 'p) hw_entry list) option" where
  "open_hw live m [] = Some (Nobody, [])"
| "open_hw live m (h # hs) =
     (if serves m h
      then if live (hw_owner (hw_hal_of h))
           then do { (n, h') \<leftarrow> count_update (\<lambda>n. n + 1) m h;
                     Some (Opened \<lparr>inst_num = uint m - uint (minor_num h), pdrv = pdrv_data h\<rparr> n
                             (hw_owner (hw_hal_of h)), h' # hs) }
           else Some (Refused, h # hs)
      else do { (r, hs') \<leftarrow> open_hw live m hs; Some (r, h # hs') })"

text \<open>The walk over the core modules: \<open>r\<close> is the answer so far.\<close>

fun open_in ::
  "(module \<Rightarrow> bool) \<Rightarrow> ehal_dev_type \<Rightarrow> u8 \<Rightarrow> ('o, 'p, 'f) core_entry list
    \<Rightarrow> (errno + u8 \<times> 'p hw_info) \<Rightarrow> ('o, 'p, 'f) registry
    \<Rightarrow> ((errno + u8 \<times> 'p hw_info) \<times> ('o, 'p, 'f) registry \<times> ('o, 'p, 'f) core_entry list) option" where
  "open_in live t m [] r s = Some (r, s, [])"
| "open_in live t m (c # cs) r s =
     (if of_type t c
      then do { (answer, hs) \<leftarrow> open_hw live m (hw_list c);
                case answer of
                  Nobody \<Rightarrow> do { (r', s', cs') \<leftarrow> open_in live t m cs r s; Some (r', s', c # cs') }
                | Refused \<Rightarrow> Some (r, s, c # cs)
                | Opened info n own \<Rightarrow>
                    do { (r', s', cs') \<leftarrow> open_in live t m cs (Inr (n, info)) (module_get own s);
                         Some (r', s', c\<lparr>hw_list := hs\<rparr> # cs') } }
      else do { (r', s', cs') \<leftarrow> open_in live t m cs r s; Some (r', s', c # cs') })"

definition hw_open ::
  "(module \<Rightarrow> bool) \<Rightarrow> ehal_dev_type \<Rightarrow> u8 \<Rightarrow> ('o, 'p, 'f) registry
    \<Rightarrow> ((errno + u8 \<times> 'p hw_info) \<times> ('o, 'p, 'f) registry) option" where
  "hw_open live t m s =
     do { (r, s', cs) \<leftarrow> open_in live t m (core_hal_list s) (Inl EFAIL) s;
          Some (r, s'\<lparr>core_hal_list := cs\<rparr>) }"

fun close_hw ::
  "u8 \<Rightarrow> ('o, 'p) hw_entry list \<Rightarrow> ((u8 \<times> module) option \<times> ('o, 'p) hw_entry list) option" where
  "close_hw m [] = Some (None, [])"
| "close_hw m (h # hs) =
     (if serves m h
      then do { (n, h') \<leftarrow> count_update (\<lambda>n. n - 1) m h;
                Some (Some (n, hw_owner (hw_hal_of h)), h' # hs) }
      else do { (r, hs') \<leftarrow> close_hw m hs; Some (r, h # hs') })"

fun close_in ::
  "ehal_dev_type \<Rightarrow> u8 \<Rightarrow> ('o, 'p, 'f) core_entry list \<Rightarrow> (errno + u8) \<Rightarrow> ('o, 'p, 'f) registry
    \<Rightarrow> ((errno + u8) \<times> ('o, 'p, 'f) registry \<times> ('o, 'p, 'f) core_entry list) option" where
  "close_in t m [] r s = Some (r, s, [])"
| "close_in t m (c # cs) r s =
     (if of_type t c
      then do { (answer, hs) \<leftarrow> close_hw m (hw_list c);
                case answer of
                  None \<Rightarrow> do { (r', s', cs') \<leftarrow> close_in t m cs r s; Some (r', s', c # cs') }
                | Some (n, own) \<Rightarrow>
                    do { (r', s', cs') \<leftarrow> close_in t m cs (Inr n) (module_put own s);
                         Some (r', s', c\<lparr>hw_list := hs\<rparr> # cs') } }
      else do { (r', s', cs') \<leftarrow> close_in t m cs r s; Some (r', s', c # cs') })"

definition hw_close ::
  "ehal_dev_type \<Rightarrow> u8 \<Rightarrow> ('o, 'p, 'f) registry \<Rightarrow> ((errno + u8) \<times> ('o, 'p, 'f) registry) option" where
  "hw_close t m s =
     do { (r, s', cs) \<leftarrow> close_in t m (core_hal_list s) (Inl EFAIL) s;
          Some (r, s'\<lparr>core_hal_list := cs\<rparr>) }"

text \<open>The driver data of the first hardware module with the device id, NULL if there is none.\<close>

fun intr_hw :: "int \<Rightarrow> ('o, 'p) hw_entry list \<Rightarrow> 'p option" where
  "intr_hw d [] = None"
| "intr_hw d (h # hs) = (if dev_id h = d then Some (pdrv_data h) else intr_hw d hs)"

fun intr_in :: "ehal_dev_type \<Rightarrow> int \<Rightarrow> ('o, 'p, 'f) core_entry list \<Rightarrow> 'p option" where
  "intr_in t d [] = None"
| "intr_in t d (c # cs) =
     (if of_type t c
      then case intr_hw d (hw_list c) of None \<Rightarrow> intr_in t d cs | Some p \<Rightarrow> Some p
      else intr_in t d cs)"

definition hw_intr :: "ehal_dev_type \<Rightarrow> int \<Rightarrow> ('o, 'p, 'f) registry \<Rightarrow> 'p option" where
  "hw_intr t d s = intr_in t d (core_hal_list s)"

end
