(* ===== verification/DriverHalProps.thy ===== *)
theory DriverHalProps imports DriverHal begin

text \<open>
  The registry is well formed in every state the calls reach, a device can be opened and closed
  without leaving it changed, and the first-fit search for minor numbers is right on a list in
  ascending order. The list is not kept in that order: the third module of a device type always
  gets the minor number of an earlier one.
\<close>

section \<open>Well-formed registries\<close>

definition range_end :: "('o, 'p) hw_entry \<Rightarrow> int" where
  "range_end h = uint (minor_num h) + uint (num_instances (hw_hal_of h))"

definition entry_wf :: "ehal_dev_type \<Rightarrow> ('o, 'p) hw_entry \<Rightarrow> bool" where
  "entry_wf t h \<longleftrightarrow> hw_dev_type (hw_hal_of h) = t \<and> dev_id h = uint (minor_num h)
     \<and> length (opencount h) = unat (num_instances (hw_hal_of h)) \<and> range_end h \<le> MAX_DEV_INSTANCES"

definition core_wf :: "('o, 'p, 'f) core_entry \<Rightarrow> bool" where
  "core_wf c \<longleftrightarrow> (\<forall>h \<in> set (hw_list c). entry_wf (core_dev_type (core_hal_of c)) h)"

definition core_type :: "('o, 'p, 'f) core_entry \<Rightarrow> ehal_dev_type" where
  "core_type c = core_dev_type (core_hal_of c)"

definition cores_wf :: "('o, 'p, 'f) core_entry list \<Rightarrow> bool" where
  "cores_wf cs \<longleftrightarrow> distinct (map core_type cs) \<and> (\<forall>c \<in> set cs. core_wf c)"

definition hal_wf :: "('o, 'p, 'f) registry \<Rightarrow> bool" where
  "hal_wf s \<longleftrightarrow> cores_wf (core_hal_list s)"

lemma of_type_core_type [simp]: "of_type t c \<longleftrightarrow> core_type c = t"
  by (simp add: of_type_def core_type_def)

lemma core_type_hw_list [simp]: "core_type (c\<lparr>hw_list := hs\<rparr>) = core_type c"
  by (simp add: core_type_def)

lemma core_wf_hw_list [simp]:
  "core_wf (c\<lparr>hw_list := hs\<rparr>) \<longleftrightarrow> (\<forall>h \<in> set hs. entry_wf (core_type c) h)"
  by (simp add: core_wf_def core_type_def)

lemma module_get_put [simp]:
  "core_hal_list (module_get m s) = core_hal_list s" "core_hal_list (module_put m s) = core_hal_list s"
  by (simp_all add: module_get_def module_put_def)

text \<open>The walks over the cores pass over those of another type.\<close>

lemma open_in_skip:
  "\<forall>x \<in> set xs. core_type x \<noteq> t \<Longrightarrow>
   open_in live t m (xs @ cs) r s = do { (r', s', cs') \<leftarrow> open_in live t m cs r s; Some (r', s', xs @ cs') }"
  by (induction xs) (auto split: bind_splits)

lemma close_in_skip:
  "\<forall>x \<in> set xs. core_type x \<noteq> t \<Longrightarrow>
   close_in t m (xs @ cs) r s = do { (r', s', cs') \<leftarrow> close_in t m cs r s; Some (r', s', xs @ cs') }"
  by (induction xs) (auto split: bind_splits)

lemma open_in_none: "\<forall>x \<in> set xs. core_type x \<noteq> t \<Longrightarrow> open_in live t m xs r s = Some (r, s, xs)"
  by (induction xs) auto

lemma close_in_none: "\<forall>x \<in> set xs. core_type x \<noteq> t \<Longrightarrow> close_in t m xs r s = Some (r, s, xs)"
  by (induction xs) auto

lemma unregister_in_none:
  "\<forall>x \<in> set xs. core_type x \<noteq> t \<Longrightarrow> unregister_in t d xs r s = (r, s, xs)"
  by (induction xs) auto

lemma unregister_in_skip:
  "\<forall>x \<in> set xs. core_type x \<noteq> t \<Longrightarrow>
   unregister_in t d (xs @ cs) r s = (let (r', s', cs') = unregister_in t d cs r s in (r', s', xs @ cs'))"
  by (induction xs) (auto simp: Let_def split: prod.splits)

lemma case_sum_id: "case_sum Inl Inr = (\<lambda>x. x)"
  by (rule ext) (simp split: sum.splits)

lemma register_in_skip:
  "\<forall>x \<in> set xs. core_type x \<noteq> hw_dev_type phw \<Longrightarrow>
   register_in count_ok live phw (xs @ cs) =
     map_option (\<lambda>x. case x of Inl e \<Rightarrow> Inl e | Inr (r, m, cs') \<Rightarrow> Inr (r, m, xs @ cs'))
       (register_in count_ok live phw cs)"
  by (induction xs) (auto simp: option.map_comp comp_def case_sum_id option.map_ident split: sum.splits intro!: map_option_cong)

lemma intr_in_skip: "\<forall>x \<in> set xs. core_type x \<noteq> t \<Longrightarrow> intr_in t d (xs @ cs) = intr_in t d cs"
  by (induction xs) auto

text \<open>So in a well-formed registry each call acts on the one core of its type, if there is one.\<close>

lemma cores_cases:
  assumes "cores_wf cs"
  obtains "\<forall>x \<in> set cs. core_type x \<noteq> t"
  | xs c ys where "cs = xs @ c # ys" "core_type c = t" "\<forall>x \<in> set xs. core_type x \<noteq> t"
      "\<forall>x \<in> set ys. core_type x \<noteq> t" "core_wf c"
proof (cases "\<exists>c \<in> set cs. core_type c = t")
  case True
  then obtain c where "c \<in> set cs" "core_type c = t" by blast
  moreover then obtain xs ys where "cs = xs @ c # ys" by (meson split_list)
  moreover have "t \<notin> core_type ` set xs" "t \<notin> core_type ` set ys" "core_wf c"
    using assms calculation by (auto simp: cores_wf_def)
  then have "\<forall>x \<in> set xs. core_type x \<noteq> t" "\<forall>x \<in> set ys. core_type x \<noteq> t" by (metis imageI)+
  ultimately show ?thesis using \<open>core_wf c\<close> by (intro that(2))
qed (use that in blast)

lemma cores_wf_replace:
  "cores_wf (xs @ c # ys) \<Longrightarrow> core_type c' = core_type c \<Longrightarrow> core_wf c' \<Longrightarrow> cores_wf (xs @ c' # ys)"
  by (simp add: cores_wf_def)

section \<open>Every call keeps the registry well formed\<close>

lemma serves_range: "serves m h \<longleftrightarrow> minor_num h \<le> m \<and> uint m < range_end h"
  by (simp add: serves_def range_end_def)

lemma count_update_ok:
  assumes "entry_wf t h" "serves m h"
  shows "\<exists>n oc. count_update f m h = Some (f n, h\<lparr>opencount := oc\<rparr>) \<and>
    unat m - unat (minor_num h) < length (opencount h) \<and>
    n = opencount h ! (unat m - unat (minor_num h)) \<and>
    oc = (opencount h)[unat m - unat (minor_num h) := f n]"
proof -
  have "int (unat m) < int (unat (minor_num h)) + int (length (opencount h))" "unat (minor_num h) \<le> unat m"
    using assms by (simp_all add: entry_wf_def serves_def word_le_nat_alt)
  then have "unat m - unat (minor_num h) < length (opencount h)" by linarith
  then show ?thesis by (simp add: count_update_def arr_simps Let_def)
qed

lemma entry_wf_opencount:
  "entry_wf t h \<Longrightarrow> length oc = length (opencount h) \<Longrightarrow> entry_wf t (h\<lparr>opencount := oc\<rparr>)"
  by (simp add: entry_wf_def range_end_def)

lemma open_hw_ok:
  "\<forall>h \<in> set hs. entry_wf t h \<Longrightarrow> \<exists>r hs'. open_hw live m hs = Some (r, hs') \<and> (\<forall>h \<in> set hs'. entry_wf t h)"
proof (induction hs)
  case (Cons h hs)
  then show ?case
    using count_update_ok [of t h m "\<lambda>n. n + 1"] by (fastforce intro: entry_wf_opencount)
qed simp

lemma close_hw_ok:
  "\<forall>h \<in> set hs. entry_wf t h \<Longrightarrow> \<exists>r hs'. close_hw m hs = Some (r, hs') \<and> (\<forall>h \<in> set hs'. entry_wf t h)"
proof (induction hs)
  case (Cons h hs)
  then show ?case
    using count_update_ok [of t h m "\<lambda>n. n - 1"] by (fastforce intro: entry_wf_opencount)
qed simp

lemma hw_open_ok:
  assumes "hal_wf s"
  shows "\<exists>r s'. hw_open live t m s = Some (r, s') \<and> hal_wf s'"
  using assms [unfolded hal_wf_def]
proof (cases rule: cores_cases [where t = t])
  case 1
  then show ?thesis using assms by (simp add: hw_open_def open_in_none hal_wf_def)
next
  case (2 xs c ys)
  obtain r hs where hs: "open_hw live m (hw_list c) = Some (r, hs)" "\<forall>h \<in> set hs. entry_wf t h"
    using open_hw_ok [of "hw_list c" t live m] 2(2,5) by (auto simp: core_wf_def core_type_def)
  have "cores_wf (xs @ c\<lparr>hw_list := hs\<rparr> # ys)" "cores_wf (xs @ c # ys)"
    using assms 2 hs(2) cores_wf_replace [of xs c ys "c\<lparr>hw_list := hs\<rparr>"] by (simp_all add: hal_wf_def)
  then show ?thesis using 2 hs(1)
    by (cases r) (simp_all add: hw_open_def open_in_skip open_in_none hal_wf_def)
qed

lemma hw_close_ok:
  assumes "hal_wf s"
  shows "\<exists>r s'. hw_close t m s = Some (r, s') \<and> hal_wf s'"
  using assms [unfolded hal_wf_def]
proof (cases rule: cores_cases [where t = t])
  case 1
  then show ?thesis using assms by (simp add: hw_close_def close_in_none hal_wf_def)
next
  case (2 xs c ys)
  obtain r hs where hs: "close_hw m (hw_list c) = Some (r, hs)" "\<forall>h \<in> set hs. entry_wf t h"
    using close_hw_ok [of "hw_list c" t m] 2(2,5) by (auto simp: core_wf_def core_type_def)
  have "cores_wf (xs @ c\<lparr>hw_list := hs\<rparr> # ys)" "cores_wf (xs @ c # ys)"
    using assms 2 hs(2) cores_wf_replace [of xs c ys "c\<lparr>hw_list := hs\<rparr>"] by (simp_all add: hal_wf_def)
  then show ?thesis using 2 hs(1)
    by (cases r) (auto simp: hw_close_def close_in_skip close_in_none hal_wf_def)
qed

lemma register_core_ok: "hal_wf s \<Longrightarrow> hal_wf (snd (register_core_hal_module ok p s))"
  by (auto simp: register_core_hal_module_def hal_wf_def cores_wf_def core_wf_def core_type_def)

lemma unlink_core_ok: "cores_wf cs \<Longrightarrow> cores_wf (snd (unlink_core t cs)) \<and> set (snd (unlink_core t cs)) \<subseteq> set cs"
  by (induction cs) (auto simp: cores_wf_def split_beta)

lemma unregister_core_ok: "hal_wf s \<Longrightarrow> hal_wf (snd (unregister_core_hal_module t s))"
  using unlink_core_ok [of "core_hal_list s" t] by (simp add: unregister_core_hal_module_def hal_wf_def split_beta)

lemma unlink_hw_subset: "set (snd (unlink_hw d hs)) \<subseteq> set hs"
  by (induction hs) (auto simp: split_beta)

lemma unregister_hw_ok:
  assumes "hal_wf s"
  shows "hal_wf (snd (unregister_hw_hal_module t d s))"
  using assms [unfolded hal_wf_def]
proof (cases rule: cores_cases [where t = t])
  case 1
  then show ?thesis using assms by (simp add: unregister_hw_hal_module_def unregister_in_none hal_wf_def)
next
  case (2 xs c ys)
  obtain r hs where hs: "unlink_hw d (hw_list c) = (r, hs)" by fastforce
  then have "\<forall>h \<in> set hs. entry_wf t h"
    using unlink_hw_subset [of d "hw_list c"] 2(2,5) by (auto simp: core_wf_def core_type_def)
  then have "cores_wf (xs @ c\<lparr>hw_list := hs\<rparr> # ys)" "cores_wf (xs @ c # ys)"
    using assms 2 cores_wf_replace [of xs c ys "c\<lparr>hw_list := hs\<rparr>"] by (simp_all add: hal_wf_def)
  then show ?thesis using 2 hs
    by (cases r)
      (simp_all add: unregister_hw_hal_module_def unregister_in_skip unregister_in_none hal_wf_def Let_def)
qed

lemma set_link_hw: "set (link_hw i nh hs) = insert nh (set hs)"
proof -
  have "set (take i hs) \<union> set (drop i hs) = set hs" by (simp flip: set_append)
  then show ?thesis by (auto simp: link_hw_def)
qed

lemma register_with_core_ok:
  assumes "core_wf c" "core_type c = hw_dev_type phw"
    "register_with_core count_ok live phw c = Inr (r, c')"
  shows "core_wf c' \<and> core_type c' = core_type c"
  using assms
  by (auto simp: register_with_core_def Let_def entry_wf_def range_end_def set_link_hw
      core_wf_def core_type_def split: if_splits prod.splits sum.splits)

lemma register_hw_ok:
  assumes "hal_wf s" "register_hw_hal_module mem_ok count_ok live phw s = Some (r, s')"
  shows "hal_wf s'"
  using assms(1) [unfolded hal_wf_def]
proof (cases rule: cores_cases [where t = "hw_dev_type phw"])
  case 1
  then show ?thesis
    using assms register_in_skip [of "core_hal_list s" phw count_ok live "[]"]
    by (auto simp: register_hw_hal_module_def split: if_splits)
next
  case (2 xs c ys)
  show ?thesis
  proof (cases "register_with_core count_ok live phw c")
    case (Inl e)
    then show ?thesis using assms 2
      by (auto simp: register_hw_hal_module_def register_in_skip split: if_splits)
  next
    case (Inr rc)
    obtain r' c' where rc: "rc = (r', c')" by fastforce
    have "cores_wf (xs @ c' # ys)"
      using register_with_core_ok [OF 2(5) 2(2) Inr [unfolded rc]] cores_wf_replace [of xs c ys c'] assms(1) 2(1)
      by (simp add: hal_wf_def)
    then show ?thesis using assms 2 Inr rc
      by (auto simp: register_hw_hal_module_def register_in_skip hal_wf_def split: if_splits)
  qed
qed

text \<open>The states a run of calls reaches from the empty registry.\<close>

inductive hal_reach :: "('o, 'p, 'f) registry \<Rightarrow> bool" where
  start: "hal_reach \<lparr>core_hal_list = [], module_refs = (\<lambda>_. 0), released = []\<rparr>"
| core_in: "hal_reach s \<Longrightarrow> hal_reach (snd (register_core_hal_module ok p s))"
| core_out: "hal_reach s \<Longrightarrow> hal_reach (snd (unregister_core_hal_module t s))"
| hw_in: "hal_reach s \<Longrightarrow> register_hw_hal_module mem_ok count_ok live phw s = Some (r, s') \<Longrightarrow> hal_reach s'"
| hw_out: "hal_reach s \<Longrightarrow> hal_reach (snd (unregister_hw_hal_module t d s))"
| opened: "hal_reach s \<Longrightarrow> hw_open alive t m s = Some (o', s') \<Longrightarrow> hal_reach s'"
| closed: "hal_reach s \<Longrightarrow> hw_close t m s = Some (n, s') \<Longrightarrow> hal_reach s'"

lemma hal_reach_wf: "hal_reach s \<Longrightarrow> hal_wf s"
proof (induction rule: hal_reach.induct)
  case start
  then show ?case by (simp add: hal_wf_def cores_wf_def)
next
  case (opened s alive t m o' s')
  then show ?case using hw_open_ok [of s alive t m] by auto
next
  case (closed s t m n s')
  then show ?case using hw_close_ok [of s t m] by auto
qed (simp_all add: register_core_ok unregister_core_ok unregister_hw_ok register_hw_ok)

section \<open>Open and close\<close>

lemma open_close_hw:
  "\<forall>h \<in> set hs. entry_wf t h \<Longrightarrow> open_hw live m hs = Some (Opened info n own, hs') \<Longrightarrow>
   close_hw m hs' = Some (Some (n - 1, own), hs)"
proof (induction hs arbitrary: hs')
  case (Cons h hs)
  show ?case
  proof (cases "serves m h")
    case True
    let ?i = "unat m - unat (minor_num h)"
    have f: "count_update (\<lambda>n. n + 1) m h = Some (opencount h ! ?i + 1, h\<lparr>opencount := (opencount h)[?i := opencount h ! ?i + 1]\<rparr>)"
      "?i < length (opencount h)"
      using count_update_ok [of t h m "\<lambda>n. n + 1"] Cons.prems(1) True by auto
    then show ?thesis using Cons.prems True
      by (auto simp: count_update_def serves_def arr_simps Let_def split: if_splits)
  next
    case False
    then show ?thesis using Cons by (auto split: bind_splits)
  qed
qed simp

lemma hw_open_close:
  assumes "hal_wf s" "hw_open live t m s = Some (Inr (n, info), s')"
  shows "hw_close t m s' = Some (Inr (n - 1), s)"
  using assms(1) [unfolded hal_wf_def]
proof (cases rule: cores_cases [where t = t])
  case 1
  then show ?thesis using assms(2) by (simp add: hw_open_def open_in_none)
next
  case (2 xs c ys)
  have wf: "\<forall>h \<in> set (hw_list c). entry_wf t h" using 2(2,5) by (auto simp: core_wf_def core_type_def)
  obtain r hs where hs: "open_hw live m (hw_list c) = Some (r, hs)"
    using open_hw_ok [OF wf, of live m] by blast
  obtain i k own where r: "r = Opened i k own"
    using assms(2) 2 hs by (cases r) (auto simp: hw_open_def open_in_skip open_in_none)
  have s': "k = n" "i = info" "s' = (module_get own s)\<lparr>core_hal_list := xs @ c\<lparr>hw_list := hs\<rparr> # ys\<rparr>"
    using assms(2) 2 hs r by (simp_all add: hw_open_def open_in_skip open_in_none)
  have "close_hw m hs = Some (Some (n - 1, own), hw_list c)"
    using open_close_hw [OF wf] hs r s'(1) by blast
  moreover have "(module_put own ((module_get own s)\<lparr>core_hal_list := xs @ c\<lparr>hw_list := hs\<rparr> # ys\<rparr>))
      \<lparr>core_hal_list := xs @ c # ys\<rparr> = s"
    using 2(1) by (cases s) (simp add: module_put_def module_get_def fun_upd_idem)
  ultimately show ?thesis using 2 s'
    by (simp add: hw_close_def close_in_skip close_in_none)
qed

section \<open>The search for minor numbers\<close>

text \<open>Entries in ascending order, none serving a number of the next, each serving one at least.\<close>

definition ascending :: "('o, 'p) hw_entry list \<Rightarrow> bool" where
  "ascending hs \<longleftrightarrow> sorted_wrt (\<lambda>g h. range_end g \<le> uint (minor_num h)) hs
     \<and> (\<forall>h \<in> set hs. num_instances (hw_hal_of h) \<noteq> 0)"

lemma uint_add_8: "uint a + uint b < 256 \<Longrightarrow> uint (a + b) = uint a + uint b" for a b :: u8
  by (simp add: uint_word_ariths)

lemma uint_pos_8: "n \<noteq> 0 \<Longrightarrow> 0 < uint n" for n :: u8
  using uint_0_iff [of n] uint_ge_0 [of n] by linarith

lemma find_minor_free:
  assumes "\<forall>h \<in> set hs. entry_wf t h" "ascending hs" "\<forall>h \<in> set hs. l \<le> minor_num h"
    "find_minor n l i hs = (m, j)"
  shows "l \<le> m \<and> (\<forall>h \<in> set hs. range_end h \<le> uint m \<or> uint m + uint n \<le> uint (minor_num h))"
  using assms
proof (induction hs arbitrary: l i)
  case (Cons h hs)
  have later: "range_end h \<le> uint (minor_num g)" if "g \<in> set hs" for g
    using Cons.prems(2) that by (simp add: ascending_def)
  have e: "uint (minor_num h + num_instances (hw_hal_of h)) = range_end h"
    using Cons.prems(1) uint_add_8 by (simp add: entry_wf_def range_end_def MAX_DEV_INSTANCES_def)
  have up: "uint (minor_num h) \<le> range_end h" by (simp add: range_end_def)
  show ?case
  proof (cases "uint n \<le> uint (minor_num h) - uint l")
    case True
    then have "uint l + uint n \<le> uint (minor_num g)" if "g \<in> set (h # hs)" for g
      using that later [of g] up by auto
    then show ?thesis using True Cons.prems(4) by simp
  next
    case False
    let ?l = "minor_num h + num_instances (hw_hal_of h)"
    have "?l \<le> m \<and> (\<forall>g \<in> set hs. range_end g \<le> uint m \<or> uint m + uint n \<le> uint (minor_num g))"
    proof (rule Cons.IH)
      show "ascending hs" using Cons.prems(2) by (simp add: ascending_def)
      show "\<forall>g \<in> set hs. ?l \<le> minor_num g" using later e by (simp add: word_le_def)
      show "find_minor n ?l (Suc i) hs = (m, j)" using False Cons.prems(4) by simp
    qed (use Cons.prems(1) in simp)
    moreover have "l \<le> minor_num h" using Cons.prems(3) by simp
    ultimately show ?thesis using e up by (auto simp: word_le_def)
  qed
qed simp

lemma intr_hw_other: "dev_id nh \<noteq> d \<Longrightarrow> intr_hw d (xs @ nh # ys) = intr_hw d (xs @ ys)"
  by (induction xs) auto

lemma intr_hw_this: "\<forall>h \<in> set xs. dev_id h \<noteq> dev_id nh \<Longrightarrow> intr_hw (dev_id nh) (xs @ nh # ys) = Some (pdrv_data nh)"
  by (induction xs) auto

lemma open_hw_this:
  "\<forall>h \<in> set xs. \<not> serves m h \<Longrightarrow> serves m nh \<Longrightarrow> live (hw_owner (hw_hal_of nh)) \<Longrightarrow>
   open_hw live m (xs @ nh # ys) =
     map_option (\<lambda>(n, h'). (Opened \<lparr>inst_num = uint m - uint (minor_num nh), pdrv = pdrv_data nh\<rparr> n
        (hw_owner (hw_hal_of nh)), xs @ h' # ys)) (count_update (\<lambda>n. n + 1) m nh)"
  by (induction xs) (auto simp: bind_map_option comp_def map_conv_bind_option split_beta split: bind_splits)

definition new_hw :: "'o hw_hal \<Rightarrow> u8 \<Rightarrow> 'p \<Rightarrow> ('o, 'p) hw_entry" where
  "new_hw phw m p = \<lparr>dev_id = uint m, minor_num = m, opencount = replicate (unat (num_instances phw)) 0,
     hw_hal_of = phw, pdrv_data = p\<rparr>"

lemma new_hw_simps [simp]:
  "dev_id (new_hw phw m p) = uint m" "minor_num (new_hw phw m p) = m"
  "opencount (new_hw phw m p) = replicate (unat (num_instances phw)) 0"
  "hw_hal_of (new_hw phw m p) = phw" "pdrv_data (new_hw phw m p) = p"
  by (simp_all add: new_hw_def)

lemma register_hw_result:
  assumes "\<forall>x \<in> set xs. core_type x \<noteq> hw_dev_type phw" "core_hal_list s = xs @ c # ys"
    "core_type c = hw_dev_type phw"
    "register_hw_hal_module True True True phw s = Some (Inr (d, f), s')"
  shows "\<exists>m j p. find_minor (num_instances phw) 0 0 (hw_list c) = (m, j) \<and> d = uint m \<and>
    uint m + uint (num_instances phw) \<le> MAX_DEV_INSTANCES \<and>
    register_hal_module (core_hal_of c) (num_instances phw) (phal_ops phw) = Inr p \<and>
    f = pcore_funcs (core_hal_of c) \<and>
    core_hal_list s' = xs @ c\<lparr>hw_list := link_hw j (new_hw phw m p) (hw_list c)\<rparr> # ys"
  using assms
  by (auto simp: register_hw_hal_module_def register_in_skip register_with_core_def Let_def new_hw_def
      split: prod.splits sum.splits if_splits)

lemma register_fresh:
  assumes wf: "hal_wf s" and c: "c \<in> set (core_hal_list s)" "core_type c = hw_dev_type phw"
    and asc: "ascending (hw_list c)" and n: "num_instances phw \<noteq> 0"
    and reg: "register_hw_hal_module True True True phw s = Some (Inr (d, f), s')"
  shows "\<exists>p. register_hal_module (core_hal_of c) (num_instances phw) (phal_ops phw) = Inr p \<and>
    hw_intr (hw_dev_type phw) d s' = Some p \<and>
    (\<forall>d'. d' \<noteq> d \<longrightarrow> hw_intr (hw_dev_type phw) d' s' = hw_intr (hw_dev_type phw) d' s) \<and>
    (\<forall>m live. d \<le> uint m \<and> uint m < d + uint (num_instances phw) \<and> live (hw_owner phw) \<longrightarrow>
       (\<exists>s''. hw_open live (hw_dev_type phw) m s' = Some (Inr (1, \<lparr>inst_num = uint m - d, pdrv = p\<rparr>), s'')))"
  using wf [unfolded hal_wf_def]
proof (cases rule: cores_cases [where t = "hw_dev_type phw"])
  case 1
  then show ?thesis using c by blast
next
  case (2 xs b ys)
  then have b: "b = c" using c by auto
  note l = 2(1) [unfolded b]
  obtain m j p where r: "find_minor (num_instances phw) 0 0 (hw_list c) = (m, j)" "d = uint m"
    "register_hal_module (core_hal_of c) (num_instances phw) (phal_ops phw) = Inr p"
    "core_hal_list s' = xs @ c\<lparr>hw_list := link_hw j (new_hw phw m p) (hw_list c)\<rparr> # ys"
    using register_hw_result [OF 2(3) l c(2) reg] by blast
  have ewf: "\<forall>h \<in> set (hw_list c). entry_wf (hw_dev_type phw) h"
    using 2(2,5) b by (auto simp: core_wf_def core_type_def)
  have free: "range_end h \<le> d \<or> d + uint (num_instances phw) \<le> uint (minor_num h)" if "h \<in> set (hw_list c)" for h
    using find_minor_free [OF ewf asc _ r(1)] that r(2) by simp
  define us vs where "us = take j (hw_list c)" and "vs = drop j (hw_list c)"
  have uv: "hw_list c = us @ vs" "link_hw j (new_hw phw m p) (hw_list c) = us @ new_hw phw m p # vs"
    by (simp_all add: us_def vs_def link_hw_def)
  have ids: "dev_id h \<noteq> d" if "h \<in> set us" for h
  proof -
    have h: "h \<in> set (hw_list c)" using that uv(1) by simp
    then have "0 < uint (num_instances (hw_hal_of h))" "0 < uint (num_instances phw)"
      using asc n by (simp_all add: ascending_def uint_pos_8)
    then show ?thesis using free [OF h] ewf h by (auto simp: entry_wf_def range_end_def)
  qed
  have id: "dev_id (new_hw phw m p) = d" "pdrv_data (new_hw phw m p) = p" using r(2) by simp_all
  have i1: "hw_intr (hw_dev_type phw) d s' = Some p"
    using intr_hw_this [of us "new_hw phw m p" vs] ids id 2(3) c(2) r(4) uv(2) by (simp add: hw_intr_def intr_in_skip)
  have i2: "hw_intr (hw_dev_type phw) d' s' = hw_intr (hw_dev_type phw) d' s" if "d' \<noteq> d" for d'
    using intr_hw_other [of "new_hw phw m p" d' us vs] that id 2(3) c(2) r(4) uv l by (simp add: hw_intr_def intr_in_skip)
  have i3: "\<exists>s''. hw_open live (hw_dev_type phw) k s' = Some (Inr (1, \<lparr>inst_num = uint k - d, pdrv = p\<rparr>), s'')"
    if k: "d \<le> uint k" "uint k < d + uint (num_instances phw)" "live (hw_owner phw)" for k live
  proof -
    let ?i = "unat k - unat m"
    have ns: "\<forall>h \<in> set us. \<not> serves k h"
    proof
      fix h
      assume "h \<in> set us"
      then have "range_end h \<le> d \<or> d + uint (num_instances phw) \<le> uint (minor_num h)"
        using free uv(1) by simp
      then show "\<not> serves k h" using k by (auto simp: serves_range word_le_def)
    qed
    have sv: "serves k (new_hw phw m p)" using k r(2) by (simp add: serves_def word_le_def)
    have "int (unat k) < int (unat m) + int (unat (num_instances phw))" "unat m \<le> unat k"
      using k r(2) by (simp_all flip: word_le_nat_alt add: word_le_def)
    then have "?i < unat (num_instances phw)" by linarith
    then have "count_update (\<lambda>n. n + 1) k (new_hw phw m p) =
        Some (1, (new_hw phw m p)\<lparr>opencount := (replicate (unat (num_instances phw)) 0)[?i := 1]\<rparr>)"
      by (simp add: count_update_def arr_simps Let_def)
    then show ?thesis
      using open_hw_this [OF ns sv, of live vs] k(3) 2(3,4) c(2) r(2,4) uv(2)
      by (simp add: hw_open_def open_in_skip open_in_none)
  qed
  show ?thesis using r(3) i1 i2 i3 by blast
qed

section \<open>The list is not kept in order\<close>

lemma third_collides:
  assumes s: "core_hal_list s = xs @ c # ys" "\<forall>x \<in> set xs. core_type x \<noteq> t" "core_type c = t" "hw_list c = []"
    and t: "hw_dev_type a = t" "hw_dev_type b = t" "hw_dev_type e = t"
    and n: "num_instances a \<noteq> 0" "num_instances b \<noteq> 0"
    and r1: "register_hw_hal_module True True True a s = Some (Inr (d1, f1), s1)"
    and r2: "register_hw_hal_module True True True b s1 = Some (Inr (d2, f2), s2)"
    and r3: "register_hw_hal_module True True True e s2 = Some (Inr (d3, f3), s3)"
  shows "d1 = 0 \<and> d2 = uint (num_instances a) \<and> d3 = (if num_instances e \<le> num_instances a then d1 else d2) \<and>
    (\<exists>p. register_hal_module (core_hal_of c) (num_instances e) (phal_ops e) = Inr p \<and> hw_intr t d3 s3 = Some p)"
proof -
  obtain p1 where p1: "d1 = 0" "core_hal_list s1 = xs @ c\<lparr>hw_list := [new_hw a 0 p1]\<rparr> # ys"
    using register_hw_result [OF _ s(1) _ r1] s t by (auto simp: link_hw_def)
  have "uint (num_instances b) \<le> uint (0 :: u8) - uint (0 :: u8) \<longleftrightarrow> False"
    using n(2) uint_pos_8 [of "num_instances b"] by simp
  then obtain p2 where p2: "d2 = uint (num_instances a)" "uint (num_instances a) + uint (num_instances b) \<le> 255"
    "core_hal_list s2 = xs @ c\<lparr>hw_list := [new_hw b (num_instances a) p2, new_hw a 0 p1]\<rparr> # ys"
    using register_hw_result [OF _ p1(2) _ r2] s t by (auto simp: link_hw_def MAX_DEV_INSTANCES_def)
  have a: "0 < uint (num_instances a)" "0 < uint (num_instances b)" using n by (simp_all add: uint_pos_8)
  show ?thesis
  proof (cases "num_instances e \<le> num_instances a")
    case True
    then have "find_minor (num_instances e) 0 0 [new_hw b (num_instances a) p2, new_hw a 0 p1] = (0, 1)"
      by (simp add: word_le_def)
    then obtain p3 where p3: "d3 = 0" "register_hal_module (core_hal_of c) (num_instances e) (phal_ops e) = Inr p3"
      "core_hal_list s3 = xs @ c\<lparr>hw_list := [new_hw b (num_instances a) p2, new_hw e 0 p3, new_hw a 0 p1]\<rparr> # ys"
      using register_hw_result [OF _ p2(3) _ r3] s t by (auto simp: link_hw_def)
    then show ?thesis using True p1 p2 s a by (auto simp: hw_intr_def intr_in_skip)
  next
    case False
    then have ne: "\<not> uint (num_instances e) \<le> uint (num_instances a)" by (simp add: word_le_def)
    have "uint (num_instances a + num_instances b) = uint (num_instances a) + uint (num_instances b)"
      using p2(2) by (intro uint_add_8) simp
    then have "find_minor (num_instances e) 0 0 [new_hw b (num_instances a) p2, new_hw a 0 p1] = (num_instances a, 0)"
      using ne a by simp
    then obtain p3 where p3: "d3 = uint (num_instances a)"
      "register_hal_module (core_hal_of c) (num_instances e) (phal_ops e) = Inr p3"
      "core_hal_list s3 = xs @ c\<lparr>hw_list := [new_hw e (num_instances a) p3, new_hw b (num_instances a) p2, new_hw a 0 p1]\<rparr> # ys"
      using register_hw_result [OF _ p2(3) _ r3] s t by (auto simp: link_hw_def)
    then show ?thesis using False p1 p2 s by (auto simp: hw_intr_def intr_in_skip)
  qed
qed

section \<open>A sample registry\<close>

text \<open>A core that hands the hardware's operations back as driver data, and hardware modules for it.\<close>

definition core0 :: "(nat, nat, nat) core_hal" where
  "core0 = \<lparr>core_dev_type = EDEV_TYPE_BT, core_owner = 1, register_hal_module = (\<lambda>n ops. Inr ops), pcore_funcs = 0\<rparr>"

definition hw0 :: "u8 \<Rightarrow> nat \<Rightarrow> nat hw_hal" where
  "hw0 n k = \<lparr>hw_dev_type = EDEV_TYPE_BT, hw_owner = k, num_instances = n, phal_ops = k\<rparr>"

definition hal0 :: "(nat, nat, nat) registry" where
  "hal0 = \<lparr>core_hal_list = [\<lparr>core_hal_of = core0, hw_list = []\<rparr>], module_refs = (\<lambda>_. 0), released = []\<rparr>"

text \<open>The sample with one hardware module of two instances.\<close>

definition hal1 :: "(nat, nat, nat) registry" where
  "hal1 = \<lparr>core_hal_list = [\<lparr>core_hal_of = core0, hw_list = [new_hw (hw0 2 7) 0 7]\<rparr>],
     module_refs = (\<lambda>_. 0)(1 := 1), released = []\<rparr>"

lemma hal0_reach: "hal_reach hal0"
  using hal_reach.core_in [OF hal_reach.start, of True core0]
  by (simp add: register_core_hal_module_def hal0_def)

lemmas register_run = register_hw_hal_module_def register_with_core_def MAX_DEV_INSTANCES_def
  link_hw_def module_get_def core0_def hw0_def core_type_def

lemma hal1_registered: "register_hw_hal_module True True True (hw0 2 7) hal0 = Some (Inr (0, 0), hal1)"
  by (simp add: register_run hal0_def hal1_def new_hw_def)

lemma hal1_reach: "hal_reach hal1"
  by (rule hal_reach.hw_in [OF hal0_reach hal1_registered])

section \<open>Properties\<close>

text \<open>
  C30. In every state the calls of the registry reach, there is at most one core per device type, and
  every hardware module has the type of its core, a device id that is its first minor number, minor numbers that end by 255,
  and one open count for each of them; so open and close never index outside the open counts. It does not
  say that the numbers of different modules differ: those of a third module collide
  (\<open>hal_third_module_collides\<close> below).
\<close>

theorem hal_registry_sound:
  assumes "hal_reach s"
  shows "hal_wf s \<and> hw_open live t m s \<noteq> None \<and> hw_close t m s \<noteq> None"
  using hal_reach_wf [OF assms] hw_open_ok [OF hal_reach_wf [OF assms], of live t m]
    hw_close_ok [OF hal_reach_wf [OF assms], of t m]
  by auto

theorem hal_registry_sound_witness:
  "hal_wf hal1 \<and> hw_open (\<lambda>_. True) EDEV_TYPE_BT 1 hal1 \<noteq> None \<and> hw_close EDEV_TYPE_BT 1 hal1 \<noteq> None"
  by (rule hal_registry_sound [OF hal1_reach])

text \<open>
  On a list in ascending order a new hardware module gets minor numbers nobody serves: its
  interrupts find the data its core returned, those of the others are found as before, and every
  minor number of its range opens it, with the instance counted from its first one.
\<close>

theorem hal_register_fresh:
  assumes "hal_wf s" "c \<in> set (core_hal_list s)" "core_type c = hw_dev_type phw"
    "ascending (hw_list c)" "num_instances phw \<noteq> 0"
    "register_hw_hal_module True True True phw s = Some (Inr (d, f), s')"
  shows "\<exists>p. register_hal_module (core_hal_of c) (num_instances phw) (phal_ops phw) = Inr p \<and>
    hw_intr (hw_dev_type phw) d s' = Some p \<and>
    (\<forall>d'. d' \<noteq> d \<longrightarrow> hw_intr (hw_dev_type phw) d' s' = hw_intr (hw_dev_type phw) d' s) \<and>
    (\<forall>m live. d \<le> uint m \<and> uint m < d + uint (num_instances phw) \<and> live (hw_owner phw) \<longrightarrow>
       (\<exists>s''. hw_open live (hw_dev_type phw) m s' = Some (Inr (1, \<lparr>inst_num = uint m - d, pdrv = p\<rparr>), s'')))"
  by (rule register_fresh [OF assms])

theorem hal_register_fresh_witness:
  "\<exists>s'. register_hw_hal_module True True True (hw0 3 8) hal1 = Some (Inr (2, 0), s') \<and>
    hw_intr EDEV_TYPE_BT 2 s' = Some 8 \<and> hw_intr EDEV_TYPE_BT 0 s' = Some 7"
proof -
  have c: "\<lparr>core_hal_of = core0, hw_list = [new_hw (hw0 2 7) 0 7]\<rparr> \<in> set (core_hal_list hal1)"
    by (simp add: hal1_def)
  have t: "core_type \<lparr>core_hal_of = core0, hw_list = [new_hw (hw0 2 7) 0 7]\<rparr> = hw_dev_type (hw0 3 8)"
    by (simp add: core_type_def core0_def hw0_def)
  have a: "ascending (hw_list \<lparr>core_hal_of = core0, hw_list = [new_hw (hw0 2 7) 0 7]\<rparr>)"
    by (simp add: ascending_def hw0_def)
  have n: "num_instances (hw0 3 8) \<noteq> 0" by (simp add: hw0_def)
  obtain s' where s': "register_hw_hal_module True True True (hw0 3 8) hal1 = Some (Inr (2, 0), s')"
    by (simp add: register_run hal1_def)
  have "hw_intr EDEV_TYPE_BT 0 hal1 = Some 7"
    by (simp add: hw_intr_def hal1_def core_type_def core0_def)
  then show ?thesis
    using hal_register_fresh [OF hal_reach_wf [OF hal1_reach] c t a n s'] s'
    by (auto simp: core0_def hw0_def)
qed

text \<open>
  Closing a device that was just opened gives back the open count, the references and every
  list as they were.
\<close>

theorem hal_open_close:
  assumes "hal_reach s" "hw_open live t m s = Some (Inr (n, info), s')"
  shows "hw_close t m s' = Some (Inr (n - 1), s)"
  by (rule hw_open_close [OF hal_reach_wf [OF assms(1)] assms(2)])

theorem hal_open_close_witness:
  "\<exists>s'. hw_open (\<lambda>_. True) EDEV_TYPE_BT 1 hal1 = Some (Inr (1, \<lparr>inst_num = 1, pdrv = 7\<rparr>), s') \<and>
    hw_close EDEV_TYPE_BT 1 s' = Some (Inr 0, hal1)"
proof -
  obtain s' where s': "hw_open (\<lambda>_. True) EDEV_TYPE_BT 1 hal1 = Some (Inr (1, \<lparr>inst_num = 1, pdrv = 7\<rparr>), s')"
    by (simp add: hw_open_def hal1_def core_type_def core0_def serves_def count_update_def arr_simps hw0_def)
  then show ?thesis using hal_open_close [OF hal1_reach s'] by auto
qed

text \<open>
  The third hardware module of a device type gets the device id of an earlier one (of the
  first if it has no more instances than that, else of the second), because new entries are
  linked in at the front while the search takes the list to be ascending; from then on the
  interrupts of that id are handed the third module's data.
\<close>

theorem hal_third_module_collides:
  assumes "core_hal_list s = xs @ c # ys" "\<forall>x \<in> set xs. core_type x \<noteq> t" "core_type c = t" "hw_list c = []"
    "hw_dev_type a = t" "hw_dev_type b = t" "hw_dev_type e = t"
    "num_instances a \<noteq> 0" "num_instances b \<noteq> 0"
    "register_hw_hal_module True True True a s = Some (Inr (d1, f1), s1)"
    "register_hw_hal_module True True True b s1 = Some (Inr (d2, f2), s2)"
    "register_hw_hal_module True True True e s2 = Some (Inr (d3, f3), s3)"
  shows "d1 = 0 \<and> d2 = uint (num_instances a) \<and> d3 = (if num_instances e \<le> num_instances a then d1 else d2) \<and>
    (\<exists>p. register_hal_module (core_hal_of c) (num_instances e) (phal_ops e) = Inr p \<and> hw_intr t d3 s3 = Some p)"
  by (rule third_collides [OF assms])

theorem hal_third_module_collides_witness:
  "\<exists>s2 s3. register_hw_hal_module True True True (hw0 2 8) hal1 = Some (Inr (2, 0), s2) \<and>
    register_hw_hal_module True True True (hw0 1 9) s2 = Some (Inr (0, 0), s3) \<and> hw_intr EDEV_TYPE_BT 0 s3 = Some 9"
proof -
  obtain s2 where s2: "register_hw_hal_module True True True (hw0 2 8) hal1 = Some (Inr (2, 0), s2)"
    "core_hal_list s2 = [\<lparr>core_hal_of = core0, hw_list = [new_hw (hw0 2 8) 2 8, new_hw (hw0 2 7) 0 7]\<rparr>]"
    by (simp add: register_run hal1_def new_hw_def)
  then obtain s3 where s3: "register_hw_hal_module True True True (hw0 1 9) s2 = Some (Inr (0, 0), s3)"
    by (simp add: register_run)
  have "hw_intr EDEV_TYPE_BT 0 s3 = Some 9"
    using hal_third_module_collides [OF _ _ _ _ _ _ _ _ _ hal1_registered s2(1) s3, of "[]"
        "\<lparr>core_hal_of = core0, hw_list = []\<rparr>" "[]" EDEV_TYPE_BT]
    by (simp add: hal0_def core_type_def core0_def hw0_def)
  then show ?thesis using s2 s3 by blast
qed

end
