(* ===== verification/BtCore.thy ===== *)
theory BtCore imports BtHw DriverHalProps begin

text \<open>
  The BT core driver (btmain.c, bt_timeout.c): the channel buffers, the request and response
  calls of the character device, the interrupt entry, open and release over the registry of
  DriverHal, and the ioctls. \<open>None\<close> is an access outside one of the two message arrays.
\<close>

unbundle bit_operations_syntax

section \<open>The channel (bt.h)\<close>

definition BT_PAYLOAD_SIZE :: nat where "BT_PAYLOAD_SIZE = 33 * 1024"

text \<open>
  \<open>BTBuf_T\<close> with the fields of \<open>IPMICmdMsg_T\<close> the driver uses. \<open>pBTRcvPkt\<close> points to the \<open>Request\<close>
  array of the same channel, \<open>pBTSendPkt\<close> to \<open>Response\<close> once a response was sent. \<open>bt_woken\<close>: a
  wake-up was delivered to the wait queue \<open>BtReqWait\<close>.
\<close>

record bt_chan =
  bt_woken :: bool
  BTRcvPktLen :: u32
  BTSendPktLen :: u32
  pBTSendPkt :: bool
  FirstTime :: u8
  BtWakeup :: u8
  BtReqWaiting :: u8
  Request :: "u8 list"
  ResponseSize :: u32
  Response :: "u8 list"

definition Bt_OsInitSleepStruct :: "bt_chan \<Rightarrow> bt_chan" where
  "Bt_OsInitSleepStruct c = c\<lparr>bt_woken := False\<rparr>"

definition Bt_OsWakeupOnTimeout :: "bt_chan \<Rightarrow> bt_chan" where
  "Bt_OsWakeupOnTimeout c = c\<lparr>bt_woken := True\<rparr>"

text \<open>
  \<open>Bt_OsSleepOnTimeout\<close>: the condition that ends the wait, beside a signal and, with a timeout,
  the end of the time. Its result is not used by the caller.
\<close>

definition bt_sleep_cond :: "bt_chan \<Rightarrow> bool" where
  "bt_sleep_cond c \<longleftrightarrow> BtWakeup c \<noteq> 0"

definition bt_sleep_jiffies :: "int \<Rightarrow> int \<Rightarrow> int option" where
  "bt_sleep_jiffies HZ msecs = (if msecs \<noteq> 0 then Some ((HZ * msecs) div 1000) else None)"

section \<open>Requests and responses\<close>

text \<open>
  \<open>bt_request\<close> in the two halves around the point where the process blocks. The wait also ends on
  a signal, which the code does not ask about. \<open>copy_fails\<close>: \<open>__copy_to_user\<close> reports a fault.
\<close>

definition bt_request_enter :: "bt_chan \<Rightarrow> bt_chan" where
  "bt_request_enter c =
     (let c1 = (if FirstTime c \<noteq> 0 then (Bt_OsInitSleepStruct c)\<lparr>FirstTime := 0\<rparr> else c)
      in c1\<lparr>BtReqWaiting := 1\<rparr>)"

definition bt_request_leave :: "bool \<Rightarrow> bt_chan \<Rightarrow> ((errno + u8 list) \<times> bt_chan) option" where
  "bt_request_leave copy_fails c =
     (let c1 = c\<lparr>BtWakeup := 0, BtReqWaiting := 0\<rparr>
      in if copy_fails then Some (Inl EFAULT, c1)
         else if unat (BTRcvPktLen c1) \<le> length (Request c1)
         then Some (Inr (take (unat (BTRcvPktLen c1)) (Request c1)), c1)
         else None)"

definition send_bt_response :: "'h bt_hal_ops \<Rightarrow> u8 \<Rightarrow> 'h \<times> bt_chan \<Rightarrow> ('h \<times> bt_chan) option" where
  "send_bt_response ops ch hc =
     (let (h, c) = hc;
          c1 = c\<lparr>pBTSendPkt := True, BTSendPktLen := ResponseSize c\<rparr>
      in do { h1 \<leftarrow> write_bt_data_buf ops ch (Response c1) (BTSendPktLen c1) h; Some (h1, c1) })"

text \<open>\<open>bt_write\<close>: the count is not compared with the size of the array.\<close>

definition bt_write_request ::
  "'h bt_hal_ops \<Rightarrow> u8 \<Rightarrow> bool \<Rightarrow> u8 list \<Rightarrow> 'h \<times> bt_chan \<Rightarrow> ((errno + nat) \<times> 'h \<times> bt_chan) option" where
  "bt_write_request ops ch copy_fails buf hc =
     (let (h, c) = hc
      in if copy_fails then Some (Inl EFAULT, h, c)
         else if length (Response c) < length buf then None
         else let c1 = c\<lparr>Response := buf @ drop (length buf) (Response c), ResponseSize := of_nat (length buf)\<rparr>
              in do { hc2 \<leftarrow> send_bt_response ops ch (h, c1); Some (Inr (length buf), hc2) })"

text \<open>What \<open>process_bt_intr\<close> does on the channel it found.\<close>

definition bt_recv :: "'h bt_hal_ops \<Rightarrow> u8 \<Rightarrow> int \<Rightarrow> 'h \<times> bt_chan \<Rightarrow> ('h \<times> bt_chan) option" where
  "bt_recv ops ch Error hc =
     (let (h, c) = hc
      in do { (h1, c1) \<leftarrow>
                (if Error = 0
                 then do { (req, h1) \<leftarrow> read_bt_data_buf ops ch (Request c) h;
                           len \<leftarrow> arr_get req 0;
                           Some (h1, c\<lparr>Request := req, BTRcvPktLen := ucast len + 1\<rparr>) }
                 else do { req \<leftarrow> arr_set (Request c) 0 0xFF;
                           Some (h, c\<lparr>BTRcvPktLen := 1, Request := req\<rparr>) });
              Some (h1, Bt_OsWakeupOnTimeout (c1\<lparr>BtWakeup := 1\<rparr>)) })"

section \<open>Registration, open and release\<close>

text \<open>
  The state beside the hardware: the registry, and for every driver data pointer the array
  \<open>pbt_buf\<close> of its channels.
\<close>

type_synonym ('o, 'p, 'f) bt_sys = "('o, 'p, 'f) registry \<times> ('p \<Rightarrow> bt_chan list)"

definition bt_register_chan :: "bt_chan \<Rightarrow> bt_chan" where
  "bt_register_chan c = c\<lparr>BtWakeup := 0, FirstTime := 1\<rparr>"

text \<open>The three flags say which of the three allocations succeed; \<open>cs\<close> is what the memory held.\<close>

definition register_bt_hal_module ::
  "bool \<Rightarrow> bool \<Rightarrow> bool \<Rightarrow> bt_chan list \<Rightarrow> errno + bt_chan list" where
  "register_bt_hal_module hal_ok buf_ok msg_ok cs =
     (if \<not> hal_ok then Inl ENOMEM else if \<not> buf_ok then Inl ENOMEM else if \<not> msg_ok then Inl ENOMEM
      else Inr (map bt_register_chan cs))"

definition bt_open_chan :: "u8 \<Rightarrow> bt_chan \<Rightarrow> bt_chan" where
  "bt_open_chan open_count c =
     (if open_count = 1
      then Bt_OsInitSleepStruct (c\<lparr>BTRcvPktLen := 0, BTSendPktLen := 0, BtWakeup := 0, BtReqWaiting := 0\<rparr>)
      else c)"

text \<open>The result is the errno or the private data: the driver data and the channel number.\<close>

definition bt_open ::
  "(module \<Rightarrow> bool) \<Rightarrow> bool \<Rightarrow> u32 \<Rightarrow> ('o, 'p, 'f) bt_sys \<Rightarrow> ((errno + 'p \<times> u8) \<times> ('o, 'p, 'f) bt_sys) option" where
  "bt_open live mem_ok minor s =
     (let (reg, bufs) = s
      in do { (r, reg1) \<leftarrow> hw_open live EDEV_TYPE_BT (ucast minor) reg;
              case r of
                Inl e \<Rightarrow> Some (Inl ENXIO, reg1, bufs)
              | Inr (open_count, info) \<Rightarrow>
                  (if \<not> mem_ok
                   then do { (_, reg2) \<leftarrow> hw_close EDEV_TYPE_BT (ucast minor) reg1; Some (Inl ENOMEM, reg2, bufs) }
                   else let p = pdrv info; i = nat (inst_num info)
                        in do { c \<leftarrow> arr_get (bufs p) i;
                                Some (Inr (p, word_of_int (inst_num info)), reg1,
                                      bufs(p := (bufs p)[i := bt_open_chan open_count c])) }) })"

definition bt_release ::
  "u32 \<Rightarrow> ('o, 'p, 'f) bt_sys \<Rightarrow> ((errno + unit) \<times> ('o, 'p, 'f) bt_sys) option" where
  "bt_release minor s =
     (let (reg, bufs) = s
      in do { (r, reg1) \<leftarrow> hw_close EDEV_TYPE_BT (ucast minor) reg;
              Some (case r of Inl e \<Rightarrow> Inl EFAIL | Inr n \<Rightarrow> Inr (), reg1, bufs) })"

text \<open>\<open>process_bt_intr\<close>: the channel array is found through the device id.\<close>

definition process_bt_intr ::
  "'h bt_hal_ops \<Rightarrow> int \<Rightarrow> u8 \<Rightarrow> int \<Rightarrow> 'h \<times> ('o, 'p, 'f) bt_sys
    \<Rightarrow> ((errno + unit) \<times> 'h \<times> ('o, 'p, 'f) bt_sys) option" where
  "process_bt_intr ops bt_id ch Error hs =
     (let (h, reg, bufs) = hs
      in case hw_intr EDEV_TYPE_BT bt_id reg of
           None \<Rightarrow> Some (Inl ENXIO, hs)
         | Some p \<Rightarrow> do { c \<leftarrow> arr_get (bufs p) (unat ch);
                         (h1, c1) \<leftarrow> bt_recv ops ch Error (h, c);
                         Some (Inr (), h1, reg, bufs(p := (bufs p)[unat ch := c1])) })"

section \<open>The ioctls\<close>

text \<open>The argument is absent when \<open>copy_from_user\<close> fails.\<close>

datatype bt_ioctl_cmd =
    BT_SET_SMS_BIT "u8 option"
  | BT_CLEAR_SMS_BIT "u8 option"
  | BT_ENABLE
  | BT_DISABLE
  | BT_OTHER_IOCTL

definition bt_set_sms_bit :: "'h bt_hal_ops \<Rightarrow> u8 option \<Rightarrow> 'h \<Rightarrow> (errno + unit) \<times> 'h" where
  "bt_set_sms_bit ops arg h =
     (case arg of None \<Rightarrow> (Inl EFAULT, h) | Some ifc \<Rightarrow> (Inr (), set_sms_bit ops ifc h))"

definition bt_clear_sms_bit :: "'h bt_hal_ops \<Rightarrow> u8 option \<Rightarrow> 'h \<Rightarrow> (errno + unit) \<times> 'h" where
  "bt_clear_sms_bit ops arg h =
     (case arg of None \<Rightarrow> (Inl EFAULT, h) | Some ifc \<Rightarrow> (Inr (), clr_sms_bit ops ifc h))"

fun bt_ioctlUnlocked :: "'h bt_hal_ops \<Rightarrow> bt_ioctl_cmd \<Rightarrow> 'h \<Rightarrow> (errno + unit) \<times> 'h" where
  "bt_ioctlUnlocked ops (BT_SET_SMS_BIT a) h = bt_set_sms_bit ops a h"
| "bt_ioctlUnlocked ops (BT_CLEAR_SMS_BIT a) h = bt_clear_sms_bit ops a h"
| "bt_ioctlUnlocked ops BT_ENABLE h = (Inr (), bt_interrupt_enable_user ops h)"
| "bt_ioctlUnlocked ops BT_DISABLE h = (Inr (), bt_interrupt_disable_user ops h)"
| "bt_ioctlUnlocked ops BT_OTHER_IOCTL h = (Inr (), h)"

end
