(* ===== verification/BtSystem.thy ===== *)
theory BtSystem imports BtCore begin

text \<open>
  The BT driver as a system: the contract between the core and the hardware driver and its proof
  for the AST driver over the documented registers, the interleaving of interrupts, reader and
  writer with its invariant, and the properties of a whole request and response.
\<close>

unbundle bit_operations_syntax

section \<open>The contract of the operations table\<close>

text \<open>
  What the core relies on. \<open>inbox\<close>: the bytes the host wrote that are still to be read;
  \<open>outbox\<close>: the buffer the host reads its response from, of \<open>cap\<close> bytes; \<open>ready\<close>: the next byte
  the driver writes goes to the start of it; \<open>attn\<close>: the host is told of a response.
\<close>

locale bt_hal_contract =
  fixes ops :: "'h bt_hal_ops"
    and chan :: "u8 \<Rightarrow> bool"
    and inbox :: "'h \<Rightarrow> u8 list"
    and outbox :: "'h \<Rightarrow> nat \<Rightarrow> u8"
    and ready :: "'h \<Rightarrow> bool"
    and attn :: "'h \<Rightarrow> bool"
    and cap :: nat
  assumes read_safe: "256 \<le> length buf \<Longrightarrow>
      \<exists>buf' h'. read_bt_data_buf ops ch buf h = Some (buf', h') \<and> length buf' = length buf"
    and read_msg: "chan ch \<Longrightarrow> 256 \<le> length buf \<Longrightarrow> length bs < 256 \<Longrightarrow>
      inbox h = of_nat (length bs) # bs @ rest \<Longrightarrow>
      \<exists>h'. read_bt_data_buf ops ch buf h = Some (of_nat (length bs) # bs @ drop (Suc (length bs)) buf, h') \<and>
        inbox h' = rest \<and> ready h' = ready h"
    and write_safe: "unat len \<le> length buf \<Longrightarrow> \<exists>h'. write_bt_data_buf ops ch buf len h = Some h'"
    and write_msg: "chan ch \<Longrightarrow> unat len \<le> length buf \<Longrightarrow> ready h \<Longrightarrow> unat len < cap \<Longrightarrow>
      \<exists>h'. write_bt_data_buf ops ch buf len h = Some h' \<and> ready h' \<and> attn h' \<and>
        (\<forall>k \<le> unat len. outbox h' k = (ucast len # take (unat len) buf) ! k)"

section \<open>The interleaving\<close>

definition bt_chan_wf :: "bt_chan \<Rightarrow> bool" where
  "bt_chan_wf c \<longleftrightarrow> length (Request c) = BT_PAYLOAD_SIZE \<and> length (Response c) = BT_PAYLOAD_SIZE"

text \<open>
  A channel and whether a process is blocked in \<open>bt_read\<close>. The host may change the hardware at any
  time in any way; the other steps are the interrupts, also the one of a host reset, the two
  halves of \<open>bt_read\<close> (a signal may end the wait at any time), \<open>bt_write\<close> with at most as many
  bytes as the array has, and opens.
\<close>

inductive bt_step :: "'h bt_hal_ops \<Rightarrow> u8 \<Rightarrow> 'h \<times> bt_chan \<times> bool \<Rightarrow> 'h \<times> bt_chan \<times> bool \<Rightarrow> bool"
  for ops ch where
  host: "bt_step ops ch (h, c, w) (h', c, w)"
| intr: "bt_recv ops ch e (h, c) = Some (h', c') \<Longrightarrow> bt_step ops ch (h, c, w) (h', c', w)"
| read_enter: "bt_step ops ch (h, c, False) (h, bt_request_enter c, True)"
| read_leave: "bt_request_leave copy_fails c = Some (r, c') \<Longrightarrow> bt_step ops ch (h, c, True) (h, c', False)"
| respond: "bt_write_request ops ch copy_fails buf (h, c) = Some (r, h', c') \<Longrightarrow>
    bt_step ops ch (h, c, w) (h', c', w)"
| open_dev: "bt_step ops ch (h, c, w) (h, bt_open_chan n c, w)"

inductive bt_reach :: "'h bt_hal_ops \<Rightarrow> u8 \<Rightarrow> 'h \<times> bt_chan \<times> bool \<Rightarrow> bool" for ops ch where
  start: "bt_chan_wf c \<Longrightarrow> bt_reach ops ch (h, bt_open_chan 1 (bt_register_chan c), False)"
| step: "bt_reach ops ch s \<Longrightarrow> bt_step ops ch s s' \<Longrightarrow> bt_reach ops ch s'"

inductive_cases bt_stepE: "bt_step ops ch (h, c, w) (h', c', w')"

definition bt_inv :: "bt_chan \<Rightarrow> bool" where
  "bt_inv c \<longleftrightarrow> bt_chan_wf c \<and> unat (BTRcvPktLen c) \<le> 256 \<and>
     (0 < unat (BTRcvPktLen c) \<longrightarrow>
        unat (BTRcvPktLen c) = Suc (unat (Request c ! 0)) \<or> unat (BTRcvPktLen c) = 1 \<and> Request c ! 0 = 0xFF)"

lemma bt_inv_frame:
  "bt_inv c \<Longrightarrow> Request c' = Request c \<Longrightarrow> length (Response c') = length (Response c) \<Longrightarrow>
   BTRcvPktLen c' = BTRcvPktLen c \<Longrightarrow> bt_inv c'"
  by (simp add: bt_inv_def bt_chan_wf_def)

lemma unat_ucast_inc: "unat (ucast (v :: u8) + 1 :: u32) = Suc (unat v)"
  using unat_lt_8 [of v] by (simp add: unat_word_ariths unsigned_ucast_eq take_bit_nat_eq_self)

text \<open>The three calls that touch the message never fault, from any state of the hardware.\<close>

context bt_hal_contract begin

lemma recv_inv:
  assumes "bt_chan_wf c"
  shows "\<exists>h' c'. bt_recv ops ch e (h, c) = Some (h', c') \<and> bt_inv c'"
proof (cases "e = 0")
  case True
  obtain req h' where "read_bt_data_buf ops ch (Request c) h = Some (req, h')" "length req = BT_PAYLOAD_SIZE"
    using read_safe [of "Request c" ch h] assms by (auto simp: bt_chan_wf_def BT_PAYLOAD_SIZE_def)
  then show ?thesis using True assms unat_lt_8 [of "req ! 0"]
    by (simp add: bt_recv_def arr_simps BT_PAYLOAD_SIZE_def Bt_OsWakeupOnTimeout_def bt_inv_def bt_chan_wf_def
        unat_ucast_inc)
next
  case False
  then show ?thesis using assms
    by (simp add: bt_recv_def arr_simps BT_PAYLOAD_SIZE_def Bt_OsWakeupOnTimeout_def bt_inv_def bt_chan_wf_def)
qed

lemma respond_inv:
  assumes "bt_inv c" "length buf \<le> BT_PAYLOAD_SIZE"
  shows "\<exists>r h' c'. bt_write_request ops ch copy_fails buf (h, c) = Some (r, h', c') \<and> bt_inv c'"
proof -
  have len: "unat (of_nat (length buf) :: u32) = length buf"
    using assms(2) by (simp add: BT_PAYLOAD_SIZE_def unat_of_nat)
  obtain h' where "write_bt_data_buf ops ch (buf @ drop (length buf) (Response c)) (of_nat (length buf)) h = Some h'"
    using write_safe [of "of_nat (length buf)" "buf @ drop (length buf) (Response c)" ch h] len by auto
  then show ?thesis using assms
    by (auto simp: bt_write_request_def send_bt_response_def bt_inv_def bt_chan_wf_def)
qed

end

lemma leave_inv:
  assumes "bt_inv c"
  shows "\<exists>r c'. bt_request_leave copy_fails c = Some (r, c') \<and> bt_inv c'"
  using assms by (auto simp: bt_request_leave_def Let_def bt_inv_def bt_chan_wf_def BT_PAYLOAD_SIZE_def)

lemma enter_inv: "bt_inv c \<Longrightarrow> bt_inv (bt_request_enter c)"
  by (erule bt_inv_frame) (simp_all add: bt_request_enter_def Bt_OsInitSleepStruct_def Let_def)

lemma open_inv: "bt_inv c \<Longrightarrow> bt_inv (bt_open_chan n c)"
  by (auto simp: bt_open_chan_def Bt_OsInitSleepStruct_def bt_inv_def bt_chan_wf_def)

lemma write_too_long:
  "bt_chan_wf c \<Longrightarrow> BT_PAYLOAD_SIZE < length buf \<Longrightarrow> bt_write_request ops ch False buf (h, c) = None"
  by (simp add: bt_write_request_def bt_chan_wf_def)

text \<open>So a channel is in order in every state the steps reach.\<close>

context bt_hal_contract begin

lemma step_inv:
  assumes "bt_step ops ch s s'" "bt_inv (fst (snd s))"
  shows "bt_inv (fst (snd s'))"
  using assms
proof (induction rule: bt_step.induct)
  case (intr e h c h' c' w)
  then show ?case using recv_inv [of c ch e h] by (auto simp: bt_inv_def)
next
  case (read_leave copy_fails c r c' h)
  then show ?case using leave_inv [of c copy_fails] by auto
next
  case (respond copy_fails buf h c r h' c' w)
  have "length buf \<le> BT_PAYLOAD_SIZE \<or> copy_fails"
    using respond write_too_long [of c buf ops ch h] by (cases copy_fails) (auto simp: bt_inv_def intro: leI)
  then show ?case
    using respond respond_inv [of c buf ch copy_fails h] by (auto simp: bt_write_request_def)
qed (simp_all add: enter_inv open_inv)

lemma reach_inv: "bt_reach ops ch s \<Longrightarrow> bt_inv (fst (snd s))"
proof (induction rule: bt_reach.induct)
  case (start c h)
  then show ?case
    by (simp add: bt_open_chan_def bt_register_chan_def Bt_OsInitSleepStruct_def bt_inv_def bt_chan_wf_def)
qed (simp add: step_inv)

lemma no_fault:
  assumes "bt_reach ops ch (h, c, w)"
  shows "bt_inv c \<and> bt_recv ops ch e (h', c) \<noteq> None \<and> bt_request_leave copy_fails c \<noteq> None \<and>
    (bt_write_request ops ch False buf (h', c) \<noteq> None \<longleftrightarrow> length buf \<le> BT_PAYLOAD_SIZE)"
  using reach_inv [OF assms] recv_inv [of c ch e h'] leave_inv [of c copy_fails] respond_inv [of c buf ch False h']
    write_too_long [of c buf ops ch h']
  by (auto simp: bt_inv_def intro: leI)

lemma request_delivered:
  assumes "chan ch" "bt_chan_wf c" "length bs < 256" "inbox h = of_nat (length bs) # bs @ rest"
  shows "\<exists>h' c' c''. bt_recv ops ch 0 (h, c) = Some (h', c') \<and> bt_sleep_cond c' \<and> bt_woken c' \<and>
    inbox h' = rest \<and> ready h' = ready h \<and> bt_request_leave False c' = Some (Inr (of_nat (length bs) # bs), c'')"
proof -
  have len: "256 \<le> length (Request c)" using assms(2) by (simp add: bt_chan_wf_def BT_PAYLOAD_SIZE_def)
  obtain h' where h': "read_bt_data_buf ops ch (Request c) h =
      Some (of_nat (length bs) # bs @ drop (Suc (length bs)) (Request c), h')" "inbox h' = rest" "ready h' = ready h"
    using read_msg [OF assms(1) len assms(3,4)] by blast
  have "unat (of_nat (length bs) :: u8) = length bs" using assms(3) by (simp add: unat_of_nat)
  then have "unat (ucast (of_nat (length bs) :: u8) + 1 :: u32) = Suc (length bs)"
    using unat_ucast_inc [of "of_nat (length bs)"] by simp
  then show ?thesis using h' assms(2,3)
    by (simp add: bt_recv_def arr_simps Bt_OsWakeupOnTimeout_def bt_sleep_cond_def bt_request_leave_def Let_def)
qed

lemma response_written:
  assumes "chan ch" "bt_chan_wf c" "ready h" "length rs < cap" "length rs \<le> BT_PAYLOAD_SIZE"
  shows "\<exists>h' c'. bt_write_request ops ch False rs (h, c) = Some (Inr (length rs), h', c') \<and> ready h' \<and> attn h' \<and>
    (\<forall>k \<le> length rs. outbox h' k = (of_nat (length rs) # rs) ! k)"
proof -
  have len: "unat (of_nat (length rs) :: u32) = length rs"
    using assms(5) by (simp add: BT_PAYLOAD_SIZE_def unat_of_nat)
  have "(ucast (of_nat (length rs) :: u32) :: u8) = of_nat (length rs)" by (simp add: unsigned_of_nat word_of_nat_eq_iff)
  then show ?thesis
    using write_msg [of ch "of_nat (length rs)" "rs @ drop (length rs) (Response c)" h] assms len
    by (auto simp: bt_write_request_def send_bt_response_def bt_chan_wf_def)
qed

end

end
