(* ===== verification/BtDevice.thy ===== *)
theory BtDevice imports BtSystem begin

text \<open>
  The AST BT driver on the documented registers: what the driver's calls do to the control bits
  and the two buffers, the proof that they keep the contract of the core, a register model for
  closed examples, and the properties of the BT interface.
\<close>

unbundle bit_operations_syntax

section \<open>The registers\<close>

text \<open>
  What is seen of the device: the control register, the bytes of the host's message still to be
  read, the buffer for the host with the driver's position in it, and the interrupt status.
\<close>

record bt_view =
  v_ctl :: u8
  v_h2b :: "u8 list"
  v_wbuf :: "nat \<Rightarrow> u8"
  v_wptr :: nat
  v_h2bi :: bool

text \<open>
  A write of the control register by this side (IPMI, BT interface registers): a 1 written to
  B_BUSY toggles it, to SMS_ATN, B2H_ATN or the OEM bit sets it, to H2B_ATN clears it, to
  CLR_WR_PTR takes the write position back to the start; H_BUSY belongs to the host.
\<close>

definition bt_ctl_write :: "u8 \<Rightarrow> bt_view \<Rightarrow> bt_view" where
  "bt_ctl_write v w =
     w\<lparr>v_ctl := ((v_ctl w XOR (v AND 0x80)) OR (v AND 0x38)) AND NOT (v AND 0x04),
       v_wptr := (if v AND 0x01 \<noteq> 0 then 0 else v_wptr w)\<rparr>"

locale ibt_device =
  fixes io :: "'d bt_mmio"
    and view :: "'d \<Rightarrow> bt_view"
    and cap :: nat
  assumes rd_ctl: "fst (ioread8 io iBTCR4 d) = v_ctl (view d)"
    and rd_ctl_frame: "view (snd (ioread8 io iBTCR4 d)) = view d"
    and ctl_low: "v_ctl (view d) AND 0x03 = 0"
    and wr_ctl: "v AND 0x02 = 0 \<Longrightarrow> view (iowrite8 io v iBTCR4 d) = bt_ctl_write v (view d)"
    and wr_ctl32: "v AND 0x02 = 0 \<Longrightarrow> view (bt_iowrite32 io (ucast v) iBTCR4 d) = bt_ctl_write v (view d)"
    and rd_fifo: "v_h2b (view d) = x # xs \<Longrightarrow> fst (ioread8 io iBTCR5 d) = x"
    and rd_fifo_rest: "v_h2b (view d) = x # xs \<Longrightarrow> view (snd (ioread8 io iBTCR5 d)) = (view d)\<lparr>v_h2b := xs\<rparr>"
    and wr_fifo: "v_wptr (view d) < cap \<Longrightarrow> view (iowrite8 io v iBTCR5 d) =
      (view d)\<lparr>v_wbuf := (v_wbuf (view d))(v_wptr (view d) := v), v_wptr := Suc (v_wptr (view d))\<rparr>"
    and rd_irq: "fst (bt_ioread32 io iBTCR2 d) AND 0x01 \<noteq> 0 \<longleftrightarrow> v_h2bi (view d)"
    and rd_irq_frame: "view (snd (bt_ioread32 io iBTCR2 d)) = view d"
    and wr_irq: "view (iowrite8 io 0x01 iBTCR2 d) = (view d)\<lparr>v_h2bi := False\<rparr>"

definition bt_state :: "('d \<Rightarrow> bt_view) \<Rightarrow> 'd bt_hw \<Rightarrow> bt_view" where
  "bt_state view s = view (bt_regs s)"

section \<open>The bits\<close>

lemma ctl_bits:
  fixes c :: u8
  shows "((c XOR (0x80 AND 0x80)) OR (0x80 AND 0x38)) AND NOT (0x80 AND 0x04) = c XOR 0x80"
    "((c XOR (0x04 AND 0x80)) OR (0x04 AND 0x38)) AND NOT (0x04 AND 0x04) = c AND NOT 0x04"
    "((c XOR (0x08 AND 0x80)) OR (0x08 AND 0x38)) AND NOT (0x08 AND 0x04) = c OR 0x08"
    "((c XOR ((c OR 0x01) AND 0x80)) OR ((c OR 0x01) AND 0x38)) AND NOT ((c OR 0x01) AND 0x04) = c AND NOT 0x84"
    "((c OR 0x80) AND NOT 0x04) AND NOT 0x80 = c AND NOT 0x84"
  by (rule byte_eqI; simp add: bit_simps)+

lemma busy_bit:
  fixes c :: u8
  shows "c AND 0x80 \<noteq> 0 \<Longrightarrow> c XOR 0x80 = c AND NOT 0x80" "c AND 0x80 \<noteq> 0 \<Longrightarrow> c OR 0x80 = c"
    "c AND 0x80 = 0 \<Longrightarrow> c XOR 0x80 = c OR 0x80" "c AND 0x80 = 0 \<Longrightarrow> c AND NOT 0x80 = c"
proof -
  have b: "c AND 0x80 = 0 \<longleftrightarrow> \<not> bit c 7" by (simp add: bit_iff_odd_drop_bit and_exp_eq_0_iff_not_bit [of _ 7, simplified])
  show "c AND 0x80 \<noteq> 0 \<Longrightarrow> c XOR 0x80 = c AND NOT 0x80" "c AND 0x80 \<noteq> 0 \<Longrightarrow> c OR 0x80 = c"
    "c AND 0x80 = 0 \<Longrightarrow> c XOR 0x80 = c OR 0x80" "c AND 0x80 = 0 \<Longrightarrow> c AND NOT 0x80 = c"
    unfolding b by (rule byte_eqI; simp add: bit_simps)+
qed

lemma ctl_low_2: "c AND 0x03 = 0 \<Longrightarrow> (c OR 0x01) AND 0x02 = 0" for c :: u8
proof -
  assume "c AND 0x03 = 0"
  then have "\<not> bit (c AND 0x03) 1" by simp
  then show ?thesis by (intro byte_eqI) (simp_all add: bit_simps)
qed

lemma ctl_writes:
  "bt_ctl_write 0x80 w = w\<lparr>v_ctl := v_ctl w XOR 0x80\<rparr>"
  "bt_ctl_write 0x04 w = w\<lparr>v_ctl := v_ctl w AND NOT 0x04\<rparr>"
  "bt_ctl_write 0x08 w = w\<lparr>v_ctl := v_ctl w OR 0x08\<rparr>"
  "bt_ctl_write (v_ctl w OR 0x01) w = w\<lparr>v_ctl := v_ctl w AND NOT 0x84, v_wptr := 0\<rparr>"
  unfolding bt_ctl_write_def ctl_bits by (simp_all add: bit_simps)

section \<open>The calls of the driver\<close>

text \<open>The buffer for the host after \<open>n\<close> bytes of \<open>Buf\<close>, from \<open>i\<close> on, were written to it.\<close>

definition after_write :: "u8 list \<Rightarrow> nat \<Rightarrow> nat \<Rightarrow> bt_view \<Rightarrow> bt_view" where
  "after_write Buf i n w =
     w\<lparr>v_wbuf := (\<lambda>k. if v_wptr w \<le> k \<and> k < v_wptr w + n then Buf ! (i + (k - v_wptr w)) else v_wbuf w k),
       v_wptr := v_wptr w + n\<rparr>"

lemma after_write_0: "after_write Buf i 0 w = w"
  by (cases w) (auto simp: after_write_def fun_eq_iff)

lemma after_write_Suc:
  "after_write Buf (Suc i) n (w\<lparr>v_wbuf := (v_wbuf w)(v_wptr w := Buf ! i), v_wptr := Suc (v_wptr w)\<rparr>) =
   after_write Buf i (Suc n) w"
  by (cases w) (auto simp: after_write_def fun_eq_iff Suc_diff_Suc intro!: arg_cong [of _ _ "nth Buf"])

context ibt_device begin

lemmas reg_defs = bt_read_reg_def bt_write_reg_def bt_write_reg32_def bt_read_reg32_def ibt_bits bt_state_def

lemma set_busy_view:
  "bt_state view (set_bmc_busy io s) = (bt_state view s)\<lparr>v_ctl := v_ctl (bt_state view s) OR 0x80\<rparr>"
  "bt_enabled_by_user (set_bmc_busy io s) = bt_enabled_by_user s"
  using busy_bit(2,3) [of "v_ctl (view (bt_regs s))"] wr_ctl [of "0x80"]
  by (simp_all add: set_bmc_busy_def reg_defs split_beta rd_ctl rd_ctl_frame ctl_writes)

lemma clr_busy_view:
  "bt_state view (clr_bmc_busy io s) = (bt_state view s)\<lparr>v_ctl := v_ctl (bt_state view s) AND NOT 0x80\<rparr>"
  "bt_enabled_by_user (clr_bmc_busy io s) = bt_enabled_by_user s"
  using busy_bit(1,4) [of "v_ctl (view (bt_regs s))"] wr_ctl [of "0x80"]
  by (simp_all add: clr_bmc_busy_def reg_defs split_beta rd_ctl rd_ctl_frame ctl_writes)

lemma clr_h2b_view:
  "bt_state view (clr_h2b_attention io s) = (bt_state view s)\<lparr>v_ctl := v_ctl (bt_state view s) AND NOT 0x04\<rparr>"
  "bt_enabled_by_user (clr_h2b_attention io s) = bt_enabled_by_user s"
  using wr_ctl [of "0x04"] by (simp_all add: clr_h2b_attention_def reg_defs ctl_writes)

lemma set_b2h_view:
  "bt_state view (set_b2h_attention io s) = (bt_state view s)\<lparr>v_ctl := v_ctl (bt_state view s) OR 0x08\<rparr>"
  "bt_enabled_by_user (set_b2h_attention io s) = bt_enabled_by_user s"
  using wr_ctl32 [of "0x08"] by (simp_all add: set_b2h_attention_def reg_defs ctl_writes)

lemma clr_wr_ptr_view:
  "bt_state view (clr_write_fifo_ptr io s) =
    (bt_state view s)\<lparr>v_ctl := v_ctl (bt_state view s) AND NOT 0x84, v_wptr := 0\<rparr>"
  "bt_enabled_by_user (clr_write_fifo_ptr io s) = bt_enabled_by_user s"
  using wr_ctl [OF ctl_low_2 [OF ctl_low]]
  by (simp_all add: clr_write_fifo_ptr_def reg_defs split_beta rd_ctl rd_ctl_frame ctl_writes)

lemma read_bytes_safe:
  "i + n \<le> length Buf \<Longrightarrow> \<exists>Buf' s'. bt_read_bytes io i n Buf s = Some (Buf', s') \<and> length Buf' = length Buf"
proof (induction n arbitrary: i Buf s)
  case (Suc n)
  then show ?case
    using Suc.IH [of "Suc i" "Buf[i := fst (bt_read_reg io iBTCR5 s)]" "snd (bt_read_reg io iBTCR5 s)"]
    by (simp add: split_beta arr_simps)
qed simp

lemma read_bytes_view:
  "v_h2b (bt_state view s) = bs @ rest \<Longrightarrow> i + length bs \<le> length Buf \<Longrightarrow>
   \<exists>s'. bt_read_bytes io i (length bs) Buf s = Some (take i Buf @ bs @ drop (i + length bs) Buf, s') \<and>
     bt_state view s' = (bt_state view s)\<lparr>v_h2b := rest\<rparr> \<and> bt_enabled_by_user s' = bt_enabled_by_user s"
proof (induction bs arbitrary: i Buf s)
  case Nil
  then show ?case by (intro exI [of _ s]) (cases "bt_state view s", simp)
next
  case (Cons b bs)
  let ?s = "snd (bt_read_reg io iBTCR5 s)"
  have b: "fst (bt_read_reg io iBTCR5 s) = b" "bt_state view ?s = (bt_state view s)\<lparr>v_h2b := bs @ rest\<rparr>"
    "bt_enabled_by_user ?s = bt_enabled_by_user s"
    using Cons.prems(1) rd_fifo [of "bt_regs s" b "bs @ rest"] rd_fifo_rest [of "bt_regs s" b "bs @ rest"]
    by (simp_all add: reg_defs split_beta)
  have len: "Suc i + length bs \<le> length (Buf[i := b])" "i < length Buf" using Cons.prems(2) by simp_all
  from Cons.IH [of ?s "Suc i" "Buf[i := b]"] b(2) len(1)
  obtain s' where s': "bt_read_bytes io (Suc i) (length bs) (Buf[i := b]) ?s =
      Some (take (Suc i) (Buf[i := b]) @ bs @ drop (Suc i + length bs) (Buf[i := b]), s')"
    "bt_state view s' = (bt_state view s)\<lparr>v_h2b := rest\<rparr>" "bt_enabled_by_user s' = bt_enabled_by_user s"
    using b(3) by auto
  then show ?case
    using b(1) len by (simp add: split_beta arr_simps take_Suc_update)
qed

lemma write_bytes_safe:
  "i + n \<le> length Buf \<Longrightarrow> \<exists>s'. bt_write_bytes io Buf i n s = Some s'"
  by (induction n arbitrary: i s) (simp_all add: arr_simps)

lemma write_bytes_view:
  "i + n \<le> length Buf \<Longrightarrow> v_wptr (bt_state view s) + n \<le> cap \<Longrightarrow>
   \<exists>s'. bt_write_bytes io Buf i n s = Some s' \<and> bt_enabled_by_user s' = bt_enabled_by_user s \<and>
     bt_state view s' = after_write Buf i n (bt_state view s)"
proof (induction n arbitrary: i s)
  case 0
  then show ?case by (simp add: after_write_0)
next
  case (Suc n)
  let ?s = "bt_write_reg io (Buf ! i) iBTCR5 s" and ?w = "bt_state view s"
  have w: "bt_state view ?s = ?w\<lparr>v_wbuf := (v_wbuf ?w)(v_wptr ?w := Buf ! i), v_wptr := Suc (v_wptr ?w)\<rparr>"
    "bt_enabled_by_user ?s = bt_enabled_by_user s"
    using Suc.prems(2) wr_fifo [of "bt_regs s"] by (simp_all add: reg_defs)
  have "Suc i + n \<le> length Buf" "v_wptr (bt_state view ?s) + n \<le> cap" using Suc.prems w(1) by simp_all
  from Suc.IH [OF this] show ?case
    using Suc.prems(1) w(2) by (simp add: arr_simps w(1) after_write_Suc)
qed

end

lemma ch_cases: "ch < BT_CHANNEL_NUM \<longleftrightarrow> ch = 0" "BT_CHANNEL_NUM \<le> ch \<longleftrightarrow> ch \<noteq> 0" for ch :: u8
  by (simp_all add: BT_CHANNEL_NUM_def word_less_nat_alt word_le_nat_alt Suc_le_eq flip: unat_0_iff)

lemma view_update:
  "(v\<lparr>v_ctl := a\<rparr>)\<lparr>v_ctl := b\<rparr> = v\<lparr>v_ctl := b\<rparr>"
  "(v\<lparr>v_ctl := a\<rparr>)\<lparr>v_h2b := l\<rparr> = (v\<lparr>v_h2b := l\<rparr>)\<lparr>v_ctl := a\<rparr>"
  by simp_all

context ibt_device begin

lemma read_safe:
  assumes "256 \<le> length buf"
  shows "\<exists>buf' s'. bthw_read_bt_data_buf io ch buf s = Some (buf', s') \<and> length buf' = length buf"
proof -
  let ?r = "bt_read_reg io iBTCR5 (clr_h2b_attention io (set_bmc_busy io s))"
  have "1 + unat (fst ?r) \<le> length (buf[0 := fst ?r])" using assms unat_lt_8 [of "fst ?r"] by simp
  moreover have "0 < length buf" using assms by linarith
  ultimately show ?thesis
    using read_bytes_safe [of 1 "unat (fst ?r)" "buf[0 := fst ?r]" "snd ?r"]
    by (cases ?r) (auto simp: bthw_read_bt_data_buf_def arr_simps)
qed

lemma read_view:
  assumes "256 \<le> length buf" "length bs < 256" "v_h2b (bt_state view s) = of_nat (length bs) # bs @ rest"
  shows "\<exists>s'. bthw_read_bt_data_buf io 0 buf s = Some (of_nat (length bs) # bs @ drop (Suc (length bs)) buf, s') \<and>
    bt_enabled_by_user s' = bt_enabled_by_user s \<and>
    bt_state view s' = (bt_state view s)\<lparr>v_h2b := rest, v_ctl := v_ctl (bt_state view s) AND NOT 0x84\<rparr>"
proof -
  let ?w = "bt_state view s" and ?n = "of_nat (length bs) :: u8"
  let ?s = "clr_h2b_attention io (set_bmc_busy io s)"
  have w: "bt_state view ?s = ?w\<lparr>v_ctl := (v_ctl ?w OR 0x80) AND NOT 0x04\<rparr>" "bt_enabled_by_user ?s = bt_enabled_by_user s"
    by (simp_all add: clr_h2b_view set_busy_view)
  obtain s1 where s1: "bt_read_reg io iBTCR5 ?s = (?n, s1)" "bt_enabled_by_user s1 = bt_enabled_by_user s"
    "bt_state view s1 = ?w\<lparr>v_h2b := bs @ rest, v_ctl := (v_ctl ?w OR 0x80) AND NOT 0x04\<rparr>"
    using rd_fifo [of "bt_regs ?s" ?n "bs @ rest"] rd_fifo_rest [of "bt_regs ?s" ?n "bs @ rest"] w assms(3)
    by (simp add: reg_defs split_beta)
  have "unat ?n = length bs" using assms(2) by (simp add: unat_of_nat)
  moreover obtain s2 where s2: "bt_read_bytes io 1 (length bs) (buf[0 := ?n]) s1 =
      Some (take 1 (buf[0 := ?n]) @ bs @ drop (1 + length bs) (buf[0 := ?n]), s2)"
    "bt_state view s2 = (bt_state view s1)\<lparr>v_h2b := rest\<rparr>" "bt_enabled_by_user s2 = bt_enabled_by_user s1"
    using read_bytes_view [of s1 bs rest 1 "buf[0 := ?n]"] s1(3) assms(1,2) by auto
  moreover have "take 1 (buf[0 := ?n]) = [?n]" using assms(1) by (cases buf) auto
  moreover have "0 < length buf" using assms(1) by linarith
  ultimately show ?thesis
    using s1 ctl_bits(5) [of "v_ctl ?w"]
    by (simp add: bthw_read_bt_data_buf_def BT_CHANNEL_NUM_def arr_simps clr_busy_view)
qed

lemma write_safe:
  assumes "unat len \<le> length buf"
  shows "\<exists>s'. bthw_write_bt_data_buf io ch buf len s = Some s'"
proof -
  obtain s3 where "bt_write_bytes io buf 0 (unat len)
      (bt_write_reg io (ucast len) iBTCR5 (snd (bt_read_reg io iBTCR4 s))) = Some s3"
    using write_bytes_safe assms by fastforce
  then show ?thesis by (simp add: bthw_write_bt_data_buf_def split_beta)
qed

lemma write_view:
  assumes "unat len \<le> length buf" "v_wptr (bt_state view s) = 0" "unat len < cap"
  shows "\<exists>s'. bthw_write_bt_data_buf io 0 buf len s = Some s' \<and> bt_enabled_by_user s' = bt_enabled_by_user s \<and>
    bt_state view s' = (bt_state view s)\<lparr>v_ctl := (v_ctl (bt_state view s) OR 0x08) AND NOT 0x84,
      v_wbuf := (\<lambda>k. if k \<le> unat len then (ucast len # take (unat len) buf) ! k else v_wbuf (bt_state view s) k)\<rparr>"
proof -
  let ?w = "bt_state view s" and ?s1 = "snd (bt_read_reg io iBTCR4 s)"
  have w1: "bt_state view ?s1 = ?w" "bt_enabled_by_user ?s1 = bt_enabled_by_user s"
    by (simp_all add: reg_defs split_beta rd_ctl_frame)
  define s2 where "s2 = bt_write_reg io (ucast len) iBTCR5 ?s1"
  have w2: "bt_state view s2 = ?w\<lparr>v_wbuf := (v_wbuf ?w)(0 := ucast len), v_wptr := 1\<rparr>"
    "bt_enabled_by_user s2 = bt_enabled_by_user s"
    using wr_fifo [of "bt_regs ?s1" "ucast len"] w1 assms(2,3) by (simp_all add: s2_def reg_defs)
  obtain s3 where s3: "bt_write_bytes io buf 0 (unat len) s2 = Some s3" "bt_enabled_by_user s3 = bt_enabled_by_user s2"
    "bt_state view s3 = after_write buf 0 (unat len) (bt_state view s2)"
    using write_bytes_view [of 0 "unat len" buf s2] w2 assms by auto
  have "(\<lambda>k. if 1 \<le> k \<and> k < 1 + n then buf ! (0 + (k - 1)) else (g(0 := x)) k) =
      (\<lambda>k. if k \<le> n then (x # take n buf) ! k else g k)" for n x and g :: "nat \<Rightarrow> u8"
    by (rule ext) (auto simp: nth_Cons split: nat.splits)
  then have "bt_state view s3 = ?w\<lparr>v_wbuf := (\<lambda>k. if k \<le> unat len then (ucast len # take (unat len) buf) ! k
      else v_wbuf ?w k), v_wptr := 1 + unat len\<rparr>"
    by (simp add: s3(3) w2 after_write_def cong: if_cong)
  then have "bt_state view (clr_write_fifo_ptr io (set_b2h_attention io s3)) =
      ?w\<lparr>v_ctl := (v_ctl ?w OR 0x08) AND NOT 0x84, v_wbuf := (\<lambda>k. if k \<le> unat len
        then (ucast len # take (unat len) buf) ! k else v_wbuf ?w k)\<rparr>"
    using assms(2) by (cases ?w) (simp add: clr_wr_ptr_view set_b2h_view)
  then show ?thesis
    using s3 w2 by (simp add: bthw_write_bt_data_buf_def BT_CHANNEL_NUM_def split_beta s2_def clr_wr_ptr_view set_b2h_view)
qed

end

section \<open>The contract of the core\<close>

lemma attention_bit: "((c OR 0x08) AND NOT 0x84) AND 0x08 \<noteq> 0" for c :: u8
proof -
  have "bit (((c OR 0x08) AND NOT 0x84) AND 0x08) 3" by (simp add: bit_simps)
  then show ?thesis by auto
qed

sublocale ibt_device \<subseteq> drv: bt_hal_contract "bt_hw_ops io" "\<lambda>ch. ch < BT_CHANNEL_NUM"
  "\<lambda>s. v_h2b (bt_state view s)" "\<lambda>s. v_wbuf (bt_state view s)" "\<lambda>s. v_wptr (bt_state view s) = 0"
  "\<lambda>s. v_ctl (bt_state view s) AND 0x08 \<noteq> 0" cap
proof (unfold_locales, goal_cases)
  case (1 buf ch h)
  then show ?case using read_safe by (simp add: bt_hw_ops_def)
next
  case (2 ch buf bs h rest)
  then show ?case using read_view [of buf bs h rest] by (auto simp: bt_hw_ops_def ch_cases)
next
  case (3 len buf ch h)
  then show ?case using write_safe by (simp add: bt_hw_ops_def)
next
  case (4 ch len buf h)
  then show ?case using write_view [of len buf h] attention_bit [of "v_ctl (bt_state view h)"]
    by (auto simp: bt_hw_ops_def ch_cases)
qed

context ibt_device begin

lemmas ast_bt_contract = drv.bt_hal_contract_axioms

lemma irq_runs_core:
  assumes "v_h2bi (bt_state view s)" "bt_enabled_by_user s"
  shows "\<exists>s1. bt_irq_handler io (Some process) (s, c) = map_option (Pair True) (process 0 0 (s1, c)) \<and>
    bt_enabled_by_user s1 \<and> bt_state view s1 = (bt_state view s)\<lparr>v_h2bi := False\<rparr>"
  using assms rd_irq [of "bt_regs s"] rd_irq_frame [of "bt_regs s"] wr_irq
  by (auto simp: bt_irq_handler_def clr_h2b_intr_status_def reg_defs split_beta BT_CHANNEL_NUM_def)

end

section \<open>A register model\<close>

text \<open>The view itself and the other 32 bit registers, with the documented behaviour.\<close>

type_synonym ibt = "bt_view \<times> (u16 \<Rightarrow> u32)"

definition ibt_view :: "ibt \<Rightarrow> bt_view" where
  "ibt_view d = (fst d)\<lparr>v_ctl := v_ctl (fst d) AND 0xFC\<rparr>"

definition ibt_ioread8 :: "u16 \<Rightarrow> ibt \<Rightarrow> u8 \<times> ibt" where
  "ibt_ioread8 r d =
     (if r = iBTCR4 then (v_ctl (ibt_view d), d)
      else if r = iBTCR5 then (case v_h2b (fst d) of [] \<Rightarrow> (0, d) | x # xs \<Rightarrow> (x, (fst d)\<lparr>v_h2b := xs\<rparr>, snd d))
      else (ucast (snd d r), d))"

definition ibt_iowrite8 :: "u8 \<Rightarrow> u16 \<Rightarrow> ibt \<Rightarrow> ibt" where
  "ibt_iowrite8 v r d =
     (if r = iBTCR4 then (bt_ctl_write v (ibt_view d), snd d)
      else if r = iBTCR5
      then ((fst d)\<lparr>v_wbuf := (v_wbuf (fst d))(v_wptr (fst d) := v), v_wptr := Suc (v_wptr (fst d))\<rparr>, snd d)
      else if r = iBTCR2 then ((fst d)\<lparr>v_h2bi := v_h2bi (fst d) \<and> v AND 0x01 = 0\<rparr>, snd d)
      else (fst d, (snd d)(r := ucast v)))"

definition ibt_ioread32 :: "u16 \<Rightarrow> ibt \<Rightarrow> u32 \<times> ibt" where
  "ibt_ioread32 r d = (if r = iBTCR2 then (if v_h2bi (fst d) then 1 else 0, d) else (snd d r, d))"

definition ibt_iowrite32 :: "u32 \<Rightarrow> u16 \<Rightarrow> ibt \<Rightarrow> ibt" where
  "ibt_iowrite32 v r d =
     (if r = iBTCR4 then (bt_ctl_write (ucast v) (ibt_view d), snd d) else (fst d, (snd d)(r := v)))"

definition ibt_mmio :: "ibt bt_mmio" where
  "ibt_mmio = \<lparr>ioread8 = ibt_ioread8, iowrite8 = ibt_iowrite8, bt_ioread32 = ibt_ioread32, bt_iowrite32 = ibt_iowrite32\<rparr>"

lemma ctl_masked:
  fixes c v :: u8
  shows "(((c AND 0xFC) XOR (v AND 0x80)) OR (v AND 0x38)) AND NOT (v AND 0x04) AND 0xFC =
      (((c AND 0xFC) XOR (v AND 0x80)) OR (v AND 0x38)) AND NOT (v AND 0x04)"
    "(c AND 0xFC) AND 0x03 = 0" "c AND 0xFC AND 0xFC = c AND 0xFC"
  by (rule byte_eqI; simp add: bit_simps)+

lemma ibt_ctl_write: "ibt_view (bt_ctl_write v (ibt_view d), r) = bt_ctl_write v (ibt_view d)"
  using ctl_masked(1) [of "v_ctl (fst d)" v] by (simp add: ibt_view_def bt_ctl_write_def and.assoc)

lemmas ibt_defs = ibt_mmio_def ibt_ioread8_def ibt_iowrite8_def ibt_ioread32_def ibt_iowrite32_def

interpretation ibt: ibt_device ibt_mmio ibt_view 256
proof (unfold_locales, goal_cases)
  case (3 d)
  then show ?case using ctl_masked(2) [of "v_ctl (fst d)"] by (simp add: ibt_view_def)
next
  case (4 v d)
  then show ?case by (simp add: ibt_defs ibt_ctl_write)
next
  case (5 v d)
  then show ?case by (simp add: ibt_defs ibt_ctl_write ucast_back_8)
qed (simp_all add: ibt_defs ibt_offsets ibt_view_def)

end
