(* ===== verification/BtProps.thy ===== *)
theory BtProps imports BtDevice begin

text \<open>
  The properties of the BT interface: a whole request and response through the interrupt handler,
  the registry and the character device; the safety of every interleaving; and three behaviours
  of the code beside it: a read ended by a signal, the control bits a response takes with it, and
  an open that runs out of memory.
\<close>

unbundle bit_operations_syntax

text \<open>The core as the hardware driver's interrupt handler sees it.\<close>

definition bt_core_for ::
  "'d bt_mmio \<Rightarrow> int \<Rightarrow> ('d, ('o, 'p, 'f) bt_sys) bt_core" where
  "bt_core_for io bt_id = Some (\<lambda>ch e (s, sys). map_option snd (process_bt_intr (bt_hw_ops io) bt_id ch e (s, sys)))"

context ibt_device begin

lemma bt_round:
  assumes reg: "hw_intr EDEV_TYPE_BT bt_id reg = Some p" "bufs p \<noteq> []" "bt_chan_wf (bufs p ! 0)"
    and irq: "v_h2bi (bt_state view s)" "bt_enabled_by_user s"
    and msg: "v_h2b (bt_state view s) = of_nat (length bs) # bs" "length bs < 256"
    and out: "v_wptr (bt_state view s) = 0" "length rs < cap" "length rs \<le> BT_PAYLOAD_SIZE"
  shows "\<exists>s1 c1 c2 s2 c3.
    bt_irq_handler io (bt_core_for io bt_id) (s, reg, bufs) = Some (True, s1, reg, bufs(p := (bufs p)[0 := c1])) \<and>
    bt_sleep_cond c1 \<and> bt_woken c1 \<and> bt_request_leave False c1 = Some (Inr (of_nat (length bs) # bs), c2) \<and>
    bt_write_request (bt_hw_ops io) 0 False rs (s1, c2) = Some (Inr (length rs), s2, c3) \<and>
    v_ctl (bt_state view s2) AND 0x08 \<noteq> 0 \<and> v_wptr (bt_state view s2) = 0 \<and>
    (\<forall>k \<le> length rs. v_wbuf (bt_state view s2) k = (of_nat (length rs) # rs) ! k)"
proof -
  have ch: "(0 :: u8) < BT_CHANNEL_NUM" by (simp add: ch_cases)
  obtain s0 where s0: "bt_irq_handler io (bt_core_for io bt_id) (s, reg, bufs) = map_option (Pair True)
      (map_option snd (process_bt_intr (bt_hw_ops io) bt_id 0 0 (s0, reg, bufs)))"
    "bt_state view s0 = (bt_state view s)\<lparr>v_h2bi := False\<rparr>"
    using irq_runs_core [OF irq, of "\<lambda>ch e (s, sys). map_option snd (process_bt_intr (bt_hw_ops io) bt_id ch e (s, sys))"
        "(reg, bufs)"] by (auto simp: bt_core_for_def)
  obtain s1 c1 c2 where r: "bt_recv (bt_hw_ops io) 0 0 (s0, bufs p ! 0) = Some (s1, c1)" "bt_sleep_cond c1"
    "bt_woken c1" "v_wptr (bt_state view s1) = 0" "bt_request_leave False c1 = Some (Inr (of_nat (length bs) # bs), c2)"
    using drv.request_delivered [OF ch reg(3) msg(2), of s0 "[]"] s0(2) msg(1) out(1) by auto
  have "bt_chan_wf c2"
    using drv.recv_inv [OF reg(3), of 0 0 s0] leave_inv [of c1 False] r by (auto simp: bt_inv_def)
  from drv.response_written [OF ch this r(4) out(2,3)]
  obtain s2 c3 where w: "bt_write_request (bt_hw_ops io) 0 False rs (s1, c2) = Some (Inr (length rs), s2, c3)"
    "v_wptr (bt_state view s2) = 0" "v_ctl (bt_state view s2) AND 0x08 \<noteq> 0"
    "\<forall>k \<le> length rs. v_wbuf (bt_state view s2) k = (of_nat (length rs) # rs) ! k"
    by auto
  have "process_bt_intr (bt_hw_ops io) bt_id 0 0 (s0, reg, bufs) =
      Some (Inr (), s1, reg, bufs(p := (bufs p)[0 := c1]))"
    using reg r(1) by (simp add: process_bt_intr_def arr_simps)
  then show ?thesis using s0(1) r(2,3,5) w by auto
qed

lemma response_bits:
  assumes "v_wptr (bt_state view s) = 0" "length rs < cap" "length rs \<le> BT_PAYLOAD_SIZE" "bt_chan_wf c"
  shows "\<exists>s' c'. bt_write_request (bt_hw_ops io) 0 False rs (s, c) = Some (Inr (length rs), s', c') \<and>
    v_ctl (bt_state view s') = (v_ctl (bt_state view s) OR 0x08) AND NOT 0x84 \<and>
    v_h2b (bt_state view s') = v_h2b (bt_state view s)"
proof -
  have "unat (of_nat (length rs) :: u32) = length rs" using assms(3) by (simp add: BT_PAYLOAD_SIZE_def unat_of_nat)
  then show ?thesis
    using write_view [of "of_nat (length rs)" "rs @ drop (length rs) (Response c)" s] assms
    by (auto simp: bt_write_request_def send_bt_response_def bt_chan_wf_def bt_hw_ops_def)
qed

end

section \<open>A sample\<close>

definition bt_chan0 :: bt_chan where
  "bt_chan0 = \<lparr>bt_woken = False, BTRcvPktLen = 0, BTSendPktLen = 0, pBTSendPkt = False, FirstTime = 0,
     BtWakeup = 0, BtReqWaiting = 1, Request = replicate BT_PAYLOAD_SIZE 0, ResponseSize = 0,
     Response = replicate BT_PAYLOAD_SIZE 0\<rparr>"

lemma bt_chan0_wf: "bt_chan_wf bt_chan0"
  by (simp add: bt_chan_wf_def bt_chan0_def)

text \<open>The host has written a message of three bytes and raised its attention bit.\<close>

definition bt_hw0 :: "ibt bt_hw" where
  "bt_hw0 = \<lparr>bt_regs = (\<lparr>v_ctl = 0x04, v_h2b = [3, 0x18, 0x01, 0x37], v_wbuf = (\<lambda>_. 0), v_wptr = 0, v_h2bi = True\<rparr>,
     \<lambda>_. 0), bt_enabled_by_user = True\<rparr>"

lemma bt_hw0_state:
  "bt_state ibt_view bt_hw0 = \<lparr>v_ctl = 0x04, v_h2b = [3, 0x18, 0x01, 0x37], v_wbuf = (\<lambda>_. 0), v_wptr = 0, v_h2bi = True\<rparr>"
  by (simp add: bt_state_def bt_hw0_def ibt_view_def)

lemma bt_hw0_enabled: "bt_enabled_by_user bt_hw0"
  by (simp add: bt_hw0_def)

section \<open>Properties\<close>

text \<open>
  C5. A BT transaction: when the host has written a request of up to 255 bytes and interrupts, the
  handler finds the channel through the registry, wakes the blocked reader, and the read returns
  exactly the length byte and the bytes; a response of up to the buffer's capacity then stands in
  the host's buffer behind its length, the host is told, and the position is back at the start.
\<close>

theorem bt_transaction:
  assumes "ibt_device io view cap" "hw_intr EDEV_TYPE_BT bt_id reg = Some p" "bufs p \<noteq> []" "bt_chan_wf (bufs p ! 0)"
    "v_h2bi (bt_state view s)" "bt_enabled_by_user s"
    "v_h2b (bt_state view s) = of_nat (length bs) # bs" "length bs < 256"
    "v_wptr (bt_state view s) = 0" "length rs < cap" "length rs \<le> BT_PAYLOAD_SIZE"
  shows "\<exists>s1 c1 c2 s2 c3.
    bt_irq_handler io (bt_core_for io bt_id) (s, reg, bufs) = Some (True, s1, reg, bufs(p := (bufs p)[0 := c1])) \<and>
    bt_sleep_cond c1 \<and> bt_woken c1 \<and> bt_request_leave False c1 = Some (Inr (of_nat (length bs) # bs), c2) \<and>
    bt_write_request (bt_hw_ops io) 0 False rs (s1, c2) = Some (Inr (length rs), s2, c3) \<and>
    v_ctl (bt_state view s2) AND 0x08 \<noteq> 0 \<and> v_wptr (bt_state view s2) = 0 \<and>
    (\<forall>k \<le> length rs. v_wbuf (bt_state view s2) k = (of_nat (length rs) # rs) ! k)"
  by (rule ibt_device.bt_round [where bufs = bufs and p = p, OF assms])

theorem bt_transaction_witness:
  "\<exists>s1 c1 c2 s2 c3.
    bt_irq_handler ibt_mmio (bt_core_for ibt_mmio 0) (bt_hw0, hal1, \<lambda>_. [bt_chan0]) =
      Some (True, s1, hal1, (\<lambda>_. [bt_chan0])(7 := [c1])) \<and>
    bt_request_leave False c1 = Some (Inr [3, 0x18, 0x01, 0x37], c2) \<and>
    bt_write_request (bt_hw_ops ibt_mmio) 0 False [0x1C, 0x01, 0x37, 0] (s1, c2) = Some (Inr 4, s2, c3) \<and>
    v_wbuf (bt_state ibt_view s2) 0 = 4 \<and> v_wbuf (bt_state ibt_view s2) 1 = 0x1C"
proof -
  have i: "hw_intr EDEV_TYPE_BT 0 hal1 = Some 7"
    by (simp add: hw_intr_def hal1_def core_type_def core0_def)
  have "[bt_chan0] \<noteq> []" "bt_chan_wf ([bt_chan0] ! 0)" "v_h2bi (bt_state ibt_view bt_hw0)" "bt_enabled_by_user bt_hw0"
    "v_h2b (bt_state ibt_view bt_hw0) = of_nat (length [0x18 :: u8, 0x01, 0x37]) # [0x18, 0x01, 0x37]"
    "length [0x18 :: u8, 0x01, 0x37] < 256" "v_wptr (bt_state ibt_view bt_hw0) = 0"
    "length [0x1C :: u8, 0x01, 0x37, 0] < 256" "length [0x1C :: u8, 0x01, 0x37, 0] \<le> BT_PAYLOAD_SIZE"
    by (simp_all add: bt_chan0_wf bt_hw0_state bt_hw0_enabled BT_PAYLOAD_SIZE_def)
  from bt_transaction [OF ibt.ibt_device_axioms i, of "\<lambda>_. [bt_chan0]", OF this]
  obtain s1 c1 c2 s2 c3 where t:
    "bt_irq_handler ibt_mmio (bt_core_for ibt_mmio 0) (bt_hw0, hal1, \<lambda>_. [bt_chan0]) =
      Some (True, s1, hal1, (\<lambda>_. [bt_chan0])(7 := [bt_chan0][0 := c1]))"
    "bt_request_leave False c1 = Some (Inr (of_nat (length [0x18 :: u8, 0x01, 0x37]) # [0x18, 0x01, 0x37]), c2)"
    "bt_write_request (bt_hw_ops ibt_mmio) 0 False [0x1C, 0x01, 0x37, 0] (s1, c2) =
      Some (Inr (length [0x1C :: u8, 0x01, 0x37, 0]), s2, c3)"
    "\<forall>k \<le> length [0x1C :: u8, 0x01, 0x37, 0]. v_wbuf (bt_state ibt_view s2) k =
      (of_nat (length [0x1C :: u8, 0x01, 0x37, 0]) # [0x1C, 0x01, 0x37, 0]) ! k"
    by blast
  show ?thesis
    by (intro exI [of _ s1] exI [of _ c1] exI [of _ c2] exI [of _ s2] exI [of _ c3])
      (use t spec [OF t(4), of 0] spec [OF t(4), of 1] in simp)
qed

text \<open>
  C17. In every state the interrupts, reads, writes and opens reach, in any order and whatever the
  host does to the registers meanwhile, the channel is in order (the recorded length is the length
  byte plus one, or one for the reset message) and the interrupt and the read do not fault; a
  write stays inside the response array exactly when its count is at most 33 * 1024, which the
  code does not check.
\<close>

theorem bt_no_fault:
  assumes "ibt_device io view cap" "bt_reach (bt_hw_ops io) ch (s, c, w)"
  shows "bt_inv c \<and> bt_recv (bt_hw_ops io) ch e (s', c) \<noteq> None \<and> bt_request_leave copy_fails c \<noteq> None \<and>
    (bt_write_request (bt_hw_ops io) ch False buf (s', c) \<noteq> None \<longleftrightarrow> length buf \<le> BT_PAYLOAD_SIZE)"
  by (rule bt_hal_contract.no_fault [OF ibt_device.ast_bt_contract [OF assms(1)] assms(2)])

theorem bt_no_fault_witness:
  "\<exists>c. bt_reach (bt_hw_ops ibt_mmio) 0 (bt_hw0, c, True) \<and> bt_recv (bt_hw_ops ibt_mmio) 0 0 (bt_hw0, c) \<noteq> None \<and>
    bt_write_request (bt_hw_ops ibt_mmio) 0 False (replicate (Suc BT_PAYLOAD_SIZE) 0) (bt_hw0, c) = None"
proof -
  let ?c = "bt_request_enter (bt_open_chan 1 (bt_register_chan bt_chan0))"
  have r: "bt_reach (bt_hw_ops ibt_mmio) 0 (bt_hw0, ?c, True)"
    by (rule bt_reach.step [OF bt_reach.start [OF bt_chan0_wf] bt_step.read_enter])
  then show ?thesis
    using bt_no_fault [OF ibt.ibt_device_axioms r, of 0 bt_hw0 False "replicate (Suc BT_PAYLOAD_SIZE) 0"]
    by (intro exI [of _ ?c]) (simp del: not_None_eq replicate_Suc split_paired_Ex split_paired_All)
qed

text \<open>
  A read that a signal ends returns the previous request as if it had just come in: the flag it
  waits for is not set, but the result of the wait is not looked at and the length and the bytes
  of the last request are still there.
\<close>

theorem bt_interrupted_read_repeats:
  assumes "bt_request_leave False c = Some (Inr req, c')"
  shows "\<not> bt_sleep_cond (bt_request_enter c') \<and>
    (\<exists>c''. bt_request_leave False (bt_request_enter c') = Some (Inr req, c''))"
  using assms
  by (auto simp: bt_request_leave_def bt_request_enter_def Bt_OsInitSleepStruct_def bt_sleep_cond_def Let_def
      split: if_splits)

theorem bt_interrupted_read_repeats_witness:
  "\<exists>c'. bt_request_leave False (bt_chan0\<lparr>BTRcvPktLen := 1, BtWakeup := 1\<rparr>) = Some (Inr [0], c') \<and>
    (\<exists>c''. bt_request_leave False (bt_request_enter c') = Some (Inr [0], c''))"
proof -
  obtain c' where c': "bt_request_leave False (bt_chan0\<lparr>BTRcvPktLen := 1, BtWakeup := 1\<rparr>) = Some (Inr [0], c')"
    by (simp add: bt_request_leave_def bt_chan0_def BT_PAYLOAD_SIZE_def take_replicate)
  then show ?thesis using bt_interrupted_read_repeats [OF c'] by blast
qed

text \<open>
  Writing a response clears the host's attention bit and the busy bit, because the write pointer
  is reset by writing back all the bits that were read: a next request the host has announced
  meanwhile looks taken, while its bytes are still in the buffer, and a driver that had declared
  itself busy is not any more.
\<close>

theorem bt_response_clears_attention:
  assumes "ibt_device io view cap" "v_wptr (bt_state view s) = 0" "length rs < cap" "length rs \<le> BT_PAYLOAD_SIZE"
    "bt_chan_wf c"
  shows "\<exists>s' c'. bt_write_request (bt_hw_ops io) 0 False rs (s, c) = Some (Inr (length rs), s', c') \<and>
    v_ctl (bt_state view s') = (v_ctl (bt_state view s) OR 0x08) AND NOT 0x84 \<and>
    v_h2b (bt_state view s') = v_h2b (bt_state view s)"
  by (rule ibt_device.response_bits [OF assms])

theorem bt_response_clears_attention_witness:
  "\<exists>s' c'. bt_write_request (bt_hw_ops ibt_mmio) 0 False [0x1C] (bt_hw0, bt_chan0) = Some (Inr 1, s', c') \<and>
    v_ctl (bt_state ibt_view bt_hw0) AND 0x04 \<noteq> 0 \<and> v_ctl (bt_state ibt_view s') = 0x08 \<and>
    v_h2b (bt_state ibt_view s') = [3, 0x18, 0x01, 0x37]"
  using bt_response_clears_attention [OF ibt.ibt_device_axioms, of bt_hw0 "[0x1C]" bt_chan0]
  by (auto simp: bt_hw0_state bt_chan0_wf BT_PAYLOAD_SIZE_def)

text \<open>
  An open that finds the device but no memory for its private data gives the device back: the
  registry, its open counts and references included, and the channels are as before.
\<close>

theorem bt_open_out_of_memory:
  assumes "hal_reach reg" "hw_open live EDEV_TYPE_BT (ucast minor) reg = Some (Inr r, reg')"
  shows "bt_open live False minor (reg, bufs) = Some (Inl ENOMEM, reg, bufs)"
proof -
  obtain n info where r: "r = (n, info)" by fastforce
  then show ?thesis
    using assms(2) hw_open_close [OF hal_reach_wf [OF assms(1)], of live EDEV_TYPE_BT "ucast minor" n info reg']
    by (simp add: bt_open_def)
qed

theorem bt_open_out_of_memory_witness:
  "bt_open (\<lambda>_. True) False 1 (hal1, \<lambda>_. [bt_chan0]) = Some (Inl ENOMEM, hal1, \<lambda>_. [bt_chan0])"
proof -
  obtain r reg' where "hw_open (\<lambda>_. True) EDEV_TYPE_BT (ucast (1 :: u32)) hal1 = Some (Inr r, reg')"
    by (simp add: hw_open_def hal1_def core_type_def core0_def serves_def count_update_def arr_simps hw0_def)
  from bt_open_out_of_memory [OF hal1_reach this] show ?thesis .
qed

end
