(* ===== verification/Encoding.thy ===== *)
theory Encoding imports Prelude begin

text \<open>
  The encoding library: Base32 and Base64 (CyoEncode.c, CyoDecode.c) and the wrappers the other
  programs call (Encode.c). A buffer is the list of its bytes, a NULL pointer is \<open>None\<close> of the
  argument; a result \<open>None\<close> is an access outside a buffer or a failed assertion, which ends the
  process. Characters are bytes.
\<close>

unbundle bit_operations_syntax

section \<open>Blocks\<close>

text \<open>Storing bytes one after the other from a position on, and looking characters up in a table.\<close>

fun put_all :: "u8 list \<Rightarrow> nat \<Rightarrow> u8 list \<Rightarrow> u8 list option" where
  "put_all [] i dest = Some dest"
| "put_all (b # bs) i dest = do { d \<leftarrow> arr_set dest i b; put_all bs (Suc i) d }"

fun lookup_all :: "u8 list \<Rightarrow> u8 list \<Rightarrow> u8 list option" where
  "lookup_all table [] = Some []"
| "lookup_all table (n # ns) = do { c \<leftarrow> arr_get table (unat n); cs \<leftarrow> lookup_all table ns; Some (c # cs) }"

text \<open>
  The loop both encoders have: blocks of \<open>k\<close> bytes (the last may be shorter), each encoded and
  stored behind the one before, and a terminator at the end.
\<close>

function block_encode ::
  "nat \<Rightarrow> (u8 list \<Rightarrow> u8 list option) \<Rightarrow> u8 list \<Rightarrow> nat \<Rightarrow> u8 list \<Rightarrow> (nat \<times> u8 list) option" where
  "block_encode k enc [] i dest = map_option (Pair i) (arr_set dest i 0)"
| "block_encode k enc (x # xs) i dest =
     do { cs \<leftarrow> enc (take k (x # xs));
          d \<leftarrow> put_all cs i dest;
          block_encode k enc (drop (k - 1) xs) (i + length cs) d }"
  by pat_completeness auto
termination by (relation "measure (\<lambda>(k, enc, xs, i, d). length xs)") auto

text \<open>
  The loop both decoders have: \<open>r\<close> characters are left. A block is invalid (the result is 0), ends
  the process, or gives its bytes and how many of them count; \<open>j\<close> is the position of the next
  byte, \<open>n\<close> how many counted so far.
\<close>

type_synonym block_result = "(unit + u8 list \<times> nat) option"

function block_decode ::
  "nat \<Rightarrow> (u8 list \<Rightarrow> block_result) \<Rightarrow> nat \<Rightarrow> u8 list \<Rightarrow> nat \<Rightarrow> nat \<Rightarrow> u8 list \<Rightarrow> (nat \<times> u8 list) option" where
  "block_decode m dec 0 src j n dest = map_option (Pair n) (arr_set dest j 0)"
| "block_decode m dec (Suc r) src j n dest =
     (if length src < m then None
      else do { b \<leftarrow> dec (take m src);
                case b of
                  Inl _ \<Rightarrow> Some (0, dest)
                | Inr (bytes, count) \<Rightarrow>
                    do { d \<leftarrow> put_all bytes j dest;
                         block_decode m dec (r - (m - 1)) (drop m src) (j + length bytes) (n + count) d } })"
  by pat_completeness auto
termination by (relation "measure (\<lambda>(m, dec, r, src, j, n, d). r)") auto

section \<open>Base64\<close>

definition BASE64_INPUT :: nat where "BASE64_INPUT = 3"
definition BASE64_MAX_VALUE :: u8 where "BASE64_MAX_VALUE = 63"

definition BASE64_TABLE :: "u8 list" where
  "BASE64_TABLE = map of_char ''ABCDEFGHIJKLMNOPQRSTUVWXYZabcdefghijklmnopqrstuvwxyz0123456789+/=''"

text \<open>The switch over the size of the block, from its entry down, then the padding.\<close>

definition base64_values :: "u8 list \<Rightarrow> u8 list" where
  "base64_values p =
     (let b = length p;
          n4 = (if b = 3 then p ! 2 AND 0x3f else 0);
          n3 = (if b = 3 then drop_bit 6 (p ! 2 AND 0xc0) else 0);
          n3 = (if 2 \<le> b then n3 OR push_bit 2 (p ! 1 AND 0x0f) else n3);
          n2 = (if 2 \<le> b then drop_bit 4 (p ! 1 AND 0xf0) else 0);
          n2 = n2 OR push_bit 4 (p ! 0 AND 0x03);
          n1 = drop_bit 2 (p ! 0 AND 0xfc)
      in [n1, n2, n3, n4])"

definition base64_padding :: "nat \<Rightarrow> u8 list \<Rightarrow> u8 list" where
  "base64_padding b v =
     (if b = 1 then v[2 := 64, 3 := 64] else if b = 2 then v[3 := 64] else v)"

definition base64_encode_block :: "u8 list \<Rightarrow> u8 list option" where
  "base64_encode_block p =
     (if list_all (\<lambda>n. n \<le> 63) (base64_values p)
      then lookup_all BASE64_TABLE (base64_padding (length p) (base64_values p)) else None)"

definition cyoBase64Encode :: "u8 list option \<Rightarrow> u8 list option \<Rightarrow> nat \<Rightarrow> (nat \<times> u8 list option) option" where
  "cyoBase64Encode dest src sz =
     (case (dest, src) of
        (Some d, Some s) \<Rightarrow>
          (if length s < sz then None
           else map_option (map_prod (\<lambda>n. n) Some) (block_encode BASE64_INPUT base64_encode_block (take sz s) 0 d))
      | _ \<Rightarrow> Some (0, dest))"

definition BASE64_DECODE_INPUT :: nat where "BASE64_DECODE_INPUT = 4"

definition BASE64_DECODE_TABLE :: "u8 list" where
  "BASE64_DECODE_TABLE =
     [0xFF, 0xFF, 0xFF, 0xFF, 0xFF, 0xFF, 0xFF, 0xFF,
      0xFF, 0xFF, 0xFF, 0xFF, 0xFF, 0xFF, 0xFF, 0xFF,
      0xFF, 0xFF, 0xFF, 0xFF, 0xFF, 0xFF, 0xFF, 0xFF,
      0xFF, 0xFF, 0xFF, 0xFF, 0xFF, 0xFF, 0xFF, 0xFF,
      0xFF, 0xFF, 0xFF, 0xFF, 0xFF, 0xFF, 0xFF, 0xFF,
      0xFF, 0xFF, 0xFF, 0x3e, 0xFF, 0xFF, 0xFF, 0x3f,
      0x34, 0x35, 0x36, 0x37, 0x38, 0x39, 0x3a, 0x3b,
      0x3c, 0x3d, 0xFF, 0xFF, 0xFF, 0x40, 0xFF, 0xFF,
      0xFF, 0x00, 0x01, 0x02, 0x03, 0x04, 0x05, 0x06,
      0x07, 0x08, 0x09, 0x0a, 0x0b, 0x0c, 0x0d, 0x0e,
      0x0f, 0x10, 0x11, 0x12, 0x13, 0x14, 0x15, 0x16,
      0x17, 0x18, 0x19, 0xFF, 0xFF, 0xFF, 0xFF, 0xFF,
      0xFF, 0x1a, 0x1b, 0x1c, 0x1d, 0x1e, 0x1f, 0x20,
      0x21, 0x22, 0x23, 0x24, 0x25, 0x26, 0x27, 0x28,
      0x29, 0x2a, 0x2b, 0x2c, 0x2d, 0x2e, 0x2f, 0x30,
      0x31, 0x32, 0x33, 0xFF, 0xFF, 0xFF, 0xFF, 0xFF]"

definition base64_bytes :: "u8 list \<Rightarrow> u8 list \<times> nat" where
  "base64_bytes v =
     (let in1 = v ! 0; in2 = v ! 1; in3 = v ! 2; in4 = v ! 3
      in ([push_bit 2 (in1 AND 0x3f) OR drop_bit 4 (in2 AND 0x30),
           push_bit 4 (in2 AND 0x0f) OR drop_bit 2 (in3 AND 0x3c),
           push_bit 6 (in3 AND 0x03) OR (in4 AND 0x3f)],
          if in4 = BASE64_MAX_VALUE + 1 then (if in3 = BASE64_MAX_VALUE + 1 then 1 else 2) else 3))"

definition base64_decode_block :: "u8 list \<Rightarrow> block_result" where
  "base64_decode_block cs =
     (if list_ex (\<lambda>c. 0x80 \<le> c) cs then Some (Inl ())
      else do { v \<leftarrow> lookup_all BASE64_DECODE_TABLE cs;
                if list_ex (\<lambda>n. BASE64_MAX_VALUE < n) (take 2 v) then Some (Inl ())
                else if list_ex (\<lambda>n. BASE64_MAX_VALUE + 1 < n) (drop 2 v) then Some (Inl ())
                else Some (Inr (base64_bytes v)) })"

definition cyoBase64Decode :: "u8 list option \<Rightarrow> u8 list option \<Rightarrow> nat \<Rightarrow> (nat \<times> u8 list option) option" where
  "cyoBase64Decode dest src sz =
     (case (dest, src) of
        (Some d, Some s) \<Rightarrow>
          (if sz mod BASE64_DECODE_INPUT = 0
           then map_option (map_prod (\<lambda>n. n) Some) (block_decode BASE64_DECODE_INPUT base64_decode_block sz s 0 0 d)
           else Some (0, dest))
      | _ \<Rightarrow> Some (0, dest))"

section \<open>Base32\<close>

definition BASE32_INPUT :: nat where "BASE32_INPUT = 5"
definition BASE32_MAX_VALUE :: u8 where "BASE32_MAX_VALUE = 31"

definition BASE32_TABLE :: "u8 list" where
  "BASE32_TABLE = map of_char ''ABCDEFGHIJKLMNOPQRSTUVWXYZ234567=''"

definition base32_values :: "u8 list \<Rightarrow> u8 list" where
  "base32_values p =
     (let b = length p;
          n8 = (if b = 5 then p ! 4 AND 0x1f else 0);
          n7 = (if b = 5 then drop_bit 5 (p ! 4 AND 0xe0) else 0);
          n7 = (if 4 \<le> b then n7 OR push_bit 3 (p ! 3 AND 0x03) else n7);
          n6 = (if 4 \<le> b then drop_bit 2 (p ! 3 AND 0x7c) else 0);
          n5 = (if 4 \<le> b then drop_bit 7 (p ! 3 AND 0x80) else 0);
          n5 = (if 3 \<le> b then n5 OR push_bit 1 (p ! 2 AND 0x0f) else n5);
          n4 = (if 3 \<le> b then drop_bit 4 (p ! 2 AND 0xf0) else 0);
          n4 = (if 2 \<le> b then n4 OR push_bit 4 (p ! 1 AND 0x01) else n4);
          n3 = (if 2 \<le> b then drop_bit 1 (p ! 1 AND 0x3e) else 0);
          n2 = (if 2 \<le> b then drop_bit 6 (p ! 1 AND 0xc0) else 0);
          n2 = n2 OR push_bit 2 (p ! 0 AND 0x07);
          n1 = drop_bit 3 (p ! 0 AND 0xf8)
      in [n1, n2, n3, n4, n5, n6, n7, n8])"

definition base32_padding :: "nat \<Rightarrow> u8 list \<Rightarrow> u8 list" where
  "base32_padding b v =
     (if b = 1 then v[2 := 32, 3 := 32, 4 := 32, 5 := 32, 6 := 32, 7 := 32]
      else if b = 2 then v[4 := 32, 5 := 32, 6 := 32, 7 := 32]
      else if b = 3 then v[5 := 32, 6 := 32, 7 := 32]
      else if b = 4 then v[7 := 32] else v)"

definition base32_encode_block :: "u8 list \<Rightarrow> u8 list option" where
  "base32_encode_block p =
     (if list_all (\<lambda>n. n \<le> 31) (base32_values p)
      then lookup_all BASE32_TABLE (base32_padding (length p) (base32_values p)) else None)"

definition cyoBase32Encode :: "u8 list option \<Rightarrow> u8 list option \<Rightarrow> nat \<Rightarrow> (nat \<times> u8 list option) option" where
  "cyoBase32Encode dest src sz =
     (case (dest, src) of
        (Some d, Some s) \<Rightarrow>
          (if length s < sz then None
           else map_option (map_prod (\<lambda>n. n) Some) (block_encode BASE32_INPUT base32_encode_block (take sz s) 0 d))
      | _ \<Rightarrow> Some (0, dest))"

definition BASE32_DECODE_INPUT :: nat where "BASE32_DECODE_INPUT = 8"

definition BASE32_DECODE_TABLE :: "u8 list" where
  "BASE32_DECODE_TABLE =
     [0xFF, 0xFF, 0xFF, 0xFF, 0xFF, 0xFF, 0xFF, 0xFF,
      0xFF, 0xFF, 0xFF, 0xFF, 0xFF, 0xFF, 0xFF, 0xFF,
      0xFF, 0xFF, 0xFF, 0xFF, 0xFF, 0xFF, 0xFF, 0xFF,
      0xFF, 0xFF, 0xFF, 0xFF, 0xFF, 0xFF, 0xFF, 0xFF,
      0xFF, 0xFF, 0xFF, 0xFF, 0xFF, 0xFF, 0xFF, 0xFF,
      0xFF, 0xFF, 0xFF, 0xFF, 0xFF, 0xFF, 0xFF, 0xFF,
      0xFF, 0xFF, 0x1a, 0x1b, 0x1c, 0x1d, 0x1e, 0x1f,
      0xFF, 0xFF, 0xFF, 0xFF, 0xFF, 0x20, 0xFF, 0xFF,
      0xFF, 0x00, 0x01, 0x02, 0x03, 0x04, 0x05, 0x06,
      0x07, 0x08, 0x09, 0x0a, 0x0b, 0x0c, 0x0d, 0x0e,
      0x0f, 0x10, 0x11, 0x12, 0x13, 0x14, 0x15, 0x16,
      0x17, 0x18, 0x19, 0xFF, 0xFF, 0xFF, 0xFF, 0xFF,
      0xFF, 0x00, 0x01, 0x02, 0x03, 0x04, 0x05, 0x06,
      0x07, 0x08, 0x09, 0x0a, 0x0b, 0x0c, 0x0d, 0x0e,
      0x0f, 0x10, 0x11, 0x12, 0x13, 0x14, 0x15, 0x16,
      0x17, 0x18, 0x19, 0xFF, 0xFF, 0xFF, 0xFF, 0xFF]"

text \<open>The padding tests with their two assertions: how many of the five bytes count.\<close>

definition base32_count :: "u8 list \<Rightarrow> nat option" where
  "base32_count v =
     (let pad = (\<lambda>i. v ! i = BASE32_MAX_VALUE + 1)
      in if \<not> pad 7 then Some 5
         else if \<not> (pad 6 \<and> pad 5 \<or> \<not> pad 6) then None
         else if \<not> pad 5 then Some 4
         else if \<not> pad 4 then Some 3
         else if \<not> (pad 3 \<and> pad 2 \<or> \<not> pad 3) then None
         else if \<not> pad 2 then Some 2
         else Some 1)"

definition base32_bytes :: "u8 list \<Rightarrow> u8 list" where
  "base32_bytes v =
     (let in1 = v ! 0; in2 = v ! 1; in3 = v ! 2; in4 = v ! 3; in5 = v ! 4; in6 = v ! 5; in7 = v ! 6; in8 = v ! 7
      in [push_bit 3 (in1 AND 0x1f) OR drop_bit 2 (in2 AND 0x1c),
          push_bit 6 (in2 AND 0x03) OR push_bit 1 (in3 AND 0x1f) OR drop_bit 4 (in4 AND 0x10),
          push_bit 4 (in4 AND 0x0f) OR drop_bit 1 (in5 AND 0x1e),
          push_bit 7 (in5 AND 0x01) OR push_bit 2 (in6 AND 0x1f) OR drop_bit 3 (in7 AND 0x18),
          push_bit 5 (in7 AND 0x07) OR (in8 AND 0x1f)])"

definition base32_decode_block :: "u8 list \<Rightarrow> block_result" where
  "base32_decode_block cs =
     (if list_ex (\<lambda>c. 0x80 \<le> c) cs then Some (Inl ())
      else do { v \<leftarrow> lookup_all BASE32_DECODE_TABLE cs;
                if list_ex (\<lambda>n. BASE32_MAX_VALUE < n) (take 2 v) then Some (Inl ())
                else if list_ex (\<lambda>n. BASE32_MAX_VALUE + 1 < n) (drop 2 v) then Some (Inl ())
                else map_option (\<lambda>c. Inr (base32_bytes v, c)) (base32_count v) })"

definition cyoBase32Decode :: "u8 list option \<Rightarrow> u8 list option \<Rightarrow> nat \<Rightarrow> (nat \<times> u8 list option) option" where
  "cyoBase32Decode dest src sz =
     (case (dest, src) of
        (Some d, Some s) \<Rightarrow>
          (if sz mod BASE32_DECODE_INPUT = 0
           then map_option (map_prod (\<lambda>n. n) Some) (block_decode BASE32_DECODE_INPUT base32_decode_block sz s 0 0 d)
           else Some (0, dest))
      | _ \<Rightarrow> Some (0, dest))"

section \<open>The wrappers (Encode.c)\<close>

text \<open>
  Lengths are C ints; passed on as a \<open>size_t\<close> a negative one is huge. Their products are taken not
  to overflow. \<open>strlen\<close> faults without a terminator in the buffer.
\<close>

definition strlen :: "u8 list \<Rightarrow> nat option" where
  "strlen s = (if 0 \<in> set s then Some (length (takeWhile (\<lambda>c. c \<noteq> 0) s)) else None)"

definition size_arg :: "int \<Rightarrow> nat" where "size_arg n = nat (n mod 4294967296)"

definition int_set :: "u8 list option \<Rightarrow> int \<Rightarrow> u8 \<Rightarrow> u8 list option option" where
  "int_set buf i v =
     (case buf of Some d \<Rightarrow> if 0 \<le> i then map_option Some (arr_set d (nat i) v) else None | None \<Rightarrow> None)"

definition Encode64nChar :: "u8 list option \<Rightarrow> u8 list option \<Rightarrow> int \<Rightarrow> int \<Rightarrow> u8 list option option" where
  "Encode64nChar outbuf str outlen inlen =
     (if str \<noteq> None \<and> outbuf \<noteq> None \<and> outlen \<noteq> 0
      then if inlen = 0 then int_set outbuf 0 0
           else if 4 * ((inlen + 2) sdiv 3) \<le> outlen
                then do { (n, out) \<leftarrow> cyoBase64Encode outbuf str (size_arg inlen); int_set out outlen 0 }
                else Some outbuf
      else Some outbuf)"

text \<open>\<open>strlen\<close> comes first: with a NULL string the process faults.\<close>

definition Encode64 :: "u8 list option \<Rightarrow> u8 list option \<Rightarrow> int \<Rightarrow> u8 list option option" where
  "Encode64 outbuf str outlen =
     (case str of None \<Rightarrow> None
      | Some s \<Rightarrow> do { n \<leftarrow> strlen s; Encode64nChar outbuf str outlen (int n) })"

definition Decode64 :: "u8 list option \<Rightarrow> u8 list option \<Rightarrow> int \<Rightarrow> (int \<times> u8 list option) option" where
  "Decode64 outbuf str outlen =
     (case (outbuf, str) of
        (Some d, Some s) \<Rightarrow>
          do { l \<leftarrow> strlen s;
               if l = 0 then map_option (Pair 0) (int_set outbuf 0 0)
               else do { (n, out) \<leftarrow> cyoBase64Decode outbuf str l;
                         out' \<leftarrow> int_set out outlen 0;
                         Some (int n, out') } }
      | _ \<Rightarrow> Some (- 1, outbuf))"

definition GetEncode32Length :: "int \<Rightarrow> int" where
  "GetEncode32Length bytes =
     (let bits = bytes * 8; len = bits sdiv 5 in if 0 < bits smod 5 then len + 1 else len)"

definition cyoBase32EncodeGetLength :: "int \<Rightarrow> int" where
  "cyoBase32EncodeGetLength sz = GetEncode32Length sz"

definition Encode32 :: "u8 list option \<Rightarrow> int \<Rightarrow> u8 list option \<Rightarrow> (int \<times> u8 list option) option" where
  "Encode32 inp inLen out =
     (if inp = None \<or> out = None then Some (- 1, out)
      else if inLen = 0 then map_option (Pair 0) (int_set out 0 0)
      else do { (n, out1) \<leftarrow> cyoBase32Encode out inp (size_arg inLen);
                out2 \<leftarrow> int_set out1 (GetEncode32Length inLen) 0;
                Some (int n, out2) })"

definition REQ_TEMP_BUFF_SIZE :: "int \<Rightarrow> int" where
  "REQ_TEMP_BUFF_SIZE x = (if x smod 8 \<noteq> 0 then x + (8 - x smod 8) else x)"

definition MAX_BUF_SIZE :: nat where "MAX_BUF_SIZE = 256"

text \<open>
  The copy of the input into the buffer of 256 bytes on the stack: zeros, the input, and up to a
  multiple of eight the padding character.
\<close>

definition decode32_temp :: "u8 list \<Rightarrow> int \<Rightarrow> u8 list option" where
  "decode32_temp inp inLen =
     (let temp_len = REQ_TEMP_BUFF_SIZE inLen
      in if inLen < 0 \<or> temp_len > int MAX_BUF_SIZE \<or> int (length inp) < inLen then None
         else Some (take (nat inLen) inp @ replicate (nat (temp_len - inLen)) 0x3D
                    @ replicate (MAX_BUF_SIZE - nat temp_len) 0))"

definition Decode32 :: "u8 list option \<Rightarrow> int \<Rightarrow> u8 list option \<Rightarrow> (int \<times> u8 list option) option" where
  "Decode32 inp inLen out =
     (case (inp, out) of
        (Some s, Some d) \<Rightarrow>
          (if inLen = 0 then map_option (Pair 1) (int_set out 0 0)
           else do { temp \<leftarrow> decode32_temp s inLen;
                     (n, out1) \<leftarrow> cyoBase32Decode out (Some temp) (nat (REQ_TEMP_BUFF_SIZE inLen));
                     Some (int n, out1) })
      | _ \<Rightarrow> Some (0, out))"

end
