(* ===== verification/EncodingProps.thy ===== *)
theory EncodingProps imports Encoding begin

text \<open>
  Facts of the encoding library. The locale \<open>block_codec\<close> states what a pair of block routines
  promises; the loops of the encoder and the decoder are proved inverse inside it once, and it is
  interpreted for Base64 and for Base32.
\<close>

unbundle bit_operations_syntax

section \<open>Buffers\<close>

lemma put_all_in:
  "i + length bs \<le> length dest \<Longrightarrow> put_all bs i dest = Some (take i dest @ bs @ drop (i + length bs) dest)"
proof (induction bs i dest rule: put_all.induct)
  case (2 b bs i dest)
  then have "i < length dest" by simp
  then have "take (Suc i) (dest[i := b]) = take i dest @ [b]"
    by (simp add: take_Suc_conv_app_nth)
  then show ?case using 2 by (simp add: arr_simps)
qed simp

lemma put_all_out: "bs \<noteq> [] \<Longrightarrow> length dest < i + length bs \<Longrightarrow> put_all bs i dest = None"
proof (induction bs i dest rule: put_all.induct)
  case (2 b bs i dest)
  show ?case
  proof (cases bs)
    case Nil
    then show ?thesis using 2 by (simp add: arr_simps)
  next
    case (Cons c cs)
    then show ?thesis using 2 by (cases "i < length dest") (simp_all add: arr_simps)
  qed
qed simp

section \<open>The interface of the block routines\<close>

text \<open>
  The text of a message: its blocks' texts one after the other; \<open>padded\<close> is the length of the message
  rounded up to full blocks.
\<close>

function block_text :: "nat \<Rightarrow> (u8 list \<Rightarrow> u8 list option) \<Rightarrow> u8 list \<Rightarrow> u8 list" where
  "block_text k enc [] = []"
| "block_text k enc (x # xs) = the (enc (take k (x # xs))) @ block_text k enc (drop (k - 1) xs)"
  by pat_completeness auto
termination by (relation "measure (\<lambda>(k, enc, xs). length xs)") auto

definition block_count :: "nat \<Rightarrow> nat \<Rightarrow> nat" where "block_count k n = (n + (k - 1)) div k"

locale block_codec =
  fixes k m :: nat
    and enc :: "u8 list \<Rightarrow> u8 list option"
    and dec :: "u8 list \<Rightarrow> block_result"
  assumes k_pos: "0 < k"
    and m_pos: "0 < m"
    and enc_block: "p \<noteq> [] \<Longrightarrow> length p \<le> k \<Longrightarrow>
      \<exists>cs. enc p = Some cs \<and> length cs = m \<and> 0 \<notin> set cs
         \<and> dec cs = Some (Inr (p @ replicate (k - length p) 0, length p))"
begin

lemma block_count_0: "block_count k 0 = 0"
  using k_pos by (simp add: block_count_def)

lemma block_count_Cons: "block_count k (Suc n) = Suc (block_count k (n - (k - 1)))"
proof (cases "n < k - 1")
  case True
  have "Suc n + (k - 1) = n + 1 * k" using k_pos by simp
  then have "(Suc n + (k - 1)) div k = Suc (n div k)" using k_pos by (simp add: div_add_self2)
  moreover have "n div k = 0" using True by simp
  moreover have "block_count k (n - (k - 1)) = 0" using True block_count_0 by simp
  ultimately show ?thesis by (simp only: block_count_def)
next
  case False
  then have "Suc n + (k - 1) = (n - (k - 1) + (k - 1)) + 1 * k" using k_pos by simp
  then show ?thesis using k_pos unfolding block_count_def by (simp only: div_mult_self1)
qed

lemma enc_Cons:
  obtains cs where "enc (take k (x # xs)) = Some cs" "length cs = m" "0 \<notin> set cs"
    "dec cs = Some (Inr (take k (x # xs) @ replicate (k - Suc (length xs)) 0, min k (Suc (length xs))))"
proof -
  let ?p = "take k (x # xs)"
  have "?p \<noteq> []" "length ?p \<le> k" using k_pos by simp_all
  moreover have "k - length ?p = k - Suc (length xs)" "length ?p = min k (Suc (length xs))"
    by (simp_all add: min.commute)
  ultimately show thesis using enc_block [of ?p] that by metis
qed

lemma blocks_induct [case_names Nil Cons]:
  assumes "P []" "\<And>x xs. P (drop (k - 1) xs) \<Longrightarrow> P (x # xs)"
  shows "P xs"
proof (induction xs rule: length_induct)
  case (1 xs)
  then show ?case by (cases xs) (auto intro: assms)
qed

lemma length_text: "length (block_text k enc xs) = m * block_count k (length xs)"
proof (induction xs rule: blocks_induct)
  case Nil
  then show ?case using k_pos by (simp add: block_count_def)
next
  case (Cons x xs)
  then show ?case by (rule_tac x = x and xs = xs in enc_Cons) (simp add: block_count_Cons algebra_simps)
qed

lemma text_nonzero: "0 \<notin> set (block_text k enc xs)"
proof (induction xs rule: blocks_induct)
  case (Cons x xs)
  then show ?case by (rule_tac x = x and xs = xs in enc_Cons) simp
qed simp

lemma encode_text:
  "i + length (block_text k enc xs) < length dest \<Longrightarrow>
   block_encode k enc xs i dest =
     Some (i + length (block_text k enc xs),
           take i dest @ block_text k enc xs @ 0 # drop (i + length (block_text k enc xs) + 1) dest)"
proof (induction xs arbitrary: i dest rule: blocks_induct)
  case Nil
  then show ?case by (simp add: arr_simps upd_conv_take_nth_drop)
next
  case (Cons x xs)
  obtain cs where cs: "enc (take k (x # xs)) = Some cs" "length cs = m" by (rule enc_Cons)
  let ?d = "take i dest @ cs @ drop (i + length cs) dest"
  have room: "i + length cs + length (block_text k enc (drop (k - 1) xs)) < length ?d"
    using Cons.prems cs by simp
  have "take (i + length cs) ?d = take i dest @ cs" using Cons.prems cs by simp
  then show ?case using Cons.IH [OF room] Cons.prems cs by (simp add: put_all_in ac_simps)
qed

lemma encode_no_room:
  "length dest \<le> i + length (block_text k enc xs) \<Longrightarrow> block_encode k enc xs i dest = None"
proof (induction xs arbitrary: i dest rule: blocks_induct)
  case Nil
  then show ?case by (simp add: arr_simps)
next
  case (Cons x xs)
  obtain cs where cs: "enc (take k (x # xs)) = Some cs" "length cs = m" by (rule enc_Cons)
  show ?case
  proof (cases "i + length cs \<le> length dest")
    case True
    let ?d = "take i dest @ cs @ drop (i + length cs) dest"
    have "length ?d \<le> i + length cs + length (block_text k enc (drop (k - 1) xs))"
      using Cons.prems cs True by simp
    from Cons.IH [OF this] show ?thesis using cs True by (simp add: put_all_in)
  next
    case False
    then show ?thesis using cs m_pos by (cases cs) (simp_all add: put_all_out del: put_all.simps)
  qed
qed

text \<open>What the decoder stores: the message, zeros up to the end of its last block, the terminator.\<close>

definition padded :: "u8 list \<Rightarrow> u8 list" where
  "padded xs = xs @ replicate (k * block_count k (length xs) - length xs) 0"

lemma count_room: "length xs \<le> k * block_count k (length xs)"
proof (induction xs rule: blocks_induct)
  case (Cons x xs)
  then show ?case using k_pos by (simp add: block_count_Cons)
qed simp

lemma padded_Cons:
  "padded (x # xs) = take k (x # xs) @ replicate (k - Suc (length xs)) 0 @ padded (drop (k - 1) xs)"
proof (cases "length xs < k - 1")
  case True
  then show ?thesis by (simp add: padded_def block_count_Cons block_count_0)
next
  case False
  have t: "take k (x # xs) @ drop (k - 1) xs = x # xs" using k_pos by (cases k) simp_all
  have r: "k * block_count k (length (x # xs)) - length (x # xs) =
      k * block_count k (length (drop (k - 1) xs)) - length (drop (k - 1) xs)"
    using False k_pos by (simp add: block_count_Cons)
  have z: "k - Suc (length xs) = 0" using False by simp
  have "take k (x # xs) @ padded (drop (k - 1) xs) = padded (x # xs)"
    unfolding padded_def r append_assoc [symmetric] t ..
  then show ?thesis by (simp only: z) simp
qed

lemma length_padded: "length (padded xs) = k * block_count k (length xs)"
  using count_room [of xs] by (simp add: padded_def)

lemma decode_text:
  "j + length (padded xs) < length dest \<Longrightarrow>
   block_decode m dec (length (block_text k enc xs)) (block_text k enc xs @ rest) j n dest =
     Some (n + length xs, take j dest @ padded xs @ 0 # drop (j + length (padded xs) + 1) dest)"
proof (induction xs arbitrary: j n dest rule: blocks_induct)
  case Nil
  then show ?case by (simp add: arr_simps upd_conv_take_nth_drop padded_def block_count_0)
next
  case (Cons x xs)
  let ?b = "take k (x # xs) @ replicate (k - Suc (length xs)) 0"
  let ?t = "block_text k enc (drop (k - 1) xs)"
  obtain cs where cs: "enc (take k (x # xs)) = Some cs" "length cs = m"
    "dec cs = Some (Inr (?b, min k (Suc (length xs))))" by (rule enc_Cons) auto
  obtain b where b: "b = ?b" by simp
  let ?d = "take j dest @ b @ drop (j + k) dest"
  have lb: "length b = k" by (simp add: b)
  have pc: "padded (x # xs) = b @ padded (drop (k - 1) xs)" by (simp add: padded_Cons b)
  have fit: "j + k + length (padded (drop (k - 1) xs)) < length dest" using Cons.prems lb by (simp add: pc)
  then have room: "j + k + length (padded (drop (k - 1) xs)) < length ?d" by (simp add: lb)
  have mc: "length (block_text k enc (x # xs)) = Suc (length ?t + (m - 1))" using m_pos cs(1,2) by simp
  have n: "n + min k (Suc (length xs)) + length (drop (k - 1) xs) = n + length (x # xs)"
    using k_pos by (simp add: min_def)
  have t: "block_text k enc (x # xs) @ rest = cs @ ?t @ rest" using cs(1) by simp
  have s: "block_decode m dec (length (block_text k enc (x # xs))) (block_text k enc (x # xs) @ rest) j n dest =
      block_decode m dec (length ?t) (?t @ rest) (j + k) (n + min k (Suc (length xs))) ?d"
    unfolding mc t using cs(2,3) fit lb by (simp add: put_all_in b)
  have tk: "take (j + k) ?d = take j dest @ b" using fit lb by simp
  have dk: "drop (j + k + length (padded (drop (k - 1) xs)) + 1) ?d = drop (j + length (padded (x # xs)) + 1) dest"
    using fit lb by (simp add: pc ac_simps)
  show ?case unfolding s Cons.IH [OF room] tk dk n unfolding pc by simp
qed

end

section \<open>Base64\<close>

lemma base64_table: "BASE64_TABLE = map of_nat ([65..<91] @ [97..<123] @ [48..<58] @ [43, 47, 61])"
  by (simp add: BASE64_TABLE_def upt_rec)

lemma base64_tables: "map (\<lambda>c. BASE64_DECODE_TABLE ! unat c) BASE64_TABLE = map of_nat [0..<65]"
  unfolding base64_table BASE64_DECODE_TABLE_def by (simp add: upt_rec)

lemma base64_chars: "\<forall>c\<in>set BASE64_TABLE. c < 0x80 \<and> c \<noteq> 0"
  unfolding base64_table by (simp add: upt_rec)

lemma base64_table_length: "length BASE64_TABLE = 65" "length BASE64_DECODE_TABLE = 128"
  by (simp_all add: BASE64_TABLE_def BASE64_DECODE_TABLE_def)

lemma base64_char:
  assumes "n \<le> (64 :: u8)"
  shows "BASE64_TABLE ! unat n < 0x80" "BASE64_TABLE ! unat n \<noteq> 0"
    "BASE64_DECODE_TABLE ! unat (BASE64_TABLE ! unat n) = n"
proof -
  have "unat n < 65" using assms by (simp add: word_le_nat_alt)
  then show "BASE64_TABLE ! unat n < 0x80" "BASE64_TABLE ! unat n \<noteq> 0"
    "BASE64_DECODE_TABLE ! unat (BASE64_TABLE ! unat n) = n"
    using base64_chars arg_cong [OF base64_tables, of "\<lambda>xs. xs ! unat n"]
    by (simp_all add: base64_table_length)
qed

lemma base64_lookup:
  "\<forall>n\<in>set ns. n \<le> (64 :: u8) \<Longrightarrow>
   \<exists>cs. lookup_all BASE64_TABLE ns = Some cs \<and> length cs = length ns \<and> 0 \<notin> set cs
      \<and> (\<forall>c\<in>set cs. c < 0x80) \<and> lookup_all BASE64_DECODE_TABLE cs = Some ns"
proof (induction ns)
  case (Cons n ns)
  then obtain cs where cs: "lookup_all BASE64_TABLE ns = Some cs" "length cs = length ns" "0 \<notin> set cs"
    "\<forall>c\<in>set cs. c < 0x80" "lookup_all BASE64_DECODE_TABLE cs = Some ns" by auto
  have n: "n \<le> 64" using Cons.prems by simp
  then have "unat n < 65" by (simp add: word_le_nat_alt)
  moreover have "unat (BASE64_TABLE ! unat n) < 128" using base64_char(1) [OF n] by (simp add: word_less_nat_alt)
  ultimately show ?case using cs base64_char [OF n] by (simp add: arr_simps base64_table_length)
qed simp

lemma byte_bound:
  fixes a :: u8
  shows "\<not> bit a 6 \<Longrightarrow> \<not> bit a 7 \<Longrightarrow> a \<le> 63"
    and "\<not> bit a 5 \<Longrightarrow> \<not> bit a 6 \<Longrightarrow> \<not> bit a 7 \<Longrightarrow> a \<le> 31"
proof -
  assume b: "\<not> bit a 6" "\<not> bit a 7"
  then have "a = a AND 63" by (intro byte_eqI) (simp_all add: bit_simps)
  then show "a \<le> 63" by (metis word_and_le1)
next
  assume b: "\<not> bit a 5" "\<not> bit a 6" "\<not> bit a 7"
  then have "a = a AND 31" by (intro byte_eqI) (simp_all add: bit_simps)
  then show "a \<le> 31" by (metis word_and_le1)
qed

lemma base64_values_bound: "\<forall>n\<in>set (base64_values p). n \<le> 63"
  unfolding base64_values_def Let_def by (auto intro!: byte_bound(1) simp: bit_simps)

lemma le_63_64: "n \<le> 63 \<Longrightarrow> n \<le> 64" for n :: u8
  by (erule order_trans) (simp add: word_le_nat_alt)

text \<open>The values of a block as the decoder reads them back: what is padding, and the bytes.\<close>

lemma not_pad_64: "n \<le> 63 \<Longrightarrow> n \<noteq> 64" for n :: u8
  by auto

lemma base64_values_1: "base64_values [a] = [drop_bit 2 (a AND 0xfc), push_bit 4 (a AND 0x03), 0, 0]"
  by (simp add: base64_values_def)

lemma base64_values_2:
  "base64_values [a, b] =
     [drop_bit 2 (a AND 0xfc), drop_bit 4 (b AND 0xf0) OR push_bit 4 (a AND 0x03), push_bit 2 (b AND 0x0f), 0]"
  by (simp add: base64_values_def)

lemma base64_values_3:
  "base64_values [a, b, c] =
     [drop_bit 2 (a AND 0xfc), drop_bit 4 (b AND 0xf0) OR push_bit 4 (a AND 0x03),
      drop_bit 6 (c AND 0xc0) OR push_bit 2 (b AND 0x0f), c AND 0x3f]"
  by (simp add: base64_values_def)

lemma base64_bytes_4:
  "base64_bytes [i, j, k, l] =
     ([push_bit 2 (i AND 0x3f) OR drop_bit 4 (j AND 0x30), push_bit 4 (j AND 0x0f) OR drop_bit 2 (k AND 0x3c),
       push_bit 6 (k AND 0x03) OR (l AND 0x3f)], if l = 64 then (if k = 64 then 1 else 2) else 3)"
  by (simp add: base64_bytes_def BASE64_MAX_VALUE_def)

lemma base64_back_1: "base64_bytes (base64_padding 1 (base64_values [a])) = ([a, 0, 0], 1)"
proof -
  have "push_bit 2 (drop_bit 2 (a AND 0xfc) AND 0x3f) OR drop_bit 4 (push_bit 4 (a AND 0x03) AND 0x30) = a"
    "push_bit 4 (push_bit 4 (a AND 0x03) AND 0x0f) = 0"
    by (rule byte_eqI; simp add: bit_simps)+
  then show ?thesis by (simp add: base64_padding_def base64_values_1 base64_bytes_4)
qed

lemma base64_back_2: "base64_bytes (base64_padding 2 (base64_values [a, b])) = ([a, b, 0], 2)"
proof -
  let ?n2 = "drop_bit 4 (b AND 0xf0) OR push_bit 4 (a AND 0x03)" and ?n3 = "push_bit 2 (b AND 0x0f)"
  have "push_bit 2 (drop_bit 2 (a AND 0xfc) AND 0x3f) OR drop_bit 4 (?n2 AND 0x30) = a"
    "push_bit 4 (?n2 AND 0x0f) OR drop_bit 2 (?n3 AND 0x3c) = b" "push_bit 6 (?n3 AND 0x03) = 0"
    by (rule byte_eqI; simp add: bit_simps)+
  moreover have "?n3 \<noteq> 64"
    by (rule not_pad_64 [OF base64_values_bound [rule_format, of _ "[a, b]"]]) (simp add: base64_values_2)
  ultimately show ?thesis by (simp add: base64_padding_def base64_values_2 base64_bytes_4)
qed

lemma base64_back_3: "base64_bytes (base64_padding 3 (base64_values [a, b, c])) = ([a, b, c], 3)"
proof -
  let ?n2 = "drop_bit 4 (b AND 0xf0) OR push_bit 4 (a AND 0x03)"
  let ?n3 = "drop_bit 6 (c AND 0xc0) OR push_bit 2 (b AND 0x0f)"
  have "push_bit 2 (drop_bit 2 (a AND 0xfc) AND 0x3f) OR drop_bit 4 (?n2 AND 0x30) = a"
    "push_bit 4 (?n2 AND 0x0f) OR drop_bit 2 (?n3 AND 0x3c) = b"
    "push_bit 6 (?n3 AND 0x03) OR (c AND 0x3f AND 0x3f) = c"
    by (rule byte_eqI; simp add: bit_simps)+
  moreover have "c AND 0x3f \<noteq> 64"
    by (rule not_pad_64 [OF base64_values_bound [rule_format, of _ "[a, b, c]"]]) (simp add: base64_values_3)
  ultimately show ?thesis by (simp add: base64_padding_def base64_values_3 base64_bytes_4)
qed

lemma base64_back:
  assumes "p \<noteq> []" "length p \<le> 3"
  shows "base64_bytes (base64_padding (length p) (base64_values p)) = (p @ replicate (3 - length p) 0, length p)"
proof -
  consider a where "p = [a]" | a b where "p = [a, b]" | a b c where "p = [a, b, c]"
    using assms by (cases p; cases "tl p"; cases "tl (tl p)"; auto)
  then show ?thesis
    by cases (use base64_back_1 base64_back_2 base64_back_3 in \<open>simp_all add: numeral_eq_Suc\<close>)
qed

lemma base64_block:
  assumes "p \<noteq> []" "length p \<le> 3"
  shows "\<exists>cs. base64_encode_block p = Some cs \<and> length cs = 4 \<and> 0 \<notin> set cs
    \<and> base64_decode_block cs = Some (Inr (p @ replicate (3 - length p) 0, length p))"
proof -
  let ?v = "base64_padding (length p) (base64_values p)"
  have v: "\<forall>n\<in>set ?v. n \<le> 64" "\<forall>n\<in>set (take 2 ?v). n \<le> 63" "length ?v = 4"
    using base64_values_bound [of p] by (auto simp: base64_padding_def base64_values_def Let_def le_63_64)
  obtain cs where cs: "lookup_all BASE64_TABLE ?v = Some cs" "length cs = length ?v" "0 \<notin> set cs"
    "\<forall>c\<in>set cs. c < 0x80" "lookup_all BASE64_DECODE_TABLE cs = Some ?v"
    using base64_lookup [OF v(1)] by blast
  have "base64_bytes ?v = (p @ replicate (3 - length p) 0, length p)" using assms by (rule base64_back)
  moreover have "\<not> list_ex (\<lambda>c. 0x80 \<le> c) cs" "\<not> list_ex (\<lambda>n. BASE64_MAX_VALUE < n) (take 2 ?v)"
    "\<not> list_ex (\<lambda>n. BASE64_MAX_VALUE + 1 < n) (drop 2 ?v)"
    using cs(4) v(1,2) by (auto simp: list_ex_iff BASE64_MAX_VALUE_def not_less dest: in_set_dropD)
  ultimately show ?thesis using cs v(3) base64_values_bound [of p]
    by (simp add: base64_encode_block_def base64_decode_block_def list_all_iff)
qed

interpretation b64: block_codec BASE64_INPUT BASE64_DECODE_INPUT base64_encode_block base64_decode_block
  by unfold_locales (simp_all add: BASE64_INPUT_def BASE64_DECODE_INPUT_def base64_block)

section \<open>Base32\<close>

lemma base32_table: "BASE32_TABLE = map of_nat ([65..<91] @ [50..<56] @ [61])"
  by (simp add: BASE32_TABLE_def upt_rec)

lemma base32_tables: "map (\<lambda>c. BASE32_DECODE_TABLE ! unat c) BASE32_TABLE = map of_nat [0..<33]"
  unfolding base32_table BASE32_DECODE_TABLE_def by (simp add: upt_rec)

lemma base32_chars: "\<forall>c\<in>set BASE32_TABLE. c < 0x80 \<and> c \<noteq> 0"
  unfolding base32_table by (simp add: upt_rec)

lemma base32_table_length: "length BASE32_TABLE = 33" "length BASE32_DECODE_TABLE = 128"
  by (simp_all add: BASE32_TABLE_def BASE32_DECODE_TABLE_def)

lemma base32_char:
  assumes "n \<le> (32 :: u8)"
  shows "BASE32_TABLE ! unat n < 0x80" "BASE32_TABLE ! unat n \<noteq> 0"
    "BASE32_DECODE_TABLE ! unat (BASE32_TABLE ! unat n) = n"
proof -
  have "unat n < 33" using assms by (simp add: word_le_nat_alt)
  then show "BASE32_TABLE ! unat n < 0x80" "BASE32_TABLE ! unat n \<noteq> 0"
    "BASE32_DECODE_TABLE ! unat (BASE32_TABLE ! unat n) = n"
    using base32_chars arg_cong [OF base32_tables, of "\<lambda>xs. xs ! unat n"]
    by (simp_all add: base32_table_length)
qed

lemma base32_lookup:
  "\<forall>n\<in>set ns. n \<le> (32 :: u8) \<Longrightarrow>
   \<exists>cs. lookup_all BASE32_TABLE ns = Some cs \<and> length cs = length ns \<and> 0 \<notin> set cs
      \<and> (\<forall>c\<in>set cs. c < 0x80) \<and> lookup_all BASE32_DECODE_TABLE cs = Some ns"
proof (induction ns)
  case (Cons n ns)
  then obtain cs where cs: "lookup_all BASE32_TABLE ns = Some cs" "length cs = length ns" "0 \<notin> set cs"
    "\<forall>c\<in>set cs. c < 0x80" "lookup_all BASE32_DECODE_TABLE cs = Some ns" by auto
  have n: "n \<le> 32" using Cons.prems by simp
  then have "unat n < 33" by (simp add: word_le_nat_alt)
  moreover have "unat (BASE32_TABLE ! unat n) < 128" using base32_char(1) [OF n] by (simp add: word_less_nat_alt)
  ultimately show ?case using cs base32_char [OF n] by (simp add: arr_simps base32_table_length)
qed simp

lemma base32_values_bound: "\<forall>n\<in>set (base32_values p). n \<le> 31"
proof -
  have "list_all (\<lambda>n. n \<le> 31) (base32_values p)"
    unfolding base32_values_def Let_def list.pred_inject
    by (intro conjI TrueI byte_bound(2)) (simp_all add: bit_simps bit_if cong: if_cong split del: if_split)
  then show ?thesis by (simp add: list_all_iff)
qed

lemma le_31_32: "n \<le> 31 \<Longrightarrow> n \<le> 32" for n :: u8
  by (erule order_trans) (simp add: word_le_nat_alt)

lemma not_pad_32: "n \<le> 31 \<Longrightarrow> n \<noteq> 32" for n :: u8
  by auto

text \<open>The padding the encoder adds is what the decoder counts.\<close>

lemma base32_count_padding:
  assumes "1 \<le> b" "b \<le> 5" "\<forall>n\<in>{n1, n2, n3, n4, n5, n6, n7, n8}. n \<noteq> 32"
  shows "base32_count (base32_padding b [n1, n2, n3, n4, n5, n6, n7, n8]) = Some b"
proof -
  have "b = 1 \<or> b = 2 \<or> b = 3 \<or> b = 4 \<or> b = 5" using assms(1,2) by auto
  then show ?thesis using assms(3)
    by (elim disjE) (simp_all add: base32_count_def base32_padding_def BASE32_MAX_VALUE_def)
qed

lemma eight_of:
  assumes "length v = 8"
  obtains n1 n2 n3 n4 n5 n6 n7 n8 where "v = [n1, n2, n3, n4, n5, n6, n7, n8]"
  using assms by (auto simp: numeral_eq_Suc length_Suc_conv)

lemma length_base32_values: "length (base32_values p) = 8"
  by (simp add: base32_values_def Let_def)

lemma base32_count_back:
  assumes "p \<noteq> []" "length p \<le> 5"
  shows "base32_count (base32_padding (length p) (base32_values p)) = Some (length p)"
proof -
  obtain n1 n2 n3 n4 n5 n6 n7 n8 where v: "base32_values p = [n1, n2, n3, n4, n5, n6, n7, n8]"
    using length_base32_values by (rule eight_of)
  have "\<forall>n\<in>{n1, n2, n3, n4, n5, n6, n7, n8}. n \<noteq> 32"
    using base32_values_bound [of p] not_pad_32 unfolding v by fastforce
  moreover have "1 \<le> length p" using assms by (cases p) auto
  ultimately show ?thesis unfolding v using assms(2) by (intro base32_count_padding)
qed

lemma base32_values_5:
  "base32_values [a, b, c, d, e] =
     [drop_bit 3 (a AND 0xf8), drop_bit 6 (b AND 0xc0) OR push_bit 2 (a AND 0x07), drop_bit 1 (b AND 0x3e),
      drop_bit 4 (c AND 0xf0) OR push_bit 4 (b AND 0x01), drop_bit 7 (d AND 0x80) OR push_bit 1 (c AND 0x0f),
      drop_bit 2 (d AND 0x7c), drop_bit 5 (e AND 0xe0) OR push_bit 3 (d AND 0x03), e AND 0x1f]"
  by (simp add: base32_values_def)

text \<open>A short block has the values of the block filled up with zeros.\<close>

lemma base32_values_short:
  "base32_values [a] = base32_values [a, 0, 0, 0, 0]"
  "base32_values [a, b] = base32_values [a, b, 0, 0, 0]"
  "base32_values [a, b, c] = base32_values [a, b, c, 0, 0]"
  "base32_values [a, b, c, d] = base32_values [a, b, c, d, 0]"
  by (simp_all add: base32_values_def)

lemma base32_bytes_8:
  "base32_bytes [i1, i2, i3, i4, i5, i6, i7, i8] =
     [push_bit 3 (i1 AND 0x1f) OR drop_bit 2 (i2 AND 0x1c),
      push_bit 6 (i2 AND 0x03) OR push_bit 1 (i3 AND 0x1f) OR drop_bit 4 (i4 AND 0x10),
      push_bit 4 (i4 AND 0x0f) OR drop_bit 1 (i5 AND 0x1e),
      push_bit 7 (i5 AND 0x01) OR push_bit 2 (i6 AND 0x1f) OR drop_bit 3 (i7 AND 0x18),
      push_bit 5 (i7 AND 0x07) OR (i8 AND 0x1f)]"
  by (simp add: base32_bytes_def)

lemma bit_twice: "bit (x * 2) n \<longleftrightarrow> n \<noteq> 0 \<and> n < 8 \<and> bit x (n - 1)" for x :: u8
  using bit_double_iff [of x n] by (auto simp: mult.commute)

lemma base32_bytes_values: "base32_bytes (base32_values [a, b, c, d, e]) = [a, b, c, d, e]"
proof -
  let ?n2 = "drop_bit 6 (b AND 0xc0) OR push_bit 2 (a AND 0x07)" and ?n3 = "drop_bit 1 (b AND 0x3e)"
  let ?n4 = "drop_bit 4 (c AND 0xf0) OR push_bit 4 (b AND 0x01)"
  let ?n5 = "drop_bit 7 (d AND 0x80) OR push_bit 1 (c AND 0x0f)"
  let ?n7 = "drop_bit 5 (e AND 0xe0) OR push_bit 3 (d AND 0x03)"
  have "push_bit 3 (drop_bit 3 (a AND 0xf8) AND 0x1f) OR drop_bit 2 (?n2 AND 0x1c) = a"
    "push_bit 6 (?n2 AND 0x03) OR push_bit 1 (?n3 AND 0x1f) OR drop_bit 4 (?n4 AND 0x10) = b"
    "push_bit 4 (?n4 AND 0x0f) OR drop_bit 1 (?n5 AND 0x1e) = c"
    "push_bit 7 (?n5 AND 0x01) OR push_bit 2 (drop_bit 2 (d AND 0x7c) AND 0x1f) OR drop_bit 3 (?n7 AND 0x18) = d"
    "push_bit 5 (?n7 AND 0x07) OR ((e AND 0x1f) AND 0x1f) = e"
    by (rule byte_eqI; simp add: bit_simps bit_twice flip: numeral_2_eq_2 numeral_3_eq_3)+
  then show ?thesis unfolding base32_values_5 base32_bytes_8 by (simp only:)
qed

text \<open>The padding value counts as zero in every bit the decoder reads.\<close>

lemma base32_padding_bytes:
  assumes "p \<noteq> []" "length p \<le> 5"
  shows "base32_bytes (base32_padding (length p) (base32_values p)) = base32_bytes (base32_values p)"
proof -
  consider a where "p = [a]" | a b where "p = [a, b]" | a b c where "p = [a, b, c]"
    | a b c d where "p = [a, b, c, d]" | "length p = 5"
    using assms by (cases p; cases "tl p"; cases "tl (tl p)"; cases "tl (tl (tl p))"; cases "tl (tl (tl (tl p)))"; auto)
  then show ?thesis
    by cases (simp_all add: base32_padding_def base32_values_short base32_values_5 base32_bytes_8)
qed

lemma base32_back:
  assumes "p \<noteq> []" "length p \<le> 5"
  shows "base32_bytes (base32_padding (length p) (base32_values p)) = p @ replicate (5 - length p) 0"
proof -
  consider a where "p = [a]" | a b where "p = [a, b]" | a b c where "p = [a, b, c]"
    | a b c d where "p = [a, b, c, d]" | a b c d e where "p = [a, b, c, d, e]"
    using assms by (cases p; cases "tl p"; cases "tl (tl p)"; cases "tl (tl (tl p))"; cases "tl (tl (tl (tl p)))"; auto)
  then show ?thesis unfolding base32_padding_bytes [OF assms]
    by cases (simp_all only: base32_values_short base32_bytes_values, simp_all add: numeral_eq_Suc)
qed

lemma base32_block:
  assumes "p \<noteq> []" "length p \<le> 5"
  shows "\<exists>cs. base32_encode_block p = Some cs \<and> length cs = 8 \<and> 0 \<notin> set cs
    \<and> base32_decode_block cs = Some (Inr (p @ replicate (5 - length p) 0, length p))"
proof -
  let ?v = "base32_padding (length p) (base32_values p)"
  obtain n1 n2 n3 n4 n5 n6 n7 n8 where v8: "base32_values p = [n1, n2, n3, n4, n5, n6, n7, n8]"
    using length_base32_values by (rule eight_of)
  have v: "\<forall>n\<in>set ?v. n \<le> 32" "\<forall>n\<in>set (take 2 ?v). n \<le> 31" "length ?v = 8"
    using base32_values_bound [of p] unfolding v8 by (simp_all add: base32_padding_def le_31_32)
  obtain cs where cs: "lookup_all BASE32_TABLE ?v = Some cs" "length cs = length ?v" "0 \<notin> set cs"
    "\<forall>c\<in>set cs. c < 0x80" "lookup_all BASE32_DECODE_TABLE cs = Some ?v"
    using base32_lookup [OF v(1)] by blast
  have "\<not> list_ex (\<lambda>c. 0x80 \<le> c) cs" "\<not> list_ex (\<lambda>n. BASE32_MAX_VALUE < n) (take 2 ?v)"
    "\<not> list_ex (\<lambda>n. BASE32_MAX_VALUE + 1 < n) (drop 2 ?v)"
    using cs(4) v(1,2) by (auto simp: list_ex_iff BASE32_MAX_VALUE_def not_less dest: in_set_dropD)
  then show ?thesis using cs v(3) base32_values_bound [of p] base32_back [OF assms] base32_count_back [OF assms]
    by (simp add: base32_encode_block_def base32_decode_block_def list_all_iff)
qed

interpretation b32: block_codec BASE32_INPUT BASE32_DECODE_INPUT base32_encode_block base32_decode_block
  by unfold_locales (simp_all add: BASE32_INPUT_def BASE32_DECODE_INPUT_def base32_block)

text \<open>
  The text of a message ends with the padding characters; what comes before is as long as
  \<open>GetEncode32Length\<close> says.
\<close>

definition text32_length :: "nat \<Rightarrow> nat" where "text32_length n = (8 * n + 4) div 5"

lemma div5_up: "(if 0 < y mod 5 then y div 5 + 1 else y div 5) = (y + 4) div 5" for y :: int
  by presburger

lemma GetEncode32Length_nat: "GetEncode32Length (int n) = int (text32_length n)"
proof -
  have "int n * 8 sdiv 5 = int n * 8 div 5"
    by (cases n) (simp_all add: signed_divide_int_def)
  moreover have "int n * 8 smod 5 = int n * 8 mod 5"
    by (cases n) (simp_all add: signed_modulo_int_def)
  moreover have "int (text32_length n) = (int n * 8 + 4) div 5"
    by (simp add: text32_length_def zdiv_int mult.commute)
  ultimately show ?thesis unfolding GetEncode32Length_def Let_def by (simp only: div5_up)
qed

lemma lookup_all_append:
  "lookup_all t (ms @ ns) = do { cs \<leftarrow> lookup_all t ms; ds \<leftarrow> lookup_all t ns; Some (cs @ ds) }"
  by (induction ms) (simp_all split: bind_splits)

lemma lookup_padding: "lookup_all BASE32_TABLE (replicate n 32) = Some (replicate n 0x3D)"
proof -
  have "BASE32_TABLE ! 32 = 0x3D" unfolding base32_table by (simp add: upt_rec)
  then show ?thesis by (induction n) (simp_all add: arr_simps base32_table_length)
qed

lemma base32_padding_shape:
  assumes "1 \<le> b" "b \<le> 5" "length v = 8"
  shows "base32_padding b v = take (text32_length b) v @ replicate (8 - text32_length b) 32"
proof -
  obtain n1 n2 n3 n4 n5 n6 n7 n8 where v: "v = [n1, n2, n3, n4, n5, n6, n7, n8]"
    using assms(3) by (rule eight_of)
  have "b = 1 \<or> b = 2 \<or> b = 3 \<or> b = 4 \<or> b = 5" using assms by auto
  moreover have "replicate 6 (32 :: u8) = [32, 32, 32, 32, 32, 32]" "replicate 4 (32 :: u8) = [32, 32, 32, 32]"
    "replicate 3 (32 :: u8) = [32, 32, 32]"
    by (simp_all add: numeral_eq_Suc)
  ultimately show ?thesis unfolding v
    by (elim disjE) (simp_all add: base32_padding_def text32_length_def)
qed

lemma base32_block_shape:
  assumes "p \<noteq> []" "length p \<le> 5" "base32_encode_block p = Some cs"
  shows "cs = take (text32_length (length p)) cs @ replicate (8 - text32_length (length p)) 0x3D"
proof -
  let ?l = "text32_length (length p)"
  have b: "1 \<le> length p" using assms(1) by (cases p) auto
  have l: "?l \<le> 8" using assms(2) by (simp add: text32_length_def)
  have "lookup_all BASE32_TABLE (take ?l (base32_values p) @ replicate (8 - ?l) 32) = Some cs"
    using assms(3) base32_padding_shape [OF b assms(2) length_base32_values [of p]]
    by (simp add: base32_encode_block_def split: if_splits)
  then obtain ds where ds: "lookup_all BASE32_TABLE (take ?l (base32_values p)) = Some ds"
    "cs = ds @ replicate (8 - ?l) 0x3D"
    by (auto simp: lookup_all_append lookup_padding split: bind_splits)
  have "length (lookup) = length ns" if "lookup_all t ns = Some lookup" for t ns lookup
    using that by (induction ns arbitrary: lookup) (auto split: bind_splits)
  from this [OF ds(1)] have "length ds = ?l" using l by (simp add: length_base32_values)
  then show ?thesis using ds(2) by simp
qed

abbreviation "text32 \<equiv> block_text BASE32_INPUT base32_encode_block"

lemma text32_length_le: "text32_length n \<le> 8 * block_count BASE32_INPUT n"
proof -
  have "8 * n + 4 < 5 * (8 * ((n + 4) div 5) + 1)" by presburger
  then show ?thesis by (simp add: text32_length_def block_count_def BASE32_INPUT_def)
qed

lemma text32_shape:
  "text32 xs = take (text32_length (length xs)) (text32 xs)
     @ replicate (8 * block_count BASE32_INPUT (length xs) - text32_length (length xs)) 0x3D"
proof (induction xs rule: b32.blocks_induct)
  case Nil
  show ?case by (simp add: b32.block_count_0 text32_length_def)
next
  case (Cons x xs)
  let ?p = "take 5 (x # xs)" and ?r = "drop 4 xs"
  have p: "?p \<noteq> []" "length ?p \<le> 5" by simp_all
  obtain cs where cs: "base32_encode_block ?p = Some cs" "length cs = 8" using base32_block [OF p] by blast
  have t: "text32 (x # xs) = cs @ text32 ?r" using cs(1) by (simp add: BASE32_INPUT_def)
  have c: "block_count BASE32_INPUT (Suc (length xs)) = Suc (block_count BASE32_INPUT (length ?r))"
    using b32.block_count_Cons [of "length xs"] by (simp add: BASE32_INPUT_def)
  show ?case
  proof (cases "length xs < 4")
    case True
    then have "?p = x # xs" "text32 ?r = []" "block_count BASE32_INPUT (length ?r) = 0"
      by (simp_all add: b32.block_count_0)
    then show ?thesis using base32_block_shape [OF p cs(1)] unfolding t by (simp add: c [simplified])
  next
    case False
    then have "text32_length (length (x # xs)) = 8 + text32_length (length ?r)"
      by (simp add: text32_length_def)
    then show ?thesis using Cons.IH cs(2) unfolding t by (simp add: c [unfolded BASE32_INPUT_def, simplified] BASE32_INPUT_def)
  qed
qed

section \<open>The wrappers\<close>

lemma strlen_text: "0 \<notin> set t \<Longrightarrow> strlen (t @ 0 # rest) = Some (length t)"
proof -
  assume "0 \<notin> set t"
  then have "takeWhile (\<lambda>c. c \<noteq> 0) (t @ 0 # rest) = t" by (subst takeWhile_append2) auto
  then show ?thesis by (simp add: strlen_def)
qed

lemma size_arg_nat: "n < 4294967296 \<Longrightarrow> size_arg (int n) = n"
  by (simp add: size_arg_def)

lemma int_set_in: "i < length d \<Longrightarrow> int_set (Some d) (int i) v = Some (Some (d[i := v]))"
  by (simp add: int_set_def arr_simps)

lemma encode64_text:
  assumes "xs \<noteq> []" "length xs < 1000000000" "4 * ((length xs + 2) div 3) < length buf"
  shows "Encode64nChar (Some buf) (Some xs) (int (4 * ((length xs + 2) div 3))) (int (length xs)) =
    Some (Some (block_text BASE64_INPUT base64_encode_block xs @ 0 # drop (4 * ((length xs + 2) div 3) + 1) buf))"
proof -
  let ?t = "block_text BASE64_INPUT base64_encode_block xs" and ?n = "4 * ((length xs + 2) div 3)"
  have l: "length ?t = ?n" using b64.length_text [of xs]
    by (simp add: block_count_def BASE64_INPUT_def BASE64_DECODE_INPUT_def)
  have q: "(int (length xs) + 2) sdiv 3 = int ((length xs + 2) div 3)"
    by (simp add: signed_divide_int_def zdiv_int)
  have e: "cyoBase64Encode (Some buf) (Some xs) (length xs) = Some (?n, Some (?t @ 0 # drop (?n + 1) buf))"
    using b64.encode_text [of 0 xs buf] assms(3) l by (simp add: cyoBase64Encode_def)
  have "int_set (Some (?t @ 0 # drop (?n + 1) buf)) (int ?n) 0 = Some (Some (?t @ 0 # drop (?n + 1) buf))"
    using l by (subst int_set_in) (simp_all add: list_update_append)
  moreover have "int ?n \<noteq> 0" "int (length xs) \<noteq> 0" using assms(1) by (simp_all add: div_eq_0_iff Suc_le_eq)
  moreover have "4 * ((int (length xs) + 2) sdiv 3) = int ?n" unfolding q by simp
  ultimately show ?thesis unfolding Encode64nChar_def
    using e assms(2) by (simp only: size_arg_nat) simp
qed

lemma decode64_text:
  assumes "xs \<noteq> []" "3 * ((length xs + 2) div 3) < length out" "length xs \<le> l" "l < length out"
  shows "\<exists>out'. Decode64 (Some out) (Some (block_text BASE64_INPUT base64_encode_block xs @ 0 # rest)) (int l) =
    Some (int (length xs), Some out') \<and> length out' = length out \<and> take (length xs) out' = xs"
proof -
  let ?t = "block_text BASE64_INPUT base64_encode_block xs"
  have l: "length ?t = 4 * ((length xs + 2) div 3)" using b64.length_text [of xs]
    by (simp add: block_count_def BASE64_INPUT_def BASE64_DECODE_INPUT_def)
  then have "?t \<noteq> []" using assms(1) by (auto simp: div_eq_0_iff Suc_le_eq)
  have p: "length (b64.padded xs) = 3 * ((length xs + 2) div 3)"
    using b64.length_padded [of xs] by (simp add: block_count_def BASE64_INPUT_def)
  let ?o = "b64.padded xs @ 0 # drop (length (b64.padded xs) + 1) out"
  have d: "cyoBase64Decode (Some out) (Some (?t @ 0 # rest)) (length ?t) = Some (length xs, Some ?o)"
    using b64.decode_text [of 0 xs out "0 # rest" 0] assms(2) p
    by (simp add: cyoBase64Decode_def l BASE64_DECODE_INPUT_def)
  have lo: "length ?o = length out" using assms(2) p by simp
  have "take (length xs) (?o[l := 0]) = xs" using assms(3) by (simp add: b64.padded_def take_update_cancel)
  moreover have "int_set (Some ?o) (int l) 0 = Some (Some (?o[l := 0]))"
    using assms(4) lo by (simp only: int_set_in)
  ultimately show ?thesis using d lo \<open>?t \<noteq> []\<close>
    by (simp add: Decode64_def strlen_text [OF b64.text_nonzero] del: length_append)
qed

text \<open>
  C26. Base64 round trip: what \<open>Encode64nChar\<close> writes into a buffer with room for the text and a
  terminator is a C string of \<open>4 * ((n + 2) / 3)\<close> characters, and \<open>Decode64\<close> turns it back into the
  \<open>n\<close> bytes, returning \<open>n\<close>, when its buffer has room for whole blocks and a terminator.
\<close>

theorem encode64_roundtrip:
  assumes "xs \<noteq> []" "length xs < 1000000000" "4 * ((length xs + 2) div 3) < length buf"
    and "3 * ((length xs + 2) div 3) < length out" "length xs \<le> l" "l < length out"
  shows "\<exists>text out'.
      Encode64nChar (Some buf) (Some xs) (int (4 * ((length xs + 2) div 3))) (int (length xs)) = Some (Some text)
    \<and> strlen text = Some (4 * ((length xs + 2) div 3))
    \<and> Decode64 (Some out) (Some text) (int l) = Some (int (length xs), Some out')
    \<and> take (length xs) out' = xs"
proof -
  have "length (block_text BASE64_INPUT base64_encode_block xs) = 4 * ((length xs + 2) div 3)"
    using b64.length_text [of xs] by (simp add: block_count_def BASE64_INPUT_def BASE64_DECODE_INPUT_def)
  then show ?thesis
    using encode64_text [OF assms(1-3)] decode64_text [OF assms(1,4-6)] strlen_text [OF b64.text_nonzero] by metis
qed

theorem encode64_roundtrip_witness:
  "\<exists>text out'. Encode64nChar (Some (replicate 9 0)) (Some [0xDE, 0xAD, 0xBE, 0xEF]) 8 4 = Some (Some text)
    \<and> strlen text = Some 8 \<and> Decode64 (Some (replicate 7 0)) (Some text) 4 = Some (4, Some out')
    \<and> take 4 out' = [0xDE, 0xAD, 0xBE, 0xEF]"
proof -
  have l: "length [0xDE :: u8, 0xAD, 0xBE, 0xEF] = 4" by simp
  show ?thesis
    using encode64_roundtrip [of "[0xDE, 0xAD, 0xBE, 0xEF]" "replicate 9 0" "replicate 7 0" 4, unfolded l] by simp
qed

lemma length_text32: "length (text32 xs) = 8 * ((length xs + 4) div 5)"
  using b32.length_text [of xs] by (simp add: block_count_def BASE32_INPUT_def BASE32_DECODE_INPUT_def)

lemma text32_length_bound: "text32_length n \<le> 8 * ((n + 4) div 5)"
  using text32_length_le [of n] by (simp add: block_count_def BASE32_INPUT_def)

lemma encode32_text:
  assumes "xs \<noteq> []" "length xs < 4294967296" "8 * ((length xs + 4) div 5) < length buf"
  shows "\<exists>rest. Encode32 (Some xs) (int (length xs)) (Some buf) =
    Some (int (8 * ((length xs + 4) div 5)), Some (take (text32_length (length xs)) (text32 xs) @ 0 # rest))"
proof -
  let ?n = "8 * ((length xs + 4) div 5)" and ?k = "text32_length (length xs)"
  let ?o = "text32 xs @ 0 # drop (?n + 1) buf"
  have e: "cyoBase32Encode (Some buf) (Some xs) (length xs) = Some (?n, Some ?o)"
    using b32.encode_text [of 0 xs buf] assms(3) by (simp add: cyoBase32Encode_def length_text32)
  have k: "?k < length ?o" using text32_length_bound [of "length xs"] by (simp add: length_text32)
  have "?o[?k := 0] = take ?k (text32 xs) @ 0 # drop (Suc ?k) ?o"
    using k text32_length_bound [of "length xs"] by (simp add: upd_conv_take_nth_drop length_text32 del: list_update_append)
  then show ?thesis using assms(1,2) e k
    by (simp add: Encode32_def size_arg_nat GetEncode32Length_nat int_set_in del: list_update_append length_append)
qed

lemma round_up_8:
  assumes "k \<le> 8 * q" "8 * q < k + 8"
  shows "(if k mod 8 \<noteq> 0 then k + (8 - k mod 8) else k) = 8 * (q :: int)"
proof -
  have k: "k = 8 * (k div 8) + k mod 8" "0 \<le> k mod 8" "k mod 8 < 8" by simp_all
  show ?thesis
  proof (cases "k mod 8 = 0")
    case True
    then have "k div 8 = q" using assms k by linarith
    then show ?thesis using True k(1) by simp
  next
    case False
    then have "k div 8 + 1 = q" using assms k by linarith
    then have "k + (8 - k mod 8) = 8 * q" using k(1) by linarith
    then show ?thesis using False by simp
  qed
qed

lemma decode32_temp_text:
  assumes "length t = k" "k \<le> n" "n \<le> 256" "REQ_TEMP_BUFF_SIZE (int k) = int n"
  shows "decode32_temp (t @ rest) (int k) = Some (t @ replicate (n - k) 0x3D @ replicate (256 - n) 0)"
proof -
  have "nat (int n - int k) = n - k" by (simp only: nat_minus_as_int)
  then show ?thesis using assms by (simp add: decode32_temp_def Let_def MAX_BUF_SIZE_def)
qed

lemma decode32_text:
  assumes "xs \<noteq> []" "length xs \<le> 160" "5 * ((length xs + 4) div 5) < length out"
  shows "\<exists>out'. Decode32 (Some (take (text32_length (length xs)) (text32 xs) @ 0 # rest))
      (int (text32_length (length xs))) (Some out) = Some (int (length xs), Some out')
    \<and> length out' = length out \<and> take (length xs) out' = xs"
proof -
  let ?n = "8 * ((length xs + 4) div 5)" and ?k = "text32_length (length xs)"
  have k: "?k \<le> ?n" "?n \<le> 256" "0 < ?k" "?n < ?k + 8"
    using assms(1,2) text32_length_bound [of "length xs"]
    by (simp_all add: text32_length_def Suc_le_eq div_greater_zero_iff)
  have r: "REQ_TEMP_BUFF_SIZE (int ?k) = int ?n"
  proof -
    have "int ?k smod 8 = int ?k mod 8" by (simp add: signed_modulo_int_def k(3))
    moreover have "int ?k \<le> 8 * int ((length xs + 4) div 5)" "8 * int ((length xs + 4) div 5) < int ?k + 8"
      using k(1,4) by linarith+
    ultimately show ?thesis unfolding REQ_TEMP_BUFF_SIZE_def by (simp only: round_up_8)
  qed
  moreover have "length (take ?k (text32 xs)) = ?k" using k(1) by (simp add: length_text32)
  ultimately have "decode32_temp (take ?k (text32 xs) @ 0 # rest) (int ?k) =
      Some (take ?k (text32 xs) @ replicate (?n - ?k) 0x3D @ replicate (256 - ?n) 0)"
    using k(1,2) by (intro decode32_temp_text) simp_all
  moreover have "take ?k (text32 xs) @ replicate (?n - ?k) 0x3D = text32 xs"
    using text32_shape [of xs] by (simp add: block_count_def BASE32_INPUT_def)
  ultimately have temp: "decode32_temp (take ?k (text32 xs) @ 0 # rest) (int ?k) = Some (text32 xs @ replicate (256 - ?n) 0)"
    by (metis append_assoc)
  let ?o = "b32.padded xs @ 0 # drop (length (b32.padded xs) + 1) out"
  have p: "length (b32.padded xs) = 5 * ((length xs + 4) div 5)"
    using b32.length_padded [of xs] by (simp add: block_count_def BASE32_INPUT_def)
  have d: "cyoBase32Decode (Some out) (Some (text32 xs @ replicate (256 - ?n) 0)) ?n = Some (length xs, Some ?o)"
    using b32.decode_text [of 0 xs out "replicate (256 - ?n) 0" 0] assms(3) p
    by (simp add: cyoBase32Decode_def length_text32 BASE32_DECODE_INPUT_def)
  have "take (length xs) ?o = xs" by (simp add: b32.padded_def)
  moreover have "length ?o = length out" using assms(3) p by simp
  moreover have "nat (REQ_TEMP_BUFF_SIZE (int ?k)) = ?n" unfolding r by (simp only: nat_int)
  ultimately show ?thesis using temp d k(3)
    by (simp add: Decode32_def del: length_append take_append)
qed

text \<open>
  C29. Base32 round trip: \<open>Encode32\<close> of up to 160 bytes, into a buffer that also takes the padding,
  leaves a C string of \<open>GetEncode32Length\<close> characters, without the padding, and returns the padded
  length; \<open>Decode32\<close> of that string puts the padding back, returns the number of bytes and restores them.
\<close>

theorem encode32_roundtrip:
  assumes "xs \<noteq> []" "length xs \<le> 160"
    and "8 * ((length xs + 4) div 5) < length buf" "5 * ((length xs + 4) div 5) < length out"
  shows "\<exists>text out'.
      Encode32 (Some xs) (int (length xs)) (Some buf) = Some (int (8 * ((length xs + 4) div 5)), Some text)
    \<and> map_option int (strlen text) = Some (GetEncode32Length (int (length xs)))
    \<and> Decode32 (Some text) (GetEncode32Length (int (length xs))) (Some out) = Some (int (length xs), Some out')
    \<and> take (length xs) out' = xs"
proof -
  let ?k = "text32_length (length xs)"
  obtain rest where e: "Encode32 (Some xs) (int (length xs)) (Some buf) =
      Some (int (8 * ((length xs + 4) div 5)), Some (take ?k (text32 xs) @ 0 # rest))"
    using encode32_text [OF assms(1) _ assms(3)] assms(2) by auto
  have "0 \<notin> set (take ?k (text32 xs))" using b32.text_nonzero by (meson in_set_takeD)
  then have "strlen (take ?k (text32 xs) @ 0 # rest) = Some ?k"
    using text32_length_bound [of "length xs"] by (simp add: strlen_text length_text32)
  then show ?thesis using e decode32_text [OF assms(1,2,4), of rest] by (auto simp: GetEncode32Length_nat)
qed

theorem encode32_roundtrip_witness:
  "\<exists>text out'. Encode32 (Some [0xCA, 0xFE]) 2 (Some (replicate 9 0)) = Some (8, Some text)
    \<and> map_option int (strlen text) = Some 4
    \<and> Decode32 (Some text) 4 (Some (replicate 6 0)) = Some (2, Some out') \<and> take 2 out' = [0xCA, 0xFE]"
proof -
  have l: "length [0xCA :: u8, 0xFE] = 2" by simp
  have g: "GetEncode32Length 2 = 4"
    by (simp add: GetEncode32Length_def signed_divide_int_def signed_modulo_int_def)
  show ?thesis
    using encode32_roundtrip [of "[0xCA, 0xFE]" "replicate 9 0" "replicate 6 0", unfolded l] by (simp add: g)
qed

text \<open>
  A buffer of \<open>GetEncode32Length\<close> characters and a terminator is not enough for \<open>Encode32\<close>: the
  padding is written first, so unless the number of bytes is a multiple of five the call stores
  outside a buffer of that size.
\<close>

theorem encode32_overruns_its_length:
  assumes "length xs < 4294967296" "length xs mod 5 \<noteq> 0"
    and "int (length buf) = GetEncode32Length (int (length xs)) + 1"
  shows "Encode32 (Some xs) (int (length xs)) (Some buf) = None"
proof -
  have "length buf = text32_length (length xs) + 1" using assms(3) by (simp add: GetEncode32Length_nat)
  moreover have "text32_length n < 8 * ((n + 4) div 5)" if "n mod 5 \<noteq> 0" for n
  proof -
    have "n + 1 \<le> 5 * ((n + 4) div 5)" using that by presburger
    then show ?thesis by (simp add: text32_length_def div_less_iff_less_mult)
  qed
  ultimately have "length buf \<le> 0 + length (text32 xs)" using assms(2) by (simp add: length_text32 Suc_le_eq)
  then have "cyoBase32Encode (Some buf) (Some xs) (length xs) = None"
    using b32.encode_no_room by (simp add: cyoBase32Encode_def)
  then show ?thesis using assms(1,2) by (auto simp: Encode32_def size_arg_nat)
qed

theorem encode32_overruns_its_length_witness:
  "Encode32 (Some [0x41]) 1 (Some [0, 0, 0]) = None"
proof -
  have g: "GetEncode32Length 1 = 2"
    by (simp add: GetEncode32Length_def signed_divide_int_def signed_modulo_int_def)
  show ?thesis using encode32_overruns_its_length [of "[0x41]" "[0, 0, 0]"] by (simp add: g)
qed

lemma decode32_block_aborts:
  assumes "length cs = 3 \<or> length cs = 6" "\<forall>c\<in>set cs. c < 0x80 \<and> BASE32_DECODE_TABLE ! unat c \<le> 31"
  shows "base32_decode_block (cs @ replicate (8 - length cs) 0x3D) = None"
proof -
  have eq: "BASE32_DECODE_TABLE ! 61 = 32" by (simp add: BASE32_DECODE_TABLE_def)
  have c: "unat c < 128 \<and> \<not> 0x80 \<le> c \<and> \<not> 31 < BASE32_DECODE_TABLE ! unat c \<and> \<not> 32 < BASE32_DECODE_TABLE ! unat c
      \<and> BASE32_DECODE_TABLE ! unat c \<noteq> 32" if "c \<in> set cs" for c
  proof -
    have "c < 0x80" "BASE32_DECODE_TABLE ! unat c \<le> 31" using assms(2) that by auto
    then show ?thesis using le_31_32 not_pad_32 by (simp add: not_less not_le word_less_nat_alt [of c])
  qed
  have rep: "replicate 5 (0x3D :: u8) = [0x3D, 0x3D, 0x3D, 0x3D, 0x3D]" "replicate 2 (0x3D :: u8) = [0x3D, 0x3D]"
    by (simp_all add: numeral_eq_Suc)
  consider c1 c2 c3 where "cs = [c1, c2, c3]" | c1 c2 c3 c4 c5 c6 where "cs = [c1, c2, c3, c4, c5, c6]"
    using assms(1) by (auto simp: numeral_eq_Suc length_Suc_conv)
  then show ?thesis
    by cases (use c eq rep in \<open>simp_all add: base32_decode_block_def arr_simps base32_table_length
        BASE32_MAX_VALUE_def base32_count_def\<close>)
qed

text \<open>
  \<open>Decode32\<close> of three or of six valid characters ends the process: the padding the wrapper adds
  itself violates an assertion of the decoder.
\<close>

theorem decode32_assertion_fails:
  assumes "length cs = 3 \<or> length cs = 6" "\<forall>c\<in>set cs. c < 0x80 \<and> BASE32_DECODE_TABLE ! unat c \<le> 31"
  shows "Decode32 (Some cs) (int (length cs)) (Some out) = None"
proof -
  let ?pad = "cs @ replicate (8 - length cs) 0x3D"
  have t: "REQ_TEMP_BUFF_SIZE (int (length cs)) = 8" "nat (8 - int (length cs)) = 8 - length cs" "length ?pad = 8"
    using assms(1) by (auto simp: REQ_TEMP_BUFF_SIZE_def signed_modulo_int_def)
  then have temp: "decode32_temp cs (int (length cs)) = Some (?pad @ replicate 248 0)"
    by (simp add: decode32_temp_def Let_def MAX_BUF_SIZE_def)
  have "take 8 (?pad @ replicate 248 0) = ?pad" using t(3) by (metis append_eq_conv_conj)
  then have "block_decode 8 base32_decode_block (Suc 7) (?pad @ replicate 248 0) 0 0 out = None"
    unfolding block_decode.simps by (simp only: decode32_block_aborts [OF assms]) simp
  then have "cyoBase32Decode (Some out) (Some (?pad @ replicate 248 0)) 8 = None"
    by (simp add: cyoBase32Decode_def BASE32_DECODE_INPUT_def)
  then show ?thesis using assms(1) temp t(1) by (auto simp: Decode32_def)
qed

theorem decode32_assertion_fails_witness:
  "Decode32 (Some [0x41, 0x42, 0x43]) 3 (Some (replicate 200 0)) = None"
  using decode32_assertion_fails [of "[0x41, 0x42, 0x43]" "replicate 200 0"]
  by (simp add: BASE32_DECODE_TABLE_def)

text \<open>
  \<open>Decode32\<close> copies its input into a buffer of 256 bytes on the stack before it looks at it:
  every call with more than 256 characters stores outside it.
\<close>

theorem decode32_overruns_stack:
  assumes "256 < n"
  shows "Decode32 (Some cs) n (Some out) = None"
proof -
  have "256 < REQ_TEMP_BUFF_SIZE n"
    using assms by (simp add: REQ_TEMP_BUFF_SIZE_def signed_modulo_int_def) presburger
  then show ?thesis using assms by (simp add: Decode32_def decode32_temp_def MAX_BUF_SIZE_def Let_def)
qed

theorem decode32_overruns_stack_witness: "Decode32 (Some (replicate 257 0x41)) 257 (Some (replicate 200 0)) = None"
  using decode32_overruns_stack [of 257 "replicate 257 0x41" "replicate 200 0"] by simp

end
