(* ===== verification/Checksum.thy ===== *)
theory Checksum imports Prelude begin

text \<open>
  The checksum library: CRC-32 (crc32.c) in one call and byte by byte, CRC-8 (crc8.c), and the sum
  modulo 256 (module100.c). A buffer is the list of its bytes; a result \<open>None\<close> is an access outside
  it. The table-driven loops are proved equal to shift registers that take the message bit by bit,
  and the tables equal to what eight steps of those registers give.
\<close>

unbundle bit_operations_syntax

section \<open>CRC-32\<close>

definition CrcLookUpTable :: "u32 list" where
  "CrcLookUpTable =
     [0x00000000, 0x77073096, 0xEE0E612C, 0x990951BA,
      0x076DC419, 0x706AF48F, 0xE963A535, 0x9E6495A3,
      0x0EDB8832, 0x79DCB8A4, 0xE0D5E91E, 0x97D2D988,
      0x09B64C2B, 0x7EB17CBD, 0xE7B82D07, 0x90BF1D91,
      0x1DB71064, 0x6AB020F2, 0xF3B97148, 0x84BE41DE,
      0x1ADAD47D, 0x6DDDE4EB, 0xF4D4B551, 0x83D385C7,
      0x136C9856, 0x646BA8C0, 0xFD62F97A, 0x8A65C9EC,
      0x14015C4F, 0x63066CD9, 0xFA0F3D63, 0x8D080DF5,
      0x3B6E20C8, 0x4C69105E, 0xD56041E4, 0xA2677172,
      0x3C03E4D1, 0x4B04D447, 0xD20D85FD, 0xA50AB56B,
      0x35B5A8FA, 0x42B2986C, 0xDBBBC9D6, 0xACBCF940,
      0x32D86CE3, 0x45DF5C75, 0xDCD60DCF, 0xABD13D59,
      0x26D930AC, 0x51DE003A, 0xC8D75180, 0xBFD06116,
      0x21B4F4B5, 0x56B3C423, 0xCFBA9599, 0xB8BDA50F,
      0x2802B89E, 0x5F058808, 0xC60CD9B2, 0xB10BE924,
      0x2F6F7C87, 0x58684C11, 0xC1611DAB, 0xB6662D3D,
      0x76DC4190, 0x01DB7106, 0x98D220BC, 0xEFD5102A,
      0x71B18589, 0x06B6B51F, 0x9FBFE4A5, 0xE8B8D433,
      0x7807C9A2, 0x0F00F934, 0x9609A88E, 0xE10E9818,
      0x7F6A0DBB, 0x086D3D2D, 0x91646C97, 0xE6635C01,
      0x6B6B51F4, 0x1C6C6162, 0x856530D8, 0xF262004E,
      0x6C0695ED, 0x1B01A57B, 0x8208F4C1, 0xF50FC457,
      0x65B0D9C6, 0x12B7E950, 0x8BBEB8EA, 0xFCB9887C,
      0x62DD1DDF, 0x15DA2D49, 0x8CD37CF3, 0xFBD44C65,
      0x4DB26158, 0x3AB551CE, 0xA3BC0074, 0xD4BB30E2,
      0x4ADFA541, 0x3DD895D7, 0xA4D1C46D, 0xD3D6F4FB,
      0x4369E96A, 0x346ED9FC, 0xAD678846, 0xDA60B8D0,
      0x44042D73, 0x33031DE5, 0xAA0A4C5F, 0xDD0D7CC9,
      0x5005713C, 0x270241AA, 0xBE0B1010, 0xC90C2086,
      0x5768B525, 0x206F85B3, 0xB966D409, 0xCE61E49F,
      0x5EDEF90E, 0x29D9C998, 0xB0D09822, 0xC7D7A8B4,
      0x59B33D17, 0x2EB40D81, 0xB7BD5C3B, 0xC0BA6CAD,
      0xEDB88320, 0x9ABFB3B6, 0x03B6E20C, 0x74B1D29A,
      0xEAD54739, 0x9DD277AF, 0x04DB2615, 0x73DC1683,
      0xE3630B12, 0x94643B84, 0x0D6D6A3E, 0x7A6A5AA8,
      0xE40ECF0B, 0x9309FF9D, 0x0A00AE27, 0x7D079EB1,
      0xF00F9344, 0x8708A3D2, 0x1E01F268, 0x6906C2FE,
      0xF762575D, 0x806567CB, 0x196C3671, 0x6E6B06E7,
      0xFED41B76, 0x89D32BE0, 0x10DA7A5A, 0x67DD4ACC,
      0xF9B9DF6F, 0x8EBEEFF9, 0x17B7BE43, 0x60B08ED5,
      0xD6D6A3E8, 0xA1D1937E, 0x38D8C2C4, 0x4FDFF252,
      0xD1BB67F1, 0xA6BC5767, 0x3FB506DD, 0x48B2364B,
      0xD80D2BDA, 0xAF0A1B4C, 0x36034AF6, 0x41047A60,
      0xDF60EFC3, 0xA867DF55, 0x316E8EEF, 0x4669BE79,
      0xCB61B38C, 0xBC66831A, 0x256FD2A0, 0x5268E236,
      0xCC0C7795, 0xBB0B4703, 0x220216B9, 0x5505262F,
      0xC5BA3BBE, 0xB2BD0B28, 0x2BB45A92, 0x5CB36A04,
      0xC2D7FFA7, 0xB5D0CF31, 0x2CD99E8B, 0x5BDEAE1D,
      0x9B64C2B0, 0xEC63F226, 0x756AA39C, 0x026D930A,
      0x9C0906A9, 0xEB0E363F, 0x72076785, 0x05005713,
      0x95BF4A82, 0xE2B87A14, 0x7BB12BAE, 0x0CB61B38,
      0x92D28E9B, 0xE5D5BE0D, 0x7CDCEFB7, 0x0BDBDF21,
      0x86D3D2D4, 0xF1D4E242, 0x68DDB3F8, 0x1FDA836E,
      0x81BE16CD, 0xF6B9265B, 0x6FB077E1, 0x18B74777,
      0x88085AE6, 0xFF0F6A70, 0x66063BCA, 0x11010B5C,
      0x8F659EFF, 0xF862AE69, 0x616BFFD3, 0x166CCF45,
      0xA00AE278, 0xD70DD2EE, 0x4E048354, 0x3903B3C2,
      0xA7672661, 0xD06016F7, 0x4969474D, 0x3E6E77DB,
      0xAED16A4A, 0xD9D65ADC, 0x40DF0B66, 0x37D83BF0,
      0xA9BCAE53, 0xDEBB9EC5, 0x47B2CF7F, 0x30B5FFE9,
      0xBDBDF21C, 0xCABAC28A, 0x53B39330, 0x24B4A3A6,
      0xBAD03605, 0xCDD70693, 0x54DE5729, 0x23D967BF,
      0xB3667A2E, 0xC4614AB8, 0x5D681B02, 0x2A6F2B94,
      0xB40BBE37, 0xC30C8EA1, 0x5A05DF1B, 0x2D02EF8D]"

text \<open>
  \<open>unsigned long\<close> is the word type \<open>'l\<close>: 32 bits in the firmware, 64 in the builds for x86-64, where the
  table and the three byte-wise functions use \<open>unsigned int\<close>.
\<close>

fun crc32_loop :: "u8 list \<Rightarrow> nat \<Rightarrow> nat \<Rightarrow> 'l :: len word \<Rightarrow> 'l word option" where
  "crc32_loop Buffer 0 i crc32 = Some crc32"
| "crc32_loop Buffer (Suc n) i crc32 =
     do { b \<leftarrow> arr_get Buffer i;
          t \<leftarrow> arr_get CrcLookUpTable (unat (ucast b XOR (crc32 AND 0x000000FF)));
          crc32_loop Buffer n (Suc i) (drop_bit 8 crc32 XOR ucast t) }"

definition CalculateCRC32 :: "u8 list \<Rightarrow> nat \<Rightarrow> 'l :: len word option" where
  "CalculateCRC32 Buffer Size = map_option (\<lambda>c. NOT c) (crc32_loop Buffer Size 0 0xFFFFFFFF)"

definition BeginCRC32 :: "u32 \<Rightarrow> u32" where "BeginCRC32 crc32 = 0xFFFFFFFF"

definition DoCRC32 :: "u32 \<Rightarrow> u8 \<Rightarrow> u32 option" where
  "DoCRC32 crc32 Data =
     do { t \<leftarrow> arr_get CrcLookUpTable (unat (ucast Data XOR (crc32 AND 0x000000FF)));
          Some (drop_bit 8 crc32 XOR t) }"

definition EndCRC32 :: "u32 \<Rightarrow> u32" where "EndCRC32 crc32 = NOT crc32"

text \<open>A client that feeds a message byte by byte.\<close>

fun DoCRC32_all :: "u32 \<Rightarrow> u8 list \<Rightarrow> u32 option" where
  "DoCRC32_all c [] = Some c"
| "DoCRC32_all c (b # bs) = do { c' \<leftarrow> DoCRC32 c b; DoCRC32_all c' bs }"

section \<open>CRC-8\<close>

definition crctable :: "u8 list" where
  "crctable =
     [0x00, 0x07, 0x0E, 0x09, 0x1C, 0x1B, 0x12, 0x15,
      0x38, 0x3F, 0x36, 0x31, 0x24, 0x23, 0x2A, 0x2D,
      0x70, 0x77, 0x7E, 0x79, 0x6C, 0x6B, 0x62, 0x65,
      0x48, 0x4F, 0x46, 0x41, 0x54, 0x53, 0x5A, 0x5D,
      0xE0, 0xE7, 0xEE, 0xE9, 0xFC, 0xFB, 0xF2, 0xF5,
      0xD8, 0xDF, 0xD6, 0xD1, 0xC4, 0xC3, 0xCA, 0xCD,
      0x90, 0x97, 0x9E, 0x99, 0x8C, 0x8B, 0x82, 0x85,
      0xA8, 0xAF, 0xA6, 0xA1, 0xB4, 0xB3, 0xBA, 0xBD,
      0xC7, 0xC0, 0xC9, 0xCE, 0xDB, 0xDC, 0xD5, 0xD2,
      0xFF, 0xF8, 0xF1, 0xF6, 0xE3, 0xE4, 0xED, 0xEA,
      0xB7, 0xB0, 0xB9, 0xBE, 0xAB, 0xAC, 0xA5, 0xA2,
      0x8F, 0x88, 0x81, 0x86, 0x93, 0x94, 0x9D, 0x9A,
      0x27, 0x20, 0x29, 0x2E, 0x3B, 0x3C, 0x35, 0x32,
      0x1F, 0x18, 0x11, 0x16, 0x03, 0x04, 0x0D, 0x0A,
      0x57, 0x50, 0x59, 0x5E, 0x4B, 0x4C, 0x45, 0x42,
      0x6F, 0x68, 0x61, 0x66, 0x73, 0x74, 0x7D, 0x7A,
      0x89, 0x8E, 0x87, 0x80, 0x95, 0x92, 0x9B, 0x9C,
      0xB1, 0xB6, 0xBF, 0xB8, 0xAD, 0xAA, 0xA3, 0xA4,
      0xF9, 0xFE, 0xF7, 0xF0, 0xE5, 0xE2, 0xEB, 0xEC,
      0xC1, 0xC6, 0xCF, 0xC8, 0xDD, 0xDA, 0xD3, 0xD4,
      0x69, 0x6E, 0x67, 0x60, 0x75, 0x72, 0x7B, 0x7C,
      0x51, 0x56, 0x5F, 0x58, 0x4D, 0x4A, 0x43, 0x44,
      0x19, 0x1E, 0x17, 0x10, 0x05, 0x02, 0x0B, 0x0C,
      0x21, 0x26, 0x2F, 0x28, 0x3D, 0x3A, 0x33, 0x34,
      0x4E, 0x49, 0x40, 0x47, 0x52, 0x55, 0x5C, 0x5B,
      0x76, 0x71, 0x78, 0x7F, 0x6A, 0x6D, 0x64, 0x63,
      0x3E, 0x39, 0x30, 0x37, 0x22, 0x25, 0x2C, 0x2B,
      0x06, 0x01, 0x08, 0x0F, 0x1A, 0x1D, 0x14, 0x13,
      0xAE, 0xA9, 0xA0, 0xA7, 0xB2, 0xB5, 0xBC, 0xBB,
      0x96, 0x91, 0x98, 0x9F, 0x8A, 0x8D, 0x84, 0x83,
      0xDE, 0xD9, 0xD0, 0xD7, 0xC2, 0xC5, 0xCC, 0xCB,
      0xE6, 0xE1, 0xE8, 0xEF, 0xFA, 0xFD, 0xF4, 0xF3]"

definition CRC8_INIT_VALUE :: u8 where "CRC8_INIT_VALUE = 0x0000"
definition CRC8_XOR_VALUE :: u8 where "CRC8_XOR_VALUE = 0x0000"

definition CRC8_InitChecksum :: "u8 \<Rightarrow> u8" where "CRC8_InitChecksum crcvalue = CRC8_INIT_VALUE"

fun CRC8_UpdateChecksum :: "u8 \<Rightarrow> u8 list \<Rightarrow> nat \<Rightarrow> nat \<Rightarrow> u8 option" where
  "CRC8_UpdateChecksum crc data i 0 = Some crc"
| "CRC8_UpdateChecksum crc data i (Suc l) =
     do { b \<leftarrow> arr_get data i;
          crc' \<leftarrow> arr_get crctable (unat (crc XOR b));
          CRC8_UpdateChecksum crc' data (Suc i) l }"

definition CRC8_FinishChecksum :: "u8 \<Rightarrow> u8" where "CRC8_FinishChecksum crcvalue = crcvalue XOR CRC8_XOR_VALUE"

text \<open>
  A negative \<open>length\<close> is never counted down to 0 before the reads leave the buffer (or the count
  wraps): no result.
\<close>

definition CalculateCRC8 :: "u8 list \<Rightarrow> int \<Rightarrow> u8 option" where
  "CalculateCRC8 data l =
     (if l < 0 then None
      else map_option CRC8_FinishChecksum (CRC8_UpdateChecksum (CRC8_InitChecksum 0) data 0 (nat l)))"

section \<open>The sum modulo 256\<close>

fun module100_sum :: "u8 list \<Rightarrow> nat \<Rightarrow> nat \<Rightarrow> u8 \<Rightarrow> u8 option" where
  "module100_sum Buffer i 0 s = Some s"
| "module100_sum Buffer i (Suc n) s =
     do { b \<leftarrow> arr_get Buffer i; module100_sum Buffer (Suc i) n (s + b) }"

definition CalculateModule100 :: "u8 list \<Rightarrow> nat \<Rightarrow> u8 option" where
  "CalculateModule100 Buffer Size = map_option (\<lambda>s. NOT s + 1) (module100_sum Buffer 0 Size 0)"

definition ValidateModule100 :: "u8 list \<Rightarrow> nat \<Rightarrow> u8 option" where
  "ValidateModule100 Buffer Size = module100_sum Buffer 0 Size 0"

section \<open>The shift registers\<close>

text \<open>One message bit, and a byte's eight, of CRC-32 (the low bit first) and of CRC-8 (the high bit first).\<close>

definition lfsr32 :: "bool \<Rightarrow> u32 \<Rightarrow> u32" where
  "lfsr32 b r = (if b \<noteq> bit r 0 then drop_bit 1 r XOR 0xEDB88320 else drop_bit 1 r)"

definition crc32_reference :: "u8 list \<Rightarrow> u32" where
  "crc32_reference xs = NOT (fold lfsr32 (concat (map (\<lambda>x. map (bit x) [0..<8]) xs)) 0xFFFFFFFF)"

definition lfsr8 :: "bool \<Rightarrow> u8 \<Rightarrow> u8" where
  "lfsr8 b r = (if b \<noteq> bit r 7 then push_bit 1 r XOR 0x07 else push_bit 1 r)"

definition crc8_reference :: "u8 list \<Rightarrow> u8" where
  "crc8_reference xs = fold lfsr8 (concat (map (\<lambda>x. map (bit x) (rev [0..<8])) xs)) 0"

section \<open>Linear registers and their tables\<close>

text \<open>
  A register whose step without a message bit respects exclusive or. Its table of eight steps for every
  byte follows from the eight entries of the single bits: \<open>spread\<close> doubles a table per entry.
\<close>

fun spread :: "'a :: len word list \<Rightarrow> 'a word list \<Rightarrow> 'a word list" where
  "spread t [] = t"
| "spread t (x # xs) = spread (t @ map (\<lambda>y. x XOR y) t) xs"

lemma spread_snoc: "spread t (xs @ [x]) = spread t xs @ map (\<lambda>y. x XOR y) (spread t xs)"
  by (induction t xs rule: spread.induct) simp_all

lemma power_plus_xor:
  assumes "i < 2 ^ n"
  shows "2 ^ n + i = 2 ^ n XOR (i :: nat)"
proof -
  have "\<not> bit i n" using assms by (metis bit_take_bit_iff less_irrefl take_bit_nat_eq_self)
  then have "2 ^ n AND i = 0" by (intro bit_eqI) (auto simp: bit_and_iff bit_exp_iff)
  then show ?thesis by (rule disjunctive_add_eq_xor)
qed

locale linear_register =
  fixes step :: "'a :: len word \<Rightarrow> 'a word"
  assumes step_xor: "step (a XOR b) = step a XOR step b"
begin

lemma steps_xor: "(step ^^ n) (a XOR b) = (step ^^ n) a XOR (step ^^ n) b"
  by (induction n) (simp_all add: step_xor)

lemma steps_0: "(step ^^ n) 0 = 0"
  using steps_xor [of n 0 0] by simp

lemma table_spread:
  "map (\<lambda>i. (step ^^ s) (of_nat i)) [0..<2 ^ n] = spread [0] (map (\<lambda>k. (step ^^ s) (2 ^ k)) [0..<n])"
proof (induction n)
  case 0
  then show ?case by (simp add: steps_0)
next
  case (Suc n)
  have "[0..<2 ^ Suc n] = [0..<2 ^ n] @ map (\<lambda>i. i + 2 ^ n) [0..<2 ^ n]"
    by (simp add: map_add_upt upt_add_eq_append [symmetric] mult_2)
  moreover have "(step ^^ s) (of_nat (i + 2 ^ n)) = (step ^^ s) (2 ^ n) XOR (step ^^ s) (of_nat i)"
    if "i < 2 ^ n" for i
    using power_plus_xor [OF that] by (simp add: add.commute of_nat_xor_eq steps_xor flip: of_nat_add)
  ultimately show ?case unfolding map_append
    by (simp add: spread_snoc Suc.IH [symmetric] comp_def)
qed

end

lemma lfsr32_xor: "lfsr32 (b \<noteq> c) (r XOR q) = lfsr32 b r XOR lfsr32 c q"
  by (rule bit_word_eqI) (auto simp: lfsr32_def bit_simps)

lemma lfsr8_xor: "lfsr8 (b \<noteq> c) (r XOR q) = lfsr8 b r XOR lfsr8 c q"
  by (rule bit_word_eqI) (auto simp: lfsr8_def bit_simps)

interpretation r32: linear_register "lfsr32 False"
  by unfold_locales (use lfsr32_xor [of False False] in simp)

interpretation r8: linear_register "lfsr8 False"
  by unfold_locales (use lfsr8_xor [of False False] in simp)

lemma eight_steps: "(f ^^ 8) x = f (f (f (f (f (f (f (f x)))))))"
  by (simp add: eval_nat_numeral)

lemma upt_8: "[0..<8] = [0, 1, 2, 3, 4, 5, 6, 7 :: nat]"
  by (simp add: upt_rec)

lemma crc32_entries:
  "map (\<lambda>k. (lfsr32 False ^^ 8) (2 ^ k)) [0..<8] =
     [0x77073096, 0xEE0E612C, 0x076DC419, 0x0EDB8832, 0x1DB71064, 0x3B6E20C8, 0x76DC4190, 0xEDB88320]"
  unfolding upt_8 eight_steps by (simp add: lfsr32_def)

lemma crc32_table: "map (\<lambda>i. (lfsr32 False ^^ 8) (of_nat i)) [0..<256] = CrcLookUpTable"
  using r32.table_spread [where n = 8 and s = 8] unfolding crc32_entries CrcLookUpTable_def by simp

lemma crc8_entries:
  "map (\<lambda>k. (lfsr8 False ^^ 8) (2 ^ k)) [0..<8] = [0x07, 0x0E, 0x1C, 0x38, 0x70, 0xE0, 0xC7, 0x89]"
  unfolding upt_8 eight_steps by (simp add: lfsr8_def)

lemma crc8_table: "map (\<lambda>i. (lfsr8 False ^^ 8) (of_nat i)) [0..<256] = crctable"
  using r8.table_spread [where n = 8 and s = 8] unfolding crc8_entries crctable_def by simp

section \<open>Message bytes\<close>

text \<open>
  A message bit enters a linear register at \<open>place 0\<close>; \<open>place n\<close> is where the bit that comes \<open>n\<close> steps
  later can be put now. So a whole byte can enter before its eight steps are made.
\<close>

definition feed :: "('a :: len word \<Rightarrow> 'a word) \<Rightarrow> (nat \<Rightarrow> 'a word) \<Rightarrow> bool \<Rightarrow> 'a word \<Rightarrow> 'a word" where
  "feed step place b r = step (r XOR (if b then place 0 else 0))"

fun packed :: "(nat \<Rightarrow> 'a :: len word) \<Rightarrow> nat \<Rightarrow> bool list \<Rightarrow> 'a word" where
  "packed place n [] = 0"
| "packed place n (b # bs) = (if b then place n else 0) XOR packed place (Suc n) bs"

locale message_register = linear_register step for step :: "'a :: len word \<Rightarrow> 'a word" +
  fixes place :: "nat \<Rightarrow> 'a word"
  assumes delay: "n < 8 \<Longrightarrow> (step ^^ n) (place n) = place 0"
begin

lemma feed_late:
  assumes "n < 8"
  shows "feed step place b ((step ^^ n) r) = (step ^^ Suc n) (r XOR (if b then place n else 0))"
  using delay [OF assms] by (simp add: feed_def steps_xor steps_0)

lemma feed_all_from:
  "n + length bs \<le> 8 \<Longrightarrow>
   fold (feed step place) bs ((step ^^ n) r) = (step ^^ (n + length bs)) (r XOR packed place n bs)"
proof (induction bs arbitrary: n r)
  case (Cons b bs)
  then have "fold (feed step place) (b # bs) ((step ^^ n) r) =
      fold (feed step place) bs ((step ^^ Suc n) (r XOR (if b then place n else 0)))"
    by (simp add: feed_late)
  also have "\<dots> = (step ^^ (Suc n + length bs)) ((r XOR (if b then place n else 0)) XOR packed place (Suc n) bs)"
    by (rule Cons.IH) (use Cons.prems in simp)
  finally show ?case by (simp add: xor.assoc)
qed simp

lemma feed_byte: "length bs = 8 \<Longrightarrow> fold (feed step place) bs r = (step ^^ 8) (r XOR packed place 0 bs)"
  using feed_all_from [of 0 bs r] by simp

end

lemma steps32_shift: "n \<le> 32 \<Longrightarrow> take_bit n x = 0 \<Longrightarrow> (lfsr32 False ^^ n) x = drop_bit n x"
proof (induction n)
  case (Suc n)
  have "\<not> bit (take_bit (Suc n) x) n" using Suc.prems by simp
  then have b: "\<not> bit x n" by (simp add: bit_take_bit_iff)
  have "take_bit n x = take_bit n (take_bit (Suc n) x)" by simp
  then have "take_bit n x = 0" using Suc.prems by simp
  then show ?case using Suc b by (simp add: lfsr32_def bit_drop_bit_eq)
qed simp

interpretation m32: message_register "lfsr32 False" "\<lambda>n. 2 ^ n"
proof unfold_locales
  fix n :: nat
  assume "n < 8"
  then have "(lfsr32 False ^^ n) (2 ^ n) = drop_bit n (2 ^ n :: u32)"
    by (intro steps32_shift bit_word_eqI) (simp_all add: bit_simps)
  also have "\<dots> = 1" using \<open>n < 8\<close> by (intro bit_word_eqI) (auto simp: bit_simps)
  finally show "(lfsr32 False ^^ n) (2 ^ n) = 2 ^ 0" by simp
qed

interpretation m8: message_register "lfsr8 False" "\<lambda>n. 2 ^ (7 - n)"
proof unfold_locales
  fix n :: nat
  assume "n < 8"
  then have "n \<in> {0, 1, 2, 3, 4, 5, 6, 7}" by auto
  then show "(lfsr8 False ^^ n) (2 ^ (7 - n)) = 2 ^ (7 - 0)"
    by (auto simp: lfsr8_def eval_nat_numeral)
qed

lemma lfsr32_feed: "lfsr32 = feed (lfsr32 False) (\<lambda>n. 2 ^ n)"
proof (intro ext)
  show "lfsr32 b r = feed (lfsr32 False) (\<lambda>n. 2 ^ n) b r" for b r
    using lfsr32_xor [of False True r 0] by (cases b) (simp_all add: feed_def r32.step_xor lfsr32_def [of _ 0] lfsr32_def [of _ 1])
qed

lemma lfsr8_feed: "lfsr8 = feed (lfsr8 False) (\<lambda>n. 2 ^ (7 - n))"
proof (intro ext)
  have "lfsr8 False 128 = 7" "lfsr8 True 0 = 7" by (simp_all add: lfsr8_def)
  then show "lfsr8 b r = feed (lfsr8 False) (\<lambda>n. 2 ^ (7 - n)) b r" for b r
    using lfsr8_xor [of False True r 0] by (cases b) (simp_all add: feed_def r8.step_xor)
qed

lemma bit_placed: "bit (if b then 2 ^ k else (0 :: 'a :: len word)) n \<longleftrightarrow> b \<and> n = k \<and> k < LENGTH('a)"
  by (auto simp: bit_exp_iff)

lemma packed_8: "packed (\<lambda>n. 2 ^ (7 - n)) 0 (map (bit d) (rev [0..<8])) = d" for d :: u8
  unfolding upt_8 rev.simps append.simps list.map packed.simps
  by (rule byte_eqI; simp add: bit_xor_iff bit_if bit_exp_iff cong: if_cong)

lemma packed_32: "packed (\<lambda>n. 2 ^ n) 0 (map (bit d) [0..<8]) = (ucast d :: u32)" for d :: u8
proof (rule bit_word_eqI)
  fix n
  have "bit (packed (\<lambda>n. 2 ^ n :: u32) m bs) n \<longleftrightarrow> m \<le> n \<and> n < m + length bs \<and> bs ! (n - m)"
    if "m + length bs \<le> 32" for m bs
    using that
  proof (induction bs arbitrary: m)
    case (Cons b bs)
    then show ?case by (auto simp: bit_xor_iff bit_placed nth_Cons')
  qed simp
  then show "bit (packed (\<lambda>n. 2 ^ n) 0 (map (bit d) [0..<8]) :: u32) n = bit (ucast d :: u32) n"
    using bit_imp_le_length [of d n] by (auto simp: bit_simps)
qed

text \<open>So a table lookup is eight bits.\<close>

lemma take_8_table: "x AND 0xFF = x \<Longrightarrow> arr_get CrcLookUpTable (unat x) = Some ((lfsr32 False ^^ 8) x)" for x :: u32
proof -
  assume "x AND 0xFF = x"
  then have "x \<le> 0xFF" by (metis word_and_le1)
  then have "unat x < 256" by (simp add: word_le_nat_alt)
  then show ?thesis unfolding crc32_table [symmetric] by (simp add: arr_simps)
qed

lemma bit_255: "bit (0xFF :: int) n \<longleftrightarrow> n < 8"
proof -
  have "(mask 8 :: int) = 0xFF" by (simp add: mask_eq_exp_minus_1)
  then show ?thesis using bit_mask_iff [of 8 n, where 'a = int] by simp
qed

lemma lfsr32_byte: "fold lfsr32 (map (bit d) [0..<8]) r = (lfsr32 False ^^ 8) (r XOR ucast d)" for d :: u8
  using m32.feed_byte [of "map (bit d) [0..<8]" r] unfolding lfsr32_feed [symmetric] packed_32 by simp

lemma lfsr8_byte: "fold lfsr8 (map (bit d) (rev [0..<8])) r = (lfsr8 False ^^ 8) (r XOR d)" for d :: u8
  using m8.feed_byte [of "map (bit d) (rev [0..<8])" r] unfolding lfsr8_feed [symmetric] packed_8 by simp

lemma DoCRC32_bits: "DoCRC32 crc32 Data = Some (fold lfsr32 (map (bit Data) [0..<8]) crc32)"
proof -
  let ?lo = "ucast Data XOR (crc32 AND 0xFF)" and ?hi = "crc32 AND NOT 0xFF"
  have d: "n < 8" if "bit Data n" for n using bit_imp_le_length [OF that] by simp
  have "?lo AND 0xFF = ?lo"
    by (rule bit_word_eqI) (auto simp: bit_simps bit_255 d)
  moreover have "(lfsr32 False ^^ 8) ?hi = drop_bit 8 crc32"
  proof -
    have "take_bit 8 ?hi = 0" by (rule bit_word_eqI) (simp add: bit_simps bit_255)
    moreover have "drop_bit 8 ?hi = drop_bit 8 crc32"
    proof (rule bit_word_eqI)
      show "bit (drop_bit 8 ?hi) n = bit (drop_bit 8 crc32) n" if "n < LENGTH(32)" for n
        using bit_imp_le_length [of crc32 "8 + n"] bit_255 [of "8 + n"]
        by (auto simp only: bit_drop_bit_eq bit_and_iff bit_not_iff) (auto simp: bit_simps)
    qed
    ultimately show ?thesis by (simp add: steps32_shift)
  qed
  moreover have "(lfsr32 False ^^ 8) (crc32 XOR ucast Data) = (lfsr32 False ^^ 8) ?hi XOR (lfsr32 False ^^ 8) ?lo"
  proof -
    have eq: "crc32 XOR ucast Data = ?hi XOR ?lo" by (rule bit_word_eqI) (auto simp: bit_simps)
    show ?thesis unfolding eq by (rule r32.steps_xor)
  qed
  ultimately show ?thesis by (simp only: lfsr32_byte DoCRC32_def take_8_table) simp
qed

lemma DoCRC32_all_bits: "DoCRC32_all c bs = Some (fold lfsr32 (concat (map (\<lambda>x. map (bit x) [0..<8]) bs)) c)"
  by (induction bs arbitrary: c) (simp_all add: DoCRC32_bits)

text \<open>The three loops over a buffer read it from \<open>i\<close> on.\<close>

lemma take_Suc_drop: "i < length xs \<Longrightarrow> take (Suc n) (drop i xs) = xs ! i # take n (drop (Suc i) xs)"
  by (simp add: Cons_nth_drop_Suc [symmetric])

lemma crc32_loop_step:
  fixes c :: u32 and t :: "'l :: len word"
  assumes "32 \<le> LENGTH('l)"
  shows "drop_bit 8 (ucast c :: 'l word) XOR ucast (v :: u32) = ucast (drop_bit 8 c XOR v)"
    and "unat (ucast b XOR ((ucast c :: 'l word) AND 0x000000FF)) = unat (ucast (b :: u8) XOR (c AND 0x000000FF))"
proof -
  show "drop_bit 8 (ucast c :: 'l word) XOR ucast v = ucast (drop_bit 8 c XOR v)"
    by (rule bit_word_eqI) (use assms in \<open>auto simp: bit_simps dest: bit_imp_le_length\<close>)
  have "(ucast b XOR ((ucast c :: 'l word) AND 0x000000FF)) = ucast (ucast b XOR (c AND 0x000000FF) :: u32)"
    by (rule bit_word_eqI) (use assms in \<open>auto simp: bit_simps bit_255 dest: bit_imp_le_length\<close>)
  moreover have "unat v < 2 ^ LENGTH('l)" for v :: u32
    using unat_lt_32 [of v] power_increasing [OF assms, of "2 :: nat"] by simp
  ultimately show "unat (ucast b XOR ((ucast c :: 'l word) AND 0x000000FF)) = unat (ucast b XOR (c AND 0x000000FF))"
    by (simp add: unsigned_ucast_eq take_bit_nat_eq_self)
qed

lemma crc32_loop_all:
  fixes c :: u32
  assumes "32 \<le> LENGTH('l :: len)"
  shows "crc32_loop Buffer n i (ucast c :: 'l word) =
    (if i + n \<le> length Buffer then map_option ucast (DoCRC32_all c (take n (drop i Buffer)))
     else if n = 0 then Some (ucast c) else None)"
proof (induction n arbitrary: i c)
  case (Suc n)
  show ?case
  proof (cases "i < length Buffer")
    case True
    then show ?thesis
      by (cases "arr_get CrcLookUpTable (unat (ucast (Buffer ! i) XOR (c AND 0xFF)))")
        (auto simp: arr_simps take_Suc_drop Suc.IH crc32_loop_step [OF assms] DoCRC32_def)
  qed (simp add: arr_simps)
qed simp

lemma crctable_steps: "arr_get crctable (unat x) = Some ((lfsr8 False ^^ 8) x)"
  using unat_lt_8 [of x] unfolding crc8_table [symmetric] by (simp add: arr_simps)

lemma CRC8_UpdateChecksum_bits:
  "CRC8_UpdateChecksum crc data i n =
    (if i + n \<le> length data
     then Some (fold lfsr8 (concat (map (\<lambda>x. map (bit x) (rev [0..<8])) (take n (drop i data)))) crc)
     else if n = 0 then Some crc else None)"
proof (induction n arbitrary: i crc)
  case (Suc n)
  show ?case
  proof (cases "i < length data")
    case True
    then show ?thesis
      by (auto simp: arr_simps take_Suc_drop Suc.IH crctable_steps lfsr8_byte simp del: upt_rec_numeral rev_map)
  qed (simp add: arr_simps)
qed simp

lemma module100_sum_list:
  "module100_sum Buffer i n s =
    (if i + n \<le> length Buffer then Some (s + sum_list (take n (drop i Buffer))) else if n = 0 then Some s else None)"
proof (induction Buffer i n s rule: module100_sum.induct)
  case (2 Buffer i n s)
  then show ?case by (cases "i < length Buffer") (auto simp: arr_simps take_Suc_drop add.assoc)
qed simp

section \<open>What the library computes\<close>

lemma CalculateCRC32_long:
  assumes "32 \<le> LENGTH('l :: len)" "n \<le> length Buffer"
  shows "CalculateCRC32 Buffer n = Some (NOT (ucast (NOT (crc32_reference (take n Buffer)))) :: 'l word)"
proof -
  have "crc32_loop Buffer n 0 (ucast (0xFFFFFFFF :: u32) :: 'l word) =
      map_option ucast (DoCRC32_all 0xFFFFFFFF (take n Buffer))"
    using assms(2) by (subst crc32_loop_all [OF assms(1)]) (simp only: add_0 drop_0 if_True)
  moreover have "(0xFFFFFFFF :: 'l word) = ucast (0xFFFFFFFF :: u32)"
    using assms(1) by (simp add: unsigned_numeral take_bit_nat_eq_self)
  ultimately have "crc32_loop Buffer n 0 (0xFFFFFFFF :: 'l word) = map_option ucast (Some (NOT (crc32_reference (take n Buffer))))"
    by (simp only: DoCRC32_all_bits crc32_reference_def bit.double_compl)
  then show ?thesis by (simp only: CalculateCRC32_def option.map)
qed

lemma not_ucast_same: "NOT (ucast (NOT (r :: u32))) = r"
  by (rule bit_word_eqI) (auto simp: bit_simps)

lemma CalculateCRC32_out: "length Buffer < n \<Longrightarrow> CalculateCRC32 Buffer n = (None :: u32 option)"
  using crc32_loop_all [where 'l = 32, of Buffer n 0 "0xFFFFFFFF"] by (simp add: CalculateCRC32_def)

lemma crc32_bytewise: "map_option EndCRC32 (DoCRC32_all (BeginCRC32 c) Buffer) = Some (crc32_reference Buffer)"
  by (simp add: DoCRC32_all_bits BeginCRC32_def EndCRC32_def crc32_reference_def del: upt_rec_numeral)

text \<open>
  C27. With the 32-bit \<open>unsigned long\<close> of the firmware, \<open>CalculateCRC32\<close> is the bitwise CRC-32 (reflected
  polynomial EDB88320, all ones before and inverted after) of the first \<open>Size\<close> bytes, feeding the bytes one by
  one through \<open>BeginCRC32\<close>, \<open>DoCRC32\<close> and \<open>EndCRC32\<close> gives the same, and a size beyond the buffer reads outside it.
\<close>

theorem crc32_is_reference:
  "CalculateCRC32 Buffer n = (if n \<le> length Buffer then Some (crc32_reference (take n Buffer)) else None)
   \<and> map_option EndCRC32 (DoCRC32_all (BeginCRC32 c) Buffer) = Some (crc32_reference Buffer)"
  using CalculateCRC32_long [where 'l = 32, of n Buffer] CalculateCRC32_out [of Buffer n] crc32_bytewise
  by (simp add: not_ucast_same)

text \<open>
  With a 64-bit \<open>unsigned long\<close> the two interfaces disagree: \<open>CalculateCRC32\<close> inverts 64 bits and
  always returns a value whose upper half is all ones, which no 32-bit result of \<open>EndCRC32\<close> equals.
\<close>

theorem crc32_long_builds_differ:
  "\<exists>v :: 64 word. CalculateCRC32 Buffer (length Buffer) = Some v \<and> drop_bit 32 v = 0xFFFFFFFF
    \<and> map_option (\<lambda>r. ucast (EndCRC32 r)) (DoCRC32_all (BeginCRC32 c) Buffer) \<noteq> Some v"
proof -
  let ?r = "crc32_reference Buffer"
  let ?v = "NOT (ucast (NOT ?r)) :: 64 word"
  have v: "CalculateCRC32 Buffer (length Buffer) = Some ?v"
    using CalculateCRC32_long [where 'l = 64, of "length Buffer" Buffer] by simp
  have "(mask 32 :: 64 word) = 0xFFFFFFFF" by (simp add: mask_eq_exp_minus_1)
  moreover have "drop_bit 32 ?v = mask 32"
    by (rule bit_word_eqI) (auto simp: bit_simps dest: bit_imp_le_length)
  ultimately have "drop_bit 32 ?v = 0xFFFFFFFF" by simp
  moreover have "drop_bit 32 (ucast ?r :: 64 word) = 0"
    by (rule bit_word_eqI) (auto simp: bit_simps dest: bit_imp_le_length)
  moreover have "map_option (\<lambda>r. ucast (EndCRC32 r)) (DoCRC32_all (BeginCRC32 c) Buffer) = Some (ucast ?r :: 64 word)"
    using crc32_bytewise [of c Buffer] by auto
  ultimately show ?thesis using v by (intro exI [of _ ?v]) auto
qed

text \<open>
  \<open>CalculateCRC8\<close> is the bitwise CRC-8 with the polynomial 07, high bit first and register 0 at the
  start; a length beyond the buffer, or a negative one, reads outside it.
\<close>

theorem crc8_is_reference:
  "CalculateCRC8 data l =
    (if 0 \<le> l \<and> nat l \<le> length data then Some (crc8_reference (take (nat l) data)) else None)"
  by (simp add: CalculateCRC8_def CRC8_UpdateChecksum_bits crc8_reference_def CRC8_InitChecksum_def
      CRC8_INIT_VALUE_def CRC8_FinishChecksum_def CRC8_XOR_VALUE_def del: upt_rec_numeral)

text \<open>
  The sum modulo 256: a buffer followed by one byte passes \<open>ValidateModule100\<close> (the result is 0)
  exactly when that byte is what \<open>CalculateModule100\<close> returns for the buffer.
\<close>

theorem module100_validates:
  "ValidateModule100 (Buffer @ [b]) (length Buffer + 1) = Some 0 \<longleftrightarrow>
   CalculateModule100 Buffer (length Buffer) = Some b"
proof -
  have "NOT s + 1 = b \<longleftrightarrow> s + b = 0" for s :: u8
    by (simp add: not_eq_complement) (metis add.inverse_inverse add_eq_0_iff)
  then show ?thesis by (simp add: ValidateModule100_def CalculateModule100_def module100_sum_list)
qed

text \<open>The published check values of the two codes, over the digits 1 to 9.\<close>

lemma crc_check_values:
  "CalculateCRC32 [0x31, 0x32, 0x33, 0x34, 0x35, 0x36, 0x37, 0x38, 0x39] 9 = Some (0xCBF43926 :: u32)"
  "CalculateCRC8 [0x31, 0x32, 0x33, 0x34, 0x35, 0x36, 0x37, 0x38, 0x39] 9 = Some 0xF4"
  by code_simp+

end
