(* ===== verification/UsbCore.thy ===== *)
theory UsbCore imports Prelude begin

text \<open>
  The data path of the USB gadget core (usbe-src/coreusb.c): endpoints, the splitting of a transfer
  into packets by \<open>HandleTxData\<close>, the blocking \<open>UsbWriteData\<close> and the transmit interrupt
  \<open>UsbTxHandler\<close>, for one device, whose \<open>DevNo\<close> is left out.

  The hardware driver is reached through the table \<open>USB_HW\<close>; what the core hands to \<open>UsbHwWrite\<close> is
  recorded in \<open>wire\<close>, newest last, what it hands to \<open>UsbHwStallEp\<close> in \<open>stalls\<close>. As in the mass
  storage devices there is no transmit handler of the interface, no \<open>UsbTxComplete\<close> and no
  \<open>DevUsbMiscActions\<close>. A result \<open>None\<close> is an access outside a buffer.
\<close>

unbundle bit_operations_syntax

section \<open>Endpoints and devices\<close>

definition DIR_OUT :: u8 where "DIR_OUT = 0"
definition DIR_IN :: u8 where "DIR_IN = 1"
definition CONFIGURABLE :: u8 where "CONFIGURABLE = 0x04"

text \<open>\<open>TxData\<close> points to the caller's buffer, \<open>RxData\<close> to the buffer of the endpoint.\<close>

record endpoint =
  EpUsed :: bool
  EpNum :: u8
  Dir :: u8
  Enabled :: bool
  Interface :: u8
  MaxPacketSize :: u16
  FifoSize :: u16
  RxData :: "u8 list option"
  RxDataLen :: u32
  TxData :: "u8 list option"
  TxDataLen :: u32
  TxDataPos :: u32
  TxZeroLenPkt :: bool
  TxReady :: bool

record usb_dev =
  EndPoint :: "endpoint list"
  CfgIndex :: u8
  Suspend :: bool
  BlockingSend :: bool
  IsDevHid :: bool
  EpMultipleDMASupport :: bool
  EpMultipleDMASize :: u32
  wire :: "(u8 \<times> u8 list) list"
  stalls :: "(u8 \<times> u8) list"

text \<open>The first endpoint in use with this number, in this direction or in either.\<close>

fun ep_index :: "nat \<Rightarrow> endpoint list \<Rightarrow> u8 \<Rightarrow> u8 \<Rightarrow> nat option" where
  "ep_index i [] ep dir = None"
| "ep_index i (e # es) ep dir =
     (if EpUsed e \<and> Dir e = dir \<and> EpNum e = ep then Some i
      else if EpUsed e \<and> Dir e = CONFIGURABLE \<and> EpNum e = ep then Some i
      else ep_index (Suc i) es ep dir)"

definition GetEndPointIndex :: "usb_dev \<Rightarrow> u8 \<Rightarrow> u8 \<Rightarrow> nat option" where
  "GetEndPointIndex d ep dir = ep_index 0 (EndPoint d) ep dir"

definition set_ep :: "nat \<Rightarrow> endpoint \<Rightarrow> usb_dev \<Rightarrow> usb_dev" where
  "set_ep i e d = d\<lparr>EndPoint := (EndPoint d)[i := e]\<rparr>"

text \<open>The driver takes the length as 16 bits.\<close>

definition UsbHwWrite :: "u8 \<Rightarrow> u8 list \<Rightarrow> u32 \<Rightarrow> usb_dev \<Rightarrow> usb_dev" where
  "UsbHwWrite ep buf len d = d\<lparr>wire := wire d @ [(ep, take (unat (ucast len :: u16)) buf)]\<rparr>"

definition UsbStallEp :: "u8 \<Rightarrow> u8 \<Rightarrow> usb_dev \<Rightarrow> usb_dev" where
  "UsbStallEp ep dir d = d\<lparr>stalls := stalls d @ [(ep, dir)]\<rparr>"

section \<open>Receiving\<close>

definition UsbGetRxData :: "u8 \<Rightarrow> usb_dev \<Rightarrow> u8 list option" where
  "UsbGetRxData ep d =
     (case GetEndPointIndex d ep DIR_OUT of None \<Rightarrow> None | Some i \<Rightarrow> RxData (EndPoint d ! i))"

definition UsbGetRxDataLen :: "u8 \<Rightarrow> usb_dev \<Rightarrow> u32" where
  "UsbGetRxDataLen ep d =
     (case GetEndPointIndex d ep DIR_OUT of None \<Rightarrow> 0 | Some i \<Rightarrow> RxDataLen (EndPoint d ! i))"

definition UsbSetRxDataLen :: "u8 \<Rightarrow> u32 \<Rightarrow> usb_dev \<Rightarrow> usb_dev" where
  "UsbSetRxDataLen ep len d =
     (case GetEndPointIndex d ep DIR_OUT of None \<Rightarrow> d
      | Some i \<Rightarrow> set_ep i ((EndPoint d ! i)\<lparr>RxDataLen := len\<rparr>) d)"

section \<open>Transmitting\<close>

text \<open>\<open>&TxData[TxDataPos]\<close>, \<open>n\<close> bytes of it.\<close>

definition tx_slice :: "endpoint \<Rightarrow> u32 \<Rightarrow> u8 list option" where
  "tx_slice e n =
     (case TxData e of
        None \<Rightarrow> if n = 0 then Some [] else None
      | Some b \<Rightarrow>
          if unat (TxDataPos e) + unat n \<le> length b then Some (take (unat n) (drop (unat (TxDataPos e)) b))
          else None)"

definition max_size :: "usb_dev \<Rightarrow> u8 \<Rightarrow> endpoint \<Rightarrow> u32" where
  "max_size d ep e =
     (if EpMultipleDMASupport d \<and> ep \<noteq> 0 then EpMultipleDMASize d else ucast (MaxPacketSize e))"

definition HandleTxData :: "u8 \<Rightarrow> nat \<Rightarrow> usb_dev \<Rightarrow> usb_dev option" where
  "HandleTxData ep i d =
     (let e = EndPoint d ! i; MaxSize = max_size d ep e
      in if MaxSize \<le> TxDataLen e - TxDataPos e
         then do { buf \<leftarrow> tx_slice e MaxSize;
                   let e1 = e\<lparr>TxDataPos := TxDataPos e + MaxSize\<rparr>;
                       e2 = (if TxDataLen e1 = TxDataPos e1 \<and> \<not> TxZeroLenPkt e1 then e1\<lparr>TxData := None\<rparr> else e1)
                   in Some (UsbHwWrite ep buf MaxSize (set_ep i e2 d)) }
         else if TxDataLen e \<noteq> TxDataPos e
         then do { buf \<leftarrow> tx_slice e (TxDataLen e - TxDataPos e);
                   Some (UsbHwWrite ep buf (TxDataLen e - TxDataPos e)
                          (set_ep i (e\<lparr>TxDataPos := TxDataPos e + (TxDataLen e - TxDataPos e), TxData := None\<rparr>) d)) }
         else if TxZeroLenPkt e
         then Some (UsbHwWrite ep [] 0 (set_ep i (e\<lparr>TxData := None\<rparr>) d))
         else Some d)"

text \<open>
  \<open>UsbWriteData\<close> up to the point where it sleeps: it returns (\<open>Inl\<close>), or it sleeps on \<open>TxReady\<close> of the
  endpoint with the index given (\<open>Inr\<close>).
\<close>

definition load_ep :: "u8 list option \<Rightarrow> u32 \<Rightarrow> bool \<Rightarrow> endpoint \<Rightarrow> endpoint" where
  "load_ep buf len zlp e =
     e\<lparr>TxData := buf, TxDataLen := len, TxDataPos := 0, TxZeroLenPkt := zlp, TxReady := False\<rparr>"

definition UsbWriteData_start ::
  "u8 \<Rightarrow> u8 list option \<Rightarrow> u32 \<Rightarrow> bool \<Rightarrow> usb_dev \<Rightarrow> (int \<times> usb_dev + nat \<times> usb_dev) option" where
  "UsbWriteData_start ep buf len zlp d =
     (case GetEndPointIndex d ep DIR_IN of
        None \<Rightarrow> Some (Inl (1, d))
      | Some i \<Rightarrow>
          if ep \<noteq> 0 \<and> (\<not> Enabled (EndPoint d ! i) \<or> Dir (EndPoint d ! i) = 0 \<or> CfgIndex d = 0 \<or> Suspend d)
          then Some (Inl (1, d))
          else do { d1 \<leftarrow> HandleTxData ep i ((set_ep i (load_ep buf len zlp (EndPoint d ! i)) d)\<lparr>BlockingSend := True\<rparr>);
                    Some (if ep = 0 \<or> IsDevHid d1 then Inl (0, d1) else Inr (i, d1)) })"

text \<open>After the sleep, with what \<open>Usb_OsSleepOnTimeout\<close> returned: negative for a signal, 0 for the timeout.\<close>

definition EINTR :: int where "EINTR = 4"

definition UsbWriteData_end :: "nat \<Rightarrow> int \<Rightarrow> usb_dev \<Rightarrow> int \<times> usb_dev" where
  "UsbWriteData_end i ret d =
     (if ret < 0 then (- EINTR, d)
      else if ret = 0 then (1, set_ep i ((EndPoint d ! i)\<lparr>TxData := None, TxReady := True\<rparr>) d)
      else (0, d))"

text \<open>The transmit interrupt: the end of the transfer, or the next packet.\<close>

definition UsbTxHandler :: "u8 \<Rightarrow> usb_dev \<Rightarrow> (int \<times> usb_dev) option" where
  "UsbTxHandler ep d =
     (case GetEndPointIndex d ep DIR_IN of
        None \<Rightarrow> Some (1, d)
      | Some i \<Rightarrow>
          if TxData (EndPoint d ! i) = None
          then Some (0, set_ep i ((EndPoint d ! i)\<lparr>TxReady := True\<rparr>) d)
          else map_option (Pair 1) (HandleTxData ep i d))"

text \<open>
  A host that takes packets while the process sleeps, up to \<open>n\<close> of them before the timeout. The sleep
  ends as soon as \<open>TxReady\<close> is set.
\<close>

fun host_takes :: "nat \<Rightarrow> u8 \<Rightarrow> nat \<Rightarrow> usb_dev \<Rightarrow> (int \<times> usb_dev) option" where
  "host_takes n ep i d =
     (if TxReady (EndPoint d ! i) then Some (1, d)
      else case n of
        0 \<Rightarrow> Some (0, d)
      | Suc k \<Rightarrow> do { (r, d') \<leftarrow> UsbTxHandler ep d; host_takes k ep i d' })"

declare host_takes.simps [simp del]

definition UsbWriteData ::
  "(u8 \<Rightarrow> nat \<Rightarrow> usb_dev \<Rightarrow> (int \<times> usb_dev) option) \<Rightarrow>
   u8 \<Rightarrow> u8 list option \<Rightarrow> u32 \<Rightarrow> bool \<Rightarrow> usb_dev \<Rightarrow> (int \<times> usb_dev) option" where
  "UsbWriteData sleep ep buf len zlp d =
     do { r \<leftarrow> UsbWriteData_start ep buf len zlp d;
          case r of
            Inl done_ \<Rightarrow> Some done_
          | Inr (i, d1) \<Rightarrow> do { (ret, d2) \<leftarrow> sleep ep i d1; Some (UsbWriteData_end i ret d2) } }"

end
