(* ===== verification/UsbCoreProps.thy ===== *)
theory UsbCoreProps imports UsbCore begin

text \<open>
  What a transfer puts on the wire: \<open>HandleTxData\<close>, driven by the transmit interrupts of a host that
  takes packets, sends the buffer in full packets and one short one.
\<close>

unbundle bit_operations_syntax

section \<open>Packets\<close>

text \<open>The packets of \<open>xs\<close> with a maximal size \<open>m\<close>, with or without a packet of no bytes at the end.\<close>

function usb_packets :: "nat \<Rightarrow> bool \<Rightarrow> u8 list \<Rightarrow> u8 list list" where
  "usb_packets m z xs =
     (if m = 0 then []
      else if m \<le> length xs
      then take m xs # (if length xs = m \<and> \<not> z then [] else usb_packets m z (drop m xs))
      else if xs = [] \<and> \<not> z then [] else [xs])"
  by pat_completeness auto
termination by (relation "measure (\<lambda>(m, z, xs). length xs)") auto

declare usb_packets.simps [simp del]

lemma usb_packets_more:
  "0 < m \<Longrightarrow> m \<le> length xs \<Longrightarrow> length xs \<noteq> m \<or> z \<Longrightarrow>
   usb_packets m z xs = take m xs # usb_packets m z (drop m xs)"
  by (rule trans [OF usb_packets.simps]) auto

lemma usb_packets_last:
  "0 < m \<Longrightarrow> xs \<noteq> [] \<or> z \<Longrightarrow> length xs < m \<or> length xs = m \<and> \<not> z \<Longrightarrow> usb_packets m z xs = [xs]"
  by (rule trans [OF usb_packets.simps]) auto

text \<open>Full packets, and a last one that is short when a packet of no bytes may end the transfer.\<close>

definition packet_shape :: "nat \<Rightarrow> bool \<Rightarrow> u8 list list \<Rightarrow> bool" where
  "packet_shape m z ps \<longleftrightarrow> ps \<noteq> [] \<and> (\<forall>p\<in>set (butlast ps). length p = m)
     \<and> (if z then length (last ps) < m else 0 < length (last ps) \<and> length (last ps) \<le> m)"

lemma packet_shape_Cons: "packet_shape m z ps \<Longrightarrow> length p = m \<Longrightarrow> packet_shape m z (p # ps)"
  by (auto simp: packet_shape_def split: if_splits)

lemma usb_packets_spec:
  "0 < m \<Longrightarrow> xs \<noteq> [] \<or> z \<Longrightarrow> concat (usb_packets m z xs) = xs \<and> packet_shape m z (usb_packets m z xs)"
proof (induction "length xs" arbitrary: xs rule: less_induct)
  case less
  show ?case
  proof (cases "m \<le> length xs \<and> (length xs \<noteq> m \<or> z)")
    case True
    have l: "length (drop m xs) < length xs" using True less.prems(1) unfolding length_drop by linarith
    have d: "drop m xs \<noteq> [] \<or> z" using True by auto
    have r: "usb_packets m z xs = take m xs # usb_packets m z (drop m xs)"
      using True by (intro usb_packets_more less.prems(1)) auto
    have "length (take m xs) = m" using True by simp
    then show ?thesis
      unfolding r using less.hyps [OF l less.prems(1) d] by (simp add: packet_shape_Cons)
  next
    case False
    then have c: "length xs < m \<or> length xs = m \<and> \<not> z" by linarith
    show ?thesis
      unfolding usb_packets_last [OF less.prems c] using c less.prems by (auto simp: packet_shape_def)
  qed
qed

section \<open>An endpoint the host reads\<close>

text \<open>A bulk endpoint that may be written, its index and its packet size.\<close>

definition tx_endpoint :: "usb_dev \<Rightarrow> u8 \<Rightarrow> nat \<Rightarrow> nat \<Rightarrow> bool" where
  "tx_endpoint d ep i m \<longleftrightarrow>
     GetEndPointIndex d ep DIR_IN = Some i \<and> ep \<noteq> 0 \<and> Enabled (EndPoint d ! i) \<and> Dir (EndPoint d ! i) \<noteq> 0 \<and>
     CfgIndex d \<noteq> 0 \<and> \<not> Suspend d \<and> \<not> IsDevHid d \<and>
     unat (max_size d ep (EndPoint d ! i)) = m \<and> 0 < m \<and> m < 65536"

lemma ep_index_range: "ep_index k es ep dir = Some i \<Longrightarrow> k \<le> i \<and> i < k + length es"
  by (induction es arbitrary: k) (force split: if_splits)+

lemma ep_index_update:
  "j < length es \<Longrightarrow> EpUsed e = EpUsed (es ! j) \<Longrightarrow> Dir e = Dir (es ! j) \<Longrightarrow> EpNum e = EpNum (es ! j) \<Longrightarrow>
   ep_index k (es[j := e]) ep dir = ep_index k es ep dir"
proof (induction es arbitrary: k j)
  case (Cons a es)
  show ?case
  proof (cases j)
    case 0
    then show ?thesis using Cons.prems by simp
  next
    case (Suc n)
    then show ?thesis using Cons.prems Cons.IH [of n "Suc k"] by simp
  qed
qed simp

lemma tx_endpoint_range: "tx_endpoint d ep i m \<Longrightarrow> i < length (EndPoint d)"
  using ep_index_range by (auto simp: tx_endpoint_def GetEndPointIndex_def dest!: ep_index_range)

text \<open>What a transfer leaves: the endpoint is idle again, and the packets are on the wire.\<close>

definition tx_at :: "u8 list option \<Rightarrow> u32 \<Rightarrow> bool \<Rightarrow> u32 \<Rightarrow> bool \<Rightarrow> endpoint \<Rightarrow> endpoint" where
  "tx_at buf len z pos ready e =
     e\<lparr>TxData := buf, TxDataLen := len, TxDataPos := pos, TxZeroLenPkt := z, TxReady := ready\<rparr>"

definition tx_sent :: "u8 \<Rightarrow> nat \<Rightarrow> u8 list option \<Rightarrow> u32 \<Rightarrow> bool \<Rightarrow> u32 \<Rightarrow> bool \<Rightarrow> u8 list list \<Rightarrow> usb_dev \<Rightarrow> usb_dev" where
  "tx_sent ep i buf len z pos ready ps d =
     d\<lparr>EndPoint := (EndPoint d)[i := tx_at buf len z pos ready (EndPoint d ! i)], BlockingSend := True,
       wire := wire d @ map (Pair ep) ps\<rparr>"


lemma GetEndPointIndex_tx:
  assumes "tx_endpoint d ep i m"
  shows "GetEndPointIndex (tx_sent ep i buf len z pos ready ps d) ep DIR_IN = Some i"
  using assms tx_endpoint_range [OF assms]
  by (simp add: tx_endpoint_def GetEndPointIndex_def tx_sent_def tx_at_def ep_index_update)

lemma tx_sent_endpoint [simp]:
  "i < length (EndPoint d) \<Longrightarrow>
   EndPoint (tx_sent ep i buf len z pos ready ps d) ! i = tx_at buf len z pos ready (EndPoint d ! i)"
  by (simp add: tx_sent_def)

lemma tx_at_sels [simp]:
  "TxData (tx_at buf len z pos ready e) = buf" "TxDataLen (tx_at buf len z pos ready e) = len"
  "TxDataPos (tx_at buf len z pos ready e) = pos" "TxZeroLenPkt (tx_at buf len z pos ready e) = z"
  "TxReady (tx_at buf len z pos ready e) = ready" "MaxPacketSize (tx_at buf len z pos ready e) = MaxPacketSize e"
  by (simp_all add: tx_at_def)

lemma tx_at_updates [simp]:
  "(tx_at buf len z pos ready e)\<lparr>TxDataPos := q\<rparr> = tx_at buf len z q ready e"
  "(tx_at buf len z pos ready e)\<lparr>TxData := x\<rparr> = tx_at x len z pos ready e"
  "(tx_at buf len z pos ready e)\<lparr>TxReady := y\<rparr> = tx_at buf len z pos y e"
  by (simp_all add: tx_at_def)

lemma max_size_tx [simp]:
  "max_size (tx_sent ep i buf len z pos ready ps d) ep' (tx_at buf2 len2 z2 pos2 ready2 e) = max_size d ep' e"
  by (simp add: max_size_def tx_sent_def)

lemma set_ep_tx:
  "i < length (EndPoint d) \<Longrightarrow>
   set_ep i (tx_at buf2 len2 z2 pos2 ready2 (EndPoint d ! i)) (tx_sent ep i buf len z pos ready ps d)
   = tx_sent ep i buf2 len2 z2 pos2 ready2 ps d"
  by (simp add: set_ep_def tx_sent_def)

lemma UsbHwWrite_tx:
  "unat n = length q \<Longrightarrow> length q < 65536 \<Longrightarrow>
   UsbHwWrite ep q n (tx_sent ep i buf len z pos ready ps d) = tx_sent ep i buf len z pos ready (ps @ [q]) d"
  by (simp add: UsbHwWrite_def tx_sent_def unsigned_ucast_eq take_bit_nat_eq_self)

section \<open>One packet, and the whole transfer\<close>

lemma tx_slice_at:
  "unat pos + unat n \<le> length b \<Longrightarrow>
   tx_slice (tx_at (Some b) len z pos ready e) n = Some (take (unat n) (drop (unat pos) b))"
  by (simp add: tx_slice_def)

text \<open>The packet \<open>HandleTxData\<close> sends next, and what it leaves for the packets after it.\<close>

lemma HandleTxData_more:
  assumes e: "tx_endpoint d ep i m" and l: "unat len \<le> length b" and p: "unat pos + m \<le> unat len"
    and s: "unat pos + m \<noteq> unat len \<or> z"
  obtains q where "unat q = unat pos + m"
    "HandleTxData ep i (tx_sent ep i (Some b) len z pos False ps d)
     = Some (tx_sent ep i (Some b) len z q False (ps @ [take m (drop (unat pos) b)]) d)"
proof -
  have r: "i < length (EndPoint d)" by (rule tx_endpoint_range [OF e])
  let ?M = "max_size d ep (EndPoint d ! i)"
  have m: "unat ?M = m" "0 < m" "m < 65536" using e by (auto simp: tx_endpoint_def)
  have q: "unat (pos + ?M) = unat pos + m"
    using p unat_lt_32 [of len] m(1) by (simp add: unat_word_ariths)
  have le: "?M \<le> len - pos"
    using p m(1) by (simp add: word_le_nat_alt unat_sub_if_size)
  have ne: "len \<noteq> pos + ?M \<or> z" using s q by auto
  have pl: "unat pos + m \<le> length b" using p l by linarith
  have w: "UsbHwWrite ep (take m (drop (unat pos) b)) ?M (tx_sent ep i (Some b) len z x False ps d)
      = tx_sent ep i (Some b) len z x False (ps @ [take m (drop (unat pos) b)]) d" for x
    using pl m by (intro UsbHwWrite_tx) auto
  have "HandleTxData ep i (tx_sent ep i (Some b) len z pos False ps d)
     = Some (tx_sent ep i (Some b) len z (pos + ?M) False (ps @ [take m (drop (unat pos) b)]) d)"
    using r pl le ne w by (auto simp: HandleTxData_def tx_slice_at set_ep_tx m(1) Let_def)
  then show thesis by (rule that [OF q])
qed

lemma HandleTxData_last:
  assumes e: "tx_endpoint d ep i m" and l: "unat len \<le> length b" and p: "unat pos \<le> unat len"
    and s: "unat pos < unat len \<or> z"
      "unat len < unat pos + m \<or> unat len = unat pos + m \<and> \<not> z"
  shows "HandleTxData ep i (tx_sent ep i (Some b) len z pos False ps d)
     = Some (tx_sent ep i None len z len False (ps @ [take (unat len - unat pos) (drop (unat pos) b)]) d)"
proof -
  have r: "i < length (EndPoint d)" by (rule tx_endpoint_range [OF e])
  let ?M = "max_size d ep (EndPoint d ! i)"
  let ?q = "take (unat len - unat pos) (drop (unat pos) b)"
  have m: "unat ?M = m" "0 < m" "m < 65536" using e by (auto simp: tx_endpoint_def)
  have n: "unat (len - pos) = unat len - unat pos"
    using p by (simp add: unat_sub_if_size)
  have le: "?M \<le> len - pos \<longleftrightarrow> m \<le> unat len - unat pos"
    by (simp add: word_le_nat_alt n m(1))
  have lq: "length ?q = unat len - unat pos" using l by simp
  have w: "unat n' = unat len - unat pos \<Longrightarrow>
      UsbHwWrite ep ?q n' (tx_sent ep i buf len z x False ps d)
      = tx_sent ep i buf len z x False (ps @ [?q]) d" for x n' buf
    using s m lq by (intro UsbHwWrite_tx) auto
  consider (full) "unat len = unat pos + m" "\<not> z" | (short) "unat pos < unat len" "unat len < unat pos + m"
    | (zero) "unat pos = unat len" "z"
    using s p by linarith
  then show ?thesis
  proof cases
    case full
    then have f: "len = pos + ?M"
      using m(1) unat_lt_32 [of len] by (simp add: word_unat_eq_iff unat_word_ariths)
    have g: "m = unat len - unat pos" using full by simp
    have "tx_slice (tx_at (Some b) len z pos False (EndPoint d ! i)) ?M = Some ?q"
      using full(1) l m(1) by (subst tx_slice_at) (auto simp: g)
    then show ?thesis
      using full(2) r le w [of ?M] m(1) g
      by (simp add: HandleTxData_def set_ep_tx f [symmetric] Let_def)
  next
    case short
    then have "len \<noteq> pos" by auto
    then show ?thesis
      using short r le p l by (simp add: HandleTxData_def tx_slice_at set_ep_tx w n Let_def)
  next
    case zero
    then have "len = pos" by (simp add: word_unat_eq_iff)
    then show ?thesis
      using zero r m le w [of 0] by (simp add: HandleTxData_def set_ep_tx Let_def)
  qed
qed

lemma UsbTxHandler_more:
  assumes "tx_endpoint d ep i m"
  shows "UsbTxHandler ep (tx_sent ep i (Some b) len z pos False ps d)
    = map_option (Pair 1) (HandleTxData ep i (tx_sent ep i (Some b) len z pos False ps d))"
  using tx_endpoint_range [OF assms] by (simp add: UsbTxHandler_def GetEndPointIndex_tx [OF assms])

lemma UsbTxHandler_idle:
  assumes "tx_endpoint d ep i m"
  shows "UsbTxHandler ep (tx_sent ep i None len z pos False ps d) = Some (0, tx_sent ep i None len z pos True ps d)"
  using tx_endpoint_range [OF assms] by (simp add: UsbTxHandler_def GetEndPointIndex_tx [OF assms] set_ep_tx)

lemma host_takes_ready: "TxReady (EndPoint d ! i) \<Longrightarrow> host_takes n ep i d = Some (1, d)"
  by (subst host_takes.simps) simp

lemma host_takes_Suc:
  "\<not> TxReady (EndPoint d ! i) \<Longrightarrow>
   host_takes (Suc n) ep i d = do { (r, d') \<leftarrow> UsbTxHandler ep d; host_takes n ep i d' }"
  by (subst host_takes.simps) simp

text \<open>What is left to send from a position on.\<close>

definition tx_rest :: "u8 list \<Rightarrow> u32 \<Rightarrow> nat \<Rightarrow> u8 list" where
  "tx_rest b len pos = take (unat len - pos) (drop pos b)"

lemma tx_rest_length [simp]: "unat len \<le> length b \<Longrightarrow> length (tx_rest b len pos) = unat len - pos"
  by (simp add: tx_rest_def)

lemma tx_rest_take: "pos + m \<le> unat len \<Longrightarrow> take m (tx_rest b len pos) = take m (drop pos b)"
  by (simp add: tx_rest_def)

lemma tx_rest_drop: "drop m (tx_rest b len pos) = tx_rest b len (pos + m)"
  by (simp add: tx_rest_def drop_take add.commute)

lemma host_takes_transfer:
  assumes e: "tx_endpoint d ep i m" and l: "unat len \<le> length b"
  shows "unat pos \<le> unat len \<Longrightarrow> unat pos < unat len \<or> z \<Longrightarrow>
    length (usb_packets m z (tx_rest b len (unat pos))) \<le> n \<Longrightarrow>
    do { d1 \<leftarrow> HandleTxData ep i (tx_sent ep i (Some b) len z pos False ps d); host_takes n ep i d1 }
    = Some (1, tx_sent ep i None len z len True (ps @ usb_packets m z (tx_rest b len (unat pos))) d)"
proof (induction n arbitrary: pos ps)
  case (Suc n)
  let ?rest = "tx_rest b len (unat pos)"
  have m: "0 < m" using e by (auto simp: tx_endpoint_def)
  have r: "i < length (EndPoint d)" by (rule tx_endpoint_range [OF e])
  show ?case
  proof (cases "unat pos + m \<le> unat len \<and> (unat pos + m \<noteq> unat len \<or> z)")
    case True
    then have c: "unat pos + m \<le> unat len" "unat pos + m \<noteq> unat len \<or> z" by auto
    have "usb_packets m z ?rest = take m ?rest # usb_packets m z (drop m ?rest)"
      by (rule usb_packets_more) (use m c l in auto)
    then have pk: "usb_packets m z ?rest = take m (drop (unat pos) b) # usb_packets m z (tx_rest b len (unat pos + m))"
      using c by (simp add: tx_rest_take tx_rest_drop)
    obtain q where q: "unat q = unat pos + m" and h: "HandleTxData ep i (tx_sent ep i (Some b) len z pos False ps d)
        = Some (tx_sent ep i (Some b) len z q False (ps @ [take m (drop (unat pos) b)]) d)"
      by (rule HandleTxData_more [OF e l c])
    have ih: "do { d1 \<leftarrow> HandleTxData ep i (tx_sent ep i (Some b) len z q False (ps @ [take m (drop (unat pos) b)]) d);
        host_takes n ep i d1 }
      = Some (1, tx_sent ep i None len z len True
          ((ps @ [take m (drop (unat pos) b)]) @ usb_packets m z (tx_rest b len (unat q))) d)"
      by (rule Suc.IH) (use c q Suc.prems(3) in \<open>auto simp: pk\<close>)
    show ?thesis
      unfolding h pk using ih r
      by (simp add: host_takes_Suc UsbTxHandler_more [OF e] q bind_map_option comp_def)
  next
    case False
    then have c: "unat len < unat pos + m \<or> unat len = unat pos + m \<and> \<not> z" by linarith
    have h: "HandleTxData ep i (tx_sent ep i (Some b) len z pos False ps d)
      = Some (tx_sent ep i None len z len False (ps @ [?rest]) d)"
      unfolding tx_rest_def by (rule HandleTxData_last [OF e l Suc.prems(1,2) c])
    have ne: "?rest \<noteq> [] \<or> z"
      using Suc.prems(2) tx_rest_length [OF l, of "unat pos"] by (cases z) (auto simp flip: length_0_conv)
    have pk: "usb_packets m z ?rest = [?rest]"
      by (rule usb_packets_last [OF m ne]) (use c l m in auto)
    show ?thesis
      unfolding h pk using r by (simp add: host_takes_Suc host_takes_ready UsbTxHandler_idle [OF e])
  qed
next
  case 0
  have m: "0 < m" using e by (auto simp: tx_endpoint_def)
  have "tx_rest b len (unat pos) \<noteq> [] \<or> z"
    using "0.prems"(2) tx_rest_length [OF l, of "unat pos"] by (cases z) (auto simp flip: length_0_conv)
  then have "packet_shape m z (usb_packets m z (tx_rest b len (unat pos)))"
    by (rule usb_packets_spec [OF m, THEN conjunct2])
  then have "usb_packets m z (tx_rest b len (unat pos)) \<noteq> []" unfolding packet_shape_def by (rule conjunct1)
  moreover have "usb_packets m z (tx_rest b len (unat pos)) = []"
    using "0.prems"(3) unfolding le_zero_eq length_0_conv .
  ultimately show ?case by contradiction
qed

lemma HandleTxData_hid: "HandleTxData ep i d = Some d' \<Longrightarrow> IsDevHid d' = IsDevHid d"
  by (auto simp: HandleTxData_def Let_def UsbHwWrite_def set_ep_def Option.bind_eq_Some_conv split: if_splits)

lemma UsbWriteData_packets:
  assumes e: "tx_endpoint d ep i m" and l: "unat len \<le> length b" and z: "len \<noteq> 0 \<or> z"
    and n: "length (usb_packets m z (take (unat len) b)) \<le> n"
  shows "UsbWriteData (host_takes n) ep (Some b) len z d
    = Some (0, tx_sent ep i None len z len True (usb_packets m z (take (unat len) b)) d)"
proof -
  have g: "GetEndPointIndex d ep DIR_IN = Some i" using e by (simp add: tx_endpoint_def)
  have s: "(set_ep i (load_ep (Some b) len z (EndPoint d ! i)) d)\<lparr>BlockingSend := True\<rparr>
      = tx_sent ep i (Some b) len z 0 False [] d"
    by (simp add: set_ep_def load_ep_def tx_sent_def tx_at_def)
  have p: "unat (0 :: u32) \<le> unat len" "unat (0 :: u32) < unat len \<or> z" using z by (auto simp: unat_gt_0)
  have x: "tx_rest b len (unat 0) = take (unat len) b" by (simp add: tx_rest_def)
  have t: "do { d1 \<leftarrow> HandleTxData ep i (tx_sent ep i (Some b) len z 0 False [] d); host_takes n ep i d1 }
    = Some (1, tx_sent ep i None len z len True (usb_packets m z (take (unat len) b)) d)"
    using host_takes_transfer [OF e l p, of n "[]"] n unfolding x by simp
  then obtain d1 where h: "HandleTxData ep i (tx_sent ep i (Some b) len z 0 False [] d) = Some d1"
    and w: "host_takes n ep i d1 = Some (1, tx_sent ep i None len z len True (usb_packets m z (take (unat len) b)) d)"
    by (auto simp: Option.bind_eq_Some_conv)
  have hid: "\<not> IsDevHid d1"
    using HandleTxData_hid [OF h] e by (simp add: tx_endpoint_def tx_sent_def)
  show ?thesis
    using e h hid w by (simp add: UsbWriteData_def UsbWriteData_start_def g s UsbWriteData_end_def tx_endpoint_def)
qed

text \<open>The number of packets is bounded by the length.\<close>

lemma usb_packets_length:
  "0 < m \<Longrightarrow> xs \<noteq> [] \<or> z \<Longrightarrow> length (usb_packets m z xs) \<le> length xs div m + 1"
proof (induction "length xs" arbitrary: xs rule: less_induct)
  case less
  show ?case
  proof (cases "m \<le> length xs \<and> (length xs \<noteq> m \<or> z)")
    case True
    have l: "length (drop m xs) < length xs" using True less.prems(1) unfolding length_drop by linarith
    have d: "drop m xs \<noteq> [] \<or> z" using True by auto
    have r: "usb_packets m z xs = take m xs # usb_packets m z (drop m xs)"
      using True by (intro usb_packets_more less.prems(1)) auto
    have "length xs div m = (length xs - m) div m + 1"
      using True less.prems(1) by (simp add: le_div_geq)
    then show ?thesis unfolding r using less.hyps [OF l less.prems(1) d] by simp
  next
    case False
    then have c: "length xs < m \<or> length xs = m \<and> \<not> z" by linarith
    show ?thesis unfolding usb_packets_last [OF less.prems c] by simp
  qed
qed

text \<open>A write leaves the endpoint as usable as it was.\<close>

lemma tx_endpoint_sent:
  assumes "tx_endpoint d ep i m"
  shows "tx_endpoint (tx_sent ep i buf len z pos ready ps d) ep i m"
  using assms tx_endpoint_range [OF assms] GetEndPointIndex_tx [OF assms]
  by (simp add: tx_endpoint_def) (simp add: tx_sent_def tx_at_def)

section \<open>An empty transfer\<close>

lemma HandleTxData_nothing:
  assumes e: "tx_endpoint d ep i m"
  shows "HandleTxData ep i (tx_sent ep i (Some b) 0 False 0 False [] d) = Some (tx_sent ep i (Some b) 0 False 0 False [] d)"
proof -
  have r: "i < length (EndPoint d)" by (rule tx_endpoint_range [OF e])
  have "max_size d ep (EndPoint d ! i) \<noteq> 0" using e by (auto simp: tx_endpoint_def)
  then show ?thesis using r by (simp add: HandleTxData_def Let_def)
qed

lemma host_takes_nothing:
  assumes e: "tx_endpoint d ep i m"
  shows "host_takes n ep i (tx_sent ep i (Some b) 0 False 0 False [] d) = Some (0, tx_sent ep i (Some b) 0 False 0 False [] d)"
proof (induction n)
  case 0
  show ?case using tx_endpoint_range [OF e] by (subst host_takes.simps) simp
next
  case (Suc n)
  then show ?case
    using tx_endpoint_range [OF e] by (simp add: host_takes_Suc UsbTxHandler_more [OF e] HandleTxData_nothing [OF e])
qed

end
