(* ===== verification/UsbBot.thy ===== *)
theory UsbBot imports UsbCore begin

text \<open>
  The Bulk-Only Transport of the virtual mass storage devices (usbe-src/bot.c): a host sends a command
  block wrapper (CBW), perhaps data, and reads data, perhaps none, and a command status wrapper (CSW).
  \<open>BotRxHandler\<close> runs in the interrupt, \<open>BotProcessHandler\<close> in the thread it wakes. One device with
  one interface: \<open>DevNo\<close> and \<open>ifnum\<close> are left out, and \<open>GetInterfaceData\<close> is \<open>mass\<close>.

  Packed structures are the lists of their bytes, numbers with the low byte first as on ARM.
\<close>

unbundle bit_operations_syntax

section \<open>Bytes\<close>

definition bytes32 :: "u32 \<Rightarrow> u8 list" where
  "bytes32 w = [ucast w, ucast (drop_bit 8 w), ucast (drop_bit 16 w), ucast (drop_bit 24 w)]"

definition le32_at :: "u8 list \<Rightarrow> nat \<Rightarrow> u32" where
  "le32_at bs i = ucast (bs ! i) OR push_bit 8 (ucast (bs ! (i + 1))) OR push_bit 16 (ucast (bs ! (i + 2)))
     OR push_bit 24 (ucast (bs ! (i + 3)))"

definition memcpy_at :: "u8 list \<Rightarrow> nat \<Rightarrow> u8 list \<Rightarrow> nat \<Rightarrow> u8 list option" where
  "memcpy_at dest i src n =
     (if i + n \<le> length dest \<and> n \<le> length src then Some (take i dest @ take n src @ drop (i + n) dest) else None)"

section \<open>Wrappers and constants\<close>

definition MAX_CBW_LENGTH :: u32 where "MAX_CBW_LENGTH = 31"
definition MAX_CSW_LENGTH :: u32 where "MAX_CSW_LENGTH = 13"
definition CBW_SIGNATURE :: u32 where "CBW_SIGNATURE = 0x43425355"
definition CSW_SIGNATURE :: u32 where "CSW_SIGNATURE = 0x53425355"
definition CSW_PASSED :: u8 where "CSW_PASSED = 0x00"
definition CSW_FAILED :: u8 where "CSW_FAILED = 0x01"
definition CSW_PHASE_ERROR :: u8 where "CSW_PHASE_ERROR = 0x02"
definition MAX_NOMEDIUM_RETRIES :: u8 where "MAX_NOMEDIUM_RETRIES = 10"
definition MAX_SCSI_DATA :: nat where "MAX_SCSI_DATA = 64 * 2048"

text \<open>The fields of a CBW, at their offsets.\<close>

definition dCBWSignature :: "u8 list \<Rightarrow> u32" where "dCBWSignature cbw = le32_at cbw 0"
definition dCBWTag :: "u8 list \<Rightarrow> u32" where "dCBWTag cbw = le32_at cbw 4"
definition dCBWDataTransferLength :: "u8 list \<Rightarrow> u32" where "dCBWDataTransferLength cbw = le32_at cbw 8"
definition bmCBWFlags :: "u8 list \<Rightarrow> u8" where "bmCBWFlags cbw = cbw ! 12"
definition bCBWLUN :: "u8 list \<Rightarrow> u8" where "bCBWLUN cbw = cbw ! 13"
definition bCBWCBLength :: "u8 list \<Rightarrow> u8" where "bCBWCBLength cbw = cbw ! 14"
definition CBWCB :: "u8 list \<Rightarrow> u8 list" where "CBWCB cbw = take 16 (drop 15 cbw)"
definition OpCode :: "u8 list \<Rightarrow> u8" where "OpCode cb = cb ! 0"

definition csw_bytes :: "u32 \<Rightarrow> u8 \<Rightarrow> u32 \<Rightarrow> u8 list" where
  "csw_bytes tag status remain = bytes32 CSW_SIGNATURE @ bytes32 tag @ bytes32 remain @ [status]"

definition SCSI_TEST_UNIT_READY :: u8 where "SCSI_TEST_UNIT_READY = 0x00"
definition SCSI_REQUEST_SENSE :: u8 where "SCSI_REQUEST_SENSE = 0x03"
definition SCSI_INQUIRY :: u8 where "SCSI_INQUIRY = 0x12"
definition SCSI_MEDIUM_REMOVAL :: u8 where "SCSI_MEDIUM_REMOVAL = 0x1E"
definition SCSI_READ_10 :: u8 where "SCSI_READ_10 = 0x28"
definition SCSI_WRITE_10 :: u8 where "SCSI_WRITE_10 = 0x2A"
definition SCSI_READ_FORMAT_CAPACITIES :: u8 where "SCSI_READ_FORMAT_CAPACITIES = 0x23"
definition SCSI_SEEK :: u8 where "SCSI_SEEK = 0x2B"
definition SCSI_SYNC_CACHE :: u8 where "SCSI_SYNC_CACHE = 0x35"
definition SCSI_GET_NOTIFICATION_STATUS :: u8 where "SCSI_GET_NOTIFICATION_STATUS = 0x4A"
definition SCSI_READ_12 :: u8 where "SCSI_READ_12 = 0xA8"
definition SCSI_WRITE_12 :: u8 where "SCSI_WRITE_12 = 0xAA"
definition SCSI_SET_CD_SPEED :: u8 where "SCSI_SET_CD_SPEED = 0xBB"

definition sizeof_INQUIRY :: nat where "sizeof_INQUIRY = 255"
definition sizeof_SENSE :: nat where "sizeof_SENSE = 64"
definition sizeof_EVENT_STATUS :: nat where "sizeof_EVENT_STATUS = 8"

section \<open>State\<close>

text \<open>\<open>Inquiry\<close> and \<open>EventStatus\<close> have one packet for each logical unit.\<close>

record bot_if =
  CBW :: "u8 list"
  ScsiData :: "u8 list"
  ScsiDataLen :: u32
  UnHalted :: bool
  SenseKey :: u8
  SenseCode :: u8
  SenseCodeQ :: u8
  NoMediumRetries :: u8
  Inquiry :: "u8 list list"
  EventStatus :: "u8 list list"
  ScsiDataOutLen :: u32
  LastSeqNo :: u32

text \<open>
  The device, its interface, the flag and the wake-up of the processing thread, and the calls of the
  video callback when one is registered.
\<close>

record bot_sys =
  udev :: usb_dev
  mass :: "bot_if option"
  WakeupFlag :: bool
  dpc :: bool
  DataInEp :: u8
  MaxLUN :: u8
  video :: "nat list option"

definition set_mass :: "(bot_if \<Rightarrow> bot_if) \<Rightarrow> 'a bot_sys_scheme \<Rightarrow> 'a bot_sys_scheme" where
  "set_mass f s = s\<lparr>mass := map_option f (mass s)\<rparr>"

definition video_call :: "nat \<Rightarrow> 'a bot_sys_scheme \<Rightarrow> 'a bot_sys_scheme" where
  "video_call n s = s\<lparr>video := map_option (\<lambda>l. l @ [n]) (video s)\<rparr>"

section \<open>Small operations\<close>

text \<open>\<open>RMB | PeripheralType\<close> of the inquiry packet: the device type.\<close>

definition device_type :: "bot_if \<Rightarrow> u8 \<Rightarrow> u8 option" where
  "device_type m lun = map_option (\<lambda>q. (q ! 1) OR (q ! 0)) (arr_get (Inquiry m) (unat lun))"

definition IUSB_DEVICE_HARDDISK :: u8 where "IUSB_DEVICE_HARDDISK = 0x00"
definition IUSB_DEVICE_CDROM :: u8 where "IUSB_DEVICE_CDROM = 0x05"

definition IsCDROM :: "u8 \<Rightarrow> 'a bot_sys_scheme \<Rightarrow> bool option" where
  "IsCDROM lun s =
     (case mass s of
        None \<Rightarrow> Some False
      | Some m \<Rightarrow> map_option (\<lambda>t. t AND 0x7F = IUSB_DEVICE_CDROM) (device_type m lun))"

definition BotRemHandler :: "'a bot_sys_scheme \<Rightarrow> 'a bot_sys_scheme" where
  "BotRemHandler s =
     set_mass (\<lambda>m. m\<lparr>UnHalted := True, SenseKey := 0, SenseCode := 0, SenseCodeQ := 0,
       NoMediumRetries := MAX_NOMEDIUM_RETRIES, ScsiDataOutLen := 0, LastSeqNo := 0\<rparr>) s"

text \<open>The two class requests: the result, and the byte stored at the start of the data.\<close>

definition BotReqHandler :: "u8 \<Rightarrow> u8 \<Rightarrow> 'a bot_sys_scheme \<Rightarrow> int \<times> u8 option" where
  "BotReqHandler bmRequestType bRequest s =
     (if bmRequestType AND 0x1F = 0x01 \<and> bRequest = 0xFE then (0, Some (MaxLUN s))
      else if bmRequestType AND 0x1F = 0x01 \<and> bRequest = 0xFF then (0, None)
      else (1, None))"

definition BotUnHaltHandler :: "'a bot_sys_scheme \<Rightarrow> 'a bot_sys_scheme" where
  "BotUnHaltHandler s = set_mass (\<lambda>m. m\<lparr>UnHalted := True\<rparr>) s"

definition BotSetScsiErrorCode :: "u8 \<Rightarrow> u8 \<Rightarrow> u8 \<Rightarrow> 'a bot_sys_scheme \<Rightarrow> 'a bot_sys_scheme" where
  "BotSetScsiErrorCode key code codeq s =
     set_mass (\<lambda>m. m\<lparr>SenseKey := key, SenseCode := code, SenseCodeQ := codeq\<rparr>) s"

definition BotGetScsiErrorCode :: "'a bot_sys_scheme \<Rightarrow> u8 \<times> u8 \<times> u8" where
  "BotGetScsiErrorCode s =
     (case mass s of None \<Rightarrow> (0, 0, 0) | Some m \<Rightarrow> (SenseKey m, SenseCode m, SenseCodeQ m))"

definition BotSetScsiEventStatus :: "u8 \<Rightarrow> u8 \<Rightarrow> u8 \<Rightarrow> 'a bot_sys_scheme \<Rightarrow> 'a bot_sys_scheme option" where
  "BotSetScsiEventStatus lun code media s =
     (case mass s of
        None \<Rightarrow> Some s
      | Some m \<Rightarrow>
          do { e \<leftarrow> arr_get (EventStatus m) (unat lun);
               Some (s\<lparr>mass := Some (m\<lparr>EventStatus := (EventStatus m)[unat lun := e[4 := code, 5 := media]]\<rparr>)\<rparr>) })"

section \<open>Sending\<close>

text \<open>What goes on while a process sleeps, on the endpoint's \<open>TxReady\<close> and on \<open>UnHalted\<close>.\<close>

record 's bot_env =
  tx_sleep :: "u8 \<Rightarrow> nat \<Rightarrow> usb_dev \<Rightarrow> (int \<times> usb_dev) option"
  halt_sleep :: "'s \<Rightarrow> int \<times> 's"

definition bot_write ::
  "'a bot_sys_scheme bot_env \<Rightarrow> u8 \<Rightarrow> u8 list \<Rightarrow> u32 \<Rightarrow> bool \<Rightarrow> 'a bot_sys_scheme \<Rightarrow> (int \<times> 'a bot_sys_scheme) option" where
  "bot_write env ep buf len zlp s =
     map_option (\<lambda>(r, d). (r, s\<lparr>udev := d\<rparr>)) (UsbWriteData (tx_sleep env) ep (Some buf) len zlp (udev s))"

text \<open>The stall a status with a residue begins with, and the wait for the host to clear it.\<close>

definition BotStall :: "'a bot_sys_scheme bot_env \<Rightarrow> 'a bot_sys_scheme \<Rightarrow> 'a bot_sys_scheme" where
  "BotStall env s =
     (let s1 = set_mass (\<lambda>m. m\<lparr>UnHalted := False\<rparr>) s;
          s2 = s1\<lparr>udev := UsbStallEp (DataInEp s) DIR_IN (udev s1)\<rparr>;
          (ret, s3) = halt_sleep env s2
      in if ret \<le> 0 then set_mass (\<lambda>m. m\<lparr>UnHalted := True\<rparr>) s3 else s3)"

definition BotSendCSW ::
  "'a bot_sys_scheme bot_env \<Rightarrow> u32 \<Rightarrow> u8 \<Rightarrow> u32 \<Rightarrow> 'a bot_sys_scheme \<Rightarrow> (int \<times> 'a bot_sys_scheme) option" where
  "BotSendCSW env tag status remain s =
     (if remain \<noteq> 0 \<and> mass s = None then Some (1, s)
      else do { (r, s') \<leftarrow> bot_write env (DataInEp s) (csw_bytes tag status remain) MAX_CSW_LENGTH True
                  (if remain \<noteq> 0 then BotStall env s else s);
                Some (if r \<noteq> 0 then 1 else 0, s') })"

definition less_remain :: "u32 \<Rightarrow> u32 \<Rightarrow> u32" where
  "less_remain remain n = (if n < remain then remain - n else 0)"

definition send_size :: "u32 \<Rightarrow> nat \<Rightarrow> u32" where
  "send_size remain n = (if unat remain > n then of_nat n else remain)"

text \<open>The functions that send data return their status and the length that remains.\<close>

definition BotSendData ::
  "'a bot_sys_scheme bot_env \<Rightarrow> u8 list \<Rightarrow> u32 \<Rightarrow> u32 \<Rightarrow> 'a bot_sys_scheme \<Rightarrow> (int \<times> u32 \<times> 'a bot_sys_scheme) option" where
  "BotSendData env pkt n remain s =
     do { (r, s') \<leftarrow> bot_write env (DataInEp s) pkt n False s;
          Some (if r \<noteq> 0 then (1, remain, s') else (0, less_remain remain n, s')) }"

definition BotInquiry ::
  "'a bot_sys_scheme bot_env \<Rightarrow> u8 \<Rightarrow> u32 \<Rightarrow> u8 \<Rightarrow> 'a bot_sys_scheme \<Rightarrow> (int \<times> u32 \<times> 'a bot_sys_scheme) option" where
  "BotInquiry env epnum remain lun s =
     (case mass s of
        None \<Rightarrow> Some (1, remain, s)
      | Some m \<Rightarrow>
          do { q \<leftarrow> arr_get (Inquiry m) (unat lun);
               let n = send_size remain sizeof_INQUIRY; q' = q[4 := 31];
                   s1 = s\<lparr>mass := Some (m\<lparr>Inquiry := (Inquiry m)[unat lun := q']\<rparr>)\<rparr>
               in do { (r, s2) \<leftarrow> bot_write env epnum q' n False s1;
                       Some (if r \<noteq> 0 then (1, remain, s2)
                             else (0, less_remain remain n, BotSetScsiErrorCode 0 0 0 s2)) } })"

definition FLOPPY_BLOCK_SIZE :: u32 where "FLOPPY_BLOCK_SIZE = 512"
definition FLOPPY_TOTAL_BLOCKS :: u32 where "FLOPPY_TOTAL_BLOCKS = 2880"

definition format_capacities :: "u8 list" where
  "format_capacities = [0, 0, 0, 8] @ rev (bytes32 FLOPPY_TOTAL_BLOCKS) @ rev (bytes32 FLOPPY_BLOCK_SIZE)"

definition BotFormatCaps ::
  "'a bot_sys_scheme bot_env \<Rightarrow> u8 \<Rightarrow> u32 \<Rightarrow> 'a bot_sys_scheme \<Rightarrow> (int \<times> u32 \<times> 'a bot_sys_scheme) option" where
  "BotFormatCaps env epnum remain s =
     (let n = send_size remain (length format_capacities)
      in do { (r, s1) \<leftarrow> bot_write env epnum format_capacities n False s;
              Some (if r \<noteq> 0 then (1, remain, s1) else (0, less_remain remain n, BotSetScsiErrorCode 0 0 0 s1)) })"

definition sense_packet :: "u8 \<times> u8 \<times> u8 \<Rightarrow> u32 \<Rightarrow> u8 list" where
  "sense_packet k n =
     (case k of (key, code, codeq) \<Rightarrow>
        (replicate sizeof_SENSE 0)[0 := 0x70, 2 := key, 12 := code, 13 := codeq, 7 := ucast (n - 8)])"

definition BotSense ::
  "'a bot_sys_scheme bot_env \<Rightarrow> u8 \<Rightarrow> u32 \<Rightarrow> 'a bot_sys_scheme \<Rightarrow> (int \<times> u32 \<times> 'a bot_sys_scheme) option" where
  "BotSense env epnum remain s =
     (let n = send_size remain sizeof_SENSE
      in do { (r, s1) \<leftarrow> bot_write env epnum (sense_packet (BotGetScsiErrorCode s) n) n False s;
              Some (if r \<noteq> 0 then (1, remain, s1) else (0, less_remain remain n, BotSetScsiErrorCode 0 0 0 s1)) })"

text \<open>The event status sent, and the event that follows it: eject request, then insertion again.\<close>

definition event_filled :: "u8 list \<Rightarrow> u32 \<Rightarrow> u8 list" where
  "event_filled e n =
     e[0 := ucast (n - 2), 1 := ucast (drop_bit 8 (n - 2)), 2 := 0x04, 3 := 0xDE, 6 := 0, 7 := 0]"

definition event_next :: "u8 list \<Rightarrow> u8 list" where
  "event_next e =
     (if e ! 4 = 0x03 \<and> e ! 5 = 0x00 then e[4 := 0x01, 5 := 0x02]
      else if e ! 5 = 0x02 then e[4 := 0x03, 5 := 0x01]
      else e[4 := 0x00])"

definition set_event :: "u8 \<Rightarrow> u8 list \<Rightarrow> 'a bot_sys_scheme \<Rightarrow> 'a bot_sys_scheme" where
  "set_event lun e s = set_mass (\<lambda>m. m\<lparr>EventStatus := (EventStatus m)[unat lun := e]\<rparr>) s"

definition BotGetEventStatusNotification ::
  "'a bot_sys_scheme bot_env \<Rightarrow> u8 \<Rightarrow> u32 \<Rightarrow> u8 \<Rightarrow> 'a bot_sys_scheme \<Rightarrow> (int \<times> u32 \<times> 'a bot_sys_scheme) option" where
  "BotGetEventStatusNotification env epnum remain lun s =
     (case mass s of
        None \<Rightarrow> Some (1, remain, s)
      | Some m \<Rightarrow>
          do { e \<leftarrow> arr_get (EventStatus m) (unat lun);
               let n = send_size remain sizeof_EVENT_STATUS; e1 = event_filled e n
               in do { (r, s1) \<leftarrow> bot_write env epnum e1 n False (set_event lun e1 s);
                       Some (if r \<noteq> 0 then (1, remain, s1)
                             else (0, less_remain remain n, set_event lun (event_next e1) s1)) } })"

section \<open>Receiving\<close>

text \<open>The interface with the CBW copied, and whether it is in order.\<close>

definition BotReadCBW :: "u8 \<Rightarrow> usb_dev \<Rightarrow> bot_if \<Rightarrow> (bool \<times> bot_if) option" where
  "BotReadCBW epnum d m =
     (let Len = UsbGetRxDataLen epnum d
      in if Len > MAX_CBW_LENGTH then Some (False, m)
         else case UsbGetRxData epnum d of
             None \<Rightarrow> Some (False, m)
           | Some rx \<Rightarrow>
               if Len = 0 then Some (False, m)
               else do { cbw \<leftarrow> memcpy_at (CBW m) 0 rx (unat Len);
                         Some (dCBWSignature cbw = CBW_SIGNATURE \<and> \<not> unat Len < 15 + unat (bCBWCBLength cbw),
                               m\<lparr>CBW := cbw\<rparr>) })"

definition BotQueueDPC :: "'a bot_sys_scheme \<Rightarrow> 'a bot_sys_scheme" where
  "BotQueueDPC s = s\<lparr>WakeupFlag := True, dpc := True\<rparr>"

text \<open>A CBW that announces data from the host waits for them; any other is queued.\<close>

definition BotRxCommand :: "bot_if \<Rightarrow> 'a bot_sys_scheme \<Rightarrow> 'a bot_sys_scheme" where
  "BotRxCommand m s =
     (let cbw = CBW m; n = dCBWDataTransferLength cbw
      in if bmCBWFlags cbw AND 0x80 = 0
         then (let m1 = m\<lparr>ScsiDataOutLen := n\<rparr>
               in if n \<noteq> 0
                  then (let s1 = (if OpCode (CBWCB cbw) = SCSI_WRITE_10 \<or> OpCode (CBWCB cbw) = SCSI_WRITE_12
                                  then video_call 1 s else s)
                        in s1\<lparr>mass := Some (m1\<lparr>ScsiDataLen := 0\<rparr>)\<rparr>)
                  else BotQueueDPC (s\<lparr>mass := Some m1\<rparr>))
         else BotQueueDPC (s\<lparr>mass := Some m\<rparr>))"

definition BotRxData :: "u8 list \<Rightarrow> u32 \<Rightarrow> bot_if \<Rightarrow> 'a bot_sys_scheme \<Rightarrow> 'a bot_sys_scheme option" where
  "BotRxData rx Len m s =
     do { sd \<leftarrow> memcpy_at (ScsiData m) (unat (ScsiDataLen m)) rx (unat Len);
          let out = (if Len \<le> ScsiDataOutLen m then ScsiDataOutLen m - Len else 0);
              s1 = s\<lparr>mass := Some (m\<lparr>ScsiData := sd, ScsiDataLen := ScsiDataLen m + Len, ScsiDataOutLen := out\<rparr>)\<rparr>
          in Some (if out = 0 then BotQueueDPC (video_call 0 s1) else s1) }"

definition BotRxHandler :: "u8 \<Rightarrow> 'a bot_sys_scheme \<Rightarrow> 'a bot_sys_scheme option" where
  "BotRxHandler epnum s =
     (case mass s of
        None \<Rightarrow> Some s
      | Some m \<Rightarrow>
          if ScsiDataOutLen m = 0
          then do { (ok, m1) \<leftarrow> BotReadCBW epnum (udev s) m;
                    Some (if ok then BotRxCommand m1 s else s\<lparr>mass := Some m1\<rparr>) }
          else case UsbGetRxData epnum (udev s) of
              None \<Rightarrow> Some s
            | Some rx \<Rightarrow>
                if UsbGetRxDataLen epnum (udev s) = 0 then Some s
                else BotRxData rx (UsbGetRxDataLen epnum (udev s)) m s)"

section \<open>Processing a command\<close>

text \<open>Data and a status: failed when the data could not be sent.\<close>

definition BotReply ::
  "'a bot_sys_scheme bot_env \<Rightarrow> u8 list \<Rightarrow>
   ('a bot_sys_scheme \<Rightarrow> (int \<times> u32 \<times> 'a bot_sys_scheme) option) \<Rightarrow> 'a bot_sys_scheme \<Rightarrow> 'a bot_sys_scheme option" where
  "BotReply env cbw send s =
     (if bmCBWFlags cbw = 0x00 then map_option snd (BotSendCSW env (dCBWTag cbw) CSW_PASSED 0 s)
      else do { (r, remain, s1) \<leftarrow> send s;
                map_option snd (BotSendCSW env (dCBWTag cbw) (if r = 1 then CSW_FAILED else CSW_PASSED) remain s1) })"

text \<open>
  \<open>remote\<close> is the call of the device module behind \<open>DevUsbRemoteScsiCall\<close>: 0 when the remote server
  has taken the command and the status follows later. A read of the format capacities goes there too, after a look at the device
  type that only a debug message uses.
\<close>

definition BotProcessHandler ::
  "'a bot_sys_scheme bot_env \<Rightarrow> (u8 \<Rightarrow> 'a bot_sys_scheme \<Rightarrow> (int \<times> 'a bot_sys_scheme) option) \<Rightarrow>
   'a bot_sys_scheme \<Rightarrow> 'a bot_sys_scheme option" where
  "BotProcessHandler env remote s =
     (case mass s of
        None \<Rightarrow> Some s
      | Some m \<Rightarrow>
          let cbw = CBW m; op = OpCode (CBWCB cbw); ep = DataInEp s; len = dCBWDataTransferLength cbw
          in if op = SCSI_INQUIRY then BotReply env cbw (BotInquiry env ep len (bCBWLUN cbw)) s
             else if op = SCSI_REQUEST_SENSE then BotReply env cbw (BotSense env ep len) s
             else if op = SCSI_GET_NOTIFICATION_STATUS
             then BotReply env cbw (BotGetEventStatusNotification env ep len (bCBWLUN cbw)) s
             else if op \<in> {SCSI_MEDIUM_REMOVAL, SCSI_SEEK, SCSI_SYNC_CACHE, SCSI_SET_CD_SPEED}
             then map_option snd (BotSendCSW env (dCBWTag cbw) CSW_PASSED len s)
             else if op = SCSI_TEST_UNIT_READY \<and> len \<noteq> 0
             then map_option snd (BotSendCSW env (dCBWTag cbw) CSW_FAILED len s)
             else do { _ \<leftarrow> (if op = SCSI_READ_FORMAT_CAPACITIES then IsCDROM (bCBWLUN cbw) s else Some False);
                       (r, s1) \<leftarrow> remote (bCBWLUN cbw) s;
                       if r \<noteq> 0 then map_option snd (BotSendCSW env (dCBWTag cbw) CSW_FAILED len s1)
                       else Some s1 })"

end
