(* ===== verification/IusbScsi.thy ===== *)
theory IusbScsi imports UsbBot begin

text \<open>
  Redirection of SCSI commands to a remote server (iUSB-src): the iUSB packet made of a command
  (iusb-scsi.c), the slots in which the server waits for it, for hard disks (iusb-hdisk.c), CD-ROMs
  (iusb-cdrom.c) and vendor commands (iusb-vendor.c), and the response of the server, which becomes
  the data and the status of the Bulk-Only Transport.
\<close>

unbundle bit_operations_syntax

section \<open>The iUSB header\<close>

record iusb_header =
  Signature :: "u8 list"
  Major :: u8
  Minor :: u8
  HeaderLen :: u8
  HeaderCheckSum :: u8
  DataPktLen :: u32
  ServerCaps :: u8
  DeviceType :: u8
  Protocol :: u8
  Direction :: u8
  DeviceNo :: u8
  InterfaceNo :: u8
  ClientData :: u8
  Instance :: u8
  SeqNo :: u32
  Key :: u32

definition header_bytes :: "iusb_header \<Rightarrow> u8 list" where
  "header_bytes h =
     Signature h @ [Major h, Minor h, HeaderLen h, HeaderCheckSum h] @ bytes32 (DataPktLen h) @
     [ServerCaps h, DeviceType h, Protocol h, Direction h, DeviceNo h, InterfaceNo h, ClientData h, Instance h] @
     bytes32 (SeqNo h) @ bytes32 (Key h)"

definition sizeof_HEADER :: nat where "sizeof_HEADER = 32"
definition IUSB_PROTO_SCSI :: u8 where "IUSB_PROTO_SCSI = 0x01"
definition TO_REMOTE :: u8 where "TO_REMOTE = 0x00"

definition CalculateModulo100 :: "u8 list \<Rightarrow> u8" where
  "CalculateModulo100 buf = - sum_list buf"

text \<open>The static counter of the sequence numbers goes in and comes out.\<close>

definition FormiUsbHeader :: "u32 \<Rightarrow> u8 \<Rightarrow> u8 \<Rightarrow> u8 \<Rightarrow> u8 \<Rightarrow> u32 \<Rightarrow> iusb_header \<times> u32" where
  "FormiUsbHeader len DevNo ifnum dtype proto seq =
     (let h = \<lparr>Signature = map of_char ''IUSB    '', Major = 1, Minor = 0, HeaderLen = of_nat sizeof_HEADER,
               HeaderCheckSum = 0, DataPktLen = len, ServerCaps = 0, DeviceType = dtype, Protocol = proto,
               Direction = TO_REMOTE, DeviceNo = DevNo, InterfaceNo = ifnum, ClientData = 0, Instance = 0,
               SeqNo = seq, Key = 0\<rparr>
      in (h\<lparr>HeaderCheckSum := CalculateModulo100 (header_bytes h)\<rparr>,
          if seq + 1 = 0xffffffff then 1 else seq + 1))"

section \<open>Packets and slots\<close>

text \<open>\<open>CommandPkt\<close> has 12 bytes and \<open>StatusPkt\<close> the 4 behind it; \<open>Data\<close> is what the buffer has room for.\<close>

record iusb_pkt =
  Header :: iusb_header
  ReadLen :: u32
  TagNo :: u32
  DataDir :: u8
  CommandPkt :: "u8 list"
  StatusPkt :: "u8 list"
  DataLen :: u32
  Data :: "u8 list"

definition READ_DEVICE :: u8 where "READ_DEVICE = 0x01"
definition WRITE_DEVICE :: u8 where "WRITE_DEVICE = 0x02"
definition sizeof_PACKET :: nat where "sizeof_PACKET = 62"

text \<open>A slot: whether the server is active and a packet is ready, and the packet, which a NULL pointer may hide.\<close>

record slot =
  s_used :: bool
  s_active :: bool
  s_wakeup :: bool
  s_req :: bool
  s_pkt :: iusb_pkt

datatype errorcase = NO_ERRORCASE | ERRORCASE_2 | ERRORCASE_3 | ERRORCASE_4 | ERRORCASE_7 | ERRORCASE_8
  | ERRORCASE_9 | ERRORCASE_10 | ERRORCASE_11 | ERRORCASE_13

text \<open>The transport with the module's globals; \<open>dev_no\<close> and \<open>if_no\<close> name the device in the headers.\<close>

record iusb_sys = bot_sys +
  dev_no :: u8
  if_no :: u8
  TestCase :: errorcase
  CBWErrorOccur :: u8
  DataOutLen :: u32
  iusb_seq :: u32
  hdisk :: "slot list"
  cdrom :: "slot list"
  vendor :: slot
  vendor_exit :: bool
  gKernelModePktCD :: iusb_pkt
  gKernelModePktHD :: iusb_pkt

definition MAX_HDISK_INSTANCE :: nat where "MAX_HDISK_INSTANCE = 5"
definition MAX_CDROM_INSTANCE :: nat where "MAX_CDROM_INSTANCE = 4"

section \<open>The packet of a command\<close>

text \<open>The length the command block itself asks for, by the block size of the device type.\<close>

definition block_bytes :: "u8 \<Rightarrow> u8 list \<Rightarrow> u32 \<Rightarrow> u32" where
  "block_bytes dtype cb old =
     (let n = push_bit 8 (ucast (cb ! 7)) OR ucast (cb ! 8) :: u32
      in if dtype AND 0x7F = IUSB_DEVICE_HARDDISK then n * 0x200
         else if dtype AND 0x7F = IUSB_DEVICE_CDROM then n * 0x800
         else old)"

text \<open>
  The direction, the lengths and the data: the packet, \<open>DataOutLen\<close> and whether the wrapper and the
  command disagree. A READ(10) to the device or a WRITE(10) from it leaves the old direction and
  lengths in the packet.
\<close>

definition form_body :: "u8 \<Rightarrow> bot_if \<Rightarrow> iusb_pkt \<Rightarrow> u32 \<Rightarrow> (iusb_pkt \<times> u32 \<times> bool) option" where
  "form_body dtype m p out =
     (let cbw = CBW m; op = OpCode (CommandPkt p); cb = CBWCB cbw; n = dCBWDataTransferLength cbw
      in if bmCBWFlags cbw AND 0x80 \<noteq> 0 \<or> n = 0
         then (if op = SCSI_WRITE_10 then Some (p, out, True)
               else (let p1 = p\<lparr>DataDir := READ_DEVICE, ReadLen := n, DataLen := 0\<rparr>
                     in if op = SCSI_READ_10
                        then (let out1 = block_bytes dtype cb out in Some (p1, out1, out1 \<noteq> n))
                        else Some (p1, out, False)))
         else (if op = SCSI_READ_10 then Some (p, out, True)
               else do { d \<leftarrow> memcpy_at (Data p) 0 (ScsiData m) (unat (ScsiDataLen m));
                         let p1 = p\<lparr>DataDir := WRITE_DEVICE, ReadLen := 0, DataLen := ScsiDataLen m, Data := d\<rparr>
                         in if op = SCSI_WRITE_10
                            then (let out1 = block_bytes dtype cb out in Some (p1, out1, out1 \<noteq> ScsiDataLen m))
                            else Some (p1, out, False) }))"

text \<open>
  The cases of the transport specification: the error flag (1: the command fails after the remote
  call, 2: phase error), \<open>DataOutLen\<close> and \<open>TestCase\<close>. In case 5 the case number is assigned to
  \<open>DataOutLen\<close> before it is subtracted.
\<close>

definition error_case :: "u8 list \<Rightarrow> u8 \<Rightarrow> u32 \<Rightarrow> errorcase \<Rightarrow> u8 \<times> u32 \<times> errorcase" where
  "error_case cbw dir out tc =
     (let n = dCBWDataTransferLength cbw
      in if n = 0 then (2, out, if dir = WRITE_DEVICE then ERRORCASE_3 else ERRORCASE_2)
         else if bmCBWFlags cbw AND 0x80 \<noteq> 0
         then (if out = 0 then (1, n, ERRORCASE_4)
               else if n > out then (1, n - 5, tc)
               else if n < out then (2, out, ERRORCASE_7)
               else (2, out, ERRORCASE_8))
         else (if out = 0 then (1, n, ERRORCASE_9)
               else if n > out then (1, n - out, ERRORCASE_11)
               else if n < out then (2, out, ERRORCASE_13)
               else (2, out, ERRORCASE_10)))"

definition FormiUsbScsiPacket ::
  "iusb_pkt \<Rightarrow> bot_if \<Rightarrow> u8 \<Rightarrow> 'a iusb_sys_scheme \<Rightarrow> (u32 \<times> iusb_pkt \<times> 'a iusb_sys_scheme) option" where
  "FormiUsbScsiPacket p m lun s =
     do { dtype \<leftarrow> device_type m lun;
          let cbw = CBW m; cb = CBWCB cbw;
              p0 = p\<lparr>TagNo := dCBWTag cbw, CommandPkt := take 12 cb, StatusPkt := drop 12 cb\<rparr>
          in do { (p1, out, err) \<leftarrow> form_body dtype m p0 (DataOutLen s);
                  let (flag, out', tc) = (if err then error_case cbw (DataDir p1) out (TestCase s) else (0, out, TestCase s));
                      len = of_nat (sizeof_PACKET - 1) + DataLen p1;
                      (h, seq) = FormiUsbHeader (len - of_nat sizeof_HEADER) (dev_no s) (if_no s) dtype IUSB_PROTO_SCSI (iusb_seq s)
                  in Some (len, p1\<lparr>Header := h\<rparr>,
                       s\<lparr>CBWErrorOccur := flag, DataOutLen := out', TestCase := tc, iusb_seq := seq,
                         mass := Some (m\<lparr>LastSeqNo := SeqNo h\<rparr>)\<rparr>) } }"

section \<open>The slots of the remote servers\<close>

text \<open>
  The operations of iusb-hdisk.c and iusb-cdrom.c are the same up to the array: a slot is taken, given
  back, activated and deactivated by the server, which waits in \<open>RemoteWaitRequest\<close> for a packet.
  \<open>FirstTime\<close> only initialises the wait queues and is taken to have done so.
\<close>

fun first_free :: "nat \<Rightarrow> slot list \<Rightarrow> nat option" where
  "first_free i [] = None"
| "first_free i (x # xs) = (if \<not> s_used x then Some i else first_free (Suc i) xs)"

definition GetInstanceIndex :: "slot list \<Rightarrow> int \<times> slot list" where
  "GetInstanceIndex xs =
     (case first_free 0 xs of
        None \<Rightarrow> (- 1, xs)
      | Some i \<Rightarrow> (int i, xs[i := (xs ! i)\<lparr>s_used := True\<rparr>]))"

definition ReleaseInstanceIndex :: "nat \<Rightarrow> slot list \<Rightarrow> int \<times> slot list" where
  "ReleaseInstanceIndex n xs =
     (if length xs \<le> n then (- 1, xs)
      else (0, xs[n := (if s_active (xs ! n) then (xs ! n)\<lparr>s_used := False, s_active := False, s_req := False\<rparr>
                        else (xs ! n)\<lparr>s_used := False\<rparr>)]))"

definition RemoteActivate :: "nat \<Rightarrow> slot list \<Rightarrow> int \<times> slot list" where
  "RemoteActivate n xs =
     (if length xs \<le> n then (- 1, xs)
      else (0, xs[n := (xs ! n)\<lparr>s_active := True, s_wakeup := False, s_req := True\<rparr>]))"

definition RemoteDeactivate :: "nat \<Rightarrow> slot list \<Rightarrow> int \<times> slot list" where
  "RemoteDeactivate n xs =
     (if length xs \<le> n then (- 1, xs)
      else (1, xs[n := (xs ! n)\<lparr>s_active := False, s_req := False\<rparr>]))"

definition RemoteCall :: "nat \<Rightarrow> slot list \<Rightarrow> int \<times> slot list" where
  "RemoteCall n xs = (if length xs \<le> n then (- 1, xs) else (0, xs[n := (xs ! n)\<lparr>s_wakeup := True\<rparr>]))"

definition wait_cond :: "slot \<Rightarrow> bool" where "wait_cond x \<longleftrightarrow> s_wakeup x \<or> \<not> s_active x"

definition EINVAL :: int where "EINVAL = 22"
definition EPIPE :: int where "EPIPE = 32"

text \<open>What happens once the wait is over: \<open>signal\<close> when it was interrupted. The packet is copied to the server.\<close>

definition RemoteWaitRequest :: "bool \<Rightarrow> nat \<Rightarrow> slot list \<Rightarrow> (int \<times> iusb_pkt option \<times> slot list) option" where
  "RemoteWaitRequest signal n xs =
     (if length xs \<le> n then Some (- EINVAL, None, xs)
      else if signal then Some (- EINTR, None, xs)
      else let x = (xs ! n)\<lparr>s_wakeup := False\<rparr>
           in if \<not> s_active x then Some (- EPIPE, None, xs[n := x])
              else if length (Data (s_pkt x)) < unat (DataLen (s_pkt x)) then None
              else Some (0, Some (s_pkt x), xs[n := x\<lparr>s_req := True\<rparr>]))"

section \<open>The remote call\<close>

definition supported_hdisk :: "u8 \<Rightarrow> bool" where
  "supported_hdisk op \<longleftrightarrow> op \<in> {0x00, 0x25, 0x23, 0x28, 0x2F, 0x2A, 0x2E, 0x1E, 0x1B, 0x5A, 0x1A, 0xA8, 0xAA, 0x4A}"

definition supported_cdrom :: "u8 \<Rightarrow> bool" where
  "supported_cdrom op \<longleftrightarrow> op \<in> {0x00, 0x25, 0x28, 0x43, 0x1B, 0x1E, 0xA8, 0x4A}"

definition ISAMICMD :: "u8 \<Rightarrow> bool" where "ISAMICMD op \<longleftrightarrow> op AND 0xE0 = 0xE0"

text \<open>Whether the command may go to the server; otherwise the sense code says why not.\<close>

definition HdiskCheckSupportedCmd :: "u8 \<Rightarrow> nat \<Rightarrow> 'a iusb_sys_scheme \<Rightarrow> (bool \<times> 'a iusb_sys_scheme) option" where
  "HdiskCheckSupportedCmd op n s =
     (if MAX_HDISK_INSTANCE \<le> n then Some (False, s)
      else if \<not> supported_hdisk op then Some (False, BotSetScsiErrorCode 0x05 0x20 0x00 s)
      else if \<not> s_active (hdisk s ! n)
      then (let s1 = BotSetScsiErrorCode 0x02 0x3A 0x00 s
            in case mass s1 of
                None \<Rightarrow> None
              | Some m \<Rightarrow>
                  do { e \<leftarrow> arr_get (EventStatus m) n;
                       s2 \<leftarrow> (if e ! 5 = 0x02 then BotSetScsiEventStatus (of_nat n) 0x03 0x01 s1 else Some s1);
                       Some (False, s2) })
      else Some (True, s))"

definition CdromCheckSupportedCmd :: "u8 \<Rightarrow> nat \<Rightarrow> 'a iusb_sys_scheme \<Rightarrow> bool \<times> 'a iusb_sys_scheme" where
  "CdromCheckSupportedCmd op n s =
     (if MAX_CDROM_INSTANCE \<le> n then (False, s)
      else if \<not> supported_cdrom op
      then (if ISAMICMD op then (True, s) else (False, BotSetScsiErrorCode 0x05 0x20 0x00 s))
      else if \<not> s_active (cdrom s ! n) then (False, BotSetScsiErrorCode 0x02 0x3A 0x00 s)
      else (True, s))"

definition ProcessVendorCommands :: "bot_if \<Rightarrow> u8 \<Rightarrow> 'a iusb_sys_scheme \<Rightarrow> (int \<times> 'a iusb_sys_scheme) option" where
  "ProcessVendorCommands m lun s =
     (if \<not> s_req (vendor s) then Some (1, s)
      else do { (len, p, s1) \<leftarrow> FormiUsbScsiPacket (s_pkt (vendor s)) m lun s;
                Some (if len = 1 then (1, s1\<lparr>vendor := (vendor s1)\<lparr>s_pkt := p\<rparr>\<rparr>)
                      else (0, s1\<lparr>vendor := (vendor s1)\<lparr>s_pkt := p, s_wakeup := True\<rparr>, vendor_exit := False\<rparr>)) })"

definition CdromCall :: "bot_if \<Rightarrow> u8 \<Rightarrow> nat \<Rightarrow> 'a iusb_sys_scheme \<Rightarrow> (int \<times> 'a iusb_sys_scheme) option" where
  "CdromCall m lun n s =
     (let cb = CBWCB (CBW m); (ok, s1) = CdromCheckSupportedCmd (OpCode cb) n s
      in if \<not> ok then Some (1, s1)
         else if ISAMICMD (OpCode cb) then ProcessVendorCommands m (cb ! 1) s1
         else if \<not> s_req (cdrom s1 ! n) then Some (1, s1)
         else do { (len, p, s2) \<leftarrow> FormiUsbScsiPacket (s_pkt (cdrom s1 ! n)) m lun s1;
                   let s3 = s2\<lparr>cdrom := (cdrom s2)[n := (cdrom s2 ! n)\<lparr>s_pkt := p\<rparr>]\<rparr>
                   in Some (if len = 1 then (1, s3)
                            else (let (r, xs) = RemoteCall n (cdrom s3) in (r, s3\<lparr>cdrom := xs\<rparr>))) })"

text \<open>A phase error of the hard disk is answered here, without the server.\<close>

definition HdiskCall ::
  "('a iusb_sys_scheme) bot_env \<Rightarrow> bot_if \<Rightarrow> u8 \<Rightarrow> nat \<Rightarrow> 'a iusb_sys_scheme \<Rightarrow> (int \<times> 'a iusb_sys_scheme) option" where
  "HdiskCall env m lun n s =
     do { (ok, s1) \<leftarrow> HdiskCheckSupportedCmd (OpCode (CBWCB (CBW m))) n s;
          if \<not> ok then Some (1, s1)
          else if \<not> s_req (hdisk s1 ! n) then Some (1, s1)
          else do { (len, p, s2) \<leftarrow> FormiUsbScsiPacket (s_pkt (hdisk s1 ! n)) m lun s1;
                    let s3 = s2\<lparr>hdisk := (hdisk s2)[n := (hdisk s2 ! n)\<lparr>s_pkt := p\<rparr>]\<rparr>
                    in if len = 1 then Some (1, s3)
                       else if CBWErrorOccur s3 = 2
                       then do { (r, s4) \<leftarrow> BotSendCSW env (TagNo p) CSW_PHASE_ERROR
                                   (if DataDir p = WRITE_DEVICE then DataLen p else ReadLen p)
                                   (s3\<lparr>CBWErrorOccur := 0, TestCase := NO_ERRORCASE\<rparr>);
                                 Some (0, s4) }
                       else (let (r, xs) = RemoteCall n (hdisk s3) in Some (r, s3\<lparr>hdisk := xs\<rparr>)) } }"

definition RemoteScsiCall ::
  "('a iusb_sys_scheme) bot_env \<Rightarrow> nat \<Rightarrow> u8 \<Rightarrow> 'a iusb_sys_scheme \<Rightarrow> (int \<times> 'a iusb_sys_scheme) option" where
  "RemoteScsiCall env n lun s =
     (case mass s of
        None \<Rightarrow> None
      | Some m \<Rightarrow>
          do { t \<leftarrow> device_type m lun;
               if t AND 0x7F = IUSB_DEVICE_CDROM then CdromCall m lun n s
               else if t AND 0x7F = IUSB_DEVICE_HARDDISK then HdiskCall env m lun n s
               else Some (1, BotSetScsiErrorCode 0x05 0x20 0x00 s) })"

section \<open>The response of the server\<close>

text \<open>
  The response is copied to a global buffer: the structure with the first byte of the data it ends
  with, then the data in the length it gives itself. Memory of the server that cannot be read only
  shortens the copy.
\<close>

definition copy_scsi_response :: "iusb_pkt \<Rightarrow> iusb_pkt \<Rightarrow> iusb_pkt option" where
  "copy_scsi_response k u =
     (let n = unat (DataLen u); d = take (max 1 n) (Data u)
      in if length (Data k) < n then None else Some (u\<lparr>Data := d @ drop (length d) (Data k)\<rparr>))"

definition OverallStatus :: "iusb_pkt \<Rightarrow> u8" where "OverallStatus p = StatusPkt p ! 0"

text \<open>Data of the server, then the status with what remains of the length the host asked for.\<close>

definition send_read_response :: "('a iusb_sys_scheme) bot_env \<Rightarrow> iusb_pkt \<Rightarrow> 'a iusb_sys_scheme \<Rightarrow> (int \<times> 'a iusb_sys_scheme) option" where
  "send_read_response env p s =
     (let ok = OverallStatus p = 0; rd = OpCode (CommandPkt p) \<in> {SCSI_READ_10, SCSI_READ_12}
      in do { (v, remain, s1) \<leftarrow>
                (if DataLen p \<noteq> 0 \<and> ok
                 then BotSendData env (Data p) (DataLen p) (ReadLen p) (if rd then video_call 1 s else s)
                 else Some (0, ReadLen p, s));
              (r, s2) \<leftarrow> BotSendCSW env (TagNo p) (if ok then CSW_PASSED else CSW_FAILED) remain s1;
              Some (if r = 0 \<and> v = 0 then 0 else 1, if rd then video_call 0 s2 else s2) })"

definition ScsiSendResponse ::
  "('a iusb_sys_scheme) bot_env \<Rightarrow> iusb_pkt \<Rightarrow> 'a iusb_sys_scheme \<Rightarrow> (int \<times> 'a iusb_sys_scheme) option" where
  "ScsiSendResponse env u s =
     (let cd = DeviceType (Header u) AND 0x7F = IUSB_DEVICE_CDROM
      in do { p \<leftarrow> copy_scsi_response (if cd then gKernelModePktCD s else gKernelModePktHD s) u;
              let s1 = (if cd then s\<lparr>gKernelModePktCD := p\<rparr> else s\<lparr>gKernelModePktHD := p\<rparr>)
              in case mass s1 of
                  None \<Rightarrow> Some (1, s1)
                | Some m \<Rightarrow>
                    if LastSeqNo m \<noteq> SeqNo (Header p) then Some (0, s1)
                    else let s2 = BotSetScsiErrorCode (StatusPkt p ! 1) (StatusPkt p ! 2) (StatusPkt p ! 3)
                                    (s1\<lparr>mass := Some (m\<lparr>LastSeqNo := 0\<rparr>)\<rparr>)
                         in if CBWErrorOccur s2 = 1
                            then BotSendCSW env (TagNo p) CSW_FAILED (DataOutLen s2)
                                   (s2\<lparr>CBWErrorOccur := 0, TestCase := NO_ERRORCASE\<rparr>)
                            else if DataDir p = WRITE_DEVICE
                            then BotSendCSW env (TagNo p) (if OverallStatus p \<noteq> 0 then CSW_FAILED else CSW_PASSED) 0 s2
                            else send_read_response env p s2 })"

end
