(* ===== verification/UsbSample.thy ===== *)
theory UsbSample imports UsbCoreProps IusbScsi begin

text \<open>
  A device with one endpoint in each direction and one disk whose server is waiting, and three command
  blocks, at which the properties of the virtual mass storage devices are applied.
\<close>

unbundle bit_operations_syntax

definition sample_out :: "u8 list \<Rightarrow> endpoint" where
  "sample_out rx = \<lparr>EpUsed = True, EpNum = 1, Dir = DIR_OUT, Enabled = True, Interface = 0, MaxPacketSize = 64, FifoSize = 128,
     RxData = Some (rx @ replicate (512 - length rx) 0), RxDataLen = of_nat (length rx),
     TxData = None, TxDataLen = 0, TxDataPos = 0, TxZeroLenPkt = False, TxReady = True\<rparr>"

definition sample_in :: endpoint where
  "sample_in = \<lparr>EpUsed = True, EpNum = 2, Dir = DIR_IN, Enabled = True, Interface = 0, MaxPacketSize = 64, FifoSize = 128, RxData = None, RxDataLen = 0,
     TxData = None, TxDataLen = 0, TxDataPos = 0, TxZeroLenPkt = False, TxReady = True\<rparr>"

definition sample_usb :: "u8 list \<Rightarrow> usb_dev" where
  "sample_usb rx = \<lparr>EndPoint = [sample_out rx, sample_in], CfgIndex = 1, Suspend = False, BlockingSend = False,
     IsDevHid = False, EpMultipleDMASupport = False, EpMultipleDMASize = 0, wire = [], stalls = []\<rparr>"

lemma sample_usb_tx: "tx_endpoint (sample_usb rx) 2 (Suc 0) 64"
  by (simp add: tx_endpoint_def sample_usb_def sample_in_def sample_out_def GetEndPointIndex_def max_size_def
      DIR_IN_def DIR_OUT_def CONFIGURABLE_def)

text \<open>Wrappers of a read and a write of one block and of an inquiry.\<close>

definition sample_wrapper :: "u8 \<Rightarrow> u8 \<Rightarrow> u8 \<Rightarrow> u8 \<Rightarrow> u8 \<Rightarrow> u8 list" where
  "sample_wrapper len flags lun op blocks = [0x55, 0x53, 0x42, 0x43, 0x34, 0x12, 0, 0, 0, len, 0, 0, flags, lun, 10,
     op, 0, 0, 0, 0, 0, 0, 0, blocks, 0, 0, 0, 0, 0, 0, 0]"

definition sample_if :: "u8 list \<Rightarrow> bot_if" where
  "sample_if cbw = \<lparr>CBW = cbw, ScsiData = replicate MAX_SCSI_DATA 0, ScsiDataLen = 0, UnHalted = True, SenseKey = 0,
     SenseCode = 0, SenseCodeQ = 0, NoMediumRetries = 10, Inquiry = [replicate sizeof_INQUIRY 0],
     EventStatus = [replicate sizeof_EVENT_STATUS 0], ScsiDataOutLen = 0, LastSeqNo = 0\<rparr>"

definition sample_pkt :: iusb_pkt where
  "sample_pkt = \<lparr>Header = fst (FormiUsbHeader 0 0 0 0 0 0), ReadLen = 0, TagNo = 0, DataDir = 0, CommandPkt = replicate 12 0,
     StatusPkt = replicate 4 0, DataLen = 0, Data = replicate MAX_SCSI_DATA 0\<rparr>"

definition sample_slot :: slot where
  "sample_slot = \<lparr>s_used = True, s_active = True, s_wakeup = False, s_req = True, s_pkt = sample_pkt\<rparr>"

definition sample_iusb :: "u8 list \<Rightarrow> u8 list \<Rightarrow> iusb_sys" where
  "sample_iusb rx cbw = \<lparr>udev = sample_usb rx, mass = Some (sample_if cbw), WakeupFlag = False, dpc = False, DataInEp = 2, MaxLUN = 0,
     video = None, dev_no = 0, if_no = 0, TestCase = NO_ERRORCASE, CBWErrorOccur = 0, DataOutLen = 0, iusb_seq = 1,
     hdisk = replicate MAX_HDISK_INSTANCE sample_slot, cdrom = replicate MAX_CDROM_INSTANCE sample_slot,
     vendor = sample_slot, vendor_exit = False, gKernelModePktCD = sample_pkt, gKernelModePktHD = sample_pkt\<rparr>"

end
