(* ===== verification/UsbProps.thy ===== *)
theory UsbProps imports UsbSample begin

text \<open>
  The properties of the virtual mass storage devices: what a transfer, a command block wrapper and a
  whole transaction of the Bulk-Only Transport do, with a host that takes packets and clears stalls,
  and a remote server that answers.
\<close>

unbundle bit_operations_syntax

section \<open>A host and a device in order\<close>

text \<open>The host takes up to \<open>k\<close> packets of a transfer, and clears a stall.\<close>

definition obliging_host :: "nat \<Rightarrow> 'a bot_sys_scheme bot_env" where
  "obliging_host k = \<lparr>tx_sleep = host_takes k, halt_sleep = \<lambda>s. (1, BotUnHaltHandler s)\<rparr>"

definition can_send :: "'a bot_sys_scheme \<Rightarrow> nat \<Rightarrow> nat \<Rightarrow> bool" where
  "can_send s i m \<longleftrightarrow> tx_endpoint (udev s) (DataInEp s) i m"

definition on_wire :: "u8 \<Rightarrow> u8 list list \<Rightarrow> 'a bot_sys_scheme \<Rightarrow> 'a bot_sys_scheme \<Rightarrow> bool" where
  "on_wire ep ps s s' \<longleftrightarrow> wire (udev s') = wire (udev s) @ map (Pair ep) ps"

lemma bot_write_sends:
  assumes "can_send s i m" "unat len \<le> length b" "len \<noteq> 0 \<or> z" "length (usb_packets m z (take (unat len) b)) \<le> k"
  shows "bot_write (obliging_host k) (DataInEp s) b len z s
    = Some (0, s\<lparr>udev := tx_sent (DataInEp s) i None len z len True (usb_packets m z (take (unat len) b)) (udev s)\<rparr>)"
  using UsbWriteData_packets [of "udev s" "DataInEp s" i m len b z k] assms
  by (simp add: bot_write_def obliging_host_def can_send_def)

lemma csw_length [simp]: "length (csw_bytes tag st r) = 13"
  by (simp add: csw_bytes_def bytes32_def)

lemma csw_packets: "13 < m \<Longrightarrow> usb_packets m True (csw_bytes tag st r) = [csw_bytes tag st r]"
  by (rule usb_packets_last) auto

text \<open>The state after a stall the host clears, and after the status.\<close>

definition stalled :: "'a bot_sys_scheme \<Rightarrow> 'a bot_sys_scheme" where
  "stalled s = (set_mass (\<lambda>m. m\<lparr>UnHalted := True\<rparr>) s)\<lparr>udev := UsbStallEp (DataInEp s) DIR_IN (udev s)\<rparr>"

lemma BotStall_obliging: "BotStall (obliging_host k) s = stalled s"
  by (cases "mass s")
    (simp_all add: BotStall_def obliging_host_def set_mass_def Let_def BotUnHaltHandler_def stalled_def)

lemma can_send_stalled: "can_send s i m \<Longrightarrow> can_send (stalled s) i m"
  by (simp add: can_send_def stalled_def set_mass_def UsbStallEp_def tx_endpoint_def GetEndPointIndex_def max_size_def
      split: if_splits)

definition csw_sent :: "nat \<Rightarrow> u8 list \<Rightarrow> 'a bot_sys_scheme \<Rightarrow> 'a bot_sys_scheme" where
  "csw_sent i csw s =
     s\<lparr>udev := tx_sent (DataInEp s) i None MAX_CSW_LENGTH True MAX_CSW_LENGTH True [csw] (udev s)\<rparr>"

lemma BotSendCSW_obliging:
  assumes s: "can_send s i m" and m: "13 < m" and k: "0 < k" and x: "mass s \<noteq> None"
  shows "BotSendCSW (obliging_host k) tag st r s
    = Some (0, csw_sent i (csw_bytes tag st r) (if r \<noteq> 0 then stalled s else s))"
proof -
  let ?s = "if r \<noteq> 0 then stalled s else s"
  have c: "can_send ?s i m" using s can_send_stalled by auto
  have e: "DataInEp ?s = DataInEp s" by (simp add: stalled_def set_mass_def)
  have "bot_write (obliging_host k) (DataInEp ?s) (csw_bytes tag st r) MAX_CSW_LENGTH True ?s
      = Some (0, csw_sent i (csw_bytes tag st r) ?s)"
    unfolding csw_sent_def using m k
    by (subst bot_write_sends [OF c]) (auto simp: csw_packets MAX_CSW_LENGTH_def)
  then show ?thesis using x e by (cases "r = 0") (auto simp: BotSendCSW_def BotStall_obliging)
qed

section \<open>A command of the host\<close>

text \<open>A well-formed wrapper of a read, and what the transport has received.\<close>

definition cbw_ok :: "u8 list \<Rightarrow> bool" where
  "cbw_ok cbw \<longleftrightarrow> dCBWSignature cbw = CBW_SIGNATURE \<and> bCBWCBLength cbw \<le> 16"

definition usb_received :: "u8 \<Rightarrow> u8 list \<Rightarrow> usb_dev \<Rightarrow> bool" where
  "usb_received ep pkt d \<longleftrightarrow>
     (\<exists>rx. UsbGetRxData ep d = Some rx \<and> length pkt \<le> length rx \<and> take (length pkt) rx = pkt) \<and>
     UsbGetRxDataLen ep d = of_nat (length pkt)"

text \<open>The array for the wrapper has one byte more, which stays.\<close>

definition stored :: "u8 list \<Rightarrow> bot_if \<Rightarrow> u8 list" where
  "stored cbw f = cbw @ drop 31 (CBW f)"

lemma stored_fields [simp]:
  assumes "length cbw = 31"
  shows "dCBWSignature (stored cbw f) = dCBWSignature cbw" "dCBWTag (stored cbw f) = dCBWTag cbw"
    "dCBWDataTransferLength (stored cbw f) = dCBWDataTransferLength cbw" "bmCBWFlags (stored cbw f) = bmCBWFlags cbw"
    "bCBWLUN (stored cbw f) = bCBWLUN cbw" "bCBWCBLength (stored cbw f) = bCBWCBLength cbw" "CBWCB (stored cbw f) = CBWCB cbw"
  using assms
  by (simp_all add: stored_def dCBWSignature_def dCBWTag_def dCBWDataTransferLength_def bmCBWFlags_def bCBWLUN_def
      bCBWCBLength_def CBWCB_def le32_at_def nth_append)

lemma cbw_ok_stored [simp]: "length cbw = 31 \<Longrightarrow> cbw_ok (stored cbw f) = cbw_ok cbw"
  by (simp add: cbw_ok_def)

lemma BotReadCBW_ok:
  assumes "cbw_ok cbw" "length cbw = 31" "usb_received ep cbw d" "length (CBW m) = 32"
  shows "BotReadCBW ep d m = Some (True, m\<lparr>CBW := stored cbw m\<rparr>)"
proof -
  obtain rx where rx: "UsbGetRxData ep d = Some rx" "31 \<le> length rx" "take 31 rx = cbw"
    using assms(2,3) by (auto simp: usb_received_def)
  have l: "UsbGetRxDataLen ep d = 31" using assms(2,3) by (simp add: usb_received_def)
  have w: "memcpy_at (CBW m) 0 rx 31 = Some (stored cbw m)"
    using rx assms(4) by (simp add: memcpy_at_def stored_def)
  have "unat (bCBWCBLength cbw) \<le> 16" using assms(1) by (simp add: cbw_ok_def word_le_nat_alt)
  moreover have "dCBWSignature cbw = CBW_SIGNATURE" using assms(1) by (simp add: cbw_ok_def)
  ultimately show ?thesis
    using rx(1) l w assms(2) by (simp add: BotReadCBW_def MAX_CBW_LENGTH_def)
qed

text \<open>A read from the disk, and one that the wrapper and the command describe alike.\<close>

definition disk_read_cmd :: "u8 \<Rightarrow> u8 list \<Rightarrow> bool" where
  "disk_read_cmd t cbw \<longleftrightarrow> cbw_ok cbw \<and> bmCBWFlags cbw AND 0x80 \<noteq> 0 \<and> OpCode (CBWCB cbw) = SCSI_READ_10 \<and>
     t AND 0x7F = IUSB_DEVICE_HARDDISK"

definition disk_read :: "u8 \<Rightarrow> u8 list \<Rightarrow> bool" where
  "disk_read t cbw \<longleftrightarrow> disk_read_cmd t cbw \<and> block_bytes t (CBWCB cbw) 0 = dCBWDataTransferLength cbw"

text \<open>The disk \<open>n\<close> with a server that waits for a command.\<close>

definition disk_ready :: "nat \<Rightarrow> 'a iusb_sys_scheme \<Rightarrow> bool" where
  "disk_ready n s \<longleftrightarrow> n < MAX_HDISK_INSTANCE \<and> length (hdisk s) = MAX_HDISK_INSTANCE \<and>
     s_active (hdisk s ! n) \<and> s_req (hdisk s ! n)"

lemma disk_read_cmd_stored [simp]: "length cbw = 31 \<Longrightarrow> disk_read_cmd t (stored cbw f) = disk_read_cmd t cbw"
  by (simp add: disk_read_cmd_def)

lemma BotRxHandler_read:
  assumes "disk_read_cmd t cbw" "length cbw = 31" "usb_received ep cbw (udev s)" "mass s = Some f" "length (CBW f) = 32"
    "ScsiDataOutLen f = 0"
  shows "BotRxHandler ep s = Some (BotQueueDPC (s\<lparr>mass := Some (f\<lparr>CBW := stored cbw f\<rparr>)\<rparr>))"
  using assms BotReadCBW_ok [of cbw ep "udev s" f]
  by (simp add: BotRxHandler_def BotRxCommand_def disk_read_cmd_def Let_def)

text \<open>The packet the server is given.\<close>

definition read_request :: "u8 \<Rightarrow> u8 list \<Rightarrow> 'a iusb_sys_scheme \<Rightarrow> iusb_pkt \<Rightarrow> iusb_pkt" where
  "read_request t cbw s old =
     old\<lparr>Header := fst (FormiUsbHeader 29 (dev_no s) (if_no s) t IUSB_PROTO_SCSI (iusb_seq s)),
         ReadLen := dCBWDataTransferLength cbw, TagNo := dCBWTag cbw, DataDir := READ_DEVICE,
         CommandPkt := take 12 (CBWCB cbw), StatusPkt := drop 12 (CBWCB cbw), DataLen := 0\<rparr>"

text \<open>What the comparison of the two lengths gives: the error flag, the residue and the case.\<close>

definition read_verdict :: "u8 \<Rightarrow> u8 list \<Rightarrow> errorcase \<Rightarrow> u8 \<times> u32 \<times> errorcase" where
  "read_verdict t cbw tc =
     (let b = block_bytes t (CBWCB cbw) 0
      in if b \<noteq> dCBWDataTransferLength cbw then error_case cbw READ_DEVICE b tc else (0, b, tc))"

lemma form_body_read:
  assumes "disk_read_cmd t (CBW f)" "OpCode (CommandPkt p) = SCSI_READ_10"
  shows "form_body t f p out
    = Some (p\<lparr>DataDir := READ_DEVICE, ReadLen := dCBWDataTransferLength (CBW f), DataLen := 0\<rparr>,
        block_bytes t (CBWCB (CBW f)) 0, block_bytes t (CBWCB (CBW f)) 0 \<noteq> dCBWDataTransferLength (CBW f))"
proof -
  have "block_bytes t (CBWCB (CBW f)) out = block_bytes t (CBWCB (CBW f)) 0"
    using assms by (auto simp: disk_read_cmd_def block_bytes_def Let_def)
  then show ?thesis
    using assms by (simp add: form_body_def Let_def disk_read_cmd_def SCSI_READ_10_def SCSI_WRITE_10_def)
qed

definition asked_s :: "u8 \<times> u32 \<times> errorcase \<Rightarrow> u8 \<Rightarrow> bot_if \<Rightarrow> 'a iusb_sys_scheme \<Rightarrow> 'a iusb_sys_scheme" where
  "asked_s v t f s =
     s\<lparr>CBWErrorOccur := fst v, DataOutLen := fst (snd v), TestCase := snd (snd v),
       iusb_seq := snd (FormiUsbHeader 29 (dev_no s) (if_no s) t IUSB_PROTO_SCSI (iusb_seq s)),
       mass := Some (f\<lparr>LastSeqNo := iusb_seq s\<rparr>)\<rparr>"

lemma FormiUsbScsiPacket_read:
  assumes "disk_read_cmd t (CBW f)" "device_type f lun = Some t"
  shows "FormiUsbScsiPacket p f lun s
    = Some (61, read_request t (CBW f) s p, asked_s (read_verdict t (CBW f) (TestCase s)) t f s)"
proof -
  have o: "OpCode (take 12 (CBWCB (CBW f))) = SCSI_READ_10"
    using assms(1) by (simp add: disk_read_cmd_def OpCode_def)
  have h: "SeqNo (fst (FormiUsbHeader 29 (dev_no s) (if_no s) t IUSB_PROTO_SCSI (iusb_seq s))) = iusb_seq s"
    by (simp add: FormiUsbHeader_def Let_def)
  show ?thesis
    using assms(2) o h
    by (simp add: FormiUsbScsiPacket_def form_body_read [OF assms(1)] Let_def sizeof_PACKET_def
        sizeof_HEADER_def read_request_def case_prod_beta asked_s_def read_verdict_def)
qed

text \<open>The disk's slot with the packet of the read, its server woken or not.\<close>

definition asked :: "u8 \<times> u32 \<times> errorcase \<Rightarrow> bool \<Rightarrow> nat \<Rightarrow> u8 \<Rightarrow> bot_if \<Rightarrow> 'a iusb_sys_scheme \<Rightarrow> 'a iusb_sys_scheme" where
  "asked v wake n t f s = (asked_s v t f s)\<lparr>hdisk := (hdisk s)[n := (hdisk s ! n)\<lparr>s_pkt := read_request t (CBW f) s (s_pkt (hdisk s ! n)),
      s_wakeup := wake \<or> s_wakeup (hdisk s ! n)\<rparr>]\<rparr>"

lemma RemoteScsiCall_read:
  assumes r: "disk_read_cmd t (CBW f)" and t: "device_type f lun = Some t" and f: "mass s = Some f"
    and d: "disk_ready n s"
  shows "fst (read_verdict t (CBW f) (TestCase s)) \<noteq> 2 \<Longrightarrow>
      RemoteScsiCall env n lun s = Some (0, asked (read_verdict t (CBW f) (TestCase s)) True n t f s)"
    and "fst (read_verdict t (CBW f) (TestCase s)) = 2 \<Longrightarrow>
      RemoteScsiCall env n lun s = do { (r, s4) \<leftarrow> BotSendCSW env (dCBWTag (CBW f)) CSW_PHASE_ERROR (dCBWDataTransferLength (CBW f))
            ((asked (read_verdict t (CBW f) (TestCase s)) False n t f s)\<lparr>CBWErrorOccur := 0, TestCase := NO_ERRORCASE\<rparr>);
          Some (0, s4) }"
proof -
  have h: "t AND 0x7F = IUSB_DEVICE_HARDDISK" "OpCode (CBWCB (CBW f)) = SCSI_READ_10"
    using r by (auto simp: disk_read_cmd_def)
  have c: "HdiskCheckSupportedCmd (OpCode (CBWCB (CBW f))) n s = Some (True, s)"
    using d h(2) by (simp add: HdiskCheckSupportedCmd_def disk_ready_def supported_hdisk_def SCSI_READ_10_def)
  have n: "n < length (hdisk s)" using d by (simp add: disk_ready_def)
  have e: "RemoteScsiCall env n lun s = HdiskCall env f lun n s"
    using f t h by (simp add: RemoteScsiCall_def IUSB_DEVICE_HARDDISK_def IUSB_DEVICE_CDROM_def)
  show "RemoteScsiCall env n lun s = Some (0, asked (read_verdict t (CBW f) (TestCase s)) True n t f s)"
    if "fst (read_verdict t (CBW f) (TestCase s)) \<noteq> 2"
    unfolding e using d n that
    by (simp add: HdiskCall_def c FormiUsbScsiPacket_read [OF r t] disk_ready_def Let_def RemoteCall_def asked_def asked_s_def)
  show "RemoteScsiCall env n lun s = do { (r, s4) \<leftarrow> BotSendCSW env (dCBWTag (CBW f)) CSW_PHASE_ERROR (dCBWDataTransferLength (CBW f))
            ((asked (read_verdict t (CBW f) (TestCase s)) False n t f s)\<lparr>CBWErrorOccur := 0, TestCase := NO_ERRORCASE\<rparr>);
          Some (0, s4) }"
    if "fst (read_verdict t (CBW f) (TestCase s)) = 2"
    unfolding e using d n that
    by (simp add: HdiskCall_def c FormiUsbScsiPacket_read [OF r t] disk_ready_def Let_def asked_def asked_s_def
        read_request_def READ_DEVICE_def WRITE_DEVICE_def)
qed

lemmas scsi_codes = SCSI_TEST_UNIT_READY_def SCSI_REQUEST_SENSE_def SCSI_INQUIRY_def SCSI_MEDIUM_REMOVAL_def
  SCSI_READ_10_def SCSI_WRITE_10_def SCSI_READ_FORMAT_CAPACITIES_def SCSI_SEEK_def SCSI_SYNC_CACHE_def
  SCSI_GET_NOTIFICATION_STATUS_def SCSI_READ_12_def SCSI_WRITE_12_def SCSI_SET_CD_SPEED_def

lemma BotProcessHandler_remote:
  assumes "mass s = Some f" "OpCode (CBWCB (CBW f)) \<in> {SCSI_READ_10, SCSI_WRITE_10}"
    "remote (bCBWLUN (CBW f)) s = Some (0, s')"
  shows "BotProcessHandler env remote s = Some s'"
  using assms by (auto simp: BotProcessHandler_def Let_def scsi_codes)

lemma read_stored [simp]:
  assumes "length cbw = 31"
  shows "read_verdict t (stored cbw f) tc = read_verdict t cbw tc" "read_request t (stored cbw f) s p = read_request t cbw s p"
  using assms by (simp_all add: read_verdict_def error_case_def Let_def read_request_def)

section \<open>The answer of the server\<close>

text \<open>The server answers with the packet it was given, the data and a status.\<close>

definition server_reply :: "iusb_pkt \<Rightarrow> u8 list \<Rightarrow> u8 list \<Rightarrow> iusb_pkt" where
  "server_reply p st dat = p\<lparr>StatusPkt := st, DataLen := of_nat (length dat), Data := dat\<rparr>"

lemma video_call_sels [simp]:
  "udev (video_call n s) = udev s" "mass (video_call n s) = mass s" "DataInEp (video_call n s) = DataInEp s"
  "CBWErrorOccur (video_call n t) = CBWErrorOccur t"
  by (simp_all add: video_call_def)

lemma set_mass_sels [simp]:
  "udev (set_mass f s) = udev s" "DataInEp (set_mass f s) = DataInEp s" "mass (set_mass f s) = map_option f (mass s)"
  by (simp_all add: set_mass_def)

lemma can_send_sent:
  "can_send s i m \<Longrightarrow> udev s' = tx_sent (DataInEp s) i buf len z pos ready ps (udev s) \<Longrightarrow>
   DataInEp s' = DataInEp s \<Longrightarrow> can_send s' i m"
  using tx_endpoint_sent by (simp add: can_send_def)

definition video_if :: "bool \<Rightarrow> nat \<Rightarrow> 'a bot_sys_scheme \<Rightarrow> 'a bot_sys_scheme" where
  "video_if b n s = (if b then video_call n s else s)"

lemma video_if_sels [simp]:
  "udev (video_if b n s) = udev s" "mass (video_if b n s) = mass s" "DataInEp (video_if b n s) = DataInEp s"
  by (simp_all add: video_if_def)

lemma send_read_response_data:
  assumes s: "can_send s i m" and m: "13 < m" and x: "mass s = Some f" and st: "OverallStatus p = 0"
    and n: "0 < n" "n \<le> length (Data p)" "DataLen p = of_nat n" "n \<le> unat (ReadLen p)" and k: "n div m < k"
  shows "\<exists>s'. send_read_response (obliging_host k) p s = Some (0, s') \<and>
    on_wire (DataInEp s) (usb_packets m False (take n (Data p)) @ [csw_bytes (TagNo p) CSW_PASSED (ReadLen p - of_nat n)]) s s' \<and>
    mass s' = Some (if n < unat (ReadLen p) then f\<lparr>UnHalted := True\<rparr> else f)"
proof -
  let ?rd = "OpCode (CommandPkt p) \<in> {SCSI_READ_10, SCSI_READ_12}"
  let ?ps = "usb_packets m False (take n (Data p))"
  let ?s0 = "video_if ?rd 1 s"
  let ?s1 = "?s0\<lparr>udev := tx_sent (DataInEp s) i None (DataLen p) False (DataLen p) True ?ps (udev s)\<rparr>"
  have u: "unat (DataLen p) = n" using n(3,4) unat_lt_32 [of "ReadLen p"] by (simp add: unat_of_nat take_bit_nat_eq_self)
  have nz: "DataLen p \<noteq> 0" using u n(1) by auto
  have c0: "can_send ?s0 i m" using s by (simp add: can_send_def)
  have lp: "length ?ps \<le> k"
    using usb_packets_length [of m "take n (Data p)" False] m k n(1,2) by (cases "Data p") auto
  have w: "bot_write (obliging_host k) (DataInEp s) (Data p) (DataLen p) False ?s0 = Some (0, ?s1)"
    using bot_write_sends [OF c0, of "DataLen p" "Data p" False k] nz n(2) lp by (simp add: u)
  have rest: "less_remain (ReadLen p) (DataLen p) = ReadLen p - of_nat n"
    using n(3,4) u by (auto simp: less_remain_def word_less_nat_alt word_unat_eq_iff unat_sub_if_size)
  have c1: "can_send ?s1 i m" by (rule can_send_sent [OF s]) auto
  have r: "BotSendCSW (obliging_host k) (TagNo p) CSW_PASSED (ReadLen p - of_nat n) ?s1
      = Some (0, csw_sent i (csw_bytes (TagNo p) CSW_PASSED (ReadLen p - of_nat n))
          (if ReadLen p - of_nat n \<noteq> 0 then stalled ?s1 else ?s1))"
    by (rule BotSendCSW_obliging [OF c1 m]) (use k x in auto)
  let ?s2 = "csw_sent i (csw_bytes (TagNo p) CSW_PASSED (ReadLen p - of_nat n))
          (if ReadLen p - of_nat n \<noteq> 0 then stalled ?s1 else ?s1)"
  have e: "send_read_response (obliging_host k) p s = Some (0, video_if ?rd 0 ?s2)"
    unfolding send_read_response_def Let_def video_if_def [symmetric] using st nz w r rest
    by (simp add: BotSendData_def)
  have z: "ReadLen p - of_nat n \<noteq> 0 \<longleftrightarrow> n < unat (ReadLen p)"
  proof -
    have "ReadLen p - of_nat n = 0 \<longleftrightarrow> unat (ReadLen p) = n" using u by (auto simp: n(3))
    then show ?thesis using n(4) by linarith
  qed
  have "on_wire (DataInEp s) (?ps @ [csw_bytes (TagNo p) CSW_PASSED (ReadLen p - of_nat n)]) s
      (video_if ?rd 0 ?s2)"
    by (simp add: on_wire_def csw_sent_def stalled_def tx_sent_def UsbStallEp_def)
  moreover have "mass (video_if ?rd 0 ?s2)
      = Some (if n < unat (ReadLen p) then f\<lparr>UnHalted := True\<rparr> else f)"
    unfolding z using x by (simp add: csw_sent_def stalled_def)
  ultimately show ?thesis using e by blast
qed

lemma ScsiSendResponse_data:
  assumes s: "can_send s i m" and m: "13 < m" and x: "mass s = Some f" and q: "LastSeqNo f = SeqNo (Header p)"
    and t: "DeviceType (Header p) AND 0x7F = IUSB_DEVICE_HARDDISK" and c: "CBWErrorOccur s = 0"
    and dir: "DataDir p = READ_DEVICE"
    and n: "dat \<noteq> []" "length dat \<le> length (Data (gKernelModePktHD s))" "length dat \<le> unat (ReadLen p)"
    and k: "length dat div m < k"
  shows "\<exists>s' f'. ScsiSendResponse (obliging_host k) (server_reply p [0, key, code, cq] dat) s = Some (0, s') \<and>
    on_wire (DataInEp s) (usb_packets m False dat @ [csw_bytes (TagNo p) CSW_PASSED (ReadLen p - of_nat (length dat))]) s s' \<and>
    mass s' = Some f' \<and> LastSeqNo f' = 0 \<and> UnHalted f' = (length dat < unat (ReadLen p) \<or> UnHalted f)"
proof -
  let ?u = "server_reply p [0, key, code, cq] dat"
  let ?p = "?u\<lparr>Data := dat @ drop (length dat) (Data (gKernelModePktHD s))\<rparr>"
  have u: "unat (of_nat (length dat) :: u32) = length dat"
    using n(3) unat_lt_32 [of "ReadLen p"] by (simp add: unat_of_nat take_bit_nat_eq_self)
  have cd: "DeviceType (Header ?u) AND 0x7F \<noteq> IUSB_DEVICE_CDROM"
    using t by (simp add: server_reply_def IUSB_DEVICE_HARDDISK_def IUSB_DEVICE_CDROM_def)
  have cp: "copy_scsi_response (gKernelModePktHD s) ?u = Some ?p"
    using n(2) u by (simp add: copy_scsi_response_def server_reply_def Let_def)
  let ?f = "f\<lparr>LastSeqNo := 0, SenseKey := key, SenseCode := code, SenseCodeQ := cq\<rparr>"
  let ?s = "BotSetScsiErrorCode key code cq (s\<lparr>gKernelModePktHD := ?p, mass := Some (f\<lparr>LastSeqNo := 0\<rparr>)\<rparr>)"
  have m0: "mass ?s = Some ?f" by (simp add: BotSetScsiErrorCode_def)
  have ud: "udev ?s = udev s" "DataInEp ?s = DataInEp s" "CBWErrorOccur ?s = 0"
    using c by (simp_all add: BotSetScsiErrorCode_def set_mass_def)
  have cs: "can_send ?s i m" using s by (simp add: can_send_def ud)
  have r: "ScsiSendResponse (obliging_host k) ?u s = send_read_response (obliging_host k) ?p ?s"
    using cd cp x q dir ud(3) [unfolded server_reply_def]
    by (simp add: ScsiSendResponse_def Let_def server_reply_def WRITE_DEVICE_def READ_DEVICE_def)
  have o: "OverallStatus ?p = 0" by (simp add: OverallStatus_def server_reply_def)
  have d: "take (length dat) (Data ?p) = dat" "length dat \<le> length (Data ?p)" "0 < length dat"
    "DataLen ?p = of_nat (length dat)" "ReadLen ?p = ReadLen p" "TagNo ?p = TagNo p"
    using n by (simp_all add: server_reply_def)
  obtain s' where s': "send_read_response (obliging_host k) ?p ?s = Some (0, s')"
    "on_wire (DataInEp ?s) (usb_packets m False dat @ [csw_bytes (TagNo p) CSW_PASSED (ReadLen p - of_nat (length dat))]) ?s s'"
    "mass s' = Some (if length dat < unat (ReadLen p) then ?f\<lparr>UnHalted := True\<rparr> else ?f)"
    using send_read_response_data [OF cs m m0 o d(3,2,4) _ k] n(3) unfolding d by blast
  show ?thesis
  proof (intro exI conjI)
    show "ScsiSendResponse (obliging_host k) ?u s = Some (0, s')" unfolding r by (rule s'(1))
    show "on_wire (DataInEp s) (usb_packets m False dat @
        [csw_bytes (TagNo p) CSW_PASSED (ReadLen p - of_nat (length dat))]) s s'"
      using s'(2) unfolding on_wire_def ud .
    show "mass s' = Some (if length dat < unat (ReadLen p) then ?f\<lparr>UnHalted := True\<rparr> else ?f)" by (rule s'(3))
  qed simp_all
qed

section \<open>The server's side of a slot\<close>

lemma RemoteWaitRequest_ready:
  assumes "n < length xs" "s_active (xs ! n)" "unat (DataLen (s_pkt (xs ! n))) \<le> length (Data (s_pkt (xs ! n)))"
  shows "RemoteWaitRequest False n xs
    = Some (0, Some (s_pkt (xs ! n)), xs[n := (xs ! n)\<lparr>s_wakeup := False, s_req := True\<rparr>])"
  using assms by (simp add: RemoteWaitRequest_def Let_def)

text \<open>The disk after the server has fetched the packet of a read.\<close>

definition server_fetched :: "nat \<Rightarrow> 'a iusb_sys_scheme \<Rightarrow> 'a iusb_sys_scheme" where
  "server_fetched n s = s\<lparr>hdisk := (hdisk s)[n := (hdisk s ! n)\<lparr>s_wakeup := False, s_req := True\<rparr>]\<rparr>"

lemma server_fetches_read:
  assumes "disk_ready n s"
  shows "RemoteWaitRequest False n (hdisk (asked v True n t f s))
    = Some (0, Some (read_request t (CBW f) s (s_pkt (hdisk s ! n))), hdisk (server_fetched n (asked v True n t f s)))"
proof -
  have "n < length (hdisk s)" "s_active (hdisk s ! n)" using assms by (auto simp: disk_ready_def)
  then show ?thesis
    by (subst RemoteWaitRequest_ready) (simp_all add: asked_def asked_s_def server_fetched_def read_request_def)
qed

lemma FormiUsbHeader_type:
  "DeviceType (fst (FormiUsbHeader len dn ifn t pr seq)) = t" "SeqNo (fst (FormiUsbHeader len dn ifn t pr seq)) = seq"
  by (simp_all add: FormiUsbHeader_def Let_def)

section \<open>A read from the disk, from the wrapper to the status\<close>

definition queued :: "u8 list \<Rightarrow> bot_if \<Rightarrow> 'a bot_sys_scheme \<Rightarrow> 'a bot_sys_scheme" where
  "queued cbw f s = BotQueueDPC (s\<lparr>mass := Some (f\<lparr>CBW := stored cbw f\<rparr>)\<rparr>)"

definition after_read :: "nat \<Rightarrow> u8 \<Rightarrow> u8 list \<Rightarrow> bot_if \<Rightarrow> 'a iusb_sys_scheme \<Rightarrow> 'a iusb_sys_scheme" where
  "after_read n t cbw f s = asked (read_verdict t cbw (TestCase s)) True n t (f\<lparr>CBW := stored cbw f\<rparr>) (queued cbw f s)"

definition read_packet :: "nat \<Rightarrow> u8 \<Rightarrow> u8 list \<Rightarrow> bot_if \<Rightarrow> 'a iusb_sys_scheme \<Rightarrow> iusb_pkt" where
  "read_packet n t cbw f s = read_request t cbw (queued cbw f s) (s_pkt (hdisk s ! n))"

lemma queued_sels [simp]:
  "mass (queued cbw f s) = Some (f\<lparr>CBW := stored cbw f\<rparr>)" "WakeupFlag (queued cbw f s)" "udev (queued cbw f s) = udev s"
  "DataInEp (queued cbw f s) = DataInEp s" "hdisk (queued cbw f t) = hdisk t" "TestCase (queued cbw f t) = TestCase t"
  "iusb_seq (queued cbw f t) = iusb_seq t" "gKernelModePktHD (queued cbw f t) = gKernelModePktHD t"
  by (simp_all add: queued_def BotQueueDPC_def)

lemma read_packet_sels [simp]:
  "DataDir (read_packet n t cbw f s) = READ_DEVICE" "ReadLen (read_packet n t cbw f s) = dCBWDataTransferLength cbw"
  "TagNo (read_packet n t cbw f s) = dCBWTag cbw"
  "CommandPkt (read_packet n t cbw f s) @ StatusPkt (read_packet n t cbw f s) = CBWCB cbw"
  "SeqNo (Header (read_packet n t cbw f s)) = iusb_seq s" "DeviceType (Header (read_packet n t cbw f s)) = t"
  by (simp_all add: read_packet_def read_request_def FormiUsbHeader_type)

text \<open>The state the server leaves when it has fetched the packet.\<close>

lemma after_read_fetched:
  "(after_read n t cbw f s)\<lparr>hdisk := hdisk (server_fetched n (after_read n t cbw f s))\<rparr> = server_fetched n (after_read n t cbw f s)"
  "udev (server_fetched n (after_read n t cbw f s)) = udev s" "DataInEp (server_fetched n (after_read n t cbw f s)) = DataInEp s"
  "CBWErrorOccur (server_fetched n (after_read n t cbw f s)) = fst (read_verdict t cbw (TestCase s))"
  "DataOutLen (server_fetched n (after_read n t cbw f s)) = fst (snd (read_verdict t cbw (TestCase s)))"
  "gKernelModePktHD (server_fetched n (after_read n t cbw f s)) = gKernelModePktHD s"
  "mass (server_fetched n (after_read n t cbw f s)) = Some (f\<lparr>CBW := stored cbw f, LastSeqNo := iusb_seq s\<rparr>)"
  by (simp_all add: server_fetched_def after_read_def asked_def asked_s_def)

lemma read_reaches_server:
  assumes "disk_ready n s" "mass s = Some f" "length (CBW f) = 32" "ScsiDataOutLen f = 0"
    and "disk_read_cmd t cbw" "device_type f (bCBWLUN cbw) = Some t" "usb_received ep cbw (udev s)" "length cbw = 31"
  shows "BotRxHandler ep s = Some (queued cbw f s)"
    and "fst (read_verdict t cbw (TestCase s)) \<noteq> 2 \<Longrightarrow>
      BotProcessHandler env (RemoteScsiCall env n) (queued cbw f s) = Some (after_read n t cbw f s)"
    and "on_wire (DataInEp s) [] s (after_read n t cbw f s)"
    and "RemoteWaitRequest False n (hdisk (after_read n t cbw f s))
      = Some (0, Some (read_packet n t cbw f s), hdisk (server_fetched n (after_read n t cbw f s)))"
proof -
  have r: "disk_read_cmd t (CBW (f\<lparr>CBW := stored cbw f\<rparr>))" "device_type (f\<lparr>CBW := stored cbw f\<rparr>) (bCBWLUN cbw) = Some t"
    "mass (queued cbw f s) = Some (f\<lparr>CBW := stored cbw f\<rparr>)" "disk_ready n (queued cbw f s)"
    using assms by (simp_all add: device_type_def disk_ready_def)
  have op: "OpCode (CBWCB cbw) = SCSI_READ_10" using assms(5) by (simp add: disk_read_cmd_def)
  show "BotRxHandler ep s = Some (queued cbw f s)"
    unfolding queued_def by (rule BotRxHandler_read [OF assms(5,8,7,2-4)])
  show "BotProcessHandler env (RemoteScsiCall env n) (queued cbw f s) = Some (after_read n t cbw f s)"
    if "fst (read_verdict t cbw (TestCase s)) \<noteq> 2"
    by (rule BotProcessHandler_remote [OF r(3)])
      (use op that assms(8) RemoteScsiCall_read(1) [OF r] in \<open>simp_all add: after_read_def\<close>)
  show "on_wire (DataInEp s) [] s (after_read n t cbw f s)"
    by (simp add: on_wire_def after_read_def asked_def asked_s_def)
  show "RemoteWaitRequest False n (hdisk (after_read n t cbw f s))
      = Some (0, Some (read_packet n t cbw f s), hdisk (server_fetched n (after_read n t cbw f s)))"
    unfolding after_read_def read_packet_def
    using server_fetches_read [OF r(4), of "read_verdict t cbw (TestCase s)" t "f\<lparr>CBW := stored cbw f\<rparr>"] assms(8) by simp
qed

text \<open>
  C6. A whole read of the Bulk-Only Transport, with a packet size above 13 bytes: the host's READ(10)
  is received, queued and handed to the server of the disk, which is given exactly the command block,
  the tag and the length of the wrapper; and whatever data the server answers with, up to the length
  asked for and the size of the kernel's buffer, the host gets exactly these data in packets and then
  one status with the tag of its command, PASSED and the number of bytes that are missing. The command
  is then forgotten, so no second answer is sent for it.
\<close>

theorem bot_read_transaction:
  assumes "can_send s i m" "13 < m" "disk_ready n s" "mass s = Some f" "length (CBW f) = 32" "ScsiDataOutLen f = 0"
    and "disk_read t cbw" "device_type f (bCBWLUN cbw) = Some t" "usb_received ep cbw (udev s)" "length cbw = 31"
  shows "\<exists>s1 s2 p xs. BotRxHandler ep s = Some s1 \<and> WakeupFlag s1 \<and>
    BotProcessHandler (obliging_host k) (RemoteScsiCall (obliging_host k) n) s1 = Some s2 \<and> on_wire (DataInEp s) [] s s2 \<and>
    RemoteWaitRequest False n (hdisk s2) = Some (0, Some p, xs) \<and>
    CommandPkt p @ StatusPkt p = CBWCB cbw \<and> TagNo p = dCBWTag cbw \<and> ReadLen p = dCBWDataTransferLength cbw \<and>
    (\<forall>dat key code cq. dat \<noteq> [] \<longrightarrow> length dat \<le> length (Data (gKernelModePktHD s)) \<longrightarrow>
       length dat \<le> unat (dCBWDataTransferLength cbw) \<longrightarrow> length dat div m < k \<longrightarrow>
       (\<exists>s3 f3. ScsiSendResponse (obliging_host k) (server_reply p [0, key, code, cq] dat) (s2\<lparr>hdisk := xs\<rparr>) = Some (0, s3) \<and>
          on_wire (DataInEp s) (usb_packets m False dat @
            [csw_bytes (dCBWTag cbw) CSW_PASSED (dCBWDataTransferLength cbw - of_nat (length dat))]) s s3 \<and>
          mass s3 = Some f3 \<and> LastSeqNo f3 = 0))"
proof -
  let ?s2 = "after_read n t cbw f s" and ?p = "read_packet n t cbw f s"
  let ?x = "server_fetched n ?s2"
  have c: "disk_read_cmd t cbw" and v: "fst (read_verdict t cbw (TestCase s)) = 0" and h: "t AND 0x7F = IUSB_DEVICE_HARDDISK"
    using assms(7) by (simp_all add: disk_read_def read_verdict_def disk_read_cmd_def)
  note reach = read_reaches_server [OF assms(3-6) c assms(8-10)]
  note d = after_read_fetched [of n t cbw f s]
  have cs: "can_send ?x i m" using assms(1) by (simp add: can_send_def d)
  have e: "\<exists>s3 f3. ScsiSendResponse (obliging_host k) (server_reply ?p [0, key, code, cq] dat)
        (?s2\<lparr>hdisk := hdisk ?x\<rparr>) = Some (0, s3) \<and>
      on_wire (DataInEp s) (usb_packets m False dat @
        [csw_bytes (dCBWTag cbw) CSW_PASSED (dCBWDataTransferLength cbw - of_nat (length dat))]) s s3 \<and>
      mass s3 = Some f3 \<and> LastSeqNo f3 = 0"
    if x: "dat \<noteq> []" "length dat \<le> length (Data (gKernelModePktHD s))"
      "length dat \<le> unat (dCBWDataTransferLength cbw)" "length dat div m < k" for dat key code cq
  proof -
    have "\<exists>s' f'. ScsiSendResponse (obliging_host k) (server_reply ?p [0, key, code, cq] dat) ?x = Some (0, s') \<and>
      on_wire (DataInEp ?x) (usb_packets m False dat @
        [csw_bytes (TagNo ?p) CSW_PASSED (ReadLen ?p - of_nat (length dat))]) ?x s' \<and>
      mass s' = Some f' \<and> LastSeqNo f' = 0 \<and>
      UnHalted f' = (length dat < unat (ReadLen ?p) \<or> UnHalted (f\<lparr>CBW := stored cbw f, LastSeqNo := iusb_seq s\<rparr>))"
      by (rule ScsiSendResponse_data [OF cs assms(2) d(7)]) (use x v h d in simp_all)
    then show ?thesis unfolding d read_packet_sels on_wire_def by blast
  qed
  have b: "BotProcessHandler (obliging_host k) (RemoteScsiCall (obliging_host k) n) (queued cbw f s) = Some ?s2"
    by (rule reach(2)) (simp add: v)
  show ?thesis
    by (rule exI [of _ "queued cbw f s"], rule exI [of _ ?s2], rule exI [of _ ?p], rule exI [of _ "hdisk ?x"])
      (intro conjI allI impI reach(1,3,4) queued_sels(2) read_packet_sels b e)
qed

lemma sample_read:
  "disk_read_cmd 0 (sample_wrapper len 0x80 0 0x28 1)"
  "dCBWDataTransferLength (sample_wrapper len fl lun op bl) = push_bit 8 (ucast len)"
  "dCBWTag (sample_wrapper len fl lun op bl) = 0x1234"
  "block_bytes 0 (CBWCB (sample_wrapper len fl lun op 1)) 0 = 512"
  "length (sample_wrapper len fl lun op bl) = 31" "bCBWLUN (sample_wrapper len fl lun op bl) = lun"
  by (simp_all add: sample_wrapper_def disk_read_cmd_def cbw_ok_def dCBWSignature_def le32_at_def CBW_SIGNATURE_def
      bCBWCBLength_def bmCBWFlags_def OpCode_def CBWCB_def SCSI_READ_10_def IUSB_DEVICE_HARDDISK_def
      dCBWDataTransferLength_def dCBWTag_def block_bytes_def bCBWLUN_def)

lemma sample_ready:
  "can_send (sample_iusb rx cbw) (Suc 0) 64" "disk_ready 0 (sample_iusb rx cbw)"
  "mass (sample_iusb rx cbw) = Some (sample_if cbw)" "ScsiDataOutLen (sample_if cbw) = 0" "CBW (sample_if cbw) = cbw"
  "device_type (sample_if cbw) 0 = Some 0" "DataInEp (sample_iusb rx cbw) = 2"
  "length (Data (gKernelModePktHD (sample_iusb rx cbw))) = 131072" "udev (sample_iusb rx cbw) = sample_usb rx"
  by (simp_all add: can_send_def sample_iusb_def sample_usb_tx disk_ready_def MAX_HDISK_INSTANCE_def sample_slot_def
      sample_if_def sample_pkt_def MAX_SCSI_DATA_def device_type_def arr_simps sizeof_INQUIRY_def)

lemma sample_received: "length rx = 31 \<Longrightarrow> usb_received 1 rx (sample_usb rx)"
  by (simp add: usb_received_def UsbGetRxData_def UsbGetRxDataLen_def GetEndPointIndex_def sample_usb_def sample_out_def
      DIR_OUT_def CONFIGURABLE_def)

theorem bot_read_transaction_witness:
  "\<exists>s1 s2 p xs s3. BotRxHandler 1 (sample_iusb (sample_wrapper 2 0x80 0 0x28 1) (replicate 32 0)) = Some s1 \<and>
    BotProcessHandler (obliging_host 9) (RemoteScsiCall (obliging_host 9) 0) s1 = Some s2 \<and>
    RemoteWaitRequest False 0 (hdisk s2) = Some (0, Some p, xs) \<and>
    ScsiSendResponse (obliging_host 9) (server_reply p [0, 0, 0, 0] (replicate 500 7)) (s2\<lparr>hdisk := xs\<rparr>) = Some (0, s3) \<and>
    on_wire 2 (usb_packets 64 False (replicate 500 7) @ [csw_bytes 0x1234 CSW_PASSED 12])
      (sample_iusb (sample_wrapper 2 0x80 0 0x28 1) (replicate 32 0)) s3"
proof -
  let ?w = "sample_wrapper 2 0x80 0 0x28 1"
  let ?s = "sample_iusb ?w (replicate 32 0)"
  have r: "disk_read 0 ?w" by (simp add: disk_read_def sample_read)
  have "\<exists>s1 s2 p xs. BotRxHandler 1 ?s = Some s1 \<and> WakeupFlag s1 \<and>
    BotProcessHandler (obliging_host 9) (RemoteScsiCall (obliging_host 9) 0) s1 = Some s2 \<and> on_wire (DataInEp ?s) [] ?s s2 \<and>
    RemoteWaitRequest False 0 (hdisk s2) = Some (0, Some p, xs) \<and>
    CommandPkt p @ StatusPkt p = CBWCB ?w \<and> TagNo p = dCBWTag ?w \<and> ReadLen p = dCBWDataTransferLength ?w \<and>
    (\<forall>dat key code cq. dat \<noteq> [] \<longrightarrow> length dat \<le> length (Data (gKernelModePktHD ?s)) \<longrightarrow>
       length dat \<le> unat (dCBWDataTransferLength ?w) \<longrightarrow> length dat div 64 < 9 \<longrightarrow>
       (\<exists>s3 f3. ScsiSendResponse (obliging_host 9) (server_reply p [0, key, code, cq] dat) (s2\<lparr>hdisk := xs\<rparr>) = Some (0, s3) \<and>
          on_wire (DataInEp ?s) (usb_packets 64 False dat @
            [csw_bytes (dCBWTag ?w) CSW_PASSED (dCBWDataTransferLength ?w - of_nat (length dat))]) ?s s3 \<and>
          mass s3 = Some f3 \<and> LastSeqNo f3 = 0))"
    by (rule bot_read_transaction [where f = "sample_if (replicate 32 0)" and t = 0 and i = "Suc 0"])
      (use r in \<open>simp_all add: sample_ready sample_read sample_received\<close>)
  then obtain s1 s2 p xs where t: "BotRxHandler 1 ?s = Some s1"
    "BotProcessHandler (obliging_host 9) (RemoteScsiCall (obliging_host 9) 0) s1 = Some s2"
    "RemoteWaitRequest False 0 (hdisk s2) = Some (0, Some p, xs)"
    and a: "\<And>dat key code cq. dat \<noteq> [] \<Longrightarrow> length dat \<le> length (Data (gKernelModePktHD ?s)) \<Longrightarrow>
       length dat \<le> unat (dCBWDataTransferLength ?w) \<Longrightarrow> length dat div 64 < 9 \<Longrightarrow>
       \<exists>s3 f3. ScsiSendResponse (obliging_host 9) (server_reply p [0, key, code, cq] dat) (s2\<lparr>hdisk := xs\<rparr>) = Some (0, s3) \<and>
          on_wire (DataInEp ?s) (usb_packets 64 False dat @
            [csw_bytes (dCBWTag ?w) CSW_PASSED (dCBWDataTransferLength ?w - of_nat (length dat))]) ?s s3 \<and>
          mass s3 = Some f3 \<and> LastSeqNo f3 = 0"
    by blast
  show ?thesis
    using t a [of "replicate 500 7" 0 0 0] by (auto simp: sample_ready sample_read)
qed

end
