(* ===== verification/UsbOut.thy ===== *)
theory UsbOut imports UsbProps begin

text \<open>
  Data from the host to a virtual disk: the packets that follow the wrapper of a write are collected
  in \<open>ScsiData\<close>, whose bounds nothing checks, and go to the server when they are complete.
\<close>

unbundle bit_operations_syntax

section \<open>Packets that arrive\<close>

text \<open>
  The hardware driver copies a packet to the buffer of the endpoint, sets its length and calls the
  receive handler of the interface (\<open>UsbRxHandler\<close> for an endpoint other than 0 of a configured device).
\<close>

definition usb_receive :: "u8 \<Rightarrow> u8 list \<Rightarrow> usb_dev \<Rightarrow> usb_dev" where
  "usb_receive ep pkt d =
     (case GetEndPointIndex d ep DIR_OUT of
        None \<Rightarrow> d
      | Some i \<Rightarrow>
          (case RxData (EndPoint d ! i) of
             None \<Rightarrow> d
           | Some b \<Rightarrow> UsbSetRxDataLen ep (of_nat (length pkt))
                 (set_ep i ((EndPoint d ! i)\<lparr>RxData := Some (pkt @ drop (length pkt) b)\<rparr>) d)))"

definition deliver :: "u8 \<Rightarrow> u8 list \<Rightarrow> 'a bot_sys_scheme \<Rightarrow> 'a bot_sys_scheme option" where
  "deliver ep pkt s = BotRxHandler ep (s\<lparr>udev := usb_receive ep pkt (udev s)\<rparr>)"

fun deliver_all :: "u8 \<Rightarrow> u8 list list \<Rightarrow> 'a bot_sys_scheme \<Rightarrow> 'a bot_sys_scheme option" where
  "deliver_all ep [] s = Some s"
| "deliver_all ep (p # ps) s = do { s' \<leftarrow> deliver ep p s; deliver_all ep ps s' }"

definition rx_endpoint :: "usb_dev \<Rightarrow> u8 \<Rightarrow> nat \<Rightarrow> nat \<Rightarrow> bool" where
  "rx_endpoint d ep i n \<longleftrightarrow>
     GetEndPointIndex d ep DIR_OUT = Some i \<and> map_option length (RxData (EndPoint d ! i)) = Some n \<and> n < 2 ^ 32"

lemma usb_receive_ok:
  assumes "rx_endpoint d ep i n" "length pkt \<le> n"
  shows "usb_received ep pkt (usb_receive ep pkt d)" "rx_endpoint (usb_receive ep pkt d) ep i n"
proof -
  have g: "GetEndPointIndex d ep DIR_OUT = Some i" and n: "n < 2 ^ 32" using assms(1) by (auto simp: rx_endpoint_def)
  obtain b where b: "RxData (EndPoint d ! i) = Some b" "length b = n" using assms(1) by (auto simp: rx_endpoint_def)
  have i: "i < length (EndPoint d)" using g by (auto simp: GetEndPointIndex_def dest!: ep_index_range)
  have upd: "GetEndPointIndex (set_ep i ((EndPoint d ! i)\<lparr>RxData := x, RxDataLen := y\<rparr>) d) ep DIR_OUT = Some i" for x y
    using g i by (simp add: GetEndPointIndex_def set_ep_def ep_index_update)
  have upd1: "GetEndPointIndex (set_ep i ((EndPoint d ! i)\<lparr>RxData := x\<rparr>) d) ep DIR_OUT = Some i" for x
    using g i by (simp add: GetEndPointIndex_def set_ep_def ep_index_update)
  have e: "usb_receive ep pkt d = set_ep i ((EndPoint d ! i)\<lparr>RxData := Some (pkt @ drop (length pkt) b),
      RxDataLen := of_nat (length pkt)\<rparr>) d"
    using g b i by (simp add: usb_receive_def UsbSetRxDataLen_def upd1) (simp add: set_ep_def)
  show "usb_received ep pkt (usb_receive ep pkt d)"
    unfolding usb_received_def UsbGetRxData_def UsbGetRxDataLen_def e upd using i by (simp add: set_ep_def)
  show "rx_endpoint (usb_receive ep pkt d) ep i n"
    unfolding rx_endpoint_def e upd using i n assms(2) b(2) by (simp add: set_ep_def)
qed

definition good_packets :: "nat \<Rightarrow> u8 list list \<Rightarrow> bool" where
  "good_packets n ps \<longleftrightarrow> (\<forall>p\<in>set ps. p \<noteq> [] \<and> length p \<le> n)"

text \<open>Receiving leaves what may be sent alone.\<close>

lemma set_ep_rx:
  assumes "i < length (EndPoint d)" "EpUsed e = EpUsed (EndPoint d ! i)" "Dir e = Dir (EndPoint d ! i)"
    "EpNum e = EpNum (EndPoint d ! i)" "Enabled e = Enabled (EndPoint d ! i)" "MaxPacketSize e = MaxPacketSize (EndPoint d ! i)"
  shows "tx_endpoint (set_ep i e d) ep' j m = tx_endpoint d ep' j m"
proof -
  have g: "GetEndPointIndex (set_ep i e d) ep' dir = GetEndPointIndex d ep' dir" for dir
    using assms by (simp add: GetEndPointIndex_def set_ep_def ep_index_update)
  show ?thesis
    unfolding tx_endpoint_def g using assms by (cases "i = j") (simp_all add: set_ep_def max_size_def)
qed

lemma usb_receive_tx:
  assumes "rx_endpoint d ep i n"
  shows "tx_endpoint (usb_receive ep pkt d) ep' j m = tx_endpoint d ep' j m" "wire (usb_receive ep pkt d) = wire d"
proof -
  have g: "GetEndPointIndex d ep DIR_OUT = Some i" using assms by (auto simp: rx_endpoint_def)
  obtain b where b: "RxData (EndPoint d ! i) = Some b" using assms by (auto simp: rx_endpoint_def)
  have i: "i < length (EndPoint d)" using g by (auto simp: GetEndPointIndex_def dest!: ep_index_range)
  have g1: "GetEndPointIndex (set_ep i ((EndPoint d ! i)\<lparr>RxData := x\<rparr>) d) ep DIR_OUT = Some i" for x
    using g i by (simp add: GetEndPointIndex_def set_ep_def ep_index_update)
  have e: "usb_receive ep pkt d = set_ep i ((EndPoint d ! i)\<lparr>RxData := Some (pkt @ drop (length pkt) b),
      RxDataLen := of_nat (length pkt)\<rparr>) d"
    using g b i by (simp add: usb_receive_def UsbSetRxDataLen_def g1) (simp add: set_ep_def)
  show "tx_endpoint (usb_receive ep pkt d) ep' j m = tx_endpoint d ep' j m"
    unfolding e by (rule set_ep_rx) (use i in simp_all)
  show "wire (usb_receive ep pkt d) = wire d" unfolding e by (simp add: set_ep_def)
qed

lemma fold_receive_tx:
  "rx_endpoint d ep i n \<Longrightarrow> good_packets n ps \<Longrightarrow>
   tx_endpoint (fold (usb_receive ep) ps d) ep' j m = tx_endpoint d ep' j m \<and> wire (fold (usb_receive ep) ps d) = wire d"
  by (induction ps arbitrary: d) (auto simp: good_packets_def usb_receive_ok usb_receive_tx)

section \<open>Collecting\<close>

lemma BotRxHandler_data:
  assumes "mass s = Some f" "ScsiDataOutLen f \<noteq> 0" "usb_received ep p (udev s)" "p \<noteq> []" "length p < 2 ^ 32"
  shows "BotRxHandler ep s =
    (if unat (ScsiDataLen f) + length p \<le> length (ScsiData f)
     then (let out = (if of_nat (length p) \<le> ScsiDataOutLen f then ScsiDataOutLen f - of_nat (length p) else 0);
               s1 = s\<lparr>mass := Some (f\<lparr>ScsiData := take (unat (ScsiDataLen f)) (ScsiData f) @ p @
                        drop (unat (ScsiDataLen f) + length p) (ScsiData f),
                      ScsiDataLen := ScsiDataLen f + of_nat (length p), ScsiDataOutLen := out\<rparr>)\<rparr>
           in Some (if out = 0 then BotQueueDPC (video_call 0 s1) else s1))
     else None)"
proof -
  obtain rx where rx: "UsbGetRxData ep (udev s) = Some rx" "length p \<le> length rx" "take (length p) rx = p"
    and l: "UsbGetRxDataLen ep (udev s) = of_nat (length p)"
    using assms(3) by (auto simp: usb_received_def)
  have u: "unat (of_nat (length p) :: u32) = length p"
    using assms(5) by (simp add: unat_of_nat take_bit_nat_eq_self)
  then have z: "(of_nat (length p) :: u32) \<noteq> 0" using assms(4) by auto
  show ?thesis
    unfolding BotRxHandler_def BotRxData_def l using assms(1,2) rx(1) z
    by (simp add: memcpy_at_def u rx Let_def)
qed

text \<open>The state after packets that have all arrived, and whether they complete the data.\<close>

definition complete :: "u8 list list \<Rightarrow> bot_if \<Rightarrow> bool" where
  "complete ps f \<longleftrightarrow> ps \<noteq> [] \<and> length (concat ps) = unat (ScsiDataOutLen f)"

definition collected_if :: "u8 list list \<Rightarrow> bot_if \<Rightarrow> bot_if" where
  "collected_if ps f = f\<lparr>ScsiData := take (unat (ScsiDataLen f)) (ScsiData f) @ concat ps @
       drop (unat (ScsiDataLen f) + length (concat ps)) (ScsiData f),
     ScsiDataLen := ScsiDataLen f + of_nat (length (concat ps)),
     ScsiDataOutLen := ScsiDataOutLen f - of_nat (length (concat ps))\<rparr>"

definition collected :: "u8 \<Rightarrow> u8 list list \<Rightarrow> bot_if \<Rightarrow> 'a bot_sys_scheme \<Rightarrow> 'a bot_sys_scheme" where
  "collected ep ps f s =
     (let s1 = s\<lparr>udev := fold (usb_receive ep) ps (udev s), mass := Some (collected_if ps f)\<rparr>
      in if complete ps f then BotQueueDPC (video_call 0 s1) else s1)"

lemma collected_if_Cons:
  assumes "unat (ScsiDataLen f) + length p \<le> length (ScsiData f)" "length (ScsiData f) < 2 ^ 32"
  shows "collected_if ps (collected_if [p] f) = collected_if (p # ps) f"
proof -
  have "unat (ScsiDataLen f + of_nat (length p)) = unat (ScsiDataLen f) + length p"
    using assms by (simp add: unat_word_ariths unat_of_nat take_bit_nat_eq_self)
  then show ?thesis
    using assms(1) by (simp add: collected_if_def algebra_simps)
qed

lemma deliver_data:
  assumes e: "rx_endpoint (udev s) ep i n" and x: "mass s = Some f" and p: "p \<noteq> []" "length p \<le> n"
    and w: "length p \<le> unat (ScsiDataOutLen f)"
  shows "deliver ep p s = (if unat (ScsiDataLen f) + length p \<le> length (ScsiData f) then Some (collected ep [p] f s) else None)"
proof -
  have n: "length p < 2 ^ 32" using e p(2) by (auto simp: rx_endpoint_def)
  have u: "unat (of_nat (length p) :: u32) = length p" using n by (simp add: unat_of_nat take_bit_nat_eq_self)
  have o: "ScsiDataOutLen f \<noteq> 0" using w p(1) by auto
  have le: "of_nat (length p) \<le> ScsiDataOutLen f" using w by (simp add: word_le_nat_alt u)
  define out where "out = ScsiDataOutLen f - of_nat (length p)"
  have z: "length p = unat (ScsiDataOutLen f) \<longleftrightarrow> out = 0"
    unfolding out_def by (metis eq_iff_diff_eq_0 u word_unat_eq_iff)
  have r: "usb_received ep p (udev (s\<lparr>udev := usb_receive ep p (udev s)\<rparr>))" "mass (s\<lparr>udev := usb_receive ep p (udev s)\<rparr>) = Some f"
    using usb_receive_ok(1) [OF e p(2)] x by simp_all
  show ?thesis
    unfolding deliver_def BotRxHandler_data [OF r(2) o r(1) p(1) n] Let_def if_P [OF le] collected_def
      collected_if_def complete_def by (simp add: out_def [symmetric] z p(1))
qed

lemma rx_endpoint_fold:
  "rx_endpoint d ep i n \<Longrightarrow> good_packets n ps \<Longrightarrow> rx_endpoint (fold (usb_receive ep) ps d) ep i n"
  by (induction ps arbitrary: d) (auto simp: good_packets_def usb_receive_ok)

lemma collected_if_counts:
  assumes "unat (ScsiDataLen f) + length p \<le> length (ScsiData f)" "length (ScsiData f) < 2 ^ 32"
    and "length p \<le> unat (ScsiDataOutLen f)"
  shows "unat (ScsiDataLen (collected_if [p] f)) = unat (ScsiDataLen f) + length p"
    "unat (ScsiDataOutLen (collected_if [p] f)) = unat (ScsiDataOutLen f) - length p"
    "length (ScsiData (collected_if [p] f)) = length (ScsiData f)"
proof -
  have u: "unat (of_nat (length p) :: u32) = length p"
    using assms(1,2) by (simp add: unat_of_nat take_bit_nat_eq_self)
  show "unat (ScsiDataLen (collected_if [p] f)) = unat (ScsiDataLen f) + length p"
    using assms(1,2) by (simp add: collected_if_def unat_word_ariths u)
  show "unat (ScsiDataOutLen (collected_if [p] f)) = unat (ScsiDataOutLen f) - length p"
    using assms(3) by (simp add: collected_if_def unat_sub_if_size u)
  show "length (ScsiData (collected_if [p] f)) = length (ScsiData f)"
    using assms(1) by (simp add: collected_if_def)
qed

lemma collected_not_complete:
  "\<not> complete ps f \<Longrightarrow> collected ep ps f s = s\<lparr>udev := fold (usb_receive ep) ps (udev s), mass := Some (collected_if ps f)\<rparr>"
  by (simp add: collected_def)

lemma deliver_all_data:
  assumes "rx_endpoint (udev s) ep i n" "mass s = Some f" "good_packets n ps" "length (ScsiData f) < 2 ^ 32"
    and "length (concat ps) \<le> unat (ScsiDataOutLen f)" "unat (ScsiDataLen f) \<le> length (ScsiData f)"
  shows "deliver_all ep ps s =
    (if unat (ScsiDataLen f) + length (concat ps) \<le> length (ScsiData f)
     then Some (if ps = [] then s else collected ep ps f s) else None)"
  using assms
proof (induction ps arbitrary: s f)
  case (Cons p ps)
  have p: "p \<noteq> []" "length p \<le> n" "length p \<le> unat (ScsiDataOutLen f)" and g: "good_packets n ps"
    using Cons.prems by (auto simp: good_packets_def)
  note d = deliver_data [OF Cons.prems(1,2) p]
  show ?case
  proof (cases "unat (ScsiDataLen f) + length p \<le> length (ScsiData f) \<and> ps \<noteq> []")
    case False
    then show ?thesis using d by auto
  next
    case True
    let ?f1 = "collected_if [p] f" and ?s1 = "collected ep [p] f s"
    have "concat ps \<noteq> []" using True g by (auto simp: good_packets_def neq_Nil_conv)
    then have nc: "\<not> complete [p] f" using Cons.prems(5) by (auto simp: complete_def)
    have s1: "?s1 = s\<lparr>udev := usb_receive ep p (udev s), mass := Some ?f1\<rparr>"
      by (simp add: collected_not_complete [OF nc])
    note c = collected_if_counts [OF conjunct1 [OF True] Cons.prems(4) p(3)]
    have cc: "complete ps ?f1 = complete (p # ps) f"
      using True p(3) Cons.prems(5) by (auto simp: complete_def c)
    have ih: "deliver_all ep ps ?s1 =
      (if unat (ScsiDataLen ?f1) + length (concat ps) \<le> length (ScsiData ?f1)
       then Some (if ps = [] then ?s1 else collected ep ps ?f1 ?s1) else None)"
      by (rule Cons.IH) (use True Cons.prems usb_receive_ok(2) [OF Cons.prems(1) p(2)] g in
          \<open>simp_all add: s1 c\<close>)
    have "collected ep ps ?f1 ?s1 = collected ep (p # ps) f s"
      using collected_if_Cons [OF conjunct1 [OF True] Cons.prems(4)]
      by (simp add: collected_def [of ep ps] collected_def [of ep "p # ps"] cc s1)
    then show ?thesis
      using True d ih c by simp
  qed
qed simp

section \<open>The wrapper of a write\<close>

definition disk_write :: "u8 \<Rightarrow> u8 list \<Rightarrow> bool" where
  "disk_write t cbw \<longleftrightarrow> cbw_ok cbw \<and> bmCBWFlags cbw AND 0x80 = 0 \<and> OpCode (CBWCB cbw) = SCSI_WRITE_10 \<and>
     dCBWDataTransferLength cbw \<noteq> 0 \<and>
     t AND 0x7F = IUSB_DEVICE_HARDDISK \<and> block_bytes t (CBWCB cbw) 0 = dCBWDataTransferLength cbw"

lemma disk_write_stored [simp]: "length cbw = 31 \<Longrightarrow> disk_write t (stored cbw f) = disk_write t cbw"
  by (simp add: disk_write_def)

definition out_if :: "u8 list \<Rightarrow> bot_if \<Rightarrow> bot_if" where
  "out_if cbw f = f\<lparr>CBW := stored cbw f, ScsiDataLen := 0, ScsiDataOutLen := dCBWDataTransferLength cbw\<rparr>"

definition announced :: "u8 \<Rightarrow> u8 list \<Rightarrow> bot_if \<Rightarrow> 'a bot_sys_scheme \<Rightarrow> 'a bot_sys_scheme" where
  "announced ep cbw f s = video_call 1 (s\<lparr>udev := usb_receive ep cbw (udev s), mass := Some (out_if cbw f)\<rparr>)"

lemma deliver_write:
  assumes "disk_write t cbw" "rx_endpoint (udev s) ep i n" "31 \<le> n" "mass s = Some f" "length (CBW f) = 32"
    and "ScsiDataOutLen f = 0" "length cbw = 31"
  shows "deliver ep cbw s = Some (announced ep cbw f s)"
proof -
  have c: "cbw_ok cbw" "length cbw \<le> n" using assms(1,3,7) by (auto simp: disk_write_def cbw_ok_def)
  note r = usb_receive_ok(1) [OF assms(2) c(2)]
  show ?thesis
    using assms BotReadCBW_ok [OF c(1) assms(7) r assms(5)]
    by (simp add: deliver_def BotRxHandler_def BotRxCommand_def disk_write_def Let_def announced_def out_if_def
        video_call_def)
qed

lemma deliver_all_write:
  assumes w: "disk_write t cbw" and e: "rx_endpoint (udev s) ep i n" "31 \<le> n" and f: "mass s = Some f"
      "length (CBW f) = 32" "ScsiDataOutLen f = 0" "length (ScsiData f) < 2 ^ 32"
    and p: "good_packets n ps" "length (concat ps) \<le> unat (dCBWDataTransferLength cbw)" and l: "length cbw = 31"
  shows "deliver_all ep (cbw # ps) s =
    (if length (concat ps) \<le> length (ScsiData f)
     then Some (if ps = [] then announced ep cbw f s else collected ep ps (out_if cbw f) (announced ep cbw f s))
     else None)"
proof -
  have "length cbw \<le> n" using l e(2) by simp
  then have "rx_endpoint (udev (announced ep cbw f s)) ep i n"
    using usb_receive_ok(2) [OF e(1)] by (simp add: announced_def)
  then have "deliver_all ep ps (announced ep cbw f s) =
    (if unat (ScsiDataLen (out_if cbw f)) + length (concat ps) \<le> length (ScsiData (out_if cbw f))
     then Some (if ps = [] then announced ep cbw f s else collected ep ps (out_if cbw f) (announced ep cbw f s)) else None)"
    by (rule deliver_all_data) (use f p in \<open>simp_all add: announced_def out_if_def\<close>)
  then show ?thesis
    using deliver_write [OF w e f(1-3) l] by (simp add: out_if_def)
qed

section \<open>The packet of a write\<close>

definition write_request :: "u8 \<Rightarrow> bot_if \<Rightarrow> 'a iusb_sys_scheme \<Rightarrow> iusb_pkt \<Rightarrow> iusb_pkt" where
  "write_request t f s old =
     old\<lparr>Header := fst (FormiUsbHeader (29 + ScsiDataLen f) (dev_no s) (if_no s) t IUSB_PROTO_SCSI (iusb_seq s)),
         ReadLen := 0, TagNo := dCBWTag (CBW f), DataDir := WRITE_DEVICE,
         CommandPkt := take 12 (CBWCB (CBW f)), StatusPkt := drop 12 (CBWCB (CBW f)), DataLen := ScsiDataLen f,
         Data := take (unat (ScsiDataLen f)) (ScsiData f) @ drop (unat (ScsiDataLen f)) (Data old)\<rparr>"

lemma form_body_write:
  assumes "disk_write t (CBW f)" "OpCode (CommandPkt p) = SCSI_WRITE_10" "ScsiDataLen f = dCBWDataTransferLength (CBW f)"
    and "unat (ScsiDataLen f) \<le> length (ScsiData f)" "unat (ScsiDataLen f) \<le> length (Data p)"
  shows "form_body t f p out
    = Some (p\<lparr>DataDir := WRITE_DEVICE, ReadLen := 0, DataLen := ScsiDataLen f,
          Data := take (unat (ScsiDataLen f)) (ScsiData f) @ drop (unat (ScsiDataLen f)) (Data p)\<rparr>,
        dCBWDataTransferLength (CBW f), False)"
proof -
  have "block_bytes t (CBWCB (CBW f)) out = dCBWDataTransferLength (CBW f)"
    using assms(1) by (auto simp: disk_write_def block_bytes_def Let_def)
  moreover have "memcpy_at (Data p) 0 (ScsiData f) (unat (ScsiDataLen f))
      = Some (take (unat (ScsiDataLen f)) (ScsiData f) @ drop (unat (ScsiDataLen f)) (Data p))"
    using assms(4,5) by (simp add: memcpy_at_def)
  ultimately show ?thesis
    using assms(1-3) by (simp add: form_body_def Let_def disk_write_def SCSI_READ_10_def SCSI_WRITE_10_def)
qed

definition asked_write :: "nat \<Rightarrow> u8 \<Rightarrow> bot_if \<Rightarrow> 'a iusb_sys_scheme \<Rightarrow> 'a iusb_sys_scheme" where
  "asked_write n t f s =
     s\<lparr>CBWErrorOccur := 0, DataOutLen := dCBWDataTransferLength (CBW f),
       iusb_seq := snd (FormiUsbHeader (29 + ScsiDataLen f) (dev_no s) (if_no s) t IUSB_PROTO_SCSI (iusb_seq s)),
       mass := Some (f\<lparr>LastSeqNo := iusb_seq s\<rparr>),
       hdisk := (hdisk s)[n := (hdisk s ! n)\<lparr>s_pkt := write_request t f s (s_pkt (hdisk s ! n)), s_wakeup := True\<rparr>]\<rparr>"

lemma FormiUsbScsiPacket_write:
  assumes w: "disk_write t (CBW f)" "device_type f lun = Some t" "ScsiDataLen f = dCBWDataTransferLength (CBW f)"
    and l: "unat (ScsiDataLen f) \<le> length (ScsiData f)" "unat (ScsiDataLen f) \<le> length (Data p)"
  shows "FormiUsbScsiPacket p f lun s
    = Some (61 + ScsiDataLen f, write_request t f s p,
        s\<lparr>CBWErrorOccur := 0, DataOutLen := dCBWDataTransferLength (CBW f),
          iusb_seq := snd (FormiUsbHeader (29 + ScsiDataLen f) (dev_no s) (if_no s) t IUSB_PROTO_SCSI (iusb_seq s)),
          mass := Some (f\<lparr>LastSeqNo := iusb_seq s\<rparr>)\<rparr>)"
proof -
  have o: "OpCode (take 12 (CBWCB (CBW f))) = SCSI_WRITE_10"
    using w(1) by (simp add: disk_write_def OpCode_def)
  have h: "61 + ScsiDataLen f - 32 = 29 + ScsiDataLen f" by simp
  show ?thesis
    using w(2) o l
    by (simp add: FormiUsbScsiPacket_def form_body_write [OF w(1) _ w(3)] Let_def sizeof_PACKET_def
        sizeof_HEADER_def write_request_def case_prod_beta FormiUsbHeader_type h)
qed

lemma RemoteScsiCall_write:
  assumes w: "disk_write t (CBW f)" "device_type f lun = Some t" "ScsiDataLen f = dCBWDataTransferLength (CBW f)"
    and l: "unat (ScsiDataLen f) \<le> length (ScsiData f)" "unat (ScsiDataLen f) \<le> length (Data (s_pkt (hdisk s ! n)))"
    and b: "length (ScsiData f) \<le> 131072"
    and f: "mass s = Some f" and d: "disk_ready n s"
  shows "RemoteScsiCall env n lun s = Some (0, asked_write n t f s)"
proof -
  have h: "t AND 0x7F = IUSB_DEVICE_HARDDISK" "OpCode (CBWCB (CBW f)) = SCSI_WRITE_10"
    using w(1) by (auto simp: disk_write_def)
  have c: "HdiskCheckSupportedCmd (OpCode (CBWCB (CBW f))) n s = Some (True, s)"
    using d h(2) by (simp add: HdiskCheckSupportedCmd_def disk_ready_def supported_hdisk_def SCSI_WRITE_10_def)
  have n: "n < length (hdisk s)" using d by (simp add: disk_ready_def)
  have "unat (61 + ScsiDataLen f) = 61 + unat (ScsiDataLen f)" using l(1) b by (simp add: unat_word_ariths)
  then have "61 + ScsiDataLen f \<noteq> 1" by (auto simp: word_unat_eq_iff)
  then have "HdiskCall env f lun n s = Some (0, asked_write n t f s)"
    using d n
    by (simp add: HdiskCall_def c FormiUsbScsiPacket_write [OF w l] disk_ready_def Let_def RemoteCall_def asked_write_def)
  then show ?thesis
    using f w(2) h by (simp add: RemoteScsiCall_def IUSB_DEVICE_HARDDISK_def IUSB_DEVICE_CDROM_def)
qed

lemma ScsiSendResponse_status:
  assumes s: "can_send s i m" and m: "13 < m" and x: "mass s = Some f" and q: "LastSeqNo f = SeqNo (Header p)"
    and t: "DeviceType (Header p) AND 0x7F = IUSB_DEVICE_HARDDISK" and c: "CBWErrorOccur s = 0"
    and dir: "DataDir p = WRITE_DEVICE" and k: "0 < k"
  shows "\<exists>s'. ScsiSendResponse (obliging_host k) (server_reply p [st, key, code, cq] []) s = Some (0, s') \<and>
    on_wire (DataInEp s) [csw_bytes (TagNo p) (if st = 0 then CSW_PASSED else CSW_FAILED) 0] s s'"
proof -
  let ?u = "server_reply p [st, key, code, cq] []"
  let ?p = "?u\<lparr>Data := Data (gKernelModePktHD s)\<rparr>"
  have cd: "DeviceType (Header ?u) AND 0x7F \<noteq> IUSB_DEVICE_CDROM"
    using t by (simp add: server_reply_def IUSB_DEVICE_HARDDISK_def IUSB_DEVICE_CDROM_def)
  have cp: "copy_scsi_response (gKernelModePktHD s) ?u = Some ?p"
    by (simp add: copy_scsi_response_def server_reply_def)
  let ?s = "BotSetScsiErrorCode key code cq (s\<lparr>gKernelModePktHD := ?p, mass := Some (f\<lparr>LastSeqNo := 0\<rparr>)\<rparr>)"
  have ud: "udev ?s = udev s" "DataInEp ?s = DataInEp s" "CBWErrorOccur ?s = 0" "mass ?s \<noteq> None"
    using c by (simp_all add: BotSetScsiErrorCode_def set_mass_def)
  have cs: "can_send ?s i m" using s by (simp add: can_send_def ud)
  have "ScsiSendResponse (obliging_host k) ?u s
      = BotSendCSW (obliging_host k) (TagNo p) (if st = 0 then CSW_PASSED else CSW_FAILED) 0 ?s"
    using cd cp x q dir ud(3) [unfolded server_reply_def]
    by (simp add: ScsiSendResponse_def Let_def server_reply_def OverallStatus_def)
  also have "... = Some (0, csw_sent i (csw_bytes (TagNo p) (if st = 0 then CSW_PASSED else CSW_FAILED) 0) ?s)"
    using BotSendCSW_obliging [OF cs m k ud(4), of "TagNo p" "if st = 0 then CSW_PASSED else CSW_FAILED" 0] by simp
  finally have r: "ScsiSendResponse (obliging_host k) ?u s
    = Some (0, csw_sent i (csw_bytes (TagNo p) (if st = 0 then CSW_PASSED else CSW_FAILED) 0) ?s)" .
  show ?thesis
    unfolding r by (simp add: on_wire_def csw_sent_def tx_sent_def ud)
qed

text \<open>The wrapper of a write of 257 blocks, 512 bytes more than the buffer of the device.\<close>

definition big_wrapper :: "u8 list" where
  "big_wrapper = [0x55, 0x53, 0x42, 0x43, 0x34, 0x12, 0, 0, 0, 2, 2, 0, 0, 0, 10,
     0x2A, 0, 0, 0, 0, 0, 0, 1, 1, 0, 0, 0, 0, 0, 0, 0]"

lemmas wrapper_defs = disk_write_def cbw_ok_def dCBWSignature_def le32_at_def CBW_SIGNATURE_def
  bCBWCBLength_def bmCBWFlags_def OpCode_def CBWCB_def SCSI_WRITE_10_def IUSB_DEVICE_HARDDISK_def
  dCBWDataTransferLength_def block_bytes_def

lemma sample_write:
  "disk_write 0 (sample_wrapper 2 0 0 0x2A 1)" "disk_write 0 big_wrapper" "dCBWDataTransferLength big_wrapper = 131584"
  "length big_wrapper = 31"
  by (simp_all add: sample_wrapper_def big_wrapper_def wrapper_defs)

lemma sample_rx: "rx_endpoint (sample_usb []) 1 0 512"
  by (simp add: rx_endpoint_def GetEndPointIndex_def sample_usb_def sample_out_def DIR_OUT_def)

lemma sample_rx_ready:
  "length (ScsiData (sample_if cbw)) = MAX_SCSI_DATA" "length (Data (s_pkt (hdisk (sample_iusb rx cbw) ! 0))) = 131072"
  by (simp_all add: sample_if_def sample_iusb_def MAX_HDISK_INSTANCE_def sample_slot_def sample_pkt_def MAX_SCSI_DATA_def)

section \<open>Properties\<close>

text \<open>
  C36. The buffer of the data from the host is overrun by a host that announces and sends more than it
  holds: after the wrapper of a write, packets within the announced length are all stored when they fit
  in the buffer, and otherwise one of them is copied behind its end, whatever their sizes.
\<close>

theorem bot_data_overrun:
  assumes "disk_write t cbw" "rx_endpoint (udev s) ep i n" "31 \<le> n" "mass s = Some f"
    "length (CBW f) = 32" "ScsiDataOutLen f = 0" "length (ScsiData f) = MAX_SCSI_DATA"
    and "good_packets n ps" "length (concat ps) \<le> unat (dCBWDataTransferLength cbw)" "length cbw = 31"
  shows "deliver_all ep (cbw # ps) s = None \<longleftrightarrow> MAX_SCSI_DATA < length (concat ps)"
proof -
  have "length (ScsiData f) < 2 ^ 32" using assms(7) by (simp add: MAX_SCSI_DATA_def)
  then show ?thesis
    using deliver_all_write [OF assms(1-6) _ assms(8-10)] assms(7) by auto
qed

theorem bot_data_overrun_witness:
  "deliver_all 1 (big_wrapper # replicate 257 (replicate 512 7)) (sample_iusb [] (replicate 32 0)) = None"
proof -
  have c: "length (concat (replicate 257 (replicate 512 (7 :: u8)))) = 131584"
    by (simp add: length_concat sum_list_replicate)
  have g: "good_packets 512 (replicate 257 (replicate 512 7))" by (simp add: good_packets_def)
  have "deliver_all 1 (big_wrapper # replicate 257 (replicate 512 7)) (sample_iusb [] (replicate 32 0)) = None
    \<longleftrightarrow> MAX_SCSI_DATA < length (concat (replicate 257 (replicate 512 (7 :: u8))))"
    by (rule bot_data_overrun [where n = 512 and i = 0 and f = "sample_if (replicate 32 0)" and t = 0])
      (use c g in \<open>simp_all add: sample_write sample_rx sample_ready sample_rx_ready\<close>)
  then show ?thesis unfolding c by (simp add: MAX_SCSI_DATA_def)
qed

text \<open>
  C7. A whole write of the Bulk-Only Transport, with a packet size above 13 bytes: after the wrapper of a
  WRITE(10), packets that bring exactly the announced number of bytes, cut in any way, wake the thread
  once they are complete; the server of the disk is then given the command block, the tag and exactly
  the bytes of the packets; and whatever status it answers with, the host gets one status with the tag
  of its command, PASSED or FAILED, and no bytes missing.
\<close>

theorem bot_write_transaction:
  assumes "can_send s i m" "13 < m" "disk_ready n s" "mass s = Some f" "length (CBW f) = 32" "ScsiDataOutLen f = 0"
    "length (ScsiData f) = MAX_SCSI_DATA"
    and "disk_write t cbw" "device_type f (bCBWLUN cbw) = Some t" "rx_endpoint (udev s) ep j r" "31 \<le> r"
    and "good_packets r ps" "length (concat ps) = unat (dCBWDataTransferLength cbw)" "length (concat ps) \<le> MAX_SCSI_DATA"
    and "length (concat ps) \<le> length (Data (s_pkt (hdisk s ! n)))" "0 < k" "length cbw = 31"
  shows "\<exists>s1 s2 p xs. deliver_all ep (cbw # ps) s = Some s1 \<and> WakeupFlag s1 \<and>
    BotProcessHandler (obliging_host k) (RemoteScsiCall (obliging_host k) n) s1 = Some s2 \<and> on_wire (DataInEp s) [] s s2 \<and>
    RemoteWaitRequest False n (hdisk s2) = Some (0, Some p, xs) \<and>
    CommandPkt p @ StatusPkt p = CBWCB cbw \<and> TagNo p = dCBWTag cbw \<and> take (unat (DataLen p)) (Data p) = concat ps \<and>
    (\<forall>st key code cq. \<exists>s3.
       ScsiSendResponse (obliging_host k) (server_reply p [st, key, code, cq] []) (s2\<lparr>hdisk := xs\<rparr>) = Some (0, s3) \<and>
       on_wire (DataInEp s) [csw_bytes (dCBWTag cbw) (if st = 0 then CSW_PASSED else CSW_FAILED) 0] s s3)"
proof -
  have ne: "ps \<noteq> []" using assms(8,13) by (auto simp: disk_write_def unat_eq_zero)
  have cp: "complete ps (out_if cbw f)" using ne assms(13) by (simp add: complete_def out_if_def)
  let ?a = "announced ep cbw f s"
  let ?f = "collected_if ps (out_if cbw f)"
  let ?s1 = "collected ep ps (out_if cbw f) ?a"
  let ?s2 = "asked_write n t ?f ?s1"
  have fl: "length (ScsiData f) < 2 ^ 32" using assms(7) by (simp add: MAX_SCSI_DATA_def)
  have le: "length (concat ps) \<le> unat (dCBWDataTransferLength cbw)" using assms(13) by simp
  have a: "deliver_all ep (cbw # ps) s = Some ?s1"
    using deliver_all_write [OF assms(8,10,11,4,5,6) fl assms(12) le assms(17)] ne assms(7,14) by simp
  have ff: "CBW ?f = stored cbw f" "ScsiDataLen ?f = dCBWDataTransferLength cbw" "take (length (concat ps)) (ScsiData ?f) = concat ps"
    "length (ScsiData ?f) = MAX_SCSI_DATA" "device_type ?f (bCBWLUN cbw) = Some t"
    using assms(7,9,13,14) by (simp_all add: collected_if_def out_if_def device_type_def)
  have s1: "mass ?s1 = Some ?f" "WakeupFlag ?s1" "hdisk ?s1 = hdisk s" "DataInEp ?s1 = DataInEp s"
    "udev ?s1 = fold (usb_receive ep) ps (usb_receive ep cbw (udev s))" "gKernelModePktHD ?s1 = gKernelModePktHD s"
    using cp by (simp_all add: collected_def BotQueueDPC_def announced_def video_call_def Let_def)
  have op: "OpCode (CBWCB cbw) = SCSI_WRITE_10" "t AND 0x7F = IUSB_DEVICE_HARDDISK"
    using assms(8) by (auto simp: disk_write_def)
    have dr: "disk_ready n ?s1" using assms(3) by (simp add: disk_ready_def s1)
  have rc: "RemoteScsiCall env n (bCBWLUN (CBW ?f)) ?s1 = Some (0, ?s2)" for env :: "'a iusb_sys_scheme bot_env"
    by (rule RemoteScsiCall_write) (use assms(8,13-15,17) ff s1 dr in \<open>simp_all add: MAX_SCSI_DATA_def\<close>)
  have b: "BotProcessHandler (obliging_host k) (RemoteScsiCall (obliging_host k) n) ?s1 = Some ?s2"
    by (rule BotProcessHandler_remote [OF s1(1)]) (use op rc ff assms(17) in simp_all)
  let ?p = "write_request t ?f ?s1 (s_pkt (hdisk s ! n))"
  let ?x = "server_fetched n ?s2"
  have nn: "n < length (hdisk s)" "s_active (hdisk s ! n)" using assms(3) by (auto simp: disk_ready_def)
  have c: "RemoteWaitRequest False n (hdisk ?s2) = Some (0, Some ?p, hdisk ?x)"
    using nn assms(13,15) ff
    by (subst RemoteWaitRequest_ready) (simp_all add: asked_write_def server_fetched_def write_request_def s1)
  have eq: "?s2\<lparr>hdisk := hdisk ?x\<rparr> = ?x" by (simp add: server_fetched_def)
  have p: "DataDir ?p = WRITE_DEVICE" "TagNo ?p = dCBWTag cbw" "CommandPkt ?p @ StatusPkt ?p = CBWCB cbw"
    "SeqNo (Header ?p) = iusb_seq ?s1" "DeviceType (Header ?p) = t" "take (unat (DataLen ?p)) (Data ?p) = concat ps"
    using ff assms(13,14,17) by (simp_all add: write_request_def FormiUsbHeader_type)
  have d: "udev ?x = udev ?s1" "DataInEp ?x = DataInEp s" "CBWErrorOccur ?x = 0"
    "gKernelModePktHD ?x = gKernelModePktHD s" "mass ?x = Some (?f\<lparr>LastSeqNo := iusb_seq ?s1\<rparr>)"
    by (simp_all add: server_fetched_def asked_write_def s1)
  have "length cbw \<le> r" using assms(11,17) by simp
  then have tx: "tx_endpoint (udev ?s1) ep' i m = tx_endpoint (udev s) ep' i m" "wire (udev ?s1) = wire (udev s)" for ep'
    using fold_receive_tx [OF usb_receive_ok(2) [OF assms(10)] assms(12), of cbw] usb_receive_tx [OF assms(10)]
    by (simp_all add: s1)
  have cs: "can_send ?x i m" using assms(1) by (simp add: can_send_def d tx)
  have e: "\<exists>s3. ScsiSendResponse (obliging_host k) (server_reply ?p [st, key, code, cq] []) (?s2\<lparr>hdisk := hdisk ?x\<rparr>) = Some (0, s3) \<and>
      on_wire (DataInEp s) [csw_bytes (dCBWTag cbw) (if st = 0 then CSW_PASSED else CSW_FAILED) 0] s s3" for st key code cq
  proof -
    have "\<exists>s'. ScsiSendResponse (obliging_host k) (server_reply ?p [st, key, code, cq] []) ?x = Some (0, s') \<and>
      on_wire (DataInEp ?x) [csw_bytes (TagNo ?p) (if st = 0 then CSW_PASSED else CSW_FAILED) 0] ?x s'"
      by (rule ScsiSendResponse_status [OF cs assms(2) d(5) _ _ d(3) p(1) assms(16)]) (use p op in simp_all)
    then show ?thesis unfolding eq p(2) d on_wire_def tx .
  qed
  have w: "on_wire (DataInEp s) [] s ?s2" by (simp add: on_wire_def asked_write_def tx)
  show ?thesis
    by (rule exI [of _ ?s1], rule exI [of _ ?s2], rule exI [of _ ?p], rule exI [of _ "hdisk ?x"])
      (intro conjI a s1(2) b w c p(2,3,6) allI e)
qed

theorem bot_write_transaction_witness:
  "\<exists>s1 s2 p xs s3. deliver_all 1 (sample_wrapper 2 0 0 0x2A 1 # replicate 8 (replicate 64 5)) (sample_iusb [] (replicate 32 0)) = Some s1 \<and>
    BotProcessHandler (obliging_host 1) (RemoteScsiCall (obliging_host 1) 0) s1 = Some s2 \<and>
    RemoteWaitRequest False 0 (hdisk s2) = Some (0, Some p, xs) \<and> take (unat (DataLen p)) (Data p) = replicate 512 5 \<and>
    ScsiSendResponse (obliging_host 1) (server_reply p [1, 0, 0, 0] []) (s2\<lparr>hdisk := xs\<rparr>) = Some (0, s3) \<and>
    on_wire 2 [csw_bytes 0x1234 CSW_FAILED 0] (sample_iusb [] (replicate 32 0)) s3"
proof -
  let ?w = "sample_wrapper 2 0 0 0x2A 1" and ?ps = "replicate 8 (replicate 64 (5 :: u8))"
  let ?s = "sample_iusb [] (replicate 32 0)"
  have l: "length (concat ?ps) = 512" by (simp add: length_concat sum_list_replicate)
  have c: "concat ?ps = replicate 512 5"
    using l by (intro replicate_eqI) (auto split: if_splits)
  have g: "good_packets 512 ?ps" by (simp add: good_packets_def)
  have "\<exists>s1 s2 p xs. deliver_all 1 (?w # ?ps) ?s = Some s1 \<and> WakeupFlag s1 \<and>
    BotProcessHandler (obliging_host 1) (RemoteScsiCall (obliging_host 1) 0) s1 = Some s2 \<and> on_wire (DataInEp ?s) [] ?s s2 \<and>
    RemoteWaitRequest False 0 (hdisk s2) = Some (0, Some p, xs) \<and>
    CommandPkt p @ StatusPkt p = CBWCB ?w \<and> TagNo p = dCBWTag ?w \<and> take (unat (DataLen p)) (Data p) = concat ?ps \<and>
    (\<forall>st key code cq. \<exists>s3.
       ScsiSendResponse (obliging_host 1) (server_reply p [st, key, code, cq] []) (s2\<lparr>hdisk := xs\<rparr>) = Some (0, s3) \<and>
       on_wire (DataInEp ?s) [csw_bytes (dCBWTag ?w) (if st = 0 then CSW_PASSED else CSW_FAILED) 0] ?s s3)"
    by (rule bot_write_transaction [where f = "sample_if (replicate 32 0)" and t = 0 and i = "Suc 0" and m = 64 and j = 0 and r = 512])
      (use g l in \<open>simp_all add: sample_ready sample_rx sample_rx_ready sample_write sample_read MAX_SCSI_DATA_def del: length_concat\<close>)
  then obtain s1 s2 p xs where t: "deliver_all 1 (?w # ?ps) ?s = Some s1"
    "BotProcessHandler (obliging_host 1) (RemoteScsiCall (obliging_host 1) 0) s1 = Some s2"
    "RemoteWaitRequest False 0 (hdisk s2) = Some (0, Some p, xs)" "take (unat (DataLen p)) (Data p) = concat ?ps"
    and a: "\<And>st key code cq. \<exists>s3.
       ScsiSendResponse (obliging_host 1) (server_reply p [st, key, code, cq] []) (s2\<lparr>hdisk := xs\<rparr>) = Some (0, s3) \<and>
       on_wire (DataInEp ?s) [csw_bytes (dCBWTag ?w) (if st = 0 then CSW_PASSED else CSW_FAILED) 0] ?s s3"
    by blast
  show ?thesis
    using t a [of 1 0 0 0] unfolding c by (auto simp: sample_ready sample_read)
qed

end
