(* ===== verification/UsbStatus.thy ===== *)
theory UsbStatus imports UsbOut begin

text \<open>
  Further properties of the virtual mass storage devices: transfers, the headers of the packets to the
  servers, and commands whose wrapper, length or logical unit is not what the device expects.
\<close>

unbundle bit_operations_syntax

section \<open>Transfers\<close>

text \<open>
  C24. A blocking write to a bulk endpoint returns 0 once a host has taken its packets, and has then put
  the buffer on the wire in order, in full packets and one last one: it is short, possibly of no bytes,
  when the caller asks for a packet to end the transfer, and otherwise between one byte and full. The
  length divided by the packet size, and one more, bounds the packets; the endpoint is idle again.
\<close>

theorem usb_write_packets:
  assumes "tx_endpoint d ep i m" "unat len \<le> length b" "len \<noteq> 0 \<or> z" "unat len div m < n"
  shows "\<exists>ps d'. UsbWriteData (host_takes n) ep (Some b) len z d = Some (0, d') \<and>
    wire d' = wire d @ map (Pair ep) ps \<and> concat ps = take (unat len) b \<and> packet_shape m z ps \<and>
    length ps \<le> unat len div m + 1 \<and>
    tx_endpoint d' ep i m \<and> TxData (EndPoint d' ! i) = None \<and> TxReady (EndPoint d' ! i)"
proof -
  let ?b = "take (unat len) b"
  have m: "0 < m" using assms(1) by (auto simp: tx_endpoint_def)
  have z: "?b \<noteq> [] \<or> z" using assms(2,3) by (auto simp: unat_eq_zero)
  have l: "length (usb_packets m z ?b) \<le> unat len div m + 1"
    using usb_packets_length [OF m z] assms(2) by simp
  have i: "i < length (EndPoint d)" by (rule tx_endpoint_range [OF assms(1)])
  let ?d = "tx_sent ep i None len z len True (usb_packets m z ?b) d"
  have w: "UsbWriteData (host_takes n) ep (Some b) len z d = Some (0, ?d)"
    by (rule UsbWriteData_packets [OF assms(1-3)]) (use l assms(4) in simp)
  have "wire ?d = wire d @ map (Pair ep) (usb_packets m z ?b)" by (simp add: tx_sent_def)
  then show ?thesis
    using w usb_packets_spec [OF m z] l i tx_endpoint_sent [OF assms(1)]
    by (intro exI [of _ "usb_packets m z ?b"] exI [of _ ?d]) simp
qed

theorem usb_write_packets_witness:
  "\<exists>ps d'. UsbWriteData (host_takes 3) 2 (Some (replicate 130 7)) 128 True (sample_usb []) = Some (0, d') \<and>
    wire d' = map (Pair 2) ps \<and> concat ps = replicate 128 7 \<and> packet_shape 64 True ps \<and> length ps \<le> 3"
proof -
  have t: "take 128 (replicate 130 (7 :: u8)) = replicate 128 7" by (simp add: take_replicate)
  show ?thesis
    using usb_write_packets [OF sample_usb_tx [of "[]"], of 128 "replicate 130 7" True 3]
    by (auto simp: t sample_usb_def)
qed

text \<open>
  A blocking write of no bytes, without a packet to end the transfer, never puts anything on the
  wire: however many packets the host would take, the writer sleeps until its timeout and fails.
\<close>

theorem usb_empty_write_times_out:
  assumes "tx_endpoint d ep i m"
  shows "\<exists>d'. UsbWriteData (host_takes n) ep (Some b) 0 False d = Some (1, d') \<and> wire d' = wire d"
proof -
  have g: "GetEndPointIndex d ep DIR_IN = Some i" using assms by (simp add: tx_endpoint_def)
  have s: "(set_ep i (load_ep (Some b) 0 False (EndPoint d ! i)) d)\<lparr>BlockingSend := True\<rparr>
      = tx_sent ep i (Some b) 0 False 0 False [] d"
    by (simp add: set_ep_def load_ep_def tx_sent_def tx_at_def)
  have hid: "\<not> IsDevHid (tx_sent ep i (Some b) 0 False 0 False [] d)"
    using assms by (simp add: tx_endpoint_def tx_sent_def)
  have "UsbWriteData (host_takes n) ep (Some b) 0 False d
    = Some (1, set_ep i (tx_at None 0 False 0 True (EndPoint d ! i)) (tx_sent ep i (Some b) 0 False 0 False [] d))"
    using assms hid tx_endpoint_range [OF assms]
    by (simp add: UsbWriteData_def UsbWriteData_start_def g s HandleTxData_nothing [OF assms]
        host_takes_nothing [OF assms] UsbWriteData_end_def tx_endpoint_def)
  then show ?thesis by (simp add: set_ep_def tx_sent_def)
qed

theorem usb_empty_write_times_out_witness:
  "\<exists>d'. UsbWriteData (host_takes 45) 2 (Some (replicate 255 0)) 0 False (sample_usb []) = Some (1, d') \<and> wire d' = []"
  using usb_empty_write_times_out [OF sample_usb_tx [of "[]"], of 45 "replicate 255 0"] by (simp add: sample_usb_def)

section \<open>Headers\<close>

lemma sum_header: "sum_list (header_bytes (h\<lparr>HeaderCheckSum := c\<rparr>)) = sum_list (header_bytes (h\<lparr>HeaderCheckSum := 0\<rparr>)) + c"
  by (simp add: header_bytes_def algebra_simps)

text \<open>
  The bytes of every iUSB header sum to 0, the check the server makes, and are as many as the header
  says; the header carries the sequence number it is given, and as long as that is neither 0 nor the
  greatest number, so is the one after it: 0 only ever means that no response is awaited.
\<close>

theorem iusb_header_sums:
  assumes "seq \<noteq> 0" "seq \<noteq> 0xffffffff" "FormiUsbHeader len dn ifn t pr seq = (h, next_seq)"
  shows "sum_list (header_bytes h) = 0 \<and> length (header_bytes h) = unat (HeaderLen h) \<and> SeqNo h = seq \<and>
    next_seq \<noteq> 0 \<and> next_seq \<noteq> 0xffffffff"
proof -
  define h0 where "h0 = \<lparr>Signature = map of_char ''IUSB    '', Major = 1, Minor = 0, HeaderLen = of_nat sizeof_HEADER,
      HeaderCheckSum = 0, DataPktLen = len, ServerCaps = 0, DeviceType = t, Protocol = pr,
      Direction = TO_REMOTE, DeviceNo = dn, InterfaceNo = ifn, ClientData = 0, Instance = 0, SeqNo = seq, Key = 0\<rparr>"
  have h: "HeaderCheckSum h0 = 0" "SeqNo h0 = seq" "HeaderLen h0 = 32" "length (Signature h0) = 8"
    by (simp_all add: h0_def sizeof_HEADER_def)
  have e: "h = h0\<lparr>HeaderCheckSum := - sum_list (header_bytes h0)\<rparr>" "next_seq = (if seq + 1 = 0xffffffff then 1 else seq + 1)"
    using assms(3) by (auto simp: FormiUsbHeader_def Let_def CalculateModulo100_def h0_def)
  have z: "h0\<lparr>HeaderCheckSum := 0\<rparr> = h0" using h(1) by (cases h0) simp
  have "sum_list (header_bytes h) = 0"
    unfolding e(1) sum_header z by simp
  moreover have "length (header_bytes h) = unat (HeaderLen h)"
    by (simp add: e(1) h header_bytes_def bytes32_def)
  moreover have "seq + 1 \<noteq> 0"
  proof
    assume "seq + 1 = 0"
    then have "seq = - 1" by (simp add: eq_neg_iff_add_eq_0)
    then show False using assms(2) by simp
  qed
  ultimately show ?thesis using e h(2) by auto
qed

theorem iusb_header_sums_witness:
  "\<exists>h. FormiUsbHeader 29 1 0 5 1 0xfffffffe = (h, 1) \<and> sum_list (header_bytes h) = 0 \<and> SeqNo h = 0xfffffffe"
proof -
  obtain h s where h: "FormiUsbHeader 29 1 0 5 1 0xfffffffe = (h, s)" by fastforce
  then have "s = 1" by (auto simp: FormiUsbHeader_def Let_def)
  then show ?thesis using h iusb_header_sums [OF _ _ h] by auto
qed

section \<open>Inquiry\<close>

lemma BotSetScsiErrorCode_sels [simp]:
  "udev (BotSetScsiErrorCode k c q s) = udev s" "DataInEp (BotSetScsiErrorCode k c q s) = DataInEp s"
  "mass (BotSetScsiErrorCode k c q s) = map_option (\<lambda>m. m\<lparr>SenseKey := k, SenseCode := c, SenseCodeQ := q\<rparr>) (mass s)"
  by (simp_all add: BotSetScsiErrorCode_def)

lemma send_size_le: "unat (send_size r n) = min (unat r) n"
proof (cases "n < unat r")
  case True
  then show ?thesis using unat_lt_32 [of r] by (simp add: send_size_def unat_of_nat take_bit_nat_eq_self)
qed (simp add: send_size_def)

lemma less_remain_size: "less_remain r (send_size r n) = r - send_size r n"
  by (auto simp: less_remain_def word_less_nat_alt word_unat_eq_iff unat_sub_if_size send_size_le)

text \<open>
  An INQUIRY of a host that asks for some bytes is answered with the stored inquiry packet of the
  logical unit it names, cut to the length asked for, its additional length set to 31, and a status
  with the bytes that are missing. The unit is not checked: one beyond the stored packets makes the
  device write outside them.
\<close>

theorem bot_inquiry_unit:
  assumes "can_send s i m" "13 < m" "mass s = Some f" "bmCBWFlags (CBW f) \<noteq> 0" "OpCode (CBWCB (CBW f)) = SCSI_INQUIRY"
    and "dCBWDataTransferLength (CBW f) \<noteq> 0" "\<forall>q\<in>set (Inquiry f). length q = sizeof_INQUIRY" "sizeof_INQUIRY div m < k"
  shows "if unat (bCBWLUN (CBW f)) < length (Inquiry f)
    then (let n = send_size (dCBWDataTransferLength (CBW f)) sizeof_INQUIRY
          in \<exists>s'. BotProcessHandler (obliging_host k) remote s = Some s' \<and>
            on_wire (DataInEp s) (usb_packets m False (take (unat n) ((Inquiry f ! unat (bCBWLUN (CBW f)))[4 := 31])) @
              [csw_bytes (dCBWTag (CBW f)) CSW_PASSED (dCBWDataTransferLength (CBW f) - n)]) s s')
    else BotProcessHandler (obliging_host k) remote s = None"
proof -
  let ?lun = "bCBWLUN (CBW f)" and ?r = "dCBWDataTransferLength (CBW f)" and ?tag = "dCBWTag (CBW f)"
  let ?n = "send_size ?r sizeof_INQUIRY" and ?env = "obliging_host k :: 'a bot_sys_scheme bot_env"
  have p: "BotProcessHandler ?env remote s = BotReply ?env (CBW f) (BotInquiry ?env (DataInEp s) ?r ?lun) s"
    using assms(3,5) by (simp add: BotProcessHandler_def Let_def)
  show ?thesis
  proof (cases "unat ?lun < length (Inquiry f)")
    case False
    then show ?thesis using assms(3,4) p by (simp add: BotReply_def BotInquiry_def arr_simps)
  next
    case True
    let ?q = "(Inquiry f ! unat ?lun)[4 := 31]"
    let ?s1 = "s\<lparr>mass := Some (f\<lparr>Inquiry := (Inquiry f)[unat ?lun := ?q]\<rparr>)\<rparr>"
    let ?ps = "usb_packets m False (take (unat ?n) ?q)"
    let ?s2 = "BotSetScsiErrorCode 0 0 0 (?s1\<lparr>udev := tx_sent (DataInEp s) i None ?n False ?n True ?ps (udev s)\<rparr>)"
    have q: "length ?q = sizeof_INQUIRY" using assms(7) True by simp
    have u0: "unat ?n \<noteq> 0"
      unfolding send_size_le using assms(6) by (simp add: sizeof_INQUIRY_def min_def unat_eq_zero unat_gt_0)
    have n1: "unat ?n \<le> length ?q" unfolding q send_size_le by simp
    have n2: "?n \<noteq> 0" using u0 unat_0 by metis
    note n = n1 n2
    have q0: "?q \<noteq> []" 
    proof
      assume "?q = []"
      then have "length ?q = 0" by (rule arg_cong [where f = length, THEN trans]) simp
      then show False using q by (simp add: sizeof_INQUIRY_def)
    qed
    have t: "take (unat ?n) ?q \<noteq> []" using q0 n(2) by (simp add: take_eq_Nil2 unat_eq_zero)
    have "length ?ps \<le> min (unat ?r) sizeof_INQUIRY div m + 1"
      using usb_packets_length [of m "take (unat ?n) ?q" False] t assms(2) q by (simp add: send_size_le)
    also have "... \<le> k" using div_le_mono [of "min (unat ?r) sizeof_INQUIRY" sizeof_INQUIRY m] assms(8) by linarith
    finally have l: "length ?ps \<le> k" .
    have c: "can_send ?s1 i m" using assms(1) by (simp add: can_send_def)
    have w: "bot_write ?env (DataInEp s) ?q ?n False ?s1
        = Some (0, ?s1\<lparr>udev := tx_sent (DataInEp s) i None ?n False ?n True ?ps (udev s)\<rparr>)"
      using bot_write_sends [OF c n(1), of False k] n(2) l by simp
    have c2: "can_send ?s2 i m" by (rule can_send_sent [OF assms(1)]) auto
    have b: "BotInquiry ?env (DataInEp s) ?r ?lun s = Some (0, ?r - ?n, ?s2)"
      using assms(3) True w by (simp add: BotInquiry_def arr_simps Let_def less_remain_size)
    have x: "BotSendCSW ?env ?tag CSW_PASSED (?r - ?n) ?s2
        = Some (0, csw_sent i (csw_bytes ?tag CSW_PASSED (?r - ?n)) (if ?r - ?n \<noteq> 0 then stalled ?s2 else ?s2))"
      by (rule BotSendCSW_obliging [OF c2 assms(2)]) (use assms(8) in auto)
    have "BotProcessHandler ?env remote s
        = Some (csw_sent i (csw_bytes ?tag CSW_PASSED (?r - ?n)) (if ?r - ?n \<noteq> 0 then stalled ?s2 else ?s2))"
      using p b x assms(4) by (simp add: BotReply_def)
    then show ?thesis
      using True by (simp add: Let_def on_wire_def csw_sent_def stalled_def tx_sent_def UsbStallEp_def)
  qed
qed

definition sample_inquiry :: "u8 \<Rightarrow> u8 list" where
  "sample_inquiry lun = stored (sample_wrapper 1 0x80 lun 0x12 0) (sample_if (replicate 32 0))"

lemma inquiry_wrapper:
  "bmCBWFlags (sample_wrapper 1 0x80 lun 0x12 0) \<noteq> 0" "OpCode (CBWCB (sample_wrapper 1 0x80 lun 0x12 0)) = SCSI_INQUIRY"
  by (simp_all add: sample_wrapper_def bmCBWFlags_def OpCode_def CBWCB_def SCSI_INQUIRY_def)

lemma sample_inquiry_fields:
  "Inquiry (sample_if cbw) = [replicate sizeof_INQUIRY 0]" "bmCBWFlags (sample_inquiry lun) \<noteq> 0"
  "OpCode (CBWCB (sample_inquiry lun)) = SCSI_INQUIRY" "bCBWLUN (sample_inquiry lun) = lun"
  "dCBWDataTransferLength (sample_inquiry lun) = 256"
  unfolding sample_inquiry_def
  by (simp_all add: sample_read inquiry_wrapper) (simp add: sample_if_def)

theorem bot_inquiry_unit_witness:
  "(\<exists>s'. BotProcessHandler (obliging_host 9) (RemoteScsiCall (obliging_host 9) 0) (sample_iusb [] (sample_inquiry 0)) = Some s') \<and>
   BotProcessHandler (obliging_host 9) (RemoteScsiCall (obliging_host 9) 0) (sample_iusb [] (sample_inquiry 1)) = None"
proof -
  have u: "unat (1 :: u8) = 1" by simp
  show ?thesis
    using bot_inquiry_unit [of "sample_iusb [] (sample_inquiry 0)" "Suc 0" 64 "sample_if (sample_inquiry 0)" 9
        "RemoteScsiCall (obliging_host 9) 0"]
      bot_inquiry_unit [of "sample_iusb [] (sample_inquiry 1)" "Suc 0" 64 "sample_if (sample_inquiry 1)" 9
        "RemoteScsiCall (obliging_host 9) 0"]
    by (auto simp: sample_ready sample_inquiry_fields Let_def sizeof_INQUIRY_def simp del: replicate_Suc)
qed

section \<open>Wrappers and commands that disagree\<close>

lemma ScsiSendResponse_failed:
  assumes s: "can_send s i m" and m: "13 < m" and x: "mass s = Some f" and q: "LastSeqNo f = SeqNo (Header p)"
    and t: "DeviceType (Header p) AND 0x7F = IUSB_DEVICE_HARDDISK" and c: "CBWErrorOccur s = 1"
    and n: "length dat \<le> length (Data (gKernelModePktHD s))" "length dat < 2 ^ 32" and k: "0 < k"
  shows "\<exists>s'. ScsiSendResponse (obliging_host k) (server_reply p [st, key, code, cq] dat) s = Some (0, s') \<and>
    on_wire (DataInEp s) [csw_bytes (TagNo p) CSW_FAILED (DataOutLen s)] s s'"
proof -
  let ?u = "server_reply p [st, key, code, cq] dat"
  let ?p = "?u\<lparr>Data := dat @ drop (length dat) (Data (gKernelModePktHD s))\<rparr>"
  have u: "unat (of_nat (length dat) :: u32) = length dat"
    using n(2) by (simp add: unat_of_nat take_bit_nat_eq_self)
  have cd: "DeviceType (Header ?u) AND 0x7F \<noteq> IUSB_DEVICE_CDROM"
    using t by (simp add: server_reply_def IUSB_DEVICE_HARDDISK_def IUSB_DEVICE_CDROM_def)
  have cp: "copy_scsi_response (gKernelModePktHD s) ?u = Some ?p"
    using n(1) u by (simp add: copy_scsi_response_def server_reply_def Let_def)
  let ?s = "BotSetScsiErrorCode key code cq (s\<lparr>gKernelModePktHD := ?p, mass := Some (f\<lparr>LastSeqNo := 0\<rparr>)\<rparr>)"
  let ?t = "?s\<lparr>CBWErrorOccur := 0, TestCase := NO_ERRORCASE\<rparr>"
  have ud: "udev ?t = udev s" "DataInEp ?t = DataInEp s" "CBWErrorOccur ?s = 1" "DataOutLen ?s = DataOutLen s" "mass ?t \<noteq> None"
    using c by (simp_all add: BotSetScsiErrorCode_def set_mass_def)
  have cs: "can_send ?t i m" using s by (simp add: can_send_def ud)
  have "ScsiSendResponse (obliging_host k) ?u s = BotSendCSW (obliging_host k) (TagNo p) CSW_FAILED (DataOutLen s) ?t"
    using cd cp x q ud(3,4) [unfolded server_reply_def]
    by (simp add: ScsiSendResponse_def Let_def server_reply_def)
  also have "... = Some (0, csw_sent i (csw_bytes (TagNo p) CSW_FAILED (DataOutLen s)) (if DataOutLen s \<noteq> 0 then stalled ?t else ?t))"
    by (rule BotSendCSW_obliging [OF cs m k ud(5)])
  finally have r: "ScsiSendResponse (obliging_host k) ?u s
    = Some (0, csw_sent i (csw_bytes (TagNo p) CSW_FAILED (DataOutLen s)) (if DataOutLen s \<noteq> 0 then stalled ?t else ?t))" .
  show ?thesis
    unfolding r by (simp add: on_wire_def csw_sent_def tx_sent_def ud stalled_def UsbStallEp_def)
qed

text \<open>
  A READ(10) whose command block asks for fewer bytes than its wrapper (case 5 of the transport
  specification) goes to the server of the disk all the same, but whatever the server answers, the host
  gets no data and one status, FAILED with a residue of the length of the wrapper less 5, however many
  bytes the command block asked for.
\<close>

theorem bot_read_shorter_than_wrapper:
  assumes "can_send s i m" "13 < m" "disk_ready n s" "mass s = Some f" "length (CBW f) = 32" "ScsiDataOutLen f = 0"
    and "disk_read_cmd t cbw" "device_type f (bCBWLUN cbw) = Some t" "usb_received ep cbw (udev s)" "0 < k"
    and "0 < block_bytes t (CBWCB cbw) 0" "block_bytes t (CBWCB cbw) 0 < dCBWDataTransferLength cbw" "length cbw = 31"
  shows "\<exists>s1 s2 p xs. BotRxHandler ep s = Some s1 \<and> WakeupFlag s1 \<and>
    BotProcessHandler (obliging_host k) (RemoteScsiCall (obliging_host k) n) s1 = Some s2 \<and> on_wire (DataInEp s) [] s s2 \<and>
    RemoteWaitRequest False n (hdisk s2) = Some (0, Some p, xs) \<and> CommandPkt p @ StatusPkt p = CBWCB cbw \<and>
    (\<forall>dat st key code cq. length dat \<le> length (Data (gKernelModePktHD s)) \<longrightarrow> length dat < 2 ^ 32 \<longrightarrow>
       (\<exists>s3. ScsiSendResponse (obliging_host k) (server_reply p [st, key, code, cq] dat) (s2\<lparr>hdisk := xs\<rparr>) = Some (0, s3) \<and>
          on_wire (DataInEp s) [csw_bytes (dCBWTag cbw) CSW_FAILED (dCBWDataTransferLength cbw - 5)] s s3))"
proof -
  let ?s2 = "after_read n t cbw f s" and ?p = "read_packet n t cbw f s"
  let ?x = "server_fetched n ?s2"
  have n0: "dCBWDataTransferLength cbw \<noteq> 0" using assms(12) by auto
  have v: "fst (read_verdict t cbw (TestCase s)) = 1" "fst (snd (read_verdict t cbw (TestCase s))) = dCBWDataTransferLength cbw - 5"
    and h: "t AND 0x7F = IUSB_DEVICE_HARDDISK"
    using assms(7,11,12) n0 by (auto simp: disk_read_cmd_def read_verdict_def Let_def error_case_def)
  note reach = read_reaches_server [OF assms(3-9,13)]
  note d = after_read_fetched [of n t cbw f s]
  have cs: "can_send ?x i m" using assms(1) by (simp add: can_send_def d)
  have e: "\<exists>s3. ScsiSendResponse (obliging_host k) (server_reply ?p [st, key, code, cq] dat) (?s2\<lparr>hdisk := hdisk ?x\<rparr>) = Some (0, s3) \<and>
      on_wire (DataInEp s) [csw_bytes (dCBWTag cbw) CSW_FAILED (dCBWDataTransferLength cbw - 5)] s s3"
    if y: "length dat \<le> length (Data (gKernelModePktHD s))" "length dat < 2 ^ 32" for dat st key code cq
  proof -
    have "\<exists>s'. ScsiSendResponse (obliging_host k) (server_reply ?p [st, key, code, cq] dat) ?x = Some (0, s') \<and>
      on_wire (DataInEp ?x) [csw_bytes (TagNo ?p) CSW_FAILED (DataOutLen ?x)] ?x s'"
      by (rule ScsiSendResponse_failed [OF cs assms(2) d(7) _ _ _ _ y(2) assms(10)]) (use v h d y in simp_all)
    then show ?thesis unfolding d read_packet_sels v on_wire_def .
  qed
  have b: "BotProcessHandler (obliging_host k) (RemoteScsiCall (obliging_host k) n) (queued cbw f s) = Some ?s2"
    by (rule reach(2)) (simp add: v)
  show ?thesis
    by (rule exI [of _ "queued cbw f s"], rule exI [of _ ?s2], rule exI [of _ ?p], rule exI [of _ "hdisk ?x"])
      (intro conjI allI impI reach(1,3,4) queued_sels(2) read_packet_sels b e)
qed

theorem bot_read_shorter_than_wrapper_witness:
  "\<exists>s1 s2 p xs s3. BotRxHandler 1 (sample_iusb (sample_wrapper 4 0x80 0 0x28 1) (replicate 32 0)) = Some s1 \<and>
    BotProcessHandler (obliging_host 9) (RemoteScsiCall (obliging_host 9) 0) s1 = Some s2 \<and>
    RemoteWaitRequest False 0 (hdisk s2) = Some (0, Some p, xs) \<and>
    ScsiSendResponse (obliging_host 9) (server_reply p [0, 0, 0, 0] (replicate 512 7)) (s2\<lparr>hdisk := xs\<rparr>) = Some (0, s3) \<and>
    on_wire 2 [csw_bytes 0x1234 CSW_FAILED 1019] (sample_iusb (sample_wrapper 4 0x80 0 0x28 1) (replicate 32 0)) s3"
proof -
  let ?w = "sample_wrapper 4 0x80 0 0x28 1"
  let ?s = "sample_iusb ?w (replicate 32 0)"
  have "\<exists>s1 s2 p xs. BotRxHandler 1 ?s = Some s1 \<and> WakeupFlag s1 \<and>
    BotProcessHandler (obliging_host 9) (RemoteScsiCall (obliging_host 9) 0) s1 = Some s2 \<and> on_wire (DataInEp ?s) [] ?s s2 \<and>
    RemoteWaitRequest False 0 (hdisk s2) = Some (0, Some p, xs) \<and> CommandPkt p @ StatusPkt p = CBWCB ?w \<and>
    (\<forall>dat st key code cq. length dat \<le> length (Data (gKernelModePktHD ?s)) \<longrightarrow> length dat < 2 ^ 32 \<longrightarrow>
       (\<exists>s3. ScsiSendResponse (obliging_host 9) (server_reply p [st, key, code, cq] dat) (s2\<lparr>hdisk := xs\<rparr>) = Some (0, s3) \<and>
          on_wire (DataInEp ?s) [csw_bytes (dCBWTag ?w) CSW_FAILED (dCBWDataTransferLength ?w - 5)] ?s s3))"
    by (rule bot_read_shorter_than_wrapper [where f = "sample_if (replicate 32 0)" and t = 0 and i = "Suc 0" and m = 64])
      (simp_all add: sample_ready sample_read sample_received word_less_nat_alt)
  then obtain s1 s2 p xs where t: "BotRxHandler 1 ?s = Some s1"
    "BotProcessHandler (obliging_host 9) (RemoteScsiCall (obliging_host 9) 0) s1 = Some s2"
    "RemoteWaitRequest False 0 (hdisk s2) = Some (0, Some p, xs)"
    and a: "\<And>dat st key code cq. length dat \<le> length (Data (gKernelModePktHD ?s)) \<Longrightarrow> length dat < 2 ^ 32 \<Longrightarrow>
       \<exists>s3. ScsiSendResponse (obliging_host 9) (server_reply p [st, key, code, cq] dat) (s2\<lparr>hdisk := xs\<rparr>) = Some (0, s3) \<and>
          on_wire (DataInEp ?s) [csw_bytes (dCBWTag ?w) CSW_FAILED (dCBWDataTransferLength ?w - 5)] ?s s3"
    by blast
  show ?thesis
    using t a [of "replicate 512 7" 0 0 0 0] by (auto simp: sample_ready sample_read)
qed

text \<open>
  A READ(10) whose command block asks for more bytes than its wrapper, including one whose wrapper asks for
  none, is a phase error: the host gets one status with the tag of its command and the length of the
  wrapper as its residue at once, and the server of the disk is not woken.
\<close>

theorem bot_read_phase_error:
  assumes "can_send s i m" "13 < m" "disk_ready n s" "mass s = Some f" "length (CBW f) = 32" "ScsiDataOutLen f = 0"
    and "disk_read_cmd t cbw" "device_type f (bCBWLUN cbw) = Some t" "usb_received ep cbw (udev s)" "0 < k"
    and "dCBWDataTransferLength cbw < block_bytes t (CBWCB cbw) 0" "length cbw = 31"
  shows "\<exists>s1 s2. BotRxHandler ep s = Some s1 \<and> WakeupFlag s1 \<and>
    BotProcessHandler (obliging_host k) (RemoteScsiCall (obliging_host k) n) s1 = Some s2 \<and>
    on_wire (DataInEp s) [csw_bytes (dCBWTag cbw) CSW_PHASE_ERROR (dCBWDataTransferLength cbw)] s s2 \<and>
    s_wakeup (hdisk s2 ! n) = s_wakeup (hdisk s ! n)"
proof -
  let ?f = "f\<lparr>CBW := stored cbw f\<rparr>" and ?q = "queued cbw f s"
  let ?v = "read_verdict t cbw (TestCase s)" and ?tag = "dCBWTag cbw" and ?len = "dCBWDataTransferLength cbw"
  let ?a = "(asked ?v False n t ?f ?q)\<lparr>CBWErrorOccur := 0, TestCase := NO_ERRORCASE\<rparr>"
  let ?s2 = "csw_sent i (csw_bytes ?tag CSW_PHASE_ERROR ?len) (if ?len \<noteq> 0 then stalled ?a else ?a)"
  have v: "fst ?v = 2"
    using assms(7,11) by (auto simp: disk_read_cmd_def read_verdict_def Let_def error_case_def)
  have op: "OpCode (CBWCB cbw) = SCSI_READ_10" using assms(7) by (simp add: disk_read_cmd_def)
  have r: "disk_read_cmd t (CBW ?f)" "device_type ?f (bCBWLUN cbw) = Some t" "mass ?q = Some ?f" "disk_ready n ?q"
    using assms by (simp_all add: device_type_def disk_ready_def)
  have n: "n < length (hdisk s)" using assms(3) by (simp add: disk_ready_def)
  have ca: "can_send ?a i m" using assms(1) by (simp add: can_send_def asked_def asked_s_def)
  have "BotSendCSW (obliging_host k) ?tag CSW_PHASE_ERROR ?len ?a = Some (0, ?s2)"
    by (rule BotSendCSW_obliging [OF ca assms(2,10)]) (simp add: asked_def asked_s_def)
  then have "RemoteScsiCall (obliging_host k) n (bCBWLUN cbw) ?q = Some (0, ?s2)"
    using RemoteScsiCall_read(2) [OF r] v assms(12) by simp
  then have b: "BotProcessHandler (obliging_host k) (RemoteScsiCall (obliging_host k) n) ?q = Some ?s2"
    by (intro BotProcessHandler_remote [OF r(3)]) (simp_all add: op assms(12))
  have "on_wire (DataInEp s) [csw_bytes ?tag CSW_PHASE_ERROR ?len] s ?s2 \<and> s_wakeup (hdisk ?s2 ! n) = s_wakeup (hdisk s ! n)"
    using n by (simp add: on_wire_def csw_sent_def stalled_def tx_sent_def UsbStallEp_def asked_def asked_s_def set_mass_def)
  then show ?thesis
    using b read_reaches_server(1) [OF assms(3-9,12)] queued_sels(2) by blast
qed

theorem bot_read_phase_error_witness:
  "\<exists>s1 s2. BotRxHandler 1 (sample_iusb (sample_wrapper 1 0x80 0 0x28 1) (replicate 32 0)) = Some s1 \<and>
    BotProcessHandler (obliging_host 1) (RemoteScsiCall (obliging_host 1) 0) s1 = Some s2 \<and>
    on_wire 2 [csw_bytes 0x1234 CSW_PHASE_ERROR 256] (sample_iusb (sample_wrapper 1 0x80 0 0x28 1) (replicate 32 0)) s2"
proof -
  let ?w = "sample_wrapper 1 0x80 0 0x28 1"
  let ?s = "sample_iusb ?w (replicate 32 0)"
  have "\<exists>s1 s2. BotRxHandler 1 ?s = Some s1 \<and> WakeupFlag s1 \<and>
    BotProcessHandler (obliging_host 1) (RemoteScsiCall (obliging_host 1) 0) s1 = Some s2 \<and>
    on_wire (DataInEp ?s) [csw_bytes (dCBWTag ?w) CSW_PHASE_ERROR (dCBWDataTransferLength ?w)] ?s s2 \<and>
    s_wakeup (hdisk s2 ! 0) = s_wakeup (hdisk ?s ! 0)"
    by (rule bot_read_phase_error [where f = "sample_if (replicate 32 0)" and t = 0 and i = "Suc 0" and m = 64])
      (simp_all add: sample_ready sample_read sample_received word_less_nat_alt)
  then show ?thesis by (auto simp: sample_ready sample_read)
qed

end
