(* ===== verification/UsbDesc.thy ===== *)
theory UsbDesc imports UsbCore begin

text \<open>
  The descriptors of a USB device (usbe-src/descriptors.c): the table in which a device module builds
  them, the choice of the endpoints, and the searches the core makes in the finished table. One device:
  \<open>DevNo\<close> is left out. A pointer into the descriptor buffer is an index, NULL is \<open>None\<close>; the outer
  \<open>None\<close> of a search is an access outside the buffer, or a loop that does not end.
\<close>

unbundle bit_operations_syntax

section \<open>Constants and state\<close>

definition DEVICE :: u8 where "DEVICE = 0x01"
definition CONFIGURATION :: u8 where "CONFIGURATION = 0x02"
definition STRING :: u8 where "STRING = 0x03"
definition INTERFACE :: u8 where "INTERFACE = 0x04"
definition ENDPOINT :: u8 where "ENDPOINT = 0x05"
definition DEVICE_QUALIFIER :: u8 where "DEVICE_QUALIFIER = 0x06"
definition SELF_POWERED :: u8 where "SELF_POWERED = 0xC0"
definition REMOTE_WAKEUP :: u8 where "REMOTE_WAKEUP = 0xA0"
definition EP_ADDR_IN :: u8 where "EP_ADDR_IN = 0x80"
definition EP_TYPE_CONTROL :: u8 where "EP_TYPE_CONTROL = 0x00"
definition DATA_EP :: u8 where "DATA_EP = 1"
definition MAX_INTERFACES :: nat where "MAX_INTERFACES = 8"
definition sizeof_DEVICE_DESC :: u8 where "sizeof_DEVICE_DESC = 18"
definition sizeof_CONFIG_DESC :: u8 where "sizeof_CONFIG_DESC = 9"
definition sizeof_INTERFACE_DESC :: u8 where "sizeof_INTERFACE_DESC = 9"
definition sizeof_ENDPOINT_DESC :: u8 where "sizeof_ENDPOINT_DESC = 7"
definition sizeof_QUALIFIER_DESC :: u8 where "sizeof_QUALIFIER_DESC = 10"
definition sizeof_HID_DESC :: u8 where "sizeof_HID_DESC = 9"
definition sizeof_HUB_DESC :: u8 where "sizeof_HUB_DESC = 9"

definition LO_BYTE :: "u16 \<Rightarrow> u8" where "LO_BYTE x = ucast x"
definition HI_BYTE :: "u16 \<Rightarrow> u8" where "HI_BYTE x = ucast (drop_bit 8 x)"

text \<open>
  What the hardware has of endpoints, and whether the device uses them. \<open>epnumbuf\<close> is only written.
\<close>

record ep_config =
  ep_num :: u8
  ep_dir :: u8
  ep_size :: u16
  ep_type :: u8
  is_ep_used :: bool

record ep_info =
  ep_configs :: "ep_config list"
  num_eps :: u8
  epnumbuf :: "bool list"

text \<open>\<open>StringTable\<close> and \<open>StringLen\<close> have 255 entries, string 0 names the language.\<close>

record desc_table =
  DescBuff :: "u8 list option"
  DescSize :: u16
  UsedSize :: u16
  NextStrId :: u8
  NextCfgId :: u8
  NextIfNum :: u8
  NextEpNum :: u8
  StringTable :: "u8 list option list"
  StringLen :: "u8 list"

definition LangIdEnglish :: "u8 list" where "LangIdEnglish = [0x04, STRING, 0x09, 0x04]"

definition initial_table :: desc_table where
  "initial_table = \<lparr>DescBuff = None, DescSize = 0, UsedSize = 0, NextStrId = 1, NextCfgId = 1, NextIfNum = 0,
     NextEpNum = 1, StringTable = Some LangIdEnglish # replicate 254 None, StringLen = 4 # replicate 254 0\<rparr>"

section \<open>Searches\<close>

text \<open>
  The loops of the searches step from descriptor to descriptor by the first byte. \<open>desc_scan\<close> is their
  common form: \<open>look\<close> says of the descriptor at an index whether it is the one, ends the search, or is
  passed over; the result is whether one was found, and the index at the end.
\<close>

datatype verdict = Found | Stop | Next

partial_function (option) desc_scan ::
  "(u8 list \<Rightarrow> nat \<Rightarrow> verdict option) \<Rightarrow> u8 list \<Rightarrow> nat \<Rightarrow> nat \<Rightarrow> (bool \<times> nat) option" where
  "desc_scan look b n i =
     (if n \<le> i then Some (False, i)
      else do { v \<leftarrow> look b i;
                case v of
                  Found \<Rightarrow> Some (True, i)
                | Stop \<Rightarrow> Some (False, i)
                | Next \<Rightarrow> do { len \<leftarrow> arr_get b i; desc_scan look b n (i + unat len) } })"

text \<open>\<open>bConfigurationValue\<close> is byte 5, \<open>bInterfaceNumber\<close> byte 2, \<open>bEndpointAddress\<close> byte 2.\<close>

definition look_config :: "u8 \<Rightarrow> u8 list \<Rightarrow> nat \<Rightarrow> verdict option" where
  "look_config cfg b i =
     do { t \<leftarrow> arr_get b (i + 1);
          if t = CONFIGURATION
          then do { v \<leftarrow> arr_get b (i + 5); Some (if v = cfg then Found else Next) }
          else Some Next }"

definition look_interface :: "u8 \<Rightarrow> u8 list \<Rightarrow> nat \<Rightarrow> verdict option" where
  "look_interface ifn b i =
     do { t \<leftarrow> arr_get b (i + 1);
          if t = INTERFACE
          then do { v \<leftarrow> arr_get b (i + 2); Some (if v = ifn then Found else Next) }
          else Some (if t = CONFIGURATION then Stop else Next) }"

text \<open>The direction is shifted as an \<open>int\<close>.\<close>

definition ep_matches :: "u8 \<Rightarrow> u8 \<Rightarrow> u8 \<Rightarrow> bool" where
  "ep_matches num dir a \<longleftrightarrow> a AND 0x0F = num \<and> (ucast (a AND 0x80) :: u32) = push_bit 7 (ucast dir)"

definition look_endpoint :: "u8 \<Rightarrow> u8 \<Rightarrow> u8 list \<Rightarrow> nat \<Rightarrow> verdict option" where
  "look_endpoint num dir b i =
     do { t \<leftarrow> arr_get b (i + 1);
          if t = ENDPOINT
          then do { a \<leftarrow> arr_get b (i + 2); Some (if ep_matches num dir a then Found else Next) }
          else Some Stop }"

definition look_next_config :: "u8 list \<Rightarrow> nat \<Rightarrow> verdict option" where
  "look_next_config b i = map_option (\<lambda>t. if t = CONFIGURATION then Stop else Next) (arr_get b (i + 1))"

definition look_first_endpoint :: "u8 list \<Rightarrow> nat \<Rightarrow> verdict option" where
  "look_first_endpoint b i = map_option (\<lambda>t. if t = ENDPOINT then Found else Next) (arr_get b (i + 1))"

definition found_at :: "bool \<times> nat \<Rightarrow> nat option" where
  "found_at r = (if fst r then Some (snd r) else None)"

definition GetConfigDesc :: "desc_table \<Rightarrow> u8 \<Rightarrow> nat option option" where
  "GetConfigDesc t cfg =
     (case DescBuff t of
        None \<Rightarrow> Some None
      | Some b \<Rightarrow>
          do { l0 \<leftarrow> arr_get b 0;
               r \<leftarrow> desc_scan (look_config cfg) b (unat (DescSize t)) (unat l0);
               Some (found_at r) })"

definition GetInterfaceDesc :: "desc_table \<Rightarrow> u8 \<Rightarrow> u8 \<Rightarrow> nat option option" where
  "GetInterfaceDesc t cfg ifn =
     do { c \<leftarrow> GetConfigDesc t cfg;
          case c of
            None \<Rightarrow> Some None
          | Some i \<Rightarrow>
              do { b \<leftarrow> DescBuff t;
                   len \<leftarrow> arr_get b i;
                   r \<leftarrow> desc_scan (look_interface ifn) b (unat (DescSize t)) (i + unat len);
                   Some (found_at r) } }"

text \<open>The index of the first endpoint descriptor of an interface; 0 when there is none.\<close>

definition GetFirstEndpointDescIndex :: "desc_table \<Rightarrow> u8 \<Rightarrow> u8 \<Rightarrow> nat option" where
  "GetFirstEndpointDescIndex t cfg ifn =
     do { d \<leftarrow> GetInterfaceDesc t cfg ifn;
          case d of
            None \<Rightarrow> Some 0
          | Some i \<Rightarrow>
              do { b \<leftarrow> DescBuff t;
                   eps \<leftarrow> arr_get b (i + 4);
                   if eps = 0 then Some 0
                   else do { len \<leftarrow> arr_get b i;
                             r \<leftarrow> desc_scan look_first_endpoint b (unat (DescSize t)) (i + unat len);
                             Some (if fst r then snd r else 0) } } }"

definition GetEndpointDesc :: "desc_table \<Rightarrow> u8 \<Rightarrow> u8 \<Rightarrow> u8 \<Rightarrow> u8 \<Rightarrow> nat option option" where
  "GetEndpointDesc t cfg ifn num dir =
     do { i \<leftarrow> GetFirstEndpointDescIndex t cfg ifn;
          if i = 0 then Some None
          else do { b \<leftarrow> DescBuff t;
                    r \<leftarrow> desc_scan (look_endpoint num dir) b (unat (DescSize t)) i;
                    Some (found_at r) } }"

text \<open>The size of a configuration: up to the next one, or the end.\<close>

definition GetConfigDescSize :: "desc_table \<Rightarrow> u8 \<Rightarrow> u16 option" where
  "GetConfigDescSize t cfg =
     do { c \<leftarrow> GetConfigDesc t cfg;
          case c of
            None \<Rightarrow> Some 0
          | Some i \<Rightarrow>
              do { b \<leftarrow> DescBuff t;
                   len \<leftarrow> arr_get b i;
                   r \<leftarrow> desc_scan look_next_config b (unat (DescSize t)) (i + unat len);
                   Some (of_nat (snd r - i)) } }"

section \<open>Fields of the descriptors\<close>

definition desc_field :: "desc_table \<Rightarrow> nat option \<Rightarrow> nat \<Rightarrow> u8 option" where
  "desc_field t d k =
     (case d of None \<Rightarrow> Some 0 | Some i \<Rightarrow> do { b \<leftarrow> DescBuff t; arr_get b (i + k) })"

definition GetNumConfigurations :: "desc_table \<Rightarrow> u8" where
  "GetNumConfigurations t = (if NextCfgId t \<le> 0 then 0 else NextCfgId t - 1)"

definition GetStartingEpNum :: "desc_table \<Rightarrow> u8 \<Rightarrow> u8 \<Rightarrow> u8 option" where
  "GetStartingEpNum t cfg ifn =
     do { i \<leftarrow> GetFirstEndpointDescIndex t cfg ifn;
          if i = 0 then Some 0
          else do { a \<leftarrow> desc_field t (Some i) 2; Some (a AND 0x0F) } }"

definition GetNumInterfaces :: "desc_table \<Rightarrow> u8 \<Rightarrow> u8 option" where
  "GetNumInterfaces t cfg = do { c \<leftarrow> GetConfigDesc t cfg; desc_field t c 4 }"

definition GetNumEndpoints :: "desc_table \<Rightarrow> u8 \<Rightarrow> u8 \<Rightarrow> u8 option" where
  "GetNumEndpoints t cfg ifn = do { d \<leftarrow> GetInterfaceDesc t cfg ifn; desc_field t d 4 }"

text \<open>
  The loops over the interfaces: the first one that has the endpoint, and its descriptor. The counter
  is a byte below the number of interfaces.
\<close>

fun find_interface :: "desc_table \<Rightarrow> u8 \<Rightarrow> u8 \<Rightarrow> u8 \<Rightarrow> nat list \<Rightarrow> (nat \<times> nat) option option" where
  "find_interface t cfg num dir [] = Some None"
| "find_interface t cfg num dir (k # ks) =
     do { e \<leftarrow> GetEndpointDesc t cfg (of_nat k) num dir;
          case e of
            None \<Rightarrow> find_interface t cfg num dir ks
          | Some i \<Rightarrow> Some (Some (k, i)) }"

definition over_interfaces :: "desc_table \<Rightarrow> u8 \<Rightarrow> u8 \<Rightarrow> u8 \<Rightarrow> (nat \<times> nat) option option" where
  "over_interfaces t cfg num dir =
     do { n \<leftarrow> GetNumInterfaces t cfg; find_interface t cfg num dir [0..<unat n] }"

definition GetInterface :: "desc_table \<Rightarrow> u8 \<Rightarrow> u8 \<Rightarrow> u8 \<Rightarrow> u8 option" where
  "GetInterface t cfg num dir =
     do { r \<leftarrow> over_interfaces t cfg num dir;
          Some (case r of None \<Rightarrow> 0xFF | Some (k, i) \<Rightarrow> of_nat k) }"

definition GetMaxPacketSize :: "desc_table \<Rightarrow> u8 \<Rightarrow> u8 \<Rightarrow> u8 \<Rightarrow> u16 option" where
  "GetMaxPacketSize t cfg num dir =
     do { r \<leftarrow> over_interfaces t cfg num dir;
          case r of
            None \<Rightarrow> Some 0
          | Some (k, i) \<Rightarrow>
              do { l \<leftarrow> desc_field t (Some i) 4; h \<leftarrow> desc_field t (Some i) 5;
                   Some (ucast l + ucast h * 0x100) } }"

definition GetEndPointType :: "desc_table \<Rightarrow> u8 \<Rightarrow> u8 \<Rightarrow> u8 \<Rightarrow> u8 option" where
  "GetEndPointType t cfg num dir =
     do { r \<leftarrow> over_interfaces t cfg num dir;
          case r of None \<Rightarrow> Some EP_TYPE_CONTROL | Some (k, i) \<Rightarrow> desc_field t (Some i) 3 }"

definition GetStringDescriptor :: "desc_table \<Rightarrow> u8 \<Rightarrow> (u8 list option \<times> u16) option" where
  "GetStringDescriptor t i =
     do { len \<leftarrow> arr_get (StringLen t) (unat i);
          s \<leftarrow> arr_get (StringTable t) (unat i);
          Some (s, ucast len) }"

definition GetDeviceDesc :: "desc_table \<Rightarrow> nat option option" where
  "GetDeviceDesc t =
     (if DescSize t < ucast sizeof_DEVICE_DESC then Some None
      else do { b \<leftarrow> DescBuff t; ty \<leftarrow> arr_get b 1; Some (if ty \<noteq> DEVICE then None else Some 0) })"

text \<open>Built anew for each request; \<open>EP0Size\<close> is the size the hardware has for endpoint 0.\<close>

definition GetDeviceQualifierDesc :: "u16 \<Rightarrow> u8 list" where
  "GetDeviceQualifierDesc EP0Size =
     [sizeof_QUALIFIER_DESC, DEVICE_QUALIFIER, 0x10, 0x01, 0, 0, 0, ucast EP0Size, 0, 0]"

section \<open>Building a table\<close>

text \<open>
  The handlers of an interface are of any types: \<open>'h\<close> for class requests, \<open>'e\<close> for those that are given an
  endpoint, \<open>'d\<close> for the others. The state of a device under construction: the table, the endpoints, the
  interfaces, and two static buffers.
\<close>

record ('h, 'e, 'd) interface_info =
  TxHandler :: "'e option"
  RxHandler :: "'e option"
  ClassReqHandler :: "'h option"
  ProcHandler :: "'d option"
  HaltHandler :: "'e option"
  UnHaltHandler :: "'e option"
  DisconnectHandler :: "'d option"
  IfFlag :: u8
  IfDataInEp :: u8
  IfDataOutEp :: u8
  IfNonDataEp :: u8

definition no_interface :: "('h, 'e, 'd) interface_info" where
  "no_interface = \<lparr>TxHandler = None, RxHandler = None, ClassReqHandler = None, ProcHandler = None, HaltHandler = None,
     UnHaltHandler = None, DisconnectHandler = None, IfFlag = 0, IfDataInEp = 0, IfDataOutEp = 0, IfNonDataEp = 0\<rparr>"

record ('h, 'e, 'd) usb_desc =
  Table :: desc_table
  Eps :: ep_info
  Inter :: "('h, 'e, 'd) interface_info list"
  OsString :: "u8 list"
  ExtProp :: "u8 list"

definition set_table :: "(desc_table \<Rightarrow> desc_table) \<Rightarrow> ('h, 'e, 'd) usb_desc \<Rightarrow> ('h, 'e, 'd) usb_desc" where
  "set_table f s = s\<lparr>Table := f (Table s)\<rparr>"

text \<open>
  A string is the list of its characters, without the terminator. The length of the descriptor is kept
  in 16 bits, and in 8 in the descriptor itself; \<open>ok\<close> says whether there is memory.
\<close>

fun widen :: "u8 list \<Rightarrow> u8 list" where
  "widen [] = []"
| "widen (c # cs) = c # 0 # widen cs"

definition ConvertAsciizToUniCode :: "bool \<Rightarrow> u8 list \<Rightarrow> (u8 list option \<times> u16) option" where
  "ConvertAsciizToUniCode ok str =
     (let UniCodeLen = of_nat ((length str + 1) * 2 + 2) :: u16
      in if \<not> ok then Some (None, UniCodeLen)
         else if 2 * length str + 4 \<le> unat UniCodeLen
         then Some (Some (ucast UniCodeLen # STRING # widen str @ [0, 0]), UniCodeLen)
         else None)"

text \<open>\<open>kmalloc\<close> hands out a buffer of any content, or NULL.\<close>

definition CreateDescriptor :: "u8 list option \<Rightarrow> u16 \<Rightarrow> ('h, 'e, 'd) usb_desc \<Rightarrow> bool \<times> ('h, 'e, 'd) usb_desc" where
  "CreateDescriptor mem n s =
     (case mem of
        None \<Rightarrow> (False, set_table (\<lambda>t. t\<lparr>DescBuff := None\<rparr>) s)
      | Some b \<Rightarrow> (True, set_table (\<lambda>t. t\<lparr>DescBuff := Some b, DescSize := n, UsedSize := 0\<rparr>) s))"

definition AddDescriptor :: "u8 list \<Rightarrow> ('h, 'e, 'd) usb_desc \<Rightarrow> (int \<times> ('h, 'e, 'd) usb_desc) option" where
  "AddDescriptor d s =
     (let t = Table s; n = length d; u = unat (UsedSize t)
      in if int n > uint (DescSize t) - uint (UsedSize t) then Some (1, s)
         else do { b \<leftarrow> DescBuff t;
                   if u + n \<le> length b
                   then Some (0, set_table (\<lambda>t. t\<lparr>DescBuff := Some (take u b @ d @ drop (u + n) b),
                                    UsedSize := UsedSize t + of_nat n\<rparr>) s)
                   else None })"

text \<open>A string gets the next index; \<open>keep\<close> says whether one without memory takes an index as well.\<close>

definition store_string :: "u8 list option \<Rightarrow> u16 \<Rightarrow> ('h, 'e, 'd) usb_desc \<Rightarrow> (u8 \<times> ('h, 'e, 'd) usb_desc) option" where
  "store_string str len s =
     (let t = Table s; i = NextStrId t
      in do { tab \<leftarrow> arr_set (StringTable t) (unat i) str;
              lens \<leftarrow> arr_set (StringLen t) (unat i) (ucast len);
              Some (i, set_table (\<lambda>t. t\<lparr>StringTable := tab, StringLen := lens, NextStrId := i + 1\<rparr>) s) })"

definition add_string :: "bool \<Rightarrow> bool \<Rightarrow> u8 list option \<Rightarrow> ('h, 'e, 'd) usb_desc \<Rightarrow> (u8 \<times> ('h, 'e, 'd) usb_desc) option" where
  "add_string keep ok word_str s =
     (case word_str of
        None \<Rightarrow> Some (0, s)
      | Some str \<Rightarrow>
          do { (d, len) \<leftarrow> ConvertAsciizToUniCode ok str;
               if d = None \<and> \<not> keep then Some (0, s) else store_string d len s })"

definition AddStringDescriptor :: "bool \<Rightarrow> u8 list \<Rightarrow> ('h, 'e, 'd) usb_desc \<Rightarrow> (u8 \<times> ('h, 'e, 'd) usb_desc) option" where
  "AddStringDescriptor ok str s = add_string True ok (Some str) s"

text \<open>\<open>UsbHwGetdevicetypeEps\<close> is NULL. \<open>ok\<close> tells of each of the three strings whether there is memory.\<close>

definition serial_text :: "u8 list" where "serial_text = [0x73, 0x65, 0x72, 0x69, 0x61, 0x6C]"

definition AddDeviceDesc ::
  "(nat \<Rightarrow> bool) \<Rightarrow> u16 \<Rightarrow> u16 \<Rightarrow> u16 \<Rightarrow> u16 \<Rightarrow> u8 list option \<Rightarrow> u8 list option \<Rightarrow> bool \<Rightarrow> ('h, 'e, 'd) usb_desc \<Rightarrow>
   (int \<times> ('h, 'e, 'd) usb_desc) option" where
  "AddDeviceDesc ok EP0Size vendor product release manuf prod_str lun s =
     do { (im, s1) \<leftarrow> add_string False (ok 0) manuf s;
          (ip, s2) \<leftarrow> add_string False (ok 1) prod_str s1;
          (isn, s3) \<leftarrow> add_string True (ok 2) (if lun then Some serial_text else None) s2;
          AddDescriptor [sizeof_DEVICE_DESC, DEVICE, 0x10, 0x01, 0, 0, 0, ucast EP0Size, LO_BYTE vendor, HI_BYTE vendor,
            LO_BYTE product, HI_BYTE product, LO_BYTE release, HI_BYTE release, im, ip, isn, 0] s3 }"

definition unuse :: "nat \<Rightarrow> ep_config list \<Rightarrow> ep_config list" where
  "unuse n cs = map (\<lambda>e. e\<lparr>is_ep_used := False\<rparr>) (take n cs) @ drop n cs"

text \<open>The size of all the configurations is kept in 8 bits, so the high byte of the total is 0.\<close>

definition AddCfgDesc :: "u8 \<Rightarrow> bool \<Rightarrow> ('h, 'e, 'd) usb_desc \<Rightarrow> (int \<times> ('h, 'e, 'd) usb_desc) option" where
  "AddCfgDesc nifs hid s =
     (let t = Table s; total = ucast (DescSize t - ucast sizeof_DEVICE_DESC) :: u8;
          d = [sizeof_CONFIG_DESC, CONFIGURATION, LO_BYTE (ucast total), HI_BYTE (ucast total), nifs, NextCfgId t, 0,
               if hid then SELF_POWERED OR REMOTE_WAKEUP else SELF_POWERED, 0]
      in do { dev \<leftarrow> GetDeviceDesc t;
              i \<leftarrow> dev;
              b \<leftarrow> DescBuff t;
              n \<leftarrow> arr_get b (i + 17);
              AddDescriptor d
                (s\<lparr>Table := t\<lparr>NextCfgId := NextCfgId t + 1, NextIfNum := 0, DescBuff := Some (b[i + 17 := n + 1])\<rparr>,
                   Eps := (Eps s)\<lparr>epnumbuf := replicate (length (epnumbuf (Eps s))) False,
                     ep_configs := unuse (unat (num_eps (Eps s))) (ep_configs (Eps s))\<rparr>\<rparr>) })"

definition AddInterfaceDesc ::
  "bool \<Rightarrow> u8 \<Rightarrow> u8 \<Rightarrow> u8 \<Rightarrow> u8 \<Rightarrow> u8 list option \<Rightarrow> ('h, 'e, 'd) interface_info \<Rightarrow> ('h, 'e, 'd) usb_desc \<Rightarrow> (int \<times> ('h, 'e, 'd) usb_desc) option" where
  "AddInterfaceDesc ok eps cls sub prot str info s =
     (let n = NextIfNum (Table s)
      in do { (i, s1) \<leftarrow> add_string False ok str (set_table (\<lambda>t. t\<lparr>NextIfNum := n + 1\<rparr>) s);
              infos \<leftarrow> arr_set (Inter s1) (unat n) info;
              AddDescriptor [sizeof_INTERFACE_DESC, INTERFACE, n, 0, eps, cls, sub, prot, i] (s1\<lparr>Inter := infos\<rparr>) })"

text \<open>
  The choice of an endpoint: the first one of the largest size, unless one has exactly the size wanted.
  The result of the loop is the index and the number of the endpoint, both 0 when none is suitable.
\<close>

fun select_loop ::
  "u8 \<Rightarrow> u8 \<Rightarrow> u16 \<Rightarrow> u16 \<Rightarrow> nat \<Rightarrow> ep_config list \<Rightarrow> nat \<Rightarrow> u8 \<Rightarrow> u16 \<Rightarrow> nat \<times> u8" where
  "select_loop dir ty mn mx i [] index ep sz = (index, ep)"
| "select_loop dir ty mn mx i (e # es) index ep sz =
     (if is_ep_used e \<or> dir \<noteq> ep_dir e \<and> CONFIGURABLE \<noteq> ep_dir e \<or> ty \<noteq> ep_type e \<and> CONFIGURABLE \<noteq> ep_type e
         \<or> ep_size e < mn
      then select_loop dir ty mn mx (Suc i) es index ep sz
      else if ep_size e = mx then (i, ep_num e)
      else if sz \<ge> ep_size e then select_loop dir ty mn mx (Suc i) es index ep sz
      else select_loop dir ty mn mx (Suc i) es i (ep_num e) (ep_size e))"

definition use_ep :: "u8 \<Rightarrow> ep_config \<Rightarrow> ep_config" where
  "use_ep dir e = e\<lparr>is_ep_used := True, ep_dir := (if ep_dir e = CONFIGURABLE then dir else ep_dir e)\<rparr>"

definition select_suitable_endpoint ::
  "u8 \<Rightarrow> u8 \<Rightarrow> u16 \<Rightarrow> u16 \<Rightarrow> ep_info \<Rightarrow> (u8 \<times> u16 \<times> ep_info) option" where
  "select_suitable_endpoint dir ty mn mx x =
     (if length (ep_configs x) < unat (num_eps x) then None
      else let (index, ep) = select_loop dir ty mn mx 0 (take (unat (num_eps x)) (ep_configs x)) 0 0 0
           in do { e \<leftarrow> arr_get (ep_configs x) index;
                   nums \<leftarrow> arr_set (epnumbuf x) (unat ep) True;
                   Some (if ep = 0 then 0xFF else ep, ep_size e,
                         x\<lparr>ep_configs := (ep_configs x)[index := use_ep dir e], epnumbuf := nums\<rparr>) })"

definition set_interface_ep :: "u8 \<Rightarrow> u8 \<Rightarrow> u8 \<Rightarrow> ('h, 'e, 'd) interface_info \<Rightarrow> ('h, 'e, 'd) interface_info" where
  "set_interface_ep data dir num f =
     (if data = DATA_EP then if dir = EP_ADDR_IN then f\<lparr>IfDataInEp := num\<rparr> else f\<lparr>IfDataOutEp := num\<rparr>
      else f\<lparr>IfNonDataEp := num\<rparr>)"

definition AddEndPointDesc ::
  "u8 \<Rightarrow> u8 \<Rightarrow> u16 \<Rightarrow> u16 \<Rightarrow> u8 \<Rightarrow> u8 \<Rightarrow> ('h, 'e, 'd) usb_desc \<Rightarrow> (int \<times> ('h, 'e, 'd) usb_desc) option" where
  "AddEndPointDesc dir ty mn mx interval data s =
     do { (num, sz, x) \<leftarrow> select_suitable_endpoint dir ty mn mx (Eps s);
          let s1 = set_table (\<lambda>t. t\<lparr>NextEpNum := num\<rparr>) (s\<lparr>Eps := x\<rparr>) in
          if num = 0xFF then Some (1, s1)
          else do { (r, s2) \<leftarrow> AddDescriptor [sizeof_ENDPOINT_DESC, ENDPOINT, num OR dir, ty, LO_BYTE sz, HI_BYTE sz, interval] s1;
                    if r = 1 then Some (1, s2)
                    else do { ifn \<leftarrow> GetInterface (Table s2) (NextCfgId (Table s2) - 1) num (drop_bit 7 dir);
                              f \<leftarrow> arr_get (Inter s2) (unat ifn);
                              Some (r, s2\<lparr>Inter := (Inter s2)[unat ifn := set_interface_ep data dir num f]\<rparr>) } } }"

definition AddHidDesc :: "u16 \<Rightarrow> ('h, 'e, 'd) usb_desc \<Rightarrow> (int \<times> ('h, 'e, 'd) usb_desc) option" where
  "AddHidDesc report s =
     AddDescriptor [sizeof_HID_DESC, 0x21, 0x10, 0x01, 0, 1, 0x22, LO_BYTE report, HI_BYTE report] s"

definition AddHubDesc :: "u8 \<Rightarrow> ('h, 'e, 'd) usb_desc \<Rightarrow> (int \<times> ('h, 'e, 'd) usb_desc) option" where
  "AddHubDesc ports s = AddDescriptor [sizeof_HUB_DESC, 0x29, ports, 0x09, 0x00, 0x32, 0x64, 0x00, 0xFF] s"

definition clear_strings :: "desc_table \<Rightarrow> desc_table" where
  "clear_strings t =
     (let n = unat (NextStrId t); used = map (\<lambda>i. 0 < i \<and> i < n \<and> StringTable t ! i \<noteq> None) [0..<length (StringTable t)]
      in t\<lparr>StringTable := map2 (\<lambda>u s. if u then None else s) used (StringTable t),
           StringLen := map2 (\<lambda>u l. if u then 0 else l) used (StringLen t)\<rparr>)"

definition DestroyDescriptor :: "('h, 'e, 'd) usb_desc \<Rightarrow> ('h, 'e, 'd) usb_desc" where
  "DestroyDescriptor s =
     (let t = Table s;
          t1 = (if DescBuff t = None then t else t\<lparr>DescSize := 0, UsedSize := 0, DescBuff := None\<rparr>);
          t2 = clear_strings t1
      in s\<lparr>Table := t2\<lparr>NextIfNum := 0, NextEpNum := 1, NextCfgId := 1, StringTable := (StringTable t2)[0 := Some LangIdEnglish],
               StringLen := (StringLen t2)[0 := 4], NextStrId := 1\<rparr>,
           Inter := replicate MAX_INTERFACES no_interface\<rparr>)"

text \<open>Characters stored with a zero byte behind each, from an index that is a byte.\<close>

fun put_wide :: "u8 list \<Rightarrow> u8 \<Rightarrow> u8 list \<Rightarrow> (u8 \<times> u8 list) option" where
  "put_wide [] i a = Some (i, a)"
| "put_wide (c # cs) i a =
     do { a1 \<leftarrow> arr_set a (unat i) c;
          a2 \<leftarrow> arr_set a1 (unat i + 1) 0;
          put_wide cs (i + 2) a2 }"

text \<open>The OS string has its signature at bytes 2 to 15, the property its name at bytes 20 to 67.\<close>

definition AddOsStringDesc :: "u8 \<Rightarrow> u8 list option \<Rightarrow> ('h, 'e, 'd) usb_desc \<Rightarrow> (int \<times> ('h, 'e, 'd) usb_desc) option" where
  "AddOsStringDesc vendor sig s =
     (case sig of
        None \<Rightarrow> Some (1, s)
      | Some str \<Rightarrow>
          do { (i, a) \<leftarrow> put_wide str 0 (take 14 (drop 2 (OsString s)));
               let os = [0x12, STRING] @ a @ [vendor, 0];
               tab \<leftarrow> arr_set (StringTable (Table s)) 0xEE (Some os);
               lens \<leftarrow> arr_set (StringLen (Table s)) 0xEE 0x12;
               Some (0, set_table (\<lambda>t. t\<lparr>StringTable := tab, StringLen := lens\<rparr>) (s\<lparr>OsString := os\<rparr>)) })"

definition AddExtPropertiesDesc :: "u8 list \<Rightarrow> ('h, 'e, 'd) usb_desc \<Rightarrow> (int \<times> ('h, 'e, 'd) usb_desc) option" where
  "AddExtPropertiesDesc str s =
     do { (i, a) \<leftarrow> put_wide str 0 (take 48 (drop 20 (ExtProp s)));
          a1 \<leftarrow> arr_set a (unat i) 0;
          a2 \<leftarrow> arr_set a1 (unat i + 1) 0;
          Some (0, s\<lparr>ExtProp := [0x4C, 0, 0, 0, 0x00, 0x01, 0x05, 0, 0x01, 0, 0x42, 0, 0, 0, 0x04, 0, 0, 0, 0x30, 0] @
            a2 @ [0x04, 0, 0, 0, 0x01, 0, 0, 0]\<rparr>) }"

end
