(* ===== verification/UsbSetup.thy ===== *)
theory UsbSetup imports UsbDesc UsbBot begin

text \<open>
  The control endpoint of the USB gadget core: the requests of the host (usbe-src/setup.c) and the
  transfers of endpoint 0 (usbe-src/coreusb.c), for one device, whose \<open>DevNo\<close> is left out.

  The hardware driver is a record of what it has and answers; what the core calls of it is recorded in
  \<open>hw_calls\<close>, newest last, and what it sends in \<open>wire\<close> of the device. A class request goes to a handler
  of the interface, a function on the request and the state of the interfaces.
\<close>

unbundle bit_operations_syntax

section \<open>Requests and state\<close>

definition GET_STATUS :: u8 where "GET_STATUS = 0"
definition CLEAR_FEATURE :: u8 where "CLEAR_FEATURE = 1"
definition SET_FEATURE :: u8 where "SET_FEATURE = 3"
definition SET_ADDRESS :: u8 where "SET_ADDRESS = 5"
definition GET_DESCRIPTOR :: u8 where "GET_DESCRIPTOR = 6"
definition GET_CONFIGURATION :: u8 where "GET_CONFIGURATION = 8"
definition SET_CONFIGURATION :: u8 where "SET_CONFIGURATION = 9"
definition DESC_DEVICE :: u16 where "DESC_DEVICE = 1"
definition DESC_CONFIGURATION :: u16 where "DESC_CONFIGURATION = 2"
definition DESC_STRING :: u16 where "DESC_STRING = 3"
definition DESC_DEVICE_QUALIFIER :: u16 where "DESC_DEVICE_QUALIFIER = 6"
definition DEVICE_REMOTE_WAKEUP :: u16 where "DEVICE_REMOTE_WAKEUP = 1"
definition ENDPOINT_HALT :: u16 where "ENDPOINT_HALT = 0"
definition REQ_DEVICE2HOST :: u8 where "REQ_DEVICE2HOST = 0x80"
definition REQ_STANDARD :: u8 where "REQ_STANDARD = 0x00"
definition REQ_CLASS :: u8 where "REQ_CLASS = 0x01"
definition REQ_VENDOR :: u8 where "REQ_VENDOR = 0x02"
definition REQ_DEVICE :: u8 where "REQ_DEVICE = 0x00"
definition REQ_INTERFACE :: u8 where "REQ_INTERFACE = 0x01"
definition REQ_ENDPOINT :: u8 where "REQ_ENDPOINT = 0x02"
definition sizeof_EXT_PROPERTY :: u16 where "sizeof_EXT_PROPERTY = 76"

definition REQ_TYPE_MASK :: "u8 \<Rightarrow> u8" where "REQ_TYPE_MASK x = drop_bit 5 (x AND 0x60)"
definition REQ_RECIP_MASK :: "u8 \<Rightarrow> u8" where "REQ_RECIP_MASK x = x AND 0x1F"

text \<open>\<open>ReqData\<close> is a buffer of 1024 bytes. \<open>Command\<close>, a text for messages, is left out.\<close>

record device_request =
  bmRequestType :: u8
  bRequest :: u8
  wValue :: u16
  wIndex :: u16
  wLength :: u16
  ReqStatus :: u8
  ReqData :: "u8 list"
  ReqDataLen :: u16
  wLengthOrig :: u16

text \<open>The calls of the hardware driver that are recorded, and the wake-ups of writers that sleep on an endpoint.\<close>

datatype hw_call =
    HwSetAddr u8 u8
  | HwStall u8 u8
  | HwUnstall u8 u8
  | HwSetRemoteWakeup u8
  | HwEnableEp u8 u8 u8
  | HwDisableEp u8 u8 u8
  | HwAllocBuffer u8 u16 u16 u8 u8
  | OsWakeup nat
  | HwCompleteRequest u8 u16 u8

text \<open>
  The hardware driver: whether it has the optional functions (\<open>HasEnableEp\<close>: \<open>UsbHwEnableEp\<close> and
  \<open>UsbHwDisableEp\<close>), its number of endpoints, and what it answers after the calls so far: the status of an endpoint (whether it is stalled, or an error).
\<close>

record usb_hw =
  IsThisHUBDevice :: bool
  EP0Size :: u16
  NumEndpoints :: u8
  HasCompleteRequest :: bool
  HasRemoteWakeup :: bool
  HasEnableEp :: bool
  hw_ep_status :: "hw_call list \<Rightarrow> u8 \<Rightarrow> u8 \<Rightarrow> u8 option"
  hw_wakeup :: "hw_call list \<Rightarrow> u8"

text \<open>
  The handlers of an interface: on a class request and the state of the interfaces, on an endpoint, or
  on the interface; the last two act on the device as well.
\<close>

type_synonym 'i req_handler = "u8 \<Rightarrow> device_request \<Rightarrow> 'i \<Rightarrow> (int \<times> device_request \<times> 'i) option"
type_synonym 'i if_handler = "u8 \<Rightarrow> usb_dev \<times> 'i \<Rightarrow> (usb_dev \<times> 'i) option"
type_synonym 'i ep_handler = "u8 \<Rightarrow> 'i if_handler"

record 'i usb_ctl =
  Dev :: usb_dev
  InRequest :: device_request
  OutRequest :: device_request
  RemoteWakeup :: u8
  Desc :: "('i req_handler, 'i ep_handler, 'i if_handler) usb_desc"
  hw_calls :: "hw_call list"
  IfState :: 'i

definition call_hw :: "hw_call \<Rightarrow> 'i usb_ctl \<Rightarrow> 'i usb_ctl" where
  "call_hw c s = s\<lparr>hw_calls := hw_calls s @ [c]\<rparr>"

definition ctl_stall :: "u8 \<Rightarrow> u8 \<Rightarrow> 'i usb_ctl \<Rightarrow> 'i usb_ctl" where
  "ctl_stall ep dir s = call_hw (HwStall ep dir) (s\<lparr>Dev := UsbStallEp ep dir (Dev s)\<rparr>)"

definition UsbUnStallEp :: "u8 \<Rightarrow> u8 \<Rightarrow> 'i usb_ctl \<Rightarrow> 'i usb_ctl" where
  "UsbUnStallEp ep dir s = call_hw (HwUnstall ep dir) s"

definition UsbSetAddr :: "u8 \<Rightarrow> u8 \<Rightarrow> 'i usb_ctl \<Rightarrow> 'i usb_ctl" where
  "UsbSetAddr addr enable s = call_hw (HwSetAddr addr enable) s"

definition UsbGetEpStatus :: "usb_hw \<Rightarrow> u8 \<Rightarrow> u8 \<Rightarrow> 'i usb_ctl \<Rightarrow> u8 option" where
  "UsbGetEpStatus hw ep dir s = hw_ep_status hw (hw_calls s) ep dir"

definition UsbSetRemoteWakeup :: "usb_hw \<Rightarrow> u8 \<Rightarrow> 'i usb_ctl \<Rightarrow> 'i usb_ctl" where
  "UsbSetRemoteWakeup hw v s =
     (if HasRemoteWakeup hw then call_hw (HwSetRemoteWakeup v) s else s\<lparr>RemoteWakeup := v\<rparr>)"

definition UsbGetRemoteWakeup :: "usb_hw \<Rightarrow> 'i usb_ctl \<Rightarrow> u8" where
  "UsbGetRemoteWakeup hw s = (if HasRemoteWakeup hw then hw_wakeup hw (hw_calls s) else RemoteWakeup s)"

section \<open>Configuration\<close>

text \<open>
  The descriptors of the configuration tell the sizes and directions of the endpoints. Endpoint 0 has
  its size in byte 7 of the device descriptor, and no interface.
\<close>

definition alloc_ep :: "u8 \<Rightarrow> u8 \<Rightarrow> u8 \<Rightarrow> nat \<Rightarrow> endpoint \<Rightarrow> 'i usb_ctl \<Rightarrow> 'i usb_ctl option" where
  "alloc_ep cfg num dir i e s =
     map_option (\<lambda>ty. call_hw (HwAllocBuffer num (FifoSize e) (MaxPacketSize e) (Dir e) ty) (s\<lparr>Dev := set_ep i e (Dev s)\<rparr>))
       (GetEndPointType (Table (Desc s)) cfg num dir)"

definition EnableEndPoint :: "u8 \<Rightarrow> u8 \<Rightarrow> 'i usb_ctl \<Rightarrow> 'i usb_ctl option" where
  "EnableEndPoint num dir s =
     (case GetEndPointIndex (Dev s) num dir of
        None \<Rightarrow> Some s
      | Some i \<Rightarrow>
          (let t = Table (Desc s); e = EndPoint (Dev s) ! i; cfg = CfgIndex (Dev s)
           in if num = 0
              then do { d \<leftarrow> GetDeviceDesc t;
                        p \<leftarrow> d;
                        m \<leftarrow> desc_field t (Some p) 7;
                        alloc_ep 1 num dir i (e\<lparr>MaxPacketSize := ucast m, FifoSize := ucast m * 2, Interface := 0xFF\<rparr>) s }
              else do { m \<leftarrow> GetMaxPacketSize t cfg num dir;
                        ifn \<leftarrow> GetInterface t cfg num dir;
                        d \<leftarrow> GetEndpointDesc t cfg ifn num dir;
                        let e1 = e\<lparr>MaxPacketSize := m, FifoSize := m * 2, Interface := ifn\<rparr> in
                        case d of
                          None \<Rightarrow> Some (s\<lparr>Dev := set_ep i e1 (Dev s)\<rparr>)
                        | Some p \<Rightarrow>
                            do { a \<leftarrow> desc_field t (Some p) 2;
                                 alloc_ep cfg num dir i (e1\<lparr>Dir := if a AND 0x80 \<noteq> 0 then DIR_IN else DIR_OUT\<rparr>) s } }))"

fun enable_eps :: "nat list \<Rightarrow> 'i usb_ctl \<Rightarrow> 'i usb_ctl option" where
  "enable_eps [] s = Some s"
| "enable_eps (k # ks) s =
     do { c \<leftarrow> arr_get (ep_configs (Eps (Desc s))) k;
          s1 \<leftarrow> EnableEndPoint (ep_num c) (drop_bit 7 (ep_dir c)) s;
          enable_eps ks s1 }"

definition UsbEnableAllEndPoints :: "usb_hw \<Rightarrow> 'i usb_ctl \<Rightarrow> 'i usb_ctl option" where
  "UsbEnableAllEndPoints hw s = enable_eps [0..<unat (NumEndpoints hw)] s"

text \<open>
  The loops over the endpoints of an interface, of a configuration, and of the device. \<open>f\<close> is what is done
  for an endpoint number and a direction, and tells whether there is a descriptor; \<open>n\<close>, a byte, is the number
  of endpoints that are left.
\<close>

type_synonym 's ep_step = "u8 \<Rightarrow> u8 \<Rightarrow> 's \<Rightarrow> (bool \<times> 's) option"

fun each_ep :: "'s ep_step \<Rightarrow> nat list \<Rightarrow> u8 \<Rightarrow> 's \<Rightarrow> 's option" where
  "each_ep f [] n s = Some s"
| "each_ep f (k # ks) n s =
     (if n = 0 then Some s
      else do { (b1, s1) \<leftarrow> f (of_nat k) DIR_OUT s;
                (b2, s2) \<leftarrow> f (of_nat k) DIR_IN s1;
                each_ep f ks (n - of_bool b1 - of_bool b2) s2 })"

fun each_interface ::
  "usb_hw \<Rightarrow> u8 \<Rightarrow> (u8 \<Rightarrow> 'i usb_ctl ep_step) \<Rightarrow> nat list \<Rightarrow> 'i usb_ctl \<Rightarrow> 'i usb_ctl option" where
  "each_interface hw cfg f [] s = Some s"
| "each_interface hw cfg f (k # ks) s =
     do { n \<leftarrow> GetNumEndpoints (Table (Desc s)) cfg (of_nat k);
          s1 \<leftarrow> each_ep (f (of_nat k)) [1..<Suc (unat (NumEndpoints hw))] n s;
          each_interface hw cfg f ks s1 }"

definition in_config :: "usb_hw \<Rightarrow> (u8 \<Rightarrow> u8 \<Rightarrow> 'i usb_ctl ep_step) \<Rightarrow> u8 \<Rightarrow> 'i usb_ctl \<Rightarrow> 'i usb_ctl option" where
  "in_config hw f cfg s =
     do { n \<leftarrow> GetNumInterfaces (Table (Desc s)) cfg; each_interface hw cfg (f cfg) [0..<unat n] s }"

text \<open>What \<open>UsbCfgDevice\<close> and \<open>UsbUnCfgDevice\<close> do for an endpoint; they differ in the call and in \<open>Enabled\<close>.\<close>

definition switch_call :: "bool \<Rightarrow> u8 \<Rightarrow> u8 \<Rightarrow> u8 \<Rightarrow> hw_call" where
  "switch_call on num dir ty = (if on then HwEnableEp num dir ty else HwDisableEp num dir ty)"

definition switch_ep :: "usb_hw \<Rightarrow> bool \<Rightarrow> u8 \<Rightarrow> u8 \<Rightarrow> 'i usb_ctl ep_step" where
  "switch_ep hw on cfg ifn num dir s =
     do { e \<leftarrow> GetEndpointDesc (Table (Desc s)) cfg ifn num dir;
          case e of
            None \<Rightarrow> Some (False, s)
          | Some i \<Rightarrow>
              do { a \<leftarrow> desc_field (Table (Desc s)) (Some i) 2;
                   ty \<leftarrow> desc_field (Table (Desc s)) (Some i) 3;
                   let d = (if a AND 0x80 \<noteq> 0 then DIR_IN else DIR_OUT);
                       s1 = (if HasEnableEp hw then call_hw (switch_call on num d (ty AND 0x03)) s else s)
                   in Some (True,
                        case GetEndPointIndex (Dev s1) num d of
                          None \<Rightarrow> s1
                        | Some j \<Rightarrow> s1\<lparr>Dev := set_ep j ((EndPoint (Dev s1) ! j)\<lparr>Enabled := on\<rparr>) (Dev s1)\<rparr>) } }"

definition UsbCfgDevice :: "usb_hw \<Rightarrow> u16 \<Rightarrow> 'i usb_ctl \<Rightarrow> 'i usb_ctl option" where
  "UsbCfgDevice hw cfg s =
     do { s1 \<leftarrow> UsbEnableAllEndPoints hw (s\<lparr>Dev := (Dev s)\<lparr>CfgIndex := ucast cfg\<rparr>\<rparr>);
          in_config hw (switch_ep hw True) (ucast cfg) s1 }"

definition UsbUnCfgDevice :: "usb_hw \<Rightarrow> 'i usb_ctl \<Rightarrow> 'i usb_ctl option" where
  "UsbUnCfgDevice hw s =
     (if CfgIndex (Dev s) = 0 then Some s
      else in_config hw (switch_ep hw False) (CfgIndex (Dev s)) (s\<lparr>Dev := (Dev s)\<lparr>CfgIndex := 0\<rparr>\<rparr>))"

section \<open>The requests\<close>

text \<open>
  A request is processed as a value, with the device beside it. \<open>put_data\<close> is the \<open>memcpy\<close> of \<open>n\<close> bytes
  from a buffer, perhaps NULL, to the start of \<open>ReqData\<close>.
\<close>

definition put_data :: "u8 list option \<Rightarrow> nat \<Rightarrow> device_request \<Rightarrow> device_request option" where
  "put_data src n r =
     (if n = 0 then Some r
      else do { b \<leftarrow> src; d \<leftarrow> memcpy_at (ReqData r) 0 b n; Some (r\<lparr>ReqData := d\<rparr>) })"

definition ProcessVendorRequest :: "device_request \<Rightarrow> 'i usb_ctl \<Rightarrow> device_request option" where
  "ProcessVendorRequest r s =
     (if wIndex r = 0x05 \<and> bRequest r = 0xA5
      then let n = (if wLength r < sizeof_EXT_PROPERTY then wLength r else sizeof_EXT_PROPERTY)
           in map_option (\<lambda>r. r\<lparr>ReqStatus := 0\<rparr>) (put_data (Some (ExtProp (Desc s))) (unat n) (r\<lparr>wLength := n\<rparr>))
      else Some (r\<lparr>ReqStatus := 1\<rparr>))"

definition GetInterfaceReqHandler :: "usb_hw \<Rightarrow> u8 \<Rightarrow> 'i usb_ctl \<Rightarrow> 'i req_handler option option" where
  "GetInterfaceReqHandler hw ifn s =
     (if IsThisHUBDevice hw then map_option ClassReqHandler (arr_get (Inter (Desc s)) 0)
      else if CfgIndex (Dev s) = 0 then Some None
      else do { n \<leftarrow> GetNumInterfaces (Table (Desc s)) (CfgIndex (Dev s));
                if n = 0 \<or> ifn \<ge> n then Some None
                else map_option ClassReqHandler (arr_get (Inter (Desc s)) (unat ifn)) })"

definition ProcessClassRequest ::
  "usb_hw \<Rightarrow> device_request \<Rightarrow> 'i usb_ctl \<Rightarrow> (device_request \<times> 'i usb_ctl) option" where
  "ProcessClassRequest hw r s =
     do { h \<leftarrow> GetInterfaceReqHandler hw (ucast (wIndex r)) s;
          (ret, r1, x) \<leftarrow> (case h of None \<Rightarrow> Some (1, r, IfState s) | Some f \<Rightarrow> f (ucast (wIndex r)) r (IfState s));
          Some (r1\<lparr>ReqStatus := if ret = 1 then 1 else 0\<rparr>, s\<lparr>IfState := x\<rparr>) }"

text \<open>The endpoint a request names.\<close>

definition req_ep :: "device_request \<Rightarrow> u8" where "req_ep r = ucast (wIndex r) AND 0x7F"
definition req_dir :: "device_request \<Rightarrow> u8" where
  "req_dir r = (if ucast (wIndex r) AND (0x80 :: u8) \<noteq> 0 then DIR_IN else DIR_OUT)"

definition set_byte0 :: "u8 \<Rightarrow> device_request \<Rightarrow> device_request option" where
  "set_byte0 v r = map_option (\<lambda>d. r\<lparr>ReqData := d\<rparr>) (arr_set (ReqData r) 0 v)"

definition ProcessGetStatus :: "usb_hw \<Rightarrow> device_request \<Rightarrow> 'i usb_ctl \<Rightarrow> device_request option" where
  "ProcessGetStatus hw r s =
     (let recip = REQ_RECIP_MASK (bmRequestType r)
      in if wValue r \<noteq> 0 \<or> wLength r \<noteq> 2 \<or> recip = REQ_DEVICE \<and> wIndex r \<noteq> 0 then Some (r\<lparr>ReqStatus := 1\<rparr>)
         else map_option (\<lambda>r. r\<lparr>ReqStatus := 0\<rparr>)
           (if recip = REQ_INTERFACE then set_byte0 0x00 r
            else if recip = REQ_DEVICE then set_byte0 (if UsbGetRemoteWakeup hw s \<noteq> 0 then 0x03 else 0x01) r
            else if recip = REQ_ENDPOINT
            then (case UsbGetEpStatus hw (req_ep r) (req_dir r) s of
                    None \<Rightarrow> Some r
                  | Some stall \<Rightarrow> set_byte0 (if stall \<noteq> 0 then 0x01 else 0x00) r)
            else Some r))"

definition ProcessSetAddress :: "device_request \<Rightarrow> 'i usb_ctl \<Rightarrow> device_request \<times> 'i usb_ctl" where
  "ProcessSetAddress r s =
     (if wValue r > 127 \<or> wIndex r \<noteq> 0 \<or> wLength r \<noteq> 0 then (r\<lparr>ReqStatus := 1\<rparr>, s)
      else (r\<lparr>ReqStatus := 0\<rparr>, UsbSetAddr (ucast (wValue r AND 0x7F)) 1 s))"

definition ProcessSetConfiguration ::
  "usb_hw \<Rightarrow> device_request \<Rightarrow> 'i usb_ctl \<Rightarrow> (device_request \<times> 'i usb_ctl) option" where
  "ProcessSetConfiguration hw r s =
     (if wIndex r \<noteq> 0 \<or> wLength r \<noteq> 0 \<or> wValue r AND 0xFF00 \<noteq> 0 then Some (r\<lparr>ReqStatus := 1\<rparr>, s)
      else map_option (Pair (r\<lparr>ReqStatus := 0\<rparr>))
        (if wValue r = 0 then UsbUnCfgDevice hw s else UsbCfgDevice hw (wValue r) s))"

text \<open>The buffer a descriptor is copied from, and its length; \<open>None\<close> for a type that is not supported.\<close>

definition at_index :: "desc_table \<Rightarrow> nat option \<Rightarrow> u8 list option" where
  "at_index t d = do { i \<leftarrow> d; b \<leftarrow> DescBuff t; Some (drop i b) }"

definition descriptor_of ::
  "usb_hw \<Rightarrow> device_request \<Rightarrow> desc_table \<Rightarrow> (u8 list option \<times> u16) option option" where
  "descriptor_of hw r t =
     (let ty = drop_bit 8 (wValue r); index = ucast (wValue r AND 0xFF) :: u8
      in if ty = DESC_DEVICE
         then do { d \<leftarrow> GetDeviceDesc t; Some (Some (at_index t d, ucast sizeof_DEVICE_DESC)) }
         else if ty = DESC_DEVICE_QUALIFIER
         then Some (Some (Some (GetDeviceQualifierDesc (EP0Size hw)), ucast sizeof_QUALIFIER_DESC))
         else if ty = DESC_CONFIGURATION
         then do { n \<leftarrow> GetConfigDescSize t (index + 1);
                   d \<leftarrow> GetConfigDesc t (index + 1);
                   Some (Some (at_index t d, n)) }
         else if ty = DESC_STRING then map_option Some (GetStringDescriptor t index)
         else Some None)"

definition ProcessGetDescriptor ::
  "usb_hw \<Rightarrow> device_request \<Rightarrow> 'i usb_ctl \<Rightarrow> (device_request \<times> 'i usb_ctl) option" where
  "ProcessGetDescriptor hw r s =
     (if REQ_RECIP_MASK (bmRequestType r) = REQ_INTERFACE then ProcessClassRequest hw r s
      else do { d \<leftarrow> descriptor_of hw r (Table (Desc s));
                case d of
                  None \<Rightarrow> Some (r\<lparr>ReqStatus := 1\<rparr>, s)
                | Some (buf, n) \<Rightarrow>
                    (let len = (if wLength r < n then wLength r else n)
                     in map_option (\<lambda>r1. (r1\<lparr>wLength := len\<rparr>, s)) (put_data buf (unat len) (r\<lparr>ReqStatus := 0\<rparr>))) })"

definition ProcessGetConfiguration :: "device_request \<Rightarrow> 'i usb_ctl \<Rightarrow> device_request option" where
  "ProcessGetConfiguration r s =
     (if wIndex r \<noteq> 0 \<or> wLength r \<noteq> 1 \<or> wValue r \<noteq> 0 then Some (r\<lparr>ReqStatus := 1\<rparr>)
      else set_byte0 (CfgIndex (Dev s)) (r\<lparr>ReqStatus := 0\<rparr>))"

definition clear_halt :: "usb_hw \<Rightarrow> device_request \<Rightarrow> 'i usb_ctl \<Rightarrow> 'i usb_ctl" where
  "clear_halt hw r s =
     (case UsbGetEpStatus hw (req_ep r) (req_dir r) s of
        None \<Rightarrow> s
      | Some stall \<Rightarrow>
          if stall = 0x00 then UsbUnStallEp (req_ep r) (req_dir r) (ctl_stall (req_ep r) (req_dir r) s)
          else if stall = 0x01 then UsbUnStallEp (req_ep r) (req_dir r) s
          else s)"

text \<open>The two requests for features have the same checks; \<open>halt\<close> is what they do to an endpoint.\<close>

definition process_feature ::
  "usb_hw \<Rightarrow> u8 \<Rightarrow> ('i usb_ctl \<Rightarrow> 'i usb_ctl) \<Rightarrow> device_request \<Rightarrow> 'i usb_ctl \<Rightarrow> device_request \<times> 'i usb_ctl" where
  "process_feature hw wakeup halt r s =
     (let recip = REQ_RECIP_MASK (bmRequestType r); refuse = (r\<lparr>ReqStatus := 1\<rparr>, s)
      in if wLength r \<noteq> 0 \<or> recip = REQ_INTERFACE \<and> wValue r \<noteq> 0 then refuse
         else if recip = REQ_DEVICE
         then if wValue r = DEVICE_REMOTE_WAKEUP then (r\<lparr>ReqStatus := 0\<rparr>, UsbSetRemoteWakeup hw wakeup s) else refuse
         else if recip = REQ_ENDPOINT
         then if wValue r = ENDPOINT_HALT then (r\<lparr>ReqStatus := 0\<rparr>, halt s) else refuse
         else (r\<lparr>ReqStatus := 0\<rparr>, s))"

definition ProcessClearFeature :: "usb_hw \<Rightarrow> device_request \<Rightarrow> 'i usb_ctl \<Rightarrow> device_request \<times> 'i usb_ctl" where
  "ProcessClearFeature hw r s = process_feature hw 0 (clear_halt hw r) r s"

definition ProcessSetFeature :: "usb_hw \<Rightarrow> device_request \<Rightarrow> 'i usb_ctl \<Rightarrow> device_request \<times> 'i usb_ctl" where
  "ProcessSetFeature hw r s = process_feature hw 1 (ctl_stall (req_ep r) (req_dir r)) r s"

definition ProcessStandardRequest ::
  "usb_hw \<Rightarrow> device_request \<Rightarrow> 'i usb_ctl \<Rightarrow> (device_request \<times> 'i usb_ctl) option" where
  "ProcessStandardRequest hw r s =
     (let q = bRequest r
      in if q = GET_STATUS then map_option (\<lambda>r1. (r1, s)) (ProcessGetStatus hw r s)
         else if q = SET_ADDRESS then Some (ProcessSetAddress r s)
         else if q = GET_DESCRIPTOR then ProcessGetDescriptor hw r s
         else if q = SET_CONFIGURATION then ProcessSetConfiguration hw r s
         else if q = GET_CONFIGURATION then map_option (\<lambda>r1. (r1, s)) (ProcessGetConfiguration r s)
         else if q = CLEAR_FEATURE then Some (ProcessClearFeature hw r s)
         else if q = SET_FEATURE then Some (ProcessSetFeature hw r s)
         else Some (r\<lparr>ReqStatus := 1\<rparr>, s))"

definition ProcessSetup ::
  "usb_hw \<Rightarrow> device_request \<Rightarrow> 'i usb_ctl \<Rightarrow> (device_request \<times> 'i usb_ctl) option" where
  "ProcessSetup hw r s =
     (let ty = REQ_TYPE_MASK (bmRequestType r)
      in if ty = REQ_STANDARD then ProcessStandardRequest hw r s
         else if ty = REQ_CLASS then ProcessClassRequest hw r s
         else if ty = REQ_VENDOR then map_option (\<lambda>r1. (r1, s)) (ProcessVendorRequest r s)
         else Some (r\<lparr>ReqStatus := 1\<rparr>, s))"

end
