(* ===== verification/UsbControl.thy ===== *)
theory UsbControl imports UsbSetup begin

text \<open>
  Endpoint 0 (usbe-src/coreusb.c): \<open>UsbRxHandler0\<close> takes setup packets and the data of the host,
  \<open>SendPendingEP0Data\<close> sends the data of a request packet by packet, once at first and then after each
  transmit interrupt, and \<open>UsbCompleteRequest\<close> ends a request.
\<close>

unbundle bit_operations_syntax

section \<open>Sending and completing\<close>

definition UsbWriteDataNonBlock ::
  "u8 \<Rightarrow> u8 list option \<Rightarrow> u32 \<Rightarrow> bool \<Rightarrow> usb_dev \<Rightarrow> (int \<times> usb_dev) option" where
  "UsbWriteDataNonBlock ep buf len zlp d =
     (case GetEndPointIndex d ep DIR_IN of
        None \<Rightarrow> Some (1, d)
      | Some i \<Rightarrow>
          if ep \<noteq> 0 \<and> (\<not> Enabled (EndPoint d ! i) \<or> Dir (EndPoint d ! i) = 0 \<or> CfgIndex d = 0 \<or> Suspend d)
          then Some (1, d)
          else map_option (Pair 0)
            (HandleTxData ep i ((set_ep i (load_ep buf len zlp (EndPoint d ! i)) d)\<lparr>BlockingSend := False\<rparr>)))"

definition UsbCompleteRequest :: "usb_hw \<Rightarrow> device_request \<Rightarrow> 'i usb_ctl \<Rightarrow> 'i usb_ctl option" where
  "UsbCompleteRequest hw r s =
     (if HasCompleteRequest hw then Some (call_hw (HwCompleteRequest (ReqStatus r) (wLength r) (bmRequestType r)) s)
      else if ReqStatus r = 1 then Some (ctl_stall 0 DIR_OUT (ctl_stall 0 DIR_IN s))
      else if wLength r = 0 \<or> bmRequestType r AND REQ_DEVICE2HOST = 0
      then do { w \<leftarrow> UsbWriteData_start 0 None 0 True (Dev s);
                Some (case w of Inl (_, d) \<Rightarrow> s\<lparr>Dev := d\<rparr> | Inr (_, d) \<Rightarrow> s\<lparr>Dev := d\<rparr>) }
      else Some s)"

text \<open>The packet size is the one of the first endpoint.\<close>

definition SendPendingEP0Data :: "usb_hw \<Rightarrow> 'i usb_ctl \<Rightarrow> (int \<times> 'i usb_ctl) option" where
  "SendPendingEP0Data hw s =
     do { e \<leftarrow> arr_get (EndPoint (Dev s)) 0;
          let r = (if wLength (InRequest s) = 0 then (InRequest s)\<lparr>ReqStatus := 1\<rparr> else InRequest s);
              EP0MaxPacketSize = MaxPacketSize e
          in if ReqDataLen r \<ge> wLength r
             then map_option (Pair 1) (UsbCompleteRequest hw r (s\<lparr>InRequest := r\<rparr>))
             else let left = wLength r - ReqDataLen r;
                      count = (if left > EP0MaxPacketSize then EP0MaxPacketSize else left);
                      r1 = r\<lparr>ReqDataLen := ReqDataLen r + count\<rparr>;
                      zlp = (ReqDataLen r1 \<ge> wLength r1 \<and> count = EP0MaxPacketSize \<and> wLengthOrig r1 > wLength r1)
                  in do { (ret, d) \<leftarrow> UsbWriteDataNonBlock 0 (Some (drop (unat (ReqDataLen r)) (ReqData r))) (ucast count) zlp (Dev s);
                          Some (0, s\<lparr>InRequest := r1, Dev := d\<rparr>) } }"

text \<open>\<open>UsbTxHandler\<close> of endpoint 0: at the end of a transfer it calls \<open>SendPendingEP0Data\<close> by \<open>CallInterfaceTxHandler\<close>.\<close>

definition UsbTxHandler0 :: "usb_hw \<Rightarrow> 'i usb_ctl \<Rightarrow> (int \<times> 'i usb_ctl) option" where
  "UsbTxHandler0 hw s =
     do { (ret, d) \<leftarrow> UsbTxHandler 0 (Dev s);
          if ret = 0 then map_option (\<lambda>(x, s1). (0, s1)) (SendPendingEP0Data hw (s\<lparr>Dev := d\<rparr>))
          else Some (ret, s\<lparr>Dev := d\<rparr>) }"

section \<open>Receiving\<close>

definition le16_at :: "u8 list \<Rightarrow> nat \<Rightarrow> u16" where
  "le16_at bs i = ucast (bs ! i) OR push_bit 8 (ucast (bs ! (i + 1)))"

text \<open>The eight bytes of a setup packet, copied over the start of the request.\<close>

definition load_setup :: "u8 list \<Rightarrow> device_request \<Rightarrow> device_request" where
  "load_setup bs r =
     r\<lparr>bmRequestType := bs ! 0, bRequest := bs ! 1, wValue := le16_at bs 2, wIndex := le16_at bs 4,
       wLength := le16_at bs 6\<rparr>"

definition rx_setup_in :: "usb_hw \<Rightarrow> u8 list \<Rightarrow> 'i usb_ctl \<Rightarrow> 'i usb_ctl option" where
  "rx_setup_in hw bs s =
     do { let r = load_setup bs (InRequest s);
          (r1, s1) \<leftarrow> ProcessSetup hw (r\<lparr>wLengthOrig := wLength r, ReqStatus := 1\<rparr>) s;
          if ReqStatus r1 \<noteq> 0 then UsbCompleteRequest hw r1 (s1\<lparr>InRequest := r1\<rparr>)
          else map_option snd (SendPendingEP0Data hw (s1\<lparr>InRequest := r1\<lparr>ReqDataLen := 0\<rparr>\<rparr>)) }"

text \<open>A request from the host is processed and completed, once its data are there.\<close>

definition finish_out :: "usb_hw \<Rightarrow> 'i usb_ctl \<Rightarrow> 'i usb_ctl option" where
  "finish_out hw s =
     do { (r, s1) \<leftarrow> ProcessSetup hw (OutRequest s) s;
          UsbCompleteRequest hw r (s1\<lparr>OutRequest := r\<rparr>) }"

definition rx_setup_out :: "usb_hw \<Rightarrow> u8 list \<Rightarrow> 'i usb_ctl \<Rightarrow> 'i usb_ctl option" where
  "rx_setup_out hw bs s =
     (let r = (load_setup bs (OutRequest s))\<lparr>ReqStatus := 1\<rparr>
      in if wLength r = 0 then finish_out hw (s\<lparr>OutRequest := r\<rparr>)
         else Some (s\<lparr>OutRequest := r\<lparr>ReqDataLen := 0\<rparr>\<rparr>))"

text \<open>The number of bytes to copy is computed as an \<open>int\<close> and compared as an unsigned number.\<close>

definition rx_data_out :: "usb_hw \<Rightarrow> u8 list \<Rightarrow> u32 \<Rightarrow> 'i usb_ctl \<Rightarrow> 'i usb_ctl option" where
  "rx_data_out hw bs len s =
     (let r = OutRequest s
      in if len = 0 \<or> wLength r = 0 then Some s
         else let left = ucast (wLength r) - ucast (ReqDataLen r);
                  count = (if len \<le> left then len else left)
              in do { d \<leftarrow> memcpy_at (ReqData r) (unat (ReqDataLen r)) bs (unat count);
                      let r1 = r\<lparr>ReqData := d, ReqDataLen := ReqDataLen r + ucast count\<rparr>;
                          s1 = s\<lparr>OutRequest := r1\<rparr>
                      in if ReqDataLen r1 \<ge> wLength r1 then finish_out hw s1 else Some s1 })"

definition UsbRxHandler0 :: "usb_hw \<Rightarrow> u8 list \<Rightarrow> u32 \<Rightarrow> bool \<Rightarrow> 'i usb_ctl \<Rightarrow> 'i usb_ctl option" where
  "UsbRxHandler0 hw bs len setup s =
     (if setup \<and> length bs < 8 then None
      else if setup \<and> bs ! 0 AND REQ_DEVICE2HOST \<noteq> 0 then rx_setup_in hw bs s
      else if setup then rx_setup_out hw bs s
      else rx_data_out hw bs len s)"

section \<open>Mass storage\<close>

text \<open>The class requests of the Bulk-Only Transport, of a device with logical units up to \<open>MaxLUN\<close>.\<close>

definition bot_req_handler :: "'a bot_sys_scheme req_handler" where
  "bot_req_handler ifn r s =
     (let (ret, v) = BotReqHandler (bmRequestType r) (bRequest r) s
      in do { r1 \<leftarrow> (case v of None \<Rightarrow> Some r | Some b \<Rightarrow> set_byte0 b r); Some (ret, r1, s) })"

text \<open>A host that takes \<open>n\<close> packets of endpoint 0, or sends packets of data.\<close>

fun takes0 :: "nat \<Rightarrow> usb_hw \<Rightarrow> 'i usb_ctl \<Rightarrow> 'i usb_ctl option" where
  "takes0 0 hw s = Some s"
| "takes0 (Suc n) hw s = do { (ret, s1) \<leftarrow> UsbTxHandler0 hw s; takes0 n hw s1 }"

fun sends0 :: "usb_hw \<Rightarrow> u8 list list \<Rightarrow> 'i usb_ctl \<Rightarrow> 'i usb_ctl option" where
  "sends0 hw [] s = Some s"
| "sends0 hw (p # ps) s = do { s1 \<leftarrow> UsbRxHandler0 hw p (of_nat (length p)) False s; sends0 hw ps s1 }"

end
