(* ===== verification/UsbBus.thy ===== *)
theory UsbBus imports UsbControl begin

text \<open>
  What happens to a device beside its transfers (usbe-src/coreusb.c, mod_reg.c): the endpoints it gets
  when it is registered, the sizes of its endpoints at the three speeds of the bus, the events of the
  bus, and the way of an interrupt to the handler of the interface that has the endpoint.
\<close>

unbundle bit_operations_syntax

section \<open>Endpoints of a device\<close>

fun free_index :: "nat \<Rightarrow> endpoint list \<Rightarrow> nat option" where
  "free_index i [] = None"
| "free_index i (e # es) = (if EpUsed e then free_index (Suc i) es else Some i)"

definition GetNextFreeEndpointIndex :: "usb_dev \<Rightarrow> nat option \<times> usb_dev" where
  "GetNextFreeEndpointIndex d =
     (case free_index 0 (EndPoint d) of
        None \<Rightarrow> (None, d)
      | Some i \<Rightarrow> (Some i, set_ep i ((EndPoint d ! i)\<lparr>EpUsed := True\<rparr>) d))"

text \<open>\<open>mem\<close> is the new receive buffer, NULL when there is no memory.\<close>

definition InitializeEndPoint :: "u8 \<Rightarrow> u8 \<Rightarrow> nat \<Rightarrow> u8 list option \<Rightarrow> 'i usb_ctl \<Rightarrow> 'i usb_ctl option" where
  "InitializeEndPoint num dir i mem s =
     (let e = (EndPoint (Dev s) ! i)\<lparr>EpNum := num, TxData := None, TxDataLen := 0, TxDataPos := 0, TxZeroLenPkt := False,
            TxReady := True, RxDataLen := 0, Dir := dir, RxData := mem, Enabled := False\<rparr>;
          s1 = s\<lparr>Dev := set_ep i e (Dev s)\<rparr>
      in if num = 0 then EnableEndPoint num dir s1 else Some s1)"

text \<open>
  The part of \<open>register_usb_device\<close> that sets up the endpoints: endpoint 0 in both directions, and then the
  endpoints of the hardware. The result is whether there were enough entries.
\<close>

definition register_ep :: "u8 \<Rightarrow> u8 \<Rightarrow> u8 list option \<Rightarrow> 'i usb_ctl \<Rightarrow> (bool \<times> 'i usb_ctl) option" where
  "register_ep num dir mem s =
     (case GetNextFreeEndpointIndex (Dev s) of
        (None, d) \<Rightarrow> Some (False, s)
      | (Some i, d) \<Rightarrow> map_option (Pair True) (InitializeEndPoint num dir i mem (s\<lparr>Dev := d\<rparr>)))"

fun register_eps :: "(nat \<Rightarrow> u8 list option) \<Rightarrow> nat list \<Rightarrow> 'i usb_ctl \<Rightarrow> (bool \<times> 'i usb_ctl) option" where
  "register_eps mem [] s = Some (True, s)"
| "register_eps mem (k # ks) s =
     do { c \<leftarrow> arr_get (ep_configs (Eps (Desc s))) k;
          (ok, s1) \<leftarrow> register_ep (ep_num c) (if ep_dir c = 0 then DIR_OUT else if ep_dir c = EP_ADDR_IN then DIR_IN else ep_dir c)
            (mem (k + 2)) s;
          if ok then register_eps mem ks s1 else Some (False, s1) }"

definition register_endpoints :: "usb_hw \<Rightarrow> (nat \<Rightarrow> u8 list option) \<Rightarrow> 'i usb_ctl \<Rightarrow> (bool \<times> 'i usb_ctl) option" where
  "register_endpoints hw mem s =
     do { (ok, s1) \<leftarrow> register_ep 0 DIR_IN (mem 0) s;
          if \<not> ok then Some (False, s1)
          else do { (ok2, s2) \<leftarrow> register_ep 0 DIR_OUT (mem 1) s1;
                    if \<not> ok2 then Some (False, s2) else register_eps mem [0..<unat (NumEndpoints hw)] s2 } }"

section \<open>The speed of the bus\<close>

definition SUPPORT_LOW_SPEED :: u8 where "SUPPORT_LOW_SPEED = 0x01"
definition SUPPORT_FULL_SPEED :: u8 where "SUPPORT_FULL_SPEED = 0x02"
definition SUPPORT_HIGH_SPEED :: u8 where "SUPPORT_HIGH_SPEED = 0x04"

definition UsbGetDevBusSpeed :: "u8 \<Rightarrow> u8 \<Rightarrow> bool \<Rightarrow> u8" where
  "UsbGetDevBusSpeed SupportedSpeeds DevReqSpeeds is_hid =
     (let Mask = SupportedSpeeds AND DevReqSpeeds
      in if \<not> is_hid
         then if Mask AND SUPPORT_HIGH_SPEED \<noteq> 0 then SUPPORT_HIGH_SPEED
              else if Mask AND SUPPORT_FULL_SPEED \<noteq> 0 then SUPPORT_FULL_SPEED
              else if Mask AND SUPPORT_LOW_SPEED \<noteq> 0 then SUPPORT_LOW_SPEED
              else SUPPORT_FULL_SPEED
         else if Mask AND SUPPORT_LOW_SPEED \<noteq> 0 then SUPPORT_LOW_SPEED
              else if Mask AND SUPPORT_FULL_SPEED \<noteq> 0 then SUPPORT_FULL_SPEED
              else if Mask AND SUPPORT_HIGH_SPEED \<noteq> 0 then SUPPORT_HIGH_SPEED
              else SUPPORT_FULL_SPEED)"

definition GetEndPointBufSize :: "ep_info \<Rightarrow> u8 \<Rightarrow> u8 \<Rightarrow> u16 option" where
  "GetEndPointBufSize x num dir =
     (if length (ep_configs x) < unat (num_eps x) then None
      else Some (case find (\<lambda>e. ep_num e = num \<and> (ep_dir e = dir \<or> ep_dir e = CONFIGURABLE))
                        (take (unat (num_eps x)) (ep_configs x)) of
                   None \<Rightarrow> 0 | Some e \<Rightarrow> ep_size e))"

text \<open>The size of an endpoint of a type, interrupt (3), bulk (2), isochronous (1) or control (0), at each speed.\<close>

definition size_HS :: "u8 \<Rightarrow> u16 \<Rightarrow> u16" where
  "size_HS ty n =
     (if ty = 0x03 then (if n > 1024 then 1024 else n)
      else if ty = 0x02 then (let m = (if n > 512 then 512 else n) in if m > 64 \<and> m < 512 then 64 else m)
      else if ty = 0x01 then (if n > 1024 then 1024 else n)
      else (if n > 64 then 64 else n))"

definition size_FS :: "u8 \<Rightarrow> u16 \<Rightarrow> u16" where
  "size_FS ty n =
     (if ty = 0x03 then (if n > 64 then 64 else n)
      else if ty = 0x02 then (if n > 64 then 64 else n)
      else if ty = 0x01 then (if n > 1023 then 1023 else n)
      else (if n > 64 then 64 else n))"

definition size_LS :: "u8 \<Rightarrow> u16 \<Rightarrow> u16" where
  "size_LS ty n =
     (if ty = 0x03 then (if n > 8 then 8 else n)
      else if ty = 0x02 then (if n > 64 then 64 else n)
      else if ty = 0x01 then (if n > 1023 then 1023 else n)
      else (if n > 8 then 8 else n))"

text \<open>
  The three functions differ in the sizes, the version (its low byte \<open>lo\<close> and high byte \<open>hi\<close>), and the size of
  endpoint 0. \<open>resize_ep\<close> is what they do for an endpoint, \<open>all_configs\<close> their loop over the configurations.
\<close>

definition put_byte :: "nat \<Rightarrow> u8 \<Rightarrow> desc_table \<Rightarrow> desc_table option" where
  "put_byte i v t = do { b \<leftarrow> DescBuff t; b1 \<leftarrow> arr_set b i v; Some (t\<lparr>DescBuff := Some b1\<rparr>) }"

definition set_desc_table :: "desc_table \<Rightarrow> 'i usb_ctl \<Rightarrow> 'i usb_ctl" where
  "set_desc_table t s = s\<lparr>Desc := (Desc s)\<lparr>Table := t\<rparr>\<rparr>"

definition resize_ep :: "(u8 \<Rightarrow> u16 \<Rightarrow> u16) \<Rightarrow> u8 \<Rightarrow> u8 \<Rightarrow> 'i usb_ctl ep_step" where
  "resize_ep fit cfg ifn num dir s =
     (let t = Table (Desc s)
      in do { e \<leftarrow> GetEndpointDesc t cfg ifn num dir;
              case e of
                None \<Rightarrow> Some (False, s)
              | Some i \<Rightarrow>
                  do { ty \<leftarrow> desc_field t (Some i) 3;
                       a \<leftarrow> desc_field t (Some i) 2;
                       n \<leftarrow> GetEndPointBufSize (Eps (Desc s)) num (if a AND EP_ADDR_IN \<noteq> 0 then 0x80 else 0);
                       t1 \<leftarrow> put_byte (i + 4) (LO_BYTE (fit (ty AND 0x03) n)) t;
                       t2 \<leftarrow> put_byte (i + 5) (HI_BYTE (fit (ty AND 0x03) n)) t1;
                       Some (True, set_desc_table t2 s) } })"

fun each_config :: "usb_hw \<Rightarrow> (u8 \<Rightarrow> u8 \<Rightarrow> 'i usb_ctl ep_step) \<Rightarrow> nat list \<Rightarrow> 'i usb_ctl \<Rightarrow> 'i usb_ctl option" where
  "each_config hw f [] s = Some s"
| "each_config hw f (k # ks) s = do { s1 \<leftarrow> in_config hw f (of_nat k) s; each_config hw f ks s1 }"

definition all_configs :: "usb_hw \<Rightarrow> (u8 \<Rightarrow> u8 \<Rightarrow> 'i usb_ctl ep_step) \<Rightarrow> 'i usb_ctl \<Rightarrow> 'i usb_ctl option" where
  "all_configs hw f s = each_config hw f [1..<Suc (unat (GetNumConfigurations (Table (Desc s))))] s"

definition configure_speed ::
  "usb_hw \<Rightarrow> u8 \<Rightarrow> u8 \<Rightarrow> u16 \<Rightarrow> (u8 \<Rightarrow> u16 \<Rightarrow> u16) \<Rightarrow> 'i usb_ctl \<Rightarrow> 'i usb_ctl option" where
  "configure_speed hw lo hi size0 fit s =
     do { e \<leftarrow> arr_get (EndPoint (Dev s)) 0;
          let s0 = s\<lparr>Dev := set_ep 0 (e\<lparr>MaxPacketSize := size0\<rparr>) (Dev s)\<rparr> in
          do { d \<leftarrow> GetDeviceDesc (Table (Desc s0));
               case d of
                 None \<Rightarrow> Some s0
               | Some i \<Rightarrow>
                   do { t1 \<leftarrow> put_byte (i + 2) lo (Table (Desc s0));
                        t2 \<leftarrow> put_byte (i + 3) hi t1;
                        t3 \<leftarrow> put_byte (i + 7) (ucast size0) t2;
                        all_configs hw (resize_ep fit) (set_desc_table t3 s0) } } }"

definition UsbConfigureHS :: "usb_hw \<Rightarrow> 'i usb_ctl \<Rightarrow> 'i usb_ctl option" where
  "UsbConfigureHS hw s = configure_speed hw 0x00 0x02 (EP0Size hw) size_HS s"

definition UsbConfigureFS :: "usb_hw \<Rightarrow> 'i usb_ctl \<Rightarrow> 'i usb_ctl option" where
  "UsbConfigureFS hw s =
     (if IsDevHid (Dev s) then configure_speed hw 0x00 0x02 (EP0Size hw) size_FS s
      else configure_speed hw 0x10 0x01 (EP0Size hw) size_FS s)"

definition UsbConfigureLS :: "usb_hw \<Rightarrow> 'i usb_ctl \<Rightarrow> 'i usb_ctl option" where
  "UsbConfigureLS hw s = configure_speed hw 0x10 0x01 8 size_LS s"

section \<open>Events of the bus\<close>

text \<open>A handler of an interface acts on the device and the state of the interfaces.\<close>

definition run_handler :: "'i if_handler option \<Rightarrow> u8 \<Rightarrow> 'i usb_ctl \<Rightarrow> 'i usb_ctl option" where
  "run_handler h ifn s =
     (case h of
        None \<Rightarrow> Some s
      | Some f \<Rightarrow> map_option (\<lambda>(d, x). s\<lparr>Dev := d, IfState := x\<rparr>) (f ifn (Dev s, IfState s)))"

fun disconnect_interfaces :: "nat list \<Rightarrow> 'i usb_ctl \<Rightarrow> 'i usb_ctl option" where
  "disconnect_interfaces [] s = Some s"
| "disconnect_interfaces (k # ks) s =
     do { f \<leftarrow> arr_get (Inter (Desc s)) k;
          s1 \<leftarrow> run_handler (DisconnectHandler f) (of_nat k) s;
          disconnect_interfaces ks s1 }"

fun disconnect_configs :: "nat list \<Rightarrow> 'i usb_ctl \<Rightarrow> 'i usb_ctl option" where
  "disconnect_configs [] s = Some s"
| "disconnect_configs (k # ks) s =
     do { n \<leftarrow> GetNumInterfaces (Table (Desc s)) (of_nat k);
          s1 \<leftarrow> disconnect_interfaces [0..<unat n] s;
          disconnect_configs ks s1 }"

definition idle_ep :: "endpoint \<Rightarrow> endpoint" where
  "idle_ep e = e\<lparr>TxReady := True, TxData := None\<rparr>"

definition UsbRestoreInitState :: "usb_hw \<Rightarrow> 'i usb_ctl \<Rightarrow> 'i usb_ctl option" where
  "UsbRestoreInitState hw s =
     do { s1 \<leftarrow> UsbUnCfgDevice hw s;
          let s2 = UsbSetAddr 0 1 s1;
              s3 = s2\<lparr>InRequest := (InRequest s2)\<lparr>ReqDataLen := 0, wLength := 0\<rparr>,
                      OutRequest := (OutRequest s2)\<lparr>ReqDataLen := 0, wLength := 0\<rparr>,
                      Dev := (Dev s2)\<lparr>EndPoint := map idle_ep (EndPoint (Dev s2))\<rparr>\<rparr>
          in do { s4 \<leftarrow> disconnect_configs [1..<Suc (unat (GetNumConfigurations (Table (Desc s3))))] s3;
                  UsbConfigureFS hw s4 } }"

text \<open>The writers that sleep on the endpoints of the device are woken; they look at \<open>TxReady\<close> again.\<close>

definition wake_ep :: "u8 \<Rightarrow> u8 \<Rightarrow> 'i usb_ctl ep_step" where
  "wake_ep cfg ifn num dir s =
     do { e \<leftarrow> GetEndpointDesc (Table (Desc s)) cfg ifn num dir;
          case e of
            None \<Rightarrow> Some (False, s)
          | Some i \<Rightarrow> Some (True, case GetEndPointIndex (Dev s) num dir of None \<Rightarrow> s | Some j \<Rightarrow> call_hw (OsWakeup j) s) }"

definition UsbBusReset :: "usb_hw \<Rightarrow> 'i usb_ctl \<Rightarrow> 'i usb_ctl option" where
  "UsbBusReset hw s =
     do { s1 \<leftarrow> UsbRestoreInitState hw (s\<lparr>Dev := (Dev s)\<lparr>Suspend := False\<rparr>\<rparr>);
          all_configs hw wake_ep (s1\<lparr>Dev := (Dev s1)\<lparr>CfgIndex := 0\<rparr>\<rparr>) }"

definition UsbBusDisconnect :: "usb_hw \<Rightarrow> 'i usb_ctl \<Rightarrow> 'i usb_ctl option" where
  "UsbBusDisconnect hw s = UsbRestoreInitState hw s"

definition UsbBusSuspend :: "usb_hw \<Rightarrow> 'i usb_ctl \<Rightarrow> 'i usb_ctl option" where
  "UsbBusSuspend hw s = all_configs hw wake_ep (s\<lparr>Dev := (Dev s)\<lparr>Suspend := True\<rparr>\<rparr>)"

definition UsbBusResume :: "'i usb_ctl \<Rightarrow> 'i usb_ctl" where
  "UsbBusResume s = s\<lparr>Dev := (Dev s)\<lparr>Suspend := False\<rparr>\<rparr>"

section \<open>Interrupts and interfaces\<close>

text \<open>
  The interface that has the endpoint, and its handler; \<open>sel\<close> picks it. Nothing happens for endpoint 0, in a
  device without a configuration, or without an interface or a handler.
\<close>

definition call_interface ::
  "(('i req_handler, 'i ep_handler, 'i if_handler) interface_info \<Rightarrow> 'i ep_handler option) \<Rightarrow> u8 \<Rightarrow> u8 \<Rightarrow> 'i usb_ctl \<Rightarrow> 'i usb_ctl option" where
  "call_interface sel ep dir s =
     (if ep = 0 \<or> CfgIndex (Dev s) = 0 then Some s
      else do { ifn \<leftarrow> GetInterface (Table (Desc s)) (CfgIndex (Dev s)) ep dir;
                if ifn = 0xFF then Some s
                else do { f \<leftarrow> arr_get (Inter (Desc s)) (unat ifn);
                          run_handler (map_option (\<lambda>h ifn. h ifn ep) (sel f)) ifn s } })"

definition CallInterfaceTxHandler :: "usb_hw \<Rightarrow> u8 \<Rightarrow> 'i usb_ctl \<Rightarrow> 'i usb_ctl option" where
  "CallInterfaceTxHandler hw ep s =
     (if ep = 0 then map_option snd (SendPendingEP0Data hw s) else call_interface TxHandler ep DIR_IN s)"

definition CallInterfaceRxHandler :: "u8 \<Rightarrow> 'i usb_ctl \<Rightarrow> 'i usb_ctl option" where
  "CallInterfaceRxHandler ep s = call_interface RxHandler ep DIR_OUT s"

definition UsbHaltHandler :: "u8 \<Rightarrow> u8 \<Rightarrow> 'i usb_ctl \<Rightarrow> 'i usb_ctl option" where
  "UsbHaltHandler ep dir s = call_interface HaltHandler ep dir s"

definition UsbUnHaltHandler :: "u8 \<Rightarrow> u8 \<Rightarrow> 'i usb_ctl \<Rightarrow> 'i usb_ctl option" where
  "UsbUnHaltHandler ep dir s = call_interface UnHaltHandler ep dir s"

definition UsbRxHandler :: "u8 \<Rightarrow> 'i usb_ctl \<Rightarrow> 'i usb_ctl option" where
  "UsbRxHandler ep s = CallInterfaceRxHandler ep s"

text \<open>The transmit interrupt, for any endpoint.\<close>

definition UsbTxInterrupt :: "usb_hw \<Rightarrow> u8 \<Rightarrow> 'i usb_ctl \<Rightarrow> (int \<times> 'i usb_ctl) option" where
  "UsbTxInterrupt hw ep s =
     do { (ret, d) \<leftarrow> UsbTxHandler ep (Dev s);
          if ret = 0
          then map_option (Pair 0) (CallInterfaceTxHandler hw ep (s\<lparr>Dev := d\<rparr>))
          else Some (ret, s\<lparr>Dev := d\<rparr>) }"

text \<open>The deferred procedure: the interfaces whose flag is raised.\<close>

definition SetInterfaceFlag :: "u8 \<Rightarrow> 'i usb_ctl \<Rightarrow> 'i usb_ctl option" where
  "SetInterfaceFlag ifn s =
     do { f \<leftarrow> arr_get (Inter (Desc s)) (unat ifn);
          Some (s\<lparr>Desc := (Desc s)\<lparr>Inter := (Inter (Desc s))[unat ifn := f\<lparr>IfFlag := 1\<rparr>]\<rparr>\<rparr>) }"

fun process_interfaces :: "nat list \<Rightarrow> 'i usb_ctl \<Rightarrow> 'i usb_ctl option" where
  "process_interfaces [] s = Some s"
| "process_interfaces (k # ks) s =
     do { f \<leftarrow> arr_get (Inter (Desc s)) k;
          s1 \<leftarrow> (if IfFlag f \<noteq> 0
                 then run_handler (ProcHandler f) (of_nat k)
                        (s\<lparr>Desc := (Desc s)\<lparr>Inter := (Inter (Desc s))[k := f\<lparr>IfFlag := 0\<rparr>]\<rparr>\<rparr>)
                 else Some s);
          process_interfaces ks s1 }"

definition ProcessInterfaceHandler :: "'i usb_ctl \<Rightarrow> 'i usb_ctl option" where
  "ProcessInterfaceHandler s =
     (if CfgIndex (Dev s) = 0 then Some s
      else do { n \<leftarrow> GetNumInterfaces (Table (Desc s)) (CfgIndex (Dev s)); process_interfaces [0..<unat n] s })"

section \<open>The handlers of a mass storage interface\<close>

definition bot_rx_handler :: "'a bot_sys_scheme ep_handler" where
  "bot_rx_handler ifn ep = (\<lambda>(d, x). map_option (\<lambda>x1. (udev x1, x1)) (BotRxHandler ep (x\<lparr>udev := d\<rparr>)))"

definition bot_unhalt_handler :: "'a bot_sys_scheme ep_handler" where
  "bot_unhalt_handler ifn ep = (\<lambda>(d, x). Some (d, BotUnHaltHandler x))"

definition bot_rem_handler :: "'a bot_sys_scheme if_handler" where
  "bot_rem_handler ifn = (\<lambda>(d, x). Some (d, BotRemHandler x))"

end
