(* ===== verification/UsbMass.thy ===== *)
theory UsbMass imports IusbScsi UsbBus begin

text \<open>
  The device modules of the virtual disk, CD-ROM and floppy drive (hdisk-src/hdisk_mod.c,
  cdrom-src/cdrom_mod.c, floppy-src/floppy_mod.c): each builds the descriptors and the interface data of
  its device, keeps which slot of the remote servers serves which logical unit, and answers the ioctls
  of the servers and of the program that configures them. Also the wait of the vendor commands
  (iUSB-src/iusb-vendor.c), which the CD-ROM module passes on.

  The modules are copies of one another; \<open>mass_kind\<close> holds what differs. The builds are those with event
  status packets and without media names of their own.
\<close>

unbundle bit_operations_syntax

section \<open>What differs between the modules\<close>

text \<open>
  \<open>luns\<close> is MAX_LUN_SUPPORT, \<open>digit\<close> the character of the product name that numbers the unit, \<open>eject\<close> the
  event and the media status of a server that leaves. Only the disk module compares what it stores with
  0xff; the others compare a byte with -1, which is never equal.
\<close>

record mass_kind =
  luns :: nat
  first_slots :: "u8 list"
  PeripheralType :: u8
  product_info :: string
  digit :: nat
  full_seen :: bool
  eject :: "u8 \<times> u8"
  cd_slots :: bool
  product_id :: u16
  device_text :: string
  interface_text :: string
  serial_number :: string

definition hdisk_kind :: mass_kind where
  "hdisk_kind = \<lparr>luns = 5, first_slots = [0xFF, 0, 0, 0, 0], PeripheralType = 0x00, product_info = ''Virtual HDisk   '', digit = 13,
     full_seen = True, eject = (0x01, 0x02), cd_slots = False, product_id = 0xFF31, device_text = ''Virtual HardDisk Device'',
     interface_text = ''Virtual HardDisk'', serial_number = ''AAAABBBBCCCC3''\<rparr>"

definition cdrom_kind :: mass_kind where
  "cdrom_kind = \<lparr>luns = 4, first_slots = replicate 4 0xFF, PeripheralType = 0x05, product_info = ''Virtual CDROM   '', digit = 13,
     full_seen = False, eject = (0x03, 0x00), cd_slots = True, product_id = 0xFF20, device_text = ''Virtual Cdrom Device'',
     interface_text = ''Virtual Cdrom'', serial_number = ''AAAABBBBCCCC1''\<rparr>"

definition floppy_kind :: mass_kind where
  "floppy_kind = \<lparr>luns = 6, first_slots = replicate 6 0xFF, PeripheralType = 0x00, product_info = ''Virtual Floppy  '', digit = 14,
     full_seen = False, eject = (0x01, 0x02), cd_slots = False, product_id = 0xFF40, device_text = ''Virtual Floppy Device'',
     interface_text = ''Virtual Floppy'', serial_number = ''AAAABBBBCCCC2''\<rparr>"

section \<open>State\<close>

text \<open>
  The device with the variables of its module. \<open>iface_key\<close> is \<open>IfaceAuthKeys[0]\<close>, 0 while no one owns the
  interface; \<open>InstAssignment\<close> is indexed by the instance that a server names, \<open>LunNumAssignment\<close> by the
  unit that the host names.
\<close>

record mass_sys = iusb_sys +
  ConnectState :: u8
  connects :: "bool list"
  iface_key :: u32
  devnum :: u8
  maxlun :: u8
  NumLun :: u8
  LunNumAssignment :: "u8 list"
  InstAssignment :: "u8 list"

definition slots_of :: "mass_kind \<Rightarrow> 'a iusb_sys_scheme \<Rightarrow> slot list" where
  "slots_of k s = (if cd_slots k then cdrom s else hdisk s)"

definition set_slots :: "mass_kind \<Rightarrow> slot list \<Rightarrow> 'a iusb_sys_scheme \<Rightarrow> 'a iusb_sys_scheme" where
  "set_slots k xs s = (if cd_slots k then s\<lparr>cdrom := xs\<rparr> else s\<lparr>hdisk := xs\<rparr>)"

text \<open>The data of the only interface; \<open>None\<close> is a NULL pointer or the interface of another device.\<close>

definition GetInterfaceData :: "u8 \<Rightarrow> u8 \<Rightarrow> 'a mass_sys_scheme \<Rightarrow> bot_if option" where
  "GetInterfaceData DevNo IfNum s = (if DevNo = dev_no s \<and> IfNum = if_no s then mass s else None)"

definition UsbSetNumLUN :: "u8 \<Rightarrow> 'a bot_sys_scheme \<Rightarrow> 'a bot_sys_scheme" where
  "UsbSetNumLUN n s = s\<lparr>MaxLUN := n\<rparr>"

text \<open>
  The environment: the sleeps of the transport, the waits of the servers (with whether a signal ended
  them), and whether the hardware can disconnect and reconnect.
\<close>

record 's mass_env =
  bot_sleeps :: "'s bot_env"
  slot_wait :: "nat \<Rightarrow> 's \<Rightarrow> bool \<times> 's"
  vendor_wait :: "'s \<Rightarrow> bool \<times> 's"
  can_disconnect :: bool
  can_reconnect :: bool

definition UsbDeviceDisconnect :: "'s mass_env \<Rightarrow> 'a mass_sys_scheme \<Rightarrow> int \<times> 'a mass_sys_scheme" where
  "UsbDeviceDisconnect env s =
     (let s1 = s\<lparr>ConnectState := 0\<rparr>
      in if \<not> can_disconnect env then (1, s1) else (0, s1\<lparr>connects := connects s1 @ [False]\<rparr>))"

definition UsbDeviceReconnect :: "'s mass_env \<Rightarrow> 'a mass_sys_scheme \<Rightarrow> int \<times> 'a mass_sys_scheme" where
  "UsbDeviceReconnect env s =
     (let s1 = s\<lparr>ConnectState := 1\<rparr>
      in if \<not> can_reconnect env then (1, s1) else (0, s1\<lparr>connects := connects s1 @ [True]\<rparr>))"

section \<open>Vendor commands\<close>

text \<open>The server of the vendor commands waits for a packet, or for the end of its wait.\<close>

definition VendorWaitRequest ::
  "('a mass_sys_scheme) mass_env \<Rightarrow> 'a mass_sys_scheme \<Rightarrow> int \<times> iusb_pkt option \<times> 'a mass_sys_scheme" where
  "VendorWaitRequest env s =
     (let (signal, s1) = vendor_wait env (s\<lparr>vendor := (vendor s)\<lparr>s_req := True, s_active := True\<rparr>\<rparr>)
      in if signal then (- EINTR, None, s1)
         else (if vendor_exit s1 then 1 else 0, Some (s_pkt (vendor s1)),
               s1\<lparr>vendor := (vendor s1)\<lparr>s_wakeup := False, s_active := False, s_req := True\<rparr>\<rparr>))"

definition VendorExitWait :: "'a mass_sys_scheme \<Rightarrow> int \<times> 'a mass_sys_scheme" where
  "VendorExitWait s = (0, s\<lparr>vendor_exit := True, vendor := (vendor s)\<lparr>s_wakeup := True\<rparr>\<rparr>)"

section \<open>Ioctls\<close>

datatype ioctl_cmd = USB_REQ | USB_RES | USB_ACTIVATE | USB_EXIT | USB_VENDOR_REQ | USB_VENDOR_RES | USB_VENDOR_EXIT
  | USB_DEVICE_DISCONNECT | USB_DEVICE_RECONNECT | USB_SET_TYPE | USB_GET_TYPE | USB_RST_IF | USB_ADD | USB_OTHER

record ioctl_data =
  d_key :: u32
  d_DevNo :: u8
  d_IfNum :: u8
  d_Instance :: u8
  d_Data :: u8

text \<open>
  What the argument points to, as a packet and as \<open>IUSB_IOCTL_DATA\<close>; a command reads it as one of the two.
  Memory that is not \<open>readable\<close> leaves what was on the stack. Memory read twice gives the same.
\<close>

record ioctl_arg =
  readable :: bool
  u_pkt :: iusb_pkt
  u_data :: ioctl_data

definition EPERM :: int where "EPERM = 1"
definition EFAULT :: int where "EFAULT = 14"

text \<open>0, or the error for \<open>RetVal\<close>.\<close>

definition AuthenticateIOCTLCaller :: "mass_kind \<Rightarrow> ioctl_arg \<Rightarrow> bool \<Rightarrow> 'a mass_sys_scheme \<Rightarrow> int option" where
  "AuthenticateIOCTLCaller k arg header s =
     (let h = Header (u_pkt arg); d = u_data arg;
          (AuthKey, IfNum, inst) = (if header then (Key h, InterfaceNo h, Instance h) else (d_key d, d_IfNum d, d_Instance d))
      in if luns k \<le> unat inst then Some (- EINVAL)
         else do { n \<leftarrow> arr_get (InstAssignment s) (unat inst);
                   Some (if n = 0xFF then - EINVAL
                         else if \<not> readable arg then - EFAULT
                         else if IfNum > 0 then - EINVAL
                         else if iface_key s = 0 then - EPERM
                         else if AuthKey \<noteq> iface_key s then - EPERM
                         else 0) })"

text \<open>
  The result of an ioctl: what it returns, what it stores in \<open>RetVal\<close> if anything, and the packet it
  copies to the server.
\<close>

type_synonym ioctl_result = "int \<times> int option \<times> iusb_pkt option"

definition authenticated ::
  "mass_kind \<Rightarrow> ioctl_arg \<Rightarrow> bool \<Rightarrow> ('a mass_sys_scheme \<Rightarrow> (ioctl_result \<times> 'a mass_sys_scheme) option) \<Rightarrow>
   'a mass_sys_scheme \<Rightarrow> (ioctl_result \<times> 'a mass_sys_scheme) option" where
  "authenticated k arg header f s =
     do { e \<leftarrow> AuthenticateIOCTLCaller k arg header s;
          if e \<noteq> 0 then Some ((0, Some e, None), s) else f s }"

text \<open>A command for the device reads the argument first, and is refused when it names another device.\<close>

definition for_device ::
  "mass_kind \<Rightarrow> ioctl_arg \<Rightarrow> ('a mass_sys_scheme \<Rightarrow> (ioctl_result \<times> 'a mass_sys_scheme) option) \<Rightarrow>
   'a mass_sys_scheme \<Rightarrow> (ioctl_result \<times> 'a mass_sys_scheme) option" where
  "for_device k arg f s =
     (if \<not> readable arg then Some ((0, Some (- 1), None), s)
      else if devnum s \<noteq> d_DevNo (u_data arg) then Some ((- 1, None, None), s)
      else authenticated k arg False f s)"

definition media_event :: "u8 \<Rightarrow> u8 \<Rightarrow> nat \<Rightarrow> u8 \<Rightarrow> u8 \<Rightarrow> 'a mass_sys_scheme \<Rightarrow> 'a mass_sys_scheme option" where
  "media_event DevNo IfNum n code media s =
     do { m \<leftarrow> GetInterfaceData DevNo IfNum s;
          e \<leftarrow> arr_get (EventStatus m) n;
          Some (s\<lparr>mass := Some (m\<lparr>EventStatus := (EventStatus m)[n := e[4 := code, 5 := media]]\<rparr>)\<rparr>) }"

definition ioctl_req ::
  "mass_kind \<Rightarrow> ('a mass_sys_scheme) mass_env \<Rightarrow> ioctl_arg \<Rightarrow> 'a mass_sys_scheme \<Rightarrow> (ioctl_result \<times> 'a mass_sys_scheme) option" where
  "ioctl_req k env arg =
     authenticated k arg True (\<lambda>s.
       do { n \<leftarrow> arr_get (InstAssignment s) (unat (Instance (Header (u_pkt arg))));
            let (signal, s1) = (if unat n < length (slots_of k s) then slot_wait env (unat n) s else (False, s)) in
            do { (r, p, xs) \<leftarrow> RemoteWaitRequest signal (unat n) (slots_of k s1);
                 Some ((0, Some r, p), set_slots k xs s1) } })"

definition ioctl_res ::
  "mass_kind \<Rightarrow> ('a mass_sys_scheme) mass_env \<Rightarrow> ioctl_arg \<Rightarrow> 'a mass_sys_scheme \<Rightarrow> (ioctl_result \<times> 'a mass_sys_scheme) option" where
  "ioctl_res k env arg =
     authenticated k arg True (\<lambda>s.
       do { (r, s1) \<leftarrow> ScsiSendResponse (bot_sleeps env) (u_pkt arg) s; Some ((0, Some r, None), s1) })"

text \<open>A server that comes or goes: the event for the host, and the slot.\<close>

definition ioctl_media ::
  "mass_kind \<Rightarrow> u8 \<times> u8 \<Rightarrow> (nat \<Rightarrow> slot list \<Rightarrow> int \<times> slot list) \<Rightarrow> ioctl_arg \<Rightarrow> 'a mass_sys_scheme \<Rightarrow>
   (ioctl_result \<times> 'a mass_sys_scheme) option" where
  "ioctl_media k event f arg =
     authenticated k arg False (\<lambda>s.
       let d = u_data arg; i = unat (d_Instance d)
       in do { s1 \<leftarrow> media_event (d_DevNo d) (d_IfNum d) i (fst event) (snd event) s;
               n \<leftarrow> arr_get (InstAssignment s1) i;
               let (r, xs) = f (unat n) (slots_of k s1) in
               Some ((0, Some r, None), set_slots k xs s1) })"

definition ioctl_activate :: "mass_kind \<Rightarrow> ioctl_arg \<Rightarrow> 'a mass_sys_scheme \<Rightarrow> (ioctl_result \<times> 'a mass_sys_scheme) option" where
  "ioctl_activate k = ioctl_media k (0x02, 0x02) RemoteActivate"

definition ioctl_exit :: "mass_kind \<Rightarrow> ioctl_arg \<Rightarrow> 'a mass_sys_scheme \<Rightarrow> (ioctl_result \<times> 'a mass_sys_scheme) option" where
  "ioctl_exit k = ioctl_media k (eject k) RemoteDeactivate"

text \<open>The type of a unit is byte 1 of its inquiry packet.\<close>

definition unreadable_first ::
  "ioctl_arg \<Rightarrow> ('a mass_sys_scheme \<Rightarrow> (ioctl_result \<times> 'a mass_sys_scheme) option) \<Rightarrow>
   'a mass_sys_scheme \<Rightarrow> (ioctl_result \<times> 'a mass_sys_scheme) option" where
  "unreadable_first arg f s = (if \<not> readable arg then Some ((0, Some (- 1), None), s) else f s)"

definition ioctl_set_type :: "mass_kind \<Rightarrow> ioctl_arg \<Rightarrow> 'a mass_sys_scheme \<Rightarrow> (ioctl_result \<times> 'a mass_sys_scheme) option" where
  "ioctl_set_type k arg =
     unreadable_first arg (authenticated k arg False (\<lambda>s.
       let d = u_data arg; i = unat (d_Instance d)
       in do { m \<leftarrow> GetInterfaceData (d_DevNo d) (d_IfNum d) s;
               q \<leftarrow> arr_get (Inquiry m) i;
               Some ((0, Some 0, None), s\<lparr>mass := Some (m\<lparr>Inquiry := (Inquiry m)[i := q[1 := d_Data d]]\<rparr>)\<rparr>) }))"

definition ioctl_get_type :: "mass_kind \<Rightarrow> ioctl_arg \<Rightarrow> 'a mass_sys_scheme \<Rightarrow> (ioctl_result \<times> 'a mass_sys_scheme) option" where
  "ioctl_get_type k arg =
     unreadable_first arg (authenticated k arg False (\<lambda>s.
       let d = u_data arg
       in do { m \<leftarrow> GetInterfaceData (d_DevNo d) (d_IfNum d) s;
               q \<leftarrow> arr_get (Inquiry m) (unat (d_Instance d));
               Some ((0, Some (uint (q ! 1)), None), s) }))"

text \<open>
  The reset of the units: the slots given back are those with the numbers below \<open>luns\<close>, not those that
  the module has taken, and \<open>InstAssignment\<close> stays.
\<close>

definition release_slots :: "nat \<Rightarrow> slot list \<Rightarrow> slot list" where
  "release_slots n xs = fold (\<lambda>i ys. snd (ReleaseInstanceIndex i ys)) [0..<n] xs"

definition ioctl_rst_if :: "mass_kind \<Rightarrow> ioctl_arg \<Rightarrow> 'a mass_sys_scheme \<Rightarrow> (ioctl_result \<times> 'a mass_sys_scheme) option" where
  "ioctl_rst_if k arg =
     for_device k arg (\<lambda>s.
       let s1 = set_slots k (release_slots (luns k) (slots_of k s)) (s\<lparr>maxlun := 0, NumLun := 0\<rparr>)
       in Some ((0, Some 0, None), UsbSetNumLUN 0 (s1\<lparr>LunNumAssignment := replicate (length (LunNumAssignment s1)) 0xFF\<rparr>)))"

definition put_text :: "nat \<Rightarrow> string \<Rightarrow> u8 list \<Rightarrow> u8 list" where
  "put_text i txt q = take i q @ map of_char txt @ drop (i + length txt) q"

definition inquiry_of :: "mass_kind \<Rightarrow> u8 list \<Rightarrow> u8 list" where
  "inquiry_of k q =
     put_text 16 (product_info k) (put_text 32 ''1.00'' (put_text 8 ''AMI     ''
       (q[2 := 0, 3 := 1, 4 := of_nat (sizeof_INQUIRY - 5), 0 := PeripheralType k, 1 := 0x80])))"

text \<open>A new unit: its event status, its inquiry packet with its digit, and a slot.\<close>

definition ioctl_add :: "mass_kind \<Rightarrow> ioctl_arg \<Rightarrow> 'a mass_sys_scheme \<Rightarrow> (ioctl_result \<times> 'a mass_sys_scheme) option" where
  "ioctl_add k arg =
     for_device k arg (\<lambda>s.
       let d = u_data arg; n = unat (maxlun s)
       in do { s1 \<leftarrow> media_event (d_DevNo d) (d_IfNum d) n 0x00 0x01 s;
               m \<leftarrow> mass s1;
               q \<leftarrow> arr_get (Inquiry m) n;
               let q1 = (inquiry_of k q)[16 + digit k := 0x30 + NumLun s1];
                   (r, xs) = GetInstanceIndex (slots_of k s1);
                   s2 = set_slots k xs (s1\<lparr>mass := Some (m\<lparr>Inquiry := (Inquiry m)[n := q1]\<rparr>)\<rparr>) in
               do { lns \<leftarrow> arr_set (LunNumAssignment s2) n (word_of_int r);
                    let s3 = s2\<lparr>LunNumAssignment := lns\<rparr> in
                    if full_seen k \<and> lns ! n = 0xFF then Some ((- 1, None, None), s3)
                    else do { ins \<leftarrow> arr_set (InstAssignment s3) (unat (NumLun s3)) (lns ! n);
                              Some ((0, Some 0, None),
                                (UsbSetNumLUN (maxlun s3) s3)\<lparr>InstAssignment := ins, NumLun := NumLun s3 + 1,
                                  maxlun := maxlun s3 + 1\<rparr>) } } })"

definition ioctl_connect :: "mass_kind \<Rightarrow> ('a mass_sys_scheme \<Rightarrow> int \<times> 'a mass_sys_scheme) \<Rightarrow> ioctl_arg \<Rightarrow>
   'a mass_sys_scheme \<Rightarrow> (ioctl_result \<times> 'a mass_sys_scheme) option" where
  "ioctl_connect k f arg = for_device k arg (\<lambda>s. let (r, s1) = f s in Some ((0, Some r, None), s1))"

text \<open>The commands all three modules know, and the dispatch of each.\<close>

definition mass_ioctl ::
  "mass_kind \<Rightarrow> ('a mass_sys_scheme) mass_env \<Rightarrow> ioctl_cmd \<Rightarrow> ioctl_arg \<Rightarrow> 'a mass_sys_scheme \<Rightarrow>
   (ioctl_result \<times> 'a mass_sys_scheme) option" where
  "mass_ioctl k env cmd arg s =
     (case cmd of
        USB_REQ \<Rightarrow> ioctl_req k env arg s
      | USB_RES \<Rightarrow> ioctl_res k env arg s
      | USB_ACTIVATE \<Rightarrow> ioctl_activate k arg s
      | USB_EXIT \<Rightarrow> ioctl_exit k arg s
      | USB_DEVICE_DISCONNECT \<Rightarrow> ioctl_connect k (UsbDeviceDisconnect env) arg s
      | USB_DEVICE_RECONNECT \<Rightarrow> ioctl_connect k (UsbDeviceReconnect env) arg s
      | USB_RST_IF \<Rightarrow> ioctl_rst_if k arg s
      | USB_ADD \<Rightarrow> ioctl_add k arg s
      | _ \<Rightarrow> Some ((- 1, None, None), s))"

definition HdiskIoctl ::
  "('a mass_sys_scheme) mass_env \<Rightarrow> ioctl_cmd \<Rightarrow> ioctl_arg \<Rightarrow> 'a mass_sys_scheme \<Rightarrow> (ioctl_result \<times> 'a mass_sys_scheme) option" where
  "HdiskIoctl env cmd arg s =
     (case cmd of
        USB_SET_TYPE \<Rightarrow> ioctl_set_type hdisk_kind arg s
      | USB_GET_TYPE \<Rightarrow> ioctl_get_type hdisk_kind arg s
      | _ \<Rightarrow> mass_ioctl hdisk_kind env cmd arg s)"

definition CdromIoctl ::
  "('a mass_sys_scheme) mass_env \<Rightarrow> ioctl_cmd \<Rightarrow> ioctl_arg \<Rightarrow> 'a mass_sys_scheme \<Rightarrow> (ioctl_result \<times> 'a mass_sys_scheme) option" where
  "CdromIoctl env cmd arg s =
     (case cmd of
        USB_VENDOR_REQ \<Rightarrow> authenticated cdrom_kind arg True (\<lambda>s. let (r, p, s1) = VendorWaitRequest env s in Some ((0, Some r, p), s1)) s
      | USB_VENDOR_RES \<Rightarrow> ioctl_res cdrom_kind env arg s
      | USB_VENDOR_EXIT \<Rightarrow> authenticated cdrom_kind arg False (\<lambda>s. let (r, s1) = VendorExitWait s in Some ((0, Some r, None), s1)) s
      | _ \<Rightarrow> mass_ioctl cdrom_kind env cmd arg s)"

definition FloppyIoctl ::
  "('a mass_sys_scheme) mass_env \<Rightarrow> ioctl_cmd \<Rightarrow> ioctl_arg \<Rightarrow> 'a mass_sys_scheme \<Rightarrow> (ioctl_result \<times> 'a mass_sys_scheme) option" where
  "FloppyIoctl env cmd arg s = mass_ioctl floppy_kind env cmd arg s"

section \<open>The rest of a module\<close>

definition module_remote_call ::
  "('a mass_sys_scheme) bot_env \<Rightarrow> u8 \<Rightarrow> 'a mass_sys_scheme \<Rightarrow> (int \<times> 'a mass_sys_scheme) option" where
  "module_remote_call env lun s = do { n \<leftarrow> arr_get (LunNumAssignment s) (unat lun); RemoteScsiCall env (unat n) lun s }"

definition SetInterfaceAuthKey :: "u8 \<Rightarrow> u8 \<Rightarrow> u32 \<Rightarrow> 'a mass_sys_scheme \<Rightarrow> int \<times> 'a mass_sys_scheme" where
  "SetInterfaceAuthKey DevNo IfNum key s =
     (if DevNo \<noteq> devnum s then (- 1, s) else if IfNum \<noteq> 0 then (- 1, s) else (0, s\<lparr>iface_key := key\<rparr>))"

definition ClearInterfaceAuthKey :: "u8 \<Rightarrow> u8 \<Rightarrow> 'a mass_sys_scheme \<Rightarrow> int \<times> 'a mass_sys_scheme" where
  "ClearInterfaceAuthKey DevNo IfNum s =
     (if DevNo \<noteq> devnum s then (- 1, s) else if IfNum \<noteq> 0 then (- 1, s) else (0, s\<lparr>iface_key := 0\<rparr>))"

text \<open>What the allocations give, \<open>None\<close> or \<open>False\<close> when there is no memory; \<open>texts_ok\<close> is for the strings.\<close>

record create_mem =
  if_mem :: "bot_if option"
  inquiry_ok :: bool
  event_mem :: "u8 list list option"
  desc_mem :: "u8 list option"
  texts_ok :: "nat \<Rightarrow> bool"

definition interface_data :: "mass_kind \<Rightarrow> create_mem \<Rightarrow> bot_if option" where
  "interface_data k mem =
     do { m \<leftarrow> if_mem mem;
          _ \<leftarrow> (if inquiry_ok mem then Some () else None);
          ev \<leftarrow> event_mem mem;
          Some (m\<lparr>UnHalted := True, SenseKey := 0, SenseCode := 0, SenseCodeQ := 0, NoMediumRetries := MAX_NOMEDIUM_RETRIES,
                  ScsiDataOutLen := 0, LastSeqNo := 0,
                  EventStatus := ev[0 := (ev ! 0)[4 := 0, 5 := 1]],
                  Inquiry := (replicate (luns k + 1) (replicate sizeof_INQUIRY 0))
                    [0 := inquiry_of k (replicate sizeof_INQUIRY 0)]\<rparr>) }"

definition VENDOR_ID :: u16 where "VENDOR_ID = 1131"
definition DEVICE_REV :: u16 where "DEVICE_REV = 0x0100"

text \<open>A step of the construction that has to return 0.\<close>

definition step_ok ::
  "('s \<Rightarrow> (int \<times> 's) option) \<Rightarrow> ('s \<Rightarrow> (int \<times> 's) option) \<Rightarrow> 's \<Rightarrow> (int \<times> 's) option" where
  "step_ok f g s = do { (r, s1) \<leftarrow> f s; if r \<noteq> 0 then Some (- 1, s1) else g s1 }"

definition set_serial :: "bool \<Rightarrow> u8 list \<Rightarrow> ('h, 'e, 'd) usb_desc \<Rightarrow> (int \<times> ('h, 'e, 'd) usb_desc) option" where
  "set_serial ok txt s =
     do { d \<leftarrow> GetDeviceDesc (Table s);
          i \<leftarrow> d;
          (n, s1) \<leftarrow> AddStringDescriptor ok txt s;
          t \<leftarrow> put_byte (i + 16) n (Table s1);
          Some (0, s1\<lparr>Table := t\<rparr>) }"

definition add_descriptors ::
  "mass_kind \<Rightarrow> ('h, 'e, 'd) interface_info \<Rightarrow> (nat \<Rightarrow> bool) \<Rightarrow> u8 \<Rightarrow> usb_hw \<Rightarrow> ('h, 'e, 'd) usb_desc \<Rightarrow>
   (int \<times> ('h, 'e, 'd) usb_desc) option" where
  "add_descriptors k info ok interval hw =
     step_ok (AddDeviceDesc ok (EP0Size hw) VENDOR_ID (product_id k) DEVICE_REV (Some (map of_char ''American Megatrends Inc.''))
               (Some (map of_char (device_text k))) False)
    (step_ok (set_serial (ok 3) (map of_char (serial_number k)))
    (step_ok (AddCfgDesc 1 False)
    (step_ok (AddInterfaceDesc (ok 4) 2 0x08 0x06 0x50 (Some (map of_char (interface_text k))) info)
    (step_ok (AddEndPointDesc EP_ADDR_IN 0x02 0x40 0x200 interval DATA_EP)
    (step_ok (AddEndPointDesc 0x00 0x02 0x40 0x200 interval DATA_EP) (\<lambda>s. Some (0, s)))))))"

text \<open>The result is 0 or -1, the data of the interface when it is 0, and the descriptors.\<close>

definition CreateMassDescriptor ::
  "mass_kind \<Rightarrow> ('h, 'e, 'd) interface_info \<Rightarrow> create_mem \<Rightarrow> u8 \<Rightarrow> usb_hw \<Rightarrow> ('h, 'e, 'd) usb_desc \<Rightarrow>
   (int \<times> bot_if option \<times> ('h, 'e, 'd) usb_desc) option" where
  "CreateMassDescriptor k info mem interval hw s =
     (case interface_data k mem of
        None \<Rightarrow> Some (- 1, None, s)
      | Some m \<Rightarrow>
          let (ok, s1) = CreateDescriptor (desc_mem mem) 50 s
          in if \<not> ok then Some (- 1, None, s1)
             else do { (r, s2) \<leftarrow> add_descriptors k info (texts_ok mem) interval hw s1;
                       Some (r, if r = 0 then Some m else None, s2) })"

definition CreateHdiskDescriptor ::
  "('h, 'e, 'd) interface_info \<Rightarrow> create_mem \<Rightarrow> u8 \<Rightarrow> usb_hw \<Rightarrow> ('h, 'e, 'd) usb_desc \<Rightarrow>
   (int \<times> bot_if option \<times> ('h, 'e, 'd) usb_desc) option" where
  "CreateHdiskDescriptor = CreateMassDescriptor hdisk_kind"

definition CreateCdromDescriptor ::
  "('h, 'e, 'd) interface_info \<Rightarrow> create_mem \<Rightarrow> u8 \<Rightarrow> usb_hw \<Rightarrow> ('h, 'e, 'd) usb_desc \<Rightarrow>
   (int \<times> bot_if option \<times> ('h, 'e, 'd) usb_desc) option" where
  "CreateCdromDescriptor = CreateMassDescriptor cdrom_kind"

definition CreateFloppyDescriptor ::
  "('h, 'e, 'd) interface_info \<Rightarrow> create_mem \<Rightarrow> u8 \<Rightarrow> usb_hw \<Rightarrow> ('h, 'e, 'd) usb_desc \<Rightarrow>
   (int \<times> bot_if option \<times> ('h, 'e, 'd) usb_desc) option" where
  "CreateFloppyDescriptor = CreateMassDescriptor floppy_kind"

text \<open>
  Loading and unloading: \<open>dev\<close> is the device the core offers, \<open>type_ok\<close> whether the hardware accepts the
  type of the device (the floppy module does not ask), \<open>reg\<close> the result of the registration with the core,
  which takes over the number of units. Unloading gives back the slots with the numbers of the units that
  have one; what it takes back from the core is not part of the model.
\<close>

definition init_mass_module ::
  "mass_kind \<Rightarrow> int \<Rightarrow> bool \<Rightarrow> ('h, 'e, 'd) interface_info \<Rightarrow> create_mem \<Rightarrow> u8 \<Rightarrow> usb_hw \<Rightarrow> int \<Rightarrow>
   ('h, 'e, 'd) usb_desc \<times> 'a mass_sys_scheme \<Rightarrow> (int \<times> ('h, 'e, 'd) usb_desc \<times> 'a mass_sys_scheme) option" where
  "init_mass_module k dev type_ok info mem interval hw reg = (\<lambda>(ds, s).
     if dev = - 1 then Some (- 1, ds, s)
     else let (n, xs) = GetInstanceIndex (slots_of k s); s1 = set_slots k xs s
          in if n = - 1 then Some (- 1, ds, s1)
             else do { lns \<leftarrow> arr_set (LunNumAssignment s1) 0 (word_of_int n);
                       ins \<leftarrow> arr_set (InstAssignment s1) 0 (word_of_int n);
                       let s2 = s1\<lparr>LunNumAssignment := lns, InstAssignment := ins, devnum := word_of_int dev\<rparr> in
                       if \<not> type_ok then Some (- 1, ds, s2)
                       else do { (r, m, ds1) \<leftarrow> CreateMassDescriptor k info mem interval hw ds;
                                 Some (if r \<noteq> 0 then (- 1, DestroyDescriptor ds1, s2)
                                       else (reg, ds1, UsbSetNumLUN (maxlun s2) (s2\<lparr>mass := m\<rparr>))) } })"

definition exit_mass_module :: "mass_kind \<Rightarrow> 'a mass_sys_scheme \<Rightarrow> 'a mass_sys_scheme" where
  "exit_mass_module k s =
     set_slots k (fold (\<lambda>i xs. if LunNumAssignment s ! i = 0xFF then xs else snd (ReleaseInstanceIndex i xs)) [0..<luns k]
       (slots_of k s)) s"

end
