(* ===== verification/UsbDescProps.thy ===== *)
theory UsbDescProps imports UsbSetup begin

text \<open>
  The searches of the core in a table that holds a device descriptor and a tree of descriptors:
  configurations, their interfaces, and of each interface the class descriptors and the endpoints. The
  searches step through the bytes; they find what a search in the tree finds.
\<close>

unbundle bit_operations_syntax

section \<open>Lists of descriptors\<close>

text \<open>A descriptor begins with its length and its type and has the fields the searches read.\<close>

definition desc_ok :: "u8 list \<Rightarrow> bool" where
  "desc_ok d \<longleftrightarrow> 2 \<le> length d \<and> unat (d ! 0) = length d \<and> (d ! 1 = CONFIGURATION \<longrightarrow> 9 \<le> length d) \<and>
     (d ! 1 = INTERFACE \<longrightarrow> 9 \<le> length d) \<and> (d ! 1 = ENDPOINT \<longrightarrow> 7 \<le> length d)"

lemma desc_ok_length: "desc_ok d \<Longrightarrow> 1 < length d" "desc_ok d \<Longrightarrow> unat (d ! 0) = length d"
  by (simp_all add: desc_ok_def)

lemma desc_ok_fields:
  "desc_ok d \<Longrightarrow> d ! Suc 0 = CONFIGURATION \<Longrightarrow> 5 < length d"
  "desc_ok d \<Longrightarrow> d ! Suc 0 = INTERFACE \<Longrightarrow> 4 < length d"
  "desc_ok d \<Longrightarrow> d ! Suc 0 = ENDPOINT \<Longrightarrow> 2 < length d"
  by (simp_all add: desc_ok_def)

lemma desc_ok_nonempty: "desc_ok d \<Longrightarrow> d \<noteq> []"
  by (auto simp: desc_ok_def)

lemma arr_get_middle: "k < length d \<Longrightarrow> arr_get (p @ d @ q) (length p + k) = Some (d ! k)"
  by (simp add: arr_get_def nth_append)

lemma arr_get_len: "desc_ok d \<Longrightarrow> arr_get (p @ d @ q) (length p) = Some (d ! 0)"
  using arr_get_middle [of 0 d p q] desc_ok_nonempty [of d] by simp

lemma arr_get_type: "desc_ok d \<Longrightarrow> arr_get (p @ d @ q) (Suc (length p)) = Some (d ! Suc 0)"
  using arr_get_middle [of 1 d p q] desc_ok_length(1) [of d] by simp

lemma arr_get_byte2: "2 < length d \<Longrightarrow> arr_get (p @ d @ q) (Suc (Suc (length p))) = Some (d ! 2)"
  using arr_get_middle [of 2 d p q] by simp

lemmas look_fields = arr_get_type arr_get_byte2 arr_get_middle [of 5] desc_ok_fields

text \<open>What a search promises: it looks at a descriptor, not at what is around it.\<close>

locale descriptor_look =
  fixes look :: "u8 list \<Rightarrow> nat \<Rightarrow> verdict option" and lk :: "u8 list \<Rightarrow> verdict"
  assumes look_local: "desc_ok d \<Longrightarrow> look (p @ d @ q) (length p) = Some (lk d)"
begin

lemma scan_suffix:
  assumes "list_all desc_ok ds"
  shows "desc_scan look (p @ concat ds) (length (p @ concat ds)) (length p) =
    (let rest = dropWhile (\<lambda>d. lk d = Next) ds
     in Some (rest \<noteq> [] \<and> lk (hd rest) = Found, length (p @ concat ds) - length (concat rest)))"
  using assms
proof (induction ds arbitrary: p)
  case Nil
  show ?case by (simp add: desc_scan.simps Let_def)
next
  case (Cons d ds)
  have d: "desc_ok d" "list_all desc_ok ds" using Cons.prems by simp_all
  then have pos: "d \<noteq> []" by (simp add: desc_ok_nonempty)
  have l: "look (p @ concat (d # ds)) (length p) = Some (lk d)" using look_local [OF d(1), of p "concat ds"] by simp
  have g: "arr_get (p @ concat (d # ds)) (length p) = Some (d ! 0)" using arr_get_len [OF d(1), of p "concat ds"] by simp
  have n: "unat (d ! 0) = length d" using d(1) by (rule desc_ok_length(2))
  show ?case
  proof (cases "lk d")
    case Next
    then show ?thesis
      using Cons.IH [OF d(2), of "p @ d"] l g n pos
      by (subst desc_scan.simps) (simp add: Let_def add.assoc)
  qed (use l pos in \<open>subst desc_scan.simps, simp add: Let_def\<close>)+
qed

end

definition lk_config :: "u8 \<Rightarrow> u8 list \<Rightarrow> verdict" where
  "lk_config cfg d = (if d ! 1 = CONFIGURATION \<and> d ! 5 = cfg then Found else Next)"

definition lk_interface :: "u8 \<Rightarrow> u8 list \<Rightarrow> verdict" where
  "lk_interface ifn d =
     (if d ! 1 = INTERFACE then if d ! 2 = ifn then Found else Next
      else if d ! 1 = CONFIGURATION then Stop else Next)"

definition lk_endpoint :: "u8 \<Rightarrow> u8 \<Rightarrow> u8 list \<Rightarrow> verdict" where
  "lk_endpoint num dir d = (if d ! 1 = ENDPOINT then if ep_matches num dir (d ! 2) then Found else Next else Stop)"

definition lk_next_config :: "u8 list \<Rightarrow> verdict" where
  "lk_next_config d = (if d ! 1 = CONFIGURATION then Stop else Next)"

definition lk_first_endpoint :: "u8 list \<Rightarrow> verdict" where
  "lk_first_endpoint d = (if d ! 1 = ENDPOINT then Found else Next)"

interpretation config_look: descriptor_look "look_config cfg" "lk_config cfg" for cfg
  by unfold_locales
    (auto simp: look_config_def lk_config_def look_fields dest: desc_ok_fields)

interpretation interface_look: descriptor_look "look_interface ifn" "lk_interface ifn" for ifn
  by unfold_locales
    (auto simp: look_interface_def lk_interface_def look_fields dest: desc_ok_fields)

interpretation endpoint_look: descriptor_look "look_endpoint num dir" "lk_endpoint num dir" for num dir
  by unfold_locales
    (auto simp: look_endpoint_def lk_endpoint_def look_fields dest: desc_ok_fields)

interpretation next_config_look: descriptor_look look_next_config lk_next_config
  by unfold_locales (simp add: look_next_config_def lk_next_config_def arr_get_type)

interpretation first_endpoint_look: descriptor_look look_first_endpoint lk_first_endpoint
  by unfold_locales (simp add: look_first_endpoint_def lk_first_endpoint_def arr_get_type)

section \<open>The rest of a table\<close>

text \<open>The descriptors \<open>ds\<close> end the table, which has something before them; \<open>desc_pos\<close> is where they begin.\<close>

definition table_ends :: "desc_table \<Rightarrow> u8 list list \<Rightarrow> bool" where
  "table_ends t ds \<longleftrightarrow>
     (\<exists>p. p \<noteq> [] \<and> DescBuff t = Some (p @ concat ds) \<and> unat (DescSize t) = length (p @ concat ds)) \<and> list_all desc_ok ds"

definition desc_pos :: "desc_table \<Rightarrow> u8 list list \<Rightarrow> nat" where
  "desc_pos t ds = unat (DescSize t) - length (concat ds)"

lemma table_endsE:
  assumes "table_ends t ds"
  obtains p where "p \<noteq> []" "DescBuff t = Some (p @ concat ds)" "unat (DescSize t) = length (p @ concat ds)"
    "list_all desc_ok ds" "desc_pos t ds = length p"
  using assms by (auto simp: table_ends_def desc_pos_def)

lemma table_ends_append:
  assumes "table_ends t (ds @ es)"
  shows "table_ends t es"
proof -
  obtain p where "p \<noteq> []" "DescBuff t = Some (p @ concat (ds @ es))" "unat (DescSize t) = length (p @ concat (ds @ es))"
    "list_all desc_ok (ds @ es)" by (rule table_endsE [OF assms])
  then show ?thesis unfolding table_ends_def by (intro conjI exI [of _ "p @ concat ds"]) simp_all
qed

lemma table_ends_Cons: "table_ends t (d # es) \<Longrightarrow> table_ends t es"
  using table_ends_append [of t "[d]" es] by simp

lemma table_ends_dropWhile: "table_ends t ds \<Longrightarrow> table_ends t (dropWhile P ds)"
  using table_ends_append [of t "takeWhile P ds" "dropWhile P ds"] by simp

lemma table_ends_ok: "table_ends t ds \<Longrightarrow> list_all desc_ok ds"
  by (simp add: table_ends_def)

lemma table_ends_pos: "table_ends t ds \<Longrightarrow> desc_pos t ds \<noteq> 0"
  by (erule table_endsE) simp

lemma desc_field_at:
  assumes "table_ends t (d # ds)" "k < length d"
  shows "desc_field t (Some (desc_pos t (d # ds))) k = Some (d ! k)"
proof -
  obtain p where p: "DescBuff t = Some (p @ concat (d # ds))" "desc_pos t (d # ds) = length p"
    by (rule table_endsE [OF assms(1)])
  then show ?thesis using arr_get_middle [OF assms(2), of p "concat ds"] by (simp add: desc_field_def)
qed

lemma desc_at:
  assumes "table_ends t (ds @ es)"
  shows "at_index t (Some (desc_pos t (ds @ es))) = Some (concat ds @ concat es)"
proof -
  obtain p where "DescBuff t = Some (p @ concat (ds @ es))" "desc_pos t (ds @ es) = length p"
    by (rule table_endsE [OF assms])
  then show ?thesis by (simp add: at_index_def)
qed

text \<open>Stepping over a descriptor, and a search from there.\<close>

lemma desc_step:
  assumes "table_ends t (d # ds)" "DescBuff t = Some b"
  shows "arr_get b (desc_pos t (d # ds)) = Some (d ! 0)" "desc_pos t (d # ds) + unat (d ! 0) = desc_pos t ds"
proof -
  have "desc_ok d" using assms(1) by (simp add: table_ends_def)
  moreover from this have "0 < length d" "unat (d ! 0) = length d"
    using desc_ok_nonempty [of d] by (simp_all add: desc_ok_length)
  moreover obtain p where "DescBuff t = Some (p @ concat (d # ds))" "unat (DescSize t) = length (p @ concat (d # ds))"
    "desc_pos t (d # ds) = length p" by (rule table_endsE [OF assms(1)])
  ultimately show "arr_get b (desc_pos t (d # ds)) = Some (d ! 0)" "desc_pos t (d # ds) + unat (d ! 0) = desc_pos t ds"
    using assms(2) arr_get_len [of d p "concat ds"] by (auto simp: desc_pos_def)
qed

context descriptor_look begin

lemma scan_table:
  assumes "table_ends t ds" "DescBuff t = Some b"
  shows "desc_scan look b (unat (DescSize t)) (desc_pos t ds) =
    (let rest = dropWhile (\<lambda>d. lk d = Next) ds in Some (rest \<noteq> [] \<and> lk (hd rest) = Found, desc_pos t rest))"
proof -
  obtain p where "DescBuff t = Some (p @ concat ds)" "unat (DescSize t) = length (p @ concat ds)"
    "list_all desc_ok ds" "desc_pos t ds = length p" by (rule table_endsE [OF assms(1)])
  then show ?thesis using scan_suffix [of ds p] assms(2) by (simp add: Let_def desc_pos_def)
qed

end

section \<open>Trees of descriptors\<close>

text \<open>An interface with its class descriptors and endpoints, and a configuration with its interfaces.\<close>

type_synonym if_tree = "u8 list \<times> u8 list list \<times> u8 list list"
type_synonym cfg_tree = "u8 list \<times> if_tree list"

definition if_descs :: "if_tree \<Rightarrow> u8 list list" where
  "if_descs i = fst i # fst (snd i) @ snd (snd i)"

definition cfg_descs :: "cfg_tree \<Rightarrow> u8 list list" where
  "cfg_descs c = fst c # concat (map if_descs (snd c))"

definition tree_descs :: "cfg_tree list \<Rightarrow> u8 list list" where
  "tree_descs cs = concat (map cfg_descs cs)"

definition if_ok :: "if_tree \<Rightarrow> bool" where
  "if_ok i \<longleftrightarrow> list_all desc_ok (if_descs i) \<and> fst i ! 1 = INTERFACE \<and>
     list_all (\<lambda>d. d ! 1 \<noteq> CONFIGURATION \<and> d ! 1 \<noteq> INTERFACE \<and> d ! 1 \<noteq> ENDPOINT) (fst (snd i)) \<and>
     list_all (\<lambda>d. d ! 1 = ENDPOINT) (snd (snd i)) \<and> (fst i ! 4 = 0 \<longleftrightarrow> snd (snd i) = [])"

definition cfg_ok :: "cfg_tree \<Rightarrow> bool" where
  "cfg_ok c \<longleftrightarrow> desc_ok (fst c) \<and> fst c ! 1 = CONFIGURATION \<and> list_all if_ok (snd c)"

text \<open>A table of a device descriptor and a tree.\<close>

definition table_holds :: "desc_table \<Rightarrow> u8 list \<Rightarrow> cfg_tree list \<Rightarrow> bool" where
  "table_holds t dev cs \<longleftrightarrow>
     desc_ok dev \<and> list_all cfg_ok cs \<and> DescBuff t = Some (dev @ concat (tree_descs cs)) \<and>
     unat (DescSize t) = length (dev @ concat (tree_descs cs))"

text \<open>The searches in the tree.\<close>

definition find_config :: "u8 \<Rightarrow> cfg_tree list \<Rightarrow> cfg_tree option" where
  "find_config cfg cs = find (\<lambda>c. fst c ! 5 = cfg) cs"

definition find_if :: "u8 \<Rightarrow> cfg_tree \<Rightarrow> if_tree option" where
  "find_if ifn c = find (\<lambda>i. fst i ! 2 = ifn) (snd c)"

definition find_ep :: "u8 \<Rightarrow> u8 \<Rightarrow> if_tree \<Rightarrow> u8 list option" where
  "find_ep num dir i = find (\<lambda>e. ep_matches num dir (e ! 2)) (snd (snd i))"

definition lookup_ep :: "cfg_tree list \<Rightarrow> u8 \<Rightarrow> u8 \<Rightarrow> u8 \<Rightarrow> u8 \<Rightarrow> u8 list option" where
  "lookup_ep cs cfg ifn num dir = do { c \<leftarrow> find_config cfg cs; i \<leftarrow> find_if ifn c; find_ep num dir i }"

lemma if_ok_descs:
  "if_ok i \<Longrightarrow> list_all desc_ok (if_descs i)"
  "if_ok i \<Longrightarrow> list_all (\<lambda>d. d ! 1 \<noteq> CONFIGURATION) (if_descs i)"
  "if_ok i \<Longrightarrow> list_all (\<lambda>d. d ! 1 \<noteq> INTERFACE) (fst (snd i) @ snd (snd i))"
  by (auto simp: if_ok_def if_descs_def list_all_iff CONFIGURATION_def INTERFACE_def ENDPOINT_def)

lemma cfg_ok_descs:
  assumes "cfg_ok c"
  shows "list_all desc_ok (cfg_descs c)" "list_all (\<lambda>d. d ! 1 \<noteq> CONFIGURATION) (concat (map if_descs (snd c)))"
  using assms if_ok_descs by (auto simp: cfg_ok_def cfg_descs_def list_all_iff; blast)+

lemma tree_descs_simps [simp]: "tree_descs [] = []" "tree_descs (c # cs) = cfg_descs c @ tree_descs cs"
  by (simp_all add: tree_descs_def)

lemma tree_ok_descs: "list_all cfg_ok cs \<Longrightarrow> list_all desc_ok (tree_descs cs)"
  by (induction cs) (simp_all add: cfg_ok_descs)

lemma table_holds_ends:
  assumes "table_holds t dev cs"
  shows "table_ends t (tree_descs cs)" "desc_pos t (tree_descs cs) = unat (dev ! 0)"
    "DescBuff t = Some (dev @ concat (tree_descs cs))" "arr_get (dev @ concat (tree_descs cs)) 0 = Some (dev ! 0)"
proof -
  have d: "desc_ok dev" "list_all desc_ok (tree_descs cs)" "DescBuff t = Some (dev @ concat (tree_descs cs))"
    "unat (DescSize t) = length (dev @ concat (tree_descs cs))"
    using assms tree_ok_descs by (auto simp: table_holds_def)
  show "table_ends t (tree_descs cs)"
    unfolding table_ends_def by (intro conjI exI [of _ dev] d desc_ok_nonempty)
  show "desc_pos t (tree_descs cs) = unat (dev ! 0)"
    using d(4) desc_ok_length(2) [OF d(1)] by (simp add: desc_pos_def)
  show "DescBuff t = Some (dev @ concat (tree_descs cs))" by (rule d(3))
  show "arr_get (dev @ concat (tree_descs cs)) 0 = Some (dev ! 0)"
    using arr_get_len [OF d(1), of "[]"] by simp
qed

text \<open>A search for the first descriptor passes over whole subtrees.\<close>

lemma dropWhile_flat:
  assumes "\<And>x. x \<in> set xs \<Longrightarrow> f x \<noteq> [] \<and> (P (hd (f x)) \<longleftrightarrow> Q x) \<and> list_all P (tl (f x))"
  shows "dropWhile P (concat (map f xs) @ ys) =
    (let zs = dropWhile Q xs in if zs = [] then dropWhile P ys else concat (map f zs) @ ys)"
  using assms
proof (induction xs)
  case Nil
  show ?case by simp
next
  case (Cons x xs)
  from Cons.prems [of x] obtain h q where f: "f x = h # q" "P h \<longleftrightarrow> Q x" "list_all P q"
    by (cases "f x") auto
  have *: "dropWhile P (q @ zs) = dropWhile P zs" for zs
    using f(3) by (subst dropWhile_append2) (auto simp: list_all_iff)
  show ?case
  proof (cases "Q x")
    case True
    have "dropWhile P (concat (map f (x # xs)) @ ys) = dropWhile P (concat (map f xs) @ ys)"
      using True f * by simp
    then show ?thesis using True Cons by simp
  qed (use f in simp)
qed

lemma find_dropWhile: "find P xs = (case dropWhile (\<lambda>x. \<not> P x) xs of [] \<Rightarrow> None | y # ys \<Rightarrow> Some y)"
  by (induction xs) auto

definition configs_from :: "u8 \<Rightarrow> cfg_tree list \<Rightarrow> cfg_tree list" where
  "configs_from cfg cs = dropWhile (\<lambda>c. fst c ! 5 \<noteq> cfg) cs"

lemma configs_from_ok: "list_all cfg_ok cs \<Longrightarrow> list_all cfg_ok (configs_from cfg cs)"
  unfolding configs_from_def by (auto simp: list_all_iff dest: set_dropWhileD)

lemma find_config_from:
  "find_config cfg cs = (case configs_from cfg cs of [] \<Rightarrow> None | c # cs' \<Rightarrow> Some c)"
  by (simp add: find_config_def configs_from_def find_dropWhile)

lemma config_search_list:
  assumes "list_all cfg_ok cs"
  shows "dropWhile (\<lambda>d. lk_config cfg d = Next) (tree_descs cs) = tree_descs (configs_from cfg cs)"
proof -
  have "dropWhile (\<lambda>d. lk_config cfg d = Next) (concat (map cfg_descs cs) @ []) =
    (let zs = configs_from cfg cs in if zs = [] then dropWhile (\<lambda>d. lk_config cfg d = Next) [] else concat (map cfg_descs zs) @ [])"
    unfolding configs_from_def
  proof (rule dropWhile_flat)
    fix c assume "c \<in> set cs"
    then have c: "cfg_ok c" using assms by (simp add: list_all_iff)
    show "cfg_descs c \<noteq> [] \<and> (lk_config cfg (hd (cfg_descs c)) = Next \<longleftrightarrow> fst c ! 5 \<noteq> cfg) \<and>
        list_all (\<lambda>d. lk_config cfg d = Next) (tl (cfg_descs c))"
      using c cfg_ok_descs(2) [OF c] by (auto simp: cfg_descs_def lk_config_def cfg_ok_def list_all_iff)
  qed
  then show ?thesis by (cases "configs_from cfg cs") (simp_all add: tree_descs_def)
qed

lemma tree_hd:
  assumes "list_all cfg_ok (c # cs)"
  shows "tree_descs (c # cs) = fst c # concat (map if_descs (snd c)) @ tree_descs cs" "fst c ! 1 = CONFIGURATION"
  using assms by (simp_all add: cfg_descs_def cfg_ok_def)

lemma GetConfigDesc_tree:
  assumes "table_holds t dev cs"
  shows "GetConfigDesc t cfg =
      Some (if configs_from cfg cs = [] then None else Some (desc_pos t (tree_descs (configs_from cfg cs))))"
    "table_ends t (tree_descs (configs_from cfg cs))"
proof -
  have ok: "list_all cfg_ok cs" using assms by (simp add: table_holds_def)
  note e = table_holds_ends [OF assms]
  show "table_ends t (tree_descs (configs_from cfg cs))"
    using table_ends_dropWhile [OF e(1)] config_search_list [OF ok, of cfg] by metis
  have "configs_from cfg cs \<noteq> [] \<Longrightarrow> lk_config cfg (hd (tree_descs (configs_from cfg cs))) = Found"
    using hd_dropWhile [of "\<lambda>c. fst c ! 5 \<noteq> cfg" cs] configs_from_ok [OF ok, of cfg]
    by (cases "configs_from cfg cs") (auto simp: configs_from_def lk_config_def cfg_descs_def cfg_ok_def)
  then show "GetConfigDesc t cfg =
      Some (if configs_from cfg cs = [] then None else Some (desc_pos t (tree_descs (configs_from cfg cs))))"
    using config_look.scan_table [OF e(1,3), of cfg] config_search_list [OF ok, of cfg] e
    by (cases "configs_from cfg cs") (auto simp: GetConfigDesc_def found_at_def Let_def cfg_descs_def)
qed

lemma dropWhile_tree: "list_all cfg_ok cs \<Longrightarrow> (\<And>d. d ! 1 = CONFIGURATION \<Longrightarrow> \<not> P d) \<Longrightarrow> dropWhile P (tree_descs cs) = tree_descs cs"
  by (cases cs) (simp_all add: tree_hd cfg_descs_def cfg_ok_def)

lemma tree_hd_config: "list_all cfg_ok cs \<Longrightarrow> tree_descs cs \<noteq> [] \<Longrightarrow> hd (tree_descs cs) ! 1 = CONFIGURATION"
  by (cases cs) (simp_all add: cfg_descs_def cfg_ok_def)

lemma GetConfigDescSize_tree:
  assumes "table_holds t dev cs"
  shows "GetConfigDescSize t cfg =
    Some (case find_config cfg cs of None \<Rightarrow> 0 | Some c \<Rightarrow> of_nat (length (concat (cfg_descs c))))"
proof (cases "configs_from cfg cs")
  case Nil
  then show ?thesis
    using GetConfigDesc_tree [OF assms, of cfg] by (simp add: GetConfigDescSize_def find_config_from)
next
  case (Cons c cs2)
  have ok: "list_all cfg_ok (c # cs2)"
    using configs_from_ok [of cs cfg] assms Cons by (simp add: table_holds_def)
  note g = GetConfigDesc_tree [OF assms, of cfg, unfolded Cons tree_hd(1) [OF ok]]
  note b = table_holds_ends(3) [OF assms]
  let ?rest = "concat (map if_descs (snd c)) @ tree_descs cs2"
  have d: "dropWhile (\<lambda>d. lk_next_config d = Next) ?rest = tree_descs cs2"
    using cfg_ok_descs(2) [of c] ok dropWhile_tree [of cs2 "\<lambda>d. lk_next_config d = Next"]
    by (subst dropWhile_append2) (auto simp: list_all_iff lk_next_config_def)
  obtain p where "unat (DescSize t) = length (p @ concat (fst c # ?rest))" by (rule table_endsE [OF g(2)])
  then have "desc_pos t (tree_descs cs2) - desc_pos t (fst c # ?rest) = length (concat (cfg_descs c))"
    by (simp add: desc_pos_def cfg_descs_def)
  then show ?thesis
    using g(1) next_config_look.scan_table [OF table_ends_Cons [OF g(2)] b] desc_step [OF g(2) b] d b
    by (simp add: GetConfigDescSize_def find_config_from Cons Let_def del: concat.simps length_concat)
qed

definition ifs_from :: "u8 \<Rightarrow> cfg_tree \<Rightarrow> if_tree list" where
  "ifs_from ifn c = dropWhile (\<lambda>i. fst i ! 2 \<noteq> ifn) (snd c)"

lemma find_if_from: "find_if ifn c = (case ifs_from ifn c of [] \<Rightarrow> None | i # js \<Rightarrow> Some i)"
  by (simp add: find_if_def ifs_from_def find_dropWhile)

lemma ifs_from_ok: "cfg_ok c \<Longrightarrow> list_all if_ok (ifs_from ifn c)"
  unfolding ifs_from_def cfg_ok_def by (auto simp: list_all_iff dest: set_dropWhileD)

lemma interface_search_list:
  assumes "list_all cfg_ok (c # cs2)"
  shows "dropWhile (\<lambda>d. lk_interface ifn d = Next) (concat (map if_descs (snd c)) @ tree_descs cs2)
    = concat (map if_descs (ifs_from ifn c)) @ tree_descs cs2"
proof -
  have "dropWhile (\<lambda>d. lk_interface ifn d = Next) (concat (map if_descs (snd c)) @ tree_descs cs2) =
    (let zs = ifs_from ifn c
     in if zs = [] then dropWhile (\<lambda>d. lk_interface ifn d = Next) (tree_descs cs2) else concat (map if_descs zs) @ tree_descs cs2)"
    unfolding ifs_from_def
  proof (rule dropWhile_flat)
    fix i assume "i \<in> set (snd c)"
    then have i: "if_ok i" using assms by (simp add: list_all_iff cfg_ok_def)
    show "if_descs i \<noteq> [] \<and> (lk_interface ifn (hd (if_descs i)) = Next \<longleftrightarrow> fst i ! 2 \<noteq> ifn) \<and>
        list_all (\<lambda>d. lk_interface ifn d = Next) (tl (if_descs i))"
      using i if_ok_descs(2,3) [OF i] by (auto simp: if_descs_def lk_interface_def if_ok_def list_all_iff)
  qed
  then show ?thesis
    using dropWhile_tree [of cs2 "\<lambda>d. lk_interface ifn d = Next"] assms
    by (auto simp: Let_def lk_interface_def CONFIGURATION_def INTERFACE_def)
qed

lemma GetInterfaceDesc_tree:
  assumes "table_holds t dev cs"
  shows "GetInterfaceDesc t cfg ifn =
    Some (case configs_from cfg cs of
        [] \<Rightarrow> None
      | c # cs2 \<Rightarrow>
          (case ifs_from ifn c of
             [] \<Rightarrow> None
           | i # js \<Rightarrow> Some (desc_pos t (if_descs i @ concat (map if_descs js) @ tree_descs cs2))))"
    "configs_from cfg cs = c # cs2 \<Longrightarrow> ifs_from ifn c = i # js \<Longrightarrow>
      table_ends t (if_descs i @ concat (map if_descs js) @ tree_descs cs2)"
proof -
  have *: "GetInterfaceDesc t cfg ifn =
      Some (if ifs_from ifn c = [] then None
            else Some (desc_pos t (concat (map if_descs (ifs_from ifn c)) @ tree_descs cs2)))
    \<and> table_ends t (concat (map if_descs (ifs_from ifn c)) @ tree_descs cs2)"
    if c: "configs_from cfg cs = c # cs2" for c cs2
  proof -
    have ok: "list_all cfg_ok (c # cs2)" using configs_from_ok [of cs cfg] assms c by (simp add: table_holds_def)
    note g = GetConfigDesc_tree [OF assms, of cfg, unfolded c tree_hd(1) [OF ok]]
    note b = table_holds_ends(3) [OF assms]
    note l = interface_search_list [OF ok, of ifn]
    have te: "table_ends t (concat (map if_descs (ifs_from ifn c)) @ tree_descs cs2)"
      using table_ends_dropWhile [OF table_ends_Cons [OF g(2)], of "\<lambda>d. lk_interface ifn d = Next"] l by simp
    have f: "concat (map if_descs (ifs_from ifn c)) @ tree_descs cs2 \<noteq> [] \<and>
        lk_interface ifn (hd (concat (map if_descs (ifs_from ifn c)) @ tree_descs cs2)) = Found \<longleftrightarrow> ifs_from ifn c \<noteq> []"
    proof (cases "ifs_from ifn c")
      case Nil
      then show ?thesis using tree_hd_config [of cs2] ok
        by (auto simp: lk_interface_def CONFIGURATION_def INTERFACE_def)
    next
      case (Cons i js)
      then have "if_ok i" "fst i ! 2 = ifn"
        using ifs_from_ok [of c ifn] ok hd_dropWhile [of "\<lambda>i. fst i ! 2 \<noteq> ifn" "snd c"] by (auto simp: ifs_from_def)
      then show ?thesis using Cons by (simp add: if_descs_def lk_interface_def if_ok_def)
    qed
    define rest where "rest = concat (map if_descs (ifs_from ifn c)) @ tree_descs cs2"
    show ?thesis
      using g(1) interface_look.scan_table [OF table_ends_Cons [OF g(2)] b, of ifn] desc_step [OF g(2) b] te b f
      unfolding l rest_def [symmetric]
      by (simp add: GetInterfaceDesc_def Let_def found_at_def)
  qed
  show "GetInterfaceDesc t cfg ifn =
    Some (case configs_from cfg cs of
        [] \<Rightarrow> None
      | c # cs2 \<Rightarrow>
          (case ifs_from ifn c of
             [] \<Rightarrow> None
           | i # js \<Rightarrow> Some (desc_pos t (if_descs i @ concat (map if_descs js) @ tree_descs cs2))))"
  proof (cases "configs_from cfg cs")
    case Nil
    then show ?thesis using GetConfigDesc_tree [OF assms, of cfg] by (simp add: GetInterfaceDesc_def)
  next
    case (Cons c cs2)
    then show ?thesis using * [OF Cons] by (auto split: list.splits)
  qed
  show "configs_from cfg cs = c # cs2 \<Longrightarrow> ifs_from ifn c = i # js \<Longrightarrow>
      table_ends t (if_descs i @ concat (map if_descs js) @ tree_descs cs2)"
    using * by fastforce
qed

lemma GetFirstEndpointDescIndex_tree:
  assumes "table_holds t dev cs" "configs_from cfg cs = c # cs2" "ifs_from ifn c = i # js"
  shows "GetFirstEndpointDescIndex t cfg ifn =
      Some (if snd (snd i) = [] then 0 else desc_pos t (snd (snd i) @ concat (map if_descs js) @ tree_descs cs2))"
    "snd (snd i) \<noteq> [] \<Longrightarrow> table_ends t (snd (snd i) @ concat (map if_descs js) @ tree_descs cs2)"
proof -
  let ?later = "concat (map if_descs js) @ tree_descs cs2"
  have "cfg_ok c" using configs_from_ok [of cs cfg] assms by (simp add: table_holds_def)
  then have i: "if_ok i" using ifs_from_ok [of c ifn] assms(3) by simp
  have te: "table_ends t (fst i # (fst (snd i) @ snd (snd i) @ ?later))"
    using GetInterfaceDesc_tree(2) [OF assms] by (simp add: if_descs_def)
  have ep: "d ! 1 = ENDPOINT" if "d \<in> set (snd (snd i))" for d
    using i that by (simp add: if_ok_def list_all_iff)
  have g: "GetInterfaceDesc t cfg ifn = Some (Some (desc_pos t (fst i # (fst (snd i) @ snd (snd i) @ ?later))))"
    using GetInterfaceDesc_tree(1) [OF assms(1), of cfg ifn] assms by (simp add: if_descs_def)
  note b = table_holds_ends(3) [OF assms(1)]
  have "4 < length (fst i)" using i by (auto simp: if_ok_def if_descs_def intro: desc_ok_fields)
  then have n: "arr_get (dev @ concat (tree_descs cs)) (desc_pos t (fst i # (fst (snd i) @ snd (snd i) @ ?later)) + 4) = Some (fst i ! 4)"
    using desc_field_at [OF te, of 4] b by (simp add: desc_field_def)
  have z: "fst i ! 4 = 0 \<longleftrightarrow> snd (snd i) = []" using i by (simp add: if_ok_def)
  have d: "dropWhile (\<lambda>d. lk_first_endpoint d = Next) (fst (snd i) @ snd (snd i) @ ?later) = snd (snd i) @ ?later"
    if ne: "snd (snd i) \<noteq> []"
    using i ne ep by (cases "snd (snd i)") (auto simp: if_ok_def list_all_iff lk_first_endpoint_def dropWhile_append2)
  show "table_ends t (snd (snd i) @ ?later)"
    using te table_ends_append [of t "fst i # fst (snd i)" "snd (snd i) @ ?later"] by simp
  define mid where "mid = fst (snd i) @ snd (snd i) @ ?later"
  define rest where "rest = snd (snd i) @ ?later"
  have f: "snd (snd i) \<noteq> [] \<Longrightarrow> rest \<noteq> [] \<and> lk_first_endpoint (hd rest) = Found"
    using ep by (cases "snd (snd i)") (simp_all add: rest_def lk_first_endpoint_def)
  show "GetFirstEndpointDescIndex t cfg ifn = Some (if snd (snd i) = [] then 0 else desc_pos t (snd (snd i) @ ?later))"
    using g n z d f first_endpoint_look.scan_table [OF table_ends_Cons [OF te] b] desc_step [OF te b] b
    unfolding mid_def [symmetric] rest_def [symmetric]
    by (simp add: GetFirstEndpointDescIndex_def Let_def del: dropWhile_eq_Nil_conv)
qed

lemma dropWhile_stays: "(ys \<noteq> [] \<Longrightarrow> \<not> P (hd ys)) \<Longrightarrow> dropWhile P ys = ys"
  by (cases ys) simp_all

lemma GetEndpointDesc_exact:
  assumes "table_holds t dev cs" "configs_from cfg cs = c # cs2" "ifs_from ifn c = i # js"
  shows "GetEndpointDesc t cfg ifn num dir =
      Some (case dropWhile (\<lambda>e. \<not> ep_matches num dir (e ! 2)) (snd (snd i)) of
              [] \<Rightarrow> None
            | e # es \<Rightarrow> Some (desc_pos t ((e # es) @ concat (map if_descs js) @ tree_descs cs2)))"
    "dropWhile (\<lambda>e. \<not> ep_matches num dir (e ! 2)) (snd (snd i)) = e # es \<Longrightarrow>
      table_ends t ((e # es) @ concat (map if_descs js) @ tree_descs cs2)"
proof -
  let ?later = "concat (map if_descs js) @ tree_descs cs2"
  let ?P = "\<lambda>e. ep_matches num dir (e ! 2)"
  have ok: "cfg_ok c" "list_all cfg_ok cs2" using configs_from_ok [of cs cfg] assms by (simp_all add: table_holds_def)
  have iok: "if_ok i" "list_all if_ok js" using ifs_from_ok [OF ok(1), of ifn] assms(3) by simp_all
  note fst_ep = GetFirstEndpointDescIndex_tree [OF assms]
  note b = table_holds_ends(3) [OF assms(1)]
  have lke: "lk_endpoint num dir d = (if ?P d then Found else Next)" if "d \<in> set (snd (snd i))" for d
    using iok that by (simp add: lk_endpoint_def if_ok_def list_all_iff)
  have stop: "?later \<noteq> [] \<Longrightarrow> lk_endpoint num dir (hd ?later) = Stop"
    using iok ok tree_hd_config [of cs2]
    by (cases js) (auto simp: lk_endpoint_def if_descs_def if_ok_def CONFIGURATION_def INTERFACE_def ENDPOINT_def)
  have dw: "dropWhile (\<lambda>d. lk_endpoint num dir d = Next) ?later = ?later"
    by (rule dropWhile_stays) (use stop in simp)
  have d: "dropWhile (\<lambda>d. lk_endpoint num dir d = Next) (xs @ ?later) = dropWhile (\<lambda>e. \<not> ?P e) xs @ ?later"
    if "set xs \<subseteq> set (snd (snd i))" for xs
    using that by (induction xs) (simp_all add: lke dw)
  define rest where "rest = dropWhile (\<lambda>e. \<not> ?P e) (snd (snd i)) @ ?later"
  have te: "table_ends t rest" if "snd (snd i) \<noteq> []"
    using table_ends_dropWhile [OF fst_ep(2) [OF that], of "\<lambda>d. lk_endpoint num dir d = Next"] d [of "snd (snd i)"]
    by (simp add: rest_def)
  have s: "GetEndpointDesc t cfg ifn num dir =
      Some (if snd (snd i) \<noteq> [] \<and> rest \<noteq> [] \<and> lk_endpoint num dir (hd rest) = Found then Some (desc_pos t rest) else None)"
    using fst_ep(1) endpoint_look.scan_table [OF fst_ep(2) b, of num dir] d [of "snd (snd i)"] table_ends_pos [OF fst_ep(2)] b
    by (cases "snd (snd i) = []") (simp_all add: GetEndpointDesc_def Let_def rest_def [symmetric] found_at_def)
  show "GetEndpointDesc t cfg ifn num dir =
      Some (case dropWhile (\<lambda>e. \<not> ?P e) (snd (snd i)) of
              [] \<Rightarrow> None | e # es \<Rightarrow> Some (desc_pos t ((e # es) @ ?later)))"
  proof (cases "dropWhile (\<lambda>e. \<not> ?P e) (snd (snd i))")
    case Nil
    then have r: "?later = rest" unfolding rest_def by (simp only: append_Nil)
    then show ?thesis using s stop unfolding r Nil by (cases "rest = []") simp_all
  next
    case (Cons e es)
    then have "?P e" "e \<in> set (snd (snd i))"
      using hd_dropWhile [of "\<lambda>e. \<not> ?P e" "snd (snd i)"] set_dropWhileD [of e "\<lambda>e. \<not> ?P e" "snd (snd i)"] by auto
    moreover from this have "lk_endpoint num dir e = Found" "snd (snd i) \<noteq> []" by (auto simp: lke)
    ultimately show ?thesis using s Cons unfolding rest_def by simp
  qed
  show "dropWhile (\<lambda>e. \<not> ?P e) (snd (snd i)) = e # es \<Longrightarrow> table_ends t ((e # es) @ ?later)"
    using te by (cases "snd (snd i) = []") (simp_all add: rest_def)
qed

lemma GetEndpointDesc_tree:
  assumes "table_holds t dev cs"
  shows "\<exists>r. GetEndpointDesc t cfg ifn num dir = Some r \<and>
    (case lookup_ep cs cfg ifn num dir of
       None \<Rightarrow> r = None
     | Some e \<Rightarrow> \<exists>j ds. r = Some j \<and> desc_pos t (e # ds) = j \<and> table_ends t (e # ds))"
proof (cases "configs_from cfg cs")
  case Nil
  then show ?thesis using GetInterfaceDesc_tree(1) [OF assms, of cfg ifn]
    by (simp add: lookup_ep_def find_config_from GetEndpointDesc_def GetFirstEndpointDescIndex_def)
next
  case c: (Cons c cs2)
  show ?thesis
  proof (cases "ifs_from ifn c")
    case Nil
    then show ?thesis using GetInterfaceDesc_tree(1) [OF assms, of cfg ifn] c
      by (simp add: lookup_ep_def find_config_from find_if_from GetEndpointDesc_def GetFirstEndpointDescIndex_def)
  next
    case i: (Cons i js)
    have l: "lookup_ep cs cfg ifn num dir = find_ep num dir i"
      by (simp add: lookup_ep_def find_config_from find_if_from c i)
    note ex = GetEndpointDesc_exact [OF assms c i, of num dir]
    show ?thesis
    proof (cases "dropWhile (\<lambda>e. \<not> ep_matches num dir (e ! 2)) (snd (snd i))")
      case Nil
      show ?thesis using ex(1) unfolding l find_ep_def find_dropWhile Nil by simp
    next
      case (Cons e es)
      show ?thesis using ex(1) ex(2) [OF Cons] unfolding l find_ep_def find_dropWhile Cons by auto
    qed
  qed
qed

definition num_ifs :: "u8 \<Rightarrow> cfg_tree list \<Rightarrow> nat" where
  "num_ifs cfg cs = (case find_config cfg cs of None \<Rightarrow> 0 | Some c \<Rightarrow> unat (fst c ! 4))"

lemma GetNumInterfaces_tree:
  assumes "table_holds t dev cs"
  shows "\<exists>n. GetNumInterfaces t cfg = Some n \<and> unat n = num_ifs cfg cs"
proof (cases "configs_from cfg cs")
  case Nil
  then show ?thesis using GetConfigDesc_tree [OF assms, of cfg]
    by (simp add: GetNumInterfaces_def desc_field_def num_ifs_def find_config_from)
next
  case (Cons c cs2)
  have ok: "list_all cfg_ok (c # cs2)" using configs_from_ok [of cs cfg] assms Cons by (simp add: table_holds_def)
  note g = GetConfigDesc_tree [OF assms, of cfg, unfolded Cons tree_hd(1) [OF ok]]
  have "5 < length (fst c)" using ok by (intro desc_ok_fields(1)) (simp_all add: cfg_ok_def)
  then show ?thesis using g(1) desc_field_at [OF g(2), of 4]
    by (simp add: GetNumInterfaces_def num_ifs_def find_config_from Cons)
qed

lemma GetNumEndpoints_tree:
  assumes "table_holds t dev cs"
  shows "\<exists>n. GetNumEndpoints t cfg ifn = Some n"
proof (cases "configs_from cfg cs")
  case Nil
  then show ?thesis using GetInterfaceDesc_tree(1) [OF assms, of cfg ifn] by (simp add: GetNumEndpoints_def desc_field_def)
next
  case c: (Cons c cs2)
  show ?thesis
  proof (cases "ifs_from ifn c")
    case Nil
    then show ?thesis using GetInterfaceDesc_tree(1) [OF assms, of cfg ifn] c by (simp add: GetNumEndpoints_def desc_field_def)
  next
    case i: (Cons i js)
    have "cfg_ok c" using configs_from_ok [of cs cfg] assms c by (simp add: table_holds_def)
    then have "if_ok i" using ifs_from_ok [of c ifn] i by simp
    then have "4 < length (fst i)" by (intro desc_ok_fields(2)) (simp_all add: if_ok_def if_descs_def)
    then show ?thesis
      using GetInterfaceDesc_tree(1) [OF assms, of cfg ifn] GetInterfaceDesc_tree(2) [OF assms c i] c i
        desc_field_at [of t "fst i" "fst (snd i) @ snd (snd i) @ concat (map if_descs js) @ tree_descs cs2" 4]
      by (simp add: GetNumEndpoints_def if_descs_def)
  qed
qed

lemma lookup_ep_length:
  assumes "table_holds t dev cs" "lookup_ep cs cfg ifn num dir = Some e"
  shows "7 \<le> length e"
proof -
  obtain c i where ci: "find_config cfg cs = Some c" "find_if ifn c = Some i" "find_ep num dir i = Some e"
    using assms(2) by (auto simp: lookup_ep_def Option.bind_eq_Some_conv)
  then have "c \<in> set cs" "i \<in> set (snd c)" "e \<in> set (snd (snd i))"
    by (auto simp: find_config_def find_if_def find_ep_def find_Some_iff)
  then show ?thesis using assms
    by (auto simp: table_holds_def cfg_ok_def if_ok_def if_descs_def list_all_iff desc_ok_def)
qed

lemma GetEndpointDesc_fields:
  assumes "table_holds t dev cs"
  shows "\<exists>r. GetEndpointDesc t cfg ifn num dir = Some r \<and> (\<forall>i k. r = Some i \<longrightarrow> k < 7 \<longrightarrow> (\<exists>v. desc_field t (Some i) k = Some v))"
proof -
  obtain r where r: "GetEndpointDesc t cfg ifn num dir = Some r"
    "case lookup_ep cs cfg ifn num dir of None \<Rightarrow> r = None
     | Some e \<Rightarrow> \<exists>j ds. r = Some j \<and> desc_pos t (e # ds) = j \<and> table_ends t (e # ds)"
    using GetEndpointDesc_tree [OF assms] by blast
  show ?thesis
  proof (cases "lookup_ep cs cfg ifn num dir")
    case (Some e)
    then obtain j ds where "r = Some j" "desc_pos t (e # ds) = j" "table_ends t (e # ds)" using r(2) by auto
    then show ?thesis using r(1) lookup_ep_length [OF assms Some] desc_field_at [of t e ds] by (auto intro!: exI [of _ "e ! _"])
  qed (use r in auto)
qed

end
