(* ===== verification/UsbBusProps.thy ===== *)
theory UsbBusProps imports UsbBus UsbDescProps begin

text \<open>
  The loops over the endpoints of a device, and what the change of the speed does to its table of
  descriptors: every endpoint gets its size, nothing else changes, and the searches find what they
  found before.
\<close>

unbundle bit_operations_syntax

section \<open>Addresses of endpoints\<close>

lemma bit7_cases: "(a :: u8) AND 0x80 = 0 \<or> a AND 0x80 = 0x80"
proof -
  have "a AND 0x80 = (if bit a 7 then 0x80 else 0)"
    by (rule bit_word_eqI) (auto simp: bit_simps bit_numeral_rec less_Suc_eq numeral_eq_Suc split: nat.splits)
  then show ?thesis by simp
qed

lemma ep_matches_dir:
  "ep_matches num DIR_OUT a \<longleftrightarrow> a AND 0x0F = num \<and> a AND 0x80 = 0"
  "ep_matches num DIR_IN a \<longleftrightarrow> a AND 0x0F = num \<and> a AND 0x80 = 0x80"
  using bit7_cases [of a] by (auto simp: ep_matches_def DIR_OUT_def DIR_IN_def)

definition ep_addr :: "u8 list \<Rightarrow> u8" where "ep_addr e = e ! 2 AND 0x8F"

definition ep_no :: "u8 list \<Rightarrow> nat" where "ep_no e = unat (e ! 2 AND 0x0F)"

lemma unat_of_nat_8: "k < 256 \<Longrightarrow> unat (of_nat k :: u8) = k"
  by (simp add: unat_of_nat take_bit_nat_eq_self)

lemma ep_no_eq: "k < 256 \<Longrightarrow> ep_no e = k \<longleftrightarrow> e ! 2 AND 0x0F = of_nat k"
  by (auto simp: ep_no_def word_unat_eq_iff unat_of_nat_8)

lemma ep_addr_split: "ep_addr e = (e ! 2 AND 0x0F) OR (e ! 2 AND 0x80)"
  by (simp add: ep_addr_def flip: bit.conj_disj_distrib)

lemma ep_addr_eq:
  assumes "dir = DIR_OUT \<or> dir = DIR_IN" "ep_matches num dir (d ! 2)" "ep_matches num dir (e ! 2)"
  shows "ep_addr d = ep_addr e"
  using assms by (auto simp: ep_addr_split ep_matches_dir)

lemma distinct_one_match:
  assumes "distinct (map ep_addr es)" "dir = DIR_OUT \<or> dir = DIR_IN"
  shows "length (filter (\<lambda>e. ep_matches num dir (e ! 2)) es) = of_bool (\<exists>e\<in>set es. ep_matches num dir (e ! 2))"
  using assms(1)
proof (induction es)
  case (Cons e es)
  show ?case
  proof (cases "ep_matches num dir (e ! 2)")
    case True
    then have "\<not> ep_matches num dir (d ! 2)" if "d \<in> set es" for d
      using Cons.prems that ep_addr_eq [OF assms(2) True, of d] by (auto simp: image_iff)
    then show ?thesis using True by (auto simp: filter_empty_conv)
  qed (use Cons in auto)
qed simp

lemma filter_length_split:
  assumes "\<And>e. P e \<longleftrightarrow> Q e \<or> R e \<or> T e" "\<And>e. \<not> (Q e \<and> R e)" "\<And>e. \<not> (Q e \<and> T e)" "\<And>e. \<not> (R e \<and> T e)"
  shows "length (filter P es) = length (filter Q es) + length (filter R es) + length (filter T es)"
  using assms by (induction es) auto

lemma endpoints_left:
  assumes "distinct (map ep_addr es)" "k < 256"
  shows "length (filter (\<lambda>e. k \<le> ep_no e) es) =
    of_bool (\<exists>e\<in>set es. ep_matches (of_nat k) DIR_OUT (e ! 2)) + of_bool (\<exists>e\<in>set es. ep_matches (of_nat k) DIR_IN (e ! 2)) +
    length (filter (\<lambda>e. Suc k \<le> ep_no e) es)"
proof -
  note k = ep_no_eq [OF assms(2)]
  have "length (filter (\<lambda>e. k \<le> ep_no e) es) = length (filter (\<lambda>e. ep_matches (of_nat k) DIR_OUT (e ! 2)) es)
      + length (filter (\<lambda>e. ep_matches (of_nat k) DIR_IN (e ! 2)) es) + length (filter (\<lambda>e. Suc k \<le> ep_no e) es)"
  proof (rule filter_length_split)
    fix e :: "u8 list"
    show "k \<le> ep_no e \<longleftrightarrow> ep_matches (of_nat k) DIR_OUT (e ! 2) \<or> ep_matches (of_nat k) DIR_IN (e ! 2) \<or> Suc k \<le> ep_no e"
      using k [of e] bit7_cases [of "e ! 2"] by (auto simp: ep_matches_dir)
  qed (auto simp: ep_matches_dir k [symmetric])
  then show ?thesis using assms(1) by (simp add: distinct_one_match)
qed

section \<open>The loop over the endpoints of an interface\<close>

text \<open>
  A step that changes the endpoint it finds, by \<open>g\<close>, and keeps its address; \<open>S es\<close> is the state with the
  endpoints \<open>es\<close>.
\<close>

definition change_ep :: "(u8 list \<Rightarrow> u8 list) \<Rightarrow> u8 \<Rightarrow> u8 \<Rightarrow> u8 list list \<Rightarrow> u8 list list" where
  "change_ep g num dir es = map (\<lambda>e. if ep_matches num dir (e ! 2) then g e else e) es"

lemma change_ep_keeps:
  assumes "\<And>e. e \<in> set es \<Longrightarrow> g e ! 2 = e ! 2"
  shows "map ep_addr (change_ep g num dir es) = map ep_addr es" "length (change_ep g num dir es) = length es"
    "length (filter (\<lambda>e. k \<le> ep_no e) (change_ep g num dir es)) = length (filter (\<lambda>e. k \<le> ep_no e) es)"
    "(\<exists>e\<in>set (change_ep g num dir es). P (e ! 2)) \<longleftrightarrow> (\<exists>e\<in>set es. P (e ! 2))"
  using assms by (induction es) (auto simp: change_ep_def ep_addr_def ep_no_def)

locale endpoint_step =
  fixes f :: "'s ep_step" and S :: "u8 list list \<Rightarrow> 's" and g :: "u8 list \<Rightarrow> u8 list" and okay :: "u8 list list \<Rightarrow> bool"
  assumes step: "okay es \<Longrightarrow> distinct (map ep_addr es) \<Longrightarrow> dir = DIR_OUT \<or> dir = DIR_IN \<Longrightarrow>
      f num dir (S es) = Some (\<exists>e\<in>set es. ep_matches num dir (e ! 2), S (change_ep g num dir es))"
    and keeps: "okay es \<Longrightarrow> okay (change_ep g num dir es)"
    and addr: "okay es \<Longrightarrow> e \<in> set es \<Longrightarrow> g e ! 2 = e ! 2"
begin

lemma two_steps:
  assumes "okay es" "k < 256"
  shows "change_ep g (of_nat k) DIR_IN (change_ep g (of_nat k) DIR_OUT es) = map (\<lambda>e. if ep_no e = k then g e else e) es"
proof -
  note k = ep_no_eq [OF assms(2)]
  have "(if ep_matches (of_nat k) DIR_IN (d ! 2) then g d else d) = (if ep_no e = k then g e else e)"
    if "e \<in> set es" "d = (if ep_matches (of_nat k) DIR_OUT (e ! 2) then g e else e)" for d e
    using that addr [OF assms(1) that(1)] bit7_cases [of "e ! 2"] k [of e] by (auto simp: ep_matches_dir)
  then show ?thesis by (simp add: change_ep_def)
qed

lemma each_ep_changes_all:
  assumes "okay es" "distinct (map ep_addr es)" "\<forall>e\<in>set es. ep_no e \<le> N" "N < 256" "length es < 256" "a \<le> Suc N"
    "n = of_nat (length (filter (\<lambda>e. a \<le> ep_no e) es))"
  shows "each_ep f [a..<Suc N] n (S es) = Some (S (map (\<lambda>e. if a \<le> ep_no e then g e else e) es))"
  using assms
proof (induction "Suc N - a" arbitrary: a n es)
  case 0
  then have "a = Suc N" by simp
  moreover from this 0 have "\<forall>e\<in>set es. \<not> a \<le> ep_no e" by auto
  then have "map (\<lambda>e. if a \<le> ep_no e then g e else e) es = es" by (simp add: map_idI)
  ultimately show ?case by simp
next
  case (Suc m)
  then have a: "a < Suc N" "a < 256" by simp_all
  have l: "[a..<Suc N] = a # [Suc a..<Suc N]" using a by (simp add: upt_rec)
  let ?b1 = "\<exists>e\<in>set es. ep_matches (of_nat a) DIR_OUT (e ! 2)" and ?b2 = "\<exists>e\<in>set es. ep_matches (of_nat a) DIR_IN (e ! 2)"
  let ?es1 = "change_ep g (of_nat a) DIR_OUT es" and ?rest = "length (filter (\<lambda>e. Suc a \<le> ep_no e) es)"
  let ?es2 = "change_ep g (of_nat a) DIR_IN ?es1"
  have cnt: "length (filter (\<lambda>e. a \<le> ep_no e) es) = of_bool ?b1 + of_bool ?b2 + ?rest"
    by (rule endpoints_left [OF Suc.prems(2) a(2)])
  note k1 = change_ep_keeps [where num = "of_nat a" and dir = DIR_OUT, OF addr [OF Suc.prems(1)]]
  have ok1: "okay ?es1" "distinct (map ep_addr ?es1)" using keeps [OF Suc.prems(1)] Suc.prems(2) k1(1) by simp_all
  note k2 = change_ep_keeps [where num = "of_nat a" and dir = DIR_IN, OF addr [OF ok1(1)]]
  have es2: "?es2 = map (\<lambda>e. if ep_no e = a then g e else e) es" by (rule two_steps [OF Suc.prems(1) a(2)])
  show ?case
  proof (cases "n = 0")
    case True
    have "length (filter (\<lambda>e. a \<le> ep_no e) es) < 256" using Suc.prems(5) length_filter_le [of _ es] by (rule le_less_trans [rotated])
    then have "filter (\<lambda>e. a \<le> ep_no e) es = []" using True Suc.prems(7) unat_of_nat_8 [of "length (filter (\<lambda>e. a \<le> ep_no e) es)"]
      by simp
    then have "map (\<lambda>e. if a \<le> ep_no e then g e else e) es = es" by (simp add: map_idI filter_empty_conv)
    then show ?thesis using l True by simp
  next
    case False
    have n: "n - of_bool ?b1 - of_bool ?b2 = of_nat ?rest" by (simp add: Suc.prems(7) cnt)
    have "each_ep f [a..<Suc N] n (S es) = each_ep f [Suc a..<Suc N] (of_nat ?rest) (S ?es2)"
      using False step [OF Suc.prems(1,2), of DIR_OUT "of_nat a"] step [OF ok1, of DIR_IN "of_nat a"] k1(4) n
      by (simp add: l del: upt_Suc)
    also have "\<dots> = Some (S (map (\<lambda>e. if Suc a \<le> ep_no e then g e else e) ?es2))"
    proof (rule Suc.hyps(1))
      show "okay ?es2" "distinct (map ep_addr ?es2)" using keeps [OF ok1(1)] ok1(2) k2(1) by simp_all
      show "length ?es2 < 256" using Suc.prems(5) by (simp add: es2)
      show "\<forall>e\<in>set ?es2. ep_no e \<le> N" using Suc.prems(3) k1(4) [where P = "\<lambda>a. \<not> unat (a AND 0x0F) \<le> N"] k2(4) [where P = "\<lambda>a. \<not> unat (a AND 0x0F) \<le> N"]
        by (auto simp: ep_no_def)
      show "of_nat ?rest = of_nat (length (filter (\<lambda>e. Suc a \<le> ep_no e) ?es2))" using k1(3) k2(3) by simp
    qed (use Suc in auto)
    also have "map (\<lambda>e. if Suc a \<le> ep_no e then g e else e) ?es2 = map (\<lambda>e. if a \<le> ep_no e then g e else e) es"
      using addr [OF Suc.prems(1)] by (auto simp: es2 ep_no_def)
    finally show ?thesis .
  qed
qed

end

section \<open>The table with other endpoints\<close>

definition with_tree :: "u8 list \<Rightarrow> cfg_tree list \<Rightarrow> 'i usb_ctl \<Rightarrow> 'i usb_ctl" where
  "with_tree dev cs s = set_desc_table ((Table (Desc s))\<lparr>DescBuff := Some (dev @ concat (tree_descs cs))\<rparr>) s"

lemma with_tree_sels [simp]:
  "Dev (with_tree dev cs s) = Dev s" "Eps (Desc (with_tree dev cs s)) = Eps (Desc s)"
  "Inter (Desc (with_tree dev cs s)) = Inter (Desc s)" "hw_calls (with_tree dev cs s) = hw_calls s"
  "DescBuff (Table (Desc (with_tree dev cs s))) = Some (dev @ concat (tree_descs cs))"
  "DescSize (Table (Desc (with_tree dev cs s))) = DescSize (Table (Desc s))"
  "NextCfgId (Table (Desc (with_tree dev cs s))) = NextCfgId (Table (Desc s))"
  "InRequest (with_tree dev cs s) = InRequest s" "OutRequest (with_tree dev cs s) = OutRequest s"
  "IfState (with_tree dev cs s) = IfState s"
  "GetNumConfigurations (Table (Desc (with_tree dev cs s))) = GetNumConfigurations (Table (Desc s))"
  by (simp_all add: with_tree_def set_desc_table_def GetNumConfigurations_def)

text \<open>A change of an endpoint that keeps its length and its first four bytes.\<close>

definition same_head :: "u8 list \<Rightarrow> u8 list \<Rightarrow> bool" where
  "same_head d e \<longleftrightarrow> length d = length e \<and> (\<forall>k<4. d ! k = e ! k)"

lemma same_headD:
  assumes "same_head d e"
  shows "length d = length e" "d ! 0 = e ! 0" "d ! 1 = e ! 1" "d ! 2 = e ! 2" "desc_ok d \<longleftrightarrow> desc_ok e"
proof -
  show *: "length d = length e" "d ! 0 = e ! 0" "d ! 1 = e ! 1" "d ! 2 = e ! 2" using assms by (simp_all add: same_head_def)
  show "desc_ok d \<longleftrightarrow> desc_ok e" unfolding desc_ok_def * ..
qed

lemma same_heads:
  assumes "list_all2 same_head ds es"
  shows "length (concat ds) = length (concat es)" "list_all desc_ok ds \<longleftrightarrow> list_all desc_ok es"
    "list_all (\<lambda>d. d ! 1 = ENDPOINT) ds \<longleftrightarrow> list_all (\<lambda>d. d ! 1 = ENDPOINT) es" "ds = [] \<longleftrightarrow> es = []"
  using assms by (induction ds es rule: list_all2_induct) (auto dest: same_headD)

lemma tree_descs_append: "tree_descs (cs @ ds) = tree_descs cs @ tree_descs ds"
  by (simp add: tree_descs_def)

lemma table_holds_other:
  assumes "table_holds (Table (Desc s)) dev (cs1 @ (c, is1 @ (i, cl, es) # js) # cs2)" "list_all2 same_head ds es"
  shows "table_holds (Table (Desc (with_tree dev (cs1 @ (c, is1 @ (i, cl, ds) # js) # cs2) s))) dev
    (cs1 @ (c, is1 @ (i, cl, ds) # js) # cs2)"
  using assms(1) same_heads [OF assms(2)]
  by (simp add: table_holds_def cfg_ok_def if_ok_def if_descs_def tree_descs_append cfg_descs_def)

lemma endpoint_in_tree:
  assumes "table_holds t dev (cs1 @ (c, is1 @ (i, cl, es) # js) # cs2)" "\<forall>x\<in>set cs1. fst x ! 5 \<noteq> cfg" "c ! 5 = cfg"
    "\<forall>x\<in>set is1. fst x ! 2 \<noteq> ifn" "i ! 2 = ifn"
  shows "\<forall>e\<in>set es. \<not> ep_matches num dir (e ! 2) \<Longrightarrow> GetEndpointDesc t cfg ifn num dir = Some None"
    "es = es1 @ e # es2 \<Longrightarrow> \<forall>e\<in>set es1. \<not> ep_matches num dir (e ! 2) \<Longrightarrow> ep_matches num dir (e ! 2) \<Longrightarrow>
      \<exists>p q. GetEndpointDesc t cfg ifn num dir = Some (Some (length p)) \<and>
        (\<forall>d. dev @ concat (tree_descs (cs1 @ (c, is1 @ (i, cl, es1 @ d # es2) # js) # cs2)) = p @ d @ q)"
proof -
  have c: "configs_from cfg (cs1 @ (c, is1 @ (i, cl, es) # js) # cs2) = (c, is1 @ (i, cl, es) # js) # cs2"
    using assms(2,3) by (simp add: configs_from_def dropWhile_append2)
  have i: "ifs_from ifn (c, is1 @ (i, cl, es) # js) = (i, cl, es) # js"
    using assms(4,5) by (simp add: ifs_from_def dropWhile_append2)
  note ex = GetEndpointDesc_exact [OF assms(1) c i, of num dir]
  show "\<forall>e\<in>set es. \<not> ep_matches num dir (e ! 2) \<Longrightarrow> GetEndpointDesc t cfg ifn num dir = Some None"
    using ex(1) by (simp add: dropWhile_eq_Nil_conv [THEN iffD2])
  assume e: "es = es1 @ e # es2" "\<forall>e\<in>set es1. \<not> ep_matches num dir (e ! 2)" "ep_matches num dir (e ! 2)"
  let ?p = "dev @ concat (tree_descs cs1) @ c @ concat (concat (map if_descs is1)) @ i @ concat cl @ concat es1"
  let ?q = "concat es2 @ concat (concat (map if_descs js)) @ concat (tree_descs cs2)"
  have b: "dev @ concat (tree_descs (cs1 @ (c, is1 @ (i, cl, es1 @ d # es2) # js) # cs2)) = ?p @ d @ ?q" for d
    by (simp add: tree_descs_append cfg_descs_def if_descs_def)
  have dw: "dropWhile (\<lambda>e. \<not> ep_matches num dir (e ! 2)) es = e # es2" using e by (simp add: dropWhile_append2)
  have sz: "unat (DescSize t) = length (?p @ e @ ?q)"
    using assms(1) b [of e] unfolding table_holds_def e(1) by metis
  have "desc_pos t ((e # es2) @ concat (map if_descs js) @ tree_descs cs2) = length ?p"
    unfolding desc_pos_def sz by simp
  then have "GetEndpointDesc t cfg ifn num dir = Some (Some (length ?p))" using ex(1) dw by simp
  then show "\<exists>p q. GetEndpointDesc t cfg ifn num dir = Some (Some (length p)) \<and>
        (\<forall>d. dev @ concat (tree_descs (cs1 @ (c, is1 @ (i, cl, es1 @ d # es2) # js) # cs2)) = p @ d @ q)"
    using b by blast
qed

section \<open>Changing the sizes\<close>

definition refit :: "(u8 \<Rightarrow> u16 \<Rightarrow> u16) \<Rightarrow> ep_info \<Rightarrow> u8 list \<Rightarrow> u8 list" where
  "refit fit x e =
     (let n = fit (e ! 3 AND 0x03) (the (GetEndPointBufSize x (e ! 2 AND 0x0F) (e ! 2 AND 0x80)))
      in e[4 := LO_BYTE n, 5 := HI_BYTE n])"

lemma refit_head: "same_head (refit fit x e) e"
  by (simp add: same_head_def refit_def Let_def)

lemma put_byte_middle:
  assumes "DescBuff t = Some (p @ d @ q)" "k < length d"
  shows "put_byte (length p + k) v t = Some (t\<lparr>DescBuff := Some (p @ d[k := v] @ q)\<rparr>)"
  using assms by (simp add: put_byte_def arr_set_def list_update_append)

lemma put_byte_first:
  "DescBuff t = Some (d @ q) \<Longrightarrow> k < length d \<Longrightarrow> put_byte k v t = Some (t\<lparr>DescBuff := Some (d[k := v] @ q)\<rparr>)"
  using put_byte_middle [of t "[]" d q k v] by simp

lemma desc_field_middle:
  assumes "DescBuff t = Some (p @ d @ q)" "k < length d"
  shows "desc_field t (Some (length p)) k = Some (d ! k)"
  using assms arr_get_middle [OF assms(2), of p q] by (simp add: desc_field_def)

definition sizes_known :: "ep_info \<Rightarrow> bool" where
  "sizes_known x \<longleftrightarrow> unat (num_eps x) \<le> length (ep_configs x)"

lemma GetEndPointBufSize_known: "sizes_known x \<Longrightarrow> GetEndPointBufSize x num dir = Some (the (GetEndPointBufSize x num dir))"
  by (simp add: GetEndPointBufSize_def sizes_known_def)

lemma resize_ep_found:
  assumes "sizes_known (Eps (Desc s))" "dir = DIR_OUT \<or> dir = DIR_IN" "ep_matches num dir (e ! 2)" "7 \<le> length e"
    "GetEndpointDesc (Table (Desc s)) cfg ifn num dir = Some (Some (length p))" "DescBuff (Table (Desc s)) = Some (p @ e @ q)"
  shows "resize_ep fit cfg ifn num dir s =
    Some (True, set_desc_table ((Table (Desc s))\<lparr>DescBuff := Some (p @ refit fit (Eps (Desc s)) e @ q)\<rparr>) s)"
proof -
  let ?t = "Table (Desc s)" and ?x = "Eps (Desc s)"
  have l: "2 < length e" "3 < length e" "4 < length e" "5 < length e" using assms(4) by simp_all
  have a: "e ! 2 AND 0x0F = num" using assms(2,3) by (auto simp: ep_matches_dir)
  have d: "(if e ! 2 AND EP_ADDR_IN \<noteq> 0 then 0x80 else 0) = e ! 2 AND 0x80" using bit7_cases [of "e ! 2"] by (auto simp: EP_ADDR_IN_def)
  obtain n where n: "GetEndPointBufSize ?x num (e ! 2 AND 0x80) = Some n"
    using GetEndPointBufSize_known [OF assms(1)] by blast
  show ?thesis
    using assms(5,6) n l put_byte_middle [OF assms(6) l(3)] desc_field_middle [OF assms(6)]
      put_byte_middle [of _ p "e[4 := _]" q 5]
    by (simp add: resize_ep_def Let_def d a refit_def)
qed

lemma resize_ep_missing:
  "GetEndpointDesc (Table (Desc s)) cfg ifn num dir = Some None \<Longrightarrow> resize_ep fit cfg ifn num dir s = Some (False, s)"
  by (simp add: resize_ep_def Let_def)

text \<open>The endpoints \<open>es\<close> are those of the interface \<open>ifn\<close> of the configuration \<open>cfg\<close>.\<close>

definition endpoints_at ::
  "u8 \<Rightarrow> u8 \<Rightarrow> u8 list \<Rightarrow> cfg_tree list \<Rightarrow> u8 list \<Rightarrow> if_tree list \<Rightarrow> u8 list \<Rightarrow> u8 list list \<Rightarrow> if_tree list \<Rightarrow> cfg_tree list \<Rightarrow>
   'i usb_ctl \<Rightarrow> u8 list list \<Rightarrow> bool" where
  "endpoints_at cfg ifn dev cs1 c is1 i cl js cs2 s es \<longleftrightarrow>
     table_holds (Table (Desc (with_tree dev (cs1 @ (c, is1 @ (i, cl, es) # js) # cs2) s))) dev
       (cs1 @ (c, is1 @ (i, cl, es) # js) # cs2) \<and>
     (\<forall>x\<in>set cs1. fst x ! 5 \<noteq> cfg) \<and> c ! 5 = cfg \<and> (\<forall>x\<in>set is1. fst x ! 2 \<noteq> ifn) \<and> i ! 2 = ifn \<and> sizes_known (Eps (Desc s))"

lemma endpoints_at_length:
  assumes "endpoints_at cfg ifn dev cs1 c is1 i cl js cs2 s es" "e \<in> set es"
  shows "7 \<le> length e"
  using assms by (auto simp: endpoints_at_def table_holds_def cfg_ok_def if_ok_def if_descs_def list_all_iff desc_ok_def)

lemma change_ep_split:
  assumes "distinct (map ep_addr (es1 @ e # es2))" "dir = DIR_OUT \<or> dir = DIR_IN" "ep_matches num dir (e ! 2)"
  shows "change_ep g num dir (es1 @ e # es2) = es1 @ g e # es2"
proof -
  have "\<not> ep_matches num dir (d ! 2)" if "d \<in> set es1 \<or> d \<in> set es2" for d
    using ep_addr_eq [OF assms(2), of num d e] assms(1,3) that by (auto simp: image_iff)
  then show ?thesis using assms(3) by (auto simp: change_ep_def intro!: map_idI)
qed

interpretation resize: endpoint_step "resize_ep fit cfg ifn" "\<lambda>es. with_tree dev (cs1 @ (c, is1 @ (i, cl, es) # js) # cs2) s"
  "refit fit (Eps (Desc s))" "endpoints_at cfg ifn dev cs1 c is1 i cl js cs2 s"
  for fit cfg ifn dev cs1 c is1 i cl js cs2 s
proof unfold_locales
  fix es num and dir :: u8
  let ?S = "\<lambda>es. with_tree dev (cs1 @ (c, is1 @ (i, cl, es) # js) # cs2) s" and ?g = "refit fit (Eps (Desc s))"
  assume a: "endpoints_at cfg ifn dev cs1 c is1 i cl js cs2 s es" "distinct (map ep_addr es)" "dir = DIR_OUT \<or> dir = DIR_IN"
  note in_tree = endpoint_in_tree [OF a(1) [unfolded endpoints_at_def, THEN conjunct1],
      where cfg = cfg and ifn = ifn and num = num and dir = dir]
  note at = a(1) [unfolded endpoints_at_def]
  show "resize_ep fit cfg ifn num dir (?S es) = Some (\<exists>e\<in>set es. ep_matches num dir (e ! 2), ?S (change_ep ?g num dir es))"
  proof (cases "\<exists>e\<in>set es. ep_matches num dir (e ! 2)")
    case False
    moreover from this have "change_ep ?g num dir es = es" by (auto simp: change_ep_def intro!: map_idI)
    ultimately show ?thesis using in_tree(1) at by (simp add: resize_ep_missing)
  next
    case True
    then obtain es1 e es2 where e: "es = es1 @ e # es2" "ep_matches num dir (e ! 2)" "\<forall>d\<in>set es1. \<not> ep_matches num dir (d ! 2)"
      using split_list_first_prop [of es "\<lambda>e. ep_matches num dir (e ! 2)"] by blast
    obtain p q where g: "GetEndpointDesc (Table (Desc (?S es))) cfg ifn num dir = Some (Some (length p))"
      "\<And>d. dev @ concat (tree_descs (cs1 @ (c, is1 @ (i, cl, es1 @ d # es2) # js) # cs2)) = p @ d @ q"
      using in_tree(2) [OF _ _ _ _ e(1,3,2)] at by blast
    have "7 \<le> length e" using endpoints_at_length [OF a(1), of e] e(1) by simp
    then have "resize_ep fit cfg ifn num dir (?S es) =
        Some (True, set_desc_table ((Table (Desc (?S es)))\<lparr>DescBuff := Some (p @ ?g e @ q)\<rparr>) (?S es))"
      using resize_ep_found [OF _ a(3) e(2) _ g(1), of q fit] at g(2) e(1) by simp
    moreover have "set_desc_table ((Table (Desc (?S es)))\<lparr>DescBuff := Some (p @ ?g e @ q)\<rparr>) (?S es) = ?S (change_ep ?g num dir es)"
      using change_ep_split [of es1 e es2 dir num ?g] a(2,3) e g(2) by (simp add: with_tree_def set_desc_table_def)
    ultimately show ?thesis using True by simp
  qed
next
  fix es num and dir :: u8
  assume a: "endpoints_at cfg ifn dev cs1 c is1 i cl js cs2 s es"
  have "list_all2 same_head (change_ep (refit fit (Eps (Desc s))) num dir es) es"
    by (induction es) (simp_all add: change_ep_def refit_head, simp add: same_head_def)
  then show "endpoints_at cfg ifn dev cs1 c is1 i cl js cs2 s (change_ep (refit fit (Eps (Desc s))) num dir es)"
    using a table_holds_other [of "with_tree dev (cs1 @ (c, is1 @ (i, cl, es) # js) # cs2) s" dev cs1 c is1 i cl es js cs2]
    by (simp add: endpoints_at_def with_tree_def set_desc_table_def)
next
  fix es :: "u8 list list" and e
  show "refit fit (Eps (Desc s)) e ! 2 = e ! 2" by (rule same_headD(4) [OF refit_head])
qed

section \<open>The loops over interfaces and configurations\<close>

text \<open>
  Numbered as \<open>AddInterfaceDesc\<close> and \<open>AddCfgDesc\<close> number them: interfaces from 0, configurations from 1; each
  says how many endpoints or interfaces it has; endpoints have different addresses, from 1 to \<open>N\<close>.
\<close>

definition if_numbered :: "nat \<Rightarrow> if_tree \<Rightarrow> bool" where
  "if_numbered N i \<longleftrightarrow> unat (fst i ! 4) = length (snd (snd i)) \<and> distinct (map ep_addr (snd (snd i))) \<and>
     list_all (\<lambda>e. 1 \<le> ep_no e \<and> ep_no e \<le> N) (snd (snd i))"

definition cfg_numbered :: "nat \<Rightarrow> cfg_tree \<Rightarrow> bool" where
  "cfg_numbered N c \<longleftrightarrow> unat (fst c ! 4) = length (snd c) \<and> list_all (if_numbered N) (snd c) \<and>
     map (\<lambda>i. fst i ! 2) (snd c) = map of_nat [0..<length (snd c)]"

definition numbered :: "nat \<Rightarrow> cfg_tree list \<Rightarrow> bool" where
  "numbered N cs \<longleftrightarrow> length cs < 255 \<and> list_all (cfg_numbered N) cs \<and>
     map (\<lambda>c. fst c ! 5) cs = map of_nat [1..<Suc (length cs)]"

definition map_if :: "(u8 list \<Rightarrow> u8 list) \<Rightarrow> if_tree \<Rightarrow> if_tree" where
  "map_if g i = (fst i, fst (snd i), map g (snd (snd i)))"

definition map_cfg :: "(u8 list \<Rightarrow> u8 list) \<Rightarrow> cfg_tree \<Rightarrow> cfg_tree" where
  "map_cfg g c = (fst c, map (map_if g) (snd c))"

lemma table_holds_with:
  "table_holds (Table (Desc (with_tree dev cs s))) dev cs \<longleftrightarrow>
     desc_ok dev \<and> list_all cfg_ok cs \<and> unat (DescSize (Table (Desc s))) = length dev + length (concat (tree_descs cs))"
  by (auto simp: table_holds_def)

lemma map_if_ok: "if_ok (map_if (refit fit x) i) \<longleftrightarrow> if_ok i" "length (concat (if_descs (map_if (refit fit x) i))) = length (concat (if_descs i))"
proof -
  have "list_all2 same_head (map (refit fit x) es) es" for es by (induction es) (simp_all add: refit_head)
  note same_heads [OF this]
  then show "if_ok (map_if (refit fit x) i) \<longleftrightarrow> if_ok i" "length (concat (if_descs (map_if (refit fit x) i))) = length (concat (if_descs i))"
    by (simp_all add: if_ok_def map_if_def if_descs_def)
qed

lemma map_cfg_ok: "cfg_ok (map_cfg (refit fit x) c) \<longleftrightarrow> cfg_ok c" "length (concat (cfg_descs (map_cfg (refit fit x) c))) = length (concat (cfg_descs c))"
proof -
  have "list_all if_ok (map (map_if (refit fit x)) is) \<longleftrightarrow> list_all if_ok is" for "is" by (induction "is") (simp_all add: map_if_ok)
  moreover have "length (concat (concat (map if_descs (map (map_if (refit fit x)) is)))) = length (concat (concat (map if_descs is)))" for "is"
    by (induction "is") (use map_if_ok(2) in \<open>simp_all del: length_concat\<close>)
  ultimately show "cfg_ok (map_cfg (refit fit x) c) \<longleftrightarrow> cfg_ok c" "length (concat (cfg_descs (map_cfg (refit fit x) c))) = length (concat (cfg_descs c))"
    by (simp_all add: cfg_ok_def map_cfg_def cfg_descs_def del: length_concat)
qed

lemma map_cfgs_ok: "list_all cfg_ok (map (map_cfg (refit fit x)) cs) \<longleftrightarrow> list_all cfg_ok cs"
    "length (concat (tree_descs (map (map_cfg (refit fit x)) cs))) = length (concat (tree_descs cs))"
  by (induction cs) (use map_cfg_ok in \<open>simp_all del: length_concat\<close>)


lemma table_holds_mapped:
  "table_holds (Table (Desc (with_tree dev (cs1 @ map (map_cfg (refit fit x)) cs2) s))) dev (cs1 @ map (map_cfg (refit fit x)) cs2) \<longleftrightarrow>
    table_holds (Table (Desc (with_tree dev (cs1 @ cs2) s))) dev (cs1 @ cs2)"
  unfolding table_holds_with by (simp add: tree_descs_append map_cfgs_ok del: length_concat)

lemma table_holds_mapped_ifs:
  "table_holds (Table (Desc (with_tree dev (cs1 @ (c, is1 @ map (map_if (refit fit x)) is2) # cs2) s))) dev
      (cs1 @ (c, is1 @ map (map_if (refit fit x)) is2) # cs2) \<longleftrightarrow>
    table_holds (Table (Desc (with_tree dev (cs1 @ (c, is1 @ is2) # cs2) s))) dev (cs1 @ (c, is1 @ is2) # cs2)"
proof -
  have "list_all if_ok (map (map_if (refit fit x)) is2) \<longleftrightarrow> list_all if_ok is2" by (induction is2) (simp_all add: map_if_ok)
  moreover have "length (concat (concat (map if_descs (map (map_if (refit fit x)) is2)))) = length (concat (concat (map if_descs is2)))"
    by (induction is2) (use map_if_ok(2) in \<open>simp_all del: length_concat\<close>)
  ultimately show ?thesis
    unfolding table_holds_with by (simp add: tree_descs_append cfg_ok_def cfg_descs_def del: length_concat)
qed

lemma GetNumInterfaces_at:
  assumes "table_holds t dev (cs1 @ c # cs2)" "\<forall>x\<in>set cs1. fst x ! 5 \<noteq> cfg" "fst c ! 5 = cfg"
  shows "GetNumInterfaces t cfg = Some (fst c ! 4)"
proof -
  have c: "configs_from cfg (cs1 @ c # cs2) = c # cs2" using assms(2,3) by (simp add: configs_from_def dropWhile_append2)
  have ok: "list_all cfg_ok (c # cs2)" using assms(1) by (simp add: table_holds_def)
  note g = GetConfigDesc_tree [OF assms(1), of cfg, unfolded c tree_hd(1) [OF ok]]
  have "5 < length (fst c)" using ok by (intro desc_ok_fields(1)) (simp_all add: cfg_ok_def)
  then show ?thesis using g(1) desc_field_at [OF g(2), of 4] by (simp add: GetNumInterfaces_def)
qed

lemma GetNumEndpoints_at:
  assumes "table_holds t dev (cs1 @ (c, is1 @ i # js) # cs2)" "\<forall>x\<in>set cs1. fst x ! 5 \<noteq> cfg" "c ! 5 = cfg"
    "\<forall>x\<in>set is1. fst x ! 2 \<noteq> ifn" "fst i ! 2 = ifn"
  shows "GetNumEndpoints t cfg ifn = Some (fst i ! 4)"
proof -
  have c: "configs_from cfg (cs1 @ (c, is1 @ i # js) # cs2) = (c, is1 @ i # js) # cs2"
    using assms(2,3) by (simp add: configs_from_def dropWhile_append2)
  have i: "ifs_from ifn (c, is1 @ i # js) = i # js" using assms(4,5) by (simp add: ifs_from_def dropWhile_append2)
  have ok: "if_ok i" using assms(1) by (simp add: table_holds_def cfg_ok_def)
  then have "4 < length (fst i)" by (intro desc_ok_fields(2)) (simp_all add: if_ok_def if_descs_def)
  moreover note GetInterfaceDesc_tree(1) [OF assms(1), of cfg ifn] GetInterfaceDesc_tree(2) [OF assms(1) c i]
  ultimately show ?thesis
    using c i desc_field_at [of t "fst i" "fst (snd i) @ snd (snd i) @ concat (map if_descs js) @ tree_descs cs2" 4]
    by (simp add: GetNumEndpoints_def if_descs_def)
qed

lemma each_interface_resizes:
  assumes "table_holds (Table (Desc (with_tree dev (cs1 @ (c, is1 @ is2) # cs2) s))) dev (cs1 @ (c, is1 @ is2) # cs2)"
    "\<forall>x\<in>set cs1. fst x ! 5 \<noteq> cfg" "c ! 5 = cfg" "sizes_known (Eps (Desc s))"
    "\<forall>x\<in>set is1. unat (fst x ! 2) < length is1" "map (\<lambda>i. fst i ! 2) is2 = map of_nat [length is1..<length is1 + length is2]"
    "length is1 + length is2 < 256" "list_all (if_numbered (unat (NumEndpoints hw))) is2"
  shows "each_interface hw cfg (resize_ep fit cfg) [length is1..<length is1 + length is2] (with_tree dev (cs1 @ (c, is1 @ is2) # cs2) s)
    = Some (with_tree dev (cs1 @ (c, is1 @ map (map_if (refit fit (Eps (Desc s)))) is2) # cs2) s)"
  using assms(1,5-8)
proof (induction is2 arbitrary: is1)
  case (Cons j js)
  obtain i cl es where j: "j = (i, cl, es)" by (cases j) auto
  let ?g = "refit fit (Eps (Desc s))" and ?N = "unat (NumEndpoints hw)" and ?n = "of_nat (length is1) :: u8"
  let ?S = "\<lambda>es. with_tree dev (cs1 @ (c, is1 @ (i, cl, es) # js) # cs2) s"
  have l: "[length is1..<length is1 + length (j # js)] = length is1 # [Suc (length is1)..<Suc (length is1) + length js]"
    by (simp add: upt_rec)
  have num: "unat ?n = length is1" using Cons.prems(4) by (intro unat_of_nat_8) simp
  have i2: "i ! 2 = ?n" and js2: "map (\<lambda>i. fst i ! 2) js = map of_nat [Suc (length is1)..<Suc (length is1) + length js]"
    using Cons.prems(3) unfolding l by (simp_all add: j)
  have is1: "\<forall>x\<in>set is1. fst x ! 2 \<noteq> ?n" using Cons.prems(2) num by auto
  have at: "endpoints_at cfg ?n dev cs1 c is1 i cl js cs2 s es"
    using Cons.prems(1) assms(2-4) is1 i2 by (simp add: endpoints_at_def j)
  have nj: "unat (i ! 4) = length es" "distinct (map ep_addr es)" "\<forall>e\<in>set es. 1 \<le> ep_no e \<and> ep_no e \<le> ?N"
    using Cons.prems(5) by (simp_all add: j if_numbered_def list_all_iff)
  have N: "?N < 256" by (rule unat_lt_8)
  have le: "length es < 256" using nj(1) unat_lt_8 [of "i ! 4"] by simp
  have "filter (\<lambda>e. 1 \<le> ep_no e) es = es" using nj(3) by (simp add: filter_id_conv)
  then have n4: "i ! 4 = of_nat (length (filter (\<lambda>e. 1 \<le> ep_no e) es))" using nj(1) by (simp flip: nj(1))
  have "GetNumEndpoints (Table (Desc (?S es))) cfg ?n = Some (i ! 4)"
    using GetNumEndpoints_at [of "Table (Desc (?S es))" dev cs1 c is1 "(i, cl, es)" js cs2 cfg ?n] Cons.prems(1) assms(2,3) is1 i2
    by (simp add: j)
  moreover have "each_ep (resize_ep fit cfg ?n) [1..<Suc ?N] (i ! 4) (?S es) = Some (?S (map ?g es))"
  proof -
    have m: "map (\<lambda>e. if 1 \<le> ep_no e then ?g e else e) es = map ?g es" using nj(3) by simp
    have "\<forall>e\<in>set es. ep_no e \<le> ?N" using nj(3) by simp
    then show ?thesis
      using resize.each_ep_changes_all [OF at nj(2) _ N le _ n4, of fit] unfolding m by (simp del: upt_Suc)
  qed
  moreover have "each_interface hw cfg (resize_ep fit cfg) [Suc (length is1)..<Suc (length is1) + length js] (?S (map ?g es))
      = Some (with_tree dev (cs1 @ (c, is1 @ map (map_if ?g) (j # js)) # cs2) s)"
  proof -
    let ?is = "is1 @ [map_if ?g j]"
    have mj: "map_if ?g j = (i, cl, map ?g es)" by (simp add: map_if_def j)
    have "table_holds (Table (Desc (with_tree dev (cs1 @ (c, ?is @ js) # cs2) s))) dev (cs1 @ (c, ?is @ js) # cs2)"
    proof -
      have "if_ok (map_if ?g j) = if_ok j" "length (concat (if_descs (map_if ?g j))) = length (concat (if_descs j))" by (rule map_if_ok)+
      then show ?thesis using Cons.prems(1) unfolding table_holds_with
        by (simp add: tree_descs_append cfg_ok_def cfg_descs_def del: length_concat)
    qed
    moreover have "\<forall>x\<in>set ?is. unat (fst x ! 2) < length ?is" using Cons.prems(2) i2 num by (auto simp: mj)
    ultimately show ?thesis using Cons.IH [of ?is] Cons.prems(4,5) js2 by (simp add: mj del: upt_Suc)
  qed
  ultimately show ?case unfolding l by (simp add: j)
qed simp

lemma each_config_resizes:
  assumes "table_holds (Table (Desc (with_tree dev (cs1 @ cs2) s))) dev (cs1 @ cs2)" "sizes_known (Eps (Desc s))"
    "\<forall>x\<in>set cs1. unat (fst x ! 5) < Suc (length cs1)"
    "map (\<lambda>c. fst c ! 5) cs2 = map of_nat [Suc (length cs1)..<Suc (length cs1) + length cs2]"
    "length cs1 + length cs2 < 255" "list_all (cfg_numbered (unat (NumEndpoints hw))) cs2"
  shows "each_config hw (resize_ep fit) [Suc (length cs1)..<Suc (length cs1) + length cs2] (with_tree dev (cs1 @ cs2) s)
    = Some (with_tree dev (cs1 @ map (map_cfg (refit fit (Eps (Desc s)))) cs2) s)"
  using assms(1,3-6)
proof (induction cs2 arbitrary: cs1)
  case (Cons d ds)
  obtain c ifs where d: "d = (c, ifs)" by (cases d) auto
  let ?g = "refit fit (Eps (Desc s))" and ?n = "of_nat (Suc (length cs1)) :: u8" and ?N = "unat (NumEndpoints hw)"
  have l: "[Suc (length cs1)..<Suc (length cs1) + length (d # ds)] = Suc (length cs1) # [Suc (Suc (length cs1))..<Suc (Suc (length cs1)) + length ds]"
    by (simp add: upt_rec)
  have num: "unat ?n = Suc (length cs1)" using Cons.prems(4) by (intro unat_of_nat_8) simp
  have c5: "c ! 5 = ?n" and ds5: "map (\<lambda>c. fst c ! 5) ds = map of_nat [Suc (Suc (length cs1))..<Suc (Suc (length cs1)) + length ds]"
    using Cons.prems(3) unfolding l by (simp_all add: d del: upt_Suc)
  have cs1: "\<forall>x\<in>set cs1. fst x ! 5 \<noteq> ?n" using Cons.prems(2) num by auto
  have nc: "unat (c ! 4) = length ifs" "list_all (if_numbered ?N) ifs" "map (\<lambda>i. fst i ! 2) ifs = map of_nat [0..<length ifs]"
    using Cons.prems(5) by (simp_all add: d cfg_numbered_def)
  have "length ifs < 256" using nc(1) unat_lt_8 [of "c ! 4"] by simp
  then have "each_interface hw ?n (resize_ep fit ?n) [0..<length ifs] (with_tree dev (cs1 @ (c, ifs) # ds) s)
      = Some (with_tree dev (cs1 @ (c, map (map_if ?g) ifs) # ds) s)"
    using each_interface_resizes [of dev cs1 c "[]" ifs ds s ?n hw fit] Cons.prems(1) cs1 c5 assms(2) nc(2,3) by (simp add: d)
  moreover have "GetNumInterfaces (Table (Desc (with_tree dev (cs1 @ (c, ifs) # ds) s))) ?n = Some (c ! 4)"
    using GetNumInterfaces_at [of _ dev cs1 "(c, ifs)" ds ?n] Cons.prems(1) cs1 c5 by (simp add: d)
  ultimately have "in_config hw (resize_ep fit) ?n (with_tree dev (cs1 @ d # ds) s)
      = Some (with_tree dev (cs1 @ map_cfg ?g d # ds) s)"
    by (simp add: in_config_def nc(1) map_cfg_def d)
  moreover have "each_config hw (resize_ep fit) [Suc (Suc (length cs1))..<Suc (Suc (length cs1)) + length ds] (with_tree dev (cs1 @ map_cfg ?g d # ds) s)
      = Some (with_tree dev (cs1 @ map (map_cfg ?g) (d # ds)) s)"
  proof -
    let ?cs = "cs1 @ [map_cfg ?g d]"
    have "cfg_ok (map_cfg ?g d) = cfg_ok d" "length (concat (cfg_descs (map_cfg ?g d))) = length (concat (cfg_descs d))" by (rule map_cfg_ok)+
    then have "table_holds (Table (Desc (with_tree dev (?cs @ ds) s))) dev (?cs @ ds)"
      using Cons.prems(1) unfolding table_holds_with by (simp add: tree_descs_append del: length_concat)
    moreover have "\<forall>x\<in>set ?cs. unat (fst x ! 5) < Suc (length ?cs)" using Cons.prems(2) c5 num by (auto simp: map_cfg_def d)
    ultimately show ?thesis using Cons.IH [of ?cs] Cons.prems(4,5) ds5 by (simp del: upt_Suc)
  qed
  ultimately show ?case unfolding l by (simp del: upt_Suc)
qed simp

text \<open>A device whose table can be resized: the tree, its numbers, and endpoint 0.\<close>

definition speed_ready :: "usb_hw \<Rightarrow> u8 list \<Rightarrow> cfg_tree list \<Rightarrow> 'i usb_ctl \<Rightarrow> bool" where
  "speed_ready hw dev cs s \<longleftrightarrow>
     table_holds (Table (Desc s)) dev cs \<and> dev ! 1 = DEVICE \<and> 18 \<le> length dev \<and> numbered (unat (NumEndpoints hw)) cs \<and>
     GetNumConfigurations (Table (Desc s)) = of_nat (length cs) \<and> sizes_known (Eps (Desc s)) \<and> EndPoint (Dev s) \<noteq> []"

text \<open>The device at a speed: the version and the size of endpoint 0 in the device descriptor, and the sizes.\<close>

definition at_speed ::
  "u8 \<Rightarrow> u8 \<Rightarrow> u16 \<Rightarrow> (u8 \<Rightarrow> u16 \<Rightarrow> u16) \<Rightarrow> u8 list \<Rightarrow> cfg_tree list \<Rightarrow> 'i usb_ctl \<Rightarrow> 'i usb_ctl" where
  "at_speed lo hi size0 fit dev cs s =
     with_tree (dev[2 := lo, 3 := hi, 7 := ucast size0]) (map (map_cfg (refit fit (Eps (Desc s)))) cs)
       (s\<lparr>Dev := set_ep 0 ((EndPoint (Dev s) ! 0)\<lparr>MaxPacketSize := size0\<rparr>) (Dev s)\<rparr>)"

lemma configure_speed_exact:
  assumes "speed_ready hw dev cs s"
  shows "configure_speed hw lo hi size0 fit s = Some (at_speed lo hi size0 fit dev cs s)"
proof -
  note r = assms [unfolded speed_ready_def]
  let ?t = "Table (Desc s)" and ?q = "concat (tree_descs cs)" and ?dev = "dev[2 := lo, 3 := hi, 7 := ucast size0]"
  have b: "DescBuff ?t = Some ([] @ dev @ ?q)" and sz: "unat (DescSize ?t) = length (dev @ ?q)" using r by (simp_all add: table_holds_def)
  have "18 \<le> unat (DescSize ?t)" using sz r by simp
  then have "\<not> DescSize ?t < ucast sizeof_DEVICE_DESC" by (simp add: sizeof_DEVICE_DESC_def word_less_nat_alt)
  moreover have "arr_get (dev @ ?q) (Suc 0) = Some DEVICE" using r arr_get_middle [of 1 dev "[]" ?q] by simp
  ultimately have dd: "GetDeviceDesc ?t = Some (Some 0)" using b by (simp add: GetDeviceDesc_def)
  let ?s0 = "s\<lparr>Dev := set_ep 0 ((EndPoint (Dev s) ! 0)\<lparr>MaxPacketSize := size0\<rparr>) (Dev s)\<rparr>"
  have e: "arr_get (EndPoint (Dev s)) 0 = Some (EndPoint (Dev s) ! 0)" using r by (simp add: arr_get_def)
  have p: "put_byte 2 lo ?t = Some (?t\<lparr>DescBuff := Some (dev[2 := lo] @ ?q)\<rparr>)"
    "put_byte 3 hi (?t\<lparr>DescBuff := Some (dev[2 := lo] @ ?q)\<rparr>) = Some (?t\<lparr>DescBuff := Some (dev[2 := lo, 3 := hi] @ ?q)\<rparr>)"
    "put_byte 7 (ucast size0) (?t\<lparr>DescBuff := Some (dev[2 := lo, 3 := hi] @ ?q)\<rparr>) = Some (?t\<lparr>DescBuff := Some (?dev @ ?q)\<rparr>)"
    by (subst put_byte_first; use b r in simp)+
  have t: "set_desc_table (?t\<lparr>DescBuff := Some (?dev @ ?q)\<rparr>) ?s0 = with_tree ?dev cs ?s0"
    by (simp add: with_tree_def)
  have "desc_ok ?dev" using r by (auto simp: desc_ok_def table_holds_def DEVICE_def CONFIGURATION_def INTERFACE_def ENDPOINT_def)
  then have h: "table_holds (Table (Desc (with_tree ?dev ([] @ cs) ?s0))) ?dev ([] @ cs)"
    using r unfolding table_holds_with by (simp add: table_holds_def)
  have n: "numbered (unat (NumEndpoints hw)) cs" "sizes_known (Eps (Desc ?s0))" using r by simp_all
  have "unat (GetNumConfigurations ?t) = length cs" using r n by (simp add: numbered_def unat_of_nat_8)
  then have "all_configs hw (resize_ep fit) (with_tree ?dev cs ?s0) = Some (at_speed lo hi size0 fit dev cs s)"
    using each_config_resizes [OF h n(2), of hw fit] n
    by (simp add: all_configs_def at_speed_def numbered_def del: upt_Suc)
  then show ?thesis using e dd p t by (simp add: configure_speed_def Let_def del: add_2_eq_Suc')
qed

end
