(* ===== verification/UsbControlProps.thy ===== *)
theory UsbControlProps imports UsbControl UsbDescProps UsbCoreProps begin

text \<open>
  Control transfers: what a host that sends a request and takes the packets of endpoint 0 gets, and
  what a host that sends more than the buffers hold can do.
\<close>

unbundle bit_operations_syntax

section \<open>Endpoint 0\<close>

text \<open>The endpoint 0 the core writes to, its packet size, and its state during a transfer.\<close>

definition ep0_ready :: "usb_dev \<Rightarrow> nat \<Rightarrow> u16 \<Rightarrow> bool" where
  "ep0_ready d i m \<longleftrightarrow>
     GetEndPointIndex d 0 DIR_IN = Some i \<and> EndPoint d \<noteq> [] \<and> MaxPacketSize (EndPoint d ! 0) = m \<and>
     MaxPacketSize (EndPoint d ! i) = m \<and> m \<noteq> 0"

definition tx0 :: "nat \<Rightarrow> u8 list option \<Rightarrow> u32 \<Rightarrow> bool \<Rightarrow> u32 \<Rightarrow> bool \<Rightarrow> u8 list list \<Rightarrow> usb_dev \<Rightarrow> usb_dev" where
  "tx0 i buf len z pos ready ps d =
     d\<lparr>EndPoint := (EndPoint d)[i := tx_at buf len z pos ready (EndPoint d ! i)], BlockingSend := False,
       wire := wire d @ map (Pair 0) ps\<rparr>"

lemma ep0_range: "ep0_ready d i m \<Longrightarrow> i < length (EndPoint d)"
  by (auto simp: ep0_ready_def GetEndPointIndex_def dest!: ep_index_range)

lemma tx0_index: "ep0_ready d i m \<Longrightarrow> GetEndPointIndex (tx0 i buf len z pos ready ps d) 0 DIR_IN = Some i"
  using ep0_range by (simp add: ep0_ready_def GetEndPointIndex_def tx0_def tx_at_def ep_index_update)

lemma tx0_endpoint [simp]:
  "i < length (EndPoint d) \<Longrightarrow> EndPoint (tx0 i buf len z pos ready ps d) ! i = tx_at buf len z pos ready (EndPoint d ! i)"
  by (simp add: tx0_def)

lemma tx0_wire [simp]: "wire (tx0 i buf len z pos ready ps d) = wire d @ map (Pair 0) ps"
  and tx0_stalls [simp]: "stalls (tx0 i buf len z pos ready ps d) = stalls d"
  and tx0_cfg [simp]: "CfgIndex (tx0 i buf len z pos ready ps d) = CfgIndex d"
  by (simp_all add: tx0_def)

lemma tx0_ready: "ep0_ready d i m \<Longrightarrow> ep0_ready (tx0 i buf len z pos ready ps d) i m"
  using tx0_index [of d i m] ep0_range [of d i m] by (auto simp: ep0_ready_def tx0_def nth_list_update)

lemma tx0_first:
  "ep0_ready d i m \<Longrightarrow> \<exists>e. arr_get (EndPoint (tx0 i buf len z pos ready ps d)) 0 = Some e \<and> MaxPacketSize e = m"
  using tx0_ready [of d i m] by (auto simp: ep0_ready_def arr_get_def)

lemma tx0_set: "i < length (EndPoint d) \<Longrightarrow>
   set_ep i (tx_at buf2 len2 z2 pos2 ready2 (EndPoint d ! i)) (tx0 i buf len z pos ready ps d)
   = tx0 i buf2 len2 z2 pos2 ready2 ps d"
  by (simp add: set_ep_def tx0_def)

lemma tx0_write: "unat n = length q \<Longrightarrow> length q < 65536 \<Longrightarrow>
   UsbHwWrite 0 q n (tx0 i buf len z pos ready ps d) = tx0 i buf len z pos ready (ps @ [q]) d"
  by (simp add: UsbHwWrite_def tx0_def unsigned_ucast_eq take_bit_nat_eq_self)

lemma tx0_max [simp]: "max_size (tx0 i buf len z pos ready ps d) 0 e = ucast (MaxPacketSize e)"
  by (simp add: max_size_def)

lemma load_tx0: "i < length (EndPoint d) \<Longrightarrow>
   (set_ep i (load_ep buf len z (EndPoint (tx0 i buf0 len0 z0 pos0 ready0 ps d) ! i)) (tx0 i buf0 len0 z0 pos0 ready0 ps d))
     \<lparr>BlockingSend := False\<rparr> = tx0 i buf len z 0 False ps d"
  by (simp add: set_ep_def load_ep_def tx0_def tx_at_def)

lemma unat_ucast_16: "unat (ucast (c :: u16) :: u32) = unat c"
  by (simp add: unsigned_ucast_eq take_bit_nat_eq_self order.strict_trans [OF unsigned_less])

lemma unat_lt_16: "unat (w :: u16) < 65536"
  using unsigned_less [of w, where 'a = nat] by simp

lemma ucast_16_zero: "(ucast (c :: u16) :: u32) = 0 \<longleftrightarrow> c = 0"
  by (metis unat_ucast_16 unsigned_0 unsigned_eq_0_iff)

text \<open>One packet of data, and the packet of no bytes after it.\<close>

lemma send_packet:
  assumes e: "ep0_ready d i m" and c: "c \<noteq> 0" "c \<le> m"
  shows "UsbWriteDataNonBlock 0 (Some b) (ucast c) z (tx0 i buf0 len0 z0 pos0 ready0 ps d) =
    (if unat c \<le> length b
     then Some (0, tx0 i (if c = m \<and> z then Some b else None) (ucast c) z (ucast c) False (ps @ [take (unat c) b]) d)
     else None)"
proof -
  have r: "i < length (EndPoint d)" by (rule ep0_range [OF e])
  have mx: "MaxPacketSize (EndPoint d ! i) = m" using e by (simp add: ep0_ready_def)
  have c32: "(ucast c :: u32) \<noteq> 0" using c(1) by (simp add: ucast_16_zero)
  have le: "(ucast m :: u32) \<le> ucast c \<longleftrightarrow> c = m"
    using c(2) unfolding word_le_nat_alt unat_ucast_16 word_unat_eq_iff by auto
  have lt: "unat c < 65536" using unsigned_less [of c] by simp
  have w: "unat c \<le> length b \<Longrightarrow> UsbHwWrite 0 (take (unat c) b) (ucast c) (tx0 i x len y pos ready ps d)
      = tx0 i x len y pos ready (ps @ [take (unat c) b]) d" for x len y pos ready
    using lt by (intro tx0_write) (simp_all add: unat_ucast_16)
  have sl: "tx_slice (tx_at (Some b) (ucast c) z 0 False (EndPoint d ! i)) (ucast c)
      = (if unat c \<le> length b then Some (take (unat c) b) else None)"
    by (simp add: tx_slice_def unat_ucast_16)
  have "HandleTxData 0 i (tx0 i (Some b) (ucast c) z 0 False ps d) =
    (if unat c \<le> length b
     then Some (tx0 i (if c = m \<and> z then Some b else None) (ucast c) z (ucast c) False (ps @ [take (unat c) b]) d)
     else None)"
  proof (cases "c = m")
    case True
    then show ?thesis using r sl w by (cases z) (simp_all add: HandleTxData_def Let_def mx tx0_set)
  next
    case False
    then show ?thesis using r sl w le c32 by (simp add: HandleTxData_def Let_def mx tx0_set)
  qed
  then show ?thesis using load_tx0 [OF r] by (simp add: UsbWriteDataNonBlock_def tx0_index [OF e])
qed

lemma tx_interrupt_end:
  assumes e: "ep0_ready d i m"
  shows "UsbTxHandler 0 (tx0 i None len z pos ready ps d) = Some (0, tx0 i None len z pos True ps d)"
  using ep0_range [OF e] by (simp add: UsbTxHandler_def tx0_index [OF e] tx0_set)

lemma tx_interrupt_zero:
  assumes e: "ep0_ready d i m"
  shows "UsbTxHandler 0 (tx0 i (Some b) len True len False ps d) = Some (1, tx0 i None len True len False (ps @ [[]]) d)"
proof -
  have r: "i < length (EndPoint d)" by (rule ep0_range [OF e])
  have "\<not> (ucast m :: u32) \<le> 0" using e by (simp add: ep0_ready_def ucast_16_zero)
  then show ?thesis
    using r e tx0_write [of 0 "[]" i None len True len False ps d]
    by (simp add: UsbTxHandler_def tx0_index [OF e] HandleTxData_def Let_def tx0_set ep0_ready_def)
qed

section \<open>The data stage of a request to the host\<close>

text \<open>The device while it sends: endpoint 0 in some state, packets on the wire, and the request.\<close>

definition ep0_sending ::
  "'i usb_ctl \<Rightarrow> usb_dev \<Rightarrow> nat \<Rightarrow> u8 list option \<Rightarrow> u32 \<Rightarrow> bool \<Rightarrow> u32 \<Rightarrow> bool \<Rightarrow> u8 list list \<Rightarrow> device_request \<Rightarrow> 'i usb_ctl" where
  "ep0_sending s d i buf len z pos ready ps r = s\<lparr>InRequest := r, Dev := tx0 i buf len z pos ready ps d\<rparr>"

lemma ep0_sending_sels [simp]:
  "InRequest (ep0_sending s d i buf len z pos ready ps r) = r"
  "Dev (ep0_sending s d i buf len z pos ready ps r) = tx0 i buf len z pos ready ps d"
  "OutRequest (ep0_sending s d i buf len z pos ready ps r) = OutRequest s"
  "hw_calls (ep0_sending s d i buf len z pos ready ps r) = hw_calls s"
  "Desc (ep0_sending s d i buf len z pos ready ps r) = Desc s"
  "IfState (ep0_sending s d i buf len z pos ready ps r) = IfState s"
  by (simp_all add: ep0_sending_def)

lemma ep0_sending_updates [simp]:
  "(ep0_sending s d i buf len z pos ready ps r)\<lparr>InRequest := r2\<rparr> = ep0_sending s d i buf len z pos ready ps r2"
  "(ep0_sending s d i buf len z pos ready ps r)\<lparr>Dev := tx0 i buf2 len2 z2 pos2 ready2 ps2 d\<rparr>
    = ep0_sending s d i buf2 len2 z2 pos2 ready2 ps2 r"
  "(ep0_sending s d i buf len z pos ready ps r)\<lparr>InRequest := r2, Dev := tx0 i buf2 len2 z2 pos2 ready2 ps2 d\<rparr>
    = ep0_sending s d i buf2 len2 z2 pos2 ready2 ps2 r2"
  by (simp_all add: ep0_sending_def)

definition next_size :: "u16 \<Rightarrow> device_request \<Rightarrow> u16" where
  "next_size m r = (if wLength r - ReqDataLen r > m then m else wLength r - ReqDataLen r)"

lemma send_next:
  assumes e: "ep0_ready d i m" and l: "ReqDataLen r < wLength r" and c: "c = next_size m r"
    and z: "z \<longleftrightarrow> ReqDataLen r + c = wLength r \<and> wLength r < wLengthOrig r"
  shows "SendPendingEP0Data hw (ep0_sending s d i buf len z0 pos ready ps r) =
    (if unat c \<le> length (ReqData r) - unat (ReqDataLen r)
     then Some (0, ep0_sending s d i (if c = m \<and> z then Some (drop (unat (ReqDataLen r)) (ReqData r)) else None) (ucast c)
       (c = m \<and> z) (ucast c) False
       (ps @ [take (unat c) (drop (unat (ReqDataLen r)) (ReqData r))]) (r\<lparr>ReqDataLen := ReqDataLen r + c\<rparr>))
     else None)"
proof -
  obtain e0 where e0: "arr_get (EndPoint (tx0 i buf len z0 pos ready ps d)) 0 = Some e0" "MaxPacketSize e0 = m"
    using tx0_first [OF e] by blast
  have w0: "wLength r \<noteq> 0" using l by auto
  have left: "wLength r - ReqDataLen r \<noteq> 0" "unat (wLength r - ReqDataLen r) = unat (wLength r) - unat (ReqDataLen r)"
    using l by (auto simp: word_less_nat_alt unat_sub_if_size)
  have c0: "c \<noteq> 0" "c \<le> m" using c left e by (auto simp: next_size_def ep0_ready_def not_less)
  have cl: "unat c \<le> unat (wLength r) - unat (ReqDataLen r)"
    using c left(2) by (auto simp: next_size_def word_less_nat_alt)
  have sum: "unat (ReqDataLen r + c) = unat (ReqDataLen r) + unat c"
    using cl l unat_lt_16 [of "wLength r"] by (subst unat_add_lem [THEN iffD1]) (auto simp: word_less_nat_alt)
  have done_: "wLength r \<le> ReqDataLen r + c \<longleftrightarrow> ReqDataLen r + c = wLength r"
    using cl l sum by (auto simp: word_le_nat_alt word_less_nat_alt word_unat_eq_iff)
  have zz: "(wLength r \<le> ReqDataLen r + c \<and> c = m \<and> wLength r < wLengthOrig r) \<longleftrightarrow> c = m \<and> z"
    using z done_ by auto
  have nl: "\<not> wLength r \<le> ReqDataLen r" using l by simp
  let ?S = "ep0_sending s d i buf len z0 pos ready ps r"
  have "SendPendingEP0Data hw ?S =
    do { (ret, d') \<leftarrow> UsbWriteDataNonBlock 0 (Some (drop (unat (ReqDataLen r)) (ReqData r))) (ucast c) (c = m \<and> z)
           (tx0 i buf len z0 pos ready ps d);
         Some (0, ?S\<lparr>InRequest := r\<lparr>ReqDataLen := ReqDataLen r + c\<rparr>, Dev := d'\<rparr>) }"
    unfolding SendPendingEP0Data_def ep0_sending_sels e0 bind.bind_lunit Let_def next_size_def [symmetric]
    using e0(2) w0 nl zz by (simp add: next_size_def [symmetric] c [symmetric] del: ep0_sending_updates)
  then show ?thesis
    unfolding send_packet [OF e c0, of "drop (unat (ReqDataLen r)) (ReqData r)" "c = m \<and> z" buf len z0 pos ready ps]
    by simp
qed

lemma send_done:
  assumes "ep0_ready d i m" "wLength r \<le> ReqDataLen r" "wLength r \<noteq> 0"
  shows "SendPendingEP0Data hw (ep0_sending s d i buf len z pos ready ps r) =
    map_option (Pair 1) (UsbCompleteRequest hw r (ep0_sending s d i buf len z pos ready ps r))"
  using tx0_first [OF assms(1), of buf len z pos ready ps] assms by (auto simp: SendPendingEP0Data_def)

lemma interrupt_end:
  assumes "ep0_ready d i m"
  shows "UsbTxHandler0 hw (ep0_sending s d i None len z pos ready ps r) =
    map_option (\<lambda>(x, s1). (0, s1)) (SendPendingEP0Data hw (ep0_sending s d i None len z pos True ps r))"
  using tx_interrupt_end [OF assms, of len z pos ready ps] by (simp add: UsbTxHandler0_def)

lemma interrupt_zero:
  assumes "ep0_ready d i m"
  shows "UsbTxHandler0 hw (ep0_sending s d i (Some b) len True len False ps r) =
    Some (1, ep0_sending s d i None len True len False (ps @ [[]]) r)"
  using tx_interrupt_zero [OF assms, of b len ps] by (simp add: UsbTxHandler0_def)

lemma takes0_end:
  assumes "ep0_ready d i m"
  shows "takes0 (Suc n) hw (ep0_sending s d i None len z pos ready ps r) =
    do { (x, s1) \<leftarrow> SendPendingEP0Data hw (ep0_sending s d i None len z pos True ps r); takes0 n hw s1 }"
  by (simp add: interrupt_end [OF assms] bind_map_option comp_def case_prod_unfold)

text \<open>What is left of the data, and the whole stage: the packets, one interrupt for each, and the completion.\<close>

definition data_left :: "device_request \<Rightarrow> u8 list" where
  "data_left r = take (unat (wLength r) - unat (ReqDataLen r)) (drop (unat (ReqDataLen r)) (ReqData r))"

lemma data_left_length: "unat (wLength r) \<le> length (ReqData r) \<Longrightarrow> length (data_left r) = unat (wLength r) - unat (ReqDataLen r)"
  by (simp add: data_left_def)

lemma usb_packets_empty: "0 < m \<Longrightarrow> usb_packets m True [] = [[]]"
  by (rule usb_packets_last) auto

lemma data_stage:
  assumes e: "ep0_ready d i m"
  shows "ReqDataLen r < wLength r \<Longrightarrow> unat (wLength r) \<le> length (ReqData r) \<Longrightarrow>
    pk = usb_packets (unat m) (wLength r < wLengthOrig r) (data_left r) \<Longrightarrow>
    \<exists>len z2 pos. do { (x, s1) \<leftarrow> SendPendingEP0Data hw (ep0_sending s d i buf len0 z0 pos0 ready ps r); takes0 (length pk) hw s1 }
      = UsbCompleteRequest hw (r\<lparr>ReqDataLen := wLength r\<rparr>)
          (ep0_sending s d i None len z2 pos True (ps @ pk) (r\<lparr>ReqDataLen := wLength r\<rparr>))"
proof (induction "unat (wLength r) - unat (ReqDataLen r)" arbitrary: r buf len0 z0 pos0 ready ps pk rule: less_induct)
  case less
  let ?L = "unat (wLength r)" and ?p = "unat (ReqDataLen r)" and ?z = "wLength r < wLengthOrig r"
  let ?c = "next_size m r" and ?rest = "data_left r"
  have pl: "?p < ?L" using less.prems(1) by (simp add: word_less_nat_alt)
  have m: "0 < unat m" using e by (simp add: ep0_ready_def unat_gt_0)
  have left: "unat (wLength r - ReqDataLen r) = ?L - ?p" using pl by (simp add: unat_sub_if_size)
  have len: "length ?rest = ?L - ?p" by (rule data_left_length [OF less.prems(2)])
  show ?case
  proof (cases "unat m < ?L - ?p")
    case True
    have c: "?c = m" using True left by (simp add: next_size_def word_less_nat_alt)
    have sum: "unat (ReqDataLen r + m) = ?p + unat m"
      using True unat_lt_16 [of "wLength r"] by (subst unat_add_lem [THEN iffD1]) auto
    let ?r = "r\<lparr>ReqDataLen := ReqDataLen r + m\<rparr>"
    have ne: "ReqDataLen r + m \<noteq> wLength r" using sum True by (auto simp: word_unat_eq_iff)
    have tk: "take (unat m) (drop ?p (ReqData r)) = take (unat m) ?rest" using True by (simp add: data_left_def)
    have dr: "drop (unat m) ?rest = data_left ?r" by (simp add: data_left_def sum drop_take) (simp add: add.commute)
    have st: "SendPendingEP0Data hw (ep0_sending s d i buf len0 z0 pos0 ready ps r) =
        Some (0, ep0_sending s d i None (ucast m) False (ucast m) False (ps @ [take (unat m) ?rest]) ?r)"
      using send_next [OF e less.prems(1) c [symmetric] refl, of hw s buf len0 z0 pos0 ready ps] ne True less.prems(2) tk by simp
    have pk: "pk = take (unat m) ?rest # usb_packets (unat m) ?z (data_left ?r)"
      unfolding less.prems(3) dr [symmetric] by (rule usb_packets_more) (use m len True in auto)
    have "\<exists>len z2 pos. do { (x, s1) \<leftarrow> SendPendingEP0Data hw (ep0_sending s d i None (ucast m) False (ucast m) True (ps @ [take (unat m) ?rest]) ?r);
          takes0 (length (usb_packets (unat m) ?z (data_left ?r))) hw s1 }
      = UsbCompleteRequest hw (?r\<lparr>ReqDataLen := wLength ?r\<rparr>)
          (ep0_sending s d i None len z2 pos True ((ps @ [take (unat m) ?rest]) @ usb_packets (unat m) ?z (data_left ?r))
            (?r\<lparr>ReqDataLen := wLength ?r\<rparr>))"
      by (rule less.hyps) (use sum True m less.prems(2) in \<open>auto simp: word_less_nat_alt\<close>)
    then show ?thesis unfolding st pk by (simp add: takes0_end [OF e, simplified])
  next
    case False
    have c: "?c = wLength r - ReqDataLen r" using False left by (simp add: next_size_def word_less_nat_alt)
    let ?r = "r\<lparr>ReqDataLen := wLength r\<rparr>"
    have sum: "ReqDataLen r + (wLength r - ReqDataLen r) = wLength r" by simp
    have tk: "take (unat (wLength r - ReqDataLen r)) (drop ?p (ReqData r)) = ?rest" by (simp add: data_left_def left)
    have cm: "wLength r - ReqDataLen r = m \<longleftrightarrow> unat m = ?L - ?p" using left by (auto simp: word_unat_eq_iff)
    have st: "SendPendingEP0Data hw (ep0_sending s d i buf len0 z0 pos0 ready ps r) =
        Some (0, ep0_sending s d i (if unat m = ?L - ?p \<and> ?z then Some (drop ?p (ReqData r)) else None) (ucast (wLength r - ReqDataLen r))
          (unat m = ?L - ?p \<and> ?z) (ucast (wLength r - ReqDataLen r)) False (ps @ [?rest]) ?r)"
      using send_next [OF e less.prems(1) c [symmetric] refl, of hw s buf len0 z0 pos0 ready ps] less.prems(2) left
      unfolding tk sum cm by (simp add: conj_commute)
    have fin: "\<And>len z2 pos ps2. SendPendingEP0Data hw (ep0_sending s d i None len z2 pos True ps2 ?r) =
        map_option (Pair 1) (UsbCompleteRequest hw ?r (ep0_sending s d i None len z2 pos True ps2 ?r))"
      by (rule send_done [OF e]) (use less.prems(1) in auto)
    show ?thesis
    proof (cases "unat m = ?L - ?p \<and> ?z")
      case True
      have "pk = [?rest, []]"
        unfolding less.prems(3) using True len m usb_packets_more [of "unat m" ?rest ?z] usb_packets_empty [OF m] by simp
      then show ?thesis
        unfolding st using True by (intro exI) (simp add: interrupt_zero [OF e] interrupt_end [OF e] fin bind_map_option
          option.map_comp comp_def case_prod_unfold)
    next
      case z: False
      then have zF: "(unat m = ?L - ?p \<and> ?z) = False" by simp
      have "pk = [?rest]"
        unfolding less.prems(3) by (rule usb_packets_last [OF m]) (use len pl False z in auto)
      then show ?thesis
        unfolding st [unfolded zF if_False] by (intro exI) (simp add: interrupt_end [OF e] fin bind_map_option
          option.map_comp comp_def case_prod_unfold)
    qed
  qed
qed

text \<open>The first packet is sent whatever the endpoint was doing.\<close>

lemma tx0_self:
  "i < length (EndPoint d) \<Longrightarrow>
   d\<lparr>BlockingSend := False\<rparr> = tx0 i (TxData (EndPoint d ! i)) (TxDataLen (EndPoint d ! i)) (TxZeroLenPkt (EndPoint d ! i))
     (TxDataPos (EndPoint d ! i)) (TxReady (EndPoint d ! i)) [] d"
  by (simp add: tx0_def tx_at_def)

lemma send_start:
  assumes e: "ep0_ready (Dev s) i m" and l: "ReqDataLen (InRequest s) < wLength (InRequest s)"
  shows "\<exists>buf len z pos ready. SendPendingEP0Data hw s = SendPendingEP0Data hw (ep0_sending s (Dev s) i buf len z pos ready [] (InRequest s))"
proof -
  have r: "i < length (EndPoint (Dev s))" by (rule ep0_range [OF e])
  have w: "UsbWriteDataNonBlock 0 b len z (Dev s) = UsbWriteDataNonBlock 0 b len z ((Dev s)\<lparr>BlockingSend := False\<rparr>)" for b len z
    using e by (simp add: UsbWriteDataNonBlock_def GetEndPointIndex_def set_ep_def ep0_ready_def)
  have nl: "\<not> wLength (InRequest s) \<le> ReqDataLen (InRequest s)" using l by simp
  have "SendPendingEP0Data hw s = SendPendingEP0Data hw (s\<lparr>InRequest := InRequest s, Dev := (Dev s)\<lparr>BlockingSend := False\<rparr>\<rparr>)"
    using l nl e unfolding SendPendingEP0Data_def w
    by (cases "EndPoint (Dev s)") (auto simp: Let_def arr_get_def ep0_ready_def)
  then show ?thesis unfolding tx0_self [OF r] ep0_sending_def by blast
qed

text \<open>A request to the host that is granted, with data.\<close>

definition setup_in :: "u8 list \<Rightarrow> 'i usb_ctl \<Rightarrow> device_request" where
  "setup_in bs s = (load_setup bs (InRequest s))\<lparr>wLengthOrig := le16_at bs 6, ReqStatus := 1\<rparr>"

definition is_setup_in :: "u8 list \<Rightarrow> bool" where
  "is_setup_in bs \<longleftrightarrow> 8 \<le> length bs \<and> bs ! 0 AND REQ_DEVICE2HOST \<noteq> 0"

definition completed :: "usb_hw \<Rightarrow> device_request \<Rightarrow> hw_call list" where
  "completed hw r = (if HasCompleteRequest hw then [HwCompleteRequest (ReqStatus r) (wLength r) (bmRequestType r)] else [])"

definition data_sent :: "usb_hw \<Rightarrow> nat \<Rightarrow> u16 \<Rightarrow> u8 list list \<Rightarrow> device_request \<Rightarrow> 'i usb_ctl \<Rightarrow> 'i usb_ctl \<Rightarrow> bool" where
  "data_sent hw i m pk r s s2 \<longleftrightarrow>
     wire (Dev s2) = wire (Dev s) @ map (Pair 0) pk \<and> stalls (Dev s2) = stalls (Dev s) \<and>
     hw_calls s2 = hw_calls s @ completed hw r \<and> ep0_ready (Dev s2) i m \<and>
     TxData (EndPoint (Dev s2) ! i) = None \<and> TxReady (EndPoint (Dev s2) ! i)"

lemma control_in_exact:
  assumes e: "ep0_ready (Dev s) i m" and bs: "is_setup_in bs"
    and p: "ProcessSetup hw (setup_in bs s) s = Some (r, s)" and st: "ReqStatus r = 0"
    and t: "bmRequestType r = bs ! 0"
    and n: "wLength r \<noteq> 0" "unat (wLength r) \<le> length (ReqData r)"
    and pk: "pk = usb_packets (unat m) (wLength r < wLengthOrig r) (take (unat (wLength r)) (ReqData r))"
  shows "\<exists>s2. do { s1 \<leftarrow> UsbRxHandler0 hw bs len True s; takes0 (length pk) hw s1 } = Some s2 \<and>
    data_sent hw i m pk r s s2"
proof -
  let ?r = "r\<lparr>ReqDataLen := 0\<rparr>" and ?rf = "r\<lparr>ReqDataLen := wLength r\<rparr>"
  let ?s = "s\<lparr>InRequest := ?r\<rparr>"
  have l: "ReqDataLen ?r < wLength ?r" using n(1) by (simp add: word_neq_0_conv)
  have rx: "UsbRxHandler0 hw bs len True s = map_option snd (SendPendingEP0Data hw ?s)"
    using bs p st by (simp add: UsbRxHandler0_def is_setup_in_def rx_setup_in_def setup_in_def Let_def load_setup_def)
  obtain buf len0 z pos ready where
    s0: "SendPendingEP0Data hw ?s = SendPendingEP0Data hw (ep0_sending ?s (Dev s) i buf len0 z pos ready [] ?r)"
    using send_start [of ?s i m hw] e l by auto
  have dl: "pk = usb_packets (unat m) (wLength ?r < wLengthOrig ?r) (data_left ?r)"
    using pk by (simp add: data_left_def)
  obtain len1 z1 pos1 where run: "do { (x, s1) \<leftarrow> SendPendingEP0Data hw (ep0_sending ?s (Dev s) i buf len0 z pos ready [] ?r);
        takes0 (length pk) hw s1 }
      = UsbCompleteRequest hw ?rf (ep0_sending ?s (Dev s) i None len1 z1 pos1 True pk ?rf)"
    using data_stage [OF e l _ dl, of hw ?s buf len0 z pos ready "[]"] n(2) by auto
  let ?f = "ep0_sending ?s (Dev s) i None len1 z1 pos1 True pk ?rf"
  have d2h: "bmRequestType r AND REQ_DEVICE2HOST \<noteq> 0" using t bs by (simp add: is_setup_in_def)
  have "\<exists>s2. UsbCompleteRequest hw ?rf ?f = Some s2 \<and> Dev s2 = Dev ?f \<and> hw_calls s2 = hw_calls s @ completed hw r"
    using st n(1) d2h by (simp add: UsbCompleteRequest_def completed_def call_hw_def)
  then obtain s2 where s2: "UsbCompleteRequest hw ?rf ?f = Some s2" "Dev s2 = Dev ?f" "hw_calls s2 = hw_calls s @ completed hw r"
    by blast
  have "do { s1 \<leftarrow> UsbRxHandler0 hw bs len True s; takes0 (length pk) hw s1 } = Some s2"
    using run s2(1) unfolding rx s0 by (simp add: bind_map_option comp_def case_prod_unfold)
  then show ?thesis
    using s2 tx0_ready [OF e] ep0_range [OF e] by (intro exI [of _ s2]) (simp add: data_sent_def)
qed

section \<open>Descriptors\<close>

text \<open>A request for \<open>w\<close> bytes of a descriptor of the device; the host may fill in any index word.\<close>

definition get_descriptor :: "u8 \<Rightarrow> u8 \<Rightarrow> u8 \<Rightarrow> u8 \<Rightarrow> u16 \<Rightarrow> u8 list" where
  "get_descriptor ty index x y w = [0x80, GET_DESCRIPTOR, index, ty, x, y, ucast w, ucast (drop_bit 8 w)]"

lemma drop_low_byte: "drop_bit 8 (ucast (a :: u8) OR push_bit 8 (ucast (b :: u8)) :: u16) = ucast b"
proof (rule bit_word_eqI)
  fix n
  assume "n < LENGTH(16)"
  moreover have "\<not> bit a (8 + n)" using bit_imp_le_length [of a "8 + n"] by auto
  ultimately show "bit (drop_bit 8 (ucast a OR push_bit 8 (ucast b) :: u16)) n \<longleftrightarrow> bit (ucast b :: u16) n"
    by (simp add: bit_drop_bit_eq bit_or_iff bit_push_bit_iff bit_ucast_iff) (auto dest: bit_imp_le_length)
qed

lemma get_descriptor_words:
  "is_setup_in (get_descriptor ty index x y w)" "le16_at (get_descriptor ty index x y w) 6 = w"
  "drop_bit 8 (le16_at (get_descriptor ty index x y w) 2) = ucast ty"
  "ucast (le16_at (get_descriptor ty index x y w) 2 AND 0xFF) = index"
proof -
  show "is_setup_in (get_descriptor ty index x y w)"
    by (simp add: is_setup_in_def get_descriptor_def REQ_DEVICE2HOST_def)
  show "le16_at (get_descriptor ty index x y w) 6 = w"
    by (rule bit_word_eqI) (auto simp: le16_at_def get_descriptor_def bit_simps)
  show "drop_bit 8 (le16_at (get_descriptor ty index x y w) 2) = ucast ty"
    using drop_low_byte [of index ty] by (simp add: le16_at_def get_descriptor_def)
  show "ucast (le16_at (get_descriptor ty index x y w) 2 AND 0xFF) = index"
    by (rule byte_eqI) (simp_all add: le16_at_def get_descriptor_def bit_simps)
qed

lemma get_descriptor_setup:
  "bmRequestType (setup_in (get_descriptor ty index x y w) s) = 0x80"
  "bRequest (setup_in (get_descriptor ty index x y w) s) = GET_DESCRIPTOR"
  "wLength (setup_in (get_descriptor ty index x y w) s) = w"
  "wLengthOrig (setup_in (get_descriptor ty index x y w) s) = w"
  "ReqData (setup_in (get_descriptor ty index x y w) s) = ReqData (InRequest s)"
  "drop_bit 8 (wValue (setup_in (get_descriptor ty index x y w) s)) = ucast ty"
  "ucast (wValue (setup_in (get_descriptor ty index x y w) s) AND 0xFF) = index"
  using get_descriptor_words [of ty index x y w] by (simp_all add: setup_in_def load_setup_def) (simp_all add: get_descriptor_def)

text \<open>What the host gets of a buffer: as much as it asks for.\<close>

definition sends_descriptor :: "usb_hw \<Rightarrow> nat \<Rightarrow> u16 \<Rightarrow> u8 list \<Rightarrow> u16 \<Rightarrow> u8 list \<Rightarrow> 'i usb_ctl \<Rightarrow> 'i usb_ctl \<Rightarrow> bool" where
  "sends_descriptor hw i m bs w b s s2 \<longleftrightarrow>
     (\<exists>pk r. do { s1 \<leftarrow> UsbRxHandler0 hw bs 8 True s; takes0 (length pk) hw s1 } = Some s2 \<and>
        data_sent hw i m pk r s s2 \<and> ReqStatus r = 0 \<and> concat pk = take (unat w) b \<and>
        packet_shape (unat m) (length b < unat w) pk)"

lemma get_descriptor_sends:
  assumes e: "ep0_ready (Dev s) i m" and w: "w \<noteq> 0"
    and d: "descriptor_of hw (setup_in (get_descriptor ty index x y w) s) (Table (Desc s)) = Some (Some (Some (b @ q), of_nat (length b)))"
    and n: "b \<noteq> []" "length b \<le> length (ReqData (InRequest s))" "length b < 65536"
  shows "\<exists>s2. sends_descriptor hw i m (get_descriptor ty index x y w) w b s s2"
proof -
  let ?bs = "get_descriptor ty index x y w"
  let ?req = "setup_in ?bs s" 
  define n' :: u16 where "n' = (if w < of_nat (length b) then w else of_nat (length b))"
  have nb: "unat (of_nat (length b) :: u16) = length b" using n(3) by (simp add: unat_of_nat take_bit_nat_eq_self)
  have len: "unat n' = min (unat w) (length b)" by (simp add: n'_def word_less_nat_alt nb min_def)
  have pos: "0 < min (unat w) (length b)" using w n(1) by (simp add: unat_gt_0)
  have len0: "n' \<noteq> 0"
  proof
    assume "n' = 0"
    then have "unat n' = 0" by (simp only: unsigned_0)
    then show False using pos unfolding len by linarith
  qed
  let ?data = "take (unat n') (b @ q) @ drop (unat n') (ReqData (InRequest s))"
  let ?r = "?req\<lparr>ReqStatus := 0, ReqData := ?data, wLength := n'\<rparr>"
  note su = get_descriptor_setup [of ty index x y w s]
  have mc: "memcpy_at (ReqData ?req) 0 (b @ q) (unat n') = Some ?data"
    using n(2) len by (simp add: memcpy_at_def su min_le_iff_disj)
  have pd: "put_data (Some (b @ q)) (unat n') (?req\<lparr>ReqStatus := 0\<rparr>) = Some (?req\<lparr>ReqStatus := 0, ReqData := ?data\<rparr>)"
    using mc len0 by (simp add: put_data_def unsigned_eq_0_iff del: take_append)
  have masks: "REQ_TYPE_MASK 0x80 = REQ_STANDARD" "REQ_RECIP_MASK 0x80 \<noteq> REQ_INTERFACE"
    by (simp_all add: REQ_TYPE_MASK_def REQ_STANDARD_def REQ_RECIP_MASK_def REQ_INTERFACE_def)
  have gd: "ProcessGetDescriptor hw ?req s =
      map_option (\<lambda>r1. (r1\<lparr>wLength := n'\<rparr>, s)) (put_data (Some (b @ q)) (unat n') (?req\<lparr>ReqStatus := 0\<rparr>))"
    unfolding n'_def using d by (simp add: ProcessGetDescriptor_def su masks Let_def)
  have ps: "ProcessSetup hw ?req s = Some (?r, s)"
    unfolding ProcessSetup_def ProcessStandardRequest_def Let_def su masks gd pd
    by (simp add: GET_STATUS_def SET_ADDRESS_def GET_DESCRIPTOR_def)
  let ?pk = "usb_packets (unat m) (wLength ?r < wLengthOrig ?r) (take (unat (wLength ?r)) (ReqData ?r))"
  have td: "take (unat (wLength ?r)) (ReqData ?r) = take (unat w) b" using len by (simp add: min_def)
  have lt: "wLength ?r < wLengthOrig ?r \<longleftrightarrow> length b < unat w"
    using len by (auto simp: su word_less_nat_alt)
  have m: "0 < unat m" using e by (simp add: ep0_ready_def unat_gt_0)
  have ne: "take (unat w) b \<noteq> [] \<or> length b < unat w" using pos by auto
  have "\<exists>s2. do { s1 \<leftarrow> UsbRxHandler0 hw ?bs 8 True s; takes0 (length ?pk) hw s1 } = Some s2 \<and> data_sent hw i m ?pk ?r s s2"
  proof (rule control_in_exact [OF e get_descriptor_words(1) ps])
    show "bmRequestType ?r = ?bs ! 0" using su(1) by (simp add: get_descriptor_def)
    show "unat (wLength ?r) \<le> length (ReqData ?r)" using len n(2) by simp
    show "wLength ?r \<noteq> 0" using len0 by simp
  qed simp_all
  then obtain s2 where "do { s1 \<leftarrow> UsbRxHandler0 hw ?bs 8 True s; takes0 (length ?pk) hw s1 } = Some s2"
    "data_sent hw i m ?pk ?r s s2" by blast
  moreover have "concat ?pk = take (unat w) b \<and> packet_shape (unat m) (length b < unat w) ?pk"
    unfolding td lt by (rule usb_packets_spec [OF m ne])
  moreover have "ReqStatus ?r = 0" by simp
  ultimately show ?thesis unfolding sends_descriptor_def by blast
qed

end
