(* ===== verification/UsbRequests.thy ===== *)
theory UsbRequests imports UsbControlProps begin

text \<open>
  The properties of the descriptors and of endpoint 0: the searches in the table of descriptors, what
  the host gets when it asks for a descriptor, and what requests with lengths of the host's choice do.
\<close>

unbundle bit_operations_syntax

section \<open>A sample device\<close>

text \<open>One mass storage interface with a bulk endpoint in each direction, built into a table.\<close>

definition sample_device_desc :: "u8 list" where
  "sample_device_desc = [18, 1, 0x10, 1, 0, 0, 0, 64, 0x6B, 4, 1, 0xFF, 0, 1, 0, 0, 0, 1]"

definition sample_tree :: "cfg_tree list" where
  "sample_tree = [([9, 2, 32, 0, 1, 1, 0, 0xC0, 0],
     [([9, 4, 0, 0, 2, 8, 6, 0x50, 0], [], [[7, 5, 0x81, 2, 64, 0, 0], [7, 5, 2, 2, 64, 0, 0]])])]"

definition sample_table :: desc_table where
  "sample_table = initial_table\<lparr>DescBuff := Some (sample_device_desc @ concat (tree_descs sample_tree)), DescSize := 50,
     UsedSize := 50, NextCfgId := 2\<rparr>"

lemmas sample_tree_defs = sample_tree_def tree_descs_def cfg_descs_def if_descs_def

lemma sample_table_holds: "table_holds sample_table sample_device_desc sample_tree"
  by (simp add: table_holds_def sample_table_def sample_device_desc_def sample_tree_defs cfg_ok_def if_ok_def desc_ok_def
      initial_table_def CONFIGURATION_def INTERFACE_def ENDPOINT_def)

definition sample_ep0 :: "u8 \<Rightarrow> endpoint" where
  "sample_ep0 dir = \<lparr>EpUsed = True, EpNum = 0, Dir = dir, Enabled = False, Interface = 0, MaxPacketSize = 64, FifoSize = 128,
     RxData = Some (replicate 1024 0), RxDataLen = 0, TxData = None, TxDataLen = 0, TxDataPos = 0, TxZeroLenPkt = False,
     TxReady = True\<rparr>"

definition sample_request :: device_request where
  "sample_request = \<lparr>bmRequestType = 0, bRequest = 0, wValue = 0, wIndex = 0, wLength = 0, ReqStatus = 0,
     ReqData = replicate 1024 0, ReqDataLen = 0, wLengthOrig = 0\<rparr>"

definition sample_desc :: "('h, 'e, 'd) usb_desc" where
  "sample_desc = \<lparr>Table = sample_table, Eps = \<lparr>ep_configs = [], num_eps = 0, epnumbuf = []\<rparr>,
     Inter = replicate 8 no_interface, OsString = replicate 18 0, ExtProp = replicate 76 0\<rparr>"

definition sample_ctl :: "'i \<Rightarrow> 'i usb_ctl" where
  "sample_ctl x = \<lparr>Dev = \<lparr>EndPoint = [sample_ep0 DIR_OUT, sample_ep0 DIR_IN], CfgIndex = 1, Suspend = False,
       BlockingSend = False, IsDevHid = False, EpMultipleDMASupport = False, EpMultipleDMASize = 0, wire = [], stalls = []\<rparr>,
     InRequest = sample_request, OutRequest = sample_request, RemoteWakeup = 0, Desc = sample_desc, hw_calls = [], IfState = x\<rparr>"

definition sample_hw :: usb_hw where
  "sample_hw = \<lparr>IsThisHUBDevice = False, EP0Size = 64, NumEndpoints = 21, HasCompleteRequest = True, HasRemoteWakeup = True,
     HasEnableEp = True, hw_ep_status = (\<lambda>cs ep dir. Some 0), hw_wakeup = (\<lambda>cs. 0)\<rparr>"

definition sample_bot :: bot_sys where
  "sample_bot = \<lparr>udev = Dev (sample_ctl ()), mass = None, WakeupFlag = False, dpc = False, DataInEp = 1, MaxLUN = 3, video = None\<rparr>"

lemma sample_ctl_ep0: "ep0_ready (Dev (sample_ctl x)) (Suc 0) 64"
  by (simp add: ep0_ready_def sample_ctl_def sample_ep0_def GetEndPointIndex_def DIR_IN_def DIR_OUT_def CONFIGURABLE_def)

section \<open>Searches\<close>

lemma find_interface_tree:
  assumes "table_holds t dev cs"
  shows "\<exists>r. find_interface t cfg num dir ks = Some r \<and>
    map_option fst r = find (\<lambda>k. lookup_ep cs cfg (of_nat k) num dir \<noteq> None) ks"
proof (induction ks)
  case (Cons k ks)
  obtain r where r: "GetEndpointDesc t cfg (of_nat k) num dir = Some r"
    "case lookup_ep cs cfg (of_nat k) num dir of None \<Rightarrow> r = None
     | Some e \<Rightarrow> \<exists>j ds. r = Some j \<and> desc_pos t (e # ds) = j \<and> table_ends t (e # ds)"
    using GetEndpointDesc_tree [OF assms, of cfg "of_nat k" num dir] by blast
  then show ?case using Cons by (cases "lookup_ep cs cfg (of_nat k) num dir") auto
qed simp

text \<open>
  C19. The searches of the descriptors are those in the tree the table was built from: \<open>GetEndpointDesc\<close>
  finds the bytes of the first endpoint with the number and the direction, of the first interface with
  the number, of the first configuration with the number, or nothing when there is no such; the size of
  a configuration is that of all its descriptors; and \<open>GetInterface\<close> is the first interface number
  below \<open>bNumInterfaces\<close> that has the endpoint, or 0xFF. They stay inside the table and end.
\<close>

theorem descriptor_searches:
  assumes "table_holds t dev cs"
  shows "(case lookup_ep cs cfg ifn num dir of
        None \<Rightarrow> GetEndpointDesc t cfg ifn num dir = Some None
      | Some e \<Rightarrow> \<exists>j q. GetEndpointDesc t cfg ifn num dir = Some (Some j) \<and> at_index t (Some j) = Some (e @ q)) \<and>
    GetConfigDescSize t cfg = Some (case find_config cfg cs of None \<Rightarrow> 0 | Some c \<Rightarrow> of_nat (length (concat (cfg_descs c)))) \<and>
    GetInterface t cfg num dir =
      Some (case find (\<lambda>k. lookup_ep cs cfg (of_nat k) num dir \<noteq> None) [0..<num_ifs cfg cs] of
              None \<Rightarrow> 0xFF | Some k \<Rightarrow> of_nat k)"
proof (intro conjI)
  obtain r where r: "GetEndpointDesc t cfg ifn num dir = Some r"
    "case lookup_ep cs cfg ifn num dir of None \<Rightarrow> r = None
     | Some e \<Rightarrow> \<exists>j ds. r = Some j \<and> desc_pos t (e # ds) = j \<and> table_ends t (e # ds)"
    using GetEndpointDesc_tree [OF assms] by blast
  have "table_ends t (e # ds) \<Longrightarrow> at_index t (Some (desc_pos t (e # ds))) = Some (e @ concat ds)" for e ds
    using desc_at [of t "[e]" ds] by simp
  then show "case lookup_ep cs cfg ifn num dir of
        None \<Rightarrow> GetEndpointDesc t cfg ifn num dir = Some None
      | Some e \<Rightarrow> \<exists>j q. GetEndpointDesc t cfg ifn num dir = Some (Some j) \<and> at_index t (Some j) = Some (e @ q)"
    using r by (cases "lookup_ep cs cfg ifn num dir") auto
  show "GetConfigDescSize t cfg = Some (case find_config cfg cs of None \<Rightarrow> 0 | Some c \<Rightarrow> of_nat (length (concat (cfg_descs c))))"
    by (rule GetConfigDescSize_tree [OF assms])
  obtain n where n: "GetNumInterfaces t cfg = Some n" "unat n = num_ifs cfg cs"
    using GetNumInterfaces_tree [OF assms] by blast
  obtain f where f: "find_interface t cfg num dir [0..<num_ifs cfg cs] = Some f"
    "map_option fst f = find (\<lambda>k. lookup_ep cs cfg (of_nat k) num dir \<noteq> None) [0..<num_ifs cfg cs]"
    using find_interface_tree [OF assms] by blast
  show "GetInterface t cfg num dir =
      Some (case find (\<lambda>k. lookup_ep cs cfg (of_nat k) num dir \<noteq> None) [0..<num_ifs cfg cs] of
              None \<Rightarrow> 0xFF | Some k \<Rightarrow> of_nat k)"
    unfolding GetInterface_def over_interfaces_def n f(2) [symmetric] using n f(1) by (cases f) auto
qed

theorem descriptor_searches_witness:
  "(\<exists>j q. GetEndpointDesc sample_table 1 0 1 DIR_IN = Some (Some j) \<and>
      at_index sample_table (Some j) = Some ([7, 5, 0x81, 2, 64, 0, 0] @ q)) \<and>
   GetInterface sample_table 1 1 DIR_IN = Some 0 \<and> GetInterface sample_table 1 3 DIR_IN = Some 0xFF \<and>
   GetConfigDescSize sample_table 1 = Some 32"
  using descriptor_searches [OF sample_table_holds, of 1 0 1 DIR_IN] descriptor_searches [OF sample_table_holds, of 1 0 3 DIR_IN]
  by (simp add: lookup_ep_def find_config_def find_if_def find_ep_def num_ifs_def sample_tree_defs ep_matches_def DIR_IN_def)

section \<open>Descriptors for the host\<close>

lemma configuration_sends:
  assumes "table_holds (Table (Desc s)) dev cs" "find_config (index + 1) cs = Some c"
    "ep0_ready (Dev s) i m" "length (ReqData (InRequest s)) = 1024" "length (concat (cfg_descs c)) \<le> 1024" "w \<noteq> 0"
  shows "\<exists>s2. sends_descriptor hw i m (get_descriptor 2 index x y w) w (concat (cfg_descs c)) s s2"
proof -
  let ?t = "Table (Desc s)"
  obtain cs2 where c: "configs_from (index + 1) cs = c # cs2"
    using assms(2) by (auto simp: find_config_from split: list.splits)
  have ok: "cfg_ok c" using configs_from_ok [of cs "index + 1"] assms(1) c by (simp add: table_holds_def)
  note g = GetConfigDesc_tree [OF assms(1), of "index + 1", unfolded c tree_descs_simps]
  have d: "at_index ?t (Some (desc_pos ?t (cfg_descs c @ tree_descs cs2))) = Some (concat (cfg_descs c) @ concat (tree_descs cs2))"
    by (rule desc_at [OF g(2)])
  have ne: "concat (cfg_descs c) \<noteq> []" using ok desc_ok_nonempty by (auto simp: cfg_descs_def cfg_ok_def)
  have des: "descriptor_of hw (setup_in (get_descriptor 2 index x y w) s) ?t =
      Some (Some (Some (concat (cfg_descs c) @ concat (tree_descs cs2)), of_nat (length (concat (cfg_descs c)))))"
    using GetConfigDescSize_tree [OF assms(1), of "index + 1"] assms(2) g(1) d
    by (simp add: descriptor_of_def Let_def get_descriptor_setup DESC_DEVICE_def DESC_DEVICE_QUALIFIER_def DESC_CONFIGURATION_def)
  show ?thesis
    by (rule get_descriptor_sends [OF assms(3,6) des ne]) (use assms(4,5) in simp_all)
qed

text \<open>
  C8. A host that asks for a configuration descriptor gets it: with a table of well-formed descriptors
  and room in the request, the request for \<open>w\<close> bytes puts the first \<open>w\<close> bytes of the configuration's
  descriptors on the wire, all of them when \<open>w\<close> is larger, in full packets of the size of endpoint 0 and a
  last one, which is short, possibly of no bytes, exactly when the host asked for more than there is. Each
  packet goes out after the interrupt for the one before; after the last the request is completed, once,
  without an error, no endpoint is stalled, and endpoint 0 is idle.
\<close>

theorem get_configuration_descriptor:
  assumes "table_holds (Table (Desc s)) dev cs" "find_config (index + 1) cs = Some c"
    "ep0_ready (Dev s) i m" "length (ReqData (InRequest s)) = 1024" "length (concat (cfg_descs c)) \<le> 1024" "w \<noteq> 0"
  shows "\<exists>s2. sends_descriptor hw i m (get_descriptor 2 index x y w) w (concat (cfg_descs c)) s s2"
  by (rule configuration_sends [OF assms])

theorem get_configuration_descriptor_witness:
  "\<exists>s2. sends_descriptor sample_hw (Suc 0) 64 (get_descriptor 2 0 0 0 255) 255 (concat (cfg_descs (hd sample_tree)))
     (sample_ctl ()) s2"
proof (rule get_configuration_descriptor [where dev = sample_device_desc and cs = sample_tree])
  show "table_holds (Table (Desc (sample_ctl ()))) sample_device_desc sample_tree"
    using sample_table_holds by (simp add: sample_ctl_def sample_desc_def)
  show "find_config (0 + 1) sample_tree = Some (hd sample_tree)" by (simp add: find_config_def sample_tree_def)
  show "length (concat (cfg_descs (hd sample_tree))) \<le> 1024" by (simp add: sample_tree_defs)
  show "length (ReqData (InRequest (sample_ctl ()))) = 1024" by (simp add: sample_ctl_def sample_request_def)
qed (simp_all add: sample_ctl_ep0)

section \<open>Strings\<close>

text \<open>What a host reads from a string descriptor: the low bytes of the 16-bit characters behind the header.\<close>

fun host_text :: "u8 list \<Rightarrow> u8 list" where
  "host_text (lo # hi # bs) = lo # host_text bs"
| "host_text bs = []"

lemma host_text_widen: "host_text (widen cs @ bs) = cs @ host_text bs"
  by (induction cs) simp_all

lemma widen_length [simp]: "length (widen cs) = 2 * length cs"
  by (induction cs) simp_all

lemma ucast_of_nat_16_8: "(ucast (of_nat n :: u16) :: u8) = of_nat n"
  by (rule bit_word_eqI) (simp add: bit_simps)

lemma ucast_of_nat_small: "n < 256 \<Longrightarrow> (ucast (of_nat n :: u8) :: u16) = of_nat n"
  by (intro word_unat_eq_iff [THEN iffD2]) (simp add: unsigned_ucast_eq unat_of_nat take_bit_nat_eq_self)

lemma string_of_request:
  assumes "length str \<le> 125" "AddStringDescriptor True str d = Some (k, d1)" "n = 2 * length str + 4"
  shows "GetStringDescriptor (Table d1) k = Some (Some ([of_nat n, STRING] @ widen str @ [0, 0]), of_nat n)"
proof -
  have u: "unat (of_nat n :: u16) = n" using assms(1,3) by (simp only: unat_of_nat) (simp add: take_bit_nat_eq_self)
  have n: "(length str + 1) * 2 + 2 = n" using assms(3) by simp
  have c: "ConvertAsciizToUniCode True str = Some (Some ([of_nat n, STRING] @ widen str @ [0, 0]), of_nat n)"
    unfolding ConvertAsciizToUniCode_def n Let_def u assms(3) [symmetric] by (simp add: ucast_of_nat_16_8)
  have "(ucast (ucast (of_nat n :: u16) :: u8) :: u16) = of_nat n"
    unfolding ucast_of_nat_16_8 by (rule ucast_of_nat_small) (use assms(1,3) in simp)
  then show ?thesis
    using assms(2) c
    by (auto simp: AddStringDescriptor_def add_string_def store_string_def Let_def Option.bind_eq_Some_conv arr_set_Some_iff
        set_table_def GetStringDescriptor_def arr_get_def)
qed

lemma other_strings:
  assumes "AddStringDescriptor True str d = Some (k, d1)" "j \<noteq> k"
  shows "GetStringDescriptor (Table d1) j = GetStringDescriptor (Table d) j"
  using assms
  by (auto simp: AddStringDescriptor_def add_string_def store_string_def Let_def Option.bind_eq_Some_conv arr_set_Some_iff
      set_table_def GetStringDescriptor_def arr_get_def nth_list_update word_unat_eq_iff [symmetric] split: option.splits if_splits)

text \<open>
  C28. A string of at most 125 characters that a device module adds is what the host reads under the index the
  call returned, and the string under every other index is the one it was before: when the host asks for 255 bytes of the string descriptor it gets one whose first byte is
  its length and whose characters are those of the string, followed by a zero character: the terminator
  of the C string is sent as if it belonged to the text.
\<close>

theorem string_descriptor_roundtrip:
  assumes "AddStringDescriptor True str (Desc s) = Some (k, d)" "length str \<le> 125"
    "ep0_ready (Dev s) i m" "length (ReqData (InRequest s)) = 1024"
  shows "\<exists>s2 b. sends_descriptor hw i m (get_descriptor 3 k x y 255) 255 b (s\<lparr>Desc := d\<rparr>) s2 \<and>
    unat (b ! 0) = length b \<and> b ! 1 = STRING \<and> host_text (drop 2 b) = str @ [0] \<and>
    (\<forall>j. j \<noteq> k \<longrightarrow> GetStringDescriptor (Table d) j = GetStringDescriptor (Table (Desc s)) j)"
proof -
  define n where "n = 2 * length str + 4"
  let ?b = "[of_nat n, STRING] @ widen str @ [0, 0]" and ?s = "s\<lparr>Desc := d\<rparr>"
  have l: "length ?b = n" "n < 256" using assms(2) by (simp_all add: n_def)
  have des: "descriptor_of hw (setup_in (get_descriptor 3 k x y 255) ?s) (Table (Desc ?s)) = Some (Some (Some (?b @ []), of_nat (length ?b)))"
    using string_of_request [OF assms(2,1) n_def] unfolding l(1)
    by (simp add: descriptor_of_def Let_def get_descriptor_setup DESC_DEVICE_def DESC_DEVICE_QUALIFIER_def
        DESC_CONFIGURATION_def DESC_STRING_def)
  have "\<exists>s2. sends_descriptor hw i m (get_descriptor 3 k x y 255) 255 ?b ?s s2"
    by (rule get_descriptor_sends [OF _ _ des]) (use assms in simp_all)
  then obtain s2 where "sends_descriptor hw i m (get_descriptor 3 k x y 255) 255 ?b ?s s2" ..
  moreover have "unat (?b ! 0) = length ?b"
    using l(2) unfolding l(1) by (simp add: unat_of_nat take_bit_nat_eq_self)
  moreover have "?b ! 1 = STRING" by simp
  moreover have "host_text (drop 2 ?b) = str @ [0]" by (simp add: host_text_widen)
  moreover note other_strings [OF assms(1)]
  ultimately show ?thesis by blast
qed

theorem string_descriptor_roundtrip_witness:
  "\<exists>k d s2 b. AddStringDescriptor True [0x48, 0x69] (Desc (sample_ctl ())) = Some (k, d) \<and>
     sends_descriptor sample_hw (Suc 0) 64 (get_descriptor 3 k 9 4 255) 255 b (sample_ctl ()\<lparr>Desc := d\<rparr>) s2 \<and>
     host_text (drop 2 b) = [0x48, 0x69, 0]"
proof -
  obtain k d where "AddStringDescriptor True [0x48, 0x69] (Desc (sample_ctl ())) = Some (k, d)"
    by (simp add: AddStringDescriptor_def add_string_def ConvertAsciizToUniCode_def store_string_def sample_ctl_def
        sample_desc_def sample_table_def initial_table_def arr_set_def)
  moreover from this obtain s2 b where
    "sends_descriptor sample_hw (Suc 0) 64 (get_descriptor 3 k 9 4 255) 255 b (sample_ctl ()\<lparr>Desc := d\<rparr>) s2"
    "host_text (drop 2 b) = [0x48, 0x69] @ [0]"
    using string_descriptor_roundtrip [OF _ _ sample_ctl_ep0, of "[0x48, 0x69]" "()" k d sample_hw 9 4]
    by (auto simp: sample_ctl_def sample_request_def)
  ultimately show ?thesis by auto
qed

section \<open>Data from the host\<close>

definition out_stored :: "nat \<Rightarrow> u8 list \<Rightarrow> device_request \<Rightarrow> device_request" where
  "out_stored n xs r =
     r\<lparr>ReqData := take n (ReqData r) @ xs @ drop (n + length xs) (ReqData r), ReqDataLen := ReqDataLen r + of_nat (length xs)\<rparr>"

lemma out_stored_append:
  assumes "n + length xs \<le> length (ReqData r)"
  shows "out_stored (n + length xs) ys (out_stored n xs r) = out_stored n (xs @ ys) r"
proof -
  have "take (n + length xs) (take n (ReqData r) @ xs @ drop (n + length xs) (ReqData r)) = take n (ReqData r) @ xs"
    using assms by simp
  moreover have "drop (n + length xs + length ys) (take n (ReqData r) @ xs @ drop (n + length xs) (ReqData r))
      = drop (n + length (xs @ ys)) (ReqData r)"
    using assms by (simp add: ac_simps)
  ultimately show ?thesis unfolding out_stored_def by (simp add: add.assoc)
qed

lemma sends0_stores:
  assumes "\<forall>p\<in>set ps. p \<noteq> []" "length (ReqData (OutRequest s)) = 1024" "unat (ReqDataLen (OutRequest s)) = n"
    "n + length (concat ps) < unat (wLength (OutRequest s))"
  shows "sends0 hw ps s =
    (if n + length (concat ps) \<le> 1024 \<or> ps = [] then Some (s\<lparr>OutRequest := out_stored n (concat ps) (OutRequest s)\<rparr>) else None)"
  using assms
proof (induction ps arbitrary: s n)
  case Nil
  then show ?case by (simp add: out_stored_def)
next
  case (Cons p ps)
  let ?r = "OutRequest s"
  let ?L = "unat (wLength ?r)" and ?s = "s\<lparr>OutRequest := out_stored n p ?r\<rparr>"
  have L: "?L < 65536" by (rule unat_lt_16)
  have p: "p \<noteq> []" "n + length p < ?L" using Cons.prems by auto
  have len: "unat (of_nat (length p) :: u32) = length p" "unat (of_nat (length p) :: u16) = length p"
    using p(2) L by (simp_all add: unat_of_nat take_bit_nat_eq_self)
  have left: "unat (ucast (wLength ?r) - ucast (ReqDataLen ?r) :: u32) = ?L - n"
    using p(2) Cons.prems(3) by (simp add: unat_sub_if_size unat_ucast_16)
  have sum: "unat (ReqDataLen ?r + of_nat (length p)) = n + length p"
    using p(2) L len(2) Cons.prems(3) by (subst unat_add_lem [THEN iffD1]) auto
  have c: "(of_nat (length p) :: u32) \<noteq> 0" "wLength ?r \<noteq> 0"
    "(of_nat (length p) :: u32) \<le> ucast (wLength ?r) - ucast (ReqDataLen ?r)"
    using len p by (auto simp: word_le_nat_alt left)
  have u: "(ucast (of_nat (length p) :: u32) :: u16) = of_nat (length p)"
    by (rule bit_word_eqI) (simp add: bit_simps)
  have nc: "\<not> wLength ?r \<le> ReqDataLen ?r + of_nat (length p)" using sum p(2) by (simp add: word_le_nat_alt)
  have rx: "UsbRxHandler0 hw p (of_nat (length p)) False s = (if n + length p \<le> 1024 then Some ?s else None)"
    using c u nc len Cons.prems(2,3) by (simp add: UsbRxHandler0_def rx_data_out_def Let_def memcpy_at_def out_stored_def)
  show ?case
  proof (cases "n + length p \<le> 1024")
    case True
    have o: "OutRequest ?s = out_stored n p ?r" "ReqDataLen (out_stored n p ?r) = ReqDataLen ?r + of_nat (length p)"
      "wLength (out_stored n p ?r) = wLength ?r" "length (ReqData (out_stored n p ?r)) = 1024"
      using True Cons.prems(2) by (simp_all add: out_stored_def)
    have "sends0 hw ps ?s = (if n + length p + length (concat ps) \<le> 1024 \<or> ps = []
        then Some (?s\<lparr>OutRequest := out_stored (n + length p) (concat ps) (OutRequest ?s)\<rparr>) else None)"
      by (rule Cons.IH) (use Cons.prems o sum in auto)
    then show ?thesis using True Cons.prems(2) out_stored_append [of n p ?r "concat ps"]
      by (simp add: rx o add.assoc del: length_concat)
  qed (simp add: rx)
qed

text \<open>
  C37. The data of a request from the host are collected in a buffer of 1024 bytes whose bounds nothing
  checks: after a setup packet of a request with data, whatever it asks for, packets of fewer bytes in
  all than it announced are stored one after the other when they fit, and overrun the buffer otherwise.
  The length the host may announce goes up to 65535.
\<close>

theorem control_out_overrun:
  assumes "8 \<le> length bs" "bs ! 0 AND REQ_DEVICE2HOST = 0" "\<forall>p\<in>set ps. p \<noteq> []"
    "length (concat ps) < unat (le16_at bs 6)" "length (ReqData (OutRequest s)) = 1024"
  shows "\<exists>s1. UsbRxHandler0 hw bs 8 True s = Some s1 \<and>
    (if length (concat ps) \<le> 1024
     then \<exists>s2. sends0 hw ps s1 = Some s2 \<and> take (length (concat ps)) (ReqData (OutRequest s2)) = concat ps
     else sends0 hw ps s1 = None)"
proof -
  let ?r = "(load_setup bs (OutRequest s))\<lparr>ReqStatus := 1, ReqDataLen := 0\<rparr>"
  let ?s = "s\<lparr>OutRequest := ?r\<rparr>"
  have w: "wLength ?r = le16_at bs 6" "le16_at bs 6 \<noteq> 0" using assms(4) by (auto simp: load_setup_def)
  have "UsbRxHandler0 hw bs 8 True s = Some ?s"
    using assms(1,2) w by (simp add: UsbRxHandler0_def rx_setup_out_def Let_def load_setup_def)
  moreover have "sends0 hw ps ?s = (if length (concat ps) \<le> 1024 \<or> ps = []
      then Some (?s\<lparr>OutRequest := out_stored 0 (concat ps) ?r\<rparr>) else None)"
    using sends0_stores [of ps ?s 0 hw] assms(3-5) w by (simp add: load_setup_def del: length_concat)
  ultimately show ?thesis by (auto simp: out_stored_def simp del: length_concat)
qed

theorem control_out_overrun_witness:
  "\<exists>s1. UsbRxHandler0 sample_hw [0x21, 0xFF, 0, 0, 0, 0, 0x00, 0x08] 8 True (sample_ctl ()) = Some s1 \<and>
     sends0 sample_hw (replicate 17 (replicate 64 0xFF)) s1 = None"
proof -
  let ?bs = "[0x21, 0xFF, 0, 0, 0, 0, 0x00, 0x08] :: u8 list" and ?ps = "replicate 17 (replicate 64 0xFF) :: u8 list list"
  have "length (concat ?ps) = 1088" by (simp add: length_concat sum_list_replicate)
  moreover have "length (ReqData (OutRequest (sample_ctl ()))) = 1024" by (simp add: sample_ctl_def sample_request_def)
  ultimately show ?thesis
    using control_out_overrun [of ?bs ?ps "sample_ctl ()" sample_hw] by (simp add: REQ_DEVICE2HOST_def le16_at_def)
qed

end
