(* ===== verification/UsbBuild.thy ===== *)
theory UsbBuild imports UsbMass UsbBusProps UsbRequests begin

text \<open>
  The construction of the descriptors by a device module. \<open>under_way\<close> is the table that holds a list of
  descriptors and a list of strings, with the bytes the allocator left behind them; each operation of the
  construction appends to one of the lists.
\<close>

unbundle bit_operations_syntax

section \<open>A table under construction\<close>

definition string_desc :: "u8 list \<Rightarrow> u8 list" where
  "string_desc str = [of_nat (2 * length str + 4), STRING] @ widen str @ [0, 0]"

definition under_way :: "u8 list list \<Rightarrow> u8 list \<Rightarrow> u8 list list \<Rightarrow> u8 \<Rightarrow> u8 \<Rightarrow> u8 \<Rightarrow> desc_table" where
  "under_way ds junk strs cfg ifn ep =
     \<lparr>DescBuff = Some (concat ds @ junk), DescSize = of_nat (length (concat ds @ junk)), UsedSize = of_nat (length (concat ds)),
      NextStrId = of_nat (length strs + 1), NextCfgId = cfg, NextIfNum = ifn, NextEpNum = ep,
      StringTable = Some LangIdEnglish # map (\<lambda>s. Some (string_desc s)) strs @ replicate (254 - length strs) None,
      StringLen = 4 # map (\<lambda>s. of_nat (2 * length s + 4)) strs @ replicate (254 - length strs) 0\<rparr>"

lemma u16_of_nat:
  assumes "n < 65536"
  shows "unat (of_nat n :: u16) = n" "uint (of_nat n :: u16) = int n"
proof -
  show u: "unat (of_nat n :: u16) = n" using assms by (simp only: unat_of_nat) (simp add: take_bit_nat_eq_self)
  then show "uint (of_nat n :: u16) = int n" by (simp only: uint_nat)
qed

lemma byte_of_widened:
  "LO_BYTE (ucast (b :: u8)) = b" "HI_BYTE (ucast (b :: u8)) = 0"
proof -
  show "LO_BYTE (ucast b) = b" unfolding LO_BYTE_def by (rule bit_word_eqI) (simp add: bit_simps)
  have "drop_bit 8 (ucast b :: u16) = 0"
    by (rule bit_word_eqI) (auto simp: bit_drop_bit_eq bit_ucast_iff dest: bit_imp_le_length)
  then show "HI_BYTE (ucast b) = 0" by (simp add: HI_BYTE_def)
qed

lemma under_way_start:
  assumes "length b = 50"
  shows "CreateDescriptor (Some b) 50 (s\<lparr>Table := initial_table\<rparr>) = (True, s\<lparr>Table := under_way [] b [] 1 0 1\<rparr>)"
  using assms by (simp add: CreateDescriptor_def set_table_def under_way_def initial_table_def)

lemma AddDescriptor_under_way:
  assumes "length d \<le> length junk" "length (concat ds @ junk) < 65536"
  shows "AddDescriptor d (s\<lparr>Table := under_way ds junk strs cfg ifn ep\<rparr>) =
    Some (0, s\<lparr>Table := under_way (ds @ [d]) (drop (length d) junk) strs cfg ifn ep\<rparr>)"
proof -
  have "length (concat ds) < 65536" using assms(2) by (simp del: length_concat)
  note u = u16_of_nat [OF this] u16_of_nat(2) [OF assms(2)]
  have len: "length (concat (ds @ [d]) @ drop (length d) junk) = length (concat ds @ junk)" using assms(1) by (simp del: length_concat)
  have used: "(of_nat (length (concat ds)) :: u16) + of_nat (length d) = of_nat (length (concat (ds @ [d])))" by (simp del: length_concat)
  have new: "take (length (concat ds)) (concat ds @ junk) @ d @ drop (length (concat ds) + length d) (concat ds @ junk) =
      concat (ds @ [d]) @ drop (length d) junk" by (simp del: length_concat)
  have fits: "\<not> int (length d) > int (length (concat ds @ junk)) - int (length (concat ds))"
    "length (concat ds) + length d \<le> length (concat ds @ junk)" using assms(1) by (simp_all del: length_concat)
  show ?thesis
    unfolding AddDescriptor_def Let_def set_table_def under_way_def
    using fits by (simp add: u len used new del: length_concat length_append concat_append of_nat_add take_append drop_append)
qed

lemma short_string:
  assumes "length str \<le> 125"
  shows "ConvertAsciizToUniCode True str = Some (Some (string_desc str), of_nat (2 * length str + 4))"
    "(ucast (of_nat (2 * length str + 4) :: u16) :: u8) = of_nat (2 * length str + 4)"
proof -
  have n: "(length str + 1) * 2 + 2 = 2 * length str + 4" by simp
  have u: "unat (of_nat (2 * length str + 4) :: u16) = 2 * length str + 4"
    using assms by (simp only: unat_of_nat) (simp add: take_bit_nat_eq_self)
  show "ConvertAsciizToUniCode True str = Some (Some (string_desc str), of_nat (2 * length str + 4))"
    unfolding ConvertAsciizToUniCode_def n Let_def u by (simp add: string_desc_def ucast_of_nat_16_8 del: of_nat_add of_nat_mult)
  show "(ucast (of_nat (2 * length str + 4) :: u16) :: u8) = of_nat (2 * length str + 4)" by (rule ucast_of_nat_16_8)
qed

lemma add_string_under_way:
  assumes "length str \<le> 125" "length strs < 253"
  shows "add_string keep True (Some str) (s\<lparr>Table := under_way ds junk strs cfg ifn ep\<rparr>) =
    Some (of_nat (Suc (length strs)), s\<lparr>Table := under_way ds junk (strs @ [str]) cfg ifn ep\<rparr>)"
proof -
  have u: "unat (of_nat (Suc (length strs)) :: u8) = Suc (length strs)"
    using assms(2) by (simp only: unat_of_nat) (simp add: take_bit_nat_eq_self)
  obtain n where n: "254 - length strs = Suc n" "253 - length strs = n" using assms(2) by (cases "254 - length strs") auto
  have len: "length strs + Suc n = 254" using n by simp
  have up: "(a # map f strs @ replicate (Suc n) z)[Suc (length strs) := y] = a # map f strs @ y # replicate n z" for a f z and y :: 'x
    by (simp add: list_update_append)
  have nx: "(of_nat (Suc (length strs)) :: u8) + 1 = of_nat (Suc (Suc (length strs)))" by simp
  have len2: "Suc (length strs) < Suc (Suc (length strs + n))" by simp
  have str: "(if Some (string_desc str) = None \<and> \<not> keep then Some (0, s0) else f s0) = f s0" for s0 :: "('h, 'e, 'd) usb_desc" and f
    by simp
  have fits: "Suc (length strs) < length (a # map f strs @ replicate (Suc n) z)" for a f and z :: 'x using len by simp
  show ?thesis
    unfolding add_string_def store_string_def Let_def under_way_def
    by (simp add: short_string [OF assms(1)] u n arr_set_def set_table_def up fits nx
        del: of_nat_Suc of_nat_add of_nat_mult replicate_Suc list_update.simps)
qed

section \<open>The steps of a module\<close>

definition device_desc :: "u16 \<Rightarrow> u16 \<Rightarrow> u16 \<Rightarrow> u16 \<Rightarrow> u8 \<Rightarrow> u8 \<Rightarrow> u8 \<Rightarrow> u8 \<Rightarrow> u8 list" where
  "device_desc size0 v p r im ip isn cfgs =
     [18, DEVICE, 0x10, 0x01, 0, 0, 0, ucast size0, LO_BYTE v, HI_BYTE v, LO_BYTE p, HI_BYTE p, LO_BYTE r, HI_BYTE r, im, ip, isn, cfgs]"

lemma device_desc_length [simp]: "length (device_desc size0 v p r im ip isn cfgs) = 18"
  by (simp add: device_desc_def)

lemma AddDeviceDesc_under_way:
  assumes "18 \<le> length junk" "length (concat ds @ junk) < 65536" "length a \<le> 125" "length b \<le> 125" "length strs < 252" "ok 0" "ok (Suc 0)"
  shows "AddDeviceDesc ok size0 v p r (Some a) (Some b) False (s\<lparr>Table := under_way ds junk strs cfg ifn ep\<rparr>) =
    Some (0, s\<lparr>Table := under_way (ds @ [device_desc size0 v p r (of_nat (length strs + 1)) (of_nat (length strs + 2)) 0 0])
      (drop 18 junk) (strs @ [a] @ [b]) cfg ifn ep\<rparr>)"
proof -
  have a: "add_string False True (Some a) (s\<lparr>Table := under_way ds junk strs cfg ifn ep\<rparr>) =
      Some (of_nat (Suc (length strs)), s\<lparr>Table := under_way ds junk (strs @ [a]) cfg ifn ep\<rparr>)"
    by (rule add_string_under_way) (use assms in simp_all)
  have b: "add_string False True (Some b) (s\<lparr>Table := under_way ds junk (strs @ [a]) cfg ifn ep\<rparr>) =
      Some (of_nat (Suc (length (strs @ [a]))), s\<lparr>Table := under_way ds junk ((strs @ [a]) @ [b]) cfg ifn ep\<rparr>)"
    by (rule add_string_under_way) (use assms in simp_all)
  have d: "AddDescriptor (device_desc size0 v p r im ip isn c) (s\<lparr>Table := under_way ds junk st cfg ifn ep\<rparr>) =
      Some (0, s\<lparr>Table := under_way (ds @ [device_desc size0 v p r im ip isn c]) (drop 18 junk) st cfg ifn ep\<rparr>)" for st im ip isn c
    using AddDescriptor_under_way [where d = "device_desc size0 v p r im ip isn c" and junk = junk and ds = ds] assms(1,2) by simp
  have n: "add_string True x None s0 = Some (0, s0)" for x s0 by (simp add: add_string_def)
  show ?thesis
    using d by (simp add: AddDeviceDesc_def assms a b n sizeof_DEVICE_DESC_def device_desc_def)
qed

lemma under_way_first:
  assumes "length dev = 18" "dev ! 1 = DEVICE" "length (concat (dev # ds) @ junk) < 65536"
  shows "GetDeviceDesc (under_way (dev # ds) junk strs cfg ifn ep) = Some (Some 0)"
proof -
  have "\<not> (of_nat (length (concat (dev # ds) @ junk)) :: u16) < ucast sizeof_DEVICE_DESC"
    using assms(1) u16_of_nat(1) [OF assms(3)] by (simp add: word_less_nat_alt sizeof_DEVICE_DESC_def del: of_nat_add)
  then show ?thesis
    using assms(1,2) by (simp add: GetDeviceDesc_def under_way_def arr_get_def nth_append)
qed

lemma set_serial_under_way:
  assumes "length dev = 18" "dev ! 1 = DEVICE" "length (concat (dev # ds) @ junk) < 65536" "length tx \<le> 125" "length strs < 253"
  shows "set_serial True tx (s\<lparr>Table := under_way (dev # ds) junk strs cfg ifn ep\<rparr>) =
    Some (0, s\<lparr>Table := under_way (dev[16 := of_nat (Suc (length strs))] # ds) junk (strs @ [tx]) cfg ifn ep\<rparr>)"
proof -
  have p: "put_byte 16 n (under_way (dev # ds) junk st cfg ifn ep) = Some (under_way (dev[16 := n] # ds) junk st cfg ifn ep)" for n st
    using assms(1) by (simp add: put_byte_def under_way_def arr_set_def list_update_append)
  show ?thesis
    using under_way_first [OF assms(1-3)]
    by (simp add: set_serial_def AddStringDescriptor_def p add_string_under_way [OF assms(4,5)])
qed

definition config_desc :: "u8 \<Rightarrow> u8 \<Rightarrow> u8 \<Rightarrow> u8 list" where
  "config_desc n nifs cfg = [9, CONFIGURATION, n, 0, nifs, cfg, 0, SELF_POWERED, 0]"

lemma config_desc_length [simp]: "length (config_desc n nifs cfg) = 9"
  by (simp add: config_desc_def)

definition fresh_eps :: "ep_info \<Rightarrow> ep_info" where
  "fresh_eps x = x\<lparr>epnumbuf := replicate (length (epnumbuf x)) False, ep_configs := unuse (unat (num_eps x)) (ep_configs x)\<rparr>"

lemma AddCfgDesc_under_way:
  assumes "length dev = 18" "dev ! 1 = DEVICE" "length (concat (dev # ds) @ junk) < 65536" "9 \<le> length junk"
  shows "AddCfgDesc nifs False (s\<lparr>Table := under_way (dev # ds) junk strs cfg ifn ep\<rparr>) =
    Some (0, s\<lparr>Eps := fresh_eps (Eps s),
               Table := under_way (dev[17 := dev ! 17 + 1] # ds @ [config_desc (of_nat (length (concat (dev # ds) @ junk) - 18)) nifs cfg])
                         (drop 9 junk) strs (cfg + 1) 0 ep\<rparr>)"
proof -
  let ?d = "config_desc (of_nat (length (concat (dev # ds) @ junk) - 18)) nifs cfg"
  have len: "(ucast (of_nat (length (concat (dev # ds) @ junk)) - ucast sizeof_DEVICE_DESC :: u16) :: u8) =
      of_nat (length (concat (dev # ds) @ junk) - 18)"
  proof -
    have "18 \<le> length (concat (dev # ds) @ junk)" using assms(1) by simp
    then have "(of_nat (length (concat (dev # ds) @ junk)) - ucast sizeof_DEVICE_DESC :: u16) =
        of_nat (length (concat (dev # ds) @ junk) - 18)"
      by (simp add: of_nat_diff sizeof_DEVICE_DESC_def del: length_concat length_append concat.simps)
    then show ?thesis by (simp only: ucast_of_nat_16_8)
  qed
  have up: "(under_way (dev # ds) junk strs cfg ifn ep)\<lparr>NextCfgId := cfg + 1, NextIfNum := 0,
        DescBuff := Some ((concat (dev # ds) @ junk)[17 := dev ! 17 + 1])\<rparr> = under_way (dev[17 := dev ! 17 + 1] # ds) junk strs (cfg + 1) 0 ep"
    using assms(1) by (simp add: under_way_def list_update_append)
  have sw: "s\<lparr>Table := t, Eps := e\<rparr> = s\<lparr>Eps := e, Table := t\<rparr>" for t e by (cases s) simp
  have a: "AddDescriptor ?d (s\<lparr>Eps := fresh_eps (Eps s), Table := under_way (dev[17 := dev ! 17 + 1] # ds) junk strs (cfg + 1) 0 ep\<rparr>) =
      Some (0, s\<lparr>Eps := fresh_eps (Eps s), Table := under_way (dev[17 := dev ! 17 + 1] # ds @ [?d]) (drop 9 junk) strs (cfg + 1) 0 ep\<rparr>)"
    using AddDescriptor_under_way [where d = ?d and junk = junk and ds = "dev[17 := dev ! 17 + 1] # ds" and s = "s\<lparr>Eps := fresh_eps (Eps s)\<rparr>"] assms
    by simp
  have f: "DescBuff (under_way (dev # ds) junk strs cfg ifn ep) = Some (concat (dev # ds) @ junk)"
    "DescSize (under_way (dev # ds) junk strs cfg ifn ep) = of_nat (length (concat (dev # ds) @ junk))"
    "NextCfgId (under_way (dev # ds) junk strs cfg ifn ep) = cfg"
    by (simp_all add: under_way_def)
  have n: "arr_get (concat (dev # ds) @ junk) 17 = Some (dev ! 17)"
    using assms(1) by (simp add: arr_get_def nth_append)
  show ?thesis
    using under_way_first [OF assms(1-3)] a
    unfolding AddCfgDesc_def Let_def fresh_eps_def
    by (simp add: f n len up sw config_desc_def sizeof_CONFIG_DESC_def byte_of_widened
        del: length_concat length_append concat.simps of_nat_add)
qed

definition interface_desc :: "u8 \<Rightarrow> u8 \<Rightarrow> u8 \<Rightarrow> u8 \<Rightarrow> u8 \<Rightarrow> u8 \<Rightarrow> u8 list" where
  "interface_desc n eps cls sub prot i = [9, INTERFACE, n, 0, eps, cls, sub, prot, i]"

lemma interface_desc_length [simp]: "length (interface_desc n eps cls sub prot i) = 9"
  by (simp add: interface_desc_def)

lemma AddInterfaceDesc_under_way:
  assumes "length (concat ds @ junk) < 65536" "9 \<le> length junk" "length a \<le> 125" "length strs < 253" "unat n < length (Inter s)"
  shows "AddInterfaceDesc True eps cls sub prot (Some a) info (s\<lparr>Table := under_way ds junk strs cfg n ep\<rparr>) =
    Some (0, s\<lparr>Inter := (Inter s)[unat n := info],
               Table := under_way (ds @ [interface_desc n eps cls sub prot (of_nat (Suc (length strs)))]) (drop 9 junk) (strs @ [a]) cfg (n + 1) ep\<rparr>)"
proof -
  let ?d = "interface_desc n eps cls sub prot (of_nat (Suc (length strs)))"
  have up: "(under_way ds junk strs cfg n ep)\<lparr>NextIfNum := n + 1\<rparr> = under_way ds junk strs cfg (n + 1) ep"
    "NextIfNum (under_way ds junk strs cfg n ep) = n" by (simp_all add: under_way_def)
  have sw: "s\<lparr>Table := t, Inter := e\<rparr> = s\<lparr>Inter := e, Table := t\<rparr>" for t e by (cases s) simp
  have a: "AddDescriptor ?d (s\<lparr>Inter := (Inter s)[unat n := info], Table := under_way ds junk (strs @ [a]) cfg (n + 1) ep\<rparr>) =
      Some (0, s\<lparr>Inter := (Inter s)[unat n := info], Table := under_way (ds @ [?d]) (drop 9 junk) (strs @ [a]) cfg (n + 1) ep\<rparr>)"
    using AddDescriptor_under_way [where d = ?d and junk = junk and ds = ds and s = "s\<lparr>Inter := (Inter s)[unat n := info]\<rparr>"] assms
    by simp
  show ?thesis
    using a assms(5) unfolding AddInterfaceDesc_def Let_def set_table_def
    by (simp add: up add_string_under_way [OF assms(3,4)] arr_set_def sw interface_desc_def sizeof_INTERFACE_DESC_def
        del: of_nat_Suc)
qed

section \<open>Searches before the table is complete\<close>

text \<open>A search that ends at a descriptor does not see what is behind it.\<close>

context descriptor_look begin

lemma scan_found:
  assumes "list_all desc_ok xs" "desc_ok d" "list_all (\<lambda>x. lk x = Next) xs" "lk d = Found" "length (p @ concat xs) < n"
  shows "desc_scan look (p @ concat xs @ d @ q) n (length p) = Some (True, length (p @ concat xs))"
  using assms
proof (induction xs arbitrary: p)
  case Nil
  then show ?case using look_local [of d p q] by (subst desc_scan.simps) simp
next
  case (Cons x xs)
  have l: "look (p @ x @ concat xs @ d @ q) (length p) = Some Next" "arr_get (p @ x @ concat xs @ d @ q) (length p) = Some (x ! 0)"
    using look_local [of x p "concat xs @ d @ q"] arr_get_len [of x p "concat xs @ d @ q"] Cons.prems by simp_all
  have n: "unat (x ! 0) = length x" using Cons.prems by (simp add: desc_ok_length)
  have "desc_scan look ((p @ x) @ concat xs @ d @ q) n (length (p @ x)) = Some (True, length ((p @ x) @ concat xs))"
    by (rule Cons.IH) (use Cons.prems in simp_all)
  then show ?case using l n Cons.prems(5) by (subst desc_scan.simps) (simp add: add.assoc)
qed

end

lemma GetInterface_first:
  assumes b: "DescBuff t = Some (dev @ c @ i @ concat es @ e @ junk)" "unat (DescSize t) = length (dev @ c @ i @ concat es @ e @ junk)"
    and ok: "desc_ok dev" "desc_ok c" "desc_ok i" "list_all desc_ok es" "desc_ok e"
    and c: "c ! 1 = CONFIGURATION" "c ! 5 = cfg" "c ! 4 \<noteq> 0" and i: "i ! 1 = INTERFACE" "i ! 2 = 0" "i ! 4 \<noteq> 0"
    and es: "list_all (\<lambda>d. d ! 1 = ENDPOINT \<and> \<not> ep_matches num dir (d ! 2)) es" and e: "e ! 1 = ENDPOINT" "ep_matches num dir (e ! 2)"
  shows "GetInterface t cfg num dir = Some 0"
proof -
  let ?b = "dev @ c @ i @ concat es @ e @ junk" and ?n = "length (dev @ c @ i @ concat es @ e @ junk)"
  note len = ok(1,2,3,5) [THEN desc_ok_length(2)]
  have pos: "0 < length dev" "0 < length c" "0 < length i" "0 < length e" using ok desc_ok_nonempty by auto
  have lens: "9 \<le> length c" "9 \<le> length i" "7 \<le> length e" using ok(2,3,5) c(1) i(1) e(1) by (simp_all add: desc_ok_def)
  have f: "arr_get ?b 0 = Some (dev ! 0)" "arr_get ?b (length dev) = Some (c ! 0)" "arr_get ?b (length dev + 4) = Some (c ! 4)"
    "arr_get ?b (length dev + length c) = Some (i ! 0)" "arr_get ?b (length dev + length c + 4) = Some (i ! 4)"
    using arr_get_len [OF ok(1), of "[]" "c @ i @ concat es @ e @ junk"] arr_get_len [OF ok(2), of dev "i @ concat es @ e @ junk"]
      arr_get_middle [of 4 c dev "i @ concat es @ e @ junk"] arr_get_len [OF ok(3), of "dev @ c" "concat es @ e @ junk"]
      arr_get_middle [of 4 i "dev @ c" "concat es @ e @ junk"] lens by simp_all
  have s1: "desc_scan (look_config cfg) ?b ?n (length dev) = Some (True, length dev)"
    using config_look.scan_found [of "[]" c cfg dev ?n "i @ concat es @ e @ junk"] ok c pos by (simp add: lk_config_def)
  have s2: "desc_scan (look_interface 0) ?b ?n (length dev + length c) = Some (True, length dev + length c)"
    using interface_look.scan_found [of "[]" i 0 "dev @ c" ?n "concat es @ e @ junk"] ok i pos by (simp add: lk_interface_def)
  let ?k = "length dev + length c + length i"
  have s3: "desc_scan look_first_endpoint ?b ?n ?k = Some (True, ?k)"
  proof (cases es)
    case Nil
    then show ?thesis using first_endpoint_look.scan_found [of "[]" e "dev @ c @ i" ?n junk] ok e pos
      by (simp add: lk_first_endpoint_def add.assoc)
  next
    case (Cons d ds)
    then have "desc_ok d" "d ! 1 = ENDPOINT" "0 < length d" using ok(4) es desc_ok_nonempty by auto
    then show ?thesis using first_endpoint_look.scan_found [of "[]" d "dev @ c @ i" ?n "concat ds @ e @ junk"] pos
      by (simp add: lk_first_endpoint_def Cons add.assoc)
  qed
  have s4: "desc_scan (look_endpoint num dir) ?b ?n ?k = Some (True, ?k + length (concat es))"
    using endpoint_look.scan_found [of es e num dir "dev @ c @ i" ?n junk] ok es e pos
    by (simp add: lk_endpoint_def list_all_iff add.assoc del: length_concat)
  define B n where "B = ?b" and "n = ?n"
  note ab = b [folded B_def n_def] and f = f [folded B_def] and s = s1 s2 s3 s4
  note s = s [folded B_def n_def]
  have g1: "GetConfigDesc t cfg = Some (Some (length dev))" by (simp add: GetConfigDesc_def ab f len s found_at_def)
  have g2: "GetInterfaceDesc t cfg 0 = Some (Some (length dev + length c))"
    by (simp add: GetInterfaceDesc_def g1 ab f len s found_at_def)
  have g3: "GetFirstEndpointDescIndex t cfg 0 = Some ?k"
    by (simp add: GetFirstEndpointDescIndex_def g2 ab f len s i)
  have g4: "GetEndpointDesc t cfg 0 num dir = Some (Some (?k + length (concat es)))"
    using pos by (simp add: GetEndpointDesc_def g3 ab s found_at_def del: length_concat)
  have g5: "GetNumInterfaces t cfg = Some (c ! 4)" by (simp add: GetNumInterfaces_def g1 desc_field_def ab f)
  obtain m where "unat (c ! 4) = Suc m" using c(3) by (cases "unat (c ! 4)") (auto simp: unsigned_eq_0_iff)
  then have "[0..<unat (c ! 4)] = 0 # [Suc 0..<Suc m]" by (simp only: upt_conv_Cons)
  then show ?thesis by (simp add: GetInterface_def over_interfaces_def g5 g4 del: length_concat)
qed

section \<open>Endpoints\<close>

definition endpoint_desc :: "u8 \<Rightarrow> u8 \<Rightarrow> u16 \<Rightarrow> u8 \<Rightarrow> u8 list" where
  "endpoint_desc a ty sz interval = [7, ENDPOINT, a, ty, LO_BYTE sz, HI_BYTE sz, interval]"

lemma endpoint_desc_length [simp]: "length (endpoint_desc a ty sz interval) = 7"
  by (simp add: endpoint_desc_def)

lemma small_number:
  assumes "unat (num :: u8) < 16"
  shows "num \<in> {0, 1, 2, 3, 4, 5, 6, 7, 8, 9, 10, 11, 12, 13, 14, 15}"
proof -
  have "num \<in> of_nat ` set [0..<16]" using assms by (intro image_eqI [of _ _ "unat num"]) simp_all
  then show ?thesis by (simp add: upt_rec)
qed

lemma address_matches:
  assumes "unat num < 16"
  shows "ep_matches num (drop_bit 7 EP_ADDR_IN) (num OR EP_ADDR_IN)" "ep_matches num (drop_bit 7 0) (num OR 0)"
    "\<not> ep_matches num2 (drop_bit 7 0) (num OR EP_ADDR_IN)"
    "unat ((num OR EP_ADDR_IN) AND 0x0F) = unat num" "unat ((num OR 0) AND 0x0F) = unat num" "num OR EP_ADDR_IN \<noteq> num2 OR 0 \<or> 16 \<le> unat num2"
  using small_number [OF assms] small_number [of num2]
  by (auto simp: ep_matches_def EP_ADDR_IN_def)

lemma AddEndPointDesc_under_way:
  assumes sel: "select_suitable_endpoint dir ty mn mx (Eps s) = Some (num, sz, x)" "num \<noteq> 0xFF"
    and sz: "length (concat ([dev, c, i] @ es) @ junk) < 65536" "7 \<le> length junk"
    and ok: "desc_ok dev" "desc_ok c" "desc_ok i" "list_all desc_ok es"
    and c: "c ! 1 = CONFIGURATION" "c ! 5 = cfg - 1" "c ! 4 \<noteq> 0" and i: "i ! 1 = INTERFACE" "i ! 2 = 0" "i ! 4 \<noteq> 0"
    and es: "list_all (\<lambda>d. d ! 1 = ENDPOINT \<and> \<not> ep_matches num (drop_bit 7 dir) (d ! 2)) es"
    and m: "ep_matches num (drop_bit 7 dir) (num OR dir)" and f: "Inter s = f # fs"
  shows "AddEndPointDesc dir ty mn mx interval data (s\<lparr>Table := under_way ([dev, c, i] @ es) junk strs cfg ifn ep\<rparr>) =
    Some (0, s\<lparr>Eps := x, Inter := set_interface_ep data dir num f # fs,
      Table := under_way ([dev, c, i] @ es @ [endpoint_desc (num OR dir) ty sz interval]) (drop 7 junk) strs cfg ifn num\<rparr>)"
proof -
  let ?e = "endpoint_desc (num OR dir) ty sz interval"
  let ?t = "under_way ([dev, c, i] @ es @ [?e]) (drop 7 junk) strs cfg ifn num"
  have "desc_ok ?e" by (simp add: desc_ok_def endpoint_desc_def ENDPOINT_def CONFIGURATION_def INTERFACE_def)
  moreover have "?e ! 1 = ENDPOINT" "?e ! 2 = num OR dir" by (simp_all add: endpoint_desc_def)
  moreover have tot: "length (dev @ c @ i @ concat es @ ?e @ drop 7 junk) = length (concat ([dev, c, i] @ es) @ junk)"
    using sz(2) by (simp del: length_concat)
  have "DescBuff ?t = Some (dev @ c @ i @ concat es @ ?e @ drop 7 junk)" by (simp add: under_way_def)
  moreover have "unat (DescSize ?t) = length (dev @ c @ i @ concat es @ ?e @ drop 7 junk)"
    using u16_of_nat(1) [OF sz(1)] unfolding tot [symmetric] by (simp add: under_way_def del: length_concat of_nat_add)
  ultimately have g: "GetInterface ?t (cfg - 1) num (drop_bit 7 dir) = Some 0"
    using ok c i es m by (intro GetInterface_first [of ?t dev c i es ?e "drop 7 junk"]) simp_all
  have up: "(under_way ([dev, c, i] @ es) junk strs cfg ifn ep)\<lparr>NextEpNum := num\<rparr> = under_way ([dev, c, i] @ es) junk strs cfg ifn num"
    "NextCfgId ?t = cfg" by (simp_all add: under_way_def)
  have sw: "s\<lparr>Table := t, Eps := x\<rparr> = s\<lparr>Eps := x, Table := t\<rparr>" "s\<lparr>Eps := x, Table := t, Inter := f2\<rparr> = s\<lparr>Eps := x, Inter := f2, Table := t\<rparr>" for t f2
    by (cases s; simp)+
  have a: "AddDescriptor ?e (s\<lparr>Eps := x, Table := under_way ([dev, c, i] @ es) junk strs cfg ifn num\<rparr>) = Some (0, s\<lparr>Eps := x, Table := ?t\<rparr>)"
    using AddDescriptor_under_way [where d = ?e and junk = junk and ds = "[dev, c, i] @ es" and s = "s\<lparr>Eps := x\<rparr>"] sz by simp
  have e: "[sizeof_ENDPOINT_DESC, ENDPOINT, num OR dir, ty, LO_BYTE sz, HI_BYTE sz, interval] = ?e"
    by (simp add: endpoint_desc_def sizeof_ENDPOINT_DESC_def)
  show ?thesis
    using sel unfolding AddEndPointDesc_def Let_def set_table_def
    by (simp add: sw up [simplified] a [simplified] e g [simplified] arr_get_def f)
qed

section \<open>The choice of the endpoints\<close>

text \<open>An endpoint of the hardware that can serve a request for one.\<close>

definition suits :: "u8 \<Rightarrow> u8 \<Rightarrow> u16 \<Rightarrow> ep_config \<Rightarrow> bool" where
  "suits dir ty mn e \<longleftrightarrow>
     \<not> is_ep_used e \<and> (ep_dir e = dir \<or> ep_dir e = CONFIGURABLE) \<and> (ep_type e = ty \<or> ep_type e = CONFIGURABLE) \<and> mn \<le> ep_size e"

lemma select_loop_fails:
  "\<forall>e\<in>set es. \<not> suits dir ty mn e \<Longrightarrow> select_loop dir ty mn mx i es index ep sz = (index, ep)"
  by (induction es arbitrary: i) (auto simp: suits_def)

lemma select_loop_finds:
  "select_loop dir ty mn mx i es index ep sz = (j, n) \<Longrightarrow>
     (\<exists>k<length es. j = i + k \<and> n = ep_num (es ! k) \<and> suits dir ty mn (es ! k)) \<or>
     (j = index \<and> n = ep \<and> (\<forall>e\<in>set es. suits dir ty mn e \<longrightarrow> ep_size e \<le> sz))"
proof (induction es arbitrary: i index ep sz)
  case (Cons e es)
  have later: "(\<exists>k<length (e # es). j = i + k \<and> n = ep_num ((e # es) ! k) \<and> suits dir ty mn ((e # es) ! k))"
    if "\<exists>k<length es. j = Suc i + k \<and> n = ep_num (es ! k) \<and> suits dir ty mn (es ! k)"
  proof -
    from that obtain k where "k < length es" "j = Suc i + k" "n = ep_num (es ! k)" "suits dir ty mn (es ! k)" by blast
    then show ?thesis by (intro exI [of _ "Suc k"]) simp
  qed
  show ?case
  proof (cases "suits dir ty mn e")
    case False
    then have "select_loop dir ty mn mx (Suc i) es index ep sz = (j, n)" using Cons.prems by (auto simp: suits_def split: if_splits)
    from Cons.IH [OF this] show ?thesis using later False by auto
  next
    case True
    then have "\<not> (is_ep_used e \<or> dir \<noteq> ep_dir e \<and> CONFIGURABLE \<noteq> ep_dir e \<or> ty \<noteq> ep_type e \<and> CONFIGURABLE \<noteq> ep_type e \<or> ep_size e < mn)"
      by (auto simp: suits_def)
    then have c: "(if ep_size e = mx then (i, ep_num e)
        else if sz \<ge> ep_size e then select_loop dir ty mn mx (Suc i) es index ep sz
        else select_loop dir ty mn mx (Suc i) es i (ep_num e) (ep_size e)) = (j, n)"
      using Cons.prems by (simp only: select_loop.simps if_False)
    have here: "j = i \<Longrightarrow> n = ep_num e \<Longrightarrow> \<exists>k<length (e # es). j = i + k \<and> n = ep_num ((e # es) ! k) \<and> suits dir ty mn ((e # es) ! k)"
      using True by (intro exI [of _ 0]) simp
    show ?thesis
    proof (cases "ep_size e = mx")
      case False
      show ?thesis
      proof (cases "ep_size e \<le> sz")
        case le: True
        then have "select_loop dir ty mn mx (Suc i) es index ep sz = (j, n)" using c False by (simp only: if_False if_True)
        from Cons.IH [OF this] show ?thesis using later le by auto
      next
        case gt: False
        then have "select_loop dir ty mn mx (Suc i) es i (ep_num e) (ep_size e) = (j, n)" using c False by (simp only: if_False)
        from Cons.IH [OF this] show ?thesis using later here by blast
      qed
    qed (use c here in simp)
  qed
qed auto

definition eps_known :: "ep_info \<Rightarrow> bool" where
  "eps_known x \<longleftrightarrow> unat (num_eps x) \<le> length (ep_configs x) \<and> 16 \<le> length (epnumbuf x) \<and>
     (\<forall>e\<in>set (ep_configs x). 1 \<le> unat (ep_num e) \<and> unat (ep_num e) < 16)"

lemma select_suitable_endpoint_finds:
  assumes "eps_known x" "k < unat (num_eps x)" "suits dir ty mn (ep_configs x ! k)" "mn \<noteq> 0"
  shows "\<exists>j. j < unat (num_eps x) \<and> suits dir ty mn (ep_configs x ! j) \<and>
    select_suitable_endpoint dir ty mn mx x =
      Some (ep_num (ep_configs x ! j), ep_size (ep_configs x ! j),
        x\<lparr>ep_configs := (ep_configs x)[j := use_ep dir (ep_configs x ! j)],
          epnumbuf := (epnumbuf x)[unat (ep_num (ep_configs x ! j)) := True]\<rparr>)"
proof -
  let ?n = "unat (num_eps x)" and ?es = "take (unat (num_eps x)) (ep_configs x)"
  have le: "?n \<le> length (ep_configs x)" using assms(1) by (simp add: eps_known_def)
  obtain j n where jn: "select_loop dir ty mn mx 0 ?es 0 0 0 = (j, n)" by fastforce
  have "\<exists>e\<in>set ?es. suits dir ty mn e" 
  proof
    show "suits dir ty mn (?es ! k)" using assms(2,3) by simp
    show "?es ! k \<in> set ?es" using assms(2) le by (intro nth_mem) simp
  qed
  moreover have "\<not> ep_size e \<le> 0" if "suits dir ty mn e" for e using that assms(4) by (auto simp: suits_def)
  ultimately have j: "j < ?n" "n = ep_num (ep_configs x ! j)" "suits dir ty mn (ep_configs x ! j)"
    using select_loop_finds [OF jn] le by auto
  have "ep_configs x ! j \<in> set (ep_configs x)" using j(1) le by simp
  then have "1 \<le> unat n" "unat n < 16" "16 \<le> length (epnumbuf x)" using assms(1) by (simp_all add: eps_known_def j(2))
  moreover from this have "n \<noteq> 0" by auto
  ultimately show ?thesis
    using j le by (intro exI [of _ j]) (simp add: select_suitable_endpoint_def jn arr_get_def arr_set_def)
qed

end
