(* ===== verification/UsbFaults.thy ===== *)
theory UsbFaults imports UsbBuild begin

text \<open>
  Requests and descriptors that go wrong: a class request that keeps the length the host asked for, the
  data of a request that was refused, and an endpoint that is used up without being used.
\<close>

unbundle bit_operations_syntax

section \<open>More than there is\<close>

text \<open>Full packets from a position on, while neither the data nor the length asked for ends.\<close>

definition full_packets :: "nat \<Rightarrow> nat \<Rightarrow> nat \<Rightarrow> u8 list \<Rightarrow> u8 list list" where
  "full_packets m p n xs = map (\<lambda>k. take m (drop (p + k * m) xs)) [0..<n]"

lemma full_packets_Suc: "full_packets m p (Suc n) xs = take m (drop p xs) # full_packets m (p + m) n xs"
proof -
  have *: "p + m + k * m = p + Suc k * m" for k by simp
  show ?thesis unfolding full_packets_def * by (simp only: upt_conv_Cons zero_less_Suc map_Suc_upt [symmetric] list.map)
      (simp add: comp_def)
qed

lemma concat_full_packets: "p + n * m \<le> length xs \<Longrightarrow> concat (full_packets m p n xs) = take (n * m) (drop p xs)"
proof (induction n arbitrary: p)
  case (Suc n)
  then show ?case by (simp add: full_packets_Suc take_add add.commute)
qed (simp add: full_packets_def)

lemma next_size_full: "unat m \<le> unat (wLength r) - unat (ReqDataLen r) \<Longrightarrow> ReqDataLen r < wLength r \<Longrightarrow> next_size m r = m"
  by (auto simp: next_size_def word_less_nat_alt unat_sub_if_size word_unat_eq_iff)

lemma send_full:
  assumes e: "ep0_ready d i m" and p: "unat (ReqDataLen r) = p" and l: "p + unat m < unat (wLength r)" "p + unat m \<le> length (ReqData r)"
  shows "SendPendingEP0Data hw (ep0_sending s d i buf len z pos ready ps r) =
    Some (0, ep0_sending s d i None (ucast m) False (ucast m) False (ps @ [take (unat m) (drop p (ReqData r))])
      (r\<lparr>ReqDataLen := ReqDataLen r + m\<rparr>))"
    "unat (ReqDataLen r + m) = p + unat m"
proof -
  have lt: "ReqDataLen r < wLength r" using p l(1) by (simp add: word_less_nat_alt)
  have c: "next_size m r = m" by (rule next_size_full [OF _ lt]) (use p l(1) in simp)
  show sum: "unat (ReqDataLen r + m) = p + unat m"
    using p l(1) unat_lt_16 [of "wLength r"] by (subst unat_add_lem [THEN iffD1]) auto
  then have "ReqDataLen r + m \<noteq> wLength r" using l(1) by auto
  then show "SendPendingEP0Data hw (ep0_sending s d i buf len z pos ready ps r) =
    Some (0, ep0_sending s d i None (ucast m) False (ucast m) False (ps @ [take (unat m) (drop p (ReqData r))])
      (r\<lparr>ReqDataLen := ReqDataLen r + m\<rparr>))"
    using send_next [OF e lt c [symmetric] refl, of hw s buf len z pos ready ps] p l(2) by simp
qed

text \<open>The packets go out one by one; the one that does not fit in the data faults.\<close>

lemma send_runs_out:
  assumes e: "ep0_ready d i m"
  shows "unat (ReqDataLen r) = p \<Longrightarrow> p + Suc n * unat m < unat (wLength r) \<Longrightarrow> p + Suc n * unat m \<le> length (ReqData r) \<Longrightarrow>
    do { (x, s1) \<leftarrow> SendPendingEP0Data hw (ep0_sending s d i buf len z pos ready ps r); takes0 n hw s1 } =
    Some (ep0_sending s d i None (ucast m) False (ucast m) False (ps @ full_packets (unat m) p (Suc n) (ReqData r))
      (r\<lparr>ReqDataLen := ReqDataLen r + of_nat (Suc n) * m\<rparr>))"
proof (induction n arbitrary: r p buf len z pos ready ps)
  case 0
  then show ?case using send_full(1) [OF e 0(1), of hw s buf len z pos ready ps] by (simp add: full_packets_def)
next
  case (Suc n)
  let ?r = "r\<lparr>ReqDataLen := ReqDataLen r + m\<rparr>"
  have l: "p + unat m < unat (wLength r)" "p + unat m \<le> length (ReqData r)" using Suc.prems by simp_all
  note st = send_full(1) [OF e Suc.prems(1) l, of hw s buf len z pos ready ps] send_full(2) [OF e Suc.prems(1) l]
  have "do { (x, s1) \<leftarrow> SendPendingEP0Data hw (ep0_sending s d i None (ucast m) False (ucast m) True
        (ps @ [take (unat m) (drop p (ReqData r))]) ?r); takes0 n hw s1 } =
    Some (ep0_sending s d i None (ucast m) False (ucast m) False
      ((ps @ [take (unat m) (drop p (ReqData r))]) @ full_packets (unat m) (p + unat m) (Suc n) (ReqData ?r))
      (?r\<lparr>ReqDataLen := ReqDataLen ?r + of_nat (Suc n) * m\<rparr>))"
    by (rule Suc.IH) (use st(2) Suc.prems in \<open>simp_all add: algebra_simps\<close>)
  then show ?case
    by (simp add: st(1) takes0_end [OF e, simplified] full_packets_Suc [of _ p "Suc n"] algebra_simps)
qed

definition get_max_lun :: "u8 \<Rightarrow> u16 \<Rightarrow> u8 list" where
  "get_max_lun ifn w = [0xA1, 0xFE, 0, 0, ifn, 0, ucast w, ucast (drop_bit 8 w)]"

lemma setup_words:
  "le16_at [a, b, c, d, ifn, 0, ucast w, ucast (drop_bit 8 w)] 6 = w"
  "ucast (le16_at [a, b, c, d, ifn, 0, ucast w, ucast (drop_bit 8 w)] 4) = ifn"
  by (rule bit_word_eqI, auto simp: le16_at_def bit_simps) (rule byte_eqI, simp_all add: le16_at_def bit_simps)

lemma get_max_lun_request:
  assumes h: "GetInterfaceReqHandler hw ifn s = Some (Some bot_req_handler)" and l: "ReqData (InRequest s) \<noteq> []"
  shows "ProcessSetup hw (setup_in (get_max_lun ifn w) s) s =
    Some ((setup_in (get_max_lun ifn w) s)\<lparr>ReqData := MaxLUN (IfState s) # tl (ReqData (InRequest s)), ReqStatus := 0\<rparr>, s)"
proof -
  let ?r = "setup_in (get_max_lun ifn w) s"
  have f: "bmRequestType ?r = 0xA1" "bRequest ?r = 0xFE" "ucast (wIndex ?r) = ifn" "ReqData ?r = ReqData (InRequest s)"
    using setup_words by (simp_all add: setup_in_def load_setup_def get_max_lun_def)
  have t: "REQ_TYPE_MASK 0xA1 = REQ_CLASS" "REQ_CLASS \<noteq> REQ_STANDARD"
    by (simp_all add: REQ_TYPE_MASK_def REQ_CLASS_def REQ_STANDARD_def)
  have b: "BotReqHandler 0xA1 0xFE (IfState s) = (0, Some (MaxLUN (IfState s)))" by (simp add: BotReqHandler_def)
  have u: "(ReqData (InRequest s))[0 := v] = v # tl (ReqData (InRequest s))" for v
    using l by (cases "ReqData (InRequest s)") simp_all
  show ?thesis
    using l by (simp add: ProcessSetup_def Let_def f t ProcessClassRequest_def h bot_req_handler_def b set_byte0_def arr_set_def u)
qed

text \<open>
  C38. A host can read behind the buffer of the control requests: the class requests keep the length the
  host asked for. A GET MAX LUN for more than 1024 bytes to a mass storage interface is granted; the host
  then gets the buffer packet by packet, its first byte set and the others what earlier requests left
  there, and the interrupt after the last full packet reads behind the buffer.
\<close>

theorem max_lun_overread:
  assumes "ep0_ready (Dev s) i m" "length (ReqData (InRequest s)) = 1024" "unat m \<le> 1024"
    "GetInterfaceReqHandler hw ifn s = Some (Some bot_req_handler)" "1024 < unat w"
  shows "\<exists>s1 s2 pk. UsbRxHandler0 hw (get_max_lun ifn w) 8 True s = Some s1 \<and>
    takes0 (1024 div unat m - 1) hw s1 = Some s2 \<and> wire (Dev s2) = wire (Dev s) @ map (Pair 0) pk \<and>
    concat pk = take (1024 div unat m * unat m) (MaxLUN (IfState s) # tl (ReqData (InRequest s))) \<and>
    UsbTxHandler0 hw s2 = None"
proof -
  let ?bs = "get_max_lun ifn w" and ?data = "MaxLUN (IfState s) # tl (ReqData (InRequest s))"
  let ?r = "(setup_in ?bs s)\<lparr>ReqData := ?data, ReqStatus := 0, ReqDataLen := 0\<rparr>"
  let ?s = "s\<lparr>InRequest := ?r\<rparr>"
  define q where "q = 1024 div unat m"
  have m: "0 < unat m" using assms(1) by (simp add: ep0_ready_def unat_gt_0)
  have q: "Suc (q - 1) = q" "q * unat m \<le> 1024" "1024 < q * unat m + unat m"
  proof -
    have "q * unat m + 1024 mod unat m = 1024" by (simp add: q_def)
    then show "q * unat m \<le> 1024" "1024 < q * unat m + unat m" using mod_less_divisor [OF m, of 1024] by linarith+
    show "Suc (q - 1) = q" using m assms(3) by (simp add: q_def div_greater_zero_iff)
  qed
  have r: "wLength ?r = w" "unat (ReqDataLen ?r) = 0" "length (ReqData ?r) = 1024" "wLengthOrig ?r = w"
    using assms(2) setup_words by (simp_all add: setup_in_def load_setup_def get_max_lun_def)
  have ne: "ReqData (InRequest s) \<noteq> []" using assms(2) by auto
  have rx: "UsbRxHandler0 hw ?bs 8 True s = map_option snd (SendPendingEP0Data hw ?s)"
    using get_max_lun_request [OF assms(4) ne, of w]
    by (simp add: UsbRxHandler0_def rx_setup_in_def setup_in_def Let_def load_setup_def get_max_lun_def REQ_DEVICE2HOST_def)
  have l0: "ReqDataLen (InRequest ?s) < wLength (InRequest ?s)" using r assms(5) by (simp add: word_less_nat_alt)
  obtain buf len z pos ready where
    s0: "SendPendingEP0Data hw ?s = SendPendingEP0Data hw (ep0_sending ?s (Dev s) i buf len z pos ready [] ?r)"
    using send_start [OF _ l0, of i m hw] assms(1) by auto
  let ?pk = "full_packets (unat m) 0 q ?data" and ?rq = "?r\<lparr>ReqDataLen := of_nat q * m\<rparr>"
  let ?s2 = "ep0_sending ?s (Dev s) i None (ucast m) False (ucast m) False ?pk ?rq"
  have "0 + Suc (q - 1) * unat m < unat (wLength ?r)" "0 + Suc (q - 1) * unat m \<le> length (ReqData ?r)"
    unfolding q(1) r using q(2) assms(5) by simp_all
  from send_runs_out [OF assms(1) r(2) this, of hw ?s buf len z pos ready "[]"]
  have run: "do { (x, s1) \<leftarrow> SendPendingEP0Data hw (ep0_sending ?s (Dev s) i buf len z pos ready [] ?r); takes0 (q - 1) hw s1 } = Some ?s2"
    unfolding q(1) by simp
  then obtain x s1 where s1: "SendPendingEP0Data hw (ep0_sending ?s (Dev s) i buf len z pos ready [] ?r) = Some (x, s1)"
    "takes0 (q - 1) hw s1 = Some ?s2"
    by (auto simp: Option.bind_eq_Some_conv)
  have "unat (of_nat (q * unat m) :: u16) = q * unat m"
    using q(2) by (simp only: unat_of_nat) (simp add: take_bit_nat_eq_self)
  then have pq: "unat (ReqDataLen ?rq) = q * unat m" by simp
  have lt: "ReqDataLen ?rq < wLength ?rq" using pq q(2) assms(5) r(1) by (simp add: word_less_nat_alt)
  have c: "unat (next_size m ?rq) = min (unat m) (unat w - q * unat m)"
    using lt pq r(1) by (simp add: next_size_def word_less_nat_alt unat_sub_if_size min_def)
  have "1024 - q * unat m < min (unat m) (unat w - q * unat m)" using q assms(5) by linarith
  moreover have "length (ReqData ?rq) = 1024" using r(3) by simp
  ultimately have "\<not> unat (next_size m ?rq) \<le> length (ReqData ?rq) - unat (ReqDataLen ?rq)"
    unfolding c pq by linarith
  then have "SendPendingEP0Data hw (ep0_sending ?s (Dev s) i None (ucast m) False (ucast m) True ?pk ?rq) = None"
    using send_next [OF assms(1) lt refl refl, of hw ?s None "ucast m" False "ucast m" True ?pk] by simp
  then have "UsbTxHandler0 hw ?s2 = None" by (simp add: interrupt_end [OF assms(1)])
  moreover have "concat ?pk = take (q * unat m) ?data"
    using concat_full_packets [of 0 q "unat m" ?data] q(2) assms(2) by simp
  moreover have "UsbRxHandler0 hw ?bs 8 True s = Some s1" unfolding rx s0 s1(1) by simp
  moreover have "wire (Dev ?s2) = wire (Dev s) @ map (Pair 0) ?pk" by simp
  ultimately show ?thesis using s1(2) unfolding q_def by blast
qed

lemma sample_bot_handler:
  "GetInterfaceReqHandler sample_hw 0 (sample_ctl x\<lparr>Desc := sample_desc\<lparr>Inter := [no_interface\<lparr>ClassReqHandler := Some h\<rparr>]\<rparr>\<rparr>)
   = Some (Some h)"
proof -
  obtain n where n: "GetNumInterfaces sample_table 1 = Some n" "unat n = num_ifs 1 sample_tree"
    using GetNumInterfaces_tree [OF sample_table_holds, of 1] by blast
  have "n = 1" using n(2) by (simp add: num_ifs_def find_config_def sample_tree_def word_unat_eq_iff)
  then show ?thesis using n(1)
    by (simp add: GetInterfaceReqHandler_def sample_hw_def sample_ctl_def sample_desc_def arr_get_def)
qed

theorem max_lun_overread_witness:
  "\<exists>s1 s2. UsbRxHandler0 sample_hw (get_max_lun 0 2000) 8 True
       (sample_ctl sample_bot\<lparr>Desc := sample_desc\<lparr>Inter := [no_interface\<lparr>ClassReqHandler := Some bot_req_handler\<rparr>]\<rparr>\<rparr>) = Some s1 \<and>
     takes0 15 sample_hw s1 = Some s2 \<and> UsbTxHandler0 sample_hw s2 = None"
  using max_lun_overread [OF _ _ _ sample_bot_handler, of sample_bot "Suc 0" 64 2000] sample_ctl_ep0 [of sample_bot]
  by (auto simp: sample_ctl_def sample_request_def)

section \<open>The data of a refused request\<close>

definition get_interface :: "u16 \<Rightarrow> u8 list" where
  "get_interface w = [0x81, 0x0A, 0, 0, 0, 0, ucast w, ucast (drop_bit 8 w)]"

definition set_address :: "u8 \<Rightarrow> u8 list" where
  "set_address a = [0x00, SET_ADDRESS, a, 0, 0, 0, 0, 0]"

text \<open>A SET ADDRESS request that is granted, with the completion of the hardware.\<close>

definition granted_address :: "u8 \<Rightarrow> 'i usb_ctl \<Rightarrow> 'i usb_ctl" where
  "granted_address a s = s\<lparr>OutRequest := (load_setup (set_address a) (OutRequest s))\<lparr>ReqStatus := 0\<rparr>,
     hw_calls := hw_calls s @ [HwSetAddr a 1, HwCompleteRequest 0 0 0]\<rparr>"

lemma set_address_granted:
  assumes "HasCompleteRequest hw" "a \<le> 127"
  shows "UsbRxHandler0 hw (set_address a) 8 True s = Some (granted_address a s)"
proof -
  let ?o = "(load_setup (set_address a) (OutRequest s))\<lparr>ReqStatus := 1\<rparr>"
  have o: "bmRequestType ?o = 0" "bRequest ?o = SET_ADDRESS" "wLength ?o = 0" "wIndex ?o = 0" "wValue ?o = ucast a"
    by (simp_all add: load_setup_def set_address_def le16_at_def)
  have a: "\<not> (ucast a :: u16) > 127" "ucast ((ucast a :: u16) AND 0x7F) = a"
  proof -
    show "\<not> (ucast a :: u16) > 127"
      using assms(2) by (simp add: word_less_nat_alt word_le_nat_alt unsigned_ucast_eq take_bit_nat_eq_self order.strict_trans [OF unsigned_less])
    have "unat (drop_bit 7 a) = 0" using assms(2) unfolding unat_drop_bit_eq by (simp add: drop_bit_eq_div word_le_nat_alt)
    then have "\<not> bit a 7" by (simp add: bit_iff_odd_drop_bit unsigned_eq_0_iff)
    then show "ucast ((ucast a :: u16) AND 0x7F) = a" by (intro byte_eqI) (simp_all add: bit_simps)
  qed
  have p2: "ProcessSetup hw ?o (s\<lparr>OutRequest := ?o\<rparr>) = Some (?o\<lparr>ReqStatus := 0\<rparr>, call_hw (HwSetAddr a 1) (s\<lparr>OutRequest := ?o\<rparr>))"
    using o a by (simp add: ProcessSetup_def ProcessStandardRequest_def ProcessSetAddress_def Let_def REQ_TYPE_MASK_def
        REQ_STANDARD_def UsbSetAddr_def) (simp add: GET_STATUS_def SET_ADDRESS_def)
  show ?thesis
    using p2 o assms(1) by (simp add: UsbRxHandler0_def rx_setup_out_def finish_out_def Let_def call_hw_def
        UsbCompleteRequest_def granted_address_def) (simp add: set_address_def REQ_DEVICE2HOST_def)
qed

text \<open>
  C39. A refused request leaves its length behind: the core does not support GET INTERFACE and completes
  the request with an error, but when it does so the request to the host stays pending with the length the
  host asked for. The status packet of the next request without data, here SET ADDRESS, is granted; its
  interrupt then sends a packet of old data of the control buffer that nobody asked for, from where an
  earlier transfer ended.
\<close>

theorem refused_request_leaves_data:
  assumes "ep0_ready (Dev s) i m" "TxData (EndPoint (Dev s) ! i) = None" "HasCompleteRequest hw"
    "length (ReqData (InRequest s)) = 1024" "unat (ReqDataLen (InRequest s)) = p" "p < unat w" "p + unat m \<le> 1024" "a \<le> 127"
  shows "\<exists>s1 s2 s3. UsbRxHandler0 hw (get_interface w) 8 True s = Some s1 \<and>
    hw_calls s1 = hw_calls s @ [HwCompleteRequest 1 w 0x81] \<and>
    UsbRxHandler0 hw (set_address a) 8 True s1 = Some s2 \<and>
    hw_calls s2 = hw_calls s1 @ [HwSetAddr a 1, HwCompleteRequest 0 0 0] \<and> wire (Dev s2) = wire (Dev s) \<and>
    UsbTxHandler0 hw s2 = Some (0, s3) \<and>
    wire (Dev s3) = wire (Dev s) @ [(0, take (min (unat m) (unat w - p)) (drop p (ReqData (InRequest s))))]"
proof -
  let ?r = "setup_in (get_interface w) s"
  have r: "bmRequestType ?r = 0x81" "bRequest ?r = 0x0A" "wLength ?r = w" "ReqDataLen ?r = ReqDataLen (InRequest s)"
    "ReqData ?r = ReqData (InRequest s)" "wLengthOrig ?r = w" "ReqStatus ?r = 1"
    using setup_words by (simp_all add: setup_in_def load_setup_def get_interface_def)
  have p1: "ProcessSetup hw ?r s = Some (?r, s)"
    using r by (simp add: ProcessSetup_def ProcessStandardRequest_def Let_def REQ_TYPE_MASK_def REQ_STANDARD_def GET_STATUS_def
        SET_ADDRESS_def GET_DESCRIPTOR_def SET_CONFIGURATION_def GET_CONFIGURATION_def CLEAR_FEATURE_def SET_FEATURE_def)
  let ?s1 = "call_hw (HwCompleteRequest 1 w 0x81) (s\<lparr>InRequest := ?r\<rparr>)"
  have x1: "UsbRxHandler0 hw (get_interface w) 8 True s = Some ?s1"
    using p1 r assms(3) by (simp add: UsbRxHandler0_def rx_setup_in_def setup_in_def Let_def load_setup_def get_interface_def
        REQ_DEVICE2HOST_def UsbCompleteRequest_def)
  let ?s2 = "granted_address a ?s1"
  have x2: "UsbRxHandler0 hw (set_address a) 8 True ?s1 = Some ?s2" by (rule set_address_granted [OF assms(3,8)])
  let ?d = "set_ep i ((EndPoint (Dev s) ! i)\<lparr>TxReady := True\<rparr>) (Dev s)"
  have "\<exists>s3. UsbTxHandler0 hw ?s2 = Some (0, s3) \<and>
    wire (Dev s3) = wire (Dev s) @ [(0, take (min (unat m) (unat w - p)) (drop p (ReqData (InRequest s))))]"
  proof -
    have i: "i < length (EndPoint (Dev s))" by (rule ep0_range [OF assms(1)])
    have g: "GetEndPointIndex (Dev s) 0 DIR_IN = Some i" using assms(1) by (simp add: ep0_ready_def)
    have e: "ep0_ready ?d i m"
      using assms(1) i by (auto simp: ep0_ready_def set_ep_def GetEndPointIndex_def ep_index_update nth_list_update)
    let ?s3 = "?s2\<lparr>Dev := ?d\<rparr>"
    have t: "UsbTxHandler0 hw ?s2 = map_option (\<lambda>(x, s1). (0, s1)) (SendPendingEP0Data hw ?s3)"
      using g assms(2) by (simp add: UsbTxHandler0_def UsbTxHandler_def call_hw_def granted_address_def)
    have ir: "InRequest ?s3 = ?r" "Dev ?s3 = ?d" by (simp_all add: call_hw_def granted_address_def)
    have lt: "ReqDataLen ?r < wLength ?r" using r assms(5,6) by (simp add: word_less_nat_alt)
    obtain buf len z pos ready where
      s0: "SendPendingEP0Data hw ?s3 = SendPendingEP0Data hw (ep0_sending ?s3 ?d i buf len z pos ready [] ?r)"
      using send_start [of ?s3 i m hw] e lt unfolding ir by blast
    have c: "unat (next_size m ?r) = min (unat m) (unat w - p)"
      using r assms(5,6) by (simp add: next_size_def word_less_nat_alt unat_sub_if_size min_def)
    have ok: "unat (next_size m ?r) \<le> length (ReqData ?r) - unat (ReqDataLen ?r)"
      using r assms(4,5,7) by (simp add: c)
    show ?thesis
      using send_next [OF e lt refl refl, of hw ?s3 buf len z pos ready "[]"] ok
      unfolding t s0 by (simp add: c r assms(5)) (simp add: set_ep_def)
  qed
  then obtain s3 where "UsbTxHandler0 hw ?s2 = Some (0, s3)"
    "wire (Dev s3) = wire (Dev s) @ [(0, take (min (unat m) (unat w - p)) (drop p (ReqData (InRequest s))))]" by blast
  then show ?thesis
    using x1 x2 by (intro exI [of _ ?s1] exI [of _ ?s2] exI [of _ s3]) (simp add: call_hw_def granted_address_def)
qed

theorem refused_request_leaves_data_witness:
  "\<exists>s1 s2 s3. UsbRxHandler0 sample_hw (get_interface 64) 8 True (sample_ctl ()) = Some s1 \<and>
     UsbRxHandler0 sample_hw (set_address 5) 8 True s1 = Some s2 \<and> UsbTxHandler0 sample_hw s2 = Some (0, s3) \<and>
     wire (Dev s3) = [(0, replicate 64 0)]"
proof -
  have s: "TxData (EndPoint (Dev (sample_ctl ())) ! Suc 0) = None" "HasCompleteRequest sample_hw"
    "length (ReqData (InRequest (sample_ctl ()))) = 1024" "unat (ReqDataLen (InRequest (sample_ctl ()))) = 0"
    "ReqData (InRequest (sample_ctl ())) = replicate 1024 0" "wire (Dev (sample_ctl ())) = []"
    by (simp_all add: sample_ctl_def sample_ep0_def sample_request_def sample_hw_def)
  show ?thesis
    using refused_request_leaves_data [OF sample_ctl_ep0 s(1-4), of 64 5] s(5,6) by auto
qed

text \<open>
  While no request to the host has had data since the bus reset, the interrupt for the status packet of a
  granted request is taken for the end of the data of a request, and completed as an error.
\<close>

theorem first_status_packet_is_an_error:
  assumes "ep0_ready (Dev s) i m" "TxData (EndPoint (Dev s) ! i) = None" "HasCompleteRequest hw" "wLength (InRequest s) = 0" "a \<le> 127"
  shows "\<exists>s2 s3. UsbRxHandler0 hw (set_address a) 8 True s = Some s2 \<and>
    hw_calls s2 = hw_calls s @ [HwSetAddr a 1, HwCompleteRequest 0 0 0] \<and> UsbTxHandler0 hw s2 = Some (0, s3) \<and>
    hw_calls s3 = hw_calls s2 @ [HwCompleteRequest 1 0 (bmRequestType (InRequest s))]"
proof -
  have i: "i < length (EndPoint (Dev s))" by (rule ep0_range [OF assms(1)])
  have g: "GetEndPointIndex (Dev s) 0 DIR_IN = Some i" using assms(1) by (simp add: ep0_ready_def)
  obtain y where y: "arr_get ((EndPoint (Dev s))[i := (EndPoint (Dev s) ! i)\<lparr>TxReady := True\<rparr>]) 0 = Some y"
    using i by (simp add: arr_get_def length_greater_0_conv [symmetric] del: length_greater_0_conv)
  have "\<exists>s3. UsbTxHandler0 hw (granted_address a s) = Some (0, s3) \<and>
      hw_calls s3 = hw_calls (granted_address a s) @ [HwCompleteRequest 1 0 (bmRequestType (InRequest s))]"
    using g i assms(2-4) y by (auto simp: UsbTxHandler0_def UsbTxHandler_def granted_address_def SendPendingEP0Data_def set_ep_def
        UsbCompleteRequest_def call_hw_def)
  then show ?thesis using set_address_granted [OF assms(3,5), of s] by (auto simp: granted_address_def)
qed

section \<open>Endpoints that are lost\<close>

text \<open>
  An endpoint is lost when none is suitable: a request for an endpoint that no free one can serve
  fails, but marks the first endpoint of the device as used, whether it was free or not, and fixes its
  direction; no later request of the configuration gets it.
\<close>

theorem failed_selection_takes_first:
  assumes "ep_configs (Eps s) = e # es" "unat (num_eps (Eps s)) \<le> length (e # es)" "epnumbuf (Eps s) \<noteq> []"
    "\<forall>e\<in>set (take (unat (num_eps (Eps s))) (e # es)). \<not> suits dir ty mn e"
  shows "\<exists>s2. AddEndPointDesc dir ty mn mx iv data s = Some (1, s2) \<and> ep_configs (Eps s2) = use_ep dir e # es \<and>
    (\<forall>dir2 ty2 mn2. \<not> suits dir2 ty2 mn2 (use_ep dir e))"
proof -
  have "select_loop dir ty mn mx 0 (take (unat (num_eps (Eps s))) (e # es)) 0 0 0 = (0, 0)"
    by (rule select_loop_fails [OF assms(4)])
  then have "select_suitable_endpoint dir ty mn mx (Eps s) =
      Some (0xFF, ep_size e, (Eps s)\<lparr>ep_configs := use_ep dir e # es, epnumbuf := (epnumbuf (Eps s))[0 := True]\<rparr>)"
    using assms(1-3) by (simp add: select_suitable_endpoint_def arr_get_def arr_set_def)
  then show ?thesis by (simp add: AddEndPointDesc_def set_table_def Let_def suits_def use_ep_def)
qed

definition one_bulk_endpoint :: "('h, 'e, 'd) usb_desc" where
  "one_bulk_endpoint = sample_desc\<lparr>Eps := \<lparr>ep_configs = [\<lparr>ep_num = 1, ep_dir = CONFIGURABLE, ep_size = 64, ep_type = 2,
     is_ep_used = False\<rparr>], num_eps = 1, epnumbuf = replicate 30 False\<rparr>\<rparr>"

theorem failed_selection_takes_first_witness:
  "(\<exists>x. select_suitable_endpoint 0x80 2 64 64 (Eps one_bulk_endpoint) = Some (1, 64, x)) \<and>
   (\<exists>s2. AddEndPointDesc 0x80 3 8 8 1 0 one_bulk_endpoint = Some (1, s2) \<and> \<not> suits 0x80 2 64 (ep_configs (Eps s2) ! 0))"
proof
  show "\<exists>x. select_suitable_endpoint 0x80 2 64 64 (Eps one_bulk_endpoint) = Some (1, 64, x)"
    by (simp add: one_bulk_endpoint_def select_suitable_endpoint_def arr_get_def arr_set_def CONFIGURABLE_def)
  have "\<forall>e\<in>set (take (unat (num_eps (Eps one_bulk_endpoint))) (ep_configs (Eps one_bulk_endpoint))). \<not> suits 0x80 3 8 e"
    by (simp add: one_bulk_endpoint_def suits_def CONFIGURABLE_def)
  then show "\<exists>s2. AddEndPointDesc 0x80 3 8 8 1 0 one_bulk_endpoint = Some (1, s2) \<and> \<not> suits 0x80 2 64 (ep_configs (Eps s2) ! 0)"
    using failed_selection_takes_first [of one_bulk_endpoint _ "[]" "0x80" 3 8 8 1 0]
    by (force simp: one_bulk_endpoint_def)
qed

end
