(* ===== verification/UsbLoops.thy ===== *)
theory UsbLoops imports UsbBusProps UsbCoreProps begin

text \<open>
  The loops over the endpoints of a device that leave its descriptors alone: they return, they change no
  more than the endpoints that are enabled and what is called, and their step is run for every endpoint
  of the tree.
\<close>

unbundle bit_operations_syntax

section \<open>Loops that leave the descriptors alone\<close>

text \<open>What such a step may change: the endpoints that are enabled, and what is called.\<close>

definition quiet :: "'i usb_ctl \<Rightarrow> 'i usb_ctl \<Rightarrow> bool" where
  "quiet s s1 \<longleftrightarrow> Desc s1 = Desc s \<and> IfState s1 = IfState s \<and> InRequest s1 = InRequest s \<and> OutRequest s1 = OutRequest s \<and>
     CfgIndex (Dev s1) = CfgIndex (Dev s) \<and> Suspend (Dev s1) = Suspend (Dev s) \<and> IsDevHid (Dev s1) = IsDevHid (Dev s) \<and>
     map (\<lambda>e. e\<lparr>Enabled := False\<rparr>) (EndPoint (Dev s1)) = map (\<lambda>e. e\<lparr>Enabled := False\<rparr>) (EndPoint (Dev s)) \<and>
     RemoteWakeup s1 = RemoteWakeup s \<and> (\<exists>new. hw_calls s1 = hw_calls s @ new)"

lemma quiet_refl [simp]: "quiet s s"
  by (simp add: quiet_def)

lemma quiet_trans: "quiet s s1 \<Longrightarrow> quiet s1 s2 \<Longrightarrow> quiet s s2"
  by (auto simp: quiet_def)

lemma quiet_desc: "quiet s s1 \<Longrightarrow> Desc s1 = Desc s"
  by (simp add: quiet_def)

lemma quiet_call: "quiet s (call_hw c s)"
  by (simp add: quiet_def call_hw_def)

locale quiet_step =
  fixes f :: "u8 \<Rightarrow> u8 \<Rightarrow> 'i usb_ctl ep_step"
  assumes step: "table_holds (Table (Desc s)) dev cs \<Longrightarrow> \<exists>b s1. f cfg ifn num dir s = Some (b, s1) \<and> quiet s s1"
begin

lemma each_ep_quiet:
  assumes "table_holds (Table (Desc s)) dev cs"
  shows "\<exists>s1. each_ep (f cfg ifn) ks n s = Some s1 \<and> quiet s s1"
  using assms
proof (induction ks arbitrary: n s)
  case (Cons k ks)
  obtain b1 s1 where s1: "f cfg ifn (of_nat k) DIR_OUT s = Some (b1, s1)" "quiet s s1" using step [OF Cons.prems] by blast
  have t1: "table_holds (Table (Desc s1)) dev cs" using Cons.prems quiet_desc [OF s1(2)] by simp
  obtain b2 s2 where s2: "f cfg ifn (of_nat k) DIR_IN s1 = Some (b2, s2)" "quiet s1 s2" using step [OF t1] by blast
  have t2: "table_holds (Table (Desc s2)) dev cs" using t1 quiet_desc [OF s2(2)] by simp
  obtain s3 where "each_ep (f cfg ifn) ks (n - of_bool b1 - of_bool b2) s2 = Some s3" "quiet s2 s3" using Cons.IH [OF t2] by blast
  moreover from this have "quiet s s3" using quiet_trans [OF quiet_trans [OF s1(2) s2(2)]] by blast
  ultimately show ?case using s1 s2 by (cases "n = 0") auto
qed simp

lemma each_interface_quiet:
  assumes "table_holds (Table (Desc s)) dev cs"
  shows "\<exists>s1. each_interface hw cfg (f cfg) ks s = Some s1 \<and> quiet s s1"
  using assms
proof (induction ks arbitrary: s)
  case (Cons k ks)
  obtain n where n: "GetNumEndpoints (Table (Desc s)) cfg (of_nat k) = Some n" using GetNumEndpoints_tree [OF Cons.prems] by blast
  obtain s1 where s1: "each_ep (f cfg (of_nat k)) [1..<Suc (unat (NumEndpoints hw))] n s = Some s1" "quiet s s1"
    using each_ep_quiet [OF Cons.prems] by blast
  have "table_holds (Table (Desc s1)) dev cs" using Cons.prems quiet_desc [OF s1(2)] by simp
  then obtain s2 where s2: "each_interface hw cfg (f cfg) ks s1 = Some s2" "quiet s1 s2" using Cons.IH by blast
  show ?case using n s1(1) s2(1) quiet_trans [OF s1(2) s2(2)] by (simp del: upt_Suc)
qed simp

lemma in_config_quiet:
  assumes "table_holds (Table (Desc s)) dev cs"
  shows "\<exists>s1. in_config hw f cfg s = Some s1 \<and> quiet s s1"
proof -
  obtain n where "GetNumInterfaces (Table (Desc s)) cfg = Some n" using GetNumInterfaces_tree [OF assms] by blast
  then show ?thesis using each_interface_quiet [OF assms] by (simp add: in_config_def)
qed

lemma all_configs_quiet:
  assumes "table_holds (Table (Desc s)) dev cs"
  shows "\<exists>s1. all_configs hw f s = Some s1 \<and> quiet s s1"
proof -
  have "\<exists>s1. each_config hw f ks s = Some s1 \<and> quiet s s1" for ks
    using assms
  proof (induction ks arbitrary: s)
    case (Cons k ks)
    obtain s1 where s1: "in_config hw f (of_nat k) s = Some s1" "quiet s s1" using in_config_quiet [OF Cons.prems] by blast
    have "table_holds (Table (Desc s1)) dev cs" using Cons.prems quiet_desc [OF s1(2)] by simp
    then obtain s2 where s2: "each_config hw f ks s1 = Some s2" "quiet s1 s2" using Cons.IH by blast
    show ?case using s1(1) s2(1) quiet_trans [OF s1(2) s2(2)] by simp
  qed simp
  then show ?thesis by (simp add: all_configs_def)
qed

end

lemma map_set_ep: "map (\<lambda>e. e\<lparr>Enabled := False\<rparr>) (es[j := (es ! j)\<lparr>Enabled := on\<rparr>]) = map (\<lambda>e. e\<lparr>Enabled := False\<rparr>) es"
  by (cases "j < length es") (simp_all add: map_update list_update_same_conv list_update_beyond)

lemma quiet_enabled:
  "quiet s s1 \<Longrightarrow> quiet s (s1\<lparr>Dev := set_ep j ((EndPoint (Dev s1) ! j)\<lparr>Enabled := on\<rparr>) (Dev s1)\<rparr>)"
  by (simp add: quiet_def set_ep_def map_set_ep)

definition switched :: "usb_hw \<Rightarrow> bool \<Rightarrow> u8 \<Rightarrow> u8 \<Rightarrow> u8 \<Rightarrow> 'i usb_ctl \<Rightarrow> 'i usb_ctl" where
  "switched hw on num d ty s =
     (let s1 = if HasEnableEp hw then call_hw (switch_call on num d (ty AND 0x03)) s else s
      in case GetEndPointIndex (Dev s1) num d of
           None \<Rightarrow> s1
         | Some j \<Rightarrow> s1\<lparr>Dev := set_ep j ((EndPoint (Dev s1) ! j)\<lparr>Enabled := on\<rparr>) (Dev s1)\<rparr>)"

lemma switched_quiet: "quiet s (switched hw on num d ty s)"
proof -
  have q: "quiet s (if HasEnableEp hw then call_hw (switch_call on num d (ty AND 0x03)) s else s)" by (simp add: quiet_call)
  show ?thesis unfolding switched_def Let_def by (cases "GetEndPointIndex (Dev (if HasEnableEp hw then
      call_hw (switch_call on num d (ty AND 0x03)) s else s)) num d") (simp_all only: option.case q quiet_enabled [OF q])
qed

lemma switch_ep_switched:
  "switch_ep hw on cfg ifn num dir s =
     do { e \<leftarrow> GetEndpointDesc (Table (Desc s)) cfg ifn num dir;
          case e of
            None \<Rightarrow> Some (False, s)
          | Some i \<Rightarrow> do { a \<leftarrow> desc_field (Table (Desc s)) (Some i) 2; ty \<leftarrow> desc_field (Table (Desc s)) (Some i) 3;
                          Some (True, switched hw on num (if a AND 0x80 \<noteq> 0 then DIR_IN else DIR_OUT) ty s) } }"
  unfolding switch_ep_def switched_def Let_def ..

interpretation switch: quiet_step "switch_ep hw on" for hw on
proof unfold_locales
  fix s :: "'i usb_ctl" and dev cs cfg ifn num dir
  assume "table_holds (Table (Desc s)) dev cs"
  from GetEndpointDesc_fields [OF this, of cfg ifn num dir] obtain r where
    r: "GetEndpointDesc (Table (Desc s)) cfg ifn num dir = Some r"
      "\<And>i k. r = Some i \<Longrightarrow> k < 7 \<Longrightarrow> \<exists>v. desc_field (Table (Desc s)) (Some i) k = Some v" by blast
  show "\<exists>b s1. switch_ep hw on cfg ifn num dir s = Some (b, s1) \<and> quiet s s1"
  proof (cases r)
    case (Some i)
    then show ?thesis using r(1) r(2) [OF Some, of 2] r(2) [OF Some, of 3] switched_quiet by (auto simp: switch_ep_switched intro!: exI [of _ True])
  qed (use r in \<open>fastforce simp: switch_ep_switched\<close>)
qed

interpretation wake: quiet_step wake_ep
proof unfold_locales
  fix s :: "'i usb_ctl" and dev cs cfg ifn num dir
  assume "table_holds (Table (Desc s)) dev cs"
  from GetEndpointDesc_fields [OF this, of cfg ifn num dir] obtain r where
    "GetEndpointDesc (Table (Desc s)) cfg ifn num dir = Some r" by blast
  then show "\<exists>b s1. wake_ep cfg ifn num dir s = Some (b, s1) \<and> quiet s s1"
    by (auto simp: wake_ep_def quiet_call split: option.splits)
qed

section \<open>Steps that reach every endpoint\<close>

lemma find_matching:
  assumes "distinct (map ep_addr es)" "e \<in> set es" "ep_matches num dir (e ! 2)" "dir = DIR_OUT \<or> dir = DIR_IN"
  shows "find (\<lambda>e. ep_matches num dir (e ! 2)) es = Some e"
  using assms(1,2)
proof (induction es)
  case (Cons d es)
  show ?case
  proof (cases "ep_matches num dir (d ! 2)")
    case True
    then have "ep_addr d = ep_addr e" using ep_addr_eq [OF assms(4) _ assms(3)] by blast
    then show ?thesis using Cons.prems True by (auto simp: image_iff)
  qed (use Cons assms(3) in auto)
qed simp

lemma find_key: "distinct (map key xs) \<Longrightarrow> x \<in> set xs \<Longrightarrow> find (\<lambda>y. key y = key x) xs = Some x"
  by (induction xs) force+

lemma distinct_of_nat_8:
  assumes "n \<le> 256"
  shows "distinct (map (of_nat :: nat \<Rightarrow> u8) [a..<n])"
  using assms by (auto simp: distinct_map inj_on_def) (metis le_less_trans less_imp_le_nat not_less unat_of_nat_8)

text \<open>
  A step \<open>f\<close> that marks the endpoint it finds. \<open>I\<close> is what holds during the loops, \<open>M e\<close> the mark of the
  endpoint with the descriptor \<open>e\<close>; a mark stays.
\<close>

locale marking_step = quiet_step f for f :: "u8 \<Rightarrow> u8 \<Rightarrow> 'i usb_ctl ep_step" +
  fixes I :: "'i usb_ctl \<Rightarrow> bool" and M :: "u8 list \<Rightarrow> 'i usb_ctl \<Rightarrow> bool"
  assumes keeps: "I s \<Longrightarrow> f cfg ifn num dir s = Some (b, s1) \<Longrightarrow> I s1"
    and stays: "I s \<Longrightarrow> M e s \<Longrightarrow> f cfg ifn num dir s = Some (b, s1) \<Longrightarrow> M e s1"
    and marks: "I s \<Longrightarrow> table_holds (Table (Desc s)) dev cs \<Longrightarrow> dir = DIR_OUT \<or> dir = DIR_IN \<Longrightarrow>
      f cfg ifn num dir s = Some (b, s1) \<Longrightarrow>
      case lookup_ep cs cfg ifn num dir of None \<Rightarrow> \<not> b | Some e \<Rightarrow> b \<and> M e s1"
begin

lemma each_ep_stays:
  assumes "I s" "each_ep (f cfg ifn) ks n s = Some s1"
  shows "I s1 \<and> (\<forall>e. M e s \<longrightarrow> M e s1)"
  using assms
proof (induction ks arbitrary: n s)
  case (Cons k ks)
  show ?case
  proof (cases "n = 0")
    case False
    then obtain b2 b3 s2 s3 where r: "f cfg ifn (of_nat k) DIR_OUT s = Some (b2, s2)" "f cfg ifn (of_nat k) DIR_IN s2 = Some (b3, s3)"
      "each_ep (f cfg ifn) ks (n - of_bool b2 - of_bool b3) s3 = Some s1" using Cons.prems(2) by (auto split: bind_splits)
    have "I s2" using keeps [OF Cons.prems(1) r(1)] .
    moreover from this have "I s3" using keeps r(2) by blast
    ultimately show ?thesis using Cons.IH [OF _ r(3)] stays [OF Cons.prems(1) _ r(1)] stays [OF _ _ r(2)] by blast
  qed (use Cons.prems in simp)
qed simp

lemma each_ep_marks:
  assumes "table_holds (Table (Desc s)) dev cs" "I s"
    "\<And>num dir. lookup_ep cs cfg ifn num dir = find (\<lambda>e. ep_matches num dir (e ! 2)) es"
    "distinct (map ep_addr es)" "\<forall>e\<in>set es. ep_no e \<le> N" "N < 256" "length es < 256" "a \<le> Suc N"
    "n = of_nat (length (filter (\<lambda>e. a \<le> ep_no e) es))" "each_ep (f cfg ifn) [a..<Suc N] n s = Some s1"
  shows "\<forall>e\<in>set es. a \<le> ep_no e \<longrightarrow> M e s1"
  using assms
proof (induction "Suc N - a" arbitrary: a n s)
  case (Suc m)
  then have a: "a < Suc N" "a < 256" by simp_all
  have l: "[a..<Suc N] = a # [Suc a..<Suc N]" using a by (simp add: upt_rec)
  let ?A = "\<lambda>dir. \<exists>e\<in>set es. ep_matches (of_nat a) dir (e ! 2)" and ?rest = "length (filter (\<lambda>e. Suc a \<le> ep_no e) es)"
  have cnt: "length (filter (\<lambda>e. a \<le> ep_no e) es) = of_bool (?A DIR_OUT) + of_bool (?A DIR_IN) + ?rest"
    by (rule endpoints_left [OF Suc.prems(4) a(2)])
  have there: "(\<exists>e. lookup_ep cs cfg ifn num dir = Some e) \<longleftrightarrow> (\<exists>e\<in>set es. ep_matches num dir (e ! 2))" for num dir
    unfolding Suc.prems(3) by (auto simp: find_None_iff simp flip: not_None_eq)
  show ?case
  proof (cases "n = 0")
    case True
    have "length (filter (\<lambda>e. a \<le> ep_no e) es) < 256" using Suc.prems(7) length_filter_le [of _ es] by (rule le_less_trans [rotated])
    then have "filter (\<lambda>e. a \<le> ep_no e) es = []" using True Suc.prems(9) unat_of_nat_8 [of "length (filter (\<lambda>e. a \<le> ep_no e) es)"]
      by simp
    then show ?thesis by (simp add: filter_empty_conv)
  next
    case False
    obtain b2 b3 s2 s3 where r: "f cfg ifn (of_nat a) DIR_OUT s = Some (b2, s2)" "f cfg ifn (of_nat a) DIR_IN s2 = Some (b3, s3)"
      "each_ep (f cfg ifn) [Suc a..<Suc N] (n - of_bool b2 - of_bool b3) s3 = Some s1"
      using Suc.prems(10) False unfolding l by (auto split: bind_splits)
    have t2: "table_holds (Table (Desc s2)) dev cs" "I s2"
      using step [OF Suc.prems(1), of cfg ifn "of_nat a" DIR_OUT] r(1) Suc.prems(1) keeps [OF Suc.prems(2) r(1)] quiet_desc by fastforce+
    have t3: "table_holds (Table (Desc s3)) dev cs" "I s3"
      using step [OF t2(1), of cfg ifn "of_nat a" DIR_IN] r(2) t2(1) keeps [OF t2(2) r(2)] quiet_desc by fastforce+
    have m2: "b2 \<longleftrightarrow> ?A DIR_OUT" "\<And>e. lookup_ep cs cfg ifn (of_nat a) DIR_OUT = Some e \<Longrightarrow> M e s2"
      using marks [OF Suc.prems(2,1) _ r(1)] there [of "of_nat a" DIR_OUT] by (auto split: option.splits)
    have m3: "b3 \<longleftrightarrow> ?A DIR_IN" "\<And>e. lookup_ep cs cfg ifn (of_nat a) DIR_IN = Some e \<Longrightarrow> M e s3"
      using marks [OF t2(2,1) _ r(2)] there [of "of_nat a" DIR_IN] by (auto split: option.splits)
    have n: "n - of_bool b2 - of_bool b3 = of_nat ?rest" by (simp add: Suc.prems(9) cnt m2(1) m3(1))
    have rest: "\<forall>e\<in>set es. Suc a \<le> ep_no e \<longrightarrow> M e s1"
      by (rule Suc.hyps(1) [OF _ t3 Suc.prems(3-7)]) (use Suc.hyps(2) a r(3) n in auto)
    have stay: "M e s3 \<Longrightarrow> M e s1" for e using each_ep_stays [OF t3(2) r(3)] by blast
    have "M e s1" if e: "e \<in> set es" "ep_no e = a" for e
    proof (cases "e ! 2 AND 0x80 = 0")
      case True
      then have "ep_matches (of_nat a) DIR_OUT (e ! 2)" using e(2) ep_no_eq [OF a(2)] by (simp add: ep_matches_dir)
      then have "M e s2" using m2(2) find_matching [OF Suc.prems(4) e(1)] by (simp add: Suc.prems(3))
      then show ?thesis using stay stays [OF t2(2) _ r(2)] by blast
    next
      case False
      then have "ep_matches (of_nat a) DIR_IN (e ! 2)" using e(2) ep_no_eq [OF a(2)] bit7_cases [of "e ! 2"] by (simp add: ep_matches_dir)
      then show ?thesis using stay m3(2) find_matching [OF Suc.prems(4) e(1)] by (simp add: Suc.prems(3))
    qed
    then show ?thesis using rest by (metis Suc_leI le_neq_implies_less)
  qed
qed fastforce

end

lemma numbered_keys:
  assumes "numbered N cs" "c \<in> set cs"
  shows "distinct (map (\<lambda>c. fst c ! 5) cs)" "distinct (map (\<lambda>i. fst i ! 2) (snd c))" "cfg_numbered N c"
    "length (snd c) < 256" "map (\<lambda>i. fst i ! 2) (snd c) = map of_nat [0..<length (snd c)]"
proof -
  show c: "cfg_numbered N c" using assms by (auto simp: numbered_def list_all_iff)
  then show l: "length (snd c) < 256" "map (\<lambda>i. fst i ! 2) (snd c) = map of_nat [0..<length (snd c)]"
    using unat_lt_8 [of "fst c ! 4"] by (simp_all add: cfg_numbered_def)
  show "distinct (map (\<lambda>i. fst i ! 2) (snd c))" unfolding l(2) using l(1) by (intro distinct_of_nat_8) simp
  have "length cs < 255" "map (\<lambda>c. fst c ! 5) cs = map of_nat [1..<Suc (length cs)]" using assms(1) by (simp_all add: numbered_def)
  then show "distinct (map (\<lambda>c. fst c ! 5) cs)" using distinct_of_nat_8 [of "Suc (length cs)" 1] by (simp del: upt_Suc)
qed

lemma numbered_interface:
  assumes "numbered N cs" "c \<in> set cs" "k < length (snd c)"
  shows "if_numbered N (snd c ! k)"
    "lookup_ep cs (fst c ! 5) (of_nat k) num dir = find (\<lambda>e. ep_matches num dir (e ! 2)) (snd (snd (snd c ! k)))"
    "table_holds t dev cs \<Longrightarrow> GetNumEndpoints t (fst c ! 5) (of_nat k) = Some (fst (snd c ! k) ! 4)"
proof -
  note k = numbered_keys [OF assms(1,2)]
  show "if_numbered N (snd c ! k)" using k(3) assms(3) by (simp add: cfg_numbered_def list_all_length)
  have num: "fst (snd c ! k) ! 2 = of_nat k" using arg_cong [OF k(5), of "\<lambda>xs. xs ! k"] assms(3) by simp
  have "find_config (fst c ! 5) cs = Some c" unfolding find_config_def by (rule find_key [OF k(1) assms(2)])
  moreover have "find_if (of_nat k) c = Some (snd c ! k)"
    unfolding find_if_def using find_key [OF k(2), of "snd c ! k"] assms(3) num by simp
  ultimately show "lookup_ep cs (fst c ! 5) (of_nat k) num dir = find (\<lambda>e. ep_matches num dir (e ! 2)) (snd (snd (snd c ! k)))"
    by (simp add: lookup_ep_def find_ep_def)
  assume t: "table_holds t dev cs"
  obtain cs1 cs2 where cs: "cs = cs1 @ c # cs2" using assms(2) by (auto dest: split_list)
  have "snd c = take k (snd c) @ snd c ! k # drop (Suc k) (snd c)" by (rule id_take_nth_drop [OF assms(3)])
  then obtain "is" js where js: "snd c = is @ snd c ! k # js" by blast
  have "fst c ! 5 \<notin> (\<lambda>c. fst c ! 5) ` set cs1" using k(1) by (simp add: cs)
  then have "\<forall>x\<in>set cs1. fst x ! 5 \<noteq> fst c ! 5" by (metis (mono_tags, lifting) image_eqI)
  moreover have "\<forall>x\<in>set is. fst x ! 2 \<noteq> of_nat k" using k(2) num js by (metis (mono_tags, lifting) distinct_append
      disjoint_iff list.set_intros(1) list.simps(9) map_append image_eqI set_map)
  moreover have "c = (fst c, is @ snd c ! k # js)" using js by (metis prod.collapse)
  ultimately show "GetNumEndpoints t (fst c ! 5) (of_nat k) = Some (fst (snd c ! k) ! 4)"
    using GetNumEndpoints_at [of t dev cs1 "fst c" "is" "snd c ! k" js cs2 "fst c ! 5" "of_nat k"] t cs num by simp
qed

context marking_step begin

lemma each_interface_stays:
  assumes "I s" "each_interface hw cfg (f cfg) ks s = Some s1"
  shows "I s1 \<and> (\<forall>e. M e s \<longrightarrow> M e s1)"
  using assms
proof (induction ks arbitrary: s)
  case (Cons k ks)
  then obtain n s2 where r: "each_ep (f cfg (of_nat k)) [1..<Suc (unat (NumEndpoints hw))] n s = Some s2"
    "each_interface hw cfg (f cfg) ks s2 = Some s1" by (auto simp del: upt_Suc split: bind_splits)
  show ?case using each_ep_stays [OF Cons.prems(1) r(1)] Cons.IH [OF _ r(2)] by blast
qed simp

lemma each_interface_marks:
  assumes "table_holds (Table (Desc s)) dev cs" "I s" "numbered (unat (NumEndpoints hw)) cs" "c \<in> set cs"
    "\<forall>k\<in>set ks. k < length (snd c)" "each_interface hw (fst c ! 5) (f (fst c ! 5)) ks s = Some s1"
  shows "\<forall>k\<in>set ks. \<forall>e\<in>set (snd (snd (snd c ! k))). M e s1"
  using assms(1,2,5,6)
proof (induction ks arbitrary: s)
  case (Cons k ks)
  let ?N = "unat (NumEndpoints hw)" and ?cfg = "fst c ! 5"
  have k: "k < length (snd c)" using Cons.prems by simp
  note i = numbered_interface [OF assms(3,4) k]
  let ?es = "snd (snd (snd c ! k))" and ?n = "fst (snd c ! k) ! 4"
  have nj: "unat ?n = length ?es" "distinct (map ep_addr ?es)" "\<forall>e\<in>set ?es. 1 \<le> ep_no e \<and> ep_no e \<le> ?N"
    using i(1) by (simp_all add: if_numbered_def list_all_iff)
  have "length ?es < 256" using nj(1) unat_lt_8 [of ?n] by simp
  moreover have "filter (\<lambda>e. 1 \<le> ep_no e) ?es = ?es" using nj(3) by (simp add: filter_id_conv)
  then have "?n = of_nat (length (filter (\<lambda>e. 1 \<le> ep_no e) ?es))" by (simp flip: nj(1))
  moreover obtain s2 where r: "each_ep (f ?cfg (of_nat k)) [1..<Suc ?N] ?n s = Some s2" "each_interface hw ?cfg (f ?cfg) ks s2 = Some s1" "quiet s s2"
    using each_ep_quiet [OF Cons.prems(1), of ?cfg "of_nat k" "[1..<Suc ?N]" ?n] Cons.prems(4) i(3) [OF Cons.prems(1)]
    by (auto simp del: upt_Suc)
  moreover have "?N < 256" by (rule unat_lt_8)
  ultimately have "\<forall>e\<in>set ?es. 1 \<le> ep_no e \<longrightarrow> M e s2"
    using each_ep_marks [OF Cons.prems(1,2) i(2) nj(2), where N = ?N and a = 1 and n = ?n] nj(3) by (simp del: upt_Suc)
  then have m: "\<forall>e\<in>set ?es. M e s2" using nj(3) by blast
  have t2: "table_holds (Table (Desc s2)) dev cs" using Cons.prems(1) quiet_desc [OF r(3)] by simp
  have s2: "I s2" using each_ep_stays [OF Cons.prems(2) r(1)] by blast
  show ?case using Cons.IH [OF t2 s2 _ r(2)] Cons.prems(3) m each_interface_stays [OF s2 r(2)] by auto
qed simp

text \<open>The step is run for every endpoint of the configuration, or of all configurations.\<close>

lemma in_config_marks:
  assumes "table_holds (Table (Desc s)) dev cs" "I s" "numbered (unat (NumEndpoints hw)) cs"
    "in_config hw f cfg s = Some s1"
  shows "I s1 \<and> (\<forall>e. M e s \<longrightarrow> M e s1) \<and> (\<forall>c\<in>set cs. fst c ! 5 = cfg \<longrightarrow> (\<forall>i\<in>set (snd c). \<forall>e\<in>set (snd (snd i)). M e s1))"
proof -
  obtain n where n: "GetNumInterfaces (Table (Desc s)) cfg = Some n" "unat n = num_ifs cfg cs"
    using GetNumInterfaces_tree [OF assms(1)] by blast
  then have r: "each_interface hw cfg (f cfg) [0..<num_ifs cfg cs] s = Some s1" using assms(4) by (simp add: in_config_def)
  have "M e s1" if c: "c \<in> set cs" "fst c ! 5 = cfg" "i \<in> set (snd c)" "e \<in> set (snd (snd i))" for c i e
  proof -
    note k = numbered_keys [OF assms(3) c(1)]
    have "find_config cfg cs = Some c" unfolding find_config_def using find_key [OF k(1) c(1)] c(2) by simp
    then have l: "num_ifs cfg cs = length (snd c)" using k(3) by (simp add: num_ifs_def cfg_numbered_def)
    obtain j where "j < length (snd c)" "i = snd c ! j" using c(3) by (auto simp: in_set_conv_nth)
    then show ?thesis using each_interface_marks [OF assms(1-3) c(1), of "[0..<length (snd c)]"] r c(2,4) l by auto
  qed
  then show ?thesis using each_interface_stays [OF assms(2) r] by blast
qed

lemma all_configs_marks:
  assumes "table_holds (Table (Desc s)) dev cs" "I s" "numbered (unat (NumEndpoints hw)) cs"
    "GetNumConfigurations (Table (Desc s)) = of_nat (length cs)" "all_configs hw f s = Some s1"
  shows "I s1 \<and> (\<forall>c\<in>set cs. \<forall>i\<in>set (snd c). \<forall>e\<in>set (snd (snd i)). M e s1)"
proof -
  have each: "I s1 \<and> (\<forall>e. M e s \<longrightarrow> M e s1) \<and>
      (\<forall>c\<in>set cs. fst c ! 5 \<in> of_nat ` set ks \<longrightarrow> (\<forall>i\<in>set (snd c). \<forall>e\<in>set (snd (snd i)). M e s1))"
    if "each_config hw f ks s = Some s1" "table_holds (Table (Desc s)) dev cs" "I s" for ks s
    using that
  proof (induction ks arbitrary: s)
    case (Cons k ks)
    obtain s2 where r: "in_config hw f (of_nat k) s = Some s2" "each_config hw f ks s2 = Some s1" "quiet s s2"
      using in_config_quiet [OF Cons.prems(2), of hw "of_nat k"] Cons.prems(1) by auto
    note m = in_config_marks [OF Cons.prems(2,3) assms(3) r(1)]
    have "table_holds (Table (Desc s2)) dev cs" using Cons.prems(2) quiet_desc [OF r(3)] by simp
    from Cons.IH [OF r(2) this] m show ?case by auto
  qed simp
  have l: "length cs < 255" "map (\<lambda>c. fst c ! 5) cs = map of_nat [1..<Suc (length cs)]" using assms(3) by (simp_all add: numbered_def)
  have "fst c ! 5 \<in> of_nat ` set [1..<Suc (length cs)]" if "c \<in> set cs" for c
    using arg_cong [OF l(2), of set] that by (auto simp del: upt_Suc)
  moreover have "unat (of_nat (length cs) :: u8) = length cs" using l(1) by (intro unat_of_nat_8) simp
  ultimately show ?thesis
    using each [of "[1..<Suc (length cs)]" s] assms(1,2,4,5) by (auto simp: all_configs_def simp del: upt_Suc)
qed

end

section \<open>Endpoints disabled, writers woken\<close>

definition desc_num :: "u8 list \<Rightarrow> u8" where "desc_num e = e ! 2 AND 0x0F"

definition desc_dir :: "u8 list \<Rightarrow> u8" where "desc_dir e = (if e ! 2 AND 0x80 \<noteq> 0 then DIR_IN else DIR_OUT)"

text \<open>By the calls behind the first \<open>L\<close>: the endpoint of a descriptor is disabled, its writer is woken.\<close>

definition ep_disabled :: "usb_hw \<Rightarrow> nat \<Rightarrow> u8 list \<Rightarrow> 'i usb_ctl \<Rightarrow> bool" where
  "ep_disabled hw L e s \<longleftrightarrow>
     (\<forall>j. GetEndPointIndex (Dev s) (desc_num e) (desc_dir e) = Some j \<longrightarrow> \<not> Enabled (EndPoint (Dev s) ! j)) \<and>
     (HasEnableEp hw \<longrightarrow> HwDisableEp (desc_num e) (desc_dir e) (e ! 3 AND 0x03) \<in> set (drop L (hw_calls s)))"

definition ep_woken :: "nat \<Rightarrow> u8 list \<Rightarrow> 'i usb_ctl \<Rightarrow> bool" where
  "ep_woken L e s \<longleftrightarrow>
     (\<forall>j. GetEndPointIndex (Dev s) (desc_num e) (desc_dir e) = Some j \<longrightarrow> OsWakeup j \<in> set (drop L (hw_calls s)))"

lemma matches_desc:
  "dir = DIR_OUT \<or> dir = DIR_IN \<Longrightarrow> ep_matches num dir (e ! 2) \<Longrightarrow> desc_num e = num \<and> desc_dir e = dir"
  using bit7_cases [of "e ! 2"] by (auto simp: ep_matches_dir desc_num_def desc_dir_def)

lemma lookup_ep_matches: "lookup_ep cs cfg ifn num dir = Some e \<Longrightarrow> ep_matches num dir (e ! 2)"
  by (auto simp: lookup_ep_def find_ep_def find_Some_iff split: bind_splits)

lemma ep_index_enabled: "ep_index i (map (\<lambda>e. e\<lparr>Enabled := False\<rparr>) es) n d = ep_index i es n d"
  by (induction es arbitrary: i) simp_all

lemma quiet_index: "quiet s s1 \<Longrightarrow> GetEndPointIndex (Dev s1) n d = GetEndPointIndex (Dev s) n d"
  by (metis GetEndPointIndex_def ep_index_enabled quiet_def)

lemma drop_grown: "L \<le> length xs \<Longrightarrow> set (drop L (xs @ ys)) = set (drop L xs) \<union> set ys"
  by simp

lemma switched_fields:
  "hw_calls (switched hw on num d ty s) = hw_calls s @ (if HasEnableEp hw then [switch_call on num d (ty AND 0x03)] else [])"
  "EndPoint (Dev (switched hw on num d ty s)) = (case GetEndPointIndex (Dev s) num d of None \<Rightarrow> EndPoint (Dev s)
     | Some j \<Rightarrow> (EndPoint (Dev s))[j := (EndPoint (Dev s) ! j)\<lparr>Enabled := on\<rparr>])"
  by (auto simp: switched_def Let_def call_hw_def set_ep_def split: option.split)

lemma switch_ep_result:
  assumes "switch_ep hw on cfg ifn num dir s = Some (b, s1)"
  shows "s1 = s \<or> (\<exists>d ty. s1 = switched hw on num d ty s)"
  using assms unfolding switch_ep_switched by (auto split: bind_splits option.splits)

lemma switch_ep_found:
  assumes "table_holds (Table (Desc s)) dev cs" "switch_ep hw on cfg ifn num dir s = Some (b, s1)"
  shows "case lookup_ep cs cfg ifn num dir of None \<Rightarrow> \<not> b | Some e \<Rightarrow> b \<and> s1 = switched hw on num (desc_dir e) (e ! 3) s"
proof -
  let ?t = "Table (Desc s)"
  obtain r where r: "GetEndpointDesc ?t cfg ifn num dir = Some r"
    "case lookup_ep cs cfg ifn num dir of None \<Rightarrow> r = None
     | Some e \<Rightarrow> \<exists>j ds. r = Some j \<and> desc_pos ?t (e # ds) = j \<and> table_ends ?t (e # ds)"
    using GetEndpointDesc_tree [OF assms(1)] by blast
  show ?thesis
  proof (cases "lookup_ep cs cfg ifn num dir")
    case (Some e)
    then obtain j ds where j: "r = Some j" "desc_pos ?t (e # ds) = j" "table_ends ?t (e # ds)" using r(2) by auto
    have "7 \<le> length e" by (rule lookup_ep_length [OF assms(1) Some])
    then show ?thesis using assms(2) r(1) j(1,2) Some desc_field_at [OF j(3), of 2] desc_field_at [OF j(3), of 3]
      by (simp add: switch_ep_switched desc_dir_def)
  qed (use assms(2) r in \<open>simp add: switch_ep_switched\<close>)
qed

lemma index_range: "GetEndPointIndex d n dir = Some j \<Longrightarrow> j < length (EndPoint d)"
  by (auto simp: GetEndPointIndex_def dest: ep_index_range)

lemma still_disabled: "\<not> Enabled (es ! j) \<Longrightarrow> \<not> Enabled (es[k := (es ! k)\<lparr>Enabled := False\<rparr>] ! j)"
  by (cases "k < length es") (auto simp: nth_list_update list_update_beyond)

lemma switched_disables:
  assumes "L \<le> length (hw_calls s)"
  shows "ep_disabled hw L e s \<Longrightarrow> ep_disabled hw L e (switched hw False num d ty s)"
    "ep_disabled hw L e (switched hw False (desc_num e) (desc_dir e) (e ! 3) s)"
  using assms
  by (auto simp: ep_disabled_def quiet_index [OF switched_quiet] switched_fields switch_call_def still_disabled
      split: option.split dest: index_range)

interpretation disabling: marking_step "switch_ep hw False" "\<lambda>s. L \<le> length (hw_calls s)" "ep_disabled hw L" for hw L
proof unfold_locales
  fix s s1 :: "'i usb_ctl" and cfg ifn num dir b e
  assume s: "L \<le> length (hw_calls s)"
  show "L \<le> length (hw_calls s1)" if "switch_ep hw False cfg ifn num dir s = Some (b, s1)"
    using switch_ep_result [OF that] s by (auto simp: switched_fields)
  show "ep_disabled hw L e s1" if "ep_disabled hw L e s" "switch_ep hw False cfg ifn num dir s = Some (b, s1)"
    using switch_ep_result [OF that(2)] switched_disables(1) [OF s that(1)] that(1) by auto
next
  fix s s1 :: "'i usb_ctl" and dev cs cfg ifn num dir b
  assume a: "L \<le> length (hw_calls s)" "table_holds (Table (Desc s)) dev cs" "dir = DIR_OUT \<or> dir = DIR_IN"
    "switch_ep hw False cfg ifn num dir s = Some (b, s1)"
  show "case lookup_ep cs cfg ifn num dir of None \<Rightarrow> \<not> b | Some e \<Rightarrow> b \<and> ep_disabled hw L e s1"
    using switch_ep_found [OF a(2,4)] switched_disables(2) [OF a(1)] matches_desc [OF a(3) lookup_ep_matches]
    by (cases "lookup_ep cs cfg ifn num dir") fastforce+
qed

interpretation waking: marking_step wake_ep "\<lambda>s. L \<le> length (hw_calls s) \<and> Dev s = d0" "ep_woken L" for L d0
proof unfold_locales
  fix s s1 :: "'i usb_ctl" and cfg ifn num dir b e
  assume s: "L \<le> length (hw_calls s) \<and> Dev s = d0" and r: "wake_ep cfg ifn num dir s = Some (b, s1)"
  show "L \<le> length (hw_calls s1) \<and> Dev s1 = d0" using s r by (auto simp: wake_ep_def call_hw_def split: bind_splits option.splits)
  show "ep_woken L e s1" if "ep_woken L e s"
    using s r that by (auto simp: wake_ep_def call_hw_def ep_woken_def split: bind_splits option.splits)
next
  fix s s1 :: "'i usb_ctl" and dev cs cfg ifn num dir b
  assume a: "L \<le> length (hw_calls s) \<and> Dev s = d0" "table_holds (Table (Desc s)) dev cs" "dir = DIR_OUT \<or> dir = DIR_IN"
    "wake_ep cfg ifn num dir s = Some (b, s1)"
  obtain r where r: "GetEndpointDesc (Table (Desc s)) cfg ifn num dir = Some r" "r = None \<longleftrightarrow> lookup_ep cs cfg ifn num dir = None"
    using GetEndpointDesc_tree [OF a(2), of cfg ifn num dir] by (auto split: option.splits)
  show "case lookup_ep cs cfg ifn num dir of None \<Rightarrow> \<not> b | Some e \<Rightarrow> b \<and> ep_woken L e s1"
  proof (cases "lookup_ep cs cfg ifn num dir")
    case (Some e)
    then show ?thesis using a(1,4) r matches_desc [OF a(3) lookup_ep_matches [OF Some]]
      by (auto simp: wake_ep_def ep_woken_def call_hw_def split: option.splits)
  qed (use a(4) r in \<open>simp add: wake_ep_def\<close>)
qed

text \<open>What the marks depend on.\<close>

definition ep_key :: "endpoint \<Rightarrow> bool \<times> u8 \<times> u8 \<times> bool" where
  "ep_key e = (EpUsed e, EpNum e, Dir e, Enabled e)"

lemma ep_index_key: "map ep_key es = map ep_key ds \<Longrightarrow> ep_index i es n d = ep_index i ds n d"
proof (induction es arbitrary: ds i)
  case (Cons e es)
  then obtain x xs where x: "ds = x # xs" "ep_key e = ep_key x" "map ep_key es = map ep_key xs" by (cases ds) auto
  have "ep_index (Suc i) es n d = ep_index (Suc i) xs n d" by (rule Cons.IH [OF x(3)])
  then show ?case using x(1,2) by (simp add: ep_key_def)
qed simp

lemma ep_disabled_kept:
  assumes "ep_disabled hw L e s" "map ep_key (EndPoint (Dev s1)) = map ep_key (EndPoint (Dev s))" "hw_calls s1 = hw_calls s @ new"
  shows "ep_disabled hw L e s1"
proof -
  have g: "GetEndPointIndex (Dev s1) n d = GetEndPointIndex (Dev s) n d" for n d
    using ep_index_key [OF assms(2)] by (simp add: GetEndPointIndex_def)
  have l: "length (EndPoint (Dev s1)) = length (EndPoint (Dev s))" using assms(2) by (metis length_map)
  have "Enabled (EndPoint (Dev s1) ! j) = Enabled (EndPoint (Dev s) ! j)" if "j < length (EndPoint (Dev s))" for j
    using arg_cong [OF assms(2), of "\<lambda>xs. xs ! j"] that l by (simp add: ep_key_def)
  then show ?thesis using assms(1,3) index_range unfolding ep_disabled_def g by auto
qed

end
