(* ===== verification/UsbReset.thy ===== *)
theory UsbReset imports UsbLoops UsbRequests begin

text \<open>
  The properties of the bus: the sizes of the endpoints at each speed, and the state of a device after a
  reset of the bus.
\<close>

unbundle bit_operations_syntax

section \<open>Sizes\<close>

lemma find_map_same: "(\<And>x. P (f x) \<longleftrightarrow> P x) \<Longrightarrow> find P (map f xs) = map_option f (find P xs)"
  by (induction xs) auto

lemma lookup_ep_mapped:
  "lookup_ep (map (map_cfg (refit fit x)) cs) cfg ifn num dir = map_option (refit fit x) (lookup_ep cs cfg ifn num dir)"
proof -
  have "find_config cfg (map (map_cfg (refit fit x)) cs) = map_option (map_cfg (refit fit x)) (find_config cfg cs)"
    by (simp add: find_config_def find_map_same map_cfg_def)
  moreover have "find_if ifn (map_cfg (refit fit x) c) = map_option (map_if (refit fit x)) (find_if ifn c)" for c
    by (simp add: find_if_def map_cfg_def find_map_same map_if_def)
  moreover have "find_ep num dir (map_if (refit fit x) i) = map_option (refit fit x) (find_ep num dir i)" for i
    by (simp add: find_ep_def map_if_def find_map_same same_headD(4) [OF refit_head])
  ultimately show ?thesis by (simp add: lookup_ep_def map_option_bind bind_map_option comp_def)
qed

definition at_speed_dev :: "u8 \<Rightarrow> u8 \<Rightarrow> u16 \<Rightarrow> u8 list \<Rightarrow> u8 list" where
  "at_speed_dev lo hi size0 dev = dev[2 := lo, 3 := hi, 7 := ucast size0]"

lemma at_speed_holds:
  assumes "speed_ready hw dev cs s"
  shows "table_holds (Table (Desc (at_speed lo hi size0 fit dev cs s))) (at_speed_dev lo hi size0 dev)
    (map (map_cfg (refit fit (Eps (Desc s)))) cs)"
proof -
  have "desc_ok (at_speed_dev lo hi size0 dev)"
    using assms by (auto simp: at_speed_dev_def speed_ready_def desc_ok_def table_holds_def DEVICE_def CONFIGURATION_def
        INTERFACE_def ENDPOINT_def)
  then show ?thesis
    using assms unfolding at_speed_def at_speed_dev_def [symmetric] table_holds_with
    by (simp add: speed_ready_def table_holds_def map_cfgs_ok at_speed_dev_def del: length_concat)
qed

lemma numbered_mapped: "numbered N cs \<Longrightarrow> numbered N (map (map_cfg (refit fit x)) cs)"
proof -
  have e: "ep_addr (refit fit x e) = ep_addr e" "ep_no (refit fit x e) = ep_no e" for e
    by (simp_all add: ep_addr_def ep_no_def same_headD(4) [OF refit_head])
  have i: "if_numbered N i \<Longrightarrow> if_numbered N (map_if (refit fit x) i)" for i
    by (auto simp: if_numbered_def map_if_def e list_all_iff comp_def)
  have "cfg_numbered N c \<Longrightarrow> cfg_numbered N (map_cfg (refit fit x) c)" for c
    using i by (auto simp: cfg_numbered_def map_cfg_def list_all_iff comp_def) (simp add: map_if_def)
  then show "numbered N cs \<Longrightarrow> numbered N (map (map_cfg (refit fit x)) cs)"
    by (auto simp: numbered_def list_all_iff comp_def) (simp_all add: map_cfg_def)
qed

text \<open>The size an endpoint gets: from its type and the buffer that the hardware has for it.\<close>

definition ep_size_at :: "(u8 \<Rightarrow> u16 \<Rightarrow> u16) \<Rightarrow> ep_info \<Rightarrow> u8 list \<Rightarrow> u16" where
  "ep_size_at fit x e = fit (e ! 3 AND 0x03) (the (GetEndPointBufSize x (e ! 2 AND 0x0F) (e ! 2 AND 0x80)))"

definition sized_for :: "(u8 \<Rightarrow> u16 \<Rightarrow> u16) \<Rightarrow> cfg_tree list \<Rightarrow> 'i usb_ctl \<Rightarrow> 'i usb_ctl \<Rightarrow> bool" where
  "sized_for fit cs s s1 \<longleftrightarrow>
     (\<forall>cfg ifn num dir.
        case lookup_ep cs cfg ifn num dir of
          None \<Rightarrow> GetEndpointDesc (Table (Desc s1)) cfg ifn num dir = Some None
        | Some e \<Rightarrow>
            (\<exists>j. GetEndpointDesc (Table (Desc s1)) cfg ifn num dir = Some (Some j) \<and>
              (\<forall>k<7. desc_field (Table (Desc s1)) (Some j) k =
                 Some (if k = 4 then LO_BYTE (ep_size_at fit (Eps (Desc s)) e)
                       else if k = 5 then HI_BYTE (ep_size_at fit (Eps (Desc s)) e) else e ! k))))"

lemma refit_fields:
  "7 \<le> length e \<Longrightarrow> k < 7 \<Longrightarrow>
    refit fit x e ! k = (if k = 4 then LO_BYTE (ep_size_at fit x e) else if k = 5 then HI_BYTE (ep_size_at fit x e) else e ! k)"
  by (simp add: refit_def Let_def ep_size_at_def nth_list_update)

lemma at_speed_sized:
  assumes "speed_ready hw dev cs s"
  shows "sized_for fit cs s (at_speed lo hi size0 fit dev cs s)"
  unfolding sized_for_def
proof (intro allI)
  fix cfg ifn num dir
  let ?s1 = "at_speed lo hi size0 fit dev cs s" and ?x = "Eps (Desc s)"
  let ?cs = "map (map_cfg (refit fit ?x)) cs"
  obtain r where r: "GetEndpointDesc (Table (Desc ?s1)) cfg ifn num dir = Some r"
    "case lookup_ep ?cs cfg ifn num dir of None \<Rightarrow> r = None
     | Some e \<Rightarrow> \<exists>j ds. r = Some j \<and> desc_pos (Table (Desc ?s1)) (e # ds) = j \<and> table_ends (Table (Desc ?s1)) (e # ds)"
    using GetEndpointDesc_tree [OF at_speed_holds [OF assms]] by blast
  show "case lookup_ep cs cfg ifn num dir of
        None \<Rightarrow> GetEndpointDesc (Table (Desc ?s1)) cfg ifn num dir = Some None
      | Some e \<Rightarrow>
          (\<exists>j. GetEndpointDesc (Table (Desc ?s1)) cfg ifn num dir = Some (Some j) \<and>
            (\<forall>k<7. desc_field (Table (Desc ?s1)) (Some j) k =
               Some (if k = 4 then LO_BYTE (ep_size_at fit ?x e)
                     else if k = 5 then HI_BYTE (ep_size_at fit ?x e) else e ! k)))"
  proof (cases "lookup_ep cs cfg ifn num dir")
    case (Some e)
    then obtain j ds where j: "r = Some j" "desc_pos (Table (Desc ?s1)) (refit fit ?x e # ds) = j"
      "table_ends (Table (Desc ?s1)) (refit fit ?x e # ds)" using r(2) by (auto simp: lookup_ep_mapped)
    have len: "7 \<le> length e"
      using lookup_ep_length [of "Table (Desc s)" dev cs, OF _ Some] assms by (simp add: speed_ready_def)
    then have "length (refit fit ?x e) = length e" using same_headD(1) [OF refit_head] by blast
    then show ?thesis using Some r(1) j len desc_field_at [OF j(3)] by (auto simp: refit_fields)
  qed (use r in \<open>simp add: lookup_ep_mapped\<close>)
qed

text \<open>
  A device \<open>s1\<close> that is \<open>s\<close> at another speed: the table is the old one with the version \<open>lo\<close>, \<open>hi\<close> and the size
  of endpoint 0 in its device descriptor and the sizes in its endpoint descriptors, endpoint 0 has its size, and all the rest
  of the device is the same.
\<close>

definition speed_applied ::
  "u8 \<Rightarrow> u8 \<Rightarrow> u16 \<Rightarrow> (u8 \<Rightarrow> u16 \<Rightarrow> u16) \<Rightarrow> u8 list \<Rightarrow> cfg_tree list \<Rightarrow> 'i usb_ctl \<Rightarrow> 'i usb_ctl \<Rightarrow> bool" where
  "speed_applied lo hi size0 fit dev cs s s1 \<longleftrightarrow>
     DescBuff (Table (Desc s1)) = Some (dev[2 := lo, 3 := hi, 7 := ucast size0] @
       concat (tree_descs (map (map_cfg (refit fit (Eps (Desc s)))) cs))) \<and>
     MaxPacketSize (EndPoint (Dev s1) ! 0) = size0 \<and> sized_for fit cs s s1 \<and>
     s1 = s\<lparr>Dev := (Dev s)\<lparr>EndPoint := (EndPoint (Dev s))[0 := (EndPoint (Dev s) ! 0)\<lparr>MaxPacketSize := size0\<rparr>]\<rparr>,
       Desc := (Desc s)\<lparr>Table := (Table (Desc s))\<lparr>DescBuff := DescBuff (Table (Desc s1))\<rparr>\<rparr>\<rparr>"

lemma at_speed_applied:
  assumes "speed_ready hw dev cs s"
  shows "speed_applied lo hi size0 fit dev cs s (at_speed lo hi size0 fit dev cs s)"
proof -
  have "0 < length (EndPoint (Dev s))" using assms by (simp add: speed_ready_def)
  then show ?thesis using at_speed_sized [OF assms, of fit lo hi size0]
    by (simp add: speed_applied_def) (simp add: at_speed_def with_tree_def set_desc_table_def set_ep_def)
qed

text \<open>
  C23. A change of the speed of the bus sets the size of every endpoint: at high, full and low speed the
  descriptor of each endpoint of each interface gets the size that fits its type, from the buffer the
  hardware has for it, in its bytes 4 and 5. The device descriptor gets the version (2.00 at high speed, 1.10 at full
  and low speed, 2.00 for a keyboard and mouse device at full speed) and the size of endpoint 0 (8 at low speed). Every other byte
  of the table and all the rest of the device keep their values, so that the searches find the endpoints they found
  before. No size is above the buffer of the hardware, nor above the limit that the code has for the type and the speed.
\<close>

theorem speed_sets_every_size:
  assumes "speed_ready hw dev cs s"
  shows "\<exists>hs fs ls. UsbConfigureHS hw s = Some hs \<and> UsbConfigureFS hw s = Some fs \<and> UsbConfigureLS hw s = Some ls \<and>
    speed_applied 0x00 0x02 (EP0Size hw) size_HS dev cs s hs \<and>
    (if IsDevHid (Dev s) then speed_applied 0x00 0x02 (EP0Size hw) size_FS dev cs s fs
     else speed_applied 0x10 0x01 (EP0Size hw) size_FS dev cs s fs) \<and>
    speed_applied 0x10 0x01 8 size_LS dev cs s ls \<and>
    size_HS ty n \<le> n \<and> size_FS ty n \<le> n \<and> size_LS ty n \<le> n \<and>
    size_HS ty n \<le> (if ty = 1 \<or> ty = 3 then 1024 else if ty = 2 then 512 else 64) \<and> (size_HS 2 n = 512 \<or> size_HS 2 n \<le> 64) \<and>
    size_FS ty n \<le> (if ty = 1 then 1023 else 64) \<and> size_LS ty n \<le> (if ty = 1 then 1023 else if ty = 2 then 64 else 8)"
proof -
  have "size_HS ty n \<le> n" "size_FS ty n \<le> n" "size_LS ty n \<le> n"
    "size_HS ty n \<le> (if ty = 1 \<or> ty = 3 then 1024 else if ty = 2 then 512 else 64)" "size_HS 2 n = 512 \<or> size_HS 2 n \<le> 64"
    "size_FS ty n \<le> (if ty = 1 then 1023 else 64)" "size_LS ty n \<le> (if ty = 1 then 1023 else if ty = 2 then 64 else 8)"
    by (auto simp: size_HS_def size_FS_def size_LS_def Let_def)
  then show ?thesis
    unfolding UsbConfigureHS_def UsbConfigureFS_def UsbConfigureLS_def configure_speed_exact [OF assms]
    using at_speed_applied [OF assms] by (cases "IsDevHid (Dev s)") simp_all
qed

section \<open>A reset of the bus\<close>

text \<open>Handlers that return, and leave the device to the core.\<close>

definition disconnects :: "'i usb_ctl \<Rightarrow> bool" where
  "disconnects s \<longleftrightarrow> list_all (\<lambda>f. case DisconnectHandler f of None \<Rightarrow> True
     | Some h \<Rightarrow> (\<forall>ifn d x. \<exists>x1. h ifn (d, x) = Some (d, x1))) (Inter (Desc s))"

definition if_only :: "'i usb_ctl \<Rightarrow> 'i usb_ctl \<Rightarrow> bool" where
  "if_only s s1 \<longleftrightarrow> (\<exists>x. s1 = s\<lparr>IfState := x\<rparr>)"

lemma if_only_refl [simp]: "if_only s s"
  by (auto simp: if_only_def intro: exI [of _ "IfState s"])

lemma if_only_trans: "if_only s s1 \<Longrightarrow> if_only s1 s2 \<Longrightarrow> if_only s s2"
  by (auto simp: if_only_def)

lemma if_only_desc: "if_only s s1 \<Longrightarrow> Desc s1 = Desc s"
  by (auto simp: if_only_def)

lemma run_disconnect:
  assumes "disconnects s" "f \<in> set (Inter (Desc s))"
  shows "\<exists>s1. run_handler (DisconnectHandler f) ifn s = Some s1 \<and> if_only s s1"
proof (cases "DisconnectHandler f")
  case (Some h)
  obtain x where "h ifn (Dev s, IfState s) = Some (Dev s, x)" using assms Some by (fastforce simp: disconnects_def list_all_iff)
  then show ?thesis using Some by (auto simp: run_handler_def if_only_def)
qed (simp add: run_handler_def)

lemma disconnect_interfaces_run:
  assumes "disconnects s" "\<forall>k\<in>set ks. k < length (Inter (Desc s))"
  shows "\<exists>s1. disconnect_interfaces ks s = Some s1 \<and> if_only s s1"
  using assms
proof (induction ks arbitrary: s)
  case (Cons k ks)
  have k: "arr_get (Inter (Desc s)) k = Some (Inter (Desc s) ! k)" "Inter (Desc s) ! k \<in> set (Inter (Desc s))"
    using Cons.prems by (simp_all add: arr_get_def)
  obtain s1 where s1: "run_handler (DisconnectHandler (Inter (Desc s) ! k)) (of_nat k) s = Some s1" "if_only s s1"
    using run_disconnect [OF Cons.prems(1) k(2)] by blast
  then obtain s2 where s2: "disconnect_interfaces ks s1 = Some s2" "if_only s1 s2"
    using Cons.IH [of s1] Cons.prems if_only_desc [OF s1(2)] by (auto simp: disconnects_def)
  show ?case using k(1) s1(1) s2(1) if_only_trans [OF s1(2) s2(2)] by simp
qed simp

lemma disconnect_configs_run:
  assumes "disconnects s" "table_holds (Table (Desc s)) dev cs" "\<forall>cfg. num_ifs cfg cs \<le> length (Inter (Desc s))"
  shows "\<exists>s1. disconnect_configs ks s = Some s1 \<and> if_only s s1"
  using assms
proof (induction ks arbitrary: s)
  case (Cons k ks)
  obtain n where n: "GetNumInterfaces (Table (Desc s)) (of_nat k) = Some n" "unat n = num_ifs (of_nat k) cs"
    using GetNumInterfaces_tree [OF Cons.prems(2)] by blast
  have "num_ifs (of_nat k) cs \<le> length (Inter (Desc s))" using Cons.prems(3) by blast
  then have "\<forall>j\<in>set [0..<unat n]. j < length (Inter (Desc s))" by (auto simp: n(2))
  then obtain s1 where s1: "disconnect_interfaces [0..<unat n] s = Some s1" "if_only s s1"
    using disconnect_interfaces_run [OF Cons.prems(1)] by blast
  then obtain s2 where s2: "disconnect_configs ks s1 = Some s2" "if_only s1 s2"
    using Cons.IH [of s1] Cons.prems if_only_desc [OF s1(2)] by (auto simp: disconnects_def)
  show ?case using n(1) s1(1) s2(1) if_only_trans [OF s1(2) s2(2)] by simp
qed simp

text \<open>
  The device that a reset leaves: without address and configuration, the endpoints of its configuration
  disabled, nothing to send, no data of requests left. The calls to the hardware are those behind the ones before.
\<close>

definition fresh_device :: "usb_hw \<Rightarrow> u8 list \<Rightarrow> cfg_tree list \<Rightarrow> 'i usb_ctl \<Rightarrow> 'i usb_ctl \<Rightarrow> bool" where
  "fresh_device hw dev cs s s1 \<longleftrightarrow>
     CfgIndex (Dev s1) = 0 \<and> list_all (\<lambda>e. TxReady e \<and> TxData e = None) (EndPoint (Dev s1)) \<and>
     length (EndPoint (Dev s1)) = length (EndPoint (Dev s)) \<and> MaxPacketSize (EndPoint (Dev s1) ! 0) = EP0Size hw \<and>
     wLength (InRequest s1) = 0 \<and> ReqDataLen (InRequest s1) = 0 \<and> wLength (OutRequest s1) = 0 \<and> ReqDataLen (OutRequest s1) = 0 \<and>
     (\<exists>new. hw_calls s1 = hw_calls s @ new \<and> HwSetAddr 0 1 \<in> set new) \<and>
     (\<forall>c\<in>set cs. fst c ! 5 = CfgIndex (Dev s) \<longrightarrow>
        (\<forall>i\<in>set (snd c). \<forall>e\<in>set (snd (snd i)). ep_disabled hw (length (hw_calls s)) e s1)) \<and>
     RemoteWakeup s1 = RemoteWakeup s \<and>
     table_holds (Table (Desc s1)) (if IsDevHid (Dev s) then at_speed_dev 0 2 (EP0Size hw) dev else at_speed_dev 0x10 1 (EP0Size hw) dev)
       (map (map_cfg (refit size_FS (Eps (Desc s)))) cs)"

lemma quiet_length: "quiet s s1 \<Longrightarrow> length (EndPoint (Dev s1)) = length (EndPoint (Dev s))"
  unfolding quiet_def by (metis length_map)

text \<open>The first step: the device loses its configuration.\<close>

lemma unconfigured:
  assumes "speed_ready hw dev cs s"
  shows "\<exists>s1 new. UsbUnCfgDevice hw s = Some s1 \<and> Desc s1 = Desc s \<and> CfgIndex (Dev s1) = 0 \<and> IsDevHid (Dev s1) = IsDevHid (Dev s) \<and>
    Suspend (Dev s1) = Suspend (Dev s) \<and> length (EndPoint (Dev s1)) = length (EndPoint (Dev s)) \<and>
    RemoteWakeup s1 = RemoteWakeup s \<and> hw_calls s1 = hw_calls s @ new \<and>
    (\<forall>c\<in>set cs. fst c ! 5 = CfgIndex (Dev s) \<longrightarrow>
       (\<forall>i\<in>set (snd c). \<forall>e\<in>set (snd (snd i)). ep_disabled hw (length (hw_calls s)) e s1))"
proof (cases "CfgIndex (Dev s) = 0")
  case True
  have "length cs < 255" "map (\<lambda>c. fst c ! 5) cs = map of_nat [1..<Suc (length cs)]"
    using assms by (simp_all add: speed_ready_def numbered_def)
  moreover have "of_nat k \<noteq> (0 :: u8)" if "1 \<le> k" "k < 256" for k using that unat_of_nat_8 [of k] by (auto simp del: unat_of_nat)
  ultimately have "\<forall>x\<in>set (map (\<lambda>c. fst c ! 5) cs). x \<noteq> 0" by (auto simp del: upt_Suc)
  then have "\<forall>c\<in>set cs. fst c ! 5 \<noteq> 0" by auto
  then show ?thesis using True by (auto simp: UsbUnCfgDevice_def)
next
  case False
  let ?s = "s\<lparr>Dev := (Dev s)\<lparr>CfgIndex := 0\<rparr>\<rparr>"
  have t: "table_holds (Table (Desc ?s)) dev cs" "numbered (unat (NumEndpoints hw)) cs" using assms by (simp_all add: speed_ready_def)
  obtain s1 where q: "in_config hw (switch_ep hw False) (CfgIndex (Dev s)) ?s = Some s1" "quiet ?s s1"
    using switch.in_config_quiet [OF t(1)] by blast
  have "UsbUnCfgDevice hw s = Some s1" using False q(1) by (simp add: UsbUnCfgDevice_def)
  moreover obtain new where "hw_calls s1 = hw_calls s @ new" using q(2) by (auto simp: quiet_def)
  moreover have "\<forall>c\<in>set cs. fst c ! 5 = CfgIndex (Dev s) \<longrightarrow>
      (\<forall>i\<in>set (snd c). \<forall>e\<in>set (snd (snd i)). ep_disabled hw (length (hw_calls s)) e s1)"
    using disabling.in_config_marks [OF t(1) _ t(2) q(1), of "length (hw_calls s)"] by simp
  ultimately show ?thesis using q(2) quiet_length [OF q(2)] by (intro exI [of _ s1] exI [of _ new]) (simp add: quiet_def)
qed

lemma restore_init_state:
  assumes "speed_ready hw dev cs s" "disconnects s" "\<forall>cfg. num_ifs cfg cs \<le> length (Inter (Desc s))"
  shows "\<exists>s1. UsbRestoreInitState hw s = Some s1 \<and> fresh_device hw dev cs s s1 \<and> Suspend (Dev s1) = Suspend (Dev s) \<and>
    GetNumConfigurations (Table (Desc s1)) = of_nat (length cs)"
proof -
  have tb: "table_holds (Table (Desc s)) dev cs" using assms(1) by (simp add: speed_ready_def)
  obtain s1 new where s1: "UsbUnCfgDevice hw s = Some s1" "Desc s1 = Desc s" "CfgIndex (Dev s1) = 0" "IsDevHid (Dev s1) = IsDevHid (Dev s)"
    "Suspend (Dev s1) = Suspend (Dev s)" "length (EndPoint (Dev s1)) = length (EndPoint (Dev s))"
    "RemoteWakeup s1 = RemoteWakeup s" "hw_calls s1 = hw_calls s @ new"
    "\<And>c i e. c \<in> set cs \<Longrightarrow> fst c ! 5 = CfgIndex (Dev s) \<Longrightarrow> i \<in> set (snd c) \<Longrightarrow> e \<in> set (snd (snd i)) \<Longrightarrow>
       ep_disabled hw (length (hw_calls s)) e s1"
    using unconfigured [OF assms(1)] by blast
  let ?s3 = "(UsbSetAddr 0 1 s1)\<lparr>InRequest := (InRequest s1)\<lparr>ReqDataLen := 0, wLength := 0\<rparr>,
    OutRequest := (OutRequest s1)\<lparr>ReqDataLen := 0, wLength := 0\<rparr>, Dev := (Dev s1)\<lparr>EndPoint := map idle_ep (EndPoint (Dev s1))\<rparr>\<rparr>"
  have d3: "Desc ?s3 = Desc s" using s1(2) by (simp add: UsbSetAddr_def call_hw_def)
  obtain s4 where s4: "disconnect_configs [1..<Suc (unat (GetNumConfigurations (Table (Desc ?s3))))] ?s3 = Some s4" "if_only ?s3 s4"
    using disconnect_configs_run [of ?s3 dev cs] assms(2,3) tb d3 by (fastforce simp: disconnects_def)
  obtain x where x: "s4 = ?s3\<lparr>IfState := x\<rparr>" using s4(2) by (auto simp: if_only_def)
  have r4: "speed_ready hw dev cs s4" using assms(1) d3 s1(6) by (auto simp: x speed_ready_def)
  have h4: "IsDevHid (Dev s4) = IsDevHid (Dev s)" by (simp add: x s1(4))
  have ne: "EndPoint (Dev s1) \<noteq> []" using assms(1) s1(6) by (auto simp: speed_ready_def)
  define F where "F = (if IsDevHid (Dev s) then at_speed 0x00 0x02 (EP0Size hw) size_FS dev cs s4 else at_speed 0x10 0x01 (EP0Size hw) size_FS dev cs s4)"
  have fs: "UsbConfigureFS hw s4 = Some F"
    using h4 by (simp add: UsbConfigureFS_def configure_speed_exact [OF r4] F_def)
  have "UsbRestoreInitState hw s = Some F"
    using s1(1) s4(1) fs by (simp add: UsbRestoreInitState_def UsbSetAddr_def call_hw_def Let_def del: upt_Suc)
  moreover have "fresh_device hw dev cs s F"
  proof -
    have e: "Eps (Desc s4) = Eps (Desc s)" using d3 by (simp add: x)
    have "table_holds (Table (Desc F)) (if IsDevHid (Dev s) then at_speed_dev 0 2 (EP0Size hw) dev else at_speed_dev 0x10 1 (EP0Size hw) dev)
       (map (map_cfg (refit size_FS (Eps (Desc s)))) cs)"
      using at_speed_holds [OF r4, of _ _ "EP0Size hw" size_FS] by (simp add: F_def e)
    moreover obtain e es where ee: "EndPoint (Dev s1) = e # es" using ne by (cases "EndPoint (Dev s1)") auto
    then have eps: "EndPoint (Dev F) = (idle_ep e)\<lparr>MaxPacketSize := EP0Size hw\<rparr> # map idle_ep es"
      by (simp add: F_def at_speed_def set_ep_def x)
    then have "list_all (\<lambda>e. TxReady e \<and> TxData e = None) (EndPoint (Dev F))" "length (EndPoint (Dev F)) = length (EndPoint (Dev s))"
      "MaxPacketSize (EndPoint (Dev F) ! 0) = EP0Size hw"
      using s1(6) ee by (simp_all add: list_all_iff idle_ep_def)
    moreover have calls: "hw_calls F = hw_calls s1 @ [HwSetAddr 0 1]"
      by (simp add: F_def at_speed_def set_ep_def x UsbSetAddr_def call_hw_def)
    moreover have "CfgIndex (Dev F) = 0" "wLength (InRequest F) = 0" "ReqDataLen (InRequest F) = 0" "wLength (OutRequest F) = 0"
      "ReqDataLen (OutRequest F) = 0" "RemoteWakeup F = RemoteWakeup s"
      using s1(3,7) by (simp_all add: F_def at_speed_def set_ep_def x UsbSetAddr_def call_hw_def with_tree_def set_desc_table_def)
    moreover have "map ep_key (EndPoint (Dev F)) = map ep_key (EndPoint (Dev s1))" by (simp add: eps ee ep_key_def idle_ep_def)
    then have "ep_disabled hw (length (hw_calls s)) e F" if "c \<in> set cs" "fst c ! 5 = CfgIndex (Dev s)" "i \<in> set (snd c)" "e \<in> set (snd (snd i))" for c i e
      using ep_disabled_kept [OF s1(9) [OF that] _ calls] by blast
    ultimately show ?thesis using s1(8) by (simp add: fresh_device_def)
  qed
  moreover have "Suspend (Dev F) = Suspend (Dev s)" "GetNumConfigurations (Table (Desc F)) = of_nat (length cs)"
    using s1(5) r4 by (simp_all add: F_def at_speed_def set_ep_def x speed_ready_def)
  ultimately show ?thesis by blast
qed

text \<open>
  C20. What a reset of the bus leaves, whatever the device was doing: it is not suspended, it has no
  configuration and the hardware has been told its address 0; every endpoint of the configuration it had
  is disabled, and the hardware told so where it has that call; no endpoint has anything to send; the writers that sleep on an endpoint
  of the tree have been woken; neither request has data left; and its descriptors are those of full
  speed. The remote wake-up that a host has enabled stays enabled. In that state the receive
  handler does nothing, and a non-blocking write to an endpoint other than 0 is refused. The reset faults on
  no table of numbered descriptors, provided that the handlers of the interfaces return and leave the device to the core.
\<close>

theorem bus_reset:
  assumes "speed_ready hw dev cs s" "disconnects s" "\<forall>cfg. num_ifs cfg cs \<le> length (Inter (Desc s))"
  shows "\<exists>s1. UsbBusReset hw s = Some s1 \<and> fresh_device hw dev cs s s1 \<and> \<not> Suspend (Dev s1) \<and>
    (\<forall>c\<in>set cs. \<forall>i\<in>set (snd c). \<forall>e\<in>set (snd (snd i)). ep_woken (length (hw_calls s)) e s1) \<and>
    UsbRxHandler ep s1 = Some s1 \<and> UsbWriteDataNonBlock (if ep = 0 then 1 else ep) buf len z (Dev s1) = Some (1, Dev s1)"
proof -
  let ?s = "s\<lparr>Dev := (Dev s)\<lparr>Suspend := False\<rparr>\<rparr>" and ?cs = "map (map_cfg (refit size_FS (Eps (Desc s)))) cs"
  have "speed_ready hw dev cs ?s" "disconnects ?s" using assms(1,2) by (simp_all add: speed_ready_def disconnects_def)
  then obtain s1 where s1: "UsbRestoreInitState hw ?s = Some s1" "fresh_device hw dev cs ?s s1" "\<not> Suspend (Dev s1)"
    "GetNumConfigurations (Table (Desc s1)) = of_nat (length cs)"
    using restore_init_state [of hw dev cs ?s] assms(3) by auto
  note f1 = s1(2) [unfolded fresh_device_def]
  let ?s1 = "s1\<lparr>Dev := (Dev s1)\<lparr>CfgIndex := 0\<rparr>\<rparr>"
  obtain dev1 where t1: "table_holds (Table (Desc ?s1)) dev1 ?cs" using f1 by auto
  obtain s2 where s2: "all_configs hw wake_ep ?s1 = Some s2" "quiet ?s1 s2" using wake.all_configs_quiet [OF t1] by blast
  have n: "numbered (unat (NumEndpoints hw)) ?cs" using assms(1) by (intro numbered_mapped) (simp add: speed_ready_def)
  have I: "length (hw_calls s) \<le> length (hw_calls ?s1) \<and> Dev ?s1 = (Dev s1)\<lparr>CfgIndex := 0\<rparr>" using f1 by auto
  have m: "Dev s2 = (Dev s1)\<lparr>CfgIndex := 0\<rparr>"
    "\<And>c i e. c \<in> set ?cs \<Longrightarrow> i \<in> set (snd c) \<Longrightarrow> e \<in> set (snd (snd i)) \<Longrightarrow> ep_woken (length (hw_calls s)) e s2"
    using waking.all_configs_marks [OF t1 I n _ s2(1)] s1(4) by auto
  have woken: "ep_woken (length (hw_calls s)) e s2" if c: "c \<in> set cs" "i \<in> set (snd c)" "e \<in> set (snd (snd i))" for c i e
  proof -
    let ?g = "refit size_FS (Eps (Desc s))"
    have "map_cfg ?g c \<in> set ?cs" "map_if ?g i \<in> set (snd (map_cfg ?g c))" "?g e \<in> set (snd (snd (map_if ?g i)))"
      using c by (simp_all add: map_cfg_def map_if_def)
    from m(2) [OF this] show ?thesis by (simp add: ep_woken_def desc_num_def desc_dir_def same_headD(4) [OF refit_head])
  qed
  obtain new where new: "hw_calls s2 = hw_calls s1 @ new" using s2(2) by (auto simp: quiet_def)
  have d: "Desc s2 = Desc s1" "InRequest s2 = InRequest s1" "OutRequest s2 = OutRequest s1" "RemoteWakeup s2 = RemoteWakeup s1"
    using s2(2) by (simp_all add: quiet_def)
  have "ep_disabled hw (length (hw_calls s)) e s2" if "ep_disabled hw (length (hw_calls s)) e s1" for e
    by (rule ep_disabled_kept [OF that _ new]) (simp add: m(1))
  then have "fresh_device hw dev cs s s2" using f1 by (auto simp: fresh_device_def m(1) new d)
  moreover have "UsbBusReset hw s = Some s2" using s1(1) s2(1) by (simp add: UsbBusReset_def)
  moreover have "UsbRxHandler ep s2 = Some s2" by (simp add: UsbRxHandler_def CallInterfaceRxHandler_def call_interface_def m(1))
  moreover have "UsbWriteDataNonBlock n buf len z (Dev s2) = Some (1, Dev s2)" if "n \<noteq> 0" for n
    using that by (simp add: UsbWriteDataNonBlock_def m(1) split: option.split)
  ultimately show ?thesis using s1(3) m(1) woken by (intro exI [of _ s2]) auto
qed

text \<open>The sample device with a mass storage interface, in the middle of a transfer.\<close>

definition sample_bus :: "bot_sys usb_ctl" where
  "sample_bus = (sample_ctl sample_bot)\<lparr>Desc := sample_desc\<lparr>Inter := [no_interface\<lparr>DisconnectHandler := Some bot_rem_handler\<rparr>],
     Eps := \<lparr>ep_configs = [\<lparr>ep_num = 1, ep_dir = 0x80, ep_size = 1024, ep_type = 2, is_ep_used = True\<rparr>,
       \<lparr>ep_num = 2, ep_dir = 0, ep_size = 1024, ep_type = 2, is_ep_used = True\<rparr>], num_eps = 2, epnumbuf = replicate 30 False\<rparr>\<rparr>\<rparr>"

lemma sample_bus_ready:
  "speed_ready sample_hw sample_device_desc sample_tree sample_bus" "disconnects sample_bus"
  "num_ifs cfg sample_tree \<le> length (Inter (Desc sample_bus))"
proof -
  have t: "Table (Desc sample_bus) = sample_table" by (simp add: sample_bus_def sample_desc_def)
  have "numbered 21 sample_tree"
    by (simp add: numbered_def cfg_numbered_def if_numbered_def sample_tree_def ep_addr_def ep_no_def)
  moreover have "GetNumConfigurations sample_table = of_nat (length sample_tree)"
    by (simp add: GetNumConfigurations_def sample_table_def initial_table_def sample_tree_def)
  moreover have "sizes_known (Eps (Desc sample_bus))" "EndPoint (Dev sample_bus) \<noteq> []"
    by (simp_all add: sizes_known_def sample_bus_def sample_ctl_def)
  moreover have "sample_device_desc ! 1 = DEVICE" "18 \<le> length sample_device_desc" "unat (NumEndpoints sample_hw) = 21"
    by (simp_all add: sample_device_desc_def DEVICE_def sample_hw_def)
  ultimately show "speed_ready sample_hw sample_device_desc sample_tree sample_bus"
    unfolding speed_ready_def t using sample_table_holds by simp
  show "disconnects sample_bus" by (simp add: disconnects_def sample_bus_def bot_rem_handler_def no_interface_def)
  show "num_ifs cfg sample_tree \<le> length (Inter (Desc sample_bus))"
    by (simp add: num_ifs_def find_config_def sample_tree_def sample_bus_def)
qed

theorem bus_reset_witness:
  "\<exists>s1. UsbBusReset sample_hw sample_bus = Some s1 \<and> fresh_device sample_hw sample_device_desc sample_tree sample_bus s1 \<and>
    \<not> Suspend (Dev s1) \<and> UsbRxHandler 2 s1 = Some s1 \<and> ep_disabled sample_hw 0 [7, 5, 0x81, 2, 64, 0, 0] s1 \<and>
    ep_woken 0 [7, 5, 0x81, 2, 64, 0, 0] s1"
proof -
  obtain s1 where s1: "UsbBusReset sample_hw sample_bus = Some s1" "fresh_device sample_hw sample_device_desc sample_tree sample_bus s1"
    "\<not> Suspend (Dev s1)" "\<forall>c\<in>set sample_tree. \<forall>i\<in>set (snd c). \<forall>e\<in>set (snd (snd i)). ep_woken (length (hw_calls sample_bus)) e s1"
    "UsbRxHandler 2 s1 = Some s1"
    using bus_reset [OF sample_bus_ready(1,2), of 2 None 0 False] sample_bus_ready(3) by auto
  have "hw_calls sample_bus = []" "CfgIndex (Dev sample_bus) = 1" by (simp_all add: sample_bus_def sample_ctl_def)
  then show ?thesis using s1 by (auto simp: fresh_device_def sample_tree_def)
qed

theorem speed_sets_every_size_witness:
  "\<exists>hs ls. UsbConfigureHS sample_hw sample_bus = Some hs \<and> speed_applied 0 2 64 size_HS sample_device_desc sample_tree sample_bus hs \<and>
    UsbConfigureLS sample_hw sample_bus = Some ls \<and> speed_applied 0x10 1 8 size_LS sample_device_desc sample_tree sample_bus ls \<and>
    ep_size_at size_HS (Eps (Desc sample_bus)) [7, 5, 0x81, 2, 64, 0, 0] = 512"
proof -
  have "ep_size_at size_HS (Eps (Desc sample_bus)) [7, 5, 0x81, 2, 64, 0, 0] = 512"
    by (simp add: ep_size_at_def GetEndPointBufSize_def sample_bus_def size_HS_def Let_def)
  moreover have "EP0Size sample_hw = 64" by (simp add: sample_hw_def)
  ultimately show ?thesis using speed_sets_every_size [OF sample_bus_ready(1), of 0 0] by auto
qed

end
