(* ===== verification/UsbMassProps.thy ===== *)
theory UsbMassProps imports UsbBuild UsbSample begin

text \<open>
  The descriptors that a device module builds, from the empty table, and what a host reads of them.
\<close>

unbundle bit_operations_syntax

section \<open>The descriptors of a mass storage device\<close>

definition mass_device :: "mass_kind \<Rightarrow> usb_hw \<Rightarrow> u8 list" where
  "mass_device k hw = device_desc (EP0Size hw) VENDOR_ID (product_id k) DEVICE_REV 1 2 3 1"

text \<open>One configuration, one interface of the Bulk-Only Transport, an endpoint for each direction.\<close>

definition mass_tree :: "u8 \<Rightarrow> ep_config \<Rightarrow> ep_config \<Rightarrow> cfg_tree list" where
  "mass_tree interval e1 e2 =
     [(config_desc 32 1 1,
       [(interface_desc 0 2 0x08 0x06 0x50 4, [],
         [endpoint_desc (ep_num e1 OR EP_ADDR_IN) 0x02 (ep_size e1) interval, endpoint_desc (ep_num e2 OR 0) 0x02 (ep_size e2) interval])])]"

definition mass_strings :: "mass_kind \<Rightarrow> u8 list list" where
  "mass_strings k = map (map of_char) [''American Megatrends Inc.'', device_text k, serial_number k, interface_text k]"

definition mass_kinds :: "mass_kind set" where "mass_kinds = {hdisk_kind, cdrom_kind, floppy_kind}"

lemma mass_strings_short:
  assumes "k \<in> mass_kinds"
  shows "length (device_text k) \<le> 125" "length (serial_number k) \<le> 125" "length (interface_text k) \<le> 125"
  using assms by (auto simp: mass_kinds_def hdisk_kind_def cdrom_kind_def floppy_kind_def)

text \<open>Bulk endpoints of the hardware: one for each direction, whichever the first request gets.\<close>

definition bulk :: "u8 \<Rightarrow> ep_config \<Rightarrow> bool" where
  "bulk dir e \<longleftrightarrow> suits dir 0x02 0x40 (e\<lparr>is_ep_used := False\<rparr>)"

definition bulk_ready :: "ep_info \<Rightarrow> bool" where
  "bulk_ready x \<longleftrightarrow> eps_known x \<and> (\<exists>j<unat (num_eps x). bulk EP_ADDR_IN (ep_configs x ! j)) \<and>
     (\<forall>j<unat (num_eps x). bulk EP_ADDR_IN (ep_configs x ! j) \<longrightarrow> (\<exists>k<unat (num_eps x). k \<noteq> j \<and> bulk 0x00 (ep_configs x ! k)))"

lemma fresh_eps_nth:
  assumes "j < unat (num_eps x)" "eps_known x"
  shows "ep_configs (fresh_eps x) ! j = (ep_configs x ! j)\<lparr>is_ep_used := False\<rparr>"
  using assms by (simp add: fresh_eps_def unuse_def eps_known_def nth_append)

lemma eps_known_at:
  assumes "eps_known x" "j < unat (num_eps x)"
  shows "1 \<le> unat (ep_num (ep_configs x ! j)) \<and> unat (ep_num (ep_configs x ! j)) < 16"
  using assms by (simp add: eps_known_def)

lemma eps_known_fresh: "eps_known x \<Longrightarrow> eps_known (fresh_eps x)"
  by (auto simp: eps_known_def fresh_eps_def unuse_def dest: in_set_takeD in_set_dropD)

lemma eps_known_used: "eps_known x \<Longrightarrow> j < length (ep_configs x) \<Longrightarrow>
    eps_known (x\<lparr>ep_configs := (ep_configs x)[j := use_ep dir (ep_configs x ! j)], epnumbuf := b[n := True]\<rparr>)
      \<longleftrightarrow> 16 \<le> length b"
  by (auto simp: eps_known_def use_ep_def dest!: set_update_subset_insert [THEN subsetD])

lemma bulk_selected:
  assumes "bulk_ready x"
  obtains j k x1 x2 where "j \<noteq> k" "j < unat (num_eps x)" "k < unat (num_eps x)"
    "bulk EP_ADDR_IN (ep_configs x ! j)" "bulk 0x00 (ep_configs x ! k)"
    "select_suitable_endpoint EP_ADDR_IN 0x02 0x40 0x200 (fresh_eps x) = Some (ep_num (ep_configs x ! j), ep_size (ep_configs x ! j), x1)"
    "select_suitable_endpoint 0x00 0x02 0x40 0x200 x1 = Some (ep_num (ep_configs x ! k), ep_size (ep_configs x ! k), x2)"
proof -
  have kn: "eps_known x" using assms by (simp add: bulk_ready_def)
  let ?f = "fresh_eps x" and ?n = "unat (num_eps x)"
  have n: "num_eps ?f = num_eps x" by (simp add: fresh_eps_def)
  obtain i where "i < ?n" "bulk EP_ADDR_IN (ep_configs x ! i)" using assms by (auto simp: bulk_ready_def)
  then obtain j where j: "j < ?n" "suits EP_ADDR_IN 0x02 0x40 (ep_configs ?f ! j)"
    "select_suitable_endpoint EP_ADDR_IN 0x02 0x40 0x200 ?f = Some (ep_num (ep_configs ?f ! j), ep_size (ep_configs ?f ! j),
      ?f\<lparr>ep_configs := (ep_configs ?f)[j := use_ep EP_ADDR_IN (ep_configs ?f ! j)],
         epnumbuf := (epnumbuf ?f)[unat (ep_num (ep_configs ?f ! j)) := True]\<rparr>)"
    using select_suitable_endpoint_finds [OF eps_known_fresh [OF kn], of i EP_ADDR_IN "0x02" "0x40" "0x200"]
    by (auto simp: n fresh_eps_nth [OF _ kn] bulk_def)
  have bj: "bulk EP_ADDR_IN (ep_configs x ! j)" using j by (simp add: bulk_def fresh_eps_nth [OF _ kn])
  define x1 where "x1 = ?f\<lparr>ep_configs := (ep_configs ?f)[j := use_ep EP_ADDR_IN (ep_configs ?f ! j)],
         epnumbuf := (epnumbuf ?f)[unat (ep_num (ep_configs ?f ! j)) := True]\<rparr>"
  have jl: "j < length (ep_configs ?f)" using j(1) kn by (simp add: fresh_eps_def unuse_def eps_known_def)
  have "16 \<le> length (epnumbuf ?f)" using kn by (simp add: fresh_eps_def eps_known_def)
  then have k1: "eps_known x1" "num_eps x1 = num_eps x"
    unfolding x1_def using eps_known_used [OF eps_known_fresh [OF kn] jl] n by simp_all
  obtain i2 where i2: "i2 < ?n" "i2 \<noteq> j" "bulk 0x00 (ep_configs x ! i2)" using assms j(1) bj by (auto simp: bulk_ready_def)
  have other: "ep_configs x1 ! i = (ep_configs x ! i)\<lparr>is_ep_used := False\<rparr>" if "i < ?n" "i \<noteq> j" for i
    using that by (simp add: x1_def fresh_eps_nth [OF _ kn])
  have taken: "\<not> suits dir ty mn (ep_configs x1 ! j)" for dir ty mn
    using jl by (simp add: x1_def suits_def use_ep_def)
  obtain k x2 where k: "k < ?n" "suits 0x00 0x02 0x40 (ep_configs x1 ! k)"
    "select_suitable_endpoint 0x00 0x02 0x40 0x200 x1 = Some (ep_num (ep_configs x1 ! k), ep_size (ep_configs x1 ! k), x2)"
    using select_suitable_endpoint_finds [OF k1(1), of i2 "0x00" "0x02" "0x40" "0x200"] i2 other [of i2]
    by (auto simp: k1(2) bulk_def)
  have kj: "k \<noteq> j" using k(2) taken by auto
  show ?thesis
  proof (rule that [of j k x1 x2])
    show "bulk 0x00 (ep_configs x ! k)" using k kj other [of k] by (simp add: bulk_def)
    show "select_suitable_endpoint EP_ADDR_IN 0x02 0x40 0x200 ?f = Some (ep_num (ep_configs x ! j), ep_size (ep_configs x ! j), x1)"
      using j by (simp add: x1_def fresh_eps_nth [OF _ kn])
    show "select_suitable_endpoint 0x00 0x02 0x40 0x200 x1 = Some (ep_num (ep_configs x ! k), ep_size (ep_configs x ! k), x2)"
      using k kj other [of k] by simp
  qed (use kj j(1) k(1) bj in auto)
qed

text \<open>The table a module leaves, and the allocations it needs.\<close>

definition mass_table :: "mass_kind \<Rightarrow> usb_hw \<Rightarrow> u8 \<Rightarrow> ep_config \<Rightarrow> ep_config \<Rightarrow> desc_table" where
  "mass_table k hw interval e1 e2 =
     under_way (mass_device k hw # tree_descs (mass_tree interval e1 e2)) [] (mass_strings k) 2 1 (ep_num e2)"

definition memory_for :: "create_mem \<Rightarrow> bool" where
  "memory_for mem \<longleftrightarrow> if_mem mem \<noteq> None \<and> inquiry_ok mem \<and> event_mem mem \<noteq> None \<and> (\<forall>i. texts_ok mem i) \<and>
     (\<exists>b. desc_mem mem = Some b \<and> length b = 50)"

lemma step_ok_then: "f s = Some (0, s1) \<Longrightarrow> g s1 = r \<Longrightarrow> step_ok f g s = r"
  by (simp add: step_ok_def)

lemma descriptors_ok:
  "desc_ok (device_desc a b c d i j l n)" "desc_ok (config_desc n nifs cfg)" "desc_ok (interface_desc n eps cls sub prot i)"
  "desc_ok (endpoint_desc e ty sz interval)"
  by (simp_all add: desc_ok_def device_desc_def config_desc_def interface_desc_def endpoint_desc_def
      DEVICE_def CONFIGURATION_def INTERFACE_def ENDPOINT_def)

lemma add_descriptors_built:
  assumes k: "k \<in> mass_kinds" and b: "length b = 50" and t: "\<forall>i. ok i" and f: "Inter s = f # fs"
    and n: "unat (ep_num e1) < 16" "unat (ep_num e2) < 16"
    and sel: "select_suitable_endpoint EP_ADDR_IN 0x02 0x40 0x200 (fresh_eps (Eps s)) = Some (ep_num e1, ep_size e1, x1)"
      "select_suitable_endpoint 0x00 0x02 0x40 0x200 x1 = Some (ep_num e2, ep_size e2, x2)"
  shows "\<exists>s1. add_descriptors k info ok interval hw (s\<lparr>Table := under_way [] b [] 1 0 1\<rparr>) = Some (0, s1) \<and>
    Table s1 = mass_table k hw interval e1 e2 \<and> Eps s1 = x2 \<and>
    Inter s1 = info\<lparr>IfDataInEp := ep_num e1, IfDataOutEp := ep_num e2\<rparr> # fs"
proof -
  let ?am = "map of_char ''American Megatrends Inc.'' :: u8 list" and ?dv = "map of_char (device_text k) :: u8 list"
    and ?sn = "map of_char (serial_number k) :: u8 list" and ?it = "map of_char (interface_text k) :: u8 list"
  let ?d0 = "device_desc (EP0Size hw) VENDOR_ID (product_id k) DEVICE_REV 1 2 0 0"
    and ?d1 = "device_desc (EP0Size hw) VENDOR_ID (product_id k) DEVICE_REV 1 2 3 0"
    and ?c = "config_desc 32 1 1" and ?i = "interface_desc 0 2 0x08 0x06 0x50 4"
  let ?ein = "endpoint_desc (ep_num e1 OR EP_ADDR_IN) 0x02 (ep_size e1) interval"
    and ?eout = "endpoint_desc (ep_num e2 OR 0) 0x02 (ep_size e2) interval"
  note short = mass_strings_short [OF k]
  have up: "?d0[16 := 3] = ?d1" "?d1[17 := ?d1 ! 17 + 1] = mass_device k hw" "?d0 ! Suc 0 = DEVICE" "?d1 ! Suc 0 = DEVICE"
    by (simp_all add: device_desc_def mass_device_def)
  have md: "desc_ok (mass_device k hw)" "length (mass_device k hw) = 18" by (simp_all add: mass_device_def descriptors_ok)
  have s1: "AddDeviceDesc ok (EP0Size hw) VENDOR_ID (product_id k) DEVICE_REV (Some ?am) (Some ?dv) False (s\<lparr>Table := under_way [] b [] 1 0 1\<rparr>)
      = Some (0, s\<lparr>Table := under_way [?d0] (drop 18 b) [?am, ?dv] 1 0 1\<rparr>)"
    using AddDeviceDesc_under_way [where ds = "[]" and junk = b and a = ?am and b = ?dv and strs = "[]" and ok = ok] b t short by simp
  have s2: "set_serial (ok 3) ?sn (s\<lparr>Table := under_way [?d0] (drop 18 b) [?am, ?dv] 1 0 1\<rparr>)
      = Some (0, s\<lparr>Table := under_way [?d1] (drop 18 b) [?am, ?dv, ?sn] 1 0 1\<rparr>)"
    using set_serial_under_way [where dev = ?d0 and ds = "[]" and junk = "drop 18 b" and tx = ?sn and strs = "[?am, ?dv]"] b t short
    by (simp add: up)
  have s3: "AddCfgDesc 1 False (s\<lparr>Table := under_way [?d1] (drop 18 b) [?am, ?dv, ?sn] 1 0 1\<rparr>)
      = Some (0, s\<lparr>Eps := fresh_eps (Eps s), Table := under_way [mass_device k hw, ?c] (drop 27 b) [?am, ?dv, ?sn] 2 0 1\<rparr>)"
    using AddCfgDesc_under_way [where dev = ?d1 and ds = "[]" and junk = "drop 18 b" and nifs = 1 and cfg = 1] b by (simp add: up)
  let ?s3 = "s\<lparr>Eps := fresh_eps (Eps s)\<rparr>"
  have s4: "AddInterfaceDesc (ok 4) 2 0x08 0x06 0x50 (Some ?it) info (?s3\<lparr>Table := under_way [mass_device k hw, ?c] (drop 27 b) [?am, ?dv, ?sn] 2 0 1\<rparr>)
      = Some (0, ?s3\<lparr>Inter := info # fs, Table := under_way [mass_device k hw, ?c, ?i] (drop 36 b) (mass_strings k) 2 1 1\<rparr>)"
    using AddInterfaceDesc_under_way [where ds = "[mass_device k hw, ?c]" and junk = "drop 27 b" and a = ?it and strs = "[?am, ?dv, ?sn]"
        and n = 0 and s = ?s3] b t short by (simp add: f md mass_strings_def)
  let ?s4 = "?s3\<lparr>Inter := info # fs\<rparr>"
  have head: "?c ! 1 = CONFIGURATION" "?c ! 5 = 2 - 1" "?c ! 4 \<noteq> 0" "?i ! 1 = INTERFACE" "?i ! 2 = 0" "?i ! 4 \<noteq> 0"
    by (simp_all add: config_desc_def interface_desc_def)
  have nf: "ep_num e1 \<noteq> 0xFF" "ep_num e2 \<noteq> 0xFF" using n by auto
  note ep = AddEndPointDesc_under_way [where dev = "mass_device k hw" and c = ?c and i = ?i and cfg = 2, OF _ _ _ _ md(1) descriptors_ok(2,3) _ head]
  have s5: "AddEndPointDesc EP_ADDR_IN 0x02 0x40 0x200 interval DATA_EP
        (?s4\<lparr>Table := under_way ([mass_device k hw, ?c, ?i] @ []) (drop 36 b) (mass_strings k) 2 1 1\<rparr>)
      = Some (0, ?s4\<lparr>Eps := x1, Inter := set_interface_ep DATA_EP EP_ADDR_IN (ep_num e1) info # fs,
          Table := under_way ([mass_device k hw, ?c, ?i] @ [] @ [?ein]) (drop 7 (drop 36 b)) (mass_strings k) 2 1 (ep_num e1)\<rparr>)"
    by (rule ep) (use sel nf b md n address_matches(1) in simp_all)
  let ?s5 = "?s4\<lparr>Eps := x1, Inter := set_interface_ep DATA_EP EP_ADDR_IN (ep_num e1) info # fs\<rparr>"
  have s6: "AddEndPointDesc 0x00 0x02 0x40 0x200 interval DATA_EP
        (?s5\<lparr>Table := under_way ([mass_device k hw, ?c, ?i] @ [?ein]) (drop 7 (drop 36 b)) (mass_strings k) 2 1 (ep_num e1)\<rparr>)
      = Some (0, ?s5\<lparr>Eps := x2, Inter := set_interface_ep DATA_EP 0 (ep_num e2) (set_interface_ep DATA_EP EP_ADDR_IN (ep_num e1) info) # fs,
          Table := under_way ([mass_device k hw, ?c, ?i] @ [?ein] @ [?eout]) (drop 7 (drop 7 (drop 36 b))) (mass_strings k) 2 1 (ep_num e2)\<rparr>)"
  proof (rule ep)
    show "list_all (\<lambda>d. d ! 1 = ENDPOINT \<and> \<not> ep_matches (ep_num e2) (drop_bit 7 0) (d ! 2)) [?ein]"
      using address_matches(3) [OF n(1)] by (simp add: endpoint_desc_def)
    show "ep_matches (ep_num e2) (drop_bit 7 0) (ep_num e2 OR 0)" by (rule address_matches(2) [OF n(2)])
  qed (use sel nf b md in \<open>simp_all add: descriptors_ok\<close>)
  have all: "add_descriptors k info ok interval hw (s\<lparr>Table := under_way [] b [] 1 0 1\<rparr>) = Some (0,
      ?s5\<lparr>Eps := x2, Inter := set_interface_ep DATA_EP 0 (ep_num e2) (set_interface_ep DATA_EP EP_ADDR_IN (ep_num e1) info) # fs,
          Table := under_way ([mass_device k hw, ?c, ?i] @ [?ein] @ [?eout]) (drop 7 (drop 7 (drop 36 b))) (mass_strings k) 2 1 (ep_num e2)\<rparr>)"
    unfolding add_descriptors_def
    by (rule step_ok_then, rule s1, rule step_ok_then, rule s2, rule step_ok_then, rule s3, rule step_ok_then, rule s4,
        rule step_ok_then, rule s5 [unfolded append_Nil append_Nil2], rule step_ok_then, rule s6, rule refl)
  have tr: "tree_descs (mass_tree interval e1 e2) = [?c, ?i, ?ein, ?eout]"
    by (simp add: mass_tree_def cfg_descs_def if_descs_def)
  have i: "set_interface_ep DATA_EP 0 (ep_num e2) (set_interface_ep DATA_EP EP_ADDR_IN (ep_num e1) info) =
      info\<lparr>IfDataInEp := ep_num e1, IfDataOutEp := ep_num e2\<rparr>"
    by (simp add: set_interface_ep_def EP_ADDR_IN_def)
  show ?thesis unfolding all by (simp add: mass_table_def b tr i)
qed

lemma mass_tree_ok:
  assumes "1 \<le> unat (ep_num e1)" "unat (ep_num e1) < 16" "1 \<le> unat (ep_num e2)" "unat (ep_num e2) < 16"
  shows "list_all cfg_ok (mass_tree interval e1 e2)" "numbered 15 (mass_tree interval e1 e2)"
    "find_config 1 (mass_tree interval e1 e2) = Some (hd (mass_tree interval e1 e2))"
    "length (concat (cfg_descs (hd (mass_tree interval e1 e2)))) = 32"
proof -
  have a: "unat ((ep_num e1 OR EP_ADDR_IN) AND 0x0F) = unat (ep_num e1)" "unat ((ep_num e2 OR 0) AND 0x0F) = unat (ep_num e2)"
    by (rule address_matches(4) [OF assms(2)], rule address_matches(5) [OF assms(4)])
  have "(ep_num e1 OR EP_ADDR_IN) AND 0x8F = ep_num e1 OR EP_ADDR_IN" "(ep_num e2 OR 0) AND 0x8F = ep_num e2 OR 0"
    using small_number [OF assms(2)] small_number [OF assms(4)] by (auto simp: EP_ADDR_IN_def)
  moreover have "ep_num e1 OR EP_ADDR_IN \<noteq> ep_num e2 OR 0" using address_matches(6) [OF assms(2)] assms(4) by (meson leD)
  ultimately have d: "(ep_num e1 OR EP_ADDR_IN) AND 0x8F \<noteq> (ep_num e2 OR 0) AND 0x8F" by simp
  have f: "endpoint_desc x ty sz i ! 1 = ENDPOINT" "endpoint_desc x ty sz i ! 2 = x" for x ty sz i by (simp_all add: endpoint_desc_def)
  have h: "config_desc 32 1 1 ! 1 = CONFIGURATION" "interface_desc 0 2 c d p i ! 1 = INTERFACE" "interface_desc 0 2 c d p i ! 4 = 2" for c d p i
    by (simp_all add: config_desc_def interface_desc_def)
  show "list_all cfg_ok (mass_tree interval e1 e2)"
    using f h descriptors_ok by (simp add: mass_tree_def cfg_ok_def if_ok_def if_descs_def)
  show "numbered 15 (mass_tree interval e1 e2)"
    using assms a d f
    by (simp add: mass_tree_def numbered_def cfg_numbered_def if_numbered_def ep_no_def ep_addr_def config_desc_def interface_desc_def)
  show "find_config 1 (mass_tree interval e1 e2) = Some (hd (mass_tree interval e1 e2))"
    by (simp add: mass_tree_def find_config_def config_desc_def)
  show "length (concat (cfg_descs (hd (mass_tree interval e1 e2)))) = 32"
    by (simp add: mass_tree_def cfg_descs_def if_descs_def)
qed

lemma mass_table_holds:
  assumes "1 \<le> unat (ep_num e1)" "unat (ep_num e1) < 16" "1 \<le> unat (ep_num e2)" "unat (ep_num e2) < 16"
  shows "table_holds (mass_table k hw interval e1 e2) (mass_device k hw) (mass_tree interval e1 e2)"
proof -
  let ?b = "mass_device k hw @ concat (tree_descs (mass_tree interval e1 e2))"
  have n: "length ?b = 50" by (simp add: mass_device_def mass_tree_def tree_descs_def cfg_descs_def if_descs_def)
  have "unat (DescSize (mass_table k hw interval e1 e2)) = length ?b"
    using u16_of_nat(1) [of "length ?b"] n by (simp add: mass_table_def under_way_def del: length_concat length_append)
  then show ?thesis
    using mass_tree_ok(1) [OF assms] descriptors_ok(1)
    by (simp add: table_holds_def mass_device_def mass_table_def under_way_def)
qed

text \<open>The strings a host reads, from the numbers the descriptors give it.\<close>

definition string_at :: "desc_table \<Rightarrow> u8 \<Rightarrow> u8 list \<Rightarrow> bool" where
  "string_at t i str \<longleftrightarrow> GetStringDescriptor t i = Some (Some (string_desc str), of_nat (2 * length str + 4)) \<and>
     host_text (drop 2 (string_desc str)) = str @ [0]"

lemma string_at_under_way:
  assumes "i < length strs" "length strs \<le> 254" "length (strs ! i) \<le> 125"
  shows "string_at (under_way ds junk strs cfg ifn ep) (of_nat (Suc i)) (strs ! i)"
proof -
  have u: "unat (of_nat (Suc i) :: u8) = Suc i" using assms(1,2) by (simp only: unat_of_nat) (simp add: take_bit_nat_eq_self)
  have n: "(ucast (of_nat (2 * length (strs ! i) + 4) :: u8) :: u16) = of_nat (2 * length (strs ! i) + 4)"
    by (rule ucast_of_nat_small) (use assms(3) in simp)
  have h: "host_text (drop 2 (string_desc (strs ! i))) = strs ! i @ [0]"
    by (simp add: string_desc_def host_text_widen)
  show ?thesis
    unfolding string_at_def GetStringDescriptor_def u
    using assms(1) n h by (simp add: under_way_def arr_get_def nth_append del: of_nat_add of_nat_mult of_nat_Suc)
qed

lemma mass_strings_at:
  assumes "k \<in> mass_kinds" "i < 4"
  shows "string_at (mass_table k hw interval e1 e2) (of_nat (Suc i)) (mass_strings k ! i)"
proof -
  have "length (mass_strings k ! i) \<le> 125"
    using assms mass_strings_short [OF assms(1)] by (auto simp: mass_strings_def less_Suc_eq numeral_eq_Suc)
  then show ?thesis
    unfolding mass_table_def using assms(2) by (intro string_at_under_way) (simp_all add: mass_strings_def)
qed


text \<open>
  C9. A module builds its device as the host expects it. If the hardware has a bulk endpoint for each
  direction and there is memory, the construction of a disk, CD-ROM or floppy from the empty table
  succeeds; the 50 bytes it asks for are filled exactly, with the device descriptor and one configuration
  that has one interface of the Bulk-Only Transport with two bulk endpoints, one for each direction, on
  two different endpoints of the hardware, whose numbers the interface gets; everything is numbered as the
  core expects it, the strings under the numbers in the descriptors are those of the module, and a
  host that asks for the configuration of a device with this table gets its 32 bytes.
\<close>

theorem mass_descriptors:
  assumes "k \<in> mass_kinds" "Table s = initial_table" "bulk_ready (Eps s)" "Inter s = f # fs" "memory_for mem"
  shows "\<exists>j l e1 e2 s1.
    CreateMassDescriptor k info mem interval hw s = Some (0, interface_data k mem, s1) \<and> interface_data k mem \<noteq> None \<and>
    j < unat (num_eps (Eps s)) \<and> l < unat (num_eps (Eps s)) \<and> j \<noteq> l \<and>
    e1 = ep_configs (Eps s) ! j \<and> bulk EP_ADDR_IN e1 \<and> e2 = ep_configs (Eps s) ! l \<and> bulk 0x00 e2 \<and>
    table_holds (Table s1) (mass_device k hw) (mass_tree interval e1 e2) \<and> numbered 15 (mass_tree interval e1 e2) \<and>
    Inter s1 = info\<lparr>IfDataInEp := ep_num e1, IfDataOutEp := ep_num e2\<rparr> # fs \<and>
    (\<forall>i<4. string_at (Table s1) (of_nat (Suc i)) (mass_strings k ! i)) \<and>
    (\<forall>(c :: 'i usb_ctl) n m w x y. Table (Desc c) = Table s1 \<longrightarrow> ep0_ready (Dev c) n m \<longrightarrow> length (ReqData (InRequest c)) = 1024 \<longrightarrow>
       w \<noteq> 0 \<longrightarrow> (\<exists>c2. sends_descriptor hw n m (get_descriptor 2 0 x y w) w (concat (cfg_descs (hd (mass_tree interval e1 e2)))) c c2))"
proof -
  obtain j l x1 x2 where jl: "j \<noteq> l" "j < unat (num_eps (Eps s))" "l < unat (num_eps (Eps s))"
    "bulk EP_ADDR_IN (ep_configs (Eps s) ! j)" "bulk 0x00 (ep_configs (Eps s) ! l)"
    "select_suitable_endpoint EP_ADDR_IN 0x02 0x40 0x200 (fresh_eps (Eps s)) = Some (ep_num (ep_configs (Eps s) ! j), ep_size (ep_configs (Eps s) ! j), x1)"
    "select_suitable_endpoint 0x00 0x02 0x40 0x200 x1 = Some (ep_num (ep_configs (Eps s) ! l), ep_size (ep_configs (Eps s) ! l), x2)"
    by (rule bulk_selected [OF assms(3)])
  let ?e1 = "ep_configs (Eps s) ! j" and ?e2 = "ep_configs (Eps s) ! l"
  let ?tree = "mass_tree interval ?e1 ?e2"
  have n: "1 \<le> unat (ep_num ?e1)" "unat (ep_num ?e1) < 16" "1 \<le> unat (ep_num ?e2)" "unat (ep_num ?e2) < 16"
    using eps_known_at [OF _ jl(2)] eps_known_at [OF _ jl(3)] assms(3) by (simp_all add: bulk_ready_def)
  obtain b where b: "desc_mem mem = Some b" "length b = 50" using assms(5) by (auto simp: memory_for_def)
  obtain m where m: "interface_data k mem = Some m" using assms(5) by (auto simp: memory_for_def interface_data_def)
  have t: "\<forall>i. texts_ok mem i" using assms(5) by (simp add: memory_for_def)
  obtain s1 where s1: "add_descriptors k info (texts_ok mem) interval hw (s\<lparr>Table := under_way [] b [] 1 0 1\<rparr>) = Some (0, s1)"
    "Table s1 = mass_table k hw interval ?e1 ?e2" "Inter s1 = info\<lparr>IfDataInEp := ep_num ?e1, IfDataOutEp := ep_num ?e2\<rparr> # fs"
    using add_descriptors_built [OF assms(1) b(2) t assms(4) n(2,4) jl(6,7)] by blast
  have "s = s\<lparr>Table := initial_table\<rparr>" using assms(2) by (cases s) simp
  then have "CreateDescriptor (Some b) 50 s = (True, s\<lparr>Table := under_way [] b [] 1 0 1\<rparr>)"
    using under_way_start [OF b(2)] by metis
  then have "CreateMassDescriptor k info mem interval hw s = Some (0, interface_data k mem, s1)"
    using s1(1) by (simp add: CreateMassDescriptor_def m b(1))
  moreover note mass_tree_ok(2) [OF n] m
  moreover have h: "table_holds (Table s1) (mass_device k hw) ?tree" unfolding s1(2) by (rule mass_table_holds [OF n])
  moreover have "\<exists>c2. sends_descriptor hw n m (get_descriptor 2 0 x y w) w (concat (cfg_descs (hd ?tree))) c c2"
    if "Table (Desc c) = Table s1" "ep0_ready (Dev c) n m" "length (ReqData (InRequest c)) = 1024" "w \<noteq> 0" for c :: "'i usb_ctl" and n m w x y
    by (rule configuration_sends [OF h [folded that(1)]]) (use that n mass_tree_ok(3,4) in simp_all)
  moreover have "string_at (Table s1) (of_nat (Suc i)) (mass_strings k ! i)" if "i < 4" for i
    unfolding s1(2) by (rule mass_strings_at [OF assms(1) that])
  ultimately show ?thesis using jl(1-5) s1(3) by (intro exI [of _ j] exI [of _ l] exI [of _ ?e1] exI [of _ ?e2] exI [of _ s1]) simp
qed

lemma below_two: "(\<forall>j<(2::nat). P j) \<longleftrightarrow> P 0 \<and> P (Suc 0)" "(\<exists>j<(2::nat). P j) \<longleftrightarrow> P 0 \<or> P (Suc 0)"
  by (auto simp: numeral_2_eq_2 less_Suc_eq)

text \<open>A sample board: an endpoint for each direction, and one for either.\<close>

definition sample_board :: "(unit, unit, unit) usb_desc" where
  "sample_board = sample_desc\<lparr>Inter := [no_interface],
     Eps := \<lparr>ep_configs = [\<lparr>ep_num = 1, ep_dir = 0x80, ep_size = 512, ep_type = 2, is_ep_used = True\<rparr>,
       \<lparr>ep_num = 2, ep_dir = 0, ep_size = 512, ep_type = 2, is_ep_used = True\<rparr>], num_eps = 2, epnumbuf = replicate 30 False\<rparr>,
     Table := initial_table\<rparr>"

definition sample_mem :: create_mem where
  "sample_mem = \<lparr>if_mem = Some (sample_if []), inquiry_ok = True, event_mem = Some (replicate 6 (replicate sizeof_EVENT_STATUS 0)),
     desc_mem = Some (replicate 50 0xA5), texts_ok = (\<lambda>i. True)\<rparr>"

theorem mass_descriptors_witness:
  "\<exists>s1 tree. CreateHdiskDescriptor no_interface sample_mem 0 sample_hw sample_board = Some (0, interface_data hdisk_kind sample_mem, s1) \<and>
     table_holds (Table s1) (mass_device hdisk_kind sample_hw) tree \<and> numbered 15 tree \<and> string_at (Table s1) 2 (map of_char ''Virtual HardDisk Device'')"
proof -
  have "bulk_ready (Eps sample_board)"
    by (simp add: bulk_ready_def eps_known_def sample_board_def sample_desc_def bulk_def suits_def EP_ADDR_IN_def CONFIGURABLE_def below_two)
  moreover have "hdisk_kind \<in> mass_kinds" "Table sample_board = initial_table" "Inter sample_board = no_interface # []" "memory_for sample_mem"
    by (simp_all add: mass_kinds_def sample_board_def memory_for_def sample_mem_def)
  ultimately obtain j l e1 e2 s1 where r: "CreateMassDescriptor hdisk_kind no_interface sample_mem 0 sample_hw sample_board =
      Some (0, interface_data hdisk_kind sample_mem, s1)"
    "table_holds (Table s1) (mass_device hdisk_kind sample_hw) (mass_tree 0 e1 e2)" "numbered 15 (mass_tree 0 e1 e2)"
    and t: "\<forall>i<4. string_at (Table s1) (of_nat (Suc i)) (mass_strings hdisk_kind ! i)"
    using mass_descriptors [where 'i = unit, of hdisk_kind sample_board no_interface "[]" sample_mem no_interface 0 sample_hw] by blast
  from t [rule_format, of 1] have "string_at (Table s1) 2 (map of_char ''Virtual HardDisk Device'')"
    by (simp add: mass_strings_def hdisk_kind_def)
  then show ?thesis using r unfolding CreateHdiskDescriptor_def by blast
qed

end
