(* ===== verification/UsbUnits.thy ===== *)
theory UsbUnits imports UsbMassProps begin

text \<open>
  The ioctls of the device modules: who may use them, and the logical units that a program configures.
\<close>

section \<open>Who may use the ioctls\<close>

text \<open>The three modules.\<close>

definition modules :: "(mass_kind \<times> (('a mass_sys_scheme) mass_env \<Rightarrow> ioctl_cmd \<Rightarrow> ioctl_arg \<Rightarrow> 'a mass_sys_scheme \<Rightarrow>
    (ioctl_result \<times> 'a mass_sys_scheme) option)) set" where
  "modules = {(hdisk_kind, HdiskIoctl), (cdrom_kind, CdromIoctl), (floppy_kind, FloppyIoctl)}"

definition has_key :: "ioctl_arg \<Rightarrow> 'a mass_sys_scheme \<Rightarrow> bool" where
  "has_key arg s \<longleftrightarrow> iface_key s \<noteq> 0 \<and> (Key (Header (u_pkt arg)) = iface_key s \<or> d_key (u_data arg) = iface_key s)"

text \<open>An error without an effect.\<close>

definition refused :: "'s \<Rightarrow> (ioctl_result \<times> 's) option \<Rightarrow> bool" where
  "refused s out \<longleftrightarrow> (\<exists>r v. out = Some ((r, v, None), s) \<and> (r = - 1 \<and> v = None \<or> r = 0 \<and> (\<exists>e<0. v = Some e)))"

lemma refusedI: "refused s (Some ((- 1, None, None), s))" "e < 0 \<Longrightarrow> refused s (Some ((0, Some e, None), s))"
  by (auto simp: refused_def)

lemma authenticated_refused:
  assumes "\<not> has_key arg s" "length (InstAssignment s) = luns k"
  shows "refused s (authenticated k arg header f s)"
proof (cases "AuthenticateIOCTLCaller k arg header s")
  case None
  then show ?thesis using assms(2) by (cases header) (auto simp: AuthenticateIOCTLCaller_def Let_def arr_get_def split: if_splits)
next
  case (Some e)
  then have "e < 0"
    using assms by (cases header) (auto simp: AuthenticateIOCTLCaller_def has_key_def arr_get_def Let_def EINVAL_def EPERM_def EFAULT_def split: if_splits)
  then show ?thesis using Some by (simp add: authenticated_def refusedI)
qed

lemma handlers_refused:
  assumes "\<not> has_key arg s" "length (InstAssignment s) = luns k"
  shows "refused s (for_device k arg f s)" "refused s (unreadable_first arg (authenticated k arg False g) s)"
  using authenticated_refused [OF assms] by (simp_all add: for_device_def unreadable_first_def refusedI)

lemma mass_ioctl_refused:
  assumes "\<not> has_key arg s" "length (InstAssignment s) = luns k"
  shows "refused s (mass_ioctl k env cmd arg s)"
  using authenticated_refused [OF assms] handlers_refused(1) [OF assms]
  by (cases cmd) (simp_all add: mass_ioctl_def ioctl_req_def ioctl_res_def ioctl_activate_def ioctl_exit_def ioctl_media_def
      ioctl_connect_def ioctl_rst_if_def ioctl_add_def refusedI)

text \<open>
  C22. Without the key of the interface nothing happens: whatever the command, as long as no one owns
  the interface or neither reading of the argument shows the owner's key, an ioctl of the disk, CD-ROM
  or floppy module ends with an error, copies no packet to the caller and changes nothing: no slot, no
  unit, no event, no key.
\<close>

theorem ioctl_needs_key:
  assumes "(k, ioctl) \<in> modules" "\<not> has_key arg s" "length (InstAssignment s) = luns k"
  shows "refused s (ioctl env cmd arg s)"
proof -
  note a = mass_ioctl_refused [OF assms(2,3)] authenticated_refused [OF assms(2,3)] handlers_refused(2) [OF assms(2,3)]
  consider "k = hdisk_kind" "ioctl = HdiskIoctl" | "k = cdrom_kind" "ioctl = CdromIoctl" | "k = floppy_kind" "ioctl = FloppyIoctl"
    using assms(1) by (auto simp: modules_def)
  then show ?thesis
  proof cases
    case 1
    then show ?thesis using a by (cases cmd) (simp_all add: HdiskIoctl_def ioctl_set_type_def ioctl_get_type_def)
  next
    case 2
    then show ?thesis using a by (cases cmd) (simp_all add: CdromIoctl_def ioctl_res_def)
  next
    case 3
    then show ?thesis using a by (simp add: FloppyIoctl_def)
  qed
qed

section \<open>The units that a program configures\<close>

text \<open>A list of ioctls with the same argument, and their results.\<close>

fun ioctls :: "(ioctl_cmd \<Rightarrow> 's \<Rightarrow> (ioctl_result \<times> 's) option) \<Rightarrow> ioctl_cmd list \<Rightarrow> 's \<Rightarrow> (ioctl_result list \<times> 's) option" where
  "ioctls f [] s = Some ([], s)"
| "ioctls f (c # cs) s = do { (r, s1) \<leftarrow> f c s; (rs, s2) \<leftarrow> ioctls f cs s1; Some (r # rs, s2) }"

definition done_ok :: ioctl_result where "done_ok = (0, Some 0, None)"

text \<open>The caller owns the interface, names the device, and an instance that has been there.\<close>

definition may_configure :: "mass_kind \<Rightarrow> ioctl_arg \<Rightarrow> 'a mass_sys_scheme \<Rightarrow> bool" where
  "may_configure k arg s \<longleftrightarrow>
     readable arg \<and> d_DevNo (u_data arg) = devnum s \<and> devnum s = dev_no s \<and> d_IfNum (u_data arg) = 0 \<and> if_no s = 0 \<and>
     iface_key s \<noteq> 0 \<and> d_key (u_data arg) = iface_key s \<and> d_Instance (u_data arg) = 0 \<and> InstAssignment s ! 0 \<noteq> 0xFF"

definition module_arrays :: "mass_kind \<Rightarrow> 'a mass_sys_scheme \<Rightarrow> bool" where
  "module_arrays k s \<longleftrightarrow>
     length (LunNumAssignment s) = luns k \<and> length (InstAssignment s) = luns k \<and>
     length (slots_of k s) = (if cd_slots k then MAX_CDROM_INSTANCE else MAX_HDISK_INSTANCE) \<and>
     (\<exists>m. mass s = Some m \<and> luns k \<le> length (EventStatus m) \<and> luns k \<le> length (Inquiry m))"

text \<open>The slot of a unit, 0xFF when the \<open>p\<close> slots do not suffice, and the packet that describes it.\<close>

definition unit_slot :: "nat \<Rightarrow> nat \<Rightarrow> u8" where
  "unit_slot p i = (if i < p then of_nat i else 0xFF)"

definition unit_inquiry :: "mass_kind \<Rightarrow> u8 list list \<Rightarrow> nat \<Rightarrow> u8 list" where
  "unit_inquiry k qs i = (inquiry_of k (qs ! i))[16 + digit k := 0x30 + of_nat i]"

definition fresh_event :: "u8 list list \<Rightarrow> nat \<Rightarrow> u8 list" where
  "fresh_event es i = (es ! i)[4 := 0x00, 5 := 0x01]"

text \<open>What the configuration of \<open>n\<close> units leaves, from the state \<open>s0\<close>.\<close>

definition units_set :: "mass_kind \<Rightarrow> 'a mass_sys_scheme \<Rightarrow> nat \<Rightarrow> 'a mass_sys_scheme \<Rightarrow> bool" where
  "units_set k s0 n s \<longleftrightarrow>
     maxlun s = of_nat n \<and> NumLun s = of_nat n \<and> MaxLUN s = of_nat (n - 1) \<and>
     LunNumAssignment s = map (unit_slot (length (slots_of k s0))) [0..<n] @ replicate (luns k - n) 0xFF \<and>
     InstAssignment s = map (unit_slot (length (slots_of k s0))) [0..<n] @ drop n (InstAssignment s0) \<and>
     map s_used (slots_of k s) = map (\<lambda>i. i < n) [0..<length (slots_of k s0)] \<and>
     (\<exists>m0 m. mass s0 = Some m0 \<and> mass s = Some m \<and>
        Inquiry m = map (unit_inquiry k (Inquiry m0)) [0..<n] @ drop n (Inquiry m0) \<and>
        EventStatus m = map (fresh_event (EventStatus m0)) [0..<n] @ drop n (EventStatus m0)) \<and>
     iface_key s = iface_key s0 \<and> devnum s = devnum s0 \<and> dev_no s = dev_no s0 \<and> if_no s = if_no s0"

lemma first_free_after:
  "map s_used xs = map (\<lambda>i. i < n) [j..<j + length xs] \<Longrightarrow> j \<le> n \<Longrightarrow>
    first_free j xs = (if n < j + length xs then Some n else None)"
proof (induction xs arbitrary: j)
  case (Cons x xs)
  have "[j..<j + length (x # xs)] = j # [Suc j..<j + length (x # xs)]" by (rule upt_conv_Cons) simp
  then have c: "[j..<j + length (x # xs)] = j # [Suc j..<Suc j + length xs]" by simp
  have "s_used x \<longleftrightarrow> j < n" "map s_used xs = map (\<lambda>i. i < n) [Suc j..<Suc j + length xs]"
    using Cons.prems(1) unfolding c by simp_all
  then show ?case using Cons.IH [of "Suc j"] Cons.prems(2) by (cases "j < n") auto
qed simp

lemma release_slots_free:
  "length (release_slots n xs) = length xs" "i < length xs \<Longrightarrow> i < n \<Longrightarrow> \<not> s_used (release_slots n xs ! i)"
proof -
  have r: "release_slots (Suc n) xs = snd (ReleaseInstanceIndex n (release_slots n xs))" for n by (simp add: release_slots_def)
  show len: "length (release_slots n xs) = length xs" for n
    by (induction n) (simp_all add: r, simp_all add: release_slots_def ReleaseInstanceIndex_def)
  show "i < length xs \<Longrightarrow> i < n \<Longrightarrow> \<not> s_used (release_slots n xs ! i)"
    by (induction n) (auto simp: r ReleaseInstanceIndex_def len nth_list_update less_Suc_eq)
qed

lemma kind_bounds:
  assumes "k \<in> mass_kinds"
  shows "0 < luns k" "luns k \<le> 6" "cd_slots k \<Longrightarrow> luns k = 4" "\<not> cd_slots k \<Longrightarrow> 5 \<le> luns k" "full_seen k \<Longrightarrow> \<not> cd_slots k \<and> luns k = 5"
  using assms by (auto simp: mass_kinds_def hdisk_kind_def cdrom_kind_def floppy_kind_def)

lemma slots_set [simp]: "slots_of k (set_slots k xs s) = xs"
  by (simp add: slots_of_def set_slots_def)

lemma set_slots_other [simp]:
  "maxlun (set_slots k xs s) = maxlun s" "NumLun (set_slots k xs s) = NumLun s" "LunNumAssignment (set_slots k xs s) = LunNumAssignment s"
  "InstAssignment (set_slots k xs s) = InstAssignment s" "mass (set_slots k xs s) = mass s" "iface_key (set_slots k xs s) = iface_key s"
  "devnum (set_slots k xs s) = devnum s" "dev_no (set_slots k xs s) = dev_no s" "if_no (set_slots k xs s) = if_no s"
  "MaxLUN (set_slots k xs s) = MaxLUN s"
  by (simp_all add: set_slots_def)

lemma for_device_allowed:
  assumes "may_configure k arg s" "length (InstAssignment s) = luns k" "0 < luns k"
  shows "for_device k arg f s = f s"
  using assms by (simp add: for_device_def may_configure_def authenticated_def AuthenticateIOCTLCaller_def arr_get_def Let_def)

lemma extend_units:
  assumes "n < length qs"
  shows "(map f [0..<n] @ drop n qs) ! n = qs ! n" "(map f [0..<n] @ drop n qs)[n := f n] = map f [0..<Suc n] @ drop (Suc n) qs"
    "length (map f [0..<n] @ drop n qs) = length qs"
proof -
  obtain q where "drop n qs = q # drop (Suc n) qs" using assms by (metis Cons_nth_drop_Suc)
  then show "(map f [0..<n] @ drop n qs)[n := f n] = map f [0..<Suc n] @ drop (Suc n) qs" by (simp add: list_update_append)
qed (use assms in \<open>simp_all add: nth_append\<close>)

lemma take_slot:
  assumes "map s_used xs = map (\<lambda>i. i < n) [0..<length xs]"
  shows "\<exists>ys. GetInstanceIndex xs = (if n < length xs then int n else - 1, ys) \<and> map s_used ys = map (\<lambda>i. i < Suc n) [0..<length xs]"
proof (cases "n < length xs")
  case True
  have u: "s_used (xs ! i) \<longleftrightarrow> i < n" if "i < length xs" for i using arg_cong [OF assms, of "\<lambda>l. l ! i"] that by simp
  have "map s_used (xs[n := (xs ! n)\<lparr>s_used := True\<rparr>]) = map (\<lambda>i. i < Suc n) [0..<length xs]"
  proof (rule nth_equalityI; simp)
    fix i
    assume "i < length xs"
    then show "s_used (xs[n := (xs ! n)\<lparr>s_used := True\<rparr>] ! i) \<longleftrightarrow> i < Suc n" using u [of i] by (cases "i = n") auto
  qed
  then show ?thesis using first_free_after [of xs n 0] assms True by (simp add: GetInstanceIndex_def)
next
  case False
  then have "map s_used xs = map (\<lambda>i. i < Suc n) [0..<length xs]" unfolding assms by simp
  then show ?thesis using first_free_after [of xs n 0] assms False by (simp add: GetInstanceIndex_def)
qed

lemma units_start:
  assumes "k \<in> mass_kinds" "may_configure k arg s" "module_arrays k s"
  shows "\<exists>s1. ioctl_rst_if k arg s = Some (done_ok, s1) \<and> units_set k s 0 s1"
proof -
  let ?xs = "slots_of k s"
  have "length ?xs \<le> luns k" using assms(3) kind_bounds [OF assms(1)]
    by (cases "cd_slots k") (simp_all add: module_arrays_def MAX_CDROM_INSTANCE_def MAX_HDISK_INSTANCE_def)
  then have free: "map s_used (release_slots (luns k) ?xs) = map (\<lambda>i. i < 0) [0..<length ?xs]"
    by (intro nth_equalityI) (simp_all add: release_slots_free)
  have same: "slots_of k (s\<lparr>maxlun := a, NumLun := b\<rparr>) = slots_of k s" "slots_of k (s1\<lparr>LunNumAssignment := l\<rparr>) = slots_of k s1"
    "slots_of k (s1\<lparr>MaxLUN := mx\<rparr>) = slots_of k s1" for a b l mx s1 by (simp_all add: slots_of_def)
  have l: "length (InstAssignment s) = luns k" "0 < luns k" "length (LunNumAssignment s) = luns k"
    using assms(3) kind_bounds(1) [OF assms(1)] by (simp_all add: module_arrays_def)
  obtain m where "mass s = Some m" using assms(3) by (auto simp: module_arrays_def)
  then show ?thesis
    unfolding ioctl_rst_if_def for_device_allowed [OF assms(2) l(1,2)] Let_def
    using free l(3) by (simp add: done_ok_def units_set_def UsbSetNumLUN_def same)
qed

lemma units_grow:
  assumes "k \<in> mass_kinds" "may_configure k arg s0" "module_arrays k s0" "units_set k s0 n s" "n < luns k"
  shows "\<exists>s1. ioctl_add k arg s = Some (done_ok, s1) \<and> units_set k s0 (Suc n) s1"
proof -
  let ?p = "length (slots_of k s0)" and ?d = "u_data arg"
  note kb = kind_bounds [OF assms(1)] and u = assms(4) [unfolded units_set_def]
  obtain m0 m where m: "mass s0 = Some m0" "mass s = Some m" "Inquiry m = map (unit_inquiry k (Inquiry m0)) [0..<n] @ drop n (Inquiry m0)"
    "EventStatus m = map (fresh_event (EventStatus m0)) [0..<n] @ drop n (EventStatus m0)" using u by blast
  have len: "length (LunNumAssignment s) = luns k" "length (InstAssignment s0) = luns k" "n < length (EventStatus m0)" "n < length (Inquiry m0)"
    using assms(3,5) m(1) u by (auto simp: module_arrays_def)
  have p: "?p = (if cd_slots k then 4 else 5)" using assms(3) by (simp add: module_arrays_def MAX_CDROM_INSTANCE_def MAX_HDISK_INSTANCE_def)
  have nn: "unat (of_nat n :: u8) = n" using assms(5) kb(2) by (simp add: unat_of_nat take_bit_nat_eq_self)
  have may: "may_configure k arg s"
    using assms(2) u p by (cases n) (simp_all add: may_configure_def nth_append unit_slot_def upt_conv_Cons del: upt_Suc)
  note ev = extend_units [OF len(3), of "fresh_event (EventStatus m0)"] and iq = extend_units [OF len(4), of "unit_inquiry k (Inquiry m0)"]
    and lun = extend_units [of n "replicate (luns k) 0xFF :: u8 list" "unit_slot ?p", unfolded length_replicate drop_replicate, OF assms(5)]
    and ins = extend_units [of n "InstAssignment s0" "unit_slot ?p", unfolded len(2), OF assms(5)]
  let ?m1 = "m\<lparr>EventStatus := map (fresh_event (EventStatus m0)) [0..<Suc n] @ drop (Suc n) (EventStatus m0)\<rparr>"
  have dev: "d_DevNo ?d = dev_no s" "d_IfNum ?d = if_no s" using may by (simp_all add: may_configure_def)
  have s1: "media_event (d_DevNo ?d) (d_IfNum ?d) n 0x00 0x01 s = Some (s\<lparr>mass := Some ?m1\<rparr>)"
    unfolding media_event_def GetInterfaceData_def dev using ev m(2,4) len(3)
    by (simp add: arr_get_def fresh_event_def [of _ n, symmetric])
  have ps: "length (slots_of k s) = ?p" using u by (metis length_map length_upt diff_zero)
  then obtain xs where xs: "GetInstanceIndex (slots_of k s) = (if n < ?p then int n else - 1, xs)" "map s_used xs = map (\<lambda>i. i < Suc n) [0..<?p]"
    using take_slot [of "slots_of k s" n] u by auto
  have len2: "length (InstAssignment s) = luns k" using u ins(3) by simp
  have r: "word_of_int (if n < ?p then int n else - 1) = unit_slot ?p n" by (simp add: unit_slot_def)
  have full: "\<not> (full_seen k \<and> unit_slot ?p n = 0xFF)"
    using kb(5) p assms(5) nn by (auto simp: unit_slot_def)
  have same: "slots_of k (s\<lparr>mass := x\<rparr>) = slots_of k s" "slots_of k (s3\<lparr>LunNumAssignment := l\<rparr>) = slots_of k s3"
    "slots_of k (s3\<lparr>MaxLUN := mx, InstAssignment := i, NumLun := a, maxlun := b\<rparr>) = slots_of k s3" for x l mx i a b and s3 :: "'a mass_sys_scheme"
    by (simp_all add: slots_of_def)
  let ?s1 = "s\<lparr>mass := Some ?m1\<rparr>"
  let ?m2 = "?m1\<lparr>Inquiry := map (unit_inquiry k (Inquiry m0)) [0..<Suc n] @ drop (Suc n) (Inquiry m0)\<rparr>"
  let ?s2 = "set_slots k xs (?s1\<lparr>mass := Some ?m2\<rparr>)"
  have inq: "arr_get (Inquiry ?m1) n = Some (Inquiry m0 ! n)"
    "(Inquiry ?m1)[n := (inquiry_of k (Inquiry m0 ! n))[16 + digit k := 0x30 + NumLun ?s1]] = Inquiry ?m2"
    using iq m(3) len(4) u by (simp_all add: arr_get_def unit_inquiry_def [of _ _ n, symmetric])
  have lset: "arr_set (LunNumAssignment ?s2) n (unit_slot ?p n) = Some (map (unit_slot ?p) [0..<Suc n] @ replicate (luns k - Suc n) 0xFF)"
    "(map (unit_slot ?p) [0..<Suc n] @ replicate (luns k - Suc n) 0xFF) ! n = unit_slot ?p n"
    using lun u assms(5) by (simp_all add: arr_set_def nth_append)
  have iset: "arr_set (InstAssignment ?s2) n (unit_slot ?p n) = Some (map (unit_slot ?p) [0..<Suc n] @ drop (Suc n) (InstAssignment s0))"
    using ins u assms(5) by (simp add: arr_set_def)
  define m1 m2 L I where "m1 = ?m1" and "m2 = ?m2" and "L = map (unit_slot ?p) [0..<Suc n] @ replicate (luns k - Suc n) 0xFF"
    and "I = map (unit_slot ?p) [0..<Suc n] @ drop (Suc n) (InstAssignment s0)"
  note facts = s1 [folded m1_def] inq [folded m1_def m2_def] lset [folded m1_def m2_def L_def] iset [folded m1_def m2_def I_def]
  let ?s3 = "(UsbSetNumLUN (of_nat n) ((set_slots k xs (s\<lparr>mass := Some m2\<rparr>))\<lparr>LunNumAssignment := L\<rparr>))
      \<lparr>InstAssignment := I, NumLun := of_nat n + 1, maxlun := of_nat n + 1\<rparr>"
  have m2: "m1\<lparr>Inquiry := Inquiry m2\<rparr> = m2" by (simp add: m1_def m2_def)
  have nums: "maxlun s = of_nat n" "NumLun s = of_nat n" using u by simp_all
  have "ioctl_add k arg s = Some (done_ok, ?s3)"
    unfolding ioctl_add_def for_device_allowed [OF may len2 kb(1)] Let_def nums nn
    using facts m2 full by (simp add: nums nn same xs(1) r done_ok_def UsbSetNumLUN_def)
  moreover have "units_set k s0 (Suc n) ?s3"
    unfolding units_set_def using u xs(2) m(1)
    by (simp add: UsbSetNumLUN_def same L_def I_def m2_def del: upt_Suc)
  ultimately show ?thesis by blast
qed

lemma media_event_other: "media_event d i n c md s = Some s1 \<Longrightarrow> LunNumAssignment s1 = LunNumAssignment s"
  by (auto simp: media_event_def Option.bind_eq_Some_conv)

lemma units_overrun:
  assumes "k \<in> mass_kinds" "may_configure k arg s0" "module_arrays k s0" "units_set k s0 (luns k) s"
  shows "ioctl_add k arg s = None"
proof -
  note kb = kind_bounds [OF assms(1)] and u = assms(4) [unfolded units_set_def]
  have p: "0 < length (slots_of k s0)" using assms(3) by (simp add: module_arrays_def MAX_CDROM_INSTANCE_def MAX_HDISK_INSTANCE_def split: if_splits)
  have "[0..<luns k] = 0 # [1..<luns k]" using kb(1) by (simp add: upt_conv_Cons)
  then have may: "may_configure k arg s" "length (InstAssignment s) = luns k"
    using assms(2,3) u p kb(1) by (simp_all add: may_configure_def module_arrays_def unit_slot_def)
  have nn: "unat (maxlun s) = luns k" using u kb(2) by (simp add: unat_of_nat take_bit_nat_eq_self)
  have l: "length (LunNumAssignment s) = luns k" using u by simp
  have full: "arr_set (LunNumAssignment (set_slots k xs (s1\<lparr>mass := x\<rparr>))) (luns k) y = None"
    if "LunNumAssignment s1 = LunNumAssignment s" for xs x y and s1 :: "'a mass_sys_scheme"
    using l that by (simp add: arr_set_def)
  show ?thesis
    unfolding ioctl_add_def for_device_allowed [OF may kb(1)] Let_def nn
    using full media_event_other by (fastforce simp: Option.bind_eq_None_conv split: prod.split)
qed

lemma ioctls_snoc:
  "ioctls f cs s = Some (rs, s1) \<Longrightarrow> f c s1 = Some (r, s2) \<Longrightarrow> ioctls f (cs @ [c]) s = Some (rs @ [r], s2)"
  by (induction cs arbitrary: s rs) (auto simp: Option.bind_eq_Some_conv split: prod.splits)

lemma modules_add:
  assumes "(k, ioctl) \<in> modules"
  shows "k \<in> mass_kinds" "ioctl env USB_RST_IF arg = ioctl_rst_if k arg" "ioctl env USB_ADD arg = ioctl_add k arg"
  using assms by (auto simp: modules_def mass_kinds_def HdiskIoctl_def CdromIoctl_def FloppyIoctl_def mass_ioctl_def fun_eq_iff)

text \<open>
  C21. A program that owns the interface configures the units as it likes: after a reset and \<open>n\<close> additions,
  for any \<open>n\<close> up to the size of the table of the units, there are exactly \<open>n\<close> units, and the host is told the number of the last one.
  Unit \<open>i\<close> is served by slot \<open>i\<close> as long as there are slots; a unit beyond them, as the sixth of the floppy module,
  gets 0xFF, and its addition reports success like the others. The slots below \<open>n\<close> are taken and no others, whoever
  held them before; the packet of each unit names it by its digit and its event is an absent medium.
  No addition is refused because the table is full: the next one writes behind its end.
\<close>

theorem units_reconfigured:
  assumes "(k, ioctl) \<in> modules" "may_configure k arg s" "module_arrays k s" "n \<le> luns k"
  shows "\<exists>s1. ioctls (\<lambda>c. ioctl env c arg) (USB_RST_IF # replicate n USB_ADD) s = Some (replicate (Suc n) done_ok, s1) \<and>
    units_set k s n s1 \<and> (n = luns k \<longrightarrow> ioctl env USB_ADD arg s1 = None)"
proof -
  note m = modules_add [OF assms(1)]
  have "\<exists>s1. ioctls (\<lambda>c. ioctl env c arg) (USB_RST_IF # replicate n USB_ADD) s = Some (replicate (Suc n) done_ok, s1) \<and> units_set k s n s1"
    using assms(4)
  proof (induction n)
    case 0
    then show ?case using units_start [OF m(1) assms(2,3)] by (auto simp: m(2))
  next
    case (Suc n)
    then obtain s1 where s1: "ioctls (\<lambda>c. ioctl env c arg) (USB_RST_IF # replicate n USB_ADD) s = Some (replicate (Suc n) done_ok, s1)"
      "units_set k s n s1" by auto
    then obtain s2 where s2: "ioctl env USB_ADD arg s1 = Some (done_ok, s2)" "units_set k s (Suc n) s2"
      using units_grow [OF m(1) assms(2,3) s1(2)] Suc.prems by (auto simp: m(3))
    have "(USB_RST_IF # replicate n USB_ADD) @ [USB_ADD] = USB_RST_IF # replicate (Suc n) USB_ADD"
      "replicate (Suc n) done_ok @ [done_ok] = replicate (Suc (Suc n)) done_ok" by (simp_all add: replicate_append_same)
    then show ?case using ioctls_snoc [OF s1(1), of USB_ADD, OF s2(1)] s2(2) by metis
  qed
  then show ?thesis using units_overrun [OF m(1) assms(2,3)] by (auto simp: m(3))
qed

section \<open>Samples\<close>

text \<open>The disk module, its slots all taken, with an owner; the owner's argument, and one with another key.\<close>

definition sample_disk :: mass_sys where
  "sample_disk = \<lparr>udev = sample_usb [], mass = interface_data hdisk_kind sample_mem, WakeupFlag = False, dpc = False, DataInEp = 2, MaxLUN = 3,
     video = None, dev_no = 0, if_no = 0, TestCase = NO_ERRORCASE, CBWErrorOccur = 0, DataOutLen = 0, iusb_seq = 1,
     hdisk = replicate MAX_HDISK_INSTANCE sample_slot, cdrom = replicate MAX_CDROM_INSTANCE sample_slot,
     vendor = sample_slot, vendor_exit = False, gKernelModePktCD = sample_pkt, gKernelModePktHD = sample_pkt,
     ConnectState = 1, connects = [], iface_key = 0x1234, devnum = 0, maxlun = 4, NumLun = 4, LunNumAssignment = [3, 1, 0, 2, 0xFF],
     InstAssignment = [3, 1, 0, 2, 0]\<rparr>"

definition sample_arg :: "u32 \<Rightarrow> ioctl_arg" where
  "sample_arg key = \<lparr>readable = True, u_pkt = sample_pkt,
     u_data = \<lparr>d_key = key, d_DevNo = 0, d_IfNum = 0, d_Instance = 0, d_Data = 0\<rparr>\<rparr>"

theorem ioctl_needs_key_witness: "\<forall>env cmd. refused sample_disk (HdiskIoctl env cmd (sample_arg 0x1235) sample_disk)"
proof (intro allI)
  fix env cmd
  have "(hdisk_kind, HdiskIoctl) \<in> modules" by (simp add: modules_def)
  moreover have "\<not> has_key (sample_arg 0x1235) sample_disk"
    by (simp add: has_key_def sample_arg_def sample_disk_def sample_pkt_def FormiUsbHeader_def)
  moreover have "length (InstAssignment sample_disk) = luns hdisk_kind" by (simp add: sample_disk_def hdisk_kind_def)
  ultimately show "refused sample_disk (HdiskIoctl env cmd (sample_arg 0x1235) sample_disk)" by (rule ioctl_needs_key)
qed

theorem units_reconfigured_witness:
  "\<forall>env. \<exists>s1. ioctls (\<lambda>c. HdiskIoctl env c (sample_arg 0x1234)) (USB_RST_IF # replicate 5 USB_ADD) sample_disk =
       Some (replicate 6 done_ok, s1) \<and>
     LunNumAssignment s1 = [0, 1, 2, 3, 4] \<and> MaxLUN s1 = 4 \<and> HdiskIoctl env USB_ADD (sample_arg 0x1234) s1 = None"
proof
  fix env
  have "(hdisk_kind, HdiskIoctl) \<in> modules" by (simp add: modules_def)
  moreover have "may_configure hdisk_kind (sample_arg 0x1234) sample_disk"
    by (simp add: may_configure_def sample_arg_def sample_disk_def)
  moreover have "module_arrays hdisk_kind sample_disk"
    by (simp add: module_arrays_def sample_disk_def hdisk_kind_def slots_of_def interface_data_def sample_mem_def)
  moreover have "5 \<le> luns hdisk_kind" by (simp add: hdisk_kind_def)
  ultimately obtain s1 where s1: "ioctls (\<lambda>c. HdiskIoctl env c (sample_arg 0x1234)) (USB_RST_IF # replicate 5 USB_ADD) sample_disk =
      Some (replicate (Suc 5) done_ok, s1)" "units_set hdisk_kind sample_disk 5 s1"
      "5 = luns hdisk_kind \<longrightarrow> HdiskIoctl env USB_ADD (sample_arg 0x1234) s1 = None"
    using units_reconfigured [of hdisk_kind HdiskIoctl "sample_arg 0x1234" sample_disk 5 env] by blast
  have "length (slots_of hdisk_kind sample_disk) = 5"
    by (simp add: slots_of_def hdisk_kind_def sample_disk_def MAX_HDISK_INSTANCE_def)
  then have "LunNumAssignment s1 = [0, 1, 2, 3, 4]" "MaxLUN s1 = 4"
    using s1(2) by (simp_all add: units_set_def unit_slot_def hdisk_kind_def upt_rec)
  then show "\<exists>s1. ioctls (\<lambda>c. HdiskIoctl env c (sample_arg 0x1234)) (USB_RST_IF # replicate 5 USB_ADD) sample_disk =
       Some (replicate 6 done_ok, s1) \<and>
     LunNumAssignment s1 = [0, 1, 2, 3, 4] \<and> MaxLUN s1 = 4 \<and> HdiskIoctl env USB_ADD (sample_arg 0x1234) s1 = None"
    using s1(1,3) by (intro exI [of _ s1]) (simp add: hdisk_kind_def)
qed

end
