(* ===== verification/Spec2Isabelle.thy ===== *)
theory Spec2Isabelle
  imports KcsSystem JbiCompProps JbiScanProps JbiMain JbiLoop JbiCrc BtProps EncodingProps Checksum UsbStatus UsbFaults UsbReset UsbUnits
begin

text \<open>
  A verification development for the BMC firmware sources under \<open>src/Core/Modified_OpenSource\<close>.

  \<^bold>\<open>The parts modelled\<close>

  The firmware talks to the host of a server over two system interfaces, KCS and BT, and programs
  CPLDs and FPGAs over JTAG with a byte-code player. The drivers come in pairs: a core driver with a
  character device, and a hardware driver that reaches the registers; a registry joins them. Over USB
  the firmware plays mass storage devices to the same host, whose media are on a remote server. Two
  libraries of the user programs encode and check data.

  \<^item> KCS. The core (\<open>kcs-src/kcsmain.c\<close>, \<open>kcs.h\<close>, \<open>kcs_timeout.c\<close>) is KcsCore, the hardware driver
    (\<open>kcs_hw-ARM-AST-src/ast_kcs.c\<close>, \<open>ast_kcs.h\<close>) is KcsHal. \<open>kcs_recv_byte\<close> is the state machine the
    interrupt handler runs for each byte the host writes; \<open>kcs_request\<close> and \<open>kcs_write_request\<close> are the
    read and write of the character device. KcsProtocol is the transfer as the host sees it, KcsSystem
    the interleaving of all of them, with the properties.
  \<^item> BT. The hardware driver (\<open>bt_hw-ARM-AST-src/bthw_mod.c\<close>, \<open>bt_hw.h\<close>) is BtHw, the core
    (\<open>bt-src/btmain.c\<close>, \<open>bt.h\<close>, \<open>bt_timeout.c\<close>) is BtCore. BtSystem has the contract between the two and
    the interleaving, BtDevice the proof of the contract over the documented registers, BtProps
    the properties.
  \<^item> The registry (\<open>helper-src/driver_hal.c\<close>, \<open>driver_hal.h\<close>): DriverHal, properties in DriverHalProps.
    BtCore opens, closes and finds its channels through it.
  \<^item> The Jam STAPL byte-code player (\<open>cpld_hw-ARM-AST-src/jbc\<close>). JbiMem is the memory it works on
    and its globals; JbiTap the pins, the TAP state tables and moves and JbiScan the scans
    (\<open>jbijtag.c\<close>); JbiComp the decompression (\<open>jbicomp.c\<close>); JbiText the string, number and CRC
    helpers, JbiVm and JbiVmArray the instructions, JbiExec the header, the choice of the action,
    the main loop and \<open>jbcmain\<close> (\<open>jbimain.c\<close>, \<open>jbistub.c\<close>).
  \<^item> Virtual mass storage. UsbCore is the data path of the gadget core (\<open>usbe-src/coreusb.c\<close>): a
    transfer is cut into packets, sent one per transmit interrupt. UsbBot is the Bulk-Only Transport
    (\<open>usbe-src/bot.c\<close>): the receive handler takes command wrappers and the data of the host, the
    process handler answers, and the status wrapper ends a transaction. IusbScsi (\<open>iUSB-src\<close>) hands
    the commands to the server, through a slot with two wait queues, and takes its response.
    UsbCoreProps, UsbProps, UsbOut and UsbStatus have the properties, UsbSample a sample device.
  \<^item> The USB device itself. UsbDesc builds and searches its table of descriptors
    (\<open>usbe-src/descriptors.c\<close>), UsbSetup answers the control requests of the host (\<open>usbe-src/setup.c\<close>),
    UsbControl carries them over endpoint 0, and UsbBus has what happens beside transfers: the
    endpoints a device is registered with, the sizes at the three speeds, reset, disconnection, suspend
    and resume, and the way of an interrupt to the interface that has the endpoint (all
    \<open>usbe-src/coreusb.c\<close>). UsbDescProps, UsbControlProps, UsbBusProps and UsbLoops have the lemmas, UsbRequests,
    UsbFaults and UsbReset the properties.
  \<^item> The device modules (\<open>hdisk-src\<close>, \<open>cdrom-src\<close>, \<open>floppy-src\<close>): UsbMass. The three are copies of one
    another, so one set of definitions has what differs as an argument, \<open>mass_kind\<close>. A module builds the
    descriptors of its device with the operations of UsbDesc and registers the handlers of UsbBot; its
    ioctls hand packets and responses of the servers to IusbScsi, and configure the logical units and
    their slots. UsbBuild has the lemmas about tables under construction, UsbMassProps the descriptors
    that a module builds, UsbUnits the properties of the ioctls.
  \<^item> The encoding library (\<open>libencoding-src\<close>, Base32 and Base64): Encoding, properties in EncodingProps.
  \<^item> The checksum library (\<open>libchecksum-src\<close>, CRC-32, CRC-8 and a sum): Checksum.

  Prelude has what all of them share: machine integers, arrays, error codes.

  \<^bold>\<open>How state and operations correspond to the code\<close>

  A struct is a record, a function a definition of the same name on the explicit state; the cases
  of the two large switches (\<open>kcs_recv_byte\<close>, \<open>jbi_execute\<close>) are one definition each, joined by
  \<open>kcs_recv_byte\<close> and \<open>dispatch\<close>. A call that sleeps is two definitions, before and after the point
  where the process blocks (\<open>kcs_request_enter\<close> and \<open>kcs_request_leave\<close>, and the same for BT). Machine
  integers keep their width. An option result stands for a run of the C code: None is an access
  outside an array or outside mapped memory, or another operation C leaves undefined, so a theorem
  that a result is Some is a memory safety statement. Error codes are values.

  Hardware, and kernel services that may fail, are arguments: the register accessors (\<open>mmio\<close>,
  \<open>bt_mmio\<close>), the pin TDO as a function of the pin writes so far (\<open>rd\<close>), whether an allocation, a
  copy from or to user space or \<open>try_module_get\<close> succeeds. What the drivers rely on of the registers
  is stated once per device, in the locales \<open>lpc_kcs_device\<close>, \<open>lpc_kcs_host\<close> and \<open>ibt_device\<close>; register
  models with the documented behaviour interpret them, so no hypothesis is empty.

  \<^bold>\<open>The interfaces\<close>

  \<open>kcs_hal_contract\<close> and \<open>bt_hal_contract\<close> are what the core drivers rely on of a hardware driver;
  \<open>kcs_host_contract\<close> adds what the host may do. The facts about transfers are proved in these
  locales, and a sublocale shows that the AST drivers keep each contract on any device with the
  documented registers. \<open>scan_register\<close> is the common part of the data and the instruction register
  scans, interpreted for both. \<open>block_codec\<close> is what a pair of block routines promises to the loops of
  an encoder and a decoder, interpreted for Base64 and Base32; \<open>linear_register\<close> and
  \<open>message_register\<close> are the laws of a checksum register, interpreted for the two CRCs.
  \<open>descriptor_look\<close> is what one look at a descriptor promises to a search of the table, interpreted for
  the five searches; \<open>endpoint_step\<close>, \<open>quiet_step\<close> and \<open>marking_step\<close> are the contracts of a step for one endpoint with
  the loops over the endpoints of an interface, the interfaces of a configuration and the
  configurations: the first for steps that rewrite descriptors, the second for those that leave them,
  and the third, which extends the second, for those that leave a mark on each endpoint they find: the
  step that disables an endpoint and the one that wakes its writer.

  \<^bold>\<open>What the lemmas show\<close>

  \<^item> KCS: a whole transaction is exact; the invariant of the channel under every interleaving of
    interrupts, reads, responses of any length, ioctls, opens and releases, with registers changing in
    between; the two cases in which the handler faults, a request longer than its buffer and a host
    that reads on behind a response of no bytes; no wake-up is lost; aborts recover; late responses are
    dropped; and four defects (overflow, endless response, stale status, an error code that is never reset).
  \<^item> BT: a whole transaction through interrupt handler, registry and device file; safety under every
    interleaving and any behaviour of the host; repeated requests and lost attention bits.
  \<^item> Registry: well-formedness in every reachable state, first-fit allocation on ascending lists, open
    and close undo each other, and the collision of the third module of a type.
  \<^item> JTAG (JbiScanProofs, JbiTrack, JbiScanProps): the recorded TAP state is that of the controller on
    the pins, if it is known, over runs whose scans shift at least one bit and whose waits are in stable states; scans shift exactly the bits asked for and hand back exactly the bits
    captured; moves and waits.
  \<^item> Decompression (JbiCompProofs, JbiCompProps): it inverts an encoder of the format.
  \<^item> Interpreter (JbiStack, JbiCompile, JbiFlow, JbiLoop, JbiMessages, JbiArrays, JbiMain): the stack
    instructions implement an abstract stack machine; compiled expressions evaluate; a rule for counted
    loops with a body, by which they end, as long as the end value leaves room for a step below the largest long; bit fields round trip; messages are cut off in time, unless they are full; illegal opcodes.
  \<^item> Virtual mass storage: a transfer puts the buffer on the wire in packets, exactly; a read of blocks
    is a whole transaction from the command wrapper of the host over the server to the status wrapper;
    the data of a write reach the server once they are complete, and overrun their buffer when the
    host sends more than was announced; wrappers that are too long, too short, or for a logical unit
    that does not exist; a host that takes no empty packet.
  \<^item> The USB device: a search that steps through the bytes of the table finds what a search in the tree of
    descriptors finds; a descriptor or a string asked for reaches the host in the right packets, and a
    string of at most 125 characters added is the string read; every endpoint gets its size at each speed, and nothing else
    changes but version and size of endpoint 0; a reset of the bus ends every transfer, disables the endpoints, wakes the writers and leaves an
    unconfigured device, but not the remote wake-up as it was at first. Each operation of the construction appends to
    a table under construction, so that a module leaves the tree of descriptors of its device. Data of requests that overrun the
    buffer of endpoint 0, requests answered from behind it, refused requests that leave data behind,
    and endpoints that a failed selection uses up.
  \<^item> The device modules: the device each builds, with two suitable endpoints, is the one a host reads;
    without the key of the owner an ioctl changes nothing; a reset and \<open>n\<close> additions leave \<open>n\<close> units
    on the first slots, and on none once those are used up, and one addition too many leaves the tables.
    The flag \<open>FirstTime\<close> of \<open>ReleaseInstanceIndex\<close> is left out: a module has taken a slot before it can give one back.
  \<^item> Libraries: decoding inverts encoding, the text is the one of RFC 4648, the checksums are shift
    registers of their polynomials, and the byte-wise calls agree with the call for a whole buffer.
  \<^item> Helpers (JbiTextProofs, JbiCrc): decimal text round trips, names compare up to case, the CRC is
    the shift register of its polynomial and detects bursts of 16 bits in the bytes it covers, those before the CRC section.

  \<^bold>\<open>Loops, bounds and fuel\<close>

  A counted loop is structural recursion on the count. A loop that may run off the end of a string,
  and the main loop of the player, are partial functions of the option monad: not returning is None.
  \<open>goto_loop\<close>, the walk along the TAP path map, has fuel 9; no path has more than eight steps, and
  the theorems show that every move arrives. The delay loop terminates by a measure. The packet
  buffers have 33 * 1024 bytes as in the code.

  A process that sleeps in a USB transfer is woken by the environment, an argument that maps the state
  to the state at the wake-up and the time left: \<open>host_takes n\<close> is a host that takes up to \<open>n\<close>
  packets, \<open>obliging_host n\<close> also clears stalls, \<open>server_reply\<close> is a server that answers a request
  with given data. A transfer of \<open>n\<close> bytes has at most one packet more than \<open>n\<close> divided by the packet
  size, which bounds the packets such a host has to take. \<open>copy_scsi_response\<close> terminates by a measure.
  \<open>desc_scan\<close>, the walk through the bytes of the descriptors, ends on every table that holds descriptors
  and not on one with a descriptor of length 0 in it, so it is a partial function of the option
  monad, and the theorems show its result. On endpoint 0 the host is \<open>takes0 n\<close>, which takes \<open>n\<close> packets, and
  \<open>sends0\<close>, which sends a list of them.

  \<^bold>\<open>Not modelled\<close>

  Locking (every call of the registry and every handler is one step); module load and unload, proc
  and sysctl entries; the KCS hardware test ioctls, which poll registers without bound; debug
  output. Of the USB stack: hubs and more than one device, the tables of registered devices and hardware
  drivers, the signalling of remote wake-up, what a module takes back from the core when it is unloaded and its list
  of devices for the servers, keyboard and mouse, and the register drivers, which are the
  record of calls \<open>hw_calls\<close> of the core. The other drivers and tools of the repository are listed with
  reasons in the manifest: mostly third-party code (ipmitool, the kernel and boot loader patches,
  iniparser) and register programming for fixed hardware.
\<close>

end
